(* ===== verification/Viola_Prelude.thy ===== *)
theory Viola_Prelude
  imports Main "HOL-Library.AList" "HOL-Library.Char_ord" "HOL-Library.List_Lexorder"
begin

text \<open>
  The Python values and string operations the modelled modules use, and the lemma
  collections they share.

  A Python value read from a message is a \<open>pyval\<close>: \<open>None\<close>, a bool, an
  unbounded int, a string, a list or a dict.  A dict keeps its insertion order, so it
  is an association list: \<open>d[k] = v\<close> replaces the value in place or appends the
  pair, which is exactly the library's \<open>AList.update\<close>.  Floats, tuples and sets
  do not occur in the values the modelled code inspects.  A Python string is a list of
  characters with code points below 256.
\<close>

section \<open>Lemma collections\<close>

named_theorems py_simps \<open>evaluation of Python values\<close>
named_theorems chain_simps \<open>tool events of message chains\<close>

section \<open>Values\<close>

datatype pyval =
    PyNone
  | PyBool bool
  | PyInt int
  | PyStr string
  | PyList "pyval list"
  | PyDict "(string \<times> pyval) list"

type_synonym pydict = "(string \<times> pyval) list"

text \<open>\<open>d.get(k)\<close>: a missing key reads as \<open>None\<close>.\<close>

definition py_get :: "string \<Rightarrow> pydict \<Rightarrow> pyval" where
  "py_get k d = (case map_of d k of None \<Rightarrow> PyNone | Some v \<Rightarrow> v)"

text \<open>\<open>k in d\<close>\<close>

definition py_has :: "string \<Rightarrow> pydict \<Rightarrow> bool" where
  "py_has k d = (map_of d k \<noteq> None)"

abbreviation py_set :: "string \<Rightarrow> pyval \<Rightarrow> pydict \<Rightarrow> pydict" where
  "py_set \<equiv> AList.update"

fun py_truthy :: "pyval \<Rightarrow> bool" where
  "py_truthy PyNone = False"
| "py_truthy (PyBool b) = b"
| "py_truthy (PyInt i) = (i \<noteq> 0)"
| "py_truthy (PyStr s) = (s \<noteq> [])"
| "py_truthy (PyList xs) = (xs \<noteq> [])"
| "py_truthy (PyDict d) = (d \<noteq> [])"

text \<open>\<open>a or b\<close>\<close>

definition py_or :: "pyval \<Rightarrow> pyval \<Rightarrow> pyval" where
  "py_or a b = (if py_truthy a then a else b)"

text \<open>Truthiness and \<open>or\<close> for the typed \<open>str | None\<close> fields.\<close>

fun opt_truthy :: "string option \<Rightarrow> bool" where
  "opt_truthy None = False"
| "opt_truthy (Some s) = (s \<noteq> [])"

definition opt_or :: "string option \<Rightarrow> string option \<Rightarrow> string option" where
  "opt_or a b = (if opt_truthy a then a else b)"

fun opt_str :: "string option \<Rightarrow> string" where
  "opt_str None = []"
| "opt_str (Some s) = s"

fun opt_val :: "string option \<Rightarrow> pyval" where
  "opt_val None = PyNone"
| "opt_val (Some s) = PyStr s"

section \<open>Strings\<close>

type_synonym pytext = string

fun digit_char :: "nat \<Rightarrow> char" where
  "digit_char n = char_of (48 + n)"

fun nat_str :: "nat \<Rightarrow> string" where
  "nat_str n = (if n < 10 then [digit_char n] else nat_str (n div 10) @ [digit_char (n mod 10)])"

declare nat_str.simps [simp del]

definition int_str :: "int \<Rightarrow> string" where
  "int_str i = (if i < 0 then CHR ''-'' # nat_str (nat (- i)) else nat_str (nat i))"

definition char_code :: "char \<Rightarrow> nat" where
  "char_code c = of_char c"

text \<open>\<open>str.isspace\<close> on one character, as \<open>str.strip\<close> uses it.\<close>

definition py_space :: "char \<Rightarrow> bool" where
  "py_space c = (let n = char_code c in
     (9 \<le> n \<and> n \<le> 13) \<or> (28 \<le> n \<and> n \<le> 32) \<or> n = 133 \<or> n = 160)"

text \<open>\<open>str.isdigit\<close>, \<open>str.isalpha\<close> and \<open>str.isalnum\<close> on one character\<close>

definition py_isdigit :: "char \<Rightarrow> bool" where
  "py_isdigit c = (let n = char_code c in (48 \<le> n \<and> n \<le> 57) \<or> n = 178 \<or> n = 179 \<or> n = 185)"

definition py_isalpha :: "char \<Rightarrow> bool" where
  "py_isalpha c = (let n = char_code c in (65 \<le> n \<and> n \<le> 90) \<or> (97 \<le> n \<and> n \<le> 122)
     \<or> n = 170 \<or> n = 181 \<or> n = 186 \<or> (192 \<le> n \<and> n \<noteq> 215 \<and> n \<noteq> 247))"

definition py_isalnum :: "char \<Rightarrow> bool" where
  "py_isalnum c = (py_isalpha c \<or> py_isdigit c \<or> (let n = char_code c in 188 \<le> n \<and> n \<le> 190))"

definition py_strip :: "string \<Rightarrow> string" where
  "py_strip s = rev (dropWhile py_space (rev (dropWhile py_space s)))"

text \<open>\<open>s.lstrip()\<close>, \<open>s.rstrip("\n")\<close> and \<open>s.lstrip("\n")\<close>\<close>

definition py_lstrip :: "string \<Rightarrow> string" where
  "py_lstrip s = dropWhile py_space s"

definition rstrip_newlines :: "string \<Rightarrow> string" where
  "rstrip_newlines s = rev (dropWhile (\<lambda>c. c = CHR 0x0A) (rev s))"

definition lstrip_newlines :: "string \<Rightarrow> string" where
  "lstrip_newlines s = dropWhile (\<lambda>c. c = CHR 0x0A) s"

definition lower_char :: "char \<Rightarrow> char" where
  "lower_char c = (let n = char_code c in
     if (65 \<le> n \<and> n \<le> 90) \<or> (192 \<le> n \<and> n \<le> 214) \<or> (216 \<le> n \<and> n \<le> 222)
     then char_of (n + 32) else c)"

definition py_lower :: "string \<Rightarrow> string" where
  "py_lower s = map lower_char s"

text \<open>\<open>str.upper\<close> on ASCII letters, the only ones it is called on.\<close>

definition ascii_upper_char :: "char \<Rightarrow> char" where
  "ascii_upper_char c = (let n = char_code c in if 97 \<le> n \<and> n \<le> 122 then char_of (n - 32) else c)"

definition ascii_upper :: "string \<Rightarrow> string" where
  "ascii_upper s = map ascii_upper_char s"

fun starts_with :: "string \<Rightarrow> string \<Rightarrow> bool" where
  "starts_with [] s = True"
| "starts_with (p # ps) [] = False"
| "starts_with (p # ps) (c # cs) = (p = c \<and> starts_with ps cs)"

definition ends_with :: "string \<Rightarrow> string \<Rightarrow> bool" where
  "ends_with p s = starts_with (rev p) (rev s)"

text \<open>\<open>p in s\<close> on strings\<close>

fun str_contains :: "string \<Rightarrow> string \<Rightarrow> bool" where
  "str_contains p [] = (p = [])"
| "str_contains p (c # cs) = (starts_with p (c # cs) \<or> str_contains p cs)"

text \<open>\<open>sep.join(parts)\<close>\<close>

fun join_with :: "string \<Rightarrow> string list \<Rightarrow> string" where
  "join_with sep [] = []"
| "join_with sep [p] = p"
| "join_with sep (p # q # ps) = p @ sep @ join_with sep (q # ps)"

text \<open>\<open>s.split(",")\<close>, with the part read so far\<close>

fun split_commas :: "string \<Rightarrow> string \<Rightarrow> string list" where
  "split_commas current [] = [current]"
| "split_commas current (c # cs) = (if c = CHR '','' then current # split_commas [] cs else split_commas (current @ [c]) cs)"

definition newline :: string where
  "newline = [CHR 0x0A]"

section \<open>Lists\<close>

text \<open>\<open>xs[-limit:]\<close>: the last \<open>limit\<close> elements; with a limit of 0 the slice is the whole list, and a
  negative limit drops from the front.\<close>

definition last_slice :: "int \<Rightarrow> 'a list \<Rightarrow> 'a list" where
  "last_slice limit xs = (if limit > 0 then drop (length xs - nat limit) xs else drop (nat (- limit)) xs)"

text \<open>\<open>append\<close> on a \<open>deque(maxlen=n)\<close>: the oldest elements fall out.\<close>

definition push_bounded :: "nat \<Rightarrow> 'a list \<Rightarrow> 'a \<Rightarrow> 'a list" where
  "push_bounded n xs x = (let ys = xs @ [x] in drop (length ys - n) ys)"

section \<open>\<open>repr\<close> and \<open>str\<close>\<close>

definition hex_char :: "nat \<Rightarrow> char" where
  "hex_char n = char_of (if n < 10 then 48 + n else 87 + n)"

definition repr_char :: "char \<Rightarrow> char \<Rightarrow> string" where
  "repr_char q c = (let n = char_code c in
     if c = q \<or> n = 92 then [CHR 0x5C, c]
     else if n = 9 then [CHR 0x5C, CHR ''t'']
     else if n = 10 then [CHR 0x5C, CHR ''n'']
     else if n = 13 then [CHR 0x5C, CHR ''r'']
     else if n < 32 \<or> (127 \<le> n \<and> n \<le> 160) \<or> n = 173
     then [CHR 0x5C, CHR ''x'', hex_char (n div 16), hex_char (n mod 16)]
     else [c])"

definition py_repr_str :: "string \<Rightarrow> string" where
  "py_repr_str s = (let q = (if CHR 0x27 \<in> set s \<and> CHR 0x22 \<notin> set s then CHR 0x22 else CHR 0x27)
     in [q] @ concat (map (repr_char q) s) @ [q])"

fun py_repr :: "pyval \<Rightarrow> string" where
  "py_repr PyNone = ''None''"
| "py_repr (PyBool b) = (if b then ''True'' else ''False'')"
| "py_repr (PyInt i) = int_str i"
| "py_repr (PyStr s) = py_repr_str s"
| "py_repr (PyList xs) = ''['' @ join_with '', '' (map py_repr xs) @ '']''"
| "py_repr (PyDict d) =
     ''{'' @ join_with '', '' (map (\<lambda>(k, v). py_repr_str k @ '': '' @ py_repr v) d) @ ''}''"

definition py_str :: "pyval \<Rightarrow> string" where
  "py_str v = (case v of PyStr s \<Rightarrow> s | _ \<Rightarrow> py_repr v)"

text \<open>\<open>json.dumps(v, ensure_ascii=False)\<close>\<close>

definition json_char :: "char \<Rightarrow> string" where
  "json_char c = (let n = char_code c in
     if n = 34 \<or> n = 92 then [CHR 0x5C, c]
     else if n = 8 then [CHR 0x5C, CHR ''b'']
     else if n = 9 then [CHR 0x5C, CHR ''t'']
     else if n = 10 then [CHR 0x5C, CHR ''n'']
     else if n = 12 then [CHR 0x5C, CHR ''f'']
     else if n = 13 then [CHR 0x5C, CHR ''r'']
     else if n < 32 then CHR 0x5C # ''u00'' @ [hex_char (n div 16), hex_char (n mod 16)]
     else [c])"

definition json_str :: "string \<Rightarrow> string" where
  "json_str s = CHR 0x22 # concat (map json_char s) @ [CHR 0x22]"

fun json_dumps :: "pyval \<Rightarrow> string" where
  "json_dumps PyNone = ''null''"
| "json_dumps (PyBool b) = (if b then ''true'' else ''false'')"
| "json_dumps (PyInt i) = int_str i"
| "json_dumps (PyStr s) = json_str s"
| "json_dumps (PyList xs) = ''['' @ join_with '', '' (map json_dumps xs) @ '']''"
| "json_dumps (PyDict d) =
     ''{'' @ join_with '', '' (map (\<lambda>(k, v). json_str k @ '': '' @ json_dumps v) d) @ ''}''"

text \<open>\<open>str(v or "")\<close>, the reading the code applies to every id and type field.\<close>

definition str_or_empty :: "pyval \<Rightarrow> string" where
  "str_or_empty v = (if py_truthy v then py_str v else [])"

section \<open>Lemmas on values\<close>

lemma py_get_update [simp, py_simps]:
  "py_get k (py_set k' v d) = (if k = k' then v else py_get k d)"
  by (simp add: py_get_def update_conv')

lemma py_has_update [simp, py_simps]:
  "py_has k (py_set k' v d) = (k = k' \<or> py_has k d)"
  by (simp add: py_has_def update_conv')

lemma py_get_delete [simp, py_simps]:
  "py_get k (AList.delete k' d) = (if k = k' then PyNone else py_get k d)"
  by (simp add: py_get_def delete_conv')

lemma py_has_delete [simp, py_simps]:
  "py_has k (AList.delete k' d) = (k \<noteq> k' \<and> py_has k d)"
  by (simp add: py_has_def delete_conv')

lemma py_get_Nil [simp, py_simps]: "py_get k [] = PyNone"
  by (simp add: py_get_def)

lemma py_get_Cons [simp, py_simps]:
  "py_get k ((k', v) # d) = (if k = k' then v else py_get k d)"
  by (simp add: py_get_def)

lemma py_has_Nil [simp, py_simps]: "\<not> py_has k []"
  by (simp add: py_has_def)

lemma py_has_Cons [simp, py_simps]: "py_has k ((k', v) # d) = (k = k' \<or> py_has k d)"
  by (simp add: py_has_def)

lemma py_get_not_has: "\<not> py_has k d \<Longrightarrow> py_get k d = PyNone"
  by (simp add: py_has_def py_get_def)

lemma str_or_empty_simps [simp, py_simps]:
  "str_or_empty PyNone = []"
  "str_or_empty (PyStr s) = s"
  by (simp_all add: str_or_empty_def py_str_def)

lemma py_str_PyStr [simp, py_simps]: "py_str (PyStr s) = s"
  by (simp add: py_str_def)

lemma opt_or_simps [simp]:
  "opt_or None b = b"
  "s \<noteq> [] \<Longrightarrow> opt_or (Some s) b = Some s"
  "opt_or (Some []) b = b"
  by (simp_all add: opt_or_def)

lemma opt_truthy_iff: "opt_truthy x \<longleftrightarrow> (\<exists>s. x = Some s \<and> s \<noteq> [])"
  by (cases x) auto

section \<open>Lemmas on strings\<close>

lemma nat_str_nonempty [simp]: "nat_str n \<noteq> []"
  by (simp add: nat_str.simps [of n])

lemma dropWhile_rev_strip:
  "dropWhile P (rev (dropWhile P (rev (dropWhile P xs)))) = rev (dropWhile P (rev (dropWhile P xs)))"
proof (cases "dropWhile P xs")
  case Nil
  then show ?thesis unfolding Nil by simp
next
  case (Cons y ys)
  then have "\<not> P y"
    by (metis hd_dropWhile list.distinct(1) list.sel(1))
  then show ?thesis
    unfolding Cons by (simp add: dropWhile_append)
qed

lemma py_strip_idem [simp]: "py_strip (py_strip s) = py_strip s"
  by (simp add: py_strip_def dropWhile_rev_strip)

lemma py_strip_Nil [simp]: "py_strip [] = []"
  by (simp add: py_strip_def)

lemma py_strip_empty_iff: "py_strip s = [] \<longleftrightarrow> (\<forall>c \<in> set s. py_space c)"
  by (auto simp: py_strip_def dropWhile_eq_Nil_conv dest: set_dropWhileD)
     (metis dropWhile_eq_Nil_conv hd_dropWhile list.set_sel(1))

lemma starts_with_iff: "starts_with p s \<longleftrightarrow> (\<exists>t. s = p @ t)"
  by (induction p s rule: starts_with.induct) auto

lemma str_contains_iff: "str_contains p s \<longleftrightarrow> (\<exists>a b. s = a @ p @ b)"
proof (induction s)
  case (Cons c s)
  note IH = Cons.IH
  show ?case
  proof
    assume "str_contains p (c # s)"
    then consider t where "c # s = p @ t" | a b where "s = a @ p @ b"
      using Cons by (auto simp: starts_with_iff)
    then show "\<exists>a b. c # s = a @ p @ b"
    proof cases
      case (1 t)
      then have "c # s = [] @ p @ t" by simp
      then show ?thesis by blast
    next
      case (2 a b)
      then have "c # s = (c # a) @ p @ b" by simp
      then show ?thesis by blast
    qed
  next
    assume "\<exists>a b. c # s = a @ p @ b"
    then obtain a b where ab: "c # s = a @ p @ b" by blast
    show "str_contains p (c # s)"
    proof (cases a)
      case Nil
      with ab have "starts_with p (c # s)" by (simp only: starts_with_iff) auto
      then show ?thesis by simp
    next
      case (Cons x a')
      with ab have "\<exists>a b. s = a @ p @ b" by auto
      then show ?thesis using IH by simp
    qed
  qed
qed simp

section \<open>Lemmas on lists\<close>

lemma filter_id_iff: "filter P xs = xs \<longleftrightarrow> (\<forall>x \<in> set xs. P x)"
  by (simp add: filter_id_conv)

lemma last_slice_0: "last_slice 0 xs = xs"
  by (simp add: last_slice_def)

lemma length_last_slice: "0 < limit \<Longrightarrow> length (last_slice limit xs) \<le> nat limit"
  by (simp add: last_slice_def)

lemma length_push_bounded: "length (push_bounded n xs x) = min n (Suc (length xs))"
  by (simp add: push_bounded_def Let_def)

lemma push_bounded_fits: "length xs < n \<Longrightarrow> push_bounded n xs x = xs @ [x]"
  by (simp add: push_bounded_def Let_def)

lemma last_push_bounded: "0 < n \<Longrightarrow> push_bounded n xs x \<noteq> [] \<and> last (push_bounded n xs x) = x"
  by (simp add: push_bounded_def Let_def)

lemma set_push_bounded: "set (push_bounded n xs x) \<subseteq> insert x (set xs)"
  using set_drop_subset[of "length (xs @ [x]) - n" "xs @ [x]"] by (simp add: push_bounded_def Let_def)

lemma concat_map_filter_Nil: "(\<And>x. x \<in> set xs \<Longrightarrow> f x = []) \<Longrightarrow> concat (map f xs) = []"
  by (induction xs) auto

end
