(* ===== verification/Tool_Pairing.thy ===== *)
theory Tool_Pairing
  imports Viola_Prelude
begin

text \<open>
  The contract between tool calls and tool results in a model-bound transcript, and the
  interface of the modules that repair a transcript.

  A transcript is read as its sequence of tool events.  Providers reject a transcript in
  which an id is declared twice, a result has no earlier call, a call has two results, or
  a call has none.  The scan keeps the two id sets the code's loops keep
  (\<open>seen_tool_uses\<close> and \<open>seen_results\<close>).
\<close>

datatype tool_event = Use string | Res string

fun use_list :: "tool_event list \<Rightarrow> string list" where
  "use_list [] = []"
| "use_list (Use i # es) = i # use_list es"
| "use_list (Res i # es) = use_list es"

fun res_list :: "tool_event list \<Rightarrow> string list" where
  "res_list [] = []"
| "res_list (Use i # es) = res_list es"
| "res_list (Res i # es) = i # res_list es"

fun scan :: "string set \<Rightarrow> string set \<Rightarrow> tool_event list \<Rightarrow> (string set \<times> string set) option" where
  "scan U R [] = Some (U, R)"
| "scan U R (Use i # es) = (if i = [] \<or> i \<in> U then None else scan (insert i U) R es)"
| "scan U R (Res i # es) = (if i = [] \<or> i \<notin> U \<or> i \<in> R then None else scan U (insert i R) es)"

text \<open>Every result answers an earlier call, once; ids are fresh and not empty.\<close>

definition causal :: "tool_event list \<Rightarrow> bool" where
  "causal es = (scan {} {} es \<noteq> None)"

text \<open>The transcript a provider accepts: causal, and every call has its result.\<close>

definition well_paired :: "tool_event list \<Rightarrow> bool" where
  "well_paired es = (case scan {} {} es of None \<Rightarrow> False | Some (U, R) \<Rightarrow> U \<subseteq> R)"

definition uses_ok :: "tool_event list \<Rightarrow> bool" where
  "uses_ok es = (distinct (use_list es) \<and> [] \<notin> set (use_list es))"

definition chain_events :: "('m \<Rightarrow> tool_event list) \<Rightarrow> 'm list \<Rightarrow> tool_event list" where
  "chain_events events ms = concat (map events ms)"

section \<open>The scan\<close>

lemma use_list_append [simp, chain_simps]: "use_list (es @ fs) = use_list es @ use_list fs"
  by (induction es rule: use_list.induct) auto

lemma res_list_append [simp, chain_simps]: "res_list (es @ fs) = res_list es @ res_list fs"
  by (induction es rule: res_list.induct) auto

lemma use_list_map [simp, chain_simps]:
  "use_list (map Use is) = is" "use_list (map Res is) = []"
  by (induction "is") auto

lemma res_list_map [simp, chain_simps]:
  "res_list (map Use is) = []" "res_list (map Res is) = is"
  by (induction "is") auto

lemma chain_simps' [simp, chain_simps]:
  "chain_events events [] = []"
  "chain_events events (m # ms) = events m @ chain_events events ms"
  "chain_events events (ms @ ns) = chain_events events ms @ chain_events events ns"
  by (simp_all add: chain_events_def)

lemma scan_append:
  "scan U R (es @ fs) = (case scan U R es of None \<Rightarrow> None | Some (U', R') \<Rightarrow> scan U' R' fs)"
  by (induction U R es rule: scan.induct) auto

lemma scan_sets:
  "scan U R es = Some (U', R') \<Longrightarrow> U' = U \<union> set (use_list es) \<and> R' = R \<union> set (res_list es)"
  by (induction U R es rule: scan.induct) (auto split: if_splits)

lemma scan_uses:
  "scan U R es = Some (U', R') \<Longrightarrow>
    distinct (use_list es) \<and> set (use_list es) \<inter> U = {} \<and> [] \<notin> set (use_list es)"
  by (induction U R es rule: scan.induct) (auto split: if_splits)

lemma scan_results:
  "scan U R es = Some (U', R') \<Longrightarrow>
    distinct (res_list es) \<and> set (res_list es) \<inter> R = {} \<and> [] \<notin> set (res_list es)"
  by (induction U R es rule: scan.induct) (auto split: if_splits)

lemma scan_answers: "scan U R es = Some (U', R') \<Longrightarrow> set (res_list es) \<subseteq> U'"
proof (induction U R es rule: scan.induct)
  case (3 U R i es)
  then have st: "scan U (insert i R) es = Some (U', R')" and i: "\<not> (i = [] \<or> i \<notin> U \<or> i \<in> R)"
    by (auto split: if_splits)
  have "set (res_list es) \<subseteq> U'" using "3.IH"[OF i st] .
  with i scan_sets[OF st] show ?case by auto
qed (auto split: if_splits)

text \<open>The events of a block of calls and of a block of results.\<close>

lemma scan_map_Use:
  "scan U R (map Use is) =
    (if distinct is \<and> [] \<notin> set is \<and> set is \<inter> U = {} then Some (U \<union> set is, R) else None)"
  by (induction "is" arbitrary: U) auto

lemma scan_map_Res:
  "scan U R (map Res is) =
    (if distinct is \<and> [] \<notin> set is \<and> set is \<subseteq> U \<and> set is \<inter> R = {} then Some (U, R \<union> set is)
     else None)"
  by (induction "is" arbitrary: R) auto

lemma scan_Res_block:
  "distinct is \<Longrightarrow> [] \<notin> set is \<Longrightarrow> set is \<subseteq> U \<Longrightarrow> set is \<inter> R = {} \<Longrightarrow>
    scan U R (map Res is) = Some (U, R \<union> set is)"
  by (simp add: scan_map_Res)

text \<open>
  What well-pairedness means, without the scan: the ids are distinct, calls and results
  are the same ids, and no result comes before its call.
\<close>

lemma scan_other_results:
  "scan U R es = Some (U', R') \<Longrightarrow> S \<inter> set (res_list es) = {} \<Longrightarrow>
    scan U S es = Some (U', S \<union> set (res_list es))"
proof (induction U R es arbitrary: S rule: scan.induct)
  case (3 U R i es)
  then have st: "scan U (insert i R) es = Some (U', R')" and i: "\<not> (i = [] \<or> i \<notin> U \<or> i \<in> R)"
    by (auto split: if_splits)
  have "i \<notin> set (res_list es)" using scan_results[OF st] by auto
  with "3.prems"(2) have "insert i S \<inter> set (res_list es) = {}" by auto
  from "3.IH"[OF i st this] i "3.prems"(2) show ?case by auto
qed (auto split: if_splits)

lemma causal_prefix: "causal (es @ fs) \<Longrightarrow> causal es"
  by (auto simp: causal_def scan_append split: option.splits)

lemma causal_iff:
  "causal es \<longleftrightarrow> uses_ok es \<and> distinct (res_list es)
     \<and> (\<forall>fs gs. es = fs @ gs \<longrightarrow> set (res_list fs) \<subseteq> set (use_list fs))"
proof (induction es rule: rev_induct)
  case Nil
  show ?case by (simp add: causal_def uses_ok_def)
next
  case (snoc e es)
  have pre: "(\<forall>fs gs. es @ [e] = fs @ gs \<longrightarrow> set (res_list fs) \<subseteq> set (use_list fs)) \<longleftrightarrow>
      set (res_list (es @ [e])) \<subseteq> set (use_list (es @ [e]))
      \<and> (\<forall>fs gs. es = fs @ gs \<longrightarrow> set (res_list fs) \<subseteq> set (use_list fs))" (is "?l \<longleftrightarrow> ?r")
  proof
    assume l: ?l
    have "set (res_list (es @ [e])) \<subseteq> set (use_list (es @ [e]))" using l by blast
    moreover have "set (res_list fs) \<subseteq> set (use_list fs)" if "es = fs @ gs" for fs gs
      using l that by (metis append_assoc)
    ultimately show ?r by blast
  next
    assume r: ?r
    show ?l
    proof (intro allI impI)
      fix fs gs assume eq: "es @ [e] = fs @ gs"
      show "set (res_list fs) \<subseteq> set (use_list fs)"
      proof (cases gs rule: rev_cases)
        case Nil
        with eq r show ?thesis by simp
      next
        case (snoc gs' g)
        with eq have "es = fs @ gs'" by simp
        with r show ?thesis by blast
      qed
    qed
  qed
  show ?case
  proof (cases "scan {} {} es")
    case None
    then have "\<not> causal es" "\<not> causal (es @ [e])" by (auto simp: causal_def scan_append)
    then show ?thesis using snoc pre by (auto simp: uses_ok_def)
  next
    case (Some p)
    then obtain U R where UR: "scan {} {} es = Some (U, R)" by (cases p) auto
    from scan_sets[OF UR] have U: "U = set (use_list es)" and R: "R = set (res_list es)" by auto
    have c: "causal es" using UR by (simp add: causal_def)
    note d = scan_uses[OF UR] scan_results[OF UR]
    show ?thesis
      unfolding pre using c snoc d
      by (cases e) (auto simp: causal_def scan_append UR U R uses_ok_def)
  qed
qed

lemma well_paired_iff:
  "well_paired es \<longleftrightarrow> causal es \<and> set (use_list es) = set (res_list es)"
proof (cases "scan {} {} es")
  case None
  then show ?thesis by (simp add: well_paired_def causal_def)
next
  case (Some p)
  then obtain U R where UR: "scan {} {} es = Some (U, R)" by (cases p) auto
  from scan_sets[OF UR] scan_answers[OF UR] UR show ?thesis
    by (auto simp: well_paired_def causal_def)
qed

lemma well_pairedD:
  assumes "well_paired es"
  shows "causal es" "uses_ok es" "distinct (res_list es)" "set (use_list es) = set (res_list es)"
  using assms by (auto simp: well_paired_iff causal_iff)

section \<open>Answers, whatever the calls\<close>

text \<open>The half of \<open>causal\<close> that speaks of results: each answers an earlier call, and no call twice.
  A call may be declared more than once.\<close>

fun answers_only :: "string set \<Rightarrow> string set \<Rightarrow> tool_event list \<Rightarrow> bool" where
  "answers_only U R [] = True"
| "answers_only U R (Use i # es) = answers_only (insert i U) R es"
| "answers_only U R (Res i # es) = (i \<noteq> [] \<and> i \<in> U \<and> i \<notin> R \<and> answers_only U (insert i R) es)"

lemma answers_only_append:
  "answers_only U R (es @ fs) \<longleftrightarrow>
    answers_only U R es \<and> answers_only (U \<union> set (use_list es)) (R \<union> set (res_list es)) fs"
  by (induction U R es rule: answers_only.induct) auto

lemma answers_only_mono: "answers_only U R es \<Longrightarrow> U \<subseteq> V \<Longrightarrow> answers_only V R es"
proof (induction U R es arbitrary: V rule: answers_only.induct)
  case (2 U R i es)
  then show ?case using insert_mono[OF "2.prems"(2)] by auto
qed auto

lemma answers_only_Res: "answers_only U R (map Res is) \<longleftrightarrow>
    distinct is \<and> [] \<notin> set is \<and> set is \<subseteq> U \<and> set is \<inter> R = {}"
  by (induction "is" arbitrary: R) auto

lemma scan_answers_only:
  "scan U R es \<noteq> None \<longleftrightarrow> answers_only U R es \<and> distinct (use_list es)
     \<and> [] \<notin> set (use_list es) \<and> set (use_list es) \<inter> U = {}"
  by (induction U R es rule: scan.induct) auto

lemma causal_answers: "causal es \<longleftrightarrow> uses_ok es \<and> answers_only {} {} es"
  unfolding causal_def scan_answers_only by (auto simp: uses_ok_def)

section \<open>Whole calls only\<close>

text \<open>A part of a transcript that keeps or drops each id with all its events is paired as well.\<close>

fun event_id :: "tool_event \<Rightarrow> string" where
  "event_id (Use i) = i"
| "event_id (Res i) = i"

lemma scan_filter:
  "scan U R es = Some (U', R') \<Longrightarrow>
    scan (U \<inter> S) (R \<inter> S) (filter (\<lambda>e. event_id e \<in> S) es) = Some (U' \<inter> S, R' \<inter> S)"
  by (induction U R es rule: scan.induct) (auto split: if_splits)

lemma well_paired_filter: "well_paired es \<Longrightarrow> well_paired (filter (\<lambda>e. event_id e \<in> S) es)"
  using scan_filter[of "{}" "{}" es _ _ S] by (auto simp: well_paired_def split: option.splits)

lemma event_ids: "event_id ` set es = set (use_list es) \<union> set (res_list es)"
  by (induction es rule: use_list.induct) auto

section \<open>The interface of a transcript repair\<close>

text \<open>
  Both repairs of the program (over frames and over provider messages) are three passes:
  drop repeated calls, drop results with no earlier call, add a synthetic result for a
  call with none.  The contract says what each pass promises about the events; that the
  three together give a transcript a provider accepts is proved once here.
\<close>

locale transcript_repair =
  fixes events :: "'m \<Rightarrow> tool_event list"
    and ok :: "'m list \<Rightarrow> bool"
    and dedupe :: "'m list \<Rightarrow> 'm list"
    and strip :: "'m list \<Rightarrow> 'm list"
    and insert_missing :: "'m list \<Rightarrow> 'm list"
  assumes dedupe_ok: "ok ms \<Longrightarrow> ok (dedupe ms)"
    and dedupe_uses: "ok ms \<Longrightarrow> uses_ok (chain_events events (dedupe ms))"
    and strip_ok: "ok ms \<Longrightarrow> ok (strip ms)"
    and strip_causal: "ok ms \<Longrightarrow> uses_ok (chain_events events ms) \<Longrightarrow> causal (chain_events events (strip ms))"
    and insert_causal: "ok ms \<Longrightarrow> causal (chain_events events ms) \<Longrightarrow>
          well_paired (chain_events events (insert_missing ms))"
begin

lemma repair_well_paired:
  "ok ms \<Longrightarrow> well_paired (chain_events events (insert_missing (strip (dedupe ms))))"
  by (intro insert_causal strip_causal strip_ok dedupe_ok dedupe_uses)

end

text \<open>A repair that leaves a transcript alone that needs none; \<open>plain\<close> is the shape it asks for.\<close>

locale stable_transcript_repair = transcript_repair +
  fixes plain :: "'a list \<Rightarrow> bool"
  assumes dedupe_fix: "plain ms \<Longrightarrow> uses_ok (chain_events events ms) \<Longrightarrow> dedupe ms = ms"
    and strip_fix: "plain ms \<Longrightarrow> causal (chain_events events ms) \<Longrightarrow> strip ms = ms"
    and insert_fix: "plain ms \<Longrightarrow> well_paired (chain_events events ms) \<Longrightarrow> insert_missing ms = ms"
begin

lemma repair_fix:
  assumes "plain ms" "well_paired (chain_events events ms)"
  shows "insert_missing (strip (dedupe ms)) = ms"
  using assms well_pairedD[OF assms(2)] by (simp add: dedupe_fix strip_fix insert_fix)

text \<open>Repairing a repaired transcript of that shape changes nothing.\<close>

lemma repair_idem:
  assumes "ok ms" "plain (insert_missing (strip (dedupe ms)))"
  shows "insert_missing (strip (dedupe (insert_missing (strip (dedupe ms)))))
    = insert_missing (strip (dedupe ms))"
  by (rule repair_fix[OF assms(2) repair_well_paired[OF assms(1)]])

end

end
