(* ===== verification/Context_Frames.thy ===== *)
theory Context_Frames
  imports Tool_Pairing
begin

text \<open>
  The frames of model-bound conversation state (\<open>services/conversation/context_frames.py\<close>):
  roles, kinds and content blocks, the frame dataclass with its defaults, the frame
  constructors, and the prompt bundle with its construction check.  Every \<open>str | None\<close>
  field is a \<open>string option\<close>; \<open>extra\<close> is a dict.
\<close>

datatype frame_role = SYSTEM | USER | ASSISTANT | TOOL | META_USER

datatype frame_kind = USER_INPUT | ASSISTANT_TEXT | TOOL_USE | TOOL_RESULT | SYSTEM_REMINDER

fun kind_value :: "frame_kind \<Rightarrow> string" where
  "kind_value USER_INPUT = ''user_input''"
| "kind_value ASSISTANT_TEXT = ''assistant_text''"
| "kind_value TOOL_USE = ''tool_use''"
| "kind_value TOOL_RESULT = ''tool_result''"
| "kind_value SYSTEM_REMINDER = ''system_reminder''"

text \<open>\<open>ToolUseBlock id name input\<close>, \<open>ToolResultBlock id tool_name content is_error\<close>,
  \<open>SystemReminderBlock text source_tag\<close>\<close>

datatype content_block =
    TextBlock string
  | ToolUseBlock string string pyval
  | ToolResultBlock string string string bool
  | SystemReminderBlock string "string option"

record frame =
  f_kind :: frame_kind
  f_role :: frame_role
  f_blocks :: "content_block list"
  f_is_meta :: bool
  f_is_compact_summary :: bool
  f_source_tool_assistant_uuid :: "string option"
  f_origin :: "string option"
  f_tool_use_id :: "string option"
  f_task_id :: "string option"
  f_permission_mode :: "string option"
  f_timestamp_ms :: int
  f_ttl_turns :: "int option"
  f_relevance :: string
  f_schema_version :: int
  f_extra :: pydict
  f_uuid :: "string option"
  f_parent_uuid :: "string option"
  f_logical_parent_uuid :: "string option"
  f_session_id :: "string option"

text \<open>\<open>Frame(kind=..., role=..., blocks=...)\<close>: every other field at its default.\<close>

definition new_frame :: "frame_kind \<Rightarrow> frame_role \<Rightarrow> content_block list \<Rightarrow> frame" where
  "new_frame k r bs = \<lparr>f_kind = k, f_role = r, f_blocks = bs, f_is_meta = False,
     f_is_compact_summary = False, f_source_tool_assistant_uuid = None, f_origin = None,
     f_tool_use_id = None, f_task_id = None, f_permission_mode = None, f_timestamp_ms = 0,
     f_ttl_turns = None, f_relevance = ''always'', f_schema_version = 1, f_extra = [],
     f_uuid = None, f_parent_uuid = None, f_logical_parent_uuid = None, f_session_id = None\<rparr>"

section \<open>Blocks\<close>

fun is_tool_use :: "content_block \<Rightarrow> bool" where
  "is_tool_use (ToolUseBlock _ _ _) = True"
| "is_tool_use _ = False"

fun is_tool_result :: "content_block \<Rightarrow> bool" where
  "is_tool_result (ToolResultBlock _ _ _ _) = True"
| "is_tool_result _ = False"

fun is_text :: "content_block \<Rightarrow> bool" where
  "is_text (TextBlock _) = True"
| "is_text _ = False"

fun is_reminder :: "content_block \<Rightarrow> bool" where
  "is_reminder (SystemReminderBlock _ _) = True"
| "is_reminder _ = False"

text \<open>\<open>block.tool_use_id\<close> of a tool block\<close>

fun block_tool_id :: "content_block \<Rightarrow> string" where
  "block_tool_id (ToolUseBlock i _ _) = i"
| "block_tool_id (ToolResultBlock i _ _ _) = i"
| "block_tool_id _ = []"

text \<open>The non-empty ids a frame's blocks declare and answer.\<close>

definition block_use_ids :: "content_block list \<Rightarrow> string list" where
  "block_use_ids bs = filter (\<lambda>i. i \<noteq> []) (map block_tool_id (filter is_tool_use bs))"

definition block_result_ids :: "content_block list \<Rightarrow> string list" where
  "block_result_ids bs = filter (\<lambda>i. i \<noteq> []) (map block_tool_id (filter is_tool_result bs))"

fun block_event :: "content_block \<Rightarrow> tool_event list" where
  "block_event (ToolUseBlock i _ _) = [Use i]"
| "block_event (ToolResultBlock i _ _ _) = [Res i]"
| "block_event _ = []"

definition frame_events :: "frame \<Rightarrow> tool_event list" where
  "frame_events f = concat (map block_event (f_blocks f))"

section \<open>Constructors\<close>

definition text_frame ::
    "frame_kind \<Rightarrow> frame_role \<Rightarrow> string \<Rightarrow> string option \<Rightarrow> bool \<Rightarrow> string option \<Rightarrow> int \<Rightarrow>
     string option \<Rightarrow> string option \<Rightarrow> string option \<Rightarrow> string option \<Rightarrow> string option \<Rightarrow> frame" where
  "text_frame k r txt origin is_meta task_id ts perm uu parent lparent sess =
     (new_frame k r [TextBlock txt])\<lparr>f_is_meta := is_meta, f_origin := origin,
       f_timestamp_ms := ts, f_task_id := task_id, f_permission_mode := perm, f_uuid := uu,
       f_parent_uuid := parent, f_logical_parent_uuid := lparent, f_session_id := sess\<rparr>"

definition system_reminder_frame ::
    "frame_kind \<Rightarrow> string \<Rightarrow> string option \<Rightarrow> string option \<Rightarrow> string option \<Rightarrow> int \<Rightarrow>
     string option \<Rightarrow> string option \<Rightarrow> string option \<Rightarrow> string option \<Rightarrow> string option \<Rightarrow> frame" where
  "system_reminder_frame k txt tag origin task_id ts perm uu parent lparent sess =
     (new_frame k META_USER [SystemReminderBlock txt tag])\<lparr>f_is_meta := True, f_origin := origin,
       f_timestamp_ms := ts, f_task_id := task_id, f_permission_mode := perm, f_uuid := uu,
       f_parent_uuid := parent, f_logical_parent_uuid := lparent, f_session_id := sess\<rparr>"

definition tool_use_frame ::
    "string \<Rightarrow> string \<Rightarrow> pyval \<Rightarrow> string option \<Rightarrow> int \<Rightarrow> string option \<Rightarrow> string option \<Rightarrow>
     string option \<Rightarrow> string option \<Rightarrow> string option \<Rightarrow> string option \<Rightarrow> frame" where
  "tool_use_frame tid nm args task_id ts src perm uu parent lparent sess =
     (new_frame TOOL_USE ASSISTANT [ToolUseBlock tid nm args])\<lparr>f_tool_use_id := Some tid,
       f_source_tool_assistant_uuid := src, f_timestamp_ms := ts, f_task_id := task_id,
       f_permission_mode := perm, f_uuid := uu, f_parent_uuid := parent,
       f_logical_parent_uuid := lparent, f_session_id := sess\<rparr>"

definition tool_result_frame ::
    "string \<Rightarrow> string \<Rightarrow> string \<Rightarrow> bool \<Rightarrow> string option \<Rightarrow> string option \<Rightarrow> int \<Rightarrow> string option \<Rightarrow>
     string option \<Rightarrow> string option \<Rightarrow> string option \<Rightarrow> string option \<Rightarrow> string option \<Rightarrow> frame" where
  "tool_result_frame tid nm txt err task_id src ts origin perm uu parent lparent sess =
     (new_frame TOOL_RESULT TOOL [ToolResultBlock tid nm txt err])\<lparr>
       f_source_tool_assistant_uuid := src, f_origin := origin, f_tool_use_id := Some tid,
       f_timestamp_ms := ts, f_task_id := task_id, f_permission_mode := perm, f_uuid := uu,
       f_parent_uuid := parent, f_logical_parent_uuid := lparent, f_session_id := sess\<rparr>"

section \<open>The prompt bundle\<close>

record prompt_bundle =
  pb_system_static :: "frame list"
  pb_system_dynamic :: "frame list"
  pb_meta_user :: "frame list"
  pb_history :: "frame list"
  pb_current_user :: "frame option"
  pb_cache_boundary :: bool
  pb_frames :: "frame list"
  pb_provider_normalized :: bool
  pb_frames_explicit :: bool

datatype bundle_error = AmbiguousExplicitEmpty | AmbiguousIncompleteChain

definition legacy_message_frames :: "prompt_bundle \<Rightarrow> frame list" where
  "legacy_message_frames b = pb_meta_user b @ pb_history b @
     (case pb_current_user b of None \<Rightarrow> [] | Some f \<Rightarrow> [f])"

definition bundle_post_init :: "prompt_bundle \<Rightarrow> bundle_error + prompt_bundle" where
  "bundle_post_init b = (let legacy = legacy_message_frames b in
     if pb_frames_explicit b \<and> pb_frames b = [] \<and> legacy \<noteq> [] then Inl AmbiguousExplicitEmpty
     else if pb_frames b \<noteq> [] \<and> legacy \<noteq> [] \<and>
             filter (\<lambda>f. f \<notin> set (pb_frames b)) legacy \<noteq> [] then Inl AmbiguousIncompleteChain
     else Inr b)"

text \<open>\<open>PromptFrameBundle(...)\<close>; \<open>frames\<close> is \<open>None\<close> where the argument is left unset.\<close>

definition make_bundle ::
    "frame list \<Rightarrow> frame list \<Rightarrow> frame list \<Rightarrow> frame list \<Rightarrow> frame option \<Rightarrow> bool \<Rightarrow>
     frame list option \<Rightarrow> bool \<Rightarrow> bundle_error + prompt_bundle" where
  "make_bundle static dynamic meta hist cur cache fs norm = bundle_post_init
     \<lparr>pb_system_static = static, pb_system_dynamic = dynamic, pb_meta_user = meta,
      pb_history = hist, pb_current_user = cur, pb_cache_boundary = cache,
      pb_frames = (case fs of None \<Rightarrow> [] | Some xs \<Rightarrow> xs),
      pb_provider_normalized = norm, pb_frames_explicit = (fs \<noteq> None)\<rparr>"

definition to_messages :: "prompt_bundle \<Rightarrow> frame list" where
  "to_messages b = (if pb_frames b \<noteq> [] then pb_frames b else legacy_message_frames b)"

definition with_current_user_frame ::
    "prompt_bundle \<Rightarrow> frame \<Rightarrow> bundle_error + prompt_bundle" where
  "with_current_user_frame b f = (let
     chain = (if pb_frames b \<noteq> [] then
       (let messages = pb_frames b;
            messages' = (case pb_current_user b of
                None \<Rightarrow> messages
              | Some prev \<Rightarrow> if messages \<noteq> [] \<and> last messages = prev then butlast messages else messages)
        in Some (messages' @ [f])) else None)
     in make_bundle (pb_system_static b) (pb_system_dynamic b) (pb_meta_user b) (pb_history b)
          (Some f) (pb_cache_boundary b) chain False)"

section \<open>Lemmas on blocks and events\<close>

lemma block_use_ids_simps [simp, chain_simps]:
  "block_use_ids [] = []"
  "block_use_ids (b # bs) =
    (if is_tool_use b \<and> block_tool_id b \<noteq> [] then block_tool_id b # block_use_ids bs else block_use_ids bs)"
  "block_use_ids (bs @ cs) = block_use_ids bs @ block_use_ids cs"
  by (auto simp: block_use_ids_def)

lemma block_result_ids_simps [simp, chain_simps]:
  "block_result_ids [] = []"
  "block_result_ids (b # bs) =
    (if is_tool_result b \<and> block_tool_id b \<noteq> [] then block_tool_id b # block_result_ids bs
     else block_result_ids bs)"
  "block_result_ids (bs @ cs) = block_result_ids bs @ block_result_ids cs"
  by (auto simp: block_result_ids_def)

lemma frame_events_new_frame [simp, chain_simps]:
  "frame_events (new_frame k r bs) = concat (map block_event bs)"
  by (simp add: frame_events_def new_frame_def)

lemma new_frame_sel [simp]:
  "f_kind (new_frame k r bs) = k" "f_role (new_frame k r bs) = r"
  "f_blocks (new_frame k r bs) = bs" "f_is_meta (new_frame k r bs) = False"
  "f_uuid (new_frame k r bs) = None" "f_origin (new_frame k r bs) = None"
  by (simp_all add: new_frame_def)

lemma use_list_block_events:
  "filter (\<lambda>i. i \<noteq> []) (use_list (concat (map block_event bs))) = block_use_ids bs"
proof (induction bs)
  case (Cons b bs)
  then show ?case by (cases b) auto
qed simp

lemma res_list_block_events:
  "filter (\<lambda>i. i \<noteq> []) (res_list (concat (map block_event bs))) = block_result_ids bs"
proof (induction bs)
  case (Cons b bs)
  then show ?case by (cases b) auto
qed simp

lemma use_list_frame_events:
  "filter (\<lambda>i. i \<noteq> []) (use_list (frame_events f)) = block_use_ids (f_blocks f)"
  by (simp add: frame_events_def use_list_block_events)

lemma res_list_frame_events:
  "filter (\<lambda>i. i \<noteq> []) (res_list (frame_events f)) = block_result_ids (f_blocks f)"
  by (simp add: frame_events_def res_list_block_events)

section \<open>The bundle keeps one message chain\<close>

lemma make_bundle_fields:
  assumes "make_bundle st dy me hi cu ca fs no = Inr b"
  shows "pb_frames b = (case fs of None \<Rightarrow> [] | Some xs \<Rightarrow> xs)" "pb_meta_user b = me"
    "pb_history b = hi" "pb_current_user b = cu" "pb_provider_normalized b = no"
    "pb_system_static b = st" "pb_system_dynamic b = dy" "pb_cache_boundary b = ca"
  using assms by (auto simp: make_bundle_def bundle_post_init_def Let_def split: if_splits)

text \<open>A bundle that was built has every legacy frame in its chain.\<close>

lemma make_bundle_chain:
  assumes "make_bundle st dy me hi cu ca fs no = Inr b"
  shows "set (legacy_message_frames b) \<subseteq> set (to_messages b)"
  using assms
  by (auto simp: make_bundle_def bundle_post_init_def to_messages_def Let_def filter_empty_conv
      split: if_splits)

end
