(* ===== verification/Secret_Scan.thy ===== *)
theory Secret_Scan
  imports Context_Frames
begin

text \<open>
  The secret scan of conversation text and its memo
  (\<open>services/conversation/content_normalization.py\<close>, first part): inline base64 media are
  removed, results are reused from a bounded least-recently-used memo.

  The secret rules (\<open>core/secrets_mask.py\<close>, \<open>intent/log_redaction.py\<close>) and \<open>json\<close> are the
  fields of a \<open>norm_env\<close>: every theorem holds whatever they do.  The lock of the memo makes a
  scan atomic, so the memo is passed as a state.
\<close>

record scan_result =
  sr_text :: string
  sr_labels :: "string list"
  sr_found :: bool

record norm_env =
  ne_scan :: "string \<Rightarrow> string list"
  ne_spans :: "string \<Rightarrow> string"
  ne_diag :: "string \<Rightarrow> string"
  ne_loads :: "string \<Rightarrow> pyval option"
  ne_dumps :: "pyval \<Rightarrow> string option"

text \<open>No secret rule matches and nothing parses as JSON: for evaluating examples.\<close>

definition inert_env :: norm_env where
  "inert_env = \<lparr>ne_scan = (\<lambda>_. []), ne_spans = (\<lambda>s. s), ne_diag = (\<lambda>s. s),
     ne_loads = (\<lambda>_. None), ne_dumps = (\<lambda>_. None)\<rparr>"

section \<open>Inline media in text\<close>

definition is_mime_char :: "char \<Rightarrow> bool" where
  "is_mime_char c = (let n = char_code (lower_char c) in
     (97 \<le> n \<and> n \<le> 122) \<or> (48 \<le> n \<and> n \<le> 57) \<or> c \<in> set ''.+-'')"

definition is_data_char :: "char \<Rightarrow> bool" where
  "is_data_char c = (let n = char_code c in
     (65 \<le> n \<and> n \<le> 90) \<or> (97 \<le> n \<and> n \<le> 122) \<or> (48 \<le> n \<and> n \<le> 57) \<or> c \<in> set ''+/=_-'')"

definition starts_with_ci :: "string \<Rightarrow> string \<Rightarrow> bool" where
  "starts_with_ci p s = (p = py_lower (take (length p) s))"

text \<open>A match of \<open>_BASE64_MEDIA_RE\<close> at the start of the text: the mime type and what follows
  the match.\<close>

definition mime_prefix :: "string \<Rightarrow> nat option" where
  "mime_prefix s =
    (if starts_with_ci ''image/'' s \<and> takeWhile is_mime_char (drop 6 s) \<noteq> []
     then Some (6 + length (takeWhile is_mime_char (drop 6 s)))
     else if starts_with_ci ''application/pdf'' s then Some 15
     else if starts_with_ci ''audio/'' s \<and> takeWhile is_mime_char (drop 6 s) \<noteq> []
     then Some (6 + length (takeWhile is_mime_char (drop 6 s)))
     else None)"

definition match_inline_media :: "string \<Rightarrow> (string \<times> string) option" where
  "match_inline_media s = (if \<not> starts_with_ci ''data:'' s then None else
     (let r = drop 5 s in case mime_prefix r of None \<Rightarrow> None
      | Some n \<Rightarrow> (let t = drop n r in
          if \<not> starts_with_ci '';base64,'' t then None
          else (let d = drop 8 t in
            if length (takeWhile is_data_char d) < 16 then None
            else Some (take n r, dropWhile is_data_char d)))))"

lemma match_inline_media_shorter:
  "match_inline_media s = Some (m, rest) \<Longrightarrow> length rest < length s"
proof -
  assume a: "match_inline_media s = Some (m, rest)"
  then obtain n where n: "starts_with_ci ''data:'' s"
      "rest = dropWhile is_data_char (drop 8 (drop n (drop 5 s)))"
      "\<not> length (takeWhile is_data_char (drop 8 (drop n (drop 5 s)))) < 16"
    by (auto simp: match_inline_media_def Let_def split: if_splits option.splits)
  have "length rest \<le> length (drop 8 (drop n (drop 5 s)))"
    unfolding n(2) by (rule length_dropWhile_le)
  moreover have "16 \<le> length (drop 8 (drop n (drop 5 s)))"
    using n(3) length_takeWhile_le[of is_data_char "drop 8 (drop n (drop 5 s))"] by linarith
  ultimately show ?thesis by simp
qed

function redact_inline_base64_media :: "string \<Rightarrow> string" where
  "redact_inline_base64_media [] = []"
| "redact_inline_base64_media (c # cs) = (case match_inline_media (c # cs) of
      Some (mime, rest) \<Rightarrow>
        ''data:'' @ mime @ '';base64,[REDACTED:BASE64_MEDIA]'' @ redact_inline_base64_media rest
    | None \<Rightarrow> c # redact_inline_base64_media cs)"
  by pat_completeness auto
termination
  by (relation "measure length") (auto dest: match_inline_media_shorter)

section \<open>The memoised secret scan\<close>

definition scan_and_redact_text_uncached :: "norm_env \<Rightarrow> string \<Rightarrow> bool \<Rightarrow> scan_result" where
  "scan_and_redact_text_uncached env txt diagnostic =
    (if txt = [] then \<lparr>sr_text = txt, sr_labels = [], sr_found = False\<rparr>
     else (let matches = ne_scan env txt;
               redacted = ne_spans env txt;
               found = (matches \<noteq> [] \<or> redacted \<noteq> txt);
               redacted' = (if diagnostic then ne_diag env redacted else redacted)
           in \<lparr>sr_text = redact_inline_base64_media redacted', sr_labels = matches, sr_found = found\<rparr>))"

type_synonym memo_entry = "(bool \<times> string) \<times> scan_result"

record scan_memo =
  memo_entries :: "memo_entry list"
  memo_chars :: int

definition SCAN_MEMO_MAX_ENTRIES :: nat where "SCAN_MEMO_MAX_ENTRIES = 512"
definition SCAN_MEMO_MAX_CHARS :: int where "SCAN_MEMO_MAX_CHARS = 8000000"
definition SCAN_MEMO_MIN_CHARS :: nat where "SCAN_MEMO_MIN_CHARS = 64"

definition empty_memo :: scan_memo where
  "empty_memo = \<lparr>memo_entries = [], memo_chars = 0\<rparr>"

text \<open>\<open>while _SCAN_MEMO and (too many entries or characters): popitem(last=False)\<close>\<close>

fun evict_memo :: "memo_entry list \<Rightarrow> int \<Rightarrow> memo_entry list \<times> int" where
  "evict_memo [] chars = ([], chars)"
| "evict_memo (e # es) chars =
    (if length (e # es) > SCAN_MEMO_MAX_ENTRIES \<or> chars > SCAN_MEMO_MAX_CHARS
     then evict_memo es (chars - int (length (snd (fst e))))
     else (e # es, chars))"

definition scan_and_redact_text ::
    "norm_env \<Rightarrow> scan_memo \<Rightarrow> string \<Rightarrow> bool \<Rightarrow> scan_result \<times> scan_memo" where
  "scan_and_redact_text env memo txt diagnostic =
    (if txt = [] \<or> length txt < SCAN_MEMO_MIN_CHARS \<or> int (length txt) > SCAN_MEMO_MAX_CHARS div 4
     then (scan_and_redact_text_uncached env txt diagnostic, memo)
     else (let key = (diagnostic, txt) in
       case map_of (memo_entries memo) key of
         Some cached \<Rightarrow>
           (cached, memo\<lparr>memo_entries := filter (\<lambda>e. fst e \<noteq> key) (memo_entries memo) @ [(key, cached)]\<rparr>)
       | None \<Rightarrow> (let result = scan_and_redact_text_uncached env txt diagnostic;
                      (es, chars) = evict_memo (memo_entries memo @ [(key, result)])
                                      (memo_chars memo + int (length txt))
                  in (result, \<lparr>memo_entries = es, memo_chars = chars\<rparr>))))"

definition redact_text :: "norm_env \<Rightarrow> bool \<Rightarrow> string \<Rightarrow> string" where
  "redact_text env for_storage txt = sr_text (scan_and_redact_text_uncached env txt for_storage)"

text \<open>The memo holds results of the scan, each once, and counts their characters.\<close>

definition memo_chars_of :: "memo_entry list \<Rightarrow> int" where
  "memo_chars_of es = (\<Sum>e\<leftarrow>es. int (length (snd (fst e))))"

definition memo_ok :: "norm_env \<Rightarrow> scan_memo \<Rightarrow> bool" where
  "memo_ok env m = (distinct (map fst (memo_entries m))
     \<and> (\<forall>((d, t), r) \<in> set (memo_entries m). r = scan_and_redact_text_uncached env t d)
     \<and> memo_chars m = memo_chars_of (memo_entries m)
     \<and> length (memo_entries m) \<le> SCAN_MEMO_MAX_ENTRIES
     \<and> memo_chars m \<le> SCAN_MEMO_MAX_CHARS)"

fun scan_all :: "norm_env \<Rightarrow> scan_memo \<Rightarrow> (string \<times> bool) list \<Rightarrow> scan_result list \<times> scan_memo" where
  "scan_all env m [] = ([], m)"
| "scan_all env m ((t, d) # qs) =
    (let (r, m') = scan_and_redact_text env m t d; (rs, m'') = scan_all env m' qs in (r # rs, m''))"

lemma memo_chars_of_simps [simp]:
  "memo_chars_of [] = 0"
  "memo_chars_of (e # es) = int (length (snd (fst e))) + memo_chars_of es"
  "memo_chars_of (es @ fs) = memo_chars_of es + memo_chars_of fs"
  by (simp_all add: memo_chars_of_def)

lemma evict_memo_props:
  "evict_memo es c = (es', c') \<Longrightarrow> c = memo_chars_of es \<Longrightarrow>
    (\<exists>dropped. es = dropped @ es') \<and> c' = memo_chars_of es'
    \<and> length es' \<le> SCAN_MEMO_MAX_ENTRIES \<and> c' \<le> SCAN_MEMO_MAX_CHARS"
proof (induction es c rule: evict_memo.induct)
  case (1 c)
  then show ?case by (simp add: SCAN_MEMO_MAX_CHARS_def)
next
  case (2 e es c)
  show ?case
  proof (cases "length (e # es) > SCAN_MEMO_MAX_ENTRIES \<or> c > SCAN_MEMO_MAX_CHARS")
    case True
    with 2 have "(\<exists>dropped. es = dropped @ es') \<and> c' = memo_chars_of es'
        \<and> length es' \<le> SCAN_MEMO_MAX_ENTRIES \<and> c' \<le> SCAN_MEMO_MAX_CHARS" by auto
    then show ?thesis by (metis append_Cons)
  next
    case False
    with 2 show ?thesis by auto
  qed
qed

lemma memo_chars_filter:
  assumes "distinct (map fst es)" "map_of es k = Some v"
  shows "memo_chars_of (filter (\<lambda>e. fst e \<noteq> k) es) + int (length (snd k)) = memo_chars_of es
    \<and> length (filter (\<lambda>e. fst e \<noteq> k) es) + 1 = length es"
  using assms
proof (induction es)
  case (Cons e es)
  show ?case
  proof (cases "fst e = k")
    case True
    with Cons.prems(1) have "\<forall>x \<in> set es. fst x \<noteq> k" by (metis distinct.simps(2) image_eqI list.set_map list.simps(9))
    then have "filter (\<lambda>e. fst e \<noteq> k) es = es" by (simp add: filter_id_conv)
    with True show ?thesis by simp
  next
    case False
    with Cons show ?thesis by (cases e) auto
  qed
qed simp

lemma scan_and_redact_text_ok:
  assumes ok: "memo_ok env m" and sc: "scan_and_redact_text env m t d = (r, m')"
  shows "r = scan_and_redact_text_uncached env t d \<and> memo_ok env m'"
proof (cases "t = [] \<or> length t < SCAN_MEMO_MIN_CHARS \<or> int (length t) > SCAN_MEMO_MAX_CHARS div 4")
  case True
  with assms show ?thesis by (auto simp: scan_and_redact_text_def)
next
  case False
  let ?k = "(d, t)"
  let ?es = "memo_entries m"
  show ?thesis
  proof (cases "map_of ?es ?k")
    case (Some c)
    then have c: "c = scan_and_redact_text_uncached env t d"
      using ok map_of_SomeD by (fastforce simp: memo_ok_def)
    have m': "r = c" "m' = m\<lparr>memo_entries := filter (\<lambda>e. fst e \<noteq> ?k) ?es @ [(?k, c)]\<rparr>"
      using sc Some False by (auto simp: scan_and_redact_text_def Let_def)
    have d: "distinct (map fst ?es)" using ok by (simp add: memo_ok_def)
    note f = memo_chars_filter[OF d Some]
    have "distinct (map fst (filter (\<lambda>e. fst e \<noteq> ?k) ?es))" using d by (rule distinct_map_filter)
    with f ok c show ?thesis by (auto simp: memo_ok_def m')
  next
    case None
    let ?r = "scan_and_redact_text_uncached env t d"
    obtain es' c' where ev: "evict_memo (?es @ [(?k, ?r)]) (memo_chars m + int (length t)) = (es', c')"
      by fastforce
    have m': "r = ?r" "m' = \<lparr>memo_entries = es', memo_chars = c'\<rparr>"
      using sc None False ev by (auto simp: scan_and_redact_text_def Let_def)
    have c: "memo_chars m + int (length t) = memo_chars_of (?es @ [(?k, ?r)])"
      using ok by (simp add: memo_ok_def)
    obtain dr where e: "?es @ [(?k, ?r)] = dr @ es'" using evict_memo_props[OF ev c] by blast
    have "?k \<notin> set (map fst ?es)" using None by (simp add: map_of_eq_None_iff)
    then have "distinct (map fst (dr @ es'))" using ok unfolding e[symmetric] by (simp add: memo_ok_def)
    moreover have "\<forall>((d, t), r) \<in> set es'. r = scan_and_redact_text_uncached env t d"
    proof -
      have "set es' \<subseteq> set (dr @ es')" by simp
      also have "\<dots> = set ?es \<union> {(?k, ?r)}" unfolding e[symmetric] by simp
      finally have "set es' \<subseteq> set ?es \<union> {(?k, ?r)}" .
      moreover have "\<forall>((d, t), r) \<in> set ?es \<union> {(?k, ?r)}. r = scan_and_redact_text_uncached env t d"
        using ok by (auto simp: memo_ok_def)
      ultimately show ?thesis by blast
    qed
    ultimately show ?thesis using evict_memo_props[OF ev c] by (simp add: memo_ok_def m')
  qed
qed

text \<open>The scan memo is invisible and bounded.  Whatever texts are scanned, in whatever order,
  starting from an empty memo, every result equals the uncached scan, and the memo never holds more
  than 512 entries or 8000000 characters; its character counter stays exact.\<close>

lemma scan_memo_transparent:
  "fst (scan_all env empty_memo qs) = map (\<lambda>(t, d). scan_and_redact_text_uncached env t d) qs
   \<and> memo_ok env (snd (scan_all env empty_memo qs))"
proof -
  have "fst (scan_all env m qs) = map (\<lambda>(t, d). scan_and_redact_text_uncached env t d) qs
      \<and> memo_ok env (snd (scan_all env m qs))" if "memo_ok env m" for m
    using that
  proof (induction env m qs rule: scan_all.induct)
    case (2 env m t d qs)
    obtain r m' where r: "scan_and_redact_text env m t d = (r, m')" by fastforce
    from scan_and_redact_text_ok[OF 2(2) r] 2(1)[OF r[symmetric] refl] show ?case
      by (auto simp: r Let_def split_beta)
  qed simp
  moreover have "memo_ok env empty_memo"
    by (simp add: memo_ok_def empty_memo_def SCAN_MEMO_MAX_CHARS_def)
  ultimately show ?thesis by blast
qed

end
