(* ===== verification/Content_Normalization.thy ===== *)
theory Content_Normalization
  imports Secret_Scan
begin

text \<open>
  Media policy and normalization of provider messages and frames
  (\<open>services/conversation/content_normalization.py\<close>): which media blocks a provider takes,
  the recursive normalization of values, the removal of the oldest media over the limit and
  the recovery from a media-size error.  A message is a dict; \<open>copy.deepcopy\<close> is the identity.
\<close>

record media_policy =
  mp_max_images :: int
  mp_max_bytes :: int
  mp_allow_pdf :: bool
  mp_allow_audio :: bool

definition API_IMAGE_MAX_BASE64_SIZE :: int where "API_IMAGE_MAX_BASE64_SIZE = 5 * 1024 * 1024"
definition API_MAX_MEDIA_PER_REQUEST :: int where "API_MAX_MEDIA_PER_REQUEST = 100"

definition DEFAULT_MEDIA_LIMIT_POLICY :: media_policy where
  "DEFAULT_MEDIA_LIMIT_POLICY = \<lparr>mp_max_images = API_MAX_MEDIA_PER_REQUEST,
     mp_max_bytes = API_IMAGE_MAX_BASE64_SIZE, mp_allow_pdf = False, mp_allow_audio = False\<rparr>"

definition STORAGE_MEDIA_LIMIT_POLICY :: media_policy where
  "STORAGE_MEDIA_LIMIT_POLICY =
     \<lparr>mp_max_images = 0, mp_max_bytes = 0, mp_allow_pdf = False, mp_allow_audio = False\<rparr>"

section \<open>Keys\<close>

definition is_lower_alnum :: "char \<Rightarrow> bool" where
  "is_lower_alnum c = (let n = char_code c in (97 \<le> n \<and> n \<le> 122) \<or> (48 \<le> n \<and> n \<le> 57))"

text \<open>\<open>re.sub(r"[^a-z0-9]+", "_", s)\<close>; the flag says the last character written stands for a run.\<close>

fun collapse_runs :: "bool \<Rightarrow> string \<Rightarrow> string" where
  "collapse_runs inrun [] = []"
| "collapse_runs inrun (c # cs) =
    (if is_lower_alnum c then c # collapse_runs False cs
     else if inrun then collapse_runs True cs else CHR ''_'' # collapse_runs True cs)"

definition strip_underscores :: "string \<Rightarrow> string" where
  "strip_underscores s = rev (dropWhile (\<lambda>c. c = CHR ''_'') (rev (dropWhile (\<lambda>c. c = CHR ''_'') s)))"

definition BASE64_KEY_PARTS :: "string list" where
  "BASE64_KEY_PARTS = [''base64'', ''imagebase64'', ''imageb64'', ''screenshotb64'',
     ''screenshotbase64'', ''audio_base64'', ''document_base64'']"

definition SECRET_KEY_PARTS :: "string list" where
  "SECRET_KEY_PARTS = [''api_key'', ''apikey'', ''authorization'', ''auth'', ''auth_key'',
     ''bearer'', ''client_secret'', ''credential'', ''credentials'', ''password'',
     ''refresh_token'', ''secret'', ''token'', ''access_token'']"

definition is_base64_key :: "string \<Rightarrow> bool" where
  "is_base64_key key = (let normalized = filter is_lower_alnum (py_lower (py_strip key)) in
     normalized \<in> set BASE64_KEY_PARTS \<or> ends_with ''base64'' normalized \<or> ends_with ''b64'' normalized)"

definition remove_underscores :: "string \<Rightarrow> string" where
  "remove_underscores s = filter (\<lambda>c. c \<noteq> CHR ''_'') s"

definition is_secret_key :: "string \<Rightarrow> bool" where
  "is_secret_key key = (let normalized = strip_underscores (collapse_runs False (py_lower (py_strip key)));
       compact = remove_underscores normalized
     in \<exists>part \<in> set SECRET_KEY_PARTS. normalized = part
        \<or> ends_with (CHR ''_'' # part) normalized \<or> compact = remove_underscores part)"

section \<open>Blocks\<close>

definition type_text :: "pydict \<Rightarrow> string" where
  "type_text d = py_lower (py_strip (str_or_empty (py_get ''type'' d)))"

definition is_provider_internal_block :: "pydict \<Rightarrow> bool" where
  "is_provider_internal_block d =
    (type_text d \<in> set [''thinking'', ''redacted_thinking'', ''tool_reference''])"

definition media_kind :: "pydict \<Rightarrow> string" where
  "media_kind d = (let t = type_text d in
     if t \<in> set [''image'', ''input_image''] then ''image''
     else if t \<in> set [''document'', ''file''] then ''document''
     else if t \<in> set [''audio'', ''input_audio''] then ''audio'' else [])"

definition is_media_block :: "pydict \<Rightarrow> bool" where
  "is_media_block d = (media_kind d \<in> set [''image'', ''document'', ''audio''])"

definition is_tool_result_dict :: "pydict \<Rightarrow> bool" where
  "is_tool_result_dict d = (py_get ''type'' d = PyStr ''tool_result'')"

text \<open>\<open>value.rsplit(",", 1)[-1]\<close>\<close>

definition after_last_comma :: "string \<Rightarrow> string" where
  "after_last_comma s = rev (takeWhile (\<lambda>c. c \<noteq> CHR '','') (rev s))"

definition data_uri_payload_size :: "string \<Rightarrow> int" where
  "data_uri_payload_size v =
    (if \<not> str_contains '';base64,'' v then 0 else int (length (after_last_comma v)))"

definition media_payload_size :: "pydict \<Rightarrow> int" where
  "media_payload_size d = (let
     data_size = (case py_get ''data'' d of PyStr s \<Rightarrow> int (length s) | _ \<Rightarrow> 0);
     url_size = (case py_get ''image_url'' d of
         PyStr u \<Rightarrow> data_uri_payload_size u
       | PyDict m \<Rightarrow> (case py_get ''url'' m of PyStr u \<Rightarrow> data_uri_payload_size u | _ \<Rightarrow> data_size)
       | _ \<Rightarrow> data_size)
     in case py_get ''source'' d of
         PyDict src \<Rightarrow> (case py_get ''data'' src of PyStr s \<Rightarrow> int (length s) | _ \<Rightarrow> url_size)
       | _ \<Rightarrow> url_size)"

definition text_block :: "string \<Rightarrow> pyval" where
  "text_block s = PyDict [(''type'', PyStr ''text''), (''text'', PyStr s)]"

definition media_text_block :: "string \<Rightarrow> string \<Rightarrow> pyval" where
  "media_text_block media_type reason = text_block
    (''[MEDIA_STRIPPED:'' @ (if media_type \<noteq> [] then ascii_upper media_type else ''MEDIA'')
      @ '':'' @ reason @ '']'')"

definition normalize_media_block :: "media_policy \<Rightarrow> bool \<Rightarrow> pydict \<Rightarrow> pyval" where
  "normalize_media_block pol st d = (let media_type = media_kind d in
     if st then media_text_block media_type ''removed before storage''
     else if media_type = ''document'' \<and> \<not> mp_allow_pdf pol
     then media_text_block media_type ''unsupported by provider''
     else if media_type = ''audio'' \<and> \<not> mp_allow_audio pol
     then media_text_block media_type ''unsupported by provider''
     else if mp_max_bytes pol \<ge> 0 \<and> media_payload_size d > mp_max_bytes pol
     then media_text_block media_type ''exceeds provider byte limit''
     else PyDict d)"

section \<open>Values\<close>

fun normalize_value :: "norm_env \<Rightarrow> media_policy \<Rightarrow> bool \<Rightarrow> pyval \<Rightarrow> pyval" where
  "normalize_value env pol st (PyStr s) = PyStr (redact_text env st s)"
| "normalize_value env pol st (PyDict d) =
    (if is_provider_internal_block d then PyDict []
     else if is_media_block d then normalize_media_block pol st d
     else PyDict (map (\<lambda>(k, v). (k, case v of
         PyStr s \<Rightarrow> (if is_base64_key k then PyStr ''[REDACTED:BASE64_MEDIA]''
                     else if is_secret_key k
                     then PyStr (if s \<noteq> [] then ''[REDACTED:SECRET_FIELD]'' else s)
                     else normalize_value env pol st v)
       | _ \<Rightarrow> normalize_value env pol st v)) d))"
| "normalize_value env pol st (PyList xs) = PyList (map (normalize_value env pol st) xs)"
| "normalize_value env pol st v = v"

fun normalize_error_tool_result_items :: "norm_env \<Rightarrow> bool \<Rightarrow> pyval list \<Rightarrow> pyval list" where
  "normalize_error_tool_result_items env st [] = []"
| "normalize_error_tool_result_items env st (b # bs) =
    (case b of
       PyStr s \<Rightarrow> (let txt = redact_text env st s in
         (if txt \<noteq> [] then [text_block txt] else []) @ normalize_error_tool_result_items env st bs)
     | PyDict d \<Rightarrow>
         (if type_text d \<in> set [''text'', ''input_text'']
          then (let txt = redact_text env st (str_or_empty (py_get ''text'' d)) in
            (if txt \<noteq> [] then [text_block txt] else []) @ normalize_error_tool_result_items env st bs)
          else normalize_error_tool_result_items env st bs)
     | _ \<Rightarrow> normalize_error_tool_result_items env st bs)"

definition normalize_error_tool_result_content :: "norm_env \<Rightarrow> bool \<Rightarrow> pyval list \<Rightarrow> pyval list" where
  "normalize_error_tool_result_content env st content =
    (let normalized = normalize_error_tool_result_items env st content in
     if normalized \<noteq> [] then normalized else [text_block ''[non-text error content omitted]''])"

lemma size_py_get: "py_get k d = v \<Longrightarrow> v = PyNone \<or> size v < size (PyDict d)"
  by (induction d) (auto simp: py_get_def split: if_splits)

lemma size_py_get_list:
  "py_get k d = PyList xs \<Longrightarrow> size_list size xs < Suc (size_list (size_prod (\<lambda>_. 0) size) d)"
  using size_py_get[of k d "PyList xs"] by auto

function normalize_content_list :: "norm_env \<Rightarrow> media_policy \<Rightarrow> bool \<Rightarrow> pyval list \<Rightarrow> pyval list" where
  "normalize_content_list env pol st [] = []"
| "normalize_content_list env pol st (b # bs) =
    (case b of
       PyDict d \<Rightarrow>
         (if is_provider_internal_block d then normalize_content_list env pol st bs
          else if is_media_block d
          then normalize_media_block pol st d # normalize_content_list env pol st bs
          else if is_tool_result_dict d
          then (let content = (case py_get ''content'' d of
                     PyList nested \<Rightarrow>
                       (if py_truthy (py_get ''is_error'' d)
                        then PyList (normalize_error_tool_result_content env st nested)
                        else PyList (normalize_content_list env pol st nested))
                   | PyStr s \<Rightarrow> PyStr (redact_text env st s)
                   | v \<Rightarrow> normalize_value env pol st v)
                in normalize_value env pol st (PyDict (py_set ''content'' content d))
                   # normalize_content_list env pol st bs)
          else normalize_value env pol st b # normalize_content_list env pol st bs)
     | _ \<Rightarrow> normalize_value env pol st b # normalize_content_list env pol st bs)"
  by pat_completeness auto
termination
  by (relation "measure (\<lambda>(env, pol, st, xs). size_list size xs)") (auto dest: size_py_get_list size_py_get_list[OF sym])

definition normalize_field :: "norm_env \<Rightarrow> media_policy \<Rightarrow> bool \<Rightarrow> string \<Rightarrow> pyval \<Rightarrow> pyval" where
  "normalize_field env pol st key v =
    (if key = ''content'' then (case v of
         PyList xs \<Rightarrow> PyList (normalize_content_list env pol st xs)
       | PyStr s \<Rightarrow> PyStr (redact_text env st s)
       | _ \<Rightarrow> normalize_value env pol st v)
     else (case v of
         PyStr s \<Rightarrow> (if is_base64_key key then PyStr ''[REDACTED:BASE64_MEDIA]''
                     else if is_secret_key key
                     then PyStr (if s \<noteq> [] then ''[REDACTED:SECRET_FIELD]'' else s)
                     else normalize_value env pol st v)
       | _ \<Rightarrow> normalize_value env pol st v))"

definition normalize_message :: "norm_env \<Rightarrow> media_policy \<Rightarrow> bool \<Rightarrow> pydict \<Rightarrow> pydict" where
  "normalize_message env pol st m = map (\<lambda>(k, v). (k, normalize_field env pol st k v)) m"

definition message_has_content :: "pydict \<Rightarrow> bool" where
  "message_has_content m = (\<not> py_has ''content'' m
     \<or> py_get ''content'' m \<notin> set [PyNone, PyStr [], PyList []])"

section \<open>Frames\<close>

definition normalize_tool_result_content :: "norm_env \<Rightarrow> media_policy \<Rightarrow> bool \<Rightarrow> string \<Rightarrow> string" where
  "normalize_tool_result_content env pol st content = (case ne_loads env content of
      None \<Rightarrow> redact_text env st content
    | Some parsed \<Rightarrow> (case ne_dumps env (normalize_value env pol st parsed) of
          Some s \<Rightarrow> s
        | None \<Rightarrow> redact_text env st content))"

fun normalize_block :: "norm_env \<Rightarrow> media_policy \<Rightarrow> bool \<Rightarrow> content_block \<Rightarrow> content_block" where
  "normalize_block env pol st (TextBlock s) = TextBlock (redact_text env st s)"
| "normalize_block env pol st (SystemReminderBlock s tag) = SystemReminderBlock (redact_text env st s) tag"
| "normalize_block env pol st (ToolUseBlock i n input) =
    ToolUseBlock i n (normalize_value env pol st input)"
| "normalize_block env pol st (ToolResultBlock i n content err) =
    ToolResultBlock i n (normalize_tool_result_content env pol st content) err"

definition normalize_frame :: "norm_env \<Rightarrow> media_policy \<Rightarrow> bool \<Rightarrow> frame \<Rightarrow> frame" where
  "normalize_frame env pol st f = (let blocks = map (normalize_block env pol st) (f_blocks f) in
     if blocks = f_blocks f then f else f\<lparr>f_blocks := blocks\<rparr>)"

section \<open>Media limits\<close>

function count_media_in_content :: "pyval list \<Rightarrow> int" where
  "count_media_in_content [] = 0"
| "count_media_in_content (b # bs) =
    (case b of
       PyDict d \<Rightarrow> (if is_media_block d then 1 else 0)
         + (if is_tool_result_dict d
            then (case py_get ''content'' d of PyList nested \<Rightarrow> count_media_in_content nested | _ \<Rightarrow> 0)
            else 0)
     | _ \<Rightarrow> 0) + count_media_in_content bs"
  by pat_completeness auto
termination
  by (relation "measure (size_list size)") (auto dest: size_py_get_list size_py_get_list[OF sym])

definition count_media_in_message :: "pydict \<Rightarrow> int" where
  "count_media_in_message m = (case py_get ''content'' m of
      PyList xs \<Rightarrow> count_media_in_content xs | _ \<Rightarrow> 0)"

function strip_oldest_media_from_content :: "pyval list \<Rightarrow> int \<Rightarrow> pyval list \<times> int" where
  "strip_oldest_media_from_content [] n = ([], n)"
| "strip_oldest_media_from_content (b # bs) n =
    (if n \<le> 0 then (let (rest, n') = strip_oldest_media_from_content bs n in (b # rest, n'))
     else (case b of
       PyDict d \<Rightarrow>
         (case (is_tool_result_dict d, py_get ''content'' d) of
            (True, PyList nested) \<Rightarrow>
              (let (nested', n1) = strip_oldest_media_from_content nested n;
                   (rest, n2) = strip_oldest_media_from_content bs n1
               in (PyDict (py_set ''content'' (PyList nested') d) # rest, n2))
          | _ \<Rightarrow>
              (if is_media_block d then strip_oldest_media_from_content bs (n - 1)
               else (let (rest, n') = strip_oldest_media_from_content bs n in (b # rest, n'))))
     | _ \<Rightarrow> (let (rest, n') = strip_oldest_media_from_content bs n in (b # rest, n'))))"
  by pat_completeness auto
termination
  by (relation "measure (\<lambda>(xs, n). size_list size xs)") (auto dest: size_py_get_list size_py_get_list[OF sym])

fun strip_excess_loop :: "pydict list \<Rightarrow> int \<Rightarrow> pydict list" where
  "strip_excess_loop [] n = []"
| "strip_excess_loop (m # ms) n =
    (if n \<le> 0 then m # strip_excess_loop ms n
     else (case py_get ''content'' m of
         PyList content \<Rightarrow>
           (let (content', n') = strip_oldest_media_from_content content n in
            if content' \<noteq> [] then py_set ''content'' (PyList content') m # strip_excess_loop ms n'
            else strip_excess_loop ms n')
       | _ \<Rightarrow> m # strip_excess_loop ms n))"

definition strip_excess_media_items :: "pydict list \<Rightarrow> media_policy option \<Rightarrow> pydict list" where
  "strip_excess_media_items ms pol = (let
     active = (case pol of None \<Rightarrow> DEFAULT_MEDIA_LIMIT_POLICY | Some p \<Rightarrow> p);
     limit = max 0 (mp_max_images active);
     to_remove = (\<Sum>m\<leftarrow>ms. count_media_in_message m) - limit
     in if to_remove \<le> 0 then ms else strip_excess_loop ms to_remove)"

section \<open>Recovery from a media-size error\<close>

function strip_media_types_from_content :: "string list \<Rightarrow> pyval list \<Rightarrow> pyval list" where
  "strip_media_types_from_content types [] = []"
| "strip_media_types_from_content types (b # bs) =
    (case b of
       PyDict d \<Rightarrow>
         (if is_media_block d \<and> media_kind d \<in> set types then strip_media_types_from_content types bs
          else (case (is_tool_result_dict d, py_get ''content'' d) of
              (True, PyList nested) \<Rightarrow>
                PyDict (py_set ''content'' (PyList (strip_media_types_from_content types nested)) d)
                # strip_media_types_from_content types bs
            | _ \<Rightarrow> b # strip_media_types_from_content types bs))
     | _ \<Rightarrow> b # strip_media_types_from_content types bs)"
  by pat_completeness auto
termination
  by (relation "measure (\<lambda>(types, xs). size_list size xs)") (auto dest: size_py_get_list size_py_get_list[OF sym])

definition strip_media_types_from_message :: "pydict \<Rightarrow> string list \<Rightarrow> pydict" where
  "strip_media_types_from_message m types = (case py_get ''content'' m of
      PyList content \<Rightarrow> py_set ''content'' (PyList (strip_media_types_from_content types content)) m
    | _ \<Rightarrow> m)"

definition SYNTHETIC_ERROR_KEYS :: "string list" where
  "SYNTHETIC_ERROR_KEYS = [''synthetic_api_error'', ''is_synthetic_api_error'', ''_synthetic_api_error'']"

definition is_synthetic_error_message :: "pydict \<Rightarrow> bool" where
  "is_synthetic_error_message m =
    (if \<exists>k \<in> set SYNTHETIC_ERROR_KEYS. py_truthy (py_get k m) then True
     else if (case py_get ''metadata'' m of
         PyDict md \<Rightarrow> \<exists>k \<in> set SYNTHETIC_ERROR_KEYS. py_truthy (py_get k md) | _ \<Rightarrow> False) then True
     else py_lower (py_strip (str_or_empty (py_get ''origin'' m)))
            \<in> set [''synthetic_api_error'', ''api_error''])"

definition is_meta_user_message :: "pydict \<Rightarrow> bool" where
  "is_meta_user_message m =
    (if py_get ''role'' m \<noteq> PyStr ''user'' then False
     else if py_truthy (py_or (py_get ''is_meta'' m) (py_get ''isMeta'' m)) then True
     else (case py_get ''metadata'' m of
         PyDict md \<Rightarrow> py_truthy (py_or (py_get ''is_meta'' md) (py_get ''isMeta'' md))
       | _ \<Rightarrow> False))"

definition message_text :: "pydict \<Rightarrow> string" where
  "message_text m = (case py_get ''content'' m of
      PyStr s \<Rightarrow> s
    | PyList bs \<Rightarrow> join_with newline (concat (map (\<lambda>b. case b of
          PyDict d \<Rightarrow> (case py_get ''text'' d of PyStr s \<Rightarrow> [s] | _ \<Rightarrow> [])
        | PyStr s \<Rightarrow> [s]
        | _ \<Rightarrow> []) bs))
    | _ \<Rightarrow> [])"

definition error_block_types :: "pydict \<Rightarrow> string list" where
  "error_block_types m =
    (if \<not> is_synthetic_error_message m then []
     else (let txt = py_lower (message_text m) in
       if \<exists>k \<in> set [''request too large'', ''maximum request size'', ''payload too large''].
            str_contains k txt then [''image'', ''document'']
       else if \<exists>k \<in> set [''image was too large'', ''image base64 size'', ''image too large''].
            str_contains k txt then [''image'']
       else if \<exists>k \<in> set [''pdf too large'', ''pdf is password protected'',
            ''pdf file was not valid'', ''the pdf file was not valid'']. str_contains k txt then [''document'']
       else []))"

text \<open>\<open>for candidate_index in range(index - 1, -1, -1)\<close>: \<open>Suc c\<close> stands for candidate \<open>c\<close>.\<close>

fun nearest_preceding_meta_user_index :: "pydict list \<Rightarrow> nat \<Rightarrow> nat option" where
  "nearest_preceding_meta_user_index ms 0 = None"
| "nearest_preceding_meta_user_index ms (Suc c) =
    (if is_meta_user_message (ms ! c) then Some c
     else if is_synthetic_error_message (ms ! c) then nearest_preceding_meta_user_index ms c
     else None)"

definition recover_step :: "pydict list \<Rightarrow> nat \<Rightarrow> pydict list" where
  "recover_step ms i = (let types = error_block_types (ms ! i) in
     if types = [] then ms
     else (case nearest_preceding_meta_user_index ms i of
         None \<Rightarrow> ms
       | Some t \<Rightarrow> ms[t := strip_media_types_from_message (ms ! t) types]))"

definition recover_request_too_large_media :: "pydict list \<Rightarrow> pydict list" where
  "recover_request_too_large_media ms = foldl recover_step ms [0..<length ms]"

section \<open>Policies\<close>

definition is_upper_ascii :: "char \<Rightarrow> bool" where
  "is_upper_ascii c = (65 \<le> char_code c \<and> char_code c \<le> 90)"

text \<open>\<open>re.sub(r"(?<!^)(?=[A-Z])", "_", text)\<close>\<close>

fun split_camel :: "bool \<Rightarrow> string \<Rightarrow> string" where
  "split_camel first [] = []"
| "split_camel first (c # cs) =
    (if \<not> first \<and> is_upper_ascii c then CHR ''_'' # c # split_camel False cs
     else c # split_camel False cs)"

definition caps_key :: "string \<Rightarrow> string" where
  "caps_key key = strip_underscores (collapse_runs False (py_lower (split_camel True (py_strip key))))"

text \<open>The last of two keys with one normal form wins, as in the dict comprehension.\<close>

definition caps_get :: "pydict \<Rightarrow> string list \<Rightarrow> pyval" where
  "caps_get caps names = (let normalized = rev (map (\<lambda>(k, v). (caps_key k, v)) caps) in
     case List.find (\<lambda>n. map_of normalized (caps_key n) \<noteq> None) names of
       None \<Rightarrow> PyNone
     | Some n \<Rightarrow> the (map_of normalized (caps_key n)))"

definition is_digit_char :: "char \<Rightarrow> bool" where
  "is_digit_char c = (48 \<le> char_code c \<and> char_code c \<le> 57)"

fun parse_digits :: "int \<Rightarrow> bool \<Rightarrow> string \<Rightarrow> int option" where
  "parse_digits acc seen [] = (if seen then Some acc else None)"
| "parse_digits acc seen (c # cs) =
    (if is_digit_char c then parse_digits (10 * acc + int (char_code c - 48)) True cs
     else if c = CHR ''_'' \<and> seen then parse_digits acc False cs
     else None)"

text \<open>\<open>int(value)\<close>, \<open>None\<close> where it raises.\<close>

fun py_int :: "pyval \<Rightarrow> int option" where
  "py_int (PyInt i) = Some i"
| "py_int (PyBool b) = Some (if b then 1 else 0)"
| "py_int (PyStr s) = (case py_strip s of
      [] \<Rightarrow> None
    | c # cs \<Rightarrow> (if c = CHR ''-'' then map_option uminus (parse_digits 0 False cs)
                 else if c = CHR ''+'' then parse_digits 0 False cs
                 else parse_digits 0 False (c # cs)))"
| "py_int _ = None"

definition caps_int :: "pydict \<Rightarrow> string list \<Rightarrow> int \<Rightarrow> int" where
  "caps_int caps names dflt = (case caps_get caps names of
      PyNone \<Rightarrow> dflt
    | v \<Rightarrow> (case py_int v of None \<Rightarrow> dflt | Some i \<Rightarrow> i))"

definition caps_bool :: "pydict \<Rightarrow> string list \<Rightarrow> bool \<Rightarrow> bool" where
  "caps_bool caps names dflt = (case caps_get caps names of
      PyNone \<Rightarrow> dflt
    | PyStr s \<Rightarrow> py_lower (py_strip s) \<in> set [''1'', ''true'', ''yes'', ''on'']
    | v \<Rightarrow> py_truthy v)"

definition caps_media_type :: "pydict \<Rightarrow> string \<Rightarrow> bool" where
  "caps_media_type caps marker =
    (case caps_get caps [''supported_media_types'', ''input_media_types'', ''media_types''] of
       PyStr s \<Rightarrow> str_contains (py_lower marker) (py_lower s)
     | PyList xs \<Rightarrow> (\<exists>x \<in> set xs. str_contains (py_lower marker) (py_lower (py_str x)))
     | _ \<Rightarrow> False)"

text \<open>The capabilities as a dict (an object's attributes read as one).\<close>

definition normalized_media_caps :: "pydict \<Rightarrow> pydict" where
  "normalized_media_caps caps =
    (case py_or (py_or (py_get ''media'' caps) (py_get ''media_capabilities'' caps)) (py_get ''media_caps'' caps) of
       PyDict media \<Rightarrow> fold (\<lambda>(k, v) d. py_set k v d) media caps
     | _ \<Rightarrow> caps)"

definition policy_from_caps :: "pydict option \<Rightarrow> media_policy" where
  "policy_from_caps provider_caps = (case provider_caps of
      None \<Rightarrow> DEFAULT_MEDIA_LIMIT_POLICY
    | Some given \<Rightarrow> (let caps = normalized_media_caps given in
        \<lparr>mp_max_images = caps_int caps [''max_images'', ''max_image_count'', ''max_media_items'', ''image_limit'']
           API_MAX_MEDIA_PER_REQUEST,
         mp_max_bytes = caps_int caps [''max_bytes'', ''max_media_bytes'', ''max_input_bytes'', ''media_byte_limit'']
           API_IMAGE_MAX_BASE64_SIZE,
         mp_allow_pdf = (caps_bool caps [''allow_pdf'', ''supports_pdf'', ''pdf_inputs''] False
           \<or> caps_media_type caps ''application/pdf''),
         mp_allow_audio = (caps_bool caps [''allow_audio'', ''supports_audio'', ''audio_inputs''] False
           \<or> caps_media_type caps ''audio/'')\<rparr>))"

definition policy_for_provider_name :: "string option \<Rightarrow> media_policy" where
  "policy_for_provider_name provider = (let name = py_lower (py_strip (opt_str provider)) in
     if name = [] then DEFAULT_MEDIA_LIMIT_POLICY
     else if name \<in> set [''anthropic'', ''claude'', ''claude-code'', ''managed-anthropic'']
     then \<lparr>mp_max_images = API_MAX_MEDIA_PER_REQUEST, mp_max_bytes = API_IMAGE_MAX_BASE64_SIZE,
           mp_allow_pdf = True, mp_allow_audio = True\<rparr>
     else if name \<in> set [''openai'', ''managed'', ''managed-openai'', ''codex'']
     then \<lparr>mp_max_images = API_MAX_MEDIA_PER_REQUEST, mp_max_bytes = API_IMAGE_MAX_BASE64_SIZE,
           mp_allow_pdf = False, mp_allow_audio = False\<rparr>
     else if name \<in> set [''google'', ''gemini'']
     then \<lparr>mp_max_images = API_MAX_MEDIA_PER_REQUEST, mp_max_bytes = API_IMAGE_MAX_BASE64_SIZE,
           mp_allow_pdf = True, mp_allow_audio = True\<rparr>
     else DEFAULT_MEDIA_LIMIT_POLICY)"

section \<open>Entry points\<close>

definition normalize_frame_for_provider :: "norm_env \<Rightarrow> pydict option \<Rightarrow> frame \<Rightarrow> frame" where
  "normalize_frame_for_provider env caps f = normalize_frame env (policy_from_caps caps) False f"

definition normalize_frame_for_storage :: "norm_env \<Rightarrow> frame \<Rightarrow> frame" where
  "normalize_frame_for_storage env f = normalize_frame env STORAGE_MEDIA_LIMIT_POLICY True f"

definition normalize_tool_result_frame :: "norm_env \<Rightarrow> frame \<Rightarrow> frame" where
  "normalize_tool_result_frame env f = normalize_frame env STORAGE_MEDIA_LIMIT_POLICY True f"

definition normalize_native_messages_for_provider ::
    "norm_env \<Rightarrow> pydict option \<Rightarrow> pydict list \<Rightarrow> pydict list" where
  "normalize_native_messages_for_provider env caps ms = (let pol = policy_from_caps caps;
     limited = strip_excess_media_items (recover_request_too_large_media ms) (Some pol)
     in filter message_has_content (map (normalize_message env pol False) limited))"

definition normalize_native_messages_for_storage :: "norm_env \<Rightarrow> pydict list \<Rightarrow> pydict list" where
  "normalize_native_messages_for_storage env ms =
    filter message_has_content (map (normalize_message env STORAGE_MEDIA_LIMIT_POLICY True) ms)"

section \<open>Lemmas\<close>

lemma normalize_frame_alt:
  "normalize_frame env pol st f = f\<lparr>f_blocks := map (normalize_block env pol st) (f_blocks f)\<rparr>"
  by (simp add: normalize_frame_def Let_def)

lemma block_event_normalize [simp]: "block_event (normalize_block env pol st b) = block_event b"
  by (cases b) auto

lemma normalize_frame_sel [simp]:
  "f_role (normalize_frame env pol st f) = f_role f"
  "f_kind (normalize_frame env pol st f) = f_kind f"
  "f_is_meta (normalize_frame env pol st f) = f_is_meta f"
  "f_origin (normalize_frame env pol st f) = f_origin f"
  "frame_events (normalize_frame env pol st f) = frame_events f"
  by (simp_all add: normalize_frame_alt frame_events_def o_def)

lemma tool_result_not_media: "is_tool_result_dict d \<Longrightarrow> \<not> is_media_block d"
proof -
  assume "is_tool_result_dict d"
  then have "type_text d = py_lower (py_strip ''tool_result'')"
    by (simp add: is_tool_result_dict_def type_text_def)
  also have "\<dots> = ''tool_result''" by code_simp
  finally show ?thesis by (simp add: is_media_block_def media_kind_def Let_def)
qed

lemma py_set_content_type [simp]:
  "is_media_block (py_set ''content'' v d) = is_media_block d"
  "is_tool_result_dict (py_set ''content'' v d) = is_tool_result_dict d"
  "is_provider_internal_block (py_set ''content'' v d) = is_provider_internal_block d"
  by (simp_all add: is_media_block_def media_kind_def type_text_def is_tool_result_dict_def
      is_provider_internal_block_def)

lemma count_media_nonneg [simp]: "0 \<le> count_media_in_content xs"
  by (induction xs rule: count_media_in_content.induct) (auto split: pyval.splits)

lemma strip_oldest_count:
  assumes "strip_oldest_media_from_content xs n = (ys, n')" "0 \<le> n"
  shows "n' = max 0 (n - count_media_in_content xs)
    \<and> count_media_in_content ys = count_media_in_content xs - (n - n')"
  using assms
proof (induction xs arbitrary: n ys n' rule: measure_induct_rule[where f = "size_list size"])
  case (less xs)
  show ?case
  proof (cases xs)
    case Nil
    with less.prems show ?thesis by simp
  next
    case (Cons b bs)
    have IHbs: "m' = max 0 (m - count_media_in_content bs)
        \<and> count_media_in_content zs = count_media_in_content bs - (m - m')"
      if "strip_oldest_media_from_content bs m = (zs, m')" "0 \<le> m" for m zs m'
      using less.IH[OF _ that] Cons by simp
    note pos = count_media_nonneg[of bs]
    have keep: ?thesis if k: "strip_oldest_media_from_content xs n
          = (let (rest, m) = strip_oldest_media_from_content bs n in (b # rest, m))"
      and c: "n \<le> 0 \<or> count_media_in_content [b] = 0"
    proof -
      obtain rest m where r: "strip_oldest_media_from_content bs n = (rest, m)" by fastforce
      have e: "ys = b # rest" "n' = m" using k less.prems(1) r by auto
      have split: "count_media_in_content (b # zs) = count_media_in_content [b] + count_media_in_content zs" for zs
        by simp
      show ?thesis
        unfolding e Cons split[of rest] split[of bs]
        using IHbs[OF r less.prems(2)] c less.prems(2) count_media_nonneg[of "[b]"] pos by linarith
    qed
    show ?thesis
    proof (cases "n \<le> 0")
      case True
      then show ?thesis using keep Cons by simp
    next
      case pn: False
      show ?thesis
      proof (cases b)
        case (PyDict d)
        show ?thesis
        proof (cases "is_tool_result_dict d")
          case tr: True
          note nm = tool_result_not_media[OF tr]
          show ?thesis
          proof (cases "py_get ''content'' d")
            case (PyList nested)
            obtain nested' n1 where s1: "strip_oldest_media_from_content nested n = (nested', n1)" by fastforce
            obtain rest n2 where s2: "strip_oldest_media_from_content bs n1 = (rest, n2)" by fastforce
            have sz: "size_list size nested < size_list size xs"
              using size_py_get_list[OF PyList] Cons \<open>b = PyDict d\<close> by simp
            have e: "ys = PyDict (py_set ''content'' (PyList nested') d) # rest" "n' = n2"
              using less.prems(1) pn Cons \<open>b = PyDict d\<close> tr PyList s1 s2 by auto
            have I1: "n1 = max 0 (n - count_media_in_content nested)
                \<and> count_media_in_content nested' = count_media_in_content nested - (n - n1)"
              using less.IH[OF sz s1] pn by simp
            then have "0 \<le> n1" by simp
            note I2 = IHbs[OF s2 this]
            have "count_media_in_content xs = count_media_in_content nested + count_media_in_content bs"
              "count_media_in_content ys = count_media_in_content nested' + count_media_in_content rest"
              unfolding e using Cons \<open>b = PyDict d\<close> tr nm PyList by simp_all
            with I1 I2 e pos count_media_nonneg[of nested] pn show ?thesis by linarith
          qed (use keep Cons \<open>b = PyDict d\<close> tr nm pn in simp_all)
        next
          case nt: False
          show ?thesis
          proof (cases "is_media_block d")
            case True
            have "strip_oldest_media_from_content bs (n - 1) = (ys, n')"
              using less.prems(1) pn Cons PyDict nt True by simp
            from IHbs[OF this] pn pos show ?thesis using Cons PyDict nt True by auto
          next
            case False
            then show ?thesis using keep Cons PyDict nt pn by simp
          qed
        qed
      qed (use keep Cons pn in simp_all)
    qed
  qed
qed

lemma count_media_message_set:
  "count_media_in_message (py_set ''content'' (PyList xs) m) = count_media_in_content xs"
  by (simp add: count_media_in_message_def)

lemma strip_excess_loop_count:
  "0 \<le> n \<Longrightarrow> (\<Sum>m\<leftarrow>strip_excess_loop ms n. count_media_in_message m)
     = max 0 ((\<Sum>m\<leftarrow>ms. count_media_in_message m) - n)"
proof (induction ms arbitrary: n)
  case (Cons m ms)
  have pos: "0 \<le> (\<Sum>m\<leftarrow>zs. count_media_in_message m)" for zs
    by (induction zs) (auto simp: count_media_in_message_def split: pyval.splits)
  have nn: "0 \<le> count_media_in_message m"
    by (auto simp: count_media_in_message_def split: pyval.splits)
  show ?case
  proof (cases "n \<le> 0")
    case True
    with Cons nn pos[of ms] show ?thesis by simp
  next
    case pn: False
    show ?thesis
    proof (cases "py_get ''content'' m")
      case (PyList content)
      obtain c' n' where s: "strip_oldest_media_from_content content n = (c', n')" by fastforce
      note I = strip_oldest_count[OF s Cons.prems]
      then have n': "0 \<le> n'" by simp
      have IH: "(\<Sum>m\<leftarrow>strip_excess_loop ms n'. count_media_in_message m)
          = max 0 ((\<Sum>m\<leftarrow>ms. count_media_in_message m) - n')"
        by (rule Cons.IH[OF n'])
      have cm: "count_media_in_message m = count_media_in_content content"
        by (simp add: count_media_in_message_def PyList)
      have "(\<Sum>m\<leftarrow>strip_excess_loop (m # ms) n. count_media_in_message m)
          = count_media_in_content c' + (\<Sum>m\<leftarrow>strip_excess_loop ms n'. count_media_in_message m)"
        using pn PyList s by (auto simp: count_media_message_set)
      with I IH cm pos[of ms] count_media_nonneg[of content] pn show ?thesis by simp linarith
    qed (use Cons pn nn pos[of ms] in \<open>auto simp: count_media_in_message_def\<close>)
  qed
qed simp

text \<open>The media limit is exact.  After the oldest media are stripped, the messages hold the
  smaller of the media they held and the policy's limit (a negative limit counts as 0): never more
  than the limit, and nothing below it is lost, counting media nested in tool results.\<close>

lemma strip_excess_media_exact:
  "(\<Sum>m\<leftarrow>strip_excess_media_items ms (Some pol). count_media_in_message m)
     = min (\<Sum>m\<leftarrow>ms. count_media_in_message m) (max 0 (mp_max_images pol))"
proof -
  let ?t = "\<Sum>m\<leftarrow>ms. count_media_in_message m"
  let ?l = "max 0 (mp_max_images pol)"
  show ?thesis
  proof (cases "?t - ?l \<le> 0")
    case True
    then show ?thesis by (simp add: strip_excess_media_items_def Let_def)
  next
    case False
    have ar: "max 0 (t - (t - l)) = min t l" if "\<not> t - l \<le> 0" "0 \<le> l" for t l :: int
      using that by auto
    have "strip_excess_media_items ms (Some pol) = strip_excess_loop ms (?t - ?l)"
      unfolding strip_excess_media_items_def Let_def using False by simp
    moreover have "(\<Sum>m\<leftarrow>strip_excess_loop ms (?t - ?l). count_media_in_message m) = max 0 (?t - (?t - ?l))"
      using strip_excess_loop_count[of "?t - ?l" ms] False by linarith
    ultimately show ?thesis using ar[OF False] by simp
  qed
qed

end
