(* ===== verification/Alternation.thy ===== *)
theory Alternation
  imports Main
begin

text \<open>
  The contract of a role-alternation pass.  The program has two (over frames and over provider
  messages), each a loop that keeps the output, the index of its last rendered message and that
  message's wire role, and merges the next message into it where it can.  The laws are the
  equations of such a loop and what a merge keeps; the induction rule of the loop, that its output
  cannot be merged further and that it leaves such a list alone are proved once here.
\<close>

locale role_alternation =
  fixes wire :: "'m \<Rightarrow> 'w option"
    and merge :: "'m \<Rightarrow> 'm \<Rightarrow> 'm option"
    and loop :: "'m list \<Rightarrow> (nat \<times> 'w) option \<Rightarrow> 'm list \<Rightarrow> 'm list"
  assumes loop_Nil: "loop out l [] = out"
    and loop_skip: "wire f = None \<Longrightarrow> loop out l (f # fs) = loop (out @ [f]) l fs"
    and loop_first: "wire f = Some w \<Longrightarrow> loop out None (f # fs) = loop (out @ [f]) (Some (length out, w)) fs"
    and loop_join: "wire f = Some w \<Longrightarrow> merge (out ! i) f = Some m \<Longrightarrow>
          loop out (Some (i, w)) (f # fs) = loop (out[i := m]) (Some (i, w)) fs"
    and loop_keep: "wire f = Some w \<Longrightarrow> w' \<noteq> w \<or> merge (out ! i) f = None \<Longrightarrow>
          loop out (Some (i, w')) (f # fs) = loop (out @ [f]) (Some (length out, w)) fs"
    and merge_wire: "merge x f = Some m \<Longrightarrow> wire m = wire x"
begin

definition last_rendered :: "'m list \<Rightarrow> (nat \<times> 'w) option \<Rightarrow> bool" where
  "last_rendered out l = (case l of
      None \<Rightarrow> (\<forall>f \<in> set out. wire f = None)
    | Some (i, w) \<Rightarrow> (\<exists>pre x post. out = pre @ x # post \<and> length pre = i
        \<and> wire x = Some w \<and> (\<forall>f \<in> set post. wire f = None)))"

lemma last_renderedI:
  "out = pre @ x # post \<Longrightarrow> wire x = Some w \<Longrightarrow> \<forall>f \<in> set post. wire f = None \<Longrightarrow>
    last_rendered out (Some (length pre, w))"
  unfolding last_rendered_def by auto

lemma last_renderedE:
  assumes "last_rendered out (Some (i, w))"
  obtains pre x post where "out = pre @ x # post" "i = length pre" "wire x = Some w"
    "\<forall>f \<in> set post. wire f = None"
  using assms unfolding last_rendered_def by auto

lemma last_rendered_None [simp]: "last_rendered out None = (\<forall>f \<in> set out. wire f = None)"
  by (simp add: last_rendered_def)

lemma last_rendered_skip:
  assumes "last_rendered out l" "wire f = None"
  shows "last_rendered (out @ [f]) l"
proof (cases l)
  case None
  with assms show ?thesis by simp
next
  case (Some p)
  with assms(1) obtain pre x post w where "out = pre @ x # post" "l = Some (length pre, w)"
    "wire x = Some w" "\<forall>g \<in> set post. wire g = None"
    by (cases p) (auto elim: last_renderedE)
  with assms(2) show ?thesis using last_renderedI[of "out @ [f]" pre x "post @ [f]" w] by simp
qed

lemma last_rendered_snoc: "wire f = Some w \<Longrightarrow> last_rendered (out @ [f]) (Some (length out, w))"
  using last_renderedI[of "out @ [f]" out f "[]" w] by simp

text \<open>Induction along the loop: what every step keeps holds of the output.\<close>

lemma loop_rule:
  assumes "last_rendered out l" "P out fs"
    and skip: "\<And>out f fs. P out (f # fs) \<Longrightarrow> wire f = None \<Longrightarrow> P (out @ [f]) fs"
    and first: "\<And>out f fs. P out (f # fs) \<Longrightarrow> wire f \<noteq> None \<Longrightarrow> \<forall>g \<in> set out. wire g = None \<Longrightarrow> P (out @ [f]) fs"
    and keep: "\<And>pre x post f fs. P (pre @ x # post) (f # fs) \<Longrightarrow> wire f \<noteq> None \<Longrightarrow> wire x \<noteq> None \<Longrightarrow>
        \<forall>g \<in> set post. wire g = None \<Longrightarrow> wire x = wire f \<longrightarrow> merge x f = None \<Longrightarrow>
        P (pre @ x # post @ [f]) fs"
    and join: "\<And>pre x post f fs m. P (pre @ x # post) (f # fs) \<Longrightarrow> wire x \<noteq> None \<Longrightarrow> wire f = wire x \<Longrightarrow>
        \<forall>g \<in> set post. wire g = None \<Longrightarrow> merge x f = Some m \<Longrightarrow> P (pre @ m # post) fs"
  shows "P (loop out l fs) []"
  using assms(1,2)
proof (induction fs arbitrary: out l)
  case (Cons f fs)
  show ?case
  proof (cases "wire f")
    case None
    from Cons.IH[OF last_rendered_skip[OF Cons.prems(1) None] skip[OF Cons.prems(2) None]] None
    show ?thesis by (simp add: loop_skip)
  next
    case (Some w)
    note app = last_rendered_snoc[OF Some, of out]
    show ?thesis
    proof (cases l)
      case None
      with Cons.prems(1) have "\<forall>g \<in> set out. wire g = None" by simp
      from Cons.IH[OF app first[OF Cons.prems(2) _ this]] None Some show ?thesis by (simp add: loop_first)
    next
      case l: (Some p)
      then obtain i w' where p: "p = (i, w')" by (cases p)
      with Cons.prems(1) l obtain pre x post where out: "out = pre @ x # post" "i = length pre"
        "wire x = Some w'" "\<forall>f \<in> set post. wire f = None"
        by (auto elim: last_renderedE)
      have oi: "out ! i = x" using out by (simp add: nth_append)
      show ?thesis
      proof (cases "w' = w \<and> merge x f \<noteq> None")
        case True
        then obtain m where m: "merge x f = Some m" by auto
        have "last_rendered (pre @ m # post) l"
          using out merge_wire[OF m] l p last_renderedI[of "pre @ m # post" pre m post w'] by simp
        moreover have "P (pre @ m # post) fs"
          by (rule join[OF _ _ _ out(4) m]) (use Cons.prems(2) out Some True in simp_all)
        ultimately have "P (loop (pre @ m # post) l fs) []" by (rule Cons.IH)
        moreover have "loop out l (f # fs) = loop (pre @ m # post) l fs"
          using loop_join[OF Some, of out i m fs] oi m True l p out by simp
        ultimately show ?thesis by simp
      next
        case False
        have "P (out @ [f]) fs"
          using keep[of pre x post f fs] Cons.prems(2) out Some False by auto
        moreover have "loop out l (f # fs) = loop (out @ [f]) (Some (length out, w)) fs"
          using loop_keep[OF Some, of w' out i fs] oi False l p by auto
        ultimately show ?thesis using Cons.IH[OF app] by simp
      qed
    qed
  qed
qed (simp add: loop_Nil)

definition unmergeable :: "'m \<Rightarrow> 'm \<Rightarrow> bool" where
  "unmergeable a b = (wire a = wire b \<longrightarrow> merge a b = None)"

text \<open>A list no neighbouring messages of which can be merged comes back unchanged.\<close>

lemma loop_fix:
  "last_rendered out l \<Longrightarrow> successively unmergeable (filter (\<lambda>f. wire f \<noteq> None) (out @ fs)) \<Longrightarrow>
    loop out l fs = out @ fs"
proof (induction fs arbitrary: out l)
  case (Cons f fs)
  have app: "successively unmergeable (filter (\<lambda>f. wire f \<noteq> None) ((out @ [f]) @ fs))" using Cons.prems(2) by simp
  show ?case
  proof (cases "wire f")
    case None
    from Cons.IH[OF last_rendered_skip[OF Cons.prems(1) None] app] None show ?thesis by (simp add: loop_skip)
  next
    case (Some w)
    note IH = Cons.IH[OF last_rendered_snoc[OF Some] app]
    show ?thesis
    proof (cases l)
      case None
      with IH Some show ?thesis by (simp add: loop_first)
    next
      case l: (Some p)
      then obtain w' pre x post where p: "p = (length pre, w')" "out = pre @ x # post"
        "wire x = Some w'" "\<forall>g \<in> set post. wire g = None"
        using Cons.prems(1) by (cases p) (auto elim: last_renderedE)
      then have "filter (\<lambda>f. wire f \<noteq> None) post = []" by (simp add: filter_empty_conv)
      with Cons.prems(2) p Some have "unmergeable x f"
        by (auto simp: successively_append_iff)
      then have "w' \<noteq> w \<or> merge (out ! length pre) f = None"
        using p Some by (auto simp: unmergeable_def nth_append)
      from loop_keep[OF Some this] IH l p show ?thesis by simp
    qed
  qed
qed (simp add: loop_Nil)

end

text \<open>What is left unmergeable stays so when the later message grows.\<close>

locale greedy_alternation = role_alternation +
  assumes merge_None_merged: "merge l r = Some m \<Longrightarrow> merge p l = None \<Longrightarrow> merge p m = None"
begin

lemma unmergeable_merged: "merge l r = Some m \<Longrightarrow> unmergeable p l \<Longrightarrow> unmergeable p m"
  unfolding unmergeable_def using merge_None_merged[of l r m p] merge_wire[of l r m] by simp

lemma loop_maximal: "successively unmergeable (filter (\<lambda>f. wire f \<noteq> None) (loop [] None fs))"
proof -
  define P where "P out rest \<longleftrightarrow> successively unmergeable (filter (\<lambda>f. wire f \<noteq> None) out)" for out rest :: "'a list"
  have fp: "filter (\<lambda>f. wire f \<noteq> None) post = []" if "\<forall>g \<in> set post. wire g = None" for post
    using that by (simp add: filter_empty_conv)
  have "P (loop [] None fs) []"
  proof (rule loop_rule)
    fix pre x post f rest m
    assume a: "P (pre @ x # post) (f # rest)" "wire x \<noteq> None" "\<forall>g \<in> set post. wire g = None"
      "merge x f = Some m"
    have "wire m \<noteq> None" using a(2) merge_wire[OF a(4)] by simp
    then show "P (pre @ m # post) rest"
      using a unmergeable_merged[OF a(4)] fp[OF a(3)] by (auto simp: P_def successively_append_iff)
  next
    fix pre x post f rest
    assume a: "P (pre @ x # post) (f # rest)" "wire f \<noteq> None" "wire x \<noteq> None" "\<forall>g \<in> set post. wire g = None"
      "wire x = wire f \<longrightarrow> merge x f = None"
    then show "P (pre @ x # post @ [f]) rest"
      using fp[OF a(4)] by (auto simp: P_def successively_append_iff unmergeable_def)
  next
    fix out f rest
    assume a: "wire f \<noteq> None" "\<forall>g \<in> set out. wire g = None"
    then show "P (out @ [f]) rest" using fp[OF a(2)] by (simp add: P_def)
  qed (auto simp: P_def)
  then show ?thesis by (simp add: P_def)
qed

end

end
