(* ===== verification/Frame_Invariants.thy ===== *)
theory Frame_Invariants
  imports Content_Normalization Alternation "HOL-Library.Multiset"
begin

text \<open>
  Tool pairing over frames (\<open>services/conversation/message_invariants.py\<close>, the frame
  functions): \<open>ensure_tool_result_pairing\<close> and its passes.  The passes keep the sets
  \<open>seen_tool_uses\<close> and \<open>seen_results\<close> as arguments of a recursion over the frames.  The theorems
  show that the repaired chain satisfies the contract of \<open>Tool_Pairing\<close>.
\<close>

section \<open>Texts\<close>

definition SYNTHETIC_TOOL_RESULT_CONTENT :: string where
  "SYNTHETIC_TOOL_RESULT_CONTENT = ''[Tool result missing due to internal error]''"

definition REJECT_TOOL_USE_CONTENT :: string where
  "REJECT_TOOL_USE_CONTENT = ''The user declined this tool action, so the requested change did not happen. '' @
     ''For an attempted file edit, the file still has its previous contents. Stop the '' @
     ''current work and wait for the user'' @ [CHR 0x27] @ ''s next instruction before taking any further action.''"

definition ORPHAN_TOOL_RESULT_REMOVED_CONTENT :: string where
  "ORPHAN_TOOL_RESULT_REMOVED_CONTENT = ''[Orphaned tool result removed due to conversation resume]''"

definition ORPHAN_TOOL_RESULT_REPAIR_ORIGIN :: string where
  "ORPHAN_TOOL_RESULT_REPAIR_ORIGIN = ''orphan_tool_result_repair''"

definition sibling_error_message :: "string \<Rightarrow> string" where
  "sibling_error_message description = (let desc = py_strip description in
     if desc \<noteq> [] then ''Cancelled: parallel tool call '' @ desc @ '' errored''
     else ''Cancelled: parallel tool call errored'')"

definition reason_text :: "string \<Rightarrow> string" where
  "reason_text reason = py_strip (if reason \<noteq> [] then reason else ''missing_tool_result'')"

definition synthetic_tool_result_content :: "string \<Rightarrow> string \<Rightarrow> string" where
  "synthetic_tool_result_content reason description = (let r = reason_text reason in
     if r = ''user_interrupted'' then REJECT_TOOL_USE_CONTENT
     else if r = ''streaming_fallback''
     then ''<tool_use_error>Error: Streaming fallback - tool execution discarded</tool_use_error>''
     else if r = ''sibling_error''
     then ''<tool_use_error>'' @ sibling_error_message description @ ''</tool_use_error>''
     else if r \<in> set [''missing_tool_result'', ''prior_tool_execution_incomplete'',
        ''agent_terminated_before_tool_execution'', ''history_trimmed'']
     then SYNTHETIC_TOOL_RESULT_CONTENT
     else ''<tool_use_error>'' @ r @ ''</tool_use_error>'')"

definition synthetic_tool_use_result :: "string \<Rightarrow> string \<Rightarrow> string" where
  "synthetic_tool_use_result reason description = (let r = reason_text reason in
     if r = ''user_interrupted'' then ''User rejected tool use''
     else if r = ''streaming_fallback'' then ''Streaming fallback - tool execution discarded''
     else if r = ''sibling_error'' then sibling_error_message description
     else r)"

definition build_orphan_tool_result_placeholder_frame ::
    "frame option \<Rightarrow> string option \<Rightarrow> string \<Rightarrow> frame" where
  "build_orphan_tool_result_placeholder_frame source session origin =
     (new_frame SYSTEM_REMINDER META_USER [SystemReminderBlock ORPHAN_TOOL_RESULT_REMOVED_CONTENT None])
       \<lparr>f_is_meta := True, f_origin := Some origin,
        f_task_id := (case source of None \<Rightarrow> None | Some f \<Rightarrow> f_task_id f),
        f_timestamp_ms := (case source of None \<Rightarrow> 0 | Some f \<Rightarrow> f_timestamp_ms f),
        f_relevance := (case source of None \<Rightarrow> ''always'' | Some f \<Rightarrow> f_relevance f),
        f_schema_version := (case source of None \<Rightarrow> 1 | Some f \<Rightarrow> f_schema_version f),
        f_session_id := opt_or session (case source of None \<Rightarrow> None | Some f \<Rightarrow> f_session_id f),
        f_extra := [(''reason'', PyStr ''leading_orphan_tool_result_removed'')]\<rparr>"

section \<open>Helpers\<close>

definition tool_use_ids :: "frame \<Rightarrow> string list" where
  "tool_use_ids f = block_use_ids (f_blocks f)"

definition tool_result_ids :: "frame list \<Rightarrow> string set" where
  "tool_result_ids fs = set (concat (map (\<lambda>f. block_result_ids (f_blocks f)) fs))"

fun use_name_for_id :: "content_block list \<Rightarrow> string \<Rightarrow> string" where
  "use_name_for_id [] i = ''unknown_tool''"
| "use_name_for_id (b # bs) i = (case b of
      ToolUseBlock j name _ \<Rightarrow> if j = i then name else use_name_for_id bs i
    | _ \<Rightarrow> use_name_for_id bs i)"

definition tool_name_for_id :: "frame \<Rightarrow> string \<Rightarrow> string" where
  "tool_name_for_id f i = use_name_for_id (f_blocks f) i"

text \<open>\<open>ids[0] if len(ids) == 1 else None\<close>\<close>

fun single_id :: "string list \<Rightarrow> string option" where
  "single_id [i] = Some i"
| "single_id _ = None"

definition replace_blocks :: "frame \<Rightarrow> content_block list \<Rightarrow> frame" where
  "replace_blocks f blocks = (let uses = block_use_ids blocks; results = block_result_ids blocks in
     if uses \<noteq> [] then f\<lparr>f_kind := TOOL_USE, f_role := ASSISTANT, f_blocks := blocks,
                          f_tool_use_id := single_id uses\<rparr>
     else if results \<noteq> [] then f\<lparr>f_kind := TOOL_RESULT, f_role := TOOL, f_blocks := blocks,
                          f_tool_use_id := single_id results\<rparr>
     else if f_kind f = TOOL_USE
     then f\<lparr>f_kind := ASSISTANT_TEXT, f_blocks := blocks, f_tool_use_id := None\<rparr>
     else if f_kind f = TOOL_RESULT then f\<lparr>f_blocks := blocks, f_tool_use_id := None\<rparr>
     else f\<lparr>f_blocks := blocks\<rparr>)"

datatype wire_role = WireUser | WireAssistant

fun wire_role_of :: "frame_role \<Rightarrow> wire_role option" where
  "wire_role_of ASSISTANT = Some WireAssistant"
| "wire_role_of USER = Some WireUser"
| "wire_role_of META_USER = Some WireUser"
| "wire_role_of TOOL = Some WireUser"
| "wire_role_of SYSTEM = None"

definition frame_wire_role :: "frame \<Rightarrow> wire_role option" where
  "frame_wire_role f = wire_role_of (f_role f)"

definition has_rendered_message :: "frame list \<Rightarrow> bool" where
  "has_rendered_message fs = (\<exists>f \<in> set fs. frame_wire_role f \<noteq> None)"

section \<open>Passes\<close>

text \<open>The inner loop of \<open>dedupe_tool_use_ids\<close>: the blocks kept and the ids seen after them.\<close>

fun dedupe_blocks :: "string set \<Rightarrow> content_block list \<Rightarrow> content_block list \<times> string set" where
  "dedupe_blocks seen [] = ([], seen)"
| "dedupe_blocks seen (b # bs) =
    (if is_tool_use b \<and> (block_tool_id b = [] \<or> block_tool_id b \<in> seen) then dedupe_blocks seen bs
     else (let (kept, seen') = dedupe_blocks (if is_tool_use b then insert (block_tool_id b) seen else seen) bs
           in (b # kept, seen')))"

fun dedupe_loop :: "string set \<Rightarrow> frame list \<Rightarrow> frame list" where
  "dedupe_loop seen [] = []"
| "dedupe_loop seen (f # fs) =
    (let (blocks, seen') = dedupe_blocks seen (f_blocks f);
         changed = (length blocks \<noteq> length (f_blocks f))
     in if changed \<and> blocks = [] then dedupe_loop seen' fs
        else (if changed then replace_blocks f blocks else f) # dedupe_loop seen' fs)"

definition dedupe_tool_use_ids :: "frame list \<Rightarrow> frame list" where
  "dedupe_tool_use_ids fs = dedupe_loop {} fs"

text \<open>The inner loop of \<open>strip_orphan_tool_results\<close>.\<close>

fun strip_blocks :: "string set \<Rightarrow> string set \<Rightarrow> content_block list \<Rightarrow> content_block list \<times> string set" where
  "strip_blocks uses results [] = ([], results)"
| "strip_blocks uses results (b # bs) =
    (if is_tool_result b \<and> (block_tool_id b = [] \<or> block_tool_id b \<notin> uses \<or> block_tool_id b \<in> results)
     then strip_blocks uses results bs
     else (let (kept, results') =
               strip_blocks uses (if is_tool_result b then insert (block_tool_id b) results else results) bs
           in (b # kept, results')))"

fun strip_loop :: "string set \<Rightarrow> string set \<Rightarrow> frame list \<Rightarrow> frame list \<Rightarrow> frame list" where
  "strip_loop uses results stripped [] = stripped"
| "strip_loop uses results stripped (f # fs) =
    (let (blocks, results') = strip_blocks uses results (f_blocks f);
         changed = (length blocks \<noteq> length (f_blocks f))
     in if changed \<and> blocks = []
        then strip_loop (uses \<union> set (tool_use_ids f)) results'
               (if has_rendered_message stripped then stripped
                else stripped @ [build_orphan_tool_result_placeholder_frame (Some f) None
                                   ORPHAN_TOOL_RESULT_REPAIR_ORIGIN]) fs
        else (let g = (if changed then replace_blocks f blocks else f) in
               strip_loop (uses \<union> set (tool_use_ids g)) results' (stripped @ [g]) fs))"

definition strip_orphan_tool_results :: "frame list \<Rightarrow> frame list" where
  "strip_orphan_tool_results fs = strip_loop {} {} [] fs"

text \<open>\<open>_expected_tool_pairs\<close>: the first frame that declares an id.\<close>

fun expected_tool_pairs :: "frame list \<Rightarrow> string \<Rightarrow> frame option" where
  "expected_tool_pairs [] i = None"
| "expected_tool_pairs (f # fs) i = (if i \<in> set (tool_use_ids f) then Some f else expected_tool_pairs fs i)"

definition synthetic_result_block :: "(string \<Rightarrow> frame option) \<Rightarrow> string \<Rightarrow> content_block" where
  "synthetic_result_block expected i = ToolResultBlock i
     (case expected i of None \<Rightarrow> [] | Some f \<Rightarrow> tool_name_for_id f i)
     (synthetic_tool_result_content ''missing_tool_result'' []) True"

definition synthetic_result_frame :: "(string \<Rightarrow> frame option) \<Rightarrow> string list \<Rightarrow> frame \<Rightarrow> frame" where
  "synthetic_result_frame expected missing first =
     (new_frame TOOL_RESULT TOOL (map (synthetic_result_block expected) missing))
       \<lparr>f_is_meta := True, f_origin := Some ''synthetic_error'', f_task_id := f_task_id first,
        f_tool_use_id := single_id missing,
        f_source_tool_assistant_uuid := f_source_tool_assistant_uuid first,
        f_permission_mode := f_permission_mode first, f_timestamp_ms := f_timestamp_ms first,
        f_relevance := f_relevance first, f_schema_version := f_schema_version first,
        f_extra := [(''synthetic_reason'', PyStr ''missing_tool_result'')]\<rparr>"

text \<open>\<open>expected[missing_ids[0]]\<close> is present, since every missing id is in \<open>expected\<close>.\<close>

fun insert_synthetic_loop :: "(string \<Rightarrow> frame option) \<Rightarrow> string set \<Rightarrow> frame list \<Rightarrow> frame list" where
  "insert_synthetic_loop expected results [] = []"
| "insert_synthetic_loop expected results (f # fs) =
    (let missing = filter (\<lambda>i. expected i \<noteq> None \<and> i \<notin> results) (tool_use_ids f) in
     case missing of
       [] \<Rightarrow> f # insert_synthetic_loop expected results fs
     | i # _ \<Rightarrow> (case expected i of
           None \<Rightarrow> f # insert_synthetic_loop expected results fs
         | Some first \<Rightarrow> f # synthetic_result_frame expected missing first
                           # insert_synthetic_loop expected (results \<union> set missing) fs))"

definition insert_synthetic_error_tool_results ::
    "frame list \<Rightarrow> (string \<Rightarrow> frame option) \<Rightarrow> frame list" where
  "insert_synthetic_error_tool_results fs expected =
     insert_synthetic_loop expected (tool_result_ids fs) fs"

definition merge_compatible_frames :: "frame \<Rightarrow> frame \<Rightarrow> frame option" where
  "merge_compatible_frames left right = (let
     both = (\<lambda>P. (\<forall>b \<in> set (f_blocks left). P b) \<and> (\<forall>b \<in> set (f_blocks right). P b));
     merged = Some (replace_blocks left (f_blocks left @ f_blocks right))
     in if f_role left \<noteq> f_role right then None
        else (case f_role left of
            ASSISTANT \<Rightarrow> if both (\<lambda>b. is_text b \<or> is_tool_use b) then merged else None
          | TOOL \<Rightarrow> if both is_tool_result then merged else None
          | USER \<Rightarrow> if both is_text then merged else None
          | META_USER \<Rightarrow> if both (\<lambda>b. is_text b \<or> is_reminder b) then merged else None
          | SYSTEM \<Rightarrow> None))"

text \<open>The loop keeps the output, the index of its last message and that message's wire role.\<close>

fun alternate_loop :: "frame list \<Rightarrow> (nat \<times> wire_role) option \<Rightarrow> frame list \<Rightarrow> frame list" where
  "alternate_loop out last_msg [] = out"
| "alternate_loop out last_msg (f # fs) = (case frame_wire_role f of
      None \<Rightarrow> alternate_loop (out @ [f]) last_msg fs
    | Some w \<Rightarrow>
        (case (case last_msg of
             Some (i, w') \<Rightarrow> if w' = w then map_option (Pair i) (merge_compatible_frames (out ! i) f) else None
           | None \<Rightarrow> None) of
           Some (i, merged) \<Rightarrow> alternate_loop (out[i := merged]) last_msg fs
         | None \<Rightarrow> alternate_loop (out @ [f]) (Some (length out, w)) fs))"

definition preserve_role_alternation :: "frame list \<Rightarrow> frame list" where
  "preserve_role_alternation fs = alternate_loop [] None fs"

text \<open>\<open>ValueError\<close> with the kind and origin of the frame.\<close>

datatype bail_error = BehavioralBail string string

definition validate_no_behavioral_bail_examples :: "frame list \<Rightarrow> bail_error option" where
  "validate_no_behavioral_bail_examples fs =
    map_option (\<lambda>f. BehavioralBail (kind_value (f_kind f)) (opt_str (f_origin f)))
      (List.find (\<lambda>f. f_role f = ASSISTANT \<and> f_is_meta f) fs)"

definition ensure_tool_result_pairing :: "norm_env \<Rightarrow> frame list \<Rightarrow> bail_error + frame list" where
  "ensure_tool_result_pairing env frames0 = (let
     frames = map (normalize_frame_for_provider env None) frames0
     in case validate_no_behavioral_bail_examples frames of
       Some e \<Rightarrow> Inl e
     | None \<Rightarrow> (let
         stripped = strip_orphan_tool_results (dedupe_tool_use_ids frames);
         inserted = insert_synthetic_error_tool_results stripped (expected_tool_pairs stripped);
         repaired = preserve_role_alternation inserted
         in case validate_no_behavioral_bail_examples repaired of
              Some e \<Rightarrow> Inl e
            | None \<Rightarrow> Inr repaired))"

section \<open>Events of the passes\<close>

abbreviation frames_events :: "frame list \<Rightarrow> tool_event list" where
  "frames_events \<equiv> chain_events frame_events"

definition block_events :: "content_block list \<Rightarrow> tool_event list" where
  "block_events bs = concat (map block_event bs)"

lemma block_events_simps [simp, chain_simps]:
  "block_events [] = []"
  "block_events (b # bs) = block_event b @ block_events bs"
  "block_events (bs @ cs) = block_events bs @ block_events cs"
  by (simp_all add: block_events_def)

lemma frame_events_eq: "frame_events f = block_events (f_blocks f)"
  by (simp add: frame_events_def block_events_def)

lemma replace_blocks_sel [simp]:
  "f_blocks (replace_blocks f bs) = bs"
  "f_is_meta (replace_blocks f bs) = f_is_meta f"
  "f_origin (replace_blocks f bs) = f_origin f"
  by (simp_all add: replace_blocks_def Let_def)

lemma frame_events_replace [simp, chain_simps]: "frame_events (replace_blocks f bs) = block_events bs"
  by (simp add: frame_events_eq)

lemma placeholder_sel [simp]:
  "f_blocks (build_orphan_tool_result_placeholder_frame s ss og)
    = [SystemReminderBlock ORPHAN_TOOL_RESULT_REMOVED_CONTENT None]"
  "f_role (build_orphan_tool_result_placeholder_frame s ss og) = META_USER"
  "f_is_meta (build_orphan_tool_result_placeholder_frame s ss og)"
  "f_origin (build_orphan_tool_result_placeholder_frame s ss og) = Some og"
  "frame_events (build_orphan_tool_result_placeholder_frame s ss og) = []"
  by (simp_all add: build_orphan_tool_result_placeholder_frame_def frame_events_def)

lemma synthetic_frame_sel [simp]:
  "f_blocks (synthetic_result_frame ex ms f) = map (synthetic_result_block ex) ms"
  "f_role (synthetic_result_frame ex ms f) = TOOL"
  "frame_events (synthetic_result_frame ex ms f) = map Res ms"
  by (simp_all add: synthetic_result_frame_def frame_events_def synthetic_result_block_def o_def)

lemma tool_use_ids_events: "tool_use_ids f = filter (\<lambda>i. i \<noteq> []) (use_list (frame_events f))"
  by (simp add: tool_use_ids_def use_list_frame_events)

lemma tool_use_ids_ok: "[] \<notin> set (use_list (frame_events f)) \<Longrightarrow> tool_use_ids f = use_list (frame_events f)"
  by (auto simp: tool_use_ids_events filter_id_conv)

lemma tool_result_ids_events: "tool_result_ids fs = set (res_list (frames_events fs)) - {[]}"
proof -
  have "set (block_result_ids (f_blocks f)) = set (res_list (frame_events f)) - {[]}" for f
    unfolding res_list_frame_events[symmetric] by auto
  then show ?thesis by (induction fs) (auto simp: tool_result_ids_def)
qed

text \<open>An empty or repeated block list tells whether a pass changed a frame.\<close>

lemma dedupe_blocks_length: "length (fst (dedupe_blocks seen bs)) \<le> length bs"
  by (induction seen bs rule: dedupe_blocks.induct) (auto simp: Let_def split_beta)

lemma dedupe_blocks_changed:
  "length (fst (dedupe_blocks seen bs)) = length bs \<Longrightarrow> fst (dedupe_blocks seen bs) = bs"
proof (induction seen bs rule: dedupe_blocks.induct)
  case (2 seen b bs)
  then show ?case using dedupe_blocks_length[of seen bs] by (auto simp: Let_def split_beta split: if_splits)
qed simp

lemma strip_blocks_length: "length (fst (strip_blocks U R bs)) \<le> length bs"
  by (induction U R bs rule: strip_blocks.induct) (auto simp: Let_def split_beta)

lemma strip_blocks_changed:
  "length (fst (strip_blocks U R bs)) = length bs \<Longrightarrow> fst (strip_blocks U R bs) = bs"
proof (induction U R bs rule: strip_blocks.induct)
  case (2 U R b bs)
  then show ?case using strip_blocks_length[of U R bs] by (auto simp: Let_def split_beta split: if_splits)
qed simp

lemma dedupe_blocks_set: "set (fst (dedupe_blocks seen bs)) \<subseteq> set bs"
  by (induction seen bs rule: dedupe_blocks.induct) (auto simp: Let_def split_beta)

lemma strip_blocks_set: "set (fst (strip_blocks U R bs)) \<subseteq> set bs"
  by (induction U R bs rule: strip_blocks.induct) (auto simp: Let_def split_beta)

subsection \<open>Dedupe\<close>

lemma dedupe_blocks_events:
  "dedupe_blocks seen bs = (ks, seen') \<Longrightarrow>
    distinct (use_list (block_events ks)) \<and> [] \<notin> set (use_list (block_events ks))
    \<and> set (use_list (block_events ks)) \<inter> seen = {} \<and> seen' = seen \<union> set (use_list (block_events ks))"
proof (induction seen bs arbitrary: ks seen' rule: dedupe_blocks.induct)
  case (2 seen b bs)
  let ?s = "if is_tool_use b then insert (block_tool_id b) seen else seen"
  show ?case
  proof (cases "is_tool_use b \<and> (block_tool_id b = [] \<or> block_tool_id b \<in> seen)")
    case True
    with 2 show ?thesis by auto
  next
    case False
    obtain k s' where d: "dedupe_blocks ?s bs = (k, s')" by fastforce
    from "2.IH"(2)[OF False d] "2.prems" False d show ?thesis
      by (cases b) (auto simp: Let_def)
  qed
qed simp

lemma dedupe_frame_events:
  assumes "dedupe_blocks seen (f_blocks f) = (bs, seen')"
  shows "frame_events (if length bs \<noteq> length (f_blocks f) then replace_blocks f bs else f) = block_events bs"
  using dedupe_blocks_changed[of seen "f_blocks f"] assms by (auto simp: frame_events_eq)

lemma dedupe_loop_uses:
  "distinct (use_list (frames_events (dedupe_loop seen fs)))
   \<and> [] \<notin> set (use_list (frames_events (dedupe_loop seen fs)))
   \<and> set (use_list (frames_events (dedupe_loop seen fs))) \<inter> seen = {}"
proof (induction seen fs rule: dedupe_loop.induct)
  case (2 seen f fs)
  obtain bs seen' where d: "dedupe_blocks seen (f_blocks f) = (bs, seen')" by fastforce
  note de = dedupe_blocks_events[OF d] dedupe_frame_events[OF d]
  show ?case
  proof (cases "length bs \<noteq> length (f_blocks f) \<and> bs = []")
    case True
    with "2.IH"(1)[OF d[symmetric] refl refl True] d de show ?thesis by auto
  next
    case False
    with "2.IH"(2)[OF d[symmetric] refl refl False] d de show ?thesis by (auto simp: Let_def)
  qed
qed simp

lemma dedupe_uses_ok: "uses_ok (frames_events (dedupe_tool_use_ids fs))"
  using dedupe_loop_uses[of "{}" fs] by (simp add: uses_ok_def dedupe_tool_use_ids_def)

subsection \<open>Strip\<close>

lemma strip_blocks_scan:
  "strip_blocks V R bs = (ks, R') \<Longrightarrow> V \<subseteq> U \<Longrightarrow>
    distinct (use_list (block_events bs)) \<Longrightarrow> [] \<notin> set (use_list (block_events bs)) \<Longrightarrow>
    set (use_list (block_events bs)) \<inter> U = {} \<Longrightarrow>
    scan U R (block_events ks) = Some (U \<union> set (use_list (block_events ks)), R')
    \<and> use_list (block_events ks) = use_list (block_events bs)"
proof (induction V R bs arbitrary: ks R' U rule: strip_blocks.induct)
  case (2 V R b bs)
  let ?r = "if is_tool_result b then insert (block_tool_id b) R else R"
  show ?case
  proof (cases "is_tool_result b \<and> (block_tool_id b = [] \<or> block_tool_id b \<notin> V \<or> block_tool_id b \<in> R)")
    case True
    with 2 show ?thesis by (cases b) auto
  next
    case False
    obtain k r' where d: "strip_blocks V ?r bs = (k, r')" by fastforce
    let ?U = "if is_tool_use b then insert (block_tool_id b) U else U"
    have "V \<subseteq> ?U" using "2.prems"(2) by auto
    from "2.IH"(2)[OF False d this] "2.prems" False d show ?thesis
      by (cases b) (auto simp: Let_def)
  qed
qed simp

lemma strip_loop_scan:
  assumes "scan {} {} (frames_events acc) = Some (U, R)"
    "distinct (use_list (frames_events fs))" "[] \<notin> set (use_list (frames_events fs))"
    "set (use_list (frames_events fs)) \<inter> U = {}"
  shows "causal (frames_events (strip_loop U R acc fs))"
  using assms
proof (induction fs arbitrary: acc U R)
  case Nil
  then show ?case by (simp add: causal_def)
next
  case (Cons f fs)
  obtain bs R' where d: "strip_blocks U R (f_blocks f) = (bs, R')" by fastforce
  have sc: "scan U R (block_events bs) = Some (U \<union> set (use_list (block_events bs)), R')"
    and us: "use_list (block_events bs) = use_list (frame_events f)"
    using strip_blocks_scan[OF d order_refl] Cons.prems by (auto simp: frame_events_eq)
  have tu: "set (tool_use_ids f) = set (use_list (frame_events f))"
    using Cons.prems(3) by (simp add: tool_use_ids_ok)
  show ?case
  proof (cases "length bs \<noteq> length (f_blocks f) \<and> bs = []")
    case True
    then have "use_list (frame_events f) = []" "R' = R" using us sc by auto
    then have "set (tool_use_ids f) = {}" using tu by simp
    moreover have "f_blocks f \<noteq> []" using True by auto
    moreover have "set (use_list (frames_events fs)) \<inter> U = {}" using Cons.prems(4) by auto
    ultimately show ?thesis
      using Cons.IH[of acc U R] Cons.IH[of "acc @ [build_orphan_tool_result_placeholder_frame (Some f) None
            ORPHAN_TOOL_RESULT_REPAIR_ORIGIN]" U R] Cons.prems d True \<open>R' = R\<close>
      by (simp add: Let_def)
  next
    case False
    let ?g = "if length bs \<noteq> length (f_blocks f) then replace_blocks f bs else f"
    have g: "frame_events ?g = block_events bs"
      using strip_blocks_changed[of U R "f_blocks f"] d by (auto simp: frame_events_eq)
    have tg: "set (tool_use_ids ?g) = set (use_list (block_events bs))"
      using Cons.prems(3) us by (subst tool_use_ids_ok) (simp_all only: g, simp)
    have "scan {} {} (frames_events (acc @ [?g])) = Some (U \<union> set (tool_use_ids ?g), R')"
      using Cons.prems(1) sc by (simp add: scan_append g tg)
    moreover have "set (use_list (frames_events fs)) \<inter> (U \<union> set (tool_use_ids ?g)) = {}"
      unfolding tg us using Cons.prems(2,4) by auto
    ultimately have "causal (frames_events (strip_loop (U \<union> set (tool_use_ids ?g)) R' (acc @ [?g]) fs))"
      using Cons.IH Cons.prems(2,3) by simp
    then show ?thesis by (simp only: strip_loop.simps Let_def d prod.case False if_False)
  qed
qed

lemma strip_orphans_causal: "uses_ok (frames_events fs) \<Longrightarrow> causal (frames_events (strip_orphan_tool_results fs))"
  unfolding strip_orphan_tool_results_def by (rule strip_loop_scan) (auto simp: uses_ok_def)

subsection \<open>Insertion\<close>

lemma insert_loop_scan:
  assumes "scan U R (frames_events fs) = Some (U', R')"
    "\<forall>i \<in> set (use_list (frames_events fs)). expected i \<noteq> None"
    "S = Ro \<union> set (res_list (frames_events fs))" "Ro \<inter> set (res_list (frames_events fs)) = {}"
    "U \<subseteq> S"
  shows "\<exists>Ro'. scan U Ro (frames_events (insert_synthetic_loop expected S fs)) = Some (U', Ro') \<and> U' \<subseteq> Ro'"
  using assms
proof (induction fs arbitrary: U R Ro S)
  case Nil
  then show ?case by auto
next
  case (Cons f fs)
  obtain U1 R1 where s1: "scan U R (frame_events f) = Some (U1, R1)"
    and s2: "scan U1 R1 (frames_events fs) = Some (U', R')"
    using Cons.prems(1) by (auto simp: scan_append split: option.splits)
  let ?r = "set (res_list (frame_events f))" and ?rr = "set (res_list (frames_events fs))"
  let ?m = "filter (\<lambda>i. expected i \<noteq> None \<and> i \<notin> S) (tool_use_ids f)"
  have tu: "tool_use_ids f = use_list (frame_events f)" using scan_uses[OF s1] by (simp add: tool_use_ids_ok)
  have m: "set ?m = set (use_list (frame_events f)) - S" using Cons.prems(2) tu by auto
  have U1: "U1 = U \<union> set (use_list (frame_events f))" using scan_sets[OF s1] by simp
  have disj: "?r \<inter> ?rr = {}"
    using scan_results[OF Cons.prems(1)] by simp
  have so: "scan U Ro (frame_events f) = Some (U1, Ro \<union> ?r)"
    using scan_other_results[OF s1] Cons.prems(4) by auto
  have dm: "distinct ?m" "[] \<notin> set ?m" using scan_uses[OF s1] tu by auto
  have sm: "scan U1 (Ro \<union> ?r) (map Res ?m) = Some (U1, Ro \<union> ?r \<union> set ?m)"
  proof (rule scan_Res_block[OF dm])
    show "set ?m \<subseteq> U1" unfolding m U1 by blast
    show "set ?m \<inter> (Ro \<union> ?r) = {}" unfolding m using Cons.prems(3) by auto
  qed
  have "\<exists>Ro'. scan U1 (Ro \<union> ?r \<union> set ?m)
      (frames_events (insert_synthetic_loop expected (S \<union> set ?m) fs)) = Some (U', Ro') \<and> U' \<subseteq> Ro'"
  proof (rule Cons.IH[OF s2])
    show "\<forall>i \<in> set (use_list (frames_events fs)). expected i \<noteq> None" using Cons.prems(2) by simp
    show "S \<union> set ?m = Ro \<union> ?r \<union> set ?m \<union> ?rr" using Cons.prems(3) by auto
    show "(Ro \<union> ?r \<union> set ?m) \<inter> ?rr = {}" using Cons.prems(3,4) disj m by auto
    show "U1 \<subseteq> S \<union> set ?m" using Cons.prems(5) U1 m by auto
  qed
  then obtain Ro' where R': "scan U1 (Ro \<union> ?r \<union> set ?m)
      (frames_events (insert_synthetic_loop expected (S \<union> set ?m) fs)) = Some (U', Ro')" "U' \<subseteq> Ro'" by blast
  show ?case
  proof (cases ?m)
    case Nil
    then have "set ?m = {}" by simp
    with so R' have "scan U Ro (frame_events f @ frames_events (insert_synthetic_loop expected S fs)) = Some (U', Ro')"
      by (simp only: scan_append option.case prod.case Un_empty_right)
    with Nil R'(2) show ?thesis by (auto simp: Let_def)
  next
    case (Cons i js)
    then have "i \<in> set ?m" by simp
    then obtain first where first: "expected i = Some first" by auto
    have "insert_synthetic_loop expected S (f # fs) = f # synthetic_result_frame expected ?m first
        # insert_synthetic_loop expected (S \<union> set ?m) fs"
      using Cons first by (simp add: Let_def)
    with so sm R' show ?thesis by (simp only: chain_simps synthetic_frame_sel scan_append option.case prod.case) simp
  qed
qed

lemma expected_tool_pairs_Some: "i \<in> set (tool_use_ids f) \<Longrightarrow> f \<in> set fs \<Longrightarrow> expected_tool_pairs fs i \<noteq> None"
  by (induction fs) auto

lemma expected_covers:
  assumes "causal (frames_events fs)" "i \<in> set (use_list (frames_events fs))"
  shows "expected_tool_pairs fs i \<noteq> None"
proof -
  have ne: "[] \<notin> set (use_list (frames_events fs))" using assms(1) by (simp add: causal_iff uses_ok_def)
  from assms(2) have "\<exists>f \<in> set fs. i \<in> set (use_list (frame_events f))"
    by (induction fs) auto
  then obtain f where f: "f \<in> set fs" "i \<in> set (use_list (frame_events f))" by blast
  have "i \<noteq> []" using ne assms(2) by auto
  with f have "i \<in> set (tool_use_ids f)" by (simp add: tool_use_ids_events)
  with f show ?thesis using expected_tool_pairs_Some by blast
qed

lemma insert_well_paired:
  assumes "causal (frames_events fs)"
  shows "well_paired (frames_events (insert_synthetic_error_tool_results fs (expected_tool_pairs fs)))"
proof -
  obtain U R where UR: "scan {} {} (frames_events fs) = Some (U, R)" using assms by (auto simp: causal_def)
  have "tool_result_ids fs = {} \<union> set (res_list (frames_events fs))"
    using scan_results[OF UR] by (auto simp: tool_result_ids_events)
  then obtain Ro where "scan {} {} (frames_events (insert_synthetic_loop (expected_tool_pairs fs)
      (tool_result_ids fs) fs)) = Some (U, Ro)" "U \<subseteq> Ro"
    using insert_loop_scan[OF UR, of "expected_tool_pairs fs"] expected_covers[OF assms] by blast
  then show ?thesis by (simp add: well_paired_def insert_synthetic_error_tool_results_def)
qed


section \<open>Where the frames of a pass come from\<close>

lemma replace_blocks_role:
  "f_role (replace_blocks f bs) = (if block_use_ids bs \<noteq> [] then ASSISTANT
     else if block_result_ids bs \<noteq> [] then TOOL else f_role f)"
  by (simp add: replace_blocks_def Let_def)

definition derived_from :: "frame list \<Rightarrow> frame \<Rightarrow> bool" where
  "derived_from fs g = (g \<in> set fs
     \<or> (\<exists>f \<in> set fs. \<exists>bs. set bs \<subseteq> set (f_blocks f) \<and> g = replace_blocks f bs)
     \<or> (f_role g = META_USER \<and> block_events (f_blocks g) = [])
     \<or> (f_role g = TOOL \<and> use_list (frame_events g) = []))"

lemma derived_from_mono: "derived_from fs g \<Longrightarrow> set fs \<subseteq> set hs \<Longrightarrow> derived_from hs g"
  unfolding derived_from_def by blast

lemma derived_from_self: "g \<in> set fs \<Longrightarrow> derived_from fs g"
  by (simp add: derived_from_def)

lemma derived_from_replace: "set bs \<subseteq> set (f_blocks f) \<Longrightarrow> derived_from (f # fs) (replace_blocks f bs)"
  unfolding derived_from_def by auto

lemma dedupe_derived: "g \<in> set (dedupe_loop seen fs) \<Longrightarrow> derived_from fs g"
proof (induction seen fs rule: dedupe_loop.induct)
  case (2 seen f fs)
  obtain bs seen' where d: "dedupe_blocks seen (f_blocks f) = (bs, seen')" by fastforce
  have "set bs \<subseteq> set (f_blocks f)" using dedupe_blocks_set[of seen "f_blocks f"] d by simp
  note r = derived_from_replace[OF this, of fs] derived_from_self[of f "f # fs"]
  have "g = f \<or> g = replace_blocks f bs \<or> g \<in> set (dedupe_loop seen' fs)"
    using "2.prems" d by (auto simp: Let_def split: if_splits)
  moreover have "derived_from fs g" if "g \<in> set (dedupe_loop seen' fs)"
    using "2.IH"[OF d[symmetric] refl] that by blast
  ultimately show ?case
    using derived_from_mono[of fs g "f # fs"] r by auto
qed simp

lemma strip_derived:
  "g \<in> set (strip_loop U R acc fs) \<Longrightarrow> g \<in> set acc \<or> derived_from fs g"
proof (induction fs arbitrary: U R acc)
  case (Cons f fs)
  obtain bs R' where d: "strip_blocks U R (f_blocks f) = (bs, R')" by fastforce
  have sub: "set bs \<subseteq> set (f_blocks f)" using strip_blocks_set[of U R "f_blocks f"] d by simp
  let ?p = "build_orphan_tool_result_placeholder_frame (Some f) None ORPHAN_TOOL_RESULT_REPAIR_ORIGIN"
  note r = derived_from_replace[OF sub, of fs] derived_from_self[of f "f # fs"]
  have p: "derived_from (f # fs) ?p" by (simp add: derived_from_def)
  have "\<exists>U' acc'. strip_loop U R acc (f # fs) = strip_loop U' R' acc' fs
      \<and> set acc' \<subseteq> set acc \<union> {f, replace_blocks f bs, ?p}"
  proof (cases "length bs \<noteq> length (f_blocks f) \<and> bs = []")
    case True
    then have eq: "strip_loop U R acc (f # fs) = strip_loop (U \<union> set (tool_use_ids f)) R'
        (if has_rendered_message acc then acc else acc @ [?p]) fs"
      by (auto simp add: d Let_def)
    show ?thesis by (rule exI, rule exI, rule conjI, rule eq) auto
  next
    case False
    let ?g = "if length bs \<noteq> length (f_blocks f) then replace_blocks f bs else f"
    have eq: "strip_loop U R acc (f # fs) = strip_loop (U \<union> set (tool_use_ids ?g)) R' (acc @ [?g]) fs"
      by (simp only: strip_loop.simps Let_def d prod.case False if_False)
    show ?thesis by (rule exI, rule exI, rule conjI, rule eq) auto
  qed
  then obtain U' acc' where st: "strip_loop U R acc (f # fs) = strip_loop U' R' acc' fs"
    and acc': "set acc' \<subseteq> set acc \<union> {f, replace_blocks f bs, ?p}" by blast
  have "g \<in> set acc' \<or> derived_from fs g" using Cons.IH[of U' R' acc'] Cons.prems unfolding st by blast
  then show ?case using acc' r p derived_from_mono[of fs g "f # fs"] by auto
qed simp

lemma insert_derived: "g \<in> set (insert_synthetic_loop ex S fs) \<Longrightarrow> derived_from fs g"
proof (induction fs arbitrary: S)
  case (Cons f fs)
  have "g = f \<or> (\<exists>ms first. g = synthetic_result_frame ex ms first)
      \<or> (\<exists>S'. g \<in> set (insert_synthetic_loop ex S' fs))"
    using Cons.prems by (auto simp: Let_def split: list.splits option.splits)
  then show ?case
  proof (elim disjE exE)
    fix S' assume "g \<in> set (insert_synthetic_loop ex S' fs)"
    from Cons.IH[OF this] show ?thesis by (rule derived_from_mono) auto
  qed (auto simp: derived_from_def)
qed simp

text \<open>System frames carry no tool events: no pass makes one that does.\<close>

definition sys_free :: "frame list \<Rightarrow> bool" where
  "sys_free fs = (\<forall>f \<in> set fs. f_role f = SYSTEM \<longrightarrow> frame_events f = [])"

lemma block_events_Nil: "block_events bs = [] \<longleftrightarrow> (\<forall>b \<in> set bs. block_event b = [])"
  by (induction bs) auto

lemma derived_sys_free:
  assumes "sys_free fs" "\<forall>g \<in> set gs. derived_from fs g"
  shows "sys_free gs"
  unfolding sys_free_def
proof (intro ballI impI)
  fix g assume g: "g \<in> set gs" "f_role g = SYSTEM"
  then consider "g \<in> set fs" | f bs where "f \<in> set fs" "set bs \<subseteq> set (f_blocks f)" "g = replace_blocks f bs"
    using assms(2) by (auto simp: derived_from_def)
  then show "frame_events g = []"
  proof cases
    case 1
    then show ?thesis using assms(1) g by (simp add: sys_free_def)
  next
    case (2 f bs)
    then have "f_role f = SYSTEM" using g by (auto simp: replace_blocks_role split: if_splits)
    with 2 assms(1) have "block_events (f_blocks f) = []" by (simp add: sys_free_def frame_events_eq)
    with 2 show ?thesis by (auto simp: block_events_Nil)
  qed
qed

text \<open>Tool calls are made by behavioural assistant frames only, and no meta frame speaks as the
  assistant.\<close>

definition role_consistent :: "frame list \<Rightarrow> bool" where
  "role_consistent fs = (\<forall>f \<in> set fs. (f_role f = ASSISTANT \<longrightarrow> \<not> f_is_meta f)
     \<and> (block_use_ids (f_blocks f) \<noteq> [] \<longrightarrow> f_role f = ASSISTANT))"

lemma bail_None_iff:
  "validate_no_behavioral_bail_examples fs = None \<longleftrightarrow> (\<forall>f \<in> set fs. f_role f = ASSISTANT \<longrightarrow> \<not> f_is_meta f)"
  by (auto simp: validate_no_behavioral_bail_examples_def find_None_iff)

lemma block_use_ids_set: "set (block_use_ids bs) = {block_tool_id b | b. b \<in> set bs \<and> is_tool_use b \<and> block_tool_id b \<noteq> []}"
  by (auto simp: block_use_ids_def)

lemma block_use_ids_mono: "set bs \<subseteq> set cs \<Longrightarrow> block_use_ids bs \<noteq> [] \<Longrightarrow> block_use_ids cs \<noteq> []"
proof -
  assume a: "set bs \<subseteq> set cs" "block_use_ids bs \<noteq> []"
  then obtain i where "i \<in> set (block_use_ids bs)" by (cases "block_use_ids bs") auto
  then have "i \<in> set (block_use_ids cs)" using a(1) by (auto simp: block_use_ids_set)
  then show ?thesis by auto
qed

lemma no_use_ids: "use_list (block_events bs) = [] \<Longrightarrow> block_use_ids bs = []"
  using use_list_block_events[of bs] by (simp add: block_events_def)

lemma no_events_no_use: "block_events bs = [] \<Longrightarrow> block_use_ids bs = []"
  by (rule no_use_ids) simp

lemma derived_role_consistent:
  assumes "role_consistent fs" "\<forall>g \<in> set gs. derived_from fs g"
  shows "role_consistent gs"
  unfolding role_consistent_def
proof
  fix g assume g: "g \<in> set gs"
  then consider "g \<in> set fs" | f bs where "f \<in> set fs" "set bs \<subseteq> set (f_blocks f)" "g = replace_blocks f bs"
    | "f_role g = META_USER" "block_events (f_blocks g) = []" | "f_role g = TOOL" "use_list (frame_events g) = []"
    using assms(2) by (auto simp: derived_from_def)
  then show "(f_role g = ASSISTANT \<longrightarrow> \<not> f_is_meta g)
      \<and> (block_use_ids (f_blocks g) \<noteq> [] \<longrightarrow> f_role g = ASSISTANT)"
  proof cases
    case 1
    then show ?thesis using assms(1) by (simp add: role_consistent_def)
  next
    case (2 f bs)
    have f: "f_role f = ASSISTANT \<longrightarrow> \<not> f_is_meta f" "block_use_ids bs \<noteq> [] \<longrightarrow> f_role f = ASSISTANT"
      using assms(1) 2(1) block_use_ids_mono[OF 2(2)] by (auto simp: role_consistent_def)
    then show ?thesis using 2 by (auto simp: replace_blocks_role split: if_splits)
  next
    case 3
    then show ?thesis using no_events_no_use[of "f_blocks g"] by auto
  next
    case 4
    then show ?thesis using no_use_ids[of "f_blocks g"] by (auto simp: frame_events_eq)
  qed
qed


section \<open>Role alternation\<close>

abbreviation rendered :: "frame \<Rightarrow> bool" where
  "rendered f \<equiv> frame_wire_role f \<noteq> None"

lemma merge_SomeD:
  assumes "merge_compatible_frames l r = Some m"
  shows "f_role r = f_role l" "f_blocks m = f_blocks l @ f_blocks r" "f_role m = f_role l"
    "f_is_meta m = f_is_meta l" "frame_events m = frame_events l @ frame_events r"
    "frame_wire_role m = frame_wire_role l" "f_role l \<noteq> SYSTEM"
proof -
  have no: "block_use_ids bs = []" if "\<forall>b \<in> set bs. \<not> is_tool_use b" for bs
    using that by (auto simp: block_use_ids_def filter_empty_conv)
  have nr: "block_result_ids bs = []" if "\<forall>b \<in> set bs. \<not> is_tool_result b" for bs
    using that by (auto simp: block_result_ids_def filter_empty_conv)
  have ex: "is_text b \<Longrightarrow> \<not> is_tool_use b" "is_text b \<Longrightarrow> \<not> is_tool_result b"
    "is_tool_use b \<Longrightarrow> \<not> is_tool_result b" "is_tool_result b \<Longrightarrow> \<not> is_tool_use b"
    "is_reminder b \<Longrightarrow> \<not> is_tool_use b" "is_reminder b \<Longrightarrow> \<not> is_tool_result b" for b
    by (cases b; simp)+
  have m: "m = replace_blocks l (f_blocks l @ f_blocks r)" and rr: "f_role r = f_role l"
    using assms by (auto simp: merge_compatible_frames_def Let_def split: if_splits frame_role.splits)
  show role: "f_role m = f_role l"
  proof (cases "f_role l")
    case ASSISTANT
    with assms have "\<forall>b \<in> set (f_blocks l @ f_blocks r). \<not> is_tool_result b"
      by (auto simp: merge_compatible_frames_def Let_def ex split: if_splits dest: ex)
    then show ?thesis using nr m ASSISTANT by (auto simp: replace_blocks_role)
  next
    case TOOL
    with assms have "\<forall>b \<in> set (f_blocks l @ f_blocks r). \<not> is_tool_use b"
      by (auto simp: merge_compatible_frames_def Let_def split: if_splits dest: ex)
    then have "block_use_ids (f_blocks l @ f_blocks r) = []" by (rule no)
    then show ?thesis using m TOOL by (auto simp: replace_blocks_role)
  next
    case USER
    with assms have "\<forall>b \<in> set (f_blocks l @ f_blocks r). \<not> is_tool_use b"
      "\<forall>b \<in> set (f_blocks l @ f_blocks r). \<not> is_tool_result b"
      by (auto simp: merge_compatible_frames_def Let_def split: if_splits dest: ex)
    then have "block_use_ids (f_blocks l @ f_blocks r) = [] \<and> block_result_ids (f_blocks l @ f_blocks r) = []"
      by (intro conjI no nr)
    then show ?thesis using m by (simp add: replace_blocks_role)
  next
    case META_USER
    with assms have "\<forall>b \<in> set (f_blocks l @ f_blocks r). \<not> is_tool_use b"
      "\<forall>b \<in> set (f_blocks l @ f_blocks r). \<not> is_tool_result b"
      by (auto simp: merge_compatible_frames_def Let_def split: if_splits dest: ex)
    then have "block_use_ids (f_blocks l @ f_blocks r) = [] \<and> block_result_ids (f_blocks l @ f_blocks r) = []"
      by (intro conjI no nr)
    then show ?thesis using m by (simp add: replace_blocks_role)
  next
    case SYSTEM
    with assms show ?thesis by (auto simp: merge_compatible_frames_def Let_def split: if_splits)
  qed
  show "f_role r = f_role l" by (rule rr)
  show "f_blocks m = f_blocks l @ f_blocks r" "f_is_meta m = f_is_meta l"
    "frame_events m = frame_events l @ frame_events r"
    by (simp_all add: m frame_events_eq)
  show "frame_wire_role m = frame_wire_role l" by (simp add: frame_wire_role_def role)
  show "f_role l \<noteq> SYSTEM"
    using assms by (auto simp: merge_compatible_frames_def Let_def split: if_splits)
qed

lemma merge_None_merged:
  assumes "merge_compatible_frames l r = Some m" "merge_compatible_frames p l = None"
  shows "merge_compatible_frames p m = None"
proof -
  note M = merge_SomeD[OF assms(1)]
  show ?thesis
    using assms M(1-3) by (cases "f_role l") (auto simp: merge_compatible_frames_def Let_def split: if_splits)
qed

interpretation frame_alternation: greedy_alternation frame_wire_role merge_compatible_frames alternate_loop
  by unfold_locales (auto split: option.splits dest: merge_SomeD(6) merge_None_merged)

lemma sys_free_unrendered: "sys_free fs \<Longrightarrow> \<forall>f \<in> set fs. frame_wire_role f = None \<Longrightarrow> frames_events fs = []"
proof (induction fs)
  case (Cons f fs)
  then have "f_role f = SYSTEM" by (cases "f_role f") (auto simp: frame_wire_role_def)
  with Cons show ?case by (auto simp: sys_free_def)
qed simp

text \<open>Merging frames keeps the order of the tool events.\<close>

lemma alternation_events:
  assumes "sys_free fs"
  shows "frames_events (preserve_role_alternation fs) = frames_events fs"
proof -
  define P where "P out rest \<longleftrightarrow> sys_free out \<and> sys_free rest \<and> frames_events out @ frames_events rest = frames_events fs"
    for out rest :: "frame list"
  have "P (alternate_loop [] None fs) []"
  proof (rule frame_alternation.loop_rule)
    fix pre x post f rest m
    assume a: "P (pre @ x # post) (f # rest)" "\<forall>g \<in> set post. frame_wire_role g = None" "merge_compatible_frames x f = Some m"
    note M = merge_SomeD[OF a(3)]
    have "frames_events post = []" using a(1,2) by (intro sys_free_unrendered) (auto simp: P_def sys_free_def)
    with a(1) M show "P (pre @ m # post) rest" by (auto simp: P_def sys_free_def)
  qed (use assms in \<open>auto simp: P_def sys_free_def\<close>)
  then show ?thesis by (simp add: P_def preserve_role_alternation_def)
qed

text \<open>Alternation keeps roles and the meta flag of the frames it keeps.\<close>

lemma alternation_no_bail:
  assumes "validate_no_behavioral_bail_examples fs = None"
  shows "validate_no_behavioral_bail_examples (preserve_role_alternation fs) = None"
proof -
  define P where "P out rest \<longleftrightarrow> (\<forall>f \<in> set (out @ rest). f_role f = ASSISTANT \<longrightarrow> \<not> f_is_meta f)" for out rest :: "frame list"
  have "P (alternate_loop [] None fs) []"
  proof (rule frame_alternation.loop_rule)
    fix pre x post f rest m
    assume a: "P (pre @ x # post) (f # rest)" "merge_compatible_frames x f = Some m"
    note M = merge_SomeD[OF a(2)]
    from a(1) M show "P (pre @ m # post) rest" by (auto simp: P_def)
  qed (use assms in \<open>auto simp: P_def bail_None_iff\<close>)
  then show ?thesis by (simp add: P_def bail_None_iff preserve_role_alternation_def)
qed

definition unmergeable :: "frame \<Rightarrow> frame \<Rightarrow> bool" where
  "unmergeable a b = (frame_wire_role a = frame_wire_role b \<longrightarrow> merge_compatible_frames a b = None)"

lemma frame_unmergeable: "frame_alternation.unmergeable = unmergeable"
  by (intro ext) (simp add: frame_alternation.unmergeable_def unmergeable_def)

lemma alternation_maximal:
  "successively unmergeable (filter rendered (preserve_role_alternation fs))"
  using frame_alternation.loop_maximal[of fs] by (simp add: frame_unmergeable preserve_role_alternation_def)

lemma alternation_fix:
  "successively unmergeable (filter rendered fs) \<Longrightarrow> preserve_role_alternation fs = fs"
  unfolding preserve_role_alternation_def
  by (subst frame_alternation.loop_fix) (simp_all add: frame_unmergeable)

section \<open>A chain that needs no repair\<close>

definition plain_frames :: "frame list \<Rightarrow> bool" where
  "plain_frames fs = (\<forall>f \<in> set fs. use_list (frame_events f) = [] \<or> res_list (frame_events f) = [])"

lemma dedupe_blocks_fix:
  "distinct (use_list (block_events bs)) \<Longrightarrow> [] \<notin> set (use_list (block_events bs)) \<Longrightarrow>
    set (use_list (block_events bs)) \<inter> seen = {} \<Longrightarrow>
    dedupe_blocks seen bs = (bs, seen \<union> set (use_list (block_events bs)))"
proof (induction bs arbitrary: seen)
  case (Cons b bs)
  then show ?case by (cases b) auto
qed simp

lemma dedupe_loop_fix:
  "distinct (use_list (frames_events fs)) \<Longrightarrow> [] \<notin> set (use_list (frames_events fs)) \<Longrightarrow>
    set (use_list (frames_events fs)) \<inter> seen = {} \<Longrightarrow> dedupe_loop seen fs = fs"
proof (induction fs arbitrary: seen)
  case (Cons f fs)
  have "dedupe_blocks seen (f_blocks f) = (f_blocks f, seen \<union> set (use_list (frame_events f)))"
    using Cons.prems by (subst dedupe_blocks_fix) (auto simp: frame_events_eq)
  moreover have "dedupe_loop (seen \<union> set (use_list (frame_events f))) fs = fs"
    using Cons.prems by (intro Cons.IH) auto
  ultimately show ?case by simp
qed simp

lemma strip_blocks_fix:
  "distinct (res_list (block_events bs)) \<Longrightarrow> [] \<notin> set (res_list (block_events bs)) \<Longrightarrow>
    set (res_list (block_events bs)) \<subseteq> U \<Longrightarrow> set (res_list (block_events bs)) \<inter> R = {} \<Longrightarrow>
    strip_blocks U R bs = (bs, R \<union> set (res_list (block_events bs)))"
proof (induction bs arbitrary: R)
  case (Cons b bs)
  then show ?case by (cases b) auto
qed simp

lemma plain_results:
  assumes "scan U R es = Some (U', R')" "use_list es = [] \<or> res_list es = []"
  shows "set (res_list es) \<subseteq> U"
  using assms scan_answers[OF assms(1)] scan_sets[OF assms(1)] by auto

lemma strip_loop_fix:
  "plain_frames fs \<Longrightarrow> scan U R (frames_events fs) \<noteq> None \<Longrightarrow> strip_loop U R acc fs = acc @ fs"
proof (induction fs arbitrary: U R acc)
  case (Cons f fs)
  from Cons.prems(2) obtain U1 R1 where s1: "scan U R (frame_events f) = Some (U1, R1)"
    and s2: "scan U1 R1 (frames_events fs) \<noteq> None"
    by (auto simp: scan_append split: option.splits)
  have pf: "use_list (frame_events f) = [] \<or> res_list (frame_events f) = []"
    using Cons.prems(1) by (simp add: plain_frames_def)
  have "strip_blocks U R (f_blocks f) = (f_blocks f, R1)"
    using strip_blocks_fix[of "f_blocks f" U R] scan_results[OF s1] plain_results[OF s1 pf] scan_sets[OF s1]
    by (simp add: frame_events_eq)
  moreover have "U \<union> set (tool_use_ids f) = U1"
    using scan_sets[OF s1] scan_uses[OF s1] by (simp add: tool_use_ids_ok)
  ultimately show ?case using Cons.IH[OF _ s2, of "acc @ [f]"] Cons.prems(1) by (simp add: plain_frames_def)
qed simp

lemma insert_loop_fix:
  "set (use_list (frames_events fs)) \<subseteq> S \<Longrightarrow> insert_synthetic_loop ex S fs = fs"
proof (induction fs)
  case (Cons f fs)
  then have "filter (\<lambda>i. ex i \<noteq> None \<and> i \<notin> S) (tool_use_ids f) = []"
    by (auto simp: filter_empty_conv tool_use_ids_events)
  with Cons show ?case by simp
qed simp

interpretation frame_repair: stable_transcript_repair frame_events "\<lambda>_. True" dedupe_tool_use_ids
  strip_orphan_tool_results "\<lambda>fs. insert_synthetic_error_tool_results fs (expected_tool_pairs fs)" plain_frames
proof
  fix fs :: "frame list"
  show "uses_ok (frames_events (dedupe_tool_use_ids fs))" by (rule dedupe_uses_ok)
  show "causal (frames_events (strip_orphan_tool_results fs))" if "uses_ok (frames_events fs)"
    using that by (rule strip_orphans_causal)
  show "well_paired (frames_events (insert_synthetic_error_tool_results fs (expected_tool_pairs fs)))"
    if "causal (frames_events fs)" using that by (rule insert_well_paired)
  show "dedupe_tool_use_ids fs = fs" if "uses_ok (frames_events fs)"
    using that by (simp add: dedupe_tool_use_ids_def dedupe_loop_fix uses_ok_def)
  show "strip_orphan_tool_results fs = fs" if "plain_frames fs" "causal (frames_events fs)"
    using that strip_loop_fix[of fs "{}" "{}" "[]"] by (simp add: strip_orphan_tool_results_def causal_def)
  show "insert_synthetic_error_tool_results fs (expected_tool_pairs fs) = fs"
    if "well_paired (frames_events fs)"
    unfolding insert_synthetic_error_tool_results_def
    using well_pairedD[OF that] by (intro insert_loop_fix) (auto simp: tool_result_ids_events uses_ok_def)
qed (rule TrueI)+

section \<open>The repair of a frame chain\<close>

definition repaired_frames :: "frame list \<Rightarrow> frame list" where
  "repaired_frames fs = (let stripped = strip_orphan_tool_results (dedupe_tool_use_ids fs)
     in insert_synthetic_error_tool_results stripped (expected_tool_pairs stripped))"

lemma ensure_cases:
  "ensure_tool_result_pairing env fs = Inr out \<longleftrightarrow>
    (let ns = map (normalize_frame_for_provider env None) fs in
     validate_no_behavioral_bail_examples ns = None
     \<and> out = preserve_role_alternation (repaired_frames ns)
     \<and> validate_no_behavioral_bail_examples out = None)"
  by (auto simp: ensure_tool_result_pairing_def repaired_frames_def Let_def split: option.splits)

lemma repaired_derived:
  assumes step: "\<And>xs ys. Q xs \<Longrightarrow> \<forall>g \<in> set ys. derived_from xs g \<Longrightarrow> Q ys" and "Q fs"
  shows "Q (repaired_frames fs)"
proof -
  have "Q (dedupe_tool_use_ids fs)"
    using dedupe_derived by (intro step[OF assms(2)]) (auto simp: dedupe_tool_use_ids_def)
  then have "Q (strip_orphan_tool_results (dedupe_tool_use_ids fs))"
    by (rule step) (auto simp: strip_orphan_tool_results_def dest: strip_derived)
  then show ?thesis
    unfolding repaired_frames_def Let_def
    by (rule step) (auto simp: insert_synthetic_error_tool_results_def dest: insert_derived)
qed

lemma repaired_role_consistent: "role_consistent fs \<Longrightarrow> role_consistent (repaired_frames fs)"
  by (rule repaired_derived[where Q = role_consistent]) (rule derived_role_consistent)

lemma repaired_sys_free: "sys_free fs \<Longrightarrow> sys_free (repaired_frames fs)"
  by (rule repaired_derived[where Q = sys_free]) (rule derived_sys_free)

lemma normalize_provider_sel [simp]:
  "f_role (normalize_frame_for_provider env caps f) = f_role f"
  "f_kind (normalize_frame_for_provider env caps f) = f_kind f"
  "f_is_meta (normalize_frame_for_provider env caps f) = f_is_meta f"
  "f_origin (normalize_frame_for_provider env caps f) = f_origin f"
  "frame_events (normalize_frame_for_provider env caps f) = frame_events f"
  "block_use_ids (f_blocks (normalize_frame_for_provider env caps f)) = block_use_ids (f_blocks f)"
  by (simp_all add: normalize_frame_for_provider_def flip: use_list_frame_events)

lemma normalize_chain_events [simp]:
  "frames_events (map (normalize_frame_for_provider env caps) fs) = frames_events fs"
  by (induction fs) auto

lemma normalize_sys_free [simp]:
  "sys_free (map (normalize_frame_for_provider env caps) fs) = sys_free fs"
  by (auto simp: sys_free_def)

lemma normalize_role_consistent [simp]:
  "role_consistent (map (normalize_frame_for_provider env caps) fs) = role_consistent fs"
  by (auto simp: role_consistent_def)

end
