(* ===== verification/Native_Invariants.thy ===== *)
theory Native_Invariants
  imports Frame_Invariants
begin

text \<open>
  Tool pairing over provider messages (\<open>services/conversation/message_invariants.py\<close>, the
  native functions): \<open>repair_full_transcript\<close>, \<open>repair_delta_messages\<close> and their passes, on the
  Anthropic shape (blocks in a list content), the stored OpenAI shape (an \<open>_openai_assistant\<close>
  dict) and top-level \<open>function_call\<close> / \<open>function_call_output\<close> items.

  A message is a dict.  The environment variable of strict mode is an argument.  A role or type
  field is read as it is compared: a list or dict there, on which Python's \<open>in\<close> would raise, is
  not a member.
\<close>

definition get_strict_pairing_mode :: "string option \<Rightarrow> bool" where
  "get_strict_pairing_mode raw = (if \<not> opt_truthy raw then False
     else py_lower (py_strip (opt_str raw)) \<in> set [''1'', ''true'', ''yes'', ''on''])"

definition build_synthetic_tool_result_block :: "string \<Rightarrow> string \<Rightarrow> string \<Rightarrow> pyval" where
  "build_synthetic_tool_result_block i reason description = PyDict
     [(''type'', PyStr ''tool_result''), (''tool_use_id'', PyStr i),
      (''content'', PyStr (synthetic_tool_result_content reason description)),
      (''is_error'', PyBool True)]"

section \<open>Reading a message\<close>

text \<open>\<open>isinstance(block, dict) and block.get("type") == ty\<close>\<close>

fun is_block :: "string \<Rightarrow> pyval \<Rightarrow> bool" where
  "is_block ty (PyDict d) = (py_get ''type'' d = PyStr ty)"
| "is_block ty _ = False"

text \<open>\<open>str(block.get(key) or "")\<close>\<close>

fun block_field :: "string \<Rightarrow> pyval \<Rightarrow> string" where
  "block_field key (PyDict d) = str_or_empty (py_get key d)"
| "block_field key _ = []"

definition role_is :: "string \<Rightarrow> pydict \<Rightarrow> bool" where
  "role_is r m = (py_get ''role'' m = PyStr r)"

definition type_is :: "string \<Rightarrow> pydict \<Rightarrow> bool" where
  "type_is t m = (py_get ''type'' m = PyStr t)"

definition nonempty_ids :: "string list \<Rightarrow> string list" where
  "nonempty_ids is = filter (\<lambda>i. i \<noteq> []) is"

definition list_use_ids :: "pyval list \<Rightarrow> string list" where
  "list_use_ids bs = nonempty_ids (map (block_field ''id'') (filter (is_block ''tool_use'') bs))"

definition list_result_ids :: "pyval list \<Rightarrow> string list" where
  "list_result_ids bs = nonempty_ids (map (block_field ''tool_use_id'') (filter (is_block ''tool_result'') bs))"

fun is_dict :: "pyval \<Rightarrow> bool" where
  "is_dict (PyDict _) = True"
| "is_dict _ = False"

fun list_items :: "pyval \<Rightarrow> pyval list" where
  "list_items (PyList xs) = xs"
| "list_items _ = []"

text \<open>The ids of a stored OpenAI assistant content: its tool calls, then its function calls.\<close>

definition openai_call_ids :: "pydict \<Rightarrow> string list" where
  "openai_call_ids c = nonempty_ids (map (block_field ''id'') (filter is_dict (list_items (py_get ''tool_calls'' c))))
     @ nonempty_ids (map (block_field ''call_id'')
         (filter (is_block ''function_call'') (list_items (py_get ''response_items'' c))))"

definition openai_output_ids :: "pydict \<Rightarrow> string list" where
  "openai_output_ids c = nonempty_ids (map (block_field ''call_id'')
     (filter (is_block ''function_call_output'') (list_items (py_get ''response_items'' c))))"

definition is_openai :: "pydict \<Rightarrow> bool" where
  "is_openai c = py_truthy (py_get ''_openai_assistant'' c)"

definition native_tool_use_ids :: "pydict \<Rightarrow> string list" where
  "native_tool_use_ids m =
    (let item = (if type_is ''function_call'' m
                 then nonempty_ids [str_or_empty (py_get ''call_id'' m)] else [])
     in case py_get ''content'' m of
       PyList bs \<Rightarrow> (if role_is ''assistant'' m then list_use_ids bs else item)
     | PyDict c \<Rightarrow> (if role_is ''assistant'' m \<and> is_openai c then openai_call_ids c else item)
     | _ \<Rightarrow> item)"

definition top_level_function_output_id :: "pydict \<Rightarrow> string" where
  "top_level_function_output_id m =
    (if \<not> type_is ''function_call_output'' m then [] else str_or_empty (py_get ''call_id'' m))"

text \<open>\<open>str(message.get("tool_call_id") or message.get("tool_use_id") or "")\<close>\<close>

definition message_tool_id :: "pydict \<Rightarrow> string" where
  "message_tool_id m = str_or_empty (py_or (py_get ''tool_call_id'' m) (py_get ''tool_use_id'' m))"

text \<open>What \<open>_native_result_ids\<close> adds for one message.\<close>

definition message_result_ids :: "pydict \<Rightarrow> string list" where
  "message_result_ids m = nonempty_ids [top_level_function_output_id m]
     @ (if role_is ''tool'' m then nonempty_ids [message_tool_id m] else [])
     @ (case py_get ''content'' m of
          PyList bs \<Rightarrow> list_result_ids bs
        | PyDict c \<Rightarrow> (if is_openai c then openai_output_ids c else [])
        | _ \<Rightarrow> [])"

definition native_result_ids :: "pydict list \<Rightarrow> string set" where
  "native_result_ids ms = set (concat (map message_result_ids ms))"

text \<open>\<open>_native_message_result_ids\<close>, which strict mode reads.\<close>

definition native_message_result_ids :: "pydict \<Rightarrow> string set" where
  "native_message_result_ids m =
     (case py_get ''content'' m of PyList bs \<Rightarrow> set (list_result_ids bs) | _ \<Rightarrow> {})
     \<union> (case py_or (py_get ''tool_call_id'' m) (py_get ''tool_use_id'' m) of
          PyStr s \<Rightarrow> set (nonempty_ids [s]) | _ \<Rightarrow> {})"

definition has_pairing_mismatch :: "pydict list \<Rightarrow> bool" where
  "has_pairing_mismatch ms = (let
     pending = concat (map native_tool_use_ids ms);
     seen = \<Union> (set (map native_message_result_ids ms))
     in \<exists>u \<in> set pending. u \<notin> seen)"

definition native_wire_role :: "pydict \<Rightarrow> wire_role option" where
  "native_wire_role m =
    (if role_is ''assistant'' m \<or> type_is ''function_call'' m then Some WireAssistant
     else if role_is ''user'' m \<or> role_is ''tool'' m \<or> type_is ''function_call_output'' m then Some WireUser
     else None)"

section \<open>Passes\<close>

fun dedupe_native_blocks :: "string set \<Rightarrow> pyval list \<Rightarrow> pyval list \<times> string set" where
  "dedupe_native_blocks seen [] = ([], seen)"
| "dedupe_native_blocks seen (b # bs) =
    (if is_block ''tool_use'' b
     then (let i = block_field ''id'' b in
       if i = [] \<or> i \<in> seen then dedupe_native_blocks seen bs
       else (let (kept, seen') = dedupe_native_blocks (insert i seen) bs in (b # kept, seen')))
     else (let (kept, seen') = dedupe_native_blocks seen bs in (b # kept, seen')))"

text \<open>
  One list of a stored OpenAI content: entries that make a call (\<open>is_call\<close>) are kept when their
  id is new; \<open>local\<close> are the ids kept in this list.
\<close>

fun keep_fresh_calls ::
    "(pyval \<Rightarrow> bool) \<Rightarrow> string \<Rightarrow> string set \<Rightarrow> string set \<Rightarrow> pyval list \<Rightarrow> pyval list \<times> string set" where
  "keep_fresh_calls is_call key seen local [] = ([], local)"
| "keep_fresh_calls is_call key seen local (c # cs) =
    (if \<not> is_call c
     then (let (kept, local') = keep_fresh_calls is_call key seen local cs in (c # kept, local'))
     else (let i = block_field key c in
       if i = [] \<or> i \<in> seen \<or> i \<in> local then keep_fresh_calls is_call key seen local cs
       else (let (kept, local') = keep_fresh_calls is_call key seen (insert i local) cs
             in (c # kept, local'))))"

definition dedupe_openai_assistant_content :: "pydict \<Rightarrow> string set \<Rightarrow> pydict \<times> string set" where
  "dedupe_openai_assistant_content content seen = (let
     (c1, local1) = (case py_get ''tool_calls'' content of
         PyList calls \<Rightarrow> (let (kept, l) = keep_fresh_calls is_dict ''id'' seen {} calls
                         in (py_set ''tool_calls'' (PyList kept) content, l))
       | _ \<Rightarrow> (content, {}));
     (c2, local2) = (case py_get ''response_items'' c1 of
         PyList items \<Rightarrow> (let (kept, l) = keep_fresh_calls (is_block ''function_call'') ''call_id'' seen {} items
                         in (py_set ''response_items'' (PyList kept) c1, l))
       | _ \<Rightarrow> (c1, {}))
     in (c2, seen \<union> local1 \<union> local2))"

fun dedupe_native_loop :: "string set \<Rightarrow> pydict list \<Rightarrow> pydict list" where
  "dedupe_native_loop seen [] = []"
| "dedupe_native_loop seen (m # ms) =
    (case (role_is ''assistant'' m, py_get ''content'' m) of
       (True, PyList content) \<Rightarrow>
         (let (blocks, seen') = dedupe_native_blocks seen content in
          if blocks = [] then dedupe_native_loop seen' ms
          else py_set ''content'' (PyList blocks) m # dedupe_native_loop seen' ms)
     | (True, PyDict content) \<Rightarrow>
         (if is_openai content
          then (let (content', seen') = dedupe_openai_assistant_content content seen in
                py_set ''content'' (PyDict content') m # dedupe_native_loop seen' ms)
          else m # dedupe_native_loop seen ms)
     | _ \<Rightarrow> m # dedupe_native_loop seen ms)"

definition dedupe_native_tool_use_ids :: "pydict list \<Rightarrow> pydict list" where
  "dedupe_native_tool_use_ids ms = dedupe_native_loop {} ms"

definition server_result_ids :: "pyval list \<Rightarrow> string set" where
  "server_result_ids bs = set (nonempty_ids (map (\<lambda>b. case b of
      PyDict d \<Rightarrow> str_or_empty (py_or (py_get ''tool_use_id'' d) (py_get ''id'' d)) | _ \<Rightarrow> [])
    (filter (\<lambda>b. is_block ''server_tool_result'' b \<or> is_block ''mcp_tool_result'' b) bs)))"

definition is_orphan_server_use :: "string set \<Rightarrow> pyval \<Rightarrow> bool" where
  "is_orphan_server_use results b = ((is_block ''server_tool_use'' b \<or> is_block ''mcp_tool_use'' b)
     \<and> block_field ''id'' b \<notin> results)"

definition strip_server_uses_message :: "pydict \<Rightarrow> pydict" where
  "strip_server_uses_message m = (case (role_is ''assistant'' m, py_get ''content'' m) of
      (True, PyList content) \<Rightarrow>
        (let kept = filter (\<lambda>b. \<not> is_orphan_server_use (server_result_ids content) b) content in
         if length kept \<noteq> length content
         then py_set ''content''
                (PyList (if kept = [] then [text_block ''[Tool use interrupted]''] else kept)) m
         else m)
    | _ \<Rightarrow> m)"

definition strip_orphan_server_tool_uses :: "pydict list \<Rightarrow> pydict list" where
  "strip_orphan_server_tool_uses ms = map strip_server_uses_message ms"

fun strip_native_blocks :: "string set \<Rightarrow> string set \<Rightarrow> pyval list \<Rightarrow> pyval list \<times> string set" where
  "strip_native_blocks uses results [] = ([], results)"
| "strip_native_blocks uses results (b # bs) =
    (if is_block ''tool_result'' b
     then (let i = block_field ''tool_use_id'' b in
       if i = [] \<or> i \<notin> uses \<or> i \<in> results then strip_native_blocks uses results bs
       else (let (kept, results') = strip_native_blocks uses (insert i results) bs in (b # kept, results')))
     else (let (kept, results') = strip_native_blocks uses results bs in (b # kept, results')))"

text \<open>One message of \<open>_strip_orphan_native_tool_results\<close>: the message kept, if any, and the results seen.\<close>

definition strip_native_message ::
    "string set \<Rightarrow> string set \<Rightarrow> pydict \<Rightarrow> pydict option \<times> string set" where
  "strip_native_message uses results m = (let fid = top_level_function_output_id m in
     if fid \<noteq> [] then
       (if fid \<notin> uses \<or> fid \<in> results then (None, results) else (Some m, insert fid results))
     else (case (role_is ''user'' m \<or> role_is ''tool'' m, py_get ''content'' m) of
         (True, PyList content) \<Rightarrow>
           (let (blocks, results') = strip_native_blocks uses results content in
            (if blocks = [] then None else Some (py_set ''content'' (PyList blocks) m), results'))
       | _ \<Rightarrow>
           (if role_is ''tool'' m then
              (let i = message_tool_id m in
               if i \<noteq> [] \<and> (i \<notin> uses \<or> i \<in> results) then (None, results)
               else (Some m, if i \<noteq> [] then insert i results else results))
            else (Some m, results))))"

fun strip_native_loop :: "string set \<Rightarrow> string set \<Rightarrow> pydict list \<Rightarrow> pydict list" where
  "strip_native_loop uses results [] = []"
| "strip_native_loop uses results (m # ms) =
    (case strip_native_message uses results m of
       (None, results') \<Rightarrow> strip_native_loop uses results' ms
     | (Some m', results') \<Rightarrow> m' # strip_native_loop (uses \<union> set (native_tool_use_ids m')) results' ms)"

definition strip_orphan_native_tool_results :: "string set \<Rightarrow> pydict list \<Rightarrow> pydict list" where
  "strip_orphan_native_tool_results initial ms = strip_native_loop initial {} ms"

definition synthetic_result_message :: "string list \<Rightarrow> pydict" where
  "synthetic_result_message missing = [(''role'', PyStr ''user''),
     (''content'', PyList (map (\<lambda>i. build_synthetic_tool_result_block i ''missing_tool_result'' []) missing))]"

text \<open>The inner loop: ids with no result, each once, in order.\<close>

fun missing_native_ids :: "string set \<Rightarrow> string list \<Rightarrow> string list \<Rightarrow> string list" where
  "missing_native_ids results missing [] = missing"
| "missing_native_ids results missing (i # is) =
    (if i \<in> results \<or> i \<in> set missing then missing_native_ids results missing is
     else missing_native_ids results (missing @ [i]) is)"

fun insert_native_loop :: "string set \<Rightarrow> pydict list \<Rightarrow> pydict list" where
  "insert_native_loop results [] = []"
| "insert_native_loop results (m # ms) =
    (let missing = missing_native_ids results [] (native_tool_use_ids m) in
     if missing = [] then m # insert_native_loop results ms
     else m # synthetic_result_message missing # insert_native_loop (results \<union> set missing) ms)"

definition insert_synthetic_native_tool_results :: "pydict list \<Rightarrow> pydict list" where
  "insert_synthetic_native_tool_results ms = insert_native_loop (native_result_ids ms) ms"

fun merge_native_content :: "pyval \<Rightarrow> pyval \<Rightarrow> pyval option" where
  "merge_native_content (PyStr l) (PyStr r) =
     Some (PyStr (join_with (newline @ newline) (filter (\<lambda>p. p \<noteq> []) [l, r])))"
| "merge_native_content (PyList l) (PyList r) = Some (PyList (l @ r))"
| "merge_native_content (PyStr l) (PyList r) = Some (PyList (if l \<noteq> [] then text_block l # r else r))"
| "merge_native_content (PyList l) (PyStr r) = Some (PyList (if r \<noteq> [] then l @ [text_block r] else l))"
| "merge_native_content _ _ = None"

definition merge_native_messages :: "pydict \<Rightarrow> pydict \<Rightarrow> pydict option" where
  "merge_native_messages left right =
    (if native_wire_role left \<noteq> native_wire_role right then None
     else map_option (\<lambda>content. py_set ''content'' content
            (py_set ''role'' (py_or (py_get ''role'' left) (py_get ''role'' right)) left))
       (merge_native_content (py_get ''content'' left) (py_get ''content'' right)))"

fun alternate_native_loop :: "pydict list \<Rightarrow> (nat \<times> wire_role) option \<Rightarrow> pydict list \<Rightarrow> pydict list" where
  "alternate_native_loop out last_msg [] = out"
| "alternate_native_loop out last_msg (m # ms) = (case native_wire_role m of
      None \<Rightarrow> alternate_native_loop (out @ [m]) last_msg ms
    | Some w \<Rightarrow>
        (case (case last_msg of
             Some (i, w') \<Rightarrow> if w' = w then map_option (Pair i) (merge_native_messages (out ! i) m) else None
           | None \<Rightarrow> None) of
           Some (i, merged) \<Rightarrow> alternate_native_loop (out[i := merged]) last_msg ms
         | None \<Rightarrow> alternate_native_loop (out @ [m]) (Some (length out, w)) ms))"

definition preserve_native_role_alternation :: "pydict list \<Rightarrow> pydict list" where
  "preserve_native_role_alternation ms = alternate_native_loop [] None ms"

section \<open>Entry points\<close>

text \<open>\<open>ToolResultPairingError\<close> of the two entry points, with \<open>repaired_messages\<close>, and the \<open>TypeError\<close> of a membership test
  on a value that cannot be hashed: the type of a block in the passes over server tools, the role of a message in the pass
  over results (unless the message is an output item) and in the alternation pass.\<close>

datatype pairing_error = TranscriptMismatch nat | DeltaOrphans nat | UnhashableMember

fun not_hashable :: "pyval \<Rightarrow> bool" where
  "not_hashable (PyList xs) = True"
| "not_hashable (PyDict d) = True"
| "not_hashable _ = False"

definition server_pass_raises :: "pydict \<Rightarrow> bool" where
  "server_pass_raises m = (case (role_is ''assistant'' m, py_get ''content'' m) of
      (True, PyList bs) \<Rightarrow> list_ex (\<lambda>b. case b of PyDict d \<Rightarrow> not_hashable (py_get ''type'' d) | _ \<Rightarrow> False) bs
    | _ \<Rightarrow> False)"

definition passes_raise :: "pydict list \<Rightarrow> pydict list \<Rightarrow> pydict list \<Rightarrow> bool" where
  "passes_raise deduped served stripped = (list_ex server_pass_raises deduped
     \<or> list_ex (\<lambda>m. top_level_function_output_id m = [] \<and> not_hashable (py_get ''role'' m)) served
     \<or> list_ex (\<lambda>m. not_hashable (py_get ''role'' m)) stripped)"

definition strict_mode :: "string option \<Rightarrow> bool option \<Rightarrow> bool" where
  "strict_mode raw strict = (case strict of None \<Rightarrow> get_strict_pairing_mode raw | Some b \<Rightarrow> b)"

definition repair_full_transcript ::
    "norm_env \<Rightarrow> string option \<Rightarrow> bool option \<Rightarrow> pydict list \<Rightarrow> pairing_error + pydict list" where
  "repair_full_transcript env raw strict messages =
    (if messages = [] then Inr []
     else (let
       deduped = dedupe_native_tool_use_ids (normalize_native_messages_for_provider env None messages);
       served = strip_orphan_server_tool_uses deduped;
       stripped = strip_orphan_native_tool_results {} served;
       repaired = preserve_native_role_alternation (insert_synthetic_native_tool_results stripped)
       in if passes_raise deduped served stripped then Inl UnhashableMember
          else if strict_mode raw strict
             \<and> (length repaired \<noteq> length stripped \<or> has_pairing_mismatch repaired)
          then Inl (TranscriptMismatch (length repaired))
          else Inr repaired))"

definition native_message_content_blocks :: "pydict \<Rightarrow> pyval list" where
  "native_message_content_blocks m = (case py_get ''content'' m of PyList bs \<Rightarrow> bs | _ \<Rightarrow> [])"

definition count_blocks :: "pydict list \<Rightarrow> nat" where
  "count_blocks ms = sum_list (map (\<lambda>m. length (native_message_content_blocks m)) ms)"

definition repair_delta_messages ::
    "norm_env \<Rightarrow> string option \<Rightarrow> string set option \<Rightarrow> bool option \<Rightarrow> pydict list \<Rightarrow>
     pairing_error + pydict list" where
  "repair_delta_messages env raw continuity strict messages =
    (if messages = [] then Inr []
     else (let
       deduped = dedupe_native_tool_use_ids (normalize_native_messages_for_provider env None messages);
       served = strip_orphan_server_tool_uses deduped;
       stripped = strip_orphan_native_tool_results (case continuity of None \<Rightarrow> {} | Some ids \<Rightarrow> ids) served;
       repaired = preserve_native_role_alternation stripped
       in if passes_raise deduped served stripped then Inl UnhashableMember
          else if strict_mode raw strict \<and> count_blocks stripped \<noteq> count_blocks served
          then Inl (DeltaOrphans (length repaired))
          else Inr repaired))"

definition ensure_native_message_invariants ::
    "norm_env \<Rightarrow> string option \<Rightarrow> pydict list \<Rightarrow> pairing_error + pydict list" where
  "ensure_native_message_invariants env raw ms = repair_full_transcript env raw None ms"

end
