(* ===== verification/Native_Repair.thy ===== *)
theory Native_Repair
  imports Native_Invariants
begin

text \<open>
  What the repair of provider messages promises, for messages of the shapes the providers use
  (\<open>native_shape\<close>): the repaired transcript is one a provider accepts, a repaired delta is one
  relative to the calls the provider already knows, and no two neighbouring messages can be
  merged further.  The last section shows inputs on which the code does not do what it is for.
\<close>

section \<open>Events and shapes\<close>

text \<open>A stored OpenAI content may name a call twice, as a tool call and as a function call.\<close>

definition native_call_ids :: "pydict \<Rightarrow> string list" where
  "native_call_ids m = (if is_dict (py_get ''content'' m) then remdups (native_tool_use_ids m)
     else native_tool_use_ids m)"

definition native_events :: "pydict \<Rightarrow> tool_event list" where
  "native_events m = map Use (native_call_ids m) @ map Res (message_result_ids m)"

definition is_item :: "pydict \<Rightarrow> bool" where
  "is_item m = (type_is ''function_call'' m \<or> type_is ''function_call_output'' m)"

fun is_text_content :: "pyval \<Rightarrow> bool" where
  "is_text_content (PyStr _) = True"
| "is_text_content (PyList _) = True"
| "is_text_content _ = False"

fun is_openai_content :: "pyval \<Rightarrow> bool" where
  "is_openai_content (PyDict c) = is_openai c"
| "is_openai_content _ = False"

text \<open>
  Top-level items have no role and no content; results stand in user and tool messages; a tool
  message with an id of its own has no content to merge; only assistants carry OpenAI contents.
\<close>

definition native_shape :: "pydict \<Rightarrow> bool" where
  "native_shape m =
    ((\<not> is_item m \<or> (py_get ''role'' m = PyNone \<and> py_get ''content'' m = PyNone))
     \<and> (role_is ''user'' m \<or> role_is ''tool'' m \<or> is_item m \<or> message_result_ids m = [])
     \<and> (\<not> (role_is ''user'' m \<or> role_is ''tool'' m) \<or> \<not> is_openai_content (py_get ''content'' m))
     \<and> (\<not> (role_is ''tool'' m \<and> is_text_content (py_get ''content'' m)) \<or> message_tool_id m = []))"

definition item_ids :: "pydict \<Rightarrow> string list" where
  "item_ids m = (if type_is ''function_call'' m then nonempty_ids [str_or_empty (py_get ''call_id'' m)] else [])"

definition assistant_ids :: "pydict \<Rightarrow> string list" where
  "assistant_ids m = (if role_is ''assistant'' m then native_tool_use_ids m else [])"

text \<open>No call made by a top-level item is made again: the code does not look for that.\<close>

definition items_fresh :: "pydict list \<Rightarrow> bool" where
  "items_fresh ms = (distinct (concat (map item_ids ms))
     \<and> set (concat (map item_ids ms)) \<inter> set (concat (map assistant_ids ms)) = {})"

definition native_ok :: "pydict list \<Rightarrow> bool" where
  "native_ok ms = ((\<forall>m \<in> set ms. native_shape m) \<and> items_fresh ms)"

lemma nonempty_ids_simps [simp]:
  "nonempty_ids [] = []"
  "nonempty_ids (i # is) = (if i = [] then nonempty_ids is else i # nonempty_ids is)"
  "nonempty_ids (is @ js) = nonempty_ids is @ nonempty_ids js"
  by (auto simp: nonempty_ids_def)

lemma nonempty_ids_nonempty [simp]: "[] \<notin> set (nonempty_ids is)"
  by (simp add: nonempty_ids_def)

lemma native_tool_use_ids_nonempty [simp]: "[] \<notin> set (native_tool_use_ids m)"
  by (auto simp: native_tool_use_ids_def list_use_ids_def openai_call_ids_def Let_def
      simp del: nonempty_ids_simps(2) split: pyval.splits)

lemma message_result_ids_nonempty [simp]: "[] \<notin> set (message_result_ids m)"
  by (auto simp: message_result_ids_def list_result_ids_def openai_output_ids_def
      simp del: nonempty_ids_simps(2) split: pyval.splits)

lemma set_native_call_ids [simp]: "set (native_call_ids m) = set (native_tool_use_ids m)"
  by (simp add: native_call_ids_def)

lemma native_events_lists [simp, chain_simps]:
  "use_list (native_events m) = native_call_ids m"
  "res_list (native_events m) = message_result_ids m"
  by (simp_all add: native_events_def)

abbreviation natives_events :: "pydict list \<Rightarrow> tool_event list" where
  "natives_events \<equiv> chain_events native_events"

lemma set_content_reads [simp]:
  "role_is r (py_set ''content'' v m) = role_is r m"
  "type_is t (py_set ''content'' v m) = type_is t m"
  "is_item (py_set ''content'' v m) = is_item m"
  "top_level_function_output_id (py_set ''content'' v m) = top_level_function_output_id m"
  "message_tool_id (py_set ''content'' v m) = message_tool_id m"
  "item_ids (py_set ''content'' v m) = item_ids m"
  "native_wire_role (py_set ''content'' v m) = native_wire_role m"
  by (simp_all add: role_is_def type_is_def is_item_def top_level_function_output_id_def
      message_tool_id_def item_ids_def native_wire_role_def)

lemma role_is_unique: "role_is r m \<Longrightarrow> role_is r' m \<longleftrightarrow> r = r'"
  by (auto simp: role_is_def)

lemma type_is_unique: "type_is r m \<Longrightarrow> type_is r' m \<longleftrightarrow> r = r'"
  by (auto simp: type_is_def)

lemma item_ids_item: "item_ids m \<noteq> [] \<Longrightarrow> is_item m"
  by (auto simp: item_ids_def is_item_def split: if_splits)

lemma native_tool_use_ids_cases:
  assumes "native_shape m"
  shows "native_tool_use_ids m = item_ids m @ assistant_ids m"
    "item_ids m = [] \<or> assistant_ids m = []"
proof -
  have i: "item_ids m = []" if "role_is ''assistant'' m"
    using assms that item_ids_item[of m] by (auto simp: native_shape_def role_is_def)
  show "item_ids m = [] \<or> assistant_ids m = []" using i by (auto simp: assistant_ids_def)
  show "native_tool_use_ids m = item_ids m @ assistant_ids m"
    using i by (auto simp: native_tool_use_ids_def assistant_ids_def item_ids_def Let_def split: pyval.splits)
qed

section \<open>Dedupe\<close>

lemma list_ids_simps [simp]:
  "list_use_ids [] = []"
  "list_use_ids (b # bs) = (if is_block ''tool_use'' b \<and> block_field ''id'' b \<noteq> []
     then block_field ''id'' b # list_use_ids bs else list_use_ids bs)"
  "list_use_ids (bs @ cs) = list_use_ids bs @ list_use_ids cs"
  "list_result_ids [] = []"
  "list_result_ids (b # bs) = (if is_block ''tool_result'' b \<and> block_field ''tool_use_id'' b \<noteq> []
     then block_field ''tool_use_id'' b # list_result_ids bs else list_result_ids bs)"
  "list_result_ids (bs @ cs) = list_result_ids bs @ list_result_ids cs"
  by (auto simp: list_use_ids_def list_result_ids_def)

lemma dedupe_native_blocks_ids:
  "dedupe_native_blocks seen bs = (ks, seen') \<Longrightarrow>
    distinct (list_use_ids ks) \<and> set (list_use_ids ks) \<inter> seen = {}
    \<and> seen' = seen \<union> set (list_use_ids ks) \<and> set (list_use_ids ks) \<subseteq> set (list_use_ids bs)
    \<and> list_result_ids ks = list_result_ids bs"
proof (induction seen bs arbitrary: ks seen' rule: dedupe_native_blocks.induct)
  case (2 seen b bs)
  have ex: "is_block ''tool_result'' b \<Longrightarrow> \<not> is_block ''tool_use'' b" by (cases b) auto
  show ?case
  proof (cases "is_block ''tool_use'' b")
    case True
    show ?thesis
    proof (cases "block_field ''id'' b = [] \<or> block_field ''id'' b \<in> seen")
      case drop: True
      with "2.IH"(1)[OF True refl drop] "2.prems" True ex show ?thesis
        by (auto simp: Let_def)
    next
      case False
      obtain k s' where d: "dedupe_native_blocks (insert (block_field ''id'' b) seen) bs = (k, s')" by fastforce
      from "2.IH"(2)[OF True refl False d] "2.prems" True False d ex show ?thesis
        by (auto simp: Let_def)
    qed
  next
    case False
    obtain k s' where d: "dedupe_native_blocks seen bs = (k, s')" by fastforce
    from "2.IH"(3)[OF False d] "2.prems" False d show ?thesis by (auto simp: Let_def)
  qed
qed simp

lemma keep_fresh_calls_ids:
  "keep_fresh_calls P key seen local cs = (ks, local') \<Longrightarrow>
    set (nonempty_ids (map (block_field key) (filter P ks))) \<inter> seen = {}
    \<and> local' = local \<union> set (nonempty_ids (map (block_field key) (filter P ks)))
    \<and> set (nonempty_ids (map (block_field key) (filter P ks))) \<subseteq> set (nonempty_ids (map (block_field key) (filter P cs)))
    \<and> filter (\<lambda>c. \<not> P c) ks = filter (\<lambda>c. \<not> P c) cs"
proof (induction P key seen local cs arbitrary: ks local' rule: keep_fresh_calls.induct)
  case (2 P key seen local c cs)
  show ?case
  proof (cases "P c")
    case True
    show ?thesis
    proof (cases "block_field key c = [] \<or> block_field key c \<in> seen \<or> block_field key c \<in> local")
      case drop: True
      with "2.IH"(2)[OF _ refl drop] "2.prems" True show ?thesis by (auto simp: Let_def)
    next
      case False
      obtain k l where d: "keep_fresh_calls P key seen (insert (block_field key c) local) cs = (k, l)" by fastforce
      from "2.IH"(3)[OF _ refl False d] "2.prems" True False d show ?thesis by (auto simp: Let_def)
    qed
  next
    case False
    obtain k l where d: "keep_fresh_calls P key seen local cs = (k, l)" by fastforce
    from "2.IH"(1)[OF False d] "2.prems" False d show ?thesis by (auto simp: Let_def)
  qed
qed simp


lemma openai_call_ids_set:
  "openai_call_ids (py_set ''tool_calls'' (PyList ks) c)
    = nonempty_ids (map (block_field ''id'') (filter is_dict ks))
      @ nonempty_ids (map (block_field ''call_id'')
          (filter (is_block ''function_call'') (list_items (py_get ''response_items'' c))))"
  "openai_call_ids (py_set ''response_items'' (PyList ks) c)
    = nonempty_ids (map (block_field ''id'') (filter is_dict (list_items (py_get ''tool_calls'' c))))
      @ nonempty_ids (map (block_field ''call_id'') (filter (is_block ''function_call'') ks))"
  by (simp_all add: openai_call_ids_def)

lemma function_call_output_filter:
  "filter (is_block ''function_call_output'') xs
    = filter (is_block ''function_call_output'') (filter (\<lambda>c. \<not> is_block ''function_call'' c) xs)"
proof -
  have "is_block ''function_call_output'' c \<Longrightarrow> \<not> is_block ''function_call'' c" for c by (cases c) auto
  then show ?thesis by (auto simp: filter_filter intro!: filter_cong)
qed

lemma dedupe_openai_ids:
  assumes "dedupe_openai_assistant_content c seen = (c', seen')"
  shows "set (openai_call_ids c') \<inter> seen = {}" "seen' = seen \<union> set (openai_call_ids c')"
    "set (openai_call_ids c') \<subseteq> set (openai_call_ids c)" "openai_output_ids c' = openai_output_ids c"
    "is_openai c' = is_openai c"
proof -
  define tc where "tc = (\<lambda>c. nonempty_ids (map (block_field ''id'') (filter is_dict (list_items (py_get ''tool_calls'' c)))))"
  define ri where "ri = (\<lambda>c. nonempty_ids (map (block_field ''call_id'')
      (filter (is_block ''function_call'') (list_items (py_get ''response_items'' c)))))"
  have oc: "openai_call_ids c = tc c @ ri c" for c by (simp add: openai_call_ids_def tc_def ri_def)
  obtain c1 l1 where s1: "(case py_get ''tool_calls'' c of
         PyList calls \<Rightarrow> (let (kept, l) = keep_fresh_calls is_dict ''id'' seen {} calls
                         in (py_set ''tool_calls'' (PyList kept) c, l))
       | _ \<Rightarrow> (c, {})) = (c1, l1)" by fastforce
  obtain c2 l2 where s2: "(case py_get ''response_items'' c1 of
         PyList items \<Rightarrow> (let (kept, l) = keep_fresh_calls (is_block ''function_call'') ''call_id'' seen {} items
                         in (py_set ''response_items'' (PyList kept) c1, l))
       | _ \<Rightarrow> (c1, {})) = (c2, l2)" by fastforce
  have e: "c' = c2" "seen' = seen \<union> l1 \<union> l2"
    using assms s1 s2 by (auto simp: dedupe_openai_assistant_content_def)
  have t1: "set (tc c1) \<inter> seen = {} \<and> l1 = set (tc c1) \<and> set (tc c1) \<subseteq> set (tc c)
      \<and> py_get ''response_items'' c1 = py_get ''response_items'' c \<and> is_openai c1 = is_openai c"
  proof (cases "py_get ''tool_calls'' c")
    case (PyList calls)
    obtain ks l where k: "keep_fresh_calls is_dict ''id'' seen {} calls = (ks, l)" by fastforce
    from keep_fresh_calls_ids[OF k] s1 PyList k show ?thesis
      by (auto simp: tc_def is_openai_def)
  qed (use s1 in \<open>auto simp: tc_def\<close>)
  have t2: "set (ri c2) \<inter> seen = {} \<and> l2 = set (ri c2) \<and> set (ri c2) \<subseteq> set (ri c1)
      \<and> tc c2 = tc c1 \<and> openai_output_ids c2 = openai_output_ids c1 \<and> is_openai c2 = is_openai c1"
  proof (cases "py_get ''response_items'' c1")
    case (PyList items)
    obtain ks l where k: "keep_fresh_calls (is_block ''function_call'') ''call_id'' seen {} items = (ks, l)" by fastforce
    note K = keep_fresh_calls_ids[OF k]
    then have "filter (is_block ''function_call_output'') ks = filter (is_block ''function_call_output'') items"
      by (metis function_call_output_filter)
    with K s2 PyList k show ?thesis
      by (auto simp: tc_def ri_def is_openai_def openai_output_ids_def)
  qed (use s2 in \<open>auto simp: ri_def tc_def\<close>)
  have rc: "ri c1 = ri c" "openai_output_ids c1 = openai_output_ids c"
    using t1 by (simp_all add: ri_def openai_output_ids_def)
  show "set (openai_call_ids c') \<inter> seen = {}" "seen' = seen \<union> set (openai_call_ids c')"
    "set (openai_call_ids c') \<subseteq> set (openai_call_ids c)" "openai_output_ids c' = openai_output_ids c"
    "is_openai c' = is_openai c"
    using t1 t2 rc unfolding e oc by auto
qed

text \<open>One message of the dedupe loop.\<close>

definition dedupe_native_message :: "string set \<Rightarrow> pydict \<Rightarrow> pydict option \<times> string set" where
  "dedupe_native_message seen m = (case (role_is ''assistant'' m, py_get ''content'' m) of
       (True, PyList content) \<Rightarrow>
         (let (blocks, seen') = dedupe_native_blocks seen content in
          (if blocks = [] then None else Some (py_set ''content'' (PyList blocks) m), seen'))
     | (True, PyDict content) \<Rightarrow>
         (if is_openai content
          then (let (content', seen') = dedupe_openai_assistant_content content seen in
                (Some (py_set ''content'' (PyDict content') m), seen'))
          else (Some m, seen))
     | _ \<Rightarrow> (Some m, seen))"

lemma dedupe_native_loop_step:
  "dedupe_native_loop seen (m # ms) = (case dedupe_native_message seen m of
     (None, seen') \<Rightarrow> dedupe_native_loop seen' ms
   | (Some m', seen') \<Rightarrow> m' # dedupe_native_loop seen' ms)"
  by (auto simp: dedupe_native_message_def Let_def split_beta split: pyval.splits bool.splits)

lemma native_shape_content:
  assumes "native_shape m" "role_is ''assistant'' m" "message_result_ids (py_set ''content'' v m) = message_result_ids m"
  shows "native_shape (py_set ''content'' v m)"
  using assms role_is_unique[OF assms(2)] by (auto simp: native_shape_def role_is_def)

lemma dedupe_native_message_props:
  assumes "dedupe_native_message seen m = (r, seen')" "native_shape m"
  shows "case r of None \<Rightarrow> seen' = seen \<and> role_is ''assistant'' m
     | Some m' \<Rightarrow> native_shape m' \<and> item_ids m' = item_ids m \<and> set (assistant_ids m') \<inter> seen = {}
        \<and> seen' = seen \<union> set (assistant_ids m') \<and> set (assistant_ids m') \<subseteq> set (assistant_ids m)
        \<and> distinct (native_call_ids m')"
proof (cases "role_is ''assistant'' m")
  case False
  then have "r = Some m" "seen' = seen" using assms(1) by (auto simp: dedupe_native_message_def)
  moreover have "distinct (native_call_ids m)"
    using False native_tool_use_ids_cases(1)[OF assms(2)]
    by (simp add: native_call_ids_def assistant_ids_def item_ids_def)
  ultimately show ?thesis using assms(2) False by (simp add: assistant_ids_def)
next
  case True
  note ru = role_is_unique[OF True]
  have item: "item_ids m = []" using assms(2) True item_ids_item[of m] by (auto simp: native_shape_def role_is_def)
  have nit: "\<not> is_item m" using assms(2) True by (auto simp: native_shape_def role_is_def)
  show ?thesis
  proof (cases "py_get ''content'' m")
    case (PyList content)
    obtain bs s where d: "dedupe_native_blocks seen content = (bs, s)" by fastforce
    note D = dedupe_native_blocks_ids[OF d]
    have res: "message_result_ids (py_set ''content'' (PyList bs) m) = message_result_ids m"
      using D PyList by (simp add: message_result_ids_def)
    have ids: "native_tool_use_ids (py_set ''content'' (PyList bs) m) = list_use_ids bs"
      "native_tool_use_ids m = list_use_ids content"
      using True PyList by (simp_all add: native_tool_use_ids_def)
    have "r = (if bs = [] then None else Some (py_set ''content'' (PyList bs) m))" "seen' = s"
      using assms(1) True PyList d by (auto simp: dedupe_native_message_def)
    with D show ?thesis
      using native_shape_content[OF assms(2) True res] True ids
      by (auto simp: assistant_ids_def native_call_ids_def)
  next
    case (PyDict c)
    show ?thesis
    proof (cases "is_openai c")
      case oa: True
      obtain c' s where d: "dedupe_openai_assistant_content c seen = (c', s)" by fastforce
      note D = dedupe_openai_ids[OF d]
      have res: "message_result_ids (py_set ''content'' (PyDict c') m) = message_result_ids m"
        using D PyDict oa by (simp add: message_result_ids_def)
      have ids: "native_tool_use_ids (py_set ''content'' (PyDict c') m) = openai_call_ids c'"
        "native_tool_use_ids m = openai_call_ids c"
        using True PyDict oa D(5) by (simp_all add: native_tool_use_ids_def)
      have "r = Some (py_set ''content'' (PyDict c') m)" "seen' = s"
        using assms(1) True PyDict d oa by (auto simp: dedupe_native_message_def)
      with D show ?thesis
        using native_shape_content[OF assms(2) True res] True ids
        by (auto simp: assistant_ids_def native_call_ids_def)
    next
      case False
      then have "r = Some m" "seen' = seen" using assms(1) True PyDict by (auto simp: dedupe_native_message_def)
      moreover have "native_tool_use_ids m = []"
        using PyDict False nit by (simp add: native_tool_use_ids_def is_item_def)
      ultimately show ?thesis using assms(2) by (simp add: assistant_ids_def native_call_ids_def)
    qed
  qed (use assms True nit in \<open>auto simp: dedupe_native_message_def assistant_ids_def native_call_ids_def
      native_tool_use_ids_def is_item_def\<close>)
qed

abbreviation all_items :: "pydict list \<Rightarrow> string list" where
  "all_items ms \<equiv> concat (map item_ids ms)"

abbreviation all_assistant_ids :: "pydict list \<Rightarrow> string set" where
  "all_assistant_ids ms \<equiv> set (concat (map assistant_ids ms))"

lemma natives_uses: "use_list (natives_events ms) = concat (map native_call_ids ms)"
  by (induction ms) auto

lemma natives_results: "set (res_list (natives_events ms)) = native_result_ids ms"
  by (induction ms) (auto simp: native_result_ids_def)

lemma set_call_ids:
  "\<forall>m \<in> set ms. native_shape m \<Longrightarrow>
    set (concat (map native_call_ids ms)) = set (all_items ms) \<union> all_assistant_ids ms"
  by (induction ms) (auto simp: native_tool_use_ids_cases(1))

lemma dedupe_native_loop_props:
  assumes "\<forall>m \<in> set ms. native_shape m" "distinct (all_items ms)"
    "set (all_items ms) \<inter> all_assistant_ids ms = {}" "set (all_items ms) \<inter> seen = {}"
  shows "(\<forall>m \<in> set (dedupe_native_loop seen ms). native_shape m)
    \<and> all_items (dedupe_native_loop seen ms) = all_items ms
    \<and> all_assistant_ids (dedupe_native_loop seen ms) \<subseteq> all_assistant_ids ms
    \<and> all_assistant_ids (dedupe_native_loop seen ms) \<inter> seen = {}
    \<and> distinct (concat (map native_call_ids (dedupe_native_loop seen ms)))"
  using assms
proof (induction ms arbitrary: seen)
  case (Cons m ms)
  obtain r seen' where d: "dedupe_native_message seen m = (r, seen')" by fastforce
  have sh: "native_shape m" using Cons.prems(1) by simp
  note D = dedupe_native_message_props[OF d sh]
  have item_m: "item_ids m = []" if "role_is ''assistant'' m"
    using sh that item_ids_item[of m] by (auto simp: native_shape_def role_is_def)
  have pre: "\<forall>m \<in> set ms. native_shape m" "distinct (all_items ms)"
    "set (all_items ms) \<inter> all_assistant_ids ms = {}"
    using Cons.prems by auto
  have sub: "seen' \<subseteq> seen \<union> set (assistant_ids m)" using D by (auto split: option.splits)
  moreover have "set (all_items ms) \<inter> set (assistant_ids m) = {}" using Cons.prems(3) by auto
  moreover have "set (all_items ms) \<inter> seen = {}" using Cons.prems(4) by auto
  ultimately have "set (all_items ms) \<inter> seen' = {}" by blast
  note IH = Cons.IH[OF pre this]
  show ?case
  proof (cases r)
    case None
    then have e: "dedupe_native_loop seen (m # ms) = dedupe_native_loop seen' ms" "seen' = seen" "item_ids m = []"
      using d D item_m by (simp_all add: dedupe_native_loop_step del: dedupe_native_loop.simps)
    show ?thesis unfolding e(1) using IH e by auto
  next
    case (Some m')
    let ?rest = "dedupe_native_loop seen' ms"
    have e: "dedupe_native_loop seen (m # ms) = m' # ?rest"
      using d Some by (simp add: dedupe_native_loop_step del: dedupe_native_loop.simps)
    have M: "native_shape m'" "item_ids m' = item_ids m" "set (assistant_ids m') \<inter> seen = {}"
      "seen' = seen \<union> set (assistant_ids m')" "set (assistant_ids m') \<subseteq> set (assistant_ids m)"
      "distinct (native_call_ids m')"
      using D Some by auto
    have rest: "set (concat (map native_call_ids ?rest)) \<subseteq> set (all_items ms) \<union> all_assistant_ids ?rest"
      using set_call_ids[of ?rest] IH by auto
    have "set (native_call_ids m') = set (item_ids m) \<union> set (assistant_ids m')"
      using native_tool_use_ids_cases(1)[OF M(1)] M(2) by simp
    moreover have "set (item_ids m) \<inter> (set (all_items ms) \<union> all_assistant_ids ms) = {}"
      using Cons.prems(2,3) by auto
    moreover have "set (assistant_ids m') \<inter> set (all_items ms) = {}" using Cons.prems(3) M(5) by auto
    ultimately have "set (native_call_ids m') \<inter> set (concat (map native_call_ids ?rest)) = {}"
      using rest IH M(4) by blast
    then show ?thesis unfolding e using IH M by auto
  qed
qed simp

section \<open>Orphan server calls\<close>

lemma server_use_events:
  "is_orphan_server_use S b \<Longrightarrow> \<not> is_block ''tool_use'' b \<and> \<not> is_block ''tool_result'' b"
  by (cases b) (auto simp: is_orphan_server_use_def)

lemma server_filter_ids:
  "list_use_ids (filter (\<lambda>b. \<not> is_orphan_server_use S b) bs) = list_use_ids bs"
  "list_result_ids (filter (\<lambda>b. \<not> is_orphan_server_use S b) bs) = list_result_ids bs"
  by (induction bs) (auto dest: server_use_events)

lemma text_block_ids [simp]: "is_block ''tool_use'' (text_block s) = False" "is_block ''tool_result'' (text_block s) = False"
  by (simp_all add: text_block_def)

lemma server_message_props:
  assumes "native_shape m"
  shows "native_shape (strip_server_uses_message m) \<and> item_ids (strip_server_uses_message m) = item_ids m
    \<and> assistant_ids (strip_server_uses_message m) = assistant_ids m
    \<and> native_call_ids (strip_server_uses_message m) = native_call_ids m"
proof (cases "role_is ''assistant'' m \<and> (\<exists>c. py_get ''content'' m = PyList c)")
  case True
  then obtain c where r: "role_is ''assistant'' m" and c: "py_get ''content'' m = PyList c" by auto
  let ?k = "filter (\<lambda>b. \<not> is_orphan_server_use (server_result_ids c) b) c"
  let ?new = "if ?k = [] then [text_block ''[Tool use interrupted]''] else ?k"
  have ids: "list_use_ids ?new = list_use_ids c" "list_result_ids ?new = list_result_ids c"
    using server_filter_ids[of "server_result_ids c" c] by auto
  have u: "native_tool_use_ids (py_set ''content'' (PyList ?new) m) = native_tool_use_ids m"
    using r c ids by (simp add: native_tool_use_ids_def)
  have "message_result_ids (py_set ''content'' (PyList ?new) m) = message_result_ids m"
    using c ids by (simp add: message_result_ids_def)
  note sh = native_shape_content[OF assms r this]
  have "strip_server_uses_message m = m \<or> strip_server_uses_message m = py_set ''content'' (PyList ?new) m"
    using r c by (simp add: strip_server_uses_message_def Let_def)
  then show ?thesis
    using sh u assms r c by (elim disjE) (simp_all add: assistant_ids_def native_call_ids_def)
next
  case False
  then have "strip_server_uses_message m = m"
    by (auto simp: strip_server_uses_message_def split: pyval.splits bool.splits)
  with assms show ?thesis by simp
qed

lemma server_strip_props:
  assumes "\<forall>m \<in> set ms. native_shape m"
  shows "(\<forall>m \<in> set (strip_orphan_server_tool_uses ms). native_shape m)
    \<and> all_items (strip_orphan_server_tool_uses ms) = all_items ms
    \<and> all_assistant_ids (strip_orphan_server_tool_uses ms) = all_assistant_ids ms
    \<and> concat (map native_call_ids (strip_orphan_server_tool_uses ms)) = concat (map native_call_ids ms)"
  using assms by (induction ms) (auto simp: strip_orphan_server_tool_uses_def server_message_props)

section \<open>Strip\<close>

lemma strip_native_blocks_scan:
  "strip_native_blocks U R bs = (ks, R') \<Longrightarrow>
    scan U R (map Res (list_result_ids ks)) = Some (U, R') \<and> list_use_ids ks = list_use_ids bs
    \<and> (ks = [] \<longrightarrow> R' = R)"
proof (induction U R bs arbitrary: ks R' rule: strip_native_blocks.induct)
  case (2 U R b bs)
  have ex: "is_block ''tool_result'' b \<Longrightarrow> \<not> is_block ''tool_use'' b" by (cases b) auto
  show ?case
  proof (cases "is_block ''tool_result'' b")
    case True
    show ?thesis
    proof (cases "block_field ''tool_use_id'' b = [] \<or> block_field ''tool_use_id'' b \<notin> U \<or> block_field ''tool_use_id'' b \<in> R")
      case drop: True
      with "2.IH"(1)[OF True refl drop] "2.prems" True ex show ?thesis by (auto simp: Let_def)
    next
      case False
      obtain k r where d: "strip_native_blocks U (insert (block_field ''tool_use_id'' b) R) bs = (k, r)" by fastforce
      from "2.IH"(2)[OF True refl False d] "2.prems" True False d ex show ?thesis by (auto simp: Let_def)
    qed
  next
    case False
    obtain k r where d: "strip_native_blocks U R bs = (k, r)" by fastforce
    from "2.IH"(3)[OF False d] "2.prems" False d show ?thesis by (auto simp: Let_def)
  qed
qed simp

lemma shape_results:
  assumes "native_shape m"
  shows "top_level_function_output_id m \<noteq> [] \<Longrightarrow> message_result_ids m = [top_level_function_output_id m]"
    "top_level_function_output_id m = [] \<Longrightarrow> role_is ''user'' m \<or> role_is ''tool'' m \<Longrightarrow>
       py_get ''content'' m = PyList c \<Longrightarrow> message_result_ids m = list_result_ids c"
    "top_level_function_output_id m = [] \<Longrightarrow> role_is ''tool'' m \<Longrightarrow>
       \<forall>c. py_get ''content'' m \<noteq> PyList c \<Longrightarrow> message_result_ids m = nonempty_ids [message_tool_id m]"
    "top_level_function_output_id m = [] \<Longrightarrow> \<not> role_is ''tool'' m \<Longrightarrow> \<not> role_is ''user'' m \<Longrightarrow> message_result_ids m = []"
    "top_level_function_output_id m = [] \<Longrightarrow> role_is ''user'' m \<Longrightarrow>
       \<forall>c. py_get ''content'' m \<noteq> PyList c \<Longrightarrow> message_result_ids m = []"
proof -
  have t: "is_item m" if "top_level_function_output_id m \<noteq> []"
    using that by (auto simp: top_level_function_output_id_def is_item_def split: if_splits)
  show "top_level_function_output_id m \<noteq> [] \<Longrightarrow> message_result_ids m = [top_level_function_output_id m]"
    using t assms by (simp add: message_result_ids_def native_shape_def role_is_def)
  show "top_level_function_output_id m = [] \<Longrightarrow> role_is ''user'' m \<or> role_is ''tool'' m \<Longrightarrow>
       py_get ''content'' m = PyList c \<Longrightarrow> message_result_ids m = list_result_ids c"
    using assms by (auto simp: message_result_ids_def native_shape_def)
  show "top_level_function_output_id m = [] \<Longrightarrow> role_is ''tool'' m \<Longrightarrow>
       \<forall>c. py_get ''content'' m \<noteq> PyList c \<Longrightarrow> message_result_ids m = nonempty_ids [message_tool_id m]"
    using assms by (auto simp: message_result_ids_def native_shape_def split: pyval.splits)
  show "top_level_function_output_id m = [] \<Longrightarrow> \<not> role_is ''tool'' m \<Longrightarrow> \<not> role_is ''user'' m \<Longrightarrow> message_result_ids m = []"
    using assms by (auto simp: message_result_ids_def native_shape_def)
  show "top_level_function_output_id m = [] \<Longrightarrow> role_is ''user'' m \<Longrightarrow>
       \<forall>c. py_get ''content'' m \<noteq> PyList c \<Longrightarrow> message_result_ids m = []"
    using assms role_is_unique[of "''user''" m "''tool''"]
    by (auto simp: message_result_ids_def native_shape_def split: pyval.splits)
qed

text \<open>One message of the strip loop.\<close>

lemma strip_native_message_props:
  assumes "strip_native_message U R m = (r, R')" "native_shape m"
  shows "case r of None \<Rightarrow> R' = R \<and> native_call_ids m = []
     | Some m' \<Rightarrow> scan U R (map Res (message_result_ids m')) = Some (U, R') \<and> native_shape m'
        \<and> native_call_ids m' = native_call_ids m \<and> item_ids m' = item_ids m \<and> assistant_ids m' = assistant_ids m"
proof (cases "top_level_function_output_id m = []")
  case False
  have "type_is ''function_call_output'' m" using False by (auto simp: top_level_function_output_id_def split: if_splits)
  then have "\<not> type_is ''function_call'' m" "py_get ''role'' m = PyNone" "py_get ''content'' m = PyNone"
    using type_is_unique[of "''function_call_output''" m "''function_call''"] assms(2)
    by (auto simp: native_shape_def is_item_def)
  then have "native_call_ids m = []" by (simp add: native_call_ids_def native_tool_use_ids_def)
  then show ?thesis
    using assms False shape_results(1)[OF assms(2) False]
    by (auto simp: strip_native_message_def Let_def split: if_splits)
next
  case fid: True
  show ?thesis
  proof (cases "(role_is ''user'' m \<or> role_is ''tool'' m) \<and> (\<exists>c. py_get ''content'' m = PyList c)")
    case True
    then obtain c where r: "role_is ''user'' m \<or> role_is ''tool'' m" and c: "py_get ''content'' m = PyList c" by auto
    obtain ks R1 where d: "strip_native_blocks U R c = (ks, R1)" by fastforce
    note D = strip_native_blocks_scan[OF d]
    have na: "\<not> role_is ''assistant'' m" and ni: "\<not> is_item m"
      using r assms(2) by (auto simp: native_shape_def role_is_def)
    have uses: "native_tool_use_ids (py_set ''content'' v m) = []" "native_tool_use_ids m = []" for v
      using na ni by (auto simp: native_tool_use_ids_def is_item_def Let_def split: pyval.splits)
    have res: "r = (if ks = [] then None else Some (py_set ''content'' (PyList ks) m))" "R' = R1"
      using assms(1) fid r c d by (auto simp: strip_native_message_def)
    have sh: "native_shape (py_set ''content'' (PyList ks) m)"
      using assms(2) r ni c by (auto simp: native_shape_def)
    have mr: "message_result_ids (py_set ''content'' (PyList ks) m) = list_result_ids ks"
      using shape_results(2)[OF sh] fid r by simp
    show ?thesis using D res sh mr na uses by (auto simp: native_call_ids_def assistant_ids_def)
  next
    case False
    show ?thesis
    proof (cases "role_is ''tool'' m")
      case True
      then have nl: "\<forall>c. py_get ''content'' m \<noteq> PyList c" using False by auto
      have "\<not> role_is ''assistant'' m" "\<not> is_item m"
        using assms(2) True by (auto simp: native_shape_def role_is_def)
      then have uses: "native_tool_use_ids m = []"
        by (auto simp: native_tool_use_ids_def is_item_def Let_def split: pyval.splits)
      have e: "strip_native_message U R m = (let i = message_tool_id m in
          if i \<noteq> [] \<and> (i \<notin> U \<or> i \<in> R) then (None, R) else (Some m, if i \<noteq> [] then insert i R else R))"
        using fid True nl by (cases "py_get ''content'' m") (simp_all add: strip_native_message_def)
      have nc: "native_call_ids m = []" using uses by (simp add: native_call_ids_def)
      show ?thesis
      proof (cases "message_tool_id m \<noteq> [] \<and> (message_tool_id m \<notin> U \<or> message_tool_id m \<in> R)")
        case True
        then show ?thesis using assms(1) nc unfolding e by (auto simp: Let_def)
      next
        case False
        then have "r = Some m" "R' = (if message_tool_id m \<noteq> [] then insert (message_tool_id m) R else R)"
          using assms(1) unfolding e by (auto simp: Let_def)
        then show ?thesis using False assms(2) shape_results(3)[OF assms(2) fid \<open>role_is ''tool'' m\<close> nl] by auto
      qed
    next
      case nt: False
      have res: "r = Some m" "R' = R"
        using assms(1) fid nt False by (auto simp: strip_native_message_def split: pyval.splits bool.splits)
      have "message_result_ids m = []"
        using shape_results(4,5)[OF assms(2) fid] nt False by (cases "role_is ''user'' m") auto
      with res assms(2) show ?thesis by simp
    qed
  qed
qed

lemma scan_calls:
  "distinct is \<Longrightarrow> [] \<notin> set is \<Longrightarrow> set is \<inter> U = {} \<Longrightarrow> scan U R (map Use is) = Some (U \<union> set is, R)"
  by (simp add: scan_map_Use)

lemma plain_shape: "native_shape m \<Longrightarrow> message_result_ids m \<noteq> [] \<Longrightarrow> native_call_ids m = []"
proof -
  assume a: "native_shape m" "message_result_ids m \<noteq> []"
  show "native_call_ids m = []"
  proof (cases "is_item m")
    case True
    then have rc: "py_get ''role'' m = PyNone" "py_get ''content'' m = PyNone" using a(1) by (auto simp: native_shape_def)
    with a(2) have "type_is ''function_call_output'' m"
      by (auto simp: message_result_ids_def role_is_def top_level_function_output_id_def split: if_splits)
    with rc show ?thesis using type_is_unique[of "''function_call_output''" m "''function_call''"]
      by (simp add: native_call_ids_def native_tool_use_ids_def)
  next
    case False
    with a have "role_is ''user'' m \<or> role_is ''tool'' m" by (auto simp: native_shape_def)
    then have "\<not> role_is ''assistant'' m" by (auto simp: role_is_def)
    with False show ?thesis
      by (auto simp: native_call_ids_def native_tool_use_ids_def is_item_def Let_def split: pyval.splits)
  qed
qed

lemma strip_native_loop_props:
  assumes "\<forall>m \<in> set ms. native_shape m" "distinct (concat (map native_call_ids ms))"
    "set (concat (map native_call_ids ms)) \<inter> U = {}"
  shows "scan U R (natives_events (strip_native_loop U R ms)) \<noteq> None
    \<and> (\<forall>m \<in> set (strip_native_loop U R ms). native_shape m)
    \<and> concat (map native_call_ids (strip_native_loop U R ms)) = concat (map native_call_ids ms)"
  using assms
proof (induction ms arbitrary: U R)
  case (Cons m ms)
  obtain r R' where d: "strip_native_message U R m = (r, R')" by fastforce
  have sh: "native_shape m" using Cons.prems(1) by simp
  note D = strip_native_message_props[OF d sh]
  show ?case
  proof (cases r)
    case None
    with D d Cons show ?thesis by simp
  next
    case (Some m')
    then have M: "scan U R (map Res (message_result_ids m')) = Some (U, R')" "native_shape m'"
      "native_call_ids m' = native_call_ids m" using D by auto
    let ?U = "U \<union> set (native_tool_use_ids m')"
    have cU: "set (native_call_ids m) = set (native_tool_use_ids m')" using M(3) set_native_call_ids[of m'] by simp
    have "scan U R (native_events m') = Some (?U, R')"
    proof (cases "message_result_ids m' = []")
      case True
      then have "R' = R" using M(1) by simp
      moreover have "scan U R (map Use (native_call_ids m')) = Some (U \<union> set (native_call_ids m'), R)"
        using Cons.prems(2,3) M(3) by (intro scan_calls) auto
      ultimately show ?thesis using True by (simp add: native_events_def)
    next
      case False
      then have "native_call_ids m' = []" by (rule plain_shape[OF M(2)])
      moreover from this have "set (native_tool_use_ids m') = {}" using set_native_call_ids[of m'] by simp
      ultimately show ?thesis using M(1) by (simp add: native_events_def)
    qed
    moreover have "set (concat (map native_call_ids ms)) \<inter> ?U = {}"
      using Cons.prems(2,3) unfolding cU[symmetric] by auto
    ultimately show ?thesis
      using Cons.IH[of ?U R'] Cons.prems(1,2) d Some M by (auto simp: scan_append)
  qed
qed simp

section \<open>Insertion\<close>

lemma missing_native_ids_set:
  "set (missing_native_ids R acc is) = set acc \<union> (set is - R)"
  "distinct acc \<Longrightarrow> distinct (missing_native_ids R acc is)"
  by (induction R acc "is" rule: missing_native_ids.induct) auto

lemma synthetic_message_ids:
  "[] \<notin> set ms \<Longrightarrow> list_result_ids (map (\<lambda>i. build_synthetic_tool_result_block i r d) ms) = ms"
  "list_use_ids (map (\<lambda>i. build_synthetic_tool_result_block i r d) ms) = []"
  by (induction ms) (auto simp: build_synthetic_tool_result_block_def)

lemma synthetic_message_reads [simp]:
  "role_is ''user'' (synthetic_result_message ms)" "role_is ''assistant'' (synthetic_result_message ms) = False"
  "role_is ''tool'' (synthetic_result_message ms) = False" "type_is t (synthetic_result_message ms) = False"
  by (simp_all add: synthetic_result_message_def role_is_def type_is_def)

lemma synthetic_message_props:
  "[] \<notin> set ms \<Longrightarrow> message_result_ids (synthetic_result_message ms) = ms"
  "native_call_ids (synthetic_result_message ms) = []"
  "native_shape (synthetic_result_message ms)"
  by (simp_all add: synthetic_result_message_def role_is_def type_is_def message_result_ids_def
      synthetic_message_ids top_level_function_output_id_def native_call_ids_def native_tool_use_ids_def
      native_shape_def is_item_def)

lemma insert_native_loop_props:
  assumes "scan U R (natives_events ms) = Some (U', R')" "\<forall>m \<in> set ms. native_shape m"
    "S = Ro \<union> set (res_list (natives_events ms))" "Ro \<inter> set (res_list (natives_events ms)) = {}" "U \<subseteq> S"
  shows "(\<exists>Ro'. scan U Ro (natives_events (insert_native_loop S ms)) = Some (U', Ro') \<and> U' \<subseteq> Ro')
    \<and> (\<forall>m \<in> set (insert_native_loop S ms). native_shape m)"
  using assms
proof (induction ms arbitrary: U R Ro S)
  case Nil
  then show ?case by auto
next
  case (Cons m ms)
  obtain U1 R1 where s1: "scan U R (native_events m) = Some (U1, R1)"
    and s2: "scan U1 R1 (natives_events ms) = Some (U', R')"
    using Cons.prems(1) by (auto simp: scan_append split: option.splits)
  let ?r = "set (res_list (native_events m))" and ?rr = "set (res_list (natives_events ms))"
  let ?m = "missing_native_ids S [] (native_tool_use_ids m)"
  have mset: "set ?m = set (use_list (native_events m)) - S" and dm: "distinct ?m"
    using missing_native_ids_set by auto
  have ne: "[] \<notin> set ?m" using mset by simp
  have U1: "U1 = U \<union> set (use_list (native_events m))" using scan_sets[OF s1] by simp
  have disj: "?r \<inter> ?rr = {}" using scan_results[OF Cons.prems(1)] by simp
  have so: "scan U Ro (native_events m) = Some (U1, Ro \<union> ?r)"
    using scan_other_results[OF s1] Cons.prems(4) by auto
  have sm: "scan U1 (Ro \<union> ?r) (map Res ?m) = Some (U1, Ro \<union> ?r \<union> set ?m)"
  proof (rule scan_Res_block[OF dm ne])
    show "set ?m \<subseteq> U1" unfolding mset U1 by blast
    show "set ?m \<inter> (Ro \<union> ?r) = {}" unfolding mset using Cons.prems(3) by auto
  qed
  have "(\<exists>Ro'. scan U1 (Ro \<union> ?r \<union> set ?m)
        (natives_events (insert_native_loop (S \<union> set ?m) ms)) = Some (U', Ro') \<and> U' \<subseteq> Ro')
      \<and> (\<forall>m \<in> set (insert_native_loop (S \<union> set ?m) ms). native_shape m)"
  proof (rule Cons.IH[OF s2])
    show "\<forall>m \<in> set ms. native_shape m" using Cons.prems(2) by simp
    show "S \<union> set ?m = Ro \<union> ?r \<union> set ?m \<union> ?rr" using Cons.prems(3) by auto
    show "(Ro \<union> ?r \<union> set ?m) \<inter> ?rr = {}" using Cons.prems(3,4) disj mset by auto
    show "U1 \<subseteq> S \<union> set ?m" using Cons.prems(5) U1 mset by auto
  qed
  then obtain Ro' where R': "scan U1 (Ro \<union> ?r \<union> set ?m)
        (natives_events (insert_native_loop (S \<union> set ?m) ms)) = Some (U', Ro')" "U' \<subseteq> Ro'"
      "\<forall>m \<in> set (insert_native_loop (S \<union> set ?m) ms). native_shape m" by blast
  show ?case
  proof (cases "?m = []")
    case True
    then have "set ?m = {}" by simp
    with so R' have "scan U Ro (native_events m @ natives_events (insert_native_loop S ms)) = Some (U', Ro')"
      "\<forall>m \<in> set (insert_native_loop S ms). native_shape m"
      by (simp_all only: scan_append option.case prod.case Un_empty_right)
    with True R'(2) Cons.prems(2) show ?thesis by (auto simp: Let_def)
  next
    case False
    have sy: "native_events (synthetic_result_message ?m) = map Res ?m"
      using synthetic_message_props(1)[OF ne] by (simp add: native_events_def synthetic_message_props(2))
    have "insert_native_loop S (m # ms)
        = m # synthetic_result_message ?m # insert_native_loop (S \<union> set ?m) ms"
      using False by (simp add: Let_def)
    with so sm sy R' Cons.prems(2) show ?thesis
      by (simp add: scan_append synthetic_message_props(3) del: insert_native_loop.simps)
  qed
qed

section \<open>The contract\<close>

lemma native_ok_parts:
  "native_ok ms \<longleftrightarrow> (\<forall>m \<in> set ms. native_shape m) \<and> distinct (all_items ms) \<and> set (all_items ms) \<inter> all_assistant_ids ms = {}"
  by (auto simp: native_ok_def items_fresh_def)

definition served_messages :: "pydict list \<Rightarrow> pydict list" where
  "served_messages ms = strip_orphan_server_tool_uses (dedupe_native_tool_use_ids ms)"

lemma served_props:
  assumes "native_ok ms"
  shows "native_ok (served_messages ms)" "distinct (concat (map native_call_ids (served_messages ms)))"
    "set (concat (map native_call_ids (served_messages ms))) \<subseteq> set (concat (map native_call_ids ms))"
proof -
  from assms have ok: "\<forall>m \<in> set ms. native_shape m" "distinct (all_items ms)"
    "set (all_items ms) \<inter> all_assistant_ids ms = {}" by (auto simp: native_ok_parts)
  let ?d = "dedupe_native_tool_use_ids ms"
  have D: "\<forall>m \<in> set ?d. native_shape m" "all_items ?d = all_items ms" "all_assistant_ids ?d \<subseteq> all_assistant_ids ms"
    "distinct (concat (map native_call_ids ?d))"
    using dedupe_native_loop_props[OF ok, of "{}"] by (simp_all add: dedupe_native_tool_use_ids_def)
  note S = server_strip_props[OF D(1)]
  have "\<forall>m \<in> set (strip_orphan_server_tool_uses ?d). native_shape m"
    "all_items (strip_orphan_server_tool_uses ?d) = all_items ms"
    "all_assistant_ids (strip_orphan_server_tool_uses ?d) \<subseteq> all_assistant_ids ms"
    using S D(2,3) by simp_all
  then show "native_ok (served_messages ms)" using ok(2,3) unfolding native_ok_parts served_messages_def
    by (metis (no_types, lifting) Int_mono order_refl subset_empty)
  show "distinct (concat (map native_call_ids (served_messages ms)))" using S D(4) by (simp add: served_messages_def)
  show "set (concat (map native_call_ids (served_messages ms))) \<subseteq> set (concat (map native_call_ids ms))"
    unfolding served_messages_def S[THEN conjunct2, THEN conjunct2, THEN conjunct2]
      set_call_ids[OF D(1)] set_call_ids[OF ok(1)] D(2) using D(3) by (rule Un_mono[OF order_refl])
qed

lemma call_ids_nonempty: "[] \<notin> set (concat (map native_call_ids ms))"
  by auto

lemma strip_native_loop_ok:
  assumes "\<forall>m \<in> set ms. native_shape m"
  shows "(\<forall>m \<in> set (strip_native_loop U R ms). native_shape m)
    \<and> all_items (strip_native_loop U R ms) = all_items ms
    \<and> concat (map assistant_ids (strip_native_loop U R ms)) = concat (map assistant_ids ms)"
  using assms
proof (induction ms arbitrary: U R)
  case (Cons m ms)
  obtain r R' where d: "strip_native_message U R m = (r, R')" by fastforce
  have sh: "native_shape m" using Cons.prems(1) by simp
  note D = strip_native_message_props[OF d sh]
  show ?case
  proof (cases r)
    case None
    then have "native_call_ids m = []" using D by simp
    then have "set (native_tool_use_ids m) = {}" using set_native_call_ids[of m] by simp
    then have "item_ids m = []" "assistant_ids m = []" using native_tool_use_ids_cases(1)[OF sh] by auto
    with None d Cons show ?thesis by simp
  qed (use Cons d D in simp)
qed simp

lemma strip_native_ok: "native_ok ms \<Longrightarrow> native_ok (strip_orphan_native_tool_results U ms)"
  using strip_native_loop_ok[of ms U "{}"] unfolding native_ok_parts strip_orphan_native_tool_results_def by simp

lemma strip_native_scan:
  "native_ok ms \<Longrightarrow> distinct (concat (map native_call_ids ms)) \<Longrightarrow> set (concat (map native_call_ids ms)) \<inter> U = {} \<Longrightarrow>
    scan U {} (natives_events (strip_orphan_native_tool_results U ms)) \<noteq> None"
  using strip_native_loop_props[of ms U "{}"] unfolding native_ok_parts strip_orphan_native_tool_results_def by blast

lemma insert_native_ok:
  assumes "\<forall>m \<in> set ms. native_shape m" "causal (natives_events ms)"
  shows "well_paired (natives_events (insert_synthetic_native_tool_results ms))"
    "\<forall>m \<in> set (insert_synthetic_native_tool_results ms). native_shape m"
proof -
  obtain U R where UR: "scan {} {} (natives_events ms) = Some (U, R)" using assms(2) by (auto simp: causal_def)
  have "native_result_ids ms = {} \<union> set (res_list (natives_events ms))" by (simp add: natives_results)
  from insert_native_loop_props[OF UR assms(1) this] show
    "well_paired (natives_events (insert_synthetic_native_tool_results ms))"
    "\<forall>m \<in> set (insert_synthetic_native_tool_results ms). native_shape m"
    by (auto simp: well_paired_def insert_synthetic_native_tool_results_def)
qed

interpretation native_repair: transcript_repair native_events native_ok served_messages
  "strip_orphan_native_tool_results {}" insert_synthetic_native_tool_results
proof
  fix ms :: "pydict list"
  assume ok: "native_ok ms"
  show "native_ok (served_messages ms)" using ok by (rule served_props(1))
  show "uses_ok (natives_events (served_messages ms))"
    using served_props(2)[OF ok] call_ids_nonempty by (simp add: uses_ok_def natives_uses)
  show "native_ok (strip_orphan_native_tool_results {} ms)" using ok by (rule strip_native_ok)
  show "causal (natives_events (strip_orphan_native_tool_results {} ms))" if "uses_ok (natives_events ms)"
    using that strip_native_scan[OF ok, of "{}"] by (simp add: causal_def uses_ok_def natives_uses)
  show "well_paired (natives_events (insert_synthetic_native_tool_results ms))" if "causal (natives_events ms)"
    using ok that by (intro insert_native_ok) (auto simp: native_ok_def)
qed

section \<open>Merging\<close>

lemma merge_native_content_Some:
  assumes "merge_native_content l r = Some c"
  shows "is_text_content l" "is_text_content r" "is_text_content c"
    "(case c of PyList bs \<Rightarrow> list_use_ids bs | _ \<Rightarrow> [])
       = (case l of PyList bs \<Rightarrow> list_use_ids bs | _ \<Rightarrow> []) @ (case r of PyList bs \<Rightarrow> list_use_ids bs | _ \<Rightarrow> [])"
    "(case c of PyList bs \<Rightarrow> list_result_ids bs | _ \<Rightarrow> [])
       = (case l of PyList bs \<Rightarrow> list_result_ids bs | _ \<Rightarrow> []) @ (case r of PyList bs \<Rightarrow> list_result_ids bs | _ \<Rightarrow> [])"
  using assms by (induction l r rule: merge_native_content.induct) (auto split: if_splits)

text \<open>The ids of a message whose content is text or blocks.\<close>

lemma text_message_ids:
  assumes "native_shape m" "is_text_content (py_get ''content'' m)"
  shows "\<not> is_item m"
    "native_call_ids m = (if role_is ''assistant'' m
       then (case py_get ''content'' m of PyList bs \<Rightarrow> list_use_ids bs | _ \<Rightarrow> []) else [])"
    "message_result_ids m = (case py_get ''content'' m of PyList bs \<Rightarrow> list_result_ids bs | _ \<Rightarrow> [])"
proof -
  show ni: "\<not> is_item m" using assms by (auto simp: native_shape_def)
  show "native_call_ids m = (if role_is ''assistant'' m
       then (case py_get ''content'' m of PyList bs \<Rightarrow> list_use_ids bs | _ \<Rightarrow> []) else [])"
    using ni assms(2) by (cases "py_get ''content'' m")
      (auto simp: native_call_ids_def native_tool_use_ids_def is_item_def)
  show "message_result_ids m = (case py_get ''content'' m of PyList bs \<Rightarrow> list_result_ids bs | _ \<Rightarrow> [])"
    using ni assms by (cases "py_get ''content'' m")
      (auto simp: message_result_ids_def top_level_function_output_id_def is_item_def native_shape_def)
qed

lemma native_wire_text:
  "\<not> is_item m \<Longrightarrow> native_wire_role m = (if role_is ''assistant'' m then Some WireAssistant
     else if role_is ''user'' m \<or> role_is ''tool'' m then Some WireUser else None)"
  by (simp add: native_wire_role_def is_item_def)

lemma merge_native_content_None:
  "merge_native_content l r = None \<longleftrightarrow> \<not> (is_text_content l \<and> is_text_content r)"
  by (induction l r rule: merge_native_content.induct) auto

lemma merge_native_SomeD:
  assumes "merge_native_messages l r = Some m"
  obtains c where "native_wire_role r = native_wire_role l"
    "merge_native_content (py_get ''content'' l) (py_get ''content'' r) = Some c"
    "m = py_set ''content'' c (py_set ''role'' (py_or (py_get ''role'' l) (py_get ''role'' r)) l)"
  using assms by (auto simp: merge_native_messages_def split: if_splits)

lemma set_role_reads [simp]:
  "role_is x (py_set ''role'' v m) = (v = PyStr x)"
  "type_is t (py_set ''role'' v m) = type_is t m"
  "is_item (py_set ''role'' v m) = is_item m"
  "message_tool_id (py_set ''role'' v m) = message_tool_id m"
  by (simp_all add: role_is_def type_is_def is_item_def message_tool_id_def)

lemma merge_native_wire:
  assumes "merge_native_messages l r = Some m"
  shows "native_wire_role m = native_wire_role l"
proof -
  obtain c where w: "native_wire_role r = native_wire_role l"
    and m: "m = py_set ''content'' c (py_set ''role'' (py_or (py_get ''role'' l) (py_get ''role'' r)) l)"
    using assms by (rule merge_native_SomeD)
  show ?thesis
  proof (cases "py_truthy (py_get ''role'' l)")
    case True
    then show ?thesis unfolding m by (simp add: native_wire_role_def py_or_def role_is_def)
  next
    case False
    then have "\<not> role_is x l" if "x \<noteq> []" for x using that by (auto simp: role_is_def)
    then have "native_wire_role l = (if type_is ''function_call'' l then Some WireAssistant
        else if type_is ''function_call_output'' l then Some WireUser else None)"
      by (simp add: native_wire_role_def)
    moreover have "native_wire_role m = (if role_is ''assistant'' r \<or> type_is ''function_call'' l then Some WireAssistant
        else if role_is ''user'' r \<or> role_is ''tool'' r \<or> type_is ''function_call_output'' l then Some WireUser else None)"
      unfolding m using False by (simp add: native_wire_role_def py_or_def role_is_def)
    ultimately show ?thesis using w by (auto simp: native_wire_role_def split: if_splits)
  qed
qed

lemma merge_native_None_merged:
  assumes "merge_native_messages l r = Some m" "merge_native_messages p l = None"
  shows "merge_native_messages p m = None"
proof -
  obtain c where c: "merge_native_content (py_get ''content'' l) (py_get ''content'' r) = Some c"
    "py_get ''content'' m = c"
    using assms(1) by (rule merge_native_SomeD) auto
  from assms(2) merge_native_wire[OF assms(1)] merge_native_content_Some[OF c(1)] c(2) show ?thesis
    by (auto simp: merge_native_messages_def merge_native_content_None split: if_splits)
qed

interpretation native_alternation: greedy_alternation native_wire_role merge_native_messages alternate_native_loop
proof
  show "merge_native_messages x f = Some m \<Longrightarrow> native_wire_role m = native_wire_role x" for x f m
    by (rule merge_native_wire)
  show "merge_native_messages l r = Some m \<Longrightarrow> merge_native_messages p l = None \<Longrightarrow> merge_native_messages p m = None"
    for l r m p by (rule merge_native_None_merged)
qed (auto split: option.splits)

lemma merge_native_props:
  assumes "merge_native_messages l r = Some m" "native_shape l" "native_shape r" "native_wire_role l \<noteq> None"
  shows "native_shape m" "native_events m = native_events l @ native_events r"
proof -
  obtain c where w: "native_wire_role r = native_wire_role l"
    and c: "merge_native_content (py_get ''content'' l) (py_get ''content'' r) = Some c"
    and m: "m = py_set ''content'' c (py_set ''role'' (py_or (py_get ''role'' l) (py_get ''role'' r)) l)"
    using assms(1) by (rule merge_native_SomeD)
  note C = merge_native_content_Some[OF c]
  note L = text_message_ids[OF assms(2) C(1)] and R = text_message_ids[OF assms(3) C(2)]
  have role: "role_is x m = role_is x l" for x
    using assms(4) L(1) unfolding m
    by (auto simp: native_wire_text role_is_def py_or_def split: if_splits)
  have it: "\<not> is_item m" using L(1) unfolding m by simp
  have tid: "message_tool_id m = message_tool_id l" unfolding m by simp
  have ct: "py_get ''content'' m = c" unfolding m by simp
  have res_m: "message_result_ids m = (case c of PyList bs \<Rightarrow> list_result_ids bs | _ \<Rightarrow> [])"
    if "\<not> role_is ''tool'' l \<or> message_tool_id l = []"
    using it that ct C(3) by (cases c)
      (auto simp: message_result_ids_def top_level_function_output_id_def is_item_def role tid)
  have tl: "\<not> role_is ''tool'' l \<or> message_tool_id l = []" using assms(2) C(1) by (auto simp: native_shape_def)
  have app: "message_result_ids m = message_result_ids l @ message_result_ids r"
    unfolding res_m[OF tl] C(5) L(3) R(3) ..
  have wl: "role_is ''assistant'' l \<and> role_is ''assistant'' r
      \<or> (\<not> role_is ''assistant'' l \<and> \<not> role_is ''assistant'' r \<and> (role_is ''user'' l \<or> role_is ''tool'' l))"
    using w assms(4) L(1) R(1) by (auto simp: native_wire_text split: if_splits)
  have asst: "message_result_ids x = []" if "role_is ''assistant'' x" "native_shape x" "\<not> is_item x" for x
    using that by (auto simp: native_shape_def role_is_def)
  have no: "message_result_ids m = []" if "role_is ''assistant'' l"
    unfolding app using that wl asst assms(2,3) L(1) R(1) by auto
  show sh: "native_shape m"
    using it wl no tl C(3) ct by (cases c) (auto simp: native_shape_def role tid)
  have "native_call_ids m = native_call_ids l @ native_call_ids r"
    using wl C(3,4) L(2) R(2) text_message_ids(2)[OF sh] ct by (auto simp: role)
  then show "native_events m = native_events l @ native_events r"
    using wl app asst[of l] assms(2,3) L R by (auto simp: native_events_def)
qed

lemma wireless_events: "native_shape m \<Longrightarrow> native_wire_role m = None \<Longrightarrow> native_events m = []"
proof -
  assume a: "native_shape m" "native_wire_role m = None"
  then have "message_result_ids m = []" "\<not> is_item m" "\<not> role_is ''assistant'' m"
    by (auto simp: native_shape_def native_wire_role_def is_item_def split: if_splits)
  then show ?thesis
    by (auto simp: native_events_def native_call_ids_def native_tool_use_ids_def is_item_def Let_def split: pyval.splits)
qed

lemma native_alternation_events:
  assumes "\<forall>m \<in> set ms. native_shape m"
  shows "natives_events (preserve_native_role_alternation ms) = natives_events ms"
proof -
  define P where "P out rest \<longleftrightarrow> (\<forall>m \<in> set (out @ rest). native_shape m)
    \<and> natives_events out @ natives_events rest = natives_events ms" for out rest
  have nil: "natives_events post = []" if "\<forall>m \<in> set post. native_shape m" "\<forall>g \<in> set post. native_wire_role g = None" for post
    using that by (induction post) (auto simp: wireless_events)
  have "P (alternate_native_loop [] None ms) []"
  proof (rule native_alternation.loop_rule)
    fix pre x post f rest m
    assume a: "P (pre @ x # post) (f # rest)" "native_wire_role x \<noteq> None"
      "\<forall>g \<in> set post. native_wire_role g = None" "merge_native_messages x f = Some m"
    have "native_shape m" "native_events m = native_events x @ native_events f"
      using merge_native_props[OF a(4)] a(1,2) by (simp_all add: P_def)
    moreover have "natives_events post = []" using nil a(1,3) by (simp add: P_def)
    ultimately show "P (pre @ m # post) rest" using a(1) by (auto simp: P_def)
  qed (use assms in \<open>auto simp: P_def\<close>)
  then show ?thesis by (simp add: P_def preserve_native_role_alternation_def)
qed

section \<open>Properties\<close>

text \<open>C6: When the full repair returns a transcript, that is one whose calls and results pair: every call id is declared once,
  every result answers an earlier call, no call is answered twice and no call is left unanswered.  The messages, after the
  normalisation that the repair starts with, are of these shapes: a top-level item has no role and no content; results stand
  in user and tool messages or items; only assistants carry OpenAI contents; and no message of role \<open>tool\<close> has both an id of
  its own and a text or list as its content.  (The last excludes tool messages of the chat-completions form, of which two in a
  row are merged and one answer is lost.)  And no top-level call item repeats the id of another call.\<close>

theorem repair_full_well_paired:
  assumes "repair_full_transcript env raw strict ms = Inr out"
    and "native_ok (normalize_native_messages_for_provider env None ms)"
  shows "well_paired (chain_events native_events out)"
proof (cases "ms = []")
  case True
  then show ?thesis using assms(1) by (simp add: repair_full_transcript_def well_paired_def)
next
  case False
  let ?ns = "normalize_native_messages_for_provider env None ms"
  let ?st = "strip_orphan_native_tool_results {} (served_messages ?ns)"
  have out: "out = preserve_native_role_alternation (insert_synthetic_native_tool_results ?st)"
    using assms(1) False by (auto simp: repair_full_transcript_def Let_def served_messages_def split: if_splits)
  have st: "native_ok ?st" using strip_native_ok served_props(1)[OF assms(2)] by blast
  have "causal (natives_events ?st)"
    using strip_native_scan[OF served_props(1)[OF assms(2)] served_props(2)[OF assms(2)], of "{}"]
    by (simp add: causal_def)
  then have "\<forall>m \<in> set (insert_synthetic_native_tool_results ?st). native_shape m"
    using st by (intro insert_native_ok(2)) (auto simp: native_ok_def)
  then have "natives_events out = natives_events (insert_synthetic_native_tool_results ?st)"
    unfolding out by (rule native_alternation_events)
  then show ?thesis using native_repair.repair_well_paired[OF assms(2)] by simp
qed

text \<open>A repaired delta is sound relative to the calls the provider already knows: every call of
  the batch is declared once, and every result answers, once, a known call or an earlier call of the
  batch.  The calls of the batch must be new.\<close>

lemma repair_delta_sound:
  assumes "repair_delta_messages env raw (Some known) strict ms = Inr out"
    and "native_ok (normalize_native_messages_for_provider env None ms)"
    and "known \<inter> set (concat (map native_tool_use_ids (normalize_native_messages_for_provider env None ms))) = {}"
  shows "scan known {} (chain_events native_events out) \<noteq> None"
proof (cases "ms = []")
  case True
  then show ?thesis using assms(1) by (simp add: repair_delta_messages_def)
next
  case False
  let ?ns = "normalize_native_messages_for_provider env None ms"
  let ?st = "strip_orphan_native_tool_results known (served_messages ?ns)"
  have out: "out = preserve_native_role_alternation ?st"
    using assms(1) False by (auto simp: repair_delta_messages_def Let_def served_messages_def split: if_splits)
  have st: "native_ok ?st" using strip_native_ok served_props(1)[OF assms(2)] by blast
  then have e: "natives_events out = natives_events ?st"
    unfolding out by (intro native_alternation_events) (simp add: native_ok_def)
  have "set (concat (map native_call_ids (served_messages ?ns))) \<subseteq> set (concat (map native_tool_use_ids ?ns))"
    using served_props(3)[OF assms(2)] by simp
  with assms(3) have "set (concat (map native_call_ids (served_messages ?ns))) \<inter> known = {}" by blast
  from strip_native_scan[OF served_props(1)[OF assms(2)] served_props(2)[OF assms(2)] this] e show ?thesis by simp
qed

definition native_unmergeable :: "pydict \<Rightarrow> pydict \<Rightarrow> bool" where
  "native_unmergeable a b = (native_wire_role a = native_wire_role b \<longrightarrow> merge_native_messages a b = None)"

text \<open>The output alternates as far as merging can make it: two rendered messages that follow
  each other have different wire roles or cannot be merged.\<close>

lemma repair_full_alternates:
  assumes "repair_full_transcript env raw strict ms = Inr out"
  shows "successively native_unmergeable (filter (\<lambda>m. native_wire_role m \<noteq> None) out)"
proof (cases "ms = []")
  case True
  then show ?thesis using assms by (simp add: repair_full_transcript_def)
next
  case False
  have u: "native_alternation.unmergeable = native_unmergeable"
    by (intro ext) (simp add: native_alternation.unmergeable_def native_unmergeable_def)
  obtain xs where "out = preserve_native_role_alternation xs"
    using assms False by (auto simp: repair_full_transcript_def Let_def split: if_splits)
  then show ?thesis
    using native_alternation.loop_maximal[of xs] by (simp add: u preserve_native_role_alternation_def)
qed

end
