(* ===== verification/Native_Examples.thy ===== *)
theory Native_Examples
  imports Native_Repair
begin

text \<open>
  The theorems of \<open>Native_Repair\<close> at concrete transcripts, and inputs on which the repair of
  provider messages does not do what it is for.
\<close>

section \<open>Examples\<close>

definition ex_call_block :: "string \<Rightarrow> pyval" where
  "ex_call_block i = PyDict [(''type'', PyStr ''tool_use''), (''id'', PyStr i)]"

definition ex_result_block :: "string \<Rightarrow> pyval" where
  "ex_result_block i = PyDict [(''type'', PyStr ''tool_result''), (''tool_use_id'', PyStr i), (''content'', PyStr ''ok'')]"

definition ex_message :: "string \<Rightarrow> pyval \<Rightarrow> pydict" where
  "ex_message role content = [(''role'', PyStr role), (''content'', content)]"

definition ex_item :: "string \<Rightarrow> string \<Rightarrow> pydict" where
  "ex_item ty i = [(''type'', PyStr ty), (''call_id'', PyStr i)]"

text \<open>Two calls, an answer to one of them, an answer to a call nobody made, and the user goes on.\<close>

definition ex_interrupted :: "pydict list" where
  "ex_interrupted = [ex_message ''assistant'' (PyList [ex_call_block ''a'', ex_call_block ''b'']),
     ex_message ''user'' (PyList [ex_result_block ''b'', ex_result_block ''z'']),
     ex_message ''user'' (PyStr ''go'')]"

definition ex_repaired :: "pydict list" where
  "ex_repaired = [ex_message ''assistant'' (PyList [ex_call_block ''a'', ex_call_block ''b'']),
     ex_message ''user'' (PyList [build_synthetic_tool_result_block ''a'' ''missing_tool_result'' [],
       ex_result_block ''b'', text_block ''go''])]"

lemma ex_interrupted_repaired: "repair_full_transcript inert_env None None ex_interrupted = Inr ex_repaired"
  by code_simp

lemma ex_interrupted_ok: "native_ok (normalize_native_messages_for_provider inert_env None ex_interrupted)"
  by code_simp

lemma repair_full_well_paired_witness: "well_paired (chain_events native_events ex_repaired)"
  by (rule repair_full_well_paired[OF ex_interrupted_repaired ex_interrupted_ok])

lemma repair_full_alternates_witness:
  "successively native_unmergeable (filter (\<lambda>m. native_wire_role m \<noteq> None) ex_repaired)"
  by (rule repair_full_alternates[OF ex_interrupted_repaired])

definition ex_delta :: "pydict list" where
  "ex_delta = [ex_message ''user'' (PyList [ex_result_block ''k'', ex_result_block ''z'']),
     ex_message ''assistant'' (PyList [ex_call_block ''a''])]"

definition ex_delta_repaired :: "pydict list" where
  "ex_delta_repaired = [ex_message ''user'' (PyList [ex_result_block ''k'']),
     ex_message ''assistant'' (PyList [ex_call_block ''a''])]"

lemma repair_delta_sound_witness: "scan {''k''} {} (chain_events native_events ex_delta_repaired) \<noteq> None"
proof (rule repair_delta_sound)
  show "repair_delta_messages inert_env None (Some {''k''}) None ex_delta = Inr ex_delta_repaired" by code_simp
  show "native_ok (normalize_native_messages_for_provider inert_env None ex_delta)" by code_simp
  show "{''k''} \<inter> set (concat (map native_tool_use_ids
      (normalize_native_messages_for_provider inert_env None ex_delta))) = {}" by code_simp
qed

section \<open>Where the code falls short\<close>

text \<open>Strict mode lets a placeholder through.  It compares message counts before and after the
  synthetic results are added, but the alternation pass runs in between: the added user message is
  merged with the user message after it, the counts agree, and the transcript with the synthetic
  result is returned instead of raising.\<close>

lemma strict_mode_leaks_placeholder:
  "repair_full_transcript inert_env None (Some True)
     [ex_message ''assistant'' (PyList [ex_call_block ''a'']), ex_message ''user'' (PyStr ''go'')]
   = Inr [ex_message ''assistant'' (PyList [ex_call_block ''a'']),
       ex_message ''user'' (PyList
         [build_synthetic_tool_result_block ''a'' ''missing_tool_result'' [], text_block ''go''])]"
  by code_simp

text \<open>Strict mode rejects a well-paired transcript.  The mismatch check does not read the
  \<open>call_id\<close> of a \<open>function_call_output\<close> item, so a call with its output raises; and it rejects a
  transcript without any tool call when two user messages are merged.\<close>

lemma strict_mode_rejects_paired:
  "well_paired (chain_events native_events [ex_item ''function_call'' ''a'', ex_item ''function_call_output'' ''a''])
   \<and> repair_full_transcript inert_env None (Some True)
       [ex_item ''function_call'' ''a'', ex_item ''function_call_output'' ''a''] = Inl (TranscriptMismatch 2)
   \<and> repair_full_transcript inert_env None (Some True)
       [ex_message ''user'' (PyStr ''hi''), ex_message ''user'' (PyStr ''go'')] = Inl (TranscriptMismatch 1)"
  by code_simp

text \<open>Merging tool messages loses an answer.  Two adjacent messages of role \<open>tool\<close> with text
  contents are merged into the first; the id of the second is dropped, so the result is not well
  paired although the input was.\<close>

lemma tool_message_merge_loses_answer:
  "let call = [(''role'', PyStr ''assistant''), (''content'', PyList [ex_call_block ''a'', ex_call_block ''b''])];
       answer = (\<lambda>i t. [(''role'', PyStr ''tool''), (''tool_call_id'', PyStr i), (''content'', PyStr t)]);
       merged = [call, answer ''a'' (''x'' @ newline @ newline @ ''y'')]
   in well_paired (chain_events native_events [call, answer ''a'' ''x'', answer ''b'' ''y''])
     \<and> repair_full_transcript inert_env None None [call, answer ''a'' ''x'', answer ''b'' ''y''] = Inr merged
     \<and> \<not> well_paired (chain_events native_events merged)"
  by code_simp

text \<open>A repeated \<open>function_call\<close> item survives the repair: the dedupe pass reads assistant
  messages only.\<close>

lemma repeated_item_survives:
  "repair_full_transcript inert_env None None
     [ex_item ''function_call'' ''a'', ex_item ''function_call'' ''a'', ex_item ''function_call_output'' ''a'']
   = Inr [ex_item ''function_call'' ''a'', ex_item ''function_call'' ''a'', ex_item ''function_call_output'' ''a'']
   \<and> \<not> well_paired (chain_events native_events
     [ex_item ''function_call'' ''a'', ex_item ''function_call'' ''a'', ex_item ''function_call_output'' ''a''])"
  by code_simp

text \<open>An orphan tool message with a list content survives the repair: the strip pass looks into
  the blocks and not at the message's own id.\<close>

lemma orphan_tool_message_survives:
  "let orphan = [(''role'', PyStr ''tool''), (''tool_call_id'', PyStr ''z''), (''content'', PyList [text_block ''x''])]
   in repair_full_transcript inert_env None None [orphan] = Inr [orphan]
     \<and> \<not> well_paired (chain_events native_events [orphan])"
  by code_simp

text \<open>A block whose type is a list ends the repair with a \<open>TypeError\<close>, also outside strict mode, and so does a role that is one.\<close>

lemma unhashable_values_raise:
  "repair_full_transcript inert_env None (Some False)
     [ex_message ''assistant'' (PyList [PyDict [(''type'', PyList [])]])] = Inl UnhashableMember"
  "repair_full_transcript inert_env None (Some False)
     [[(''role'', PyList []), (''content'', PyStr ''hi'')]] = Inl UnhashableMember"
  by code_simp+

end
