(* ===== verification/Json.thy ===== *)
theory Json
  imports Viola_Prelude
begin

text \<open>
  \<open>json.loads\<close> and \<open>json.dumps(..., sort_keys=True)\<close> of the Python standard library; \<open>json.dumps\<close> is in
  \<open>Viola_Prelude\<close>.  A string that was read is a list of code points, because an escape may name any of them; a float
  keeps its text.  The limit on the digits of an int is left out, and so is the limit on the depth of nesting.
\<close>

section \<open>Values that are read\<close>

datatype json =
    JNull
  | JBool bool
  | JInt int
  | JFloat string
  | JStr "nat list"
  | JList "json list"
  | JDict "(nat list \<times> json) list"

text \<open>The value in the domain of the model: no float, and code points below 256 only.\<close>

definition string_of_codes :: "nat list \<Rightarrow> string option" where
  "string_of_codes ns = (if list_all (\<lambda>n. n < 256) ns then Some (map char_of ns) else None)"

fun all_some :: "'a option list \<Rightarrow> 'a list option" where
  "all_some [] = Some []"
| "all_some (None # xs) = None"
| "all_some (Some x # xs) = map_option ((#) x) (all_some xs)"

fun py_of_json :: "json \<Rightarrow> pyval option" where
  "py_of_json JNull = Some PyNone"
| "py_of_json (JBool b) = Some (PyBool b)"
| "py_of_json (JInt i) = Some (PyInt i)"
| "py_of_json (JFloat t) = None"
| "py_of_json (JStr ns) = map_option PyStr (string_of_codes ns)"
| "py_of_json (JList xs) = map_option PyList (all_some (map py_of_json xs))"
| "py_of_json (JDict d) = map_option PyDict (all_some (map (\<lambda>(k, v).
     case (string_of_codes k, py_of_json v) of (Some s, Some w) \<Rightarrow> Some (s, w) | _ \<Rightarrow> None) d))"

section \<open>Strings and numbers\<close>

definition json_space :: "char \<Rightarrow> bool" where
  "json_space c = (c \<in> {CHR '' '', CHR 0x09, CHR 0x0A, CHR 0x0D})"

definition skip_space :: "string \<Rightarrow> string" where
  "skip_space s = dropWhile json_space s"

definition hex_value :: "char \<Rightarrow> nat option" where
  "hex_value c = (let n = char_code c in
     if 48 \<le> n \<and> n \<le> 57 then Some (n - 48)
     else if 97 \<le> n \<and> n \<le> 102 then Some (n - 87)
     else if 65 \<le> n \<and> n \<le> 70 then Some (n - 55) else None)"

definition hex_four :: "char \<Rightarrow> char \<Rightarrow> char \<Rightarrow> char \<Rightarrow> nat option" where
  "hex_four a b c d = (case (hex_value a, hex_value b, hex_value c, hex_value d) of
      (Some w, Some x, Some y, Some z) \<Rightarrow> Some (((w * 16 + x) * 16 + y) * 16 + z)
    | _ \<Rightarrow> None)"

definition simple_escape :: "char \<Rightarrow> nat option" where
  "simple_escape e = (if e = CHR 0x22 then Some 34 else if e = CHR 0x5C then Some 92 else if e = CHR ''/'' then Some 47
     else if e = CHR ''b'' then Some 8 else if e = CHR ''f'' then Some 12 else if e = CHR ''n'' then Some 10
     else if e = CHR ''r'' then Some 13 else if e = CHR ''t'' then Some 9 else None)"

abbreviation push_code :: "nat \<Rightarrow> (nat list \<times> string) option \<Rightarrow> (nat list \<times> string) option" where
  "push_code n \<equiv> map_option (\<lambda>(ns, rest). (n # ns, rest))"

text \<open>After a surrogate that opens a pair: the second half, if an escape of one follows.\<close>

definition low_half :: "string \<Rightarrow> nat option" where
  "low_half s = (case s of b # u # w # x # y # z # rest \<Rightarrow>
       if b = CHR 0x5C \<and> u = CHR ''u'' then (case hex_four w x y z of
           Some n \<Rightarrow> if 0xDC00 \<le> n \<and> n \<le> 0xDFFF then Some n else None | None \<Rightarrow> None) else None
     | _ \<Rightarrow> None)"

text \<open>The characters up to the closing quote\<close>

function scan_string :: "string \<Rightarrow> (nat list \<times> string) option" where
  "scan_string [] = None"
| "scan_string (c # cs) = (if c = CHR 0x22 then Some ([], cs)
     else if c \<noteq> CHR 0x5C then (if char_code c < 32 then None else push_code (char_code c) (scan_string cs))
     else (case cs of [] \<Rightarrow> None
       | e # es \<Rightarrow> if e = CHR ''u''
           then (case es of
               w # x # y # z # rest \<Rightarrow> (case hex_four w x y z of
                   None \<Rightarrow> None
                 | Some n \<Rightarrow> if 0xD800 \<le> n \<and> n \<le> 0xDBFF \<and> low_half rest \<noteq> None
                     then push_code (0x10000 + (n - 0xD800) * 0x400 + (the (low_half rest) - 0xDC00)) (scan_string (drop 6 rest))
                     else push_code n (scan_string rest))
             | _ \<Rightarrow> None)
           else (case simple_escape e of None \<Rightarrow> None | Some n \<Rightarrow> push_code n (scan_string es))))"
  by pat_completeness auto
termination by (relation "measure length") auto

definition json_digit :: "char \<Rightarrow> bool" where
  "json_digit c = (48 \<le> char_code c \<and> char_code c \<le> 57)"

definition digits_value :: "string \<Rightarrow> nat" where
  "digits_value ds = foldl (\<lambda>n c. n * 10 + (char_code c - 48)) 0 ds"

text \<open>The digits of the whole part: one zero, or digits that start with another digit\<close>

fun whole_digits :: "string \<Rightarrow> string" where
  "whole_digits [] = []"
| "whole_digits (c # cs) = (if c = CHR ''0'' then [c] else takeWhile json_digit (c # cs))"

fun fraction_part :: "string \<Rightarrow> string" where
  "fraction_part (c # d # cs) = (if c = CHR ''.'' \<and> json_digit d then c # takeWhile json_digit (d # cs) else [])"
| "fraction_part _ = []"

fun exponent_part :: "string \<Rightarrow> string" where
  "exponent_part (e # d # cs) = (if e \<in> {CHR ''e'', CHR ''E''}
     then (if json_digit d then e # takeWhile json_digit (d # cs)
       else if d \<in> {CHR ''+'', CHR ''-''} \<and> takeWhile json_digit cs \<noteq> [] then e # d # takeWhile json_digit cs else [])
     else [])"
| "exponent_part _ = []"

definition scan_number :: "string \<Rightarrow> (json \<times> string) option" where
  "scan_number s = (let
     minus = (if starts_with ''-'' s then ''-'' else []);
     s1 = drop (length minus) s;
     whole = whole_digits s1;
     s2 = drop (length whole) s1;
     frac = fraction_part s2;
     s3 = drop (length frac) s2;
     expo = exponent_part s3;
     rest = drop (length expo) s3 in
   if whole = [] then None
   else if frac @ expo \<noteq> [] then Some (JFloat (minus @ whole @ frac @ expo), rest)
   else Some (JInt (if minus = [] then int (digits_value whole) else - int (digits_value whole)), s2))"

section \<open>Values\<close>

definition json_literals :: "(string \<times> json) list" where
  "json_literals = [(''null'', JNull), (''true'', JBool True), (''false'', JBool False),
     (''NaN'', JFloat ''NaN''), (''Infinity'', JFloat ''Infinity''), (''-Infinity'', JFloat ''-Infinity'')]"

definition scan_plain :: "string \<Rightarrow> (json \<times> string) option" where
  "scan_plain s = (case List.find (\<lambda>(t, v). starts_with t s) json_literals of
      Some (t, v) \<Rightarrow> Some (v, drop (length t) s)
    | None \<Rightarrow> scan_number s)"

text \<open>The first number bounds the calls; two for each character and two more are enough (\<open>fuel_is_enough\<close>).\<close>

fun json_value :: "nat \<Rightarrow> string \<Rightarrow> (json \<times> string) option"
and json_items :: "nat \<Rightarrow> json list \<Rightarrow> string \<Rightarrow> (json \<times> string) option"
and json_members :: "nat \<Rightarrow> (nat list \<times> json) list \<Rightarrow> string \<Rightarrow> (json \<times> string) option" where
  "json_value 0 s = None"
| "json_value (Suc n) s = (case s of
      [] \<Rightarrow> None
    | c # cs \<Rightarrow>
        if c = CHR 0x22 then map_option (\<lambda>(t, rest). (JStr t, rest)) (scan_string cs)
        else if c = CHR ''['' then (let r = skip_space cs in
          if starts_with '']'' r then Some (JList [], tl r) else json_items n [] r)
        else if c = CHR ''{'' then (let r = skip_space cs in
          if starts_with ''}'' r then Some (JDict [], tl r) else json_members n [] r)
        else scan_plain s)"
| "json_items 0 acc s = None"
| "json_items (Suc n) acc s = (case json_value n s of
      None \<Rightarrow> None
    | Some (v, r) \<Rightarrow> (case skip_space r of
          [] \<Rightarrow> None
        | c # cs \<Rightarrow>
            if c = CHR '']'' then Some (JList (acc @ [v]), cs)
            else if c = CHR '','' then json_items n (acc @ [v]) (skip_space cs)
            else None))"
| "json_members 0 acc s = None"
| "json_members (Suc n) acc s = (case s of
      [] \<Rightarrow> None
    | q # s1 \<Rightarrow> if q \<noteq> CHR 0x22 then None else (case scan_string s1 of
          None \<Rightarrow> None
        | Some (k, s2) \<Rightarrow> if \<not> starts_with '':'' (skip_space s2) then None
            else (case json_value n (skip_space (tl (skip_space s2))) of
                None \<Rightarrow> None
              | Some (v, r) \<Rightarrow> (case skip_space r of
                    [] \<Rightarrow> None
                  | c # cs \<Rightarrow>
                      if c = CHR ''}'' then Some (JDict (AList.update k v acc), cs)
                      else if c = CHR '','' then json_members n (AList.update k v acc) (skip_space cs)
                      else None))))"

text \<open>\<open>json.loads(s)\<close>; \<open>None\<close> is the \<open>JSONDecodeError\<close>.\<close>

definition json_loads :: "string \<Rightarrow> json option" where
  "json_loads s = (case json_value (2 * length s + 2) (skip_space s) of
      Some (v, r) \<Rightarrow> if skip_space r = [] then Some v else None
    | None \<Rightarrow> None)"

section \<open>Reading back what was written\<close>

lemma char_code_eq: "c = d \<longleftrightarrow> char_code c = char_code d"
  by (simp add: char_code_def)

lemma char_code_char_of: "char_code (char_of n) = n mod 256"
  by (simp add: char_code_def)

lemma char_code_less: "char_code c < 256"
  by (simp add: char_code_def)

lemma hex_value_char: "k < 16 \<Longrightarrow> hex_value (hex_char k) = Some k"
  by (auto simp: hex_value_def hex_char_def char_code_char_of Let_def)

lemma scan_string_char: "scan_string (json_char c @ t) = push_code (char_code c) (scan_string t)"
proof -
  consider "char_code c \<in> {34, 92, 8, 9, 10, 12, 13}" | "char_code c \<notin> {34, 92, 8, 9, 10, 12, 13}" "char_code c < 32"
    | "char_code c \<notin> {34, 92}" "32 \<le> char_code c" by fastforce
  then show ?thesis
  proof cases
    case 1
    then have "c \<in> {CHR 0x22, CHR 0x5C, CHR 0x08, CHR 0x09, CHR 0x0A, CHR 0x0C, CHR 0x0D}"
      by (auto simp: char_code_eq[of c] char_code_def)
    then show ?thesis by (auto simp: json_char_def char_code_def simple_escape_def)
  next
    case 2
    then have hex: "hex_value (hex_char (char_code c div 16)) = Some (char_code c div 16)"
      "hex_value (hex_char (char_code c mod 16)) = Some (char_code c mod 16)"
      by (intro hex_value_char; simp)+
    have "hex_value (CHR ''0'') = Some 0" by code_simp
    then show ?thesis using 2 hex by (simp add: json_char_def Let_def hex_four_def)
  next
    case 3
    then have "c \<noteq> CHR 0x22" "c \<noteq> CHR 0x5C" by (auto simp: char_code_def)
    then show ?thesis using 3 by (simp add: json_char_def Let_def)
  qed
qed

lemma scan_json_str: "scan_string (concat (map json_char s) @ CHR 0x22 # r) = Some (map char_code s, r)"
  by (induction s) (simp_all add: scan_string_char)

lemma digit_char_digit: "k < 10 \<Longrightarrow> json_digit (digit_char k)" "k < 10 \<Longrightarrow> char_code (digit_char k) = 48 + k"
  by (auto simp: json_digit_def char_code_char_of)

lemma nat_str_digits: "list_all json_digit (nat_str n)"
  by (induction n rule: nat_str.induct) (subst nat_str.simps, simp add: digit_char_digit del: digit_char.simps)

lemma nat_str_value: "digits_value (nat_str n) = n"
proof (induction n rule: nat_str.induct)
  case (1 n)
  then show ?case by (subst nat_str.simps) (simp add: digits_value_def digit_char_digit del: digit_char.simps)
qed

lemma nat_str_head: "\<exists>c cs. nat_str n = c # cs \<and> json_digit c \<and> (c = CHR ''0'' \<longrightarrow> cs = [])"
proof (induction n rule: nat_str.induct)
  case (1 n)
  show ?case
  proof (cases "n < 10")
    case True
    then have "json_digit (digit_char n)" by (rule digit_char_digit)
    then show ?thesis using True by (subst nat_str.simps) (simp del: digit_char.simps)
  next
    case False
    then obtain c cs where c: "nat_str (n div 10) = c # cs" "json_digit c" "c = CHR ''0'' \<longrightarrow> cs = []" using 1 by blast
    have "c \<noteq> CHR ''0''"
    proof
      assume z: "c = CHR ''0''"
      then have "nat_str (n div 10) = ''0''" using c by simp
      then have "n div 10 = digits_value ''0''" using nat_str_value[of "n div 10"] by simp
      then show False using False by (simp add: digits_value_def char_code_def)
    qed
    then show ?thesis using c False by (subst nat_str.simps) simp
  qed
qed

text \<open>What may follow a value in a text that was written\<close>

definition after_value :: "string \<Rightarrow> bool" where
  "after_value r = (case r of [] \<Rightarrow> True | c # cs \<Rightarrow> c \<in> {CHR '','', CHR '']'', CHR ''}''})"

lemma not_digits:
  "\<not> json_digit (CHR '','')" "\<not> json_digit (CHR '']'')" "\<not> json_digit (CHR ''}'')" "\<not> json_digit (CHR ''n'')"
  "\<not> json_digit (CHR ''t'')" "\<not> json_digit (CHR ''f'')" "\<not> json_digit (CHR ''N'')" "\<not> json_digit (CHR ''I'')"
  "\<not> json_digit (CHR ''-'')"
  by code_simp+

lemma after_value_parts: "after_value r \<Longrightarrow> takeWhile json_digit r = [] \<and> fraction_part r = [] \<and> exponent_part r = []"
proof -
  assume r: "after_value r"
  have "takeWhile json_digit (c # cs) = [] \<and> fraction_part (c # cs) = [] \<and> exponent_part (c # cs) = []"
    if "c = CHR '','' \<or> c = CHR '']'' \<or> c = CHR ''}''" for c cs
    using that not_digits by (cases cs) auto
  then show ?thesis using r by (cases r) (auto simp: after_value_def)
qed

lemma takeWhile_digits: "list_all json_digit ds \<Longrightarrow> takeWhile json_digit (ds @ r) = ds @ takeWhile json_digit r"
  by (induction ds) auto

lemma whole_nat_str: "after_value r \<Longrightarrow> whole_digits (nat_str n @ r) = nat_str n"
proof -
  assume r: "after_value r"
  obtain c cs where c: "nat_str n = c # cs" "c = CHR ''0'' \<longrightarrow> cs = []" using nat_str_head by blast
  have "takeWhile json_digit (nat_str n @ r) = nat_str n"
    using takeWhile_digits[OF nat_str_digits] after_value_parts[OF r] by simp
  then show ?thesis using c by auto
qed

lemma scan_nat_str: "after_value r \<Longrightarrow> scan_number (nat_str n @ r) = Some (JInt (int n), r)"
proof -
  assume r: "after_value r"
  obtain c cs where c: "nat_str n = c # cs" "json_digit c" using nat_str_head by blast
  then have "\<not> starts_with ''-'' (nat_str n @ r)" using not_digits by auto
  then show ?thesis
    using after_value_parts[OF r] whole_nat_str[OF r] by (simp add: scan_number_def Let_def nat_str_value)
qed

lemma scan_minus: "after_value r \<Longrightarrow> scan_number (CHR ''-'' # nat_str n @ r) = Some (JInt (- int n), r)"
  using after_value_parts whole_nat_str by (simp add: scan_number_def Let_def nat_str_value)

lemma no_literal:
  assumes "json_digit c"
  shows "List.find (\<lambda>(t, v). starts_with t (c # s)) json_literals = None"
    "List.find (\<lambda>(t, v). starts_with t (CHR ''-'' # c # s)) json_literals = None"
proof -
  have "c \<noteq> CHR ''n''" "c \<noteq> CHR ''t''" "c \<noteq> CHR ''f''" "c \<noteq> CHR ''N''" "c \<noteq> CHR ''I''" "c \<noteq> CHR ''-''"
    using assms not_digits by metis+
  then show "List.find (\<lambda>(t, v). starts_with t (c # s)) json_literals = None"
    "List.find (\<lambda>(t, v). starts_with t (CHR ''-'' # c # s)) json_literals = None"
    by (simp_all add: json_literals_def)
qed

lemma scan_int_str: "after_value r \<Longrightarrow> scan_plain (int_str i @ r) = Some (JInt i, r)"
proof -
  assume r: "after_value r"
  obtain c cs where c: "nat_str (nat \<bar>i\<bar>) = c # cs" "json_digit c" using nat_str_head by blast
  show ?thesis
  proof (cases "i < 0")
    case True
    have "scan_plain (int_str i @ r) = scan_number (CHR ''-'' # nat_str (nat (- i)) @ r)"
      using c True no_literal(2)[OF c(2)] by (simp add: int_str_def scan_plain_def)
    then show ?thesis using True scan_minus[OF r] by simp
  next
    case False
    have "scan_plain (int_str i @ r) = scan_number (nat_str (nat i) @ r)"
      using c False no_literal(1)[OF c(2)] by (simp add: int_str_def scan_plain_def)
    then show ?thesis using False scan_nat_str[OF r] by simp
  qed
qed

lemma scan_literal:
  "scan_plain (''null'' @ r) = Some (JNull, r)" "scan_plain (''true'' @ r) = Some (JBool True, r)"
  "scan_plain (''false'' @ r) = Some (JBool False, r)"
  by (simp_all add: scan_plain_def json_literals_def)

text \<open>What a value reads as, and the values with one entry for each key\<close>

fun json_of_py :: "pyval \<Rightarrow> json" where
  "json_of_py PyNone = JNull"
| "json_of_py (PyBool b) = JBool b"
| "json_of_py (PyInt i) = JInt i"
| "json_of_py (PyStr s) = JStr (map char_code s)"
| "json_of_py (PyList xs) = JList (map json_of_py xs)"
| "json_of_py (PyDict d) = JDict (map (\<lambda>(k, v). (map char_code k, json_of_py v)) d)"

fun proper_value :: "pyval \<Rightarrow> bool" where
  "proper_value (PyList xs) = list_all proper_value xs"
| "proper_value (PyDict d) = (distinct (map fst d) \<and> list_all (\<lambda>(k, v). proper_value v) d)"
| "proper_value v = True"

lemma inj_codes: "map char_code s = map char_code t \<longleftrightarrow> s = t"
  using char_code_eq by (auto simp: inj_map_eq_map inj_def)

lemma codes_string: "string_of_codes (map char_code s) = Some s"
  by (simp add: string_of_codes_def list_all_iff char_code_less) (simp add: char_code_def comp_def)

lemma all_some_map: "(\<And>x. x \<in> set xs \<Longrightarrow> f x = Some (g x)) \<Longrightarrow> all_some (map f xs) = Some (map g xs)"
  by (induction xs) auto

lemma py_of_json_of_py: "py_of_json (json_of_py v) = Some v"
proof (induction v rule: json_of_py.induct)
  case (5 xs)
  then show ?case using all_some_map[of xs "\<lambda>x. py_of_json (json_of_py x)" id] by (simp add: comp_def)
next
  case (6 d)
  show ?case unfolding json_of_py.simps py_of_json.simps map_map
    by (subst all_some_map[where g = id]) (use 6 in \<open>auto simp: codes_string\<close>)
qed (simp_all add: codes_string)

text \<open>The first character of a text that was written\<close>

definition value_start :: "char \<Rightarrow> bool" where
  "value_start c = (\<not> json_space c \<and> c \<notin> {CHR '','', CHR '']'', CHR ''}'', CHR '':''})"

lemma digit_starts: "json_digit c \<Longrightarrow> value_start c"
proof -
  assume c: "json_digit c"
  have "\<not> json_digit (CHR '' '')" "\<not> json_digit (CHR 0x09)" "\<not> json_digit (CHR 0x0A)" "\<not> json_digit (CHR 0x0D)" "\<not> json_digit (CHR '':'')"
    by code_simp+
  then show ?thesis using c not_digits unfolding value_start_def json_space_def by blast
qed

lemma dumps_start: "\<exists>c cs. json_dumps v = c # cs \<and> value_start c"
proof (cases v)
  case (PyInt i)
  obtain c cs where "nat_str (nat \<bar>i\<bar>) = c # cs" "json_digit c" using nat_str_head by blast
  then show ?thesis using digit_starts[of c] PyInt by (auto simp: int_str_def value_start_def json_space_def)
qed (auto simp: value_start_def json_space_def json_str_def)

lemma skip_dumps: "skip_space (json_dumps v @ r) = json_dumps v @ r"
  using dumps_start[of v] by (auto simp: skip_space_def value_start_def)

lemma skip_after: "after_value r \<Longrightarrow> skip_space r = r"
  by (cases r) (auto simp: skip_space_def after_value_def json_space_def)

lemma items_dumps:
  assumes "\<And>x n r. x \<in> set xs \<Longrightarrow> after_value r \<Longrightarrow> length (json_dumps x) \<le> n \<Longrightarrow>
      json_value n (json_dumps x @ r) = Some (json_of_py x, r)"
    and "xs \<noteq> []" "length (join_with '', '' (map json_dumps xs)) < n"
  shows "json_items n acc (join_with '', '' (map json_dumps xs) @ CHR '']'' # r) = Some (JList (acc @ map json_of_py xs), r)"
  using assms
proof (induction xs arbitrary: acc n rule: induct_list012)
  case (2 x)
  obtain m where n: "n = Suc m" using 2(3) by (cases n) auto
  have "json_value m (json_dumps x @ CHR '']'' # r) = Some (json_of_py x, CHR '']'' # r)"
    using 2 by (intro 2(1)) (auto simp: n after_value_def)
  then show ?case by (simp add: n skip_after after_value_def)
next
  case (3 x y ys)
  obtain m where n: "n = Suc m" using 3(5) by (cases n) auto
  let ?rest = "join_with '', '' (map json_dumps (y # ys)) @ CHR '']'' # r"
  have "json_value m (json_dumps x @ CHR '','' # CHR '' '' # ?rest) = Some (json_of_py x, CHR '','' # CHR '' '' # ?rest)"
    using 3(5) by (intro 3(3)) (auto simp: n after_value_def)
  moreover have "skip_space (CHR '' '' # ?rest) = ?rest"
    using skip_dumps[of y] by (cases ys) (simp_all add: skip_space_def json_space_def)
  moreover have "json_items m (acc @ [json_of_py x]) ?rest = Some (JList ((acc @ [json_of_py x]) @ map json_of_py (y # ys)), r)"
    using 3(5) by (intro 3(2) 3(3)) (auto simp: n)
  ultimately show ?case by (simp add: n skip_after after_value_def)
qed simp

abbreviation member_text :: "string \<times> pyval \<Rightarrow> string" where
  "member_text \<equiv> \<lambda>(k, v). json_str k @ '': '' @ json_dumps v"

abbreviation member_of_py :: "string \<times> pyval \<Rightarrow> nat list \<times> json" where
  "member_of_py \<equiv> \<lambda>(k, v). (map char_code k, json_of_py v)"

lemma member_step:
  assumes "json_value m (json_dumps v @ r) = Some (json_of_py v, r)"
  shows "json_members (Suc m) acc (member_text (k, v) @ r) = (case skip_space r of
        [] \<Rightarrow> None
      | c # cs \<Rightarrow>
          if c = CHR ''}'' then Some (JDict (AList.update (map char_code k) (json_of_py v) acc), cs)
          else if c = CHR '','' then json_members m (AList.update (map char_code k) (json_of_py v) acc) (skip_space cs)
          else None)"
  using assms skip_dumps[of v r]
  by (simp add: json_str_def scan_json_str skip_space_def json_space_def)

lemma update_fresh: "k \<notin> set (map fst d) \<Longrightarrow> AList.update k v d = d @ [(k, v)]"
  by (induction d) auto

lemma members_dumps:
  assumes "\<And>k v n r. (k, v) \<in> set d \<Longrightarrow> after_value r \<Longrightarrow> length (json_dumps v) \<le> n \<Longrightarrow>
      json_value n (json_dumps v @ r) = Some (json_of_py v, r)"
    and "d \<noteq> []" "length (join_with '', '' (map member_text d)) < n"
    and "distinct (map fst acc @ map (map char_code \<circ> fst) d)"
  shows "json_members n acc (join_with '', '' (map member_text d) @ CHR ''}'' # r) = Some (JDict (acc @ map member_of_py d), r)"
  using assms
proof (induction d arbitrary: acc n rule: induct_list012)
  case (2 x)
  obtain k v where x: "x = (k, v)" by (cases x)
  obtain m where n: "n = Suc m" using 2(3) by (cases n) auto
  have "json_value m (json_dumps v @ CHR ''}'' # r) = Some (json_of_py v, CHR ''}'' # r)"
    using 2 by (intro 2(1)[of k]) (auto simp: n x after_value_def)
  from member_step[OF this, of acc k] show ?case using 2(4)
    by (simp add: n x skip_after after_value_def update_fresh)
next
  case (3 x y ys)
  obtain k v where x: "x = (k, v)" by (cases x)
  obtain m where n: "n = Suc m" using 3(5) by (cases n) auto
  let ?rest = "join_with '', '' (map member_text (y # ys)) @ CHR ''}'' # r"
  let ?acc = "acc @ [member_of_py x]"
  have "json_value m (json_dumps v @ CHR '','' # CHR '' '' # ?rest) = Some (json_of_py v, CHR '','' # CHR '' '' # ?rest)"
    using 3(5) by (intro 3(3)[of k]) (auto simp: n x after_value_def)
  note step = member_step[OF this, of acc k]
  have "skip_space (CHR '' '' # ?rest) = ?rest"
    by (cases ys; cases y) (simp_all add: skip_space_def json_space_def json_str_def)
  moreover have "json_members m ?acc ?rest = Some (JDict (?acc @ map member_of_py (y # ys)), r)"
    using 3(5,6) by (intro 3(2) 3(3)) (auto simp: n x)
  moreover have "AList.update (map char_code k) (json_of_py v) acc = ?acc"
    using 3(6) by (simp add: x update_fresh)
  ultimately show ?case using step by (simp add: n x skip_after after_value_def)
qed simp

lemma value_dumps:
  "proper_value v \<Longrightarrow> after_value r \<Longrightarrow> length (json_dumps v) \<le> n \<Longrightarrow> json_value n (json_dumps v @ r) = Some (json_of_py v, r)"
proof (induction v arbitrary: n r rule: json_dumps.induct)
  case 1
  then show ?case using scan_literal(1)[of r] by (cases n) auto
next
  case (2 b)
  then show ?case using scan_literal(2,3)[of r] by (cases n) (auto split: if_splits)
next
  case (3 i)
  then obtain m where n: "n = Suc m" by (cases n) (auto simp: int_str_def split: if_splits)
  obtain c cs where c: "int_str i = c # cs" "value_start c" using dumps_start[of "PyInt i"] by auto
  obtain d ds where d: "nat_str (nat \<bar>i\<bar>) = d # ds" "json_digit d" using nat_str_head by blast
  have "\<not> json_digit (CHR 0x22)" "\<not> json_digit (CHR ''['')" "\<not> json_digit (CHR ''{'')" by code_simp+
  then have "c \<noteq> CHR 0x22" "c \<noteq> CHR ''[''" "c \<noteq> CHR ''{''" using c(1) d by (auto simp: int_str_def split: if_splits)
  then show ?case using c scan_int_str[OF 3(2), of i] by (simp add: n)
next
  case (4 s)
  then show ?case by (cases n) (simp_all add: json_str_def scan_json_str)
next
  case (5 xs)
  obtain m where n: "n = Suc m" using 5(4) by (cases n) auto
  show ?case
  proof (cases "xs = []")
    case True
    then show ?thesis by (simp add: n skip_space_def json_space_def)
  next
    case False
    let ?items = "join_with '', '' (map json_dumps xs)"
    have items: "json_items m [] (?items @ CHR '']'' # r) = Some (JList (map json_of_py xs), r)"
      using 5 False by (subst items_dumps) (auto simp: n list_all_iff)
    obtain x ys where xs: "xs = x # ys" using False by (cases xs) auto
    obtain c cs where c: "json_dumps x = c # cs" "value_start c" using dumps_start by blast
    have "\<exists>t. ?items = json_dumps x @ t" unfolding xs by (cases ys) auto
    then have "skip_space (?items @ CHR '']'' # r) = ?items @ CHR '']'' # r" "\<not> starts_with '']'' (?items @ CHR '']'' # r)"
      using c by (auto simp: skip_space_def value_start_def)
    then show ?thesis using items by (simp add: n Let_def)
  qed
next
  case (6 d)
  obtain m where n: "n = Suc m" using 6(4) by (cases n) auto
  show ?case
  proof (cases "d = []")
    case True
    then show ?thesis by (simp add: n skip_space_def json_space_def)
  next
    case False
    let ?members = "join_with '', '' (map member_text d)"
    have "distinct (map (map char_code \<circ> fst) d)"
      using 6(2) distinct_map[of "map char_code" "map fst d"] by (auto simp: inj_on_def inj_codes)
    then have members: "json_members m [] (?members @ CHR ''}'' # r) = Some (JDict (map member_of_py d), r)"
      using 6 False by (subst members_dumps) (auto simp: n list_all_iff)
    obtain k v e where d: "d = (k, v) # e" using False by (cases d) auto
    have "\<exists>t. ?members = CHR 0x22 # t" unfolding d by (cases e) (auto simp: json_str_def)
    then have "skip_space (?members @ CHR ''}'' # r) = ?members @ CHR ''}'' # r" "\<not> starts_with ''}'' (?members @ CHR ''}'' # r)"
      by (auto simp: skip_space_def json_space_def)
    then show ?thesis using members by (simp add: n Let_def)
  qed
qed

lemma loads_dumps: "proper_value v \<Longrightarrow> json_loads (json_dumps v) = Some (json_of_py v)"
  using value_dumps[of v "[]" "2 * length (json_dumps v) + 2"] skip_dumps[of v "[]"]
  by (simp add: json_loads_def after_value_def skip_space_def)

section \<open>Fuel\<close>

lemma scan_string_shorter: "scan_string s = Some (ns, r) \<Longrightarrow> length r < length s"
proof (induction s arbitrary: ns r rule: scan_string.induct)
  case (2 c cs)
  show ?case
  proof (cases "c = CHR 0x22 \<or> c \<noteq> CHR 0x5C")
    case True
    then show ?thesis using 2(1) 2(5) by (fastforce split: if_splits)
  next
    case c: False
    then obtain e es where cs: "cs = e # es" using 2(5) by (cases cs) auto
    show ?thesis
    proof (cases "e = CHR ''u''")
      case True
      then obtain w x y z rest n where es: "es = w # x # y # z # rest" "hex_four w x y z = Some n"
        using 2(5) c cs by (auto split: list.splits option.splits)
      show ?thesis
      proof (cases "0xD800 \<le> n \<and> n \<le> 0xDBFF \<and> low_half rest \<noteq> None")
        case pair: True
        then obtain ms where "scan_string (drop 6 rest) = Some (ms, r)" using 2(5) c cs True es by auto
        then have "length r < length (drop 6 rest)" using 2(2) c cs True es pair by simp
        then show ?thesis by (simp add: cs es)
      next
        case False
        then obtain ms where "scan_string rest = Some (ms, r)" using 2(5) c cs True es by (auto split: if_splits)
        then have "length r < length rest" using 2(3) c cs True es False by blast
        then show ?thesis by (simp add: cs es)
      qed
    next
      case False
      then obtain n ms where n: "simple_escape e = Some n" "scan_string es = Some (ms, r)"
        using 2(5) c cs by (auto split: option.splits)
      then have "length r < length es" using 2(4) c cs False by blast
      then show ?thesis by (simp add: cs)
    qed
  qed
qed simp

lemma skip_shorter: "length (skip_space s) \<le> length s"
  by (simp add: skip_space_def length_dropWhile_le)

lemma scan_number_shorter: "scan_number s = Some (v, r) \<Longrightarrow> length r < length s"
proof -
  assume s: "scan_number s = Some (v, r)"
  define t where "t = drop (if starts_with ''-'' s then 1 else 0) s"
  have whole: "whole_digits t \<noteq> []" using s by (auto simp: scan_number_def t_def Let_def split: if_splits)
  then have "t \<noteq> []" by auto
  then have "length t - length (whole_digits t) < length t" using whole by simp
  moreover have "length t \<le> length s" by (simp add: t_def)
  ultimately have "length (drop (length (whole_digits t)) t) < length s" by simp
  then show ?thesis using s by (auto simp: scan_number_def t_def Let_def split: if_splits)
qed

lemma scan_plain_shorter:
  assumes "scan_plain s = Some (v, r)"
  shows "length r < length s"
proof (cases "List.find (\<lambda>(t, v). starts_with t s) json_literals")
  case None
  then show ?thesis using assms scan_number_shorter by (simp add: scan_plain_def)
next
  case (Some p)
  then have "starts_with (fst p) s" "p \<in> set json_literals" by (auto simp: find_Some_iff split_beta in_set_conv_nth)
  then have "fst p \<noteq> []" "length (fst p) \<le> length s" by (auto simp: json_literals_def starts_with_iff)
  then have p: "0 < length (fst p)" "length (fst p) \<le> length s" by auto
  moreover have "r = drop (length (fst p)) s" using assms Some by (cases p) (simp add: scan_plain_def)
  ultimately have "length r = length s - length (fst p)" by simp
  with p show ?thesis by linarith
qed

lemma value_shorter:
  "json_value n s = Some (v, r) \<Longrightarrow> length r < length s"
  "json_items n acc s = Some (v, r) \<Longrightarrow> length r < length s"
  "json_members n d s = Some (v, r) \<Longrightarrow> length r < length s"
proof (induction n arbitrary: s acc d v r)
  case (Suc n)
  {
    case 1
    then obtain c cs where s: "s = c # cs" by (cases s) auto
    have "length (skip_space cs) \<le> length cs" by (rule skip_shorter)
    then show ?case using 1 Suc.IH(2,3)[of _ "skip_space cs"] scan_string_shorter[of cs] scan_plain_shorter[of s]
      by (auto simp: s Let_def less_Suc_eq_le dest!: less_imp_le split: if_splits)
        (metis le_trans less_imp_le length_tl diff_le_self)+
  next
    case 2
    then obtain w t where w: "json_value n s = Some (w, t)" by (auto split: option.splits)
    obtain c cs where t: "skip_space t = c # cs" using 2 w by (auto split: list.splits)
    have "length (c # cs) < length s" using Suc.IH(1)[OF w] skip_shorter[of t] by (simp add: t)
    then show ?case using 2 w t Suc.IH(2)[of _ "skip_space cs"] skip_shorter[of cs] by (fastforce split: if_splits)
  next
    case 3
    then obtain s1 k s2 where s: "s = CHR 0x22 # s1" "scan_string s1 = Some (k, s2)"
      by (cases s) (auto split: if_splits option.splits)
    then obtain w t where w: "json_value n (skip_space (tl (skip_space s2))) = Some (w, t)"
      using 3 by (auto split: if_splits option.splits)
    obtain c cs where t: "skip_space t = c # cs" using 3 s w by (auto split: list.splits if_splits)
    have "length t < length (skip_space (tl (skip_space s2)))" using Suc.IH(1)[OF w] .
    then have "length (c # cs) < length s"
      using scan_string_shorter[OF s(2)] skip_shorter[of t] skip_shorter[of s2] skip_shorter[of "tl (skip_space s2)"]
      by (simp add: s t)
    then show ?case using 3 s w t Suc.IH(3)[of _ "skip_space cs"] skip_shorter[of cs] by (fastforce split: if_splits)
  }
qed simp_all

text \<open>With enough fuel the result does not depend on it.\<close>

lemma fuel_is_enough:
  "2 * length s < n \<Longrightarrow> 2 * length s < m \<Longrightarrow> json_value n s = json_value m s"
  "2 * length s + 1 < n \<Longrightarrow> 2 * length s + 1 < m \<Longrightarrow> json_items n acc s = json_items m acc s"
  "2 * length s < n \<Longrightarrow> 2 * length s < m \<Longrightarrow> json_members n d s = json_members m d s"
proof (induction n arbitrary: s acc d m)
  case (Suc n)
  {
    case 1
    then obtain k where m: "m = Suc k" by (cases m) auto
    show ?case
    proof (cases s)
      case (Cons c cs)
      have "length (skip_space cs) \<le> length cs" by (rule skip_shorter)
      then have "json_items n [] (skip_space cs) = json_items k [] (skip_space cs)"
        "json_members n [] (skip_space cs) = json_members k [] (skip_space cs)"
        using 1 by (auto intro!: Suc.IH simp: m Cons)
      then show ?thesis by (simp add: m Cons Let_def)
    qed (simp add: m)
  next
    case 2
    then obtain k where m: "m = Suc k" by (cases m) auto
    have val: "json_value n s = json_value k s" using 2 by (intro Suc.IH) (auto simp: m)
    have "json_items n (acc @ [v]) (skip_space cs) = json_items k (acc @ [v]) (skip_space cs)"
      if "json_value k s = Some (v, r)" "skip_space r = c # cs" for v r c cs
      using 2 value_shorter(1)[OF that(1)] skip_shorter[of r] skip_shorter[of cs] that(2)
      by (intro Suc.IH) (auto simp: m)
    then show ?case by (auto simp: m val split: option.split list.split)
  next
    case 3
    then obtain k where m: "m = Suc k" by (cases m) auto
    have val: "json_value n (skip_space (tl (skip_space s2))) = json_value k (skip_space (tl (skip_space s2)))"
      if "s = q # s1" "scan_string s1 = Some (ns, s2)" for q s1 ns s2
      using 3 that(1) scan_string_shorter[OF that(2)] skip_shorter[of s2] skip_shorter[of "tl (skip_space s2)"]
      by (intro Suc.IH) (auto simp: m)
    have rest: "json_members n d' (skip_space cs) = json_members k d' (skip_space cs)"
      if "s = q # s1" "scan_string s1 = Some (ns, s2)" "json_value k (skip_space (tl (skip_space s2))) = Some (v, r)"
        "skip_space r = c # cs" for q s1 ns s2 v r c cs d'
      using 3 that(1,4) scan_string_shorter[OF that(2)] value_shorter(1)[OF that(3)] skip_shorter[of s2]
        skip_shorter[of "tl (skip_space s2)"] skip_shorter[of r] skip_shorter[of cs]
      by (intro Suc.IH) (auto simp: m)
    show ?case using val rest by (auto simp: m split: option.split list.split)
  }
qed simp_all

section \<open>Sorted keys\<close>

text \<open>\<open>json.dumps(v, ensure_ascii=False, sort_keys=True)\<close> writes the value with its keys sorted.\<close>

fun py_sorted :: "pyval \<Rightarrow> pyval" where
  "py_sorted (PyList xs) = PyList (map py_sorted xs)"
| "py_sorted (PyDict d) = PyDict (sort_key fst (map (\<lambda>(k, v). (k, py_sorted v)) d))"
| "py_sorted v = v"

lemma distinct_sorted: "distinct (map fst d) \<Longrightarrow> distinct (map fst (sort_key fst d))"
  by (simp add: distinct_map)

lemma proper_sorted: "proper_value v \<Longrightarrow> proper_value (py_sorted v)"
proof (induction v rule: py_sorted.induct)
  case (2 d)
  have "distinct (map fst (sort_key fst (map (\<lambda>(k, v). (k, py_sorted v)) d)))"
    using 2(2) by (intro distinct_sorted) (simp add: comp_def split_beta)
  then show ?case using 2 by (auto simp: list_all_iff)
qed (auto simp: list_all_iff)

text \<open>Sorting the keys changes the order of a dict only.\<close>

lemma get_sorted: "proper_value (PyDict d) \<Longrightarrow> py_sorted (PyDict d) = PyDict e \<Longrightarrow> py_get k e = py_sorted (py_get k d)"
proof -
  assume d: "proper_value (PyDict d)" and e: "py_sorted (PyDict d) = PyDict e"
  let ?d = "map (\<lambda>(k, v). (k, py_sorted v)) d"
  have "distinct (map fst ?d)" using d by (simp add: comp_def split_beta)
  then have "map_of (sort_key fst ?d) = map_of ?d" by (subst map_of_inject_set) (simp_all add: distinct_sorted)
  moreover have "map_of ?d k = map_option py_sorted (map_of d k)" by (simp add: map_of_map)
  ultimately show ?thesis using e by (auto simp: py_get_def split: option.split)
qed

end
