(* ===== verification/Frame_Storage.thy ===== *)
theory Frame_Storage
  imports Json Content_Normalization
begin

text \<open>
  How conversation frames are stored (\<open>services/conversation/state_manager.py\<close>, up to the end of
  \<open>ConversationPersistence\<close>): scrubbing, text frames, the text and the metadata of a row, and reading a row back.  The
  table is a list of rows in the order they were inserted.  A row keeps its time in whole milliseconds; reading it goes
  through the double of its seconds, as the code does.  (The order of the rows is that of the milliseconds, which is that
  of the doubles as long as no two times share one, up to some 70,000 years.)  The cipher is a parameter; rows hold what it
  made.
\<close>

section \<open>Values of the enumerations\<close>

fun role_value :: "frame_role \<Rightarrow> string" where
  "role_value SYSTEM = ''system''"
| "role_value USER = ''user''"
| "role_value ASSISTANT = ''assistant''"
| "role_value TOOL = ''tool''"
| "role_value META_USER = ''meta_user''"

definition coerce_frame_role :: "string \<Rightarrow> bool \<Rightarrow> frame_role" where
  "coerce_frame_role v is_meta = (if is_meta then META_USER
     else (case List.find (\<lambda>r. role_value r = py_lower (py_strip v)) [SYSTEM, USER, ASSISTANT, TOOL, META_USER] of
         Some r \<Rightarrow> r | None \<Rightarrow> USER))"

definition LEGACY_REMINDER_KINDS :: "string list" where
  "LEGACY_REMINDER_KINDS = [''system_static'', ''system_dynamic'', ''gate_state'', ''task_notification'', ''account_owner'',
     ''profile'', ''delivery_address'', ''user_model'', ''memory'', ''task_plan'', ''channel'', ''runtime_state'',
     ''active_agent'', ''music_route'', ''hook_context'', ''skill_load'', ''compact_summary'', ''repair_instruction'']"

definition coerce_frame_kind :: "string option \<Rightarrow> frame_kind \<Rightarrow> frame_kind" where
  "coerce_frame_kind v dflt = (let raw = py_strip (opt_str v) in
     if raw = [] then dflt
     else (case List.find (\<lambda>k. kind_value k = raw) [USER_INPUT, ASSISTANT_TEXT, TOOL_USE, TOOL_RESULT, SYSTEM_REMINDER] of
         Some k \<Rightarrow> k
       | None \<Rightarrow> if raw \<in> set LEGACY_REMINDER_KINDS then SYSTEM_REMINDER else dflt))"

definition coerce_frame_origin :: "string option \<Rightarrow> string option" where
  "coerce_frame_origin v = (let raw = py_strip (opt_str v) in
     if raw = [] \<or> raw \<in> {''human'', ''model''} then None else Some raw)"

definition default_kind_for_frame :: "frame_role \<Rightarrow> bool \<Rightarrow> frame_kind" where
  "default_kind_for_frame role is_meta = (if is_meta then SYSTEM_REMINDER
     else (case role of USER \<Rightarrow> USER_INPUT | ASSISTANT \<Rightarrow> ASSISTANT_TEXT | TOOL \<Rightarrow> TOOL_RESULT | _ \<Rightarrow> SYSTEM_REMINDER))"

section \<open>Scrubbing\<close>

definition SENSITIVE_KEY_PARTS :: "string list" where
  "SENSITIVE_KEY_PARTS = [''password'', ''passcode'', ''secret'', ''token'', ''apikey'', ''api_key'', ''api-key'', ''card'', ''cvv'',
     ''cvc'', ''ssn'', ''social_security'']"

definition sensitive_key :: "string \<Rightarrow> bool" where
  "sensitive_key k = list_ex (\<lambda>p. str_contains p (py_lower k)) SENSITIVE_KEY_PARTS"

fun scrub_sensitive_metadata :: "pyval \<Rightarrow> pyval" where
  "scrub_sensitive_metadata (PyDict d) =
     PyDict (map (\<lambda>(k, v). (k, scrub_sensitive_metadata v)) (filter (\<lambda>(k, v). \<not> sensitive_key k) d))"
| "scrub_sensitive_metadata (PyList xs) = PyList (map scrub_sensitive_metadata xs)"
| "scrub_sensitive_metadata v = v"

text \<open>A run marker: \<open>CG-\<close>, a capital or digit, more of them with hyphens or underscores, and nine or more digits at a word's end.\<close>

definition word_char :: "char \<Rightarrow> bool" where
  "word_char c = (py_isalnum c \<or> c = CHR ''_'')"

definition marker_start :: "char \<Rightarrow> bool" where
  "marker_start c = (let n = char_code c in (48 \<le> n \<and> n \<le> 57) \<or> (65 \<le> n \<and> n \<le> 90))"

definition ends_in_number :: "string \<Rightarrow> bool" where
  "ends_in_number s = (case s of
      [] \<Rightarrow> False
    | c # cs \<Rightarrow> c = CHR ''-'' \<and> length (takeWhile json_digit cs) \<ge> 9
        \<and> (case dropWhile json_digit cs of [] \<Rightarrow> True | d # ds \<Rightarrow> \<not> word_char d))"

fun marker_rest :: "string \<Rightarrow> bool" where
  "marker_rest [] = False"
| "marker_rest (c # cs) = (ends_in_number (c # cs) \<or> (marker_start c \<or> c \<in> {CHR ''_'', CHR ''-''}) \<and> marker_rest cs)"

fun has_run_marker :: "bool \<Rightarrow> string \<Rightarrow> bool" where
  "has_run_marker in_word [] = False"
| "has_run_marker in_word (c # cs) =
     (\<not> in_word \<and> starts_with ''CG-'' (c # cs) \<and> (case drop 2 cs of [] \<Rightarrow> False | d # ds \<Rightarrow> marker_start d \<and> marker_rest ds)
      \<or> has_run_marker (word_char c) cs)"

definition TOOL_TYPES :: "string list" where
  "TOOL_TYPES = [''tool_call'', ''tool_use'', ''function_call'']"

definition opens_tool_json :: "string \<Rightarrow> bool" where
  "opens_tool_json s = (case s of
      [] \<Rightarrow> False
    | c # cs \<Rightarrow> c = CHR ''{'' \<and> (let r = py_lstrip cs; key = ''\"type\"'' in
        starts_with key r \<and> (let r2 = py_lstrip (drop (length key) r) in
          starts_with '':'' r2 \<and> list_ex (\<lambda>t. starts_with (CHR 0x22 # t @ [CHR 0x22]) (py_lstrip (tl r2))) TOOL_TYPES)))"

fun has_tool_json :: "string \<Rightarrow> bool" where
  "has_tool_json [] = False"
| "has_tool_json (c # cs) = (opens_tool_json (c # cs) \<or> has_tool_json cs)"

text \<open>\<open>str(parsed.get("type") or "").strip().lower()\<close> of a text that was read; the white space beyond 255 is listed.\<close>

definition code_space :: "nat \<Rightarrow> bool" where
  "code_space n = (if n < 256 then py_space (char_of n)
     else n \<in> set [0x1680, 0x2000, 0x2001, 0x2002, 0x2003, 0x2004, 0x2005, 0x2006, 0x2007, 0x2008, 0x2009, 0x200A,
       0x2028, 0x2029, 0x202F, 0x205F, 0x3000])"

definition strip_codes :: "nat list \<Rightarrow> nat list" where
  "strip_codes ns = rev (dropWhile code_space (rev (dropWhile code_space ns)))"

definition is_tool_type :: "json option \<Rightarrow> bool" where
  "is_tool_type v = (case v of
      Some (JStr ns) \<Rightarrow> (case string_of_codes (strip_codes ns) of
          Some t \<Rightarrow> py_lower t \<in> set TOOL_TYPES | None \<Rightarrow> False)
    | _ \<Rightarrow> False)"

definition is_tool_object :: "string \<Rightarrow> bool" where
  "is_tool_object text = (case json_loads text of
      Some (JDict d) \<Rightarrow> is_tool_type (map_of d (map char_code ''type''))
    | _ \<Rightarrow> False)"

definition is_internal_history_artifact :: "string \<Rightarrow> string \<Rightarrow> bool" where
  "is_internal_history_artifact role content = (let role_name = py_lower (py_strip role); text = py_strip content in
     text \<noteq> [] \<and>
     (str_contains ''[TOOL_RESULT:'' text \<or> str_contains ''echo_probe'' text \<or> has_run_marker False text
      \<or> role_name = ''assistant'' \<and> (has_tool_json (py_lower text) \<or> is_tool_object text)))"

text \<open>\<open>None\<close> and values equal to \<open>""\<close>, \<open>[]\<close> or \<open>{}\<close> are left out of the containers around them.\<close>

definition blank_value :: "pyval \<Rightarrow> bool" where
  "blank_value v = (v \<in> {PyNone, PyStr [], PyList [], PyDict []})"

fun scrub_internal_prompt_artifacts :: "pyval \<Rightarrow> pyval" where
  "scrub_internal_prompt_artifacts (PyDict d) =
     PyDict (filter (\<lambda>(k, v). \<not> blank_value v) (map (\<lambda>(k, v). (k, scrub_internal_prompt_artifacts v)) d))"
| "scrub_internal_prompt_artifacts (PyList xs) =
     PyList (filter (\<lambda>v. \<not> blank_value v) (map scrub_internal_prompt_artifacts xs))"
| "scrub_internal_prompt_artifacts (PyStr s) =
     (if is_internal_history_artifact ''assistant'' (py_strip s) then PyNone else PyStr s)"
| "scrub_internal_prompt_artifacts v = v"

section \<open>Frames of a text\<close>

definition RESERVED_KEYS :: "string list" where
  "RESERVED_KEYS = [''_frame_block_type'', ''_frame_source_tag'', ''_frame_tool_name'', ''_frame_tool_is_error'',
     ''_frame_source_tool_assistant_uuid'', ''_frame_permission_mode'', ''_frame_ttl_turns'', ''_frame_relevance'',
     ''_frame_uuid'', ''_frame_parent_uuid'', ''_frame_logical_parent_uuid'', ''_frame_session_id'']"

definition metadata_extra :: "pydict \<Rightarrow> pydict" where
  "metadata_extra d = filter (\<lambda>(k, v). k \<notin> set RESERVED_KEYS) d"

text \<open>\<open>d.update(e)\<close>\<close>

definition py_update :: "pydict \<Rightarrow> pydict \<Rightarrow> pydict" where
  "py_update e d = fold (\<lambda>(k, v). py_set k v) e d"

fun frame_part :: "content_block \<Rightarrow> string" where
  "frame_part (TextBlock t) = t"
| "frame_part (SystemReminderBlock t tag) = t"
| "frame_part (ToolResultBlock i nm t err) = t"
| "frame_part (ToolUseBlock i nm inp) = nm @ '' '' @ json_dumps (py_sorted inp)"

definition frame_text :: "frame \<Rightarrow> string" where
  "frame_text f = join_with newline (filter (\<lambda>t. t \<noteq> []) (map frame_part (f_blocks f)))"

text \<open>The keyword arguments of \<open>_make_text_frame\<close>; an enumeration is given by its value.\<close>

record text_args =
  ta_kind :: "string option"
  ta_origin :: "string option"
  ta_is_meta :: bool
  ta_is_compact_summary :: bool
  ta_task_id :: "string option"
  ta_tool_use_id :: "string option"
  ta_permission_mode :: "string option"
  ta_timestamp_ms :: int
  ta_session_id :: "string option"

text \<open>\<open>s.replace("_", "-")\<close>\<close>

definition dashed :: "string \<Rightarrow> string" where
  "dashed s = map (\<lambda>c. if c = CHR ''_'' then CHR ''-'' else c) s"

text \<open>\<open>voice\<close> gives the frame of the spoken turn that has this text, if one is being handled.\<close>

definition make_text_frame :: "(string \<Rightarrow> string option \<Rightarrow> frame option) \<Rightarrow> string \<Rightarrow> string \<Rightarrow> pydict \<Rightarrow> text_args \<Rightarrow> frame" where
  "make_text_frame voice role content metadata a = (let
     frame_role = coerce_frame_role role (ta_is_meta a);
     meta_flag = (ta_is_meta a \<or> frame_role = META_USER);
     kind = coerce_frame_kind (ta_kind a) (default_kind_for_frame frame_role meta_flag);
     text = py_strip content;
     spoken = (if frame_role = USER \<and> kind = USER_INPUT \<and> \<not> meta_flag then voice text (ta_session_id a) else None);
     finish = (\<lambda>f. f\<lparr>f_is_compact_summary := ta_is_compact_summary a, f_task_id := ta_task_id a, f_tool_use_id := ta_tool_use_id a,
       f_permission_mode := ta_permission_mode a, f_timestamp_ms := ta_timestamp_ms a, f_schema_version := 1,
       f_uuid := None, f_parent_uuid := None, f_logical_parent_uuid := None\<rparr>) in
   case spoken of
     Some v \<Rightarrow> finish (v\<lparr>f_origin := opt_or (coerce_frame_origin (ta_origin a)) (f_origin v),
       f_extra := py_update (metadata_extra metadata) (f_extra v), f_session_id := opt_or (ta_session_id a) (f_session_id v)\<rparr>)
   | None \<Rightarrow> finish ((new_frame kind frame_role
       (if frame_role = META_USER then [SystemReminderBlock text (Some (dashed (kind_value kind)))] else [TextBlock text]))
       \<lparr>f_is_meta := meta_flag, f_origin := coerce_frame_origin (ta_origin a), f_extra := metadata_extra metadata,
         f_session_id := ta_session_id a\<rparr>))"

definition frame_with_defaults :: "string \<Rightarrow> int \<Rightarrow> string option \<Rightarrow> string option \<Rightarrow> string option \<Rightarrow> frame \<Rightarrow> frame" where
  "frame_with_defaults fresh ts session parent logical f = f\<lparr>
     f_timestamp_ms := (if f_timestamp_ms f \<noteq> 0 then f_timestamp_ms f else ts),
     f_uuid := opt_or (f_uuid f) (Some fresh),
     f_parent_uuid := opt_or (f_parent_uuid f) parent,
     f_logical_parent_uuid := opt_or (f_logical_parent_uuid f) logical,
     f_session_id := opt_or (f_session_id f) session\<rparr>"

section \<open>Times\<close>

text \<open>The table keeps seconds as a double, \<open>timestamp_ms / 1000.0\<close>; reading takes \<open>int(timestamp * 1000)\<close>.  Each
  operation rounds to the nearest number with 53 significant bits, and to the even one of two that are as near.  A double
  that is not negative is a numerator and a power of two below it; times too large for a double are not modelled.\<close>

definition round_even :: "int \<Rightarrow> int \<Rightarrow> int" where
  "round_even n d = (let q = n div d; r = n mod d in if 2 * r < d \<or> 2 * r = d \<and> even q then q else q + 1)"

text \<open>How many bits a quotient lacks to have 53, and how many it has too many\<close>

function missing_bits :: "int \<Rightarrow> int \<Rightarrow> nat" where
  "missing_bits n d = (if n \<le> 0 \<or> 2 ^ 52 * d \<le> n then 0 else Suc (missing_bits (2 * n) d))"
  by pat_completeness auto

termination missing_bits
  by (relation "measure (\<lambda>(n, d). nat (2 ^ 52 * d - n))") auto

function excess_bits :: "int \<Rightarrow> int \<Rightarrow> nat" where
  "excess_bits n d = (if d \<le> 0 \<or> n < 2 ^ 53 * d then 0 else Suc (excess_bits n (2 * d)))"
  by pat_completeness auto

termination excess_bits
  by (relation "measure (\<lambda>(n, d). nat (n + 1 - d))") auto

declare missing_bits.simps [simp del] excess_bits.simps [simp del]

definition double_of :: "int \<Rightarrow> int \<Rightarrow> int \<times> int" where
  "double_of n d = (if n < 2 ^ 53 * d then (let k = missing_bits n d in (round_even (n * 2 ^ k) d, 2 ^ k))
     else (let k = excess_bits n d in (round_even n (d * 2 ^ k) * 2 ^ k, 1)))"

definition seconds_of_ms :: "int \<Rightarrow> int \<times> int" where
  "seconds_of_ms ts = (case double_of ts 1 of (n, d) \<Rightarrow> double_of n (1000 * d))"

definition ms_of_seconds :: "int \<times> int \<Rightarrow> int" where
  "ms_of_seconds s = (case s of (n, d) \<Rightarrow> case double_of (n * 1000) d of (a, b) \<Rightarrow> a div b)"

definition restore_ms :: "int \<Rightarrow> int" where
  "restore_ms ts = sgn ts * ms_of_seconds (seconds_of_ms (abs ts))"

section \<open>A row\<close>

definition put_opt :: "string \<Rightarrow> string option \<Rightarrow> pydict \<Rightarrow> pydict" where
  "put_opt k v d = (case v of None \<Rightarrow> d | Some s \<Rightarrow> py_set k (PyStr s) d)"

fun block_to_storage_dict :: "content_block \<Rightarrow> pydict" where
  "block_to_storage_dict (SystemReminderBlock t tag) =
     [(''type'', PyStr ''system_reminder''), (''text'', PyStr t)] @ (case tag of None \<Rightarrow> [] | Some s \<Rightarrow> [(''source_tag'', PyStr s)])"
| "block_to_storage_dict (TextBlock t) = [(''type'', PyStr ''text''), (''text'', PyStr t)]"
| "block_to_storage_dict (ToolUseBlock i nm inp) =
     [(''type'', PyStr ''tool_use''), (''tool_use_id'', PyStr i), (''name'', PyStr nm), (''input'', inp)]"
| "block_to_storage_dict (ToolResultBlock i nm t err) =
     [(''type'', PyStr ''tool_result''), (''tool_use_id'', PyStr i), (''tool_name'', PyStr nm), (''content'', PyStr t),
      (''is_error'', PyBool err)]"

definition frame_metadata :: "frame \<Rightarrow> pydict" where
  "frame_metadata f = (let
     m0 = py_set ''_frame_relevance'' (PyStr (f_relevance f)) (f_extra f);
     m1 = put_opt ''_frame_uuid'' (f_uuid f) m0;
     m2 = put_opt ''_frame_parent_uuid'' (f_parent_uuid f) m1;
     m3 = put_opt ''_frame_logical_parent_uuid'' (f_logical_parent_uuid f) m2;
     m4 = put_opt ''_frame_session_id'' (f_session_id f) m3;
     m5 = put_opt ''_frame_source_tool_assistant_uuid'' (f_source_tool_assistant_uuid f) m4;
     m6 = put_opt ''_frame_permission_mode'' (f_permission_mode f) m5 in
   case f_ttl_turns f of None \<Rightarrow> m6 | Some n \<Rightarrow> py_set ''_frame_ttl_turns'' (PyInt n) m6)"

definition frame_to_storage_payload :: "frame \<Rightarrow> string \<times> pydict" where
  "frame_to_storage_payload f = (let m = frame_metadata f; typed = (\<lambda>t. py_set ''_frame_block_type'' (PyStr t)) in
     case f_blocks f of
       [SystemReminderBlock t tag] \<Rightarrow> (t, put_opt ''_frame_source_tag'' tag (typed ''system_reminder'' m))
     | [TextBlock t] \<Rightarrow> (t, typed ''text'' m)
     | [ToolResultBlock i nm t err] \<Rightarrow>
         (t, py_set ''_frame_tool_is_error'' (PyBool err) (py_set ''_frame_tool_name'' (PyStr nm) (typed ''tool_result'' m)))
     | [ToolUseBlock i nm inp] \<Rightarrow> (json_dumps (py_sorted inp), py_set ''_frame_tool_name'' (PyStr nm) (typed ''tool_use'' m))
     | bs \<Rightarrow> (json_dumps (PyDict [(''blocks'', PyList (map (PyDict \<circ> block_to_storage_dict) bs))]), typed ''multi'' m))"

definition block_from_storage_dict :: "pydict \<Rightarrow> string option \<Rightarrow> content_block option" where
  "block_from_storage_dict p fallback = (let
     block_type = py_strip (str_or_empty (py_get ''type'' p));
     tool_id = (if py_truthy (py_get ''tool_use_id'' p) then py_str (py_get ''tool_use_id'' p) else opt_str fallback) in
   if block_type = ''system_reminder'' then (case py_get ''text'' p of
       PyStr t \<Rightarrow> Some (SystemReminderBlock t (case py_get ''source_tag'' p of PyStr (c # cs) \<Rightarrow> Some (c # cs) | _ \<Rightarrow> None))
     | _ \<Rightarrow> None)
   else if block_type = ''text'' then (case py_get ''text'' p of PyStr t \<Rightarrow> Some (TextBlock t) | _ \<Rightarrow> None)
   else if block_type = ''tool_use'' then Some (ToolUseBlock tool_id (str_or_empty (py_get ''name'' p))
     (case py_get ''input'' p of PyDict d \<Rightarrow> PyDict d | PyNone \<Rightarrow> PyDict [] | v \<Rightarrow> PyDict [(''value'', v)]))
   else if block_type = ''tool_result'' then Some (ToolResultBlock tool_id (str_or_empty (py_get ''tool_name'' p))
     (case py_get ''content'' p of PyStr t \<Rightarrow> t | PyNone \<Rightarrow> [] | v \<Rightarrow> json_dumps v) (py_truthy (py_get ''is_error'' p)))
   else None)"

text \<open>A text that is read back as a value; \<open>None\<close> is a text that does not parse.  What is read has no floats.\<close>

definition py_loads :: "string \<Rightarrow> pyval option" where
  "py_loads s = Option.bind (json_loads s) py_of_json"

definition dict_blocks :: "pyval list \<Rightarrow> string option \<Rightarrow> content_block list" where
  "dict_blocks raws fallback = concat (map (\<lambda>raw. case raw of
      PyDict p \<Rightarrow> (case block_from_storage_dict p fallback of Some b \<Rightarrow> [b] | None \<Rightarrow> []) | _ \<Rightarrow> []) raws)"

definition blocks_from_storage :: "frame_role \<Rightarrow> string \<Rightarrow> pydict \<Rightarrow> string option \<Rightarrow> content_block list" where
  "blocks_from_storage role content m tool_id = (let
     block_type = py_strip (str_or_empty (py_get ''_frame_block_type'' m)) in
   if block_type = ''multi'' then (case py_loads content of
       Some (PyDict d) \<Rightarrow> (case py_get ''blocks'' d of
           PyList raws \<Rightarrow> if dict_blocks raws tool_id \<noteq> [] then dict_blocks raws tool_id else [TextBlock content]
         | _ \<Rightarrow> [TextBlock content])
     | _ \<Rightarrow> [TextBlock content])
   else if block_type = ''system_reminder'' \<or> role = META_USER
   then [SystemReminderBlock content (case py_get ''_frame_source_tag'' m of PyStr (c # cs) \<Rightarrow> Some (c # cs) | _ \<Rightarrow> None)]
   else if block_type = ''tool_result''
   then [ToolResultBlock (opt_str tool_id) (str_or_empty (py_get ''_frame_tool_name'' m)) content (py_truthy (py_get ''_frame_tool_is_error'' m))]
   else if block_type = ''tool_use''
   then [ToolUseBlock (opt_str tool_id) (str_or_empty (py_get ''_frame_tool_name'' m))
     (case py_loads content of None \<Rightarrow> PyDict [] | Some (PyDict d) \<Rightarrow> PyDict d | Some v \<Rightarrow> PyDict [(''value'', v)])]
   else [TextBlock content])"

text \<open>A row of \<open>conversation_log\<close>; a missing number counts as 0.\<close>

record log_row =
  rw_user :: string
  rw_session :: string
  rw_role :: string
  rw_content :: string
  rw_ts :: int
  rw_metadata :: "string option"
  rw_kind :: "string option"
  rw_origin :: "string option"
  rw_is_meta :: bool
  rw_is_compact_summary :: bool
  rw_task_id :: "string option"
  rw_tool_use_id :: "string option"
  rw_schema_version :: int
  rw_uuid :: "string option"
  rw_parent_uuid :: "string option"
  rw_logical_parent_uuid :: "string option"
  rw_source_uuid :: "string option"
  rw_permission_mode :: "string option"

definition non_empty :: "string option \<Rightarrow> string option" where
  "non_empty v = (if opt_truthy v then v else None)"

text \<open>A column, or else the metadata\<close>

definition column_or :: "string option \<Rightarrow> string \<Rightarrow> pydict \<Rightarrow> string option" where
  "column_or col key m = (if opt_truthy col then col
     else if py_truthy (py_get key m) then Some (py_str (py_get key m)) else None)"

text \<open>\<open>None\<close> is the error of \<open>int()\<close> on the stored number of turns.\<close>

definition hydrate_frame :: "string \<Rightarrow> pydict \<Rightarrow> log_row \<Rightarrow> frame option" where
  "hydrate_frame content m r = (let
     role = coerce_frame_role (rw_role r) (rw_is_meta r);
     is_meta = (rw_is_meta r \<or> role = META_USER);
     tool_id = non_empty (rw_tool_use_id r);
     finish = (\<lambda>ttl. (new_frame (coerce_frame_kind (rw_kind r) (default_kind_for_frame role is_meta)) role
         (blocks_from_storage role content m tool_id))\<lparr>
       f_is_meta := is_meta, f_is_compact_summary := rw_is_compact_summary r,
       f_source_tool_assistant_uuid := column_or (rw_source_uuid r) ''_frame_source_tool_assistant_uuid'' m,
       f_origin := coerce_frame_origin (rw_origin r), f_tool_use_id := tool_id, f_task_id := non_empty (rw_task_id r),
       f_permission_mode := column_or (rw_permission_mode r) ''_frame_permission_mode'' m,
       f_timestamp_ms := restore_ms (rw_ts r), f_ttl_turns := ttl,
       f_relevance := (if py_truthy (py_get ''_frame_relevance'' m) then py_str (py_get ''_frame_relevance'' m) else ''always''),
       f_schema_version := rw_schema_version r, f_extra := metadata_extra m,
       f_uuid := column_or (rw_uuid r) ''_frame_uuid'' m,
       f_parent_uuid := column_or (rw_parent_uuid r) ''_frame_parent_uuid'' m,
       f_logical_parent_uuid := column_or (rw_logical_parent_uuid r) ''_frame_logical_parent_uuid'' m,
       f_session_id := column_or (Some (rw_session r)) ''_frame_session_id'' m\<rparr>) in
   case py_get ''_frame_ttl_turns'' m of
     PyNone \<Rightarrow> Some (finish None)
   | v \<Rightarrow> (case py_int v of None \<Rightarrow> None | Some n \<Rightarrow> Some (finish (Some n))))"

section \<open>The table\<close>

text \<open>\<open>None\<close> is a decryption that raises; the text is taken as it is then.\<close>

record cipher =
  ci_available :: bool
  ci_encrypt :: "string \<Rightarrow> string"
  ci_decrypt :: "string \<Rightarrow> string option"

datatype storage_error = EncryptionUnavailable | SessionIdRequired

definition row_of_frame :: "cipher \<Rightarrow> string \<Rightarrow> string \<Rightarrow> int \<Rightarrow> frame \<Rightarrow> log_row" where
  "row_of_frame c user session now f = \<lparr>rw_user = user, rw_session = session, rw_role = role_value (f_role f),
     rw_content = ci_encrypt c (fst (frame_to_storage_payload f)),
     rw_ts = (if f_timestamp_ms f \<noteq> 0 then f_timestamp_ms f else now),
     rw_metadata = (let m = snd (frame_to_storage_payload f) in if m = [] then None else Some (json_dumps (PyDict m))),
     rw_kind = Some (kind_value (f_kind f)), rw_origin = f_origin f, rw_is_meta = f_is_meta f,
     rw_is_compact_summary = f_is_compact_summary f, rw_task_id = f_task_id f, rw_tool_use_id = f_tool_use_id f,
     rw_schema_version = f_schema_version f, rw_uuid = f_uuid f, rw_parent_uuid = f_parent_uuid f,
     rw_logical_parent_uuid = f_logical_parent_uuid f, rw_source_uuid = f_source_tool_assistant_uuid f,
     rw_permission_mode = f_permission_mode f\<rparr>"

definition write_turn :: "cipher \<Rightarrow> string \<Rightarrow> int \<Rightarrow> string \<Rightarrow> string \<Rightarrow> frame \<Rightarrow> log_row list \<Rightarrow> storage_error + log_row list" where
  "write_turn c fresh now user session f rows = (if \<not> ci_available c then Inl EncryptionUnavailable
     else Inr (rows @ [row_of_frame c user session now (frame_with_defaults fresh now (Some session) None None f)]))"

definition replacement_rows :: "cipher \<Rightarrow> (nat \<Rightarrow> string) \<Rightarrow> int \<Rightarrow> string \<Rightarrow> string \<Rightarrow> frame list \<Rightarrow> log_row list" where
  "replacement_rows c fresh now user session fs = map (\<lambda>(i, f).
     row_of_frame c user session now (frame_with_defaults (fresh i) (now + int i) (Some session) None None f)) (zip [0..<length fs] fs)"

definition replace_session_frames ::
    "cipher \<Rightarrow> (nat \<Rightarrow> string) \<Rightarrow> int \<Rightarrow> string \<Rightarrow> string \<Rightarrow> frame list \<Rightarrow> log_row list \<Rightarrow> storage_error + log_row list" where
  "replace_session_frames c fresh now user session fs rows = (let key = py_strip session in
     if key = [] then Inl SessionIdRequired
     else if \<not> ci_available c then Inl EncryptionUnavailable
     else Inr (filter (\<lambda>r. \<not> (rw_user r = user \<and> rw_session r = key)) rows @ replacement_rows c fresh now user key fs))"

definition read_metadata :: "log_row \<Rightarrow> pydict" where
  "read_metadata r = (case rw_metadata r of
      Some (t # ts) \<Rightarrow> (case py_loads (t # ts) of Some (PyDict d) \<Rightarrow> d | _ \<Rightarrow> [])
    | _ \<Rightarrow> [])"

definition read_content :: "cipher \<Rightarrow> log_row \<Rightarrow> string" where
  "read_content c r = (case ci_decrypt c (rw_content r) of Some t \<Rightarrow> t | None \<Rightarrow> rw_content r)"

definition read_row :: "cipher \<Rightarrow> log_row \<Rightarrow> frame option" where
  "read_row c r = hydrate_frame (read_content c r) (read_metadata r) r"

text \<open>\<open>ORDER BY timestamp\<close>: rows of the same time come in the order of the index, which is that of their insertion.\<close>

definition session_rows :: "string \<Rightarrow> string \<Rightarrow> log_row list \<Rightarrow> log_row list" where
  "session_rows user session rows = sort_key rw_ts (filter (\<lambda>r. rw_user r = user \<and> rw_session r = session) rows)"

definition newest_session :: "string \<Rightarrow> log_row list \<Rightarrow> string option" where
  "newest_session user rows = (case rev (sort_key rw_ts (filter (\<lambda>r. rw_user r = user) rows)) of
      [] \<Rightarrow> None | r # rs \<Rightarrow> Some (rw_session r))"

definition load_recent_turns :: "cipher \<Rightarrow> string \<Rightarrow> int \<Rightarrow> string option \<Rightarrow> log_row list \<Rightarrow> frame list option" where
  "load_recent_turns c user limit session rows = (case (case session of Some s \<Rightarrow> Some s | None \<Rightarrow> newest_session user rows) of
      None \<Rightarrow> Some []
    | Some s \<Rightarrow> if \<not> ci_available c then Some []
        else all_some (map (read_row c) (last_slice (max 1 limit) (session_rows user s rows))))"

definition load_session_frames :: "cipher \<Rightarrow> string \<Rightarrow> string \<Rightarrow> int option \<Rightarrow> log_row list \<Rightarrow> frame list option" where
  "load_session_frames c user session limit rows = (let key = py_strip session in
     if key = [] \<or> \<not> ci_available c then Some []
     else all_some (map (read_row c) (case limit of
         None \<Rightarrow> session_rows user key rows
       | Some n \<Rightarrow> last_slice (max 1 n) (session_rows user key rows))))"

definition session_exists :: "string \<Rightarrow> string \<Rightarrow> log_row list \<Rightarrow> bool" where
  "session_exists user session rows = (let key = py_strip session in
     key \<noteq> [] \<and> list_ex (\<lambda>r. rw_user r = user \<and> rw_session r = key) rows)"

definition latest_session_id :: "string \<Rightarrow> string option \<Rightarrow> log_row list \<Rightarrow> string option" where
  "latest_session_id user excluded rows = (let key = py_strip (opt_str excluded) in
     newest_session user (if key = [] then rows else filter (\<lambda>r. rw_session r \<noteq> key) rows))"

definition prune_old :: "int \<Rightarrow> string \<Rightarrow> int \<Rightarrow> log_row list \<Rightarrow> nat \<times> log_row list" where
  "prune_old now user days rows = (let kept = filter (\<lambda>r. \<not> (rw_user r = user \<and> rw_ts r < now - days * 86400000)) rows in
     (length rows - length kept, kept))"

definition clear_rows :: "string \<Rightarrow> string option \<Rightarrow> log_row list \<Rightarrow> nat \<times> log_row list" where
  "clear_rows user session rows = (let kept = filter (\<lambda>r. \<not> (rw_user r = user \<and>
       (opt_truthy session \<longrightarrow> session = Some (rw_session r)))) rows in (length rows - length kept, kept))"

section \<open>Recent activity\<close>

text \<open>An exchange: the role, the text and the time.\<close>

definition exchange_of_row :: "cipher \<Rightarrow> log_row \<Rightarrow> (string \<times> string \<times> int) option" where
  "exchange_of_row c r = (case read_row c r of
      None \<Rightarrow> None
    | Some f \<Rightarrow> (let text = py_strip (frame_text f);
        role = (if f_role f = USER then ''user'' else if f_role f = ASSISTANT then ''assistant'' else []) in
        if f_is_meta f \<or> f_is_compact_summary f \<or> f_kind f \<notin> {USER_INPUT, ASSISTANT_TEXT} \<or> \<not> list_all is_text (f_blocks f)
          \<or> role = [] \<or> text = [] \<or> is_internal_history_artifact role text
        then None else Some (role, text, rw_ts r)))"

definition scanned_rows :: "string \<Rightarrow> nat \<Rightarrow> log_row list \<Rightarrow> log_row list" where
  "scanned_rows user n rows = take n (rev (sort_key rw_ts (filter (\<lambda>r. rw_user r = user \<and> rw_role r \<in> {''user'', ''assistant''}
     \<and> \<not> rw_is_meta r \<and> \<not> rw_is_compact_summary r) rows)))"

definition load_recent_exchanges ::
    "cipher \<Rightarrow> string \<Rightarrow> int \<Rightarrow> string list \<Rightarrow> log_row list \<Rightarrow> (string \<times> string \<times> int) list" where
  "load_recent_exchanges c user limit exclude rows = (let
     uid = py_strip user;
     capped = nat (max 1 (min (if limit = 0 then 50 else limit) 200));
     excluded = remdups (filter (\<lambda>s. s \<noteq> []) exclude);
     scanned = scanned_rows uid (capped * 4 + length excluded * 20) rows in
   if uid = [] \<or> \<not> ci_available c then []
   else rev (take capped (List.map_filter (exchange_of_row c) (filter (\<lambda>r. rw_session r \<notin> set excluded) scanned))))"

end
