(* ===== verification/Lineage.thy ===== *)
theory Lineage
  imports Context_Frames "HOL-Library.Sublist"
begin

text \<open>
  Transcript lineage (\<open>services/conversation/lineage.py\<close>): the parent links of stored
  frames, the walk from the newest leaf to the root, the recovery of tool results on
  sibling branches, and the lineage report.  \<open>uuid.uuid4()\<close> is an argument \<open>fresh\<close>.
\<close>

record lineage_report =
  lr_total_frames :: nat
  lr_active_leaf_uuid :: "string option"
  lr_missing_uuid :: "nat list"
  lr_missing_session_id :: "nat list"
  lr_missing_parent_uuid :: "nat list"
  lr_orphan_parents :: "string list"

definition lineage_ok :: "lineage_report \<Rightarrow> bool" where
  "lineage_ok r = (\<not> (lr_missing_uuid r \<noteq> [] \<or> lr_missing_session_id r \<noteq> [] \<or>
     lr_missing_parent_uuid r \<noteq> [] \<or> lr_orphan_parents r \<noteq> []))"

definition assign_lineage :: "string \<Rightarrow> frame \<Rightarrow> frame option \<Rightarrow> string \<Rightarrow> frame" where
  "assign_lineage fresh f previous session = (let
     frame_uuid = opt_or (f_uuid f) (Some fresh);
     parent = (case f_parent_uuid f of
         Some p \<Rightarrow> Some p
       | None \<Rightarrow> (case previous of None \<Rightarrow> None | Some q \<Rightarrow> f_uuid q));
     logical = (case f_logical_parent_uuid f of Some p \<Rightarrow> Some p | None \<Rightarrow> parent)
     in f\<lparr>f_uuid := frame_uuid, f_session_id := opt_or (f_session_id f) (Some session),
          f_parent_uuid := parent, f_logical_parent_uuid := logical\<rparr>)"

section \<open>The active leaf\<close>

text \<open>\<open>{frame.uuid: frame for frame in ordered if frame.uuid}\<close>: the last frame of an id wins.\<close>

fun uuid_to_frame :: "frame list \<Rightarrow> string \<Rightarrow> frame option" where
  "uuid_to_frame [] u = None"
| "uuid_to_frame (f # fs) u = (case uuid_to_frame fs u of
      Some g \<Rightarrow> Some g
    | None \<Rightarrow> if u \<noteq> [] \<and> f_uuid f = Some u then Some f else None)"

definition parent_uuids :: "frame list \<Rightarrow> string set" where
  "parent_uuids fs = set (map opt_str (filter opt_truthy (map f_parent_uuid fs)))"

definition leaf_frames :: "frame list \<Rightarrow> frame list" where
  "leaf_frames fs = filter (\<lambda>f. opt_truthy (f_uuid f) \<and> opt_str (f_uuid f) \<notin> parent_uuids fs) fs"

text \<open>
  \<open>max(leaves, key=(timestamp_ms, index))\<close>.  The leaves are in index order, so among equal
  timestamps the later one wins.
\<close>

fun newest_leaf :: "frame \<Rightarrow> frame list \<Rightarrow> frame" where
  "newest_leaf best [] = best"
| "newest_leaf best (f # fs) = newest_leaf (if f_timestamp_ms best \<le> f_timestamp_ms f then f else best) fs"

text \<open>The walk to the root: stops at a missing id, a missing parent or an id already seen.\<close>

function walk_up :: "frame list \<Rightarrow> string set \<Rightarrow> frame option \<Rightarrow> frame list" where
  "walk_up fs seen None = []"
| "walk_up fs seen (Some f) =
    (if opt_truthy (f_uuid f) \<and> opt_str (f_uuid f) \<notin> seen
     then f # walk_up fs (insert (opt_str (f_uuid f)) seen)
            (if opt_truthy (f_parent_uuid f) then uuid_to_frame fs (opt_str (f_parent_uuid f)) else None)
     else [])"
  by pat_completeness auto

definition all_uuids :: "frame list \<Rightarrow> string set" where
  "all_uuids fs = set (map (opt_str \<circ> f_uuid) fs)"

lemma uuid_to_frame_Some:
  "uuid_to_frame fs u = Some f \<Longrightarrow> f \<in> set fs \<and> f_uuid f = Some u \<and> u \<noteq> []"
  by (induction fs u rule: uuid_to_frame.induct) (auto split: option.splits if_splits)

lemma uuid_to_frame_None:
  "uuid_to_frame fs u = None \<longleftrightarrow> u = [] \<or> (\<forall>f \<in> set fs. f_uuid f \<noteq> Some u)"
  by (induction fs u rule: uuid_to_frame.induct) (auto split: option.splits)

lemma uuid_in_all: "f \<in> set fs \<Longrightarrow> opt_str (f_uuid f) \<in> all_uuids fs"
  by (auto simp: all_uuids_def)

text \<open>Each step puts one more of the finitely many ids into \<open>seen\<close>.\<close>

definition walk_measure :: "frame list \<times> string set \<times> frame option \<Rightarrow> nat" where
  "walk_measure p = (case p of (fs, seen, None) \<Rightarrow> 0
     | (fs, seen, Some f) \<Rightarrow> Suc (card (insert (opt_str (f_uuid f)) (all_uuids fs) - seen)))"

termination walk_up
proof (relation "measure walk_measure")
  fix fs :: "frame list" and seen :: "string set" and f :: frame
  assume new: "opt_truthy (f_uuid f) \<and> opt_str (f_uuid f) \<notin> seen"
  let ?u = "opt_str (f_uuid f)"
  let ?next = "if opt_truthy (f_parent_uuid f) then uuid_to_frame fs (opt_str (f_parent_uuid f)) else None"
  show "((fs, insert ?u seen, ?next), fs, seen, Some f) \<in> measure walk_measure"
  proof (cases ?next)
    case None
    show ?thesis unfolding None by (simp add: walk_measure_def)
  next
    case (Some g)
    then have g: "g \<in> set fs" by (auto dest: uuid_to_frame_Some split: if_splits)
    have fin: "finite (insert ?u (all_uuids fs) - seen)" by (simp add: all_uuids_def)
    have "insert (opt_str (f_uuid g)) (all_uuids fs) - insert ?u seen
        \<subset> insert ?u (all_uuids fs) - seen"
      using new uuid_in_all[OF g] by auto
    then have "card (insert (opt_str (f_uuid g)) (all_uuids fs) - insert ?u seen)
        < card (insert ?u (all_uuids fs) - seen)"
      using fin by (rule psubset_card_mono[rotated])
    then show ?thesis unfolding Some by (simp add: walk_measure_def)
  qed
qed simp

definition walk_active_leaf :: "frame list \<Rightarrow> frame list" where
  "walk_active_leaf ordered =
    (if ordered = [] then []
     else if \<not> (\<exists>f \<in> set ordered. opt_truthy (f_uuid f)) then ordered
     else if parent_uuids ordered = {} then ordered
     else (case leaf_frames ordered of
         [] \<Rightarrow> ordered
       | l # ls \<Rightarrow> (let up = rev (walk_up ordered {} (Some (newest_leaf l ls)))
                   in if up = [] then ordered else up)))"

section \<open>Parallel tool results\<close>

definition frame_uuids :: "frame list \<Rightarrow> string set" where
  "frame_uuids fs = set (map opt_str (filter opt_truthy (map f_uuid fs)))"

text \<open>The tool-result frames that hang off assistant frame \<open>u\<close> and are not in the chain.\<close>

definition is_orphan_sibling :: "string set \<Rightarrow> frame \<Rightarrow> bool" where
  "is_orphan_sibling active f = (\<not> (case f_uuid f of None \<Rightarrow> False | Some u \<Rightarrow> u \<in> active)
     \<and> opt_truthy (f_source_tool_assistant_uuid f) \<and> (\<exists>b \<in> set (f_blocks f). is_tool_result b))"

definition orphans_of :: "string set \<Rightarrow> frame list \<Rightarrow> string \<Rightarrow> frame list" where
  "orphans_of active fs u =
    filter (\<lambda>f. is_orphan_sibling active f \<and> f_source_tool_assistant_uuid f = Some u) fs"

fun take_siblings :: "string set \<Rightarrow> string set \<Rightarrow> frame list \<Rightarrow> frame list \<times> string set" where
  "take_siblings issued have [] = ([], have)"
| "take_siblings issued have (s # ss) =
    (let new_ids = (set (block_result_ids (f_blocks s)) \<inter> issued) - have
     in if new_ids = {} then take_siblings issued have ss
        else (let (rest, have') = take_siblings issued (have \<union> new_ids) ss in (s # rest, have')))"

fun recover_loop :: "string set \<Rightarrow> frame list \<Rightarrow> string set \<Rightarrow> frame list \<Rightarrow> frame list" where
  "recover_loop active fs have [] = []"
| "recover_loop active fs have (f # rest) =
    (let candidates = (if opt_truthy (f_uuid f) then orphans_of active fs (opt_str (f_uuid f)) else []);
         issued = set (block_use_ids (f_blocks f));
         (sibs, have') = (if candidates = [] \<or> issued = {} then ([], have)
                          else take_siblings issued have candidates)
     in f # sibs @ recover_loop active fs have' rest)"

definition recover_orphaned_parallel_tool_results :: "frame list \<Rightarrow> frame list \<Rightarrow> frame list" where
  "recover_orphaned_parallel_tool_results fs active =
    (if active = [] then []
     else if \<not> (\<exists>f \<in> set fs. is_orphan_sibling (frame_uuids active) f) then active
     else recover_loop (frame_uuids active) fs
            (set (concat (map (\<lambda>f. block_result_ids (f_blocks f)) active))) active)"

section \<open>The report\<close>

text \<open>\<open>[index for index, frame in enumerate(ordered) if P(index, frame)]\<close>\<close>

definition indexes_where :: "(nat \<Rightarrow> frame \<Rightarrow> bool) \<Rightarrow> frame list \<Rightarrow> nat list" where
  "indexes_where P fs = map fst (filter (\<lambda>(i, f). P i f) (zip [0..<length fs] fs))"

definition validate_lineage :: "frame list \<Rightarrow> lineage_report" where
  "validate_lineage ordered = (let active = walk_active_leaf ordered in
     \<lparr>lr_total_frames = length ordered,
      lr_active_leaf_uuid = (if active = [] then None else f_uuid (last active)),
      lr_missing_uuid = indexes_where (\<lambda>i f. \<not> opt_truthy (f_uuid f)) ordered,
      lr_missing_session_id = indexes_where (\<lambda>i f. \<not> opt_truthy (f_session_id f)) ordered,
      lr_missing_parent_uuid = indexes_where (\<lambda>i f. 0 < i \<and> \<not> opt_truthy (f_parent_uuid f)) ordered,
      lr_orphan_parents = sort (remdups (filter (\<lambda>p. uuid_to_frame ordered p = None)
         (map opt_str (filter opt_truthy (map f_parent_uuid ordered)))))\<rparr>)"

section \<open>The walk from a leaf\<close>

text \<open>A frame's parent is the frame before it.\<close>

definition linked :: "frame list \<Rightarrow> bool" where
  "linked c = successively (\<lambda>a b. f_parent_uuid b = f_uuid a) c"

text \<open>A root-to-leaf chain: ids set and distinct, each frame the parent of the next, and the
  last frame no parent.\<close>

definition chain_shaped :: "frame list \<Rightarrow> bool" where
  "chain_shaped c = (distinct (map f_uuid c) \<and> (\<forall>f \<in> set c. opt_truthy (f_uuid f)) \<and> linked c
     \<and> (c \<noteq> [] \<longrightarrow> opt_str (f_uuid (last c)) \<notin> parent_uuids c))"

lemma walk_up_hd: "walk_up fs seen start = g # gs \<Longrightarrow> start = Some g"
  by (cases start) (auto split: if_splits)

lemma walk_up_enter:
  "opt_truthy (f_uuid f) \<Longrightarrow> opt_str (f_uuid f) \<notin> seen \<Longrightarrow>
    walk_up fs seen (Some f) = f # walk_up fs (insert (opt_str (f_uuid f)) seen)
      (if opt_truthy (f_parent_uuid f) then uuid_to_frame fs (opt_str (f_parent_uuid f)) else None)"
  by simp

lemma walk_up_seen: "opt_str (f_uuid f) \<in> seen \<Longrightarrow> walk_up fs seen (Some f) = []"
  by simp

lemma distinct_uuid_str:
  assumes "distinct (map f_uuid (xs @ x # ys))" "\<forall>f \<in> set (xs @ x # ys). opt_truthy (f_uuid f)"
  shows "opt_str (f_uuid x) \<notin> opt_str ` f_uuid ` set ys"
proof
  assume "opt_str (f_uuid x) \<in> opt_str ` f_uuid ` set ys"
  then obtain y where y: "y \<in> set ys" "opt_str (f_uuid x) = opt_str (f_uuid y)" by blast
  moreover have "opt_truthy (f_uuid x)" "opt_truthy (f_uuid y)" using assms(2) y by auto
  ultimately have "f_uuid x = f_uuid y" by (auto simp: opt_truthy_iff)
  then show False using assms(1) y by auto
qed

lemma walk_up_props:
  assumes "walk_up fs seen start = up" "\<forall>f. start = Some f \<longrightarrow> f \<in> set fs"
  shows "set up \<subseteq> set fs \<and> (\<forall>f \<in> set up. opt_truthy (f_uuid f))
    \<and> (\<forall>f \<in> set up. opt_str (f_uuid f) \<notin> seen) \<and> distinct (map f_uuid up)
    \<and> successively (\<lambda>b a. f_parent_uuid b = f_uuid a) up"
  using assms
proof (induction fs seen start arbitrary: up rule: walk_up.induct)
  case (2 fs seen f)
  let ?u = "opt_str (f_uuid f)"
  let ?next = "if opt_truthy (f_parent_uuid f) then uuid_to_frame fs (opt_str (f_parent_uuid f)) else None"
  show ?case
  proof (cases "opt_truthy (f_uuid f) \<and> ?u \<notin> seen")
    case True
    define rest where "rest = walk_up fs (insert ?u seen) ?next"
    have up: "up = f # rest" using 2(2) True by (simp add: rest_def)
    have nxt: "\<forall>g. ?next = Some g \<longrightarrow> g \<in> set fs \<and> f_parent_uuid f = f_uuid g"
      by (auto dest!: uuid_to_frame_Some simp: opt_truthy_iff split: if_splits)
    have IH: "set rest \<subseteq> set fs \<and> (\<forall>g \<in> set rest. opt_truthy (f_uuid g))
        \<and> (\<forall>g \<in> set rest. opt_str (f_uuid g) \<notin> insert ?u seen) \<and> distinct (map f_uuid rest)
        \<and> successively (\<lambda>b a. f_parent_uuid b = f_uuid a) rest"
      using 2(1)[OF True rest_def[symmetric]] nxt by blast
    have "successively (\<lambda>b a. f_parent_uuid b = f_uuid a) (f # rest)"
    proof (cases rest)
      case (Cons g gs)
      then have "?next = Some g" using walk_up_hd unfolding rest_def by blast
      then have "f_parent_uuid f = f_uuid g" using nxt by blast
      then show ?thesis using IH Cons by simp
    qed simp
    moreover have "f_uuid f \<notin> f_uuid ` set rest" using IH by force
    ultimately show ?thesis using IH True 2(3) unfolding up by auto
  next
    case False
    with 2(2) show ?thesis by auto
  qed
qed simp

declare walk_up.simps(2) [simp del]

lemma newest_leaf_in: "newest_leaf l ls \<in> set (l # ls)"
  by (induction l ls rule: newest_leaf.induct) (auto split: if_splits)

lemma newest_leaf_ge: "f_timestamp_ms l \<le> f_timestamp_ms (newest_leaf l ls)"
proof (induction l ls rule: newest_leaf.induct)
  case (2 best f fs)
  then show ?case by (cases "f_timestamp_ms best \<le> f_timestamp_ms f") simp_all
qed simp

lemma newest_leaf_max:
  "f \<in> set (l # ls) \<Longrightarrow> f_timestamp_ms f \<le> f_timestamp_ms (newest_leaf l ls)"
proof (induction l ls rule: newest_leaf.induct)
  case (2 best g gs)
  let ?b = "if f_timestamp_ms best \<le> f_timestamp_ms g then g else best"
  have ge: "f_timestamp_ms ?b \<le> f_timestamp_ms (newest_leaf ?b gs)" by (rule newest_leaf_ge)
  show ?case
  proof (cases "f \<in> set gs")
    case True
    then show ?thesis using "2.IH" by simp
  next
    case False
    with "2.prems" have "f_timestamp_ms f \<le> f_timestamp_ms ?b" by auto
    then show ?thesis using ge by simp
  qed
qed simp

text \<open>What the walk returns: the frames themselves where there are no links to follow, and
  otherwise a root-to-leaf chain ending in the newest leaf.\<close>

lemma walk_active_leaf_cases:
  assumes "walk_active_leaf fs = c"
  shows "c = fs \<or> (\<exists>l ls. leaf_frames fs = l # ls \<and> c = rev (walk_up fs {} (Some (newest_leaf l ls)))
            \<and> c \<noteq> [] \<and> last c = newest_leaf l ls)"
proof (cases "leaf_frames fs")
  case Nil
  with assms show ?thesis by (auto simp: walk_active_leaf_def)
next
  case (Cons l ls)
  let ?n = "newest_leaf l ls"
  have "?n \<in> set (leaf_frames fs)" using newest_leaf_in Cons by simp
  then have "opt_truthy (f_uuid ?n)" by (simp add: leaf_frames_def)
  then obtain r where r: "walk_up fs {} (Some ?n) = ?n # r" by (simp add: walk_up_enter)
  show ?thesis
  proof (cases "c = fs")
    case False
    with assms Cons r have "c = rev (walk_up fs {} (Some ?n))"
      by (auto simp: walk_active_leaf_def Let_def split: if_splits)
    with Cons r show ?thesis by simp
  qed simp
qed

lemma parent_uuids_mono: "set a \<subseteq> set b \<Longrightarrow> parent_uuids a \<subseteq> parent_uuids b"
  by (auto simp: parent_uuids_def)

lemma walk_chain_shaped:
  assumes "leaf_frames fs = l # ls" "c = rev (walk_up fs {} (Some (newest_leaf l ls)))"
    "c \<noteq> []" "last c = newest_leaf l ls"
  shows "chain_shaped c \<and> set c \<subseteq> set fs"
proof -
  let ?n = "newest_leaf l ls"
  have n: "?n \<in> set (leaf_frames fs)" using newest_leaf_in assms(1) by simp
  then have nfs: "?n \<in> set fs" and nl: "opt_str (f_uuid ?n) \<notin> parent_uuids fs"
    by (auto simp: leaf_frames_def)
  from walk_up_props[OF refl, of "Some ?n" fs "{}"] nfs
  have p: "set c \<subseteq> set fs" "\<forall>f \<in> set c. opt_truthy (f_uuid f)" "distinct (map f_uuid c)"
      "linked c"
    unfolding assms(2) linked_def by (auto simp: rev_map[symmetric])
  with nl parent_uuids_mono[OF p(1)] assms(4) show ?thesis by (auto simp: chain_shaped_def)
qed

text \<open>Walking a chain that already is one gives it back.\<close>

lemma uuid_to_frame_distinct:
  assumes "distinct (map f_uuid fs)" "f \<in> set fs" "f_uuid f = Some u" "u \<noteq> []"
  shows "uuid_to_frame fs u = Some f"
proof -
  have "uuid_to_frame fs u \<noteq> None" using assms uuid_to_frame_None by blast
  then obtain g where g: "uuid_to_frame fs u = Some g" by blast
  from uuid_to_frame_Some[OF g] assms have "g = f" by (metis distinct_map inj_onD)
  with g show ?thesis by simp
qed

lemma walk_up_chain:
  assumes "distinct (map f_uuid fs)" "\<forall>f \<in> set fs. opt_truthy (f_uuid f)" "linked fs"
    "fs = xs @ x # ys" "seen = opt_str ` f_uuid ` set ys"
  shows "walk_up fs seen (Some x) = x # rev xs"
  using assms(4,5)
proof (induction xs arbitrary: x ys seen rule: rev_induct)
  case Nil
  have x: "opt_truthy (f_uuid x)" "opt_str (f_uuid x) \<notin> seen"
    using assms(1,2) distinct_uuid_str[of "[]" x ys] Nil by simp_all
  let ?next = "if opt_truthy (f_parent_uuid x) then uuid_to_frame fs (opt_str (f_parent_uuid x)) else None"
  have "walk_up fs (insert (opt_str (f_uuid x)) seen) ?next = []"
  proof (cases ?next)
    case (Some g)
    then have "g \<in> set fs" by (auto dest: uuid_to_frame_Some split: if_splits)
    then have "opt_str (f_uuid g) \<in> insert (opt_str (f_uuid x)) seen" using Nil by auto
    then show ?thesis unfolding Some by (rule walk_up_seen)
  next
    case None
    then show ?thesis unfolding None by simp
  qed
  with x show ?case by (simp add: walk_up_enter)
next
  case (snoc w ws)
  have fs: "fs = ws @ w # (x # ys)" using snoc.prems by simp
  have link: "f_parent_uuid x = f_uuid w"
    using assms(3) unfolding fs linked_def by (simp add: successively_append_iff)
  have tw: "opt_truthy (f_uuid w)" using assms(2) fs by simp
  then obtain u where u: "f_uuid w = Some u" "u \<noteq> []" by (auto simp: opt_truthy_iff)
  have nxt: "uuid_to_frame fs u = Some w"
    using uuid_to_frame_distinct[OF assms(1) _ u] fs by simp
  have x: "opt_truthy (f_uuid x)" "opt_str (f_uuid x) \<notin> seen"
    using assms(1,2) distinct_uuid_str[of "ws @ [w]" x ys] snoc.prems by simp_all
  have "walk_up fs (insert (opt_str (f_uuid x)) seen) (Some w) = w # rev ws"
    by (rule snoc.IH[OF fs]) (simp add: snoc.prems(2))
  with x link u nxt show ?case by (simp add: walk_up_enter)
qed

lemma linked_non_last_is_parent:
  assumes "linked c" "\<forall>f \<in> set c. opt_truthy (f_uuid f)" "c = xs @ x # y # ys"
  shows "opt_str (f_uuid x) \<in> parent_uuids c"
proof -
  have "f_parent_uuid y = f_uuid x" "opt_truthy (f_uuid x)"
    using assms by (auto simp: linked_def successively_append_iff)
  then show ?thesis using assms(3) by (force simp: parent_uuids_def)
qed

lemma chain_shaped_leaf:
  assumes "chain_shaped c" "c \<noteq> []"
  shows "leaf_frames c = [last c]"
proof -
  obtain xs x where c: "c = xs @ [x]" using assms(2) by (cases c rule: rev_cases) auto
  have "opt_str (f_uuid y) \<in> parent_uuids c" if "y \<in> set xs" for y
  proof -
    from that obtain as bs where "xs = as @ y # bs" by (meson split_list)
    then obtain z zs where "c = as @ y # z # zs" unfolding c by (cases bs) auto
    then show ?thesis using linked_non_last_is_parent assms(1) by (auto simp: chain_shaped_def)
  qed
  then have "filter (\<lambda>f. opt_truthy (f_uuid f) \<and> opt_str (f_uuid f) \<notin> parent_uuids c) xs = []"
    by (auto simp: filter_empty_conv)
  then show ?thesis using assms c by (auto simp: leaf_frames_def chain_shaped_def)
qed

lemma walk_chain_fix:
  assumes "chain_shaped c"
  shows "walk_active_leaf c = c"
proof (cases c rule: rev_cases)
  case (snoc xs x)
  then have leaf: "leaf_frames c = [x]" using chain_shaped_leaf[OF assms] by simp
  have "walk_up c {} (Some x) = x # rev xs"
    using assms by (intro walk_up_chain) (auto simp: chain_shaped_def snoc)
  then have "rev (walk_up c {} (Some x)) = c" using snoc by simp
  then show ?thesis using leaf snoc by (simp add: walk_active_leaf_def)
qed (simp add: walk_active_leaf_def)

section \<open>Properties of the walk\<close>

text \<open>The active-leaf walk returns a root-to-leaf chain of stored frames.  Where the frames
  carry parent links and a leaf, the result is made of those frames, has distinct ids, every frame's
  parent is the frame before it, and it ends in a leaf whose timestamp no other leaf exceeds;
  without links or leaves the frames come back unchanged.\<close>

lemma walk_active_leaf_chain:
  "if leaf_frames fs = [] \<or> parent_uuids fs = {} then walk_active_leaf fs = fs
   else chain_shaped (walk_active_leaf fs) \<and> walk_active_leaf fs \<noteq> []
     \<and> set (walk_active_leaf fs) \<subseteq> set fs
     \<and> last (walk_active_leaf fs) \<in> set (leaf_frames fs)
     \<and> Max (f_timestamp_ms ` set (leaf_frames fs)) = f_timestamp_ms (last (walk_active_leaf fs))"
proof (cases "leaf_frames fs")
  case (Cons l ls)
  let ?n = "newest_leaf l ls"
  have n: "?n \<in> set (leaf_frames fs)" using newest_leaf_in Cons by simp
  then have t: "opt_truthy (f_uuid ?n)" and m: "?n \<in> set fs" by (auto simp: leaf_frames_def)
  show ?thesis
  proof (cases "parent_uuids fs = {}")
    case False
    have w: "walk_active_leaf fs = rev (walk_up fs {} (Some ?n))"
      using False m t Cons by (auto simp: walk_active_leaf_def Let_def walk_up_enter)
    obtain r where r: "walk_up fs {} (Some ?n) = ?n # r" using t by (simp add: walk_up_enter)
    have l: "walk_active_leaf fs \<noteq> []" "last (walk_active_leaf fs) = ?n" using w r by auto
    have "Max (f_timestamp_ms ` set (leaf_frames fs)) = f_timestamp_ms ?n"
      using n newest_leaf_max[of _ l ls] Cons by (intro Max_eqI) auto
    with False Cons l n walk_chain_shaped[OF Cons w l] show ?thesis by simp
  qed (auto simp: walk_active_leaf_def)
qed (auto simp: walk_active_leaf_def)

lemma not_leaf_fix: "leaf_frames fs = [] \<or> parent_uuids fs = {} \<Longrightarrow> walk_active_leaf fs = fs"
  by (auto simp: walk_active_leaf_def)

text \<open>Walking the active leaf of a walked chain changes nothing: resuming twice keeps the
  same transcript.\<close>

theorem walk_active_leaf_idem:
  "walk_active_leaf (walk_active_leaf fs) = walk_active_leaf fs"
  using walk_active_leaf_cases[OF refl, of fs] walk_chain_shaped walk_chain_fix by metis

section \<open>Appending frames\<close>

text \<open>A transcript built by giving each new frame the lineage of the one before it.\<close>

fun append_linked :: "frame option \<Rightarrow> string \<Rightarrow> (string \<times> frame) list \<Rightarrow> frame list" where
  "append_linked prev session [] = []"
| "append_linked prev session ((u, f) # ufs) =
    (let g = assign_lineage u f prev session in g # append_linked (Some g) session ufs)"

definition unlinked :: "frame \<Rightarrow> bool" where
  "unlinked f = (f_uuid f = None \<and> f_parent_uuid f = None)"

lemma assign_lineage_sel:
  "f_uuid (assign_lineage u f p s) = opt_or (f_uuid f) (Some u)"
  "f_session_id (assign_lineage u f p s) = opt_or (f_session_id f) (Some s)"
  "f_parent_uuid (assign_lineage u f p s) = (case f_parent_uuid f of
      Some q \<Rightarrow> Some q | None \<Rightarrow> (case p of None \<Rightarrow> None | Some q \<Rightarrow> f_uuid q))"
  "f_blocks (assign_lineage u f p s) = f_blocks f"
  "f_role (assign_lineage u f p s) = f_role f"
  "f_is_meta (assign_lineage u f p s) = f_is_meta f"
  "f_origin (assign_lineage u f p s) = f_origin f"
  by (simp_all add: assign_lineage_def Let_def)

lemma append_linked_uuids:
  "\<forall>(u, f) \<in> set ufs. unlinked f \<Longrightarrow> map f_uuid (append_linked p s ufs) = map (Some \<circ> fst) ufs"
  by (induction p s ufs rule: append_linked.induct)
     (auto simp: Let_def unlinked_def assign_lineage_sel)

lemma append_linked_parents:
  assumes "\<forall>(u, f) \<in> set ufs. unlinked f"
  shows "linked (append_linked p s ufs)
    \<and> (ufs \<noteq> [] \<longrightarrow> f_parent_uuid (hd (append_linked p s ufs)) = (case p of None \<Rightarrow> None | Some q \<Rightarrow> f_uuid q))"
  using assms
proof (induction p s ufs rule: append_linked.induct)
  case (2 p s u f ufs)
  let ?g = "assign_lineage u f p s"
  have IH: "linked (append_linked (Some ?g) s ufs)"
    "ufs \<noteq> [] \<longrightarrow> f_parent_uuid (hd (append_linked (Some ?g) s ufs)) = f_uuid ?g"
    using 2 by (simp_all add: Let_def)
  have hd: "f_parent_uuid ?g = (case p of None \<Rightarrow> None | Some q \<Rightarrow> f_uuid q)"
    using 2(2) by (simp add: unlinked_def assign_lineage_sel)
  have "append_linked (Some ?g) s ufs = [] \<longleftrightarrow> ufs = []" by (cases ufs) (auto simp: Let_def)
  with IH hd show ?case by (auto simp: Let_def linked_def successively_Cons)
qed (simp add: linked_def)

lemma parent_uuids_linked:
  assumes "linked c" "c \<noteq> []" "f_parent_uuid (hd c) = None"
  shows "parent_uuids c \<subseteq> set (map (opt_str \<circ> f_uuid) (butlast c))"
  using assms
proof (induction c rule: rev_induct)
  case (snoc x xs)
  show ?case
  proof (cases "xs = []")
    case False
    then have l: "linked xs" "f_parent_uuid x = f_uuid (last xs)"
      using snoc.prems(1) by (auto simp: linked_def successively_append_iff)
    have h: "f_parent_uuid (hd xs) = None" using snoc.prems(3) False by simp
    have p: "parent_uuids (xs @ [x]) \<subseteq> parent_uuids xs \<union> {opt_str (f_uuid (last xs))}"
      using l(2) by (auto simp: parent_uuids_def)
    have b: "set (butlast xs) \<subseteq> set xs" by (meson in_set_butlastD subsetI)
    show ?thesis using p snoc.IH[OF l(1) False h] b False by (auto simp: image_iff dest!: subsetD)
  qed (use snoc.prems in \<open>simp add: parent_uuids_def\<close>)
qed simp

lemma indexes_where_Nil: "(\<And>i. i < length fs \<Longrightarrow> \<not> P i (fs ! i)) \<Longrightarrow> indexes_where P fs = []"
  by (auto simp: indexes_where_def filter_empty_conv in_set_zip)

lemma append_linked_length [simp]: "length (append_linked p s ufs) = length ufs"
  by (induction p s ufs rule: append_linked.induct) (auto simp: Let_def)

lemma append_linked_session:
  "s \<noteq> [] \<Longrightarrow> f \<in> set (append_linked p s ufs) \<Longrightarrow> opt_truthy (f_session_id f)"
  by (induction p s ufs rule: append_linked.induct)
     (auto simp: Let_def assign_lineage_sel opt_or_def)

lemma linked_nth: "linked c \<Longrightarrow> Suc i < length c \<Longrightarrow> f_parent_uuid (c ! Suc i) = f_uuid (c ! i)"
  by (simp add: linked_def successively_conv_nth)

text \<open>A transcript of appended frames is one chain from its first frame to its last.\<close>

lemma append_linked_shaped:
  assumes "\<forall>(u, f) \<in> set ufs. unlinked f" "distinct (map fst ufs)" "[] \<notin> set (map fst ufs)"
  shows "chain_shaped (append_linked None s ufs)"
proof -
  let ?c = "append_linked None s ufs"
  have u: "map f_uuid ?c = map (Some \<circ> fst) ufs" by (rule append_linked_uuids[OF assms(1)])
  have d: "distinct (map f_uuid ?c)" unfolding u using assms(2)
    by (simp add: distinct_map inj_on_def)
  have t: "opt_truthy (f_uuid f)" if "f \<in> set ?c" for f
  proof -
    from that have "f_uuid f \<in> set (map f_uuid ?c)" by simp
    then obtain p where "p \<in> set ufs" "f_uuid f = Some (fst p)" unfolding u by auto
    then show ?thesis using assms(3) by force
  qed
  note l = append_linked_parents[OF assms(1), of None s]
  have "opt_str (f_uuid (last ?c)) \<notin> parent_uuids ?c" if ne: "?c \<noteq> []"
  proof -
    obtain xs x where c: "?c = xs @ [x]" using ne by (cases ?c rule: rev_cases) auto
    have "ufs \<noteq> []" using ne by auto
    then have sub: "parent_uuids ?c \<subseteq> set (map (opt_str \<circ> f_uuid) (butlast ?c))"
      using parent_uuids_linked l ne by auto
    have tx: "opt_truthy (f_uuid x)" using t c by simp
    have "opt_str (f_uuid x) \<notin> set (map (opt_str \<circ> f_uuid) xs)"
    proof
      assume "opt_str (f_uuid x) \<in> set (map (opt_str \<circ> f_uuid) xs)"
      then obtain y where y: "y \<in> set xs" "opt_str (f_uuid x) = opt_str (f_uuid y)" by auto
      have "opt_truthy (f_uuid y)" using t y c by simp
      with tx y(2) have "f_uuid x = f_uuid y" by (auto simp: opt_truthy_iff)
      with d c y show False by auto
    qed
    then show ?thesis using sub c by auto
  qed
  with d t l show ?thesis by (auto simp: chain_shaped_def)
qed

text \<open>A transcript built by appending frames, each given the lineage of the one before it
  with a fresh id, is read back whole and in order by the active-leaf walk, and its lineage
  report is clean: no missing id, session or parent, and no orphan parent.\<close>

lemma append_linked_roundtrip:
  assumes "\<forall>(u, f) \<in> set ufs. unlinked f" "distinct (map fst ufs)" "[] \<notin> set (map fst ufs)"
    and "s \<noteq> []"
  shows "walk_active_leaf (append_linked None s ufs) = append_linked None s ufs
    \<and> lineage_ok (validate_lineage (append_linked None s ufs))"
proof
  let ?c = "append_linked None s ufs"
  have sh: "chain_shaped ?c" by (rule append_linked_shaped[OF assms(1,2,3)])
  then show "walk_active_leaf ?c = ?c" by (rule walk_chain_fix)
  have t: "opt_truthy (f_uuid f)" if "f \<in> set ?c" for f using sh that by (simp add: chain_shaped_def)
  have l: "linked ?c" using sh by (simp add: chain_shaped_def)
  have par: "opt_truthy (f_parent_uuid (?c ! i))" if "i < length ?c" "0 < i" for i
    using that linked_nth[OF l, of "i - 1"] t[of "?c ! (i - 1)"] by simp
  have hd0: "f_parent_uuid (hd ?c) = None" if "ufs \<noteq> []"
    using append_linked_parents[OF assms(1), of None s] that by simp
  have sub: "parent_uuids ?c \<subseteq> set (map (opt_str \<circ> f_uuid) (butlast ?c))"
  proof (cases "ufs = []")
    case False
    then have "?c \<noteq> []" by (metis append_linked_length length_0_conv)
    then show ?thesis using parent_uuids_linked[OF l] hd0[OF False] by blast
  qed (simp add: parent_uuids_def)
  have res: "uuid_to_frame ?c p \<noteq> None" if "p \<in> parent_uuids ?c" for p
  proof -
    from that sub obtain f where f: "f \<in> set ?c" "p = opt_str (f_uuid f)"
      by (auto dest: in_set_butlastD)
    with t[OF f(1)] have "f_uuid f = Some p" "p \<noteq> []" by (auto simp: opt_truthy_iff)
    with f(1) show ?thesis by (auto simp: uuid_to_frame_None)
  qed
  have orph: "filter (\<lambda>p. uuid_to_frame ?c p = None)
      (map opt_str (filter opt_truthy (map f_parent_uuid ?c))) = []"
    using res unfolding filter_empty_conv parent_uuids_def by blast
  have m: "lr_missing_uuid (validate_lineage ?c) = []"
    "lr_missing_session_id (validate_lineage ?c) = []"
    "lr_missing_parent_uuid (validate_lineage ?c) = []"
  proof -
    show "lr_missing_uuid (validate_lineage ?c) = []"
      unfolding validate_lineage_def Let_def lineage_report.simps
      using t by (intro indexes_where_Nil) (meson nth_mem)
    show "lr_missing_session_id (validate_lineage ?c) = []"
      unfolding validate_lineage_def Let_def lineage_report.simps
      using append_linked_session[OF assms(4)] by (intro indexes_where_Nil) (meson nth_mem)
    show "lr_missing_parent_uuid (validate_lineage ?c) = []"
      unfolding validate_lineage_def Let_def lineage_report.simps
      using par by (intro indexes_where_Nil) blast
  qed
  have "lr_orphan_parents (validate_lineage ?c) = []"
    by (simp add: validate_lineage_def Let_def orph)
  with m show "lineage_ok (validate_lineage ?c)" by (simp add: lineage_ok_def)
qed

definition ex_text :: "string \<Rightarrow> frame" where
  "ex_text s = new_frame USER_INPUT USER [TextBlock s]"

theorem append_linked_roundtrip_witness:
  "walk_active_leaf (append_linked None ''s'' [(''u1'', ex_text ''hi''), (''u2'', ex_text ''ok'')])
     = append_linked None ''s'' [(''u1'', ex_text ''hi''), (''u2'', ex_text ''ok'')]"
proof -
  have h: "\<forall>(u, f) \<in> set [(''u1'', ex_text ''hi''), (''u2'', ex_text ''ok'')]. unlinked f"
    by (simp add: unlinked_def ex_text_def new_frame_def)
  show ?thesis using h append_linked_roundtrip[OF h, of "''s''"] by simp
qed

section \<open>Recovered siblings\<close>

lemma take_siblings_props:
  "take_siblings issued have cs = (sibs, have') \<Longrightarrow>
    subseq sibs cs \<and> have \<subseteq> have' \<and> have' \<subseteq> have \<union> issued
    \<and> (\<forall>s \<in> set sibs. set (block_result_ids (f_blocks s)) \<inter> issued - have \<noteq> {})"
proof (induction issued "have" cs arbitrary: sibs have' rule: take_siblings.induct)
  case (2 issued hv s ss)
  let ?new = "(set (block_result_ids (f_blocks s)) \<inter> issued) - hv"
  show ?case
  proof (cases "?new = {}")
    case True
    with 2 show ?thesis by (auto simp: Let_def)
  next
    case False
    obtain r hv' where r: "take_siblings issued (hv \<union> ?new) ss = (r, hv')" by fastforce
    have e: "sibs = s # r" "have' = hv'" using "2.prems" r False by (auto simp: Let_def)
    have I: "subseq r ss \<and> hv \<union> ?new \<subseteq> hv' \<and> hv' \<subseteq> hv \<union> ?new \<union> issued
      \<and> (\<forall>s \<in> set r. set (block_result_ids (f_blocks s)) \<inter> issued - (hv \<union> ?new) \<noteq> {})"
      using "2.IH"(2)[OF refl False r] .
    have "hv' \<subseteq> hv \<union> issued" "hv \<subseteq> hv'" using I by blast+
    moreover have "\<forall>x \<in> set r. set (block_result_ids (f_blocks x)) \<inter> issued - hv \<noteq> {}" using I by blast
    ultimately show ?thesis unfolding e using I False by simp
  qed
qed auto

text \<open>An inserted frame comes right after frames of its own assistant turn: it names that turn as
  its source and answers one of its calls.\<close>

definition answers :: "frame list \<Rightarrow> frame list \<Rightarrow> frame \<Rightarrow> bool" where
  "answers fs c s = (s \<in> set fs \<and> (\<exists>f \<in> set c. opt_truthy (f_uuid f)
     \<and> f_source_tool_assistant_uuid s = f_uuid f
     \<and> set (block_result_ids (f_blocks s)) \<inter> set (block_use_ids (f_blocks f)) \<noteq> {}))"

lemma recover_loop_props:
  "subseq c (recover_loop active fs hv c)
   \<and> (\<forall>s \<in> set (recover_loop active fs hv c). s \<in> set c \<or> (is_orphan_sibling active s \<and> answers fs c s))"
proof (induction c arbitrary: hv)
  case (Cons f c)
  let ?cand = "if opt_truthy (f_uuid f) then orphans_of active fs (opt_str (f_uuid f)) else []"
  let ?iss = "set (block_use_ids (f_blocks f))"
  obtain sibs hv' where st:
    "(if ?cand = [] \<or> ?iss = {} then ([], hv) else take_siblings ?iss hv ?cand) = (sibs, hv')"
    by fastforce
  have sibs: "set sibs \<subseteq> set ?cand \<and> (\<forall>s \<in> set sibs. set (block_result_ids (f_blocks s)) \<inter> ?iss \<noteq> {})"
  proof (cases "?cand = [] \<or> ?iss = {}")
    case True
    with st show ?thesis by auto
  next
    case False
    with st have "take_siblings ?iss hv ?cand = (sibs, hv')" by simp
    from take_siblings_props[OF this] show ?thesis by (blast dest: list_emb_set)
  qed
  have rl: "recover_loop active fs hv (f # c) = f # sibs @ recover_loop active fs hv' c"
    using st by (simp add: Let_def)
  have s: "is_orphan_sibling active s \<and> answers fs (f # c) s" if "s \<in> set sibs" for s
  proof -
    have "s \<in> set ?cand" and i: "set (block_result_ids (f_blocks s)) \<inter> ?iss \<noteq> {}" using sibs that by auto
    then show ?thesis
      by (auto simp: answers_def orphans_of_def opt_truthy_iff split: if_splits)
  qed
  have m: "answers fs (f # c) s" if "answers fs c s" for s using that by (auto simp: answers_def)
  have "subseq c (sibs @ recover_loop active fs hv' c)"
    using Cons.IH[of hv'] by (meson list_emb_append2)
  then show ?case unfolding rl using Cons.IH[of hv'] s m by (auto simp del: recover_loop.simps)
qed simp

text \<open>Recovering parallel tool results only adds frames: the active chain stays, in order, and
  every added frame is a stored tool result outside the chain that names an assistant frame of the
  chain as its source and answers one of that frame's calls.\<close>

lemma recover_parallel_adds_answers:
  "subseq active (recover_orphaned_parallel_tool_results fs active)
   \<and> (\<forall>s \<in> set (recover_orphaned_parallel_tool_results fs active).
        s \<in> set active \<or> (is_orphan_sibling (frame_uuids active) s \<and> answers fs active s))"
  using recover_loop_props by (auto simp: recover_orphaned_parallel_tool_results_def)

definition ex_call :: frame where
  "ex_call = (new_frame TOOL_USE ASSISTANT [ToolUseBlock ''a'' ''t'' PyNone])\<lparr>f_uuid := Some ''u1''\<rparr>"

definition ex_sibling :: frame where
  "ex_sibling = (new_frame TOOL_RESULT TOOL [ToolResultBlock ''a'' ''t'' ''ok'' False])
     \<lparr>f_uuid := Some ''u2'', f_source_tool_assistant_uuid := Some ''u1''\<rparr>"

lemma recover_parallel_adds_answers_witness:
  "is_orphan_sibling (frame_uuids [ex_call]) ex_sibling \<and> answers [ex_call, ex_sibling] [ex_call] ex_sibling"
proof -
  have "recover_orphaned_parallel_tool_results [ex_call, ex_sibling] [ex_call] = [ex_call, ex_sibling]"
    by code_simp
  moreover have "ex_sibling \<notin> set [ex_call]" by code_simp
  ultimately show ?thesis
    using recover_parallel_adds_answers[of "[ex_call]" "[ex_call, ex_sibling]"] by simp
qed

end
