(* ===== verification/Typed_Compaction.thy ===== *)
theory Typed_Compaction
  imports Frame_Invariants
begin

text \<open>
  Compaction of a frame chain (\<open>services/conversation/typed_compaction.py\<close>): the selection of
  the frames to keep, the closure over tool pairs, the replacement of oversized tool results, the
  boundary and summary frames, and the two entry points.  \<open>uuid.uuid4()\<close> is the argument
  \<open>fresh\<close> (\<open>fresh i\<close> for the frame at index \<open>i\<close>, the next two for the boundary and the
  summary), \<open>time.time()\<close> is \<open>now\<close> in milliseconds.  The float product of
  \<open>_select_keep_indexes\<close>, \<open>int(max(1, token_budget) * max(0.05, keep_token_ratio))\<close>, is the
  field \<open>cq_keep_tokens\<close> of the request.
\<close>

section \<open>Requests and results\<close>

definition DEFAULT_MIN_KEEP_FRAMES :: int where
  "DEFAULT_MIN_KEEP_FRAMES = 6"

definition DEFAULT_TOOL_RESULT_CHAR_BUDGET :: int where
  "DEFAULT_TOOL_RESULT_CHAR_BUDGET = 1200"

definition TOKEN_CHAR_RATIO :: nat where
  "TOKEN_CHAR_RATIO = 4"

definition COMPACT_BOUNDARY_ORIGINS :: "string list" where
  "COMPACT_BOUNDARY_ORIGINS = [''compact_boundary'', ''microcompact_boundary'']"

definition ACTIVE_REQUEST_FRAME_ORIGIN :: string where
  "ACTIVE_REQUEST_FRAME_ORIGIN = ''active_task_request''"

definition PROTECTED_META_ORIGIN_MARKERS :: "string list" where
  "PROTECTED_META_ORIGIN_MARKERS = [''gate'', ''permission'', ''tool_reference'', ''hook'', ''subagent'',
     ''task_notification'', ''stop'']"

record compaction_request =
  cq_chain :: "frame list option"
  cq_token_budget :: int
  cq_reason :: string
  cq_provider :: "string option"
  cq_summary_text :: "string option"
  cq_token_counter :: "(string \<Rightarrow> int) option"
  cq_min_keep_frames :: int
  cq_keep_tokens :: int
  cq_force :: bool
  cq_tool_result_char_budget :: int

record compaction_result =
  cp_summary_frame :: frame
  cp_kept_frames :: "frame list"
  cp_dropped_frame_uuids :: "string list"
  cp_token_before :: int
  cp_token_after :: int
  cp_reason :: string
  cp_boundary_frame :: frame
  cp_dropped_frames :: "frame list"
  cp_compacted :: bool
  cp_microcompacted_frame_uuids :: "string list"
  cp_replacement_refs :: "string list"

text \<open>The property \<open>frames\<close>: the chain to go on with.\<close>

definition compaction_frames :: "compaction_result \<Rightarrow> frame list" where
  "compaction_frames r = (if \<not> cp_compacted r then cp_kept_frames r
     else cp_boundary_frame r # cp_summary_frame r # cp_kept_frames r)"

text \<open>\<open>list(extra.get("compacted_tool_result_refs", []))\<close> of a value that is not iterable: a
  \<open>TypeError\<close>.\<close>

datatype compaction_error = RefsNotIterable

section \<open>Tokens\<close>

fun token_text :: "content_block \<Rightarrow> string" where
  "token_text (TextBlock t) = t"
| "token_text (SystemReminderBlock t _) = t"
| "token_text (ToolResultBlock _ _ content _) = content"
| "token_text (ToolUseBlock _ name args) = name @ '' '' @ py_str args"

definition compaction_frame_text :: "frame \<Rightarrow> string" where
  "compaction_frame_text f = join_with newline (filter (\<lambda>p. p \<noteq> []) (map token_text (f_blocks f)))"

definition count_text_tokens :: "(string \<Rightarrow> int) option \<Rightarrow> string \<Rightarrow> int" where
  "count_text_tokens counter text = (if text = [] then 0
     else (case counter of
         Some counter_fn \<Rightarrow> max 1 (counter_fn text)
       | None \<Rightarrow> max 1 (int (length text div TOKEN_CHAR_RATIO))))"

definition count_frame_tokens :: "(string \<Rightarrow> int) option \<Rightarrow> frame list \<Rightarrow> int" where
  "count_frame_tokens counter fs =
     sum_list (map (\<lambda>f. count_text_tokens counter (compaction_frame_text f)) fs)"

section \<open>Frames\<close>

definition frame_id :: "frame \<Rightarrow> string" where
  "frame_id f = opt_str (f_uuid f)"

definition ensure_uuid :: "string \<Rightarrow> frame \<Rightarrow> frame" where
  "ensure_uuid fresh f = (if opt_truthy (f_uuid f) then f else f\<lparr>f_uuid := Some fresh\<rparr>)"

text \<open>\<open>tuple(_ensure_uuid(frame) for frame in frames)\<close>\<close>

definition ensure_uuids :: "(nat \<Rightarrow> string) \<Rightarrow> frame list \<Rightarrow> frame list" where
  "ensure_uuids fresh fs = map (\<lambda>(i, f). ensure_uuid (fresh i) f) (zip [0..<length fs] fs)"

definition chain_session_id :: "frame list \<Rightarrow> string option" where
  "chain_session_id fs = (case List.find (\<lambda>f. opt_truthy (f_session_id f)) (rev fs) of
      None \<Rightarrow> None | Some f \<Rightarrow> f_session_id f)"

definition coerce_chain_frames :: "frame list option \<Rightarrow> frame list" where
  "coerce_chain_frames chain = (case chain of None \<Rightarrow> [] | Some fs \<Rightarrow> fs)"

definition is_compact_boundary_artifact :: "frame \<Rightarrow> bool" where
  "is_compact_boundary_artifact f = (opt_str (f_origin f) \<in> set COMPACT_BOUNDARY_ORIGINS)"

text \<open>The loop keeps the suffix that starts at the last boundary seen.\<close>

fun project_loop :: "frame list option \<Rightarrow> frame list \<Rightarrow> frame list option" where
  "project_loop found [] = found"
| "project_loop found (f # fs) =
     project_loop (if is_compact_boundary_artifact f then Some (f # fs) else found) fs"

definition project_after_last_compact_boundary :: "frame list \<Rightarrow> frame list" where
  "project_after_last_compact_boundary fs = (case project_loop None fs of None \<Rightarrow> fs | Some gs \<Rightarrow> gs)"

section \<open>Boundary and summary\<close>

abbreviation str_list :: "string list \<Rightarrow> pyval" where
  "str_list xs \<equiv> PyList (map PyStr xs)"

definition is_microcompact_boundary :: "string \<Rightarrow> frame list \<Rightarrow> string list \<Rightarrow> bool" where
  "is_microcompact_boundary reason dropped micro_ids =
    (reason = ''microcompact'' \<or> (length dropped = 0 \<and> micro_ids \<noteq> []))"

definition compact_metadata ::
    "string \<Rightarrow> string \<Rightarrow> string \<Rightarrow> int \<Rightarrow> int \<Rightarrow> frame list \<Rightarrow> frame list \<Rightarrow> string option \<Rightarrow>
     string list \<Rightarrow> string list \<Rightarrow> pydict" where
  "compact_metadata uid reason trigger before budget dropped kept provider micro_ids refs =
     [(''reason'', PyStr reason), (''trigger'', PyStr trigger), (''pre_tokens'', PyInt before),
      (''token_budget'', PyInt budget), (''messages_summarized'', PyInt (int (length dropped))),
      (''dropped_frame_uuids'', str_list (map frame_id dropped)),
      (''kept_frame_uuids'', str_list (map frame_id kept)),
      (''microcompacted_frame_uuids'', str_list micro_ids),
      (''replacement_refs'', str_list refs), (''provider'', opt_val provider)]
     @ (if kept \<noteq> [] then [(''preserved_segment'', PyDict [(''head_uuid'', PyStr (frame_id (hd kept))),
          (''anchor_uuid'', PyStr uid), (''tail_uuid'', PyStr (frame_id (last kept)))])] else [])"

definition microcompact_metadata :: "string \<Rightarrow> int \<Rightarrow> int option \<Rightarrow> string list \<Rightarrow> string list \<Rightarrow> pydict" where
  "microcompact_metadata trigger before saved micro_ids cleared =
     [(''trigger'', PyStr trigger), (''pre_tokens'', PyInt before),
      (''tokens_saved'', PyInt (case saved of None \<Rightarrow> 0 | Some n \<Rightarrow> n)),
      (''compacted_tool_ids'', str_list micro_ids), (''cleared_attachment_uuids'', str_list cleared)]"

definition build_compact_boundary_frame ::
    "string \<Rightarrow> int \<Rightarrow> string \<Rightarrow> int \<Rightarrow> int \<Rightarrow> frame list \<Rightarrow> frame list \<Rightarrow> string option \<Rightarrow>
     string option \<Rightarrow> string list \<Rightarrow> string list \<Rightarrow> string \<Rightarrow> int option \<Rightarrow> string list \<Rightarrow> frame" where
  "build_compact_boundary_frame uid now reason before budget dropped kept provider last_uuid
       micro_ids refs trigger saved cleared = (let
     micro = is_microcompact_boundary reason dropped micro_ids;
     subtype = (if micro then ''microcompact_boundary'' else ''compact_boundary'');
     content = (if micro then ''Context microcompacted'' else ''Conversation compacted'');
     meta = PyDict (compact_metadata uid reason trigger before budget dropped kept provider micro_ids refs)
     in (new_frame SYSTEM_REMINDER SYSTEM [TextBlock content])
        \<lparr>f_is_meta := True, f_origin := Some subtype, f_timestamp_ms := now, f_schema_version := 1,
         f_extra := [(''subtype'', PyStr subtype), (''compact_metadata'', meta), (''compactMetadata'', meta)]
           @ (if micro then [(''microcompact_metadata'',
                PyDict (microcompact_metadata trigger before saved micro_ids cleared))] else []),
         f_uuid := Some uid, f_logical_parent_uuid := last_uuid,
         f_session_id := chain_session_id (dropped @ kept)\<rparr>)"

definition build_compact_summary_frame ::
    "string \<Rightarrow> string option \<Rightarrow> string \<Rightarrow> frame list \<Rightarrow> int \<Rightarrow> string option \<Rightarrow> string option \<Rightarrow>
     string option \<Rightarrow> string list \<Rightarrow> frame" where
  "build_compact_summary_frame uid summary reason dropped before provider parent session refs = (let
     stripped = py_strip (opt_str summary);
     text = (if stripped = [] then ''Earlier conversation was compacted; continue from the preserved frames below.''
             else stripped)
     in (new_frame USER_INPUT USER [TextBlock text])
        \<lparr>f_is_compact_summary := True, f_origin := Some ''compact'', f_timestamp_ms := 0,
         f_schema_version := 1,
         f_extra := [(''compact_summary'', PyDict
           [(''reason'', PyStr reason), (''pre_tokens'', PyInt before),
            (''messages_summarized'', PyInt (int (length dropped))),
            (''dropped_frame_uuids'', str_list (map frame_id dropped)),
            (''replacement_refs'', str_list refs), (''provider'', opt_val provider)])],
         f_uuid := Some uid, f_parent_uuid := parent, f_logical_parent_uuid := parent,
         f_session_id := session\<rparr>)"

text \<open>\<open>frames[-1].uuid if frames else None\<close>\<close>

definition last_uuid :: "frame list \<Rightarrow> string option" where
  "last_uuid fs = (if fs = [] then None else f_uuid (last fs))"

definition no_compaction_result ::
    "(nat \<Rightarrow> string) \<Rightarrow> int \<Rightarrow> frame list \<Rightarrow> int \<Rightarrow> compaction_request \<Rightarrow> compaction_result" where
  "no_compaction_result fresh now fs before q = (let
     boundary = build_compact_boundary_frame (fresh (length fs)) now (cq_reason q) before
       (max 1 (cq_token_budget q)) [] fs (cq_provider q) (last_uuid fs) [] [] ''auto'' None [];
     summary = build_compact_summary_frame (fresh (Suc (length fs))) (cq_summary_text q) (cq_reason q) [] before
       (cq_provider q) (f_uuid boundary) (chain_session_id fs) []
     in \<lparr>cp_summary_frame = summary, cp_kept_frames = fs, cp_dropped_frame_uuids = [],
         cp_token_before = before, cp_token_after = before, cp_reason = cq_reason q,
         cp_boundary_frame = boundary, cp_dropped_frames = [], cp_compacted = False,
         cp_microcompacted_frame_uuids = [], cp_replacement_refs = []\<rparr>)"

section \<open>Frames that must survive\<close>

fun contains_tool_reference :: "pyval \<Rightarrow> bool" where
  "contains_tool_reference (PyDict d) =
    list_ex id (map (\<lambda>(k, v). str_contains ''tool_reference'' (py_lower k) \<or> contains_tool_reference v) d)"
| "contains_tool_reference (PyList xs) = list_ex id (map contains_tool_reference xs)"
| "contains_tool_reference (PyStr s) = str_contains ''tool_reference'' (py_lower s)"
| "contains_tool_reference _ = False"

definition must_survive_compaction :: "frame \<Rightarrow> bool" where
  "must_survive_compaction f =
    (if is_compact_boundary_artifact f then False
     else if f_origin f = Some ACTIVE_REQUEST_FRAME_ORIGIN then True
     else if \<not> f_is_meta f then False
     else if list_ex (\<lambda>marker. str_contains marker (py_lower (opt_str (f_origin f)))) PROTECTED_META_ORIGIN_MARKERS
     then True
     else if opt_truthy (f_task_id f) \<or> opt_truthy (f_permission_mode f) then True
     else contains_tool_reference (PyDict (f_extra f)))"

text \<open>The ids in the order in which Python adds them to its set.\<close>

definition compaction_tool_ids :: "frame \<Rightarrow> string list" where
  "compaction_tool_ids f = (if opt_truthy (f_tool_use_id f) then [opt_str (f_tool_use_id f)] else [])
     @ filter (\<lambda>i. i \<noteq> []) (map block_tool_id (filter (\<lambda>b. is_tool_use b \<or> is_tool_result b) (f_blocks f)))"

section \<open>Selection\<close>

definition protected_indexes :: "frame list \<Rightarrow> nat set" where
  "protected_indexes fs = set (filter (\<lambda>i. must_survive_compaction (fs ! i)) [0..<length fs])"

text \<open>The loop over the frames from the last to the first: \<open>k\<close> is the number of frames left.\<close>

fun select_loop ::
    "compaction_request \<Rightarrow> frame list \<Rightarrow> int \<Rightarrow> int \<Rightarrow> int \<Rightarrow> nat \<Rightarrow> nat set \<Rightarrow> int \<Rightarrow> nat set" where
  "select_loop q fs before target min_keep 0 keep selected = keep"
| "select_loop q fs before target min_keep (Suc idx) keep selected =
    (if idx \<in> keep then select_loop q fs before target min_keep idx keep selected
     else if int (card keep) \<ge> min_keep \<and> selected \<ge> target \<and> before > cq_token_budget q then keep
     else select_loop q fs before target min_keep idx (insert idx keep)
            (selected + count_frame_tokens (cq_token_counter q) [fs ! idx]))"

text \<open>The last resort when everything is kept: drop the first frame that may go.\<close>

definition drop_one :: "frame list \<Rightarrow> nat set \<Rightarrow> nat set \<Rightarrow> nat set" where
  "drop_one fs protected keep =
    (case List.find (\<lambda>i. i \<notin> protected \<and> compaction_tool_ids (fs ! i) = []) [0..<length fs] of
       None \<Rightarrow> keep
     | Some i \<Rightarrow> keep - {i})"

definition select_keep_indexes :: "compaction_request \<Rightarrow> frame list \<Rightarrow> int \<Rightarrow> nat set" where
  "select_keep_indexes q fs before = (let
     protected = protected_indexes fs;
     target = max 1 (cq_keep_tokens q);
     min_keep = max 0 (min (cq_min_keep_frames q) (int (length fs)));
     selected = sum_list (map (\<lambda>i. count_frame_tokens (cq_token_counter q) [fs ! i])
                  (filter (\<lambda>i. i \<in> protected) [0..<length fs]));
     keep = select_loop q fs before target min_keep (length fs) protected selected
     in if card keep = length fs \<and> int (length fs) > min_keep then drop_one fs protected keep else keep)"

section \<open>Tool pairs\<close>

text \<open>The values of \<open>by_tool_id\<close>: for every id the indexes of the frames that carry it.  Python's
  sets of indexes are lists here, without repetition and in increasing order.\<close>

definition tool_groups :: "frame list \<Rightarrow> nat list list" where
  "tool_groups fs = map (\<lambda>t. filter (\<lambda>i. t \<in> set (compaction_tool_ids (fs ! i))) [0..<length fs])
     (rev (remdups (rev (concat (map compaction_tool_ids fs)))))"

text \<open>One round of the \<open>while\<close> loop: the expanded set and \<open>changed\<close>.\<close>

fun expand_round :: "nat list list \<Rightarrow> nat set \<Rightarrow> bool \<Rightarrow> nat set \<times> bool" where
  "expand_round [] expanded changed = (expanded, changed)"
| "expand_round (g # gs) expanded changed =
    (if set g \<inter> expanded \<noteq> {} \<and> \<not> set g \<subseteq> expanded then expand_round gs (expanded \<union> set g) True
     else expand_round gs expanded changed)"

text \<open>What a round does, needed for the termination of the loop.\<close>

definition group_indexes :: "nat list list \<Rightarrow> nat set" where
  "group_indexes gs = set (concat gs)"

lemma expand_round_mono: "expanded \<subseteq> fst (expand_round gs expanded changed)"
  by (induction gs expanded changed rule: expand_round.induct) auto

lemma expand_round_within: "fst (expand_round gs expanded changed) \<subseteq> expanded \<union> group_indexes gs"
  by (induction gs expanded changed rule: expand_round.induct) (auto simp: group_indexes_def)

lemma expand_round_changed:
  "snd (expand_round gs expanded changed) \<longleftrightarrow> changed \<or> fst (expand_round gs expanded changed) \<noteq> expanded"
proof (induction gs expanded changed rule: expand_round.induct)
  case (2 g gs expanded changed)
  show ?case
  proof (cases "set g \<inter> expanded \<noteq> {} \<and> \<not> set g \<subseteq> expanded")
    case True
    have "expanded \<union> set g \<subseteq> fst (expand_round gs (expanded \<union> set g) True)" by (rule expand_round_mono)
    with True "2.IH"(1)[OF True] show ?thesis by auto
  next
    case False
    with "2.IH"(2)[OF False] show ?thesis by auto
  qed
qed simp

function expand_loop :: "nat list list \<Rightarrow> nat set \<Rightarrow> nat set" where
  "expand_loop gs expanded = (let (expanded', changed) = expand_round gs expanded False
     in if changed then expand_loop gs expanded' else expanded')"
  by pat_completeness auto

text \<open>Every round but the last adds an index of some group.\<close>

termination expand_loop
proof (relation "measure (\<lambda>(gs, expanded). card (group_indexes gs - expanded))")
  fix gs :: "nat list list" and expanded :: "nat set" and r expanded' changed
  assume r: "r = expand_round gs expanded False" "(expanded', changed) = r" "changed"
  then have r1: "fst r = expanded'" "snd r" by (metis fst_conv, metis snd_conv)
  with r(1) expand_round_changed have "expanded' \<noteq> expanded" by auto
  with r(1) r1 expand_round_mono[of expanded gs False] expand_round_within[of gs expanded False]
  have "group_indexes gs - expanded' \<subset> group_indexes gs - expanded" by auto
  moreover have "finite (group_indexes gs - expanded)" by (simp add: group_indexes_def)
  ultimately have "card (group_indexes gs - expanded') < card (group_indexes gs - expanded)"
    by (rule psubset_card_mono[rotated])
  then show "((gs, expanded'), gs, expanded) \<in> measure (\<lambda>(gs, expanded). card (group_indexes gs - expanded))"
    by simp
qed simp

definition expand_tool_pairs :: "frame list \<Rightarrow> nat set \<Rightarrow> nat set" where
  "expand_tool_pairs fs keep = expand_loop (tool_groups fs) keep"

section \<open>Oversized tool results\<close>

definition tool_result_ref :: "frame \<Rightarrow> string \<Rightarrow> string" where
  "tool_result_ref f tid = ''tool-result:''
     @ (if tid \<noteq> [] then tid else if opt_truthy (f_tool_use_id f) then opt_str (f_tool_use_id f) else ''unknown'')
     @ '':'' @ (if opt_truthy (f_uuid f) then opt_str (f_uuid f) else ''unpersisted'')"

definition compacted_content :: "string \<Rightarrow> string \<Rightarrow> int \<Rightarrow> string" where
  "compacted_content ref content tokens = ''[tool result compacted: ref='' @ ref @ '', original_chars=''
     @ int_str (int (length content)) @ '', approx_tokens='' @ int_str tokens @ '']''"

text \<open>The blocks of a frame and the references made for them.\<close>

fun replace_result_blocks ::
    "(string \<Rightarrow> int) option \<Rightarrow> int \<Rightarrow> frame \<Rightarrow> content_block list \<Rightarrow> content_block list \<times> string list" where
  "replace_result_blocks counter max_chars f [] = ([], [])"
| "replace_result_blocks counter max_chars f (b # bs) =
    (let (bs', refs) = replace_result_blocks counter max_chars f bs in
     case b of
       ToolResultBlock i name content err \<Rightarrow>
         (if int (length content) \<le> max_chars then (b # bs', refs)
          else (let ref = tool_result_ref f i in
            (ToolResultBlock i name (compacted_content ref content (count_text_tokens counter content)) err # bs',
             ref # refs)))
     | _ \<Rightarrow> (b # bs', refs))"

text \<open>\<open>list(v)\<close>: the items of a list, the characters of a string, the keys of a dict.\<close>

fun py_list :: "pyval \<Rightarrow> pyval list option" where
  "py_list (PyList xs) = Some xs"
| "py_list (PyStr s) = Some (map (\<lambda>c. PyStr [c]) s)"
| "py_list (PyDict d) = Some (map (\<lambda>(k, v). PyStr k) d)"
| "py_list _ = None"

definition prior_refs :: "pydict \<Rightarrow> pyval list option" where
  "prior_refs extra = (if py_has ''compacted_tool_result_refs'' extra
     then py_list (py_get ''compacted_tool_result_refs'' extra) else Some [])"

definition replace_frame_results ::
    "(string \<Rightarrow> int) option \<Rightarrow> int \<Rightarrow> frame \<Rightarrow> compaction_error + frame \<times> string list" where
  "replace_frame_results counter max_chars f = (let
     (blocks, refs) = replace_result_blocks counter max_chars f (f_blocks f)
     in if refs = [] then Inr (f, [])
        else (case prior_refs (f_extra f) of
            None \<Rightarrow> Inl RefsNotIterable
          | Some prior \<Rightarrow> Inr (f\<lparr>f_blocks := blocks,
               f_extra := py_set ''tool_result_content_replaced'' (PyBool True)
                 (py_set ''compacted_tool_result_refs'' (PyList (prior @ map PyStr refs)) (f_extra f))\<rparr>, refs)))"

text \<open>The frames, the ids of the frames changed and the references.\<close>

fun replace_results_loop ::
    "(string \<Rightarrow> int) option \<Rightarrow> int \<Rightarrow> frame list \<Rightarrow> compaction_error + frame list \<times> string list \<times> string list" where
  "replace_results_loop counter max_chars [] = Inr ([], [], [])"
| "replace_results_loop counter max_chars (f # fs) =
    (case replace_frame_results counter max_chars f of
       Inl e \<Rightarrow> Inl e
     | Inr (g, rs) \<Rightarrow> (case replace_results_loop counter max_chars fs of
           Inl e \<Rightarrow> Inl e
         | Inr (gs, ids, refs) \<Rightarrow> Inr (g # gs, (if rs = [] then ids else frame_id f # ids), rs @ refs)))"

definition replace_oversized_tool_results ::
    "(string \<Rightarrow> int) option \<Rightarrow> int \<Rightarrow> frame list \<Rightarrow> compaction_error + frame list \<times> string list \<times> string list" where
  "replace_oversized_tool_results counter char_budget fs = replace_results_loop counter (max 80 char_budget) fs"

section \<open>Compaction\<close>

text \<open>The frames a compaction reads, each with a uuid, and those it may keep.\<close>

definition compaction_window :: "(nat \<Rightarrow> string) \<Rightarrow> frame list option \<Rightarrow> frame list" where
  "compaction_window fresh chain =
     ensure_uuids fresh (project_after_last_compact_boundary (coerce_chain_frames chain))"

definition working_frames :: "frame list \<Rightarrow> frame list" where
  "working_frames fs = filter (\<lambda>f. \<not> is_compact_boundary_artifact f) fs"

definition frames_at :: "frame list \<Rightarrow> nat set \<Rightarrow> frame list" where
  "frames_at fs I = map (\<lambda>i. fs ! i) (filter (\<lambda>i. i \<in> I) [0..<length fs])"

definition compacted_result ::
    "(nat \<Rightarrow> string) \<Rightarrow> int \<Rightarrow> compaction_request \<Rightarrow> nat \<Rightarrow> int \<Rightarrow> frame list \<Rightarrow> frame list \<Rightarrow> frame list \<Rightarrow>
     string list \<Rightarrow> string list \<Rightarrow> compaction_result" where
  "compacted_result fresh now q n before working kept dropped micro_ids refs = (let
     boundary = build_compact_boundary_frame (fresh n) now (cq_reason q) before
       (max 1 (cq_token_budget q)) dropped kept (cq_provider q) (last_uuid working) micro_ids refs ''auto'' None [];
     summary = build_compact_summary_frame (fresh (Suc n)) (cq_summary_text q) (cq_reason q) dropped before
       (cq_provider q) (f_uuid boundary) (chain_session_id working) []
     in \<lparr>cp_summary_frame = summary, cp_kept_frames = kept,
         cp_dropped_frame_uuids = map frame_id dropped, cp_token_before = before,
         cp_token_after = count_frame_tokens (cq_token_counter q) (boundary # summary # kept),
         cp_reason = cq_reason q, cp_boundary_frame = boundary, cp_dropped_frames = dropped,
         cp_compacted = True, cp_microcompacted_frame_uuids = micro_ids, cp_replacement_refs = refs\<rparr>)"

definition compact_frames ::
    "(nat \<Rightarrow> string) \<Rightarrow> int \<Rightarrow> compaction_request \<Rightarrow> compaction_error + compaction_result" where
  "compact_frames fresh now q = (let
     frames = compaction_window fresh (cq_chain q);
     before = count_frame_tokens (cq_token_counter q) frames;
     budget = max 1 (cq_token_budget q)
     in if \<not> cq_force q \<and> before \<le> budget then Inr (no_compaction_result fresh now frames before q)
        else (case replace_oversized_tool_results (cq_token_counter q) (cq_tool_result_char_budget q)
                     (working_frames frames) of
            Inl e \<Rightarrow> Inl e
          | Inr (working, micro_ids, refs) \<Rightarrow> (let
              keep = expand_tool_pairs working (select_keep_indexes q working before);
              kept = frames_at working keep;
              dropped = frames_at working (- keep)
              in if dropped = [] then Inr (no_compaction_result fresh now frames before q)
                 else Inr (compacted_result fresh now q (length frames) before working kept dropped micro_ids refs))))"

text \<open>\<open>CompactionRequest(chain=..., token_budget=..., reason=...)\<close>: the other fields at their
  defaults; the default ratio is only read by \<open>_select_keep_indexes\<close>, which these requests never
  reach.\<close>

definition plain_request :: "frame list \<Rightarrow> int \<Rightarrow> string \<Rightarrow> string option \<Rightarrow> compaction_request" where
  "plain_request fs budget reason provider = \<lparr>cq_chain = Some fs, cq_token_budget = budget, cq_reason = reason,
     cq_provider = provider, cq_summary_text = None, cq_token_counter = None,
     cq_min_keep_frames = DEFAULT_MIN_KEEP_FRAMES, cq_keep_tokens = 0, cq_force = False,
     cq_tool_result_char_budget = DEFAULT_TOOL_RESULT_CHAR_BUDGET\<rparr>"

definition microcompact_frames ::
    "(nat \<Rightarrow> string) \<Rightarrow> int \<Rightarrow> frame list option \<Rightarrow> int \<Rightarrow> string \<Rightarrow> string option \<Rightarrow> (string \<Rightarrow> int) option \<Rightarrow>
     int \<Rightarrow> int \<Rightarrow> compaction_error + compaction_result" where
  "microcompact_frames fresh now chain token_budget reason provider counter preserve_last char_budget = (let
     frames = compaction_window fresh chain;
     before = count_frame_tokens counter frames
     in if before \<le> 0
        then Inr (no_compaction_result fresh now frames before (plain_request frames token_budget reason None))
        else (let cut = nat (max 0 (int (length frames) - max 0 preserve_last)) in
          case replace_oversized_tool_results counter char_budget (take cut frames) of
            Inl e \<Rightarrow> Inl e
          | Inr (replaced, micro_ids, refs) \<Rightarrow>
             (if micro_ids = []
              then Inr (no_compaction_result fresh now frames before
                          (plain_request frames token_budget reason provider))
              else (let
                kept = replaced @ drop cut frames;
                saved = max 0 (before - count_frame_tokens counter kept);
                boundary = build_compact_boundary_frame (fresh (length frames)) now reason before token_budget []
                  kept provider (last_uuid frames) micro_ids refs ''auto'' (Some saved) [];
                summary = build_compact_summary_frame (fresh (Suc (length frames)))
                  (Some ''Large historical tool results were replaced with stable references.'') reason [] before
                  provider (f_uuid boundary) (chain_session_id frames) refs
                in Inr \<lparr>cp_summary_frame = summary, cp_kept_frames = kept, cp_dropped_frame_uuids = [],
                        cp_token_before = before,
                        cp_token_after = count_frame_tokens counter (boundary # summary # kept),
                        cp_reason = reason, cp_boundary_frame = boundary, cp_dropped_frames = [],
                        cp_compacted = True, cp_microcompacted_frame_uuids = micro_ids,
                        cp_replacement_refs = refs\<rparr>))))"

end
