(* ===== verification/Conversation_State.thy ===== *)
theory Conversation_State
  imports Frame_Storage Lineage Typed_Compaction
begin

text \<open>
  The conversation of one user (\<open>ConversationStateManager\<close> in \<open>services/conversation/state_manager.py\<close>): the live frames, the
  messages derived from them with their tokens, appending, the projection sent to the model, the prompt window, and
  compaction.  The conversation log is the list of rows of \<open>Frame_Storage\<close>.  A method that holds the lock is one step; the
  asynchronous compaction is two, before and after it waits for the summary.  The facts it extracts on the way go to
  another store and are left out.
\<close>

section \<open>Tokens\<close>

definition MESSAGE_TOKEN_OVERHEAD :: int where
  "MESSAGE_TOKEN_OVERHEAD = 4"

text \<open>The library \<open>tiktoken\<close>, where it is installed\<close>

record tokenizer =
  tk_encode :: "string \<Rightarrow> nat list"
  tk_decode :: "nat list \<Rightarrow> string"

definition count_tokens :: "tokenizer option \<Rightarrow> string \<Rightarrow> int" where
  "count_tokens tk text = (if text = [] then 0 else (case tk of
      Some t \<Rightarrow> int (length (tk_encode t text))
    | None \<Rightarrow> max 1 (int (length text) div 4)))"

text \<open>\<open>xs[-n:]\<close>\<close>

definition last_n :: "nat \<Rightarrow> 'a list \<Rightarrow> 'a list" where
  "last_n n xs = drop (length xs - n) xs"

definition truncate_text_to_tokens :: "tokenizer option \<Rightarrow> string \<Rightarrow> int \<Rightarrow> string" where
  "truncate_text_to_tokens tk text max_tokens = (let budget = nat (max 1 max_tokens) in
     if text = [] then []
     else (case tk of
         Some t \<Rightarrow> if length (tk_encode t text) \<le> budget then text else tk_decode t (last_n budget (tk_encode t text))
       | None \<Rightarrow> last_n (budget * 4) text))"

definition conversation_frame_tokens :: "tokenizer option \<Rightarrow> frame list \<Rightarrow> int" where
  "conversation_frame_tokens tk fs = sum_list (map (\<lambda>f. count_tokens tk (frame_text f) + MESSAGE_TOKEN_OVERHEAD) fs)"

section \<open>State\<close>

text \<open>\<open>len(content.split())\<close>\<close>

fun count_words :: "bool \<Rightarrow> string \<Rightarrow> int" where
  "count_words in_word [] = 0"
| "count_words in_word (c # cs) = (if py_space c then count_words False cs
     else (if in_word then 0 else 1) + count_words True cs)"

record legacy_message =
  lm_role :: string
  lm_content :: string
  lm_timestamp :: int
  lm_tokens :: int
  lm_metadata :: pydict

definition frame_to_legacy_message :: "int \<Rightarrow> frame \<Rightarrow> legacy_message option" where
  "frame_to_legacy_message now f = (let content = py_strip (frame_text f) in
     if f_role f = META_USER \<or> f_is_meta f \<or> is_internal_history_artifact (role_value (f_role f)) content then None
     else Some \<lparr>lm_role = role_value (f_role f), lm_content = content,
       lm_timestamp = (if f_timestamp_ms f \<noteq> 0 then f_timestamp_ms f else now),
       lm_tokens = count_words False content + MESSAGE_TOKEN_OVERHEAD, lm_metadata = f_extra f\<rparr>)"

text \<open>A compaction that waits for its summary: the frames it saw, the budget, the reason and the instructions of the hooks\<close>

record pending_compaction =
  pd_frames :: "frame list"
  pd_budget :: int
  pd_reason :: string
  pd_instructions :: "string option"

record conversation =
  cv_user :: string
  cv_model :: string
  cv_default_tokens :: int
  cv_frames :: "frame list"
  cv_history :: "legacy_message list"
  cv_tokens :: int
  cv_session :: string
  cv_explicit :: "string option"
  cv_compacting :: "pending_compaction option"
  cv_failures :: nat
  cv_disabled :: bool
  cv_surfaced :: "int set"
  cv_replacements :: pydict
  cv_snipped :: "string set"
  cv_window_start :: "string option"

definition MAX_HISTORY :: nat where
  "MAX_HISTORY = 200"

text \<open>\<open>__init__\<close> up to the restoring of old turns; \<open>requested\<close> is the session id after its check, \<open>fresh\<close> a new one.\<close>

definition new_conversation :: "string \<Rightarrow> string \<Rightarrow> int \<Rightarrow> string option \<Rightarrow> string \<Rightarrow> conversation" where
  "new_conversation user model tokens requested fresh = (let explicit = (if requested = Some user then None else requested) in
     \<lparr>cv_user = user, cv_model = model, cv_default_tokens = max 1 tokens, cv_frames = [], cv_history = [], cv_tokens = 0,
      cv_session = (case explicit of Some s \<Rightarrow> s | None \<Rightarrow> fresh), cv_explicit = explicit, cv_compacting = None,
      cv_failures = 0, cv_disabled = False, cv_surfaced = {}, cv_replacements = [], cv_snipped = {}, cv_window_start = None\<rparr>)"

section \<open>Appending\<close>

definition tool_use_id_set :: "frame \<Rightarrow> string set" where
  "tool_use_id_set f = (if f_kind f = TOOL_USE \<and> opt_truthy (f_tool_use_id f) then {opt_str (f_tool_use_id f)} else {})
     \<union> set (block_use_ids (f_blocks f))"

definition tool_result_id_set :: "frame \<Rightarrow> string set" where
  "tool_result_id_set f = (if f_kind f = TOOL_RESULT \<and> opt_truthy (f_tool_use_id f) then {opt_str (f_tool_use_id f)} else {})
     \<union> set (block_result_ids (f_blocks f))"

definition infer_tool_source :: "frame list \<Rightarrow> frame \<Rightarrow> frame" where
  "infer_tool_source prior f = (if opt_truthy (f_source_tool_assistant_uuid f) \<or> tool_result_id_set f = {} then f
     else (case List.find (\<lambda>p. opt_truthy (f_uuid p) \<and> tool_use_id_set p \<inter> tool_result_id_set f \<noteq> {}) (rev prior) of
         Some p \<Rightarrow> f\<lparr>f_source_tool_assistant_uuid := f_uuid p\<rparr>
       | None \<Rightarrow> f))"

definition last_frame :: "frame list \<Rightarrow> frame option" where
  "last_frame fs = (if fs = [] then None else Some (last fs))"

definition prepare_frame_for_append :: "string \<Rightarrow> conversation \<Rightarrow> frame \<Rightarrow> frame" where
  "prepare_frame_for_append fresh c f =
     assign_lineage fresh (infer_tool_source (cv_frames c) f) (last_frame (cv_frames c)) (cv_session c)"

definition is_boundary :: "frame \<Rightarrow> bool" where
  "is_boundary f = (opt_str (f_origin f) \<in> set COMPACT_BOUNDARY_ORIGINS)"

text \<open>The frames from the last boundary on\<close>

definition boundary_index :: "frame list \<Rightarrow> nat option" where
  "boundary_index fs = (case filter (\<lambda>i. is_boundary (fs ! i)) [0..<length fs] of [] \<Rightarrow> None | is \<Rightarrow> Some (last is))"

definition prune_pre_compact_frames :: "frame list \<Rightarrow> frame list" where
  "prune_pre_compact_frames fs = (if length fs \<le> MAX_HISTORY then fs
     else (case boundary_index fs of None \<Rightarrow> fs | Some i \<Rightarrow> drop i fs))"

text \<open>The oldest message that is not from the system, or else the oldest, and the rest\<close>

definition oldest_message :: "legacy_message list \<Rightarrow> legacy_message \<times> legacy_message list" where
  "oldest_message h = (let pre = takeWhile (\<lambda>m. lm_role m = ''system'') h in
     case drop (length pre) h of [] \<Rightarrow> (hd h, tl h) | m # ms \<Rightarrow> (m, pre @ ms))"

function trim_history :: "legacy_message list \<Rightarrow> int \<Rightarrow> legacy_message list \<times> int" where
  "trim_history h tokens = (if length h \<le> MAX_HISTORY then (h, tokens)
     else (let (m, rest) = oldest_message h in trim_history rest (tokens - lm_tokens m)))"
  by pat_completeness auto

lemma oldest_message_rest:
  assumes h: "h \<noteq> []" and o: "oldest_message h = (m, rest)"
  shows "\<exists>a b. h = a @ m # b \<and> rest = a @ b"
proof -
  obtain pre where pre: "pre = takeWhile (\<lambda>m. lm_role m = ''system'') h" by blast
  have split: "pre @ drop (length pre) h = h" unfolding pre by (metis append_take_drop_id takeWhile_eq_take)
  have oldest: "(case drop (length pre) h of [] \<Rightarrow> (hd h, tl h) | m # ms \<Rightarrow> (m, pre @ ms)) = (m, rest)"
    using o unfolding oldest_message_def Let_def pre .
  show ?thesis
  proof (cases "drop (length pre) h")
    case Nil
    then have "m = hd h" "rest = tl h" using oldest by simp_all
    then have "h = [] @ m # rest \<and> rest = [] @ rest" using h by simp
    then show ?thesis by blast
  next
    case (Cons x ms)
    then have "m = x" "rest = pre @ ms" using oldest by simp_all
    then show ?thesis using split Cons by metis
  qed
qed

termination trim_history
proof (relation "measure (\<lambda>(h, tokens). length h)")
  fix h :: "legacy_message list" and tokens x m rest
  assume long: "\<not> length h \<le> MAX_HISTORY" and x: "x = oldest_message h" "(m, rest) = x"
  have "h \<noteq> []" using long by auto
  moreover have "oldest_message h = (m, rest)" using x by simp
  ultimately obtain a b where "h = a @ m # b" "rest = a @ b" using oldest_message_rest by blast
  then show "((rest, tokens - lm_tokens m), h, tokens) \<in> measure (\<lambda>(h, tokens). length h)" by simp
qed simp

declare trim_history.simps [simp del]

text \<open>A frame that is no artifact is written to the log first; only then it becomes part of the conversation.\<close>

definition append_history :: "int \<Rightarrow> tokenizer option \<Rightarrow> frame \<Rightarrow> conversation \<Rightarrow> conversation" where
  "append_history now tk f c = (let tokens = count_tokens tk (py_strip (frame_text f)) + MESSAGE_TOKEN_OVERHEAD;
     (h, t) = (case frame_to_legacy_message now f of
         Some m \<Rightarrow> (cv_history c @ [m\<lparr>lm_tokens := tokens\<rparr>], cv_tokens c + tokens)
       | None \<Rightarrow> (cv_history c, cv_tokens c));
     (h', t') = trim_history h t in c\<lparr>cv_history := h', cv_tokens := t'\<rparr>)"

definition add_frame ::
    "cipher \<Rightarrow> tokenizer option \<Rightarrow> string \<Rightarrow> int \<Rightarrow> frame \<Rightarrow> conversation \<Rightarrow> log_row list \<Rightarrow>
     storage_error + frame option \<times> conversation \<times> log_row list" where
  "add_frame ci tk fresh now f0 c rows = (let f1 = frame_with_defaults fresh now (Some (cv_session c)) None None f0 in
     if is_internal_history_artifact (role_value (f_role f1)) (py_strip (frame_text f1)) then Inr (None, c, rows)
     else (let f = prepare_frame_for_append fresh c f1 in
       case write_turn ci fresh now (cv_user c) (cv_session c) f rows of
         Inl e \<Rightarrow> Inl e
       | Inr rows' \<Rightarrow> Inr (Some f, append_history now tk f
           (c\<lparr>cv_frames := prune_pre_compact_frames (cv_frames c @ [f])\<rparr>), rows')))"

definition stored_metadata :: "pydict option \<Rightarrow> pydict" where
  "stored_metadata metadata = (case metadata of
      None \<Rightarrow> []
    | Some d \<Rightarrow> (case scrub_internal_prompt_artifacts (scrub_sensitive_metadata (PyDict d)) of PyDict e \<Rightarrow> e | _ \<Rightarrow> []))"

definition add_text ::
    "cipher \<Rightarrow> tokenizer option \<Rightarrow> (string \<Rightarrow> string option \<Rightarrow> frame option) \<Rightarrow> string \<Rightarrow> int \<Rightarrow> string \<Rightarrow> string \<Rightarrow> pydict option \<Rightarrow>
     text_args \<Rightarrow> conversation \<Rightarrow> log_row list \<Rightarrow> storage_error + frame option \<times> conversation \<times> log_row list" where
  "add_text ci tk voice fresh now role content metadata a c rows = (let
     r = (if py_strip role = [] then ''user'' else py_strip role); t = py_strip content in
   if is_internal_history_artifact r t then Inr (None, c, rows)
   else add_frame ci tk fresh now (make_text_frame voice r t (stored_metadata metadata)
     (a\<lparr>ta_timestamp_ms := now, ta_session_id := Some (cv_session c)\<rparr>)) c rows)"

definition append_frame ::
    "cipher \<Rightarrow> tokenizer option \<Rightarrow> string \<Rightarrow> int \<Rightarrow> string option \<Rightarrow> string option \<Rightarrow> frame \<Rightarrow> conversation \<Rightarrow> log_row list \<Rightarrow>
     storage_error + frame \<times> conversation \<times> log_row list" where
  "append_frame ci tk fresh now parent logical f c rows = (let
     inferred = (case parent of Some p \<Rightarrow> Some p | None \<Rightarrow> Option.bind (last_frame (cv_frames c)) f_uuid);
     stored = frame_with_defaults fresh now (Some (cv_session c)) inferred logical f in
   case add_frame ci tk fresh now stored c rows of
     Inl e \<Rightarrow> Inl e
   | Inr (g, c', rows') \<Rightarrow> Inr ((case g of Some h \<Rightarrow> h | None \<Rightarrow> stored), c', rows'))"

section \<open>A chain of frames\<close>

definition relink :: "string set \<Rightarrow> frame option \<Rightarrow> frame \<Rightarrow> frame" where
  "relink retained previous f = (case previous of
      None \<Rightarrow> if opt_truthy (f_parent_uuid f) \<and> opt_str (f_parent_uuid f) \<notin> retained
        then f\<lparr>f_parent_uuid := None, f_logical_parent_uuid := opt_or (f_logical_parent_uuid f) (f_parent_uuid f)\<rparr> else f
    | Some p \<Rightarrow> if \<not> opt_truthy (f_parent_uuid f) \<or> opt_str (f_parent_uuid f) \<notin> retained
        then f\<lparr>f_parent_uuid := f_uuid p,
          f_logical_parent_uuid := opt_or (f_logical_parent_uuid f) (opt_or (f_parent_uuid f) (f_uuid p))\<rparr> else f)"

fun normalize_chain_loop ::
    "(nat \<Rightarrow> string) \<Rightarrow> int \<Rightarrow> string \<Rightarrow> bool \<Rightarrow> string set \<Rightarrow> nat \<Rightarrow> frame list \<Rightarrow> frame list \<Rightarrow> frame list" where
  "normalize_chain_loop fresh now session rewrite retained i done [] = done"
| "normalize_chain_loop fresh now session rewrite retained i done (f # fs) = (let
     ts = (if rewrite \<or> f_timestamp_ms f = 0 then now + int i else f_timestamp_ms f);
     f1 = frame_with_defaults (fresh i) ts (Some session) None None f;
     f2 = (if rewrite then f1\<lparr>f_timestamp_ms := ts\<rparr> else f1);
     f3 = relink retained (last_frame done) (infer_tool_source done f2);
     f4 = assign_lineage (fresh i) f3 (last_frame done) session in
   normalize_chain_loop fresh now session rewrite retained (Suc i) (done @ [f4]) fs)"

definition normalize_frame_chain :: "(nat \<Rightarrow> string) \<Rightarrow> int \<Rightarrow> string \<Rightarrow> bool \<Rightarrow> frame list \<Rightarrow> frame list" where
  "normalize_frame_chain fresh now session rewrite fs = normalize_chain_loop fresh now (py_strip session) rewrite
     (set (map (opt_str \<circ> f_uuid) (filter (\<lambda>f. opt_truthy (f_uuid f)) fs))) 0 [] fs"

definition rebuild_legacy_history :: "int \<Rightarrow> conversation \<Rightarrow> conversation" where
  "rebuild_legacy_history now c = (let h = List.map_filter (frame_to_legacy_message now) (cv_frames c) in
     c\<lparr>cv_history := h, cv_tokens := sum_list (map lm_tokens h)\<rparr>)"

text \<open>\<open>_install_frame_chain\<close>, which every caller calls without writing to the log\<close>

definition install_frame_chain :: "(nat \<Rightarrow> string) \<Rightarrow> int \<Rightarrow> frame list \<Rightarrow> conversation \<Rightarrow> conversation" where
  "install_frame_chain fresh now fs c = (let
     n = normalize_frame_chain fresh now (cv_session c) False fs;
     n' = (if length n > MAX_HISTORY then normalize_frame_chain fresh now (cv_session c) False (last_n MAX_HISTORY n) else n) in
   rebuild_legacy_history now (c\<lparr>cv_frames := n'\<rparr>))"

section \<open>Reading\<close>

definition shows_artifact :: "frame \<Rightarrow> bool" where
  "shows_artifact f = is_internal_history_artifact (role_value (f_role f)) (frame_text f)"

definition since_boundary :: "frame list \<Rightarrow> frame list" where
  "since_boundary fs = (case boundary_index fs of None \<Rightarrow> fs | Some i \<Rightarrow> drop i fs)"

fun relink_snipped :: "string set \<Rightarrow> frame list \<Rightarrow> frame list \<Rightarrow> frame list" where
  "relink_snipped snipped done [] = done"
| "relink_snipped snipped done (f # fs) = relink_snipped snipped (done @
     [if opt_truthy (f_parent_uuid f) \<and> opt_str (f_parent_uuid f) \<in> snipped
      then f\<lparr>f_parent_uuid := Option.bind (last_frame done) f_uuid,
        f_logical_parent_uuid := opt_or (f_logical_parent_uuid f) (f_parent_uuid f)\<rparr> else f]) fs"

definition project_prompt_frame_chain :: "conversation \<Rightarrow> frame list \<Rightarrow> bool \<Rightarrow> frame list" where
  "project_prompt_frame_chain c fs behavioral_only = (let
     chain = filter (\<lambda>f. \<not> shows_artifact f \<and> \<not> (behavioral_only \<and> f_is_meta f)
       \<and> \<not> (opt_truthy (f_uuid f) \<and> opt_str (f_uuid f) \<in> cv_snipped c)) fs;
     chain' = since_boundary chain in
   if cv_snipped c = {} then chain' else relink_snipped (cv_snipped c) [] chain')"

definition get_recent_turns :: "int \<Rightarrow> bool \<Rightarrow> conversation \<Rightarrow> frame list" where
  "get_recent_turns limit behavioral_only c = last_n (nat (max 1 (min (if limit = 0 then 1 else limit) 40)))
     (filter (\<lambda>f. \<not> shows_artifact f \<and> \<not> (behavioral_only \<and> f_is_meta f)) (cv_frames c))"

definition get_message_chain :: "int \<Rightarrow> bool \<Rightarrow> conversation \<Rightarrow> frame list" where
  "get_message_chain limit behavioral_only c =
     last_n (nat (max 1 limit)) (project_prompt_frame_chain c (cv_frames c) behavioral_only)"

fun truncate_loop :: "tokenizer option \<Rightarrow> int \<Rightarrow> int \<Rightarrow> legacy_message list \<Rightarrow> legacy_message list \<Rightarrow> legacy_message list" where
  "truncate_loop tk budget used selected [] = selected"
| "truncate_loop tk budget used selected (m # ms) = (let
     tokens = (if lm_tokens m \<noteq> 0 then lm_tokens m else count_tokens tk (lm_content m) + MESSAGE_TOKEN_OVERHEAD) in
   if selected = [] \<and> tokens > budget
   then (let cut = truncate_text_to_tokens tk (lm_content m) (max 1 (budget - MESSAGE_TOKEN_OVERHEAD)) in
     [m\<lparr>lm_content := cut, lm_tokens := count_tokens tk cut + MESSAGE_TOKEN_OVERHEAD, lm_metadata := []\<rparr>])
   else if used + tokens > budget then truncate_loop tk budget used selected ms
   else truncate_loop tk budget (used + tokens) (m # selected) ms)"

definition truncate_context :: "tokenizer option \<Rightarrow> legacy_message list \<Rightarrow> int \<Rightarrow> legacy_message list" where
  "truncate_context tk ms max_tokens = (if ms = [] \<or> max_tokens \<le> 0 then [] else truncate_loop tk (max 1 max_tokens) 0 [] (rev ms))"

definition get_context :: "tokenizer option \<Rightarrow> int \<Rightarrow> conversation \<Rightarrow> (string \<times> string) list" where
  "get_context tk max_tokens c = map (\<lambda>m. (lm_role m, lm_content m))
     (filter (\<lambda>m. \<not> is_internal_history_artifact (lm_role m) (lm_content m)) (truncate_context tk (cv_history c) max_tokens))"

definition mark_snipped_frames :: "tokenizer option \<Rightarrow> string list \<Rightarrow> conversation \<Rightarrow> (nat \<times> int) \<times> conversation" where
  "mark_snipped_frames tk uuids c = (let cleaned = remdups (filter (\<lambda>s. s \<noteq> []) (map py_strip uuids)) in
     if cleaned = [] then ((0, 0), c)
     else ((length cleaned, sum_list (map (\<lambda>f. count_tokens tk (frame_text f))
         (filter (\<lambda>f. opt_truthy (f_uuid f) \<and> opt_str (f_uuid f) \<in> set cleaned) (cv_frames c)))),
       c\<lparr>cv_snipped := cv_snipped c \<union> set cleaned\<rparr>))"

definition clear_snipped_frames :: "string list option \<Rightarrow> conversation \<Rightarrow> conversation" where
  "clear_snipped_frames uuids c = c\<lparr>cv_snipped := (case uuids of None \<Rightarrow> {} | Some us \<Rightarrow> cv_snipped c - set (map py_strip us))\<rparr>"

end
