(* ===== verification/Conversation_Window.thy ===== *)
theory Conversation_Window
  imports Conversation_State
begin

text \<open>
  What one command sends of the conversation (\<open>get_prompt_window\<close> in \<open>services/conversation/state_manager.py\<close>): the
  frames since the start of an exchange that is kept from command to command, moved on by time and by size; and
  \<open>record_exchange\<close>, which appends one.  Hidden frames leave no trace in what is sent, the newest exchange is always there, the
  window fits its limit, and from one command to the next it only moves on.
\<close>

section \<open>Exchanges\<close>

record exchange_args =
  ea_intent :: "string option"
  ea_params :: "pydict option"
  ea_user_origin :: "string option"
  ea_assistant_origin :: "string option"
  ea_user_is_meta :: bool
  ea_assistant_is_meta :: bool
  ea_task_id :: "string option"

definition exchange_metadata :: "string \<Rightarrow> string \<Rightarrow> exchange_args \<Rightarrow> pydict" where
  "exchange_metadata turn turn_role a = (let
     params = (case ea_params a of
         Some (d # ds) \<Rightarrow> (case scrub_internal_prompt_artifacts (PyDict (d # ds)) of PyDict e \<Rightarrow> e | _ \<Rightarrow> [])
       | _ \<Rightarrow> []) in
   [(''turn_id'', PyStr turn), (''turn_role'', PyStr turn_role)]
     @ (if opt_truthy (ea_intent a) then [(''intent'', opt_val (ea_intent a))] else [])
     @ (if params \<noteq> [] then [(''params'', PyDict params)] else []))"

definition exchange_text_args :: "frame_kind option \<Rightarrow> string option \<Rightarrow> bool \<Rightarrow> string option \<Rightarrow> text_args" where
  "exchange_text_args kind origin meta task = \<lparr>ta_kind = map_option kind_value kind, ta_origin = origin, ta_is_meta = meta,
     ta_is_compact_summary = False, ta_task_id = task, ta_tool_use_id = None, ta_permission_mode = None,
     ta_timestamp_ms = 0, ta_session_id = None\<rparr>"

text \<open>\<open>fresh 0\<close> is the turn id; the two frames take their ids from 1 and 2.  The second message is not tried after an error
  of the first.\<close>

definition record_exchange ::
    "cipher \<Rightarrow> tokenizer option \<Rightarrow> (string \<Rightarrow> string option \<Rightarrow> frame option) \<Rightarrow> (nat \<Rightarrow> string) \<Rightarrow> int \<Rightarrow> string \<Rightarrow> string \<Rightarrow>
     exchange_args \<Rightarrow> conversation \<Rightarrow> log_row list \<Rightarrow> (conversation \<times> log_row list) \<times> storage_error option" where
  "record_exchange ci tk voice fresh now user_text assistant_text a c rows =
     (case add_text ci tk voice (fresh 1) now ''user'' user_text (Some (exchange_metadata (fresh 0) ''request'' a))
         (exchange_text_args (if ea_user_is_meta a then None else Some USER_INPUT) (ea_user_origin a) (ea_user_is_meta a)
           (ea_task_id a)) c rows of
       Inl e \<Rightarrow> ((c, rows), Some e)
     | Inr (f1, c1, rows1) \<Rightarrow>
        (case add_text ci tk voice (fresh 2) now ''assistant'' assistant_text (Some (exchange_metadata (fresh 0) ''response'' a))
            (exchange_text_args (if ea_assistant_is_meta a then None else Some ASSISTANT_TEXT) (ea_assistant_origin a)
              (ea_assistant_is_meta a) (ea_task_id a)) c1 rows1 of
          Inl e \<Rightarrow> ((c1, rows1), Some e)
        | Inr (f2, c2, rows2) \<Rightarrow> ((c2, rows2), None)))"

section \<open>The prompt window\<close>

definition PROMPT_WINDOW_MAX_TOKENS :: int where "PROMPT_WINDOW_MAX_TOKENS = 2500"

definition PROMPT_WINDOW_TRIM_TO_TOKENS :: int where "PROMPT_WINDOW_TRIM_TO_TOKENS = 1250"

definition PROMPT_WINDOW_IDLE_GAP_SECONDS :: int where "PROMPT_WINDOW_IDLE_GAP_SECONDS = 600"

definition PROMPT_WINDOW_THREAD_MAX_TOKENS :: int where "PROMPT_WINDOW_THREAD_MAX_TOKENS = 24000"

definition PROMPT_WINDOW_THREAD_TRIM_TO_TOKENS :: int where "PROMPT_WINDOW_THREAD_TRIM_TO_TOKENS = 16000"

definition PROMPT_WINDOW_REPLY_MAX_CHARS :: nat where "PROMPT_WINDOW_REPLY_MAX_CHARS = 8000"

definition PROMPT_WINDOW_SHORTENED_NOTE :: string where
  "PROMPT_WINDOW_SHORTENED_NOTE = newline @ ''[The rest of this reply is not shown here.]''"

text \<open>\<open>s.rstrip()\<close>\<close>

definition rstrip_blanks :: "string \<Rightarrow> string" where
  "rstrip_blanks s = rev (dropWhile py_space (rev s))"

definition shorten_frame_for_prompt :: "frame \<Rightarrow> frame" where
  "shorten_frame_for_prompt f = (if f_role f \<noteq> ASSISTANT then f
     else (case f_blocks f of
         [TextBlock t] \<Rightarrow> if length t \<le> PROMPT_WINDOW_REPLY_MAX_CHARS then f
           else f\<lparr>f_blocks := [TextBlock (rstrip_blanks (take PROMPT_WINDOW_REPLY_MAX_CHARS t) @ PROMPT_WINDOW_SHORTENED_NOTE)]\<rparr>
       | _ \<Rightarrow> f))"

record prompt_window =
  pw_frames :: "frame list"
  pw_omitted_exchanges :: nat

definition exchange_starts :: "frame list \<Rightarrow> nat list" where
  "exchange_starts chain = filter (\<lambda>i. f_role (chain ! i) = USER) [0..<length chain]"

definition sticky_start :: "frame list \<Rightarrow> string option \<Rightarrow> nat" where
  "sticky_start chain sticky = (if opt_truthy sticky
     then (case List.find (\<lambda>i. f_uuid (chain ! i) = sticky) (exchange_starts chain) of Some i \<Rightarrow> i | None \<Rightarrow> 0) else 0)"

text \<open>The last exchange after \<open>start\<close> that follows a silence\<close>

definition idle_loop :: "int \<Rightarrow> frame list \<Rightarrow> nat list \<Rightarrow> nat \<Rightarrow> nat" where
  "idle_loop gap chain starts start = fold (\<lambda>i s. if i \<le> s \<or> i = 0 then s
     else if f_timestamp_ms (chain ! i) - f_timestamp_ms (chain ! (i - 1)) > gap then i else s) starts start"

fun overflow_loop :: "tokenizer option \<Rightarrow> int \<Rightarrow> frame list \<Rightarrow> nat list \<Rightarrow> nat \<Rightarrow> int \<Rightarrow> nat" where
  "overflow_loop tk trim_to chain [] start tokens = start"
| "overflow_loop tk trim_to chain (i # is) start tokens = (if i \<le> start then overflow_loop tk trim_to chain is start tokens
     else (let tokens' = tokens - conversation_frame_tokens tk (take (i - start) (drop start chain)) in
       if tokens' \<le> trim_to then i else overflow_loop tk trim_to chain is i tokens'))"

definition idle_start :: "int \<Rightarrow> conversation \<Rightarrow> frame list \<Rightarrow> nat" where
  "idle_start now c chain = (let starts = exchange_starts chain; gap = PROMPT_WINDOW_IDLE_GAP_SECONDS * 1000;
     start = sticky_start chain (cv_window_start c); latest = f_timestamp_ms (last chain) in
   if cv_explicit c \<noteq> None then start
   else (let s = idle_loop gap chain starts start in
     if now - (if latest \<noteq> 0 then latest else now) > gap then last starts else s))"

definition window_limits :: "conversation \<Rightarrow> int \<times> int" where
  "window_limits c = (if cv_explicit c \<noteq> None then (PROMPT_WINDOW_THREAD_MAX_TOKENS, PROMPT_WINDOW_THREAD_TRIM_TO_TOKENS)
     else (PROMPT_WINDOW_MAX_TOKENS, PROMPT_WINDOW_TRIM_TO_TOKENS))"

definition window_start :: "tokenizer option \<Rightarrow> int \<Rightarrow> conversation \<Rightarrow> frame list \<Rightarrow> nat" where
  "window_start tk now c chain = (let s = idle_start now c chain; tokens = conversation_frame_tokens tk (drop s chain) in
     if tokens > fst (window_limits c) then overflow_loop tk (snd (window_limits c)) chain (exchange_starts chain) s tokens else s)"

definition window_chain :: "int \<Rightarrow> conversation \<Rightarrow> frame list" where
  "window_chain limit c =
     last_n (nat (max 1 (if limit = 0 then 1 else limit))) (project_prompt_frame_chain c (cv_frames c) True)"

definition get_prompt_window :: "tokenizer option \<Rightarrow> int \<Rightarrow> int \<Rightarrow> conversation \<Rightarrow> prompt_window \<times> conversation" where
  "get_prompt_window tk limit now c = (let
     chain = window_chain limit c;
     starts = exchange_starts chain in
   if starts = [] then (\<lparr>pw_frames = chain, pw_omitted_exchanges = 0\<rparr>, c)
   else (let start = window_start tk now c chain in
     (\<lparr>pw_frames = map shorten_frame_for_prompt (drop start chain),
       pw_omitted_exchanges = length (filter (\<lambda>i. i < start) starts)\<rparr>,
      c\<lparr>cv_window_start := f_uuid (chain ! start)\<rparr>)))"

section \<open>The projection\<close>

lemma relink_snipped_append: "relink_snipped sn ds fs = ds @ drop (length ds) (relink_snipped sn ds fs)"
  by (induction sn ds fs rule: relink_snipped.induct) (simp, metis append_assoc append_eq_conv_conj relink_snipped.simps(2))

definition traceless :: "string set \<Rightarrow> frame \<Rightarrow> bool" where
  "traceless sn f = ((opt_truthy (f_uuid f) \<longrightarrow> opt_str (f_uuid f) \<notin> sn) \<and> (opt_truthy (f_parent_uuid f) \<longrightarrow> opt_str (f_parent_uuid f) \<notin> sn))"

lemma relink_snipped_traceless:
  assumes "list_all (traceless sn) ds" "list_all (\<lambda>f. opt_truthy (f_uuid f) \<longrightarrow> opt_str (f_uuid f) \<notin> sn) fs"
  shows "list_all (traceless sn) (relink_snipped sn ds fs)"
  using assms
proof (induction sn ds fs rule: relink_snipped.induct)
  case (2 sn ds f fs)
  have "traceless sn (last ds)" if "ds \<noteq> []" using 2(2) that by (simp add: list_all_iff)
  then have "traceless sn (if opt_truthy (f_parent_uuid f) \<and> opt_str (f_parent_uuid f) \<in> sn
      then f\<lparr>f_parent_uuid := Option.bind (last_frame ds) f_uuid,
        f_logical_parent_uuid := opt_or (f_logical_parent_uuid f) (f_parent_uuid f)\<rparr> else f)"
    using 2(3) by (auto simp: traceless_def last_frame_def)
  then show ?case using 2 by simp
qed simp

lemma relink_snipped_blocks: "map f_blocks (relink_snipped sn ds fs) = map f_blocks ds @ map f_blocks fs"
  by (induction sn ds fs rule: relink_snipped.induct) auto

lemma set_since_boundary: "set (since_boundary fs) \<subseteq> set fs"
  by (auto simp: since_boundary_def dest: in_set_dropD split: option.splits)

text \<open>What is sent of a conversation has no trace of a hidden frame: no frame with a hidden id, and no frame whose parent is one.\<close>

lemma hidden_frames_leave_no_trace:
  assumes "f \<in> set (project_prompt_frame_chain c fs behavioral_only)"
  shows "(opt_truthy (f_uuid f) \<longrightarrow> opt_str (f_uuid f) \<notin> cv_snipped c)
    \<and> (opt_truthy (f_parent_uuid f) \<longrightarrow> opt_str (f_parent_uuid f) \<notin> cv_snipped c)"
proof -
  let ?chain = "filter (\<lambda>f. \<not> shows_artifact f \<and> \<not> (behavioral_only \<and> f_is_meta f)
    \<and> \<not> (opt_truthy (f_uuid f) \<and> opt_str (f_uuid f) \<in> cv_snipped c)) fs"
  have "list_all (\<lambda>f. opt_truthy (f_uuid f) \<longrightarrow> opt_str (f_uuid f) \<notin> cv_snipped c) (since_boundary ?chain)"
    using set_since_boundary[of ?chain] by (auto simp: list_all_iff)
  from relink_snipped_traceless[OF _ this, of "[]"] have "list_all (traceless (cv_snipped c)) (relink_snipped (cv_snipped c) [] (since_boundary ?chain))"
    by simp
  then have shown: "\<forall>g \<in> set (relink_snipped (cv_snipped c) [] (since_boundary ?chain)). traceless (cv_snipped c) g"
    unfolding list_all_iff .
  have "traceless (cv_snipped c) f"
  proof (cases "cv_snipped c = {}")
    case False
    then have "f \<in> set (relink_snipped (cv_snipped c) [] (since_boundary ?chain))"
      using assms unfolding project_prompt_frame_chain_def Let_def by simp
    with shown show ?thesis by blast
  qed (simp add: traceless_def)
  then show ?thesis unfolding traceless_def .
qed

section \<open>Starts\<close>

lemma exchange_starts_sorted: "sorted (exchange_starts chain)" "distinct (exchange_starts chain)"
  by (simp_all add: exchange_starts_def sorted_wrt_filter)

lemma in_exchange_starts: "i \<in> set (exchange_starts chain) \<longleftrightarrow> i < length chain \<and> f_role (chain ! i) = USER"
  by (auto simp: exchange_starts_def)

lemma last_start: "i \<in> set (exchange_starts chain) \<Longrightarrow> i \<le> last (exchange_starts chain)"
  by (metis exchange_starts_sorted(1) in_set_conv_nth last_conv_nth length_pos_if_in_set list.size(3) not_less0
    One_nat_def Suc_pred diff_Suc_less less_Suc_eq_le sorted_nth_mono)

lemma sticky_start_in: "sticky_start chain s \<in> insert 0 (set (exchange_starts chain))"
  by (auto simp: sticky_start_def find_Some_iff split: option.splits)

lemma idle_loop_in: "idle_loop gap chain js s \<in> insert s (set js) \<and> s \<le> idle_loop gap chain js s"
proof (induction js arbitrary: s)
  case (Cons j js)
  have "idle_loop gap chain (j # js) s = idle_loop gap chain js (if j \<le> s \<or> j = 0 then s
      else if f_timestamp_ms (chain ! j) - f_timestamp_ms (chain ! (j - 1)) > gap then j else s)"
    by (simp add: idle_loop_def)
  then show ?case using Cons[of s] Cons[of j] by (auto split: if_splits)
qed (simp add: idle_loop_def)

lemma idle_start_in:
  assumes "exchange_starts chain \<noteq> []"
  shows "idle_start now c chain \<in> insert 0 (set (exchange_starts chain))"
  using sticky_start_in[of chain "cv_window_start c"] assms
    idle_loop_in[of "PROMPT_WINDOW_IDLE_GAP_SECONDS * 1000" chain "exchange_starts chain" "sticky_start chain (cv_window_start c)"]
  by (auto simp: idle_start_def Let_def)

section \<open>Size\<close>

lemma tokens_append: "conversation_frame_tokens tk (xs @ ys) = conversation_frame_tokens tk xs + conversation_frame_tokens tk ys"
  by (simp add: conversation_frame_tokens_def)

lemma tokens_drop:
  assumes "s \<le> i"
  shows "conversation_frame_tokens tk (drop s chain) - conversation_frame_tokens tk (take (i - s) (drop s chain))
    = conversation_frame_tokens tk (drop i chain)"
proof -
  have "drop s chain = take (i - s) (drop s chain) @ drop i chain"
    using assms append_take_drop_id[of "i - s" "drop s chain"] by simp
  then show ?thesis by (metis tokens_append add_diff_cancel_left')
qed

lemma overflow_result:
  assumes "tokens = conversation_frame_tokens tk (drop s chain)"
  shows "overflow_loop tk trim chain js s tokens \<in> insert s (set js) \<and>
    (conversation_frame_tokens tk (drop (overflow_loop tk trim chain js s tokens) chain) \<le> trim
      \<or> (\<forall>i \<in> set js. i \<le> overflow_loop tk trim chain js s tokens)) \<and> s \<le> overflow_loop tk trim chain js s tokens"
  using assms
proof (induction js arbitrary: s tokens)
  case (Cons i js)
  show ?case
  proof (cases "i \<le> s")
    case True
    then show ?thesis using Cons.IH[OF Cons.prems] by auto
  next
    case False
    define t where "t = tokens - conversation_frame_tokens tk (take (i - s) (drop s chain))"
    have t: "t = conversation_frame_tokens tk (drop i chain)" using False Cons.prems by (simp add: t_def tokens_drop)
    show ?thesis using False Cons.IH[OF t] t by (auto simp: t_def[symmetric] Let_def)
  qed
qed simp

lemma limits_ordered: "snd (window_limits c) \<le> fst (window_limits c)"
  by (simp add: window_limits_def PROMPT_WINDOW_THREAD_MAX_TOKENS_def PROMPT_WINDOW_THREAD_TRIM_TO_TOKENS_def
    PROMPT_WINDOW_MAX_TOKENS_def PROMPT_WINDOW_TRIM_TO_TOKENS_def)

lemma window_start_in:
  assumes "exchange_starts chain \<noteq> []"
  shows "window_start tk now c chain \<in> insert 0 (set (exchange_starts chain))"
  using idle_start_in[OF assms, of now c]
    overflow_result[OF refl, where tk = tk and s = "idle_start now c chain" and chain = chain
      and trim = "snd (window_limits c)" and js = "exchange_starts chain"]
  by (auto simp: window_start_def Let_def)

lemma window_start_le:
  assumes "exchange_starts chain \<noteq> []"
  shows "window_start tk now c chain \<le> last (exchange_starts chain)"
  using window_start_in[OF assms, of tk now c] last_start[of _ chain] by auto

lemma window_start_fits:
  assumes "exchange_starts chain \<noteq> []"
  shows "conversation_frame_tokens tk (drop (window_start tk now c chain) chain) \<le> fst (window_limits c)
    \<or> window_start tk now c chain = last (exchange_starts chain)"
proof (cases "conversation_frame_tokens tk (drop (idle_start now c chain) chain) > fst (window_limits c)")
  case True
  then have w: "window_start tk now c chain = overflow_loop tk (snd (window_limits c)) chain (exchange_starts chain)
      (idle_start now c chain) (conversation_frame_tokens tk (drop (idle_start now c chain) chain))"
    by (simp add: window_start_def Let_def)
  have "last (exchange_starts chain) \<in> set (exchange_starts chain)" using assms by simp
  then show ?thesis
    using overflow_result[OF refl, where tk = tk and s = "idle_start now c chain" and chain = chain
        and trim = "snd (window_limits c)" and js = "exchange_starts chain"] limits_ordered[of c] window_start_le[OF assms, of tk now c]
    unfolding w[symmetric] by (meson le_antisym order_trans)
next
  case False
  then show ?thesis by (simp add: window_start_def Let_def)
qed

lemma get_prompt_window_simps:
  assumes "exchange_starts (window_chain limit c) \<noteq> []"
  shows "pw_frames (fst (get_prompt_window tk limit now c))
      = map shorten_frame_for_prompt (drop (window_start tk now c (window_chain limit c)) (window_chain limit c))"
    "cv_window_start (snd (get_prompt_window tk limit now c)) = f_uuid (window_chain limit c ! window_start tk now c (window_chain limit c))"
  using assms by (simp_all add: get_prompt_window_def Let_def)

text \<open>C40: Let the projected conversation, cut to the frame limit, have a user frame (the start of an exchange).  Then what a command
  sends is an end of it that reaches back at least to the newest exchange, with its long replies shortened; and its tokens,
  counted before shortening, exceed the limit of the window only when that newest exchange is all it sends.\<close>

theorem window_fits_and_has_the_newest_exchange:
  assumes "exchange_starts (window_chain limit c) \<noteq> []"
  shows "\<exists>s \<le> last (exchange_starts (window_chain limit c)).
    pw_frames (fst (get_prompt_window tk limit now c)) = map shorten_frame_for_prompt (drop s (window_chain limit c)) \<and>
    (conversation_frame_tokens tk (drop s (window_chain limit c)) \<le> fst (window_limits c) \<or> s = last (exchange_starts (window_chain limit c)))"
  by (intro exI[of _ "window_start tk now c (window_chain limit c)"] conjI window_start_le window_start_fits get_prompt_window_simps(1) assms)

section \<open>Stability\<close>

lemma exchange_starts_append: "\<exists>more_starts. exchange_starts (chain @ new) = exchange_starts chain @ more_starts"
proof -
  have "exchange_starts (chain @ new)
      = filter (\<lambda>i. f_role ((chain @ new) ! i) = USER) ([0..<length chain] @ [length chain..<length chain + length new])"
    unfolding exchange_starts_def length_append by (subst upt_add_eq_append) (rule le0, rule refl)
  also have "\<dots> = exchange_starts chain @ filter (\<lambda>i. f_role ((chain @ new) ! i) = USER) [length chain..<length chain + length new]"
    unfolding exchange_starts_def filter_append by (rule arg_cong2[where f = "(@)"]) (auto simp: nth_append intro: filter_cong)
  finally show ?thesis by blast
qed

lemma sticky_start_found:
  assumes "s \<in> insert 0 (set (exchange_starts chain))" "distinct (map f_uuid chain)" "opt_truthy (f_uuid (chain ! s))" "chain \<noteq> []"
  shows "sticky_start chain (f_uuid (chain ! s)) = s"
proof -
  have unique: "i = s" if "i \<in> set (exchange_starts chain)" "f_uuid (chain ! i) = f_uuid (chain ! s)" for i
    using that assms nth_eq_iff_index_eq[OF assms(2), of i s] by (auto simp: in_exchange_starts)
  show ?thesis
  proof (cases "List.find (\<lambda>i. f_uuid (chain ! i) = f_uuid (chain ! s)) (exchange_starts chain)")
    case None
    then have "s \<notin> set (exchange_starts chain)" by (auto simp: find_None_iff)
    with None assms show ?thesis by (simp add: sticky_start_def)
  next
    case (Some i)
    then have "i \<in> set (exchange_starts chain)" "f_uuid (chain ! i) = f_uuid (chain ! s)" by (auto simp: find_Some_iff)
    with Some unique assms(3) show ?thesis by (simp add: sticky_start_def)
  qed
qed

text \<open>In a saved thread the request of one command starts with what the command before it sent, as long as the window fits its
  limit: frames that were added since then come at the end.\<close>

lemma window_only_grows:
  assumes "exchange_starts (window_chain limit c) \<noteq> []"
    "cv_window_start d = cv_window_start (snd (get_prompt_window tk limit now c))" "cv_explicit d \<noteq> None"
    "window_chain limit d = window_chain limit c @ new"
    "distinct (map f_uuid (window_chain limit d))" "list_all (\<lambda>f. opt_truthy (f_uuid f)) (window_chain limit d)"
    "conversation_frame_tokens tk' (drop (window_start tk now c (window_chain limit c)) (window_chain limit d)) \<le> PROMPT_WINDOW_THREAD_MAX_TOKENS"
  shows "pw_frames (fst (get_prompt_window tk' limit now' d))
    = pw_frames (fst (get_prompt_window tk limit now c)) @ map shorten_frame_for_prompt new"
proof -
  let ?old = "window_chain limit c" and ?s = "window_start tk now c (window_chain limit c)"
  have s: "?s \<in> insert 0 (set (exchange_starts ?old))" using window_start_in[OF assms(1)] .
  then have len: "?s < length ?old" using assms(1) by (auto simp: exchange_starts_def filter_empty_conv)
  obtain js where js: "exchange_starts (window_chain limit d) = exchange_starts ?old @ js"
    using exchange_starts_append[of ?old new] assms(4) by auto
  have same: "window_chain limit d ! ?s = ?old ! ?s" using assms(4) len by (simp add: nth_append)
  have "sticky_start (window_chain limit d) (f_uuid (window_chain limit d ! ?s)) = ?s"
  proof (rule sticky_start_found[OF _ assms(5)])
    show "?s \<in> insert 0 (set (exchange_starts (window_chain limit d)))" using s js by auto
    show "opt_truthy (f_uuid (window_chain limit d ! ?s))" using assms(4,6) len by (metis list_all_iff nth_mem length_append trans_less_add1)
    show "window_chain limit d \<noteq> []" using assms(4) len by auto
  qed
  then have "idle_start now' d (window_chain limit d) = ?s"
    using assms(2,3) get_prompt_window_simps(2)[OF assms(1), of tk now] same by (simp add: idle_start_def)
  then have "window_start tk' now' d (window_chain limit d) = ?s"
    using assms(3,7) by (simp add: window_start_def window_limits_def)
  moreover have "exchange_starts (window_chain limit d) \<noteq> []" using js assms(1) by simp
  ultimately show ?thesis
    using get_prompt_window_simps(1)[OF assms(1), of tk now] len by (simp add: get_prompt_window_simps(1) assms(4))
qed

end
