(* ===== verification/Conversation_Compaction.thy ===== *)
theory Conversation_Compaction
  imports Conversation_Window
begin

text \<open>
  Compaction of the live conversation (\<open>compact\<close>, \<open>micro_compact\<close> and \<open>clear_history\<close> of
  \<open>services/conversation/state_manager.py\<close>).  \<open>compact\<close> waits for the summary of the dropped frames; it is two steps,
  \<open>begin_compaction\<close> up to the waiting and \<open>finish_compaction\<close> after it, and other methods may run in between.
\<close>

section \<open>When to compact\<close>

definition COMPACTION_TRIGGER_PERCENT :: int where "COMPACTION_TRIGGER_PERCENT = 75"

definition MAX_CONSECUTIVE_COMPACTION_FAILURES :: nat where "MAX_CONSECUTIVE_COMPACTION_FAILURES = 3"

definition MAX_OUTPUT_TOKENS_FOR_SUMMARY :: int where "MAX_OUTPUT_TOKENS_FOR_SUMMARY = 20000"

definition AUTOCOMPACT_BUFFER_TOKENS :: int where "AUTOCOMPACT_BUFFER_TOKENS = 13000"

text \<open>\<open>token_budget or self.default_context_tokens\<close>\<close>

definition budget_or_default :: "int option \<Rightarrow> conversation \<Rightarrow> int" where
  "budget_or_default token_budget c = (case token_budget of Some n \<Rightarrow> if n \<noteq> 0 then n else cv_default_tokens c | None \<Rightarrow> cv_default_tokens c)"

definition effective_context_window_size :: "int option \<Rightarrow> conversation \<Rightarrow> int" where
  "effective_context_window_size token_budget c = (let budget = max 1 (budget_or_default token_budget c);
     reserved = min MAX_OUTPUT_TOKENS_FOR_SUMMARY (max 1 (budget div 2)) in max 1 (budget - reserved))"

definition autocompact_threshold :: "int option \<Rightarrow> conversation \<Rightarrow> int" where
  "autocompact_threshold token_budget c = (let threshold = effective_context_window_size token_budget c - AUTOCOMPACT_BUFFER_TOKENS in
     if threshold \<le> 0 then max 1 (budget_or_default token_budget c) * COMPACTION_TRIGGER_PERCENT div 100 else threshold)"

definition autocompact_circuit_open :: "conversation \<Rightarrow> bool" where
  "autocompact_circuit_open c = (MAX_CONSECUTIVE_COMPACTION_FAILURES \<le> cv_failures c)"

definition compaction_source_guarded :: "string option \<Rightarrow> bool" where
  "compaction_source_guarded query_source = (py_lower (py_strip (opt_str query_source)) \<in> {''session_memory'', ''compact''})"

definition needs_compaction :: "tokenizer option \<Rightarrow> int option \<Rightarrow> string option \<Rightarrow> conversation \<Rightarrow> bool" where
  "needs_compaction tk token_budget query_source c = (
     if cv_disabled c \<or> autocompact_circuit_open c \<or> compaction_source_guarded query_source then False
     else conversation_frame_tokens tk (project_prompt_frame_chain c (cv_frames c) False) > autocompact_threshold token_budget c)"

section \<open>The summary's input\<close>

definition legacy_messages_from_frames :: "int \<Rightarrow> frame list \<Rightarrow> legacy_message list" where
  "legacy_messages_from_frames now fs = List.map_filter (frame_to_legacy_message now) fs"

definition summary_message :: "int \<Rightarrow> frame \<Rightarrow> legacy_message option" where
  "summary_message now f = (case frame_to_legacy_message now f of
      Some m \<Rightarrow> Some m
    | None \<Rightarrow> (let content = py_strip (frame_text f) in
        if \<not> (f_is_compact_summary f \<or> f_is_meta f) \<or> content = [] \<or> is_internal_history_artifact (role_value (f_role f)) content
        then None
        else Some \<lparr>lm_role = (if f_role f = SYSTEM then ''system'' else ''user''), lm_content = content,
          lm_timestamp = (if f_timestamp_ms f \<noteq> 0 then f_timestamp_ms f else now),
          lm_tokens = count_words False content + MESSAGE_TOKEN_OVERHEAD, lm_metadata = f_extra f\<rparr>))"

definition messages_for_compaction_summary :: "int \<Rightarrow> frame list \<Rightarrow> legacy_message list" where
  "messages_for_compaction_summary now fs = List.map_filter (summary_message now) fs"

section \<open>Hooks\<close>

text \<open>What a hook returns, or that it raises\<close>

datatype hook_output = HookRaises | HookNone | HookFrame frame | HookText string | HookItems "hook_output list" | HookOther

fun coerce_post_compaction_hook_frames :: "string \<Rightarrow> nat \<Rightarrow> hook_output \<Rightarrow> frame list" where
  "coerce_post_compaction_hook_frames session i (HookFrame f) =
     [f\<lparr>f_is_meta := True, f_origin := opt_or (f_origin f) (Some ''hook''), f_session_id := opt_or (f_session_id f) (Some session)\<rparr>]"
| "coerce_post_compaction_hook_frames session i (HookText s) = (if py_strip s = [] then [] else
     [(new_frame SYSTEM_REMINDER META_USER [SystemReminderBlock (py_strip s) (Some ''post-compact-hook'')])
       \<lparr>f_is_meta := True, f_origin := Some ''hook'', f_session_id := Some session,
         f_extra := [(''hook_event'', PyStr ''PostCompact''), (''hook_index'', PyInt (int i))]\<rparr>])"
| "coerce_post_compaction_hook_frames session i (HookItems xs) = concat (map (coerce_post_compaction_hook_frames session i) xs)"
| "coerce_post_compaction_hook_frames session i _ = []"

definition run_post_compaction_hooks_as_frames :: "string \<Rightarrow> hook_output list \<Rightarrow> frame list" where
  "run_post_compaction_hooks_as_frames session outputs =
     concat (map (\<lambda>(i, out). coerce_post_compaction_hook_frames session i out) (zip [0..<length outputs] outputs))"

text \<open>\<open>hook\<close> is the instructions that the PreCompact hooks answer with.\<close>

definition pre_compact_instructions :: "string option \<Rightarrow> string option \<Rightarrow> string option" where
  "pre_compact_instructions custom hook = (let extra = py_strip (opt_str hook) in
     if extra = [] then custom
     else Some (if opt_truthy custom then opt_str custom @ newline @ newline @ extra else extra))"

section \<open>Compacting\<close>

definition compaction_request_of ::
    "tokenizer option \<Rightarrow> int \<Rightarrow> frame list \<Rightarrow> int \<Rightarrow> string \<Rightarrow> string \<Rightarrow> string option \<Rightarrow> compaction_request" where
  "compaction_request_of tk keep_tokens fs budget reason model summary = (plain_request fs budget reason (Some model))
     \<lparr>cq_summary_text := summary, cq_token_counter := Some (count_tokens tk), cq_keep_tokens := keep_tokens\<rparr>"

datatype compaction_step = NotCompacted | CompactionRaised | AwaitsSummary "legacy_message list" | Compacted

record compact_args =
  ca_token_budget :: "int option"
  ca_trigger :: string
  ca_reason :: string
  ca_query_source :: "string option"
  ca_custom_instructions :: "string option"

text \<open>\<open>keep\<close> gives, for a budget, the tokens to keep of it (see \<open>Typed_Compaction\<close>).\<close>

definition begin_compaction ::
    "tokenizer option \<Rightarrow> (int \<Rightarrow> int) \<Rightarrow> (nat \<Rightarrow> string) \<Rightarrow> int \<Rightarrow> string option \<Rightarrow> compact_args \<Rightarrow> conversation \<Rightarrow>
     compaction_step \<times> conversation" where
  "begin_compaction tk keep fresh now hook a c = (
     if cv_compacting c \<noteq> None \<or> cv_disabled c \<or> (ca_trigger a = ''auto'' \<and> compaction_source_guarded (ca_query_source a))
       \<or> autocompact_circuit_open c \<or> length (cv_frames c) < 6 then (NotCompacted, c)
     else (let budget = budget_or_default (ca_token_budget a) c in
       case compact_frames fresh now (compaction_request_of tk (keep budget) (cv_frames c) budget (ca_reason a) (cv_model c) None) of
         Inl e \<Rightarrow> (CompactionRaised, c\<lparr>cv_failures := cv_failures c + 1\<rparr>)
       | Inr r \<Rightarrow> if \<not> cp_compacted r then (NotCompacted, c)
           else (AwaitsSummary (messages_for_compaction_summary now (cp_dropped_frames r)),
             c\<lparr>cv_compacting := Some \<lparr>pd_frames = cv_frames c, pd_budget = budget, pd_reason = ca_reason a,
               pd_instructions = pre_compact_instructions (ca_custom_instructions a) hook\<rparr>\<rparr>)))"

fun write_frames :: "cipher \<Rightarrow> string \<Rightarrow> int \<Rightarrow> string \<Rightarrow> string \<Rightarrow> frame list \<Rightarrow> log_row list \<Rightarrow> storage_error option \<times> log_row list" where
  "write_frames ci fresh now user session [] rows = (None, rows)"
| "write_frames ci fresh now user session (f # fs) rows = (case write_turn ci fresh now user session f rows of
      Inl e \<Rightarrow> (Some e, rows)
    | Inr rows' \<Rightarrow> write_frames ci fresh now user session fs rows')"

definition persist_append_only_frames ::
    "cipher \<Rightarrow> string \<Rightarrow> int \<Rightarrow> frame list \<Rightarrow> conversation \<Rightarrow> log_row list \<Rightarrow> storage_error option \<times> log_row list" where
  "persist_append_only_frames ci fresh now fs c rows = write_frames ci fresh now (cv_user c) (cv_session c) fs rows"

text \<open>\<open>summary\<close> is what the model answered; the installed frames take missing ids from \<open>fresh_hook\<close>.\<close>

definition finish_compaction ::
    "cipher \<Rightarrow> tokenizer option \<Rightarrow> (int \<Rightarrow> int) \<Rightarrow> (nat \<Rightarrow> string) \<Rightarrow> (nat \<Rightarrow> string) \<Rightarrow> int \<Rightarrow> string option \<Rightarrow> hook_output list \<Rightarrow>
     conversation \<Rightarrow> log_row list \<Rightarrow> compaction_step \<times> conversation \<times> log_row list" where
  "finish_compaction ci tk keep fresh fresh_hook now summary hooks c rows = (case cv_compacting c of
      None \<Rightarrow> (NotCompacted, c, rows)
    | Some p \<Rightarrow> (let
        idle = c\<lparr>cv_compacting := None\<rparr>; failed = idle\<lparr>cv_failures := cv_failures c + 1\<rparr>;
        chosen = (if \<not> opt_truthy summary \<and> opt_truthy (pd_instructions p) then pd_instructions p else summary) in
      case compact_frames fresh now
          (compaction_request_of tk (keep (pd_budget p)) (pd_frames p) (pd_budget p) (pd_reason p) (cv_model c) chosen) of
        Inl e \<Rightarrow> (CompactionRaised, failed, rows)
      | Inr r \<Rightarrow> if \<not> cp_compacted r then (NotCompacted, failed, rows)
          else (let
            installed = install_frame_chain fresh_hook now
              (compaction_frames r @ run_post_compaction_hooks_as_frames (cv_session c) hooks) idle;
            (err, rows') = persist_append_only_frames ci (fresh_hook 0) now (cv_frames installed) installed rows in
          case err of
            Some e \<Rightarrow> (CompactionRaised, installed\<lparr>cv_failures := cv_failures c + 1\<rparr>, rows')
          | None \<Rightarrow> (Compacted, (snd (mark_snipped_frames tk (cp_dropped_frame_uuids r) (installed\<lparr>cv_surfaced := {}\<rparr>)))
              \<lparr>cv_failures := 0\<rparr>, rows'))))"

text \<open>\<open>token_count < token_budget * 0.5\<close>\<close>

definition micro_compact :: "tokenizer option \<Rightarrow> (nat \<Rightarrow> string) \<Rightarrow> (nat \<Rightarrow> string) \<Rightarrow> int \<Rightarrow> int \<Rightarrow> conversation \<Rightarrow> compaction_error + conversation" where
  "micro_compact tk fresh fresh2 now token_budget c = (
     if 2 * conversation_frame_tokens tk (cv_frames c) < token_budget \<or> length (cv_frames c) \<le> 6 then Inr c
     else (case microcompact_frames fresh now (Some (cv_frames c)) token_budget ''microcompact'' (Some (cv_model c))
         (Some (count_tokens tk)) DEFAULT_MIN_KEEP_FRAMES DEFAULT_TOOL_RESULT_CHAR_BUDGET of
       Inl e \<Rightarrow> Inl e
     | Inr r \<Rightarrow> Inr (if cp_compacted r then install_frame_chain fresh2 now (compaction_frames r) c else c)))"

section \<open>Clearing, and memories shown\<close>

definition clear_conversation :: "string \<Rightarrow> conversation \<Rightarrow> log_row list \<Rightarrow> conversation \<times> log_row list" where
  "clear_conversation fresh c rows = (c\<lparr>cv_frames := [], cv_history := [], cv_tokens := 0, cv_surfaced := {}, cv_session := fresh\<rparr>,
     snd (clear_rows (cv_user c) None rows))"

definition add_surfaced_ids :: "int set \<Rightarrow> conversation \<Rightarrow> conversation" where
  "add_surfaced_ids ids c = c\<lparr>cv_surfaced := cv_surfaced c \<union> ids\<rparr>"

definition reset_surfaced_memories :: "conversation \<Rightarrow> conversation" where
  "reset_surfaced_memories c = c\<lparr>cv_surfaced := {}\<rparr>"

end
