(* ===== verification/Interruption.thy ===== *)
theory Interruption
  imports Frame_Invariants
begin

text \<open>
  How a saved transcript stopped (\<open>services/conversation/repair.py\<close>):
  \<open>classify_interruption_state\<close> over frames and over provider messages.  The loop keeps the
  dict \<open>tool_use_ids\<close>, of which only the keys in insertion order are read, and the set
  \<open>seen_results\<close>.  Python refuses an unhashable role in \<open>role in {"user", "tool"}\<close> and
  an unknown state in \<open>__post_init__\<close>: both are errors of the model.
\<close>

section \<open>The classification\<close>

definition INTERRUPTION_COMPLETED :: string where
  "INTERRUPTION_COMPLETED = ''completed''"

definition INTERRUPTION_PROMPT :: string where
  "INTERRUPTION_PROMPT = ''interrupted_prompt''"

definition INTERRUPTION_TOOL :: string where
  "INTERRUPTION_TOOL = ''interrupted_tool''"

definition INTERRUPTION_TRAILING_USER :: string where
  "INTERRUPTION_TRAILING_USER = ''trailing_user''"

definition INTERRUPTION_ATTACHMENT_ONLY :: string where
  "INTERRUPTION_ATTACHMENT_ONLY = ''attachment_only''"

definition INTERRUPTION_EMPTY :: string where
  "INTERRUPTION_EMPTY = ''empty''"

lemmas interruption_states = INTERRUPTION_COMPLETED_def INTERRUPTION_PROMPT_def INTERRUPTION_TOOL_def
  INTERRUPTION_TRAILING_USER_def INTERRUPTION_ATTACHMENT_ONLY_def INTERRUPTION_EMPTY_def

definition INTERRUPTION_VALUES :: "string list" where
  "INTERRUPTION_VALUES = [INTERRUPTION_COMPLETED, INTERRUPTION_PROMPT, INTERRUPTION_TOOL,
     INTERRUPTION_TRAILING_USER, INTERRUPTION_ATTACHMENT_ONLY, INTERRUPTION_EMPTY]"

record interruption =
  in_state :: string
  in_unmatched :: "string list"
  in_last_user_text :: "string option"

datatype interruption_error = UnknownInterruptionState string | UnhashableRole

text \<open>\<open>InterruptionClassification(...)\<close> with its \<open>__post_init__\<close>\<close>

definition make_interruption ::
    "string \<Rightarrow> string list \<Rightarrow> string option \<Rightarrow> interruption_error + interruption" where
  "make_interruption st unmatched last_text =
    (if st \<notin> set INTERRUPTION_VALUES then Inl (UnknownInterruptionState st)
     else Inr \<lparr>in_state = st, in_unmatched = unmatched, in_last_user_text = last_text\<rparr>)"

section \<open>Calls and results seen\<close>

text \<open>The keys of \<open>tool_use_ids\<close> in insertion order, and \<open>seen_results\<close>.\<close>

type_synonym call_log = "string list \<times> string set"

definition log_use :: "string \<Rightarrow> call_log \<Rightarrow> call_log" where
  "log_use i l = (if i = [] \<or> i \<in> set (fst l) then l else (fst l @ [i], snd l))"

definition log_result :: "string \<Rightarrow> call_log \<Rightarrow> call_log" where
  "log_result i l = (if i = [] then l else (fst l, insert i (snd l)))"

definition unmatched_ids :: "call_log \<Rightarrow> string list" where
  "unmatched_ids l = filter (\<lambda>i. i \<notin> snd l) (fst l)"

fun log_block :: "content_block \<Rightarrow> call_log \<Rightarrow> call_log" where
  "log_block (ToolUseBlock i _ _) l = log_use i l"
| "log_block (ToolResultBlock i _ _ _) l = log_result i l"
| "log_block _ l = l"

definition log_frames :: "frame list \<Rightarrow> call_log" where
  "log_frames fs = fold (\<lambda>f. fold log_block (f_blocks f)) fs ([], {})"

section \<open>Texts\<close>

fun block_text :: "content_block \<Rightarrow> string" where
  "block_text (TextBlock t) = t"
| "block_text (SystemReminderBlock t _) = t"
| "block_text (ToolResultBlock _ _ content _) = content"
| "block_text (ToolUseBlock i name _) = name @ ''('' @ i @ '')''"

definition repair_frame_text :: "frame \<Rightarrow> string" where
  "repair_frame_text f =
     py_strip (join_with newline (filter (\<lambda>p. p \<noteq> []) (map block_text (f_blocks f))))"



section \<open>Frames\<close>

text \<open>\<open>text or None\<close>\<close>

definition text_or_none :: "string \<Rightarrow> string option" where
  "text_or_none t = (if t = [] then None else Some t)"

text \<open>The common end of both classifiers: the ids without a result, whether the transcript ends
  with the assistant, and the text of its last message.\<close>

definition classify_tail ::
    "string list \<Rightarrow> bool \<Rightarrow> string \<Rightarrow> interruption_error + interruption" where
  "classify_tail unmatched assistant_last last_text =
    (if assistant_last
     then (if unmatched \<noteq> [] then make_interruption INTERRUPTION_TOOL unmatched None
           else make_interruption INTERRUPTION_COMPLETED [] None)
     else if unmatched \<noteq> []
     then make_interruption INTERRUPTION_TRAILING_USER unmatched (text_or_none last_text)
     else if last_text = [] then make_interruption INTERRUPTION_ATTACHMENT_ONLY [] None
     else make_interruption INTERRUPTION_PROMPT [] (Some last_text))"

definition classify_typed_interruption :: "frame list \<Rightarrow> interruption_error + interruption" where
  "classify_typed_interruption fs = (let behavioural = filter (\<lambda>f. \<not> f_is_meta f) fs in
     if behavioural = [] then make_interruption INTERRUPTION_EMPTY [] None
     else (let unmatched = unmatched_ids (log_frames behavioural); latest = last behavioural
           in classify_tail unmatched (f_role latest = ASSISTANT) (repair_frame_text latest)))"

section \<open>Provider messages\<close>













section \<open>The entry point\<close>

datatype saved_message = SavedFrame frame | SavedDict pydict | SavedOther




section \<open>The log\<close>

definition log_ok :: "call_log \<Rightarrow> bool" where
  "log_ok l = (distinct (fst l) \<and> [] \<notin> set (fst l) \<and> [] \<notin> snd l)"


lemma log_ok_step [intro]:
  "log_ok l \<Longrightarrow> log_ok (log_use i l)" "log_ok l \<Longrightarrow> log_ok (log_result i l)"
  by (auto simp: log_ok_def log_use_def log_result_def)







text \<open>Over frames the log is the list of calls in order of their first frame and the set of results.\<close>

lemma log_blocks:
  "set (fst (fold log_block bs l)) = set (fst l) \<union> set (block_use_ids bs)
   \<and> snd (fold log_block bs l) = snd l \<union> set (block_result_ids bs)"
proof (induction bs arbitrary: l)
  case (Cons b bs)
  show ?case by (cases b) (auto simp: Cons log_use_def log_result_def)
qed simp

lemma log_frames_sets:
  "set (fst (log_frames fs)) = set (use_list (frames_events fs)) - {[]}"
  "snd (log_frames fs) = set (res_list (frames_events fs)) - {[]}"
proof -
  have "set (fst (fold (\<lambda>f. fold log_block (f_blocks f)) fs l)) = set (fst l) \<union> (set (use_list (frames_events fs)) - {[]})
    \<and> snd (fold (\<lambda>f. fold log_block (f_blocks f)) fs l) = snd l \<union> (set (res_list (frames_events fs)) - {[]})" for l
  proof (induction fs arbitrary: l)
    case (Cons f fs)
    have u: "set (block_use_ids (f_blocks f)) = set (use_list (frame_events f)) - {[]}"
      and r: "set (block_result_ids (f_blocks f)) = set (res_list (frame_events f)) - {[]}"
      unfolding use_list_frame_events[symmetric] res_list_frame_events[symmetric] by auto
    show ?case
      using Cons.IH[of "fold log_block (f_blocks f) l"] log_blocks[of "f_blocks f" l] u r by auto
  qed simp
  from this[of "([], {})"] show "set (fst (log_frames fs)) = set (use_list (frames_events fs)) - {[]}"
    "snd (log_frames fs) = set (res_list (frames_events fs)) - {[]}"
    by (simp_all add: log_frames_def)
qed

section \<open>What a classification says\<close>

lemma make_interruption_simps [simp]:
  "make_interruption INTERRUPTION_COMPLETED u t = Inr \<lparr>in_state = INTERRUPTION_COMPLETED, in_unmatched = u, in_last_user_text = t\<rparr>"
  "make_interruption INTERRUPTION_PROMPT u t = Inr \<lparr>in_state = INTERRUPTION_PROMPT, in_unmatched = u, in_last_user_text = t\<rparr>"
  "make_interruption INTERRUPTION_TOOL u t = Inr \<lparr>in_state = INTERRUPTION_TOOL, in_unmatched = u, in_last_user_text = t\<rparr>"
  "make_interruption INTERRUPTION_TRAILING_USER u t = Inr \<lparr>in_state = INTERRUPTION_TRAILING_USER, in_unmatched = u, in_last_user_text = t\<rparr>"
  "make_interruption INTERRUPTION_ATTACHMENT_ONLY u t = Inr \<lparr>in_state = INTERRUPTION_ATTACHMENT_ONLY, in_unmatched = u, in_last_user_text = t\<rparr>"
  "make_interruption INTERRUPTION_EMPTY u t = Inr \<lparr>in_state = INTERRUPTION_EMPTY, in_unmatched = u, in_last_user_text = t\<rparr>"
  by (simp_all add: make_interruption_def INTERRUPTION_VALUES_def)


lemma state_distinct [simp]:
  "INTERRUPTION_COMPLETED \<noteq> INTERRUPTION_PROMPT" "INTERRUPTION_COMPLETED \<noteq> INTERRUPTION_TOOL" "INTERRUPTION_COMPLETED \<noteq> INTERRUPTION_TRAILING_USER" "INTERRUPTION_COMPLETED \<noteq> INTERRUPTION_ATTACHMENT_ONLY" "INTERRUPTION_COMPLETED \<noteq> INTERRUPTION_EMPTY"
  "INTERRUPTION_PROMPT \<noteq> INTERRUPTION_COMPLETED" "INTERRUPTION_PROMPT \<noteq> INTERRUPTION_TOOL" "INTERRUPTION_PROMPT \<noteq> INTERRUPTION_TRAILING_USER" "INTERRUPTION_PROMPT \<noteq> INTERRUPTION_ATTACHMENT_ONLY" "INTERRUPTION_PROMPT \<noteq> INTERRUPTION_EMPTY"
  "INTERRUPTION_TOOL \<noteq> INTERRUPTION_COMPLETED" "INTERRUPTION_TOOL \<noteq> INTERRUPTION_PROMPT" "INTERRUPTION_TOOL \<noteq> INTERRUPTION_TRAILING_USER" "INTERRUPTION_TOOL \<noteq> INTERRUPTION_ATTACHMENT_ONLY" "INTERRUPTION_TOOL \<noteq> INTERRUPTION_EMPTY"
  "INTERRUPTION_TRAILING_USER \<noteq> INTERRUPTION_COMPLETED" "INTERRUPTION_TRAILING_USER \<noteq> INTERRUPTION_PROMPT" "INTERRUPTION_TRAILING_USER \<noteq> INTERRUPTION_TOOL" "INTERRUPTION_TRAILING_USER \<noteq> INTERRUPTION_ATTACHMENT_ONLY" "INTERRUPTION_TRAILING_USER \<noteq> INTERRUPTION_EMPTY"
  "INTERRUPTION_ATTACHMENT_ONLY \<noteq> INTERRUPTION_COMPLETED" "INTERRUPTION_ATTACHMENT_ONLY \<noteq> INTERRUPTION_PROMPT" "INTERRUPTION_ATTACHMENT_ONLY \<noteq> INTERRUPTION_TOOL" "INTERRUPTION_ATTACHMENT_ONLY \<noteq> INTERRUPTION_TRAILING_USER" "INTERRUPTION_ATTACHMENT_ONLY \<noteq> INTERRUPTION_EMPTY"
  "INTERRUPTION_EMPTY \<noteq> INTERRUPTION_COMPLETED" "INTERRUPTION_EMPTY \<noteq> INTERRUPTION_PROMPT" "INTERRUPTION_EMPTY \<noteq> INTERRUPTION_TOOL" "INTERRUPTION_EMPTY \<noteq> INTERRUPTION_TRAILING_USER" "INTERRUPTION_EMPTY \<noteq> INTERRUPTION_ATTACHMENT_ONLY"
  by (simp_all add: interruption_states)







text \<open>What the unmatched ids of a frame transcript are: the calls of its frames that are not
  meta and that no such frame answers; the state is \<open>interrupted_tool\<close> or \<open>trailing_user\<close> when
  there are any, as the assistant was last to speak or not.\<close>

lemma classify_typed_exact:
  assumes "filter (\<lambda>f. \<not> f_is_meta f) fs \<noteq> []"
  shows "\<exists>c. classify_typed_interruption fs = Inr c
    \<and> set (in_unmatched c) = (let es = frames_events (filter (\<lambda>f. \<not> f_is_meta f) fs)
        in set (use_list es) - set (res_list es) - {[]})
    \<and> (in_state c \<in> {INTERRUPTION_TOOL, INTERRUPTION_COMPLETED}
        \<longleftrightarrow> f_role (last (filter (\<lambda>f. \<not> f_is_meta f) fs)) = ASSISTANT)"
proof -
  let ?b = "filter (\<lambda>f. \<not> f_is_meta f) fs"
  let ?u = "unmatched_ids (log_frames ?b)"
  have u: "set ?u = set (use_list (frames_events ?b)) - set (res_list (frames_events ?b)) - {[]}"
    unfolding unmatched_ids_def set_filter log_frames_sets by auto
  have "\<exists>c. classify_tail ?u a t = Inr c \<and> in_unmatched c = ?u
      \<and> (in_state c \<in> {INTERRUPTION_TOOL, INTERRUPTION_COMPLETED} \<longleftrightarrow> a)" for a t
    by (auto simp: classify_tail_def)
  from this[of "f_role (last ?b) = ASSISTANT" "repair_frame_text (last ?b)"] assms u show ?thesis
    by (auto simp: classify_typed_interruption_def Let_def)
qed

end
