(* ===== verification/Transcript_Repair.thy ===== *)
theory Transcript_Repair
  imports Interruption Lineage
begin

text \<open>
  Repair of a saved transcript on resume (\<open>services/conversation/repair.py\<close>):
  \<open>recover_transcript_on_resume\<close> and its helpers.  The local variables of its loop are the
  record \<open>recovery\<close>.  The ids that \<open>uuid.uuid4()\<close> draws are an argument \<open>fresh\<close>, read at 0
  for the leading placeholder, at 1 for the first appended frame and at 2 for the second.
  Paths are POSIX paths and the working directory is an argument \<open>cwd\<close>.
\<close>

section \<open>Texts\<close>

definition TRANSCRIPT_RECOVERY_CONTINUE_TEXT :: string where
  "TRANSCRIPT_RECOVERY_CONTINUE_TEXT = ''Continue from where you left off.''"

definition TRANSCRIPT_RECOVERY_ORIGIN :: string where
  "TRANSCRIPT_RECOVERY_ORIGIN = ''transcript_recovery''"

definition TRANSCRIPT_RECOVERY_SOURCE_TAG :: string where
  "TRANSCRIPT_RECOVERY_SOURCE_TAG = ''transcript-recovery''"

definition NO_RESPONSE_REQUESTED_SENTINEL :: string where
  "NO_RESPONSE_REQUESTED_SENTINEL = ''(no response requested)''"

definition NO_RESPONSE_REQUESTED_ORIGIN :: string where
  "NO_RESPONSE_REQUESTED_ORIGIN = ''no_response_requested''"

definition VALID_PERMISSION_MODES :: "string list" where
  "VALID_PERMISSION_MODES = [''default'', ''acceptEdits'', ''bypassPermissions'', ''dontAsk'', ''plan'',
     ''auto'', ''bubble'', ''ask'', ''allow'', ''deny'']"

record transcript_recovery =
  tr_frames :: "frame list"
  tr_stripped_orphan_tool_results :: nat
  tr_synthetic_tool_results :: nat
  tr_appended_continue :: bool
  tr_stripped_thinking_only :: nat
  tr_stripped_whitespace_only :: nat
  tr_recovered_parallel_tool_results :: nat
  tr_appended_no_response_sentinel :: bool
  tr_stripped_invalid_permission_modes :: nat
  tr_migrated_legacy_attachments :: nat

section \<open>Legacy attachments\<close>

text \<open>\<open>pathlib.Path\<close>: the root (two leading slashes, but not three, are a root of their own)
  and the parts, empty ones and single dots dropped.\<close>

definition path_root :: "string \<Rightarrow> string" where
  "path_root s = (if starts_with ''//'' s \<and> \<not> starts_with ''///'' s then ''//''
     else if starts_with ''/'' s then ''/'' else [])"

fun split_slash :: "string \<Rightarrow> string list" where
  "split_slash [] = [[]]"
| "split_slash (c # cs) = (if c = CHR ''/'' then [] # split_slash cs
     else (case split_slash cs of [] \<Rightarrow> [[c]] | p # ps \<Rightarrow> (c # p) # ps))"

definition path_parts :: "string \<Rightarrow> string list" where
  "path_parts s = filter (\<lambda>p. p \<noteq> [] \<and> p \<noteq> ''.'') (split_slash s)"

text \<open>\<open>str(path.relative_to(base))\<close>, or nothing where Python raises \<open>ValueError\<close>\<close>

definition relative_to :: "string \<Rightarrow> string \<Rightarrow> string option" where
  "relative_to s base =
    (if path_root s = path_root base \<and> take (length (path_parts base)) (path_parts s) = path_parts base
     then (let rest = drop (length (path_parts base)) (path_parts s)
           in Some (if rest = [] then ''.'' else join_with ''/'' rest))
     else None)"

definition display_path_for_attachment :: "string \<Rightarrow> pyval \<Rightarrow> string option" where
  "display_path_for_attachment cwd v = (let text = py_strip (str_or_empty v) in
     if text = [] then None
     else if path_root text \<noteq> []
     then (case relative_to text cwd of Some p \<Rightarrow> Some p | None \<Rightarrow> Some text)
     else Some text)"

text \<open>The payload with its type renamed, the value to show, and whether the type was renamed.\<close>

definition attachment_source :: "pydict \<Rightarrow> pydict \<times> pyval \<times> nat" where
  "attachment_source a = (let ty = str_or_empty (py_get ''type'' a) in
     if ty = ''new_file'' then (let a' = py_set ''type'' (PyStr ''file'') a in (a', py_get ''filename'' a', 1))
     else if ty = ''new_directory''
     then (let a' = py_set ''type'' (PyStr ''directory'') a in (a', py_get ''path'' a', 1))
     else if \<not> py_has ''displayPath'' a
     then (a, py_or (py_or (py_get ''filename'' a) (py_get ''path'' a)) (py_get ''skillDir'' a), 0)
     else (a, PyNone, 0))"

definition migrate_attachment_payload :: "string \<Rightarrow> pyval \<Rightarrow> pyval \<times> nat" where
  "migrate_attachment_payload cwd payload = (case payload of
     PyDict a \<Rightarrow> (let ty = str_or_empty (py_get ''type'' a); (a1, source, n) = attachment_source a;
         (a2, n2) =
           (if source \<noteq> PyNone \<and> (\<not> py_has ''displayPath'' a1 \<or> ty = ''new_file'' \<or> ty = ''new_directory'')
            then (case display_path_for_attachment cwd source of
                None \<Rightarrow> (a1, n)
              | Some p \<Rightarrow> (py_set ''displayPath'' (PyStr p) a1,
                           if py_get ''displayPath'' a1 \<noteq> PyStr p then 1 else n))
            else (a1, n))
       in if n2 \<noteq> 0 then (PyDict a2, n2) else (payload, 0))
   | _ \<Rightarrow> (payload, 0))"

definition migrate_legacy_attachment_fields :: "string \<Rightarrow> frame \<Rightarrow> frame \<times> nat" where
  "migrate_legacy_attachment_fields cwd f =
    (if f_extra f = [] then (f, 0)
     else (let (e1, n1) =
             (if py_has ''attachment'' (f_extra f)
              then (let (p, n) = migrate_attachment_payload cwd (py_get ''attachment'' (f_extra f))
                    in (py_set ''attachment'' p (f_extra f), n))
              else (f_extra f, 0));
           (e2, n2) = (case py_get ''attachments'' e1 of
               PyList ps \<Rightarrow> (let rs = map (migrate_attachment_payload cwd) ps
                 in (py_set ''attachments'' (PyList (map fst rs)) e1, n1 + sum_list (map snd rs)))
             | _ \<Rightarrow> (e1, n1))
         in if n2 = 0 then (f, 0) else (f\<lparr>f_extra := e2\<rparr>, n2)))"

section \<open>Frames of the recovery\<close>

definition build_transcript_continue_frame ::
    "string option \<Rightarrow> string option \<Rightarrow> string \<Rightarrow> string option \<Rightarrow> frame" where
  "build_transcript_continue_frame session task reason checkpoint =
     (new_frame SYSTEM_REMINDER META_USER
        [SystemReminderBlock TRANSCRIPT_RECOVERY_CONTINUE_TEXT (Some TRANSCRIPT_RECOVERY_SOURCE_TAG)])
       \<lparr>f_is_meta := True, f_origin := Some TRANSCRIPT_RECOVERY_ORIGIN, f_task_id := task,
        f_session_id := session,
        f_extra := (''reason'', PyStr reason)
          # (if opt_truthy checkpoint then [(''checkpoint_task_id'', opt_val checkpoint)] else [])\<rparr>"

definition is_thinking_only_frame :: "frame \<Rightarrow> bool" where
  "is_thinking_only_frame f =
    (if py_get ''thinking_only'' (f_extra f) = PyBool True then True
     else if py_get ''content_kind'' (f_extra f) = PyStr ''thinking'' then True
     else if filter (\<lambda>b. is_text b \<or> is_tool_use b \<or> is_tool_result b \<or> is_reminder b) (f_blocks f) = []
     then f_blocks f \<noteq> []
     else False)"

definition is_whitespace_only_frame :: "frame \<Rightarrow> bool" where
  "is_whitespace_only_frame f = (\<forall>b \<in> set (f_blocks f). case b of
      TextBlock t \<Rightarrow> py_strip t = []
    | SystemReminderBlock t _ \<Rightarrow> py_strip t = []
    | _ \<Rightarrow> False)"

definition has_no_response_sentinel :: "frame list \<Rightarrow> bool" where
  "has_no_response_sentinel fs = (\<exists>f \<in> set fs. f_origin f = Some NO_RESPONSE_REQUESTED_ORIGIN)"

definition build_no_response_sentinel_frame :: "frame \<Rightarrow> string option \<Rightarrow> frame" where
  "build_no_response_sentinel_frame source session =
     (new_frame ASSISTANT_TEXT ASSISTANT [TextBlock NO_RESPONSE_REQUESTED_SENTINEL])
       \<lparr>f_origin := Some NO_RESPONSE_REQUESTED_ORIGIN, f_task_id := f_task_id source,
        f_session_id := opt_or session (f_session_id source),
        f_extra := [(''reason'', PyStr ''user_last_no_response_required''), (''sentinel'', PyBool True)]\<rparr>"

definition recovery_tool_use_ids :: "frame option \<Rightarrow> string list" where
  "recovery_tool_use_ids fo = (case fo of None \<Rightarrow> [] | Some f \<Rightarrow> block_use_ids (f_blocks f))"

definition last_behavioral_frame :: "frame list \<Rightarrow> frame option" where
  "last_behavioral_frame fs = List.find (\<lambda>f. \<not> f_is_meta f) (rev fs)"

definition has_recovery_continue :: "frame list \<Rightarrow> bool" where
  "has_recovery_continue fs = (\<exists>f \<in> set fs. f_origin f = Some TRANSCRIPT_RECOVERY_ORIGIN
     \<and> repair_frame_text f = TRANSCRIPT_RECOVERY_CONTINUE_TEXT)"

definition recovery_wire_role :: "frame \<Rightarrow> wire_role option" where
  "recovery_wire_role f =
    (if f_role f = ASSISTANT then Some WireAssistant
     else if f_role f \<in> {USER, META_USER, TOOL} then Some WireUser else None)"

definition recovery_tool_name :: "frame \<Rightarrow> string \<Rightarrow> string" where
  "recovery_tool_name f i = use_name_for_id (f_blocks f) i"

definition build_synthetic_tool_result_frame :: "frame \<Rightarrow> string list \<Rightarrow> string option \<Rightarrow> frame" where
  "build_synthetic_tool_result_frame source ids session =
     (new_frame TOOL_RESULT TOOL (map (\<lambda>i. ToolResultBlock i (recovery_tool_name source i)
          SYNTHETIC_TOOL_RESULT_CONTENT True) ids))
       \<lparr>f_is_meta := True, f_origin := Some TRANSCRIPT_RECOVERY_ORIGIN, f_task_id := f_task_id source,
        f_tool_use_id := single_id ids,
        f_source_tool_assistant_uuid := opt_or (f_uuid source) (f_source_tool_assistant_uuid source),
        f_permission_mode := f_permission_mode source, f_timestamp_ms := f_timestamp_ms source,
        f_relevance := f_relevance source, f_schema_version := f_schema_version source,
        f_session_id := opt_or session (f_session_id source),
        f_extra := [(''reason'', PyStr ''interrupted_tool_missing_result'')]\<rparr>"

text \<open>\<open>prior_frames[-1] if prior_frames else None\<close>\<close>

definition last_or_none :: "'a list \<Rightarrow> 'a option" where
  "last_or_none xs = (if xs = [] then None else Some (last xs))"

definition with_recovery_lineage :: "string \<Rightarrow> frame \<Rightarrow> frame list \<Rightarrow> string option \<Rightarrow> frame" where
  "with_recovery_lineage fresh f prior session = (let previous = last_or_none prior in
     assign_lineage fresh f previous
       (opt_str (opt_or session (opt_or (f_session_id f)
          (case previous of None \<Rightarrow> None | Some p \<Rightarrow> f_session_id p)))))"

text \<open>The loop of \<open>_ensure_user_leading_recovery\<close>; \<open>before\<close> is \<open>frames[:index]\<close>.\<close>

fun user_leading_loop :: "string \<Rightarrow> string option \<Rightarrow> frame list \<Rightarrow> frame list \<Rightarrow> frame list" where
  "user_leading_loop fresh session before [] = before"
| "user_leading_loop fresh session before (f # fs) = (case recovery_wire_role f of
      None \<Rightarrow> user_leading_loop fresh session (before @ [f]) fs
    | Some WireUser \<Rightarrow> before @ f # fs
    | Some WireAssistant \<Rightarrow> before @ with_recovery_lineage fresh
          (build_orphan_tool_result_placeholder_frame (Some f) (opt_or session (f_session_id f))
             TRANSCRIPT_RECOVERY_ORIGIN) before session # f # fs)"

definition ensure_user_leading_recovery :: "string \<Rightarrow> string option \<Rightarrow> frame list \<Rightarrow> frame list" where
  "ensure_user_leading_recovery fresh session fs = user_leading_loop fresh session [] fs"

section \<open>The loop over the active chain\<close>

record recovery =
  rc_repaired :: "frame list"
  rc_tool_uses :: "string set"
  rc_tool_results :: "string set"
  rc_orphans :: nat
  rc_thinking :: nat
  rc_whitespace :: nat
  rc_modes :: nat
  rc_migrated :: nat

definition recovery_start :: recovery where
  "recovery_start = \<lparr>rc_repaired = [], rc_tool_uses = {}, rc_tool_results = {}, rc_orphans = 0,
     rc_thinking = 0, rc_whitespace = 0, rc_modes = 0, rc_migrated = 0\<rparr>"

text \<open>The blocks kept of a frame, the results seen after it and the number of blocks dropped.\<close>

fun retain_blocks :: "string set \<Rightarrow> string set \<Rightarrow> content_block list \<Rightarrow> content_block list \<times> string set \<times> nat" where
  "retain_blocks uses results [] = ([], results, 0)"
| "retain_blocks uses results (b # bs) =
    (if is_tool_result b \<and> (block_tool_id b = [] \<or> block_tool_id b \<notin> uses \<or> block_tool_id b \<in> results)
     then (let (kept, results', n) = retain_blocks uses results bs in (kept, results', Suc n))
     else (let (kept, results', n) =
             retain_blocks uses (if is_tool_result b then insert (block_tool_id b) results else results) bs
           in (b # kept, results', n)))"

definition invalid_mode :: "frame \<Rightarrow> bool" where
  "invalid_mode f = (opt_truthy (f_permission_mode f)
     \<and> opt_str (f_permission_mode f) \<notin> set VALID_PERMISSION_MODES)"

text \<open>The frame after the attachment migration and the permission-mode scrub.\<close>

definition scrub_frame :: "string \<Rightarrow> frame \<Rightarrow> frame" where
  "scrub_frame cwd f = (let g = fst (migrate_legacy_attachment_fields cwd f)
     in if invalid_mode g then g\<lparr>f_permission_mode := None\<rparr> else g)"

definition recover_frame :: "string \<Rightarrow> frame \<Rightarrow> recovery \<Rightarrow> recovery" where
  "recover_frame cwd f0 s0 = (let
     (f1, migrated) = migrate_legacy_attachment_fields cwd f0;
     s1 = s0\<lparr>rc_migrated := rc_migrated s0 + migrated,
             rc_modes := rc_modes s0 + (if invalid_mode f1 then 1 else 0)\<rparr>;
     f = scrub_frame cwd f0
     in if f_role f = ASSISTANT \<and> \<not> f_is_meta f \<and> is_thinking_only_frame f
        then s1\<lparr>rc_thinking := rc_thinking s1 + 1\<rparr>
        else if f_role f = ASSISTANT \<and> \<not> f_is_meta f \<and> is_whitespace_only_frame f
        then s1\<lparr>rc_whitespace := rc_whitespace s1 + 1\<rparr>
        else (let (kept, results, n) = retain_blocks (rc_tool_uses s1) (rc_tool_results s1) (f_blocks f);
                  s2 = s1\<lparr>rc_tool_results := results, rc_orphans := rc_orphans s1 + n\<rparr>
              in if n \<noteq> 0 \<and> kept = [] then s2
                 else (let g = (if n \<noteq> 0 then f\<lparr>f_blocks := kept\<rparr> else f)
                       in s2\<lparr>rc_repaired := rc_repaired s2 @ [g],
                             rc_tool_uses := rc_tool_uses s2 \<union> set (recovery_tool_use_ids (Some g))\<rparr>)))"

section \<open>Recovery\<close>

text \<open>What is appended to the repaired chain: the frames, and the three accounts of them.\<close>

definition recovery_tail ::
    "(nat \<Rightarrow> string) \<Rightarrow> string option \<Rightarrow> bool \<Rightarrow> frame \<Rightarrow> recovery \<Rightarrow> frame list \<Rightarrow>
     frame list \<times> nat \<times> bool \<times> bool" where
  "recovery_tail fresh session sentinel tip s repaired = (let
     latest = last_behavioral_frame repaired;
     missing = filter (\<lambda>i. i \<notin> rc_tool_results s) (recovery_tool_use_ids latest)
     in case (latest, missing) of
       (Some f, i # is) \<Rightarrow> (let
           repaired1 = repaired @ [with_recovery_lineage (fresh 1)
             (build_synthetic_tool_result_frame f missing session) repaired session]
           in if has_recovery_continue repaired1 then (repaired1, length missing, False, False)
              else (repaired1 @ [with_recovery_lineage (fresh 2)
                     (build_transcript_continue_frame (opt_or session (f_session_id f)) (f_task_id f)
                        ''interrupted_tool_resume'' None) repaired1 session], length missing, True, False))
     | _ \<Rightarrow> (if rc_orphans s \<noteq> 0 \<and> \<not> has_recovery_continue repaired
            then (repaired @ [with_recovery_lineage (fresh 1)
                   (build_orphan_tool_result_placeholder_frame (Some tip)
                      (opt_or session (f_session_id tip)) TRANSCRIPT_RECOVERY_ORIGIN)
                   repaired session], 0, False, False)
            else (case latest of
                Some f \<Rightarrow> (if sentinel \<and> f_role f = USER \<and> \<not> has_no_response_sentinel repaired
                   then (repaired @ [with_recovery_lineage (fresh 1)
                          (build_no_response_sentinel_frame f session) repaired session], 0, False, True)
                   else (repaired, 0, False, False))
              | None \<Rightarrow> (repaired, 0, False, False))))"

definition recover_transcript_on_resume ::
    "string \<Rightarrow> (nat \<Rightarrow> string) \<Rightarrow> frame list \<Rightarrow> string option \<Rightarrow> bool \<Rightarrow> transcript_recovery" where
  "recover_transcript_on_resume cwd fresh frames session sentinel = (let
     before = walk_active_leaf frames
     in if before = []
        then \<lparr>tr_frames = [], tr_stripped_orphan_tool_results = 0, tr_synthetic_tool_results = 0,
              tr_appended_continue = False, tr_stripped_thinking_only = 0,
              tr_stripped_whitespace_only = 0, tr_recovered_parallel_tool_results = 0,
              tr_appended_no_response_sentinel = False, tr_stripped_invalid_permission_modes = 0,
              tr_migrated_legacy_attachments = 0\<rparr>
        else (let
          active = recover_orphaned_parallel_tool_results frames before;
          s = fold (recover_frame cwd) active recovery_start;
          repaired = ensure_user_leading_recovery (fresh 0) session (rc_repaired s);
          (result, synthetic, continued, said_nothing) =
            recovery_tail fresh session sentinel (last active) s repaired
          in \<lparr>tr_frames = result, tr_stripped_orphan_tool_results = rc_orphans s,
              tr_synthetic_tool_results = synthetic, tr_appended_continue = continued,
              tr_stripped_thinking_only = rc_thinking s,
              tr_stripped_whitespace_only = rc_whitespace s,
              tr_recovered_parallel_tool_results = length active - length before,
              tr_appended_no_response_sentinel = said_nothing,
              tr_stripped_invalid_permission_modes = rc_modes s,
              tr_migrated_legacy_attachments = rc_migrated s\<rparr>))"

end
