(* ===== verification/Conversation_Sessions.thy ===== *)
theory Conversation_Sessions
  imports Conversation_Compaction Transcript_Repair
begin

text \<open>
  Branching, resuming and restoring sessions: \<open>services/conversation/session_identity.py\<close>, and \<open>branch_session\<close>,
  \<open>resume_session\<close>, the restoring on construction and the cache of managers in
  \<open>services/conversation/state_manager.py\<close>.  The lifecycle hooks, which are only told, are left out.
\<close>

section \<open>Identities\<close>

datatype session_error = UnsafeSessionId | SessionRequired | SourceFrameRequired | UserIdRequired | UserIdDefault
  | NothingToBranch | SourceFrameNotFound | SessionExists | NoPriorSession | LeafRequired | LeafNotFound | SessionNotFound
  | LogUnreadable | LogError storage_error

definition session_char :: "char \<Rightarrow> bool" where
  "session_char c = (let n = char_code c in 48 \<le> n \<and> n \<le> 57 \<or> 65 \<le> n \<and> n \<le> 90 \<or> 97 \<le> n \<and> n \<le> 122)"

fun safe_session_id :: "string \<Rightarrow> bool" where
  "safe_session_id [] = False"
| "safe_session_id (c # cs) = (session_char c \<and> list_all (\<lambda>d. session_char d \<or> d \<in> set ''_.:-'') cs \<and> length cs \<le> 127)"

definition coerce_session_id :: "string option \<Rightarrow> session_error + string option" where
  "coerce_session_id v = (let cleaned = py_strip (opt_str v) in
     if cleaned = [] then Inr None
     else if cleaned \<in> {''.'', ''..''} \<or> \<not> safe_session_id cleaned then Inl UnsafeSessionId
     else Inr (Some cleaned))"

definition coerce_user_id :: "string option \<Rightarrow> session_error + string" where
  "coerce_user_id v = (let cleaned = py_strip (opt_str v) in
     if cleaned = [] then Inl UserIdRequired else if py_lower cleaned = ''default'' then Inl UserIdDefault else Inr cleaned)"

record session_identity =
  si_session_id :: string
  si_branch_id :: "string option"
  si_fork_id :: "string option"
  si_parent_session_id :: "string option"
  si_source_frame_uuid :: "string option"
  si_resumed_from_uuid :: "string option"
  si_channel :: "string option"

definition clean_optional :: "string option \<Rightarrow> string option" where
  "clean_optional v = (let cleaned = py_strip (opt_str v) in if cleaned = [] then None else Some cleaned)"

definition create_branch ::
    "string \<Rightarrow> string option \<Rightarrow> string \<Rightarrow> string option \<Rightarrow> string option \<Rightarrow> session_error + session_identity" where
  "create_branch fresh source source_frame new_id channel = (case coerce_session_id source of
      Inl e \<Rightarrow> Inl e
    | Inr None \<Rightarrow> Inl SessionRequired
    | Inr (Some s) \<Rightarrow> if py_strip source_frame = [] then Inl SourceFrameRequired
        else (case coerce_session_id new_id of
            Inl e \<Rightarrow> Inl e
          | Inr n \<Rightarrow> (let i = opt_str (opt_or n (Some fresh)) in
              Inr \<lparr>si_session_id = i, si_branch_id = Some i, si_fork_id = None, si_parent_session_id = Some s,
                si_source_frame_uuid = Some (py_strip source_frame), si_resumed_from_uuid = None,
                si_channel = clean_optional channel\<rparr>)))"

definition resume_identity :: "string option \<Rightarrow> string option \<Rightarrow> string option \<Rightarrow> session_error + session_identity" where
  "resume_identity session leaf channel = (case coerce_session_id session of
      Inl e \<Rightarrow> Inl e
    | Inr None \<Rightarrow> Inl SessionRequired
    | Inr (Some s) \<Rightarrow> Inr \<lparr>si_session_id = s, si_branch_id = None, si_fork_id = None, si_parent_session_id = None,
        si_source_frame_uuid = None, si_resumed_from_uuid = clean_optional leaf, si_channel = clean_optional channel\<rparr>)"

definition session_identity_payload :: "session_identity \<Rightarrow> pydict" where
  "session_identity_payload i = [(''session_id'', PyStr (si_session_id i)), (''branch_id'', opt_val (si_branch_id i)),
     (''fork_id'', opt_val (si_fork_id i)), (''parent_session_id'', opt_val (si_parent_session_id i)),
     (''source_frame_uuid'', opt_val (si_source_frame_uuid i)), (''resumed_from_uuid'', opt_val (si_resumed_from_uuid i)),
     (''channel'', opt_val (si_channel i))]"

definition session_event_frame ::
    "string \<Rightarrow> session_identity \<Rightarrow> string \<Rightarrow> string \<Rightarrow> string option \<Rightarrow> string option \<Rightarrow> pydict \<Rightarrow> frame" where
  "session_event_frame fresh i origin content parent logical extra =
     (new_frame SYSTEM_REMINDER META_USER [SystemReminderBlock content (Some (dashed origin))])
       \<lparr>f_is_meta := True, f_origin := Some origin,
        f_extra := py_update extra [(''session_identity'', PyDict (session_identity_payload i)), (''session_event'', PyStr origin)],
        f_uuid := Some fresh, f_parent_uuid := parent, f_logical_parent_uuid := logical,
        f_session_id := Some (si_session_id i)\<rparr>"

section \<open>Branching\<close>

text \<open>The frames in memory that the log does not have\<close>

fun missing_frames :: "string set \<Rightarrow> frame list \<Rightarrow> frame list" where
  "missing_frames known [] = []"
| "missing_frames known (f # fs) = (if opt_truthy (f_uuid f) \<and> opt_str (f_uuid f) \<notin> known
     then f # missing_frames (insert (opt_str (f_uuid f)) known) fs else missing_frames known fs)"

definition branch_source :: "frame list \<Rightarrow> frame list \<Rightarrow> frame list" where
  "branch_source persisted live = (if persisted = [] then live
     else persisted @ missing_frames (set (map (opt_str \<circ> f_uuid) (filter (\<lambda>f. opt_truthy (f_uuid f)) persisted))) live)"

definition branch_point :: "string \<Rightarrow> string option \<Rightarrow> frame list \<Rightarrow> string \<times> frame list" where
  "branch_point fresh requested fs = (let u = py_strip (opt_str (opt_or requested (f_uuid (last fs)))) in
     if u = [] then (fresh, butlast fs @ [(last fs)\<lparr>f_uuid := Some fresh\<rparr>]) else (u, fs))"

text \<open>The frames up to the branch point, each with an id, and whether the point was found\<close>

fun select_frames :: "(nat \<Rightarrow> string) \<Rightarrow> nat \<Rightarrow> string \<Rightarrow> frame list \<Rightarrow> frame list \<times> bool" where
  "select_frames fresh i point [] = ([], False)"
| "select_frames fresh i point (f # fs) = (let g = f\<lparr>f_uuid := opt_or (f_uuid f) (Some (fresh i))\<rparr> in
     if f_uuid g = Some point then ([g], True)
     else (let (gs, found) = select_frames fresh (Suc i) point fs in (g # gs, found)))"

definition branch_frame :: "string \<Rightarrow> string \<Rightarrow> string \<Rightarrow> string \<Rightarrow> string option \<Rightarrow> frame \<Rightarrow> frame" where
  "branch_frame fresh session reason target parent f = f\<lparr>f_uuid := Some fresh, f_parent_uuid := parent,
     f_logical_parent_uuid := opt_or (f_logical_parent_uuid f) (f_parent_uuid f), f_session_id := Some target,
     f_extra := py_set ''branch_reason'' (PyStr reason) (py_set ''forked_from''
       (PyDict [(''session_id'', PyStr session), (''message_uuid'', opt_val (f_uuid f))]) (f_extra f))\<rparr>"

fun branch_frames :: "(nat \<Rightarrow> string) \<Rightarrow> nat \<Rightarrow> string \<Rightarrow> string \<Rightarrow> string \<Rightarrow> string option \<Rightarrow> frame list \<Rightarrow> frame list" where
  "branch_frames fresh i session reason target parent [] = []"
| "branch_frames fresh i session reason target parent (f # fs) =
     branch_frame (fresh i) session reason target parent f # branch_frames fresh (Suc i) session reason target (Some (fresh i)) fs"

definition branch_event :: "string \<Rightarrow> session_identity \<Rightarrow> string \<Rightarrow> string \<Rightarrow> string \<Rightarrow> pydict \<Rightarrow> string option \<Rightarrow> frame" where
  "branch_event fresh i session point reason replacements parent = session_event_frame fresh i ''session_branch''
     (''Saved task branch '' @ si_session_id i @ '' from session '' @ session @ ''.'') parent (Some point)
     ([(''reason'', PyStr reason), (''source_session_id'', PyStr session), (''source_frame_uuid'', PyStr point)]
       @ (if replacements = [] then [] else [(''content_replacement_state'', PyDict replacements)]))"

text \<open>The id generators: for the branch point and missing ids, for the copies (the event takes the next one), for the session.\<close>

record branch_ids =
  bi_point :: string
  bi_missing :: "nat \<Rightarrow> string"
  bi_copies :: "nat \<Rightarrow> string"
  bi_session :: string

definition branched_chain ::
    "branch_ids \<Rightarrow> session_identity \<Rightarrow> string \<Rightarrow> string \<Rightarrow> string \<Rightarrow> pydict \<Rightarrow> frame list \<Rightarrow> frame list" where
  "branched_chain ids i session point reason replacements selected = (let
     copies = branch_frames (bi_copies ids) 0 session reason (si_session_id i) None selected;
     parent = Option.bind (last_frame copies) f_uuid in
   copies @ [branch_event (bi_copies ids (length selected)) i session point reason replacements parent])"

definition switch_to :: "int \<Rightarrow> string \<Rightarrow> frame list \<Rightarrow> conversation \<Rightarrow> conversation" where
  "switch_to now session fs c = rebuild_legacy_history now (c\<lparr>cv_session := session, cv_explicit := Some session,
     cv_frames := last_n MAX_HISTORY fs\<rparr>)"

text \<open>The conversation and the log are those that the call leaves, also when it raises.\<close>

definition branch_session ::
    "cipher \<Rightarrow> branch_ids \<Rightarrow> int \<Rightarrow> string option \<Rightarrow> string option \<Rightarrow> string \<Rightarrow> string option \<Rightarrow> conversation \<Rightarrow>
     log_row list \<Rightarrow> (session_error + session_identity) \<times> conversation \<times> log_row list" where
  "branch_session ci ids now requested new_id reason channel c rows = (let
     persisted = (case load_session_frames ci (cv_user c) (cv_session c) None rows of Some fs \<Rightarrow> fs | None \<Rightarrow> []);
     source = branch_source persisted (cv_frames c) in
   if source = [] then (Inl NothingToBranch, c, rows)
   else (let (point, source') = branch_point (bi_point ids) requested source;
       (selected, found) = select_frames (bi_missing ids) 0 point source' in
     if \<not> found then (Inl SourceFrameNotFound, c, rows)
     else (case create_branch (bi_session ids) (Some (cv_session c)) point new_id channel of
         Inl e \<Rightarrow> (Inl e, c, rows)
       | Inr i \<Rightarrow> if session_exists (cv_user c) (si_session_id i) rows then (Inl SessionExists, c, rows)
           else (let chain = branched_chain ids i (cv_session c) point reason (cv_replacements c) selected;
               (err, rows') = write_frames ci (bi_point ids) now (cv_user c) (si_session_id i) chain rows in
             ((case err of None \<Rightarrow> Inr i | Some e \<Rightarrow> Inl (LogError e)), switch_to now (si_session_id i) chain c, rows')))))"

section \<open>Resuming\<close>

definition find_session_for_leaf :: "string \<Rightarrow> string \<Rightarrow> log_row list \<Rightarrow> string option" where
  "find_session_for_leaf user leaf rows = (case rev (sort_key rw_ts (filter (\<lambda>r. rw_user r = user \<and> rw_uuid r = Some leaf) rows)) of
      [] \<Rightarrow> None | r # rs \<Rightarrow> Some (rw_session r))"

definition resolve_resume_session_id ::
    "string \<Rightarrow> string option \<Rightarrow> string option \<Rightarrow> string \<Rightarrow> log_row list \<Rightarrow> session_error + string" where
  "resolve_resume_session_id user session leaf source rows = (let
     src = py_lower (py_strip (if source = [] then ''session_id'' else source)) in
   case coerce_session_id session of
     Inl e \<Rightarrow> Inl e
   | Inr explicit \<Rightarrow>
      if src = ''latest'' then (case latest_session_id user None rows of
          Some (t # ts) \<Rightarrow> Inr (t # ts) | _ \<Rightarrow> Inl NoPriorSession)
      else if src = ''leaf_uuid'' then (let l = py_strip (opt_str leaf) in
        if l = [] then Inl LeafRequired
        else (case find_session_for_leaf user l rows of Some (t # ts) \<Rightarrow> Inr (t # ts) | _ \<Rightarrow> Inl LeafNotFound))
      else (case explicit of Some s \<Rightarrow> Inr s | None \<Rightarrow> Inl SessionRequired))"

definition extract_content_replacement_state :: "frame list \<Rightarrow> pydict" where
  "extract_content_replacement_state fs = (case List.find (\<lambda>f. f_origin f = Some ''session_branch'' \<and>
       (case py_get ''content_replacement_state'' (f_extra f) of PyDict d \<Rightarrow> True | _ \<Rightarrow> False)) (rev fs) of
      None \<Rightarrow> []
    | Some f \<Rightarrow> (case py_get ''content_replacement_state'' (f_extra f) of
        PyDict d \<Rightarrow> filter (\<lambda>(k, v). case v of PyDict e \<Rightarrow> True | _ \<Rightarrow> False) d | _ \<Rightarrow> []))"

type_synonym fingerprint = "(string option \<times> string option \<times> string option \<times> string option \<times> string option) \<times>
  (frame_kind \<times> frame_role \<times> string option \<times> string option \<times> string option) \<times> (string option \<times> bool \<times> bool \<times> string)"

definition frame_fingerprint :: "frame \<Rightarrow> fingerprint" where
  "frame_fingerprint f = ((f_uuid f, f_session_id f, f_parent_uuid f, f_logical_parent_uuid f, f_source_tool_assistant_uuid f),
     (f_kind f, f_role f, f_origin f, f_tool_use_id f, f_task_id f),
     (f_permission_mode f, f_is_meta f, f_is_compact_summary f, frame_text f))"

text \<open>The ids of the recovery, of the first normalisation, of the second and of the writing\<close>

record recovery_ids =
  ri_recovery :: "nat \<Rightarrow> string"
  ri_first :: "nat \<Rightarrow> string"
  ri_second :: "nat \<Rightarrow> string"
  ri_rows :: "nat \<Rightarrow> string"

definition recover_loaded_frames ::
    "cipher \<Rightarrow> string \<Rightarrow> recovery_ids \<Rightarrow> int \<Rightarrow> string \<Rightarrow> string \<Rightarrow> bool \<Rightarrow> bool \<Rightarrow> frame list \<Rightarrow> log_row list \<Rightarrow>
     storage_error + frame list \<times> log_row list" where
  "recover_loaded_frames ci cwd ids now user session sentinel persist original rows = (let
     r = recover_transcript_on_resume cwd (ri_recovery ids) original (Some session) sentinel;
     normalized = normalize_frame_chain (ri_first ids) now session False (if tr_frames r = [] then original else tr_frames r);
     changed = (tr_stripped_orphan_tool_results r \<noteq> 0 \<or> tr_synthetic_tool_results r \<noteq> 0 \<or> tr_appended_continue r
       \<or> tr_appended_no_response_sentinel r \<or> map frame_fingerprint original \<noteq> map frame_fingerprint normalized) in
   if changed \<and> persist then (let persisted = normalize_frame_chain (ri_second ids) now session True normalized in
     case replace_session_frames ci (ri_rows ids) now user session persisted rows of
       Inl e \<Rightarrow> Inl e
     | Inr rows' \<Rightarrow> Inr (persisted, rows'))
   else Inr (normalized, rows))"

text \<open>The frames up to the first one with the id of the leaf, if it is there\<close>

definition cut_at_leaf :: "string option \<Rightarrow> frame list \<Rightarrow> frame list option" where
  "cut_at_leaf leaf fs = (let l = py_strip (opt_str leaf) in
     if l = [] then None
     else (case dropWhile (\<lambda>f. f_uuid f \<noteq> Some l) fs of [] \<Rightarrow> None
       | f # rest \<Rightarrow> Some (takeWhile (\<lambda>f. f_uuid f \<noteq> Some l) fs @ [f])))"

definition resume_event :: "string \<Rightarrow> session_identity \<Rightarrow> string \<Rightarrow> string option \<Rightarrow> string \<Rightarrow> frame" where
  "resume_event fresh i content leaf entrypoint = session_event_frame fresh i ''session_resume'' content leaf leaf
     [(''resume_entrypoint'', PyStr entrypoint)]"

definition resume_session ::
    "cipher \<Rightarrow> tokenizer option \<Rightarrow> string \<Rightarrow> recovery_ids \<Rightarrow> string \<Rightarrow> int \<Rightarrow> string option \<Rightarrow> string option \<Rightarrow>
     string option \<Rightarrow> string \<Rightarrow> conversation \<Rightarrow> log_row list \<Rightarrow> (session_error + session_identity) \<times> conversation \<times> log_row list" where
  "resume_session ci tk cwd ids fresh now session leaf channel source c rows =
    (case resolve_resume_session_id (cv_user c) session leaf source rows of
       Inl e \<Rightarrow> (Inl e, c, rows)
     | Inr target \<Rightarrow> (case load_session_frames ci (cv_user c) target None rows of
         None \<Rightarrow> (Inl LogUnreadable, c, rows)
       | Some loaded \<Rightarrow> (let
           found = (if loaded = [] \<and> target = cv_session c then cv_frames c else loaded);
           cut = cut_at_leaf leaf found in
         if found = [] then (Inl SessionNotFound, c, rows)
         else (case recover_loaded_frames ci cwd ids now (cv_user c) target True (cut = None)
               (case cut of Some fs \<Rightarrow> fs | None \<Rightarrow> found) rows of
             Inl e \<Rightarrow> (Inl (LogError e), c, rows)
           | Inr (fs, rows1) \<Rightarrow> (let resume_leaf = clean_optional (opt_or leaf (f_uuid (last fs))) in
               case resume_identity (Some target) resume_leaf channel of
                 Inl e \<Rightarrow> (Inl e, c, rows1)
               | Inr i \<Rightarrow> (let
                   c1 = (switch_to now (si_session_id i) fs c)\<lparr>cv_replacements := extract_content_replacement_state fs\<rparr>;
                   event = resume_event fresh i (''Resumed saved task session '' @ si_session_id i @ ''.'') resume_leaf source in
                 case append_frame ci tk fresh now resume_leaf resume_leaf event c1 rows1 of
                   Inl e \<Rightarrow> (Inl (LogError e), c1, rows1)
                 | Inr (f, c2, rows2) \<Rightarrow> (Inr i, c2, rows2)))))))"

section \<open>Restoring on construction\<close>

definition RESTORE_TURNS :: int where "RESTORE_TURNS = 20"

definition PRUNE_DAYS :: int where "PRUNE_DAYS = 30"

definition IMPLICIT_RESUME_WINDOW_SECONDS :: int where "IMPLICIT_RESUME_WINDOW_SECONDS = 600"

definition peek_recent_session :: "int \<Rightarrow> string \<Rightarrow> log_row list \<Rightarrow> string option" where
  "peek_recent_session now user rows = (case rev (sort_key rw_ts (filter (\<lambda>r. rw_user r = user) rows)) of
      [] \<Rightarrow> None
    | r # rs \<Rightarrow> if rw_ts r \<le> 0 \<or> now - rw_ts r > IMPLICIT_RESUME_WINDOW_SECONDS * 1000 then None else Some (rw_session r))"

definition implicit_resume_allowed :: "bool \<Rightarrow> string \<Rightarrow> bool" where
  "implicit_resume_allowed allowed user = (allowed \<and> py_strip user \<noteq> [] \<and> py_strip user \<noteq> ''default'')"

text \<open>The frames that were loaded and recovered become the conversation.\<close>

definition take_over :: "int \<Rightarrow> frame list \<Rightarrow> conversation \<Rightarrow> conversation" where
  "take_over now fs c = (let h = List.map_filter (frame_to_legacy_message now) (filter (\<lambda>f. \<not> f_is_meta f) fs) in
     c\<lparr>cv_frames := cv_frames c @ fs, cv_history := cv_history c @ h, cv_tokens := cv_tokens c + sum_list (map lm_tokens h)\<rparr>)"

text \<open>An error ends the restoring and is swallowed.\<close>

definition restore_from_persistence ::
    "cipher \<Rightarrow> tokenizer option \<Rightarrow> string \<Rightarrow> recovery_ids \<Rightarrow> string \<Rightarrow> int \<Rightarrow> int \<Rightarrow> bool \<Rightarrow> conversation \<Rightarrow>
     log_row list \<Rightarrow> conversation \<times> log_row list" where
  "restore_from_persistence ci tk cwd ids fresh now turns allowed c rows = (let
     recent = (if cv_explicit c = None \<and> implicit_resume_allowed allowed (cv_user c)
       then peek_recent_session now (cv_user c) rows else None) in
   case (case cv_explicit c of Some s \<Rightarrow> Some s | None \<Rightarrow> recent) of
     None \<Rightarrow> (c, rows)
   | Some session \<Rightarrow> (let c1 = (if recent \<noteq> None then c\<lparr>cv_session := session\<rparr> else c) in
       case load_recent_turns ci (cv_user c) turns (Some session) rows of
         None \<Rightarrow> (c1, rows)
       | Some [] \<Rightarrow> (c1, snd (prune_old now (cv_user c) PRUNE_DAYS rows))
       | Some (t # ts) \<Rightarrow> (case recover_loaded_frames ci cwd ids now (cv_user c) session False True (t # ts) rows of
           Inl e \<Rightarrow> (c1, rows)
         | Inr (fs, rows1) \<Rightarrow> (let c2 = take_over now fs c1; leaf = f_uuid (last fs) in
             if recent = None then (c2, snd (prune_old now (cv_user c) PRUNE_DAYS rows1))
             else (case resume_identity (Some (cv_session c1)) leaf (Some ''implicit_recent'') of
                 Inl e \<Rightarrow> (c2, rows1)
               | Inr i \<Rightarrow> (case append_frame ci tk fresh now None None
                     (resume_event fresh i (''Resumed recent conversation session '' @ cv_session c1 @ ''.'') leaf ''implicit_recent'') c2 rows1 of
                   Inl e \<Rightarrow> (c2, rows1)
                 | Inr (f, c3, rows2) \<Rightarrow> (c3, snd (prune_old now (cv_user c) PRUNE_DAYS rows2))))))))"

text \<open>The constructor\<close>

definition open_conversation ::
    "cipher \<Rightarrow> tokenizer option \<Rightarrow> string \<Rightarrow> recovery_ids \<Rightarrow> string \<Rightarrow> string \<Rightarrow> int \<Rightarrow> int \<Rightarrow> bool \<Rightarrow> string \<Rightarrow>
     string \<Rightarrow> int \<Rightarrow> string option \<Rightarrow> log_row list \<Rightarrow> session_error + conversation \<times> log_row list" where
  "open_conversation ci tk cwd ids fresh fresh_session now turns allowed user model tokens session rows =
    (case coerce_session_id session of
       Inl e \<Rightarrow> Inl e
     | Inr requested \<Rightarrow> Inr (restore_from_persistence ci tk cwd ids fresh now turns allowed
         (new_conversation user model tokens requested fresh_session) rows))"

section \<open>The cache of managers\<close>

definition MAX_SINGLETON_MANAGERS :: nat where "MAX_SINGLETON_MANAGERS = 5000"

text \<open>An \<open>OrderedDict\<close>, the least recently used user first; \<open>build\<close> constructs the manager of a new user.\<close>

definition get_conversation_manager :: "(string \<Rightarrow> conversation) \<Rightarrow> string \<Rightarrow> (string \<times> conversation) list \<Rightarrow>
    conversation \<times> (string \<times> conversation) list" where
  "get_conversation_manager build user cache = (case map_of cache user of
      Some c \<Rightarrow> (c, filter (\<lambda>(u, d). u \<noteq> user) cache @ [(user, c)])
    | None \<Rightarrow> (build user, (if length cache \<ge> MAX_SINGLETON_MANAGERS then tl cache else cache) @ [(user, build user)]))"

end
