(* ===== verification/State_Machine.thy ===== *)
theory State_Machine
  imports Main
begin

text \<open>
  The interface of a component with state: the states it starts in, the steps of its operations, and an
  invariant that every operation keeps.  That the invariant holds in every state a run can reach is proved once here.
\<close>

locale invariant_machine =
  fixes start :: "'s \<Rightarrow> bool"
    and step :: "'s \<Rightarrow> 's \<Rightarrow> bool"
    and inv :: "'s \<Rightarrow> bool"
  assumes start_inv: "start s \<Longrightarrow> inv s"
    and step_inv: "inv s \<Longrightarrow> step s t \<Longrightarrow> inv t"
begin

lemma run_inv: "step\<^sup>*\<^sup>* s t \<Longrightarrow> inv s \<Longrightarrow> inv t"
  by (induction rule: rtranclp_induct) (auto intro: step_inv)

lemma reachable_inv: "start s \<Longrightarrow> step\<^sup>*\<^sup>* s t \<Longrightarrow> inv t"
  by (blast intro: run_inv start_inv)

end

section \<open>Claims that succeed once\<close>

text \<open>The calls of a guard one after the other, and their answers.\<close>

fun claim_all :: "('a \<Rightarrow> 's \<Rightarrow> bool \<times> 's) \<Rightarrow> 'a list \<Rightarrow> 's \<Rightarrow> bool list \<times> 's" where
  "claim_all claim [] s = ([], s)"
| "claim_all claim (a # as) s = (let (seen, s1) = claim a s; (rest, s2) = claim_all claim as s1 in (seen # rest, s2))"

text \<open>The interface of a guard that tells whether the key of a call was seen before, and remembers it.\<close>

locale once_guard =
  fixes seen :: "'s \<Rightarrow> 'k \<Rightarrow> bool"
    and claim :: "'a \<Rightarrow> 's \<Rightarrow> bool \<times> 's"
    and key :: "'a \<Rightarrow> 'k"
  assumes claim_answer: "fst (claim a s) = seen s (key a)"
    and claim_seen: "seen (snd (claim a s)) k \<longleftrightarrow> k = key a \<or> seen s k"
begin

lemma length_answers: "length (fst (claim_all claim as s)) = length as"
  by (induction as arbitrary: s) (simp_all add: split_beta)

lemma answers: "i < length as \<Longrightarrow> fst (claim_all claim as s) ! i \<longleftrightarrow> seen s (key (as ! i)) \<or> (\<exists>j < i. key (as ! j) = key (as ! i))"
proof (induction as arbitrary: s i)
  case (Cons a as)
  show ?case
  proof (cases i)
    case 0
    then show ?thesis by (simp add: split_beta claim_answer)
  next
    case (Suc n)
    with Cons.prems have "n < length as" by simp
    from Cons.IH[OF this, of "snd (claim a s)"] show ?thesis
      by (auto simp: Suc split_beta claim_seen less_Suc_eq_0_disj)
  qed
qed simp

end

end
