(* ===== verification/Frame_Storage_Properties.thy ===== *)
theory Frame_Storage_Properties
  imports Frame_Storage
begin

text \<open>
  What the conversation store gives back: a time of the years 2005 to 2037 keeps its milliseconds, a stored frame is read as
  it was written, up to the order of the arguments of a single call; a replaced session is read back whole; and no
  sensitive key is stored.
\<close>

section \<open>Times\<close>

lemma missing_bits_are: "0 < n \<Longrightarrow> n * 2 ^ k < 2 ^ 53 * d \<Longrightarrow> 2 ^ 52 * d \<le> n * 2 ^ k \<Longrightarrow> missing_bits n d = k"
proof (induction k arbitrary: n)
  case 0
  then show ?case by (simp add: missing_bits.simps)
next
  case (Suc k)
  have "n * 2 \<le> n * 2 ^ Suc k" using Suc(2) by simp
  then have "n * 2 < 2 ^ 53 * d" using Suc(3) by linarith
  then have "\<not> 2 ^ 52 * d \<le> n" by simp
  moreover have "missing_bits (2 * n) d = k" using Suc by (intro Suc.IH) (simp_all add: mult.assoc)
  ultimately show ?case using Suc(2) by (simp add: missing_bits.simps[of n])
qed

lemma double_is: "0 < n \<Longrightarrow> 0 < d \<Longrightarrow> n * 2 ^ k < 2 ^ 53 * d \<Longrightarrow> 2 ^ 52 * d \<le> n * 2 ^ k \<Longrightarrow>
    double_of n d = (round_even (n * 2 ^ k) d, 2 ^ k)"
proof -
  assume *: "0 < n" "0 < d" "n * 2 ^ k < 2 ^ 53 * d" "2 ^ 52 * d \<le> n * 2 ^ k"
  have "n * 1 \<le> n * 2 ^ k" using *(1) by (intro mult_left_mono) simp_all
  then have "n < 2 ^ 53 * d" using *(3) by linarith
  then show ?thesis by (simp add: double_of_def missing_bits_are[OF *(1,3,4)])
qed

lemma round_even_close: "0 < d \<Longrightarrow> 2 * \<bar>d * round_even n d - n\<bar> \<le> d"
proof -
  assume d: "0 < d"
  have n: "n = d * (n div d) + n mod d" by simp
  have r: "0 \<le> n mod d" "n mod d < d" using d by simp_all
  have *: "d * (n div d + 1) - n = d - n mod d" "d * (n div d) - n = - (n mod d)" by (simp_all add: algebra_simps minus_mod_eq_mult_div)
  show ?thesis unfolding round_even_def Let_def using r * by (auto simp: abs_if)
qed

lemma near_the_same: "2 * \<bar>a - n\<bar> \<le> d \<Longrightarrow> 2 * \<bar>b - n\<bar> < d \<Longrightarrow> \<bar>a - b\<bar> < (d::int)"
  by arith

lemma round_even_is: "0 < d \<Longrightarrow> 2 * \<bar>d * m - n\<bar> < d \<Longrightarrow> round_even n d = m"
proof -
  assume *: "0 < d" "2 * \<bar>d * m - n\<bar> < d"
  have "\<bar>d * round_even n d - d * m\<bar> < d" by (rule near_the_same[OF round_even_close[OF *(1)] *(2)])
  then have "\<bar>d * (round_even n d - m)\<bar> < d" by (simp add: right_diff_distrib)
  then have "\<bar>round_even n d - m\<bar> < 1" using *(1) by (simp add: abs_mult)
  then show ?thesis by simp
qed

text \<open>From September 2004 to January 2038 a time is a little more than a thousand times its seconds in units of the last
  place, so the rounding of the quotient is undone by that of the product.\<close>

definition plausible_time :: "int \<Rightarrow> bool" where
  "plausible_time ts = (2 ^ 40 < ts \<and> ts < 1000 * 2 ^ 31)"

lemma plausible_time_nonzero: "plausible_time ts \<Longrightarrow> 0 < ts"
  by (simp add: plausible_time_def)

lemma plausible_double: "plausible_time ts \<Longrightarrow> double_of ts 1 = (ts * 2 ^ 12, 2 ^ 12)"
  using double_is[of ts 1 12] by (simp add: plausible_time_def round_even_def)

lemma plausible_seconds:
  assumes "plausible_time ts"
  shows "\<exists>q. double_of (ts * 2 ^ 12) (1000 * 2 ^ 12) = (q, 2 ^ 22) \<and> 2 * \<bar>1000 * q - ts * 2 ^ 22\<bar> \<le> 1000"
proof -
  let ?q = "round_even (ts * 2 ^ 12 * 2 ^ 22) (1000 * 2 ^ 12)"
  have "double_of (ts * 2 ^ 12) (1000 * 2 ^ 12) = (?q, 2 ^ 22)"
    using assms by (intro double_is) (simp_all add: plausible_time_def)
  moreover have "2 * \<bar>1000 * 2 ^ 12 * ?q - ts * 2 ^ 12 * 2 ^ 22\<bar> \<le> 1000 * 2 ^ 12"
    by (intro round_even_close) simp
  then have "2 * \<bar>1000 * ?q - ts * 2 ^ 22\<bar> \<le> 1000" by simp
  ultimately show ?thesis by blast
qed

lemma plausible_product:
  assumes "plausible_time ts" "2 * \<bar>1000 * q - ts * 2 ^ 22\<bar> \<le> 1000"
  shows "double_of (q * 1000) (2 ^ 22) = (ts * 2 ^ 12, 2 ^ 12)"
proof -
  have "\<bar>1000 * q - ts * 2 ^ 22\<bar> \<le> 500" using assms(2) by simp
  then have "ts * 2 ^ 22 - 500 \<le> 1000 * q" "1000 * q \<le> ts * 2 ^ 22 + 500" unfolding abs_le_iff by simp_all
  moreover have "2 ^ 40 + 1 \<le> ts" "ts \<le> 1000 * 2 ^ 31 - 1" using assms(1) by (simp_all add: plausible_time_def)
  ultimately have "2 ^ 62 \<le> q * 1000" "q * 1000 < 2 ^ 63" by simp_all
  then have "double_of (q * 1000) (2 ^ 22) = (round_even (q * 1000 * 2 ^ 12) (2 ^ 22), 2 ^ 12)"
    by (intro double_is) simp_all
  moreover have "round_even (q * 1000 * 2 ^ 12) (2 ^ 22) = ts * 2 ^ 12"
    using assms(2) by (intro round_even_is) simp_all
  ultimately show ?thesis by simp
qed

lemma plausible_time_is_kept:
  assumes "plausible_time ts"
  shows "restore_ms ts = ts"
proof -
  obtain q where q: "double_of (ts * 2 ^ 12) (1000 * 2 ^ 12) = (q, 2 ^ 22)" "2 * \<bar>1000 * q - ts * 2 ^ 22\<bar> \<le> 1000"
    using plausible_seconds[OF assms] by blast
  have "seconds_of_ms ts = (q, 2 ^ 22)"
    unfolding seconds_of_ms_def plausible_double[OF assms] prod.case by (rule q(1))
  moreover have "ms_of_seconds (q, 2 ^ 22) = ts"
    unfolding ms_of_seconds_def plausible_product[OF assms q(2)] prod.case by simp
  ultimately show ?thesis using plausible_time_nonzero[OF assms] by (simp add: restore_ms_def)
qed

text \<open>Other times may lose a millisecond.\<close>

lemma early_time_loses_a_millisecond: "restore_ms 1001 = 1000" "restore_ms 1000 = 1000" "restore_ms (- 1001) = - 1000"
  by code_simp+

section \<open>Metadata\<close>

lemma py_loads_dumps: "proper_value v \<Longrightarrow> py_loads (json_dumps v) = Some v"
  by (simp add: py_loads_def loads_dumps py_of_json_of_py)

lemma proper_set: "proper_value (PyDict d) \<Longrightarrow> proper_value v \<Longrightarrow> proper_value (PyDict (py_set k v d))"
proof -
  assume d: "proper_value (PyDict d)" and v: "proper_value v"
  from d v have "list_all (\<lambda>(k, v). proper_value v) (py_set k v d)" by (induction d) auto
  then show ?thesis using d by (simp add: distinct_update)
qed

lemma proper_put: "proper_value (PyDict d) \<Longrightarrow> proper_value (PyDict (put_opt k v d))"
  using proper_set[of d _ k] by (cases v) (auto simp: put_opt_def simp del: proper_value.simps(2))

lemma get_put [simp]: "py_get k (put_opt k' v d) = (if k = k' then (case v of None \<Rightarrow> py_get k d | Some s \<Rightarrow> PyStr s) else py_get k d)"
  by (simp add: put_opt_def split: option.split)

lemma extra_set [simp]: "k \<in> set RESERVED_KEYS \<Longrightarrow> metadata_extra (py_set k v d) = metadata_extra d"
  by (induction d) (auto simp: metadata_extra_def)

lemma extra_put [simp]: "k \<in> set RESERVED_KEYS \<Longrightarrow> metadata_extra (put_opt k v d) = metadata_extra d"
  by (simp add: put_opt_def split: option.split)

text \<open>A dict without keys of the store's own\<close>

definition plain_extra :: "pydict \<Rightarrow> bool" where
  "plain_extra d = (proper_value (PyDict d) \<and> (\<forall>k \<in> set RESERVED_KEYS. \<not> py_has k d))"

lemma plain_extra_get: "plain_extra d \<Longrightarrow> k \<in> set RESERVED_KEYS \<Longrightarrow> py_get k d = PyNone"
  by (simp add: plain_extra_def py_get_not_has)

lemma plain_extra_kept: "plain_extra d \<Longrightarrow> metadata_extra d = d"
  by (auto simp: plain_extra_def metadata_extra_def filter_id_iff py_has_def map_of_eq_None_iff image_iff)

lemma extra_is_plain: "proper_value (PyDict d) \<Longrightarrow> plain_extra (metadata_extra d)"
  by (auto simp: plain_extra_def metadata_extra_def list_all_iff py_has_def map_of_eq_None_iff distinct_map_filter)

section \<open>Blocks\<close>

text \<open>A block that is read back from the list of a frame with several blocks\<close>

fun storable_block :: "string option \<Rightarrow> content_block \<Rightarrow> bool" where
  "storable_block tool_id (TextBlock t) = True"
| "storable_block tool_id (SystemReminderBlock t tag) = (non_empty tag = tag)"
| "storable_block tool_id (ToolResultBlock i nm t err) = (i = [] \<longrightarrow> opt_str tool_id = [])"
| "storable_block tool_id (ToolUseBlock i nm inp) = ((i = [] \<longrightarrow> opt_str tool_id = []) \<and> (\<exists>d. inp = PyDict d) \<and> proper_value inp)"

lemma stripped_types:
  "py_strip ''system_reminder'' = ''system_reminder''" "py_strip ''text'' = ''text''" "py_strip ''tool_use'' = ''tool_use''"
  "py_strip ''tool_result'' = ''tool_result''" "py_strip ''multi'' = ''multi''"
  by code_simp+

lemma non_empty_cases: "non_empty v = v \<longleftrightarrow> v = None \<or> (\<exists>c cs. v = Some (c # cs))"
  by (cases v) (auto simp: non_empty_def neq_Nil_conv)

lemma block_roundtrip: "storable_block tool_id b \<Longrightarrow> block_from_storage_dict (block_to_storage_dict b) tool_id = Some b"
  by (cases b) (auto simp: block_from_storage_dict_def Let_def stripped_types non_empty_cases)

lemma dict_blocks_roundtrip:
  "list_all (storable_block tool_id) bs \<Longrightarrow> dict_blocks (map (PyDict \<circ> block_to_storage_dict) bs) tool_id = bs"
  by (induction bs) (simp_all add: dict_blocks_def block_roundtrip)

lemma proper_block: "storable_block tool_id b \<Longrightarrow> proper_value (PyDict (block_to_storage_dict b))"
  by (cases b) (auto split: option.split)

text \<open>The blocks of a frame that are read back: an id of a single call or result is that of the frame, and a single text is
  not that of a reminder frame.\<close>

definition storable_blocks :: "frame_role \<Rightarrow> string option \<Rightarrow> content_block list \<Rightarrow> bool" where
  "storable_blocks role tool_id bs = (case bs of
      [] \<Rightarrow> False
    | [TextBlock t] \<Rightarrow> role \<noteq> META_USER
    | [SystemReminderBlock t tag] \<Rightarrow> non_empty tag = tag
    | [ToolResultBlock i nm t err] \<Rightarrow> role \<noteq> META_USER \<and> opt_str tool_id = i
    | [ToolUseBlock i nm inp] \<Rightarrow> role \<noteq> META_USER \<and> opt_str tool_id = i \<and> (\<exists>d. inp = PyDict d) \<and> proper_value inp
    | bs \<Rightarrow> list_all (storable_block tool_id) bs)"

definition sorted_input :: "content_block list \<Rightarrow> content_block list" where
  "sorted_input bs = (case bs of [ToolUseBlock i nm inp] \<Rightarrow> [ToolUseBlock i nm (py_sorted inp)] | _ \<Rightarrow> bs)"

definition storable :: "string \<Rightarrow> frame \<Rightarrow> bool" where
  "storable session f = ((f_is_meta f \<longleftrightarrow> f_role f = META_USER) \<and> coerce_frame_origin (f_origin f) = f_origin f
     \<and> list_all (\<lambda>v. non_empty v = v) [f_source_tool_assistant_uuid f, f_tool_use_id f, f_task_id f, f_permission_mode f,
         f_uuid f, f_parent_uuid f, f_logical_parent_uuid f]
     \<and> session \<noteq> [] \<and> f_session_id f = Some session \<and> plausible_time (f_timestamp_ms f) \<and> f_relevance f \<noteq> [] \<and> plain_extra (f_extra f)
     \<and> storable_blocks (f_role f) (f_tool_use_id f) (f_blocks f))"

lemma storable_time: "storable session f \<Longrightarrow> f_timestamp_ms f \<noteq> 0 \<and> restore_ms (f_timestamp_ms f) = f_timestamp_ms f"
  using plausible_time_nonzero[of "f_timestamp_ms f"] by (auto simp: storable_def plausible_time_is_kept)

text \<open>The frame that comes back\<close>

definition as_stored :: "frame \<Rightarrow> frame" where
  "as_stored f = f\<lparr>f_blocks := sorted_input (f_blocks f)\<rparr>"

lemma stripped_values:
  "py_strip ''user'' = ''user''" "py_strip ''assistant'' = ''assistant''" "py_strip ''tool'' = ''tool''" "py_strip ''system'' = ''system''"
  "py_strip ''meta_user'' = ''meta_user''" "py_strip ''user_input'' = ''user_input''" "py_strip ''assistant_text'' = ''assistant_text''"
  "py_lower ''user'' = ''user''" "py_lower ''assistant'' = ''assistant''" "py_lower ''tool'' = ''tool''" "py_lower ''system'' = ''system''"
  "py_lower ''meta_user'' = ''meta_user''"
  by code_simp+

lemma coerced_role: "coerce_frame_role (role_value r) (r = META_USER) = r"
  by (cases r) (simp_all add: coerce_frame_role_def stripped_values)

lemma coerced_kind: "coerce_frame_kind (Some (kind_value k)) dflt = k"
  by (cases k) (simp_all add: coerce_frame_kind_def stripped_values stripped_types)

lemmas reserved = RESERVED_KEYS_def

lemma get_frame_metadata:
  assumes "plain_extra (f_extra f)"
  shows "py_get ''_frame_relevance'' (frame_metadata f) = PyStr (f_relevance f)"
    "py_get ''_frame_uuid'' (frame_metadata f) = opt_val (f_uuid f)"
    "py_get ''_frame_parent_uuid'' (frame_metadata f) = opt_val (f_parent_uuid f)"
    "py_get ''_frame_logical_parent_uuid'' (frame_metadata f) = opt_val (f_logical_parent_uuid f)"
    "py_get ''_frame_session_id'' (frame_metadata f) = opt_val (f_session_id f)"
    "py_get ''_frame_source_tool_assistant_uuid'' (frame_metadata f) = opt_val (f_source_tool_assistant_uuid f)"
    "py_get ''_frame_permission_mode'' (frame_metadata f) = opt_val (f_permission_mode f)"
    "py_get ''_frame_ttl_turns'' (frame_metadata f) = (case f_ttl_turns f of None \<Rightarrow> PyNone | Some n \<Rightarrow> PyInt n)"
    "py_get ''_frame_source_tag'' (frame_metadata f) = PyNone"
  using plain_extra_get[OF assms]
  by (simp_all add: frame_metadata_def Let_def reserved split: option.split)

lemma frame_metadata_extra: "plain_extra (f_extra f) \<Longrightarrow> metadata_extra (frame_metadata f) = f_extra f"
  by (simp add: frame_metadata_def Let_def reserved plain_extra_kept split: option.split)

lemma frame_metadata_proper: "plain_extra (f_extra f) \<Longrightarrow> proper_value (PyDict (frame_metadata f))"
  unfolding frame_metadata_def Let_def
  by (auto intro!: proper_set proper_put simp: plain_extra_def simp del: proper_value.simps(2) split: option.split)

lemma payload_proper:
  assumes "plain_extra (f_extra f)"
  shows "proper_value (PyDict (snd (frame_to_storage_payload f)))" "snd (frame_to_storage_payload f) \<noteq> []"
proof -
  have m: "proper_value (PyDict (frame_metadata f))" by (rule frame_metadata_proper[OF assms])
  show "proper_value (PyDict (snd (frame_to_storage_payload f)))"
    unfolding frame_to_storage_payload_def Let_def
    by (auto intro!: proper_set proper_put m simp del: proper_value.simps(2) split: list.split content_block.split)
  have "py_has ''_frame_block_type'' (snd (frame_to_storage_payload f))"
    by (auto simp: frame_to_storage_payload_def Let_def put_opt_def split: list.split content_block.split option.split)
  then show "snd (frame_to_storage_payload f) \<noteq> []" by auto
qed

text \<open>What a row is read as, in terms of what was written\<close>

lemma row_is_read:
  assumes "plain_extra (f_extra f)" "\<And>t. ci_decrypt c (ci_encrypt c t) = Some t"
  shows "read_row c (row_of_frame c user session now f) =
    hydrate_frame (fst (frame_to_storage_payload f)) (snd (frame_to_storage_payload f)) (row_of_frame c user session now f)"
proof -
  let ?m = "snd (frame_to_storage_payload f)"
  obtain x xs where "json_dumps (PyDict ?m) = x # xs" using dumps_start by blast
  then have "read_metadata (row_of_frame c user session now f) = ?m"
    using payload_proper[OF assms(1)] py_loads_dumps[of "PyDict ?m"]
    by (simp add: read_metadata_def row_of_frame_def Let_def)
  moreover have "read_content c (row_of_frame c user session now f) = fst (frame_to_storage_payload f)"
    using assms(2) by (simp add: read_content_def row_of_frame_def)
  ultimately show ?thesis by (simp add: read_row_def)
qed

lemma get_payload:
  "k \<notin> {''_frame_block_type'', ''_frame_source_tag'', ''_frame_tool_name'', ''_frame_tool_is_error''} \<Longrightarrow>
    py_get k (snd (frame_to_storage_payload f)) = py_get k (frame_metadata f)"
  by (simp add: frame_to_storage_payload_def Let_def split: list.split content_block.split option.split)

lemma payload_extra: "plain_extra (f_extra f) \<Longrightarrow> metadata_extra (snd (frame_to_storage_payload f)) = f_extra f"
  by (simp add: frame_to_storage_payload_def Let_def frame_metadata_extra reserved split: list.split content_block.split)

lemma multi_roundtrip:
  assumes "list_all (storable_block tool_id) bs" "bs \<noteq> []"
  shows "blocks_from_storage role (json_dumps (PyDict [(''blocks'', PyList (map (PyDict \<circ> block_to_storage_dict) bs))]))
    (py_set ''_frame_block_type'' (PyStr ''multi'') m) tool_id = bs"
proof -
  have "proper_value (PyDict (block_to_storage_dict b))" if "b \<in> set bs" for b
    using assms(1) that by (intro proper_block) (auto simp: list_all_iff)
  then have "proper_value (PyDict [(''blocks'', PyList (map (PyDict \<circ> block_to_storage_dict) bs))])"
    by (subst proper_value.simps(2)) (simp add: list_all_iff del: proper_value.simps(2))
  from py_loads_dumps[OF this] show ?thesis
    using dict_blocks_roundtrip[OF assms(1)] assms(2) by (simp add: blocks_from_storage_def Let_def stripped_types)
qed

lemma blocks_are_read:
  assumes "plain_extra (f_extra f)" "storable_blocks (f_role f) (f_tool_use_id f) (f_blocks f)"
  shows "blocks_from_storage (f_role f) (fst (frame_to_storage_payload f)) (snd (frame_to_storage_payload f)) (f_tool_use_id f) =
    sorted_input (f_blocks f)"
proof -
  consider b where "f_blocks f = [b]" | b b' bs where "f_blocks f = b # b' # bs"
    using assms(2) by (cases "f_blocks f" rule: remdups_adj.cases) (auto simp: storable_blocks_def)
  then show ?thesis
  proof cases
    case (1 b)
    show ?thesis
    proof (cases b)
      case (ToolUseBlock i nm inp)
      then obtain d where d: "inp = PyDict d" "proper_value inp" using assms(2) 1 by (auto simp: storable_blocks_def)
      obtain e where e: "py_sorted inp = PyDict e" by (simp add: d(1))
      have "py_loads (json_dumps (py_sorted inp)) = Some (PyDict e)" using py_loads_dumps[OF proper_sorted[OF d(2)]] e by simp
      then show ?thesis using assms(2) 1 ToolUseBlock e
        by (simp add: storable_blocks_def frame_to_storage_payload_def blocks_from_storage_def Let_def stripped_types sorted_input_def)
    next
      case (SystemReminderBlock t tag)
      then show ?thesis using assms(2) 1 get_frame_metadata(9)[OF assms(1)]
        by (auto simp: storable_blocks_def frame_to_storage_payload_def blocks_from_storage_def Let_def stripped_types sorted_input_def
            non_empty_cases)
    qed (use assms(2) 1 in \<open>simp_all add: storable_blocks_def frame_to_storage_payload_def blocks_from_storage_def Let_def
      stripped_types sorted_input_def\<close>)
  next
    case (2 b b' bs)
    then have "list_all (storable_block (f_tool_use_id f)) (b # b' # bs)"
      using assms(2) by (cases b) (simp_all add: storable_blocks_def)
    from multi_roundtrip[OF this] show ?thesis using 2
      by (cases b) (simp_all add: frame_to_storage_payload_def Let_def sorted_input_def)
  qed
qed

lemma column_is_read: "non_empty v = v \<Longrightarrow> py_get k m = opt_val v \<Longrightarrow> column_or v k m = v"
  by (auto simp: column_or_def non_empty_cases)

lemma stored_frame_reads:
  assumes "storable session f" "\<And>t. ci_decrypt c (ci_encrypt c t) = Some t"
  shows "read_row c (row_of_frame c user session now f) = Some (as_stored f)"
proof -
  have extra: "plain_extra (f_extra f)" using assms(1) by (simp add: storable_def)
  note meta = get_frame_metadata[OF extra] get_payload[where f = f]
  let ?m = "snd (frame_to_storage_payload f)"
  have ids: "non_empty (f_source_tool_assistant_uuid f) = f_source_tool_assistant_uuid f" "non_empty (f_tool_use_id f) = f_tool_use_id f"
    "non_empty (f_task_id f) = f_task_id f" "non_empty (f_permission_mode f) = f_permission_mode f"
    "non_empty (f_uuid f) = f_uuid f" "non_empty (f_parent_uuid f) = f_parent_uuid f"
    "non_empty (f_logical_parent_uuid f) = f_logical_parent_uuid f" "f_session_id f = Some session" "non_empty (Some session) = Some session"
    "coerce_frame_origin (f_origin f) = f_origin f" "f_relevance f \<noteq> []" "f_timestamp_ms f \<noteq> 0"
    "restore_ms (f_timestamp_ms f) = f_timestamp_ms f"
    using assms(1) storable_time[OF assms(1)] by (simp_all add: storable_def non_empty_def)
  have role: "coerce_frame_role (role_value (f_role f)) (f_is_meta f) = f_role f" "f_is_meta f \<longleftrightarrow> f_role f = META_USER"
    using assms(1) coerced_role[of "f_role f"] by (simp_all add: storable_def)
  have blocks: "blocks_from_storage (f_role f) (fst (frame_to_storage_payload f)) ?m (f_tool_use_id f) = sorted_input (f_blocks f)"
    using assms(1) by (intro blocks_are_read extra) (simp add: storable_def)
  have columns: "column_or (f_source_tool_assistant_uuid f) ''_frame_source_tool_assistant_uuid'' ?m = f_source_tool_assistant_uuid f"
    "column_or (f_permission_mode f) ''_frame_permission_mode'' ?m = f_permission_mode f"
    "column_or (f_uuid f) ''_frame_uuid'' ?m = f_uuid f" "column_or (f_parent_uuid f) ''_frame_parent_uuid'' ?m = f_parent_uuid f"
    "column_or (f_logical_parent_uuid f) ''_frame_logical_parent_uuid'' ?m = f_logical_parent_uuid f"
    "column_or (Some session) ''_frame_session_id'' ?m = Some session"
    using ids by (intro column_is_read; simp add: meta)+
  show ?thesis
    unfolding row_is_read[OF extra assms(2)] hydrate_frame_def
    using ids role columns blocks
    by (simp add: row_of_frame_def Let_def meta payload_extra[OF extra] coerced_kind as_stored_def new_frame_def split: option.split)
qed


section \<open>A session\<close>

lemma defaults_of_storable:
  assumes "storable session f" "f_uuid f \<noteq> None"
  shows "frame_with_defaults fresh ts (Some session) None None f = f"
proof -
  have "f_timestamp_ms f \<noteq> 0" "f_session_id f = Some session" "session \<noteq> []" "non_empty (f_uuid f) = f_uuid f"
    "non_empty (f_parent_uuid f) = f_parent_uuid f" "non_empty (f_logical_parent_uuid f) = f_logical_parent_uuid f"
    using assms(1) storable_time[OF assms(1)] by (auto simp: storable_def)
  then show ?thesis using assms(2) by (auto simp: frame_with_defaults_def opt_or_def non_empty_cases intro!: frame.equality)
qed

lemma replacement_rows_of_storable:
  assumes "list_all (\<lambda>f. storable session f \<and> f_uuid f \<noteq> None) fs"
  shows "replacement_rows c fresh now user session fs = map (row_of_frame c user session now) fs"
proof (rule nth_equalityI)
  fix i assume "i < length (replacement_rows c fresh now user session fs)"
  then have i: "i < length fs" by (simp add: replacement_rows_def)
  then have "storable session (fs ! i)" "f_uuid (fs ! i) \<noteq> None" using assms by (auto simp: list_all_length)
  from defaults_of_storable[OF this] show "replacement_rows c fresh now user session fs ! i = map (row_of_frame c user session now) fs ! i"
    using i by (simp add: replacement_rows_def)
qed (simp add: replacement_rows_def)

lemma all_some_reads:
  assumes "list_all (storable session) fs" "\<And>t. ci_decrypt c (ci_encrypt c t) = Some t"
  shows "all_some (map (read_row c) (map (row_of_frame c user session now) fs)) = Some (map as_stored fs)"
  using all_some_map[of fs "\<lambda>f. read_row c (row_of_frame c user session now f)" as_stored]
    stored_frame_reads[OF _ assms(2)] assms(1) by (auto simp: list_all_iff comp_def)

text \<open>C5: When \<open>replace_session_frames\<close> succeeds, with a session id that has no white space around it and storable frames
  that have ids and whose times do not decrease, then the session is read back whole and in order, each frame as it was up
  to the order of a single call's arguments, and the rows of other sessions and users are what they were.  The cipher gives
  back what it made.\<close>

theorem replaced_session_is_read_back:
  assumes "replace_session_frames c fresh now user session fs rows = Inr rows'" "py_strip session = session"
    "list_all (\<lambda>f. storable session f \<and> f_uuid f \<noteq> None) fs" "sorted (map f_timestamp_ms fs)"
    "\<And>t. ci_decrypt c (ci_encrypt c t) = Some t"
  shows "load_session_frames c user session None rows' = Some (map as_stored fs) \<and>
    filter (\<lambda>r. rw_user r \<noteq> user \<or> rw_session r \<noteq> session) rows' = filter (\<lambda>r. rw_user r \<noteq> user \<or> rw_session r \<noteq> session) rows"
proof -
  let ?own = "\<lambda>r. rw_user r = user \<and> rw_session r = session" and ?new = "map (row_of_frame c user session now) fs"
  have c: "ci_available c" "session \<noteq> []" and rows': "rows' = filter (\<lambda>r. \<not> ?own r) rows @ ?new"
    using assms(1,2) replacement_rows_of_storable[OF assms(3)] by (auto simp: replace_session_frames_def Let_def split: if_splits)
  have own: "filter ?own rows' = ?new" "filter (\<lambda>r. \<not> ?own r) rows' = filter (\<lambda>r. \<not> ?own r) rows"
    unfolding rows' by (auto simp: row_of_frame_def filter_empty_conv intro!: filter_True filter_False)
  have "map rw_ts ?new = map f_timestamp_ms fs"
    using assms(3) storable_time by (auto simp: row_of_frame_def list_all_iff)
  then have "session_rows user session rows' = ?new"
    unfolding session_rows_def own by (intro sort_key_id_if_sorted) (simp add: assms(4) del: map_map)
  moreover have "list_all (storable session) fs" using assms(3) by (auto simp: list_all_iff)
  from all_some_reads[OF this assms(5)] have "all_some (map (read_row c) ?new) = Some (map as_stored fs)" .
  ultimately show ?thesis using own(2) c assms(2) by (simp add: load_session_frames_def)
qed

section \<open>Scrubbing\<close>

text \<open>The keys of a value, at every depth\<close>

fun keys_inside :: "pyval \<Rightarrow> string list" where
  "keys_inside (PyDict d) = concat (map (\<lambda>(k, v). k # keys_inside v) d)"
| "keys_inside (PyList xs) = concat (map keys_inside xs)"
| "keys_inside v = []"

text \<open>No key of scrubbed metadata is sensitive, however deep it is, and a value without such keys is kept as it is.\<close>

lemma scrubbed_has_no_sensitive_key: "k \<in> set (keys_inside (scrub_sensitive_metadata v)) \<Longrightarrow> \<not> sensitive_key k"
  by (induction v rule: scrub_sensitive_metadata.induct) auto

lemma scrub_keeps_the_rest: "list_all (\<lambda>k. \<not> sensitive_key k) (keys_inside v) \<Longrightarrow> scrub_sensitive_metadata v = v"
proof (induction v rule: scrub_sensitive_metadata.induct)
  case (1 d)
  have clean: "\<not> sensitive_key k" "list_all (\<lambda>k. \<not> sensitive_key k) (keys_inside v)" if "(k, v) \<in> set d" for k v
    using 1(2) that by (auto simp: list_all_iff)
  then have keep: "filter (\<lambda>(k, v). \<not> sensitive_key k) d = d" by (auto simp: filter_id_iff)
  moreover have "scrub_sensitive_metadata v = v" if "(k, v) \<in> set d" for k v
    using 1(1)[of "(k, v)" k v] clean[OF that] that by simp
  then have "map (\<lambda>(k, v). (k, scrub_sensitive_metadata v)) d = d" by (intro map_idI) auto
  ultimately show ?case by simp
next
  case (2 xs)
  then show ?case by (auto simp: list_all_iff intro!: map_idI)
qed simp_all

end
