(* ===== verification/Conversation_Properties.thy ===== *)
theory Conversation_Properties
  imports Conversation_Sessions State_Machine Frame_Storage_Properties
begin

text \<open>
  What the operations on a conversation keep: its token account, the circuit breaker of compaction; what appending,
  branching and recovering leave in the log.
\<close>

section \<open>The steps of a conversation\<close>

text \<open>A conversation and the log.  Every method that changes either is a step; the constructor's restoring is not.\<close>

inductive conversation_op :: "conversation \<times> log_row list \<Rightarrow> conversation \<times> log_row list \<Rightarrow> bool" where
  op_add: "add_frame ci tk fresh now f c rows = Inr (g, c', rows') \<Longrightarrow> conversation_op (c, rows) (c', rows')"
| op_text: "add_text ci tk voice fresh now role content metadata a c rows = Inr (g, c', rows') \<Longrightarrow> conversation_op (c, rows) (c', rows')"
| op_append: "append_frame ci tk fresh now parent logical f c rows = Inr (h, c', rows') \<Longrightarrow> conversation_op (c, rows) (c', rows')"
| op_exchange: "record_exchange ci tk voice ids now u v ea c rows = ((c', rows'), err) \<Longrightarrow> conversation_op (c, rows) (c', rows')"
| op_window: "get_prompt_window tk limit now c = (w, c') \<Longrightarrow> conversation_op (c, rows) (c', rows)"
| op_mark: "mark_snipped_frames tk uuids c = (n, c') \<Longrightarrow> conversation_op (c, rows) (c', rows)"
| op_unmark: "conversation_op (c, rows) (clear_snipped_frames us c, rows)"
| op_begin: "begin_compaction tk keep ids now hook ca c = (s, c') \<Longrightarrow> conversation_op (c, rows) (c', rows)"
| op_finish: "finish_compaction ci tk keep ids ids' now summary hooks c rows = (s, c', rows') \<Longrightarrow> conversation_op (c, rows) (c', rows')"
| op_micro: "micro_compact tk ids ids' now budget c = Inr c' \<Longrightarrow> conversation_op (c, rows) (c', rows)"
| op_clear: "clear_conversation fresh c rows = (c', rows') \<Longrightarrow> conversation_op (c, rows) (c', rows')"
| op_branch: "branch_session ci bi now req new reason ch c rows = (res, c', rows') \<Longrightarrow> conversation_op (c, rows) (c', rows')"
| op_resume: "resume_session ci tk cwd ri fresh now s leaf ch source c rows = (res, c', rows') \<Longrightarrow> conversation_op (c, rows) (c', rows')"
| op_surface: "conversation_op (c, rows) (add_surfaced_ids xs c, rows)"
| op_unsurface: "conversation_op (c, rows) (reset_surfaced_memories c, rows)"

section \<open>The token account\<close>

definition accounts_ok :: "conversation \<Rightarrow> bool" where
  "accounts_ok c = (cv_tokens c = sum_list (map lm_tokens (cv_history c)) \<and> length (cv_history c) \<le> MAX_HISTORY)"

lemma trim_history_account:
  "trim_history h t = (h', t') \<Longrightarrow> t' - sum_list (map lm_tokens h') = t - sum_list (map lm_tokens h) \<and> length h' \<le> MAX_HISTORY"
proof (induction h t arbitrary: h' t' rule: trim_history.induct)
  case (1 h t)
  show ?case
  proof (cases "length h \<le> MAX_HISTORY")
    case True
    with 1(2) show ?thesis by (simp add: trim_history.simps)
  next
    case False
    obtain m rest where o: "oldest_message h = (m, rest)" by fastforce
    have "h \<noteq> []" using False by auto
    then obtain a b where h: "h = a @ m # b" "rest = a @ b" using oldest_message_rest o by blast
    have "trim_history rest (t - lm_tokens m) = (h', t')" using 1(2) False o by (simp add: trim_history.simps[of h])
    from 1(1)[OF False refl o[symmetric] this] o show ?thesis using h by (auto simp: algebra_simps)
  qed
qed

lemma append_history_accounts: "accounts_ok c \<Longrightarrow> accounts_ok (append_history now tk f (c\<lparr>cv_frames := fs\<rparr>))"
  by (auto simp: append_history_def accounts_ok_def Let_def split: prod.splits option.splits dest: trim_history_account)

lemma rebuild_accounts: "length (cv_frames c) \<le> MAX_HISTORY \<Longrightarrow> accounts_ok (rebuild_legacy_history now c)"
  by (auto simp: rebuild_legacy_history_def accounts_ok_def Let_def map_filter_def intro: le_trans[OF length_filter_le])

lemma length_last_n: "length (last_n n xs) = min n (length xs)"
  by (simp add: last_n_def)

lemma length_normalize_loop: "length (normalize_chain_loop fresh now s rw ret i done fs) = length done + length fs"
  by (induction fresh now s rw ret i "done" fs rule: normalize_chain_loop.induct) (simp_all add: Let_def)

lemma length_normalize: "length (normalize_frame_chain fresh now s rw fs) = length fs"
  by (simp add: normalize_frame_chain_def length_normalize_loop)

lemma rebuild_simps [simp]: "cv_frames (rebuild_legacy_history now c) = cv_frames c"
  "cv_session (rebuild_legacy_history now c) = cv_session c" "cv_user (rebuild_legacy_history now c) = cv_user c"
  "cv_failures (rebuild_legacy_history now c) = cv_failures c" "cv_compacting (rebuild_legacy_history now c) = cv_compacting c"
  "cv_snipped (rebuild_legacy_history now c) = cv_snipped c"
  by (simp_all add: rebuild_legacy_history_def Let_def)

lemma install_accounts: "accounts_ok (install_frame_chain fresh now fs c)"
  by (simp add: install_frame_chain_def Let_def rebuild_accounts length_normalize length_last_n)

lemma switch_accounts: "accounts_ok (switch_to now s fs c)"
  by (simp add: switch_to_def rebuild_accounts length_last_n)

text \<open>The account depends on two fields only.\<close>

lemma accounts_cong: "cv_history d = cv_history c \<Longrightarrow> cv_tokens d = cv_tokens c \<Longrightarrow> accounts_ok d = accounts_ok c"
  by (simp add: accounts_ok_def)

lemma add_frame_accounts: "add_frame ci tk fresh now f c rows = Inr (g, c', rows') \<Longrightarrow> accounts_ok c \<Longrightarrow> accounts_ok c'"
  by (auto simp: add_frame_def Let_def append_history_accounts split: if_splits sum.splits)

lemma add_text_accounts:
  "add_text ci tk voice fresh now role content metadata a c rows = Inr (g, c', rows') \<Longrightarrow> accounts_ok c \<Longrightarrow> accounts_ok c'"
  by (auto simp: add_text_def Let_def add_frame_accounts split: if_splits)

lemma append_frame_accounts:
  "append_frame ci tk fresh now parent logical f c rows = Inr (h, c', rows') \<Longrightarrow> accounts_ok c \<Longrightarrow> accounts_ok c'"
  by (auto simp: append_frame_def Let_def split: sum.splits intro: add_frame_accounts)

lemma exchange_accounts:
  "record_exchange ci tk voice ids now u v ea c rows = ((c', rows'), err) \<Longrightarrow> accounts_ok c \<Longrightarrow> accounts_ok c'"
  by (auto simp: record_exchange_def split: sum.splits) (blast intro: add_text_accounts)+

lemma window_accounts: "get_prompt_window tk limit now c = (w, c') \<Longrightarrow> accounts_ok c \<Longrightarrow> accounts_ok c'"
  by (auto simp: get_prompt_window_def Let_def accounts_ok_def split: if_splits)

lemma mark_accounts: "accounts_ok c \<Longrightarrow> accounts_ok (snd (mark_snipped_frames tk us c))"
  by (simp add: mark_snipped_frames_def Let_def accounts_ok_def)

lemma begin_accounts: "begin_compaction tk keep ids now hook ca c = (s, c') \<Longrightarrow> accounts_ok c \<Longrightarrow> accounts_ok c'"
  by (auto simp: begin_compaction_def Let_def accounts_ok_def split: if_splits sum.splits)

lemma finish_accounts:
  assumes "finish_compaction ci tk keep ids ids' now summary hooks c rows = (s, c', rows')" "accounts_ok c"
  shows "accounts_ok c'"
proof -
  have *: "accounts_ok ((snd (mark_snipped_frames tk us (install_frame_chain ids' now fs d\<lparr>cv_surfaced := {}\<rparr>)))\<lparr>cv_failures := 0\<rparr>)" for us fs d
    by (rule accounts_cong[THEN iffD2, OF _ _ mark_accounts[of "install_frame_chain ids' now fs d\<lparr>cv_surfaced := {}\<rparr>"]])
       (simp_all add: accounts_cong[THEN iffD2, OF _ _ install_accounts])
  have **: "accounts_ok (install_frame_chain ids' now fs d\<lparr>cv_failures := n\<rparr>)" for fs d n
    by (rule accounts_cong[THEN iffD2, OF _ _ install_accounts]) simp_all
  have ***: "accounts_ok (c\<lparr>cv_compacting := None, cv_failures := n\<rparr>)" for n
    using assms(2) by (simp add: accounts_ok_def)
  show ?thesis using assms
    by (auto simp: finish_compaction_def Let_def split: option.splits sum.splits if_splits prod.splits intro: * ** ***)
qed

lemma micro_accounts: "micro_compact tk ids ids' now budget c = Inr c' \<Longrightarrow> accounts_ok c \<Longrightarrow> accounts_ok c'"
  by (auto simp: micro_compact_def install_accounts split: if_splits sum.splits)

lemma branch_accounts:
  "branch_session ci bi now req new reason ch c rows = (res, c', rows') \<Longrightarrow> accounts_ok c \<Longrightarrow> accounts_ok c'"
  by (auto simp: branch_session_def Let_def switch_accounts split: if_splits sum.splits prod.splits)

lemma resume_accounts:
  assumes "resume_session ci tk cwd ri fresh now s leaf ch source c rows = (res, c', rows')" "accounts_ok c"
  shows "accounts_ok c'"
proof -
  have *: "accounts_ok (switch_to now s fs c\<lparr>cv_replacements := r\<rparr>)" for s fs r
    by (rule accounts_cong[THEN iffD2, OF _ _ switch_accounts]) simp_all
  show ?thesis using assms
    by (auto simp: resume_session_def Let_def split: if_splits sum.splits prod.splits option.splits intro: * append_frame_accounts)
qed

lemma conversation_op_accounts: "conversation_op s t \<Longrightarrow> accounts_ok (fst s) \<Longrightarrow> accounts_ok (fst t)"
proof (induction rule: conversation_op.induct)
  case (op_mark tk uuids c n c' rows)
  then show ?case using mark_accounts[of c tk uuids] by simp
next
  case (op_clear fresh c rows c' rows')
  then show ?case by (auto simp: clear_conversation_def accounts_ok_def)
qed (simp_all add: clear_snipped_frames_def add_surfaced_ids_def reset_surfaced_memories_def accounts_ok_def[of "_\<lparr>cv_snipped := _\<rparr>"]
    accounts_ok_def[of "_\<lparr>cv_surfaced := _\<rparr>"] accounts_ok_def[symmetric],
  (blast dest: add_frame_accounts add_text_accounts append_frame_accounts exchange_accounts window_accounts begin_accounts
    finish_accounts micro_accounts branch_accounts resume_accounts)+)

interpretation account: invariant_machine "\<lambda>s. accounts_ok (fst s)" conversation_op "\<lambda>s. accounts_ok (fst s)"
  by unfold_locales (auto intro: conversation_op_accounts)

text \<open>However messages are added, hidden, compacted, cleared, branched or resumed, the token count of a conversation is the sum
  over its messages, and there are no more of them than the limit.\<close>

lemma token_account_is_exact:
  assumes "conversation_op\<^sup>*\<^sup>* (new_conversation user model tokens requested fresh, rows) (c, rows')"
  shows "cv_tokens c = sum_list (map lm_tokens (cv_history c)) \<and> length (cv_history c) \<le> MAX_HISTORY"
  using account.reachable_inv[OF _ assms] by (simp add: accounts_ok_def new_conversation_def Let_def)

section \<open>The circuit breaker of compaction\<close>

text \<open>Whether a compaction waits, and the failures in a row\<close>

definition compaction_breaker :: "conversation \<Rightarrow> pending_compaction option \<times> nat" where
  "compaction_breaker c = (cv_compacting c, cv_failures c)"

lemma breaker_simps [simp]:
  "compaction_breaker (rebuild_legacy_history now c) = compaction_breaker c" "compaction_breaker (append_history now tk f c) = compaction_breaker c"
  "compaction_breaker (c\<lparr>cv_frames := fs\<rparr>) = compaction_breaker c" "compaction_breaker (c\<lparr>cv_snipped := x\<rparr>) = compaction_breaker c" "compaction_breaker (c\<lparr>cv_surfaced := y\<rparr>) = compaction_breaker c"
  "compaction_breaker (c\<lparr>cv_replacements := z\<rparr>) = compaction_breaker c" "compaction_breaker (c\<lparr>cv_window_start := w\<rparr>) = compaction_breaker c"
  "compaction_breaker (c\<lparr>cv_session := s\<rparr>) = compaction_breaker c" "compaction_breaker (c\<lparr>cv_explicit := e\<rparr>) = compaction_breaker c"
  by (simp_all add: compaction_breaker_def append_history_def Let_def split: option.splits prod.splits)

lemma add_frame_breaker: "add_frame ci tk fresh now f c rows = Inr (g, c', rows') \<Longrightarrow> compaction_breaker c' = compaction_breaker c"
  by (auto simp: add_frame_def Let_def split: if_splits sum.splits)

lemma add_text_breaker: "add_text ci tk voice fresh now role content metadata a c rows = Inr (g, c', rows') \<Longrightarrow> compaction_breaker c' = compaction_breaker c"
  by (auto simp: add_text_def Let_def add_frame_breaker split: if_splits)

lemma append_frame_breaker: "append_frame ci tk fresh now parent logical f c rows = Inr (h, c', rows') \<Longrightarrow> compaction_breaker c' = compaction_breaker c"
  by (auto simp: append_frame_def Let_def add_frame_breaker split: sum.splits)

lemma exchange_breaker: "record_exchange ci tk voice ids now u v ea c rows = ((c', rows'), err) \<Longrightarrow> compaction_breaker c' = compaction_breaker c"
  by (auto simp: record_exchange_def split: sum.splits dest!: add_text_breaker)

lemma install_breaker [simp]: "compaction_breaker (install_frame_chain fresh now fs c) = compaction_breaker c"
  by (simp add: install_frame_chain_def Let_def)

lemma switch_breaker [simp]: "compaction_breaker (switch_to now s fs c) = compaction_breaker c"
  by (simp add: switch_to_def)

lemma resume_breaker:
  "resume_session ci tk cwd ri fresh now s leaf ch source c rows = (res, c', rows') \<Longrightarrow> compaction_breaker c' = compaction_breaker c"
  by (auto simp: resume_session_def Let_def split: if_splits sum.splits prod.splits option.splits dest!: append_frame_breaker)

lemma conversation_op_breaker:
  assumes "conversation_op s t" "compaction_breaker (fst s) = (None, n)" "MAX_CONSECUTIVE_COMPACTION_FAILURES \<le> n"
  shows "compaction_breaker (fst t) = (None, n)"
  using assms
proof (induction rule: conversation_op.induct)
  case (op_begin tk keep ids now hook ca c s c' rows)
  then show ?case by (auto simp: begin_compaction_def autocompact_circuit_open_def compaction_breaker_def)
next
  case (op_finish ci tk keep ids ids' now summary hooks c rows s c' rows')
  then show ?case by (auto simp: finish_compaction_def compaction_breaker_def)
next
  case (op_window tk limit now c w c' rows)
  then show ?case by (auto simp: get_prompt_window_def Let_def split: if_splits)
next
  case (op_mark tk uuids c n c' rows)
  then show ?case by (auto simp: mark_snipped_frames_def Let_def split: if_splits)
next
  case (op_micro tk ids ids' now budget c c' rows)
  then show ?case by (auto simp: micro_compact_def split: if_splits sum.splits)
next
  case (op_clear fresh c rows c' rows')
  then show ?case by (auto simp: clear_conversation_def compaction_breaker_def)
next
  case (op_branch ci bi now req new reason ch c rows res c' rows')
  then show ?case by (auto simp: branch_session_def Let_def split: if_splits sum.splits prod.splits)
qed (auto simp: clear_snipped_frames_def add_surfaced_ids_def reset_surfaced_memories_def
  dest: add_frame_breaker add_text_breaker append_frame_breaker exchange_breaker resume_breaker)

interpretation tripped: invariant_machine "\<lambda>s. compaction_breaker (fst s) = (None, n) \<and> MAX_CONSECUTIVE_COMPACTION_FAILURES \<le> n" conversation_op
    "\<lambda>s. compaction_breaker (fst s) = (None, n) \<and> MAX_CONSECUTIVE_COMPACTION_FAILURES \<le> n" for n
  by unfold_locales (auto intro: conversation_op_breaker)

text \<open>After three compactions in a row failed no other one is ever begun: whatever is done with the conversation, the count of
  failures stays, and \<open>compact\<close> answers that it did nothing.\<close>

lemma tripped_breaker_never_closes:
  assumes "conversation_op\<^sup>*\<^sup>* (c, rows) (d, rows')" "cv_compacting c = None" "autocompact_circuit_open c"
  shows "autocompact_circuit_open d \<and> begin_compaction tk keep fresh now hook a d = (NotCompacted, d)
    \<and> \<not> needs_compaction tk budget source d"
proof -
  have "autocompact_circuit_open d"
    using tripped.reachable_inv[of "(c, rows)" "cv_failures c", OF _ assms(1)] assms(2,3)
    by (simp add: compaction_breaker_def autocompact_circuit_open_def)
  then show ?thesis by (simp add: begin_compaction_def needs_compaction_def)
qed

section \<open>Appending\<close>

lemma sort_key_snoc:
  assumes "\<forall>y \<in> set xs. k y \<le> k x"
  shows "sort_key k (xs @ [x]) = sort_key k xs @ [x]"
proof (rule properties_for_sort_key)
  show "sorted (map k (sort_key k xs @ [x]))" using assms by (auto simp: sorted_append)
  have flip: "(\<lambda>z. k y = k z) = (\<lambda>z. k z = k y)" for y by auto
  show "filter (\<lambda>z. k y = k z) (sort_key k xs @ [x]) = filter (\<lambda>z. k y = k z) (xs @ [x])" for y
    unfolding flip by (simp add: sort_key_stable)
qed simp

lemma session_rows_snoc:
  assumes "rw_user r = user" "rw_session r = session" "\<forall>q \<in> set rows. rw_user q = user \<and> rw_session q = session \<longrightarrow> rw_ts q \<le> rw_ts r"
  shows "session_rows user session (rows @ [r]) = session_rows user session rows @ [r]"
  using assms by (simp add: session_rows_def sort_key_snoc)

lemma all_some_snoc: "all_some xs = Some ys \<Longrightarrow> all_some (xs @ [Some y]) = Some (ys @ [y])"
  by (induction xs arbitrary: ys rule: all_some.induct) auto

lemma boundary_index_le: "boundary_index gs = Some i \<Longrightarrow> i < length gs"
proof -
  assume i: "boundary_index gs = Some i"
  let ?is = "filter (\<lambda>i. is_boundary (gs ! i)) [0..<length gs]"
  have "?is \<noteq> []" "i = last ?is" using i unfolding boundary_index_def by (auto split: list.splits)
  then have "i \<in> set ?is" using last_in_set by metis
  then show ?thesis by simp
qed

lemma last_pruned: "last (prune_pre_compact_frames (fs @ [f])) = f"
proof (cases "boundary_index (fs @ [f])")
  case (Some i)
  with boundary_index_le[OF Some] show ?thesis by (simp add: prune_pre_compact_frames_def last_append)
qed (simp add: prune_pre_compact_frames_def)

lemma appended_frame:
  assumes "add_frame ci tk fresh now f c rows = Inr (Some g, c', rows')"
  shows "rows' = rows @ [row_of_frame ci (cv_user c) (cv_session c) now (frame_with_defaults fresh now (Some (cv_session c)) None None g)]"
    "last (cv_frames c') = g" "cv_user c' = cv_user c" "cv_session c' = cv_session c" "ci_available ci"
  using assms by (auto simp: add_frame_def Let_def write_turn_def append_history_def last_pruned split: if_splits sum.splits prod.splits option.splits)

text \<open>A frame that was appended is the newest of the conversation, and reading the log gives it back after everything that was
  there, up to the order of the keys in the arguments of a single call.\<close>

lemma appended_frame_is_durable:
  assumes "add_frame ci tk fresh now f c rows = Inr (Some g, c', rows')" "storable (cv_session c) g" "f_uuid g \<noteq> None"
    "py_strip (cv_session c) = cv_session c" "\<And>t. ci_decrypt ci (ci_encrypt ci t) = Some t"
    "\<forall>q \<in> set rows. rw_user q = cv_user c \<and> rw_session q = cv_session c \<longrightarrow> rw_ts q \<le> f_timestamp_ms g"
    "load_session_frames ci (cv_user c) (cv_session c) None rows = Some fs"
  shows "last (cv_frames c') = g \<and>
    load_session_frames ci (cv_user c') (cv_session c') None rows' = Some (fs @ [as_stored g])"
proof -
  note app = appended_frame[OF assms(1)]
  let ?r = "row_of_frame ci (cv_user c) (cv_session c) now g"
  have rows': "rows' = rows @ [?r]" using app(1) defaults_of_storable[OF assms(2,3)] by simp
  have "f_timestamp_ms g \<noteq> 0" "cv_session c \<noteq> []" using assms(2) storable_time[OF assms(2)] by (auto simp: storable_def)
  then have "rw_user ?r = cv_user c" "rw_session ?r = cv_session c" "rw_ts ?r = f_timestamp_ms g" "cv_session c \<noteq> []"
    by (simp_all add: row_of_frame_def)
  moreover from this assms(6) have "session_rows (cv_user c) (cv_session c) rows' = session_rows (cv_user c) (cv_session c) rows @ [?r]"
    unfolding rows' by (intro session_rows_snoc) simp_all
  moreover have "read_row ci ?r = Some (as_stored g)" by (rule stored_frame_reads[OF assms(2,5)])
  ultimately show ?thesis using app assms(4,7) by (simp add: load_session_frames_def all_some_snoc)
qed

section \<open>Branching\<close>

lemma write_frames_all:
  "write_frames ci fresh now user session fs rows = (None, rows') \<Longrightarrow>
    rows' = rows @ map (\<lambda>f. row_of_frame ci user session now (frame_with_defaults fresh now (Some session) None None f)) fs"
proof (induction fs arbitrary: rows)
  case (Cons f fs)
  have "ci_available ci" using Cons.prems by (auto simp: write_turn_def split: if_splits)
  then have "write_frames ci fresh now user session fs
      (rows @ [row_of_frame ci user session now (frame_with_defaults fresh now (Some session) None None f)]) = (None, rows')"
    using Cons.prems by (simp add: write_turn_def)
  from Cons.IH[OF this] show ?case by simp
qed simp

text \<open>Every frame has the one before it as its parent.\<close>

fun linked_from :: "string option \<Rightarrow> frame list \<Rightarrow> bool" where
  "linked_from p [] = True"
| "linked_from p (f # fs) = (f_parent_uuid f = p \<and> linked_from (f_uuid f) fs)"

lemma linked_from_snoc: "linked_from p (fs @ [f]) \<longleftrightarrow> linked_from p fs \<and> f_parent_uuid f = (if fs = [] then p else f_uuid (last fs))"
  by (induction fs arbitrary: p) auto

lemma branch_frames_linked: "linked_from p (branch_frames ids i s reason target p fs)"
  by (induction ids i s reason target p fs rule: branch_frames.induct) (simp_all add: branch_frame_def)

lemma branch_frames_blocks: "map f_blocks (branch_frames ids i s reason target p fs) = map f_blocks fs"
  by (induction ids i s reason target p fs rule: branch_frames.induct) (simp_all add: branch_frame_def)

lemma select_frames_prefix: "select_frames ids i point fs = (gs, found) \<Longrightarrow> prefix (map f_blocks gs) (map f_blocks fs)"
  by (induction ids i point fs arbitrary: gs found rule: select_frames.induct) (auto simp: Let_def split: if_splits prod.splits)

lemma branch_point_blocks: "fs \<noteq> [] \<Longrightarrow> branch_point fresh req fs = (p, gs) \<Longrightarrow> map f_blocks gs = map f_blocks fs"
  by (auto simp: branch_point_def Let_def split: if_splits) (metis append_butlast_last_id list.simps(8,9) map_append)

text \<open>A branch is a linked copy of the transcript up to the branch point, with the event that tells of it at its end.  It is
  written whole, to a session that had no rows, after all rows that were there; the live frames are the end of it.\<close>

lemma branch_copies_the_transcript:
  assumes "branch_session ci ids now requested new_id reason channel c rows = (Inr i, c', rows')"
  shows "\<exists>copies event. rows' = rows @ map (\<lambda>f. row_of_frame ci (cv_user c) (si_session_id i) now
        (frame_with_defaults (bi_point ids) now (Some (si_session_id i)) None None f)) (copies @ [event])
    \<and> cv_frames c' = last_n MAX_HISTORY (copies @ [event]) \<and> cv_session c' = si_session_id i
    \<and> \<not> session_exists (cv_user c) (si_session_id i) rows \<and> linked_from None (copies @ [event])
    \<and> prefix (map f_blocks copies) (map f_blocks (branch_source
        (case load_session_frames ci (cv_user c) (cv_session c) None rows of Some fs \<Rightarrow> fs | None \<Rightarrow> []) (cv_frames c)))"
proof -
  let ?source = "branch_source
    (case load_session_frames ci (cv_user c) (cv_session c) None rows of Some fs \<Rightarrow> fs | None \<Rightarrow> []) (cv_frames c)"
  obtain point source' selected where run: "?source \<noteq> []" "branch_point (bi_point ids) requested ?source = (point, source')"
      "select_frames (bi_missing ids) 0 point source' = (selected, True)" "\<not> session_exists (cv_user c) (si_session_id i) rows"
      "write_frames ci (bi_point ids) now (cv_user c) (si_session_id i)
        (branched_chain ids i (cv_session c) point reason (cv_replacements c) selected) rows = (None, rows')"
      "c' = switch_to now (si_session_id i) (branched_chain ids i (cv_session c) point reason (cv_replacements c) selected) c"
    using assms unfolding branch_session_def Let_def
    by (auto split: if_splits prod.splits sum.splits option.splits)
  define copies where "copies = branch_frames (bi_copies ids) 0 (cv_session c) reason (si_session_id i) None selected"
  obtain event where chain: "branched_chain ids i (cv_session c) point reason (cv_replacements c) selected = copies @ [event]"
      "f_parent_uuid event = Option.bind (last_frame copies) f_uuid"
    by (simp add: branched_chain_def copies_def Let_def branch_event_def session_event_frame_def)
  have "linked_from None (copies @ [event])"
    using branch_frames_linked[of None] chain(2) by (auto simp: linked_from_snoc copies_def last_frame_def)
  moreover have "prefix (map f_blocks copies) (map f_blocks ?source)"
    using select_frames_prefix[OF run(3)] branch_point_blocks[OF run(1,2)] by (simp add: copies_def branch_frames_blocks)
  moreover have "cv_frames c' = last_n MAX_HISTORY (copies @ [event])" "cv_session c' = si_session_id i"
    using run(6) chain(1) by (simp_all add: switch_to_def)
  ultimately show ?thesis using write_frames_all[OF run(5)] chain(1) run(4) by auto
qed

section \<open>Recovery on loading\<close>

lemma assign_lineage_timestamp [simp]: "f_timestamp_ms (assign_lineage fresh f previous s) = f_timestamp_ms f"
  by (simp add: assign_lineage_def Let_def)

lemma relink_timestamp [simp]: "f_timestamp_ms (relink retained previous f) = f_timestamp_ms f"
  by (simp add: relink_def split: option.split)

lemma infer_timestamp [simp]: "f_timestamp_ms (infer_tool_source prior f) = f_timestamp_ms f"
  by (simp add: infer_tool_source_def split: option.split)

lemma rewritten_times_loop:
  "map f_timestamp_ms (normalize_chain_loop ids now s True ret i ds fs)
    = map f_timestamp_ms ds @ map (\<lambda>j. now + int j) [i..<i + length fs]"
proof (induction fs arbitrary: i ds)
  case (Cons f fs)
  have "[i..<i + length (f # fs)] = i # [Suc i..<Suc i + length fs]" by (subst upt_conv_Cons) simp_all
  then show ?case by (simp add: Let_def Cons del: upt_Suc)
qed simp

lemma rewritten_times: "map f_timestamp_ms (normalize_frame_chain ids now s True fs) = map (\<lambda>j. now + int j) [0..<length fs]"
  by (simp add: normalize_frame_chain_def rewritten_times_loop)

lemma replacement_times:
  assumes "0 < now" "map f_timestamp_ms fs = map (\<lambda>j. now + int j) [0..<length fs]"
  shows "map rw_ts (replacement_rows ci ids now user session fs) = map f_timestamp_ms fs"
proof (rule nth_equalityI)
  fix i assume "i < length (map rw_ts (replacement_rows ci ids now user session fs))"
  then have i: "i < length fs" by (simp add: replacement_rows_def)
  have "f_timestamp_ms (fs ! i) = now + int i" using arg_cong[OF assms(2), of "\<lambda>xs. xs ! i"] i by simp
  then show "map rw_ts (replacement_rows ci ids now user session fs) ! i = map f_timestamp_ms fs ! i"
    using i assms(1) by (simp add: replacement_rows_def row_of_frame_def frame_with_defaults_def)
qed (simp add: replacement_rows_def)

text \<open>Loading a session either leaves the log as it was, or makes the frames that were loaded the whole session, stamped with the
  present time; rows of other sessions and users are never touched.\<close>

lemma recovery_rewrites_its_session:
  assumes "recover_loaded_frames ci cwd ids now user session sentinel persist original rows = Inr (fs, rows')"
    "py_strip session = session" "0 < now"
  shows "filter (\<lambda>r. \<not> (rw_user r = user \<and> rw_session r = session)) rows'
      = filter (\<lambda>r. \<not> (rw_user r = user \<and> rw_session r = session)) rows
    \<and> (rows' = rows \<or> map rw_ts (filter (\<lambda>r. rw_user r = user \<and> rw_session r = session) rows')
        = map (\<lambda>j. now + int j) [0..<length fs])"
proof (cases "rows' = rows")
  case False
  then have r: "replace_session_frames ci (ri_rows ids) now user session fs rows = Inr rows'"
    and n: "\<exists>gs. fs = normalize_frame_chain (ri_second ids) now session True gs"
    using assms(1) by (auto simp: recover_loaded_frames_def Let_def split: if_splits sum.splits)
  let ?own = "\<lambda>r. rw_user r = user \<and> rw_session r = session" and ?new = "replacement_rows ci (ri_rows ids) now user session fs"
  have rows': "rows' = filter (\<lambda>r. \<not> ?own r) rows @ ?new"
    using r assms(2) by (simp add: replace_session_frames_def Let_def split: if_splits)
  have new: "\<forall>r \<in> set ?new. ?own r" by (auto simp: replacement_rows_def row_of_frame_def)
  have times: "map f_timestamp_ms fs = map (\<lambda>j. now + int j) [0..<length fs]"
    using n by (auto simp: rewritten_times length_normalize)
  have "filter ?own rows' = ?new" using new unfolding rows' by (auto simp: filter_id_iff)
  moreover have "filter (\<lambda>r. \<not> ?own r) rows' = filter (\<lambda>r. \<not> ?own r) rows" using new unfolding rows' by auto
  ultimately show ?thesis using replacement_times[OF assms(3) times] times by simp
qed simp

end
