(* ===== verification/Recovery_Properties.thy ===== *)
theory Recovery_Properties
  imports Transcript_Repair
begin

text \<open>
  What a resumed transcript satisfies.  The loop of \<open>recover_transcript_on_resume\<close> is read
  through one case rule (a frame is dropped, or trimmed and appended); its invariant says that
  the two id sets are the calls and the answers of the repaired chain and that every answer
  follows its call.
\<close>

section \<open>One frame\<close>

lemma retain_strip:
  "retain_blocks U R bs = (fst (strip_blocks U R bs), snd (strip_blocks U R bs),
     length bs - length (fst (strip_blocks U R bs)))"
proof (induction U R bs rule: retain_blocks.induct)
  case (2 U R b bs)
  then show ?case using strip_blocks_length[of U _ bs] by (auto simp: Let_def split_beta Suc_diff_le)
qed simp

lemma strip_blocks_subseq: "subseq (fst (strip_blocks U R bs)) bs"
  by (induction U R bs rule: strip_blocks.induct) (auto simp: Let_def split_beta)

lemma strip_blocks_others:
  "filter (\<lambda>b. \<not> is_tool_result b) (fst (strip_blocks U R bs)) = filter (\<lambda>b. \<not> is_tool_result b) bs"
  by (induction U R bs rule: strip_blocks.induct) (auto simp: Let_def split_beta)

lemma strip_blocks_answers:
  "U \<subseteq> V \<Longrightarrow> answers_only V R (block_events (fst (strip_blocks U R bs)))
    \<and> snd (strip_blocks U R bs) = R \<union> set (res_list (block_events (fst (strip_blocks U R bs))))"
proof (induction U R bs arbitrary: V rule: strip_blocks.induct)
  case (2 U R b bs)
  let ?r = "if is_tool_result b then insert (block_tool_id b) R else R"
  show ?case
  proof (cases "is_tool_result b \<and> (block_tool_id b = [] \<or> block_tool_id b \<notin> U \<or> block_tool_id b \<in> R)")
    case True
    with "2.IH"(1)[OF True "2.prems"] show ?thesis by (cases b) auto
  next
    case False
    let ?V = "if is_tool_use b then insert (block_tool_id b) V else V"
    have "U \<subseteq> ?V" using "2.prems" by auto
    from "2.IH"(2)[OF False this] False "2.prems" show ?thesis
      by (cases b) (auto simp: Let_def split_beta)
  qed
qed simp

text \<open>\<open>g\<close> is what recovery keeps of \<open>f\<close>: some of its results are gone, its attachments may have
  been migrated and its permission mode scrubbed; all else is as it was.\<close>

definition trimmed :: "frame \<Rightarrow> frame \<Rightarrow> bool" where
  "trimmed f g = (f_kind g = f_kind f \<and> f_role g = f_role f \<and> f_is_meta g = f_is_meta f
     \<and> f_origin g = f_origin f \<and> f_uuid g = f_uuid f \<and> f_parent_uuid g = f_parent_uuid f
     \<and> f_session_id g = f_session_id f \<and> f_timestamp_ms g = f_timestamp_ms f
     \<and> subseq (f_blocks g) (f_blocks f)
     \<and> filter (\<lambda>b. \<not> is_tool_result b) (f_blocks g) = filter (\<lambda>b. \<not> is_tool_result b) (f_blocks f)
     \<and> (f_permission_mode g = f_permission_mode f \<or> f_permission_mode g = None))"

lemma fst_if_if: "fst (if c then (x, 0::nat) else if d then (x, 0) else (y e, n)) \<in> insert x (range y)"
  by simp

lemma migrate_fields: "\<exists>e. fst (migrate_legacy_attachment_fields cwd f) = f\<lparr>f_extra := e\<rparr>"
proof -
  have mem: "fst (migrate_legacy_attachment_fields cwd f) \<in> insert f (range (\<lambda>e. f\<lparr>f_extra := e\<rparr>))"
    unfolding migrate_legacy_attachment_fields_def Let_def split_beta
    by (rule fst_if_if[where y = "\<lambda>e. f\<lparr>f_extra := e\<rparr>"])
  show ?thesis
  proof (cases "fst (migrate_legacy_attachment_fields cwd f) = f")
    case True
    then have "fst (migrate_legacy_attachment_fields cwd f) = f\<lparr>f_extra := f_extra f\<rparr>" by simp
    then show ?thesis by (rule exI)
  next
    case False
    with mem have "fst (migrate_legacy_attachment_fields cwd f) \<in> range (\<lambda>e. f\<lparr>f_extra := e\<rparr>)"
      by (simp only: insert_iff) simp
    then show ?thesis by (rule rangeE) (rule exI)
  qed
qed

lemma scrub_fields:
  fixes cwd :: string and f :: frame
  obtains (scrubbed) e p where "scrub_frame cwd f = f\<lparr>f_extra := e, f_permission_mode := p\<rparr>" "p \<in> {f_permission_mode f, None}"
proof -
  obtain e where e: "fst (migrate_legacy_attachment_fields cwd f) = f\<lparr>f_extra := e\<rparr>"
    using migrate_fields by blast
  show thesis
  proof (cases "invalid_mode (f\<lparr>f_extra := e\<rparr>)")
    case True
    with e show ?thesis by (intro scrubbed[of None e]) (simp_all add: scrub_frame_def)
  next
    case False
    with e show ?thesis by (intro scrubbed[of "f_permission_mode f" e]) (simp_all add: scrub_frame_def)
  qed
qed

lemma scrub_sel [simp]: "f_blocks (scrub_frame cwd f) = f_blocks f" "f_role (scrub_frame cwd f) = f_role f"
    "f_is_meta (scrub_frame cwd f) = f_is_meta f"
  by (rule scrub_fields[of cwd f], simp)+

text \<open>The frame as trimmed, and whether it is dropped whole.\<close>

definition trim_frame :: "string \<Rightarrow> recovery \<Rightarrow> frame \<Rightarrow> frame" where
  "trim_frame cwd s f = (let kept = fst (strip_blocks (rc_tool_uses s) (rc_tool_results s) (f_blocks f))
     in if length kept \<noteq> length (f_blocks f) then (scrub_frame cwd f)\<lparr>f_blocks := kept\<rparr> else scrub_frame cwd f)"

definition drop_frame :: "string \<Rightarrow> recovery \<Rightarrow> frame \<Rightarrow> bool" where
  "drop_frame cwd s f = (f_role f = ASSISTANT \<and> \<not> f_is_meta f
       \<and> (is_thinking_only_frame (scrub_frame cwd f) \<or> is_whitespace_only_frame (scrub_frame cwd f))
     \<or> fst (strip_blocks (rc_tool_uses s) (rc_tool_results s) (f_blocks f)) = [] \<and> f_blocks f \<noteq> [])"

lemma length_strip_less:
  "0 < length bs - length (fst (strip_blocks U R bs)) \<longleftrightarrow> length (fst (strip_blocks U R bs)) \<noteq> length bs"
  using strip_blocks_length[of U R bs] by auto

lemma trim_frame_sel:
  "f_blocks (trim_frame cwd s f) = fst (strip_blocks (rc_tool_uses s) (rc_tool_results s) (f_blocks f))"
  "trimmed f (trim_frame cwd s f)"
proof -
  let ?st = "strip_blocks (rc_tool_uses s) (rc_tool_results s) (f_blocks f)"
  show b: "f_blocks (trim_frame cwd s f) = fst ?st"
    using strip_blocks_changed[of "rc_tool_uses s" "rc_tool_results s" "f_blocks f"]
    by (auto simp: trim_frame_def Let_def)
  obtain e p where sf: "scrub_frame cwd f = f\<lparr>f_extra := e, f_permission_mode := p\<rparr>"
    "p \<in> {f_permission_mode f, None}" by (rule scrub_fields)
  then have "f_permission_mode (trim_frame cwd s f) \<in> {f_permission_mode f, None}"
    by (simp add: trim_frame_def Let_def)
  with sf show "trimmed f (trim_frame cwd s f)"
    unfolding trimmed_def b using strip_blocks_subseq strip_blocks_others
    by (simp add: trim_frame_def Let_def)
qed

lemma recover_frame_dropped:
  assumes "drop_frame cwd s f"
  shows "rc_repaired (recover_frame cwd f s) = rc_repaired s"
    "rc_tool_uses (recover_frame cwd f s) = rc_tool_uses s"
    "rc_tool_results (recover_frame cwd f s) = rc_tool_results s"
proof -
  let ?st = "strip_blocks (rc_tool_uses s) (rc_tool_results s) (f_blocks f)"
  have "snd ?st = rc_tool_results s" if "fst ?st = []"
    using strip_blocks_answers[OF order_refl, of "rc_tool_uses s" "rc_tool_results s" "f_blocks f"] that by simp
  with assms show "rc_repaired (recover_frame cwd f s) = rc_repaired s"
    "rc_tool_uses (recover_frame cwd f s) = rc_tool_uses s"
    "rc_tool_results (recover_frame cwd f s) = rc_tool_results s"
    by (auto simp: recover_frame_def retain_strip Let_def split_beta drop_frame_def)
qed

lemma recover_frame_kept:
  assumes "\<not> drop_frame cwd s f"
  shows "rc_repaired (recover_frame cwd f s) = rc_repaired s @ [trim_frame cwd s f]"
    "rc_tool_uses (recover_frame cwd f s) = rc_tool_uses s \<union> set (tool_use_ids (trim_frame cwd s f))"
    "rc_tool_results (recover_frame cwd f s) =
       snd (strip_blocks (rc_tool_uses s) (rc_tool_results s) (f_blocks f))"
proof -
  let ?st = "strip_blocks (rc_tool_uses s) (rc_tool_results s) (f_blocks f)"
  let ?f = "scrub_frame cwd f"
  let ?n = "length (f_blocks f) - length (fst ?st)"
  have keep: "\<not> (f_role ?f = ASSISTANT \<and> \<not> f_is_meta ?f \<and> is_thinking_only_frame ?f)"
    "\<not> (f_role ?f = ASSISTANT \<and> \<not> f_is_meta ?f \<and> is_whitespace_only_frame ?f)"
    "\<not> (?n \<noteq> 0 \<and> fst ?st = [])"
    using assms by (auto simp: drop_frame_def)
  have t: "trim_frame cwd s f = (if ?n \<noteq> 0 then ?f\<lparr>f_blocks := fst ?st\<rparr> else ?f)"
    using strip_blocks_length[of "rc_tool_uses s" "rc_tool_results s" "f_blocks f"]
    by (simp add: trim_frame_def Let_def)
  show "rc_repaired (recover_frame cwd f s) = rc_repaired s @ [trim_frame cwd s f]"
    "rc_tool_uses (recover_frame cwd f s) = rc_tool_uses s \<union> set (tool_use_ids (trim_frame cwd s f))"
    "rc_tool_results (recover_frame cwd f s) = snd ?st"
    unfolding t recover_frame_def Let_def split_beta retain_strip fst_conv snd_conv
    using keep by (cases "?n = 0"; auto simp: recovery_tool_use_ids_def tool_use_ids_def)+
qed

section \<open>The loop\<close>

text \<open>The id sets are those of the repaired chain, and every answer follows its call.\<close>

definition recovery_ok :: "recovery \<Rightarrow> bool" where
  "recovery_ok s = (rc_tool_uses s = set (use_list (frames_events (rc_repaired s))) - {[]}
     \<and> rc_tool_results s = set (res_list (frames_events (rc_repaired s)))
     \<and> answers_only {} {} (frames_events (rc_repaired s)))"

lemma recover_frame_ok: "recovery_ok s \<Longrightarrow> recovery_ok (recover_frame cwd f s)"
proof (cases "drop_frame cwd s f")
  case True
  assume "recovery_ok s"
  with recover_frame_dropped[OF True] show ?thesis by (simp add: recovery_ok_def)
next
  case False
  assume ok: "recovery_ok s"
  let ?E = "frames_events (rc_repaired s)" and ?g = "trim_frame cwd s f"
  have ge: "frame_events ?g = block_events (fst (strip_blocks (rc_tool_uses s) (rc_tool_results s) (f_blocks f)))"
    by (simp add: frame_events_eq trim_frame_sel)
  have "rc_tool_uses s \<subseteq> set (use_list ?E)" using ok by (auto simp: recovery_ok_def)
  note a = strip_blocks_answers[OF this, of "rc_tool_results s" "f_blocks f", folded ge]
  have "set (tool_use_ids ?g) = set (use_list (frame_events ?g)) - {[]}"
    by (auto simp: tool_use_ids_events)
  with a ok recover_frame_kept[OF False] show ?thesis
    by (auto simp: recovery_ok_def answers_only_append)
qed

lemma recovery_loop_ok: "recovery_ok (fold (recover_frame cwd) fs recovery_start)"
proof (rule fold_invariant[of fs "\<lambda>_. True" recovery_ok])
  show "recovery_ok recovery_start" by (simp add: recovery_ok_def recovery_start_def)
qed (auto intro: recover_frame_ok)

text \<open>The repaired chain is the active chain with some frames left out and the others trimmed.\<close>

lemma recovery_loop_trims:
  "\<exists>gs. rc_repaired (fold (recover_frame cwd) fs s) = rc_repaired s @ gs
    \<and> (\<exists>ks. subseq ks fs \<and> list_all2 trimmed ks gs)"
proof (induction fs arbitrary: s)
  case Nil
  show ?case by simp
next
  case (Cons f fs)
  let ?t = "recover_frame cwd f s"
  obtain gs ks where IH: "rc_repaired (fold (recover_frame cwd) fs ?t) = rc_repaired ?t @ gs"
    "subseq ks fs" "list_all2 trimmed ks gs" using Cons.IH[of ?t] by blast
  show ?case
  proof (cases "drop_frame cwd s f")
    case True
    have "subseq ks (f # fs)" using IH(2) by (simp add: list_emb_Cons)
    with IH recover_frame_dropped[OF True] show ?thesis by auto
  next
    case False
    have "subseq (f # ks) (f # fs)" "list_all2 trimmed (f # ks) (trim_frame cwd s f # gs)"
      using IH by (simp_all add: trim_frame_sel)
    with IH(1) recover_frame_kept(1)[OF False] show ?thesis by fastforce
  qed
qed

section \<open>The leading user frame\<close>

text \<open>The wire role of the first frame that is rendered.\<close>

fun first_wire_role :: "frame list \<Rightarrow> wire_role option" where
  "first_wire_role [] = None"
| "first_wire_role (f # fs) = (case recovery_wire_role f of None \<Rightarrow> first_wire_role fs | Some w \<Rightarrow> Some w)"

lemma first_wire_append:
  "first_wire_role (fs @ gs) = (if first_wire_role fs = None then first_wire_role gs else first_wire_role fs)"
  by (induction fs) (auto split: option.splits)

lemma recovery_wire_simps [simp]:
  "f_role f = ASSISTANT \<Longrightarrow> recovery_wire_role f = Some WireAssistant"
  "f_role f = META_USER \<Longrightarrow> recovery_wire_role f = Some WireUser"
  "f_role f = USER \<Longrightarrow> recovery_wire_role f = Some WireUser"
  "f_role f = TOOL \<Longrightarrow> recovery_wire_role f = Some WireUser"
  by (simp_all add: recovery_wire_role_def)

lemma lineage_sel [simp]:
  "f_blocks (with_recovery_lineage u f prior ss) = f_blocks f"
  "f_role (with_recovery_lineage u f prior ss) = f_role f"
  "f_is_meta (with_recovery_lineage u f prior ss) = f_is_meta f"
  "f_origin (with_recovery_lineage u f prior ss) = f_origin f"
  by (simp_all add: with_recovery_lineage_def assign_lineage_def Let_def)

lemma lineage_events [simp]: "frame_events (with_recovery_lineage u f prior ss) = frame_events f"
  by (simp add: frame_events_eq)

text \<open>Either nothing is inserted, or a placeholder that has no tool events and speaks as the user.\<close>

lemma user_leading_cases:
  assumes "user_leading_loop u ss before fs = out" "first_wire_role before = None"
  shows "first_wire_role out \<noteq> Some WireAssistant
    \<and> (out = before @ fs \<or> (\<exists>as bs p. before @ fs = as @ bs \<and> out = as @ p # bs \<and> f_is_meta p
         \<and> f_role p = META_USER \<and> frame_events p = [] \<and> f_origin p = Some TRANSCRIPT_RECOVERY_ORIGIN))"
  using assms
proof (induction u ss before fs rule: user_leading_loop.induct)
  case (2 u ss before f fs)
  consider (skip) "recovery_wire_role f = None" | (user) "recovery_wire_role f = Some WireUser"
    | (assistant) "recovery_wire_role f = Some WireAssistant"
    by (metis not_None_eq wire_role.exhaust)
  then show ?case
  proof cases
    case skip
    with "2.prems" have "first_wire_role (before @ [f]) = None" by (simp add: first_wire_append)
    with "2.IH"[OF skip] "2.prems"(1) skip show ?thesis by simp
  next
    case user
    then show ?thesis using "2.prems" by (auto simp: first_wire_append)
  next
    case assistant
    let ?p = "with_recovery_lineage u (build_orphan_tool_result_placeholder_frame (Some f)
       (opt_or ss (f_session_id f)) TRANSCRIPT_RECOVERY_ORIGIN) before ss"
    have out: "out = before @ ?p # f # fs" using "2.prems"(1) assistant by simp
    have "first_wire_role out \<noteq> Some WireAssistant" unfolding out first_wire_append
      using "2.prems"(2) by simp
    then show ?thesis unfolding out
      by (intro conjI disjI2 exI[of _ before] exI[of _ "f # fs"] exI[of _ ?p]) simp_all
  qed
qed simp

section \<open>The appended frames\<close>

lemma continue_sel [simp]:
  "f_is_meta (build_transcript_continue_frame ss t r c)"
  "f_role (build_transcript_continue_frame ss t r c) = META_USER"
  "f_origin (build_transcript_continue_frame ss t r c) = Some TRANSCRIPT_RECOVERY_ORIGIN"
  "frame_events (build_transcript_continue_frame ss t r c) = []"
  by (simp_all add: build_transcript_continue_frame_def frame_events_eq)

lemma sentinel_sel [simp]:
  "f_role (build_no_response_sentinel_frame f ss) = ASSISTANT"
  "\<not> f_is_meta (build_no_response_sentinel_frame f ss)"
  "f_origin (build_no_response_sentinel_frame f ss) = Some NO_RESPONSE_REQUESTED_ORIGIN"
  "frame_events (build_no_response_sentinel_frame f ss) = []"
  by (simp_all add: build_no_response_sentinel_frame_def frame_events_eq)

lemma synthetic_recovery_sel [simp]:
  "f_is_meta (build_synthetic_tool_result_frame f ids ss)"
  "f_role (build_synthetic_tool_result_frame f ids ss) = TOOL"
  "f_origin (build_synthetic_tool_result_frame f ids ss) = Some TRANSCRIPT_RECOVERY_ORIGIN"
  "frame_events (build_synthetic_tool_result_frame f ids ss) = map Res ids"
proof -
  have "block_events (map (\<lambda>i. ToolResultBlock i (n i) c e) ids) = map Res ids" for n c e
    by (induction ids) auto
  then show "frame_events (build_synthetic_tool_result_frame f ids ss) = map Res ids"
    by (simp add: build_synthetic_tool_result_frame_def frame_events_eq)
qed (simp_all add: build_synthetic_tool_result_frame_def)

lemma tool_use_ids_lineage [simp]: "tool_use_ids (with_recovery_lineage u f prior ss) = tool_use_ids f"
  by (simp add: tool_use_ids_def)

definition recovery_origin :: "frame \<Rightarrow> bool" where
  "recovery_origin f = (f_origin f = Some TRANSCRIPT_RECOVERY_ORIGIN
     \<or> f_origin f = Some NO_RESPONSE_REQUESTED_ORIGIN)"

text \<open>A frame the repair appends after a chain whose last behavioural frame is \<open>latest\<close>: a meta
  frame that does not speak as the assistant, or the sentinel, after a user frame.\<close>

definition appended_ok :: "frame option \<Rightarrow> frame \<Rightarrow> bool" where
  "appended_ok latest a = (recovery_origin a \<and> tool_use_ids a = []
     \<and> (f_is_meta a \<and> f_role a \<noteq> ASSISTANT
        \<or> (case latest of None \<Rightarrow> False | Some f \<Rightarrow> f_role f = USER)))"

lemma appended_simps [simp]:
  "appended_ok l (with_recovery_lineage u (build_transcript_continue_frame a b c d) prior ss)"
  "appended_ok l (with_recovery_lineage u (build_synthetic_tool_result_frame f ids a) prior ss)"
  "appended_ok l (with_recovery_lineage u (build_orphan_tool_result_placeholder_frame g a
     TRANSCRIPT_RECOVERY_ORIGIN) prior ss)"
  "f_role f = USER \<Longrightarrow> appended_ok (Some f) (with_recovery_lineage u (build_no_response_sentinel_frame f' a) prior ss)"
  by (simp_all add: appended_ok_def recovery_origin_def tool_use_ids_events)

lemma recovery_tail_shape:
  assumes "recovery_tail fresh ss sentinel tip s rep = (out, n, c, q)"
    and missing: "missing = filter (\<lambda>i. i \<notin> rc_tool_results s) (recovery_tool_use_ids (last_behavioral_frame rep))"
  shows "\<exists>added. out = rep @ added \<and> length added \<le> 2 \<and> n = length missing
    \<and> frames_events added = map Res missing \<and> (\<forall>a \<in> set added. appended_ok (last_behavioral_frame rep) a)"
proof -
  show ?thesis
  proof (cases "last_behavioral_frame rep = None \<or> missing = []")
    case True
    then have m: "missing = []" using missing by (auto simp: recovery_tool_use_ids_def)
    with True have "recovery_tail fresh ss sentinel tip s rep =
      (if rc_orphans s \<noteq> 0 \<and> \<not> has_recovery_continue rep
            then (rep @ [with_recovery_lineage (fresh 1)
                   (build_orphan_tool_result_placeholder_frame (Some tip)
                      (opt_or ss (f_session_id tip)) TRANSCRIPT_RECOVERY_ORIGIN)
                   rep ss], 0, False, False)
            else (case last_behavioral_frame rep of
                Some f \<Rightarrow> (if sentinel \<and> f_role f = USER \<and> \<not> has_no_response_sentinel rep
                   then (rep @ [with_recovery_lineage (fresh 1)
                          (build_no_response_sentinel_frame f ss) rep ss], 0, False, True)
                   else (rep, 0, False, False))
              | None \<Rightarrow> (rep, 0, False, False)))"
      unfolding recovery_tail_def Let_def missing[symmetric] by (auto split: option.splits)
    with assms(1) m show ?thesis
      by (auto split: if_splits option.splits)
  next
    case False
    then obtain f i js where f: "last_behavioral_frame rep = Some f" "missing = i # js"
      by (cases missing) auto
    let ?r1 = "rep @ [with_recovery_lineage (fresh 1) (build_synthetic_tool_result_frame f missing ss) rep ss]"
    have "recovery_tail fresh ss sentinel tip s rep =
      (if has_recovery_continue ?r1 then (?r1, length missing, False, False)
       else (?r1 @ [with_recovery_lineage (fresh 2)
                     (build_transcript_continue_frame (opt_or ss (f_session_id f)) (f_task_id f)
                        ''interrupted_tool_resume'' None) ?r1 ss], length missing, True, False))"
      unfolding recovery_tail_def Let_def missing[symmetric] by (simp add: f)
    with assms(1) show ?thesis
      by (auto split: if_splits)
  qed
qed

section \<open>The resumed transcript\<close>

text \<open>The chain the loop reads, and the parts of the result.\<close>

definition resume_chain :: "frame list \<Rightarrow> frame list" where
  "resume_chain frames = recover_orphaned_parallel_tool_results frames (walk_active_leaf frames)"

lemma resume_parts:
  fixes cwd fresh frames ss sentinel
  defines "r \<equiv> recover_transcript_on_resume cwd fresh frames ss sentinel"
  obtains (empty) "walk_active_leaf frames = []" "tr_frames r = []"
  | (parts) s rep added where "s = fold (recover_frame cwd) (resume_chain frames) recovery_start"
      "rep = ensure_user_leading_recovery (fresh 0) ss (rc_repaired s)"
      "tr_frames r = rep @ added" "length added \<le> 2"
      "frames_events added = map Res (filter (\<lambda>i. i \<notin> rc_tool_results s)
         (recovery_tool_use_ids (last_behavioral_frame rep)))"
      "tr_synthetic_tool_results r = length (res_list (frames_events added))"
      "\<forall>a \<in> set added. appended_ok (last_behavioral_frame rep) a"
proof (cases "walk_active_leaf frames = []")
  case True
  then show thesis by (intro empty) (simp_all add: r_def recover_transcript_on_resume_def)
next
  case False
  let ?s = "fold (recover_frame cwd) (resume_chain frames) recovery_start"
  let ?rep = "ensure_user_leading_recovery (fresh 0) ss (rc_repaired ?s)"
  obtain out n c q where t: "recovery_tail fresh ss sentinel (last (resume_chain frames)) ?s ?rep = (out, n, c, q)"
    by (metis prod.exhaust)
  from recovery_tail_shape[OF t refl] obtain added where a: "out = ?rep @ added" "length added \<le> 2"
    "n = length (filter (\<lambda>i. i \<notin> rc_tool_results ?s) (recovery_tool_use_ids (last_behavioral_frame ?rep)))"
    "frames_events added = map Res (filter (\<lambda>i. i \<notin> rc_tool_results ?s)
       (recovery_tool_use_ids (last_behavioral_frame ?rep)))"
    "\<forall>a \<in> set added. appended_ok (last_behavioral_frame ?rep) a" by blast
  have "tr_frames r = out" "tr_synthetic_tool_results r = n"
    using False t by (simp_all add: r_def recover_transcript_on_resume_def Let_def resume_chain_def)
  with a show thesis by (intro parts[OF refl refl]) auto
qed

lemma leading_shape:
  assumes "rep = ensure_user_leading_recovery u ss fs"
  shows "first_wire_role rep \<noteq> Some WireAssistant
    \<and> (rep = fs \<or> (\<exists>as bs p. fs = as @ bs \<and> rep = as @ p # bs \<and> f_is_meta p
         \<and> f_role p = META_USER \<and> frame_events p = [] \<and> f_origin p = Some TRANSCRIPT_RECOVERY_ORIGIN))"
  using user_leading_cases[of u ss "[]" fs rep] assms by (simp add: ensure_user_leading_recovery_def)

lemma leading_events: "rep = ensure_user_leading_recovery u ss fs \<Longrightarrow> frames_events rep = frames_events fs"
  using leading_shape[of rep u ss fs] by auto

lemma last_behavioral_append:
  "last_behavioral_frame (fs @ gs) = (case last_behavioral_frame gs of None \<Rightarrow> last_behavioral_frame fs | Some f \<Rightarrow> Some f)"
proof -
  have "List.find P (xs @ ys) = (case List.find P xs of None \<Rightarrow> List.find P ys | Some x \<Rightarrow> Some x)"
    for P :: "frame \<Rightarrow> bool" and xs ys by (induction xs) auto
  then show ?thesis unfolding last_behavioral_frame_def by simp
qed

lemma last_behavioral_in: "last_behavioral_frame fs = Some f \<Longrightarrow> f \<in> set fs \<and> \<not> f_is_meta f"
  by (auto simp: last_behavioral_frame_def find_Some_iff) (metis length_rev nth_mem set_rev)

lemma first_wire_in: "first_wire_role fs = Some WireAssistant \<Longrightarrow> \<exists>f \<in> set fs. f_role f = ASSISTANT"
  by (induction fs) (auto simp: recovery_wire_role_def split: option.splits if_splits)

lemma tool_use_ids_in_events:
  "f \<in> set fs \<Longrightarrow> set (tool_use_ids f) \<subseteq> set (use_list (frames_events fs)) - {[]}"
  by (induction fs) (auto simp: tool_use_ids_events)

lemma trimmed_use_ids: "trimmed f g \<Longrightarrow> tool_use_ids g = tool_use_ids f"
proof -
  have u: "block_use_ids bs = block_use_ids (filter (\<lambda>b. \<not> is_tool_result b) bs)" for bs
  proof (induction bs)
    case (Cons b bs)
    then show ?case by (cases b) simp_all
  qed simp
  assume "trimmed f g"
  then show ?thesis unfolding tool_use_ids_def by (subst (1 2) u) (simp add: trimmed_def)
qed

lemma list_all2_in2: "list_all2 P xs ys \<Longrightarrow> y \<in> set ys \<Longrightarrow> \<exists>x \<in> set xs. P x y"
  by (induction xs ys rule: list_all2_induct) auto

text \<open>A frame of the repaired chain makes the calls of a stored frame, or none.\<close>

lemma resume_chain_stored: "set (resume_chain frames) \<subseteq> set frames"
proof -
  have w: "set (walk_active_leaf frames) \<subseteq> set frames"
    using walk_active_leaf_cases[OF refl, of frames] walk_chain_shaped[of frames _ _ "walk_active_leaf frames"]
    by (metis order_refl)
  have "set (recover_loop A frames hv c) \<subseteq> set frames" if "set c \<subseteq> set frames" for A hv c
    using recover_loop_props[of c A frames hv] that by (auto simp: answers_def)
  then show ?thesis unfolding resume_chain_def recover_orphaned_parallel_tool_results_def
    using w by auto
qed

lemma repaired_use_ids:
  assumes "rep = ensure_user_leading_recovery u ss (rc_repaired (fold (recover_frame cwd) (resume_chain frames) recovery_start))"
    "f \<in> set rep"
  shows "tool_use_ids f = [] \<or> (\<exists>k \<in> set frames. tool_use_ids f = tool_use_ids k)"
proof -
  let ?s = "fold (recover_frame cwd) (resume_chain frames) recovery_start"
  obtain ks where ks: "subseq ks (resume_chain frames)" "list_all2 trimmed ks (rc_repaired ?s)"
    using recovery_loop_trims[of cwd "resume_chain frames" recovery_start] by (auto simp: recovery_start_def)
  consider "f \<in> set (rc_repaired ?s)" | "frame_events f = []"
    using leading_shape[OF assms(1)] assms(2) by auto
  then show ?thesis
  proof cases
    case 1
    with list_all2_in2[OF ks(2)] obtain k where k: "k \<in> set ks" "trimmed k f" by blast
    with ks(1) resume_chain_stored have "k \<in> set frames" by (blast dest: list_emb_set)
    with trimmed_use_ids[OF k(2)] show ?thesis by blast
  qed (simp add: tool_use_ids_events)
qed

text \<open>C8: When no stored frame repeats a call id within itself, then in the resumed transcript every tool result answers a call made
  before it, and no call is answered twice, whatever else was stored: results without a call are stripped and interrupted
  calls are answered once.  (A frame that repeats an id is answered twice.)\<close>

theorem resume_answers_only:
  assumes "\<forall>f \<in> set frames. distinct (tool_use_ids f)"
  shows "answers_only {} {} (frames_events (tr_frames (recover_transcript_on_resume cwd fresh frames session sentinel)))"
proof (cases rule: resume_parts[of frames cwd fresh session sentinel])
  case empty
  then show ?thesis by simp
next
  case (parts s rep added)
  have ok: "recovery_ok s" unfolding parts(1) by (rule recovery_loop_ok)
  have ev: "frames_events rep = frames_events (rc_repaired s)" using parts(2) by (rule leading_events)
  let ?m = "filter (\<lambda>i. i \<notin> rc_tool_results s) (recovery_tool_use_ids (last_behavioral_frame rep))"
  have m: "distinct ?m \<and> set ?m \<subseteq> set (use_list (frames_events rep)) - {[]}"
  proof (cases "last_behavioral_frame rep")
    case (Some f)
    then have f: "f \<in> set rep" using last_behavioral_in by blast
    have "distinct (tool_use_ids f)"
      using repaired_use_ids[OF parts(2)[unfolded parts(1)] f] assms by auto
    with Some tool_use_ids_in_events[OF f] show ?thesis
      by (auto simp: recovery_tool_use_ids_def tool_use_ids_def)
  qed (simp add: recovery_tool_use_ids_def)
  then have "answers_only {} {} (frames_events rep @ map Res ?m)"
    using ok unfolding answers_only_append answers_only_Res by (auto simp: ev recovery_ok_def)
  then show ?thesis using parts(3,5) by simp
qed

text \<open>C9: A resumed transcript never stops on an open call: every call of its last frame that is
  not meta has its result in the transcript.\<close>

theorem resume_answers_last_frame:
  assumes "last_behavioral_frame (tr_frames (recover_transcript_on_resume cwd fresh frames session sentinel)) = Some f"
  shows "set (tool_use_ids f) \<subseteq> set (res_list (frames_events
           (tr_frames (recover_transcript_on_resume cwd fresh frames session sentinel))))"
proof (cases rule: resume_parts[of frames cwd fresh session sentinel])
  case empty
  then show ?thesis using assms by (simp add: last_behavioral_frame_def)
next
  case (parts s rep added)
  have ok: "recovery_ok s" unfolding parts(1) by (rule recovery_loop_ok)
  have ev: "frames_events rep = frames_events (rc_repaired s)" using parts(2) by (rule leading_events)
  show ?thesis
  proof (cases "last_behavioral_frame added")
    case None
    with assms parts(3) have l: "last_behavioral_frame rep = Some f" by (simp add: last_behavioral_append)
    then show ?thesis using ok ev
      by (auto simp: parts(3,5) recovery_tool_use_ids_def tool_use_ids_def recovery_ok_def)
  next
    case (Some g)
    with assms parts(3) have "f = g" by (simp add: last_behavioral_append)
    with last_behavioral_in[OF Some] parts(7) have "tool_use_ids f = []" by (auto simp: appended_ok_def)
    then show ?thesis by simp
  qed
qed

text \<open>The first frame of a resumed transcript that is sent to a provider speaks as the user.\<close>

lemma resume_user_leading:
  "first_wire_role (tr_frames (recover_transcript_on_resume cwd fresh frames session sentinel)) \<noteq> Some WireAssistant"
proof (cases rule: resume_parts[of frames cwd fresh session sentinel])
  case empty
  then show ?thesis by simp
next
  case (parts s rep added)
  have lead: "first_wire_role rep \<noteq> Some WireAssistant" using leading_shape[OF parts(2)] by blast
  show ?thesis
  proof (cases "first_wire_role rep")
    case (Some w)
    with lead show ?thesis by (simp add: parts(3) first_wire_append)
  next
    case None
    have "f_role a \<noteq> ASSISTANT" if a: "a \<in> set added" for a
    proof
      assume "f_role a = ASSISTANT"
      with parts(7) a obtain f where f: "last_behavioral_frame rep = Some f" "f_role f = USER"
        by (auto simp: appended_ok_def split: option.splits)
      then have "f \<in> set rep" using last_behavioral_in by blast
      with f(2) have "first_wire_role rep \<noteq> None" by (induction rep) (auto split: option.splits)
      with None show False by simp
    qed
    then have "first_wire_role added \<noteq> Some WireAssistant" using first_wire_in by blast
    with None show ?thesis by (simp add: parts(3) first_wire_append)
  qed
qed

text \<open>Recovery keeps the active chain: the frames of the result that it did not make are the
  frames of that chain in order, some left out, each with its text, its calls, its ids and its links,
  and at most three frames are added, all marked with an origin of their own.\<close>

lemma resume_keeps_chain:
  "\<exists>kept trim added. subseq kept (resume_chain frames) \<and> list_all2 trimmed kept trim
     \<and> tr_frames (recover_transcript_on_resume cwd fresh frames session sentinel) \<in> shuffles trim added
     \<and> length added \<le> 3 \<and> list_all (\<lambda>a. recovery_origin a \<and> tool_use_ids a = []) added"
proof (cases rule: resume_parts[of frames cwd fresh session sentinel])
  case empty
  have "subseq [] (resume_chain frames)" "list_all2 trimmed [] []" by simp_all
  with empty show ?thesis by (intro exI[of _ "[]"]) simp
next
  case (parts s rep added)
  obtain ks where ks: "subseq ks (resume_chain frames)" "list_all2 trimmed ks (rc_repaired s)"
    using recovery_loop_trims[of cwd "resume_chain frames" recovery_start] parts(1)
    by (auto simp: recovery_start_def)
  have add: "list_all (\<lambda>a. recovery_origin a \<and> tool_use_ids a = []) added"
    using parts(7) by (auto simp: appended_ok_def list_all_iff)
  have app: "xs @ ys \<in> shuffles xs ys" for xs ys :: "frame list"
    by (induction xs) (simp_all add: Cons_in_shuffles_leftI)
  from leading_shape[OF parts(2)] consider "rep = rc_repaired s"
    | as bs p where "rc_repaired s = as @ bs" "rep = as @ p # bs" "frame_events p = []"
        "f_origin p = Some TRANSCRIPT_RECOVERY_ORIGIN" by blast
  then show ?thesis
  proof cases
    case 1
    then have "tr_frames (recover_transcript_on_resume cwd fresh frames session sentinel)
        \<in> shuffles (rc_repaired s) added" using app parts(3) by simp
    with ks add parts(4) show ?thesis by (intro exI[of _ ks] exI[of _ "rc_repaired s"] exI[of _ added]) simp
  next
    case 2
    have "as @ p # bs @ added \<in> shuffles (as @ bs) (p # added)"
      by (induction as) (simp_all add: Cons_in_shuffles_leftI Cons_in_shuffles_rightI app)
    then have "tr_frames (recover_transcript_on_resume cwd fresh frames session sentinel)
        \<in> shuffles (rc_repaired s) (p # added)" using 2 parts(3) by simp
    moreover have "recovery_origin p \<and> tool_use_ids p = []"
      using 2 by (simp add: recovery_origin_def tool_use_ids_events)
    ultimately show ?thesis using ks add parts(4)
      by (intro exI[of _ ks] exI[of _ "rc_repaired s"] exI[of _ "p # added"]) simp
  qed
qed

section \<open>A transcript that needs no repair\<close>

text \<open>A frame the loop passes through: nothing to migrate or scrub, not an empty or thinking-only
  assistant frame, and calls and results not mixed.\<close>

definition settled :: "string \<Rightarrow> frame \<Rightarrow> bool" where
  "settled cwd f = (migrate_legacy_attachment_fields cwd f = (f, 0) \<and> \<not> invalid_mode f
     \<and> \<not> (f_role f = ASSISTANT \<and> \<not> f_is_meta f \<and> (is_thinking_only_frame f \<or> is_whitespace_only_frame f))
     \<and> (use_list (frame_events f) = [] \<or> res_list (frame_events f) = []))"

lemma strip_settled:
  assumes "answers_only V R (block_events bs)" "V - {[]} \<subseteq> U"
    "use_list (block_events bs) = [] \<or> res_list (block_events bs) = []"
  shows "strip_blocks U R bs = (bs, R \<union> set (res_list (block_events bs)))"
  using assms
proof (induction bs arbitrary: V R)
  case (Cons b bs)
  show ?case
  proof (cases b)
    case (ToolUseBlock i n a)
    with Cons.prems have "res_list (block_events bs) = []" by simp
    moreover from this have "strip_blocks U R bs = (bs, R)"
    proof (induction bs arbitrary: R)
      case (Cons c cs)
      then show ?case by (cases c) auto
    qed simp
    ultimately show ?thesis using ToolUseBlock by simp
  next
    case (ToolResultBlock i n c e)
    with Cons.prems have i: "i \<noteq> []" "i \<in> U" "i \<notin> R" and a: "answers_only V (insert i R) (block_events bs)"
      and u: "use_list (block_events bs) = []" by auto
    from Cons.IH[OF a Cons.prems(2)] u i ToolResultBlock show ?thesis by simp
  qed (use Cons.IH[of V R] Cons.prems in simp_all)
qed simp

lemma recover_settled:
  assumes "settled cwd f" "recovery_ok s" "answers_only {} {} (frames_events (rc_repaired s) @ frame_events f)"
  shows "recover_frame cwd f s = s\<lparr>rc_repaired := rc_repaired s @ [f],
    rc_tool_uses := rc_tool_uses s \<union> set (tool_use_ids f),
    rc_tool_results := rc_tool_results s \<union> set (res_list (frame_events f))\<rparr>"
proof -
  have m: "migrate_legacy_attachment_fields cwd f = (f, 0)" "\<not> invalid_mode f" using assms(1)
    by (auto simp: settled_def)
  then have sf: "scrub_frame cwd f = f" by (simp add: scrub_frame_def)
  have "answers_only (set (use_list (frames_events (rc_repaired s)))) (rc_tool_results s) (block_events (f_blocks f))"
    "set (use_list (frames_events (rc_repaired s))) - {[]} \<subseteq> rc_tool_uses s"
    using assms(2,3) by (auto simp: recovery_ok_def answers_only_append frame_events_eq)
  note st = strip_settled[OF this] 
  have "strip_blocks (rc_tool_uses s) (rc_tool_results s) (f_blocks f)
      = (f_blocks f, rc_tool_results s \<union> set (res_list (frame_events f)))"
    using st assms(1) by (simp add: settled_def frame_events_eq)
  moreover have "\<not> (f_role f = ASSISTANT \<and> \<not> f_is_meta f \<and> is_thinking_only_frame f)"
    "\<not> (f_role f = ASSISTANT \<and> \<not> f_is_meta f \<and> is_whitespace_only_frame f)"
    using assms(1) by (auto simp: settled_def)
  ultimately show ?thesis
    unfolding recover_frame_def retain_strip Let_def split_beta m sf
    by (auto simp: m recovery_tool_use_ids_def tool_use_ids_def)
qed

lemma recovery_loop_settled:
  assumes "\<forall>f \<in> set fs. settled cwd f" "recovery_ok s" "answers_only {} {} (frames_events (rc_repaired s @ fs))"
  shows "fold (recover_frame cwd) fs s = s\<lparr>rc_repaired := rc_repaired s @ fs,
    rc_tool_uses := rc_tool_uses s \<union> set (concat (map tool_use_ids fs)),
    rc_tool_results := rc_tool_results s \<union> set (res_list (frames_events fs))\<rparr>"
  using assms
proof (induction fs arbitrary: s)
  case (Cons f fs)
  let ?t = "recover_frame cwd f s"
  have "answers_only {} {} (frames_events (rc_repaired s) @ frame_events f)"
    using Cons.prems(3) answers_only_append[of "{}" "{}" "frames_events (rc_repaired s) @ frame_events f" "frames_events fs"]
    by simp
  from recover_settled[OF _ Cons.prems(2) this] Cons.prems(1)
  have t: "?t = s\<lparr>rc_repaired := rc_repaired s @ [f],
    rc_tool_uses := rc_tool_uses s \<union> set (tool_use_ids f),
    rc_tool_results := rc_tool_results s \<union> set (res_list (frame_events f))\<rparr>" by simp
  have "recovery_ok ?t" using Cons.prems(2) by (rule recover_frame_ok)
  moreover have "answers_only {} {} (frames_events (rc_repaired ?t @ fs))" using Cons.prems(3) by (simp add: t)
  ultimately have "fold (recover_frame cwd) fs ?t = ?t\<lparr>rc_repaired := rc_repaired ?t @ fs,
    rc_tool_uses := rc_tool_uses ?t \<union> set (concat (map tool_use_ids fs)),
    rc_tool_results := rc_tool_results ?t \<union> set (res_list (frames_events fs))\<rparr>"
    using Cons.IH[of ?t] Cons.prems(1) by simp
  then show ?case by (simp add: t Un_assoc)
qed simp

lemma leading_fix: "first_wire_role fs \<noteq> Some WireAssistant \<Longrightarrow> ensure_user_leading_recovery u ss fs = fs"
proof -
  have "first_wire_role fs \<noteq> Some WireAssistant \<Longrightarrow> user_leading_loop u ss before fs = before @ fs" for before
  proof (induction fs arbitrary: before)
    case (Cons f fs)
    then show ?case by (auto split: option.splits wire_role.splits)
  qed simp
  then show "first_wire_role fs \<noteq> Some WireAssistant \<Longrightarrow> ensure_user_leading_recovery u ss fs = fs"
    by (simp add: ensure_user_leading_recovery_def)
qed

text \<open>A stored transcript without defects is resumed as it is: its chain comes back unchanged,
  nothing is counted as repaired, and the only frame that may follow is the sentinel after a user's
  last word.\<close>

lemma resume_clean:
  assumes "resume_chain frames = chain" "chain \<noteq> []" "\<forall>f \<in> set chain. settled cwd f"
    "answers_only {} {} (frames_events chain)" "first_wire_role chain \<noteq> Some WireAssistant"
    "set (recovery_tool_use_ids (last_behavioral_frame chain)) \<subseteq> set (res_list (frames_events chain))"
  shows "tr_frames (recover_transcript_on_resume cwd fresh frames session sentinel)
      = chain @ (case last_behavioral_frame chain of None \<Rightarrow> []
          | Some f \<Rightarrow> if sentinel \<and> f_role f = USER \<and> \<not> has_no_response_sentinel chain
              then [with_recovery_lineage (fresh 1) (build_no_response_sentinel_frame f session) chain session]
              else [])
    \<and> tr_stripped_orphan_tool_results (recover_transcript_on_resume cwd fresh frames session sentinel) = 0
    \<and> tr_synthetic_tool_results (recover_transcript_on_resume cwd fresh frames session sentinel) = 0
    \<and> tr_migrated_legacy_attachments (recover_transcript_on_resume cwd fresh frames session sentinel) = 0"
proof -
  let ?s = "fold (recover_frame cwd) chain recovery_start"
  have s0: "recovery_ok recovery_start" "rc_repaired recovery_start = []"
    by (simp_all add: recovery_ok_def recovery_start_def)
  have s: "?s = recovery_start\<lparr>rc_repaired := chain,
    rc_tool_uses := set (concat (map tool_use_ids chain)),
    rc_tool_results := set (res_list (frames_events chain))\<rparr>"
    using recovery_loop_settled[OF assms(3) s0(1)] assms(4) s0(2) by (simp add: recovery_start_def)
  have rep: "ensure_user_leading_recovery (fresh 0) session (rc_repaired ?s) = chain"
    unfolding s using leading_fix[OF assms(5)] by simp
  have w: "walk_active_leaf frames \<noteq> []"
    using assms(1,2) by (auto simp: resume_chain_def recover_orphaned_parallel_tool_results_def)
  have miss: "filter (\<lambda>i. i \<notin> rc_tool_results ?s) (recovery_tool_use_ids (last_behavioral_frame chain)) = []"
    using assms(6) by (auto simp: s filter_empty_conv)
  have orph: "rc_orphans ?s = 0" "rc_migrated ?s = 0"
    unfolding s by (simp_all add: recovery_start_def)
  have "recovery_tail fresh session sentinel (last chain) ?s chain =
    (chain @ (case last_behavioral_frame chain of None \<Rightarrow> []
          | Some f \<Rightarrow> if sentinel \<and> f_role f = USER \<and> \<not> has_no_response_sentinel chain
              then [with_recovery_lineage (fresh 1) (build_no_response_sentinel_frame f session) chain session]
              else []), 0, False,
      (case last_behavioral_frame chain of None \<Rightarrow> False
          | Some f \<Rightarrow> sentinel \<and> f_role f = USER \<and> \<not> has_no_response_sentinel chain))"
    unfolding recovery_tail_def Let_def miss orph by (simp split: option.splits)
  with w rep orph show ?thesis
    unfolding recover_transcript_on_resume_def Let_def assms(1)[unfolded resume_chain_def] by simp
qed

end
