(* ===== verification/Recovery_Examples.thy ===== *)
theory Recovery_Examples
  imports Recovery_Properties
begin

text \<open>
  Resumed transcripts evaluated: the witnesses of the theorems of \<open>Interruption\<close> and
  \<open>Recovery_Properties\<close>, and transcripts on which the code does not do what its comments say.
\<close>

definition ask :: "string \<Rightarrow> frame" where
  "ask u = (new_frame USER_INPUT USER [TextBlock ''hi''])\<lparr>f_uuid := Some u\<rparr>"

definition say :: "string \<Rightarrow> string \<Rightarrow> frame" where
  "say u p = (new_frame ASSISTANT_TEXT ASSISTANT [TextBlock ''done''])\<lparr>f_uuid := Some u, f_parent_uuid := Some p\<rparr>"

definition call :: "string \<Rightarrow> string \<Rightarrow> string list \<Rightarrow> frame" where
  "call u p ids = (new_frame TOOL_USE ASSISTANT (map (\<lambda>i. ToolUseBlock i ''t'' PyNone) ids))
     \<lparr>f_uuid := Some u, f_parent_uuid := Some p\<rparr>"

definition reply :: "string \<Rightarrow> string \<Rightarrow> string \<Rightarrow> frame" where
  "reply u p i = (new_frame TOOL_RESULT TOOL [ToolResultBlock i ''t'' ''ok'' False])
     \<lparr>f_uuid := Some u, f_parent_uuid := Some p, f_source_tool_assistant_uuid := Some p\<rparr>"

definition fresh_id :: "nat \<Rightarrow> string" where
  "fresh_id n = ''new'' @ nat_str n"

abbreviation resume :: "frame list \<Rightarrow> transcript_recovery" where
  "resume fs \<equiv> recover_transcript_on_resume ''/home'' fresh_id fs None True"

section \<open>Witnesses\<close>

lemma classify_typed_exact_witness:
  "\<exists>c. classify_typed_interruption [ask ''u1'', call ''u2'' ''u1'' [''a'']] = Inr c
    \<and> set (in_unmatched c) = {''a''}"
proof -
  have "filter (\<lambda>f. \<not> f_is_meta f) [ask ''u1'', call ''u2'' ''u1'' [''a'']]
      = [ask ''u1'', call ''u2'' ''u1'' [''a'']]"
    by (simp add: ask_def call_def new_frame_def)
  then show ?thesis
    using classify_typed_exact[of "[ask ''u1'', call ''u2'' ''u1'' [''a'']]"]
    by (auto simp: Let_def frame_events_def ask_def call_def new_frame_def)
qed

lemma resume_answers_only_witness:
  "answers_only {} {} (frames_events (tr_frames (resume [ask ''u1'', call ''u2'' ''u1'' [''a'', ''b'']])))"
  by (rule resume_answers_only) (simp add: ask_def call_def tool_use_ids_def)

lemma interrupted_call_resumed:
  "map f_kind (tr_frames (resume [ask ''u1'', call ''u2'' ''u1'' [''a'', ''b'']]))
    = [USER_INPUT, TOOL_USE, TOOL_RESULT, SYSTEM_REMINDER]"
  "tr_synthetic_tool_results (resume [ask ''u1'', call ''u2'' ''u1'' [''a'', ''b'']]) = 2"
  by code_simp+

lemma resume_answers_last_frame_witness:
  "''a'' \<in> set (res_list (frames_events (tr_frames (resume [ask ''u1'', call ''u2'' ''u1'' [''a'']]))))"
proof -
  have "last_behavioral_frame (tr_frames (resume [ask ''u1'', call ''u2'' ''u1'' [''a'']]))
      = Some (call ''u2'' ''u1'' [''a''])" by code_simp
  from resume_answers_last_frame[OF this] show ?thesis by (simp add: tool_use_ids_def call_def)
qed

lemma resume_clean_witness:
  "tr_frames (resume [ask ''u1'', call ''u2'' ''u1'' [''a''], reply ''u3'' ''u2'' ''a''])
    = [ask ''u1'', call ''u2'' ''u1'' [''a''], reply ''u3'' ''u2'' ''a'']"
proof -
  let ?c = "[ask ''u1'', call ''u2'' ''u1'' [''a''], reply ''u3'' ''u2'' ''a'']"
  have 1: "resume_chain ?c = ?c" by code_simp
  have 2: "\<forall>f \<in> set ?c. settled ''/home'' f" by code_simp
  have 3: "answers_only {} {} (frames_events ?c)" by code_simp
  have 4: "first_wire_role ?c \<noteq> Some WireAssistant" by code_simp
  have l: "last_behavioral_frame ?c = Some (reply ''u3'' ''u2'' ''a'')" by code_simp
  have 5: "set (recovery_tool_use_ids (last_behavioral_frame ?c)) \<subseteq> set (res_list (frames_events ?c))"
    unfolding l by (simp add: recovery_tool_use_ids_def reply_def)
  have "f_role (reply ''u3'' ''u2'' ''a'') = TOOL" by (simp add: reply_def new_frame_def)
  with resume_clean[OF 1 _ 2 3 4 5] show ?thesis by (simp add: l)
qed

section \<open>Where the code and its comments part\<close>

text \<open>A parallel call of which one result was stored is not repaired: the stored result is the
  last frame that is not meta, so the other call is not looked at and stays without a result, and
  the classifier calls the resumed transcript a \<open>trailing_user\<close> one although no user spoke.\<close>

lemma partial_parallel_call_stays_open:
  "let r = resume [ask ''u1'', call ''u2'' ''u1'' [''a'', ''b''], reply ''u3'' ''u2'' ''a'']
   in tr_synthetic_tool_results r = 0 \<and> \<not> tr_appended_continue r
      \<and> \<not> well_paired (frames_events (tr_frames r))
      \<and> map_sum id in_state (classify_typed_interruption (tr_frames r)) = Inr INTERRUPTION_TRAILING_USER"
  by code_simp

text \<open>The classifier does not say how a transcript ends.  The synthetic result of a resumed
  transcript is a meta frame, which it skips, so a well-paired resumed transcript counts as
  interrupted again; and a transcript that ends with a finished assistant turn counts as
  interrupted when any earlier call has no result, where the recovery adds nothing.\<close>

lemma classifier_misreads_end:
  "let r = resume [ask ''u1'', call ''u2'' ''u1'' [''a'']];
       fs = [ask ''u1'', call ''u2'' ''u1'' [''a''], say ''u3'' ''u2'']
   in well_paired (frames_events (tr_frames r))
      \<and> map_sum id in_state (classify_typed_interruption (tr_frames r)) = Inr INTERRUPTION_TOOL
      \<and> map_sum id in_state (classify_typed_interruption fs) = Inr INTERRUPTION_TOOL
      \<and> tool_use_ids (last fs) = [] \<and> tr_frames (resume fs) = fs"
  by code_simp

text \<open>A frame that repeats an id gets two results for it.\<close>

lemma repeated_id_answered_twice:
  "res_list (frames_events (tr_frames (resume [ask ''u1'', call ''u2'' ''u1'' [''a'', ''a'']]))) = [''a'', ''a'']"
  by code_simp

end
