(* ===== verification/Frame_Storage_Examples.thy ===== *)
theory Frame_Storage_Examples
  imports Frame_Storage_Properties Recovery_Examples
begin

text \<open>
  The theorems of \<open>Frame_Storage_Properties\<close> at a stored session, and frames that do not come back as they were: the
  answer that the recovery of a transcript gives to an interrupted call, a frame without blocks, and a call whose id is in
  its block only.
\<close>

text \<open>A cipher that can be read back\<close>

definition mirror :: cipher where
  "mirror = \<lparr>ci_available = True, ci_encrypt = rev, ci_decrypt = (\<lambda>t. Some (rev t))\<rparr>"

lemma mirror_reads [simp]: "ci_decrypt mirror (ci_encrypt mirror t) = Some t"
  by (simp add: mirror_def)

definition stored_in :: "string \<Rightarrow> int \<Rightarrow> string \<Rightarrow> frame \<Rightarrow> frame" where
  "stored_in session ts u f = f\<lparr>f_session_id := Some session, f_timestamp_ms := ts, f_uuid := Some u\<rparr>"

definition asked :: frame where
  "asked = stored_in ''s1'' 1700000000010 ''u1'' (new_frame USER_INPUT USER [TextBlock ''hi''])"

definition called :: frame where
  "called = stored_in ''s1'' 1700000000020 ''u2'' ((new_frame TOOL_USE ASSISTANT [ToolUseBlock ''a'' ''look'' (PyDict [(''q'', PyInt 7), (''at'', PyNone)])])
     \<lparr>f_tool_use_id := Some ''a'', f_parent_uuid := Some ''u1''\<rparr>)"

definition called_twice :: frame where
  "called_twice = stored_in ''s1'' 1700000000020 ''u2'' (new_frame TOOL_USE ASSISTANT
     [TextBlock ''now'', ToolUseBlock ''a'' ''look'' (PyDict [(''q'', PyInt 7)]), ToolUseBlock ''b'' ''look'' (PyDict [])])"

lemma plain_empty: "plain_extra []"
  by (simp add: plain_extra_def)

lemma asked_storable: "storable ''s1'' asked" "storable ''s1'' called" "storable ''s1'' called_twice"
  by (simp_all add: storable_def asked_def called_def called_twice_def stored_in_def new_frame_def plain_empty storable_blocks_def
      non_empty_def coerce_frame_origin_def plausible_time_def)


lemma replaced_session_is_read_back_witness:
  "\<exists>rows. replace_session_frames mirror fresh_id 99 ''me'' ''s1'' [asked, called] [] = Inr rows
    \<and> load_session_frames mirror ''me'' ''s1'' None rows = Some (map (as_stored) [asked, called])"
proof -
  let ?rows = "replacement_rows mirror fresh_id 99 ''me'' ''s1'' [asked, called]"
  have s: "py_strip ''s1'' = ''s1''" by code_simp
  have r: "replace_session_frames mirror fresh_id 99 ''me'' ''s1'' [asked, called] [] = Inr ?rows"
    by (simp add: replace_session_frames_def s mirror_def)
  have "load_session_frames mirror ''me'' ''s1'' None ?rows = Some (map (as_stored) [asked, called])"
    using replaced_session_is_read_back[OF r s] asked_storable mirror_reads
    by (simp add: asked_def called_def stored_in_def new_frame_def)
  with r show ?thesis by blast
qed

section \<open>What is lost\<close>

text \<open>The answer to an interrupted call that \<open>recover_transcript_on_resume\<close> makes is a meta frame with the role of a
  tool.  Reading a row gives every meta frame the role of a meta user, and a single block of it is read as a reminder: after
  the next start the call is open again.\<close>

lemma meta_answer_becomes_reminder:
  assumes "\<And>t. ci_decrypt c (ci_encrypt c t) = Some t" "plain_extra (f_extra f)" "f_is_meta f" "f_blocks f = [ToolResultBlock i nm t err]"
  shows "\<exists>g. read_row c (row_of_frame c user session now f) = Some g \<and> f_role g = META_USER \<and>
    f_blocks g = [SystemReminderBlock t None] \<and> frame_events g = []"
proof -
  have tag: "py_get ''_frame_source_tag'' (snd (frame_to_storage_payload f)) = PyNone"
    using get_frame_metadata(9)[OF assms(2)] by (simp add: frame_to_storage_payload_def assms(4) Let_def)
  have ttl: "py_get ''_frame_ttl_turns'' (snd (frame_to_storage_payload f)) = (case f_ttl_turns f of None \<Rightarrow> PyNone | Some n \<Rightarrow> PyInt n)"
    using get_frame_metadata(8)[OF assms(2)] get_payload[of _ f] by simp
  have stored: "fst (frame_to_storage_payload f) = t"
    "py_get ''_frame_block_type'' (snd (frame_to_storage_payload f)) = PyStr ''tool_result''"
    by (simp_all add: frame_to_storage_payload_def assms(4) Let_def)
  show ?thesis unfolding row_is_read[OF assms(2,1)] hydrate_frame_def
    by (cases "f_ttl_turns f") (simp_all add: Let_def row_of_frame_def coerce_frame_role_def blocks_from_storage_def stored tag ttl
        stripped_types new_frame_def frame_events_def assms(3))
qed

lemma recovered_answer_is_lost:
  assumes "\<And>t. ci_decrypt c (ci_encrypt c t) = Some t"
  shows "\<exists>g. read_row c (row_of_frame c user session now (build_synthetic_tool_result_frame source [i] s)) = Some g \<and>
    f_role g = META_USER \<and> f_blocks g = [SystemReminderBlock SYNTHETIC_TOOL_RESULT_CONTENT None] \<and> frame_events g = []"
  by (rule meta_answer_becomes_reminder[OF assms])
    (simp_all add: build_synthetic_tool_result_frame_def plain_extra_def RESERVED_KEYS_def)

text \<open>So every start of the program answers the same call once more: the transcript that was well paired when it was stored
  is not when it is read.\<close>

definition forget_answer :: "frame \<Rightarrow> frame" where
  "forget_answer f = (case f_blocks f of
      [ToolResultBlock i nm t err] \<Rightarrow> if f_is_meta f then f\<lparr>f_role := META_USER, f_blocks := [SystemReminderBlock t None]\<rparr> else f
    | _ \<Rightarrow> f)"

lemma answered_on_every_start:
  "let first_start = recover_transcript_on_resume ''/home'' fresh_id [asked, called] (Some ''s1'') False;
       stored = map forget_answer (tr_frames first_start);
       second_start = recover_transcript_on_resume ''/home'' (\<lambda>n. ''again'' @ nat_str n) stored (Some ''s1'') False in
   tr_synthetic_tool_results first_start = 1 \<and> well_paired (frames_events (tr_frames first_start)) \<and>
   \<not> well_paired (frames_events stored) \<and> tr_synthetic_tool_results second_start = 1"
  by code_simp

lemma frame_without_blocks_becomes_text:
  "map_option f_blocks (read_row mirror (row_of_frame mirror ''me'' ''s1'' 99 (new_frame ASSISTANT_TEXT ASSISTANT []))) =
    Some [TextBlock ''{\"blocks\": []}'']"
  by code_simp

lemma id_of_single_call_is_lost:
  "map_option f_blocks (read_row mirror (row_of_frame mirror ''me'' ''s1'' 99
      (new_frame TOOL_USE ASSISTANT [ToolUseBlock ''a'' ''look'' (PyDict [])]))) = Some [ToolUseBlock [] ''look'' (PyDict [])]"
  by code_simp

text \<open>The rows that are scanned are as many as four times the rows asked for and twenty for each excluded session; a longer
  excluded session hides what was said before it.\<close>

definition said_row :: "string \<Rightarrow> nat \<Rightarrow> log_row" where
  "said_row session n = row_of_frame mirror ''me'' session (int n) (new_frame USER_INPUT USER [TextBlock ''hi''])"

lemma excluded_session_hides_the_rest:
  "load_recent_exchanges mirror ''me'' 1 [''chat''] (said_row ''voice'' 1 # map (\<lambda>n. said_row ''chat'' (n + 2)) [0..<24]) = []"
  "load_recent_exchanges mirror ''me'' 1 [''chat''] (said_row ''voice'' 1 # map (\<lambda>n. said_row ''chat'' (n + 2)) [0..<23]) = [(''user'', ''hi'', 1)]"
  by code_simp+

end
