(* ===== verification/Conversation_Examples.thy ===== *)
theory Conversation_Examples
  imports Conversation_Properties Frame_Storage_Examples
begin

text \<open>
  Conversations evaluated: the theorem of \<open>Conversation_Window\<close> at a concrete input, and what compaction and restarts lose.
\<close>

definition plain_args :: text_args where
  "plain_args = \<lparr>ta_kind = None, ta_origin = None, ta_is_meta = False, ta_is_compact_summary = False, ta_task_id = None,
     ta_tool_use_id = None, ta_permission_mode = None, ta_timestamp_ms = 0, ta_session_id = None\<rparr>"

definition say_text :: "string \<Rightarrow> string \<Rightarrow> int \<Rightarrow> conversation \<times> log_row list \<Rightarrow> conversation \<times> log_row list" where
  "say_text role msg now s = (case add_text mirror None (\<lambda>_ _. None) (''u'' @ int_str now) now role msg None plain_args (fst s) (snd s) of
     Inr (g, t) \<Rightarrow> t | Inl e \<Rightarrow> s)"

definition line :: "nat \<Rightarrow> frame_role \<Rightarrow> string \<Rightarrow> frame" where
  "line n r msg = (new_frame (if r = USER then USER_INPUT else ASSISTANT_TEXT) r [TextBlock msg])\<lparr>f_uuid := Some (''u'' @ nat_str n),
     f_parent_uuid := (if n = 1 then None else Some (''u'' @ nat_str (n - 1))), f_session_id := Some ''s1'', f_timestamp_ms := int n\<rparr>"

definition lines :: "frame list" where
  "lines = [line 1 USER ''one'', line 2 ASSISTANT ''two'', line 3 USER ''three'', line 4 ASSISTANT ''four'',
     line 5 USER ''five'', line 6 ASSISTANT ''six'', line 7 USER ''seven'', line 8 ASSISTANT ''eight'']"

definition blank :: "int \<Rightarrow> conversation" where
  "blank tokens = new_conversation ''me'' ''m'' tokens (Some ''s1'') ''s9''"

definition chat :: "int \<Rightarrow> conversation" where
  "chat tokens = (blank tokens)\<lparr>cv_frames := lines\<rparr>"

definition names :: "string \<Rightarrow> nat \<Rightarrow> string" where
  "names p n = p @ nat_str n"

definition by_hand :: "int option \<Rightarrow> compact_args" where
  "by_hand budget = \<lparr>ca_token_budget = budget, ca_trigger = ''manual'', ca_reason = ''r'', ca_query_source = None, ca_custom_instructions = None\<rparr>"

definition percent40 :: "int \<Rightarrow> int" where
  "percent40 b = b * 40 div 100"

abbreviation begin_at :: "int \<Rightarrow> conversation \<Rightarrow> compaction_step \<times> conversation" where
  "begin_at budget c \<equiv> begin_compaction None percent40 (names ''a'') 100 None (by_hand (Some budget)) c"

abbreviation finish_at :: "conversation \<Rightarrow> log_row list \<Rightarrow> compaction_step \<times> conversation \<times> log_row list" where
  "finish_at c rows \<equiv> finish_compaction mirror None percent40 (names ''a'') (names ''b'') 110 (Some ''summary'') [] c rows"

section \<open>The window\<close>

lemma chat_has_starts: "exchange_starts (window_chain 20 (chat 40)) = [0, 2, 4, 6]"
  by code_simp

lemma window_fits_and_has_the_newest_exchange_witness:
  "\<exists>s \<le> 6. pw_frames (fst (get_prompt_window None 20 8 (chat 40))) = map shorten_frame_for_prompt (drop s (window_chain 20 (chat 40))) \<and>
    (conversation_frame_tokens None (drop s (window_chain 20 (chat 40))) \<le> 24000 \<or> s = 6)"
proof -
  have "fst (window_limits (chat 40)) = 24000" by code_simp
  then show ?thesis using window_fits_and_has_the_newest_exchange[of 20 "chat 40" None 8] by (simp add: chat_has_starts)
qed

section \<open>Where the code and its comments part\<close>

text \<open>Compaction is asked for at three quarters of the budget, and does nothing below the whole budget.\<close>

lemma compaction_starts_too_late:
  "needs_compaction None None None (chat 40) \<and> begin_at 40 (chat 40) = (NotCompacted, chat 40)"
  by code_simp

lemma nothing_below_budget:
  assumes "count_frame_tokens (Some (count_tokens tk)) (compaction_window fresh (Some (cv_frames c))) \<le> max 1 (budget_or_default (ca_token_budget a) c)"
  shows "begin_compaction tk keep fresh now hook a c = (NotCompacted, c)"
  using assms by (simp add: begin_compaction_def compact_frames_def compaction_request_of_def plain_request_def no_compaction_result_def Let_def)

text \<open>A message that arrives while compaction waits for its summary is gone from the live conversation.\<close>

lemma message_during_compaction_is_lost:
  "let c = snd (begin_at 3 (chat 3)); d = c\<lparr>cv_frames := cv_frames c @ [line 9 USER ''late'']\<rparr>; r = finish_at d [] in
   fst r = Compacted \<and> map frame_text (cv_frames (fst (snd r))) =
     [''Conversation compacted'', ''summary'', ''three'', ''four'', ''five'', ''six'', ''seven'', ''eight'']"
  by code_simp

end
