(* ===== verification/Conversation_Plan.thy ===== *)
theory Conversation_Plan
  imports Viola_Prelude State_Machine
begin

text \<open>
  The plan of a conversation (\<open>add_plan_step\<close>, \<open>update_plan_step\<close>, \<open>get_active_plan\<close> and \<open>clear_plan\<close> of
  \<open>services/conversation/state_manager.py\<close>): its steps, which expire, and its status.  Each method is one step, with
  the time \<open>now\<close>; a fresh id is an argument.
\<close>

section \<open>Steps and plans\<close>

record plan_step =
  ps_id :: string
  ps_description :: string
  ps_status :: string
  ps_result :: "string option"
  ps_created_at :: int
  ps_updated_at :: int
  ps_expires_at :: "int option"
  ps_metadata :: pydict

record plan =
  pn_id :: string
  pn_status :: string
  pn_created_at :: int
  pn_updated_at :: int
  pn_last_refined_at :: int
  pn_steps :: "plan_step list"

definition OPEN_STATUSES :: "string list" where
  "OPEN_STATUSES = [''pending'', ''in_progress'']"

definition CLOSED_STATUSES :: "string list" where
  "CLOSED_STATUSES = [''completed'', ''cancelled'', ''expired'', ''failed'']"

definition status_of_steps :: "plan_step list \<Rightarrow> string" where
  "status_of_steps steps = (let statuses = set (map ps_status steps) in
     if steps = [] then ''active''
     else if statuses \<inter> set OPEN_STATUSES \<noteq> {} then ''active''
     else if statuses = {''completed''} then ''completed''
     else if ''failed'' \<in> statuses then ''failed''
     else if statuses \<subseteq> {''completed'', ''cancelled'', ''expired''} then ''completed''
     else ''active'')"

definition refresh_plan_status :: "int \<Rightarrow> plan \<Rightarrow> plan" where
  "refresh_plan_status now p = p\<lparr>pn_status := status_of_steps (pn_steps p), pn_updated_at := now\<rparr>"

definition is_stale :: "int \<Rightarrow> plan_step \<Rightarrow> bool" where
  "is_stale now s = (ps_status s \<in> set OPEN_STATUSES \<and> (case ps_expires_at s of None \<Rightarrow> False | Some t \<Rightarrow> t < now))"

definition expire_step :: "int \<Rightarrow> plan_step \<Rightarrow> plan_step" where
  "expire_step now s = (if is_stale now s then s\<lparr>ps_status := ''expired'', ps_updated_at := now,
     ps_result := opt_or (ps_result s) (Some ''Step expired before execution.'')\<rparr> else s)"

definition expire_steps :: "int \<Rightarrow> plan \<Rightarrow> plan" where
  "expire_steps now p = refresh_plan_status now (p\<lparr>pn_steps := map (expire_step now) (pn_steps p)\<rparr>)"

section \<open>The methods\<close>

text \<open>\<open>plan_step_timeout_seconds\<close>, in milliseconds: a step without a timeout does not expire.\<close>

definition add_plan_step :: "int \<Rightarrow> string \<Rightarrow> string \<Rightarrow> int \<Rightarrow> string \<Rightarrow> string \<Rightarrow> pydict \<Rightarrow> plan option \<Rightarrow> plan" where
  "add_plan_step timeout fresh_step fresh_plan now description status metadata p = (let
     s = \<lparr>ps_id = fresh_step, ps_description = py_strip description, ps_status = status, ps_result = None, ps_created_at = now,
       ps_updated_at = now, ps_expires_at = (if timeout \<noteq> 0 then Some (now + timeout) else None), ps_metadata = metadata\<rparr>;
     q = (case p of Some q \<Rightarrow> q
       | None \<Rightarrow> \<lparr>pn_id = fresh_plan, pn_status = ''active'', pn_created_at = now, pn_updated_at = now, pn_last_refined_at = now, pn_steps = []\<rparr>) in
   refresh_plan_status now (q\<lparr>pn_steps := pn_steps q @ [s]\<rparr>))"

definition update_step :: "int \<Rightarrow> string \<Rightarrow> string option \<Rightarrow> plan_step \<Rightarrow> plan_step" where
  "update_step now status result s = s\<lparr>ps_status := status, ps_updated_at := now,
     ps_result := (case result of None \<Rightarrow> ps_result s | Some r \<Rightarrow> Some r),
     ps_expires_at := (if status \<in> set CLOSED_STATUSES then Some now else ps_expires_at s)\<rparr>"

text \<open>The first step with the id\<close>

fun update_first :: "int \<Rightarrow> string \<Rightarrow> string \<Rightarrow> string option \<Rightarrow> plan_step list \<Rightarrow> plan_step list option" where
  "update_first now i status result [] = None"
| "update_first now i status result (s # ss) = (if ps_id s = i then Some (update_step now status result s # ss)
     else map_option (\<lambda>ss'. s # ss') (update_first now i status result ss))"

definition update_plan_step :: "int \<Rightarrow> string \<Rightarrow> string \<Rightarrow> string option \<Rightarrow> plan option \<Rightarrow> plan option" where
  "update_plan_step now i status result p = (case p of None \<Rightarrow> None
     | Some q \<Rightarrow> (case update_first now i status result (pn_steps q) of
         None \<Rightarrow> Some q
       | Some ss \<Rightarrow> Some (refresh_plan_status now (q\<lparr>pn_steps := ss\<rparr>))))"

definition get_active_plan :: "int \<Rightarrow> plan option \<Rightarrow> plan option" where
  "get_active_plan now p = map_option (expire_steps now) p"

definition clear_plan :: "int \<Rightarrow> plan option \<Rightarrow> plan option" where
  "clear_plan now p = (case p of None \<Rightarrow> None
     | Some q \<Rightarrow> (let r = expire_steps now q in
         if pn_steps r \<noteq> [] \<and> set (map ps_status (pn_steps r)) \<subseteq> set CLOSED_STATUSES then None else Some r))"

section \<open>Properties\<close>

text \<open>The operations, at a time, on the plan of a conversation whose steps have the given timeout\<close>

inductive plan_op :: "int \<Rightarrow> int \<Rightarrow> plan option \<Rightarrow> plan option \<Rightarrow> bool" for timeout now :: int where
  op_add: "plan_op timeout now p (Some (add_plan_step timeout fs fp now d st m p))"
| op_update: "plan_op timeout now p (update_plan_step now i st r p)"
| op_get: "plan_op timeout now p (get_active_plan now p)"
| op_clear: "plan_op timeout now p (clear_plan now p)"

definition plan_ok :: "plan option \<Rightarrow> bool" where
  "plan_ok p = (case p of None \<Rightarrow> True | Some q \<Rightarrow> pn_steps q \<noteq> [] \<and> pn_status q = status_of_steps (pn_steps q))"

lemma refresh_simps [simp]: "pn_steps (refresh_plan_status now q) = pn_steps q"
  "pn_status (refresh_plan_status now q) = status_of_steps (pn_steps q)"
  by (simp_all add: refresh_plan_status_def)

lemma update_first_set:
  "update_first now i st r ss = Some ss' \<Longrightarrow> ss' \<noteq> [] \<and> set ss' \<subseteq> set ss \<union> update_step now st r ` set ss"
  by (induction ss arbitrary: ss') (auto split: if_splits)

lemma plan_op_ok: "plan_ok p \<Longrightarrow> plan_op timeout now p q \<Longrightarrow> plan_ok q"
  by (erule plan_op.cases) (auto simp: plan_ok_def add_plan_step_def update_plan_step_def get_active_plan_def clear_plan_def
    expire_steps_def Let_def dest: update_first_set split: option.splits)

text \<open>Every step has a deadline, not after \<open>limit\<close>.\<close>

definition due_by :: "int \<Rightarrow> plan option \<Rightarrow> bool" where
  "due_by limit p = (\<forall>q. p = Some q \<longrightarrow> (\<forall>s \<in> set (pn_steps q). \<exists>e \<le> limit. ps_expires_at s = Some e))"

lemma plan_op_due:
  assumes "due_by limit p" "plan_op timeout now p q" "0 < timeout" "now + timeout \<le> limit"
  shows "due_by limit q"
  using assms(2)
proof cases
  case (op_update i st r)
  then show ?thesis using assms
    by (auto simp: due_by_def update_plan_step_def split: option.splits)
       (fastforce simp: update_step_def dest!: update_first_set)
qed (use assms in \<open>auto simp: due_by_def add_plan_step_def get_active_plan_def clear_plan_def expire_steps_def expire_step_def Let_def
    split: option.splits if_splits\<close>)

interpretation pl: invariant_machine "\<lambda>p. p = None" "\<lambda>p q. \<exists>now. plan_op timeout now p q" plan_ok for timeout
proof unfold_locales
  show "plan_ok p" if "p = None" for p using that by (simp add: plan_ok_def)
qed (blast intro: plan_op_ok)

interpretation due: invariant_machine "\<lambda>p. p = None \<and> 0 < timeout" "\<lambda>p q. \<exists>now \<le> t. plan_op timeout now p q"
    "\<lambda>p. due_by (t + timeout) p \<and> 0 < timeout" for timeout t
  by unfold_locales (auto intro: plan_op_due simp: due_by_def[of _ None])

text \<open>The status of a plan is the one its steps give, whatever was done to it, and a plan has steps.\<close>

lemma plan_status_fits_its_steps:
  assumes "(\<lambda>p q. \<exists>now. plan_op timeout now p q)\<^sup>*\<^sup>* None (Some q)"
  shows "pn_steps q \<noteq> [] \<and> pn_status q = status_of_steps (pn_steps q)"
  using pl.reachable_inv[OF refl assms] by (simp add: plan_ok_def)

text \<open>Steps do not stay open: once the timeout has passed since the last operation, asking for the plan shows no step as
  pending or in progress.\<close>

lemma plan_steps_end:
  assumes "0 < timeout" "(\<lambda>p q. \<exists>now \<le> t. plan_op timeout now p q)\<^sup>*\<^sup>* None (Some q)" "t + timeout < now"
  shows "set (map ps_status (pn_steps (the (get_active_plan now (Some q))))) \<inter> set OPEN_STATUSES = {}"
proof -
  have "due_by (t + timeout) (Some q)" using due.reachable_inv[of None timeout t] assms(1,2) by blast
  then have "is_stale now s" if "s \<in> set (pn_steps q)" "ps_status s \<in> set OPEN_STATUSES" for s
    using that assms(3) by (force simp: due_by_def is_stale_def)
  then have "ps_status (expire_step now s) \<notin> set OPEN_STATUSES" if "s \<in> set (pn_steps q)" for s
    using that by (cases "is_stale now s") (auto simp: expire_step_def OPEN_STATUSES_def)
  then show ?thesis by (auto simp: get_active_plan_def expire_steps_def)
qed

section \<open>Examples\<close>

abbreviation one_step :: "plan" where
  "one_step \<equiv> add_plan_step 1000 ''s'' ''p'' 0 ''call the shop'' ''pending'' [] None"

lemma plan_steps_end_witness:
  "set (map ps_status (pn_steps (the (get_active_plan 1001 (Some one_step))))) \<inter> set OPEN_STATUSES = {}"
proof -
  have "(\<lambda>p q. \<exists>now \<le> 0. plan_op 1000 now p q)\<^sup>*\<^sup>* None (Some one_step)"
    by (rule r_into_rtranclp) (blast intro: op_add)
  then show ?thesis using plan_steps_end[of 1000 0 one_step 1001] by simp
qed

lemma plan_status_fits_its_steps_witness:
  "pn_steps one_step \<noteq> [] \<and> pn_status one_step = status_of_steps (pn_steps one_step)"
  by (rule plan_status_fits_its_steps[of 1000]) (rule r_into_rtranclp, blast intro: op_add)

text \<open>A step that failed and is tried again keeps the deadline that its failure set, so it expires at once.\<close>

lemma retried_step_expires:
  "let p1 = update_plan_step 10 ''s'' ''failed'' None (Some one_step); p2 = update_plan_step 20 ''s'' ''in_progress'' None p1 in
     map ps_status (pn_steps (the p2)) = [''in_progress''] \<and>
     map ps_status (pn_steps (the (get_active_plan 21 p2))) = [''expired'']"
  by code_simp

text \<open>A plan of which no step was carried out counts as completed.\<close>

lemma expired_plan_is_completed:
  "map ps_status (pn_steps (the (get_active_plan 1001 (Some one_step)))) = [''expired''] \<and>
   pn_status (the (get_active_plan 1001 (Some one_step))) = ''completed''"
  by code_simp

end
