(* ===== verification/Chain_Validator.thy ===== *)
theory Chain_Validator
  imports Native_Invariants
begin

text \<open>
  The validation of rendered provider payloads (\<open>services/conversation/chain_validator.py\<close>): the
  last check before a chain leaves the program.  \<open>CanonicalChainValidationError\<close> is a datatype with
  one constructor per message; a check returns the error it raises, if any.  The theorem of this
  theory ties the tool-pair check to the contract of \<open>Tool_Pairing\<close>.
\<close>

datatype chain_error =
    UnsupportedProvider
  | ForbiddenProse string
  | SystemHistory
  | ToolHistory
  | BadStartRole
  | StartsWithResult
  | SameRole string nat nat
  | EmptyUseId
  | DuplicateUse string
  | EmptyResultId
  | OrphanResult string
  | DuplicateResult string
  | MissingResults "string list"

definition FORBIDDEN_PROSE_MARKERS :: "string list" where
  "FORBIDDEN_PROSE_MARKERS = [''[Prior conversation context]'', ''[Current request]'',
     ''<conversation-history>'', ''</conversation-history>'', ''<recent-turns>'', ''</recent-turns>'',
     ''<conversation-repair>'', ''</conversation-repair>'']"

record wire_entry =
  we_index :: nat
  we_role :: "string option"
  we_kind :: string
  we_payload :: pydict

text \<open>\<open>str(d.get(key) or "").strip()\<close>, and \<open>None\<close> for the empty string\<close>

definition stripped_field :: "string \<Rightarrow> pydict \<Rightarrow> string" where
  "stripped_field key d = py_strip (str_or_empty (py_get key d))"

definition stripped_role :: "pydict \<Rightarrow> string option" where
  "stripped_role d = (let r = stripped_field ''role'' d in if r = [] then None else Some r)"

section \<open>Entries\<close>

definition infer_provider :: "pydict list \<Rightarrow> string" where
  "infer_provider ms =
    (if \<exists>m \<in> set ms. str_or_empty (py_get ''type'' m)
          \<in> set [''message'', ''function_call'', ''function_call_output'']
     then ''openai_responses'' else ''anthropic'')"

definition anthropic_entry :: "nat \<Rightarrow> pydict \<Rightarrow> wire_entry" where
  "anthropic_entry i m = \<lparr>we_index = i, we_role = stripped_role m, we_kind = ''message'', we_payload = m\<rparr>"

definition openai_entry :: "nat \<Rightarrow> pydict \<Rightarrow> wire_entry" where
  "openai_entry i m = (let t = stripped_field ''type'' m in
     \<lparr>we_index = i,
      we_role = (if t = ''message'' then stripped_role m
                 else if t = ''function_call'' then Some ''assistant''
                 else if t = ''function_call_output'' then Some ''user'' else None),
      we_kind = t, we_payload = m\<rparr>)"

definition numbered :: "(nat \<Rightarrow> pydict \<Rightarrow> wire_entry) \<Rightarrow> pydict list \<Rightarrow> wire_entry list" where
  "numbered entry ms = map (\<lambda>(i, m). entry i m) (zip [0..<length ms] ms)"

definition anthropic_entries :: "pydict list \<Rightarrow> wire_entry list" where
  "anthropic_entries ms = numbered anthropic_entry ms"

definition openai_entries :: "pydict list \<Rightarrow> wire_entry list" where
  "openai_entries ms = numbered openai_entry ms"

definition openai_same_role_batch_allowed :: "wire_entry \<Rightarrow> wire_entry \<Rightarrow> bool" where
  "openai_same_role_batch_allowed p c =
    (if we_kind p = ''function_call'' \<and> we_kind c = ''function_call'' then True
     else if we_kind p = ''function_call_output'' \<and> we_kind c = ''function_call_output'' then True
     else {we_kind p, we_kind c} = {''message'', ''function_call''} \<and> we_role c = Some ''assistant'')"

definition block_ids_of :: "string \<Rightarrow> string \<Rightarrow> pyval \<Rightarrow> string list" where
  "block_ids_of ty key content = (case content of
      PyList bs \<Rightarrow> map (block_field key) (filter (is_block ty) bs) | _ \<Rightarrow> [])"

definition entry_use_ids :: "string \<Rightarrow> wire_entry \<Rightarrow> string list" where
  "entry_use_ids provider e =
    (if provider = ''openai_responses''
     then (if we_kind e = ''function_call'' then [str_or_empty (py_get ''call_id'' (we_payload e))] else [])
     else if we_role e = Some ''assistant''
     then block_ids_of ''tool_use'' ''id'' (py_get ''content'' (we_payload e)) else [])"

definition entry_result_ids :: "string \<Rightarrow> wire_entry \<Rightarrow> string list" where
  "entry_result_ids provider e =
    (if provider = ''openai_responses''
     then (if we_kind e = ''function_call_output'' then [str_or_empty (py_get ''call_id'' (we_payload e))] else [])
     else if we_role e = Some ''user''
     then block_ids_of ''tool_result'' ''tool_use_id'' (py_get ''content'' (we_payload e)) else [])"

text \<open>\<open>json.dumps\<close> of the values that are neither strings nor containers.\<close>

fun stringify_text_payload :: "pyval \<Rightarrow> string" where
  "stringify_text_payload (PyStr s) = s"
| "stringify_text_payload (PyDict d) = join_with newline (map (\<lambda>(k, v). stringify_text_payload v) d)"
| "stringify_text_payload (PyList xs) = join_with newline (map stringify_text_payload xs)"
| "stringify_text_payload PyNone = ''null''"
| "stringify_text_payload (PyBool b) = (if b then ''true'' else ''false'')"
| "stringify_text_payload (PyInt i) = int_str i"

section \<open>Checks\<close>

definition reject_forbidden_prose :: "pydict list \<Rightarrow> chain_error option" where
  "reject_forbidden_prose ms = (let txt = stringify_text_payload (PyList (map PyDict ms)) in
     map_option ForbiddenProse (List.find (\<lambda>marker. str_contains marker txt) FORBIDDEN_PROSE_MARKERS))"

fun reject_system_history :: "wire_entry list \<Rightarrow> chain_error option" where
  "reject_system_history [] = None"
| "reject_system_history (e # es) =
    (if we_role e = Some ''system'' then Some SystemHistory
     else if we_role e = Some ''tool'' then Some ToolHistory
     else reject_system_history es)"

definition validate_start_role :: "wire_entry list \<Rightarrow> chain_error option" where
  "validate_start_role es = (case List.find (\<lambda>e. we_role e \<noteq> None) es of
      None \<Rightarrow> None
    | Some first \<Rightarrow>
        if we_role first \<noteq> Some ''user'' then Some BadStartRole
        else if we_kind first \<in> set [''tool_result'', ''function_call_output''] then Some StartsWithResult
        else None)"

fun validate_role_alternation ::
    "string \<Rightarrow> wire_entry option \<Rightarrow> wire_entry list \<Rightarrow> chain_error option" where
  "validate_role_alternation provider previous [] = None"
| "validate_role_alternation provider previous (e # es) = (case we_role e of
      None \<Rightarrow> validate_role_alternation provider previous es
    | Some r \<Rightarrow> (case previous of
        None \<Rightarrow> validate_role_alternation provider (Some e) es
      | Some p \<Rightarrow>
          (if we_role p = Some r
              \<and> \<not> (provider = ''openai_responses'' \<and> openai_same_role_batch_allowed p e)
           then Some (SameRole r (we_index p) (we_index e))
           else validate_role_alternation provider (Some e) es)))"

text \<open>The three sets of \<open>_validate_tool_pairs\<close>.\<close>

record pair_state =
  ps_pending :: "string set"
  ps_uses :: "string set"
  ps_results :: "string set"

fun check_uses :: "pair_state \<Rightarrow> string list \<Rightarrow> chain_error + pair_state" where
  "check_uses s [] = Inr s"
| "check_uses s (i # is) =
    (if i = [] then Inl EmptyUseId
     else if i \<in> ps_uses s then Inl (DuplicateUse i)
     else check_uses (s\<lparr>ps_uses := insert i (ps_uses s), ps_pending := insert i (ps_pending s)\<rparr>) is)"

fun check_results :: "pair_state \<Rightarrow> string list \<Rightarrow> chain_error + pair_state" where
  "check_results s [] = Inr s"
| "check_results s (i # is) =
    (if i = [] then Inl EmptyResultId
     else if i \<notin> ps_uses s then Inl (OrphanResult i)
     else if i \<in> ps_results s then Inl (DuplicateResult i)
     else check_results (s\<lparr>ps_results := insert i (ps_results s), ps_pending := ps_pending s - {i}\<rparr>) is)"

fun check_entries :: "string \<Rightarrow> pair_state \<Rightarrow> wire_entry list \<Rightarrow> chain_error + pair_state" where
  "check_entries provider s [] = Inr s"
| "check_entries provider s (e # es) = (case check_uses s (entry_use_ids provider e) of
      Inl err \<Rightarrow> Inl err
    | Inr s1 \<Rightarrow> (case check_results s1 (entry_result_ids provider e) of
        Inl err \<Rightarrow> Inl err
      | Inr s2 \<Rightarrow> check_entries provider s2 es))"

definition validate_tool_pairs :: "string \<Rightarrow> wire_entry list \<Rightarrow> chain_error option" where
  "validate_tool_pairs provider es =
    (case check_entries provider \<lparr>ps_pending = {}, ps_uses = {}, ps_results = {}\<rparr> es of
       Inl err \<Rightarrow> Some err
     | Inr s \<Rightarrow> if ps_pending s \<noteq> {} then Some (MissingResults (sorted_list_of_set (ps_pending s))) else None)"

definition first_error :: "chain_error option list \<Rightarrow> chain_error option" where
  "first_error checks = (case List.find (\<lambda>c. c \<noteq> None) checks of None \<Rightarrow> None | Some c \<Rightarrow> c)"

definition validate_canonical_chain :: "pydict list \<Rightarrow> string option \<Rightarrow> chain_error option" where
  "validate_canonical_chain ms provider =
    (let name = (if opt_truthy provider then opt_str provider else infer_provider ms) in
     if name \<noteq> ''anthropic'' \<and> name \<noteq> ''openai_responses'' then Some UnsupportedProvider
     else (let entries = (if name = ''anthropic'' then anthropic_entries ms else openai_entries ms) in
       first_error [reject_forbidden_prose ms, reject_system_history entries,
         validate_start_role entries, validate_role_alternation name None entries,
         validate_tool_pairs name entries]))"

section \<open>The tool-pair check is the pairing contract\<close>

definition entry_events :: "string \<Rightarrow> wire_entry \<Rightarrow> tool_event list" where
  "entry_events provider e = map Use (entry_use_ids provider e) @ map Res (entry_result_ids provider e)"

lemma check_uses_scan:
  "case scan (ps_uses s) (ps_results s) (map Use is) of
      None \<Rightarrow> isl (check_uses s is)
    | Some (U, R) \<Rightarrow> check_uses s is = Inr (s\<lparr>ps_uses := U, ps_pending := ps_pending s \<union> set is\<rparr>)"
proof (induction s "is" rule: check_uses.induct)
  case (2 s i "is")
  have "insert i (ps_pending s) \<union> set is = ps_pending s \<union> set (i # is)" by auto
  with 2 show ?case by (auto split: option.splits)
qed simp

lemma check_results_scan:
  "case scan (ps_uses s) (ps_results s) (map Res is) of
      None \<Rightarrow> isl (check_results s is)
    | Some (U, R) \<Rightarrow> check_results s is = Inr (s\<lparr>ps_results := R, ps_pending := ps_pending s - set is\<rparr>)"
proof (induction s "is" rule: check_results.induct)
  case (2 s i "is")
  show ?case
  proof (cases "i = [] \<or> i \<notin> ps_uses s \<or> i \<in> ps_results s")
    case True
    then show ?thesis by auto
  next
    case False
    let ?s = "s\<lparr>ps_results := insert i (ps_results s), ps_pending := ps_pending s - {i}\<rparr>"
    have IH: "case scan (ps_uses ?s) (ps_results ?s) (map Res is) of
      None \<Rightarrow> isl (check_results ?s is)
    | Some (U, R) \<Rightarrow> check_results ?s is = Inr (?s\<lparr>ps_results := R, ps_pending := ps_pending ?s - set is\<rparr>)"
      using "2.IH" False by simp
    show ?thesis
      using IH False by (cases "scan (ps_uses s) (insert i (ps_results s)) (map Res is)")
        (simp_all add: Diff_insert2[of _ i "set is"] split_beta)
  qed
qed simp

text \<open>The sets of the check are those of the scan; what is pending is called and not answered.\<close>

lemma check_entries_scan:
  assumes "ps_pending s = ps_uses s - ps_results s" "ps_results s \<subseteq> ps_uses s"
  shows "case scan (ps_uses s) (ps_results s) (chain_events (entry_events provider) es) of
      None \<Rightarrow> isl (check_entries provider s es)
    | Some (U, R) \<Rightarrow> check_entries provider s es = Inr \<lparr>ps_pending = U - R, ps_uses = U, ps_results = R\<rparr>"
  using assms
proof (induction es arbitrary: s)
  case Nil
  then show ?case by (cases s) simp
next
  case (Cons e es)
  let ?u = "entry_use_ids provider e" and ?r = "entry_result_ids provider e"
  show ?case
  proof (cases "scan (ps_uses s) (ps_results s) (map Use ?u)")
    case None
    then have "isl (check_uses s ?u)" using check_uses_scan[of s ?u] by simp
    then obtain err where "check_uses s ?u = Inl err" by (cases "check_uses s ?u") auto
    with None show ?thesis by (simp add: entry_events_def scan_append)
  next
    case (Some p)
    then have sc: "scan (ps_uses s) (ps_results s) (map Use ?u) = Some (ps_uses s \<union> set ?u, ps_results s)"
      and fresh: "set ?u \<inter> ps_uses s = {}"
      by (auto simp: scan_map_Use split: if_splits)
    define s1 where "s1 = s\<lparr>ps_uses := ps_uses s \<union> set ?u, ps_pending := ps_pending s \<union> set ?u\<rparr>"
    have s1: "ps_uses s1 = ps_uses s \<union> set ?u" "ps_results s1 = ps_results s" "ps_pending s1 = ps_pending s \<union> set ?u"
      by (simp_all add: s1_def)
    have c1: "check_uses s ?u = Inr s1" using check_uses_scan[of s ?u] sc by (simp add: s1_def)
    show ?thesis
    proof (cases "scan (ps_uses s1) (ps_results s1) (map Res ?r)")
      case None
      then have "isl (check_results s1 ?r)" using check_results_scan[of s1 ?r] by simp
      then obtain err where "check_results s1 ?r = Inl err" by (cases "check_results s1 ?r") auto
      with None sc c1 s1 show ?thesis by (simp add: entry_events_def scan_append)
    next
      case (Some q)
      then have sr: "scan (ps_uses s1) (ps_results s1) (map Res ?r) = Some (ps_uses s1, ps_results s1 \<union> set ?r)"
        and sub: "set ?r \<subseteq> ps_uses s1"
        by (auto simp: scan_map_Res split: if_splits)
      define s2 where "s2 = s1\<lparr>ps_results := ps_results s1 \<union> set ?r, ps_pending := ps_pending s1 - set ?r\<rparr>"
      have s2: "ps_uses s2 = ps_uses s1" "ps_results s2 = ps_results s1 \<union> set ?r" "ps_pending s2 = ps_pending s1 - set ?r"
        by (simp_all add: s2_def)
      have c2: "check_results s1 ?r = Inr s2" using check_results_scan[of s1 ?r] sr by (simp add: s2_def)
      have inv: "ps_pending s2 = ps_uses s2 - ps_results s2" "ps_results s2 \<subseteq> ps_uses s2"
        unfolding s1 s2 using Cons.prems fresh sub[unfolded s1] by blast+
      have "scan (ps_uses s) (ps_results s) (chain_events (entry_events provider) (e # es))
          = scan (ps_uses s2) (ps_results s2) (chain_events (entry_events provider) es)"
        using sc sr s1 s2 by (simp add: entry_events_def scan_append)
      moreover have "check_entries provider s (e # es) = check_entries provider s2 es" using c1 c2 by simp
      ultimately show ?thesis using Cons.IH[OF inv] by (simp only:)
    qed
  qed
qed

lemma tool_pairs_iff:
  "validate_tool_pairs provider es = None \<longleftrightarrow> well_paired (chain_events (entry_events provider) es)"
proof -
  let ?s = "\<lparr>ps_pending = {}, ps_uses = {}, ps_results = {}\<rparr>"
  note C = check_entries_scan[of ?s provider es]
  show ?thesis
  proof (cases "scan {} {} (chain_events (entry_events provider) es)")
    case None
    then have "isl (check_entries provider ?s es)" using C by simp
    with None show ?thesis
      by (cases "check_entries provider ?s es") (simp_all add: validate_tool_pairs_def well_paired_def)
  next
    case (Some p)
    obtain U R where p: "p = (U, R)" by (cases p)
    then have "check_entries provider ?s es = Inr \<lparr>ps_pending = U - R, ps_uses = U, ps_results = R\<rparr>"
      using C Some by simp
    then show ?thesis using Some p by (simp add: validate_tool_pairs_def well_paired_def)
  qed
qed

text \<open>C7: The tool-pair check of the validator is the pairing contract: it raises nothing exactly
  for the chains whose events are well paired.\<close>

theorem validate_tool_pairs_iff:
  "validate_tool_pairs provider es = None \<longleftrightarrow> well_paired (chain_events (entry_events provider) es)"
  by (rule tool_pairs_iff)

end
