(* ===== verification/Frame_Rendering.thy ===== *)
theory Frame_Rendering
  imports Chain_Validator
begin

text \<open>
  Rendering of frames to provider payloads (\<open>services/conversation/frame_rendering.py\<close>) and the
  canonical chain on top of it (\<open>services/conversation/canonical_chain.py\<close>): the reminder wrapping,
  the reminder smooshing, the one normalizer of a prompt bundle, and the two renderers with the
  validation of what they made.  The call with an explicit cache policy, which annotates
  what is rendered here, is in theory \<open>Anthropic_Cache\<close>.
\<close>

datatype render_error = RenderBail bail_error | RenderBundle bundle_error | RenderChain chain_error

section \<open>Wrapping\<close>

definition wrap_system_reminder :: "string \<Rightarrow> string option \<Rightarrow> string" where
  "wrap_system_reminder txt tag = (let
     body = py_strip txt;
     body = (if opt_truthy tag
             then (let t = py_strip (opt_str tag)
                   in ''<'' @ t @ ''>'' @ newline @ body @ newline @ ''</'' @ t @ ''>'')
             else body)
     in ''<system-reminder>'' @ newline @ body @ newline @ ''</system-reminder>'')"

text \<open>The block a meta-user frame renders for a block, and whether it changed.\<close>

fun wrap_block :: "content_block \<Rightarrow> content_block \<times> bool" where
  "wrap_block (SystemReminderBlock txt tag) =
    (if starts_with ''<system-reminder>'' (py_lstrip txt) then (SystemReminderBlock txt tag, False)
     else (SystemReminderBlock (wrap_system_reminder txt tag) tag, True))"
| "wrap_block (TextBlock txt) = (SystemReminderBlock (wrap_system_reminder txt None) None, True)"
| "wrap_block b = (b, False)"

definition ensure_system_reminder_wrap :: "frame \<Rightarrow> frame" where
  "ensure_system_reminder_wrap f =
    (if f_role f \<noteq> META_USER then f
     else if \<not> (\<exists>b \<in> set (f_blocks f). snd (wrap_block b)) then f
     else f\<lparr>f_blocks := map (fst \<circ> wrap_block) (f_blocks f), f_is_meta := True\<rparr>)"

section \<open>Smooshing reminders into tool results\<close>

fun reminder_texts :: "content_block list \<Rightarrow> string list" where
  "reminder_texts [] = []"
| "reminder_texts (SystemReminderBlock txt tag # bs) = txt # reminder_texts bs"
| "reminder_texts (b # bs) = reminder_texts bs"

definition merge_reminder_into_tool_result :: "frame \<Rightarrow> frame \<Rightarrow> frame option" where
  "merge_reminder_into_tool_result target reminder =
    (if f_kind target \<noteq> TOOL_RESULT then None
     else (case f_blocks target of
         [ToolResultBlock i n content err] \<Rightarrow>
           (let extra = reminder_texts (f_blocks reminder) in
            if extra = [] then None
            else Some (target\<lparr>f_blocks := [ToolResultBlock i n
                  (content @ newline @ newline @ join_with (newline @ newline) extra) err]\<rparr>))
       | _ \<Rightarrow> None))"

definition is_reminder_frame :: "frame \<Rightarrow> bool" where
  "is_reminder_frame f = (f_role f = META_USER \<and> (\<exists>b \<in> set (f_blocks f). is_reminder b))"

definition fuse_reminder :: "frame \<Rightarrow> frame \<Rightarrow> frame" where
  "fuse_reminder merged reminder = (case merge_reminder_into_tool_result merged reminder of
      None \<Rightarrow> merged | Some fused \<Rightarrow> fused)"

text \<open>The loop keeps the result and the reminders held back for a tool result.\<close>

fun smoosh_loop :: "frame list \<Rightarrow> frame list \<Rightarrow> frame list \<Rightarrow> frame list" where
  "smoosh_loop result pending [] = result @ pending"
| "smoosh_loop result pending (f # fs) =
    (if is_reminder_frame f then
       (case (if result \<noteq> [] then merge_reminder_into_tool_result (last result) f else None) of
          Some merged \<Rightarrow> smoosh_loop (butlast result @ [merged]) pending fs
        | None \<Rightarrow> smoosh_loop result (pending @ [f]) fs)
     else if pending \<noteq> [] \<and> f_kind f = TOOL_RESULT
     then smoosh_loop (result @ [foldl fuse_reminder f pending]) [] fs
     else smoosh_loop (result @ pending @ [f]) [] fs)"

definition smoosh_system_reminder_siblings :: "frame list \<Rightarrow> frame list" where
  "smoosh_system_reminder_siblings fs = (if fs = [] then fs else smoosh_loop [] [] fs)"

section \<open>The provider-boundary normalizer\<close>

datatype provider_mode = FullMode | DeltaMode

text \<open>\<open>provider_caps or DEFAULT_MEDIA_LIMIT_POLICY\<close>: \<open>None\<close> stands for the default policy.\<close>

definition caps_or_default :: "pydict option \<Rightarrow> pydict option" where
  "caps_or_default caps = (case caps of Some d \<Rightarrow> if d = [] then None else Some d | None \<Rightarrow> None)"

definition deliver_frames :: "norm_env \<Rightarrow> provider_mode \<Rightarrow> frame list \<Rightarrow> render_error + frame list" where
  "deliver_frames env mode frames = (case mode of
      DeltaMode \<Rightarrow> (case validate_no_behavioral_bail_examples frames of
          Some e \<Rightarrow> Inl (RenderBail e)
        | None \<Rightarrow> (let merged = preserve_role_alternation (dedupe_tool_use_ids frames)
                  in case validate_no_behavioral_bail_examples merged of
                       Some e \<Rightarrow> Inl (RenderBail e) | None \<Rightarrow> Inr merged))
    | FullMode \<Rightarrow> (case ensure_tool_result_pairing env frames of
          Inl e \<Rightarrow> Inl (RenderBail e) | Inr out \<Rightarrow> Inr out))"

definition normalize_prompt_bundle_for_provider ::
    "norm_env \<Rightarrow> provider_mode \<Rightarrow> pydict option \<Rightarrow> prompt_bundle \<Rightarrow> render_error + prompt_bundle" where
  "normalize_prompt_bundle_for_provider env mode caps b =
    (if pb_provider_normalized b then Inr b
     else (let
       norm = normalize_frame_for_provider env (caps_or_default caps);
       frames = smoosh_system_reminder_siblings (map (norm \<circ> ensure_system_reminder_wrap) (to_messages b))
       in case deliver_frames env mode frames of
            Inl e \<Rightarrow> Inl e
          | Inr out \<Rightarrow> (case make_bundle (map norm (pb_system_static b)) (map norm (pb_system_dynamic b))
                              [] [] None (pb_cache_boundary b) (Some out) True of
                Inl e \<Rightarrow> Inl (RenderBundle e) | Inr nb \<Rightarrow> Inr nb)))"

section \<open>Text of frames\<close>

fun system_block_text :: "content_block \<Rightarrow> string list" where
  "system_block_text (TextBlock s) = [py_strip s]"
| "system_block_text (SystemReminderBlock s _) = [py_strip s]"
| "system_block_text _ = []"

definition join_nonempty :: "string \<Rightarrow> string list \<Rightarrow> string" where
  "join_nonempty sep ps = join_with sep (filter (\<lambda>p. p \<noteq> []) ps)"

definition render_static_system_text :: "frame list \<Rightarrow> string" where
  "render_static_system_text fs =
    join_nonempty (newline @ newline) (concat (map system_block_text (concat (map f_blocks fs))))"

fun meta_block_text :: "content_block \<Rightarrow> string list" where
  "meta_block_text (SystemReminderBlock s _) = [s]"
| "meta_block_text (TextBlock s) = [wrap_system_reminder s None]"
| "meta_block_text _ = []"

definition render_meta_user_frame_to_text :: "frame \<Rightarrow> string" where
  "render_meta_user_frame_to_text f = join_with (newline @ newline) (concat (map meta_block_text (f_blocks f)))"

fun user_block_text :: "content_block \<Rightarrow> string list" where
  "user_block_text (TextBlock s) = [s]"
| "user_block_text _ = []"

definition render_user_frame_to_text :: "frame \<Rightarrow> string" where
  "render_user_frame_to_text f = join_with newline (concat (map user_block_text (f_blocks f)))"

section \<open>Anthropic\<close>

definition wire_message :: "string \<Rightarrow> pyval \<Rightarrow> pydict" where
  "wire_message role content = [(''role'', PyStr role), (''content'', content)]"

fun assistant_block :: "content_block \<Rightarrow> pyval list" where
  "assistant_block (TextBlock s) = [text_block s]"
| "assistant_block (ToolUseBlock i n input) = [PyDict [(''type'', PyStr ''tool_use''), (''id'', PyStr i),
     (''name'', PyStr n), (''input'', input)]]"
| "assistant_block _ = []"

fun tool_block :: "content_block \<Rightarrow> pyval list" where
  "tool_block (ToolResultBlock i n content err) = [PyDict [(''type'', PyStr ''tool_result''),
     (''tool_use_id'', PyStr i), (''content'', PyStr content), (''is_error'', PyBool err)]]"
| "tool_block _ = []"

definition frame_to_anthropic_message :: "frame \<Rightarrow> pydict option" where
  "frame_to_anthropic_message f = (case f_role f of
      USER \<Rightarrow> (let t = render_user_frame_to_text f in
        if t \<noteq> [] then Some (wire_message ''user'' (PyStr t)) else None)
    | META_USER \<Rightarrow> (let t = render_meta_user_frame_to_text (ensure_system_reminder_wrap f) in
        if t \<noteq> [] then Some (wire_message ''user'' (PyStr t)) else None)
    | ASSISTANT \<Rightarrow> (let bs = concat (map assistant_block (f_blocks f)) in
        if bs = [] then None else Some (wire_message ''assistant'' (PyList bs)))
    | TOOL \<Rightarrow> (let bs = concat (map tool_block (f_blocks f)) in
        if bs = [] then None else Some (wire_message ''user'' (PyList bs)))
    | SYSTEM \<Rightarrow> None)"

definition merge_anthropic_content :: "pyval \<Rightarrow> pyval \<Rightarrow> pyval option" where
  "merge_anthropic_content l r = merge_native_content l r"

fun merge_anthropic_loop :: "pydict list \<Rightarrow> pydict list \<Rightarrow> pydict list" where
  "merge_anthropic_loop merged [] = merged"
| "merge_anthropic_loop merged (m # ms) =
    (case (if merged \<noteq> [] \<and> py_get ''role'' m = py_get ''role'' (last merged)
           then merge_anthropic_content (py_get ''content'' (last merged)) (py_get ''content'' m) else None) of
       Some content \<Rightarrow> merge_anthropic_loop (butlast merged @ [py_set ''content'' content (last merged)]) ms
     | None \<Rightarrow> merge_anthropic_loop (merged @ [m]) ms)"

definition merge_adjacent_anthropic_messages :: "pydict list \<Rightarrow> pydict list" where
  "merge_adjacent_anthropic_messages ms = merge_anthropic_loop [] ms"

definition anthropic_system_blocks :: "prompt_bundle \<Rightarrow> pydict list" where
  "anthropic_system_blocks b = (let
     static = render_static_system_text (pb_system_static b);
     dynamic = render_static_system_text (pb_system_dynamic b)
     in (if static \<noteq> [] then [[(''type'', PyStr ''text''), (''text'', PyStr static)]
           @ (if pb_cache_boundary b
              then [(''cache_control'', PyDict [(''type'', PyStr ''ephemeral'')])] else [])] else [])
        @ (if dynamic \<noteq> [] then [[(''type'', PyStr ''text''), (''text'', PyStr dynamic)]] else []))"

definition anthropic_messages :: "frame list \<Rightarrow> pydict list" where
  "anthropic_messages fs = merge_adjacent_anthropic_messages
     (map the (filter (\<lambda>m. m \<noteq> None) (map frame_to_anthropic_message fs)))"

text \<open>The pair of \<open>system\<close> and \<open>messages\<close>.\<close>

definition render_for_anthropic ::
    "norm_env \<Rightarrow> prompt_bundle \<Rightarrow> render_error + (pydict list \<times> pydict list)" where
  "render_for_anthropic env b = (case normalize_prompt_bundle_for_provider env FullMode None b of
      Inl e \<Rightarrow> Inl e
    | Inr nb \<Rightarrow> (let messages = anthropic_messages (pb_frames nb)
        in case validate_canonical_chain messages (Some ''anthropic'') of
             Some e \<Rightarrow> Inl (RenderChain e)
           | None \<Rightarrow> Inr (anthropic_system_blocks nb, messages)))"

section \<open>OpenAI Responses\<close>

definition message_item :: "string \<Rightarrow> pyval \<Rightarrow> pydict" where
  "message_item role content = [(''type'', PyStr ''message''), (''role'', PyStr role), (''content'', content)]"

text \<open>The walk over the blocks of an assistant frame: text is held until a call or the end.\<close>

definition flush_pending_text :: "string list \<Rightarrow> pydict list" where
  "flush_pending_text pending =
    (if pending \<noteq> [] then [message_item ''assistant'' (PyStr (join_with newline pending))] else [])"

fun assistant_items :: "string list \<Rightarrow> content_block list \<Rightarrow> pydict list" where
  "assistant_items pending [] = flush_pending_text pending"
| "assistant_items pending (b # bs) = (case b of
      TextBlock s \<Rightarrow> assistant_items (pending @ [s]) bs
    | ToolUseBlock i n input \<Rightarrow> flush_pending_text pending
        @ [(''type'', PyStr ''function_call''), (''call_id'', PyStr i), (''name'', PyStr n),
           (''arguments'', PyStr (json_dumps input))] # assistant_items [] bs
    | _ \<Rightarrow> assistant_items pending bs)"

fun tool_items :: "content_block list \<Rightarrow> pydict list" where
  "tool_items [] = []"
| "tool_items (b # bs) = (case b of
      ToolResultBlock i n content err \<Rightarrow>
        [(''type'', PyStr ''function_call_output''), (''call_id'', PyStr i), (''output'', PyStr content)] # tool_items bs
    | _ \<Rightarrow> tool_items bs)"

definition frame_to_openai_items :: "frame \<Rightarrow> pydict list" where
  "frame_to_openai_items f = (case f_role f of
      USER \<Rightarrow> (let t = render_user_frame_to_text f in
        if t \<noteq> [] then [message_item ''user'' (PyStr t)] else [])
    | META_USER \<Rightarrow> (let t = render_meta_user_frame_to_text (ensure_system_reminder_wrap f) in
        if t \<noteq> [] then [message_item ''user'' (PyStr t)] else [])
    | ASSISTANT \<Rightarrow> assistant_items [] (f_blocks f)
    | TOOL \<Rightarrow> tool_items (f_blocks f)
    | SYSTEM \<Rightarrow> [])"

definition input_text_block :: "string \<Rightarrow> pyval" where
  "input_text_block s = PyDict [(''type'', PyStr ''input_text''), (''text'', PyStr s)]"

fun merge_openai_message_content :: "pyval \<Rightarrow> pyval \<Rightarrow> pyval option" where
  "merge_openai_message_content (PyStr l) (PyStr r) =
     Some (PyStr (join_with (newline @ newline) (filter (\<lambda>p. p \<noteq> []) [l, r])))"
| "merge_openai_message_content (PyList l) (PyList r) = Some (PyList (l @ r))"
| "merge_openai_message_content (PyStr l) (PyList r) = Some (PyList (if l \<noteq> [] then input_text_block l # r else r))"
| "merge_openai_message_content (PyList l) (PyStr r) = Some (PyList (if r \<noteq> [] then l @ [input_text_block r] else l))"
| "merge_openai_message_content _ _ = None"

fun merge_openai_loop :: "pydict list \<Rightarrow> pydict list \<Rightarrow> pydict list" where
  "merge_openai_loop merged [] = merged"
| "merge_openai_loop merged (m # ms) =
    (case (if merged \<noteq> [] \<and> type_is ''message'' m \<and> type_is ''message'' (last merged)
              \<and> py_get ''role'' m = py_get ''role'' (last merged)
           then merge_openai_message_content (py_get ''content'' (last merged)) (py_get ''content'' m) else None) of
       Some content \<Rightarrow> merge_openai_loop (butlast merged @ [py_set ''content'' content (last merged)]) ms
     | None \<Rightarrow> merge_openai_loop (merged @ [m]) ms)"

definition merge_adjacent_openai_message_items :: "pydict list \<Rightarrow> pydict list" where
  "merge_adjacent_openai_message_items items = merge_openai_loop [] items"

definition openai_items :: "frame list \<Rightarrow> pydict list" where
  "openai_items fs = merge_adjacent_openai_message_items (concat (map frame_to_openai_items fs))"

definition responses_instructions :: "prompt_bundle \<Rightarrow> string" where
  "responses_instructions b = join_nonempty (newline @ newline)
     [render_static_system_text (pb_system_static b), render_static_system_text (pb_system_dynamic b)]"

definition render_for_openai_responses ::
    "norm_env \<Rightarrow> prompt_bundle \<Rightarrow> render_error + (string \<times> pydict list)" where
  "render_for_openai_responses env b = (case normalize_prompt_bundle_for_provider env FullMode None b of
      Inl e \<Rightarrow> Inl e
    | Inr nb \<Rightarrow> (let items = openai_items (pb_frames nb)
        in case validate_canonical_chain items (Some ''openai_responses'') of
             Some e \<Rightarrow> Inl (RenderChain e)
           | None \<Rightarrow> Inr (responses_instructions nb, items)))"

definition render_openai_responses_instructions :: "norm_env \<Rightarrow> prompt_bundle \<Rightarrow> render_error + string" where
  "render_openai_responses_instructions env b =
    map_sum id responses_instructions (normalize_prompt_bundle_for_provider env FullMode None b)"

section \<open>The boundary marker\<close>

definition SYSTEM_PROMPT_DYNAMIC_BOUNDARY :: string where
  "SYSTEM_PROMPT_DYNAMIC_BOUNDARY = ''__VIOLA_SYSTEM_PROMPT_DYNAMIC_BOUNDARY__''"

text \<open>\<open>s.partition(sep)\<close> where \<open>sep\<close> occurs: the text before and after its first occurrence.\<close>

fun partition_at :: "string \<Rightarrow> string \<Rightarrow> string \<times> string" where
  "partition_at sep [] = ([], [])"
| "partition_at sep (c # cs) =
    (if starts_with sep (c # cs) then ([], drop (length sep) (c # cs))
     else (let (a, b) = partition_at sep cs in (c # a, b)))"

definition split_at_dynamic_boundary :: "string \<Rightarrow> string \<times> string \<times> bool" where
  "split_at_dynamic_boundary prompt =
    (if str_contains SYSTEM_PROMPT_DYNAMIC_BOUNDARY prompt
     then (let (a, b) = partition_at SYSTEM_PROMPT_DYNAMIC_BOUNDARY prompt
           in (rstrip_newlines a, lstrip_newlines b, True))
     else (prompt, [], False))"

section \<open>The canonical chain\<close>

record canonical_chain =
  cc_frames :: "frame list"

definition chain_append :: "canonical_chain \<Rightarrow> frame \<Rightarrow> canonical_chain" where
  "chain_append c f = \<lparr>cc_frames = cc_frames c @ [f]\<rparr>"

definition with_runtime_context :: "canonical_chain \<Rightarrow> frame list \<Rightarrow> canonical_chain" where
  "with_runtime_context c fs = \<lparr>cc_frames = fs @ cc_frames c\<rparr>"

definition repair_for_provider ::
    "norm_env \<Rightarrow> provider_mode \<Rightarrow> canonical_chain \<Rightarrow> render_error + canonical_chain" where
  "repair_for_provider env mode c = (case make_bundle [] [] [] [] None False (Some (cc_frames c)) False of
      Inl e \<Rightarrow> Inl (RenderBundle e)
    | Inr b \<Rightarrow> (case normalize_prompt_bundle_for_provider env mode None b of
          Inl e \<Rightarrow> Inl e
        | Inr nb \<Rightarrow> Inr \<lparr>cc_frames = pb_frames nb\<rparr>))"

definition to_prompt_bundle :: "canonical_chain \<Rightarrow> bool \<Rightarrow> bundle_error + prompt_bundle" where
  "to_prompt_bundle c normalized = make_bundle [] (filter (\<lambda>f. f_role f = SYSTEM) (cc_frames c)) [] [] None False
     (Some (filter (\<lambda>f. f_role f \<noteq> SYSTEM) (cc_frames c))) normalized"

datatype rendering = AnthropicRendering "pydict list" "pydict list" | ResponsesRendering string "pydict list"

definition render_chain ::
    "norm_env \<Rightarrow> string \<Rightarrow> provider_mode \<Rightarrow> canonical_chain \<Rightarrow> render_error + rendering" where
  "render_chain env provider mode c = (case repair_for_provider env mode c of
      Inl e \<Rightarrow> Inl e
    | Inr repaired \<Rightarrow> (case to_prompt_bundle repaired True of
          Inl e \<Rightarrow> Inl (RenderBundle e)
        | Inr b \<Rightarrow>
            if py_lower (py_strip provider) \<in> set [''anthropic'', ''claude'']
            then map_sum id (\<lambda>(s, ms). AnthropicRendering s ms) (render_for_anthropic env b)
            else map_sum id (\<lambda>(s, is). ResponsesRendering s is) (render_for_openai_responses env b)))"

end
