(* ===== verification/Frame_Repair.thy ===== *)
theory Frame_Repair
  imports Frame_Invariants
begin

text \<open>
  What \<open>ensure_tool_result_pairing\<close> promises: the chain it returns is one a provider accepts, it
  returns one, it loses no conversation text, it merges as far as it can, and it leaves a
  repaired chain alone.
\<close>

section \<open>Pairing and totality\<close>

lemma ensure_well_paired:
  assumes "ensure_tool_result_pairing env fs = Inr out" "sys_free fs"
  shows "well_paired (chain_events frame_events out)"
proof -
  let ?ns = "map (normalize_frame_for_provider env None) fs"
  have out: "out = preserve_role_alternation (repaired_frames ?ns)"
    using assms(1) unfolding ensure_cases Let_def by blast
  have "well_paired (frames_events (repaired_frames ?ns))"
    unfolding repaired_frames_def Let_def using frame_repair.repair_well_paired[of ?ns] by simp
  moreover have "sys_free (repaired_frames ?ns)" by (rule repaired_sys_free) (simp add: assms(2))
  ultimately show ?thesis by (simp add: out alternation_events)
qed

text \<open>C4: The repair returns a chain (it does not raise) when no meta frame speaks as the assistant and
  only assistant frames make calls.\<close>

theorem ensure_pairing_total:
  assumes "role_consistent fs"
  shows "\<exists>out. ensure_tool_result_pairing env fs = Inr out"
proof -
  let ?ns = "map (normalize_frame_for_provider env None) fs"
  have bail: "role_consistent gs \<Longrightarrow> validate_no_behavioral_bail_examples gs = None" for gs
    by (simp add: bail_None_iff role_consistent_def)
  have "role_consistent (repaired_frames ?ns)"
    by (rule repaired_role_consistent) (simp add: assms)
  from alternation_no_bail[OF bail[OF this]] bail[of ?ns] assms
  have "ensure_tool_result_pairing env fs = Inr (preserve_role_alternation (repaired_frames ?ns))"
    unfolding ensure_cases Let_def by simp
  then show ?thesis by (rule exI)
qed

text \<open>C3: The repaired frame chain is one a provider accepts: every call id is declared once, every
  result answers an earlier call, no call is answered twice and no call is left unanswered.  The
  repair has to find no tool block in a SYSTEM frame, which is not rendered as a message.\<close>

theorem ensure_pairing_well_paired:
  assumes "ensure_tool_result_pairing env fs = Inr out" "sys_free fs"
  shows "well_paired (chain_events frame_events out)"
  using assms by (rule ensure_well_paired)

section \<open>Text survives the repair\<close>

definition text_blocks :: "frame list \<Rightarrow> content_block multiset" where
  "text_blocks fs = mset (filter is_text (concat (map f_blocks fs)))"

lemma text_blocks_simps [simp]:
  "text_blocks [] = {#}"
  "text_blocks (f # fs) = mset (filter is_text (f_blocks f)) + text_blocks fs"
  "text_blocks (fs @ gs) = text_blocks fs + text_blocks gs"
  by (simp_all add: text_blocks_def)

lemma dedupe_blocks_text: "filter is_text (fst (dedupe_blocks seen bs)) = filter is_text bs"
proof (induction seen bs rule: dedupe_blocks.induct)
  case (2 seen b bs)
  then show ?case by (cases b) (auto simp: Let_def split_beta)
qed simp

lemma strip_blocks_text: "filter is_text (fst (strip_blocks U R bs)) = filter is_text bs"
proof (induction U R bs rule: strip_blocks.induct)
  case (2 U R b bs)
  then show ?case by (cases b) (auto simp: Let_def split_beta)
qed simp

lemma dedupe_text: "text_blocks (dedupe_loop seen fs) = text_blocks fs"
proof (induction seen fs rule: dedupe_loop.induct)
  case (2 seen f fs)
  obtain bs seen' where d: "dedupe_blocks seen (f_blocks f) = (bs, seen')" by fastforce
  have "filter is_text bs = filter is_text (f_blocks f)"
    using dedupe_blocks_text[of seen "f_blocks f"] d by simp
  then have "filter_mset is_text (mset bs) = filter_mset is_text (mset (f_blocks f))"
    by (metis mset_filter)
  then show ?case using "2.IH"[OF d[symmetric] refl] d
    by (cases "length bs \<noteq> length (f_blocks f) \<and> bs = []") (auto simp: Let_def)
qed simp

lemma strip_text: "text_blocks (strip_loop U R acc fs) = text_blocks acc + text_blocks fs"
proof (induction fs arbitrary: U R acc)
  case (Cons f fs)
  obtain bs R' where d: "strip_blocks U R (f_blocks f) = (bs, R')" by fastforce
  have tx: "filter is_text bs = filter is_text (f_blocks f)"
    using strip_blocks_text[of U R "f_blocks f"] d by simp
  show ?case
  proof (cases "length bs \<noteq> length (f_blocks f) \<and> bs = []")
    case True
    with tx d show ?thesis by (auto simp: Cons.IH Let_def)
  next
    case False
    then show ?thesis
      using tx by (auto simp only: strip_loop.simps Let_def d prod.case if_False Cons.IH text_blocks_simps
          replace_blocks_sel split: if_splits) (simp_all add: tx)
  qed
qed simp

lemma insert_text: "text_blocks (insert_synthetic_loop ex S fs) = text_blocks fs"
proof (induction fs arbitrary: S)
  case (Cons f fs)
  have "filter is_text (map (synthetic_result_block ex) ms) = []" for ms
    by (simp add: filter_empty_conv synthetic_result_block_def)
  with Cons show ?case by (auto simp: Let_def split: list.splits option.splits)
qed simp

lemma alternation_text: "text_blocks (preserve_role_alternation fs) = text_blocks fs"
proof -
  define P where "P out rest \<longleftrightarrow> text_blocks out + text_blocks rest = text_blocks fs" for out rest
  have "P (alternate_loop [] None fs) []"
  proof (rule frame_alternation.loop_rule)
    fix pre x post f rest m
    assume "P (pre @ x # post) (f # rest)" "merge_compatible_frames x f = Some m"
    with merge_SomeD(2) show "P (pre @ m # post) rest" by (auto simp: P_def ac_simps)
  qed (auto simp: P_def ac_simps)
  then show ?thesis by (simp add: P_def preserve_role_alternation_def)
qed

lemma repaired_text: "text_blocks (repaired_frames fs) = text_blocks fs"
  by (simp add: repaired_frames_def Let_def insert_synthetic_error_tool_results_def insert_text
      strip_orphan_tool_results_def strip_text dedupe_tool_use_ids_def dedupe_text)

text \<open>No conversation text is lost or made up: the text blocks of the repaired chain are those of
  the redacted input, with multiplicity.\<close>

lemma ensure_pairing_keeps_text:
  assumes "ensure_tool_result_pairing env fs = Inr out"
  shows "text_blocks out = text_blocks (map (normalize_frame_for_provider env None) fs)"
  using assms unfolding ensure_cases Let_def by (auto simp: alternation_text repaired_text)

text \<open>The output alternates as far as merging can make it: two rendered frames that follow each
  other have different wire roles, or their blocks cannot be merged.\<close>

lemma ensure_pairing_alternates:
  assumes "ensure_tool_result_pairing env fs = Inr out"
  shows "successively unmergeable (filter (\<lambda>f. frame_wire_role f \<noteq> None) out)"
  using assms alternation_maximal unfolding ensure_cases Let_def by blast

section \<open>Idempotence\<close>

lemma normalize_block_kind [simp]:
  "is_text (normalize_block env pol st b) = is_text b"
  "is_tool_use (normalize_block env pol st b) = is_tool_use b"
  "is_tool_result (normalize_block env pol st b) = is_tool_result b"
  "is_reminder (normalize_block env pol st b) = is_reminder b"
  by (cases b; simp)+

lemma merge_None_iff:
  "merge_compatible_frames l r = None \<longleftrightarrow> \<not> (f_role l = f_role r \<and> (case f_role l of
      ASSISTANT \<Rightarrow> \<forall>b \<in> set (f_blocks l) \<union> set (f_blocks r). is_text b \<or> is_tool_use b
    | TOOL \<Rightarrow> \<forall>b \<in> set (f_blocks l) \<union> set (f_blocks r). is_tool_result b
    | USER \<Rightarrow> \<forall>b \<in> set (f_blocks l) \<union> set (f_blocks r). is_text b
    | META_USER \<Rightarrow> \<forall>b \<in> set (f_blocks l) \<union> set (f_blocks r). is_text b \<or> is_reminder b
    | SYSTEM \<Rightarrow> False))"
  by (simp add: merge_compatible_frames_def Let_def ball_Un split: frame_role.split)

lemma normalize_provider_blocks:
  "f_blocks (normalize_frame_for_provider env caps f)
    = map (normalize_block env (policy_from_caps caps) False) (f_blocks f)"
  by (simp add: normalize_frame_for_provider_def normalize_frame_alt)

lemma unmergeable_normalize [simp]:
  "unmergeable (normalize_frame_for_provider env caps a) (normalize_frame_for_provider env caps b) = unmergeable a b"
  unfolding unmergeable_def merge_None_iff frame_wire_role_def normalize_provider_sel
    normalize_provider_blocks set_map ball_Un ball_simps(9) normalize_block_kind ..

lemma rendered_normalize [simp]:
  "frame_wire_role (normalize_frame_for_provider env caps a) = frame_wire_role a"
  by (simp add: frame_wire_role_def)

lemma filter_rendered_normalize:
  "filter rendered (map (normalize_frame_for_provider env caps) fs)
    = map (normalize_frame_for_provider env caps) (filter rendered fs)"
  by (induction fs) auto

lemma bail_normalize [simp]:
  "validate_no_behavioral_bail_examples (map (normalize_frame_for_provider env caps) fs) = None
    \<longleftrightarrow> validate_no_behavioral_bail_examples fs = None"
  by (auto simp: bail_None_iff)

lemma plain_normalize [simp]:
  "plain_frames (map (normalize_frame_for_provider env caps) fs) = plain_frames fs"
  by (auto simp: plain_frames_def)

text \<open>A chain with nothing to repair comes back normalized and otherwise unchanged.\<close>

lemma ensure_fix:
  assumes "plain_frames fs" "well_paired (frames_events fs)"
    "validate_no_behavioral_bail_examples fs = None" "successively unmergeable (filter rendered fs)"
  shows "ensure_tool_result_pairing env fs = Inr (map (normalize_frame_for_provider env None) fs)"
proof -
  let ?ns = "map (normalize_frame_for_provider env None) fs"
  have "repaired_frames ?ns = ?ns"
    unfolding repaired_frames_def Let_def using assms(1,2) by (intro frame_repair.repair_fix) simp_all
  moreover have "preserve_role_alternation ?ns = ?ns"
    by (rule alternation_fix)
      (simp only: filter_rendered_normalize successively_map unmergeable_normalize, rule assms(4))
  ultimately show ?thesis using assms(3) unfolding ensure_cases Let_def by simp
qed

lemma no_use_events: "use_list (block_events bs) = [] \<longleftrightarrow> (\<forall>b \<in> set bs. \<not> is_tool_use b)"
proof (induction bs)
  case (Cons b bs)
  then show ?case by (cases b) auto
qed simp

lemma no_result_events: "res_list (block_events bs) = [] \<longleftrightarrow> (\<forall>b \<in> set bs. \<not> is_tool_result b)"
proof (induction bs)
  case (Cons b bs)
  then show ?case by (cases b) auto
qed simp

definition plain_blocks :: "content_block list \<Rightarrow> bool" where
  "plain_blocks bs = ((\<forall>b \<in> set bs. \<not> is_tool_use b) \<or> (\<forall>b \<in> set bs. \<not> is_tool_result b))"

lemma plain_frames_blocks: "plain_frames fs \<longleftrightarrow> (\<forall>f \<in> set fs. plain_blocks (f_blocks f))"
  unfolding plain_frames_def plain_blocks_def frame_events_eq no_use_events no_result_events ..

lemma derived_plain:
  assumes "plain_frames fs" "\<forall>g \<in> set gs. derived_from fs g"
  shows "plain_frames gs"
  unfolding plain_frames_blocks
proof
  fix g assume "g \<in> set gs"
  then have "derived_from fs g" using assms(2) by blast
  then show "plain_blocks (f_blocks g)"
    unfolding derived_from_def
  proof (elim disjE bexE exE conjE)
    fix f bs assume a: "f \<in> set fs" "set bs \<subseteq> set (f_blocks f)" "g = replace_blocks f bs"
    then have "plain_blocks (f_blocks f)" using assms(1) by (simp add: plain_frames_blocks)
    with a show ?thesis by (auto simp: plain_blocks_def)
  next
    assume "block_events (f_blocks g) = []"
    then have "use_list (block_events (f_blocks g)) = []" by simp
    then show ?thesis unfolding no_use_events by (simp add: plain_blocks_def)
  next
    assume "use_list (frame_events g) = []"
    then show ?thesis unfolding frame_events_eq no_use_events by (simp add: plain_blocks_def)
  qed (use assms(1) in \<open>simp add: plain_frames_blocks\<close>)
qed

lemma merge_plain:
  assumes "merge_compatible_frames l r = Some m"
  shows "plain_blocks (f_blocks m)"
proof -
  have ex: "is_text b \<Longrightarrow> \<not> is_tool_result b" "is_tool_use b \<Longrightarrow> \<not> is_tool_result b"
    "is_tool_result b \<Longrightarrow> \<not> is_tool_use b" "is_reminder b \<Longrightarrow> \<not> is_tool_result b" for b
    by (cases b; simp)+
  have "merge_compatible_frames l r \<noteq> None" using assms by simp
  then show ?thesis
    unfolding merge_None_iff plain_blocks_def merge_SomeD(2)[OF assms] set_append
    by (cases "f_role l"; simp; metis UnI1 UnI2 UnE ex)
qed

lemma alternation_plain:
  assumes "plain_frames fs"
  shows "plain_frames (preserve_role_alternation fs)"
proof -
  define P where "P out rest \<longleftrightarrow> plain_frames (out @ rest)" for out rest
  have "P (alternate_loop [] None fs) []"
  proof (rule frame_alternation.loop_rule)
    fix pre x post f rest m
    assume "P (pre @ x # post) (f # rest)" "merge_compatible_frames x f = Some m"
    with merge_plain show "P (pre @ m # post) rest" by (auto simp: P_def plain_frames_blocks)
  qed (use assms in \<open>auto simp: P_def plain_frames_blocks\<close>)
  then show ?thesis by (simp add: P_def preserve_role_alternation_def)
qed

text \<open>The repair is idempotent: repairing a repaired chain only normalizes its blocks again (input
  frames that do not mix calls and results, as all constructors make them).\<close>

lemma ensure_pairing_idempotent:
  assumes "ensure_tool_result_pairing env fs = Inr out" "sys_free fs" "plain_frames fs"
  shows "ensure_tool_result_pairing env out = Inr (map (normalize_frame_for_provider env None) out)"
proof (rule ensure_fix)
  let ?ns = "map (normalize_frame_for_provider env None) fs"
  have out: "out = preserve_role_alternation (repaired_frames ?ns)"
    "validate_no_behavioral_bail_examples out = None"
    using assms(1) unfolding ensure_cases Let_def by blast+
  show "well_paired (frames_events out)"
    using assms(1,2) by (rule ensure_well_paired)
  have "plain_frames (repaired_frames ?ns)"
    by (rule repaired_derived[where Q = plain_frames], erule (1) derived_plain) (simp add: assms(3))
  then show "plain_frames out" unfolding out(1) by (rule alternation_plain)
  show "successively unmergeable (filter rendered out)" unfolding out(1) by (rule alternation_maximal)
qed (use assms(1) in \<open>unfold ensure_cases Let_def, blast\<close>)

section \<open>An example\<close>

text \<open>An interrupted turn: two calls, one answered in a frame that also answers a call nobody made.\<close>

definition interrupted_turn :: "frame list" where
  "interrupted_turn =
    [new_frame USER_INPUT USER [TextBlock ''hi''],
     new_frame TOOL_USE ASSISTANT [ToolUseBlock ''a'' ''read'' PyNone, ToolUseBlock ''b'' ''read'' PyNone],
     new_frame TOOL_RESULT TOOL [ToolResultBlock ''z'' ''read'' ''x'' False, ToolResultBlock ''b'' ''read'' ''ok'' False],
     new_frame USER_INPUT USER [TextBlock ''go'']]"

definition repaired_turn :: "frame list" where
  "repaired_turn =
    [new_frame USER_INPUT USER [TextBlock ''hi''],
     new_frame TOOL_USE ASSISTANT [ToolUseBlock ''a'' ''read'' PyNone, ToolUseBlock ''b'' ''read'' PyNone],
     (new_frame TOOL_RESULT TOOL
        [ToolResultBlock ''a'' ''read'' SYNTHETIC_TOOL_RESULT_CONTENT True, ToolResultBlock ''b'' ''read'' ''ok'' False])
       \<lparr>f_is_meta := True, f_origin := Some ''synthetic_error'',
        f_extra := [(''synthetic_reason'', PyStr ''missing_tool_result'')]\<rparr>,
     new_frame USER_INPUT USER [TextBlock ''go'']]"

lemma interrupted_turn_repaired: "ensure_tool_result_pairing inert_env interrupted_turn = Inr repaired_turn"
  by code_simp

lemma interrupted_turn_shape:
  "sys_free interrupted_turn" "plain_frames interrupted_turn" "role_consistent interrupted_turn"
  by code_simp+

section \<open>Witnesses\<close>

lemma ensure_pairing_well_paired_witness: "well_paired (chain_events frame_events repaired_turn)"
  by (rule ensure_pairing_well_paired[OF interrupted_turn_repaired interrupted_turn_shape(1)])

lemma ensure_pairing_total_witness: "\<exists>out. ensure_tool_result_pairing inert_env interrupted_turn = Inr out"
  by (rule ensure_pairing_total[OF interrupted_turn_shape(3)])

lemma ensure_pairing_keeps_text_witness:
  "text_blocks repaired_turn = text_blocks (map (normalize_frame_for_provider inert_env None) interrupted_turn)"
  by (rule ensure_pairing_keeps_text[OF interrupted_turn_repaired])

lemma ensure_pairing_alternates_witness:
  "successively unmergeable (filter (\<lambda>f. frame_wire_role f \<noteq> None) repaired_turn)"
  by (rule ensure_pairing_alternates[OF interrupted_turn_repaired])

lemma ensure_pairing_idempotent_witness:
  "ensure_tool_result_pairing inert_env repaired_turn
    = Inr (map (normalize_frame_for_provider inert_env None) repaired_turn)"
  by (rule ensure_pairing_idempotent[OF interrupted_turn_repaired interrupted_turn_shape(1,2)])

end
