(* ===== verification/Rendering_Properties.thy ===== *)
theory Rendering_Properties
  imports Frame_Rendering Frame_Repair Native_Repair
begin

text \<open>
  What the renderers promise: the only errors a rendering can end in, over every bundle whose
  frames have the roles their constructors give them; the wrapping and the smooshing of reminders
  are idempotent; and the boundary split gives back the two halves.  Two theorems show inputs on
  which the code loses a reminder and rejects a chain it repaired itself.
\<close>

section \<open>Roles of tool blocks\<close>

definition role_shaped :: "frame \<Rightarrow> bool" where
  "role_shaped f = (\<forall>b \<in> set (f_blocks f). (is_tool_use b \<longrightarrow> f_role f = ASSISTANT)
     \<and> (is_tool_result b \<longrightarrow> f_role f = TOOL))"

abbreviation all_role_shaped :: "frame list \<Rightarrow> bool" where
  "all_role_shaped fs \<equiv> (\<forall>f \<in> set fs. role_shaped f)"

lemma role_shaped_sys_free: "all_role_shaped fs \<Longrightarrow> sys_free fs"
  unfolding sys_free_def
proof (intro ballI impI)
  fix f assume a: "all_role_shaped fs" "f \<in> set fs" "f_role f = SYSTEM"
  then have "\<not> is_tool_use b \<and> \<not> is_tool_result b" if "b \<in> set (f_blocks f)" for b
    using that by (auto simp: role_shaped_def)
  then have "block_event b = []" if "b \<in> set (f_blocks f)" for b using that by (cases b) fastforce+
  then show "frame_events f = []" by (simp add: frame_events_eq block_events_Nil)
qed

lemma replace_keeps_role:
  assumes "role_shaped f" "set bs \<subseteq> set (f_blocks f)"
  shows "f_role (replace_blocks f bs) = f_role f"
proof -
  have "f_role f = ASSISTANT" if "block_use_ids bs \<noteq> []"
  proof -
    from that obtain i where "i \<in> set (block_use_ids bs)" by (cases "block_use_ids bs") auto
    then show ?thesis using assms by (auto simp: block_use_ids_set role_shaped_def)
  qed
  moreover have "f_role f = TOOL" if "block_result_ids bs \<noteq> []"
  proof -
    from that obtain i where "i \<in> set (block_result_ids bs)" by (cases "block_result_ids bs") auto
    then show ?thesis using assms by (auto simp: block_result_ids_def role_shaped_def)
  qed
  ultimately show ?thesis by (auto simp: replace_blocks_role)
qed

lemma derived_role_shaped:
  assumes "all_role_shaped fs" "\<forall>g \<in> set gs. derived_from fs g"
  shows "all_role_shaped gs"
proof
  fix g assume "g \<in> set gs"
  then have "derived_from fs g" using assms(2) by blast
  then show "role_shaped g"
    unfolding derived_from_def
  proof (elim disjE bexE exE conjE)
    fix f bs assume a: "f \<in> set fs" "set bs \<subseteq> set (f_blocks f)" "g = replace_blocks f bs"
    then have "role_shaped f" using assms(1) by blast
    with a replace_keeps_role[OF this a(2)] show ?thesis by (auto simp: role_shaped_def)
  next
    assume a: "f_role g = META_USER" "block_events (f_blocks g) = []"
    then have "block_event b = []" if "b \<in> set (f_blocks g)" for b using that by (simp add: block_events_Nil)
    then have "\<not> is_tool_use b \<and> \<not> is_tool_result b" if "b \<in> set (f_blocks g)" for b
      using that by (cases b) fastforce+
    then show ?thesis by (auto simp: role_shaped_def)
  next
    assume "f_role g = TOOL" "use_list (frame_events g) = []"
    then show ?thesis unfolding frame_events_eq no_use_events by (simp add: role_shaped_def)
  qed (use assms(1) in auto)
qed

lemma merge_role_shaped:
  assumes "merge_compatible_frames l r = Some m" "role_shaped l" "role_shaped r"
  shows "role_shaped m"
  using assms(2,3) merge_SomeD(1,2,3)[OF assms(1)] by (auto simp: role_shaped_def)

lemma alternation_role_shaped:
  assumes "all_role_shaped fs"
  shows "all_role_shaped (preserve_role_alternation fs)"
proof -
  define P where "P out rest \<longleftrightarrow> all_role_shaped (out @ rest)" for out rest
  have "P (alternate_loop [] None fs) []"
  proof (rule frame_alternation.loop_rule)
    fix pre x post f rest m
    assume "P (pre @ x # post) (f # rest)" "merge_compatible_frames x f = Some m"
    with merge_role_shaped show "P (pre @ m # post) rest" by (auto simp: P_def)
  qed (use assms in \<open>auto simp: P_def\<close>)
  then show ?thesis by (simp add: P_def preserve_role_alternation_def)
qed

lemma normalize_role_shaped [simp]:
  "role_shaped (normalize_frame_for_provider env caps f) = role_shaped f"
  by (simp add: role_shaped_def normalize_provider_blocks)

lemma ensure_role_shaped:
  assumes "ensure_tool_result_pairing env fs = Inr out" "all_role_shaped fs"
  shows "all_role_shaped out"
proof -
  have "all_role_shaped (repaired_frames (map (normalize_frame_for_provider env None) fs))"
    by (rule repaired_derived[where Q = all_role_shaped], erule (1) derived_role_shaped) (use assms(2) in auto)
  then show ?thesis
    using assms(1) alternation_role_shaped unfolding ensure_cases Let_def by blast
qed

section \<open>Reminders\<close>

lemma wrap_block_kind [simp]:
  "is_tool_use (fst (wrap_block b)) = is_tool_use b" "is_tool_result (fst (wrap_block b)) = is_tool_result b"
  by (cases b; simp)+

lemma wrap_role_shaped: "role_shaped f \<Longrightarrow> role_shaped (ensure_system_reminder_wrap f)"
  by (auto simp: ensure_system_reminder_wrap_def role_shaped_def)

lemma merge_reminder_role_shaped:
  "merge_reminder_into_tool_result t r = Some m \<Longrightarrow> role_shaped t \<Longrightarrow> role_shaped m"
  by (auto simp: merge_reminder_into_tool_result_def Let_def role_shaped_def
      split: if_splits list.splits content_block.splits)

lemma fuse_role_shaped: "role_shaped f \<Longrightarrow> role_shaped (foldl fuse_reminder f rs)"
  by (induction rs arbitrary: f)
    (auto simp: fuse_reminder_def merge_reminder_role_shaped split: option.splits)

lemma smoosh_loop_role_shaped:
  "all_role_shaped result \<Longrightarrow> all_role_shaped pending \<Longrightarrow> all_role_shaped fs \<Longrightarrow>
    all_role_shaped (smoosh_loop result pending fs)"
proof (induction result pending fs rule: smoosh_loop.induct)
  case (2 result pending f fs)
  show ?case
  proof (cases "is_reminder_frame f")
    case True
    show ?thesis
    proof (cases "if result \<noteq> [] then merge_reminder_into_tool_result (last result) f else None")
      case None
      with "2.IH"(1)[OF True None] "2.prems" True show ?thesis by simp
    next
      case (Some m)
      then have "result \<noteq> []" "merge_reminder_into_tool_result (last result) f = Some m"
        by (auto split: if_splits)
      then have "role_shaped m" using merge_reminder_role_shaped "2.prems"(1) by (meson last_in_set)
      then have "all_role_shaped (butlast result @ [m])"
        using "2.prems"(1) by (auto dest: in_set_butlastD)
      from "2.IH"(2)[OF True Some this] "2.prems" True Some show ?thesis by simp
    qed
  next
    case False
    show ?thesis
    proof (cases "pending \<noteq> [] \<and> f_kind f = TOOL_RESULT")
      case fuse: True
      with "2.IH"(3)[OF False fuse] "2.prems" False show ?thesis by (simp add: fuse_role_shaped)
    next
      case nofuse: False
      have "smoosh_loop result pending (f # fs) = smoosh_loop (result @ pending @ [f]) [] fs"
        using False nofuse by (simp only: smoosh_loop.simps if_False)
      with "2.IH"(4)[OF False nofuse] "2.prems" show ?thesis by auto
    qed
  qed
qed auto

lemma smoosh_role_shaped: "all_role_shaped fs \<Longrightarrow> all_role_shaped (smoosh_system_reminder_siblings fs)"
proof (cases "fs = []")
  case False
  assume "all_role_shaped fs"
  then have "all_role_shaped (smoosh_loop [] [] fs)" by (intro smoosh_loop_role_shaped) simp_all
  then show ?thesis unfolding smoosh_system_reminder_siblings_def if_not_P[OF False] .
qed (simp add: smoosh_system_reminder_siblings_def)

text \<open>What a successful normalization delivers.\<close>

lemma normalize_bundle_cases:
  assumes "normalize_prompt_bundle_for_provider env FullMode caps b = Inr nb" "\<not> pb_provider_normalized b"
  obtains fs where
    "fs = smoosh_system_reminder_siblings (map (normalize_frame_for_provider env (caps_or_default caps)
        \<circ> ensure_system_reminder_wrap) (to_messages b))"
    "ensure_tool_result_pairing env fs = Inr (pb_frames nb)"
  using assms by (auto simp: normalize_prompt_bundle_for_provider_def deliver_frames_def Let_def
      dest: make_bundle_fields(1) split: sum.splits)

lemma normalized_frames:
  assumes "normalize_prompt_bundle_for_provider env FullMode caps b = Inr nb" "\<not> pb_provider_normalized b"
    "all_role_shaped (to_messages b)"
  shows "all_role_shaped (pb_frames nb)" "well_paired (frames_events (pb_frames nb))"
proof -
  obtain fs where fs: "fs = smoosh_system_reminder_siblings (map (normalize_frame_for_provider env (caps_or_default caps)
        \<circ> ensure_system_reminder_wrap) (to_messages b))"
    and e: "ensure_tool_result_pairing env fs = Inr (pb_frames nb)"
    using assms(1,2) by (rule normalize_bundle_cases)
  have sh: "all_role_shaped fs" unfolding fs using assms(3) by (intro smoosh_role_shaped) (auto simp: wrap_role_shaped)
  show "all_role_shaped (pb_frames nb)" using e sh by (rule ensure_role_shaped)
  show "well_paired (frames_events (pb_frames nb))"
    using e role_shaped_sys_free[OF sh] by (rule ensure_well_paired)
qed

section \<open>Anthropic payloads\<close>



lemma strip_roles: "py_strip ''user'' = ''user''" "py_strip ''assistant'' = ''assistant''"
  by code_simp+

lemma wire_message_reads [simp]:
  "py_get ''role'' (wire_message r c) = PyStr r"
  "py_get ''content'' (wire_message r c) = c"
  "py_set ''content'' c' (wire_message r c) = wire_message r c'"
  by (simp_all add: wire_message_def)



lemma block_ids_of_text [simp]: "block_ids_of ty key (PyStr s) = []"
  by (simp add: block_ids_of_def)



lemma no_tool_events: "\<forall>b \<in> set bs. \<not> is_tool_use b \<and> \<not> is_tool_result b \<Longrightarrow> block_events bs = []"
  unfolding block_events_Nil
proof
  fix b assume "\<forall>b \<in> set bs. \<not> is_tool_use b \<and> \<not> is_tool_result b" "b \<in> set bs"
  then show "block_event b = []" by (cases b) auto
qed







lemma numbered_map:
  assumes "\<And>i m. g (entry i m) = h m"
  shows "map g (numbered entry ms) = map h ms"
proof -
  have "map g (numbered entry ms) = map (h \<circ> snd) (zip [0..<length ms] ms)"
    by (simp add: numbered_def assms split_beta o_def)
  also have "\<dots> = map h (map snd (zip [0..<length ms] ms))" by (simp only: map_map)
  finally show ?thesis by (simp only: map_snd_zip length_upt diff_zero)
qed

lemma numbered_events:
  assumes "\<And>i m. entry_events p (entry i m) = E m"
  shows "chain_events (entry_events p) (numbered entry ms) = chain_events E ms"
  using numbered_map[of "entry_events p" entry E ms] assms by (simp add: chain_events_def)





lemma system_history_none:
  "\<forall>e \<in> set es. we_role e \<noteq> Some ''system'' \<and> we_role e \<noteq> Some ''tool'' \<Longrightarrow> reject_system_history es = None"
  by (induction es) auto

lemma first_error_cases:
  "first_error cs = Some e \<Longrightarrow> Some e \<in> set cs"
  by (induction cs) (auto simp: first_error_def split: if_splits)


lemma forbidden_prose_error: "reject_forbidden_prose ms = Some e \<Longrightarrow> \<exists>marker. e = ForbiddenProse marker"
  by (auto simp: reject_forbidden_prose_def Let_def)



section \<open>OpenAI Responses payloads\<close>

definition call_item :: "string \<Rightarrow> string \<Rightarrow> string \<Rightarrow> pydict" where
  "call_item i n a = [(''type'', PyStr ''function_call''), (''call_id'', PyStr i), (''name'', PyStr n), (''arguments'', PyStr a)]"

definition output_item :: "string \<Rightarrow> string \<Rightarrow> pydict" where
  "output_item i c = [(''type'', PyStr ''function_call_output''), (''call_id'', PyStr i), (''output'', PyStr c)]"

inductive is_response_item :: "pydict \<Rightarrow> bool" where
  message_ri: "r \<in> {''user'', ''assistant''} \<Longrightarrow> is_response_item (message_item r (PyStr s))"
| call_ri: "is_response_item (call_item i n a)"
| output_ri: "is_response_item (output_item i c)"

inductive_cases is_response_itemE: "is_response_item m"

definition item_events :: "pydict \<Rightarrow> tool_event list" where
  "item_events m = entry_events ''openai_responses'' (openai_entry 0 m)"

definition item_view :: "pydict \<Rightarrow> string option \<times> string" where
  "item_view m = (we_role (openai_entry 0 m), we_kind (openai_entry 0 m))"

lemma strip_types: "py_strip ''message'' = ''message''" "py_strip ''function_call'' = ''function_call''"
  "py_strip ''function_call_output'' = ''function_call_output''"
  by code_simp+

lemma item_views:
  "r \<in> {''user'', ''assistant''} \<Longrightarrow> item_view (message_item r c) = (Some r, ''message'')"
  "item_view (call_item i n a) = (Some ''assistant'', ''function_call'')"
  "item_view (output_item i d) = (Some ''user'', ''function_call_output'')"
  by (auto simp: item_view_def openai_entry_def stripped_field_def stripped_role_def message_item_def
      call_item_def output_item_def strip_types strip_roles Let_def)

lemma item_events_simps:
  "item_events (message_item r c) = []"
  "item_events (call_item i n a) = [Use i]"
  "item_events (output_item i d) = [Res i]"
  by (simp_all add: item_events_def entry_events_def entry_use_ids_def entry_result_ids_def openai_entry_def
      stripped_field_def message_item_def call_item_def output_item_def strip_types Let_def)

lemma flush_items: "\<forall>m \<in> set (flush_pending_text p). is_response_item m" "chain_events item_events (flush_pending_text p) = []"
  by (auto simp: flush_pending_text_def item_events_simps intro: is_response_item.message_ri)

lemma assistant_items_props:
  "\<forall>b \<in> set bs. \<not> is_tool_result b \<Longrightarrow>
    (\<forall>m \<in> set (assistant_items p bs). is_response_item m)
    \<and> chain_events item_events (assistant_items p bs) = block_events bs"
proof (induction bs arbitrary: p)
  case Nil
  then show ?case by (simp add: flush_items)
next
  case (Cons b bs)
  show ?case
  proof (cases b)
    case (ToolUseBlock i n input)
    have "assistant_items p (b # bs) = flush_pending_text p @ call_item i n (json_dumps input) # assistant_items [] bs"
      by (simp add: ToolUseBlock call_item_def)
    then show ?thesis using Cons flush_items[of p]
      by (auto simp: ToolUseBlock item_events_simps is_response_item.call_ri)
  qed (use Cons in auto)
qed

lemma tool_items_props:
  "\<forall>b \<in> set bs. \<not> is_tool_use b \<Longrightarrow>
    (\<forall>m \<in> set (tool_items bs). is_response_item m) \<and> chain_events item_events (tool_items bs) = block_events bs"
proof (induction bs)
  case (Cons b bs)
  show ?case
  proof (cases b)
    case (ToolResultBlock i n c err)
    have "tool_items (b # bs) = output_item i c # tool_items bs" by (simp add: ToolResultBlock output_item_def)
    then show ?thesis using Cons by (auto simp: ToolResultBlock item_events_simps is_response_item.output_ri)
  qed (use Cons in auto)
qed simp

lemma frame_items_props:
  assumes "role_shaped f"
  shows "(\<forall>m \<in> set (frame_to_openai_items f). is_response_item m)
    \<and> chain_events item_events (frame_to_openai_items f) = frame_events f"
proof (cases "f_role f")
  case ASSISTANT
  then show ?thesis using assms assistant_items_props[of "f_blocks f" "[]"]
    by (auto simp: role_shaped_def frame_to_openai_items_def frame_events_eq)
next
  case TOOL
  then show ?thesis using assms tool_items_props[of "f_blocks f"]
    by (auto simp: role_shaped_def frame_to_openai_items_def frame_events_eq)
next
  case SYSTEM
  then have "block_events (f_blocks f) = []" using assms by (intro no_tool_events) (auto simp: role_shaped_def)
  then show ?thesis using SYSTEM by (simp add: frame_to_openai_items_def frame_events_eq)
next
  case USER
  then have "block_events (f_blocks f) = []" using assms by (intro no_tool_events) (auto simp: role_shaped_def)
  then show ?thesis using USER
    by (simp add: frame_to_openai_items_def frame_events_eq Let_def item_events_simps is_response_item.message_ri)
next
  case META_USER
  then have "block_events (f_blocks f) = []" using assms by (intro no_tool_events) (auto simp: role_shaped_def)
  then show ?thesis using META_USER
    by (simp add: frame_to_openai_items_def frame_events_eq Let_def item_events_simps is_response_item.message_ri)
qed

lemma frames_items_props:
  "all_role_shaped fs \<Longrightarrow>
    (\<forall>m \<in> set (concat (map frame_to_openai_items fs)). is_response_item m)
    \<and> chain_events item_events (concat (map frame_to_openai_items fs)) = frames_events fs"
proof (induction fs)
  case (Cons f fs)
  then show ?case using frame_items_props[of f] by auto
qed simp

text \<open>Neighbours of one role are not both messages.\<close>

definition unmerged_messages :: "pydict \<Rightarrow> pydict \<Rightarrow> bool" where
  "unmerged_messages a b = (\<not> (type_is ''message'' a \<and> type_is ''message'' b \<and> py_get ''role'' b = py_get ''role'' a))"

lemma item_types:
  "type_is ''message'' (message_item r c)" "\<not> type_is ''message'' (call_item i n a)"
  "\<not> type_is ''message'' (output_item i d)" "py_get ''role'' (message_item r c) = PyStr r"
  "py_get ''content'' (message_item r c) = c" "py_set ''content'' c' (message_item r c) = message_item r c'"
  by (simp_all add: type_is_def message_item_def call_item_def output_item_def)

lemma response_message:
  "is_response_item m \<Longrightarrow> type_is ''message'' m \<Longrightarrow> \<exists>r s. m = message_item r (PyStr s) \<and> r \<in> {''user'', ''assistant''}"
  by (erule is_response_itemE) (auto simp: item_types)

lemma merge_openai_loop_props:
  assumes "\<forall>m \<in> set (out @ ms). is_response_item m" "successively unmerged_messages out"
  shows "(\<forall>m \<in> set (merge_openai_loop out ms). is_response_item m)
    \<and> chain_events item_events (merge_openai_loop out ms)
        = chain_events item_events out @ chain_events item_events ms
    \<and> successively unmerged_messages (merge_openai_loop out ms)"
  using assms
proof (induction out ms rule: merge_openai_loop.induct)
  case (2 out m ms)
  let ?sc = "if out \<noteq> [] \<and> type_is ''message'' m \<and> type_is ''message'' (last out)
              \<and> py_get ''role'' m = py_get ''role'' (last out)
           then merge_openai_message_content (py_get ''content'' (last out)) (py_get ''content'' m) else None"
  show ?case
  proof (cases "out \<noteq> [] \<and> type_is ''message'' m \<and> type_is ''message'' (last out)
              \<and> py_get ''role'' m = py_get ''role'' (last out)")
    case True
    then obtain xs x where out: "out = xs @ [x]" by (cases out rule: rev_cases) auto
    obtain r s where x: "x = message_item r (PyStr s)" "r \<in> {''user'', ''assistant''}"
      using response_message[of x] "2.prems"(1) True out by auto
    obtain t where m: "m = message_item r (PyStr t)"
      using response_message[of m] "2.prems"(1) True out x by (auto simp: item_types)
    define u where "u = join_with (newline @ newline) (filter (\<lambda>p. p \<noteq> []) [s, t])"
    have sc: "?sc = Some (PyStr u)" using True out x m by (simp add: item_types u_def)
    have nx: "butlast out @ [py_set ''content'' (PyStr u) (last out)] = xs @ [message_item r (PyStr u)]"
      using out x by (simp add: item_types)
    have step: "merge_openai_loop out (m # ms) = merge_openai_loop (xs @ [message_item r (PyStr u)]) ms"
      unfolding merge_openai_loop.simps sc option.case nx ..
    have suc: "successively unmerged_messages (xs @ [message_item r (PyStr u)])"
      using "2.prems"(2) x unfolding out by (auto simp: successively_append_iff unmerged_messages_def item_types)
    have "\<forall>m \<in> set ((xs @ [message_item r (PyStr u)]) @ ms). is_response_item m"
      using "2.prems"(1) out x(2) by (auto intro: is_response_item.message_ri)
    from "2.IH"(2)[OF sc, unfolded nx, OF this suc] show ?thesis
      unfolding step using out x m by (simp add: item_events_simps)
  next
    case False
    then have sc: "?sc = None" by (rule if_not_P)
    have step: "merge_openai_loop out (m # ms) = merge_openai_loop (out @ [m]) ms"
      unfolding merge_openai_loop.simps sc option.case ..
    have suc: "successively unmerged_messages (out @ [m])"
      using "2.prems"(2) False by (cases out rule: rev_cases) (auto simp: successively_append_iff unmerged_messages_def)
    have "\<forall>m \<in> set ((out @ [m]) @ ms). is_response_item m" using "2.prems"(1) by simp
    from "2.IH"(1)[OF sc this suc] show ?thesis unfolding step by simp
  qed
qed simp

lemma openai_items_props:
  assumes "all_role_shaped fs"
  shows "\<forall>m \<in> set (openai_items fs). is_response_item m"
    "chain_events item_events (openai_items fs) = frames_events fs"
    "successively unmerged_messages (openai_items fs)"
  using merge_openai_loop_props[of "[]" "concat (map frame_to_openai_items fs)"] frames_items_props[OF assms]
  unfolding openai_items_def merge_adjacent_openai_message_items_def by simp_all

text \<open>Neighbours of one role that the validator does not allow are user entries.\<close>

definition user_clash :: "string option \<times> string \<Rightarrow> string option \<times> string \<Rightarrow> bool" where
  "user_clash v w = (fst v = fst w \<and> \<not> (snd v = ''function_call'' \<and> snd w = ''function_call'')
     \<and> \<not> (snd v = ''function_call_output'' \<and> snd w = ''function_call_output'')
     \<and> \<not> ({snd v, snd w} = {''message'', ''function_call''} \<and> fst w = Some ''assistant'')
     \<longrightarrow> fst v = Some ''user'')"

lemma item_clash:
  "is_response_item a \<Longrightarrow> is_response_item b \<Longrightarrow> unmerged_messages a b \<Longrightarrow> user_clash (item_view a) (item_view b)"
  by (erule is_response_itemE; erule is_response_itemE)
    (auto simp: user_clash_def item_views unmerged_messages_def item_types)

lemma clash_errors:
  assumes "\<forall>e \<in> set es. we_role e \<noteq> None"
    "successively (\<lambda>a b. user_clash (we_role a, we_kind a) (we_role b, we_kind b))
       (case p of None \<Rightarrow> es | Some x \<Rightarrow> x # es)"
    "validate_role_alternation ''openai_responses'' p es = Some err"
  shows "\<exists>i j. err = SameRole ''user'' i j"
  using assms
proof (induction es arbitrary: p)
  case (Cons e es)
  from Cons.prems(1) obtain r where r: "we_role e = Some r" by auto
  have IH: "validate_role_alternation ''openai_responses'' (Some e) es = Some err \<Longrightarrow> \<exists>i j. err = SameRole ''user'' i j"
    using Cons.prems(1,2) by (intro Cons.IH[of "Some e"]) (auto split: option.splits)
  show ?case
  proof (cases p)
    case None
    then show ?thesis using IH Cons.prems(3) r by simp
  next
    case (Some x)
    then have c: "user_clash (we_role x, we_kind x) (we_role e, we_kind e)" using Cons.prems(2) by simp
    show ?thesis
    proof (cases "we_role x = Some r \<and> \<not> openai_same_role_batch_allowed x e")
      case True
      then have "r = ''user''"
        using c r by (auto simp: user_clash_def openai_same_role_batch_allowed_def split: if_splits)
      then show ?thesis using Cons.prems(3) True Some r by auto
    next
      case False
      then show ?thesis using IH Cons.prems(3) Some r by (auto split: if_splits)
    qed
  qed
qed simp

lemma openai_entries_events:
  "chain_events (entry_events ''openai_responses'') (openai_entries ms) = chain_events item_events ms"
  unfolding openai_entries_def
  by (rule numbered_events) (simp add: item_events_def entry_events_def entry_use_ids_def
      entry_result_ids_def openai_entry_def Let_def)

lemma openai_entries_views: "map (\<lambda>e. (we_role e, we_kind e)) (openai_entries ms) = map item_view ms"
  unfolding openai_entries_def by (rule numbered_map) (simp add: item_view_def openai_entry_def Let_def)

lemma validate_openai_errors:
  assumes "\<forall>m \<in> set ms. is_response_item m" "successively unmerged_messages ms"
    "well_paired (chain_events item_events ms)"
    and "validate_canonical_chain ms (Some ''openai_responses'') = Some e"
  shows "e = BadStartRole \<or> (\<exists>marker. e = ForbiddenProse marker) \<or> (\<exists>i j. e = SameRole ''user'' i j)"
proof -
  let ?es = "openai_entries ms"
  have views: "\<exists>m \<in> set ms. (we_role e, we_kind e) = item_view m" if "e \<in> set ?es" for e
  proof -
    have "(we_role e, we_kind e) \<in> set (map (\<lambda>e. (we_role e, we_kind e)) ?es)" using that by auto
    then show ?thesis unfolding openai_entries_views by auto
  qed
  have roles: "we_role e \<in> {Some ''user'', Some ''assistant''} \<and> we_kind e \<noteq> ''tool_result''" if el: "e \<in> set ?es" for e
  proof -
    obtain m where m: "m \<in> set ms" "(we_role e, we_kind e) = item_view m" using views[OF el] by blast
    then have "is_response_item m" using assms(1) by blast
    then show ?thesis using m(2) by (elim is_response_itemE) (auto simp: item_views)
  qed
  have "successively user_clash (map item_view ms)"
    unfolding successively_map by (rule successively_mono[OF assms(2)]) (use assms(1) item_clash in blast)
  then have clash: "successively (\<lambda>a b. user_clash (we_role a, we_kind a) (we_role b, we_kind b)) ?es"
    unfolding openai_entries_views[symmetric] successively_map .
  have alt: "\<exists>i j. err = SameRole ''user'' i j" if "validate_role_alternation ''openai_responses'' None ?es = Some err" for err
    using clash_errors[OF _ _ that] clash roles by fastforce
  have sys: "reject_system_history ?es = None" using roles by (intro system_history_none) fastforce
  have pairs: "validate_tool_pairs ''openai_responses'' ?es = None"
    using assms(3) tool_pairs_iff[of "''openai_responses''" ?es] openai_entries_events by simp
  have start: "validate_start_role ?es \<in> {None, Some BadStartRole}"
  proof (cases ms)
    case Nil
    then show ?thesis by (simp add: openai_entries_def numbered_def validate_start_role_def)
  next
    case (Cons m rest)
    then obtain e es where es: "?es = e # es" by (cases ?es) (auto simp: openai_entries_def numbered_def)
    with Cons have v: "(we_role e, we_kind e) = item_view m" using openai_entries_views[of ms] by simp
    have "m \<in> set ms" using Cons by simp
    then have it: "is_response_item m" using assms(1) by blast
    have "we_kind e \<noteq> ''function_call_output''"
    proof
      assume "we_kind e = ''function_call_output''"
      with v it obtain i c where "m = output_item i c" by (auto elim!: is_response_itemE simp: item_views)
      then have "chain_events item_events ms = Res i # chain_events item_events rest"
        using Cons by (simp add: item_events_simps)
      with assms(3) show False by (simp add: well_paired_def)
    qed
    moreover have "we_role e \<noteq> None" "we_kind e \<noteq> ''tool_result''" using roles[of e] es by auto
    ultimately show ?thesis by (simp add: validate_start_role_def es)
  qed
  have "validate_canonical_chain ms (Some ''openai_responses'') = first_error [reject_forbidden_prose ms, None,
      validate_start_role ?es, validate_role_alternation ''openai_responses'' None ?es, None]"
    by (simp add: validate_canonical_chain_def sys pairs Let_def)
  with assms(4) have "first_error [reject_forbidden_prose ms, None, validate_start_role ?es,
      validate_role_alternation ''openai_responses'' None ?es, None] = Some e" by simp
  from first_error_cases[OF this] show ?thesis
    using start forbidden_prose_error[of ms e] alt[of e] by auto
qed

text \<open>Rendering for OpenAI Responses of a bundle it normalizes itself fails in three ways
  only: a forbidden history marker, an assistant turn at the start, or two neighbouring user
  entries.  Pairing errors, a result at the start and clashes of assistant entries never occur.\<close>

lemma render_openai_errors:
  assumes "render_for_openai_responses env b = Inl (RenderChain e)" "\<not> pb_provider_normalized b"
    and "\<forall>f \<in> set (to_messages b). role_shaped f"
  shows "e = BadStartRole \<or> (\<exists>marker. e = ForbiddenProse marker) \<or> (\<exists>i j. e = SameRole ''user'' i j)"
proof -
  obtain nb where nb: "normalize_prompt_bundle_for_provider env FullMode None b = Inr nb"
    and v: "validate_canonical_chain (openai_items (pb_frames nb)) (Some ''openai_responses'') = Some e"
    using assms(1) by (auto simp: render_for_openai_responses_def Let_def normalize_prompt_bundle_for_provider_def
        deliver_frames_def split: sum.splits option.splits if_splits)
  note N = normalized_frames[OF nb assms(2,3)]
  note A = openai_items_props[OF N(1)]
  have "well_paired (chain_events item_events (openai_items (pb_frames nb)))"
    using N(2) A(2) by simp
  from validate_openai_errors[OF A(1,3) this v] show ?thesis .
qed

section \<open>Idempotence of the reminder passes\<close>

lemma wrapped_starts: "starts_with ''<system-reminder>'' (py_lstrip (wrap_system_reminder txt tag))"
proof -
  have "py_lstrip (''<system-reminder>'' @ s) = ''<system-reminder>'' @ s" for s
    by (simp add: py_lstrip_def py_space_def char_code_def Let_def)
  then show ?thesis unfolding wrap_system_reminder_def Let_def starts_with_iff by auto
qed

lemma wrap_block_again: "snd (wrap_block (fst (wrap_block b))) = False"
  by (cases b) (auto simp: wrapped_starts)

text \<open>Wrapping the reminders of a frame twice is wrapping them once.\<close>

theorem reminder_wrap_idem:
  "ensure_system_reminder_wrap (ensure_system_reminder_wrap f) = ensure_system_reminder_wrap f"
proof (cases "f_role f = META_USER \<and> (\<exists>b \<in> set (f_blocks f). snd (wrap_block b))")
  case True
  let ?g = "f\<lparr>f_blocks := map (fst \<circ> wrap_block) (f_blocks f), f_is_meta := True\<rparr>"
  have "ensure_system_reminder_wrap f = ?g" using True by (simp add: ensure_system_reminder_wrap_def)
  moreover have "\<not> (\<exists>b \<in> set (f_blocks ?g). snd (wrap_block b))" by (auto simp: wrap_block_again)
  then have "ensure_system_reminder_wrap ?g = ?g" unfolding ensure_system_reminder_wrap_def by (simp only: if_True not_True_eq_False if_False) simp
  ultimately show ?thesis by simp
next
  case False
  then have "ensure_system_reminder_wrap f = f" by (auto simp: ensure_system_reminder_wrap_def)
  then show ?thesis by simp
qed

definition takes_reminder :: "frame \<Rightarrow> bool" where
  "takes_reminder t = (f_kind t = TOOL_RESULT \<and> (\<exists>i n c e. f_blocks t = [ToolResultBlock i n c e]))"

lemma reminder_texts_ne: "(\<exists>b \<in> set bs. is_reminder b) \<longleftrightarrow> reminder_texts bs \<noteq> []"
  by (induction bs rule: reminder_texts.induct) auto

lemma merge_reminder_None:
  "is_reminder_frame r \<Longrightarrow> merge_reminder_into_tool_result t r = None \<longleftrightarrow> \<not> takes_reminder t"
  by (auto simp: merge_reminder_into_tool_result_def takes_reminder_def is_reminder_frame_def reminder_texts_ne
      Let_def split: list.splits content_block.splits)

lemma merge_reminder_SomeD:
  "merge_reminder_into_tool_result t r = Some m \<Longrightarrow>
    takes_reminder t \<and> takes_reminder m \<and> \<not> is_reminder_frame m \<and> f_kind m = f_kind t"
  by (auto simp: merge_reminder_into_tool_result_def takes_reminder_def is_reminder_frame_def Let_def
      split: if_splits list.splits content_block.splits)

lemma reminder_takes_none: "is_reminder_frame r \<Longrightarrow> \<not> takes_reminder r"
  by (auto simp: is_reminder_frame_def takes_reminder_def)

lemma fuse_not_reminder:
  "\<not> is_reminder_frame f \<Longrightarrow> \<not> is_reminder_frame (foldl fuse_reminder f rs) \<and> f_kind (foldl fuse_reminder f rs) = f_kind f"
proof (induction rs arbitrary: f)
  case (Cons r rs)
  have "\<not> is_reminder_frame (fuse_reminder f r) \<and> f_kind (fuse_reminder f r) = f_kind f"
    using Cons.prems by (cases "merge_reminder_into_tool_result f r")
      (simp_all add: fuse_reminder_def, drule merge_reminder_SomeD, blast)
  with Cons.IH[of "fuse_reminder f r"] show ?case by simp
qed simp

text \<open>Neighbours no reminder can move between.\<close>

definition settled :: "frame \<Rightarrow> frame \<Rightarrow> bool" where
  "settled a b = ((is_reminder_frame b \<longrightarrow> \<not> takes_reminder a)
     \<and> (is_reminder_frame a \<and> \<not> is_reminder_frame b \<longrightarrow> f_kind b \<noteq> TOOL_RESULT))"

definition smoosh_inv :: "frame list \<Rightarrow> frame list \<Rightarrow> bool" where
  "smoosh_inv result pending = (successively settled (result @ pending)
     \<and> (\<forall>r \<in> set pending. is_reminder_frame r) \<and> (result \<noteq> [] \<longrightarrow> \<not> is_reminder_frame (last result)))"

lemma settled_last_pending:
  assumes "smoosh_inv result pending" "result \<noteq> []" "pending \<noteq> []"
  shows "\<not> takes_reminder (last result)"
proof -
  have "settled (last result) (hd pending)"
    using assms by (auto simp: smoosh_inv_def successively_append_iff)
  moreover have "is_reminder_frame (hd pending)" using assms by (simp add: smoosh_inv_def)
  ultimately show ?thesis by (simp add: settled_def)
qed

lemma smoosh_inv_hold:
  assumes "smoosh_inv result pending" "is_reminder_frame f" "result \<noteq> [] \<longrightarrow> \<not> takes_reminder (last result)"
  shows "smoosh_inv result (pending @ [f])"
proof -
  have "successively settled ((result @ pending) @ [f])"
    using assms reminder_takes_none
    by (cases "pending = []") (auto simp: smoosh_inv_def successively_append_iff settled_def)
  then show ?thesis using assms by (simp add: smoosh_inv_def)
qed

lemma smoosh_loop_settled:
  "smoosh_inv result pending \<Longrightarrow> successively settled (smoosh_loop result pending fs)"
proof (induction result pending fs rule: smoosh_loop.induct)
  case (2 result pending f fs)
  let ?m = "if result \<noteq> [] then merge_reminder_into_tool_result (last result) f else None"
  show ?case
  proof (cases "is_reminder_frame f")
    case True
    show ?thesis
    proof (cases ?m)
      case None
      have "smoosh_inv result (pending @ [f])"
        using smoosh_inv_hold[OF "2.prems" True] None merge_reminder_None[OF True] by (auto split: if_splits)
      from "2.IH"(1)[OF True None this] True None show ?thesis by simp
    next
      case (Some m)
      then have m: "result \<noteq> []" "merge_reminder_into_tool_result (last result) f = Some m" by (auto split: if_splits)
      note M = merge_reminder_SomeD[OF m(2)]
      have p: "pending = []" using settled_last_pending[OF "2.prems" m(1)] M by blast
      obtain xs x where r: "result = xs @ [x]" using m(1) by (cases result rule: rev_cases) auto
      have "smoosh_inv (butlast result @ [m]) pending"
        using "2.prems" M r p by (auto simp: smoosh_inv_def successively_append_iff settled_def)
      from "2.IH"(2)[OF True Some this] True Some show ?thesis by simp
    qed
  next
    case False
    show ?thesis
    proof (cases "pending \<noteq> [] \<and> f_kind f = TOOL_RESULT")
      case fuse: True
      have "smoosh_inv (result @ [foldl fuse_reminder f pending]) []"
        using "2.prems" fuse_not_reminder[OF False, of pending]
        by (auto simp: smoosh_inv_def successively_append_iff settled_def)
      from "2.IH"(3)[OF False fuse this] False fuse show ?thesis by simp
    next
      case nofuse: False
      have "smoosh_inv (result @ pending @ [f]) []"
      proof -
        have "successively settled ((result @ pending) @ [f])"
          using "2.prems" False nofuse
          by (cases "pending = []") (auto simp: smoosh_inv_def successively_append_iff settled_def)
        then show ?thesis using False by (simp add: smoosh_inv_def)
      qed
      from "2.IH"(4)[OF False nofuse this] show ?thesis
        using False nofuse by (simp only: smoosh_loop.simps if_False)
    qed
  qed
qed (simp add: smoosh_inv_def)

lemma smoosh_loop_fix:
  "smoosh_inv result pending \<Longrightarrow> successively settled (result @ pending @ fs) \<Longrightarrow>
    smoosh_loop result pending fs = result @ pending @ fs"
proof (induction fs arbitrary: result pending)
  case (Cons f fs)
  have tail: "successively settled (result @ (pending @ [f]) @ fs)" "successively settled ((result @ pending @ [f]) @ [] @ fs)"
    using Cons.prems(2) by simp_all
  show ?case
  proof (cases "is_reminder_frame f")
    case True
    have nt: "result \<noteq> [] \<longrightarrow> \<not> takes_reminder (last result)"
    proof (cases "pending = []")
      case p: True
      have "settled (last result) f" if "result \<noteq> []"
        using Cons.prems(2) p that by (auto simp: successively_append_iff)
      then show ?thesis using True by (auto simp: settled_def)
    next
      case False
      then show ?thesis using settled_last_pending[OF Cons.prems(1)] by blast
    qed
    then have "(if result \<noteq> [] then merge_reminder_into_tool_result (last result) f else None) = None"
      using merge_reminder_None[OF True] by simp
    then have "smoosh_loop result pending (f # fs) = smoosh_loop result (pending @ [f]) fs"
      using True by simp
    with Cons.IH[OF smoosh_inv_hold[OF Cons.prems(1) True nt] tail(1)] show ?thesis by simp
  next
    case False
    have nofuse: "\<not> (pending \<noteq> [] \<and> f_kind f = TOOL_RESULT)"
    proof
      assume a: "pending \<noteq> [] \<and> f_kind f = TOOL_RESULT"
      then have "settled (last pending) f" using Cons.prems(2) by (auto simp: successively_append_iff)
      moreover have "is_reminder_frame (last pending)" using Cons.prems(1) a by (simp add: smoosh_inv_def)
      ultimately show False using a False by (simp add: settled_def)
    qed
    have step: "smoosh_loop result pending (f # fs) = smoosh_loop (result @ pending @ [f]) [] fs"
      using False nofuse by (simp only: smoosh_loop.simps if_False)
    have "smoosh_inv (result @ pending @ [f]) []"
      using tail(2) False unfolding smoosh_inv_def append_Nil successively_append_iff[of _ "result @ pending @ [f]"]
      by simp
    from Cons.IH[OF this tail(2)] step show ?thesis by simp
  qed
qed simp

text \<open>Smooshing reminders twice is smooshing them once, as the comment on it claims.\<close>

lemma smoosh_idem:
  "smoosh_system_reminder_siblings (smoosh_system_reminder_siblings fs) = smoosh_system_reminder_siblings fs"
proof -
  have inv: "smoosh_inv [] []" by (simp add: smoosh_inv_def)
  have loop: "smoosh_system_reminder_siblings xs = smoosh_loop [] [] xs" for xs
    by (simp add: smoosh_system_reminder_siblings_def)
  show ?thesis
    unfolding loop using smoosh_loop_fix[OF inv, of "smoosh_loop [] [] fs"] smoosh_loop_settled[OF inv, of fs] by simp
qed

section \<open>The boundary split\<close>

lemma starts_with_before: "c \<notin> set p \<Longrightarrow> starts_with p (u @ c # v) = starts_with p u"
  by (induction p u rule: starts_with.induct) auto

lemma str_contains_split:
  "c \<notin> set p \<Longrightarrow> str_contains p (u @ c # v) \<longleftrightarrow> str_contains p u \<or> str_contains p v"
proof (induction u)
  case Nil
  then show ?case by (cases p) auto
next
  case (Cons x u)
  have "starts_with p (x # u @ c # v) = starts_with p (x # u)"
    using starts_with_before[OF Cons.prems, of "x # u" v] by simp
  with Cons show ?case by simp
qed

lemma partition_at_first:
  assumes "\<not> str_contains sep a" "sep \<noteq> []" "c \<notin> set sep"
  shows "partition_at sep (a @ c # sep @ b) = (a @ [c], b)"
proof -
  obtain s ss where s: "sep = s # ss" using assms(2) by (cases sep) auto
  have "starts_with sep (sep @ b)" by (auto simp: starts_with_iff)
  then have here: "partition_at sep (sep @ b) = ([], b)" unfolding s by (simp del: starts_with.simps)
  show ?thesis
    using assms(1)
  proof (induction a)
    case Nil
    have "\<not> starts_with sep (c # sep @ b)" using assms(3) unfolding s by auto
    then show ?case using here by simp
  next
    case (Cons x a)
    have "\<not> starts_with sep (x # a @ c # sep @ b)"
      using starts_with_before[OF assms(3), of "x # a"] Cons.prems by simp
    then show ?case using Cons by simp
  qed
qed

text \<open>The boundary split gives back the two halves of a prompt that was joined at the marker on
  a line of its own: the static half must not contain the marker, nor end in a newline, and the
  dynamic half must not start with one.\<close>

lemma boundary_split_roundtrip:
  assumes "\<not> str_contains SYSTEM_PROMPT_DYNAMIC_BOUNDARY static"
    and "rstrip_newlines static = static" "lstrip_newlines dynamic = dynamic"
  shows "split_at_dynamic_boundary (static @ newline @ SYSTEM_PROMPT_DYNAMIC_BOUNDARY @ newline @ dynamic)
    = (static, dynamic, True)"
proof -
  let ?s = SYSTEM_PROMPT_DYNAMIC_BOUNDARY
  let ?p = "static @ CHR 0x0A # ?s @ CHR 0x0A # dynamic"
  have ne: "?s \<noteq> []" "CHR 0x0A \<notin> set ?s" by (simp_all add: SYSTEM_PROMPT_DYNAMIC_BOUNDARY_def)
  have e: "static @ newline @ ?s @ newline @ dynamic = ?p" by (simp add: newline_def)
  have "?p = (static @ [CHR 0x0A]) @ ?s @ CHR 0x0A # dynamic" by simp
  then have c: "str_contains ?s ?p" unfolding str_contains_iff by blast
  have n: "rstrip_newlines (static @ [CHR 0x0A]) = static" "lstrip_newlines (CHR 0x0A # dynamic) = dynamic"
    using assms(2,3) by (simp_all add: rstrip_newlines_def lstrip_newlines_def)
  show ?thesis
    unfolding e split_at_dynamic_boundary_def
    using c partition_at_first[OF assms(1) ne, of "CHR 0x0A # dynamic"] n by simp
qed

end
