(* ===== verification/Rendering_Examples.thy ===== *)
theory Rendering_Examples
  imports Rendering_Properties
begin

text \<open>
  The theorems of \<open>Rendering_Properties\<close> at concrete bundles, and two inputs on which the
  rendering does not do what it is for.
\<close>

definition bundle_of :: "frame list \<Rightarrow> prompt_bundle" where
  "bundle_of fs = \<lparr>pb_system_static = [], pb_system_dynamic = [], pb_meta_user = [], pb_history = [],
     pb_current_user = None, pb_cache_boundary = False, pb_frames = fs,
     pb_provider_normalized = False, pb_frames_explicit = True\<rparr>"

lemma bundle_of_made: "fs \<noteq> [] \<Longrightarrow> make_bundle [] [] [] [] None False (Some fs) False = Inr (bundle_of fs)"
  by (simp add: make_bundle_def bundle_post_init_def bundle_of_def legacy_message_frames_def)



lemma render_openai_errors_witness:
  "SameRole ''user'' 4 5 = BadStartRole \<or> (\<exists>marker. SameRole ''user'' 4 5 = ForbiddenProse marker)
   \<or> (\<exists>i j. SameRole ''user'' 4 5 = SameRole ''user'' i j)"
proof (rule render_openai_errors)
  show "render_for_openai_responses inert_env (bundle_of interrupted_turn)
      = Inl (RenderChain (SameRole ''user'' 4 5))" by code_simp
  show "\<not> pb_provider_normalized (bundle_of interrupted_turn)" by code_simp
  show "\<forall>f \<in> set (to_messages (bundle_of interrupted_turn)). role_shaped f" by code_simp
qed

lemma boundary_split_roundtrip_witness:
  "split_at_dynamic_boundary (''doctrine'' @ newline @ SYSTEM_PROMPT_DYNAMIC_BOUNDARY @ newline @ ''state'')
    = (''doctrine'', ''state'', True)"
proof (rule boundary_split_roundtrip)
  show "\<not> str_contains SYSTEM_PROMPT_DYNAMIC_BOUNDARY ''doctrine''" by code_simp
  show "rstrip_newlines ''doctrine'' = ''doctrine''" by code_simp
  show "lstrip_newlines ''state'' = ''state''" by code_simp
qed

section \<open>Where the code falls short\<close>

text \<open>A chain the program repaired cannot be rendered for OpenAI Responses.  A tool result
  followed by the user's next message is two neighbouring user entries there, and the validator
  allows no such pair; for Anthropic the same bundle renders, since the two are merged.\<close>

lemma openai_rejects_repaired_turn:
  "ensure_tool_result_pairing inert_env interrupted_turn = Inr repaired_turn
   \<and> \<not> isl (render_for_anthropic inert_env (bundle_of interrupted_turn))
   \<and> render_for_openai_responses inert_env (bundle_of interrupted_turn) = Inl (RenderChain (SameRole ''user'' 4 5))"
  by code_simp

definition ex_reminder :: frame where
  "ex_reminder = new_frame SYSTEM_REMINDER META_USER [SystemReminderBlock ''note'' None]"

definition ex_parallel_results :: frame where
  "ex_parallel_results = new_frame TOOL_RESULT TOOL
     [ToolResultBlock ''a'' ''read'' ''ok'' False, ToolResultBlock ''b'' ''read'' ''ok'' False]"

text \<open>Smooshing loses a reminder.  One held back for the tool result after it is folded into it;
  where that frame holds the results of parallel calls the fold does nothing, and the reminder is
  dropped instead of being emitted on its own.\<close>

lemma smoosh_loses_reminder:
  "smoosh_system_reminder_siblings [ex_reminder, ex_parallel_results] = [ex_parallel_results]"
  by code_simp

end
