(* ===== verification/Glob.thy ===== *)
theory Glob
  imports Viola_Prelude
begin

text \<open>
  \<open>fnmatch.fnmatchcase\<close> of the Python standard library, which the permission rules use: \<open>*\<close> any
  text, \<open>?\<close> any character, \<open>[seq]\<close> and \<open>[!seq]\<close> with ranges, a bracket that is not closed
  itself.  The whole string must match.
\<close>

datatype glob_item = GStar | GAny | GChar char | GClass bool "(char \<times> char) list"

text \<open>What follows an opening bracket: negated or not, the text of the class, the rest of the pattern.
  A closing bracket in first place belongs to the class.\<close>

definition class_body :: "string \<Rightarrow> (string \<times> string) option" where
  "class_body s = (let
     (first, s1) = (case s of CHR '']'' # t \<Rightarrow> ([CHR '']''], t) | _ \<Rightarrow> ([], s));
     body = takeWhile (\<lambda>c. c \<noteq> CHR '']'') s1; rest = dropWhile (\<lambda>c. c \<noteq> CHR '']'') s1
     in if rest = [] then None else Some (first @ body, tl rest))"

definition glob_class :: "string \<Rightarrow> (bool \<times> string \<times> string) option" where
  "glob_class s = (case s of
      CHR ''!'' # t \<Rightarrow> map_option (\<lambda>(b, r). (True, b, r)) (class_body t)
    | _ \<Rightarrow> map_option (\<lambda>(b, r). (False, b, r)) (class_body s))"

fun class_ranges :: "string \<Rightarrow> (char \<times> char) list" where
  "class_ranges [] = []"
| "class_ranges (a # b # c # cs) = (if b = CHR ''-'' then (a, c) # class_ranges cs
     else (a, a) # class_ranges (b # c # cs))"
| "class_ranges (a # cs) = (a, a) # class_ranges cs"

lemma class_body_rest: "class_body s = Some (b, r) \<Longrightarrow> length r < length s"
proof -
  have d: "length (dropWhile (\<lambda>c. c \<noteq> CHR '']'') t) \<le> length t" for t by (rule length_dropWhile_le)
  have "dropWhile (\<lambda>c. c \<noteq> CHR '']'') t \<noteq> [] \<Longrightarrow> length (tl (dropWhile (\<lambda>c. c \<noteq> CHR '']'') t)) < length t" for t
    using d[of t] by (cases "dropWhile (\<lambda>c. c \<noteq> CHR '']'') t") auto
  moreover assume "class_body s = Some (b, r)"
  ultimately show ?thesis
    unfolding class_body_def Let_def split_beta
    by (fastforce split: if_splits list.splits char.splits bool.splits intro: less_SucI)
qed

lemma glob_class_rest: "glob_class s = Some (n, b, r) \<Longrightarrow> length r < length s"
  unfolding glob_class_def by (auto split: list.splits char.splits bool.splits dest!: class_body_rest)

function parse_glob :: "string \<Rightarrow> glob_item list" where
  "parse_glob [] = []"
| "parse_glob (c # cs) =
    (if c = CHR ''*'' then GStar # parse_glob cs
     else if c = CHR ''?'' then GAny # parse_glob cs
     else if c = CHR ''['' then (case glob_class cs of
         None \<Rightarrow> GChar c # parse_glob cs
       | Some (negated, body, rest) \<Rightarrow> GClass negated (class_ranges body) # parse_glob rest)
     else GChar c # parse_glob cs)"
  by pat_completeness auto

termination parse_glob
  by (relation "measure length") (auto dest: glob_class_rest)

definition in_class :: "bool \<Rightarrow> (char \<times> char) list \<Rightarrow> char \<Rightarrow> bool" where
  "in_class negated ranges c = ((\<exists>(a, b) \<in> set ranges. a \<le> c \<and> c \<le> b) \<noteq> negated)"

fun glob_match :: "glob_item list \<Rightarrow> string \<Rightarrow> bool" where
  "glob_match [] s = (s = [])"
| "glob_match (GStar # gs) [] = glob_match gs []"
| "glob_match (GStar # gs) (c # s) = (glob_match gs (c # s) \<or> glob_match (GStar # gs) s)"
| "glob_match (GAny # gs) [] = False"
| "glob_match (GAny # gs) (c # s) = glob_match gs s"
| "glob_match (GChar d # gs) [] = False"
| "glob_match (GChar d # gs) (c # s) = (c = d \<and> glob_match gs s)"
| "glob_match (GClass n rs # gs) [] = False"
| "glob_match (GClass n rs # gs) (c # s) = (in_class n rs c \<and> glob_match gs s)"

definition fnmatchcase :: "string \<Rightarrow> string \<Rightarrow> bool" where
  "fnmatchcase s pattern = glob_match (parse_glob pattern) s"

section \<open>Literal text and a star\<close>

definition glob_special :: "char \<Rightarrow> bool" where
  "glob_special c = (c \<in> {CHR ''*'', CHR ''?'', CHR ''[''})"

lemma parse_glob_literal:
  "\<forall>c \<in> set p. \<not> glob_special c \<Longrightarrow> parse_glob (p @ q) = map GChar p @ parse_glob q"
  by (induction p) (auto simp: glob_special_def)

lemma glob_match_literal: "glob_match (map GChar p @ gs) s \<longleftrightarrow> (\<exists>t. s = p @ t \<and> glob_match gs t)"
proof (induction p arbitrary: s)
  case (Cons c p)
  then show ?case by (cases s) auto
qed simp

lemma glob_match_star: "glob_match [GStar] s"
  by (induction s) auto

text \<open>A star matches any text before what follows it.\<close>

lemma glob_match_star_iff: "glob_match (GStar # gs) s \<longleftrightarrow> (\<exists>a b. s = a @ b \<and> glob_match gs b)"
proof (induction s)
  case (Cons c s)
  show ?case
  proof
    assume "glob_match (GStar # gs) (c # s)"
    then consider "glob_match gs (c # s)" | a b where "s = a @ b" "glob_match gs b"
      using Cons by auto
    then show "\<exists>a b. c # s = a @ b \<and> glob_match gs b"
    proof cases
      case 1
      then show ?thesis by (metis append_Nil)
    next
      case (2 a b)
      then show ?thesis by (metis append_Cons)
    qed
  next
    assume "\<exists>a b. c # s = a @ b \<and> glob_match gs b"
    then obtain a b where ab: "c # s = a @ b" "glob_match gs b" by blast
    with Cons show "glob_match (GStar # gs) (c # s)" by (cases a) auto
  qed
qed simp

lemma fnmatch_literal: "\<forall>c \<in> set p. \<not> glob_special c \<Longrightarrow> fnmatchcase s p \<longleftrightarrow> s = p"
  using parse_glob_literal[of p "[]"] glob_match_literal[of p "[]" s] by (simp add: fnmatchcase_def)

lemma fnmatch_prefix: "\<forall>c \<in> set p. \<not> glob_special c \<Longrightarrow> fnmatchcase s (p @ ''*'') \<longleftrightarrow> (\<exists>t. s = p @ t)"
  by (simp add: fnmatchcase_def parse_glob_literal glob_match_literal glob_match_star)

lemma fnmatch_suffix: "\<forall>c \<in> set p. \<not> glob_special c \<Longrightarrow> fnmatchcase s (''*'' @ p) \<longleftrightarrow> (\<exists>t. s = t @ p)"
  using parse_glob_literal[of p "[]"] glob_match_literal[of p "[]"]
  by (simp add: fnmatchcase_def glob_match_star_iff)

end
