(* ===== verification/Permission_Policy.thy ===== *)
theory Permission_Policy
  imports Glob Context_Frames
begin

text \<open>
  Permission decisions for tool calls (\<open>intent/permissions/policy.py\<close>): rules, hook results, the
  order of authority in \<open>PermissionPolicy.check\<close>, the denial counters and the permission frame.
  The classifier is a function of the policy record; its \<open>confidence\<close>, which the policy only
  passes on, is any value.  \<open>check\<close> and \<open>resolve_user_response\<close> return the policy with its
  counters updated.
\<close>

section \<open>Data\<close>

datatype behavior = Allow | Ask | Deny

fun behavior_value :: "behavior \<Rightarrow> string" where
  "behavior_value Allow = ''allow''"
| "behavior_value Ask = ''ask''"
| "behavior_value Deny = ''deny''"

text \<open>Behaviours in the order of strictness.\<close>

instantiation behavior :: linorder
begin

fun behavior_rank :: "behavior \<Rightarrow> nat" where
  "behavior_rank Allow = 0"
| "behavior_rank Ask = 1"
| "behavior_rank Deny = 2"

definition less_eq_behavior :: "behavior \<Rightarrow> behavior \<Rightarrow> bool" where
  "less_eq_behavior a b = (behavior_rank a \<le> behavior_rank b)"

definition less_behavior :: "behavior \<Rightarrow> behavior \<Rightarrow> bool" where
  "less_behavior a b = (behavior_rank a < behavior_rank b)"

instance
proof
  fix a b :: behavior
  show "a \<le> b \<Longrightarrow> b \<le> a \<Longrightarrow> a = b"
    by (cases a; cases b) (simp_all add: less_eq_behavior_def)
qed (auto simp: less_eq_behavior_def less_behavior_def)

end

datatype risk_level = SAFE | CONFIRM | DANGEROUS

fun risk_level_value :: "risk_level \<Rightarrow> string" where
  "risk_level_value SAFE = ''safe''"
| "risk_level_value CONFIRM = ''confirm''"
| "risk_level_value DANGEROUS = ''dangerous''"

text \<open>\<open>RiskLevel | str | None\<close>\<close>

datatype risk = RiskLevel risk_level | RiskText string | NoRisk

fun risk_value :: "risk \<Rightarrow> string option" where
  "risk_value (RiskLevel l) = Some (risk_level_value l)"
| "risk_value (RiskText s) = (if s \<noteq> [] then Some s else None)"
| "risk_value NoRisk = None"

definition VALID_MODES :: "string list" where
  "VALID_MODES = [''default'', ''acceptEdits'', ''bypassPermissions'', ''dontAsk'', ''plan'', ''auto'', ''bubble'']"

definition normalize_mode :: "string \<Rightarrow> string" where
  "normalize_mode mode = (if mode \<in> set VALID_MODES then mode else ''default'')"

definition DENIAL_MAX_CONSECUTIVE :: int where
  "DENIAL_MAX_CONSECUTIVE = 3"

definition DENIAL_MAX_TOTAL :: int where
  "DENIAL_MAX_TOTAL = 20"

record denial_counters =
  dc_consecutive :: int
  dc_total :: int

definition no_denials :: denial_counters where
  "no_denials = \<lparr>dc_consecutive = 0, dc_total = 0\<rparr>"

definition counters_denial :: "denial_counters \<Rightarrow> denial_counters" where
  "counters_denial k = \<lparr>dc_consecutive = dc_consecutive k + 1, dc_total = dc_total k + 1\<rparr>"

definition counters_success :: "denial_counters \<Rightarrow> denial_counters" where
  "counters_success k = (if dc_consecutive k = 0 then k
     else \<lparr>dc_consecutive = 0, dc_total = dc_total k\<rparr>)"

definition should_fallback_to_prompting :: "denial_counters \<Rightarrow> bool" where
  "should_fallback_to_prompting k =
     (dc_consecutive k \<ge> DENIAL_MAX_CONSECUTIVE \<or> dc_total k \<ge> DENIAL_MAX_TOTAL)"

definition counters_dict :: "denial_counters \<Rightarrow> pydict" where
  "counters_dict k = [(''consecutive_denials'', PyInt (dc_consecutive k)), (''total_denials'', PyInt (dc_total k))]"

record classifier_result =
  cl_behavior :: behavior
  cl_classifier :: string
  cl_reason :: "string option"
  cl_updated_input :: "pydict option"
  cl_confidence :: "pyval option"
  cl_metadata :: pydict

definition classifier_dict :: "classifier_result \<Rightarrow> pydict" where
  "classifier_dict r = [(''behavior'', PyStr (behavior_value (cl_behavior r))), (''classifier'', PyStr (cl_classifier r))]
     @ (if opt_truthy (cl_reason r) then [(''reason'', opt_val (cl_reason r))] else [])
     @ (case cl_confidence r of None \<Rightarrow> [] | Some c \<Rightarrow> [(''confidence'', c)])
     @ (if cl_metadata r \<noteq> [] then [(''metadata'', PyDict (cl_metadata r))] else [])
     @ (if cl_updated_input r \<noteq> None then [(''has_updated_input'', PyBool True)] else [])"

text \<open>\<open>PermissionClassifierResult | dict | None\<close>\<close>

datatype classifier_note = ClassifierResult classifier_result | ClassifierDict pydict | NoClassifier

fun classifier_payload :: "classifier_note \<Rightarrow> pyval" where
  "classifier_payload (ClassifierResult r) = PyDict (classifier_dict r)"
| "classifier_payload (ClassifierDict d) = PyDict d"
| "classifier_payload NoClassifier = PyNone"

record hook_provenance =
  hk_event :: string
  hk_source :: string
  hk_decision :: "behavior option"
  hk_reason :: "string option"
  hk_updated_input :: "pydict option"

definition hook_dict :: "hook_provenance \<Rightarrow> pydict" where
  "hook_dict h = [(''event'', PyStr (hk_event h)), (''source'', PyStr (hk_source h))]
     @ (case hk_decision h of None \<Rightarrow> [] | Some b \<Rightarrow> [(''decision'', PyStr (behavior_value b))])
     @ (if opt_truthy (hk_reason h) then [(''reason'', opt_val (hk_reason h))] else [])
     @ (if hk_updated_input h \<noteq> None then [(''has_updated_input'', PyBool True)] else [])"

record permission_rule =
  pr_tool_name :: string
  pr_behavior :: behavior
  pr_source :: string
  pr_reason :: "string option"
  pr_mode :: "string option"
  pr_updated_input :: "pydict option"

record permission_context =
  px_user_id :: string
  px_session_id :: string
  px_tool_name :: string
  px_tool_input :: pydict
  px_cwd :: "string option"
  px_channel :: "string option"
  px_agent_id :: "string option"
  px_mode :: "string option"
  px_risk :: risk
  px_rule_overrides :: "permission_rule list"
  px_hooks :: "hook_provenance list"

record permission_decision =
  pd_behavior :: behavior
  pd_source :: string
  pd_mode :: string
  pd_reason :: "string option"
  pd_updated_input :: "pydict option"
  pd_classifier :: classifier_note
  pd_risk :: risk
  pd_frame :: "frame option"
  pd_denial_counters :: "denial_counters option"
  pd_hooks :: "hook_provenance list"

definition decision_dict :: "permission_decision \<Rightarrow> pydict" where
  "decision_dict d = [(''behavior'', PyStr (behavior_value (pd_behavior d))), (''source'', PyStr (pd_source d)),
      (''mode'', PyStr (pd_mode d))]
     @ (if opt_truthy (pd_reason d) then [(''reason'', opt_val (pd_reason d))] else [])
     @ (case pd_updated_input d of None \<Rightarrow> [] | Some u \<Rightarrow> [(''updated_input'', PyDict u)])
     @ (case pd_classifier d of NoClassifier \<Rightarrow> [] | c \<Rightarrow> [(''classifier'', classifier_payload c)])
     @ (if pd_risk d \<noteq> NoRisk then [(''risk_level'', opt_val (risk_value (pd_risk d)))] else [])
     @ (case pd_denial_counters d of None \<Rightarrow> [] | Some k \<Rightarrow> [(''denial_counters'', PyDict (counters_dict k))])
     @ (if pd_hooks d \<noteq> [] then [(''hook_provenance'', PyList (map (PyDict \<circ> hook_dict) (pd_hooks d)))] else [])
     @ (if pd_frame d \<noteq> None then [(''has_frame'', PyBool True)] else [])"

section \<open>Rules\<close>

text \<open>\<open>text.find("(")\<close>, or the length where Python returns -1\<close>

definition find_paren :: "string \<Rightarrow> nat" where
  "find_paren s = length (takeWhile (\<lambda>c. c \<noteq> CHR ''('') s)"

definition parse_rule_tool :: "string \<Rightarrow> string \<times> string option" where
  "parse_rule_tool raw = (let text = py_strip raw in
     if text = [] then ([], None)
     else if ends_with '')'' text \<and> find_paren text < length text \<and> 0 < find_paren text
     then (let tool = py_strip (take (find_paren text) text);
               content = py_strip (butlast (drop (Suc (find_paren text)) text))
           in if tool \<noteq> [] then (tool, Some content) else (text, None))
     else (text, None))"

definition CONTENT_KEYS :: "string list" where
  "CONTENT_KEYS = [''command'', ''path'', ''file_path'', ''url'', ''query'', ''content'', ''text'', ''args'']"

fun first_text :: "pydict \<Rightarrow> string list \<Rightarrow> string option" where
  "first_text d [] = None"
| "first_text d (k # ks) = (case py_get k d of
      PyStr s \<Rightarrow> if s \<noteq> [] then Some s else first_text d ks
    | _ \<Rightarrow> first_text d ks)"

definition matches_tool_content :: "permission_context \<Rightarrow> string \<Rightarrow> bool" where
  "matches_tool_content c pattern = (case first_text (px_tool_input c) CONTENT_KEYS of
      None \<Rightarrow> False
    | Some candidate \<Rightarrow> if pattern = ''*'' then True else fnmatchcase candidate pattern)"

definition rule_matches :: "permission_rule \<Rightarrow> permission_context \<Rightarrow> string \<Rightarrow> bool" where
  "rule_matches r c mode = (let (tool, content) = parse_rule_tool (pr_tool_name r) in
     if pr_mode r \<noteq> None \<and> pr_mode r \<noteq> Some mode then False
     else if tool \<noteq> ''*'' \<and> tool \<noteq> px_tool_name c then False
     else (case content of None \<Rightarrow> True | Some pattern \<Rightarrow> matches_tool_content c pattern))"

section \<open>The policy\<close>

type_synonym denial_key = "string \<times> string \<times> string \<times> string"

record permission_policy =
  pp_mode :: string
  pp_rules :: "permission_rule list"
  pp_classifier :: "(permission_context \<Rightarrow> classifier_result option) option"
  pp_denials :: "denial_key \<Rightarrow> denial_counters option"

definition make_policy ::
    "string \<Rightarrow> permission_rule list \<Rightarrow> (permission_context \<Rightarrow> classifier_result option) option \<Rightarrow> permission_policy" where
  "make_policy mode rules classifier = \<lparr>pp_mode = normalize_mode mode, pp_rules = rules,
     pp_classifier = classifier, pp_denials = (\<lambda>_. None)\<rparr>"

definition denial_key :: "permission_context \<Rightarrow> denial_key" where
  "denial_key c = (px_user_id c, px_session_id c, opt_str (px_agent_id c), px_tool_name c)"

definition current_counters :: "permission_policy \<Rightarrow> permission_context \<Rightarrow> denial_counters" where
  "current_counters p c = (case pp_denials p (denial_key c) of None \<Rightarrow> no_denials | Some k \<Rightarrow> k)"

definition store_counters ::
    "permission_policy \<Rightarrow> permission_context \<Rightarrow> denial_counters \<Rightarrow> permission_policy" where
  "store_counters p c k = p\<lparr>pp_denials := (pp_denials p)(denial_key c := Some k)\<rparr>"

definition record_denial :: "permission_policy \<Rightarrow> permission_context \<Rightarrow> denial_counters \<times> permission_policy" where
  "record_denial p c = (let k = counters_denial (current_counters p c) in (k, store_counters p c k))"

definition record_success :: "permission_policy \<Rightarrow> permission_context \<Rightarrow> denial_counters \<times> permission_policy" where
  "record_success p c = (let k = counters_success (current_counters p c) in (k, store_counters p c k))"

definition matching_rule ::
    "permission_policy \<Rightarrow> permission_context \<Rightarrow> string \<Rightarrow> behavior \<Rightarrow> permission_rule option" where
  "matching_rule p c mode b =
     List.find (\<lambda>r. pr_behavior r = b \<and> rule_matches r c mode) (px_rule_overrides c @ pp_rules p)"

section \<open>Decisions\<close>

definition permission_frame ::
    "behavior \<Rightarrow> string \<Rightarrow> string \<Rightarrow> permission_context \<Rightarrow> string option \<Rightarrow> classifier_note \<Rightarrow>
     denial_counters option \<Rightarrow> pydict option \<Rightarrow> hook_provenance list \<Rightarrow> frame" where
  "permission_frame b source mode c reason note counters updated hooks = (let
     action = (if b = Deny then ''denied'' else ''requires approval'');
     reason_text = (if opt_truthy reason then opt_str reason else ''No reason supplied'');
     quote = [CHR 0x27];
     text = ''Permission '' @ action @ '' for tool '' @ quote @ px_tool_name c @ quote @ '' (mode='' @ mode
       @ '', source='' @ source @ ''): '' @ reason_text
     in (new_frame SYSTEM_REMINDER META_USER [SystemReminderBlock text (Some ''permission'')])
        \<lparr>f_is_meta := True, f_origin := Some ''permission'', f_permission_mode := Some mode,
         f_session_id := Some (px_session_id c),
         f_extra := [(''permission'', PyDict
           [(''behavior'', PyStr (behavior_value b)), (''source'', PyStr source), (''mode'', PyStr mode),
            (''tool_name'', PyStr (px_tool_name c)), (''reason'', opt_val reason),
            (''risk_level'', opt_val (risk_value (px_risk c))), (''classifier'', classifier_payload note),
            (''denial_counters'', case counters of None \<Rightarrow> PyNone | Some k \<Rightarrow> PyDict (counters_dict k)),
            (''has_updated_input'', PyBool (updated \<noteq> None)),
            (''hook_provenance'', PyList (map (PyDict \<circ> hook_dict) hooks))])]\<rparr>)"

definition make_decision ::
    "behavior \<Rightarrow> string \<Rightarrow> string \<Rightarrow> permission_context \<Rightarrow> string option \<Rightarrow> pydict option \<Rightarrow>
     classifier_note \<Rightarrow> denial_counters option \<Rightarrow> hook_provenance list \<Rightarrow> permission_decision" where
  "make_decision b source mode c reason updated note counters hooks =
     \<lparr>pd_behavior = b, pd_source = source, pd_mode = mode, pd_reason = reason, pd_updated_input = updated,
      pd_classifier = note, pd_risk = px_risk c,
      pd_frame = (if b = Ask \<or> b = Deny
        then Some (permission_frame b source mode c reason note counters updated hooks) else None),
      pd_denial_counters = counters, pd_hooks = hooks\<rparr>"

definition denial_limit_reason :: "denial_counters \<Rightarrow> string option \<Rightarrow> string" where
  "denial_limit_reason k reason = (let warning =
       (if dc_total k \<ge> DENIAL_MAX_TOTAL then int_str (dc_total k) @ '' actions were blocked this session''
        else int_str (dc_consecutive k) @ '' consecutive actions were blocked'')
     in if opt_truthy reason then warning @ ''. Latest blocked action: '' @ opt_str reason else warning)"

text \<open>\<open>a or b\<close> on optional dicts\<close>

fun dict_or :: "pydict option \<Rightarrow> pydict option \<Rightarrow> pydict option" where
  "dict_or (Some (x # xs)) b = Some (x # xs)"
| "dict_or _ b = b"

text \<open>The last updated input and the last decision that a hook gave.\<close>

fun hook_inputs :: "hook_provenance list \<Rightarrow> pydict option \<Rightarrow> pydict option" where
  "hook_inputs [] u = u"
| "hook_inputs (h # hs) u = hook_inputs hs (if hk_updated_input h \<noteq> None then hk_updated_input h else u)"

fun hook_decision :: "hook_provenance list \<Rightarrow> hook_provenance option \<Rightarrow> hook_provenance option" where
  "hook_decision [] d = d"
| "hook_decision (h # hs) d = hook_decision hs (if hk_decision h \<noteq> None then Some h else d)"

definition classifier_decision ::
    "permission_policy \<Rightarrow> permission_context \<Rightarrow> string \<Rightarrow> classifier_result \<Rightarrow> pydict option \<Rightarrow>
     hook_provenance list \<Rightarrow> permission_decision \<times> permission_policy" where
  "classifier_decision p c mode r updated hooks = (case cl_behavior r of
      Allow \<Rightarrow> (let (k, p') = record_success p c in
        (make_decision Allow ''classifier'' mode c (cl_reason r) updated (ClassifierResult r) (Some k) hooks, p'))
    | Ask \<Rightarrow> (make_decision Ask ''classifier'' mode c (cl_reason r) updated (ClassifierResult r) None hooks, p)
    | Deny \<Rightarrow> (let (k, p') = record_denial p c in
        if should_fallback_to_prompting k
        then (make_decision Ask ''classifier'' mode c (Some (denial_limit_reason k (cl_reason r))) updated
                (ClassifierResult r) (Some k) hooks, p')
        else (make_decision Deny ''classifier'' mode c
                (opt_or (cl_reason r) (Some ''Classifier denied this tool call'')) updated
                (ClassifierResult r) (Some k) hooks, p')))"

text \<open>The end of \<open>check\<close>, after rules, hooks and classifier: the risk and the mode decide.\<close>

definition fallback_decision ::
    "permission_policy \<Rightarrow> permission_context \<Rightarrow> string \<Rightarrow> pydict option \<Rightarrow> permission_decision \<times> permission_policy" where
  "fallback_decision p c mode updated = (let hooks = px_hooks c; risk = risk_value (px_risk c) in
     if risk = Some ''safe'' \<or> risk = Some ''confirm''
     then (make_decision Allow ''risk_metadata'' mode c
             (Some (opt_str risk @ '' risk is allowed by the current permission mode''))
             updated NoClassifier None hooks, snd (record_success p c))
     else if mode = ''dontAsk''
     then (let (k, p') = record_denial p c in
       (make_decision Deny ''mode'' mode c
          (Some ''dontAsk mode denies actions that would require a permission prompt'')
          updated NoClassifier (Some k) hooks, p'))
     else if mode = ''plan''
     then (let (k, p') = record_denial p c in
       (make_decision Deny ''mode'' mode c
          (Some ''plan mode denies tool execution until the plan is approved'')
          updated NoClassifier (Some k) hooks, p'))
     else if mode = ''bubble''
     then (make_decision Ask ''mode'' mode c
             (Some ''bubble mode requires the parent permission surface to decide'')
             updated NoClassifier None hooks, p)
     else (make_decision Ask ''risk_metadata'' mode c (Some ''dangerous risk requires explicit user approval'')
             updated NoClassifier None hooks, p))"

text \<open>What follows the allow rules: the bypass mode, the classifier of the auto mode, the fallback.\<close>

definition mode_decision ::
    "permission_policy \<Rightarrow> permission_context \<Rightarrow> string \<Rightarrow> pydict option \<Rightarrow> permission_decision \<times> permission_policy" where
  "mode_decision p c mode updated =
    (if mode = ''bypassPermissions''
     then (make_decision Allow ''mode'' mode c
             (Some ''bypassPermissions mode allows this tool after deny/ask rules'')
             updated NoClassifier None (px_hooks c), snd (record_success p c))
     else (case (if mode = ''auto'' then (case pp_classifier p of None \<Rightarrow> None | Some f \<Rightarrow> f c) else None) of
         Some r \<Rightarrow> classifier_decision p c mode r (dict_or (cl_updated_input r) updated) (px_hooks c)
       | None \<Rightarrow> fallback_decision p c mode updated))"

definition rule_decision :: "permission_context \<Rightarrow> string \<Rightarrow> pydict option \<Rightarrow> permission_rule \<Rightarrow> permission_decision" where
  "rule_decision c mode updated r = make_decision (pr_behavior r) (pr_source r) mode c (pr_reason r)
     (dict_or (pr_updated_input r) updated) NoClassifier None (px_hooks c)"

definition by_hook ::
    "permission_context \<Rightarrow> string \<Rightarrow> pydict option \<Rightarrow> behavior \<Rightarrow> hook_provenance \<Rightarrow> string \<Rightarrow> permission_decision" where
  "by_hook c mode updated b h dflt = make_decision b (hk_source h) mode c
     (opt_or (hk_reason h) (Some dflt)) updated NoClassifier None (px_hooks c)"

definition context_mode :: "permission_policy \<Rightarrow> permission_context \<Rightarrow> string" where
  "context_mode p c = normalize_mode (if opt_truthy (px_mode c) then opt_str (px_mode c) else pp_mode p)"

text \<open>\<open>_matching_rule(context, mode, b)\<close> only returns rules of behaviour \<open>b\<close>, so the behaviour of the
  decision is that of the rule.\<close>

definition check :: "permission_policy \<Rightarrow> permission_context \<Rightarrow> permission_decision \<times> permission_policy" where
  "check p c = (let
     mode = context_mode p c;
     updated = hook_inputs (px_hooks c) None; hook = hook_decision (px_hooks c) None;
     verdict = (case hook of None \<Rightarrow> None | Some h \<Rightarrow> hk_decision h)
     in case matching_rule p c mode Deny of
       Some r \<Rightarrow> (rule_decision c mode updated r, p)
     | None \<Rightarrow> (if verdict = Some Deny
         then (by_hook c mode updated Deny (the hook) ''Hook denied this tool call'', p)
       else (case matching_rule p c mode Ask of
         Some r \<Rightarrow> (rule_decision c mode updated r, p)
       | None \<Rightarrow> (if verdict = Some Ask
           then (by_hook c mode updated Ask (the hook) ''Hook requested approval'', p)
         else if verdict = Some Allow
           then (by_hook c mode updated Allow (the hook) ''Hook allowed this tool call'', snd (record_success p c))
         else (case matching_rule p c mode Allow of
             Some r \<Rightarrow> (rule_decision c mode updated r, p)
           | None \<Rightarrow> mode_decision p c mode updated)))))"

definition resolve_user_response ::
    "permission_policy \<Rightarrow> permission_context \<Rightarrow> permission_decision \<Rightarrow> bool \<Rightarrow>
     permission_decision \<times> permission_policy" where
  "resolve_user_response p c pending approved =
    (if approved
     then (let (k, p') = record_success p c in
       (make_decision Allow ''user'' (pd_mode pending) c (Some ''User approved the permission prompt'')
          (pd_updated_input pending) (pd_classifier pending) (Some k) (pd_hooks pending), p'))
     else (let (k, p') = record_denial p c in
       (make_decision Deny ''user'' (pd_mode pending) c (Some ''User denied or did not answer the permission prompt'')
          (pd_updated_input pending) (pd_classifier pending) (Some k) (pd_hooks pending), p')))"

end
