(* ===== verification/Compaction_Properties.thy ===== *)
theory Compaction_Properties
  imports Typed_Compaction
begin

text \<open>
  What compaction keeps.  The expansion loop computes the least set that is closed under sharing a
  tool id, so a call and its result are kept or dropped together and a well-paired chain stays
  well paired; protected frames are kept; kept and dropped frames together are the working frames.
\<close>

section \<open>The closure over tool pairs\<close>

declare expand_loop.simps [simp del]

definition closed_under :: "nat list list \<Rightarrow> nat set \<Rightarrow> bool" where
  "closed_under gs I = (\<forall>g \<in> set gs. set g \<inter> I = {} \<or> set g \<subseteq> I)"

lemma expand_round_closed:
  "fst (expand_round gs I c) = I \<Longrightarrow> closed_under gs I"
proof (induction gs I c rule: expand_round.induct)
  case (2 g gs I c)
  show ?case
  proof (cases "set g \<inter> I \<noteq> {} \<and> \<not> set g \<subseteq> I")
    case True
    have "I \<union> set g \<subseteq> fst (expand_round gs (I \<union> set g) True)" by (rule expand_round_mono)
    with True "2.prems" show ?thesis by auto
  next
    case False
    with "2.IH"(2)[OF False] "2.prems" show ?thesis by (auto simp: closed_under_def)
  qed
qed (simp add: closed_under_def)

lemma expand_round_least: "I \<subseteq> J \<Longrightarrow> closed_under gs J \<Longrightarrow> fst (expand_round gs I c) \<subseteq> J"
proof (induction gs I c rule: expand_round.induct)
  case (2 g gs I c)
  have gs: "closed_under gs J" and g: "set g \<inter> J = {} \<or> set g \<subseteq> J"
    using "2.prems"(2) by (auto simp: closed_under_def)
  show ?case
  proof (cases "set g \<inter> I \<noteq> {} \<and> \<not> set g \<subseteq> I")
    case True
    with g "2.prems"(1) have "I \<union> set g \<subseteq> J" by blast
    with "2.IH"(1)[OF True _ gs] True show ?thesis by auto
  next
    case False
    with "2.IH"(2)[OF False "2.prems"(1) gs] show ?thesis by auto
  qed
qed simp

lemma expand_loop_props:
  "I \<subseteq> expand_loop gs I \<and> closed_under gs (expand_loop gs I)
    \<and> (\<forall>J. I \<subseteq> J \<longrightarrow> closed_under gs J \<longrightarrow> expand_loop gs I \<subseteq> J)"
proof (induction gs I rule: expand_loop.induct)
  case (1 gs I)
  obtain I' c where r: "expand_round gs I False = (I', c)" by fastforce
  have I': "I' = fst (expand_round gs I False)" by (simp add: r)
  have sub: "I \<subseteq> I'" unfolding I' by (rule expand_round_mono)
  have least: "I \<subseteq> J \<Longrightarrow> closed_under gs J \<Longrightarrow> I' \<subseteq> J" for J
    unfolding I' by (rule expand_round_least)
  show ?case
  proof (cases c)
    case True
    have e: "expand_loop gs I = expand_loop gs I'"
      by (subst expand_loop.simps) (simp add: r True)
    note IH = "1.IH"[OF r[symmetric] refl True]
    have "I \<subseteq> expand_loop gs I'" using IH sub by (meson order_trans)
    moreover have "expand_loop gs I' \<subseteq> J" if "I \<subseteq> J" "closed_under gs J" for J
      using IH least[OF that] that(2) by simp
    ultimately show ?thesis unfolding e using IH by simp
  next
    case False
    then have "I' = I" using expand_round_changed[of gs I False] by (simp add: r)
    moreover have "expand_loop gs I = I'"
      by (subst expand_loop.simps) (simp add: r False)
    moreover have "closed_under gs I" using expand_round_closed[of gs I False] calculation(1) by (simp add: r)
    ultimately show ?thesis using least by simp
  qed
qed

text \<open>Two frames are tied when they carry a common tool id.\<close>

definition tied :: "frame list \<Rightarrow> nat \<Rightarrow> nat \<Rightarrow> bool" where
  "tied fs i j = (i < length fs \<and> j < length fs
     \<and> set (compaction_tool_ids (fs ! i)) \<inter> set (compaction_tool_ids (fs ! j)) \<noteq> {})"

lemma tool_groups_set:
  "set ` set (tool_groups fs) = (\<lambda>t. {i. i < length fs \<and> t \<in> set (compaction_tool_ids (fs ! i))})
     ` \<Union> (set (map (set \<circ> compaction_tool_ids) fs))"
  unfolding tool_groups_def by (auto simp: image_image image_iff)

lemma closed_under_tied:
  "closed_under (tool_groups fs) I \<longleftrightarrow> (\<forall>i j. i \<in> I \<longrightarrow> tied fs i j \<longrightarrow> j \<in> I)"
proof -
  have "closed_under (tool_groups fs) I \<longleftrightarrow> (\<forall>G \<in> set ` set (tool_groups fs). G \<inter> I = {} \<or> G \<subseteq> I)"
    by (auto simp: closed_under_def)
  also have "\<dots> \<longleftrightarrow> (\<forall>i j. i \<in> I \<longrightarrow> tied fs i j \<longrightarrow> j \<in> I)"
    unfolding tool_groups_set tied_def by (fastforce simp: in_set_conv_nth)
  finally show ?thesis .
qed

text \<open>C12: The expansion over tool pairs computes the frames connected to a kept frame: an index is in
  the result exactly when a chain of frames, each sharing a tool id with the next, leads to it from
  the selection.  So the order in which Python iterates its sets of ids does not matter.\<close>

theorem expand_tool_pairs_exact:
  "j \<in> expand_tool_pairs fs keep \<longleftrightarrow> (\<exists>i \<in> keep. (tied fs)\<^sup>*\<^sup>* i j)"
proof
  let ?E = "expand_tool_pairs fs keep"
  note p = expand_loop_props[of keep "tool_groups fs", folded expand_tool_pairs_def, unfolded closed_under_tied]
  show "j \<in> ?E" if r: "\<exists>i \<in> keep. (tied fs)\<^sup>*\<^sup>* i j"
  proof -
    from r obtain i where i: "i \<in> keep" "(tied fs)\<^sup>*\<^sup>* i j" by blast
    from i(2) show ?thesis
      by (induction rule: rtranclp_induct) (use p i(1) in blast)+
  qed
  show "\<exists>i \<in> keep. (tied fs)\<^sup>*\<^sup>* i j" if "j \<in> ?E"
  proof -
    let ?J = "{j. \<exists>i \<in> keep. (tied fs)\<^sup>*\<^sup>* i j}"
    have "keep \<subseteq> ?J" by blast
    moreover have "\<forall>i j. i \<in> ?J \<longrightarrow> tied fs i j \<longrightarrow> j \<in> ?J" by (auto intro: rtranclp.rtrancl_into_rtrancl)
    ultimately have "?E \<subseteq> ?J" using p by blast
    with that show ?thesis by blast
  qed
qed

section \<open>Replaced tool results\<close>

text \<open>\<open>c\<close> is \<open>b\<close>, or the same tool result with other content.\<close>

fun same_result :: "content_block \<Rightarrow> content_block \<Rightarrow> bool" where
  "same_result (ToolResultBlock i n t e) c = (\<exists>u. c = ToolResultBlock i n u e)"
| "same_result b c = (c = b)"

text \<open>\<open>g\<close> is \<open>f\<close>, or a frame with tool results that differs from it in the content of these and in
  \<open>extra\<close> only.\<close>

definition shrunk :: "frame \<Rightarrow> frame \<Rightarrow> bool" where
  "shrunk f g = (g = f \<or> (\<exists>bs e. g = f\<lparr>f_blocks := bs, f_extra := e\<rparr>
     \<and> list_all2 same_result (f_blocks f) bs \<and> (\<exists>b \<in> set (f_blocks f). is_tool_result b)))"

lemma same_result_refl [simp]: "same_result b b"
  by (cases b) auto

lemma replace_blocks_same:
  "list_all2 same_result bs (fst (replace_result_blocks c m f bs))
   \<and> (snd (replace_result_blocks c m f bs) \<noteq> [] \<longrightarrow> (\<exists>b \<in> set bs. is_tool_result b))"
proof (induction bs)
  case (Cons b bs)
  then show ?case by (cases b) (auto simp: Let_def split_beta)
qed simp

lemma replace_frame_shrunk: "replace_frame_results c m f = Inr (g, rs) \<Longrightarrow> shrunk f g"
  using replace_blocks_same[of "f_blocks f" c m f]
  by (auto simp: replace_frame_results_def shrunk_def Let_def split_beta split: if_splits option.splits)

lemma replace_loop_shrunk: "replace_results_loop c m fs = Inr (gs, ids, refs) \<Longrightarrow> list_all2 shrunk fs gs"
  by (induction fs arbitrary: gs ids refs) (auto split: sum.splits dest: replace_frame_shrunk)

lemma replace_loop_error: "replace_results_loop c m fs = Inl e \<Longrightarrow> \<exists>f \<in> set fs. prior_refs (f_extra f) = None"
  by (induction fs) (auto simp: replace_frame_results_def Let_def split_beta split: sum.splits if_splits option.splits)

lemma same_result_events: "list_all2 same_result bs cs \<Longrightarrow> block_events cs = block_events bs"
proof (induction bs cs rule: list_all2_induct)
  case (Cons b bs c cs)
  then show ?case by (cases b) auto
qed simp

lemma same_result_ids: "list_all2 same_result bs cs \<Longrightarrow>
    map block_tool_id (filter (\<lambda>b. is_tool_use b \<or> is_tool_result b) cs)
      = map block_tool_id (filter (\<lambda>b. is_tool_use b \<or> is_tool_result b) bs)"
proof (induction bs cs rule: list_all2_induct)
  case (Cons b bs c cs)
  then show ?case by (cases b) auto
qed simp

lemma shrunk_sel:
  assumes "shrunk f g"
  shows "frame_events g = frame_events f" "f_origin g = f_origin f" "f_is_meta g = f_is_meta f"
    "f_uuid g = f_uuid f" "f_task_id g = f_task_id f" "f_permission_mode g = f_permission_mode f"
    "compaction_tool_ids g = compaction_tool_ids f"
  using assms same_result_ids[of "f_blocks f" "f_blocks g"]
  by (auto simp: shrunk_def frame_events_eq same_result_events compaction_tool_ids_def)

lemma shrunk_refl [simp]: "shrunk f f"
  by (simp add: shrunk_def)

lemma shrunk_survives:
  "shrunk f g \<Longrightarrow> must_survive_compaction (f\<lparr>f_extra := []\<rparr>) \<Longrightarrow> must_survive_compaction g"
  using shrunk_sel[of f g]
  by (auto simp: must_survive_compaction_def is_compact_boundary_artifact_def split: if_splits)

lemma list_all2_shrunk_events: "list_all2 shrunk fs gs \<Longrightarrow> frames_events gs = frames_events fs"
  by (induction fs gs rule: list_all2_induct) (auto simp: shrunk_sel)

section \<open>Kept and dropped\<close>

lemma frames_at_shuffle: "fs \<in> shuffles (frames_at fs I) (frames_at fs (- I))"
proof -
  have "map h xs \<in> shuffles (map h (filter P xs)) (map h (filter (\<lambda>x. \<not> P x) xs))"
    for h :: "nat \<Rightarrow> frame" and P and xs :: "nat list"
    by (induction xs) (simp_all add: Cons_in_shuffles_leftI Cons_in_shuffles_rightI)
  from this[where h = "(!) fs" and P = "\<lambda>i. i \<in> I" and xs = "[0..<length fs]"] show ?thesis
    by (simp add: frames_at_def map_nth)
qed

lemma frames_at_in: "i < length fs \<Longrightarrow> i \<in> I \<Longrightarrow> fs ! i \<in> set (frames_at fs I)"
  by (simp add: frames_at_def)

text \<open>Every tool event of a frame carries one of the frame's ids.\<close>

lemma event_in_tool_ids: "e \<in> set (frame_events f) \<Longrightarrow> event_id e \<noteq> [] \<Longrightarrow> event_id e \<in> set (compaction_tool_ids f)"
proof -
  have "e \<in> set (block_events bs) \<Longrightarrow> event_id e \<in> block_tool_id ` {b \<in> set bs. is_tool_use b \<or> is_tool_result b}" for bs
  proof (induction bs)
    case (Cons b bs)
    then show ?case by (cases b) (force split: if_splits)+
  qed simp
  then show "e \<in> set (frame_events f) \<Longrightarrow> event_id e \<noteq> [] \<Longrightarrow> event_id e \<in> set (compaction_tool_ids f)"
    by (auto simp: compaction_tool_ids_def frame_events_eq)
qed

lemma frames_at_events:
  assumes closed: "\<forall>i j. i \<in> I \<longrightarrow> tied fs i j \<longrightarrow> j \<in> I"
    and ids: "\<forall>e \<in> set (frames_events fs). event_id e \<noteq> []"
  shows "frames_events (frames_at fs I) =
    filter (\<lambda>e. event_id e \<in> \<Union> (set (map (set \<circ> compaction_tool_ids) (frames_at fs I)))) (frames_events fs)"
proof -
  let ?S = "\<Union> (set (map (set \<circ> compaction_tool_ids) (frames_at fs I)))"
  have one: "filter (\<lambda>e. event_id e \<in> ?S) (frame_events (fs ! i)) = (if i \<in> I then frame_events (fs ! i) else [])"
    if i: "i < length fs" for i
  proof -
    have ne: "event_id e \<in> set (compaction_tool_ids (fs ! i))" if "e \<in> set (frame_events (fs ! i))" for e
      using event_in_tool_ids[OF that] ids nth_mem[OF i] that by (auto simp: chain_events_def)
    show ?thesis
    proof (cases "i \<in> I")
      case True
      with i ne frames_at_in[OF i True] show ?thesis by (auto simp: filter_id_conv)
    next
      case False
      have "event_id e \<notin> ?S" if e: "e \<in> set (frame_events (fs ! i))" for e
      proof
        assume "event_id e \<in> ?S"
        then obtain j where j: "j < length fs" "j \<in> I" "event_id e \<in> set (compaction_tool_ids (fs ! j))"
          by (auto simp: frames_at_def)
        with ne[OF e] i have "tied fs j i" by (auto simp: tied_def)
        with closed j(2) False show False by blast
      qed
      with False show ?thesis by (auto simp: filter_empty_conv)
    qed
  qed
  have "frames_events (frames_at fs I) = concat (map (\<lambda>i. if i \<in> I then frame_events (fs ! i) else []) [0..<length fs])"
  proof -
    have "concat (map h (filter P xs)) = concat (map (\<lambda>i. if P i then h i else []) xs)"
      for h :: "nat \<Rightarrow> tool_event list" and P xs by (induction xs) auto
    from this[where h = "\<lambda>i. frame_events (fs ! i)" and P = "\<lambda>i. i \<in> I"] show ?thesis
      by (simp add: frames_at_def chain_events_def o_def)
  qed
  also have "\<dots> = concat (map (\<lambda>i. filter (\<lambda>e. event_id e \<in> ?S) (frame_events (fs ! i))) [0..<length fs])"
    by (intro arg_cong[where f = concat] map_cong refl) (rule one[symmetric], simp)
  also have "\<dots> = filter (\<lambda>e. event_id e \<in> ?S) (concat (map (\<lambda>i. frame_events (fs ! i)) [0..<length fs]))"
    by (simp add: filter_concat o_def)
  also have "map (\<lambda>i. frame_events (fs ! i)) [0..<length fs] = map frame_events fs"
    by (metis (no_types, lifting) map_nth map_map comp_apply map_cong)
  finally show ?thesis by (simp add: chain_events_def)
qed

section \<open>Compaction\<close>

lemma boundary_sel [simp]:
  "frame_events (build_compact_boundary_frame a b c d e f g h i j k l m n) = []"
  "f_role (build_compact_boundary_frame a b c d e f g h i j k l m n) = SYSTEM"
  by (simp_all add: build_compact_boundary_frame_def Let_def frame_events_eq)

lemma summary_sel [simp]:
  "frame_events (build_compact_summary_frame a b c d e f g h i) = []"
  "f_role (build_compact_summary_frame a b c d e f g h i) = USER"
  by (simp_all add: build_compact_summary_frame_def Let_def frame_events_eq)

lemma no_compaction_sel [simp]:
  "cp_kept_frames (no_compaction_result fresh now fs before q) = fs"
  "\<not> cp_compacted (no_compaction_result fresh now fs before q)"
  "cp_dropped_frames (no_compaction_result fresh now fs before q) = []"
  "cp_dropped_frame_uuids (no_compaction_result fresh now fs before q) = []"
  by (simp_all add: no_compaction_result_def Let_def)

lemma ensure_uuid_events [simp]: "frame_events (ensure_uuid u f) = frame_events f"
  by (simp add: ensure_uuid_def frame_events_eq)

text \<open>The two ways a compaction returns.\<close>

lemma compact_frames_cases:
  assumes "compact_frames fresh now q = Inr r"
  obtains (same) before where "r = no_compaction_result fresh now (compaction_window fresh (cq_chain q)) before q"
  | (compacted) working keep where
      "list_all2 shrunk (working_frames (compaction_window fresh (cq_chain q))) working"
      "protected_indexes working \<subseteq> keep" "\<forall>i j. i \<in> keep \<longrightarrow> tied working i j \<longrightarrow> j \<in> keep"
      "cp_kept_frames r = frames_at working keep" "cp_dropped_frames r = frames_at working (- keep)"
      "cp_dropped_frames r \<noteq> []" "cp_dropped_frame_uuids r = map frame_id (cp_dropped_frames r)"
      "cp_compacted r" "frame_events (cp_boundary_frame r) = []" "frame_events (cp_summary_frame r) = []"
      "f_role (cp_boundary_frame r) = SYSTEM" "f_role (cp_summary_frame r) = USER"
proof -
  let ?w = "compaction_window fresh (cq_chain q)"
  let ?before = "count_frame_tokens (cq_token_counter q) ?w"
  consider (a) "r = no_compaction_result fresh now ?w ?before q"
    | (b) working micro refs where
      "replace_oversized_tool_results (cq_token_counter q) (cq_tool_result_char_budget q) (working_frames ?w)
         = Inr (working, micro, refs)"
      "frames_at working (- expand_tool_pairs working (select_keep_indexes q working ?before)) \<noteq> []"
      "r = compacted_result fresh now q (length ?w) ?before working
         (frames_at working (expand_tool_pairs working (select_keep_indexes q working ?before)))
         (frames_at working (- expand_tool_pairs working (select_keep_indexes q working ?before))) micro refs"
    using assms by (auto simp: compact_frames_def Let_def split: if_splits sum.splits)
  then show thesis
  proof cases
    case a
    then show thesis by (rule same)
  next
    case (b working micro refs)
    let ?sel = "select_keep_indexes q working ?before"
    let ?keep = "expand_tool_pairs working ?sel"
    note p = expand_loop_props[of ?sel "tool_groups working", folded expand_tool_pairs_def, unfolded closed_under_tied]
    have "keep \<subseteq> select_loop q working before target m n keep tokens" for before target m n keep tokens
      by (induction q working before target m n keep tokens rule: select_loop.induct) auto
    moreover have "P \<subseteq> keep \<Longrightarrow> P \<subseteq> drop_one working P keep" for P keep
      by (auto simp: drop_one_def find_Some_iff split: option.splits)
    ultimately have "protected_indexes working \<subseteq> ?sel"
      unfolding select_keep_indexes_def Let_def by (auto split: if_splits)
    with p have prot: "protected_indexes working \<subseteq> ?keep" by blast
    have "list_all2 shrunk (working_frames ?w) working"
      using b(1) unfolding replace_oversized_tool_results_def by (rule replace_loop_shrunk)
    then show thesis using prot p b(2,3)
      by (intro compacted[of working ?keep]) (simp_all add: compacted_result_def Let_def)
  qed
qed

text \<open>C11: Compaction never separates a tool call from its result: a well-paired chain, in which the
  boundary markers carry no tool events, is compacted to a well-paired chain.\<close>

theorem compact_keeps_pairing:
  assumes "compact_frames fresh now q = Inr r"
    and "well_paired (frames_events (compaction_window fresh (cq_chain q)))"
    and "\<forall>f \<in> set (compaction_window fresh (cq_chain q)). is_compact_boundary_artifact f \<longrightarrow> frame_events f = []"
  shows "well_paired (frames_events (compaction_frames r))"
  using assms(1)
proof (cases rule: compact_frames_cases)
  case (same before)
  with assms(2) show ?thesis by (simp add: compaction_frames_def)
next
  case (compacted working keep)
  let ?w = "compaction_window fresh (cq_chain q)"
  have "\<forall>f \<in> set fs. is_compact_boundary_artifact f \<longrightarrow> frame_events f = [] \<Longrightarrow>
      frames_events (working_frames fs) = frames_events fs" for fs
    by (induction fs) (auto simp: working_frames_def)
  with assms(3) list_all2_shrunk_events[OF compacted(1)]
  have ev: "frames_events working = frames_events ?w" by simp
  have "event_id e \<noteq> []" if e: "e \<in> set (frames_events working)" for e
  proof -
    have "event_id e \<in> set (use_list (frames_events ?w)) \<union> set (res_list (frames_events ?w))"
      using e unfolding ev by (metis event_ids imageI)
    with well_pairedD[OF assms(2)] show ?thesis by (auto simp: uses_ok_def)
  qed
  then have ids: "\<forall>e \<in> set (frames_events working). event_id e \<noteq> []" by blast
  have "well_paired (frames_events (frames_at working keep))"
    unfolding frames_at_events[OF compacted(3) ids] ev by (rule well_paired_filter[OF assms(2)])
  with compacted show ?thesis by (simp add: compaction_frames_def)
qed

text \<open>A compaction splits the chain and loses nothing silently: the frames kept and the frames
  dropped, interleaved in the order of the chain, are its frames up to the content of oversized tool
  results; something is dropped, and the dropped ids are recorded.\<close>

lemma compact_partition:
  assumes "compact_frames fresh now q = Inr r" "cp_compacted r"
  shows "(\<exists>working. list_all2 shrunk (working_frames (compaction_window fresh (cq_chain q))) working
      \<and> working \<in> shuffles (cp_kept_frames r) (cp_dropped_frames r))
    \<and> cp_dropped_frames r \<noteq> [] \<and> cp_dropped_frame_uuids r = map frame_id (cp_dropped_frames r)"
  using assms(1)
proof (cases rule: compact_frames_cases)
  case (same before)
  with assms(2) show ?thesis by simp
next
  case (compacted working keep)
  have "working \<in> shuffles (cp_kept_frames r) (cp_dropped_frames r)"
    unfolding compacted(4,5) by (rule frames_at_shuffle)
  with compacted(1,6,7) show ?thesis by blast
qed

lemma protected_frame_kept:
  assumes "compact_frames fresh now q = Inr r"
    and "f \<in> set (compaction_window fresh (cq_chain q))"
    and "must_survive_compaction (f\<lparr>f_extra := []\<rparr>)"
  shows "\<exists>g \<in> set (compaction_frames r). shrunk f g"
  using assms(1)
proof (cases rule: compact_frames_cases)
  case (same before)
  with assms(2) show ?thesis by (auto simp: compaction_frames_def intro!: bexI[of _ f])
next
  case (compacted working keep)
  have "\<not> is_compact_boundary_artifact f"
    using assms(3) by (auto simp: must_survive_compaction_def is_compact_boundary_artifact_def split: if_splits)
  with assms(2) have "f \<in> set (working_frames (compaction_window fresh (cq_chain q)))"
    by (simp add: working_frames_def)
  then obtain i where i: "i < length working" "shrunk f (working ! i)"
    using compacted(1) by (metis in_set_conv_nth list_all2_conv_all_nth)
  have "i \<in> protected_indexes working"
    using shrunk_survives[OF i(2) assms(3)] i(1) by (simp add: protected_indexes_def)
  with compacted(2,4) i(1) have "working ! i \<in> set (cp_kept_frames r)" by (auto intro: frames_at_in)
  with i(2) compacted(8) show ?thesis by (auto simp: compaction_frames_def)
qed

text \<open>A frame that must survive (the active request, or a meta frame of a gate, a permission, a hook,
  a task) is in the compacted chain, whatever the budget: its origin, ids and text unchanged, only the
  content of an oversized tool result in it replaced.  \<open>extra\<close> is left out of the reasons, since the
  replacement rewrites it.\<close>

lemma compact_keeps_protected:
  assumes "compact_frames fresh now q = Inr r"
    and "f \<in> set (compaction_window fresh (cq_chain q))"
    and "must_survive_compaction (f\<lparr>f_extra := []\<rparr>)"
  shows "\<exists>g \<in> set (compaction_frames r). shrunk f g"
  using assms by (rule protected_frame_kept)

text \<open>Microcompaction drops no frame: the kept frames are those of the window, one by one, with only
  the content of oversized tool results replaced, and the protected tail untouched; so the tool events
  are the same.  It fails only on a frame whose recorded references are no sequence.\<close>

lemma microcompact_keeps_frames:
  "case microcompact_frames fresh now chain token_budget reason provider counter preserve_last char_budget of
     Inl e \<Rightarrow> (\<exists>f \<in> set (compaction_window fresh chain). prior_refs (f_extra f) = None)
   | Inr r \<Rightarrow> list_all2 shrunk (compaction_window fresh chain) (cp_kept_frames r)
       \<and> drop (length (compaction_window fresh chain) - nat preserve_last) (cp_kept_frames r)
         = drop (length (compaction_window fresh chain) - nat preserve_last) (compaction_window fresh chain)
       \<and> frames_events (compaction_frames r) = frames_events (compaction_window fresh chain)
       \<and> cp_dropped_frames r = []"
proof (cases "microcompact_frames fresh now chain token_budget reason provider counter preserve_last char_budget")
  case (Inl e)
  then obtain cut where "replace_oversized_tool_results counter char_budget (take cut (compaction_window fresh chain)) = Inl e"
    by (auto simp: microcompact_frames_def Let_def split: if_splits sum.splits)
  with Inl show ?thesis unfolding replace_oversized_tool_results_def
    by (auto dest!: replace_loop_error dest: in_set_takeD)
next
  case (Inr r)
  let ?w = "compaction_window fresh chain"
  let ?cut = "length ?w - nat preserve_last"
  have cut: "nat (max 0 (int (length ?w) - max 0 preserve_last)) = ?cut" by auto
  have refl: "list_all2 shrunk ?w ?w" by (simp add: list.rel_refl)
  consider (a) before q where "r = no_compaction_result fresh now ?w before q"
    | (b) replaced micro refs where "replace_oversized_tool_results counter char_budget (take ?cut ?w) = Inr (replaced, micro, refs)"
      "cp_kept_frames r = replaced @ drop ?cut ?w" "cp_dropped_frames r = []"
      "frames_events (compaction_frames r) = frames_events (cp_kept_frames r)"
    using Inr unfolding microcompact_frames_def Let_def cut
    by (auto simp: compaction_frames_def split: if_splits sum.splits)
  then show ?thesis
  proof cases
    case a
    then show ?thesis using Inr refl by (simp add: compaction_frames_def)
  next
    case (b replaced micro refs)
    have s: "list_all2 shrunk (take ?cut ?w) replaced"
      using b(1) unfolding replace_oversized_tool_results_def by (rule replace_loop_shrunk)
    then have l: "length replaced = ?cut" using list_all2_lengthD by fastforce
    have "list_all2 shrunk (take ?cut ?w @ drop ?cut ?w) (replaced @ drop ?cut ?w)"
      using s by (intro list_all2_appendI) (simp_all add: list.rel_refl)
    then have k: "list_all2 shrunk ?w (cp_kept_frames r)" by (simp add: b(2))
    have "frames_events (compaction_frames r) = frames_events ?w"
      using b(4) list_all2_shrunk_events[OF k] by simp
    then show ?thesis using Inr k b l by simp
  qed
qed

end
