(* ===== verification/Permission_Properties.thy ===== *)
theory Permission_Properties
  imports State_Machine Permission_Policy Compaction_Properties
begin

text \<open>
  What the permission policy decides: when a call is allowed, that deny rules only restrict, that a
  classifier cannot deny for ever, what a content pattern matches, and that the notice of a refused
  call outlives compaction.  The policies a session can reach are an inductive set.
\<close>

section \<open>The order of authority\<close>

definition rule_says :: "permission_policy \<Rightarrow> permission_context \<Rightarrow> behavior \<Rightarrow> bool" where
  "rule_says p c b = (\<exists>r \<in> set (px_rule_overrides c @ pp_rules p).
     pr_behavior r = b \<and> rule_matches r c (context_mode p c))"

text \<open>The decision of the last hook that made one.\<close>

definition hook_verdict :: "permission_context \<Rightarrow> behavior option" where
  "hook_verdict c = (case filter (\<lambda>h. hk_decision h \<noteq> None) (px_hooks c) of
      [] \<Rightarrow> None | hs \<Rightarrow> hk_decision (last hs))"

definition classifier_verdict :: "permission_policy \<Rightarrow> permission_context \<Rightarrow> classifier_result option" where
  "classifier_verdict p c = (if context_mode p c = ''auto''
     then (case pp_classifier p of None \<Rightarrow> None | Some f \<Rightarrow> f c) else None)"

definition low_risk :: "permission_context \<Rightarrow> bool" where
  "low_risk c = (risk_value (px_risk c) \<in> {Some ''safe'', Some ''confirm''})"

lemma matching_rule_None: "matching_rule p c (context_mode p c) b = None \<longleftrightarrow> \<not> rule_says p c b"
  by (auto simp: matching_rule_def rule_says_def find_None_iff)

lemma matching_rule_Some: "matching_rule p c m b = Some r \<Longrightarrow> pr_behavior r = b"
  by (auto simp: matching_rule_def find_Some_iff)

lemma hook_decision_verdict:
  "(case hook_decision (px_hooks c) None of None \<Rightarrow> None | Some h \<Rightarrow> hk_decision h) = hook_verdict c"
proof -
  have "hook_decision hs d = (case filter (\<lambda>h. hk_decision h \<noteq> None) hs of [] \<Rightarrow> d | xs \<Rightarrow> Some (last xs))" for hs d
    by (induction hs d rule: hook_decision.induct) (auto split: list.splits)
  then show ?thesis by (simp add: hook_verdict_def split: list.splits)
qed

lemma decision_behavior [simp]:
  "pd_behavior (make_decision b s m c r u n k h) = b"
  "pd_behavior (rule_decision c m u rl) = pr_behavior rl"
  "pd_behavior (by_hook c m u b hk dflt) = b"
  by (simp_all add: make_decision_def rule_decision_def by_hook_def)

lemma classifier_behavior:
  "pd_behavior (fst (classifier_decision p c mode r u hs)) = (case cl_behavior r of
      Deny \<Rightarrow> (if should_fallback_to_prompting (counters_denial (current_counters p c)) then Ask else Deny)
    | b \<Rightarrow> b)"
  by (simp add: classifier_decision_def record_success_def record_denial_def Let_def split: behavior.splits)

lemma fallback_behavior:
  "pd_behavior (fst (fallback_decision p c mode u)) = (if low_risk c then Allow
     else if mode = ''dontAsk'' \<or> mode = ''plan'' then Deny else Ask)"
  by (simp add: fallback_decision_def low_risk_def record_success_def record_denial_def Let_def)

lemma mode_behavior:
  "pd_behavior (fst (mode_decision p c (context_mode p c) u)) =
    (if context_mode p c = ''bypassPermissions'' then Allow
     else (case classifier_verdict p c of
         Some r \<Rightarrow> (case cl_behavior r of
             Deny \<Rightarrow> (if should_fallback_to_prompting (counters_denial (current_counters p c)) then Ask else Deny)
           | b \<Rightarrow> b)
       | None \<Rightarrow> (if low_risk c then Allow
           else if context_mode p c = ''dontAsk'' \<or> context_mode p c = ''plan'' then Deny else Ask)))"
proof (cases "classifier_verdict p c")
  case None
  then show ?thesis by (simp add: mode_decision_def fallback_behavior classifier_verdict_def)
next
  case (Some r)
  then show ?thesis by (simp add: mode_decision_def classifier_behavior classifier_verdict_def)
qed

text \<open>The behaviour of a decision, as a table of authorities.\<close>

lemma check_behavior:
  "pd_behavior (fst (check p c)) =
    (if rule_says p c Deny \<or> hook_verdict c = Some Deny then Deny
     else if rule_says p c Ask \<or> hook_verdict c = Some Ask then Ask
     else if hook_verdict c = Some Allow \<or> rule_says p c Allow then Allow
     else pd_behavior (fst (mode_decision p c (context_mode p c) (hook_inputs (px_hooks c) None))))"
proof -
  have d: "(if rule_says p c b then \<exists>r. matching_rule p c (context_mode p c) b = Some r \<and> pr_behavior r = b
     else matching_rule p c (context_mode p c) b = None)" for b
    using matching_rule_None[of p c b] matching_rule_Some[of p c "context_mode p c" b] by auto
  show ?thesis
    using d[of Deny] d[of Ask] d[of Allow]
    unfolding check_def Let_def hook_decision_verdict
    by (auto split: if_split_asm)
qed

lemma hook_verdict_said: "hook_verdict c = Some b \<Longrightarrow> \<exists>h \<in> set (px_hooks c). hk_decision h = Some b"
proof -
  assume v: "hook_verdict c = Some b"
  let ?hs = "filter (\<lambda>h. hk_decision h \<noteq> None) (px_hooks c)"
  have "?hs \<noteq> []" "hk_decision (last ?hs) = Some b" using v by (auto simp: hook_verdict_def split: list.splits)
  moreover from this have "last ?hs \<in> set ?hs" using last_in_set by blast
  ultimately show ?thesis by auto
qed

definition hook_says :: "permission_context \<Rightarrow> behavior \<Rightarrow> bool" where
  "hook_says c b = (\<exists>h \<in> set (px_hooks c). hk_decision h = Some b)"

text \<open>C13: As long as no hook is overruled by a milder one after it (the code takes the word of the last hook), the order of
  authorities that the docstring of \<open>check\<close> gives is the order that decides: a deny rule or a hook that denies, then an ask
  rule or a hook that asks, then a hook that allows or an allow rule, then the mode that bypasses permissions, then the
  classifier's verdict where there is one (a denial turns into a prompt when there were too many), then the risk: a low one is
  allowed, any other is denied in the modes that do not ask and is asked about in the rest.\<close>

theorem check_follows_documented_order:
  assumes "\<forall>b. hook_says c b \<longrightarrow> (\<exists>v. hook_verdict c = Some v \<and> b \<le> v)"
  shows "pd_behavior (fst (check p c)) =
    (if rule_says p c Deny \<or> hook_says c Deny then Deny
     else if rule_says p c Ask \<or> hook_says c Ask then Ask
     else if hook_says c Allow \<or> rule_says p c Allow \<or> context_mode p c = ''bypassPermissions'' then Allow
     else (case classifier_verdict p c of
         Some r \<Rightarrow> (if cl_behavior r = Deny \<and> should_fallback_to_prompting (counters_denial (current_counters p c)) then Ask
           else cl_behavior r)
       | None \<Rightarrow> (if low_risk c then Allow
           else if context_mode p c = ''dontAsk'' \<or> context_mode p c = ''plan'' then Deny else Ask)))"
proof -
  have said: "hook_verdict c = Some b \<Longrightarrow> hook_says c b" for b using hook_verdict_said by (simp add: hook_says_def)
  have "hook_says c Deny \<longleftrightarrow> hook_verdict c = Some Deny"
    using said assms by (metis (full_types) behavior.exhaust behavior_rank.simps less_eq_behavior_def numeral_le_one_iff
      not_numeral_le_zero semiring_norm(69))
  moreover have "hook_says c Ask \<Longrightarrow> hook_verdict c = Some Deny \<or> hook_verdict c = Some Ask"
  proof -
    assume "hook_says c Ask"
    then obtain v where "hook_verdict c = Some v" "Ask \<le> v" using assms by blast
    then show ?thesis by (cases v) (auto simp: less_eq_behavior_def)
  qed
  moreover have "hook_says c Allow \<Longrightarrow> hook_verdict c \<noteq> None" using assms by fastforce
  ultimately show ?thesis unfolding check_behavior mode_behavior
    using said[of Ask] said[of Allow] by (cases "hook_verdict c"; cases "the (hook_verdict c)")
      (auto split: option.splits behavior.splits)
qed

text \<open>Deny rules only restrict: adding deny rules anywhere among the rules of a policy makes no
  decision milder, in the order allow, ask, deny.\<close>

lemma deny_rules_restrict:
  assumes "pp_rules p = rs @ ss" "\<forall>r \<in> set extra. pr_behavior r = Deny"
  shows "pd_behavior (fst (check p c)) \<le> pd_behavior (fst (check (p\<lparr>pp_rules := rs @ extra @ ss\<rparr>) c))"
proof -
  let ?q = "p\<lparr>pp_rules := rs @ extra @ ss\<rparr>"
  have m: "context_mode ?q c = context_mode p c" "classifier_verdict ?q c = classifier_verdict p c"
    "current_counters ?q c = current_counters p c"
    by (simp_all add: context_mode_def classifier_verdict_def current_counters_def)
  have r: "rule_says ?q c b = rule_says p c b" if "b \<noteq> Deny" for b
    using assms that by (auto simp: rule_says_def m)
  have d: "rule_says p c Deny \<Longrightarrow> rule_says ?q c Deny"
    using assms by (auto simp: rule_says_def m)
  show ?thesis
  proof (cases "rule_says ?q c Deny \<or> hook_verdict c = Some Deny")
    case True
    then have "pd_behavior (fst (check ?q c)) = Deny" by (simp add: check_behavior)
    moreover have "b \<le> Deny" for b by (cases b) (simp_all add: less_eq_behavior_def)
    ultimately show ?thesis by simp
  next
    case False
    have "pd_behavior (fst (mode_decision ?q c (context_mode ?q c) u))
        = pd_behavior (fst (mode_decision p c (context_mode p c) u))" for u
      by (subst (1 2) mode_behavior) (simp only: m)
    with False d have "pd_behavior (fst (check ?q c)) = pd_behavior (fst (check p c))"
      by (auto simp: check_behavior r)
    then show ?thesis by simp
  qed
qed

section \<open>Reachable policies\<close>

inductive policy_step :: "permission_policy \<Rightarrow> permission_policy \<Rightarrow> bool" where
  checked: "policy_step p (snd (check p c))"
| answered: "policy_step p (snd (resolve_user_response p c d approved))"

definition new_policy :: "permission_policy \<Rightarrow> bool" where
  "new_policy p = (pp_denials p = Map.empty)"

definition reachable_policy :: "permission_policy \<Rightarrow> bool" where
  "reachable_policy p = (\<exists>mode rules classifier. policy_step\<^sup>*\<^sup>* (make_policy mode rules classifier) p)"

definition counters_ok :: "denial_counters \<Rightarrow> bool" where
  "counters_ok k = (0 \<le> dc_consecutive k \<and> dc_consecutive k \<le> dc_total k)"

definition denials_ok :: "permission_policy \<Rightarrow> bool" where
  "denials_ok p = (\<forall>key. case pp_denials p key of None \<Rightarrow> True | Some k \<Rightarrow> counters_ok k)"

lemma current_counters_ok: "denials_ok p \<Longrightarrow> counters_ok (current_counters p c)"
proof -
  assume "denials_ok p"
  then have "case pp_denials p (denial_key c) of None \<Rightarrow> True | Some k \<Rightarrow> counters_ok k"
    unfolding denials_ok_def by blast
  then show ?thesis by (simp add: current_counters_def no_denials_def counters_ok_def split: option.splits)
qed

lemma store_counters_ok: "denials_ok p \<Longrightarrow> counters_ok k \<Longrightarrow> denials_ok (store_counters p c k)"
  unfolding denials_ok_def store_counters_def by simp

lemma record_ok:
  assumes "denials_ok p"
  shows "denials_ok (snd (record_denial p c))" "denials_ok (snd (record_success p c))"
  using current_counters_ok[OF assms, of c] assms
  by (auto simp: record_denial_def record_success_def Let_def counters_denial_def counters_success_def counters_ok_def
      intro!: store_counters_ok)

text \<open>A check leaves the policy alone or records one denial or one success.\<close>

lemma classifier_policy:
  "snd (classifier_decision p c m r u hs) \<in> {p, snd (record_denial p c), snd (record_success p c)}"
  by (cases "cl_behavior r") (simp_all add: classifier_decision_def Let_def split_beta)

lemma fallback_policy:
  "snd (fallback_decision p c m u) \<in> {p, snd (record_denial p c), snd (record_success p c)}"
  by (simp add: fallback_decision_def Let_def split_beta)

lemma mode_policy: "snd (mode_decision p c m u) \<in> {p, snd (record_denial p c), snd (record_success p c)}"
  unfolding mode_decision_def
  by (cases "m = ''bypassPermissions''"; cases "if m = ''auto'' then (case pp_classifier p of None \<Rightarrow> None | Some f \<Rightarrow> f c) else None")
     (use classifier_policy[of p c] fallback_policy[of p c] in simp_all)

lemma check_policy: "snd (check p c) \<in> {p, snd (record_denial p c), snd (record_success p c)}"
  unfolding check_def Let_def using mode_policy[of p c] by (simp split: option.splits)

lemma resolve_policy:
  "snd (resolve_user_response p c d a) \<in> {snd (record_denial p c), snd (record_success p c)}"
  by (auto simp: resolve_user_response_def Let_def split_beta)

interpretation policy: invariant_machine new_policy policy_step denials_ok
proof
  show "denials_ok p" if "new_policy p" for p
    using that by (simp add: denials_ok_def new_policy_def)
  show "denials_ok q" if "denials_ok p" "policy_step p q" for p q
    using that(2,1)
  proof cases
    case (checked c)
    with that(1) show ?thesis using check_policy[of p c] record_ok by auto
  next
    case (answered c d approved)
    with that(1) show ?thesis using resolve_policy[of p c d approved] record_ok by auto
  qed
qed

lemma reachable_denials_ok: "reachable_policy p \<Longrightarrow> denials_ok p"
proof -
  have "new_policy (make_policy mode rules classifier)" for mode rules classifier
    by (simp add: new_policy_def make_policy_def)
  then show "reachable_policy p \<Longrightarrow> denials_ok p"
    unfolding reachable_policy_def by (blast intro: policy.reachable_inv)
qed

section \<open>Repeated denials\<close>

lemma record_denial_counters:
  "current_counters (snd (record_denial p c)) c = counters_denial (current_counters p c)"
  by (simp add: record_denial_def Let_def store_counters_def current_counters_def)

lemma record_denial_policy:
  "pp_rules (snd (record_denial p c)) = pp_rules p" "pp_mode (snd (record_denial p c)) = pp_mode p"
  "pp_classifier (snd (record_denial p c)) = pp_classifier p"
  by (simp_all add: record_denial_def Let_def store_counters_def)

text \<open>The classifier of the auto mode is what decides on \<open>c\<close>, and it denies.\<close>

definition classifier_denies :: "permission_policy \<Rightarrow> permission_context \<Rightarrow> bool" where
  "classifier_denies p c = (\<not> rule_says p c Deny \<and> \<not> rule_says p c Ask \<and> \<not> rule_says p c Allow
     \<and> hook_verdict c = None \<and> (case classifier_verdict p c of None \<Rightarrow> False | Some r \<Rightarrow> cl_behavior r = Deny))"

lemma classifier_denies_step:
  assumes "classifier_denies p c"
  shows "snd (check p c) = snd (record_denial p c)" "classifier_denies (snd (check p c)) c"
    "pd_behavior (fst (check p c)) =
      (if should_fallback_to_prompting (counters_denial (current_counters p c)) then Ask else Deny)"
proof -
  let ?q = "snd (record_denial p c)"
  have none: "matching_rule p c (context_mode p c) b = None" for b
    using assms by (cases b) (simp_all add: matching_rule_None classifier_denies_def)
  obtain f r where f: "context_mode p c = ''auto''" "pp_classifier p = Some f" "f c = Some r" "cl_behavior r = Deny"
    using assms by (auto simp: classifier_denies_def classifier_verdict_def split: if_splits option.splits)
  have v: "hook_verdict c = None" using assms by (simp add: classifier_denies_def)
  show s: "snd (check p c) = ?q"
    unfolding check_def Let_def hook_decision_verdict none v using f
    by (simp add: mode_decision_def classifier_decision_def Let_def split_beta)
  have m: "context_mode ?q c = context_mode p c" "classifier_verdict ?q c = classifier_verdict p c"
    by (simp_all add: context_mode_def classifier_verdict_def record_denial_policy)
  have "rule_says ?q c b = rule_says p c b" for b
    by (simp add: rule_says_def m(1) record_denial_policy)
  with assms show "classifier_denies (snd (check p c)) c"
    unfolding s by (simp add: classifier_denies_def m)
  show "pd_behavior (fst (check p c)) =
      (if should_fallback_to_prompting (counters_denial (current_counters p c)) then Ask else Deny)"
    using assms f unfolding check_behavior mode_behavior
    by (auto simp: classifier_denies_def split: option.splits)
qed

text \<open>The policy after \<open>n\<close> checks of one call.\<close>

fun after_checks :: "nat \<Rightarrow> permission_policy \<Rightarrow> permission_context \<Rightarrow> permission_policy" where
  "after_checks 0 p c = p"
| "after_checks (Suc n) p c = after_checks n (snd (check p c)) c"

lemma after_checks_denied:
  "classifier_denies p c \<Longrightarrow> classifier_denies (after_checks n p c) c
    \<and> dc_consecutive (current_counters (after_checks n p c) c) = dc_consecutive (current_counters p c) + int n"
proof (induction n arbitrary: p)
  case (Suc n)
  have "dc_consecutive (current_counters (snd (check p c)) c) = dc_consecutive (current_counters p c) + 1"
    unfolding classifier_denies_step(1)[OF Suc.prems] record_denial_counters by (simp add: counters_denial_def)
  with Suc.IH[OF classifier_denies_step(2)[OF Suc.prems]] show ?case by simp
qed simp

text \<open>C14: A classifier cannot deny a tool call for ever: in every policy a session can reach, the third
  check of a call that the classifier keeps denying asks the user, and so does every later one, until
  the user answers.\<close>

theorem classifier_denials_end_in_a_prompt:
  assumes "reachable_policy p" "classifier_denies p c" "n \<ge> 2"
  shows "pd_behavior (fst (check (after_checks n p c) c)) = Ask"
proof -
  let ?q = "after_checks n p c"
  have d: "classifier_denies ?q c" "dc_consecutive (current_counters ?q c) = dc_consecutive (current_counters p c) + int n"
    using after_checks_denied[OF assms(2)] by auto
  have "0 \<le> dc_consecutive (current_counters p c)"
    using current_counters_ok[OF reachable_denials_ok[OF assms(1)]] by (simp add: counters_ok_def)
  with d(2) assms(3) have "should_fallback_to_prompting (counters_denial (current_counters ?q c))"
    by (simp add: should_fallback_to_prompting_def counters_denial_def DENIAL_MAX_CONSECUTIVE_def)
  with classifier_denies_step(3)[OF d(1)] show ?thesis by simp
qed

section \<open>Content patterns\<close>

text \<open>What a rule such as \<open>Bash(git *)\<close> matches: a pattern of plain text followed by a star matches
  a call exactly when the call's first content field starts with that text, whatever follows.\<close>

lemma prefix_pattern_matches:
  assumes "\<forall>ch \<in> set text. \<not> glob_special ch"
  shows "matches_tool_content c (text @ ''*'') \<longleftrightarrow>
    (\<exists>rest. first_text (px_tool_input c) CONTENT_KEYS = Some (text @ rest))"
proof -
  have "fnmatchcase s (text @ ''*'') \<longleftrightarrow> (\<exists>t. s = text @ t)" for s
    using assms by (rule fnmatch_prefix)
  then show ?thesis
    by (cases "first_text (px_tool_input c) CONTENT_KEYS") (auto simp: matches_tool_content_def split: if_splits)
qed

section \<open>The notice of a refused call\<close>

lemma decision_frame:
  "pd_frame (make_decision b s m c r u n k h) =
    (if b = Allow then None else Some (permission_frame b s m c r n k u h))"
  by (cases b) (simp_all add: make_decision_def)

text \<open>A frame as the policy makes it.\<close>

definition is_permission_frame :: "frame \<Rightarrow> bool" where
  "is_permission_frame f = (f_origin f = Some ''permission'' \<and> f_is_meta f \<and> f_role f = META_USER
     \<and> (\<exists>t. f_blocks f = [SystemReminderBlock t (Some ''permission'')]))"

lemma permission_frame_ok: "is_permission_frame (permission_frame b s m c r n k u h)"
  by (simp add: permission_frame_def Let_def is_permission_frame_def)

definition frame_fits :: "permission_decision \<Rightarrow> bool" where
  "frame_fits d = (case pd_frame d of None \<Rightarrow> pd_behavior d = Allow
     | Some f \<Rightarrow> pd_behavior d \<noteq> Allow \<and> is_permission_frame f)"

lemma frame_fits_make [simp]: "frame_fits (make_decision b s m c r u n k h)"
  by (simp add: frame_fits_def decision_frame permission_frame_ok)

lemma frame_fits_simps [simp]: "frame_fits (rule_decision c m u r)" "frame_fits (by_hook c m u b hk dflt)"
  by (simp_all add: rule_decision_def by_hook_def)

lemma classifier_frame: "frame_fits (fst (classifier_decision p c m r u hs))"
  by (cases "cl_behavior r") (simp_all add: classifier_decision_def Let_def split_beta)

lemma fallback_frame: "frame_fits (fst (fallback_decision p c m u))"
  by (simp add: fallback_decision_def Let_def split_beta)

lemma mode_frame: "frame_fits (fst (mode_decision p c m u))"
  unfolding mode_decision_def
  by (cases "m = ''bypassPermissions''"; cases "if m = ''auto'' then (case pp_classifier p of None \<Rightarrow> None | Some f \<Rightarrow> f c) else None")
     (use classifier_frame[of p c] fallback_frame[of p c] in simp_all)

lemma check_frame: "frame_fits (fst (check p c))"
  unfolding check_def Let_def using mode_frame[of p c] by (simp split: option.splits)

lemma permission_frame_survives:
  assumes "is_permission_frame f"
  shows "must_survive_compaction (f\<lparr>f_uuid := u, f_extra := []\<rparr>)"
proof -
  have "list_ex (\<lambda>marker. str_contains marker (py_lower ''permission'')) PROTECTED_META_ORIGIN_MARKERS"
    "''permission'' \<notin> set COMPACT_BOUNDARY_ORIGINS"
    by code_simp+
  with assms show ?thesis
    by (simp add: must_survive_compaction_def is_compact_boundary_artifact_def is_permission_frame_def)
qed

text \<open>A refusal is not forgotten: every decision but allow carries a permission frame, allow carries
  none, and once that frame is in the chain (with the id it is stored under) a compaction keeps it as
  it is, whatever the budget.\<close>

lemma permission_notice_survives_compaction:
  assumes "pd_behavior (fst (check p c)) \<noteq> Allow"
  shows "\<exists>f. pd_frame (fst (check p c)) = Some f
    \<and> (\<forall>uid fresh now q r. compact_frames fresh now q = Inr r \<longrightarrow>
         f\<lparr>f_uuid := uid\<rparr> \<in> set (compaction_window fresh (cq_chain q)) \<longrightarrow>
         f\<lparr>f_uuid := uid\<rparr> \<in> set (compaction_frames r))"
proof -
  obtain f where f: "pd_frame (fst (check p c)) = Some f" "is_permission_frame f"
    using check_frame[of p c] assms by (auto simp: frame_fits_def split: option.splits)
  have "f\<lparr>f_uuid := uid\<rparr> \<in> set (compaction_frames r)"
    if r: "compact_frames fresh now q = Inr r" "f\<lparr>f_uuid := uid\<rparr> \<in> set (compaction_window fresh (cq_chain q))"
    for uid fresh now q r
  proof -
    have "must_survive_compaction (f\<lparr>f_uuid := uid, f_extra := []\<rparr>)" using permission_frame_survives[OF f(2)] .
    then obtain g where g: "g \<in> set (compaction_frames r)" "shrunk (f\<lparr>f_uuid := uid\<rparr>) g"
      using protected_frame_kept[OF r] by auto
    from f(2) have "\<not> (\<exists>b \<in> set (f_blocks f). is_tool_result b)" by (auto simp: is_permission_frame_def)
    with g(2) have "g = f\<lparr>f_uuid := uid\<rparr>" by (simp add: shrunk_def)
    with g(1) show ?thesis by simp
  qed
  with f(1) show ?thesis by blast
qed

end
