(* ===== verification/Compaction_Examples.thy ===== *)
theory Compaction_Examples
  imports Compaction_Properties
begin

text \<open>
  A compaction and a microcompaction evaluated, which witness the theorems of
  \<open>Compaction_Properties\<close>, and what a forced compaction does within the budget.
\<close>

definition new_id :: "nat \<Rightarrow> string" where
  "new_id n = ''id'' @ nat_str n"

definition user_says :: "string \<Rightarrow> frame" where
  "user_says t = new_frame USER_INPUT USER [TextBlock t]"

definition request_frame :: frame where
  "request_frame = (user_says ''book a table'')\<lparr>f_origin := Some ACTIVE_REQUEST_FRAME_ORIGIN\<rparr>"

definition search_call :: "string \<Rightarrow> frame" where
  "search_call i = new_frame TOOL_USE ASSISTANT [ToolUseBlock i ''t'' PyNone]"

definition tool_reply :: "string \<Rightarrow> string \<Rightarrow> frame" where
  "tool_reply i t = new_frame TOOL_RESULT TOOL [ToolResultBlock i ''t'' t False]"

definition long_text :: string where
  "long_text = replicate 200 CHR ''x''"

definition ex_frames :: "frame list" where
  "ex_frames = [user_says ''hello'', request_frame, search_call ''a'', tool_reply ''a'' long_text, user_says ''and?'']"

definition ex_request :: "bool \<Rightarrow> compaction_request" where
  "ex_request force = (plain_request ex_frames 10 ''auto'' None)\<lparr>cq_force := force, cq_min_keep_frames := 1,
     cq_keep_tokens := 5, cq_tool_result_char_budget := 80\<rparr>"

text \<open>The reply is selected by the budget, its call is added by the expansion, the request is
  protected, and the greeting goes.\<close>

lemma ex_compacts:
  "case compact_frames new_id 0 (ex_request False) of
     Inl e \<Rightarrow> False
   | Inr r \<Rightarrow> cp_compacted r \<and> map f_uuid (cp_kept_frames r) = map (Some \<circ> new_id) [1, 2, 3, 4]
       \<and> cp_dropped_frame_uuids r = [new_id 0] \<and> cp_microcompacted_frame_uuids r = [new_id 3]"
  by code_simp

lemma ex_compactsE:
  obtains r where "compact_frames new_id 0 (ex_request False) = Inr r" "cp_compacted r"
    "cp_dropped_frame_uuids r = [new_id 0]"
  using ex_compacts by (cases "compact_frames new_id 0 (ex_request False)") auto

lemma ex_window:
  "well_paired (frames_events (compaction_window new_id (Some ex_frames)))"
  "\<forall>f \<in> set (compaction_window new_id (Some ex_frames)). \<not> is_compact_boundary_artifact f"
  by code_simp+

lemma ex_chain: "cq_chain (ex_request b) = Some ex_frames"
  by (simp add: ex_request_def plain_request_def)

lemma compact_keeps_pairing_witness:
  "\<exists>r. compact_frames new_id 0 (ex_request False) = Inr r \<and> cp_compacted r
     \<and> well_paired (frames_events (compaction_frames r))"
proof -
  obtain r where r: "compact_frames new_id 0 (ex_request False) = Inr r" "cp_compacted r"
    by (rule ex_compactsE)
  have "well_paired (frames_events (compaction_frames r))"
    by (rule compact_keeps_pairing[OF r(1)]) (use ex_window in \<open>simp_all add: ex_chain\<close>)
  with r show ?thesis by blast
qed

lemma compact_partition_witness:
  "\<exists>r. compact_frames new_id 0 (ex_request False) = Inr r \<and> map frame_id (cp_dropped_frames r) = [new_id 0]"
proof -
  obtain r where r: "compact_frames new_id 0 (ex_request False) = Inr r" "cp_compacted r"
    "cp_dropped_frame_uuids r = [new_id 0]" by (rule ex_compactsE)
  from compact_partition[OF r(1,2)] r(1,3) show ?thesis by auto
qed

lemma compact_keeps_protected_witness:
  "\<exists>r. compact_frames new_id 0 (ex_request False) = Inr r
     \<and> (\<exists>g \<in> set (compaction_frames r). shrunk (request_frame\<lparr>f_uuid := Some (new_id 1)\<rparr>) g)"
proof -
  obtain r where r: "compact_frames new_id 0 (ex_request False) = Inr r" by (rule ex_compactsE)
  let ?f = "request_frame\<lparr>f_uuid := Some (new_id 1)\<rparr>"
  have m: "?f \<in> set (compaction_window new_id (Some ex_frames))" by code_simp
  have s: "must_survive_compaction (?f\<lparr>f_extra := []\<rparr>)" by code_simp
  from compact_keeps_protected[OF r, of ?f] m s r show ?thesis by (auto simp: ex_chain)
qed

lemma microcompact_keeps_frames_witness:
  "case microcompact_frames new_id 0 (Some ex_frames) 10 ''microcompact'' None None 1 80 of
     Inl e \<Rightarrow> False
   | Inr r \<Rightarrow> cp_compacted r \<and> frames_events (compaction_frames r) = frames_events ex_frames"
proof -
  have c: "case microcompact_frames new_id 0 (Some ex_frames) 10 ''microcompact'' None None 1 80 of
     Inl e \<Rightarrow> False | Inr r \<Rightarrow> cp_compacted r" by code_simp
  have "frames_events (compaction_window new_id (Some ex_frames)) = frames_events ex_frames" by code_simp
  with c microcompact_keeps_frames[where fresh = new_id and now = 0 and chain = "Some ex_frames"
      and token_budget = 10 and reason = "''microcompact''" and provider = None and counter = None
      and preserve_last = 1 and char_budget = 80]
  show ?thesis by (auto split: sum.splits)
qed

section \<open>Where the code and its comments part\<close>

text \<open>Microcompaction puts its boundary before the older boundary of the window, so the next
  projection, which looks for the last boundary, passes over it: the new boundary and the summary
  with the references are not in the window of the next compaction.\<close>

lemma microcompact_boundary_shadowed:
  "case compact_frames new_id 0 (ex_request False) of
     Inl e \<Rightarrow> False
   | Inr r \<Rightarrow> (case microcompact_frames new_id 0 (Some (compaction_frames r @ [search_call ''b'', tool_reply ''b'' long_text]))
                  10 ''microcompact'' None None 0 80 of
         Inl e \<Rightarrow> False
       | Inr m \<Rightarrow> cp_compacted m
           \<and> cp_boundary_frame m \<notin> set (project_after_last_compact_boundary (compaction_frames m))
           \<and> cp_summary_frame m \<notin> set (project_after_last_compact_boundary (compaction_frames m)))"
  by code_simp

end
