(* ===== verification/Permission_Examples.thy ===== *)
theory Permission_Examples
  imports Permission_Properties Compaction_Examples
begin

text \<open>
  Permission decisions evaluated: witnesses of the theorems of \<open>Permission_Properties\<close>, and calls on
  which the policy does not decide what its comments say.
\<close>

definition bash_call :: "string \<Rightarrow> risk \<Rightarrow> hook_provenance list \<Rightarrow> permission_context" where
  "bash_call cmd risk hooks = \<lparr>px_user_id = ''u'', px_session_id = ''s'', px_tool_name = ''Bash'',
     px_tool_input = [(''command'', PyStr cmd)], px_cwd = None, px_channel = None, px_agent_id = None, px_mode = None, px_risk = risk,
     px_rule_overrides = [], px_hooks = hooks\<rparr>"

definition bash_rule :: "string \<Rightarrow> behavior \<Rightarrow> permission_rule" where
  "bash_rule tool b = \<lparr>pr_tool_name = tool, pr_behavior = b, pr_source = ''user'', pr_reason = None,
     pr_mode = None, pr_updated_input = None\<rparr>"

definition hook :: "behavior \<Rightarrow> hook_provenance" where
  "hook b = \<lparr>hk_event = ''PreToolUse'', hk_source = ''hook'', hk_decision = Some b, hk_reason = None,
     hk_updated_input = None\<rparr>"

definition denying_classifier :: "permission_context \<Rightarrow> classifier_result option" where
  "denying_classifier c = Some \<lparr>cl_behavior = Deny, cl_classifier = ''bash'', cl_reason = None,
     cl_updated_input = None, cl_confidence = None, cl_metadata = []\<rparr>"

definition auto_policy :: permission_policy where
  "auto_policy = make_policy ''auto'' [] (Some denying_classifier)"

section \<open>Witnesses\<close>

lemma git_rule_allows:
  "pd_behavior (fst (check (make_policy ''default'' [bash_rule ''Bash(git *)'' Allow] None)
     (bash_call ''git diff'' (RiskLevel DANGEROUS) []))) = Allow"
  by code_simp

lemma deny_rules_restrict_witness:
  "pd_behavior (fst (check (make_policy ''default'' [bash_rule ''Bash(git *)'' Allow] None)
       (bash_call ''git diff'' NoRisk [])))
    \<le> pd_behavior (fst (check ((make_policy ''default'' [bash_rule ''Bash(git *)'' Allow] None)
         \<lparr>pp_rules := [] @ [bash_rule ''Bash'' Deny] @ [bash_rule ''Bash(git *)'' Allow]\<rparr>)
       (bash_call ''git diff'' NoRisk [])))"
  by (rule deny_rules_restrict) (simp_all add: make_policy_def bash_rule_def)

lemma classifier_denials_end_in_a_prompt_witness:
  "pd_behavior (fst (check (after_checks 2 auto_policy (bash_call ''rm x'' NoRisk [])) (bash_call ''rm x'' NoRisk []))) = Ask"
proof -
  have "reachable_policy auto_policy" unfolding auto_policy_def reachable_policy_def by blast
  moreover have "classifier_denies auto_policy (bash_call ''rm x'' NoRisk [])" by code_simp
  ultimately show ?thesis by (rule classifier_denials_end_in_a_prompt) simp
qed

lemma prefix_pattern_matches_witness:
  "matches_tool_content (bash_call ''git diff'' NoRisk []) (''git '' @ ''*'')"
proof -
  have "\<forall>ch \<in> set ''git ''. \<not> glob_special ch" by (simp add: glob_special_def)
  from prefix_pattern_matches[OF this, of "bash_call ''git diff'' NoRisk []"] show ?thesis
    by (simp add: bash_call_def CONTENT_KEYS_def)
qed

definition refused :: permission_decision where
  "refused = fst (check (make_policy ''default'' [bash_rule ''Bash'' Deny] None) (bash_call ''ls'' NoRisk []))"

definition refused_chain :: "frame list" where
  "refused_chain = (case pd_frame refused of None \<Rightarrow> [] | Some f \<Rightarrow> f\<lparr>f_uuid := Some ''n''\<rparr> # ex_frames)"

text \<open>The frame of a refusal before the frames of the compaction example, compacted with them.\<close>

lemma permission_notice_survives_compaction_witness:
  "\<exists>f r. pd_frame refused = Some f
     \<and> compact_frames new_id 0 ((ex_request False)\<lparr>cq_chain := Some refused_chain\<rparr>) = Inr r \<and> cp_compacted r
     \<and> f\<lparr>f_uuid := Some ''n''\<rparr> \<in> set (compaction_frames r)"
proof -
  let ?q = "(ex_request False)\<lparr>cq_chain := Some refused_chain\<rparr>"
  have b: "pd_behavior refused \<noteq> Allow" by code_simp
  have "pd_frame refused \<noteq> None" by code_simp
  then obtain f where f: "pd_frame refused = Some f" by blast
  have "case compact_frames new_id 0 ?q of Inl e \<Rightarrow> False | Inr r \<Rightarrow> cp_compacted r" by code_simp
  then obtain r where r: "compact_frames new_id 0 ?q = Inr r" "cp_compacted r" by (auto split: sum.splits)
  have "list_ex (\<lambda>g. Some g = map_option (\<lambda>f. f\<lparr>f_uuid := Some ''n''\<rparr>) (pd_frame refused))
      (compaction_window new_id (Some refused_chain))" by code_simp
  with f have w: "f\<lparr>f_uuid := Some ''n''\<rparr> \<in> set (compaction_window new_id (cq_chain ?q))"
    by (auto simp: list_ex_iff)
  from permission_notice_survives_compaction[OF b[unfolded refused_def], folded refused_def] obtain g
    where g: "pd_frame refused = Some g" "\<And>uid fresh now q r. compact_frames fresh now q = Inr r \<Longrightarrow>
         g\<lparr>f_uuid := uid\<rparr> \<in> set (compaction_window fresh (cq_chain q)) \<Longrightarrow>
         g\<lparr>f_uuid := uid\<rparr> \<in> set (compaction_frames r)" by blast
  with f have "g = f" by simp
  with g(2)[OF r(1)] w have "f\<lparr>f_uuid := Some ''n''\<rparr> \<in> set (compaction_frames r)" by simp
  with f r show ?thesis by blast
qed

section \<open>Where the code and its comments part\<close>

lemma check_follows_documented_order_witness:
  "pd_behavior (fst (check auto_policy (bash_call ''ls'' (RiskLevel DANGEROUS) [hook Allow, hook Ask]))) = Ask"
proof -
  let ?c = "bash_call ''ls'' (RiskLevel DANGEROUS) [hook Allow, hook Ask]"
  have v: "hook_verdict ?c = Some Ask" by (simp add: hook_verdict_def bash_call_def hook_def)
  have s: "\<forall>b. hook_says ?c b \<longrightarrow> (\<exists>v. hook_verdict ?c = Some v \<and> b \<le> v)"
    unfolding v by (auto simp: hook_says_def bash_call_def hook_def less_eq_behavior_def)
  have "\<not> rule_says auto_policy ?c Deny" "\<not> hook_says ?c Deny" "hook_says ?c Ask"
    by (simp_all add: rule_says_def hook_says_def bash_call_def hook_def auto_policy_def make_policy_def)
  then show ?thesis by (simp add: check_follows_documented_order[OF s])
qed

text \<open>Two ways in which a refusal gets lost.  The last hook that decides replaces the ones before it,
  so a hook that allows undoes an earlier hook that denies, although a hook deny is documented as
  authoritative when no rule applies; and in \<open>dontAsk\<close> mode, which is to deny whatever would need a
  prompt, an ask rule still prompts.\<close>

lemma refusals_get_lost:
  "let c = bash_call ''rm -rf /'' (RiskLevel DANGEROUS) [hook Deny, hook Allow];
       p = make_policy ''default'' [] None;
       d = bash_call ''rm -rf /'' (RiskLevel DANGEROUS) [];
       q = make_policy ''dontAsk'' [bash_rule ''Bash'' Ask] None
   in pd_behavior (fst (check p c)) = Allow \<and> pd_behavior (fst (check p (c\<lparr>px_hooks := [hook Deny]\<rparr>))) = Deny
      \<and> pd_behavior (fst (check q d)) = Ask \<and> pd_behavior (fst (check (q\<lparr>pp_rules := []\<rparr>) d)) = Deny"
  by code_simp

end
