(* ===== verification/Playback_Machine.thy ===== *)
theory Playback_Machine
  imports State_Machine Viola_Prelude
begin

text \<open>
  The playback state machine (\<open>audio_core/state_machine.py\<close>): the transition table, validation, the
  transition itself with its history and the events it publishes, the commands and the queries.
  \<open>time.time()\<close> is the argument \<open>now\<close>.  Publishing is the list of events in the result (without
  their constant source): the code swallows an exception of the bus.  The lock makes every command one step.
\<close>

section \<open>States and the table\<close>

datatype playback_state = IDLE | LOADING | PLAYING | PAUSED | ERROR

fun state_value :: "playback_state \<Rightarrow> string" where
  "state_value IDLE = ''idle''"
| "state_value LOADING = ''loading''"
| "state_value PLAYING = ''playing''"
| "state_value PAUSED = ''paused''"
| "state_value ERROR = ''error''"

definition VALID_TRANSITIONS :: "(playback_state \<times> (string \<times> playback_state) list) list" where
  "VALID_TRANSITIONS =
    [(IDLE, [(''play'', LOADING), (''stop'', IDLE)]),
     (LOADING, [(''loaded'', PLAYING), (''error'', ERROR), (''stop'', IDLE), (''cancel'', IDLE)]),
     (PLAYING, [(''pause'', PAUSED), (''stop'', IDLE), (''end'', IDLE), (''error'', ERROR), (''skip'', LOADING)]),
     (PAUSED, [(''resume'', PLAYING), (''stop'', IDLE), (''error'', ERROR), (''skip'', LOADING)]),
     (ERROR, [(''retry'', LOADING), (''stop'', IDLE), (''clear'', IDLE)])]"

definition valid_targets :: "playback_state \<Rightarrow> (string \<times> playback_state) list" where
  "valid_targets s = (case map_of VALID_TRANSITIONS s of None \<Rightarrow> [] | Some ts \<Rightarrow> ts)"

record state_transition =
  tn_from :: playback_state
  tn_to :: playback_state
  tn_trigger :: string
  tn_timestamp :: int
  tn_now_playing_id :: "string option"
  tn_error_message :: "string option"

text \<open>\<open>StateTransitionError\<close>: the two states, the trigger and the reason.\<close>

datatype transition_error = StateTransitionError playback_state playback_state string string

datatype playback_event =
    PlaybackStateTransition string string string "string option" "string option"
  | PlaybackError string string "string option" bool

record playback_machine =
  pm_state :: playback_state
  pm_now_playing_id :: "string option"
  pm_error_message :: "string option"
  pm_error_code :: "string option"
  pm_history :: "state_transition list"
  pm_count :: nat

definition new_machine :: playback_machine where
  "new_machine = \<lparr>pm_state = IDLE, pm_now_playing_id = None, pm_error_message = None, pm_error_code = None,
     pm_history = [], pm_count = 0\<rparr>"

section \<open>Transitions\<close>

definition validate_transition :: "playback_machine \<Rightarrow> playback_state \<Rightarrow> string \<Rightarrow> transition_error option" where
  "validate_transition m to trigger = (let q = [CHR 0x27] in
     case map_of (valid_targets (pm_state m)) trigger of
       None \<Rightarrow> Some (StateTransitionError (pm_state m) to trigger
         (''Trigger '' @ q @ trigger @ q @ '' not allowed from state '' @ q @ state_value (pm_state m) @ q))
     | Some expected \<Rightarrow> if expected \<noteq> to
         then Some (StateTransitionError (pm_state m) to trigger
           (''Expected state '' @ q @ state_value expected @ q @ '' for trigger '' @ q @ trigger @ q
             @ '', got '' @ q @ state_value to @ q))
         else None)"

definition HISTORY_LIMIT :: nat where
  "HISTORY_LIMIT = 1000"

text \<open>\<open>append\<close>, then \<open>pop(0)\<close> when there are more than a thousand records.\<close>

definition add_history :: "state_transition list \<Rightarrow> state_transition \<Rightarrow> state_transition list" where
  "add_history h t = (let h' = h @ [t] in if length h' > HISTORY_LIMIT then tl h' else h')"

definition transition ::
    "int \<Rightarrow> playback_machine \<Rightarrow> playback_state \<Rightarrow> string \<Rightarrow> string option \<Rightarrow> string option \<Rightarrow> string option \<Rightarrow>
     transition_error + state_transition \<times> playback_machine \<times> playback_event list" where
  "transition now m to trigger track message code = (case validate_transition m to trigger of
      Some e \<Rightarrow> Inl e
    | None \<Rightarrow> (let
        t = \<lparr>tn_from = pm_state m, tn_to = to, tn_trigger = trigger, tn_timestamp = now,
             tn_now_playing_id = opt_or track (pm_now_playing_id m), tn_error_message = message\<rparr>;
        playing = (if track \<noteq> None then track else pm_now_playing_id m);
        message1 = (if message \<noteq> None then message else pm_error_message m);
        (message2, code2) = (if code \<noteq> None then (message1, code)
           else if to \<noteq> ERROR then (None, None) else (message1, pm_error_code m));
        m' = \<lparr>pm_state = to, pm_now_playing_id = playing, pm_error_message = message2, pm_error_code = code2,
              pm_history = add_history (pm_history m) t, pm_count = Suc (pm_count m)\<rparr>;
        events = [PlaybackStateTransition (state_value (pm_state m)) (state_value to) trigger playing message]
          @ (if to = ERROR \<and> opt_truthy message
             then [PlaybackError (opt_str (opt_or code (Some ''unknown''))) (opt_str message) playing True]
             else [])
        in Inr (t, m', events)))"

section \<open>Commands\<close>

text \<open>The methods; \<open>error\<close> has a third parameter, \<open>recoverable\<close>, that it does not read.\<close>

datatype playback_command =
    Play "string option" | Loaded | Pause | Resume | Stop | End | Skip
  | Fail string string bool | Retry | Cancel | ClearError

fun run_command ::
    "int \<Rightarrow> playback_command \<Rightarrow> playback_machine \<Rightarrow>
     transition_error + state_transition \<times> playback_machine \<times> playback_event list" where
  "run_command now (Play track) m = transition now m LOADING ''play'' track None None"
| "run_command now Loaded m = transition now m PLAYING ''loaded'' None None None"
| "run_command now Pause m = transition now m PAUSED ''pause'' None None None"
| "run_command now Resume m = transition now m PLAYING ''resume'' None None None"
| "run_command now Stop m = transition now m IDLE ''stop'' None None None"
| "run_command now End m = transition now m IDLE ''end'' None None None"
| "run_command now Skip m = transition now m LOADING ''skip'' None None None"
| "run_command now (Fail message code recoverable) m =
     transition now m ERROR ''error'' None (Some message) (Some code)"
| "run_command now Retry m = transition now m LOADING ''retry'' None None None"
| "run_command now Cancel m = transition now m IDLE ''cancel'' None None None"
| "run_command now ClearError m = transition now m IDLE ''clear'' None None None"

section \<open>Queries\<close>

definition get_error :: "playback_machine \<Rightarrow> (string \<times> string) option" where
  "get_error m = (if opt_truthy (pm_error_code m) \<and> opt_truthy (pm_error_message m)
     then Some (opt_str (pm_error_code m), opt_str (pm_error_message m)) else None)"

definition can_transition :: "playback_machine \<Rightarrow> string \<Rightarrow> bool" where
  "can_transition m trigger = (map_of (valid_targets (pm_state m)) trigger \<noteq> None)"

definition get_valid_transitions :: "playback_machine \<Rightarrow> string set" where
  "get_valid_transitions m = set (map fst (valid_targets (pm_state m)))"

definition get_transition_history :: "playback_machine \<Rightarrow> int \<Rightarrow> state_transition list" where
  "get_transition_history m limit = last_slice limit (pm_history m)"

text \<open>The triggers are listed in the order of the table; Python lists a set, in any order.\<close>

definition get_state_info :: "playback_machine \<Rightarrow> pydict" where
  "get_state_info m = [(''state'', PyStr (state_value (pm_state m))), (''now_playing_id'', opt_val (pm_now_playing_id m)),
     (''error_code'', opt_val (pm_error_code m)), (''error_message'', opt_val (pm_error_message m)),
     (''transition_count'', PyInt (int (pm_count m))),
     (''valid_transitions'', PyList (map (PyStr \<circ> fst) (valid_targets (pm_state m))))]"

end
