(* ===== verification/Playback_Properties.thy ===== *)
theory Playback_Properties
  imports Playback_Machine
begin

text \<open>
  What the playback machine guarantees: its runs follow the documented diagram, its history is a bounded
  record of the run without gaps, an error is visible in the error state only, and no state is a trap.
\<close>

section \<open>The diagram\<close>

text \<open>The diagram at the head of the module, and the four transitions of the table that it leaves out.\<close>

inductive diagram :: "playback_state \<Rightarrow> string \<Rightarrow> playback_state \<Rightarrow> bool" where
  play: "diagram IDLE ''play'' LOADING"
| loaded: "diagram LOADING ''loaded'' PLAYING"
| load_error: "diagram LOADING ''error'' ERROR"
| pause: "diagram PLAYING ''pause'' PAUSED"
| stop: "diagram PLAYING ''stop'' IDLE"
| finished: "diagram PLAYING ''end'' IDLE"
| play_error: "diagram PLAYING ''error'' ERROR"
| skip: "diagram PLAYING ''skip'' LOADING"
| resume: "diagram PAUSED ''resume'' PLAYING"
| pause_stop: "diagram PAUSED ''stop'' IDLE"
| pause_error: "diagram PAUSED ''error'' ERROR"
| pause_skip: "diagram PAUSED ''skip'' LOADING"
| retry: "diagram ERROR ''retry'' LOADING"
| error_stop: "diagram ERROR ''stop'' IDLE"

inductive undocumented :: "playback_state \<Rightarrow> string \<Rightarrow> playback_state \<Rightarrow> bool" where
  idle_stop: "undocumented IDLE ''stop'' IDLE"
| load_stop: "undocumented LOADING ''stop'' IDLE"
| load_cancel: "undocumented LOADING ''cancel'' IDLE"
| error_clear: "undocumented ERROR ''clear'' IDLE"

inductive_simps diagram_simps: "diagram IDLE t s" "diagram LOADING t s" "diagram PLAYING t s"
  "diagram PAUSED t s" "diagram ERROR t s"

inductive_simps undocumented_simps: "undocumented IDLE t s" "undocumented LOADING t s" "undocumented PLAYING t s"
  "undocumented PAUSED t s" "undocumented ERROR t s"

lemma table_diagram:
  "map_of (valid_targets s) trigger = Some s' \<longleftrightarrow> diagram s trigger s' \<or> undocumented s trigger s'"
  by (cases s) (auto simp: valid_targets_def VALID_TRANSITIONS_def diagram_simps undocumented_simps)

section \<open>Steps\<close>

fun command_trigger :: "playback_command \<Rightarrow> string" where
  "command_trigger (Play _) = ''play''"
| "command_trigger Loaded = ''loaded''"
| "command_trigger Pause = ''pause''"
| "command_trigger Resume = ''resume''"
| "command_trigger Stop = ''stop''"
| "command_trigger End = ''end''"
| "command_trigger Skip = ''skip''"
| "command_trigger (Fail _ _ _) = ''error''"
| "command_trigger Retry = ''retry''"
| "command_trigger Cancel = ''cancel''"
| "command_trigger ClearError = ''clear''"

fun command_target :: "playback_command \<Rightarrow> playback_state" where
  "command_target (Play _) = LOADING"
| "command_target Loaded = PLAYING"
| "command_target Pause = PAUSED"
| "command_target Resume = PLAYING"
| "command_target (Fail _ _ _) = ERROR"
| "command_target Skip = LOADING"
| "command_target Retry = LOADING"
| "command_target _ = IDLE"

lemma validate_None:
  "validate_transition m to trigger = None \<longleftrightarrow> map_of (valid_targets (pm_state m)) trigger = Some to"
  by (auto simp: validate_transition_def Let_def split: option.splits)

lemma table_target: "map_of (valid_targets s) (command_trigger c) = Some s' \<Longrightarrow> s' = command_target c"
  by (cases s; cases c) (auto simp: valid_targets_def VALID_TRANSITIONS_def)

lemma command_diagram:
  "(case run_command now c m of Inl e \<Rightarrow> False | Inr (t, m', evs) \<Rightarrow> pm_state m' = s')
    \<longleftrightarrow> diagram (pm_state m) (command_trigger c) s' \<or> undocumented (pm_state m) (command_trigger c) s'"
proof -
  have t: "(case transition now m to trigger a b d of Inl e \<Rightarrow> False | Inr (t, m', evs) \<Rightarrow> pm_state m' = s')
      \<longleftrightarrow> map_of (valid_targets (pm_state m)) trigger = Some to \<and> s' = to" for to trigger a b d
    using validate_None[of m to trigger]
    by (auto simp: transition_def Let_def split_beta split: option.splits)
  have "(case run_command now c m of Inl e \<Rightarrow> False | Inr (t, m', evs) \<Rightarrow> pm_state m' = s')
      \<longleftrightarrow> map_of (valid_targets (pm_state m)) (command_trigger c) = Some (command_target c) \<and> s' = command_target c"
    by (cases c) (simp_all add: t)
  also have "\<dots> \<longleftrightarrow> map_of (valid_targets (pm_state m)) (command_trigger c) = Some s'"
    using table_target by auto
  finally show ?thesis unfolding table_diagram .
qed

text \<open>C19: The machine does what its diagram says: a command succeeds exactly where the diagram has its
  trigger, or the table one of the four transitions the diagram leaves out (stop while idle or loading,
  cancel, clear), and it then ends in the state drawn there; otherwise it raises and changes nothing.\<close>

theorem command_follows_diagram:
  "(case run_command now c m of Inl e \<Rightarrow> False | Inr (t, m', evs) \<Rightarrow> pm_state m' = s')
    \<longleftrightarrow> diagram (pm_state m) (command_trigger c) s' \<or> undocumented (pm_state m) (command_trigger c) s'"
  by (rule command_diagram)

section \<open>Reachable machines\<close>

inductive playback_step :: "playback_machine \<Rightarrow> playback_machine \<Rightarrow> bool" where
  command: "run_command now c m = Inr (t, m', evs) \<Longrightarrow> playback_step m m'"

definition valid_record :: "state_transition \<Rightarrow> bool" where
  "valid_record t = (map_of (valid_targets (tn_from t)) (tn_trigger t) = Some (tn_to t))"

text \<open>The history is bounded, every record is a transition of the table, each starts where the one
  before it ended, and the last ended in the current state; an error is set in the error state only.\<close>

definition machine_ok :: "playback_machine \<Rightarrow> bool" where
  "machine_ok m = (length (pm_history m) = min (pm_count m) HISTORY_LIMIT
     \<and> list_all valid_record (pm_history m)
     \<and> successively (\<lambda>a b. tn_to a = tn_from b) (pm_history m)
     \<and> (pm_history m \<noteq> [] \<longrightarrow> tn_to (last (pm_history m)) = pm_state m)
     \<and> (if pm_state m = ERROR then pm_error_code m \<noteq> None \<and> pm_error_message m \<noteq> None
        else pm_error_code m = None \<and> pm_error_message m = None))"

lemma add_history_ok:
  assumes "list_all valid_record h" "successively (\<lambda>a b. tn_to a = tn_from b) h"
    "h \<noteq> [] \<longrightarrow> tn_to (last h) = tn_from t" "valid_record t" "length h = min n HISTORY_LIMIT"
  shows "list_all valid_record (add_history h t)" "successively (\<lambda>a b. tn_to a = tn_from b) (add_history h t)"
    "add_history h t \<noteq> [] \<and> last (add_history h t) = t" "length (add_history h t) = min (Suc n) HISTORY_LIMIT"
proof -
  have s: "successively (\<lambda>a b. tn_to a = tn_from b) (h @ [t])" "list_all valid_record (h @ [t])"
    using assms by (auto simp: successively_append_iff)
  have tl: "successively P (tl xs)" if "successively P xs" for P and xs :: "state_transition list"
    using that by (cases xs; cases "tl xs") auto
  have ta: "list_all P (tl xs)" if "list_all P xs" for P and xs :: "state_transition list"
    using that by (cases xs) auto
  show "list_all valid_record (add_history h t)" "successively (\<lambda>a b. tn_to a = tn_from b) (add_history h t)"
    using s tl[OF s(1)] ta[OF s(2)] by (simp_all add: add_history_def Let_def)
  have "HISTORY_LIMIT > 0" by (simp add: HISTORY_LIMIT_def)
  with assms(5) show "add_history h t \<noteq> [] \<and> last (add_history h t) = t"
    "length (add_history h t) = min (Suc n) HISTORY_LIMIT"
    by (cases h; auto simp: add_history_def Let_def)+
qed

lemma transition_ok:
  assumes "transition now m to trigger track message code = Inr (t, m', evs)" "machine_ok m"
    and "to = ERROR \<longleftrightarrow> code \<noteq> None" "message = None \<longleftrightarrow> code = None"
  shows "machine_ok m'"
proof -
  have v: "map_of (valid_targets (pm_state m)) trigger = Some to"
    using assms(1) by (simp add: transition_def validate_None[symmetric] split: option.splits)
  have m': "pm_state m' = to" "pm_history m' = add_history (pm_history m) t" "pm_count m' = Suc (pm_count m)"
    "tn_from t = pm_state m" "tn_to t = to" "tn_trigger t = trigger"
    "pm_error_code m' = code" "pm_error_message m' = message"
    using assms(1,3,4) by (auto simp: transition_def Let_def split_beta split: option.splits)
  have "valid_record t" using v by (simp add: valid_record_def m')
  with assms(2) add_history_ok[of "pm_history m" t "pm_count m"] assms(3,4) show ?thesis
    by (auto simp: machine_ok_def m')
qed

lemma run_command_ok: "run_command now c m = Inr (t, m', evs) \<Longrightarrow> machine_ok m \<Longrightarrow> machine_ok m'"
  by (cases c; simp only: run_command.simps; erule transition_ok; simp)

interpretation playback: invariant_machine "\<lambda>m. m = new_machine" playback_step machine_ok
proof
  show "machine_ok m" if "m = new_machine" for m
    using that by (simp add: machine_ok_def new_machine_def)
  show "machine_ok m'" if "machine_ok m" "playback_step m m'" for m m'
    using that(2,1) by cases (rule run_command_ok)
qed

text \<open>C20: The history of every reachable machine is a faithful record: it holds the last thousand
  transitions (all of them, when there were fewer), each allowed by the table and starting where the one
  before it ended, the last ending in the current state; and an error is reported exactly while the
  machine is in the error state.\<close>

theorem reachable_machine_ok:
  assumes "playback_step\<^sup>*\<^sup>* new_machine m"
  shows "length (pm_history m) = min (pm_count m) HISTORY_LIMIT \<and> list_all valid_record (pm_history m)
    \<and> successively (\<lambda>a b. tn_to a = tn_from b) (pm_history m)
    \<and> (pm_history m = [] \<or> tn_to (last (pm_history m)) = pm_state m)
    \<and> (pm_state m = ERROR \<longleftrightarrow> pm_error_code m \<noteq> None) \<and> (pm_state m = ERROR \<longleftrightarrow> pm_error_message m \<noteq> None)"
  using playback.reachable_inv[OF refl assms] by (auto simp: machine_ok_def split: if_splits)

section \<open>No traps\<close>

lemma command_steps:
  assumes "diagram (pm_state m) (command_trigger c) s' \<or> undocumented (pm_state m) (command_trigger c) s'"
  shows "\<exists>m'. playback_step m m' \<and> pm_state m' = s'"
proof -
  from assms have "case run_command 0 c m of Inl e \<Rightarrow> False | Inr (t, m', evs) \<Rightarrow> pm_state m' = s'"
    by (simp only: command_diagram)
  then show ?thesis by (auto split: sum.splits intro: playback_step.intros)
qed

text \<open>No state of the player is a trap: from any machine three commands (stop, play, loaded) lead to
  playing.\<close>

lemma playing_is_reachable:
  "\<exists>m'. (playback_step ^^ 3) m m' \<and> pm_state m' = PLAYING"
proof -
  have "diagram (pm_state m) ''stop'' IDLE \<or> undocumented (pm_state m) ''stop'' IDLE"
    by (cases "pm_state m") (simp_all add: diagram_simps undocumented_simps)
  then obtain m1 where m1: "playback_step m m1" "pm_state m1 = IDLE"
    using command_steps[of m Stop IDLE] by auto
  then obtain m2 where m2: "playback_step m1 m2" "pm_state m2 = LOADING"
    using command_steps[of m1 "Play None" LOADING] by (auto simp: diagram_simps)
  then obtain m3 where m3: "playback_step m2 m3" "pm_state m3 = PLAYING"
    using command_steps[of m2 Loaded PLAYING] by (auto simp: diagram_simps)
  have "(playback_step ^^ 3) m m3" using m1(1) m2(1) m3(1) by (auto simp: numeral_3_eq_3)
  with m3(2) show ?thesis by blast
qed

section \<open>Witness\<close>

lemma reachable_machine_ok_witness:
  "\<exists>m. playback_step\<^sup>*\<^sup>* new_machine m \<and> pm_state m = ERROR \<and> pm_error_code m \<noteq> None"
proof -
  obtain m1 where m1: "playback_step new_machine m1" "pm_state m1 = LOADING"
    using command_steps[of new_machine "Play None" LOADING] by (auto simp: diagram_simps new_machine_def)
  obtain m2 where m2: "playback_step m1 m2" "pm_state m2 = ERROR"
    using command_steps[of m1 "Fail ''x'' ''y'' True" ERROR] m1(2) by (auto simp: diagram_simps)
  have r: "playback_step\<^sup>*\<^sup>* new_machine m2" using m1(1) m2(1) by simp
  with reachable_machine_ok[OF r] m2(2) show ?thesis by blast
qed

section \<open>Where the code and its comments part\<close>

text \<open>The diagnostics ask for the last \<open>limit\<close> records; asking for none returns all of them.\<close>

lemma history_of_length_zero: "get_transition_history m 0 = pm_history m"
  by (simp add: get_transition_history_def last_slice_0)

text \<open>The parameter \<open>recoverable\<close> of \<open>error\<close> is not read: the event always says the error is recoverable.\<close>

lemma recoverable_is_ignored: "run_command now (Fail message code r) m = run_command now (Fail message code r') m"
  by simp

end
