(* ===== verification/Queue_History.thy ===== *)
theory Queue_History
  imports Viola_Prelude
begin

text \<open>
  The history of queue operations (\<open>diagnostics/queue_history.py\<close>): the events and the bounded log with
  its sequence numbers, the detection of repeated starts, the completion guard, the double-completion
  check, the skip deduplication and the records of violated invariants.  \<open>time.time()\<close> is the argument
  \<open>now\<close>, in whole milliseconds.  Locks and log output are left out.
\<close>

section \<open>Events\<close>

datatype queue_event_type =
    QE_ADD | QE_REMOVE | QE_POP | QE_ADVANCE | QE_COMPLETE | QE_CLEAR | QE_REORDER | QE_RESTORE
  | QE_PLAY_START_REQUEST | QE_PLAY_STARTED | QE_PLAY_ERROR | QE_PLAY_SKIP_CALLED | QE_PLAY_SKIP_DEDUP
  | QE_PLAY_PAUSE | QE_PLAY_RESUME | QE_PLAY_STOP
  | QE_INTENT_DISPATCH | QE_INTENT_RECEIVE | QE_INTENT_DUPLICATE_IGNORED
  | QE_INVARIANT_VIOLATION | QE_INVARIANT_DOUBLE_COMPLETE | QE_INVARIANT_STATE_DESYNC
  | QE_INVARIANT_NO_CURRENT | QE_INVARIANT_REPEATED_START | QE_INVARIANT_COMPLETION_GUARD
  | QE_INVARIANT_MISSING_CORRELATION_ID | QE_INVARIANT_RAPID_REPEATED_START

fun event_value :: "queue_event_type \<Rightarrow> string" where
  "event_value QE_ADD = ''QUEUE_ADD''"
| "event_value QE_REMOVE = ''QUEUE_REMOVE''"
| "event_value QE_POP = ''QUEUE_POP''"
| "event_value QE_ADVANCE = ''QUEUE_ADVANCE''"
| "event_value QE_COMPLETE = ''QUEUE_COMPLETE''"
| "event_value QE_CLEAR = ''QUEUE_CLEAR''"
| "event_value QE_REORDER = ''QUEUE_REORDER''"
| "event_value QE_RESTORE = ''QUEUE_RESTORE''"
| "event_value QE_PLAY_START_REQUEST = ''PLAY_START_REQUEST''"
| "event_value QE_PLAY_STARTED = ''PLAY_STARTED''"
| "event_value QE_PLAY_ERROR = ''PLAY_ERROR''"
| "event_value QE_PLAY_SKIP_CALLED = ''PLAY_SKIP_CALLED''"
| "event_value QE_PLAY_SKIP_DEDUP = ''PLAY_SKIP_DEDUP''"
| "event_value QE_PLAY_PAUSE = ''PLAY_PAUSE''"
| "event_value QE_PLAY_RESUME = ''PLAY_RESUME''"
| "event_value QE_PLAY_STOP = ''PLAY_STOP''"
| "event_value QE_INTENT_DISPATCH = ''INTENT_DISPATCH''"
| "event_value QE_INTENT_RECEIVE = ''INTENT_RECEIVE''"
| "event_value QE_INTENT_DUPLICATE_IGNORED = ''INTENT_DUPLICATE_IGNORED''"
| "event_value QE_INVARIANT_VIOLATION = ''INVARIANT_VIOLATION''"
| "event_value QE_INVARIANT_DOUBLE_COMPLETE = ''INVARIANT_DOUBLE_COMPLETE''"
| "event_value QE_INVARIANT_STATE_DESYNC = ''INVARIANT_STATE_DESYNC''"
| "event_value QE_INVARIANT_NO_CURRENT = ''INVARIANT_NO_CURRENT''"
| "event_value QE_INVARIANT_REPEATED_START = ''INVARIANT_REPEATED_START''"
| "event_value QE_INVARIANT_COMPLETION_GUARD = ''INVARIANT_COMPLETION_GUARD''"
| "event_value QE_INVARIANT_MISSING_CORRELATION_ID = ''INVARIANT_MISSING_CORRELATION_ID''"
| "event_value QE_INVARIANT_RAPID_REPEATED_START = ''INVARIANT_RAPID_REPEATED_START''"

record queue_event =
  qe_event :: queue_event_type
  qe_seq :: nat
  qe_ts :: int
  qe_track_id :: "string option"
  qe_title :: "string option"
  qe_queue_pos :: "nat option"
  qe_current_id :: "string option"
  qe_next_id :: "string option"
  qe_from_id :: "string option"
  qe_to_id :: "string option"
  qe_reason :: "string option"
  qe_outcome :: "string option"
  qe_command_id :: "string option"
  qe_correlation_id :: "string option"
  qe_attempt :: "nat option"
  qe_queue_length :: "nat option"
  qe_extra :: pydict

text \<open>An event with the defaults of the dataclass.\<close>

definition new_event :: "int \<Rightarrow> queue_event_type \<Rightarrow> queue_event" where
  "new_event now e = \<lparr>qe_event = e, qe_seq = 0, qe_ts = now, qe_track_id = None, qe_title = None, qe_queue_pos = None,
     qe_current_id = None, qe_next_id = None, qe_from_id = None, qe_to_id = None, qe_reason = None, qe_outcome = None,
     qe_command_id = None, qe_correlation_id = None, qe_attempt = None, qe_queue_length = None, qe_extra = []\<rparr>"

fun nat_val :: "nat option \<Rightarrow> pyval" where
  "nat_val None = PyNone"
| "nat_val (Some n) = PyInt (int n)"

text \<open>\<open>to_dict\<close>: the fields in order, without those that are \<open>None\<close> and without a zero \<open>seq\<close>.\<close>

definition event_dict :: "queue_event \<Rightarrow> pydict" where
  "event_dict e = filter (\<lambda>(k, v). v \<noteq> PyNone \<and> \<not> (k = ''seq'' \<and> v = PyInt 0))
    [(''event'', PyStr (event_value (qe_event e))), (''seq'', PyInt (int (qe_seq e))), (''ts'', PyInt (qe_ts e)),
     (''track_id'', opt_val (qe_track_id e)), (''title'', opt_val (qe_title e)),
     (''queue_pos'', nat_val (qe_queue_pos e)), (''current_id'', opt_val (qe_current_id e)),
     (''next_id'', opt_val (qe_next_id e)), (''from_id'', opt_val (qe_from_id e)), (''to_id'', opt_val (qe_to_id e)),
     (''reason'', opt_val (qe_reason e)), (''outcome'', opt_val (qe_outcome e)),
     (''command_id'', opt_val (qe_command_id e)), (''correlation_id'', opt_val (qe_correlation_id e)),
     (''attempt'', nat_val (qe_attempt e)), (''queue_length'', nat_val (qe_queue_length e)),
     (''extra'', PyDict (qe_extra e))]"

section \<open>The manager\<close>

record active_attempt =
  aa_track_id :: string
  aa_correlation_id :: string
  aa_start_seq :: nat
  aa_start_ts :: int
  aa_start_count :: nat

record queue_history =
  qh_maxlen :: nat
  qh_events :: "queue_event list"
  qh_seq :: nat
  qh_last_completed :: "string option"
  qh_completion_count :: "string \<rightharpoonup> nat"
  qh_completed :: "string \<rightharpoonup> nat"
  qh_skips :: "string \<rightharpoonup> nat"
  qh_active :: "active_attempt option"
  qh_completion_seq :: "string \<rightharpoonup> nat"
  qh_start_seq :: "string \<rightharpoonup> nat"

definition new_history :: "nat \<Rightarrow> queue_history" where
  "new_history maxlen = \<lparr>qh_maxlen = maxlen, qh_events = [], qh_seq = 0, qh_last_completed = None,
     qh_completion_count = Map.empty, qh_completed = Map.empty, qh_skips = Map.empty, qh_active = None,
     qh_completion_seq = Map.empty, qh_start_seq = Map.empty\<rparr>"

text \<open>\<open>clear\<close> keeps the capacity of the log only.\<close>

definition clear_history :: "queue_history \<Rightarrow> queue_history" where
  "clear_history h = new_history (qh_maxlen h)"

definition count_of :: "(string \<rightharpoonup> nat) \<Rightarrow> string \<Rightarrow> nat" where
  "count_of m k = (case m k of None \<Rightarrow> 0 | Some n \<Rightarrow> n)"

text \<open>\<open>event.seq = self._next_seq()\<close> and the append to the bounded log.\<close>

definition log_event :: "queue_event \<Rightarrow> queue_history \<Rightarrow> queue_history" where
  "log_event e h = h\<lparr>qh_seq := Suc (qh_seq h),
     qh_events := push_bounded (qh_maxlen h) (qh_events h) (e\<lparr>qe_seq := Suc (qh_seq h)\<rparr>)\<rparr>"

definition record_event :: "queue_event \<Rightarrow> queue_history \<Rightarrow> nat \<times> queue_history" where
  "record_event e h = (qh_seq (log_event e h), log_event e h)"

definition get_recent ::
    "int \<Rightarrow> nat option \<Rightarrow> string option \<Rightarrow> string option \<Rightarrow> string option \<Rightarrow> queue_history \<Rightarrow> pydict list" where
  "get_recent limit since track command correlation h = (let
     es = qh_events h;
     es = (case since of None \<Rightarrow> es | Some n \<Rightarrow> filter (\<lambda>e. qe_seq e > n) es);
     es = (if track \<noteq> None then filter (\<lambda>e. qe_track_id e = track) es else es);
     es = (if command \<noteq> None then filter (\<lambda>e. qe_command_id e = command) es else es);
     es = (if correlation \<noteq> None then filter (\<lambda>e. qe_correlation_id e = correlation) es else es)
     in map event_dict (last_slice limit es))"

definition get_all :: "queue_history \<Rightarrow> pydict list" where
  "get_all h = map event_dict (qh_events h)"

section \<open>Repeated starts\<close>

definition REPEATED_START_GRACE_MS :: int where "REPEATED_START_GRACE_MS = 250"
definition RAPID_START_THRESHOLD :: nat where "RAPID_START_THRESHOLD = 3"
definition RAPID_START_WINDOW_MS :: int where "RAPID_START_WINDOW_MS = 5000"

definition start_event ::
    "int \<Rightarrow> queue_event_type \<Rightarrow> string \<Rightarrow> string \<Rightarrow> string \<Rightarrow> active_attempt \<Rightarrow> nat \<Rightarrow> nat \<Rightarrow> nat \<Rightarrow> int \<Rightarrow> queue_event" where
  "start_event now e reason track corr a last_start last_completion count elapsed = (new_event now e)
     \<lparr>qe_track_id := Some track, qe_correlation_id := Some corr, qe_reason := Some reason,
      qe_extra := [(''active_correlation_id'', PyStr (aa_correlation_id a)),
        (''active_start_seq'', PyInt (int (aa_start_seq a))), (''last_start_seq'', PyInt (int last_start)),
        (''last_completion_seq'', PyInt (int last_completion)), (''start_count'', PyInt (int count)),
        (''elapsed_ms'', PyInt elapsed)]\<rparr>"

text \<open>The check against the active attempt: whether the start repeats it, and the number of starts of
  this track without a completion.\<close>

definition check_start ::
    "int \<Rightarrow> string \<Rightarrow> string \<Rightarrow> queue_history \<Rightarrow> bool \<times> nat \<times> queue_history" where
  "check_start now track corr h = (let
     last_completion = count_of (qh_completion_seq h) track; last_start = count_of (qh_start_seq h) track
     in case qh_active h of
       None \<Rightarrow> (False, 1, h)
     | Some a \<Rightarrow> (if aa_track_id a \<noteq> track then (False, 1, h)
       else (let
         count = (if last_completion \<ge> aa_start_seq a then 1 else Suc (aa_start_count a));
         elapsed = now - aa_start_ts a;
         ev = (\<lambda>e reason. start_event now e reason track corr a last_start last_completion count elapsed)
         in if count \<ge> RAPID_START_THRESHOLD \<and> elapsed \<le> RAPID_START_WINDOW_MS
            then (if last_completion < aa_start_seq a
                  then (True, count, log_event (ev QE_INVARIANT_RAPID_REPEATED_START
                          ''rapid_repeated_start_without_complete'') h)
                  else (False, count, h))
            else if last_completion < aa_start_seq a \<and> elapsed > REPEATED_START_GRACE_MS
            then (True, count, log_event (ev QE_INVARIANT_REPEATED_START ''repeated_start_without_complete'') h)
            else (False, count, h))))"

definition register_playback_start ::
    "int \<Rightarrow> string \<Rightarrow> string \<Rightarrow> queue_history \<Rightarrow> bool \<times> queue_history" where
  "register_playback_start now track corr h = (let (repeated, count, h1) = check_start now track corr h;
     seq = Suc (qh_seq h1)
     in (repeated, h1\<lparr>qh_active := Some \<lparr>aa_track_id = track, aa_correlation_id = corr, aa_start_seq = seq,
            aa_start_ts = now, aa_start_count = count\<rparr>,
          qh_start_seq := (qh_start_seq h1)(track \<mapsto> seq)\<rparr>))"

definition clear_active_playback :: "string \<Rightarrow> string \<Rightarrow> nat \<Rightarrow> queue_history \<Rightarrow> queue_history" where
  "clear_active_playback track corr completion_seq h = (let
     h1 = (case qh_active h of
         None \<Rightarrow> h
       | Some a \<Rightarrow> if aa_track_id a = track \<and> aa_correlation_id a = corr then h\<lparr>qh_active := None\<rparr> else h)
     in h1\<lparr>qh_completion_seq := (qh_completion_seq h1)(track \<mapsto> completion_seq)\<rparr>)"

section \<open>Completions and skips\<close>

definition log_missing_correlation_id :: "int \<Rightarrow> string \<Rightarrow> string \<Rightarrow> queue_history \<Rightarrow> queue_history" where
  "log_missing_correlation_id now track ctx h = log_event ((new_event now QE_INVARIANT_MISSING_CORRELATION_ID)
     \<lparr>qe_track_id := Some track, qe_reason := Some (''missing_correlation_id_'' @ ctx),
      qe_extra := [(''context'', PyStr ctx)]\<rparr>) h"

definition attempt_key :: "string \<Rightarrow> string \<Rightarrow> string" where
  "attempt_key track corr = track @ '':'' @ corr"

definition check_completion_guard ::
    "int \<Rightarrow> string \<Rightarrow> string option \<Rightarrow> queue_history \<Rightarrow> bool \<times> queue_history" where
  "check_completion_guard now track corr h0 = (let
     (effective, h) = (case corr of
         None \<Rightarrow> (''__no_corr__'', log_missing_correlation_id now track ''completion'' h0)
       | Some c \<Rightarrow> (c, h0));
     key = attempt_key track effective
     in case qh_completed h key of
       Some prev \<Rightarrow> (True, log_event ((new_event now QE_INVARIANT_COMPLETION_GUARD)
           \<lparr>qe_track_id := Some track, qe_correlation_id := corr, qe_reason := Some ''completion_guard_triggered'',
            qe_extra := [(''previous_completion_seq'', PyInt (int prev))]\<rparr>) h)
     | None \<Rightarrow> (False, h\<lparr>qh_completed := (qh_completed h)(key \<mapsto> Suc (qh_seq h))\<rparr>))"

definition check_double_complete :: "int \<Rightarrow> string \<Rightarrow> queue_history \<Rightarrow> bool \<times> queue_history" where
  "check_double_complete now track h = (let n = Suc (count_of (qh_completion_count h) track);
     counts = (qh_completion_count h)(track \<mapsto> n)
     in if qh_last_completed h = Some track
        then (True, log_event ((new_event now QE_INVARIANT_DOUBLE_COMPLETE)
          \<lparr>qe_track_id := Some track, qe_reason := Some (''Double completion attempt #'' @ nat_str n),
           qe_extra := [(''completion_count'', PyInt (int n))]\<rparr>) (h\<lparr>qh_completion_count := counts\<rparr>))
        else (False, h\<lparr>qh_last_completed := Some track, qh_completion_count := counts\<rparr>))"

definition check_skip_dedup ::
    "int \<Rightarrow> string \<Rightarrow> string option \<Rightarrow> queue_history \<Rightarrow> bool \<times> queue_history" where
  "check_skip_dedup now track corr h = (case corr of
       None \<Rightarrow> (False, h)
     | Some c \<Rightarrow> (case qh_skips h (attempt_key track c) of
         Some prev \<Rightarrow> (True, log_event ((new_event now QE_PLAY_SKIP_DEDUP)
           \<lparr>qe_track_id := Some track, qe_correlation_id := corr, qe_reason := Some ''skip_dedup_triggered'',
            qe_extra := [(''previous_skip_seq'', PyInt (int prev))]\<rparr>) h)
       | None \<Rightarrow> (False, h\<lparr>qh_skips := (qh_skips h)(attempt_key track c \<mapsto> Suc (qh_seq h))\<rparr>)))"

section \<open>Violations\<close>

text \<open>\<open>{"expected": expected, "actual": actual, **(context or {})}\<close>\<close>

definition record_invariant_violation ::
    "int \<Rightarrow> string \<Rightarrow> string option \<Rightarrow> string option \<Rightarrow> string option \<Rightarrow> pyval \<Rightarrow> pyval \<Rightarrow> pydict \<Rightarrow>
     queue_history \<Rightarrow> queue_history" where
  "record_invariant_violation now violation track corr current expected actual ctx h =
     snd (record_event ((new_event now QE_INVARIANT_VIOLATION)
       \<lparr>qe_track_id := track, qe_correlation_id := corr, qe_current_id := current, qe_reason := Some violation,
        qe_extra := fold (\<lambda>(k, v) d. py_set k v d) ctx [(''expected'', expected), (''actual'', actual)]\<rparr>) h)"

definition check_invariant ::
    "int \<Rightarrow> bool \<Rightarrow> string \<Rightarrow> string option \<Rightarrow> string option \<Rightarrow> string option \<Rightarrow> pyval \<Rightarrow> pyval \<Rightarrow> pydict \<Rightarrow>
     queue_history \<Rightarrow> bool \<times> queue_history" where
  "check_invariant now condition violation track corr current expected actual ctx h =
     (condition, if condition then h else record_invariant_violation now violation track corr current expected actual ctx h)"

end
