(* ===== verification/Queue_History_Properties.thy ===== *)
theory Queue_History_Properties
  imports State_Machine Queue_History
begin

text \<open>
  What the queue history guarantees: its log is a gapless numbered window of the run, the completion
  guard and the skip deduplication let every attempt pass once, and a track that is started over and
  over without a completion is reported.
\<close>

section \<open>The log\<close>

lemma log_event_simps [simp]:
  "qh_seq (log_event e h) = Suc (qh_seq h)" "qh_maxlen (log_event e h) = qh_maxlen h"
  "qh_completed (log_event e h) = qh_completed h" "qh_skips (log_event e h) = qh_skips h"
  "qh_active (log_event e h) = qh_active h" "qh_completion_seq (log_event e h) = qh_completion_seq h"
  "qh_last_completed (log_event e h) = qh_last_completed h" "qh_start_seq (log_event e h) = qh_start_seq h"
  "qh_completion_count (log_event e h) = qh_completion_count h"
  by (simp_all add: log_event_def)

inductive history_step :: "queue_history \<Rightarrow> queue_history \<Rightarrow> bool" where
  recorded: "history_step h (snd (record_event e h))"
| violated: "history_step h (record_invariant_violation now v t c cur x y ctx h)"
| missing: "history_step h (log_missing_correlation_id now t ctx h)"
| started: "history_step h (snd (register_playback_start now t c h))"
| completed: "n \<le> qh_seq h \<Longrightarrow> history_step h (clear_active_playback t c n h)"
| guarded: "history_step h (snd (check_completion_guard now t corr h))"
| double: "history_step h (snd (check_double_complete now t h))"
| skipped: "history_step h (snd (check_skip_dedup now t corr h))"
| cleared: "history_step h (clear_history h)"

definition log_ok :: "queue_history \<Rightarrow> bool" where
  "log_ok h = (map qe_seq (qh_events h) = [Suc (qh_seq h) - length (qh_events h) ..< Suc (qh_seq h)]
     \<and> length (qh_events h) = min (qh_seq h) (qh_maxlen h))"

lemma log_ok_log_event: "log_ok h \<Longrightarrow> log_ok (log_event e h)"
proof -
  assume h: "log_ok h"
  let ?n = "qh_seq h" and ?m = "qh_maxlen h" and ?es = "qh_events h"
  have m: "map qe_seq ?es = [Suc ?n - length ?es ..< Suc ?n]" and l: "length ?es = min ?n ?m"
    using h by (simp_all add: log_ok_def)
  have "map qe_seq (qh_events (log_event e h)) = drop (Suc (length ?es) - ?m) ([Suc ?n - length ?es ..< Suc ?n] @ [Suc ?n])"
    using m by (simp add: log_event_def push_bounded_def Let_def drop_map[symmetric] del: upt_Suc drop_append)
  also have "[Suc ?n - length ?es ..< Suc ?n] @ [Suc ?n] = [Suc ?n - length ?es ..< Suc (Suc ?n)]"
    by (rule upt_Suc_append[symmetric]) simp
  finally have "map qe_seq (qh_events (log_event e h)) = [Suc ?n - length ?es + (Suc (length ?es) - ?m) ..< Suc (Suc ?n)]"
    by (simp only: drop_upt)
  moreover have "length (qh_events (log_event e h)) = min (Suc ?n) ?m"
    using l by (simp add: log_event_def length_push_bounded)
  moreover have "Suc ?n - length ?es + (Suc (length ?es) - ?m) = Suc (Suc ?n) - min (Suc ?n) ?m"
    using l by (auto simp: min_def)
  ultimately show ?thesis by (simp add: log_ok_def del: upt_Suc)
qed

lemma check_start_log: "snd (snd (check_start now t c h)) = h \<or> (\<exists>e. snd (snd (check_start now t c h)) = log_event e h)"
  unfolding check_start_def Let_def by (auto split: option.splits)

text \<open>The other operations change the tables or the log by one event.\<close>

definition same_log :: "queue_history \<Rightarrow> queue_history \<Rightarrow> bool" where
  "same_log h h' = (qh_seq h' = qh_seq h \<and> qh_events h' = qh_events h \<and> qh_maxlen h' = qh_maxlen h)"

lemma log_ok_same: "same_log h h' \<Longrightarrow> log_ok h \<Longrightarrow> log_ok h'"
  by (simp add: same_log_def log_ok_def)

lemma step_log: "history_step h h' \<Longrightarrow> log_ok h \<Longrightarrow> log_ok h'"
proof (induction rule: history_step.induct)
  case (started h now t c)
  have "same_log (snd (snd (check_start now t c h))) (snd (register_playback_start now t c h))"
    by (simp add: register_playback_start_def Let_def split_beta same_log_def)
  moreover have "log_ok (snd (snd (check_start now t c h)))"
    using check_start_log[of now t c h] started log_ok_log_event by auto
  ultimately show ?case by (rule log_ok_same)
next
  case (completed n h t c)
  have "same_log h (clear_active_playback t c n h)"
    by (simp add: clear_active_playback_def Let_def same_log_def split: option.splits)
  then show ?case using completed(2) by (rule log_ok_same)
next
  case (guarded h now t corr)
  have "log_ok (g\<lparr>qh_completed := k\<rparr>)" if "log_ok g" for g k
    using that by (simp add: log_ok_def)
  then show ?case using guarded log_ok_log_event
    by (auto simp: check_completion_guard_def Let_def log_missing_correlation_id_def split: option.splits)
next
  case (double h now t)
  have "log_ok (h\<lparr>qh_completion_count := k\<rparr>)" for k
    using double by (simp add: log_ok_def)
  then show ?case using double
    by (auto simp: check_double_complete_def Let_def log_ok_log_event log_ok_def[of "_\<lparr>qh_last_completed := _, qh_completion_count := _\<rparr>"] )
       (simp_all add: log_ok_def)
next
  case (skipped h now t corr)
  then show ?case
    by (auto simp: check_skip_dedup_def log_ok_log_event split: option.splits)
       (simp_all add: log_ok_def)
next
  case (cleared h)
  then show ?case by (simp add: clear_history_def new_history_def log_ok_def)
qed (simp_all add: record_event_def record_invariant_violation_def log_missing_correlation_id_def log_ok_log_event)

text \<open>The seq a completion records is that of an event, so at most the counter.\<close>

definition completions_ok :: "queue_history \<Rightarrow> bool" where
  "completions_ok h = (\<forall>t. count_of (qh_completion_seq h) t \<le> qh_seq h)"

lemma completions_ok_mono:
  "completions_ok h \<Longrightarrow> qh_completion_seq h' = qh_completion_seq h \<Longrightarrow> qh_seq h \<le> qh_seq h' \<Longrightarrow> completions_ok h'"
  by (auto simp: completions_ok_def intro: le_trans)

lemma started_ok: "completions_ok h \<Longrightarrow> completions_ok (snd (register_playback_start now t c h))"
  using check_start_log[of now t c h]
  by (elim completions_ok_mono) (auto simp: register_playback_start_def Let_def split_beta)

lemma step_completions: "history_step h h' \<Longrightarrow> completions_ok h \<Longrightarrow> completions_ok h'"
proof (induction rule: history_step.induct)
  case (completed n h t c)
  then show ?case
    by (simp add: clear_active_playback_def Let_def completions_ok_def count_of_def split: option.splits)
next
  case (started h now t c)
  then show ?case by (rule started_ok)
next
  case (cleared h)
  then show ?case by (simp add: clear_history_def new_history_def completions_ok_def count_of_def)
qed (auto elim!: completions_ok_mono simp: record_event_def record_invariant_violation_def log_missing_correlation_id_def
    check_completion_guard_def check_double_complete_def check_skip_dedup_def Let_def split: option.splits)

interpretation queue_log: invariant_machine "\<lambda>h. \<exists>n. h = new_history n" history_step "\<lambda>h. log_ok h \<and> completions_ok h"
proof
  show "log_ok h \<and> completions_ok h" if "\<exists>n. h = new_history n" for h
    using that by (auto simp: log_ok_def new_history_def completions_ok_def count_of_def)
qed (simp add: step_log step_completions)

text \<open>The log of operations has no gap: after any run its events carry consecutive sequence numbers,
  the last of them the counter's, and it holds all of them or as many as its capacity.\<close>

lemma log_is_gapless:
  assumes "history_step\<^sup>*\<^sup>* (new_history n) h"
  shows "map qe_seq (qh_events h) = [Suc (qh_seq h) - length (qh_events h) ..< Suc (qh_seq h)]
    \<and> length (qh_events h) = min (qh_seq h) (qh_maxlen h)"
proof -
  have "log_ok h" using queue_log.reachable_inv[OF _ assms] by blast
  then show ?thesis by (simp add: log_ok_def del: upt_Suc)
qed

section \<open>Once per attempt\<close>

lemma attempt_key_inj:
  assumes "CHR '':'' \<notin> set c" "CHR '':'' \<notin> set d"
  shows "attempt_key t c = attempt_key u d \<longleftrightarrow> t = u \<and> c = d"
proof
  have tw: "takeWhile (\<lambda>x. x \<noteq> CHR '':'') (rev (attempt_key t c)) = rev c" if "CHR '':'' \<notin> set c" for t c
    using that takeWhile_append2[of "rev c" "\<lambda>x. x \<noteq> CHR '':''" "CHR '':'' # rev t"]
    by (auto simp: attempt_key_def)
  assume e: "attempt_key t c = attempt_key u d"
  then have "rev c = rev d" using tw[OF assms(1), of t] tw[OF assms(2), of u] by simp
  with e show "t = u \<and> c = d" by (simp add: attempt_key_def)
qed simp

definition effective_corr :: "string option \<Rightarrow> string" where
  "effective_corr corr = (case corr of None \<Rightarrow> ''__no_corr__'' | Some c \<Rightarrow> c)"

definition attempt_of :: "int \<times> string \<times> string option \<Rightarrow> string" where
  "attempt_of a = (case a of (now, t, corr) \<Rightarrow> attempt_key t (effective_corr corr))"

interpretation completion: once_guard "\<lambda>h k. qh_completed h k \<noteq> None"
  "\<lambda>(now, t, corr). check_completion_guard now t corr" attempt_of
proof
  fix a :: "int \<times> string \<times> string option" and h
  obtain now t corr where a: "a = (now, t, corr)" by (cases a)
  show "fst ((\<lambda>(now, t, corr). check_completion_guard now t corr) a h) = (qh_completed h (attempt_of a) \<noteq> None)"
    by (auto simp: a check_completion_guard_def attempt_of_def effective_corr_def Let_def
        log_missing_correlation_id_def split: option.splits)
  show "(qh_completed (snd ((\<lambda>(now, t, corr). check_completion_guard now t corr) a h)) k \<noteq> None)
      \<longleftrightarrow> k = attempt_of a \<or> qh_completed h k \<noteq> None" for k
    by (auto simp: a check_completion_guard_def attempt_of_def effective_corr_def Let_def
        log_missing_correlation_id_def split: option.splits)
qed

interpretation skip: once_guard "\<lambda>h k. qh_skips h k \<noteq> None"
  "\<lambda>(now, t, c). check_skip_dedup now t (Some c)" "\<lambda>(now, t, c). attempt_key t c"
  by unfold_locales (auto simp: check_skip_dedup_def split: option.splits)

text \<open>Every playback attempt completes once: however often and in whatever order completions are
  reported, the guard stops exactly those whose track and attempt were reported before, provided no
  attempt id holds a colon (the ids the program makes do not).  Reports without an attempt id count as
  one attempt of their track.\<close>

lemma completion_guard_once:
  assumes "\<forall>(now, t, corr) \<in> set calls. CHR '':'' \<notin> set (effective_corr corr)" "i < length calls"
  shows "fst (claim_all (\<lambda>(now, t, corr). check_completion_guard now t corr) calls (new_history n)) ! i
    \<longleftrightarrow> (\<exists>j < i. fst (snd (calls ! j)) = fst (snd (calls ! i))
        \<and> effective_corr (snd (snd (calls ! j))) = effective_corr (snd (snd (calls ! i))))"
proof -
  have k: "attempt_of (calls ! j) = attempt_of (calls ! i) \<longleftrightarrow> fst (snd (calls ! j)) = fst (snd (calls ! i))
        \<and> effective_corr (snd (snd (calls ! j))) = effective_corr (snd (snd (calls ! i)))" if "j < i" for j
  proof -
    have "calls ! j \<in> set calls" "calls ! i \<in> set calls" using that assms(2) by auto
    then have "CHR '':'' \<notin> set (effective_corr (snd (snd (calls ! j))))"
      "CHR '':'' \<notin> set (effective_corr (snd (snd (calls ! i))))"
      using assms(1) by (auto simp: split_beta)
    from attempt_key_inj[OF this] show ?thesis by (simp add: attempt_of_def split_beta)
  qed
  show ?thesis using completion.answers[OF assms(2), of "new_history n"] k by (auto simp: new_history_def)
qed

section \<open>Repeated starts\<close>

lemma start_result:
  "completions_ok h \<Longrightarrow> count_of (qh_completion_seq (snd (register_playback_start now t c h))) u
     < aa_start_seq (the (qh_active (snd (register_playback_start now t c h))))"
  using check_start_log[of now t c h]
  by (auto simp: register_playback_start_def Let_def split_beta completions_ok_def less_Suc_eq_le le_SucI)

text \<open>A start while an attempt of the same track is active and not completed.\<close>

lemma restart_count:
  assumes "qh_active h = Some a" "aa_track_id a = t" "count_of (qh_completion_seq h) t < aa_start_seq a"
  shows "aa_start_count (the (qh_active (snd (register_playback_start now t c h)))) = Suc (aa_start_count a)"
    "fst (register_playback_start now t c h) \<longleftrightarrow>
       (Suc (aa_start_count a) \<ge> 3 \<and> now - aa_start_ts a \<le> 5000) \<or> now - aa_start_ts a > 250"
  using assms by (auto simp: register_playback_start_def check_start_def Let_def split_beta
      RAPID_START_THRESHOLD_def RAPID_START_WINDOW_MS_def REPEATED_START_GRACE_MS_def)

lemma active_after_start:
  "\<exists>a. qh_active (snd (register_playback_start now t c h)) = Some a \<and> aa_track_id a = t \<and> 1 \<le> aa_start_count a"
proof -
  have "1 \<le> fst (snd (check_start now t c h))"
    unfolding check_start_def Let_def by (auto split: option.splits)
  then show ?thesis by (simp add: register_playback_start_def Let_def split_beta)
qed

text \<open>A track that is started a third time with no completion since is reported, whatever the times
  of the three starts and whatever happened before them; each of the two tests alone would miss some.\<close>

lemma third_start_is_reported:
  assumes "history_step\<^sup>*\<^sup>* (new_history n) h"
  shows "fst (register_playback_start t3 track c3
    (snd (register_playback_start t2 track c2 (snd (register_playback_start t1 track c1 h)))))"
proof -
  have h: "completions_ok h" using queue_log.reachable_inv[OF _ assms] by blast
  let ?h1 = "snd (register_playback_start t1 track c1 h)"
  let ?h2 = "snd (register_playback_start t2 track c2 ?h1)"
  obtain a1 where a1: "qh_active ?h1 = Some a1" "aa_track_id a1 = track" "1 \<le> aa_start_count a1"
    using active_after_start by blast
  obtain a2 where a2: "qh_active ?h2 = Some a2" "aa_track_id a2 = track"
    using active_after_start by blast
  have s1: "count_of (qh_completion_seq ?h1) track < aa_start_seq a1"
    using start_result[OF h, of t1 track c1 track] by (simp add: a1)
  have s2: "count_of (qh_completion_seq ?h2) track < aa_start_seq a2"
    using start_result[OF started_ok[OF h], of t2 track c2 t1 track c1 track] by (simp add: a2)
  have "aa_start_count a2 = Suc (aa_start_count a1)"
    using restart_count(1)[OF a1(1,2) s1, of t2 c2] by (simp add: a2)
  with a1(3) restart_count(2)[OF a2 s2, of t3 c3] show ?thesis by linarith
qed

section \<open>Witnesses\<close>

definition added :: queue_event where
  "added = new_event 0 QE_ADD"

lemma two_events: "history_step\<^sup>*\<^sup>* (new_history 1) (log_event added (log_event added (new_history 1)))"
proof -
  have "history_step h (log_event added h)" for h
    using history_step.recorded[of h added] by (simp add: record_event_def)
  then show ?thesis by (meson converse_rtranclp_into_rtranclp r_into_rtranclp)
qed

lemma log_is_gapless_witness:
  "map qe_seq (qh_events (log_event added (log_event added (new_history 1)))) = [2]"
proof -
  let ?h = "log_event added (log_event added (new_history 1))"
  have "qh_seq ?h = 2" "qh_maxlen ?h = 1" by (simp_all add: new_history_def)
  with log_is_gapless[OF two_events] show ?thesis by (simp add: numeral_2_eq_2)
qed

lemma completion_guard_once_witness:
  "fst (claim_all (\<lambda>(now, t, corr). check_completion_guard now t corr)
     [(0, ''a'', Some ''x''), (1, ''a'', Some ''y''), (2, ''a'', Some ''x'')] (new_history 5)) ! 2"
proof -
  let ?calls = "[(0, ''a'', Some ''x''), (1, ''a'', Some ''y''), (2, ''a'', Some ''x'')] :: (int \<times> string \<times> string option) list"
  have c: "\<forall>(now, t, corr) \<in> set ?calls. CHR '':'' \<notin> set (effective_corr corr)" "2 < length ?calls"
    by (simp_all add: effective_corr_def)
  show ?thesis
    unfolding completion_guard_once[OF c, of 5] by (rule exI[of _ 0]) simp
qed

lemma third_start_is_reported_witness:
  "fst (register_playback_start 90 ''a'' ''z'' (snd (register_playback_start 50 ''a'' ''y''
     (snd (register_playback_start 10 ''a'' ''x'' (log_event added (log_event added (new_history 1))))))))"
  by (rule third_start_is_reported[OF two_events])

end
