(* ===== verification/Playlist_Cursor.thy ===== *)
theory Playlist_Cursor
  imports Queue_History
begin

text \<open>
  The playlist cursor (\<open>music/queue/playlist_cursor.py\<close>) and the order that is restored when shuffle is
  turned off (\<open>restore_saved_order\<close> of \<open>music/shuffle_control.py\<close>).  The upcoming list of a cursor with a
  state manager is the manager's own list, so it is one field here; the history and the current track are
  copied into the manager by \<open>_sync_state\<close>.  A queue item has the identity of its object (\<open>id(item)\<close>),
  since the restored order compares objects.  \<open>random.shuffle\<close> is a parameter.
\<close>

record queue_item =
  qi_ref :: nat
  qi_id :: string
  qi_title :: "string option"
  qi_url :: "string option"
  qi_video_id :: "string option"

text \<open>The fields of \<open>ConsolidatedState\<close> that the cursor writes.\<close>

record consolidated =
  cs_history :: "queue_item list"
  cs_now_playing :: "queue_item option"
  cs_history_max :: nat

record cursor =
  pc_current :: "queue_item option"
  pc_upcoming :: "queue_item list"
  pc_history :: "queue_item list"
  pc_history_max :: nat
  pc_pending :: bool
  pc_version :: int
  pc_saved :: "queue_item list option"
  pc_state :: "consolidated option"

definition make_cursor :: "nat \<Rightarrow> (queue_item list \<times> consolidated) option \<Rightarrow> cursor" where
  "make_cursor hist_size manager = (case manager of
      None \<Rightarrow> \<lparr>pc_current = None, pc_upcoming = [], pc_history = [], pc_history_max = hist_size, pc_pending = False,
        pc_version = 0, pc_saved = None, pc_state = None\<rparr>
    | Some (items, st) \<Rightarrow> (let hist = drop (length (cs_history st) - hist_size) (cs_history st) in
        \<lparr>pc_current = None, pc_upcoming = items, pc_history = hist, pc_history_max = hist_size, pc_pending = False,
         pc_version = 0, pc_saved = None, pc_state = Some (st\<lparr>cs_history := hist, cs_history_max := hist_size\<rparr>)\<rparr>))"

definition sync_state :: "cursor \<Rightarrow> cursor" where
  "sync_state c = (case pc_state c of
      None \<Rightarrow> c
    | Some st \<Rightarrow> c\<lparr>pc_state := Some (st\<lparr>cs_history := pc_history c, cs_now_playing := pc_current c\<rparr>)\<rparr>)"

text \<open>\<open>self.version += 1; self._sync_state()\<close>\<close>

definition touch :: "cursor \<Rightarrow> cursor" where
  "touch c = sync_state (c\<lparr>pc_version := pc_version c + 1\<rparr>)"

definition current_id :: "cursor \<Rightarrow> string option" where
  "current_id c = map_option qi_id (pc_current c)"

definition with_id :: "string \<Rightarrow> queue_item \<Rightarrow> bool" where
  "with_id i x = (qi_id x = i)"

section \<open>Operations without a log entry\<close>

definition reset_cursor :: "queue_item option \<Rightarrow> cursor \<Rightarrow> cursor" where
  "reset_cursor item c = touch (c\<lparr>pc_current := item, pc_upcoming := [], pc_history := [],
     pc_pending := (item \<noteq> None)\<rparr>)"

definition schedule_current :: "cursor \<Rightarrow> bool \<times> cursor" where
  "schedule_current c = (case pc_current c of
      Some _ \<Rightarrow> (True, sync_state (c\<lparr>pc_pending := True\<rparr>))
    | None \<Rightarrow> (case pc_upcoming c of
        [] \<Rightarrow> (False, sync_state (c\<lparr>pc_pending := False\<rparr>))
      | x # xs \<Rightarrow> (True, touch (c\<lparr>pc_current := Some x, pc_upcoming := xs, pc_pending := True\<rparr>))))"

definition mark_playing :: "cursor \<Rightarrow> queue_item option \<times> cursor" where
  "mark_playing c = (pc_current c, sync_state (c\<lparr>pc_pending := False\<rparr>))"

definition move_item :: "nat \<Rightarrow> nat \<Rightarrow> 'a list \<Rightarrow> 'a list" where
  "move_item i j xs = (let ys = take i xs @ drop (Suc i) xs in take j ys @ xs ! i # drop j ys)"

text \<open>\<open>ValueError\<close> is its message.\<close>

definition reorder_upcoming :: "int \<Rightarrow> int \<Rightarrow> cursor \<Rightarrow> string + cursor" where
  "reorder_upcoming from to c = (let n = int (length (pc_upcoming c)) in
     if from < 0 \<or> from \<ge> n then Inl (''from_index '' @ int_str from @ '' out of range'')
     else if to < 0 \<or> to \<ge> n then Inl (''to_index '' @ int_str to @ '' out of range'')
     else if from = to then Inr c
     else Inr (touch (c\<lparr>pc_upcoming := move_item (nat from) (nat to) (pc_upcoming c)\<rparr>)))"

definition move_to_next :: "string \<Rightarrow> cursor \<Rightarrow> bool \<times> cursor" where
  "move_to_next i c = (case pc_current c of
      None \<Rightarrow> (case List.extract (with_id i) (pc_upcoming c) of
          None \<Rightarrow> (False, c)
        | Some (xs, x, ys) \<Rightarrow> (True, touch (c\<lparr>pc_current := Some x, pc_upcoming := xs @ ys, pc_pending := True\<rparr>)))
    | Some cur \<Rightarrow> (if qi_id cur = i then (True, sync_state (c\<lparr>pc_pending := True\<rparr>))
        else (case List.extract (with_id i) (pc_upcoming c) of
          None \<Rightarrow> (False, c)
        | Some (xs, x, ys) \<Rightarrow> (True, touch (c\<lparr>pc_upcoming := x # xs @ ys, pc_pending := True\<rparr>)))))"

definition select_current :: "string \<Rightarrow> cursor \<Rightarrow> bool \<times> cursor" where
  "select_current i c = (if current_id c = Some i then schedule_current c
     else (case List.extract (with_id i) (pc_upcoming c) of
         None \<Rightarrow> (False, c)
       | Some (xs, x, ys) \<Rightarrow> (True, touch (c\<lparr>pc_upcoming := xs @ ys,
           pc_history := (case pc_current c of None \<Rightarrow> pc_history c
             | Some cur \<Rightarrow> push_bounded (pc_history_max c) (pc_history c) cur),
           pc_current := Some x, pc_pending := True\<rparr>))))"

definition rewind :: "cursor \<Rightarrow> queue_item option \<times> cursor" where
  "rewind c = (if pc_history c = [] then (None, c)
     else (let prev = last (pc_history c) in
       (Some prev, touch (c\<lparr>pc_history := butlast (pc_history c),
          pc_upcoming := (case pc_current c of None \<Rightarrow> pc_upcoming c | Some cur \<Rightarrow> cur # pc_upcoming c),
          pc_current := Some prev, pc_pending := True\<rparr>))))"

definition snapshot :: "cursor \<Rightarrow> int \<times> string option" where
  "snapshot c = (pc_version c, current_id c)"

definition token_matches :: "int \<times> string option \<Rightarrow> string \<Rightarrow> cursor \<Rightarrow> bool" where
  "token_matches token i c = (case pc_current c of None \<Rightarrow> False
     | Some cur \<Rightarrow> qi_id cur = i \<and> snd token = Some i)"

section \<open>Shuffle\<close>

text \<open>\<open>random.shuffle\<close> is the function \<open>shuffle\<close>.\<close>

definition shuffle_upcoming :: "(queue_item list \<Rightarrow> queue_item list) \<Rightarrow> cursor \<Rightarrow> nat \<times> cursor" where
  "shuffle_upcoming shuffle c = (if pc_upcoming c = [] then (0, c)
     else (let c' = touch (c\<lparr>pc_saved := Some (pc_upcoming c), pc_upcoming := shuffle (pc_upcoming c)\<rparr>)
       in (length (pc_upcoming c'), c')))"

text \<open>The loop over the saved ids: each takes the first item left in the bucket of its id.\<close>

fun restore_loop :: "(string \<Rightarrow> queue_item list) \<Rightarrow> string list \<Rightarrow> queue_item list" where
  "restore_loop buckets [] = []"
| "restore_loop buckets (i # is) = (case buckets i of
      [] \<Rightarrow> restore_loop buckets is
    | x # xs \<Rightarrow> x # restore_loop (buckets(i := xs)) is)"

definition buckets_of :: "queue_item list \<Rightarrow> string \<Rightarrow> queue_item list" where
  "buckets_of items i = filter (with_id i) items"

definition restore_saved_order :: "string list \<Rightarrow> queue_item list \<Rightarrow> queue_item list" where
  "restore_saved_order saved items = (if saved = [] then items
     else (let restored = restore_loop (buckets_of items) saved in
       restored @ filter (\<lambda>x. qi_ref x \<notin> qi_ref ` set restored) items))"

definition unshuffle_upcoming :: "cursor \<Rightarrow> nat \<times> cursor" where
  "unshuffle_upcoming c = (case pc_saved c of
      None \<Rightarrow> (0, c)
    | Some saved \<Rightarrow> (let c' = touch (c\<lparr>pc_upcoming := restore_saved_order (map qi_id saved) (pc_upcoming c),
          pc_saved := None\<rparr>) in (length (pc_upcoming c'), c')))"

section \<open>Logged operations\<close>

text \<open>An event of the cursor; the keyword \<open>extra=\<close> of \<open>log_queue_event\<close> lands under its own name.\<close>

definition cursor_event :: "int \<Rightarrow> queue_event_type \<Rightarrow> cursor \<Rightarrow> queue_event" where
  "cursor_event now e c = (new_event now e)\<lparr>qe_current_id := current_id c, qe_queue_length := Some (length (pc_upcoming c))\<rparr>"

definition item_event :: "int \<Rightarrow> queue_event_type \<Rightarrow> queue_item \<Rightarrow> nat \<Rightarrow> string \<Rightarrow> cursor \<Rightarrow> queue_event" where
  "item_event now e item pos reason c = (cursor_event now e c)\<lparr>qe_track_id := Some (qi_id item),
     qe_title := qi_title item, qe_queue_pos := Some pos, qe_reason := Some reason\<rparr>"

type_synonym playlist = "cursor \<times> queue_history"

definition append_item :: "int \<Rightarrow> queue_item \<Rightarrow> playlist \<Rightarrow> playlist" where
  "append_item now item s = (case s of (c, h) \<Rightarrow> let c' = touch (c\<lparr>pc_upcoming := pc_upcoming c @ [item]\<rparr>) in
     (c', log_event (item_event now QE_ADD item (length (pc_upcoming c') - 1) ''append'' c') h))"

definition insert_next :: "int \<Rightarrow> queue_item \<Rightarrow> playlist \<Rightarrow> playlist" where
  "insert_next now item s = (case s of (c, h) \<Rightarrow> let c' = touch (c\<lparr>pc_upcoming := item # pc_upcoming c\<rparr>) in
     (c', log_event (item_event now QE_ADD item 0 ''insert_next'' c') h))"

definition clear_upcoming :: "int \<Rightarrow> playlist \<Rightarrow> playlist" where
  "clear_upcoming now s = (case s of (c, h) \<Rightarrow> if pc_upcoming c = [] then (c, h)
     else (let c' = touch (c\<lparr>pc_upcoming := []\<rparr>) in
       (c', log_event ((cursor_event now QE_CLEAR c')\<lparr>qe_reason := Some ''clear_upcoming'',
          qe_extra := [(''extra'', PyDict [(''previous_length'', PyInt (int (length (pc_upcoming c))))])]\<rparr>) h)))"

definition remove_upcoming :: "int \<Rightarrow> string \<Rightarrow> playlist \<Rightarrow> bool \<times> playlist" where
  "remove_upcoming now i s = (case s of (c, h) \<Rightarrow> (case List.extract (with_id i) (pc_upcoming c) of
      None \<Rightarrow> (False, c, h)
    | Some (xs, x, ys) \<Rightarrow> (let c' = touch (c\<lparr>pc_upcoming := xs @ ys\<rparr>) in
        (True, c', log_event ((item_event now QE_REMOVE x (length xs) ''remove_upcoming'' c')\<lparr>qe_track_id := Some i\<rparr>) h))))"

text \<open>\<open>complete_current\<close> without a current track, and when it advances.\<close>

definition complete_nothing :: "int \<Rightarrow> playlist \<Rightarrow> queue_item option \<times> playlist" where
  "complete_nothing now s = (case s of (c, h) \<Rightarrow> (None, sync_state (c\<lparr>pc_pending := False\<rparr>),
     log_event ((new_event now QE_INVARIANT_NO_CURRENT)\<lparr>qe_reason := Some ''complete_current called with no current track'',
         qe_queue_length := Some (length (pc_upcoming c))\<rparr>)
       (snd (check_invariant now False ''COMPLETE_NO_CURRENT'' None None None (PyStr ''current track to exist'')
          (PyStr ''None'') [(''queue_length'', PyInt (int (length (pc_upcoming c)))), (''pending'', PyBool (pc_pending c))] h))))"

definition advance :: "bool \<Rightarrow> queue_item \<Rightarrow> cursor \<Rightarrow> cursor" where
  "advance success finished c = touch (c\<lparr>
     pc_history := (if success then push_bounded (pc_history_max c) (pc_history c) finished else pc_history c),
     pc_current := (case pc_upcoming c of [] \<Rightarrow> None | x # xs \<Rightarrow> Some x),
     pc_upcoming := tl (pc_upcoming c), pc_pending := (pc_upcoming c \<noteq> [])\<rparr>)"

definition complete_event :: "int \<Rightarrow> bool \<Rightarrow> queue_item \<Rightarrow> cursor \<Rightarrow> queue_event" where
  "complete_event now success finished c' = (cursor_event now QE_COMPLETE c')\<lparr>qe_track_id := Some (qi_id finished),
     qe_title := qi_title finished, qe_from_id := Some (qi_id finished), qe_to_id := current_id c',
     qe_next_id := (case pc_upcoming c' of [] \<Rightarrow> None | x # xs \<Rightarrow> Some (qi_id x)),
     qe_outcome := Some (if success then ''success'' else ''fail''),
     qe_extra := [(''extra'', PyDict [(''added_to_history'', PyBool success)])]\<rparr>"

definition complete_current :: "int \<Rightarrow> bool \<Rightarrow> playlist \<Rightarrow> queue_item option \<times> playlist" where
  "complete_current now success s = (case pc_current (fst s) of
      None \<Rightarrow> complete_nothing now s
    | Some finished \<Rightarrow> (let (again, h1) = check_double_complete now (qi_id finished) (snd s) in
        if again then (Some finished, fst s, log_event ((new_event now QE_INVARIANT_DOUBLE_COMPLETE)
          \<lparr>qe_track_id := Some (qi_id finished), qe_title := qi_title finished,
           qe_reason := Some ''double_complete_prevented'', qe_outcome := Some ''ignored''\<rparr>) h1)
        else (let c' = advance success finished (fst s);
            h2 = log_event (complete_event now success finished c') h1;
            h3 = (if Some (qi_id finished) \<noteq> current_id c'
              then log_event ((cursor_event now QE_ADVANCE c')\<lparr>qe_from_id := Some (qi_id finished),
                qe_to_id := current_id c', qe_reason := Some ''complete_current''\<rparr>) h2 else h2)
          in (Some finished, c', h3))))"

section \<open>Coherence of what is shown\<close>

text \<open>The message of the first difference; \<open>None\<close> when the assertion holds.\<close>

fun first_desync :: "string \<Rightarrow> nat \<Rightarrow> queue_item list \<Rightarrow> queue_item list \<Rightarrow> string option" where
  "first_desync ctx i (x # xs) (y # ys) = (if qi_id x \<noteq> qi_id y
     then Some (''QUEUE DESYNC'' @ ctx @ '' at index '' @ nat_str i @ '': canonical='' @ qi_id x @ '', presented='' @ qi_id y)
     else first_desync ctx (Suc i) xs ys)"
| "first_desync ctx i _ _ = None"

definition assert_queue_coherent :: "queue_item list \<Rightarrow> queue_item list \<Rightarrow> string \<Rightarrow> string option" where
  "assert_queue_coherent canonical presented ctx = (let
     shown = (if ctx \<noteq> [] then '' ('' @ ctx @ '')'' else [])
     in if length canonical \<noteq> length presented
     then Some (''QUEUE DESYNC'' @ shown @ '': canonical has '' @ nat_str (length canonical) @ '' items, presented has ''
       @ nat_str (length presented) @ '' items'')
     else first_desync shown 0 canonical presented)"

end
