(* ===== verification/Queue_Engine.thy ===== *)
theory Queue_Engine
  imports Playlist_Cursor
begin

text \<open>
  The queue engine around the cursor (\<open>PlaylistQueueEngine\<close> in \<open>music/runtime/queue_engine.py\<close>): the
  wrapped operations, each followed by an invalidation of the snapshot cache, the advances that bypass
  \<open>complete_current\<close>, backpressure, recent failures and the autoplay counter.  The state service is the flag
  \<open>en_fresh\<close> (the cached snapshot is current); its own operations are outside this model.
\<close>

record backpressure =
  bp_origin :: string
  bp_reason :: string
  bp_timestamp :: int
  bp_queue_size :: nat
  bp_max :: nat

record queue_engine =
  en_cursor :: cursor
  en_max :: nat
  en_backpressure :: "backpressure option"
  en_failures :: "(string \<times> pydict) list"
  en_autoplay :: int
  en_fresh :: bool

definition make_engine :: "nat \<Rightarrow> (queue_item list \<times> consolidated) option \<Rightarrow> queue_engine" where
  "make_engine hist_size manager = \<lparr>en_cursor = make_cursor hist_size manager, en_max = 10000, en_backpressure = None,
     en_failures = [], en_autoplay = 0, en_fresh = True\<rparr>"

section \<open>Wrapped operations\<close>

definition invalidate :: "cursor \<Rightarrow> queue_engine \<Rightarrow> queue_engine" where
  "invalidate c e = e\<lparr>en_cursor := c, en_fresh := False\<rparr>"

text \<open>The operations of the engine that call one of the cursor.\<close>

datatype engine_op =
    OpSchedule | OpMarkPlaying
  | OpAppend queue_item | OpInsertNext queue_item | OpClearUpcoming | OpRemove string | OpReorder int int
  | OpMoveToNext string | OpSelect string | OpRewind | OpComplete bool | OpReset "queue_item option"
  | OpAdvanceEmbedded | OpLoopFromHistory
  | OpShuffle "queue_item list \<Rightarrow> queue_item list" | OpUnshuffle

text \<open>\<open>advance_embedded_cursor\<close> and \<open>loop_from_history\<close> on the cursor: the new current track, if any.\<close>

definition advance_embedded :: "cursor \<Rightarrow> (queue_item \<times> cursor) option" where
  "advance_embedded c = (case pc_upcoming c of
      [] \<Rightarrow> None
    | x # xs \<Rightarrow> Some (x, touch (c\<lparr>pc_upcoming := xs, pc_current := Some x\<rparr>)))"

definition loop_history :: "cursor \<Rightarrow> (queue_item \<times> cursor) option" where
  "loop_history c = (if pc_history c = [] then None
     else (let up = pc_upcoming c @ pc_history c in
       Some (hd up, touch (c\<lparr>pc_history := [], pc_upcoming := tl up, pc_current := Some (hd up), pc_pending := True\<rparr>))))"

fun run_op :: "int \<Rightarrow> engine_op \<Rightarrow> queue_engine \<times> queue_history \<Rightarrow> queue_engine \<times> queue_history" where
  "run_op now OpSchedule (e, h) = (e\<lparr>en_cursor := snd (schedule_current (en_cursor e))\<rparr>, h)"
| "run_op now OpMarkPlaying (e, h) = (e\<lparr>en_cursor := snd (mark_playing (en_cursor e))\<rparr>, h)"
| "run_op now (OpAppend item) (e, h) = (let (c, h') = append_item now item (en_cursor e, h) in (invalidate c e, h'))"
| "run_op now (OpInsertNext item) (e, h) = (let (c, h') = insert_next now item (en_cursor e, h) in (invalidate c e, h'))"
| "run_op now OpClearUpcoming (e, h) = (let (c, h') = clear_upcoming now (en_cursor e, h) in (invalidate c e, h'))"
| "run_op now (OpRemove i) (e, h) = (let (_, c, h') = remove_upcoming now i (en_cursor e, h) in (invalidate c e, h'))"
| "run_op now (OpReorder from to) (e, h) = (case reorder_upcoming from to (en_cursor e) of
      Inl _ \<Rightarrow> (e, h) | Inr c \<Rightarrow> (invalidate c e, h))"
| "run_op now (OpMoveToNext i) (e, h) = (invalidate (snd (move_to_next i (en_cursor e))) e, h)"
| "run_op now (OpSelect i) (e, h) = (invalidate (snd (select_current i (en_cursor e))) e, h)"
| "run_op now OpRewind (e, h) = (invalidate (snd (rewind (en_cursor e))) e, h)"
| "run_op now (OpComplete success) (e, h) =
     (let (_, c, h') = complete_current now success (en_cursor e, h) in (invalidate c e, h'))"
| "run_op now (OpReset item) (e, h) = (invalidate (reset_cursor item (en_cursor e)) e, h)"
| "run_op now OpAdvanceEmbedded (e, h) = (case advance_embedded (en_cursor e) of
      None \<Rightarrow> (e, h) | Some (_, c) \<Rightarrow> (invalidate c e, h))"
| "run_op now OpLoopFromHistory (e, h) = (case loop_history (en_cursor e) of
      None \<Rightarrow> (e, h) | Some (_, c) \<Rightarrow> (invalidate c e, h))"
| "run_op now (OpShuffle shuffle) (e, h) = (invalidate (snd (shuffle_upcoming shuffle (en_cursor e))) e, h)"
| "run_op now OpUnshuffle (e, h) = (invalidate (snd (unshuffle_upcoming (en_cursor e))) e, h)"

text \<open>The setters of \<open>pending\<close> and \<open>version\<close>\<close>

definition set_pending :: "bool \<Rightarrow> queue_engine \<Rightarrow> queue_engine" where
  "set_pending b e = e\<lparr>en_cursor := (en_cursor e)\<lparr>pc_pending := b\<rparr>\<rparr>"

definition set_version :: "int \<Rightarrow> queue_engine \<Rightarrow> queue_engine" where
  "set_version v e = e\<lparr>en_cursor := (en_cursor e)\<lparr>pc_version := v\<rparr>\<rparr>"

section \<open>Backpressure, autoplay, failures\<close>

definition queue_size :: "queue_engine \<Rightarrow> nat" where
  "queue_size e = length (pc_upcoming (en_cursor e))"

definition at_capacity :: "queue_engine \<Rightarrow> bool" where
  "at_capacity e = (queue_size e \<ge> en_max e)"

definition set_backpressure :: "int \<Rightarrow> string \<Rightarrow> string \<Rightarrow> queue_engine \<Rightarrow> backpressure \<times> queue_engine" where
  "set_backpressure now origin reason e = (let notice = \<lparr>bp_origin = origin, bp_reason = reason, bp_timestamp = now,
     bp_queue_size = queue_size e, bp_max = en_max e\<rparr> in (notice, e\<lparr>en_backpressure := Some notice\<rparr>))"

definition clear_backpressure :: "queue_engine \<Rightarrow> queue_engine" where
  "clear_backpressure e = e\<lparr>en_backpressure := None\<rparr>"

definition reset_autoplay_counter :: "queue_engine \<Rightarrow> queue_engine" where
  "reset_autoplay_counter e = e\<lparr>en_autoplay := 0\<rparr>"

definition increment_autoplay_counter :: "queue_engine \<Rightarrow> int \<times> queue_engine" where
  "increment_autoplay_counter e = (en_autoplay e + 1, e\<lparr>en_autoplay := en_autoplay e + 1\<rparr>)"

definition failure_key :: "queue_item \<Rightarrow> string" where
  "failure_key item = (if opt_truthy (qi_video_id item) then opt_str (qi_video_id item)
     else if opt_truthy (qi_url item) then opt_str (qi_url item) else qi_id item)"

definition record_failure :: "queue_item \<Rightarrow> pydict \<Rightarrow> queue_engine \<Rightarrow> queue_engine" where
  "record_failure item info e = e\<lparr>en_failures := AList.update (failure_key item) info (en_failures e)\<rparr>"

text \<open>\<open>now - meta["timestamp"] > ttl_seconds\<close>; a record without a numeric timestamp raises, and then
  nothing is removed.\<close>

datatype failure_error = NoTimestamp string

fun expired_keys :: "int \<Rightarrow> int \<Rightarrow> (string \<times> pydict) list \<Rightarrow> failure_error + string list" where
  "expired_keys now ttl [] = Inr []"
| "expired_keys now ttl ((k, meta) # fs) = (case py_get ''timestamp'' meta of
      PyInt t \<Rightarrow> (case expired_keys now ttl fs of Inl err \<Rightarrow> Inl err
        | Inr ks \<Rightarrow> Inr (if now - t > ttl then k # ks else ks))
    | _ \<Rightarrow> Inl (NoTimestamp k))"

definition expire_failures :: "int \<Rightarrow> int \<Rightarrow> queue_engine \<Rightarrow> failure_error + queue_engine" where
  "expire_failures now ttl e = (case expired_keys now ttl (en_failures e) of
      Inl err \<Rightarrow> Inl err
    | Inr ks \<Rightarrow> Inr (e\<lparr>en_failures := filter (\<lambda>(k, meta). k \<notin> set ks) (en_failures e)\<rparr>))"

definition has_recent_failure :: "int \<Rightarrow> int \<Rightarrow> queue_item \<Rightarrow> queue_engine \<Rightarrow> failure_error + bool \<times> queue_engine" where
  "has_recent_failure now ttl item e = (case expire_failures now ttl e of
      Inl err \<Rightarrow> Inl err
    | Inr e' \<Rightarrow> Inr (map_of (en_failures e') (failure_key item) \<noteq> None, e'))"

section \<open>Forced states\<close>

definition force_current :: "queue_item option \<Rightarrow> bool option \<Rightarrow> queue_engine \<Rightarrow> queue_engine" where
  "force_current item pending e = (let c = en_cursor e in
     e\<lparr>en_cursor := sync_state (c\<lparr>pc_current := item,
        pc_pending := (case pending of None \<Rightarrow> pc_pending c | Some b \<Rightarrow> b)\<rparr>)\<rparr>)"

definition replace_history :: "queue_item list \<Rightarrow> queue_engine \<Rightarrow> queue_engine" where
  "replace_history items e = (let c = en_cursor e in
     e\<lparr>en_cursor := sync_state (c\<lparr>pc_history := drop (length items - pc_history_max c) items\<rparr>)\<rparr>)"

definition replace_upcoming :: "queue_item list \<Rightarrow> queue_engine \<Rightarrow> queue_engine" where
  "replace_upcoming items e = e\<lparr>en_cursor := sync_state ((en_cursor e)\<lparr>pc_upcoming := items\<rparr>)\<rparr>"

end
