(* ===== verification/Queue_Properties.thy ===== *)
theory Queue_Properties
  imports Queue_History_Properties Queue_Engine "HOL-Library.Multiset" "HOL-Library.Sublist"
begin

text \<open>
  What the playlist guarantees: the order that is restored after a shuffle, where every track goes, that playing moves along
  a fixed list, that a rewind undoes a completion, and that the state manager always shows what the cursor holds.
\<close>

section \<open>The restored order\<close>

lemma restore_loop_filter:
  "filter (with_id i) (restore_loop b is) = take (count_list is i) (b i)"
  if "\<And>j x. x \<in> set (b j) \<Longrightarrow> qi_id x = j"
  using that
proof (induction b "is" rule: restore_loop.induct)
  case (2 b j js)
  show ?case
  proof (cases "b j")
    case Nil
    with 2 show ?thesis by (cases "i = j") simp_all
  next
    case (Cons x xs)
    have "with_id i x \<longleftrightarrow> i = j" using 2(3)[of x j] Cons by (auto simp: with_id_def)
    moreover have "filter (with_id i) (restore_loop (b(j := xs)) js) = take (count_list js i) ((b(j := xs)) i)"
      using 2(2)[OF Cons] 2(3) Cons by (metis fun_upd_apply list.set_intros(2))
    ultimately show ?thesis using Cons by (cases "i = j") simp_all
  qed
qed simp

lemma restore_loop_ids: "\<lbrakk>\<And>j x. x \<in> set (b j) \<Longrightarrow> qi_id x = j\<rbrakk> \<Longrightarrow> subseq (map qi_id (restore_loop b is)) is"
proof (induction b "is" rule: restore_loop.induct)
  case (2 b j js)
  then show ?case
  proof (cases "b j")
    case Nil
    with 2 show ?thesis by (auto intro: list_emb_Cons)
  next
    case (Cons x xs)
    have "qi_id x = j" using 2(3)[of x j] Cons by simp
    moreover have "subseq (map qi_id (restore_loop (b(j := xs)) js)) js"
      using 2(2)[OF Cons] 2(3) Cons by (metis fun_upd_apply list.set_intros(2))
    ultimately show ?thesis using Cons by simp
  qed
qed simp

lemma restore_loop_buckets:
  "filter (with_id i) (restore_loop (buckets_of items) is) = take (count_list is i) (filter (with_id i) items)"
  "subseq (map qi_id (restore_loop (buckets_of items) is)) is"
  using restore_loop_filter[of "buckets_of items" i "is"] restore_loop_ids[of "buckets_of items" "is"]
  by (auto simp: buckets_of_def with_id_def)

lemma count_restored:
  "count (mset (map qi_id (restore_loop (buckets_of items) is))) i = min (count_list is i) (count (mset (map qi_id items)) i)"
proof -
  have "count (mset (map qi_id xs)) i = length (filter (with_id i) xs)" for xs
    by (induction xs) (auto simp: with_id_def)
  then show ?thesis by (simp add: restore_loop_buckets(1) min.commute)
qed

lemma restored_subset: "set (restore_loop (buckets_of items) is) \<subseteq> set items"
proof
  fix x assume "x \<in> set (restore_loop (buckets_of items) is)"
  then have "x \<in> set (filter (with_id (qi_id x)) (restore_loop (buckets_of items) is))" by (simp add: with_id_def)
  then show "x \<in> set items" unfolding restore_loop_buckets by (auto dest: in_set_takeD)
qed

lemma distinct_buckets: "(\<And>i. distinct (filter (with_id i) xs)) \<Longrightarrow> distinct xs"
proof (induction xs)
  case (Cons x xs)
  have "distinct (filter (with_id i) xs)" for i using Cons.prems[of i] by (simp split: if_splits)
  moreover have "x \<notin> set xs" using Cons.prems[of "qi_id x"] by (simp add: with_id_def)
  ultimately show ?case using Cons.IH by simp
qed simp

lemma restored_distinct: "distinct items \<Longrightarrow> distinct (restore_loop (buckets_of items) is)"
  by (rule distinct_buckets) (simp add: restore_loop_buckets)

lemma restore_perm:
  assumes "distinct (map qi_ref items)"
  shows "mset (restore_saved_order saved items) = mset items"
proof (cases "saved = []")
  case False
  let ?r = "restore_loop (buckets_of items) saved"
  have i: "inj_on qi_ref (set items)" and d: "distinct items" using assms by (auto simp: distinct_map)
  have "filter (\<lambda>x. qi_ref x \<notin> qi_ref ` set ?r) items = filter (\<lambda>x. x \<notin> set ?r) items"
    using i restored_subset[of items saved] by (intro filter_cong) (auto dest: inj_onD)
  then have "mset (restore_saved_order saved items) = mset ?r + mset (filter (\<lambda>x. x \<notin> set ?r) items)"
    using False by (simp add: restore_saved_order_def Let_def)
  also have "mset ?r = mset (filter (\<lambda>x. x \<in> set ?r) items)"
    using restored_distinct[OF d, of saved] d restored_subset[of items saved]
    by (subst set_eq_iff_mset_eq_distinct[symmetric]) auto
  also have "\<dots> + mset (filter (\<lambda>x. x \<notin> set ?r) items) = mset items"
    by (simp add: multiset_partition[symmetric])
  finally show ?thesis .
qed (simp add: restore_saved_order_def)

lemma restore_saved_order_parts:
  assumes "distinct (map qi_ref items)" "saved \<noteq> []"
  shows "\<exists>restored rest. restore_saved_order saved items = restored @ rest
        \<and> subseq (map qi_id restored) saved
        \<and> mset (map qi_id restored) = mset saved \<inter># mset (map qi_id items)
        \<and> rest = filter (\<lambda>x. x \<notin> set restored) items"
proof -
  let ?r = "restore_loop (buckets_of items) saved"
  have "inj_on qi_ref (set items)" using assms(1) by (auto simp: distinct_map)
  then have f: "filter (\<lambda>x. qi_ref x \<notin> qi_ref ` set ?r) items = filter (\<lambda>x. x \<notin> set ?r) items"
    using restored_subset[of items saved] by (intro filter_cong) (auto dest: inj_onD)
  have "restore_saved_order saved items = ?r @ filter (\<lambda>x. x \<notin> set ?r) items"
    using assms(2) f by (simp add: restore_saved_order_def Let_def)
  moreover have "mset (map qi_id ?r) = mset saved \<inter># mset (map qi_id items)"
    by (rule multiset_eqI, subst count_restored) (simp add: count_mset del: mset_map)
  ultimately show ?thesis using restore_loop_buckets(2)[of items saved] by blast
qed

text \<open>Turning shuffle off loses no track and makes none up: for a queue of distinct objects the restored
  queue holds the same items, each as often as before.  It starts with the items that the saved order
  names, in that order, each id as often as both have it; the items queued since follow in their
  present order.\<close>

lemma restore_saved_order_exact:
  assumes "distinct (map qi_ref items)" "saved \<noteq> []"
  shows "mset (restore_saved_order saved items) = mset items
    \<and> (\<exists>restored rest. restore_saved_order saved items = restored @ rest
        \<and> subseq (map qi_id restored) saved
        \<and> mset (map qi_id restored) = mset saved \<inter># mset (map qi_id items)
        \<and> rest = filter (\<lambda>x. x \<notin> set restored) items)"
  using restore_perm[OF assms(1)] restore_saved_order_parts[OF assms] by blast

lemma restore_ids:
  assumes "distinct (map qi_ref items)" "mset saved = mset (map qi_id items)"
  shows "map qi_id (restore_saved_order saved items) = saved"
proof (cases "saved = []")
  case False
  from restore_saved_order_parts[OF assms(1) False] obtain restored rest where
    r: "restore_saved_order saved items = restored @ rest" "subseq (map qi_id restored) saved"
      "mset (map qi_id restored) = mset saved \<inter># mset (map qi_id items)"
    by blast
  have m: "mset (map qi_id restored) = mset saved" using r(3) assms(2) by simp
  then have "map qi_id restored = saved"
    using r(2) by (metis size_mset subseq_same_length)
  moreover have "size (mset (restored @ rest)) = size (mset items)"
    using restore_perm[OF assms(1), of saved] r(1) by simp
  then have "rest = []" using m assms(2) by (metis add_cancel_right_right length_0_conv length_append length_map size_mset)
  ultimately show ?thesis using r(1) by simp
qed (use assms in \<open>simp add: restore_saved_order_def\<close>)

section \<open>Fields of a synchronised cursor\<close>

lemma sync_simps [simp]:
  "pc_current (sync_state c) = pc_current c" "pc_upcoming (sync_state c) = pc_upcoming c"
  "pc_history (sync_state c) = pc_history c" "pc_history_max (sync_state c) = pc_history_max c"
  "pc_pending (sync_state c) = pc_pending c" "pc_saved (sync_state c) = pc_saved c" "pc_version (sync_state c) = pc_version c"
  by (simp_all add: sync_state_def split: option.splits)

lemma touch_simps [simp]:
  "pc_current (touch c) = pc_current c" "pc_upcoming (touch c) = pc_upcoming c"
  "pc_history (touch c) = pc_history c" "pc_history_max (touch c) = pc_history_max c"
  "pc_pending (touch c) = pc_pending c" "pc_saved (touch c) = pc_saved c" "pc_version (touch c) = pc_version c + 1"
  by (simp_all add: touch_def)

section \<open>Shuffle on and off\<close>

lemma shuffle_fields:
  assumes "pc_upcoming c \<noteq> []"
  shows "pc_upcoming (snd (shuffle_upcoming sh c)) = sh (pc_upcoming c)"
    "pc_saved (snd (shuffle_upcoming sh c)) = Some (pc_upcoming c)"
  using assms by (simp_all add: shuffle_upcoming_def Let_def)

lemma unshuffle_upcoming_list:
  "pc_upcoming (snd (unshuffle_upcoming c)) = (case pc_saved c of None \<Rightarrow> pc_upcoming c
     | Some saved \<Rightarrow> restore_saved_order (map qi_id saved) (pc_upcoming c))"
  by (simp add: unshuffle_upcoming_def Let_def split: option.splits)

lemma unshuffle_shuffle_ids:
  assumes sh: "\<And>xs. mset (sh xs) = mset xs" and "distinct (map qi_ref (pc_upcoming c))" "pc_upcoming c \<noteq> []"
  shows "map qi_id (pc_upcoming (snd (unshuffle_upcoming (snd (shuffle_upcoming sh c))))) = map qi_id (pc_upcoming c)"
proof -
  have "mset (map qi_ref (sh (pc_upcoming c))) = mset (map qi_ref (pc_upcoming c))" by (simp add: sh)
  then have "distinct (map qi_ref (sh (pc_upcoming c)))" using assms(2) by (metis mset_eq_imp_distinct_iff)
  from restore_ids[OF this, of "map qi_id (pc_upcoming c)"] sh show ?thesis
    unfolding unshuffle_upcoming_list shuffle_fields[OF assms(3)] by simp
qed

text \<open>Shuffle on and off gives the queue back: for every shuffle that only reorders, the ids are in
  their old order, and with distinct ids so are the items.\<close>

lemma shuffle_roundtrip:
  assumes "\<And>xs. mset (sh xs) = mset xs" "distinct (map qi_ref (pc_upcoming c))" "pc_upcoming c \<noteq> []"
  shows "map qi_id (pc_upcoming (snd (unshuffle_upcoming (snd (shuffle_upcoming sh c))))) = map qi_id (pc_upcoming c)
    \<and> (if distinct (map qi_id (pc_upcoming c))
       then pc_upcoming (snd (unshuffle_upcoming (snd (shuffle_upcoming sh c)))) = pc_upcoming c else True)"
proof -
  let ?u = "pc_upcoming c" and ?v = "pc_upcoming (snd (unshuffle_upcoming (snd (shuffle_upcoming sh c))))"
  have ids: "map qi_id ?v = map qi_id ?u" using unshuffle_shuffle_ids[OF assms] .
  have "mset (map qi_ref (sh ?u)) = mset (map qi_ref ?u)" by (simp add: assms(1))
  then have "distinct (map qi_ref (sh ?u))" using assms(2) by (metis mset_eq_imp_distinct_iff)
  then have "mset ?v = mset ?u"
    unfolding unshuffle_upcoming_list shuffle_fields[OF assms(3)] by (simp add: restore_perm assms(1))
  then have s: "set ?v = set ?u" by (metis set_mset_mset)
  have "?v = ?u" if "distinct (map qi_id ?u)"
  proof -
    have "inj_on qi_id (set ?v \<union> set ?u)" using that by (simp add: s distinct_map)
    with ids show ?thesis by (rule map_inj_on)
  qed
  with ids show ?thesis by simp
qed

text \<open>A second shuffle before shuffle is turned off replaces the saved order by the shuffled one.\<close>

lemma second_shuffle_forgets:
  assumes "\<And>xs. mset (sh1 xs) = mset xs" "\<And>xs. mset (sh2 xs) = mset xs"
    and "distinct (map qi_ref (pc_upcoming c))" "pc_upcoming c \<noteq> []"
  shows "map qi_id (pc_upcoming (snd (unshuffle_upcoming (snd (shuffle_upcoming sh2 (snd (shuffle_upcoming sh1 c)))))))
    = map qi_id (sh1 (pc_upcoming c))"
proof -
  let ?c = "snd (shuffle_upcoming sh1 c)"
  have u: "pc_upcoming ?c = sh1 (pc_upcoming c)" using shuffle_fields[OF assms(4)] by simp
  have "mset (map qi_ref (sh1 (pc_upcoming c))) = mset (map qi_ref (pc_upcoming c))" by (simp add: assms(1))
  then have "distinct (map qi_ref (pc_upcoming ?c))" using assms(3) unfolding u by (metis mset_eq_imp_distinct_iff)
  moreover have "pc_upcoming ?c \<noteq> []" using assms(1,4) unfolding u by (metis mset_zero_iff_right)
  ultimately show ?thesis using unshuffle_shuffle_ids[of sh2 ?c] assms(2) u by simp
qed

section \<open>Where the tracks go\<close>

text \<open>The playlist as one list: what was played, the current track, what comes.\<close>

definition track_list :: "cursor \<Rightarrow> queue_item list" where
  "track_list c = pc_history c @ (case pc_current c of None \<Rightarrow> [] | Some x \<Rightarrow> [x]) @ pc_upcoming c"

lemma track_list_simps [simp]: "track_list (sync_state c) = track_list c" "track_list (touch c) = track_list c"
  "track_list (c\<lparr>pc_pending := b\<rparr>) = track_list c"
  by (simp_all add: track_list_def)

lemma extract_mset: "List.extract P xs = Some (ys, x, zs) \<Longrightarrow> mset xs = add_mset x (mset (ys @ zs)) \<and> P x"
  by (auto dest: extract_SomeE)

lemma mset_move_item: "i < length xs \<Longrightarrow> mset (move_item i j xs) = mset xs"
proof -
  assume i: "i < length xs"
  let ?ys = "take i xs @ drop (Suc i) xs"
  have "mset (take j ?ys @ xs ! i # drop j ?ys) = add_mset (xs ! i) (mset (take j ?ys @ drop j ?ys))" by simp
  also have "\<dots> = add_mset (xs ! i) (mset ?ys)" by (simp only: append_take_drop_id)
  also have "\<dots> = mset xs" using id_take_nth_drop[OF i] by (metis mset_append mset.simps(2) union_mset_add_mset_right)
  finally show ?thesis by (simp add: move_item_def Let_def)
qed

text \<open>The tracks that an operation adds, and those it takes out of the playlist: the ones that are removed or cleared, a
  current track that failed or is replaced, and the oldest of a history that is full.\<close>

definition added_by :: "engine_op \<Rightarrow> queue_item list" where
  "added_by op = (case op of OpAppend x \<Rightarrow> [x] | OpInsertNext x \<Rightarrow> [x] | OpReset (Some x) \<Rightarrow> [x] | _ \<Rightarrow> [])"

definition oldest_out :: "queue_item \<Rightarrow> cursor \<Rightarrow> queue_item list" where
  "oldest_out x c = take (Suc (length (pc_history c)) - pc_history_max c) (pc_history c @ [x])"

definition current_list :: "cursor \<Rightarrow> queue_item list" where
  "current_list c = (case pc_current c of None \<Rightarrow> [] | Some x \<Rightarrow> [x])"

definition lost_by :: "engine_op \<Rightarrow> queue_engine \<times> queue_history \<Rightarrow> queue_item list" where
  "lost_by op s = (let c = en_cursor (fst s) in case op of
      OpRemove i \<Rightarrow> (case List.extract (with_id i) (pc_upcoming c) of None \<Rightarrow> [] | Some (xs, x, ys) \<Rightarrow> [x])
    | OpClearUpcoming \<Rightarrow> pc_upcoming c
    | OpReset item \<Rightarrow> track_list c
    | OpComplete success \<Rightarrow> (case pc_current c of None \<Rightarrow> []
        | Some x \<Rightarrow> if qh_last_completed (snd s) = Some (qi_id x) then [] else if success then oldest_out x c else [x])
    | OpSelect i \<Rightarrow> (if current_id c = Some i \<or> List.extract (with_id i) (pc_upcoming c) = None then []
        else case pc_current c of None \<Rightarrow> [] | Some x \<Rightarrow> oldest_out x c)
    | OpAdvanceEmbedded \<Rightarrow> if pc_upcoming c = [] then [] else current_list c
    | OpLoopFromHistory \<Rightarrow> if pc_history c = [] then [] else current_list c
    | _ \<Rightarrow> [])"

text \<open>A shuffle only reorders.\<close>

definition reorders :: "engine_op \<Rightarrow> bool" where
  "reorders op = (case op of OpShuffle sh \<Rightarrow> (\<forall>xs. mset (sh xs) = mset xs) | _ \<Rightarrow> True)"

lemma push_bounded_split: "mset (push_bounded (pc_history_max c) (pc_history c) x) + mset (oldest_out x c) = add_mset x (mset (pc_history c))"
proof -
  let ?k = "Suc (length (pc_history c)) - pc_history_max c" and ?xs = "pc_history c @ [x]"
  have "mset (take ?k ?xs @ drop ?k ?xs) = mset ?xs" by (simp only: append_take_drop_id)
  then show ?thesis by (simp add: push_bounded_def oldest_out_def Let_def ac_simps)
qed

lemma accounts_complete:
  "mset (track_list (fst (snd (complete_current now success (en_cursor e, h))))) + mset (lost_by (OpComplete success) (e, h))
    = mset (track_list (en_cursor e))"
proof (cases "pc_current (en_cursor e)")
  case None
  then show ?thesis by (simp add: complete_current_def complete_nothing_def lost_by_def)
next
  case (Some x)
  let ?c = "en_cursor e"
  show ?thesis
  proof (cases "qh_last_completed h = Some (qi_id x)")
    case True
    then show ?thesis using Some by (simp add: complete_current_def check_double_complete_def lost_by_def Let_def)
  next
    case False
    then have c': "fst (snd (complete_current now success (?c, h))) = advance success x ?c"
      using Some by (simp add: complete_current_def check_double_complete_def Let_def)
    have "track_list (advance success x ?c)
        = (if success then push_bounded (pc_history_max ?c) (pc_history ?c) x else pc_history ?c) @ pc_upcoming ?c"
      by (simp add: advance_def track_list_def split: list.splits)
    then show ?thesis using Some False push_bounded_split[of ?c x]
      by (auto simp: c' lost_by_def track_list_def ac_simps)
  qed
qed

lemma accounts_select:
  "mset (track_list (snd (select_current i (en_cursor e)))) + mset (lost_by (OpSelect i) (e, h)) = mset (track_list (en_cursor e))"
proof (cases "current_id (en_cursor e) = Some i")
  case True
  then show ?thesis
    by (simp add: select_current_def lost_by_def schedule_current_def track_list_def split: option.splits list.splits)
next
  case False
  let ?c = "en_cursor e"
  show ?thesis
  proof (cases "List.extract (with_id i) (pc_upcoming ?c)")
    case None
    then show ?thesis using False by (simp add: select_current_def lost_by_def)
  next
    case (Some p)
    obtain xs x ys where t: "List.extract (with_id i) (pc_upcoming ?c) = Some (xs, x, ys)" using Some by (cases p) auto
    have "track_list (snd (select_current i ?c)) = (case pc_current ?c of None \<Rightarrow> pc_history ?c
        | Some cur \<Rightarrow> push_bounded (pc_history_max ?c) (pc_history ?c) cur) @ x # xs @ ys"
      using False t by (simp add: select_current_def track_list_def)
    then show ?thesis using False t extract_mset[OF t] push_bounded_split[of ?c]
      by (cases "pc_current ?c") (auto simp: lost_by_def track_list_def ac_simps)
  qed
qed

lemma track_list_rewind: "track_list (snd (rewind c)) = track_list c"
  by (cases "pc_history c" rule: rev_cases) (simp_all add: rewind_def track_list_def Let_def split: option.splits)

lemma accounts_unshuffle:
  "distinct (map qi_ref (track_list c)) \<Longrightarrow> mset (track_list (snd (unshuffle_upcoming c))) = mset (track_list c)"
  by (auto simp: track_list_def unshuffle_upcoming_def Let_def restore_perm split: option.splits)

lemma accounts_reorder: "reorder_upcoming i j c = Inr c' \<Longrightarrow> mset (track_list c') = mset (track_list c)"
  by (auto simp: reorder_upcoming_def Let_def track_list_def mset_move_item split: if_splits)

lemma accounts_remove:
  "mset (track_list (fst (snd (remove_upcoming now i (en_cursor e, h))))) + mset (lost_by (OpRemove i) (e, h)) = mset (track_list (en_cursor e))"
  by (auto simp: remove_upcoming_def lost_by_def track_list_def Let_def dest!: extract_mset split: option.splits)

lemma accounts_loop:
  "mset (track_list (en_cursor (fst (run_op now OpLoopFromHistory (e, h))))) + mset (lost_by OpLoopFromHistory (e, h)) = mset (track_list (en_cursor e))"
  by (cases "pc_upcoming (en_cursor e)"; cases "pc_history (en_cursor e)")
    (auto simp: loop_history_def lost_by_def current_list_def track_list_def invalidate_def Let_def split: option.splits)

lemma accounts_embedded:
  "mset (track_list (en_cursor (fst (run_op now OpAdvanceEmbedded (e, h))))) + mset (lost_by OpAdvanceEmbedded (e, h)) = mset (track_list (en_cursor e))"
  by (cases "pc_upcoming (en_cursor e)")
    (auto simp: advance_embedded_def lost_by_def current_list_def track_list_def invalidate_def split: option.splits)

lemma run_op_accounts:
  assumes "reorders op" "distinct (map qi_ref (track_list (en_cursor e)))"
  shows "mset (track_list (en_cursor (fst (run_op now op (e, h))))) + mset (lost_by op (e, h)) = mset (track_list (en_cursor e)) + mset (added_by op)"
proof (cases op)
  case OpSchedule
  then show ?thesis by (simp add: schedule_current_def lost_by_def added_by_def track_list_def split: option.splits list.splits)
next
  case (OpMoveToNext i)
  then show ?thesis
    by (auto simp: move_to_next_def lost_by_def added_by_def track_list_def invalidate_def dest!: extract_mset split: option.splits)
next
  case (OpReorder i j)
  then show ?thesis using accounts_reorder[of i j "en_cursor e"]
    by (auto simp: lost_by_def added_by_def invalidate_def split: sum.splits)
next
  case (OpRemove i)
  then show ?thesis using accounts_remove[of now i e h] by (simp add: added_by_def invalidate_def Let_def split_beta)
next
  case (OpSelect i)
  then show ?thesis using accounts_select[of i e h] by (simp add: added_by_def invalidate_def)
next
  case (OpComplete success)
  then show ?thesis using accounts_complete[of now success e h] by (simp add: added_by_def invalidate_def Let_def split_beta)
next
  case (OpShuffle sh)
  then show ?thesis using assms(1)
    by (simp add: reorders_def shuffle_upcoming_def lost_by_def added_by_def track_list_def invalidate_def Let_def)
next
  case OpUnshuffle
  then show ?thesis using accounts_unshuffle[OF assms(2)] by (simp add: lost_by_def added_by_def invalidate_def)
next
  case OpAdvanceEmbedded
  then show ?thesis using accounts_embedded[of now e h] by (simp add: added_by_def)
next
  case OpLoopFromHistory
  then show ?thesis using accounts_loop[of now e h] by (simp add: added_by_def)
next
  case (OpReset item)
  then show ?thesis by (auto simp: lost_by_def added_by_def invalidate_def reset_cursor_def track_list_def Let_def split: option.split)
next
  case OpRewind
  then show ?thesis by (simp add: lost_by_def added_by_def invalidate_def track_list_rewind)
qed (auto simp: lost_by_def added_by_def track_list_def invalidate_def mark_playing_def append_item_def insert_next_def
    clear_upcoming_def Let_def)

text \<open>A run of operations, each at its time\<close>

definition run_ops :: "(int \<times> engine_op) list \<Rightarrow> queue_engine \<times> queue_history \<Rightarrow> queue_engine \<times> queue_history" where
  "run_ops ops s = fold (\<lambda>(now, op) s. run_op now op s) ops s"

fun lost_in :: "(int \<times> engine_op) list \<Rightarrow> queue_engine \<times> queue_history \<Rightarrow> queue_item list" where
  "lost_in [] s = []"
| "lost_in ((now, op) # ops) s = lost_by op s @ lost_in ops (run_op now op s)"

definition added_in :: "(int \<times> engine_op) list \<Rightarrow> queue_item list" where
  "added_in ops = concat (map (\<lambda>(now, op). added_by op) ops)"

lemma distinct_part: "distinct (map qi_ref xs) \<Longrightarrow> mset xs = mset ys + mset zs \<Longrightarrow> distinct (map qi_ref ys)"
  by (metis distinct_append map_append mset_append mset_eq_imp_distinct_iff mset_map)

text \<open>C21: No track gets lost but where it is meant to.  Take any run of the operations of the queue (the setters that replace its
  parts whole are not among them), on tracks that are objects of their own, with shuffles that only reorder.  The tracks of the playlist (played, current and upcoming) together with
  those that were taken out are the ones at the start together with those added, each as often.  Taken out are: an upcoming
  track that is removed, what is cleared or reset, a current track that fails or that an embedded advance or a loop
  replaces, and the oldest of a history that is full when a track is completed or another one is selected.\<close>

theorem every_track_is_accounted_for:
  assumes "list_all (\<lambda>(now, op). reorders op) ops" "distinct (map qi_ref (track_list (en_cursor (fst s)) @ added_in ops))"
  shows "mset (track_list (en_cursor (fst (run_ops ops s)))) + mset (lost_in ops s)
    = mset (track_list (en_cursor (fst s))) + mset (added_in ops)"
  using assms
proof (induction ops arbitrary: s)
  case (Cons p ops)
  obtain now op e h where p: "p = (now, op)" "s = (e, h)" by (cases p; cases s)
  let ?s = "run_op now op s"
  have added: "added_in (p # ops) = added_by op @ added_in ops" by (simp add: added_in_def p)
  have d: "distinct (map qi_ref (track_list (en_cursor e)))" using Cons.prems(2) by (simp add: p)
  have step: "mset (track_list (en_cursor (fst ?s))) + mset (lost_by op s) = mset (track_list (en_cursor (fst s))) + mset (added_by op)"
    using run_op_accounts[OF _ d] Cons.prems(1) by (simp add: p)
  have "mset (track_list (en_cursor (fst s)) @ added_in (p # ops))
      = mset (track_list (en_cursor (fst ?s)) @ added_in ops) + mset (lost_by op s)"
    using step by (simp add: added ac_simps)
  from distinct_part[OF Cons.prems(2) this] have "distinct (map qi_ref (track_list (en_cursor (fst ?s)) @ added_in ops))" .
  from Cons.IH[OF _ this] Cons.prems(1) have "mset (track_list (en_cursor (fst (run_ops ops ?s)))) + mset (lost_in ops ?s)
      = mset (track_list (en_cursor (fst ?s))) + mset (added_in ops)" by (simp add: p)
  then have "mset (track_list (en_cursor (fst (run_ops ops ?s)))) + mset (lost_in ops ?s) + mset (lost_by op s)
      = (mset (track_list (en_cursor (fst ?s))) + mset (lost_by op s)) + mset (added_in ops)" by (simp only: ac_simps)
  then show ?case unfolding step by (simp add: p(1) added[unfolded p(1)] run_ops_def ac_simps)
qed (simp add: run_ops_def added_in_def)

section \<open>Playing moves along the list\<close>

definition plays :: "engine_op \<Rightarrow> bool" where
  "plays op = (case op of OpSchedule \<Rightarrow> True | OpMarkPlaying \<Rightarrow> True | OpRewind \<Rightarrow> True
     | OpComplete success \<Rightarrow> success | _ \<Rightarrow> False)"

text \<open>A player of a fixed list: the list, the place in it, whether the track there is current, and the id of the track that was
  completed last, which is not completed again.\<close>

record player =
  pl_tracks :: "queue_item list"
  pl_place :: nat
  pl_current :: bool
  pl_completed :: "string option"

definition player_of :: "queue_engine \<times> queue_history \<Rightarrow> player" where
  "player_of s = (let c = en_cursor (fst s) in \<lparr>pl_tracks = track_list c, pl_place = length (pc_history c),
     pl_current = (pc_current c \<noteq> None), pl_completed = qh_last_completed (snd s)\<rparr>)"

fun player_step :: "engine_op \<Rightarrow> player \<Rightarrow> player" where
  "player_step OpSchedule p = p\<lparr>pl_current := pl_place p < length (pl_tracks p)\<rparr>"
| "player_step OpRewind p = (if pl_place p = 0 then p else p\<lparr>pl_place := pl_place p - 1, pl_current := True\<rparr>)"
| "player_step (OpComplete success) p = (if \<not> pl_current p \<or> pl_completed p = Some (qi_id (pl_tracks p ! pl_place p)) then p
     else p\<lparr>pl_place := pl_place p + 1, pl_current := pl_place p + 1 < length (pl_tracks p),
       pl_completed := Some (qi_id (pl_tracks p ! pl_place p))\<rparr>)"
| "player_step op p = p"

lemma track_at_place: "pc_current c = Some x \<Longrightarrow> track_list c ! length (pc_history c) = x"
  by (simp add: track_list_def nth_append)

lemma log_completed [simp]: "qh_last_completed (log_event ev h) = qh_last_completed h"
  by (simp add: log_event_def)

lemma player_complete:
  assumes "length (track_list (en_cursor e)) \<le> pc_history_max (en_cursor e)"
  shows "player_of (run_op now (OpComplete True) (e, h)) = player_step (OpComplete True) (player_of (e, h))
    \<and> pc_history_max (en_cursor (fst (run_op now (OpComplete True) (e, h)))) = pc_history_max (en_cursor e)"
proof (cases "pc_current (en_cursor e)")
  case None
  then show ?thesis
    by (simp add: complete_current_def complete_nothing_def check_invariant_def record_invariant_violation_def record_event_def
        player_of_def invalidate_def Let_def)
next
  case (Some x)
  let ?c = "en_cursor e"
  note at = track_at_place[OF Some]
  show ?thesis
  proof (cases "qh_last_completed h = Some (qi_id x)")
    case True
    then show ?thesis using Some at
      by (simp add: complete_current_def check_double_complete_def player_of_def invalidate_def Let_def)
  next
    case False
    have fits: "push_bounded (pc_history_max ?c) (pc_history ?c) x = pc_history ?c @ [x]"
      using assms Some by (intro push_bounded_fits) (simp add: track_list_def)
    have len: "length (track_list ?c) = Suc (length (pc_history ?c) + length (pc_upcoming ?c))" using Some by (simp add: track_list_def)
    have c': "fst (snd (complete_current now True (?c, h))) = advance True x ?c"
        "qh_last_completed (snd (snd (complete_current now True (?c, h)))) = Some (qi_id x)"
      using Some False by (simp_all add: complete_current_def check_double_complete_def Let_def)
    have "track_list (advance True x ?c) = track_list ?c" "length (pc_history (advance True x ?c)) = Suc (length (pc_history ?c))"
        "pc_current (advance True x ?c) \<noteq> None \<longleftrightarrow> pc_upcoming ?c \<noteq> []" "pc_history_max (advance True x ?c) = pc_history_max ?c"
      using Some by (auto simp: advance_def track_list_def fits split: list.splits)
    then show ?thesis using Some False at len c'
      by (auto simp: player_of_def invalidate_def Let_def split_beta)
  qed
qed

lemma player_schedule: "player_of (run_op now OpSchedule (e, h)) = player_step OpSchedule (player_of (e, h))"
  by (simp add: player_of_def schedule_current_def track_list_def Let_def split: option.splits list.splits)

lemma player_rewind: "player_of (run_op now OpRewind (e, h)) = player_step OpRewind (player_of (e, h))"
proof (cases "pc_history (en_cursor e) = []")
  case True
  then show ?thesis by (simp add: player_of_def rewind_def invalidate_def Let_def)
next
  case False
  then show ?thesis using track_list_rewind[of "en_cursor e"]
    by (simp add: player_of_def invalidate_def Let_def) (simp add: rewind_def Let_def)
qed

lemma player_op:
  assumes "plays op" "length (track_list (en_cursor (fst s))) \<le> pc_history_max (en_cursor (fst s))"
  shows "player_of (run_op now op s) = player_step op (player_of s)
    \<and> pc_history_max (en_cursor (fst (run_op now op s))) = pc_history_max (en_cursor (fst s))"
proof (cases op)
  case OpSchedule
  then show ?thesis using player_schedule[of now "fst s" "snd s"]
    by (cases s) (simp add: schedule_current_def split: option.splits list.splits)
next
  case OpRewind
  then show ?thesis using player_rewind[of now "fst s" "snd s"] by (cases s) (simp add: rewind_def invalidate_def Let_def)
next
  case (OpComplete success)
  then show ?thesis using player_complete[of "fst s" now "snd s"] assms by (cases s) (simp add: plays_def)
next
  case OpMarkPlaying
  then show ?thesis by (cases s) (simp add: player_of_def mark_playing_def Let_def)
qed (use assms(1) in \<open>simp_all add: plays_def\<close>)

text \<open>C22: Playing refines a player of a fixed list.  Take any run of schedulings, starts, successful completions and rewinds of a
  playlist that fits into its history.  The list of what was played, the current track and what comes stays the same; the
  place in it moves forward by one at a completion that counts, and back by one at a rewind, unless it is at the start; and
  the current track is the one at that place.\<close>

theorem playing_moves_along_the_list:
  assumes "list_all (\<lambda>(now, op). plays op) ops" "length (track_list (en_cursor (fst s))) \<le> pc_history_max (en_cursor (fst s))"
  shows "player_of (run_ops ops s) = fold (\<lambda>(now, op). player_step op) ops (player_of s)
    \<and> pl_tracks (player_of (run_ops ops s)) = track_list (en_cursor (fst s))
    \<and> pc_current (en_cursor (fst (run_ops ops s))) = (if pl_current (player_of (run_ops ops s))
        then Some (track_list (en_cursor (fst s)) ! pl_place (player_of (run_ops ops s))) else None)"
proof -
  have tracks: "pl_tracks (player_step op p) = pl_tracks p" for op p by (cases "(op, p)" rule: player_step.cases) auto
  have "player_of (run_ops ops s) = fold (\<lambda>(now, op). player_step op) ops (player_of s)
      \<and> pl_tracks (player_of (run_ops ops s)) = track_list (en_cursor (fst s))"
    using assms
  proof (induction ops arbitrary: s)
    case (Cons p ops)
    obtain now op where p: "p = (now, op)" by (cases p)
    have step: "player_of (run_op now op s) = player_step op (player_of s)"
        "pc_history_max (en_cursor (fst (run_op now op s))) = pc_history_max (en_cursor (fst s))"
      using player_op[of op s now] Cons.prems by (auto simp: p)
    then have same: "track_list (en_cursor (fst (run_op now op s))) = track_list (en_cursor (fst s))"
      using tracks[of op "player_of s"] by (metis player.select_convs(1) player_of_def)
    from Cons.IH[of "run_op now op s"] Cons.prems step same show ?case by (simp add: p run_ops_def) metis
  qed (simp add: run_ops_def player_of_def Let_def)
  moreover have "pc_current c = (if pl_current (player_of (e, h)) then Some (pl_tracks (player_of (e, h)) ! pl_place (player_of (e, h))) else None)"
    if "c = en_cursor e" for c e h
    using that track_at_place[of c] by (cases "pc_current c") (simp_all add: player_of_def Let_def)
  ultimately show ?thesis by (metis prod.collapse)
qed

text \<open>What a completion does to the cursor\<close>

lemma complete_cursor:
  "fst (snd (complete_current now success (c, h))) \<in> {c, sync_state (c\<lparr>pc_pending := False\<rparr>)}
   \<or> (\<exists>f. pc_current c = Some f \<and> fst (snd (complete_current now success (c, h))) = advance success f c)"
  by (auto simp: complete_current_def complete_nothing_def Let_def split_beta split: option.splits)

section \<open>A rewind after a completion\<close>

lemma butlast_push: "0 < n \<Longrightarrow> butlast (push_bounded n xs x) = drop (Suc (length xs) - n) xs"
  by (simp add: push_bounded_def Let_def butlast_append)

lemma complete_accepted:
  assumes "pc_current c = Some f" "qh_last_completed h \<noteq> Some (qi_id f)"
  shows "fst (snd (complete_current now success (c, h))) = advance success f c"
    "qh_last_completed (snd (snd (complete_current now success (c, h)))) = Some (qi_id f)"
  using assms by (simp_all add: complete_current_def check_double_complete_def Let_def)

lemma rewind_advance:
  assumes "pc_current c = Some f" "0 < pc_history_max c"
  shows "pc_current (snd (rewind (advance True f c))) = Some f"
    "pc_upcoming (snd (rewind (advance True f c))) = pc_upcoming c"
    "pc_history (snd (rewind (advance True f c))) = drop (Suc (length (pc_history c)) - pc_history_max c) (pc_history c)"
  using assms last_push_bounded[of "pc_history_max c" "pc_history c" f]
  by (simp_all add: rewind_def advance_def Let_def butlast_push split: list.splits)

text \<open>Going back undoes a completion: after an accepted completion a rewind gives the current track and
  the upcoming tracks back, and the history but for the entries that had fallen out of it.\<close>

lemma rewind_undoes_completion:
  assumes "pc_current c = Some f" "qh_last_completed h \<noteq> Some (qi_id f)" "0 < pc_history_max c"
  shows "let c' = snd (rewind (fst (snd (complete_current now True (c, h))))) in
    pc_current c' = Some f \<and> pc_upcoming c' = pc_upcoming c
    \<and> pc_history c' = drop (Suc (length (pc_history c)) - pc_history_max c) (pc_history c)"
  unfolding complete_accepted(1)[OF assms(1,2)] Let_def using rewind_advance[OF assms(1,3)] by simp

definition completions :: "(int \<times> bool) list \<Rightarrow> playlist \<Rightarrow> playlist" where
  "completions calls s = fold (\<lambda>(now, success) s. snd (complete_current now success s)) calls s"

lemma completed_again_stays:
  "pc_current c = Some f \<Longrightarrow> qh_last_completed h = Some (qi_id f) \<Longrightarrow> fst (completions calls (c, h)) = c"
proof (induction calls arbitrary: h)
  case (Cons a calls)
  obtain now success where a: "a = (now, success)" by (cases a)
  have "fst (snd (complete_current now success (c, h))) = c
      \<and> qh_last_completed (snd (snd (complete_current now success (c, h)))) = Some (qi_id f)"
    using Cons.prems by (simp add: complete_current_def check_double_complete_def Let_def)
  with Cons.IH[of "snd (snd (complete_current now success (c, h)))"] Cons.prems(1) show ?case
    by (simp add: completions_def a) (metis prod.collapse)
qed (simp add: completions_def)

text \<open>Going back right after a track ended stalls the playlist: the check against double completions
  remembers the track by its id, so no later completion of the replayed track, successful or not and
  however often repeated, ever advances the cursor.\<close>

lemma rewound_track_stalls:
  assumes "pc_current c = Some f" "qh_last_completed h \<noteq> Some (qi_id f)" "0 < pc_history_max c"
  shows "let s = snd (complete_current now True (c, h)); c' = snd (rewind (fst s)) in
    fst (completions calls (c', snd s)) = c'"
  unfolding Let_def complete_accepted(1)[OF assms(1,2)]
  by (rule completed_again_stays[OF rewind_advance(1)[OF assms(1,3)] complete_accepted(2)[OF assms(1,2)]])

section \<open>What the state manager shows\<close>

definition shown :: "cursor \<Rightarrow> bool" where
  "shown c = (case pc_state c of None \<Rightarrow> True
     | Some st \<Rightarrow> cs_history st = pc_history c \<and> cs_now_playing st = pc_current c)"

lemma shown_sync [simp]: "shown (sync_state c)"
  by (simp add: shown_def sync_state_def split: option.splits)

lemma shown_touch [simp]: "shown (touch c)"
  by (simp add: touch_def)

lemma shown_fields [simp]: "shown (c\<lparr>pc_pending := b\<rparr>) = shown c" "shown (c\<lparr>pc_version := v\<rparr>) = shown c"
  by (simp_all add: shown_def split: option.splits)

inductive engine_step :: "queue_engine \<times> queue_history \<Rightarrow> queue_engine \<times> queue_history \<Rightarrow> bool" where
  operation: "engine_step s (run_op now op s)"
| forced: "engine_step (e, h) (force_current item pending e, h)"
| history: "engine_step (e, h) (replace_history items e, h)"
| upcoming: "engine_step (e, h) (replace_upcoming items e, h)"
| pending: "engine_step (e, h) (set_pending b e, h)"
| version: "engine_step (e, h) (set_version v e, h)"
| backpressure: "engine_step (e, h) (snd (set_backpressure now origin reason e), h)"
| no_backpressure: "engine_step (e, h) (clear_backpressure e, h)"
| autoplay: "engine_step (e, h) (snd (increment_autoplay_counter e), h)"
| no_autoplay: "engine_step (e, h) (reset_autoplay_counter e, h)"
| failed: "engine_step (e, h) (record_failure item info e, h)"
| expired: "expire_failures now ttl e = Inr e' \<Longrightarrow> engine_step (e, h) (e', h)"

lemma shown_complete: "shown c \<Longrightarrow> shown (fst (snd (complete_current now success (c, h))))"
  using complete_cursor[of now success c h] by (auto simp: advance_def)

lemma shown_schedule: "shown (snd (schedule_current c))"
  by (simp add: schedule_current_def split: option.splits list.splits)

lemma shown_run_op: "shown (en_cursor e) \<Longrightarrow> shown (en_cursor (fst (run_op now op (e, h))))"
proof (cases op)
  case (OpComplete success)
  then show "shown (en_cursor e) \<Longrightarrow> ?thesis"
    using shown_complete[of "en_cursor e" now success h] by (simp add: Let_def split_beta invalidate_def)
qed (auto simp: invalidate_def shown_schedule mark_playing_def append_item_def insert_next_def clear_upcoming_def
    remove_upcoming_def reorder_upcoming_def move_to_next_def select_current_def rewind_def reset_cursor_def
    advance_embedded_def loop_history_def shuffle_upcoming_def unshuffle_upcoming_def Let_def
    split: option.splits sum.splits list.splits)

interpretation manager: invariant_machine "\<lambda>s. shown (en_cursor (fst s))" engine_step "\<lambda>s. shown (en_cursor (fst s))"
proof
  fix s t assume "shown (en_cursor (fst s))" and "engine_step s t"
  from this(2,1) show "shown (en_cursor (fst t))"
  proof cases
    case (operation now op)
    with \<open>shown (en_cursor (fst s))\<close> shown_run_op[of "fst s" now op "snd s"] show ?thesis by simp
  qed (auto simp: force_current_def replace_history_def replace_upcoming_def set_pending_def set_version_def
      set_backpressure_def clear_backpressure_def
      increment_autoplay_counter_def reset_autoplay_counter_def record_failure_def expire_failures_def Let_def
      split: sum.splits)
qed

text \<open>The state that clients are shown is the cursor's: whatever operations the engine runs, the state
  manager's history is the cursor's history and its current track the cursor's, when the engine was
  made on a manager with nothing playing.\<close>

lemma manager_shows_cursor:
  assumes "engine_step\<^sup>*\<^sup>* (make_engine n (Some (items, st)), h) t" "cs_now_playing st = None"
    and "pc_state (en_cursor (fst t)) = Some st'"
  shows "cs_history st' = pc_history (en_cursor (fst t)) \<and> cs_now_playing st' = pc_current (en_cursor (fst t))"
proof -
  have "shown (en_cursor (make_engine n (Some (items, st))))"
    using assms(2) by (simp add: make_engine_def make_cursor_def shown_def Let_def)
  with manager.run_inv[OF assms(1)] have "shown (en_cursor (fst t))" by simp
  with assms(3) show ?thesis by (simp add: shown_def)
qed

section \<open>Where the code and its comments part\<close>

text \<open>The engine schedules a track off the queue without invalidating the cached snapshot.\<close>

lemma schedule_keeps_snapshot:
  assumes "pc_current (en_cursor e) = None" "pc_upcoming (en_cursor e) = x # xs" "en_fresh e"
  shows "pc_upcoming (en_cursor (fst (run_op now OpSchedule (e, h)))) = xs \<and> en_fresh (fst (run_op now OpSchedule (e, h)))"
  using assms by (simp add: schedule_current_def)

text \<open>One object queued twice is one item to \<open>id\<close>: the copy that the saved order does not claim is lost.\<close>

lemma shared_object_is_lost: "restore_saved_order [qi_id x] [x, x] = [x]"
  by (simp add: restore_saved_order_def buckets_of_def with_id_def)

lemma coherent_iff: "assert_queue_coherent xs ys ctx = None \<longleftrightarrow> map qi_id xs = map qi_id ys"
proof -
  have "length xs = length ys \<Longrightarrow> first_desync c i xs ys = None \<longleftrightarrow> map qi_id xs = map qi_id ys" for c i
    by (induction xs ys arbitrary: i rule: list_induct2) simp_all
  moreover have "map qi_id xs = map qi_id ys \<Longrightarrow> length xs = length ys" by (rule map_eq_imp_length_eq)
  ultimately show ?thesis by (auto simp: assert_queue_coherent_def Let_def)
qed

end
