(* ===== verification/Queue_Examples.thy ===== *)
theory Queue_Examples
  imports Queue_Properties
begin

text \<open>Witnesses of the theorems of \<open>Queue_Properties\<close>: three tracks, the first of them current.\<close>

definition track :: "nat \<Rightarrow> string \<Rightarrow> queue_item" where
  "track n i = \<lparr>qi_ref = n, qi_id = i, qi_title = None, qi_url = None, qi_video_id = None\<rparr>"

definition ex_cursor :: cursor where
  "ex_cursor = (make_cursor 10 None)\<lparr>pc_current := Some (track 0 ''a''), pc_upcoming := [track 1 ''b'', track 2 ''c'']\<rparr>"

definition ex_engine :: queue_engine where
  "ex_engine = (make_engine 10 None)\<lparr>en_cursor := ex_cursor\<rparr>"

lemma ex_cursor_simps:
  "pc_current ex_cursor = Some (track 0 ''a'')" "pc_upcoming ex_cursor = [track 1 ''b'', track 2 ''c'']"
  "pc_history ex_cursor = []" "pc_history_max ex_cursor = 10"
  by (simp_all add: ex_cursor_def make_cursor_def)

lemma ex_tracks: "track_list (en_cursor (fst (ex_engine, h))) = [track 0 ''a'', track 1 ''b'', track 2 ''c'']"
  by (simp add: track_list_def ex_engine_def ex_cursor_simps)

lemma restore_saved_order_exact_witness:
  "mset (restore_saved_order [''a'', ''b''] [track 2 ''c'', track 1 ''b'', track 0 ''a''])
    = mset [track 0 ''a'', track 1 ''b'', track 2 ''c'']"
proof -
  have "distinct (map qi_ref [track 2 ''c'', track 1 ''b'', track 0 ''a''])" by (simp add: track_def)
  from restore_saved_order_exact[OF this, of "[''a'', ''b'']"] show ?thesis by simp
qed

lemma shuffle_roundtrip_witness:
  "pc_upcoming (snd (unshuffle_upcoming (snd (shuffle_upcoming rev ex_cursor)))) = pc_upcoming ex_cursor"
proof -
  have "distinct (map qi_ref (pc_upcoming ex_cursor))" "pc_upcoming ex_cursor \<noteq> []"
    "distinct (map qi_id (pc_upcoming ex_cursor))"
    by (simp_all add: ex_cursor_simps track_def)
  with shuffle_roundtrip[of rev ex_cursor] show ?thesis by simp
qed

text \<open>The second track is selected, the first one queued again as another object, a third is removed, and a shuffle is undone.\<close>

definition mixed_ops :: "(int \<times> engine_op) list" where
  "mixed_ops = [(1, OpSelect ''b''), (2, OpAppend (track 3 ''a'')), (3, OpShuffle rev), (4, OpComplete False), (5, OpUnshuffle),
     (6, OpRemove ''c''), (7, OpRewind), (8, OpLoopFromHistory)]"

lemma mixed_ops_lost: "lost_in mixed_ops (ex_engine, new_history 5) = [track 1 ''b'', track 2 ''c'']"
  by code_simp

lemma every_track_is_accounted_for_witness:
  "mset (track_list (en_cursor (fst (run_ops mixed_ops (ex_engine, new_history 5))))) + mset [track 1 ''b'', track 2 ''c'']
    = mset [track 0 ''a'', track 1 ''b'', track 2 ''c''] + mset [track 3 ''a'']"
proof -
  let ?s = "(ex_engine, new_history 5)"
  have added: "added_in mixed_ops = [track 3 ''a'']" by (simp add: added_in_def mixed_ops_def added_by_def)
  have "list_all (\<lambda>(now, op). reorders op) mixed_ops" by (simp add: mixed_ops_def reorders_def)
  moreover have "distinct (map qi_ref (track_list (en_cursor (fst ?s)) @ added_in mixed_ops))"
    by (simp only: ex_tracks added) (simp add: track_def)
  ultimately show ?thesis using every_track_is_accounted_for[of mixed_ops ?s] by (simp only: mixed_ops_lost added ex_tracks)
qed

definition forth_and_back :: "(int \<times> engine_op) list" where
  "forth_and_back = [(1, OpComplete True), (2, OpMarkPlaying), (3, OpComplete True), (4, OpRewind)]"

lemma playing_moves_along_the_list_witness:
  "pl_place (player_of (run_ops forth_and_back (ex_engine, new_history 5))) = 1 \<and>
   pc_current (en_cursor (fst (run_ops forth_and_back (ex_engine, new_history 5)))) = Some (track 1 ''b'')"
proof -
  let ?s = "(ex_engine, new_history 5)"
  have "list_all (\<lambda>(now, op). plays op) forth_and_back" by (simp add: forth_and_back_def plays_def)
  moreover have "length (track_list (en_cursor (fst ?s))) \<le> pc_history_max (en_cursor (fst ?s))"
    by (simp only: ex_tracks) (simp add: ex_engine_def ex_cursor_simps)
  ultimately have run: "player_of (run_ops forth_and_back ?s) = fold (\<lambda>(now, op). player_step op) forth_and_back (player_of ?s)"
    "pc_current (en_cursor (fst (run_ops forth_and_back ?s))) = (if pl_current (player_of (run_ops forth_and_back ?s))
        then Some (track_list (en_cursor (fst ?s)) ! pl_place (player_of (run_ops forth_and_back ?s))) else None)"
    using playing_moves_along_the_list[of forth_and_back ?s] by blast+
  have start: "player_of ?s = \<lparr>pl_tracks = [track 0 ''a'', track 1 ''b'', track 2 ''c''], pl_place = 0, pl_current = True, pl_completed = None\<rparr>"
    by (simp add: player_of_def ex_engine_def ex_cursor_simps track_list_def new_history_def Let_def)
  have "player_of (run_ops forth_and_back ?s)
      = \<lparr>pl_tracks = [track 0 ''a'', track 1 ''b'', track 2 ''c''], pl_place = 1, pl_current = True, pl_completed = Some ''b''\<rparr>"
    unfolding run(1) start by (simp add: forth_and_back_def track_def)
  then show ?thesis using run(2) ex_tracks[of "new_history 5"] by simp
qed

lemma rewind_undoes_completion_witness:
  "pc_upcoming (snd (rewind (fst (snd (complete_current 0 True (ex_cursor, new_history 5)))))) = [track 1 ''b'', track 2 ''c'']"
proof -
  have "qh_last_completed (new_history 5) \<noteq> Some (qi_id (track 0 ''a''))" by (simp add: new_history_def)
  from rewind_undoes_completion[OF ex_cursor_simps(1) this, of 0] show ?thesis by (simp add: Let_def ex_cursor_simps)
qed

lemma rewound_track_stalls_witness:
  "let s = snd (complete_current 0 True (ex_cursor, new_history 5)); c' = snd (rewind (fst s)) in
    fst (completions [(1, True), (2, False)] (c', snd s)) = c'"
proof -
  have "qh_last_completed (new_history 5) \<noteq> Some (qi_id (track 0 ''a''))" by (simp add: new_history_def)
  from rewound_track_stalls[OF ex_cursor_simps(1) this] show ?thesis by (simp add: ex_cursor_simps)
qed

definition ex_manager :: consolidated where
  "ex_manager = \<lparr>cs_history = [], cs_now_playing = None, cs_history_max = 10\<rparr>"

lemma manager_shows_cursor_witness:
  "\<exists>t st'. engine_step\<^sup>*\<^sup>* (make_engine 10 (Some ([track 0 ''a''], ex_manager)), new_history 5) t
     \<and> pc_state (en_cursor (fst t)) = Some st' \<and> cs_now_playing st' = Some (track 0 ''a'')"
proof -
  let ?s = "(make_engine 10 (Some ([track 0 ''a''], ex_manager)), new_history 5)"
  let ?t = "run_op 0 OpSchedule ?s"
  have r: "engine_step\<^sup>*\<^sup>* ?s ?t" by (blast intro: engine_step.operation)
  have t: "pc_current (en_cursor (fst ?t)) = Some (track 0 ''a'')" "pc_state (en_cursor (fst ?t)) \<noteq> None"
    by (simp_all add: make_engine_def make_cursor_def schedule_current_def touch_def sync_state_def Let_def)
  then obtain st' where st': "pc_state (en_cursor (fst ?t)) = Some st'" by blast
  have "cs_now_playing ex_manager = None" by (simp add: ex_manager_def)
  from manager_shows_cursor[OF r this st'] t(1) have "cs_now_playing st' = Some (track 0 ''a'')" by simp
  with r st' show ?thesis by blast
qed

end
