(* ===== verification/Tool_Result_Storage.thy ===== *)
theory Tool_Result_Storage
  imports Viola_Prelude
begin

text \<open>
  The budget of tool results on the wire (\<open>services/conversation/tool_result_storage.py\<close>): oversized results
  are written to files and replaced by a preview, and the decision for a result is kept for the whole
  conversation and rebuilt from the transcript on resume.  Files are a map from paths to contents that
  is passed along; \<open>pe_root\<close> is the resolved directory and \<open>pe_io_error\<close> the operating system's answer
  to opening a path.  Paths are POSIX.  The encoding error of a lone surrogate does not occur: strings
  are code points below 256.
\<close>

section \<open>Records and state\<close>

definition PERSISTED_OUTPUT_TAG :: string where
  "PERSISTED_OUTPUT_TAG = ''<persisted-output>''"

definition PERSISTED_OUTPUT_CLOSING_TAG :: string where
  "PERSISTED_OUTPUT_CLOSING_TAG = ''</persisted-output>''"

definition PREVIEW_SIZE_BYTES :: int where
  "PREVIEW_SIZE_BYTES = 2000"

definition DEFAULT_MAX_TOOL_RESULTS_PER_MESSAGE_CHARS :: int where
  "DEFAULT_MAX_TOOL_RESULTS_PER_MESSAGE_CHARS = 150000"

record persisted_result =
  ps_filepath :: string
  ps_original_size :: nat
  ps_is_json :: bool
  ps_preview :: string
  ps_has_more :: bool

datatype persist_error = PersistToolResultError string

record replacement_record =
  rr_tool_use_id :: string
  rr_replacement :: string
  rr_kind :: string

definition record_to_dict :: "replacement_record \<Rightarrow> pydict" where
  "record_to_dict r = [(''kind'', PyStr (rr_kind r)), (''tool_use_id'', PyStr (rr_tool_use_id r)),
     (''replacement'', PyStr (rr_replacement r))]"

text \<open>\<open>data.get(k, default)\<close>\<close>

definition py_get_or :: "string \<Rightarrow> pyval \<Rightarrow> pydict \<Rightarrow> pyval" where
  "py_get_or k dflt d = (if py_has k d then py_get k d else dflt)"

definition record_from_dict :: "pydict \<Rightarrow> replacement_record" where
  "record_from_dict d = \<lparr>rr_tool_use_id = py_str (py_get_or ''tool_use_id'' (PyStr []) d),
     rr_replacement = py_str (py_get_or ''replacement'' (PyStr []) d),
     rr_kind = py_str (py_get_or ''kind'' (PyStr ''tool-result'') d)\<rparr>"

record replacement_state =
  rs_seen :: "string set"
  rs_replacements :: "string \<rightharpoonup> string"

definition new_replacement_state :: replacement_state where
  "new_replacement_state = \<lparr>rs_seen = {}, rs_replacements = Map.empty\<rparr>"

section \<open>Paths\<close>

definition safe_id_char :: "char \<Rightarrow> bool" where
  "safe_id_char c = (let n = char_code c in
     (48 \<le> n \<and> n \<le> 57) \<or> (65 \<le> n \<and> n \<le> 90) \<or> (97 \<le> n \<and> n \<le> 122) \<or> n = 95 \<or> n = 45)"

definition safe_id :: "string \<Rightarrow> bool" where
  "safe_id s = (s \<noteq> [] \<and> length s \<le> 128 \<and> list_all safe_id_char s)"

record persist_env =
  pe_root :: string
  pe_io_error :: "string \<Rightarrow> string option"

type_synonym files = "string \<rightharpoonup> string"

definition tool_results_dir :: "persist_env \<Rightarrow> string \<Rightarrow> string" where
  "tool_results_dir env session = pe_root env @ ''/'' @ (if safe_id session then session else ''default'')"

definition unsafe_id_message :: "string \<Rightarrow> string" where
  "unsafe_id_message i = ''Unsafe tool_use_id for filesystem path: '' @ py_repr_str i"

text \<open>\<open>ValueError\<close> is its message.\<close>

definition tool_result_path :: "persist_env \<Rightarrow> string \<Rightarrow> bool \<Rightarrow> string \<Rightarrow> string + string" where
  "tool_result_path env i is_json session = (if \<not> safe_id i then Inl (unsafe_id_message i)
     else Inr (tool_results_dir env session @ ''/'' @ i @ (if is_json then ''.json'' else ''.txt'')))"

section \<open>Contents\<close>

fun is_text_block :: "pyval \<Rightarrow> bool" where
  "is_text_block (PyDict d) = (py_get ''type'' d = PyStr ''text'')"
| "is_text_block _ = False"

fun blank_text_block :: "pyval \<Rightarrow> bool" where
  "blank_text_block (PyDict d) = (py_get ''type'' d = PyStr ''text''
     \<and> (case py_get ''text'' d of PyStr s \<Rightarrow> py_strip s = [] | _ \<Rightarrow> True))"
| "blank_text_block _ = False"

fun is_tool_result_content_empty :: "pyval \<Rightarrow> bool" where
  "is_tool_result_content_empty PyNone = True"
| "is_tool_result_content_empty (PyStr s) = (py_strip s = [])"
| "is_tool_result_content_empty (PyList xs) = list_all blank_text_block xs"
| "is_tool_result_content_empty _ = False"

fun is_content_already_compacted :: "pyval \<Rightarrow> bool" where
  "is_content_already_compacted (PyStr s) = starts_with PERSISTED_OUTPUT_TAG s"
| "is_content_already_compacted _ = False"

fun text_block_size :: "pyval \<Rightarrow> nat" where
  "text_block_size (PyDict d) = (case py_get ''text'' d of
      PyStr s \<Rightarrow> if py_get ''type'' d = PyStr ''text'' then length s else 0 | _ \<Rightarrow> 0)"
| "text_block_size _ = 0"

fun content_size :: "pyval \<Rightarrow> nat" where
  "content_size (PyStr s) = length s"
| "content_size (PyList xs) = sum_list (map text_block_size xs)"
| "content_size _ = 0"

text \<open>\<open>s.rfind(c)\<close>: the last position of a character, or -1.\<close>

definition rfind_char :: "char \<Rightarrow> string \<Rightarrow> int" where
  "rfind_char c s = (if c \<in> set s then int (length s) - 1 - int (length (takeWhile (\<lambda>x. x \<noteq> c) (rev s))) else -1)"

definition generate_preview :: "string \<Rightarrow> int \<Rightarrow> string \<times> bool" where
  "generate_preview content max_bytes = (let ceiling = max 0 max_bytes in
     if int (length content) \<le> ceiling then (content, False)
     else (let prefix = take (nat ceiling) content; boundary = rfind_char (CHR 0x0A) prefix in
       (if 2 * boundary > ceiling then take (nat boundary) prefix else prefix, True)))"

definition build_large_tool_result_message :: "persisted_result \<Rightarrow> string" where
  "build_large_tool_result_message r = join_with newline
     ([PERSISTED_OUTPUT_TAG, ''Full tool output saved at: '' @ ps_filepath r,
       ''Original length: '' @ nat_str (ps_original_size r) @ '' characters. Preview:'', ps_preview r]
      @ (if ps_has_more r then [''[Preview ends; read the saved file for the remaining output.]''] else [])
      @ [PERSISTED_OUTPUT_CLOSING_TAG])"

section \<open>Persisting\<close>

text \<open>\<open>json.dumps(v, ensure_ascii=False, indent=2)\<close>, at a depth.\<close>

definition indent_line :: "nat \<Rightarrow> string" where
  "indent_line n = CHR 0x0A # replicate (2 * n) (CHR '' '')"

fun json_indent :: "nat \<Rightarrow> pyval \<Rightarrow> string" where
  "json_indent n (PyList xs) = (if xs = [] then ''[]'' else
     ''['' @ indent_line (Suc n) @ join_with ('','' @ indent_line (Suc n)) (map (json_indent (Suc n)) xs) @ indent_line n @ '']'')"
| "json_indent n (PyDict d) = (if d = [] then ''{}'' else
     ''{'' @ indent_line (Suc n)
       @ join_with ('','' @ indent_line (Suc n)) (map (\<lambda>(k, v). json_str k @ '': '' @ json_indent (Suc n) v) d)
       @ indent_line n @ ''}'')"
| "json_indent n v = json_dumps v"

text \<open>The text that is written, and whether it is JSON.\<close>

fun serialize_result :: "pyval \<Rightarrow> (string \<times> bool) option" where
  "serialize_result (PyStr s) = Some (s, False)"
| "serialize_result (PyList xs) = (if list_all is_text_block xs then Some (json_indent 0 (PyList xs), True) else None)"
| "serialize_result _ = None"

text \<open>Reading a text file turns every line end into a newline.\<close>

fun universal_newlines :: "string \<Rightarrow> string" where
  "universal_newlines [] = []"
| "universal_newlines (c # cs) = (if c = CHR 0x0D
     then CHR 0x0A # (case cs of CHR 0x0A # ds \<Rightarrow> universal_newlines ds | _ \<Rightarrow> universal_newlines cs)
     else c # universal_newlines cs)"

text \<open>A file that exists is not written: the preview is made of what it holds.\<close>

definition persist_tool_result ::
    "persist_env \<Rightarrow> pyval \<Rightarrow> string \<Rightarrow> string \<Rightarrow> files \<Rightarrow> (persist_error + persisted_result) \<times> files" where
  "persist_tool_result env content i session fs = (case serialize_result content of
      None \<Rightarrow> (Inl (PersistToolResultError ''Tool-result persistence accepts only text or a list of text blocks''), fs)
    | Some (serialized, as_json) \<Rightarrow> (case tool_result_path env i as_json session of
        Inl e \<Rightarrow> (Inl (PersistToolResultError e), fs)
      | Inr desired \<Rightarrow> (let
          alternate = tool_results_dir env session @ ''/'' @ i @ (if as_json then ''.txt'' else ''.json'');
          actual = (if fs desired = None \<and> fs alternate \<noteq> None then alternate else desired)
          in case pe_io_error env actual of
              Some e \<Rightarrow> (Inl (PersistToolResultError e), fs)
            | None \<Rightarrow> (let text = (case fs actual of None \<Rightarrow> serialized | Some old \<Rightarrow> universal_newlines old);
                (preview, has_more) = generate_preview text PREVIEW_SIZE_BYTES
                in (Inr \<lparr>ps_filepath = actual, ps_original_size = length text,
                      ps_is_json = ((actual = desired) = as_json), ps_preview = preview, ps_has_more = has_more\<rparr>,
                    if fs actual = None then fs(actual \<mapsto> text) else fs)))))"

section \<open>The blocks of a message\<close>

text \<open>A block that the budget may replace: its id and its content.\<close>

fun has_image_item :: "pyval \<Rightarrow> bool" where
  "has_image_item (PyList xs) = list_ex (\<lambda>x. case x of PyDict d \<Rightarrow> py_get ''type'' d = PyStr ''image'' | _ \<Rightarrow> False) xs"
| "has_image_item _ = False"

fun eligible_block :: "pyval \<Rightarrow> (string \<times> pyval) option" where
  "eligible_block (PyDict b) = (let payload = py_get ''content'' b in
     if py_get ''type'' b = PyStr ''tool_result'' \<and> py_truthy (py_get ''tool_use_id'' b) \<and> py_truthy payload
       \<and> \<not> is_content_already_compacted payload \<and> \<not> has_image_item payload
     then Some (py_str (py_get ''tool_use_id'' b), payload) else None)"
| "eligible_block _ = None"

definition eligible_blocks :: "pydict \<Rightarrow> (string \<times> pyval) list" where
  "eligible_blocks m = (case py_get ''content'' m of
      PyList xs \<Rightarrow> if py_get ''role'' m = PyStr ''user'' then List.map_filter eligible_block xs else []
    | _ \<Rightarrow> [])"

text \<open>The first id of an assistant message that is a string with text.\<close>

definition identity_of :: "pydict list \<Rightarrow> string" where
  "identity_of shapes = (case filter (\<lambda>s. s \<noteq> [])
       (concat (map (\<lambda>d. map (\<lambda>k. case py_get k d of PyStr s \<Rightarrow> py_strip s | _ \<Rightarrow> [])
          [''id'', ''uuid'', ''message_id'']) shapes)) of
      [] \<Rightarrow> [] | s # _ \<Rightarrow> s)"

definition message_identity :: "pydict \<Rightarrow> string" where
  "message_identity m = (case py_get ''message'' m of PyDict d \<Rightarrow> identity_of [m, d] | _ \<Rightarrow> identity_of [m])"

text \<open>The loop over the messages: the finished groups, the open one, the identities seen.\<close>

fun wire_groups_loop ::
    "(string \<times> pyval) list list \<Rightarrow> (string \<times> pyval) list \<Rightarrow> string set \<Rightarrow> pydict list \<Rightarrow> (string \<times> pyval) list list" where
  "wire_groups_loop done open_group seen [] = done @ [open_group]"
| "wire_groups_loop done open_group seen (m # ms) = (let
     i = message_identity m;
     fresh = (py_get ''role'' m = PyStr ''assistant'' \<and> (i = [] \<or> i \<notin> seen));
     seen' = (if fresh \<and> i \<noteq> [] then insert i seen else seen);
     (done', group) = (if fresh \<and> open_group \<noteq> [] then (done @ [open_group], []) else (done, open_group))
     in wire_groups_loop done' (group @ eligible_blocks m) seen' ms)"

definition wire_groups :: "pydict list \<Rightarrow> (string \<times> pyval) list list" where
  "wire_groups ms = filter (\<lambda>g. g \<noteq> []) (wire_groups_loop [] [] {} ms)"

section \<open>The budget\<close>

text \<open>The pass over a group: the replacements to apply, the rows that can still be replaced (id, content,
  size), and the size of what was sent before and stays.\<close>

fun scan_group ::
    "(string \<Rightarrow> bool) \<Rightarrow> (string \<times> pyval) list \<Rightarrow> replacement_state \<Rightarrow> (string \<rightharpoonup> string) \<Rightarrow>
     (string \<rightharpoonup> string) \<times> (string \<times> pyval \<times> nat) list \<times> nat \<times> replacement_state" where
  "scan_group skipped [] st reps = (reps, [], 0, st)"
| "scan_group skipped ((key, payload) # g) st reps = (let
     st' = st\<lparr>rs_seen := insert key (rs_seen st)\<rparr>
     in case rs_replacements st key of
       Some text \<Rightarrow> scan_group skipped g st' (reps(key \<mapsto> text))
     | None \<Rightarrow> (let (reps', pending, frozen, st2) = scan_group skipped g st' reps in
         if key \<in> rs_seen st then (reps', pending, frozen + content_size payload, st2)
         else if \<not> skipped key then (reps', (key, payload, content_size payload) # pending, frozen, st2)
         else (reps', pending, frozen, st2)))"

record budget_run =
  br_state :: replacement_state
  br_reps :: "string \<rightharpoonup> string"
  br_records :: "replacement_record list"
  br_files :: files

text \<open>The rows by size, the largest first (\<open>sorted(..., reverse=True)\<close> keeps the order of equal sizes).\<close>

definition by_size :: "(string \<times> pyval \<times> nat) list \<Rightarrow> (string \<times> pyval \<times> nat) list" where
  "by_size rows = sort_key (\<lambda>(_, _, size). - int size) rows"

fun replace_rows ::
    "persist_env \<Rightarrow> string \<Rightarrow> int \<Rightarrow> (string \<times> pyval \<times> nat) list \<Rightarrow> int \<Rightarrow> budget_run \<Rightarrow> budget_run" where
  "replace_rows env session limit [] remaining b = b"
| "replace_rows env session limit ((key, payload, sz) # rows) remaining b = (if remaining \<le> limit then b
     else (let (persisted, fs) = persist_tool_result env payload key session (br_files b);
         b1 = b\<lparr>br_files := fs\<rparr>
       in replace_rows env session limit rows (remaining - int sz) (case persisted of
           Inl _ \<Rightarrow> b1
         | Inr r \<Rightarrow> (let text = build_large_tool_result_message r; st = br_state b in
             b1\<lparr>br_state := st\<lparr>rs_replacements := (rs_replacements st)(key \<mapsto> text)\<rparr>,
                br_reps := (br_reps b)(key \<mapsto> text),
                br_records := br_records b @ [\<lparr>rr_tool_use_id = key, rr_replacement = text, rr_kind = ''tool-result''\<rparr>]\<rparr>))))"

definition enforce_group ::
    "persist_env \<Rightarrow> string \<Rightarrow> int \<Rightarrow> (string \<Rightarrow> bool) \<Rightarrow> (string \<times> pyval) list \<Rightarrow> budget_run \<Rightarrow> budget_run" where
  "enforce_group env session limit skipped g b = (let
     (reps, pending, frozen, st) = scan_group skipped g (br_state b) (br_reps b);
     remaining = int frozen + int (sum_list (map (\<lambda>(_, _, size). size) pending))
     in replace_rows env session limit (by_size pending) remaining (b\<lparr>br_state := st, br_reps := reps\<rparr>))"

section \<open>Rewriting\<close>

fun rewrite_block :: "(string \<rightharpoonup> string) \<Rightarrow> pyval \<Rightarrow> pyval" where
  "rewrite_block reps (PyDict b) = (if py_get ''type'' b = PyStr ''tool_result''
     then (case reps (str_or_empty (py_get ''tool_use_id'' b)) of
         None \<Rightarrow> PyDict b
       | Some text \<Rightarrow> PyDict (py_set ''content'' (PyStr text) b))
     else PyDict b)"
| "rewrite_block reps v = v"

text \<open>Whether a block is rewritten; the code copies a message only when one is.\<close>

fun edits_block :: "(string \<rightharpoonup> string) \<Rightarrow> pyval \<Rightarrow> bool" where
  "edits_block reps (PyDict b) = (py_get ''type'' b = PyStr ''tool_result''
     \<and> reps (str_or_empty (py_get ''tool_use_id'' b)) \<noteq> None)"
| "edits_block reps v = False"

definition rewrite_message :: "(string \<rightharpoonup> string) \<Rightarrow> pydict \<Rightarrow> pydict" where
  "rewrite_message reps m = (case py_get ''content'' m of
      PyList xs \<Rightarrow> if py_get ''role'' m = PyStr ''user'' \<and> list_ex (edits_block reps) xs
        then py_set ''content'' (PyList (map (rewrite_block reps) xs)) m else m
    | _ \<Rightarrow> m)"

definition rewrite_messages :: "(string \<rightharpoonup> string) \<Rightarrow> pydict list \<Rightarrow> pydict list" where
  "rewrite_messages reps ms = map (rewrite_message reps) ms"

definition enforce_tool_result_budget ::
    "persist_env \<Rightarrow> string \<Rightarrow> int \<Rightarrow> string set \<Rightarrow> (string \<rightharpoonup> string) \<Rightarrow> pydict list \<Rightarrow> replacement_state \<Rightarrow> files \<Rightarrow>
     pydict list \<times> replacement_record list \<times> replacement_state \<times> files" where
  "enforce_tool_result_budget env session limit skip_names names ms st fs = (let
     skipped = (\<lambda>key. (case names key of None \<Rightarrow> [] | Some n \<Rightarrow> n) \<in> skip_names);
     b = fold (enforce_group env session limit skipped) (wire_groups ms)
       \<lparr>br_state = st, br_reps = Map.empty, br_records = [], br_files = fs\<rparr>
     in (rewrite_messages (br_reps b) ms, br_records b, br_state b, br_files b))"

text \<open>The records to write are in the result; the code swallows an exception of the callback.\<close>

definition apply_tool_result_budget ::
    "persist_env \<Rightarrow> string \<Rightarrow> int \<Rightarrow> string set \<Rightarrow> (string \<rightharpoonup> string) \<Rightarrow> pydict list \<Rightarrow> replacement_state option \<Rightarrow> files \<Rightarrow>
     pydict list \<times> replacement_record list \<times> replacement_state option \<times> files" where
  "apply_tool_result_budget env session limit skip_names names ms st fs = (case st of
      None \<Rightarrow> (ms, [], None, fs)
    | Some s \<Rightarrow> (let (out, recs, s', fs') = enforce_tool_result_budget env session limit skip_names names ms s fs in
        (out, recs, Some s', fs')))"

section \<open>Resume\<close>

text \<open>A record of the transcript is an object or a dict.\<close>

datatype transcript_entry = EntryRecord replacement_record | EntryDict pydict

fun entry_dict :: "transcript_entry \<Rightarrow> pydict" where
  "entry_dict (EntryRecord r) = record_to_dict r"
| "entry_dict (EntryDict d) = d"

definition present_ids :: "pydict list \<Rightarrow> string set" where
  "present_ids ms = fst ` set (concat (map eligible_blocks ms))"

definition replay_entry :: "string set \<Rightarrow> transcript_entry \<Rightarrow> (string \<rightharpoonup> string) \<Rightarrow> (string \<rightharpoonup> string)" where
  "replay_entry present e reps = (let d = entry_dict e; key = py_str (py_get_or ''tool_use_id'' (PyStr []) d) in
     if py_get ''kind'' d = PyStr ''tool-result'' \<and> key \<in> present
     then reps(key \<mapsto> py_str (py_get_or ''replacement'' (PyStr []) d)) else reps)"

definition reconstruct_content_replacement_state ::
    "pydict list \<Rightarrow> transcript_entry list \<Rightarrow> (string \<rightharpoonup> string) \<Rightarrow> replacement_state" where
  "reconstruct_content_replacement_state ms entries inherited = (let present = present_ids ms in
     \<lparr>rs_seen = present, rs_replacements = fold (replay_entry present) entries (inherited |` present)\<rparr>)"

definition provision_content_replacement_state ::
    "pydict list \<Rightarrow> transcript_entry list \<Rightarrow> bool \<Rightarrow> replacement_state option" where
  "provision_content_replacement_state ms entries enabled =
     (if \<not> enabled then None else Some (reconstruct_content_replacement_state ms entries Map.empty))"

end
