(* ===== verification/Storage_Properties.thy ===== *)
theory Storage_Properties
  imports Tool_Result_Storage "HOL-Library.Multiset"
begin

text \<open>
  What the tool-result budget guarantees: a decision once made for a result holds for the rest of the
  conversation and after a resume, what stays on the wire fits the limit, and files are only added, in
  one directory.
\<close>

section \<open>The blocks of the groups\<close>

lemma concat_wire_groups_loop:
  "concat (wire_groups_loop done g seen ms) = concat done @ g @ concat (map eligible_blocks ms)"
  by (induction "done" g seen ms rule: wire_groups_loop.induct) (simp_all add: Let_def split_beta)

lemma concat_filter_nonempty: "concat (filter (\<lambda>g. g \<noteq> []) gs) = concat gs"
  by (induction gs) auto

lemma concat_wire_groups: "concat (wire_groups ms) = concat (map eligible_blocks ms)"
  by (simp add: wire_groups_def concat_filter_nonempty concat_wire_groups_loop)

lemma present_wire_groups: "present_ids ms = fst ` set (concat (wire_groups ms))"
  by (simp add: present_ids_def concat_wire_groups)

section \<open>One group\<close>

definition mark_seen :: "string \<Rightarrow> replacement_state \<Rightarrow> replacement_state" where
  "mark_seen key st = st\<lparr>rs_seen := insert key (rs_seen st)\<rparr>"

lemma mark_seen_simps [simp]:
  "rs_seen (mark_seen key st) = insert key (rs_seen st)" "rs_replacements (mark_seen key st) = rs_replacements st"
  by (simp_all add: mark_seen_def)

lemma scan_replaced:
  "rs_replacements st key = Some t \<Longrightarrow>
     scan_group sk ((key, payload) # g) st reps = scan_group sk g (mark_seen key st) (reps(key \<mapsto> t))"
  by (simp add: mark_seen_def)

lemma scan_new:
  "rs_replacements st key = None \<Longrightarrow> scan_group sk g (mark_seen key st) reps = (reps', pending, frozen, st2) \<Longrightarrow>
     scan_group sk ((key, payload) # g) st reps =
       (if key \<in> rs_seen st then (reps', pending, frozen + content_size payload, st2)
        else if \<not> sk key then (reps', (key, payload, content_size payload) # pending, frozen, st2)
        else (reps', pending, frozen, st2))"
  by (simp add: mark_seen_def)

text \<open>What the pass over a group computes: every id is seen, results with a replacement get it, and the
  rows that can be replaced are of results not seen before, without a replacement.\<close>

lemma scan_group_spec:
  assumes "scan_group sk g st reps = (reps', pending, frozen, st')"
  shows "st' = st\<lparr>rs_seen := rs_seen st \<union> fst ` set g\<rparr>
    \<and> reps' = (\<lambda>k. if k \<in> fst ` set g \<and> rs_replacements st k \<noteq> None then rs_replacements st k else reps k)
    \<and> (\<forall>(k, p, n) \<in> set pending. (k, p) \<in> set g \<and> n = content_size p \<and> k \<notin> rs_seen st \<and> rs_replacements st k = None)
    \<and> (fst ` set g \<subseteq> rs_seen st \<longrightarrow> pending = [])"
  using assms
proof (induction g arbitrary: st reps reps' pending frozen st')
  case (Cons a g)
  obtain key payload where a: "a = (key, payload)" by (cases a)
  show ?case
  proof (cases "rs_replacements st key")
    case (Some t)
    with Cons.prems have "scan_group sk g (mark_seen key st) (reps(key \<mapsto> t)) = (reps', pending, frozen, st')"
      by (simp only: a scan_replaced)
    note IH = Cons.IH[OF this]
    show ?thesis
    proof (intro conjI)
      show "reps' = (\<lambda>k. if k \<in> fst ` set (a # g) \<and> rs_replacements st k \<noteq> None then rs_replacements st k else reps k)"
        using IH Some by (auto simp: a fun_eq_iff)
    qed (use IH in \<open>auto simp: a mark_seen_def\<close>)
  next
    case None
    obtain r1 p1 f1 s1 where r: "scan_group sk g (mark_seen key st) reps = (r1, p1, f1, s1)" by (metis prod_cases4)
    note IH = Cons.IH[OF r] and res = Cons.prems[unfolded a scan_new[OF None r]]
    have eqs: "reps' = r1" "st' = s1" "pending = (if key \<in> rs_seen st \<or> sk key then p1 else (key, payload, content_size payload) # p1)"
      using res by (auto split: if_splits)
    show ?thesis
    proof (intro conjI)
      show "reps' = (\<lambda>k. if k \<in> fst ` set (a # g) \<and> rs_replacements st k \<noteq> None then rs_replacements st k else reps k)"
        using IH None by (auto simp: a eqs fun_eq_iff)
      show "\<forall>(k, p, n) \<in> set pending. (k, p) \<in> set (a # g) \<and> n = content_size p \<and> k \<notin> rs_seen st \<and> rs_replacements st k = None"
        using IH None by (auto simp: a eqs split: if_splits)
    qed (use IH in \<open>auto simp: a eqs mark_seen_def\<close>)
  qed
qed simp

text \<open>What the replacement of rows leaves: the replacements made are those recorded, of rows only.\<close>

definition recorded :: "replacement_record list \<Rightarrow> string \<rightharpoonup> string" where
  "recorded recs = map_of (rev (map (\<lambda>r. (rr_tool_use_id r, rr_replacement r)) recs))"

lemma recorded_append: "recorded (xs @ ys) = recorded xs ++ recorded ys"
  by (simp add: recorded_def)

definition add_replacement :: "string \<Rightarrow> string \<Rightarrow> budget_run \<Rightarrow> budget_run" where
  "add_replacement key text b = b\<lparr>
     br_state := (br_state b)\<lparr>rs_replacements := (rs_replacements (br_state b))(key \<mapsto> text)\<rparr>,
     br_reps := (br_reps b)(key \<mapsto> text),
     br_records := br_records b @ [\<lparr>rr_tool_use_id = key, rr_replacement = text, rr_kind = ''tool-result''\<rparr>]\<rparr>"

lemma replace_rows_adds:
  "\<exists>recs. br_records (replace_rows env s limit rows rem b) = br_records b @ recs
     \<and> rs_seen (br_state (replace_rows env s limit rows rem b)) = rs_seen (br_state b)
     \<and> rs_replacements (br_state (replace_rows env s limit rows rem b)) = rs_replacements (br_state b) ++ recorded recs
     \<and> br_reps (replace_rows env s limit rows rem b) = br_reps b ++ recorded recs
     \<and> (\<forall>r \<in> set recs. rr_kind r = ''tool-result'' \<and> rr_tool_use_id r \<in> fst ` set rows)"
proof (induction rows arbitrary: rem b)
  case (Cons row rows)
  obtain key payload sz where row: "row = (key, payload, sz)" by (cases row)
  obtain res fs where p: "persist_tool_result env payload key s (br_files b) = (res, fs)" by fastforce
  show ?case
  proof (cases "rem \<le> limit")
    case False
    define b1 where "b1 = (case res of Inl _ \<Rightarrow> b\<lparr>br_files := fs\<rparr>
      | Inr r \<Rightarrow> add_replacement key (build_large_tool_result_message r) (b\<lparr>br_files := fs\<rparr>))"
    have e: "replace_rows env s limit (row # rows) rem b = replace_rows env s limit rows (rem - int sz) b1"
      using False p by (cases res) (simp_all add: row b1_def add_replacement_def Let_def)
    obtain recs where recs: "br_records b1 = br_records b @ recs" "rs_seen (br_state b1) = rs_seen (br_state b)"
      "rs_replacements (br_state b1) = rs_replacements (br_state b) ++ recorded recs" "br_reps b1 = br_reps b ++ recorded recs"
      "\<forall>r \<in> set recs. rr_kind r = ''tool-result'' \<and> rr_tool_use_id r = key"
    proof (cases res)
      case (Inl x)
      then show ?thesis by (intro that[of "[]"]) (simp_all add: b1_def recorded_def)
    next
      case (Inr r)
      then show ?thesis
        by (intro that[of "[\<lparr>rr_tool_use_id = key, rr_replacement = build_large_tool_result_message r, rr_kind = ''tool-result''\<rparr>]"])
           (simp_all add: b1_def recorded_def add_replacement_def)
    qed
    obtain recs' where "br_records (replace_rows env s limit rows (rem - int sz) b1) = br_records b1 @ recs'"
      "rs_seen (br_state (replace_rows env s limit rows (rem - int sz) b1)) = rs_seen (br_state b1)"
      "rs_replacements (br_state (replace_rows env s limit rows (rem - int sz) b1)) = rs_replacements (br_state b1) ++ recorded recs'"
      "br_reps (replace_rows env s limit rows (rem - int sz) b1) = br_reps b1 ++ recorded recs'"
      "\<forall>r \<in> set recs'. rr_kind r = ''tool-result'' \<and> rr_tool_use_id r \<in> fst ` set rows"
      using Cons.IH[of "rem - int sz" b1] by blast
    with recs show ?thesis
      unfolding e by (intro exI[of _ "recs @ recs'"]) (auto simp: row recorded_append map_add_assoc)
  qed (simp add: row recorded_def)
qed (simp add: recorded_def)

section \<open>All groups\<close>

definition new_records :: "string set \<Rightarrow> replacement_state \<Rightarrow> replacement_record list \<Rightarrow> bool" where
  "new_records present st recs = (\<forall>r \<in> set recs. rr_kind r = ''tool-result''
     \<and> rr_tool_use_id r \<in> present - rs_seen st)"

lemma recorded_None: "k \<notin> rr_tool_use_id ` set recs \<Longrightarrow> recorded recs k = None"
  by (auto simp: recorded_def map_of_eq_None_iff)

lemma enforce_group_spec:
  assumes "b' = enforce_group env s limit sk g b"
  shows "\<exists>recs. br_records b' = br_records b @ recs
    \<and> rs_seen (br_state b') = rs_seen (br_state b) \<union> fst ` set g
    \<and> rs_replacements (br_state b') = rs_replacements (br_state b) ++ recorded recs
    \<and> br_reps b' = (\<lambda>k. if k \<in> fst ` set g \<and> rs_replacements (br_state b) k \<noteq> None
         then rs_replacements (br_state b) k else br_reps b k) ++ recorded recs
    \<and> new_records (fst ` set g) (br_state b) recs"
proof -
  obtain reps pending frozen st where sc: "scan_group sk g (br_state b) (br_reps b) = (reps, pending, frozen, st)"
    by (metis prod_cases4)
  note spec = scan_group_spec[OF sc]
  define rem where "rem = int frozen + int (sum_list (map (\<lambda>(_, _, size). size) pending))"
  have e: "b' = replace_rows env s limit (by_size pending) rem (b\<lparr>br_state := st, br_reps := reps\<rparr>)"
    using assms sc by (simp add: enforce_group_def rem_def)
  have rows: "fst ` set (by_size pending) \<subseteq> fst ` set g - rs_seen (br_state b)"
  proof
    fix k assume "k \<in> fst ` set (by_size pending)"
    then obtain p n where "(k, p, n) \<in> set pending" by (auto simp: by_size_def)
    then have "(k, p) \<in> set g \<and> k \<notin> rs_seen (br_state b)" using spec by blast
    then show "k \<in> fst ` set g - rs_seen (br_state b)" by (auto intro: rev_image_eqI)
  qed
  from replace_rows_adds[of env s limit "by_size pending" rem "b\<lparr>br_state := st, br_reps := reps\<rparr>", folded e]
  obtain recs where r: "br_records b' = br_records b @ recs" "rs_seen (br_state b') = rs_seen st"
    "rs_replacements (br_state b') = rs_replacements st ++ recorded recs" "br_reps b' = reps ++ recorded recs"
    "\<forall>r \<in> set recs. rr_kind r = ''tool-result'' \<and> rr_tool_use_id r \<in> fst ` set (by_size pending)"
    by auto
  have "new_records (fst ` set g) (br_state b) recs" using r(5) rows unfolding new_records_def by blast
  with r spec show ?thesis by (intro exI[of _ recs]) simp
qed

lemma enforce_groups_spec:
  assumes "b' = fold (enforce_group env s limit sk) gs b"
    and "br_reps b = rs_replacements (br_state b) |` P"
  shows "\<exists>recs. br_records b' = br_records b @ recs
    \<and> rs_seen (br_state b') = rs_seen (br_state b) \<union> fst ` set (concat gs)
    \<and> rs_replacements (br_state b') = rs_replacements (br_state b) ++ recorded recs
    \<and> br_reps b' = rs_replacements (br_state b') |` (P \<union> fst ` set (concat gs))
    \<and> new_records (fst ` set (concat gs)) (br_state b) recs"
  using assms
proof (induction gs arbitrary: b P)
  case (Cons g gs)
  define b1 where "b1 = enforce_group env s limit sk g b"
  from enforce_group_spec[OF b1_def] obtain recs1 where r1: "br_records b1 = br_records b @ recs1"
    "rs_seen (br_state b1) = rs_seen (br_state b) \<union> fst ` set g"
    "rs_replacements (br_state b1) = rs_replacements (br_state b) ++ recorded recs1"
    "br_reps b1 = (\<lambda>k. if k \<in> fst ` set g \<and> rs_replacements (br_state b) k \<noteq> None
         then rs_replacements (br_state b) k else br_reps b k) ++ recorded recs1"
    "new_records (fst ` set g) (br_state b) recs1" by blast
  have reps: "br_reps b1 = rs_replacements (br_state b1) |` (P \<union> fst ` set g)"
  proof
    fix k
    show "br_reps b1 k = (rs_replacements (br_state b1) |` (P \<union> fst ` set g)) k"
    proof (cases "k \<in> fst ` set g")
      case True
      then show ?thesis using Cons.prems(2)
        by (cases "recorded recs1 k"; cases "rs_replacements (br_state b) k")
           (auto simp: r1 restrict_map_def map_add_def)
    next
      case False
      then have "recorded recs1 k = None" using r1(5) by (intro recorded_None) (auto simp: new_records_def)
      with False Cons.prems(2) show ?thesis by (simp add: r1 restrict_map_def map_add_def)
    qed
  qed
  have b': "b' = fold (enforce_group env s limit sk) gs b1" using Cons.prems(1) by (simp add: b1_def)
  from Cons.IH[OF b' reps] obtain recs2 where r2: "br_records b' = br_records b1 @ recs2"
    "rs_seen (br_state b') = rs_seen (br_state b1) \<union> fst ` set (concat gs)"
    "rs_replacements (br_state b') = rs_replacements (br_state b1) ++ recorded recs2"
    "br_reps b' = rs_replacements (br_state b') |` (P \<union> fst ` set g \<union> fst ` set (concat gs))"
    "new_records (fst ` set (concat gs)) (br_state b1) recs2" by blast
  have "new_records (fst ` set (concat (g # gs))) (br_state b) (recs1 @ recs2)"
    using r1(2,5) r2(5) by (auto simp: new_records_def image_Un)
  moreover have "P \<union> fst ` set g \<union> fst ` set (concat gs) = P \<union> fst ` set (concat (g # gs))" by auto
  moreover have "rs_seen (br_state b') = rs_seen (br_state b) \<union> fst ` set (concat (g # gs))"
    unfolding r2(2) r1(2) by auto
  ultimately show ?case using r1 r2 by (intro exI[of _ "recs1 @ recs2"]) (simp add: recorded_append)
qed (simp add: new_records_def recorded_def)

text \<open>What a run of the budget does.\<close>

lemma enforce_spec:
  assumes "enforce_tool_result_budget env s limit skip names ms st fs = (out, recs, st', fs')"
  shows "st' = \<lparr>rs_seen = rs_seen st \<union> present_ids ms, rs_replacements = rs_replacements st ++ recorded recs\<rparr>"
    "out = rewrite_messages (rs_replacements st' |` present_ids ms) ms"
    "new_records (present_ids ms) st recs"
proof -
  define sk where "sk = (\<lambda>key. (case names key of None \<Rightarrow> [] | Some n \<Rightarrow> n) \<in> skip)"
  define b0 where "b0 = \<lparr>br_state = st, br_reps = Map.empty, br_records = [], br_files = fs\<rparr>"
  define b where "b = fold (enforce_group env s limit sk) (wire_groups ms) b0"
  have res: "out = rewrite_messages (br_reps b) ms" "recs = br_records b" "st' = br_state b"
    using assms by (simp_all add: enforce_tool_result_budget_def Let_def b_def b0_def sk_def)
  have "br_reps b0 = rs_replacements (br_state b0) |` {}" by (simp add: b0_def)
  from enforce_groups_spec[OF b_def this] obtain rs where r: "br_records b = rs"
    "rs_seen (br_state b) = rs_seen st \<union> present_ids ms"
    "rs_replacements (br_state b) = rs_replacements st ++ recorded rs"
    "br_reps b = rs_replacements (br_state b) |` present_ids ms" "new_records (present_ids ms) st rs"
    by (auto simp: b0_def present_wire_groups)
  show "st' = \<lparr>rs_seen = rs_seen st \<union> present_ids ms, rs_replacements = rs_replacements st ++ recorded recs\<rparr>"
    using r by (simp add: res)
  show "out = rewrite_messages (rs_replacements st' |` present_ids ms) ms" "new_records (present_ids ms) st recs"
    using r by (simp_all add: res)
qed

section \<open>Stable decisions\<close>

text \<open>C23: A decision about a tool result is made once: a later run over messages that hold the result keeps
  the replacement it has, or keeps it unreplaced, whatever the limit, the skipped tools and the files are
  by then.\<close>

theorem budget_decisions_are_stable:
  assumes "enforce_tool_result_budget env s limit skip names ms st fs = (out, recs, st', fs')"
    and "enforce_tool_result_budget env2 s2 limit2 skip2 names2 ms2 st' fs2 = (out2, recs2, st2, fs2')"
    and "key \<in> present_ids ms"
  shows "rs_replacements st2 key = rs_replacements st' key"
proof -
  have "key \<in> rs_seen st'" using enforce_spec(1)[OF assms(1)] assms(3) by simp
  then have "recorded recs2 key = None"
    using enforce_spec(3)[OF assms(2)] by (intro recorded_None) (auto simp: new_records_def)
  then show ?thesis using enforce_spec(1)[OF assms(2)] by (simp add: map_add_def)
qed

lemma enforce_again:
  assumes "enforce_tool_result_budget env s limit skip names ms st fs = (out, recs, st', fs')"
  shows "\<exists>fs3. enforce_tool_result_budget env2 s2 limit2 skip2 names2 ms st' fs2 = (out, [], st', fs3)"
proof -
  obtain out2 recs2 st2 fs3 where e: "enforce_tool_result_budget env2 s2 limit2 skip2 names2 ms st' fs2 = (out2, recs2, st2, fs3)"
    by (metis prod_cases4)
  have seen: "present_ids ms \<subseteq> rs_seen st'" using enforce_spec(1)[OF assms] by simp
  then have "recs2 = []" using enforce_spec(3)[OF e] by (cases recs2) (auto simp: new_records_def)
  moreover from this have "st2 = st'" using enforce_spec(1)[OF e] seen by (cases st') (auto simp: recorded_def)
  moreover from this have "out2 = out" using enforce_spec(2)[OF e] enforce_spec(2)[OF assms] by simp
  ultimately show ?thesis using e by blast
qed

lemma replay_records:
  "\<forall>r \<in> set recs. rr_kind r = ''tool-result'' \<and> rr_tool_use_id r \<in> P \<Longrightarrow>
     fold (replay_entry P) (map EntryRecord recs) m = m ++ recorded recs"
proof (induction recs arbitrary: m)
  case (Cons r recs)
  have "replay_entry P (EntryRecord r) m = m(rr_tool_use_id r \<mapsto> rr_replacement r)"
    using Cons.prems by (simp add: replay_entry_def record_to_dict_def py_get_or_def Let_def)
  with Cons show ?case by (simp add: recorded_def)
qed (simp add: recorded_def)

text \<open>C24: A resumed conversation sends what it sent before: from the messages and the records written to the
  transcript the state is rebuilt exactly, and running the budget again, under any settings, gives the
  same messages and makes no new decision.\<close>

theorem resume_replays_budget:
  assumes "enforce_tool_result_budget env s limit skip names ms new_replacement_state fs = (out, recs, st', fs')"
  shows "reconstruct_content_replacement_state ms (map EntryRecord recs) Map.empty = st'
    \<and> (\<exists>fs3. enforce_tool_result_budget env2 s2 limit2 skip2 names2 ms
         (reconstruct_content_replacement_state ms (map EntryRecord recs) Map.empty) fs2 = (out, [], st', fs3))"
proof -
  have "fold (replay_entry (present_ids ms)) (map EntryRecord recs) Map.empty = Map.empty ++ recorded recs"
    using enforce_spec(3)[OF assms] by (intro replay_records) (auto simp: new_records_def)
  then have "reconstruct_content_replacement_state ms (map EntryRecord recs) Map.empty = st'"
    using enforce_spec(1)[OF assms]
    by (simp add: reconstruct_content_replacement_state_def new_replacement_state_def Let_def)
  with enforce_again[OF assms] show ?thesis by simp
qed

section \<open>The limit\<close>

text \<open>Persisting works for every result: the file system raises nothing, the id is safe, the content is text.\<close>

definition can_persist :: "persist_env \<Rightarrow> string \<times> pyval \<Rightarrow> bool" where
  "can_persist env b = ((\<forall>path. pe_io_error env path = None) \<and> safe_id (fst b) \<and> serialize_result (snd b) \<noteq> None)"

lemma persist_succeeds: "can_persist env (i, content) \<Longrightarrow> \<exists>r fs'. persist_tool_result env content i s fs = (Inr r, fs')"
  by (auto simp: can_persist_def persist_tool_result_def tool_result_path_def Let_def split_beta)

lemma recorded_dom: "dom (recorded recs) = rr_tool_use_id ` set recs"
  by (auto simp: recorded_def dom_map_of_conv_image_fst image_image)

fun row_size :: "string \<times> pyval \<times> nat \<Rightarrow> nat" where
  "row_size (k, p, n) = n"

lemma row_size_sum: "(\<Sum>(_, _, n) \<leftarrow> rows. n) = sum_list (map row_size rows)"
  by (induction rows) auto

lemma add_replacement_simps [simp]:
  "rs_replacements (br_state (add_replacement k t b)) = (rs_replacements (br_state b))(k \<mapsto> t)"
  "br_files (add_replacement k t b) = br_files b"
  by (simp_all add: add_replacement_def)

lemma dom_extended: "r' = r ++ x \<Longrightarrow> dom r \<subseteq> dom (r' :: 'a \<rightharpoonup> 'b)"
  by auto

lemma replace_rows_dom:
  "dom (rs_replacements (br_state b)) \<subseteq> dom (rs_replacements (br_state (replace_rows env s limit rows rem b)))"
  using replace_rows_adds[of env s limit rows rem b] dom_extended by blast

text \<open>What the rows that stay add up to, on top of \<open>F\<close>.\<close>

lemma replace_rows_bound:
  assumes "list_all (\<lambda>(k, p, n). can_persist env (k, p)) rows" "rem = F + int (sum_list (map row_size rows))"
  shows "F + int (sum_list (map row_size (filter (\<lambda>row. fst row \<notin>
      dom (rs_replacements (br_state (replace_rows env s limit rows rem b)))) rows))) \<le> max limit F"
  using assms
proof (induction rows arbitrary: rem b)
  case (Cons row rows)
  obtain key payload sz where row: "row = (key, payload, sz)" by (cases row)
  show ?case
  proof (cases "rem \<le> limit")
    case True
    have "sum_list (map row_size (filter P xs)) \<le> sum_list (map row_size xs)" for P xs
      by (induction xs) auto
    then have "F + int (sum_list (map row_size (filter P (row # rows)))) \<le> rem" for P
      unfolding Cons.prems(2) by (metis add_left_mono of_nat_le_iff)
    with True show ?thesis by (meson le_max_iff_disj order_trans)
  next
    case False
    obtain r fs where p: "persist_tool_result env payload key s (br_files b) = (Inr r, fs)"
      using persist_succeeds Cons.prems(1) by (fastforce simp: row)
    define b1 where "b1 = add_replacement key (build_large_tool_result_message r) (b\<lparr>br_files := fs\<rparr>)"
    have e: "replace_rows env s limit (row # rows) rem b = replace_rows env s limit rows (rem - int sz) b1"
      using False p by (simp add: row b1_def add_replacement_def Let_def)
    have "key \<in> dom (rs_replacements (br_state (replace_rows env s limit rows (rem - int sz) b1)))"
      using replace_rows_dom[of b1 env s limit rows "rem - int sz"] by (auto simp: b1_def)
    moreover have "rem - int sz = F + int (sum_list (map row_size rows))"
      using Cons.prems(2) by (simp add: row)
    ultimately show ?thesis using Cons.IH[of "rem - int sz" b1] Cons.prems(1) unfolding e by (simp add: row)
  qed
qed simp

lemma scan_group_new:
  assumes "distinct (map fst g)" "\<forall>k \<in> fst ` set g. k \<notin> rs_seen st \<and> rs_replacements st k = None \<and> \<not> sk k"
  shows "fst (snd (scan_group sk g st reps)) = map (\<lambda>(k, p). (k, p, content_size p)) g
    \<and> fst (snd (snd (scan_group sk g st reps))) = 0"
  using assms
proof (induction g arbitrary: st reps)
  case (Cons a g)
  obtain key payload where a: "a = (key, payload)" by (cases a)
  obtain r1 p1 f1 s1 where r: "scan_group sk g (mark_seen key st) reps = (r1, p1, f1, s1)" by (metis prod_cases4)
  have n: "rs_replacements st key = None" "key \<notin> rs_seen st" "\<not> sk key" using Cons.prems(2) by (auto simp: a)
  have "p1 = map (\<lambda>(k, p). (k, p, content_size p)) g \<and> f1 = 0"
    using Cons.IH[of "mark_seen key st" reps] Cons.prems r by (auto simp: a)
  then show ?case using n by (simp only: a scan_new[OF n(1) r]) simp
qed simp

lemma enforce_groups_dom:
  "dom (rs_replacements (br_state b)) \<subseteq> dom (rs_replacements (br_state (fold (enforce_group env s limit sk) gs b)))"
proof (induction gs arbitrary: b)
  case (Cons g gs)
  have "dom (rs_replacements (br_state b)) \<subseteq> dom (rs_replacements (br_state (enforce_group env s limit sk g b)))"
    using enforce_group_spec[OF refl, of env s limit sk g b] dom_extended by blast
  with Cons.IH show ?case by fastforce
qed simp

definition kept_size :: "(string \<rightharpoonup> string) \<Rightarrow> (string \<times> pyval) list \<Rightarrow> nat" where
  "kept_size reps g = sum_list (map (\<lambda>(k, p). if k \<in> dom reps then 0 else content_size p) g)"

lemma kept_size_mono: "dom r \<subseteq> dom r' \<Longrightarrow> kept_size r' g \<le> kept_size r g"
  unfolding kept_size_def by (rule sum_list_mono) (auto simp: subset_iff domIff)

lemma sum_filter_mset:
  assumes "mset xs = mset ys"
  shows "sum_list (map f (filter P xs)) = (sum_list (map f (filter P ys)) :: nat)"
proof -
  have "mset (map f (filter P xs)) = mset (map f (filter P ys))" using assms by simp
  then show ?thesis by (simp only: sum_mset_sum_list[symmetric])
qed

lemma filter_rows_sum:
  "sum_list (map row_size (filter (\<lambda>row. fst row \<notin> D) (map (\<lambda>(k, p). (k, p, content_size p)) g)))
    = sum_list (map (\<lambda>(k, p). if k \<in> D then 0 else content_size p) g)"
  by (induction g) auto

lemma enforce_group_bound:
  assumes "distinct (map fst g)" "\<forall>k \<in> fst ` set g. k \<notin> rs_seen (br_state b) \<and> rs_replacements (br_state b) k = None \<and> \<not> sk k"
    and "list_all (can_persist env) g" "0 \<le> limit"
  shows "int (kept_size (rs_replacements (br_state (enforce_group env s limit sk g b))) g) \<le> limit"
proof -
  obtain reps pending frozen st where sc: "scan_group sk g (br_state b) (br_reps b) = (reps, pending, frozen, st)"
    by (metis prod_cases4)
  have p: "pending = map (\<lambda>(k, p). (k, p, content_size p)) g" "frozen = 0"
    using scan_group_new[OF assms(1,2), of "br_reps b"] sc by auto
  define rem where "rem = int (sum_list (map row_size pending))"
  define b' where "b' = replace_rows env s limit (by_size pending) rem (b\<lparr>br_state := st, br_reps := reps\<rparr>)"
  have e: "enforce_group env s limit sk g b = b'"
    using sc p(2) by (simp add: enforce_group_def b'_def rem_def row_size_sum)
  let ?P = "\<lambda>row. fst row \<notin> dom (rs_replacements (br_state b'))"
  have perm: "mset (by_size pending) = mset pending" by (simp add: by_size_def)
  then have "sum_list (map row_size (by_size pending)) = sum_list (map row_size pending)"
    using sum_filter_mset[OF perm, of row_size "\<lambda>_. True"] by simp
  then have rem: "rem = 0 + int (sum_list (map row_size (by_size pending)))" by (simp add: rem_def)
  have "list_all (\<lambda>(k, p, n). can_persist env (k, p)) (by_size pending)"
    using assms(3) p(1) by (auto simp: by_size_def list_all_iff)
  from replace_rows_bound[OF this rem, where limit = limit and s = s and b = "b\<lparr>br_state := st, br_reps := reps\<rparr>",
      folded b'_def]
  have "int (sum_list (map row_size (filter ?P (by_size pending)))) \<le> limit"
    using assms(4) by simp
  moreover have "sum_list (map row_size (filter ?P (by_size pending))) = sum_list (map row_size (filter ?P pending))"
    by (rule sum_filter_mset[OF perm])
  moreover have "kept_size (rs_replacements (br_state b')) g = sum_list (map row_size (filter ?P pending))"
    unfolding kept_size_def p(1) by (rule filter_rows_sum[symmetric])
  ultimately show ?thesis unfolding e by linarith
qed

text \<open>C25: What stays on the wire fits the limit: when every result can be persisted, is seen once and no
  tool is skipped, the contents that a group of messages keeps add up to at most the limit.\<close>

theorem budget_is_kept:
  assumes "enforce_tool_result_budget env s limit {} names ms new_replacement_state fs = (out, recs, st', fs')"
    and "list_all (can_persist env) (concat (wire_groups ms))" "distinct (map fst (concat (wire_groups ms)))"
    and "0 \<le> limit" "g \<in> set (wire_groups ms)"
  shows "int (kept_size (rs_replacements st') g) \<le> limit"
proof -
  obtain pre post where gs: "wire_groups ms = pre @ g # post" using assms(5) by (meson split_list)
  define sk where "sk = (\<lambda>key. (case names key of None \<Rightarrow> [] | Some n \<Rightarrow> n) \<in> ({} :: string set))"
  define b0 where "b0 = \<lparr>br_state = new_replacement_state, br_reps = Map.empty, br_records = [], br_files = fs\<rparr>"
  define b1 where "b1 = fold (enforce_group env s limit sk) pre b0"
  define b2 where "b2 = enforce_group env s limit sk g b1"
  have st': "st' = br_state (fold (enforce_group env s limit sk) post b2)"
    using assms(1) by (simp add: enforce_tool_result_budget_def Let_def b0_def b1_def b2_def sk_def gs)
  have "br_reps b0 = rs_replacements (br_state b0) |` {}" by (simp add: b0_def)
  from enforce_groups_spec[OF b1_def this] obtain rs where r: "rs_seen (br_state b1) = fst ` set (concat pre)"
    "rs_replacements (br_state b1) = recorded rs" "new_records (fst ` set (concat pre)) new_replacement_state rs"
    by (auto simp: b0_def new_replacement_state_def)
  have d: "distinct (map fst (concat pre) @ map fst g @ map fst (concat post))" using assms(3) by (simp add: gs)
  have "k \<notin> rs_seen (br_state b1) \<and> rs_replacements (br_state b1) k = None \<and> \<not> sk k" if "k \<in> fst ` set g" for k
  proof -
    have "k \<notin> fst ` set (concat pre)" using that d by (metis Int_iff UnI1 disjoint_iff distinct_append set_append set_map)
    moreover from this have "recorded rs k = None" using r(3) by (intro recorded_None) (auto simp: new_records_def)
    ultimately show ?thesis using r by (simp add: sk_def)
  qed
  then have "int (kept_size (rs_replacements (br_state b2)) g) \<le> limit"
    unfolding b2_def using d assms(2,4) by (intro enforce_group_bound) (auto simp: gs)
  moreover have "kept_size (rs_replacements st') g \<le> kept_size (rs_replacements (br_state b2)) g"
    unfolding st' by (rule kept_size_mono[OF enforce_groups_dom])
  ultimately show ?thesis by linarith
qed

section \<open>Files\<close>

text \<open>Files are only added, each for a safe id in the directory of the session.\<close>

definition files_grow :: "persist_env \<Rightarrow> string \<Rightarrow> files \<Rightarrow> files \<Rightarrow> bool" where
  "files_grow env s fs fs' = (fs \<subseteq>\<^sub>m fs' \<and> (\<forall>path. path \<in> dom fs' - dom fs \<longrightarrow> (\<exists>i. safe_id i
     \<and> path \<in> {tool_results_dir env s @ ''/'' @ i @ ''.json'', tool_results_dir env s @ ''/'' @ i @ ''.txt''})))"

lemma files_grow_refl: "files_grow env s fs fs"
  by (simp add: files_grow_def)

lemma files_grow_trans: "files_grow env s fs fs1 \<Longrightarrow> files_grow env s fs1 fs2 \<Longrightarrow> files_grow env s fs fs2"
  unfolding files_grow_def by (blast intro: map_le_trans)

lemma persist_files: "files_grow env s fs (snd (persist_tool_result env content i s fs))"
proof (cases "serialize_result content")
  case (Some sz)
  obtain serialized as_json where sz: "sz = (serialized, as_json)" by (cases sz)
  show ?thesis
  proof (cases "tool_result_path env i as_json s")
    case (Inr desired)
    then have d: "safe_id i" "desired = tool_results_dir env s @ ''/'' @ i @ (if as_json then ''.json'' else ''.txt'')"
      by (simp_all add: tool_result_path_def split: if_splits)
    let ?alt = "tool_results_dir env s @ ''/'' @ i @ (if as_json then ''.txt'' else ''.json'')"
    define actual where "actual = (if fs desired = None \<and> fs ?alt \<noteq> None then ?alt else desired)"
    have a: "actual \<in> {tool_results_dir env s @ ''/'' @ i @ ''.json'', tool_results_dir env s @ ''/'' @ i @ ''.txt''}"
      by (auto simp: actual_def d(2))
    have "snd (persist_tool_result env content i s fs) \<in> {fs} \<union> {fs(actual \<mapsto> t) |t. fs actual = None}"
      using Some Inr by (auto simp: sz persist_tool_result_def Let_def split_beta actual_def split: option.splits)
    moreover have "files_grow env s fs (fs(actual \<mapsto> t))" if "fs actual = None" for t
      using a d(1) that by (auto simp: files_grow_def map_le_def)
    ultimately show ?thesis using files_grow_refl by auto
  qed (simp add: Some sz persist_tool_result_def files_grow_refl)
qed (simp add: persist_tool_result_def files_grow_refl)

lemma replace_rows_files: "files_grow env s (br_files b) (br_files (replace_rows env s limit rows rem b))"
proof (induction rows arbitrary: rem b)
  case (Cons row rows)
  obtain key payload sz where row: "row = (key, payload, sz)" by (cases row)
  obtain res fs where p: "persist_tool_result env payload key s (br_files b) = (res, fs)" by fastforce
  have g: "files_grow env s (br_files b) fs" using persist_files[of env s "br_files b" payload key] p by simp
  show ?case
  proof (cases res)
    case (Inl e)
    then show ?thesis using Cons.IH[of "b\<lparr>br_files := fs\<rparr>" "rem - int sz"] g files_grow_trans
      by (auto simp: row p files_grow_refl)
  next
    case (Inr r)
    then show ?thesis
      using Cons.IH[of "add_replacement key (build_large_tool_result_message r) (b\<lparr>br_files := fs\<rparr>)" "rem - int sz"]
        g files_grow_trans
      by (auto simp: row p files_grow_refl add_replacement_def Let_def)
  qed
qed (simp add: files_grow_refl)

lemma enforce_groups_files: "files_grow env s (br_files b) (br_files (fold (enforce_group env s limit sk) gs b))"
proof (induction gs arbitrary: b)
  case (Cons g gs)
  have "files_grow env s (br_files b) (br_files (enforce_group env s limit sk g b))"
  proof -
    obtain reps pending frozen st where sc: "scan_group sk g (br_state b) (br_reps b) = (reps, pending, frozen, st)"
      by (metis prod_cases4)
    show ?thesis
      using replace_rows_files[of env s "b\<lparr>br_state := st, br_reps := reps\<rparr>"] by (simp add: enforce_group_def sc)
  qed
  with Cons.IH show ?case by (auto intro: files_grow_trans)
qed (simp add: files_grow_refl)

text \<open>The budget never changes or removes a file, and whatever the ids of the results are, it creates
  files in the directory of the session only, named by an id of letters, digits, dashes and underscores.\<close>

lemma budget_only_adds_files:
  assumes "enforce_tool_result_budget env s limit skip names ms st fs = (out, recs, st', fs')"
  shows "fs \<subseteq>\<^sub>m fs' \<and> (\<forall>path. path \<in> dom fs' - dom fs \<longrightarrow> (\<exists>i. safe_id i
     \<and> path \<in> {tool_results_dir env s @ ''/'' @ i @ ''.json'', tool_results_dir env s @ ''/'' @ i @ ''.txt''}))"
proof -
  have "files_grow env s fs fs'"
    using assms enforce_groups_files[of env s "\<lparr>br_state = st, br_reps = Map.empty, br_records = [], br_files = fs\<rparr>"]
    by (auto simp: enforce_tool_result_budget_def Let_def)
  then show ?thesis by (simp add: files_grow_def)
qed

section \<open>Previews\<close>

text \<open>A preview is a prefix of the content, at most as long as asked, cut exactly when it says so, and longer
  than half of what was asked where it is cut at a line end.\<close>

lemma preview_spec:
  assumes "generate_preview content n = (p, short)"
  shows "(\<exists>rest. content = p @ rest \<and> short = (rest \<noteq> [])) \<and> int (length p) \<le> max 0 n
    \<and> (short \<longrightarrow> max 0 n \<le> 2 * int (length p))"
proof (cases "int (length content) \<le> max 0 n")
  case False
  define pre where "pre = take (nat (max 0 n)) content"
  define cut where "cut = rfind_char (CHR 0x0A) pre"
  have p: "p = (if 2 * cut > max 0 n then take (nat cut) pre else pre)" "short"
    using assms False by (auto simp: generate_preview_def Let_def pre_def cut_def)
  have l: "int (length pre) = max 0 n" using False by (simp add: pre_def)
  have "cut < int (length pre)" if "0 \<le> cut"
    using that by (auto simp: cut_def rfind_char_def split: if_splits)
  then have lp: "int (length p) = (if 2 * cut > max 0 n then cut else max 0 n)" "int (length p) \<le> max 0 n"
    using l by (auto simp: p(1))
  have "p = take (length p) content" by (auto simp: p(1) pre_def min_def)
  then have "content = p @ drop (length p) content" by (metis append_take_drop_id)
  moreover have "drop (length p) content \<noteq> []" using lp(2) False by simp
  ultimately show ?thesis using lp p(2) by (metis order.refl mult_2 add_increasing2 less_imp_le max.cobounded1)
qed (use assms in \<open>auto simp: generate_preview_def Let_def\<close>)

end
