(* ===== verification/Storage_Examples.thy ===== *)
theory Storage_Examples
  imports Storage_Properties
begin

text \<open>Witnesses of the theorems of \<open>Storage_Properties\<close>: one message with two results, of which the limit
  allows the smaller.\<close>

definition result_block :: "string \<Rightarrow> string \<Rightarrow> pyval" where
  "result_block i text = PyDict [(''type'', PyStr ''tool_result''), (''tool_use_id'', PyStr i), (''content'', PyStr text)]"

definition ex_messages :: "pydict list" where
  "ex_messages = [[(''role'', PyStr ''user''), (''content'', PyList [result_block ''a'' ''long text'', result_block ''b'' ''ok''])]]"

definition ex_disk :: persist_env where
  "ex_disk = \<lparr>pe_root = ''/r'', pe_io_error = (\<lambda>_. None)\<rparr>"

definition first_run :: "pydict list \<times> replacement_record list \<times> replacement_state \<times> files" where
  "first_run = enforce_tool_result_budget ex_disk ''s'' 5 {} Map.empty ex_messages new_replacement_state Map.empty"

definition later_run :: "pydict list \<times> replacement_record list \<times> replacement_state \<times> files" where
  "later_run = enforce_tool_result_budget ex_disk ''s'' 0 {} Map.empty (ex_messages @ ex_messages)
     (fst (snd (snd first_run))) Map.empty"

lemma ex_groups: "wire_groups ex_messages = [[(''a'', PyStr ''long text''), (''b'', PyStr ''ok'')]]"
  by code_simp

lemma ex_present: "''b'' \<in> present_ids ex_messages"
  by (simp add: present_wire_groups ex_groups)

lemma first_run_records: "map rr_tool_use_id (fst (snd first_run)) = [''a'']"
  by code_simp

lemma budget_decisions_are_stable_witness:
  "rs_replacements (fst (snd (snd later_run))) ''b'' = rs_replacements (fst (snd (snd first_run))) ''b''"
proof -
  obtain out recs st fs where r: "first_run = (out, recs, st, fs)" by (metis prod_cases4)
  obtain out2 recs2 st2 fs2 where r2: "later_run = (out2, recs2, st2, fs2)" by (metis prod_cases4)
  have "enforce_tool_result_budget ex_disk ''s'' 0 {} Map.empty (ex_messages @ ex_messages) st Map.empty = (out2, recs2, st2, fs2)"
    using r2 by (simp add: later_run_def r)
  from budget_decisions_are_stable[OF r[unfolded first_run_def] this ex_present] show ?thesis by (simp add: r r2)
qed

lemma resume_replays_budget_witness:
  "reconstruct_content_replacement_state ex_messages (map EntryRecord (fst (snd first_run))) Map.empty
    = fst (snd (snd first_run))"
proof -
  obtain out recs st fs where r: "first_run = (out, recs, st, fs)" by (metis prod_cases4)
  from resume_replays_budget[OF r[unfolded first_run_def]] show ?thesis by (simp add: r)
qed

lemma budget_is_kept_witness:
  "int (kept_size (rs_replacements (fst (snd (snd first_run)))) [(''a'', PyStr ''long text''), (''b'', PyStr ''ok'')]) \<le> 5"
proof -
  obtain out recs st fs where r: "first_run = (out, recs, st, fs)" by (metis prod_cases4)
  have "list_all (can_persist ex_disk) (concat (wire_groups ex_messages))"
    unfolding ex_groups by (simp add: can_persist_def ex_disk_def safe_id_def safe_id_char_def char_code_def)
  moreover have "distinct (map fst (concat (wire_groups ex_messages)))" by (simp add: ex_groups)
  ultimately show ?thesis
    using budget_is_kept[OF r[unfolded first_run_def]] by (simp add: r ex_groups)
qed

lemma budget_only_adds_files_witness: "Map.empty \<subseteq>\<^sub>m snd (snd (snd first_run))"
proof -
  obtain out recs st fs where r: "first_run = (out, recs, st, fs)" by (metis prod_cases4)
  from budget_only_adds_files[OF r[unfolded first_run_def]] show ?thesis by (simp add: r)
qed

text \<open>A result with an id that is no file name cannot be persisted, but its size counts as gone: both results stay
  although the limit is exceeded and the other one could be written.\<close>

definition ex_unsafe :: "pydict list" where
  "ex_unsafe = [[(''role'', PyStr ''user''), (''content'', PyList [result_block ''a/b'' ''long text'', result_block ''c'' ''ok''])]]"

lemma failed_write_counts:
  "fst (snd (enforce_tool_result_budget ex_disk ''s'' 5 {} Map.empty ex_unsafe new_replacement_state Map.empty)) = []"
  "fst (enforce_tool_result_budget ex_disk ''s'' 5 {} Map.empty ex_unsafe new_replacement_state Map.empty) = ex_unsafe"
  by code_simp+

end
