(* ===== verification/Shell_Text.thy ===== *)
theory Shell_Text
  imports Viola_Prelude
begin

text \<open>
  Reading shell text (\<open>intent/permissions/shell_safety.py\<close>, lexical part): the string methods the module
  uses, \<open>shlex.split\<close> of the standard library in both modes, the splitter on operators, the tokenizers,
  redirections, wrappers, and the name of an executable.  Strings are code points below 256.
\<close>

section \<open>Characters and strings\<close>

abbreviation backslash :: char where "backslash \<equiv> CHR 0x5C"
abbreviation squote :: char where "squote \<equiv> CHR 0x27"
abbreviation dquote :: char where "dquote \<equiv> CHR 0x22"
abbreviation backtick :: char where "backtick \<equiv> CHR 0x60"

text \<open>\<open>str.upper\<close>; the two letters whose upper case is beyond 255 stay, which no comparison with ASCII sees.\<close>

definition upper_char :: "char \<Rightarrow> string" where
  "upper_char c = (let n = char_code c in
     if n = 223 then ''SS''
     else if (97 \<le> n \<and> n \<le> 122) \<or> (224 \<le> n \<and> n \<le> 254 \<and> n \<noteq> 247) then [char_of (n - 32)] else [c])"

definition py_upper :: "string \<Rightarrow> string" where
  "py_upper s = concat (map upper_char s)"

text \<open>\<open>s.strip(chars)\<close> and \<open>s.rstrip()\<close>\<close>

definition strip_of :: "string \<Rightarrow> string \<Rightarrow> string" where
  "strip_of cs s = rev (dropWhile (\<lambda>c. c \<in> set cs) (rev (dropWhile (\<lambda>c. c \<in> set cs) s)))"

definition py_rstrip :: "string \<Rightarrow> string" where
  "py_rstrip s = rev (dropWhile py_space (rev s))"

abbreviation strip_quotes :: "string \<Rightarrow> string" where
  "strip_quotes s \<equiv> strip_of [dquote, squote] s"

text \<open>\<open>s.split()\<close>: the words between blanks, with the word that is open.\<close>

fun words_loop :: "string \<Rightarrow> string \<Rightarrow> string list" where
  "words_loop w [] = (if w = [] then [] else [w])"
| "words_loop w (c # cs) = (if py_space c then (if w = [] then words_loop [] cs else w # words_loop [] cs)
     else words_loop (w @ [c]) cs)"

definition split_words :: "string \<Rightarrow> string list" where
  "split_words s = words_loop [] s"

text \<open>\<open>s.split(c, 1)\<close>, \<open>s.rsplit(c, 1)[-1]\<close>, \<open>s.replace(a, b)\<close> for characters, \<open>s.removeprefix(p)\<close>\<close>

definition before_first :: "char \<Rightarrow> string \<Rightarrow> string" where
  "before_first c s = takeWhile (\<lambda>x. x \<noteq> c) s"

definition after_first :: "char \<Rightarrow> string \<Rightarrow> string" where
  "after_first c s = (if c \<in> set s then tl (dropWhile (\<lambda>x. x \<noteq> c) s) else s)"

definition after_last :: "char \<Rightarrow> string \<Rightarrow> string" where
  "after_last c s = rev (takeWhile (\<lambda>x. x \<noteq> c) (rev s))"

definition replace_char :: "char \<Rightarrow> char \<Rightarrow> string \<Rightarrow> string" where
  "replace_char a b s = map (\<lambda>c. if c = a then b else c) s"

definition remove_prefix :: "string \<Rightarrow> string \<Rightarrow> string" where
  "remove_prefix p s = (if starts_with p s then drop (length p) s else s)"

abbreviation to_slashes :: "string \<Rightarrow> string" where
  "to_slashes s \<equiv> replace_char backslash (CHR ''/'') s"

definition collapse_ws :: "string \<Rightarrow> string" where
  "collapse_ws command = join_with '' '' (split_words (py_strip command))"

section \<open>shlex\<close>

text \<open>\<open>shlex.split\<close> splits at these four characters only, and knows no comments.\<close>

definition shlex_space :: "char \<Rightarrow> bool" where
  "shlex_space c = (c \<in> {CHR '' '', CHR 0x09, CHR 0x0D, CHR 0x0A})"

definition is_quote :: "char \<Rightarrow> bool" where
  "is_quote c = (c = squote \<or> c = dquote)"

text \<open>The states of \<open>shlex.read_token\<close>: between words, in a word, in quotes, after a backslash (in double quotes
  or not).\<close>

datatype shlex_state = Between | InWord | InQuote char | Escaped | EscapedInQuote

text \<open>POSIX mode: \<open>token\<close> is the word so far, \<open>quoted\<close> says that it has a quoted part.  \<open>None\<close> is
  \<open>ValueError\<close> (an open quote or a last backslash).\<close>

fun shlex_posix :: "shlex_state \<Rightarrow> string \<Rightarrow> bool \<Rightarrow> string \<Rightarrow> string list option" where
  "shlex_posix Between token quoted [] = Some []"
| "shlex_posix InWord token quoted [] = Some (if token \<noteq> [] \<or> quoted then [token] else [])"
| "shlex_posix st token quoted [] = None"
| "shlex_posix Between token quoted (c # cs) =
     (if shlex_space c then shlex_posix Between [] False cs
      else if c = backslash then shlex_posix Escaped [] False cs
      else if is_quote c then shlex_posix (InQuote c) [] True cs
      else shlex_posix InWord [c] False cs)"
| "shlex_posix InWord token quoted (c # cs) =
     (if shlex_space c then (if token \<noteq> [] \<or> quoted then map_option (Cons token) (shlex_posix Between [] False cs)
        else shlex_posix Between [] False cs)
      else if is_quote c then shlex_posix (InQuote c) token True cs
      else if c = backslash then shlex_posix Escaped token quoted cs
      else shlex_posix InWord (token @ [c]) quoted cs)"
| "shlex_posix (InQuote q) token quoted (c # cs) =
     (if c = q then shlex_posix InWord token quoted cs
      else if c = backslash \<and> q = dquote then shlex_posix EscapedInQuote token quoted cs
      else shlex_posix (InQuote q) (token @ [c]) quoted cs)"
| "shlex_posix Escaped token quoted (c # cs) = shlex_posix InWord (token @ [c]) quoted cs"
| "shlex_posix EscapedInQuote token quoted (c # cs) = shlex_posix (InQuote dquote)
     (token @ (if c \<noteq> backslash \<and> c \<noteq> dquote then [backslash, c] else [c])) quoted cs"

text \<open>The other mode keeps quotes and backslashes; a quote that opens a word ends it where it closes, and
  a quote inside a word is an ordinary character.\<close>

fun shlex_plain :: "shlex_state \<Rightarrow> string \<Rightarrow> string \<Rightarrow> string list option" where
  "shlex_plain (InQuote q) token [] = None"
| "shlex_plain st token [] = Some (if token \<noteq> [] then [token] else [])"
| "shlex_plain (InQuote q) token (c # cs) =
     (if c = q then map_option (Cons (token @ [c])) (shlex_plain Between [] cs)
      else shlex_plain (InQuote q) (token @ [c]) cs)"
| "shlex_plain Between token (c # cs) =
     (if shlex_space c then shlex_plain Between [] cs
      else if is_quote c then shlex_plain (InQuote c) [c] cs
      else shlex_plain InWord [c] cs)"
| "shlex_plain st token (c # cs) =
     (if shlex_space c then map_option (Cons token) (shlex_plain Between [] cs)
      else shlex_plain InWord (token @ [c]) cs)"

definition shlex_split :: "bool \<Rightarrow> string \<Rightarrow> string list option" where
  "shlex_split posix s = (if posix then shlex_posix Between [] False s else shlex_plain Between [] s)"

section \<open>Operators\<close>

definition add_part :: "string \<Rightarrow> string list \<Rightarrow> string list" where
  "add_part buf parts = (let p = py_strip buf in if p = [] then parts else p # parts)"

text \<open>The operator at the front of a text, the longest one first.\<close>

definition operator_at :: "string list \<Rightarrow> string \<Rightarrow> string option" where
  "operator_at ops s = List.find (\<lambda>op. starts_with op s) (sort_key (\<lambda>op. - int (length op)) ops)"

fun split_loop :: "string list \<Rightarrow> char \<Rightarrow> char option \<Rightarrow> string \<Rightarrow> string \<Rightarrow> string list" where
  "split_loop ops esc quote buf [] = add_part buf []"
| "split_loop ops esc quote buf (c # cs) =
     (case (if quote = None then operator_at ops (c # cs) else None) of
        Some op \<Rightarrow> add_part buf (split_loop ops esc None [] (drop (length op - 1) cs))
      | None \<Rightarrow>
         if c = esc then split_loop ops esc quote (buf @ c # take 1 cs) (drop 1 cs)
         else if is_quote c then split_loop ops esc
           (if quote = None then Some c else if quote = Some c then None else quote) (buf @ [c]) cs
         else split_loop ops esc quote (buf @ [c]) cs)"

definition split_shell_like :: "string list \<Rightarrow> char \<Rightarrow> string \<Rightarrow> string list" where
  "split_shell_like ops esc text = split_loop ops esc None [] text"

definition bash_segment_texts :: "string \<Rightarrow> string list" where
  "bash_segment_texts command = concat (map (split_shell_like [''|''] backslash)
     (split_shell_like [''&&'', ''||'', '';'', ''&''] backslash command))"

definition powershell_segment_texts :: "string \<Rightarrow> string list" where
  "powershell_segment_texts command = concat (map (split_shell_like [''|''] backtick)
     (split_shell_like ['';'', ''&&'', ''||''] backtick command))"

section \<open>Tokens\<close>

datatype quote_kind = Single | Double

record token =
  tk_text :: string
  tk_quote :: "quote_kind option"

definition plain_token :: "string \<Rightarrow> token" where
  "plain_token s = \<lparr>tk_text = s, tk_quote = None\<rparr>"

definition posix_escapable :: "char \<Rightarrow> bool" where
  "posix_escapable c = (c \<in> set (CHR '' '' # CHR 0x09 # CHR 0x0D # CHR 0x0A # squote # dquote # backtick
     # CHR ''$'' # backslash # ''|&;()<>*?[]{}~#!''))"

definition dquote_escapable :: "char \<Rightarrow> bool" where
  "dquote_escapable c = (c \<in> {CHR ''$'', backtick, dquote, backslash, CHR 0x0A})"

text \<open>\<open>_tokenize_literal_bash\<close>: the quote that is open, the word so far.\<close>

fun literal_words :: "char option \<Rightarrow> string \<Rightarrow> string \<Rightarrow> string list" where
  "literal_words quote w [] = (if w = [] then [] else [w])"
| "literal_words quote w (c # cs) =
     (if quote = Some squote then (if c = squote then literal_words None w cs else literal_words quote (w @ [c]) cs)
      else if quote = Some dquote then
        (if c = backslash \<and> cs \<noteq> [] then literal_words quote
           (w @ (if dquote_escapable (hd cs) then [hd cs] else [c, hd cs])) (tl cs)
         else if c = dquote then literal_words None w cs else literal_words quote (w @ [c]) cs)
      else if is_quote c then literal_words (Some c) w cs
      else if c = backslash \<and> cs \<noteq> [] then literal_words quote
        (w @ (if posix_escapable (hd cs) then [hd cs] else [c, hd cs])) (tl cs)
      else if shlex_space c then (if w = [] then literal_words quote [] cs else w # literal_words quote [] cs)
      else literal_words quote (w @ [c]) cs)"

definition tokenize_literal_bash :: "string \<Rightarrow> string list" where
  "tokenize_literal_bash text = literal_words None [] text"

text \<open>\<open>_tokenize_powershell\<close>: the quote that is open, the first quote of the word, the word so far.\<close>

fun powershell_loop :: "quote_kind option \<Rightarrow> quote_kind option \<Rightarrow> string \<Rightarrow> string \<Rightarrow> token list" where
  "powershell_loop quote active buf [] = (if buf = [] then [] else [\<lparr>tk_text = buf, tk_quote = active\<rparr>])"
| "powershell_loop quote active buf (c # cs) =
     (if quote = None \<and> py_space c then
        (if buf = [] then powershell_loop quote active [] cs
         else \<lparr>tk_text = buf, tk_quote = active\<rparr> # powershell_loop quote None [] cs)
      else if c = backtick then powershell_loop quote active (buf @ take 1 cs) (drop 1 cs)
      else if c = squote \<and> quote = None then
        powershell_loop (Some Single) (if active = None then Some Single else active) buf cs
      else if c = dquote \<and> quote = None then
        powershell_loop (Some Double) (if active = None then Some Double else active) buf cs
      else if c = squote \<and> quote = Some Single \<or> c = dquote \<and> quote = Some Double then
        powershell_loop None active buf cs
      else powershell_loop quote active (buf @ [c]) cs)"

definition tokenize_powershell :: "string \<Rightarrow> token list" where
  "tokenize_powershell text = powershell_loop None None [] text"

section \<open>Redirections\<close>

definition redirection_needs_target :: "string \<Rightarrow> bool" where
  "redirection_needs_target t = (t \<in> {''<'', ''>'', ''>>'', ''1>'', ''1>>'', ''2>'', ''2>>'', ''&>'', ''*>''})"

definition is_redirection_token :: "string \<Rightarrow> bool" where
  "is_redirection_token t = (let lower = py_lower t in
     lower \<in> {''<'', ''>'', ''>>'', ''1>'', ''1>>'', ''2>'', ''2>>'', ''&>'', ''*>'', ''2>&1'', ''1>&2''}
     \<or> list_ex (\<lambda>p. starts_with p lower) [''>'', ''>>'', ''1>'', ''2>'', ''&>'', ''*>''])"

text \<open>The words without redirections, and whether there were any; \<open>skip\<close> says that the next one is a target.\<close>

fun strip_redirections_loop :: "bool \<Rightarrow> token list \<Rightarrow> token list \<times> bool" where
  "strip_redirections_loop skip [] = ([], False)"
| "strip_redirections_loop skip (t # ts) =
     (if skip then strip_redirections_loop False ts
      else if is_redirection_token (tk_text t) then
        (fst (strip_redirections_loop (redirection_needs_target (tk_text t)) ts), True)
      else (let (kept, redirection) = strip_redirections_loop False ts in (t # kept, redirection)))"

definition strip_redirections :: "token list \<Rightarrow> token list \<times> bool" where
  "strip_redirections argv = strip_redirections_loop False argv"

section \<open>Executables\<close>

text \<open>\<open>ntpath.basename\<close>: what follows the last separator, after the drive or the UNC share.\<close>

definition nt_sep :: "char \<Rightarrow> bool" where
  "nt_sep c = (c = backslash \<or> c = CHR ''/'')"

definition nt_tail :: "string \<Rightarrow> string" where
  "nt_tail s = rev (takeWhile (\<lambda>c. \<not> nt_sep c) (rev s))"

text \<open>The text after a UNC share, \<open>None\<close> when the share is not ended: it is then all drive.\<close>

definition after_share :: "string \<Rightarrow> string option" where
  "after_share p = (let
     start = (if py_upper (replace_char (CHR ''/'') backslash (take 8 p))
                = [backslash, backslash, CHR ''?'', backslash, CHR ''U'', CHR ''N'', CHR ''C'', backslash] then 8 else 2);
     server = dropWhile (\<lambda>c. \<not> nt_sep c) (drop start p);
     share = dropWhile (\<lambda>c. \<not> nt_sep c) (tl server)
     in if server = [] \<or> share = [] then None else Some share)"

definition nt_basename :: "string \<Rightarrow> string" where
  "nt_basename p = (if p \<noteq> [] \<and> nt_sep (hd p) then
       (if tl p \<noteq> [] \<and> nt_sep (hd (tl p)) then (case after_share p of None \<Rightarrow> [] | Some rest \<Rightarrow> nt_tail rest)
        else nt_tail p)
     else if take 1 (drop 1 p) = '':'' then nt_tail (drop 2 p) else nt_tail p)"

definition executable_name :: "string \<Rightarrow> string" where
  "executable_name token = (let name = nt_basename (after_last (CHR ''/'') (strip_quotes (py_strip token))) in
     py_lower (if ends_with ''.exe'' (py_lower name) then take (length name - 4) name else name))"

section \<open>Wrappers\<close>

definition is_env_assignment :: "string \<Rightarrow> bool" where
  "is_env_assignment token = (CHR ''='' \<in> set token \<and> hd token \<noteq> CHR ''=''
     \<and> (let name = before_first (CHR ''='') token in
          name \<noteq> [] \<and> list_all (\<lambda>c. c = CHR ''_'' \<or> py_isalnum c) name \<and> \<not> py_isdigit (hd name)))"

definition strip_nice :: "string list \<Rightarrow> string list" where
  "strip_nice ws = (if length ws \<ge> 3 \<and> ws ! 1 = ''-n'' then drop 3 ws
     else if length ws \<ge> 2 \<and> starts_with ''-'' (ws ! 1) then drop 2 ws else drop 1 ws)"

definition timeout_flag_value_safe :: "string \<Rightarrow> bool" where
  "timeout_flag_value_safe v = (v \<noteq> [] \<and> list_all (\<lambda>c. py_isalnum c \<or> c \<in> set ''_.+-'') v)"

text \<open>The options of \<open>timeout\<close>: alone, with the value attached, with the value in the next word, short with
  the value attached.\<close>

definition timeout_flag :: "string \<Rightarrow> bool" where
  "timeout_flag arg = (arg \<in> {''--foreground'', ''--preserve-status'', ''--verbose'', ''-v''})"

definition timeout_long_option :: "string \<Rightarrow> bool" where
  "timeout_long_option arg = (starts_with ''--kill-after='' arg \<or> starts_with ''--signal='' arg)"

definition timeout_option :: "string \<Rightarrow> bool" where
  "timeout_option arg = (arg \<in> {''--kill-after'', ''--signal'', ''-k'', ''-s''})"

definition timeout_short_option :: "string \<Rightarrow> bool" where
  "timeout_short_option arg = ((starts_with ''-k'' arg \<or> starts_with ''-s'' arg) \<and> timeout_flag_value_safe (drop 2 arg))"

definition dash_word :: "string \<Rightarrow> bool" where
  "dash_word arg = starts_with ''-'' arg"

definition end_of_options :: string where
  "end_of_options = ''--''"

text \<open>The words after the options, \<open>None\<close> where the code gives up.\<close>

fun timeout_options :: "string list \<Rightarrow> string list option" where
  "timeout_options [] = Some []"
| "timeout_options (arg # ws) =
     (if timeout_flag arg then timeout_options ws
      else if timeout_long_option arg then
        (if timeout_flag_value_safe (after_first (CHR ''='') arg) then timeout_options ws else None)
      else if timeout_option arg \<and> ws \<noteq> [] \<and> timeout_flag_value_safe (hd ws) then timeout_options (tl ws)
      else if timeout_short_option arg then timeout_options ws
      else if arg = end_of_options then Some ws
      else if dash_word arg then None
      else Some (arg # ws))"

definition strip_timeout :: "string list \<Rightarrow> string list" where
  "strip_timeout ws = (case timeout_options (drop 1 ws) of
      None \<Rightarrow> ws
    | Some [] \<Rightarrow> ws
    | Some (duration # rest) \<Rightarrow> if timeout_flag_value_safe duration then rest else ws)"

lemma timeout_options_length: "timeout_options ws = Some r \<Longrightarrow> length r \<le> length ws"
  by (induction ws rule: timeout_options.induct) (fastforce split: if_splits)+

lemma strip_timeout_length: "strip_timeout ws \<noteq> ws \<Longrightarrow> length (strip_timeout ws) < length ws"
  using timeout_options_length[of "drop 1 ws"]
  by (cases ws) (auto simp: strip_timeout_def split: option.splits list.splits if_splits)

lemma strip_nice_length: "ws \<noteq> [] \<Longrightarrow> length (strip_nice ws) < length ws"
  by (cases ws) (auto simp: strip_nice_def)

text \<open>\<open>_strip_bash_wrappers\<close>: assignments, \<open>time\<close>, \<open>nohup\<close>, \<open>nice\<close> and \<open>timeout\<close> before the command.\<close>

function strip_wrappers :: "string list \<Rightarrow> string list" where
  "strip_wrappers ws = (let w = dropWhile is_env_assignment ws in
     if w = [] then []
     else let exe = executable_name (hd w) in
       if exe \<in> {''time'', ''nohup''} then
         strip_wrappers (if length w > 1 \<and> w ! 1 = ''--'' then drop 2 w else drop 1 w)
       else if exe = ''nice'' then strip_wrappers (strip_nice w)
       else if exe = ''timeout'' then (if strip_timeout w = w then w else strip_wrappers (strip_timeout w))
       else w)"
  by auto
termination
proof (relation "measure length")
  fix ws w exe
  assume w: "w = dropWhile is_env_assignment ws" "w \<noteq> []"
  have le: "length w \<le> length ws" using w(1) by (simp add: length_dropWhile_le)
  have pos: "0 < length w" using w(2) by simp
  show "(if length w > 1 \<and> w ! 1 = ''--'' then drop 2 w else drop 1 w, ws) \<in> measure length"
    using le pos by (cases w) auto
  show "(strip_nice w, ws) \<in> measure length" using strip_nice_length[OF w(2)] le by simp
  show "strip_timeout w \<noteq> w \<Longrightarrow> (strip_timeout w, ws) \<in> measure length"
    using strip_timeout_length[of w] le by simp
qed simp

declare strip_wrappers.simps [simp del]

section \<open>Expansions\<close>

definition starts_dollar_paren :: "string \<Rightarrow> bool" where
  "starts_dollar_paren s = (s \<noteq> [] \<and> hd s = CHR ''$''
     \<and> (let rest = dropWhile py_space (tl s) in rest \<noteq> [] \<and> hd rest = CHR ''(''))"

text \<open>What is found at one place outside single quotes.\<close>

definition expansion_at :: "string \<Rightarrow> string option" where
  "expansion_at s = (if hd s = backtick then Some ''Backtick command substitution is denied.''
     else if starts_dollar_paren s \<or> starts_with ''<('' s \<or> starts_with ''>('' s
       then Some ''Shell command or process substitution is denied.''
     else if starts_with ''${'' s \<or> starts_with ''$(('' s
       then Some ''Shell expansion is denied because it can hide exfiltration.''
     else if hd s = CHR ''$'' \<and> tl s \<noteq> [] \<and> (py_isalpha (hd (tl s)) \<or> hd (tl s) = CHR ''_'')
       then Some ''Shell variable expansion is denied because it can exfiltrate environment data.''
     else None)"

fun expansion_loop :: "char option \<Rightarrow> string \<Rightarrow> string option" where
  "expansion_loop quote [] = None"
| "expansion_loop quote (c # cs) =
     (if c = backslash then expansion_loop quote (drop 1 cs)
      else if is_quote c \<and> quote = None then expansion_loop (Some c) cs
      else if is_quote c \<and> quote = Some c then expansion_loop None cs
      else (case (if quote \<noteq> Some squote then expansion_at (c # cs) else None) of
          Some reason \<Rightarrow> Some reason
        | None \<Rightarrow> expansion_loop quote cs))"

definition bash_forbidden_expansion_reason :: "string \<Rightarrow> string option" where
  "bash_forbidden_expansion_reason command = expansion_loop None command"

end
