(* ===== verification/Shell_Rules.thy ===== *)
theory Shell_Rules
  imports Shell_Text
begin

text \<open>
  The tables and the rules of \<open>intent/permissions/shell_safety.py\<close> on one command: paths that leave the
  sandbox or are sensitive, destructive commands, and which calls of known programs only read.  The
  answers of the file system and the platform's path rules are the fields of \<open>shell_env\<close>.
\<close>

section \<open>Tables\<close>

definition BASH_READONLY_SIMPLE :: "string list" where
  "BASH_READONLY_SIMPLE = [''echo'', ''printf'', ''pwd'', ''ls'', ''dir'', ''whoami'', ''hostname'', ''uname'', ''which'',
     ''where'', ''cat'', ''head'', ''tail'', ''wc'', ''true'', ''false'', ''ping'']"

definition BASH_READONLY_FILESYSTEM_COMMANDS :: "string list" where
  "BASH_READONLY_FILESYSTEM_COMMANDS = [''cat'', ''head'', ''tail'', ''wc'', ''ls'', ''dir'', ''rg'']"

definition POWERSHELL_ALIAS_MAP :: "(string \<times> string) list" where
  "POWERSHELL_ALIAS_MAP = [(''cat'', ''get-content''), (''cd'', ''set-location''), (''chdir'', ''set-location''),
     (''cls'', ''clear-host''), (''copy'', ''copy-item''), (''cp'', ''copy-item''),
     (''curl'', ''invoke-webrequest''), (''del'', ''remove-item''), (''dir'', ''get-childitem''),
     (''echo'', ''write-output''), (''erase'', ''remove-item''), (''gci'', ''get-childitem''),
     (''gc'', ''get-content''), (''gcm'', ''get-command''), (''gl'', ''get-location''),
     (''gp'', ''get-itemproperty''), (''gps'', ''get-process''), (''ls'', ''get-childitem''),
     (''mi'', ''move-item''), (''move'', ''move-item''), (''mv'', ''move-item''),
     (''pwd'', ''get-location''), (''rm'', ''remove-item''), (''rmdir'', ''remove-item''),
     (''select'', ''select-object''), (''sl'', ''set-location''), (''sort'', ''sort-object''),
     (''type'', ''get-content''), (''where'', ''where-object''), (''?'', ''where-object''),
     (''%'', ''foreach-object'')]"

definition POWERSHELL_READONLY_CMDLETS :: "string list" where
  "POWERSHELL_READONLY_CMDLETS = [''clear-host'', ''compare-object'', ''convertfrom-json'', ''convertto-json'', ''findstr'',
     ''foreach-object'', ''format-list'', ''format-table'', ''get-alias'', ''get-childitem'',
     ''get-command'', ''get-content'', ''get-date'', ''get-item'', ''get-itemproperty'', ''get-location'',
     ''get-process'', ''get-service'', ''measure-object'', ''out-host'', ''resolve-path'',
     ''select-object'', ''select-string'', ''sort-object'', ''test-path'', ''where-object'',
     ''write-host'', ''write-output'']"

definition POWERSHELL_CWD_CHANGERS :: "string list" where
  "POWERSHELL_CWD_CHANGERS = [''set-location'', ''push-location'', ''pop-location'', ''new-psdrive'']"

definition POWERSHELL_READONLY_FILESYSTEM_CMDLETS :: "string list" where
  "POWERSHELL_READONLY_FILESYSTEM_CMDLETS = [''get-childitem'', ''get-content'', ''get-item'', ''get-itemproperty'', ''resolve-path'',
     ''select-string'', ''test-path'']"

definition CMD_READONLY_FILESYSTEM_COMMANDS :: "string list" where
  "CMD_READONLY_FILESYSTEM_COMMANDS = [''dir'', ''type'']"

definition CMD_BENIGN_ECHO_VARS :: "string list" where
  "CMD_BENIGN_ECHO_VARS = [''CD'', ''COMPUTERNAME'', ''DATE'', ''HOMEDRIVE'', ''HOMEPATH'', ''OS'', ''PROCESSOR_ARCHITECTURE'',
     ''TIME'', ''USERNAME'', ''USERPROFILE'']"

definition WRITE_COMMANDS :: "string list" where
  "WRITE_COMMANDS = [''add-content'', ''copy-item'', ''mkdir'', ''move-item'', ''new-item'', ''out-file'', ''remove-item'',
     ''rename-item'', ''set-content'', ''set-item'', ''tee-object'']"

definition GIT_READONLY_NO_ARG :: "string list" where
  "GIT_READONLY_NO_ARG = [''branch'', ''help'', ''log'', ''reflog'', ''remote'', ''shortlog'', ''show-branch'', ''status'',
     ''tag'']"

definition GIT_READONLY_WITH_ARGS :: "string list" where
  "GIT_READONLY_WITH_ARGS = [''blame'', ''cat-file'', ''diff'', ''diff-tree'', ''grep'', ''ls-files'', ''ls-remote'', ''rev-list'',
     ''rev-parse'', ''show'', ''show-ref'', ''stash'']"

definition GIT_WRITE_SUBCOMMANDS :: "string list" where
  "GIT_WRITE_SUBCOMMANDS = [''add'', ''am'', ''apply'', ''bisect'', ''checkout'', ''cherry-pick'', ''clean'', ''clone'',
     ''commit'', ''fetch'', ''merge'', ''mv'', ''pull'', ''push'', ''rebase'', ''reset'', ''restore'',
     ''revert'', ''rm'', ''switch'', ''worktree'']"

definition GH_READONLY :: "(string \<times> string list) list" where
  "GH_READONLY = [(''auth'', [''status'']),
     (''issue'', [''list'', ''view'']),
     (''pr'', [''checks'', ''diff'', ''list'', ''status'', ''view'']),
     (''repo'', [''list'', ''view'']),
     (''run'', [''list'', ''view'']),
     (''workflow'', [''list'', ''view''])]"

definition SENSITIVE_PATH_FRAGMENTS :: "string list" where
  "SENSITIVE_PATH_FRAGMENTS = [''/.env'', ''/.git/config'', ''/.git/hooks'', ''/audit/'', ''/audits/'', ''/.ssh/'', ''/id_dsa'',
     ''/id_ecdsa'', ''/id_ed25519'', ''/id_rsa'', ''/credentials'', ''/secrets'']"

definition PROTECTED_BRANCHES :: "string list" where
  "PROTECTED_BRANCHES = [''main'', ''master'', ''trunk'', ''prod'', ''production'']"

definition REMOTE_INSTALL_FETCHERS :: "string list" where
  "REMOTE_INSTALL_FETCHERS = [''curl'', ''wget'', ''invoke-webrequest'', ''iwr'']"

definition REMOTE_INSTALL_RUNNERS :: "string list" where
  "REMOTE_INSTALL_RUNNERS = [''bash'', ''sh'', ''zsh'', ''powershell'', ''pwsh'', ''iex'', ''invoke-expression'']"

definition POWERSHELL_CROSS_SHELLS :: "string list" where
  "POWERSHELL_CROSS_SHELLS = [''bash'', ''sh'', ''zsh'', ''cmd'', ''cmd.exe'', ''powershell'', ''pwsh'']"

definition GIT_WRITE_FLAG_EQUALS :: "string list" where
  "GIT_WRITE_FLAG_EQUALS = [''--output'', ''--output-directory'', ''-o'', ''-O'']"

definition GIT_WRITE_FLAG_VALUE :: "string list" where
  "GIT_WRITE_FLAG_VALUE = [''--output'', ''--output-directory'', ''-o'', ''-O'']"

definition ACCEPT_EDITS_BASH_ALLOWED :: "string list" where
  "ACCEPT_EDITS_BASH_ALLOWED = [''mkdir'', ''touch'', ''rm'', ''rmdir'', ''mv'', ''cp'', ''sed'']"

definition ACCEPT_EDITS_POWERSHELL_ALLOWED :: "string list" where
  "ACCEPT_EDITS_POWERSHELL_ALLOWED = [''new-item'', ''remove-item'', ''set-content'', ''add-content'', ''out-file'', ''copy-item'',
     ''move-item'', ''rename-item'', ''set-itemproperty'']"

section \<open>Reasons\<close>

text \<open>The first reason that a loop over words returns.\<close>

fun first_reason :: "('a \<Rightarrow> string option) \<Rightarrow> 'a list \<Rightarrow> string option" where
  "first_reason f [] = None"
| "first_reason f (x # xs) = (case f x of Some r \<Rightarrow> Some r | None \<Rightarrow> first_reason f xs)"

definition reason_if :: "bool \<Rightarrow> string \<Rightarrow> string option" where
  "reason_if b r = (if b then Some r else None)"

section \<open>Paths\<close>

text \<open>\<open>Path.home()\<close>, \<open>expanduser\<close>, \<open>is_absolute\<close>, \<open>resolve\<close> (\<open>None\<close> is an exception), \<open>a / b\<close>, and whether
  \<open>p.relative_to(d)\<close> succeeds (\<open>se_within d p\<close>).\<close>

record shell_env =
  se_home :: string
  se_expanduser :: "string \<Rightarrow> string"
  se_absolute :: "string \<Rightarrow> bool"
  se_resolve :: "string \<Rightarrow> string option"
  se_join :: "string \<Rightarrow> string \<Rightarrow> string"
  se_within :: "string \<Rightarrow> string \<Rightarrow> bool"

text \<open>\<open>re.search\<close> of a pattern that starts at the front or after a character that \<open>sep\<close> accepts.\<close>

fun search_after :: "(char \<Rightarrow> bool) \<Rightarrow> (string \<Rightarrow> bool) \<Rightarrow> bool \<Rightarrow> string \<Rightarrow> bool" where
  "search_after sep at here [] = False"
| "search_after sep at here (c # cs) = (here \<and> at (c # cs) \<or> search_after sep at (sep c) cs)"

definition unc_char :: "char \<Rightarrow> bool" where
  "unc_char c = (c \<noteq> CHR ''/'' \<and> \<not> py_space c \<and> \<not> is_quote c)"

definition unc_at :: "string \<Rightarrow> bool" where
  "unc_at s = (starts_with ''//'' s \<and> (let rest = drop 2 s; share = dropWhile unc_char rest in
     rest \<noteq> [] \<and> unc_char (hd rest) \<and> share \<noteq> [] \<and> hd share = CHR ''/'' \<and> tl share \<noteq> [] \<and> unc_char (hd (tl share))))"

definition raw_unc :: "string \<Rightarrow> bool" where
  "raw_unc s = search_after (\<lambda>c. py_space c \<or> is_quote c) unc_at True s"

definition parent_at :: "string \<Rightarrow> bool" where
  "parent_at s = (starts_with ''..'' s \<and> (let rest = drop 2 s in rest = [] \<or> rest = newline \<or> hd rest = CHR ''/''))"

definition raw_parent :: "string \<Rightarrow> bool" where
  "raw_parent s = search_after py_space parent_at True s"

text \<open>\<open>re.match(r"^[a-z]:", lower)\<close>\<close>

definition drive_prefix :: "string \<Rightarrow> bool" where
  "drive_prefix s = (2 \<le> length s \<and> (let n = char_code (s ! 0) in 97 \<le> n \<and> n \<le> 122) \<and> s ! 1 = CHR '':'')"

text \<open>\<open>resolve\<close> followed by \<open>relative_to\<close> of the resolved working directory\<close>

definition resolves_within :: "shell_env \<Rightarrow> string \<Rightarrow> string \<Rightarrow> bool" where
  "resolves_within env d p = (case se_resolve env p of None \<Rightarrow> False | Some q \<Rightarrow> se_within env d q)"

definition arg_escape :: "shell_env \<Rightarrow> string option \<Rightarrow> string \<Rightarrow> string option" where
  "arg_escape env cwd_path arg = (if arg = [] \<or> starts_with ''-'' arg then None else (let
     value = strip_quotes arg; normalized = to_slashes value; lower = py_lower normalized in
     if list_ex (\<lambda>c. char_code c < 32) value then Some ''Read-only command argument contains control characters.''
     else if starts_with ''//'' lower then Some ''Read-only command targets a UNC/network path.''
     else if starts_with ''~'' lower then Some ''Read-only command targets a home-directory path outside the sandbox.''
     else if lower = ''..'' then Some ''Read-only command targets a parent directory outside the sandbox.''
     else if lower = ''.'' then None
     else if starts_with ''../'' lower \<or> str_contains ''/../'' lower \<or> ends_with ''/..'' lower
       then Some ''Read-only command contains parent-directory traversal.''
     else if drive_prefix lower \<and> \<not> se_absolute env value
       then Some ''Read-only command targets a Windows drive path outside the sandbox.''
     else if drive_prefix lower \<or> starts_with ''/'' normalized then (case cwd_path of
         None \<Rightarrow> Some ''Read-only command targets an absolute path.''
       | Some d \<Rightarrow> reason_if (\<not> resolves_within env d (se_expanduser env value))
           ''Read-only command targets an absolute path outside the sandbox.'')
     else (case cwd_path of
         None \<Rightarrow> None
       | Some d \<Rightarrow> reason_if (\<not> resolves_within env d (se_join env d value))
           ''Read-only command targets a resolved path outside the sandbox.'')))"

definition readonly_path_escape_reason :: "shell_env \<Rightarrow> string list \<Rightarrow> string \<Rightarrow> string \<Rightarrow> string option" where
  "readonly_path_escape_reason env args cwd raw = (let raw_path = py_lower (to_slashes raw) in
     if raw_unc raw_path then Some ''Read-only command targets a UNC/network path.''
     else if raw_parent raw_path then Some ''Read-only command contains parent-directory traversal.''
     else first_reason
       (arg_escape env (if cwd = [] then None else se_resolve env (se_expanduser env cwd))) args)"

definition sensitive_arg :: "string \<Rightarrow> string option" where
  "sensitive_arg arg = (if arg = [] \<or> starts_with ''-'' arg then None else (let
     lower = py_lower (to_slashes (strip_quotes arg));
     comparable = ''/'' @ remove_prefix ''/'' (remove_prefix ''./'' lower) in
     if starts_with ''//'' lower then Some ''UNC/network paths require explicit approval.''
     else reason_if (list_ex (\<lambda>f. str_contains f lower \<or> str_contains f comparable) SENSITIVE_PATH_FRAGMENTS)
       ''Command references a sensitive local path.''))"

definition sensitive_path_reason :: "string list \<Rightarrow> string option" where
  "sensitive_path_reason args = first_reason sensitive_arg args"

definition destructive_sensitive_path_reason :: "string list \<Rightarrow> string option" where
  "destructive_sensitive_path_reason args = reason_if (sensitive_path_reason args \<noteq> None)
     ''Destructive command targets a sensitive local path.''"

definition is_root_path :: "string \<Rightarrow> bool" where
  "is_root_path value = (let s = py_rstrip (to_slashes (strip_quotes value)) in
     s \<in> {''/'', ''/*''} \<or> (length s = 2 \<and> s ! 1 = CHR '':'') \<or> ends_with '':/'' s)"

section \<open>Destructive calls\<close>

definition has_recursive_force :: "string list \<Rightarrow> bool" where
  "has_recursive_force args = (let flags = concat (map (drop 1) (filter (starts_with ''-'') args)) in
     CHR ''r'' \<in> set flags \<and> CHR ''f'' \<in> set flags)"

definition push_branch :: "string \<Rightarrow> string" where
  "push_branch target = after_last (CHR ''/'') (after_first (CHR '':'') target)"

definition direct_git_push_reason :: "string list \<Rightarrow> string option" where
  "direct_git_push_reason args = reason_if (take 1 args = [''push'']
     \<and> list_ex (\<lambda>t. t \<noteq> [] \<and> \<not> starts_with ''-'' t \<and> push_branch t \<in> set PROTECTED_BRANCHES) (drop 1 args))
     ''Direct git push to a protected branch is denied.''"

definition aws_recursive_delete_reason :: "string list \<Rightarrow> string option" where
  "aws_recursive_delete_reason args = reason_if (3 \<le> length args \<and> take 2 args = [''s3'', ''rm'']
     \<and> list_ex (\<lambda>a. a \<in> {''--recursive'', ''--include'', ''--exclude''}) args)
     ''Recursive or wildcard S3 deletion is denied.''"

definition production :: "string \<Rightarrow> bool" where
  "production s = (s = ''prod'' \<or> s = ''production'')"

fun namespace_loop :: "string list \<Rightarrow> bool" where
  "namespace_loop [] = False"
| "namespace_loop (arg # args) =
     ((arg = ''-n'' \<or> arg = ''--namespace'') \<and> args \<noteq> [] \<and> production (hd args)
      \<or> starts_with ''--namespace='' arg \<and> production (after_first (CHR ''='') arg)
      \<or> namespace_loop args)"

definition kubectl_production_delete_reason :: "string list \<Rightarrow> string option" where
  "kubectl_production_delete_reason args = reason_if (take 1 args = [''delete'']
     \<and> (list_ex production (drop 1 args) \<or> namespace_loop (drop 1 args)))
     ''kubectl delete against a production namespace is denied.''"

definition dangerous_repo :: "string \<Rightarrow> bool" where
  "dangerous_repo token = ((starts_with ''-'' token \<longrightarrow> CHR ''='' \<in> set token)
     \<and> (let v = (if starts_with ''-'' token then after_first (CHR ''='') token else token) in
          str_contains ''://'' v \<or> CHR ''@'' \<in> set v \<or> 2 \<le> count_list v (CHR ''/'')))"

definition repo_arg_is_dangerous :: "string list \<Rightarrow> bool" where
  "repo_arg_is_dangerous args = list_ex dangerous_repo args"

section \<open>Programs that only read\<close>

fun git_args_have_output_write :: "string list \<Rightarrow> bool" where
  "git_args_have_output_write [] = False"
| "git_args_have_output_write (t # ts) =
     ((if CHR ''='' \<in> set t then before_first (CHR ''='') t \<in> set GIT_WRITE_FLAG_EQUALS
       else t \<in> set GIT_WRITE_FLAG_VALUE \<and> ts \<noteq> [] \<and> hd ts \<noteq> [] \<and> \<not> starts_with ''-'' (hd ts))
      \<or> git_args_have_output_write ts)"

definition git_is_read_only :: "string list \<Rightarrow> bool" where
  "git_is_read_only args = (if args = [] then False else (let sub = py_lower (hd args); rest = tl args in
     if args = [''--version''] \<or> args = [''version''] then True
     else if sub \<in> set GIT_WRITE_SUBCOMMANDS then False
     else if git_args_have_output_write rest then False
     else if sub = ''branch'' \<or> sub = ''tag'' then rest = [] \<or> list_all (starts_with ''-'') rest
     else if sub = ''remote'' then rest = [] \<or> py_lower (hd rest) \<in> {''-v'', ''show'', ''get-url''}
     else if sub = ''stash'' then rest \<noteq> [] \<and> py_lower (hd rest) \<in> {''list'', ''show''}
     else if sub = ''ls-remote'' \<and> repo_arg_is_dangerous rest then False
     else sub \<in> set GIT_READONLY_NO_ARG \<or> sub \<in> set GIT_READONLY_WITH_ARGS))"

definition gh_is_read_only :: "string list \<Rightarrow> bool" where
  "gh_is_read_only args = (args \<noteq> [] \<and> \<not> repo_arg_is_dangerous args
     \<and> (case map_of GH_READONLY (py_lower (hd args)) of
          None \<Rightarrow> False
        | Some actions \<Rightarrow> (if length args > 1 then py_lower (args ! 1) else []) \<in> set actions))"

definition docker_is_read_only :: "string list \<Rightarrow> bool" where
  "docker_is_read_only args = (args \<noteq> [] \<and> (hd args \<in> {''ps'', ''images''}
     \<or> (2 \<le> length args \<and> hd args \<in> {''logs'', ''inspect''})))"

definition rg_is_read_only :: "string list \<Rightarrow> bool" where
  "rg_is_read_only args = (\<not> list_ex (\<lambda>a. a \<in> {''--files-with-matches-and-replace'', ''--replace'', ''-r''}
     \<or> starts_with ''--replace='' a) args)"

definition pyright_is_read_only :: "string list \<Rightarrow> bool" where
  "pyright_is_read_only args = (\<not> list_ex (\<lambda>a. a \<in> {''--watch'', ''-w''}) args)"

definition pip_reads :: "string \<Rightarrow> bool" where
  "pip_reads a = (a \<in> {''list'', ''show'', ''freeze'', ''--version'', ''-V''})"

definition external_command_is_read_only :: "string \<Rightarrow> string list \<Rightarrow> bool" where
  "external_command_is_read_only exe args =
     (if exe = ''git'' then git_is_read_only args
      else if exe = ''gh'' then gh_is_read_only args
      else if exe = ''docker'' then docker_is_read_only args
      else if exe = ''rg'' then rg_is_read_only args
      else if exe = ''pyright'' then pyright_is_read_only args
      else if exe \<in> {''python'', ''python3'', ''py''} then
        (if 3 \<le> length args \<and> args ! 0 = ''-m'' \<and> args ! 1 = ''pip'' then pip_reads (args ! 2)
         else args \<in> {[''--version''], [''-V''], [''-VV''], []})
      else if exe \<in> {''pip'', ''pip3''} then args \<noteq> [] \<and> pip_reads (hd args)
      else if exe = ''npm'' then args \<noteq> [] \<and> hd args \<in> {''list'', ''view'', ''ls'', ''--version'', ''-v''}
      else if exe = ''node'' then args \<in> {[''--version''], [''-v''], []}
      else if exe = ''ffprobe'' then True
      else if exe \<in> {''ffmpeg'', ''ffplay''} then args = []
        \<or> list_ex (\<lambda>a. a \<in> {''-version'', ''-h'', ''--help'', ''-help''}) args
      else if exe = ''npx'' then args \<noteq> [] \<and> last args \<in> {''--version'', ''-v''}
      else False)"

section \<open>PowerShell\<close>

definition powershell_canonical_name :: "string \<Rightarrow> string" where
  "powershell_canonical_name name = (let lower = py_lower (executable_name name) in
     if ends_with ''.exe'' lower then lower
     else case map_of POWERSHELL_ALIAS_MAP lower of None \<Rightarrow> lower | Some full \<Rightarrow> full)"

definition powershell_variable_exfil_reason :: "token list \<Rightarrow> string option" where
  "powershell_variable_exfil_reason argv = reason_if
     (list_ex (\<lambda>t. tk_quote t \<noteq> Some Single \<and> CHR ''$'' \<in> set (tk_text t)) argv)
     ''PowerShell variable expansion is denied because it can exfiltrate environment data.''"

definition contains_string_built_path :: "token list \<Rightarrow> bool" where
  "contains_string_built_path argv = list_ex (\<lambda>t. tk_quote t \<noteq> Some Single
     \<and> list_ex (\<lambda>m. str_contains m (tk_text t)) [''$'', ''$('', ''+'', ''{'', ''}'']) argv"

section \<open>cmd.exe\<close>

text \<open>\<open>_CMD_USERPROFILE_RE.sub\<close>\<close>

fun write_out_home :: "string \<Rightarrow> string \<Rightarrow> string" where
  "write_out_home home [] = []"
| "write_out_home home (c # cs) = (if starts_with ''%userprofile%'' (py_lower (c # cs))
     then home @ write_out_home home (drop 12 cs) else c # write_out_home home cs)"

definition cmd_literal_args :: "shell_env \<Rightarrow> string list \<Rightarrow> string list" where
  "cmd_literal_args env args = map (write_out_home (se_home env)) args"

definition ascii_letter :: "char \<Rightarrow> bool" where
  "ascii_letter c = (let n = char_code (lower_char c) in 97 \<le> n \<and> n \<le> 122)"

text \<open>\<open>_CMD_SWITCH_RE.match\<close>: a slash, a letter, \<open>4\<close> or \<open>?\<close>, and letters after a colon or one letter, both
  with an optional dash; a last newline is allowed by \<open>$\<close>.\<close>

definition cmd_switch :: "string \<Rightarrow> bool" where
  "cmd_switch arg = (let s = (if arg \<noteq> [] \<and> last arg = CHR 0x0A then butlast arg else arg);
     dashed = (\<lambda>t. if take 1 t = ''-'' then drop 1 t else t); tail = drop 2 s in
     2 \<le> length s \<and> s ! 0 = CHR ''/'' \<and> (ascii_letter (s ! 1) \<or> s ! 1 = CHR ''4'' \<or> s ! 1 = CHR ''?'')
     \<and> (tail = [] \<or> (if hd tail = CHR '':'' then dashed (tl tail) \<noteq> [] \<and> list_all ascii_letter (dashed (tl tail))
          else length (dashed tail) = 1 \<and> list_all ascii_letter (dashed tail))))"

definition cmd_path_args :: "string list \<Rightarrow> string list" where
  "cmd_path_args args = filter (\<lambda>a. \<not> cmd_switch a) args"

text \<open>\<open>_CMD_VAR_RE.sub\<close>: the variables that only say where things are are erased.\<close>

fun erase_benign_vars :: "string \<Rightarrow> string" where
  "erase_benign_vars [] = []"
| "erase_benign_vars (c # cs) = (let name = takeWhile (\<lambda>x. x \<noteq> CHR ''%'' \<and> \<not> py_space x) cs in
     if c = CHR ''%'' \<and> take 1 (drop (length name) cs) = ''%''
     then (if py_upper name \<in> set CMD_BENIGN_ECHO_VARS then [] else CHR ''%'' # name @ ''%'')
       @ erase_benign_vars (drop (Suc (length name)) cs)
     else c # erase_benign_vars cs)"

definition re_word_char :: "char \<Rightarrow> bool" where
  "re_word_char c = (py_isalnum c \<or> c = CHR ''_'')"

text \<open>\<open>re.split(r"\belse\b", body, flags=re.IGNORECASE)\<close>: whether the character before is one of a word, the
  part so far.\<close>

fun split_else :: "bool \<Rightarrow> string \<Rightarrow> string \<Rightarrow> string list" where
  "split_else in_word buf [] = [buf]"
| "split_else in_word buf (c # cs) =
     (if \<not> in_word \<and> starts_with ''else'' (py_lower (c # cs)) \<and> (drop 3 cs = [] \<or> \<not> re_word_char (hd (drop 3 cs)))
      then buf # split_else True [] (drop 3 cs)
      else split_else (re_word_char c) (buf @ [c]) cs)"

definition cmd_if_exist_is_read_only :: "string list \<Rightarrow> bool" where
  "cmd_if_exist_is_read_only args = (let
     ws = (if args \<noteq> [] \<and> py_lower (hd args) = ''not'' then tl args else args);
     body = replace_char (CHR '')'') (CHR '' '') (replace_char (CHR ''('') (CHR '' '') (join_with '' '' (drop 2 ws)))
     in 3 \<le> length ws \<and> py_lower (hd ws) = ''exist''
       \<and> list_all (\<lambda>b. take 1 (split_words (py_lower b)) = [''echo'']) (split_else False [] body))"

text \<open>\<open>_join_after_switch\<close>: the words after the first switch that has a word after it.\<close>

fun join_after_switch :: "string list \<Rightarrow> string list \<Rightarrow> string option" where
  "join_after_switch switches [] = None"
| "join_after_switch switches (a # args) = (if py_lower a \<in> set switches \<and> args \<noteq> []
     then Some (py_strip (join_with '' '' args)) else join_after_switch switches args)"

end
