(* ===== verification/Shell_Safety.thy ===== *)
theory Shell_Safety
  imports Shell_Rules Permission_Policy
begin

text \<open>
  \<open>validate_shell_command\<close> of \<open>intent/permissions/shell_safety.py\<close>: parsing into simple commands, what is
  denied whatever the mode, what only reads, and the decision by mode.  A command that starts another
  shell is validated by validating the text it passes on; \<open>rec\<close> is that nested call, with text, shell and
  working directory.
\<close>

section \<open>Commands\<close>

datatype shell_name = Bash | Powershell | Cmd

record shell_decision =
  sd_behavior :: behavior
  sd_command :: string
  sd_shell :: shell_name
  sd_cwd :: string
  sd_read_only :: bool
  sd_reason :: "string option"
  sd_permission :: "string option"

record simple_command =
  sc_raw :: string
  sc_argv :: "token list"
  sc_stripped :: "string list"
  sc_redirection :: bool
  sc_literal :: "string list"

record shell_analysis =
  an_command :: string
  an_read_only :: bool
  an_hard_deny :: bool
  an_reason :: "string option"

type_synonym nested = "string \<Rightarrow> shell_name \<Rightarrow> string \<Rightarrow> shell_decision"

definition normalize_shell_name :: "string \<Rightarrow> string + shell_name" where
  "normalize_shell_name shell = (let lower = py_lower shell in
     if lower \<in> {''bash'', ''sh'', ''zsh''} then Inr Bash
     else if lower \<in> {''powershell'', ''pwsh''} then Inr Powershell
     else if lower \<in> {''cmd'', ''cmd.exe''} then Inr Cmd
     else Inl (''Unsupported shell: '' @ shell))"

definition sc_executable :: "simple_command \<Rightarrow> string" where
  "sc_executable s = (case sc_stripped s of [] \<Rightarrow> [] | w # _ \<Rightarrow> executable_name w)"

section \<open>Parsing\<close>

text \<open>One segment; the words read with backslashes kept replace the others only where both have the same number.\<close>

definition bash_command :: "string \<Rightarrow> string list \<Rightarrow> simple_command" where
  "bash_command text parts = (let
     argv = map plain_token parts;
     ws = tokenize_literal_bash text;
     literal = map plain_token (if length ws \<noteq> length argv then parts else ws);
     (kept, redirection) = strip_redirections argv;
     lit = fst (strip_redirections literal);
     lit = (if length lit \<noteq> length kept then kept else lit);
     stripped = strip_wrappers (map tk_text kept);
     final = strip_wrappers (map tk_text lit)
     in \<lparr>sc_raw = text, sc_argv = argv, sc_stripped = stripped, sc_redirection = redirection,
         sc_literal = (if length final \<noteq> length stripped then stripped else final)\<rparr>)"

definition cmd_command :: "string \<Rightarrow> string list \<Rightarrow> simple_command" where
  "cmd_command text parts = (let argv = map plain_token parts; (kept, redirection) = strip_redirections argv in
     \<lparr>sc_raw = text, sc_argv = argv, sc_stripped = map tk_text kept, sc_redirection = redirection,
      sc_literal = map tk_text kept\<rparr>)"

text \<open>One text that cannot be split empties the whole parse.\<close>

fun parse_segments :: "bool \<Rightarrow> (string \<Rightarrow> string list \<Rightarrow> simple_command) \<Rightarrow> string list \<Rightarrow> simple_command list option" where
  "parse_segments posix mk [] = Some []"
| "parse_segments posix mk (text # texts) = (case shlex_split posix text of
      None \<Rightarrow> None
    | Some parts \<Rightarrow> map_option (Cons (mk text parts)) (parse_segments posix mk texts))"

definition or_empty :: "'a list option \<Rightarrow> 'a list" where
  "or_empty x = (case x of None \<Rightarrow> [] | Some xs \<Rightarrow> xs)"

definition parse_bash :: "string \<Rightarrow> simple_command list" where
  "parse_bash command = or_empty (parse_segments True bash_command (bash_segment_texts command))"

definition parse_cmd :: "string \<Rightarrow> simple_command list" where
  "parse_cmd command = or_empty (parse_segments False cmd_command (bash_segment_texts command))"

definition powershell_command :: "string \<Rightarrow> simple_command option" where
  "powershell_command part = (let argv = tokenize_powershell part; (kept, redirection) = strip_redirections argv in
     if kept = [] then None
     else Some \<lparr>sc_raw = part, sc_argv = argv, sc_stripped = map tk_text kept, sc_redirection = redirection,
       sc_literal = map tk_text kept\<rparr>)"

definition parse_powershell :: "string \<Rightarrow> simple_command list list" where
  "parse_powershell command = filter (\<lambda>p. p \<noteq> [])
     (map (\<lambda>statement. List.map_filter powershell_command (split_shell_like [''|''] backtick statement))
       (split_shell_like ['';'', ''&&'', ''||''] backtick command))"

section \<open>Fetch and run\<close>

definition segment_executable :: "shell_name \<Rightarrow> string \<Rightarrow> string" where
  "segment_executable shell segment = (if shell = Powershell
     then (case fst (strip_redirections (tokenize_powershell segment)) of
         [] \<Rightarrow> [] | t # _ \<Rightarrow> powershell_canonical_name (tk_text t))
     else (case shlex_split (shell \<noteq> Cmd) segment of
         None \<Rightarrow> []
       | Some parts \<Rightarrow> (case (if shell = Bash then strip_wrappers parts else parts) of
           [] \<Rightarrow> [] | w # _ \<Rightarrow> executable_name w)))"

fun fetch_then_run :: "bool \<Rightarrow> string list \<Rightarrow> bool" where
  "fetch_then_run fetched [] = False"
| "fetch_then_run fetched (exe # exes) =
     (if exe = [] then fetch_then_run fetched exes
      else if exe \<in> set REMOTE_INSTALL_FETCHERS then fetch_then_run True exes
      else if fetched \<and> exe \<in> set REMOTE_INSTALL_RUNNERS then True
      else fetch_then_run fetched exes)"

definition remote_install_pipe_reason :: "string \<Rightarrow> shell_name \<Rightarrow> string option" where
  "remote_install_pipe_reason command shell = reason_if (CHR ''|'' \<in> set command
     \<and> fetch_then_run False (map (segment_executable shell)
         (if shell = Powershell then powershell_segment_texts command else bash_segment_texts command)))
     ''Piping a remote fetcher into a shell or expression evaluator is denied.''"

section \<open>Shells that start shells\<close>

definition nested_refusal :: "nested \<Rightarrow> string option \<Rightarrow> shell_name \<Rightarrow> string \<Rightarrow> string \<Rightarrow> string option" where
  "nested_refusal rec text shell cwd reason = (case text of
      None \<Rightarrow> None
    | Some [] \<Rightarrow> None
    | Some t \<Rightarrow> reason_if (sd_behavior (rec t shell cwd) \<noteq> Allow) reason)"

definition NESTED_CMD_REASON :: string where
  "NESTED_CMD_REASON = ''Nested cmd.exe command is not provably read-only.''"

definition nested_powershell_guard :: "nested \<Rightarrow> string list \<Rightarrow> string \<Rightarrow> string option" where
  "nested_powershell_guard rec args cwd =
     (if list_ex (\<lambda>a. py_lower a \<in> {''-encodedcommand'', ''-enc'', ''-e''}) args
      then Some ''PowerShell encoded commands are denied.''
      else (case join_after_switch [''-command'', ''-c''] args of
          None \<Rightarrow> None
        | Some t \<Rightarrow> reason_if (sd_behavior (rec t Powershell cwd) \<noteq> Allow)
            ''Nested PowerShell command is not provably read-only.''))"

definition nested_cross_shell_guard :: "nested \<Rightarrow> string \<Rightarrow> string list \<Rightarrow> string \<Rightarrow> string option" where
  "nested_cross_shell_guard rec exe args cwd =
     (if exe \<in> {''powershell'', ''pwsh''} then nested_powershell_guard rec args cwd
      else if exe \<in> {''bash'', ''sh'', ''zsh''}
        then nested_refusal rec (join_after_switch [''-c'', ''-command''] args) Bash cwd
          ''Nested POSIX shell command is not provably read-only.''
      else if exe \<in> {''cmd'', ''cmd.exe''}
        then nested_refusal rec (join_after_switch [''/c'', ''/r''] args) Cmd cwd NESTED_CMD_REASON
      else None)"

definition unquoted :: "string \<Rightarrow> string" where
  "unquoted s = (let t = py_strip s in
     if 2 \<le> length t \<and> hd t = dquote \<and> last t = dquote then butlast (tl t) else t)"

definition nested_shell_is_read_only :: "nested \<Rightarrow> string \<Rightarrow> string list \<Rightarrow> string \<Rightarrow> bool" where
  "nested_shell_is_read_only rec exe args cwd =
     (case (if exe = ''cmd'' then join_after_switch [''/c'', ''/r''] args
            else join_after_switch [''-command'', ''-c''] args) of
        None \<Rightarrow> False
      | Some [] \<Rightarrow> False
      | Some t \<Rightarrow> sd_read_only (rec (unquoted t) (if exe = ''cmd'' then Cmd else Powershell) cwd))"

section \<open>Hard denials\<close>

text \<open>\<open>r_1 or r_2 or ...\<close>: the first reason.\<close>

definition first_of :: "string option list \<Rightarrow> string option" where
  "first_of rs = first_reason (\<lambda>r. r) rs"

text \<open>The checks of \<open>_bash_hard_deny\<close> before the ones on shells and paths, in order.\<close>

definition bash_destructive :: "string \<Rightarrow> string list \<Rightarrow> string list \<Rightarrow> string option list" where
  "bash_destructive exe args literal_args = (let lower_args = map py_lower args in
     [reason_if (exe = ''rm'' \<and> has_recursive_force lower_args \<and> list_ex is_root_path literal_args)
        ''Recursive deletion of a filesystem root is denied.'',
      reason_if (exe = ''rmdir'' \<and> list_ex (\<lambda>a. a \<in> {''/s'', ''/q''}) lower_args \<and> list_ex is_root_path literal_args)
        ''Recursive removal of a drive root is denied.'',
      reason_if (starts_with ''mkfs'' exe \<or> exe \<in> {''shutdown'', ''reboot'', ''halt''})
        ''System-destructive command is denied.'',
      reason_if (exe = ''init'' \<and> take 1 lower_args = [''0'']) ''System shutdown command is denied.'',
      reason_if (exe = ''format'') ''Disk format command is denied.'',
      reason_if (exe = ''dd'' \<and> list_ex (starts_with ''of=/dev/'') lower_args) ''Raw device overwrite is denied.'',
      reason_if (exe = ''reg'' \<and> take 1 lower_args = [''delete'']) ''Registry delete command is denied.'',
      reason_if (exe = ''net'' \<and> ''user'' \<in> set lower_args \<and> ''/delete'' \<in> set lower_args)
        ''User deletion command is denied.'',
      reason_if (exe \<in> {''python'', ''python3''} \<and> ''-c'' \<in> set lower_args) ''Inline Python execution is denied.'',
      reason_if (exe = ''node'' \<and> list_ex (\<lambda>a. a \<in> {''-e'', ''--eval'', ''--input-type'', ''-r'', ''--require''}) lower_args)
        ''Inline Node execution is denied.'',
      reason_if (exe = ''git'' \<and> take 1 lower_args = [''ls-remote''] \<and> repo_arg_is_dangerous (drop 1 args))
        ''git ls-remote to external URL-like repositories is denied.'',
      (if exe = ''git'' then direct_git_push_reason lower_args else None),
      reason_if (exe = ''gh'' \<and> repo_arg_is_dangerous args)
        ''GitHub CLI repository arguments that can exfiltrate to another host are denied.'',
      (if exe = ''aws'' then aws_recursive_delete_reason lower_args else None),
      (if exe = ''kubectl'' then kubectl_production_delete_reason lower_args else None),
      (if exe \<in> {''rm'', ''rmdir''} then destructive_sensitive_path_reason literal_args else None)])"

definition bash_hard_deny :: "nested \<Rightarrow> shell_env \<Rightarrow> simple_command \<Rightarrow> string \<Rightarrow> string option" where
  "bash_hard_deny rec env s cwd = (case sc_stripped s of [] \<Rightarrow> None | _ # args \<Rightarrow> (let
     exe = sc_executable s; literal_args = drop 1 (sc_literal s) in
     case first_of (bash_destructive exe args literal_args) of
       Some r \<Rightarrow> Some r
     | None \<Rightarrow>
        if exe \<in> {''powershell'', ''pwsh''} then nested_powershell_guard rec args cwd
        else if exe \<in> {''bash'', ''sh'', ''zsh'', ''cmd'', ''cmd.exe''} then nested_cross_shell_guard rec exe args cwd
        else first_of
          [if exe \<in> set BASH_READONLY_FILESYSTEM_COMMANDS
           then readonly_path_escape_reason env literal_args cwd (sc_raw s) else None,
           sensitive_path_reason literal_args]))"

definition powershell_destructive :: "string \<Rightarrow> string list \<Rightarrow> token list \<Rightarrow> string option list" where
  "powershell_destructive exe args argv = (let lower_args = map py_lower args in
     [reason_if (exe \<in> {''invoke-expression'', ''iex''}) ''PowerShell dynamic expression execution is denied.'',
      reason_if (exe \<in> set WRITE_COMMANDS \<and> contains_string_built_path argv)
        ''PowerShell string-built file operation is denied.'',
      (if exe = ''git'' then direct_git_push_reason lower_args else None),
      (if exe = ''aws'' then aws_recursive_delete_reason lower_args else None),
      (if exe = ''kubectl'' then kubectl_production_delete_reason lower_args else None),
      reason_if (exe = ''remove-item'' \<and> list_ex (\<lambda>a. a \<in> {''-recurse'', ''-r''}) lower_args)
        ''PowerShell recursive deletion requires a separately verified filesystem operation.'',
      (if exe \<in> {''remove-item'', ''del'', ''erase'', ''rmdir''} then destructive_sensitive_path_reason args else None)])"

definition powershell_hard_deny :: "nested \<Rightarrow> shell_env \<Rightarrow> simple_command \<Rightarrow> string \<Rightarrow> string option" where
  "powershell_hard_deny rec env s cwd = (case sc_stripped s of [] \<Rightarrow> None | _ # args \<Rightarrow> (let
     exe = powershell_canonical_name (sc_executable s) in
     case first_of (powershell_destructive exe args (sc_argv s)) of
       Some r \<Rightarrow> Some r
     | None \<Rightarrow>
        if exe \<in> set POWERSHELL_CROSS_SHELLS then nested_cross_shell_guard rec exe args cwd
        else first_of
          [if exe \<in> set POWERSHELL_READONLY_FILESYSTEM_CMDLETS
           then readonly_path_escape_reason env args cwd (sc_raw s) else None,
           sensitive_path_reason args]))"

definition cmd_destructive :: "string \<Rightarrow> string list \<Rightarrow> string option list" where
  "cmd_destructive exe args = (let lower_args = map (\<lambda>a. strip_of [dquote] (py_lower a)) args in
     [reason_if (exe \<in> {''del'', ''erase'', ''rmdir'', ''rd''}) ''Destructive cmd.exe filesystem command is denied.'',
      reason_if (exe = ''format'') ''Disk format command is denied.'',
      reason_if (exe = ''gh'' \<and> repo_arg_is_dangerous args)
        ''GitHub CLI repository arguments that can exfiltrate to another host are denied.'',
      reason_if (exe = ''git'' \<and> take 1 lower_args = [''ls-remote''] \<and> repo_arg_is_dangerous (drop 1 args))
        ''git ls-remote to external URL-like repositories is denied.'',
      (if exe = ''git'' then direct_git_push_reason lower_args else None),
      (if exe = ''aws'' then aws_recursive_delete_reason lower_args else None),
      (if exe = ''kubectl'' then kubectl_production_delete_reason lower_args else None)])"

definition cmd_hard_deny :: "nested \<Rightarrow> shell_env \<Rightarrow> simple_command \<Rightarrow> string \<Rightarrow> string option" where
  "cmd_hard_deny rec env s cwd = (case sc_stripped s of [] \<Rightarrow> None | _ # raw_args \<Rightarrow> (let
     exe = sc_executable s; args = cmd_literal_args env raw_args;
     lower_args = map (\<lambda>a. strip_of [dquote] (py_lower a)) args in
     case first_of (cmd_destructive exe args
         @ [if exe = ''cmd'' \<and> list_ex (\<lambda>a. a \<in> {''/c'', ''/r''}) lower_args
            then nested_refusal rec (join_after_switch [''/c'', ''/r''] args) Cmd cwd NESTED_CMD_REASON else None]) of
       Some r \<Rightarrow> Some r
     | None \<Rightarrow>
        if exe \<in> set POWERSHELL_CROSS_SHELLS then nested_cross_shell_guard rec exe args cwd
        else first_of
          [if exe \<in> set CMD_READONLY_FILESYSTEM_COMMANDS
           then readonly_path_escape_reason env (cmd_path_args args) cwd (sc_raw s) else None,
           sensitive_path_reason args]))"

section \<open>Read-only commands\<close>

definition bash_command_is_read_only :: "simple_command \<Rightarrow> bool" where
  "bash_command_is_read_only s = (case sc_stripped s of [] \<Rightarrow> False | _ # args \<Rightarrow>
     \<not> sc_redirection s \<and> sensitive_path_reason (drop 1 (sc_literal s)) = None \<and> sc_executable s \<noteq> ''cd''
     \<and> (sc_executable s \<in> set BASH_READONLY_SIMPLE \<or> external_command_is_read_only (sc_executable s) args))"

definition powershell_command_is_read_only :: "simple_command \<Rightarrow> bool" where
  "powershell_command_is_read_only s = (case sc_stripped s of [] \<Rightarrow> False | _ # args \<Rightarrow> (let
     exe = powershell_canonical_name (sc_executable s) in
     \<not> sc_redirection s \<and> sensitive_path_reason args = None
     \<and> exe \<notin> set POWERSHELL_CWD_CHANGERS \<and> exe \<notin> set WRITE_COMMANDS
     \<and> (exe \<in> set POWERSHELL_READONLY_CMDLETS \<or> external_command_is_read_only exe args)))"

definition CMD_READONLY_SIMPLE :: "string list" where
  "CMD_READONLY_SIMPLE = [''dir'', ''echo'', ''hostname'', ''ping'', ''type'', ''uname'', ''ver'', ''where'', ''which'',
     ''whoami'']"

definition cmd_command_is_read_only :: "nested \<Rightarrow> shell_env \<Rightarrow> simple_command \<Rightarrow> string \<Rightarrow> bool" where
  "cmd_command_is_read_only rec env s cwd = (case sc_stripped s of [] \<Rightarrow> False | _ # raw_args \<Rightarrow> (let
     exe = sc_executable s; args = cmd_literal_args env raw_args; joined = join_with '' '' args in
     \<not> sc_redirection s
     \<and> CHR ''%'' \<notin> set (if exe = ''echo'' then erase_benign_vars joined else joined)
     \<and> sensitive_path_reason args = None
     \<and> (if exe \<in> set CMD_READONLY_SIMPLE then True
        else if exe \<in> {''date'', ''time''} then map py_lower args = [''/t'']
        else if exe = ''if'' then cmd_if_exist_is_read_only args
        else if exe \<in> {''cmd'', ''powershell'', ''pwsh''} then nested_shell_is_read_only rec exe args cwd
        else external_command_is_read_only exe args)))"

section \<open>Analyses\<close>

definition denied :: "string \<Rightarrow> string \<Rightarrow> shell_analysis" where
  "denied command reason = \<lparr>an_command = command, an_read_only = False, an_hard_deny = True, an_reason = Some reason\<rparr>"

definition UNPARSED :: string where
  "UNPARSED = ''Unable to parse command.''"

definition segment_text :: "simple_command \<Rightarrow> string" where
  "segment_text s = (if sc_stripped s = [] then collapse_ws (sc_raw s) else join_with '' '' (sc_stripped s))"

text \<open>The loop over the commands: the parts so far and whether all of them read only; \<open>Inl\<close> is an early return.
  \<open>deny\<close> and \<open>reads\<close> are the checks of the shell.\<close>

fun analysis_loop ::
    "string \<Rightarrow> (simple_command \<Rightarrow> string) \<Rightarrow> (simple_command \<Rightarrow> string option) \<Rightarrow> (simple_command \<Rightarrow> bool) \<Rightarrow>
     string list \<Rightarrow> bool \<Rightarrow> simple_command list \<Rightarrow> shell_analysis + (string list \<times> bool)" where
  "analysis_loop sep render deny reads parts read_only [] = Inr (parts, read_only)"
| "analysis_loop sep render deny reads parts read_only (s # ss) = (let parts' = parts @ [render s] in
     case deny s of
       Some reason \<Rightarrow> Inl (denied (join_with sep parts') reason)
     | None \<Rightarrow> analysis_loop sep render deny reads parts' (read_only \<and> \<not> sc_redirection s \<and> reads s) ss)"

definition finish_analysis :: "string \<Rightarrow> string option \<Rightarrow> shell_analysis + (string list \<times> bool) \<Rightarrow> shell_analysis" where
  "finish_analysis sep approval r = (case r of
      Inl a \<Rightarrow> a
    | Inr (parts, read_only) \<Rightarrow> \<lparr>an_command = join_with sep parts, an_read_only = (read_only \<and> approval = None),
        an_hard_deny = False, an_reason = approval\<rparr>)"

definition analyze_bash :: "nested \<Rightarrow> shell_env \<Rightarrow> string \<Rightarrow> string \<Rightarrow> shell_analysis" where
  "analyze_bash rec env command cwd = (case first_of [bash_forbidden_expansion_reason command,
       remote_install_pipe_reason command Bash] of
      Some reason \<Rightarrow> denied (collapse_ws command) reason
    | None \<Rightarrow> (let segments = parse_bash command in
        if segments = [] then denied (collapse_ws command) UNPARSED
        else finish_analysis '' | '' (reason_if (1 < length segments
              \<and> list_ex (\<lambda>s. sc_executable s = ''cd'') segments \<and> list_ex (\<lambda>s. sc_executable s = ''git'') segments)
              ''Compound commands with cd and git require approval.'')
            (analysis_loop '' | '' segment_text (\<lambda>s. bash_hard_deny rec env s cwd) bash_command_is_read_only
              [] True segments)))"

definition powershell_deny :: "nested \<Rightarrow> shell_env \<Rightarrow> string \<Rightarrow> simple_command \<Rightarrow> string option" where
  "powershell_deny rec env cwd s = first_of [powershell_variable_exfil_reason (sc_argv s), powershell_hard_deny rec env s cwd]"

definition analyze_powershell :: "nested \<Rightarrow> shell_env \<Rightarrow> string \<Rightarrow> string \<Rightarrow> shell_analysis" where
  "analyze_powershell rec env command cwd = (case remote_install_pipe_reason command Powershell of
      Some reason \<Rightarrow> denied (collapse_ws command) reason
    | None \<Rightarrow> (let commands = concat (parse_powershell command) in
        if commands = [] then denied (collapse_ws command) UNPARSED
        else finish_analysis '' | '' (reason_if (1 < length commands
              \<and> list_ex (\<lambda>s. powershell_canonical_name (sc_executable s) \<in> set POWERSHELL_CWD_CHANGERS) commands)
              ''Compound PowerShell commands that change cwd require approval.'')
            (analysis_loop '' | '' (\<lambda>s. join_with '' '' (map tk_text (sc_argv s))) (powershell_deny rec env cwd)
              powershell_command_is_read_only [] True commands)))"

definition analyze_cmd :: "nested \<Rightarrow> shell_env \<Rightarrow> string \<Rightarrow> string \<Rightarrow> shell_analysis" where
  "analyze_cmd rec env command cwd = (case remote_install_pipe_reason command Cmd of
      Some reason \<Rightarrow> denied (collapse_ws command) reason
    | None \<Rightarrow> (let segments = parse_cmd command in
        if segments = [] then denied (collapse_ws command) UNPARSED
        else finish_analysis '' & '' None
            (analysis_loop '' & '' segment_text (\<lambda>s. cmd_hard_deny rec env s cwd)
              (\<lambda>s. cmd_command_is_read_only rec env s cwd) [] True segments)))"

definition analyze :: "nested \<Rightarrow> shell_env \<Rightarrow> string \<Rightarrow> shell_name \<Rightarrow> string \<Rightarrow> shell_analysis" where
  "analyze rec env command shell cwd = (if CHR 0x00 \<in> set command
     then denied (collapse_ws command) ''Null bytes are denied.''
     else (case shell of
         Powershell \<Rightarrow> analyze_powershell rec env command cwd
       | Cmd \<Rightarrow> analyze_cmd rec env command cwd
       | Bash \<Rightarrow> analyze_bash rec env command cwd))"

section \<open>Decisions\<close>

definition accept_edits_base :: "shell_name \<Rightarrow> string \<Rightarrow> string" where
  "accept_edits_base shell word = (let base = py_lower word in
     if shell = Powershell
     then (let name = after_last (CHR ''/'') (after_last backslash base) in
       if ends_with ''.exe'' name then take (length name - 4) name else name)
     else base)"

definition accept_edits_segment_allowed :: "shell_name \<Rightarrow> simple_command \<Rightarrow> bool" where
  "accept_edits_segment_allowed shell s = (case sc_stripped s of [] \<Rightarrow> False | word # _ \<Rightarrow> (let
     base = accept_edits_base shell word; args = drop 1 (sc_literal s) in
     base \<in> set (if shell = Bash then ACCEPT_EDITS_BASH_ALLOWED else ACCEPT_EDITS_POWERSHELL_ALLOWED)
     \<and> \<not> list_ex is_root_path args \<and> sensitive_path_reason args = None
     \<and> \<not> (shell = Bash \<and> base \<in> {''rm'', ''rmdir''}
          \<and> (has_recursive_force args \<or> list_ex (\<lambda>a. a \<in> {''-r'', ''-R'', ''--recursive''}) args))
     \<and> \<not> (shell = Powershell \<and> base = ''remove-item'' \<and> list_ex (\<lambda>a. py_lower a \<in> {''-recurse'', ''-r''}) args)))"

definition accept_edits_allowed :: "string \<Rightarrow> shell_name \<Rightarrow> bool" where
  "accept_edits_allowed command shell = (command \<noteq> [] \<and> shell \<noteq> Cmd
     \<and> (let segments = (if shell = Bash then parse_bash command else concat (parse_powershell command)) in
          segments \<noteq> [] \<and> list_all (accept_edits_segment_allowed shell) segments))"

fun shell_label :: "shell_name \<Rightarrow> string" where
  "shell_label Bash = ''Bash''"
| "shell_label Powershell = ''PowerShell''"
| "shell_label Cmd = ''Cmd''"

definition required_shell_permission :: "shell_name \<Rightarrow> string \<Rightarrow> string" where
  "required_shell_permission shell command = shell_label shell @ ''('' @ command @ '':*)''"

definition READONLY_REASON :: string where
  "READONLY_REASON = ''Command is provably read-only.''"

definition ASK_REASON :: string where
  "ASK_REASON = ''Command is not provably read-only; explicit shell permission is required.''"

definition mode_behavior :: "shell_analysis \<Rightarrow> string \<Rightarrow> shell_name \<Rightarrow> string \<Rightarrow> behavior" where
  "mode_behavior a command shell mode =
     (if an_hard_deny a then Deny
      else if an_read_only a \<or> mode = ''bypassPermissions'' then Allow
      else if mode = ''acceptEdits'' \<and> accept_edits_allowed command shell then Allow
      else if mode \<in> {''dontAsk'', ''plan''} then Deny else Ask)"

definition default_reason :: "shell_analysis \<Rightarrow> behavior \<Rightarrow> string \<Rightarrow> string" where
  "default_reason a b mode = (case b of
      Allow \<Rightarrow> if an_read_only a then READONLY_REASON
        else if mode = ''acceptEdits'' then ''Allowed by acceptEdits mode (filesystem-modifying command).''
        else ''Allowed by permission mode.''
    | Ask \<Rightarrow> ASK_REASON
    | Deny \<Rightarrow> ''Command denied by shell safety policy.'')"

definition empty_decision :: "shell_name \<Rightarrow> string \<Rightarrow> shell_decision" where
  "empty_decision shell cwd_text = \<lparr>sd_behavior = Deny, sd_command = [], sd_shell = shell, sd_cwd = cwd_text,
     sd_read_only = False, sd_reason = Some ''Empty shell command.'', sd_permission = None\<rparr>"

text \<open>The body of \<open>validate_shell_command\<close>, with the nested call as a parameter.\<close>

definition validate_body :: "nested \<Rightarrow> shell_env \<Rightarrow> string \<Rightarrow> shell_name \<Rightarrow> string \<Rightarrow> string \<Rightarrow> shell_decision" where
  "validate_body rec env text shell cwd mode = (let
     cwd_text = (if cwd = [] then [] else se_expanduser env cwd); command = py_strip text in
     if command = [] then empty_decision shell cwd_text
     else (let a = analyze rec env command shell cwd_text; b = mode_behavior a command shell mode in
       \<lparr>sd_behavior = b, sd_command = an_command a, sd_shell = shell, sd_cwd = cwd_text, sd_read_only = an_read_only a,
        sd_reason = (case an_reason a of Some r \<Rightarrow> Some r | None \<Rightarrow> Some (default_reason a b mode)),
        sd_permission = (if b = Ask then Some (required_shell_permission shell (an_command a)) else None)\<rparr>))"

text \<open>The recursion, cut off at a depth: below it every command is denied like an empty one.\<close>

fun validate_depth :: "nat \<Rightarrow> shell_env \<Rightarrow> string \<Rightarrow> shell_name \<Rightarrow> string \<Rightarrow> string \<Rightarrow> shell_decision" where
  "validate_depth 0 env text shell cwd mode = empty_decision shell cwd"
| "validate_depth (Suc n) env text shell cwd mode =
     validate_body (\<lambda>t sh d. validate_depth n env t sh d ''default'') env text shell cwd mode"

text \<open>A depth that is never reached: nested text has fewer visible characters, where a percent sign, which a
  home folder may replace, counts as more than the home folder.\<close>

definition char_weight :: "shell_env \<Rightarrow> char \<Rightarrow> nat" where
  "char_weight env c = (if py_space c then 0 else if c = CHR ''%'' then Suc (length (se_home env)) else 1)"

definition text_weight :: "shell_env \<Rightarrow> string \<Rightarrow> nat" where
  "text_weight env s = sum_list (map (char_weight env) s)"

definition validate_in :: "shell_env \<Rightarrow> string \<Rightarrow> shell_name \<Rightarrow> string \<Rightarrow> string \<Rightarrow> shell_decision" where
  "validate_in env text shell cwd mode = validate_depth (Suc (text_weight env text)) env text shell cwd mode"

definition validate_shell_command :: "shell_env \<Rightarrow> string \<Rightarrow> string \<Rightarrow> string \<Rightarrow> string \<Rightarrow> string + shell_decision" where
  "validate_shell_command env command shell cwd mode = (case normalize_shell_name shell of
      Inl e \<Rightarrow> Inl e
    | Inr sh \<Rightarrow> Inr (validate_in env command sh cwd mode))"

text \<open>The analysis alone, with nested commands validated in full.\<close>

definition analyze_in :: "shell_env \<Rightarrow> string \<Rightarrow> shell_name \<Rightarrow> string \<Rightarrow> shell_analysis" where
  "analyze_in env command shell cwd = analyze (\<lambda>t sh d. validate_in env t sh d ''default'') env command shell cwd"

definition classify_read_only :: "shell_env \<Rightarrow> string \<Rightarrow> string \<Rightarrow> bool" where
  "classify_read_only env command shell = (case normalize_shell_name shell of
      Inl _ \<Rightarrow> False
    | Inr sh \<Rightarrow> (let a = analyze_in env (py_strip command) sh [] in an_read_only a \<and> \<not> an_hard_deny a))"

definition normalize_command :: "shell_env \<Rightarrow> string \<Rightarrow> string \<Rightarrow> string" where
  "normalize_command env command shell = (case normalize_shell_name shell of
      Inl _ \<Rightarrow> collapse_ws command
    | Inr sh \<Rightarrow> an_command (analyze_in env (py_strip command) sh []))"

definition split_command_segments :: "string \<Rightarrow> string \<Rightarrow> string list" where
  "split_command_segments command shell = (if normalize_shell_name shell = Inr Powershell
     then powershell_segment_texts command else bash_segment_texts command)"

end
