(* ===== verification/Shell_Depth.thy ===== *)
theory Shell_Depth
  imports Shell_Safety "HOL-Library.Sublist"
begin

text \<open>
  Nested shells end: the text that a command passes to another shell weighs less than the command, so the
  depth chosen in \<open>validate_in\<close> is never reached and the recursive equation of the code holds.  Every
  tokenizer is shown to make words that together weigh no more than the text.
\<close>

section \<open>Weights of texts\<close>

named_theorems weight_simps \<open>weights of texts and words\<close>

abbreviation words_weight :: "shell_env \<Rightarrow> string list \<Rightarrow> nat" where
  "words_weight env ws \<equiv> sum_list (map (text_weight env) ws)"

abbreviation tokens_weight :: "shell_env \<Rightarrow> token list \<Rightarrow> nat" where
  "tokens_weight env ts \<equiv> words_weight env (map tk_text ts)"

lemma text_weight_simps [simp, weight_simps]:
  "text_weight env [] = 0"
  "text_weight env (c # s) = char_weight env c + text_weight env s"
  "text_weight env (s @ t) = text_weight env s + text_weight env t"
  by (simp_all add: text_weight_def)

lemma char_weight_blank [simp, weight_simps]: "py_space c \<Longrightarrow> char_weight env c = 0"
  by (simp add: char_weight_def)

lemma text_weight_rev [simp, weight_simps]: "text_weight env (rev s) = text_weight env s"
  by (induction s) auto

lemma text_weight_dropWhile_blank [simp, weight_simps]: "text_weight env (dropWhile py_space s) = text_weight env s"
  by (induction s) auto

lemma text_weight_strip [simp, weight_simps]: "text_weight env (py_strip s) = text_weight env s"
  by (simp add: py_strip_def)

lemma text_weight_drop: "text_weight env (drop n s) \<le> text_weight env s"
  using text_weight_simps(3)[of env "take n s" "drop n s"] by (simp del: text_weight_simps)

lemma text_weight_take_drop [weight_simps]: "text_weight env (take n s) + text_weight env (drop n s) = text_weight env s"
  by (metis append_take_drop_id text_weight_simps(3))

lemma text_weight_tl: "text_weight env (tl s) \<le> text_weight env s"
  by (cases s) auto

lemma text_weight_butlast: "text_weight env (butlast s) \<le> text_weight env s"
  by (induction s) auto

lemma text_weight_join [simp, weight_simps]: "text_weight env (join_with '' '' ws) = words_weight env ws"
  by (induction "'' ''::string" ws rule: join_with.induct) (auto simp: char_weight_def py_space_def char_code_def)

lemma words_weight_sublist: "subseq xs ys \<Longrightarrow> words_weight env xs \<le> words_weight env ys"
  by (induction rule: list_emb.induct) auto

lemma words_weight_suffix: "suffix xs ys \<Longrightarrow> words_weight env xs \<le> words_weight env ys"
  by (auto elim!: suffixE)

lemma py_space_backtick [simp]: "\<not> py_space backtick"
  by (simp add: py_space_def char_code_def)

lemma texts_of_plain [simp]: "map tk_text (map plain_token ws) = ws" "tk_text \<circ> plain_token = (\<lambda>w. w)"
  by (simp_all add: plain_token_def comp_def)

section \<open>Splitting makes nothing heavier\<close>

lemma words_weight_add_part: "words_weight env (add_part buf parts) = text_weight env buf + words_weight env parts"
proof (cases "py_strip buf = []")
  case True
  then have "text_weight env buf = 0" by (metis text_weight_strip text_weight_simps(1))
  with True show ?thesis by (simp add: add_part_def)
qed (simp add: add_part_def Let_def)

lemma split_loop_weight: "words_weight env (split_loop ops esc quote buf s) \<le> text_weight env buf + text_weight env s"
proof (induction ops esc quote buf s rule: split_loop.induct)
  case (2 ops esc quote buf c cs)
  have d: "text_weight env (drop n cs) \<le> text_weight env cs" for n by (rule text_weight_drop)
  have t: "text_weight env (take 1 cs) + text_weight env (drop 1 cs) = text_weight env cs"
    by (rule text_weight_take_drop)
  show ?case
  proof (cases "if quote = None then operator_at ops (c # cs) else None")
    case (Some op)
    then show ?thesis using 2(4)[OF Some] d[of "length op - 1"] by (simp add: words_weight_add_part)
  next
    case None
    show ?thesis
    proof (cases "c = esc")
      case True
      have "split_loop ops esc quote buf (c # cs) = split_loop ops esc quote (buf @ c # take 1 cs) (drop 1 cs)"
        unfolding split_loop.simps(2) None by (simp add: True)
      then show ?thesis using 2(1)[OF None True] t by simp
    next
      case False
      then show ?thesis using 2(2,3)[OF None False] None by (cases "is_quote c") simp_all
    qed
  qed
qed (simp add: words_weight_add_part)

lemma split_shell_weight: "words_weight env (split_shell_like ops esc s) \<le> text_weight env s"
  using split_loop_weight[of env ops esc None "[]" s] by (simp add: split_shell_like_def)

lemma words_weight_concat: "words_weight env (concat xss) = sum_list (map (words_weight env) xss)"
  by (induction xss) auto

lemma split_twice_weight:
  "words_weight env (concat (map (split_shell_like ops esc) (split_shell_like ops' esc' s))) \<le> text_weight env s"
proof -
  have "sum_list (map (\<lambda>t. words_weight env (split_shell_like ops esc t)) ts) \<le> words_weight env ts" for ts
    by (intro sum_list_mono) (rule split_shell_weight)
  from le_trans[OF this split_shell_weight] show ?thesis by (simp add: words_weight_concat o_def)
qed

lemma bash_segments_weight: "words_weight env (bash_segment_texts s) \<le> text_weight env s"
  unfolding bash_segment_texts_def by (rule split_twice_weight)

text \<open>In quotes the backslash that was read is not in the word yet.\<close>

lemma shlex_posix_weight:
  "shlex_posix st token quoted s = Some ws \<Longrightarrow>
     words_weight env ws \<le> text_weight env token + text_weight env s
       + (if st = EscapedInQuote then char_weight env backslash else 0)"
proof (induction st token quoted s arbitrary: ws rule: shlex_posix.induct)
  case (5 token quoted c cs)
  show ?case
  proof (cases "shlex_space c \<and> (token \<noteq> [] \<or> quoted)")
    case True
    then obtain vs where "shlex_posix Between [] False cs = Some vs" "ws = token # vs"
      using "5.prems" by auto
    with "5.IH"(1) True show ?thesis by fastforce
  next
    case False
    with 5 show ?thesis by (fastforce split: if_splits)
  qed
qed (fastforce split: if_splits)+

lemma shlex_plain_weight:
  "shlex_plain st token s = Some ws \<Longrightarrow> words_weight env ws \<le> text_weight env token + text_weight env s"
  by (induction st token s arbitrary: ws rule: shlex_plain.induct) (fastforce split: if_splits)+

lemma shlex_split_weight: "shlex_split posix s = Some ws \<Longrightarrow> words_weight env ws \<le> text_weight env s"
  using shlex_posix_weight[of Between "[]" False s ws env] shlex_plain_weight[of Between "[]" s ws env]
  by (simp add: shlex_split_def split: if_splits)

lemma powershell_loop_weight:
  "tokens_weight env (powershell_loop quote active buf s) \<le> text_weight env buf + text_weight env s"
proof (induction quote active buf s rule: powershell_loop.induct)
  case (2 quote active buf c cs)
  have t: "text_weight env (take 1 cs) + text_weight env (drop 1 cs) = text_weight env cs"
    by (rule text_weight_take_drop)
  show ?case
  proof (cases "quote = None \<and> py_space c")
    case True
    then show ?thesis using 2(1,2) by (cases "buf = []") simp_all
  next
    case a: False
    show ?thesis
    proof (cases "c = backtick")
      case True
      then show ?thesis using 2(3)[OF a True] t by (simp only: powershell_loop.simps a True if_False if_True) simp
    next
      case b: False
      show ?thesis using 2(4-7)[OF a b] unfolding powershell_loop.simps(2) if_not_P[OF a] if_not_P[OF b]
        by (cases "c = squote \<and> quote = None"; cases "c = dquote \<and> quote = None";
            cases "c = squote \<and> quote = Some Single \<or> c = dquote \<and> quote = Some Double") auto
    qed
  qed
qed simp

lemma strip_redirections_weight: "tokens_weight env (fst (strip_redirections ts)) \<le> tokens_weight env ts"
proof -
  have "tokens_weight env (fst (strip_redirections_loop skip ts)) \<le> tokens_weight env ts" for skip
    by (induction skip ts rule: strip_redirections_loop.induct) (auto simp: split_beta Let_def intro: le_trans)
  then show ?thesis by (simp add: strip_redirections_def)
qed

section \<open>Wrappers are dropped from the front\<close>

lemma timeout_options_suffix: "timeout_options ws = Some r \<Longrightarrow> suffix r ws"
proof (induction ws rule: timeout_options.induct)
  case (2 arg ws)
  have "suffix r (tl ws) \<Longrightarrow> suffix r (arg # ws)" for r
    by (meson suffix_ConsI suffix_order.trans suffix_tl)
  with 2 show ?case by (auto split: if_splits intro: suffix_ConsI)
qed simp

lemma strip_timeout_suffix: "suffix (strip_timeout ws) ws"
proof (cases "timeout_options (drop 1 ws)")
  case (Some r)
  then have "suffix r ws" using timeout_options_suffix suffix_drop suffix_order.trans by blast
  with Some show ?thesis
    by (auto simp: strip_timeout_def split: list.splits intro: suffix_ConsD)
qed (simp add: strip_timeout_def)

lemma strip_nice_suffix: "suffix (strip_nice ws) ws"
  unfolding strip_nice_def by (simp add: suffix_drop)

lemma strip_wrappers_suffix: "suffix (strip_wrappers ws) ws"
proof (induction ws rule: strip_wrappers.induct)
  case (1 ws)
  let ?w = "dropWhile is_env_assignment ws"
  have w: "suffix ?w ws" by (rule suffix_dropWhile)
  show ?case
  proof (cases "?w = []")
    case False
    have t: "suffix r ?w \<Longrightarrow> suffix r ws" for r using w suffix_order.trans by blast
    have d: "suffix r (drop n ?w) \<Longrightarrow> suffix r ws" for r n using t suffix_drop suffix_order.trans by blast
    have n: "suffix r (strip_nice ?w) \<Longrightarrow> suffix r ws" for r using t strip_nice_suffix suffix_order.trans by blast
    have o: "suffix r (strip_timeout ?w) \<Longrightarrow> suffix r ws" for r using t strip_timeout_suffix suffix_order.trans by blast
    let ?exe = "executable_name (hd ?w)"
    note unfold = strip_wrappers.simps[of ws, unfolded Let_def, simplified False if_False]
    show ?thesis
    proof (cases "?exe \<in> {''time'', ''nohup''}")
      case True
      then show ?thesis using "1.IH"(1)[OF refl False refl True] d unfolding unfold by (auto split: if_splits)
    next
      case a: False
      show ?thesis
      proof (cases "?exe = ''nice''")
        case True
        then show ?thesis using "1.IH"(2)[OF refl False refl a True] n unfolding unfold by simp
      next
        case b: False
        show ?thesis
          using "1.IH"(3)[OF refl False refl a b] o a b w unfolding unfold by (simp split: if_splits)
      qed
    qed
  qed (simp add: strip_wrappers.simps)
qed

section \<open>Commands\<close>

abbreviation command_weight :: "shell_env \<Rightarrow> simple_command \<Rightarrow> nat" where
  "command_weight env s \<equiv> words_weight env (sc_stripped s)"

lemma kept_words_weight: "tokens_weight env (fst (strip_redirections (map plain_token ws))) \<le> words_weight env ws"
  using strip_redirections_weight[of env "map plain_token ws"] by simp

lemma bash_command_weight: "command_weight env (bash_command text parts) \<le> words_weight env parts"
proof -
  have "command_weight env (bash_command text parts)
      = words_weight env (strip_wrappers (map tk_text (fst (strip_redirections (map plain_token parts)))))"
    by (simp add: bash_command_def Let_def split_beta)
  also have "\<dots> \<le> words_weight env (map tk_text (fst (strip_redirections (map plain_token parts))))"
    by (rule words_weight_suffix[OF strip_wrappers_suffix])
  also have "\<dots> \<le> words_weight env parts" using kept_words_weight[of env parts] by simp
  finally show ?thesis .
qed

lemma cmd_command_weight: "command_weight env (cmd_command text parts) \<le> words_weight env parts"
  using kept_words_weight[of env parts] by (simp add: cmd_command_def Let_def split_beta)

lemma parse_segments_weight:
  assumes "\<And>text parts. command_weight env (mk text parts) \<le> words_weight env parts"
  shows "parse_segments posix mk texts = Some ss \<Longrightarrow> sum_list (map (\<lambda>s. command_weight env s) ss) \<le> words_weight env texts"
proof (induction texts arbitrary: ss)
  case (Cons t ts)
  then obtain parts rest where p: "shlex_split posix t = Some parts" "parse_segments posix mk ts = Some rest"
    "ss = mk t parts # rest" by (auto split: option.splits)
  have "command_weight env (mk t parts) \<le> text_weight env t"
    using assms shlex_split_weight[OF p(1)] le_trans by blast
  with Cons.IH[OF p(2)] p(3) show ?case by simp
qed simp

lemma parse_bash_weight: "s \<in> set (parse_bash command) \<Longrightarrow> command_weight env s \<le> text_weight env command"
  using parse_segments_weight[of env bash_command True "bash_segment_texts command", OF bash_command_weight]
    bash_segments_weight[of env command]
    member_le_sum_list[of "command_weight env s" "map (\<lambda>s. command_weight env s) (parse_bash command)"]
  by (auto simp: parse_bash_def or_empty_def split: option.splits intro: le_trans)

lemma parse_cmd_weight: "s \<in> set (parse_cmd command) \<Longrightarrow> command_weight env s \<le> text_weight env command"
  using parse_segments_weight[of env cmd_command False "bash_segment_texts command", OF cmd_command_weight]
    bash_segments_weight[of env command]
    member_le_sum_list[of "command_weight env s" "map (\<lambda>s. command_weight env s) (parse_cmd command)"]
  by (auto simp: parse_cmd_def or_empty_def split: option.splits intro: le_trans)

lemma text_weight_part: "t \<in> set (split_shell_like ops esc s) \<Longrightarrow> text_weight env t \<le> text_weight env s"
  using member_le_sum_list[of "text_weight env t" "map (text_weight env) (split_shell_like ops esc s)"]
    split_shell_weight[of env ops esc s] by auto

lemma powershell_command_weight: "powershell_command part = Some s \<Longrightarrow> command_weight env s \<le> text_weight env part"
  using strip_redirections_weight[of env "tokenize_powershell part"] powershell_loop_weight[of env None None "[]" part]
  by (auto simp: powershell_command_def tokenize_powershell_def Let_def split_beta split: if_splits)

lemma parse_powershell_weight:
  assumes "s \<in> set (concat (parse_powershell command))"
  shows "command_weight env s \<le> text_weight env command"
proof -
  from assms obtain statement part where p: "statement \<in> set (split_shell_like ['';'', ''&&'', ''||''] backtick command)"
    "part \<in> set (split_shell_like [''|''] backtick statement)" "powershell_command part = Some s"
    by (auto simp: parse_powershell_def map_filter_def)
  from powershell_command_weight[OF p(3)] text_weight_part[OF p(2)] text_weight_part[OF p(1)] show ?thesis
    by (meson le_trans)
qed

section \<open>Nested texts are lighter\<close>

lemma char_weight_pos: "0 < char_weight env c \<longleftrightarrow> \<not> py_space c"
  by (simp add: char_weight_def)

lemma text_weight_0_iff: "text_weight env s = 0 \<longleftrightarrow> list_all py_space s"
proof (induction s)
  case (Cons c s)
  then show ?case using char_weight_pos[of env c] by auto
qed simp

lemma lower_blank: "py_space c \<Longrightarrow> lower_char c = c"
  by (auto simp: lower_char_def py_space_def Let_def)

lemma lower_blanks: "list_all py_space s \<Longrightarrow> py_lower s = s"
  by (induction s) (auto simp: py_lower_def lower_blank)

text \<open>The words that switches are compared with are not blank.\<close>

definition solid :: "string list \<Rightarrow> bool" where
  "solid ws = list_all (\<lambda>w. \<not> list_all py_space w) ws"

lemma solid_switches [simp]:
  "solid [''-c'', ''-command'']" "solid [''-command'', ''-c'']" "solid [''/c'', ''/r'']"
  by (simp_all add: solid_def py_space_def char_code_def)

lemma join_after_switch_weight:
  "join_after_switch sws args = Some t \<Longrightarrow> solid sws \<Longrightarrow> text_weight env t < words_weight env args"
proof (induction sws args rule: join_after_switch.induct)
  case (2 sws a args)
  show ?case
  proof (cases "py_lower a \<in> set sws \<and> args \<noteq> []")
    case True
    then have "\<not> list_all py_space a"
      using "2.prems"(2) lower_blanks[of a] by (fastforce simp: solid_def list_all_iff)
    then have "0 < text_weight env a" using text_weight_0_iff[of env a] by simp
    with True "2.prems"(1) show ?thesis by auto
  next
    case False
    then have "join_after_switch sws args = Some t" using "2.prems"(1) by (simp only: join_after_switch.simps if_False)
    from "2.IH"[OF False this "2.prems"(2)] show ?thesis by simp
  qed
qed simp

lemma text_weight_unquoted: "text_weight env (unquoted t) \<le> text_weight env t"
  using text_weight_butlast[of env "tl (py_strip t)"] text_weight_tl[of env "py_strip t"]
  by (auto simp: unquoted_def Let_def)

lemma lower_percent: "lower_char c = CHR ''%'' \<Longrightarrow> c = CHR ''%''"
proof -
  assume a: "lower_char c = CHR ''%''"
  show ?thesis
  proof (cases "lower_char c = c")
    case False
    then obtain n where n: "n = char_code c" "(65 \<le> n \<and> n \<le> 90) \<or> (192 \<le> n \<and> n \<le> 222)" "lower_char c = char_of (n + 32)"
      by (auto simp: lower_char_def Let_def split: if_splits)
    have "of_char (lower_char c) = n + 32" unfolding n(3) using n(2) by (auto simp: of_char_of)
    with a n(2) show ?thesis by auto
  qed (use a in simp)
qed

lemma home_weight: "CHR ''%'' \<notin> set s \<Longrightarrow> text_weight env s \<le> length s"
  by (induction s) (auto simp: char_weight_def)

lemma write_out_home_weight:
  assumes "CHR ''%'' \<notin> set (se_home env)"
  shows "text_weight env (write_out_home (se_home env) s) \<le> text_weight env s"
proof (induction "se_home env" s rule: write_out_home.induct)
  case (2 c cs)
  show ?case
  proof (cases "starts_with ''%userprofile%'' (py_lower (c # cs))")
    case True
    then have "lower_char c = CHR ''%''" by (simp add: py_lower_def)
    then have "char_weight env c = Suc (length (se_home env))"
      using lower_percent[of c] by (simp add: char_weight_def py_space_def char_code_def)
    with True 2(1) home_weight[OF assms, of env] text_weight_drop[of env 12 cs] show ?thesis by simp
  qed (use 2 in simp)
qed simp

lemma cmd_literal_args_weight:
  "CHR ''%'' \<notin> set (se_home env) \<Longrightarrow> words_weight env (cmd_literal_args env args) \<le> words_weight env args"
  by (induction args) (auto simp: cmd_literal_args_def intro: add_mono write_out_home_weight)

section \<open>Two nested validators that agree below a weight\<close>

definition agree_below :: "shell_env \<Rightarrow> nat \<Rightarrow> nested \<Rightarrow> nested \<Rightarrow> bool" where
  "agree_below env n f g = (\<forall>t sh d. text_weight env t < n \<longrightarrow> f t sh d = g t sh d)"

named_theorems nested_cong \<open>a check depends on nested calls for lighter texts only\<close>

lemma nested_refusal_cong:
  assumes "agree_below env n f g" "words_weight env args \<le> n" "solid sws"
  shows "nested_refusal f (join_after_switch sws args) sh d r = nested_refusal g (join_after_switch sws args) sh d r"
proof (cases "join_after_switch sws args")
  case (Some t)
  then have "text_weight env t < n" using join_after_switch_weight[OF Some assms(3), of env] assms(2) by simp
  with Some assms(1) show ?thesis by (auto simp: nested_refusal_def agree_below_def split: list.splits)
qed (simp add: nested_refusal_def)

lemma nested_powershell_guard_cong:
  assumes "agree_below env n f g" "words_weight env args \<le> n"
  shows "nested_powershell_guard f args d = nested_powershell_guard g args d"
proof (cases "join_after_switch [''-command'', ''-c''] args")
  case (Some t)
  then have "text_weight env t < n" using join_after_switch_weight[OF Some, of env] assms(2) by simp
  with Some assms(1) show ?thesis by (simp add: nested_powershell_guard_def agree_below_def)
qed (simp add: nested_powershell_guard_def)

lemma nested_cross_shell_guard_cong:
  "agree_below env n f g \<Longrightarrow> words_weight env args \<le> n \<Longrightarrow>
     nested_cross_shell_guard f exe args d = nested_cross_shell_guard g exe args d"
  using nested_refusal_cong[of env n f g args] nested_powershell_guard_cong[of env n f g args]
  by (simp add: nested_cross_shell_guard_def)

lemma nested_shell_is_read_only_cong:
  assumes "agree_below env n f g" "words_weight env args \<le> n"
  shows "nested_shell_is_read_only f exe args d = nested_shell_is_read_only g exe args d"
proof (cases "if exe = ''cmd'' then join_after_switch [''/c'', ''/r''] args else join_after_switch [''-command'', ''-c''] args")
  case (Some t)
  then have "text_weight env t < n"
    using join_after_switch_weight[of "[''/c'', ''/r'']" args t env]
      join_after_switch_weight[of "[''-command'', ''-c'']" args t env] assms(2) by (auto split: if_splits)
  then have "text_weight env (unquoted t) < n" using text_weight_unquoted[of env t] by simp
  with assms(1) have "f (unquoted t) sh d = g (unquoted t) sh d" for sh by (simp add: agree_below_def)
  with Some show ?thesis unfolding nested_shell_is_read_only_def Some by (auto split: list.splits)
next
  case None
  then show ?thesis unfolding nested_shell_is_read_only_def None by simp
qed

lemma bash_hard_deny_cong:
  assumes "agree_below env n f g" "command_weight env s \<le> n"
  shows "bash_hard_deny f env s d = bash_hard_deny g env s d"
proof (cases "sc_stripped s")
  case (Cons w args)
  then have "words_weight env args \<le> n" using assms(2) by simp
  note e = nested_powershell_guard_cong[OF assms(1) this] nested_cross_shell_guard_cong[OF assms(1) this]
  show ?thesis unfolding bash_hard_deny_def Let_def Cons list.case e ..
qed (simp add: bash_hard_deny_def)

lemma powershell_hard_deny_cong:
  assumes "agree_below env n f g" "command_weight env s \<le> n"
  shows "powershell_hard_deny f env s d = powershell_hard_deny g env s d"
proof (cases "sc_stripped s")
  case (Cons w args)
  then have "words_weight env args \<le> n" using assms(2) by simp
  note e = nested_cross_shell_guard_cong[OF assms(1) this]
  show ?thesis unfolding powershell_hard_deny_def Let_def Cons list.case e ..
qed (simp add: powershell_hard_deny_def)

lemma cmd_hard_deny_cong:
  assumes "agree_below env n f g" "command_weight env s \<le> n" "CHR ''%'' \<notin> set (se_home env)"
  shows "cmd_hard_deny f env s d = cmd_hard_deny g env s d"
proof (cases "sc_stripped s")
  case (Cons w args)
  then have "words_weight env (cmd_literal_args env args) \<le> n"
    using assms(2) cmd_literal_args_weight[OF assms(3), of args] by simp
  note e = nested_cross_shell_guard_cong[OF assms(1) this] nested_refusal_cong[OF assms(1) this solid_switches(3)]
  show ?thesis unfolding cmd_hard_deny_def Let_def Cons list.case e ..
qed (simp add: cmd_hard_deny_def)

lemma cmd_command_is_read_only_cong:
  assumes "agree_below env n f g" "command_weight env s \<le> n" "CHR ''%'' \<notin> set (se_home env)"
  shows "cmd_command_is_read_only f env s d = cmd_command_is_read_only g env s d"
proof (cases "sc_stripped s")
  case (Cons w args)
  then have "words_weight env (cmd_literal_args env args) \<le> n"
    using assms(2) cmd_literal_args_weight[OF assms(3), of args] by simp
  from nested_shell_is_read_only_cong[OF assms(1) this] Cons
  show ?thesis by (simp add: cmd_command_is_read_only_def Let_def)
qed (simp add: cmd_command_is_read_only_def)

lemma analysis_loop_cong:
  "(\<And>s. s \<in> set ss \<Longrightarrow> deny s = deny' s \<and> reads s = reads' s) \<Longrightarrow>
     analysis_loop sep render deny reads parts ro ss = analysis_loop sep render deny' reads' parts ro ss"
  by (induction sep render deny reads parts ro ss rule: analysis_loop.induct) (auto simp: Let_def split: option.split)

lemma analyze_cong:
  assumes a: "agree_below env (text_weight env command) f g" and h: "CHR ''%'' \<notin> set (se_home env)"
  shows "analyze f env command shell d = analyze g env command shell d"
proof -
  have "analysis_loop sep render (\<lambda>s. bash_hard_deny f env s d) reads parts ro (parse_bash command)
      = analysis_loop sep render (\<lambda>s. bash_hard_deny g env s d) reads parts ro (parse_bash command)" for sep render reads parts ro
    by (rule analysis_loop_cong) (use bash_hard_deny_cong[OF a] parse_bash_weight in blast)
  then have 1: "analyze_bash f env command d = analyze_bash g env command d"
    unfolding analyze_bash_def Let_def by (simp only:)
  have "analysis_loop sep render (powershell_deny f env d) reads parts ro (concat (parse_powershell command))
      = analysis_loop sep render (powershell_deny g env d) reads parts ro (concat (parse_powershell command))" for sep render reads parts ro
    by (rule analysis_loop_cong)
      (use powershell_hard_deny_cong[OF a] parse_powershell_weight in \<open>auto simp: powershell_deny_def\<close>)
  then have 2: "analyze_powershell f env command d = analyze_powershell g env command d"
    unfolding analyze_powershell_def Let_def by (simp only:)
  have "analysis_loop sep render (\<lambda>s. cmd_hard_deny f env s d) (\<lambda>s. cmd_command_is_read_only f env s d) parts ro (parse_cmd command)
      = analysis_loop sep render (\<lambda>s. cmd_hard_deny g env s d) (\<lambda>s. cmd_command_is_read_only g env s d) parts ro (parse_cmd command)"
    for sep render parts ro
    by (rule analysis_loop_cong)
      (use cmd_hard_deny_cong[OF a _ h] cmd_command_is_read_only_cong[OF a _ h] parse_cmd_weight in blast)
  then have 3: "analyze_cmd f env command d = analyze_cmd g env command d"
    unfolding analyze_cmd_def Let_def by (simp only:)
  show ?thesis unfolding analyze_def 1 2 3 ..
qed

lemma validate_body_cong:
  assumes "agree_below env (text_weight env t) f g" "CHR ''%'' \<notin> set (se_home env)"
  shows "validate_body f env t shell cwd mode = validate_body g env t shell cwd mode"
  using analyze_cong[of env "py_strip t" f g] assms by (simp add: validate_body_def Let_def)

section \<open>The depth does not matter\<close>

lemma validate_depth_enough:
  assumes "CHR ''%'' \<notin> set (se_home env)"
  shows "text_weight env t < n \<Longrightarrow> text_weight env t < m \<Longrightarrow>
     validate_depth n env t shell cwd mode = validate_depth m env t shell cwd mode"
proof (induction n arbitrary: m t shell cwd mode)
  case (Suc n)
  then obtain k where m: "m = Suc k" by (cases m) auto
  have "agree_below env (text_weight env t) (\<lambda>t sh d. validate_depth n env t sh d ''default'')
      (\<lambda>t sh d. validate_depth k env t sh d ''default'')"
    unfolding agree_below_def using Suc m by (meson less_SucE less_trans_Suc linorder_not_le not_less_eq order_less_le_trans)
  from validate_body_cong[OF this assms] show ?case by (simp add: m)
qed simp

end
