(* ===== verification/Shell_Properties.thy ===== *)
theory Shell_Properties
  imports Shell_Depth
begin

text \<open>
  What the shell check promises: it ends on nested shells, it allows a command by default exactly when each
  of its parts only reads, modes change a pending decision only, and a compound command is no more than
  its parts.
\<close>

section \<open>Nested shells\<close>

abbreviation nested_validation :: "shell_env \<Rightarrow> nested" where
  "nested_validation env \<equiv> (\<lambda>t sh d. validate_in env t sh d ''default'')"

lemma validate_in_unfold:
  assumes "CHR ''%'' \<notin> set (se_home env)"
  shows "validate_in env t shell cwd mode = validate_body (nested_validation env) env t shell cwd mode"
proof -
  have "agree_below env (text_weight env t)
      (\<lambda>u sh d. validate_depth (text_weight env t) env u sh d ''default'') (nested_validation env)"
    unfolding agree_below_def validate_in_def by (blast intro: validate_depth_enough[OF assms] lessI)
  from validate_body_cong[OF this assms] show ?thesis by (simp add: validate_in_def)
qed

text \<open>C17: Validation ends, however deeply shells start shells: the depth it is cut off at in the model is
  never reached, so the decision satisfies the recursive equation of the code, in which a nested command is
  validated by the whole procedure in default mode.  The home folder that cmd.exe arguments are completed
  with must not hold a percent sign itself.\<close>

theorem nested_validation_ends:
  assumes "CHR ''%'' \<notin> set (se_home env)" and "text_weight env t < n"
  shows "validate_depth n env t shell cwd mode
    = validate_body (\<lambda>u sh d. validate_in env u sh d ''default'') env t shell cwd mode"
proof -
  have "validate_depth n env t shell cwd mode = validate_in env t shell cwd mode"
    unfolding validate_in_def by (rule validate_depth_enough[OF assms]) simp
  also have "\<dots> = validate_body (nested_validation env) env t shell cwd mode"
    by (rule validate_in_unfold[OF assms(1)])
  finally show ?thesis .
qed

section \<open>What is allowed by default\<close>

definition shell_commands :: "shell_name \<Rightarrow> string \<Rightarrow> simple_command list" where
  "shell_commands shell command = (case shell of
      Bash \<Rightarrow> parse_bash command | Powershell \<Rightarrow> concat (parse_powershell command) | Cmd \<Rightarrow> parse_cmd command)"

text \<open>The text as a whole: no null byte, no expansion (bash), no fetch piped into a shell.\<close>

definition text_refused :: "shell_name \<Rightarrow> string \<Rightarrow> bool" where
  "text_refused shell command = (CHR 0x00 \<in> set command \<or> remote_install_pipe_reason command shell \<noteq> None
     \<or> (shell = Bash \<and> bash_forbidden_expansion_reason command \<noteq> None))"

definition command_denied :: "shell_env \<Rightarrow> string \<Rightarrow> shell_name \<Rightarrow> simple_command \<Rightarrow> bool" where
  "command_denied env cwd shell s = ((case shell of
      Bash \<Rightarrow> bash_hard_deny (nested_validation env) env s cwd
    | Powershell \<Rightarrow> powershell_deny (nested_validation env) env cwd s
    | Cmd \<Rightarrow> cmd_hard_deny (nested_validation env) env s cwd) \<noteq> None)"

definition command_reads :: "shell_env \<Rightarrow> string \<Rightarrow> shell_name \<Rightarrow> simple_command \<Rightarrow> bool" where
  "command_reads env cwd shell s = (\<not> sc_redirection s \<and> (case shell of
      Bash \<Rightarrow> bash_command_is_read_only s
    | Powershell \<Rightarrow> powershell_command_is_read_only s
    | Cmd \<Rightarrow> cmd_command_is_read_only (nested_validation env) env s cwd))"

lemma analysis_loop_result:
  "analysis_loop sep render deny reads parts ro ss =
     (case List.find (\<lambda>s. deny s \<noteq> None) ss of
        Some s \<Rightarrow> Inl (denied (join_with sep (parts @ map render (takeWhile (\<lambda>s. deny s = None) ss) @ [render s])) (the (deny s)))
      | None \<Rightarrow> Inr (parts @ map render ss, ro \<and> list_all (\<lambda>s. \<not> sc_redirection s \<and> reads s) ss))"
  by (induction sep render deny reads parts ro ss rule: analysis_loop.induct) (auto simp: Let_def split: option.splits)

lemma finish_loop:
  assumes "a = finish_analysis sep approval (analysis_loop sep' render deny reads parts True ss)"
  shows "an_hard_deny a = list_ex (\<lambda>s. deny s \<noteq> None) ss"
    and "an_read_only a = (list_all (\<lambda>s. deny s = None \<and> \<not> sc_redirection s \<and> reads s) ss \<and> approval = None)"
proof -
  have "List.find (\<lambda>s. deny s \<noteq> None) ss = None \<longleftrightarrow> list_all (\<lambda>s. deny s = None) ss"
    by (auto simp: find_None_iff list_all_iff)
  moreover have "list_ex (\<lambda>s. deny s \<noteq> None) ss \<longleftrightarrow> \<not> list_all (\<lambda>s. deny s = None) ss"
    by (auto simp: list_all_iff list_ex_iff)
  ultimately show "an_hard_deny a = list_ex (\<lambda>s. deny s \<noteq> None) ss"
    "an_read_only a = (list_all (\<lambda>s. deny s = None \<and> \<not> sc_redirection s \<and> reads s) ss \<and> approval = None)"
    unfolding assms analysis_loop_result
    by (auto simp: finish_analysis_def denied_def list_all_iff split: option.splits)
qed

text \<open>The compound commands that need approval are no read-only commands anyway.\<close>

lemma changing_directory_reads_nothing:
  "sc_executable s = ''cd'' \<Longrightarrow> \<not> bash_command_is_read_only s"
  "powershell_canonical_name (sc_executable s) \<in> set POWERSHELL_CWD_CHANGERS \<Longrightarrow> \<not> powershell_command_is_read_only s"
  by (simp_all add: bash_command_is_read_only_def powershell_command_is_read_only_def Let_def split: list.splits)

lemma reason_if_None [simp]: "reason_if b r = None \<longleftrightarrow> \<not> b"
  by (simp add: reason_if_def)

lemma first_of_simps [simp]: "first_of [] = None" "first_of (Some r # rs) = Some r" "first_of (None # rs) = first_of rs"
  by (simp_all add: first_of_def)

lemma first_of_None: "first_of rs = None \<longleftrightarrow> list_all (\<lambda>r. r = None) rs"
proof (induction rs)
  case (Cons r rs)
  then show ?case by (cases r) simp_all
qed simp

lemma first_reason_None: "first_reason f xs = None \<longleftrightarrow> list_all (\<lambda>x. f x = None) xs"
  by (induction xs) (auto split: option.splits)

lemma analyze_parts:
  fixes env cwd shell command
  defines "a \<equiv> analyze (nested_validation env) env command shell cwd"
  shows "an_hard_deny a = (text_refused shell command \<or> shell_commands shell command = []
      \<or> list_ex (command_denied env cwd shell) (shell_commands shell command))"
    and "an_read_only a = (\<not> an_hard_deny a \<and> list_all (command_reads env cwd shell) (shell_commands shell command))"
proof -
  have "an_hard_deny a = (text_refused shell command \<or> shell_commands shell command = []
      \<or> list_ex (command_denied env cwd shell) (shell_commands shell command))
    \<and> an_read_only a = (\<not> an_hard_deny a \<and> list_all (command_reads env cwd shell) (shell_commands shell command))"
  proof (cases "CHR 0x00 \<in> set command \<or> text_refused shell command \<or> shell_commands shell command = []")
    case True
    then show ?thesis
      by (cases shell) (auto simp: a_def analyze_def analyze_bash_def analyze_powershell_def analyze_cmd_def denied_def
        text_refused_def shell_commands_def first_of_None Let_def split: option.splits)
  next
    case False
    let ?ss = "shell_commands shell command"
    let ?deny = "\<lambda>s. (case shell of Bash \<Rightarrow> bash_hard_deny (nested_validation env) env s cwd
      | Powershell \<Rightarrow> powershell_deny (nested_validation env) env cwd s
      | Cmd \<Rightarrow> cmd_hard_deny (nested_validation env) env s cwd)"
    let ?reads = "\<lambda>s. (case shell of Bash \<Rightarrow> bash_command_is_read_only s
      | Powershell \<Rightarrow> powershell_command_is_read_only s
      | Cmd \<Rightarrow> cmd_command_is_read_only (nested_validation env) env s cwd)"
    obtain sep sep' approval render where
      a: "a = finish_analysis sep approval (analysis_loop sep' render ?deny ?reads [] True ?ss)"
      and ap: "approval \<noteq> None \<Longrightarrow> list_ex (\<lambda>s. \<not> ?reads s) ?ss"
    proof (cases shell)
      case Bash
      show thesis
        by (rule that[of "'' | ''" "reason_if (1 < length ?ss \<and> list_ex (\<lambda>s. sc_executable s = ''cd'') ?ss
              \<and> list_ex (\<lambda>s. sc_executable s = ''git'') ?ss) ''Compound commands with cd and git require approval.''"
              "'' | ''" segment_text])
          (use False changing_directory_reads_nothing(1) in \<open>auto simp: Bash a_def analyze_def analyze_bash_def text_refused_def
            shell_commands_def Let_def list_ex_iff\<close>)
    next
      case Powershell
      show thesis
        by (rule that[of "'' | ''" "reason_if (1 < length ?ss \<and>
              list_ex (\<lambda>s. powershell_canonical_name (sc_executable s) \<in> set POWERSHELL_CWD_CHANGERS) ?ss)
              ''Compound PowerShell commands that change cwd require approval.''"
              "'' | ''" "\<lambda>s. join_with '' '' (map tk_text (sc_argv s))"])
          (use False changing_directory_reads_nothing(2) in \<open>auto simp: Powershell a_def analyze_def analyze_powershell_def
            text_refused_def shell_commands_def Let_def list_ex_iff\<close>)
    next
      case Cmd
      show thesis
        by (rule that[of "'' & ''" None "'' & ''" segment_text])
          (use False in \<open>auto simp: Cmd a_def analyze_def analyze_cmd_def text_refused_def shell_commands_def Let_def\<close>)
    qed
    have "an_hard_deny a = list_ex (command_denied env cwd shell) ?ss"
      unfolding finish_loop(1)[OF a] command_denied_def by (simp add: list_ex_iff)
    moreover have "an_read_only a = (list_all (\<lambda>s. \<not> command_denied env cwd shell s) ?ss
        \<and> list_all (command_reads env cwd shell) ?ss)"
      unfolding finish_loop(2)[OF a] command_denied_def command_reads_def
      using ap by (cases approval) (auto simp: list_all_iff list_ex_iff)
    ultimately show ?thesis using False by (auto simp: list_all_iff list_ex_iff)
  qed
  then show "an_hard_deny a = (text_refused shell command \<or> shell_commands shell command = []
      \<or> list_ex (command_denied env cwd shell) (shell_commands shell command))"
    "an_read_only a = (\<not> an_hard_deny a \<and> list_all (command_reads env cwd shell) (shell_commands shell command))"
    by blast+
qed

definition cwd_text :: "shell_env \<Rightarrow> string \<Rightarrow> string" where
  "cwd_text env cwd = (if cwd = [] then [] else se_expanduser env cwd)"

lemma body_allows_iff:
  "sd_behavior (validate_body rec env t shell cwd ''default'') = Allow \<longleftrightarrow> py_strip t \<noteq> []
     \<and> \<not> an_hard_deny (analyze rec env (py_strip t) shell (cwd_text env cwd))
     \<and> an_read_only (analyze rec env (py_strip t) shell (cwd_text env cwd))"
  by (auto simp: validate_body_def empty_decision_def mode_behavior_def cwd_text_def Let_def)

lemma allow_iff:
  assumes "CHR ''%'' \<notin> set (se_home env)"
  shows "sd_behavior (validate_in env t shell cwd ''default'') = Allow \<longleftrightarrow>
     (let command = py_strip t; commands = shell_commands shell command in
        command \<noteq> [] \<and> \<not> text_refused shell command \<and> commands \<noteq> []
        \<and> list_all (\<lambda>s. \<not> command_denied env (cwd_text env cwd) shell s
             \<and> command_reads env (cwd_text env cwd) shell s) commands)"
  unfolding validate_in_unfold[OF assms, of t shell cwd "''default''"] body_allows_iff analyze_parts Let_def
  by (auto simp: list_all_iff list_ex_iff)

text \<open>C15: By default a command is allowed exactly when its text holds no null byte, no expansion and no fetch
  piped into a shell, it parses into at least one simple command, and every simple command on its own is not
  denied and only reads.  So a command never hides behind another one.\<close>

theorem allowed_by_default_iff:
  assumes "CHR ''%'' \<notin> set (se_home env)"
  shows "sd_behavior (validate_in env t shell cwd ''default'') = Allow \<longleftrightarrow>
     (let command = py_strip t; commands = shell_commands shell command in
        command \<noteq> [] \<and> \<not> text_refused shell command \<and> commands \<noteq> []
        \<and> list_all (\<lambda>s. \<not> command_denied env (cwd_text env cwd) shell s
             \<and> command_reads env (cwd_text env cwd) shell s) commands)"
  by (rule allow_iff[OF assms])

section \<open>Modes\<close>

text \<open>The permission mode settles what the default mode would ask about and nothing else: what is denied
  or allowed by default is denied or allowed in every mode, a pending command is allowed when permissions
  are bypassed or every part of it is an accepted edit, and refused where no one is asked.\<close>

lemma modes_settle_pending:
  "sd_behavior (validate_in env t shell cwd mode) = (case sd_behavior (validate_in env t shell cwd ''default'') of
      Allow \<Rightarrow> Allow
    | Deny \<Rightarrow> Deny
    | Ask \<Rightarrow> if mode = ''bypassPermissions'' then Allow
        else if mode = ''acceptEdits'' \<and> accept_edits_allowed (py_strip t) shell then Allow
        else if mode = ''dontAsk'' \<or> mode = ''plan'' then Deny else Ask)
    \<and> sd_read_only (validate_in env t shell cwd mode) = sd_read_only (validate_in env t shell cwd ''default'')
    \<and> sd_command (validate_in env t shell cwd mode) = sd_command (validate_in env t shell cwd ''default'')"
  by (simp add: validate_in_def validate_body_def empty_decision_def mode_behavior_def Let_def)

end
