(* ===== verification/Shell_Compound.thy ===== *)
theory Shell_Compound
  imports Shell_Properties
begin

text \<open>
  Properties of the shell check that go through the parser: a compound command against its parts, and the
  deletion of a filesystem root behind any wrappers.
\<close>

section \<open>Closed texts\<close>

text \<open>The quote that is open after a text; \<open>None\<close> when the text ends in an escape.\<close>

fun open_quote :: "char \<Rightarrow> char option \<Rightarrow> string \<Rightarrow> char option option" where
  "open_quote esc quote [] = Some quote"
| "open_quote esc quote (c # cs) =
     (if c = esc then (if cs = [] then None else open_quote esc quote (tl cs))
      else if is_quote c then open_quote esc (if quote = None then Some c else if quote = Some c then None else quote) cs
      else open_quote esc quote cs)"

definition closed_text :: "string \<Rightarrow> bool" where
  "closed_text s = (open_quote backslash None s = Some None)"

lemma starts_with_append_blank: "CHR '' '' \<notin> set p \<Longrightarrow> starts_with p (x @ CHR '' '' # r) = starts_with p x"
  by (induction p x rule: starts_with.induct) auto

lemma operator_at_append:
  "list_all (\<lambda>op. CHR '' '' \<notin> set op) ops \<Longrightarrow> operator_at ops (x @ CHR '' '' # r) = operator_at ops x"
  unfolding operator_at_def find_Some_iff
  by (intro arg_cong[where f = "\<lambda>f. List.find f _"] find_cong) (auto simp: list_all_iff starts_with_append_blank)

lemma operator_at_length: "operator_at ops s = Some op \<Longrightarrow> length op \<le> length s"
  by (auto simp: operator_at_def find_Some_iff starts_with_iff)

lemma py_strip_blank_append: "list_all py_space b \<Longrightarrow> py_strip (b @ s) = py_strip s"
  by (simp add: py_strip_def dropWhile_append1 list_all_iff)

lemma py_strip_append_blank: "list_all py_space b \<Longrightarrow> py_strip (s @ b) = py_strip s"
proof -
  assume b: "list_all py_space b"
  show ?thesis
  proof (cases "list_all py_space s")
    case True
    with b have 1: "dropWhile py_space (s @ b) = []" "dropWhile py_space s = []"
      unfolding dropWhile_eq_Nil_conv by (auto simp: list_all_iff)
    show ?thesis unfolding py_strip_def 1 ..
  next
    case False
    then have "dropWhile py_space (s @ b) = dropWhile py_space s @ b" by (auto simp: dropWhile_append list_all_iff)
    with b show ?thesis by (simp add: py_strip_def dropWhile_append list_all_iff)
  qed
qed

lemma add_part_blank: "list_all py_space b \<Longrightarrow> add_part (b @ buf) ps = add_part buf ps"
  by (simp add: add_part_def py_strip_blank_append)

lemma split_loop_blank: "list_all py_space b \<Longrightarrow> split_loop ops esc quote (b @ buf) s = split_loop ops esc quote buf s"
proof (induction ops esc quote buf s rule: split_loop.induct)
  case (2 ops esc quote buf c cs)
  note blank = add_part_blank[OF 2(5)]
  show ?case
  proof (cases "if quote = None then operator_at ops (c # cs) else None")
    case (Some op)
    show ?thesis unfolding split_loop.simps(2) Some option.case blank ..
  next
    case None
    show ?thesis
    proof (cases "c = esc")
      case True
      then show ?thesis using 2(1)[OF None True 2(5)] unfolding split_loop.simps(2) None option.case by simp
    next
      case False
      then show ?thesis
        using 2(2)[OF None False _ 2(5)] 2(3)[OF None False _ 2(5)] unfolding split_loop.simps(2) None option.case
        by (cases "is_quote c") simp_all
    qed
  qed
qed (simp add: add_part_blank)

text \<open>Operators hold no quote, no escape and no blank.\<close>

definition proper_operator :: "char \<Rightarrow> string \<Rightarrow> bool" where
  "proper_operator esc op = (op \<noteq> [] \<and> CHR '' '' \<notin> set op \<and> esc \<notin> set op \<and> list_all (\<lambda>c. \<not> is_quote c) op)"

lemma open_quote_operator: "proper_operator esc op \<or> op = [] \<Longrightarrow> open_quote esc quote (op @ s) = open_quote esc quote s"
proof (induction op)
  case (Cons c op)
  then show ?case by (cases op) (auto simp: proper_operator_def)
qed simp

lemma operator_at_Some:
  assumes "operator_at ops s = Some op"
  shows "op \<in> set ops" "starts_with op s"
proof -
  let ?sorted = "sort_key (\<lambda>op. - int (length op)) ops"
  from assms obtain i where i: "i < length ?sorted" "starts_with (?sorted ! i) s" "op = ?sorted ! i"
    unfolding operator_at_def find_Some_iff by blast
  from nth_mem[OF i(1)] show "op \<in> set ops" by (simp add: i(3))
  from i(2,3) show "starts_with op s" by simp
qed

lemma operator_at_proper:
  assumes "operator_at ops s = Some op" "list_all (proper_operator esc) ops"
  shows "proper_operator esc op" "\<exists>r. s = op @ r"
  using operator_at_Some[OF assms(1)] assms(2) by (simp_all add: list_all_iff starts_with_iff)

lemma no_operator_at_blank:
  assumes "list_all (proper_operator esc) ops"
  shows "operator_at ops (CHR '' '' # s) = None"
proof (cases "operator_at ops (CHR '' '' # s)")
  case (Some op)
  then have "proper_operator esc op" "starts_with op (CHR '' '' # s)"
    using operator_at_Some[OF Some] assms by (auto simp: list_all_iff)
  then show ?thesis by (cases op) (auto simp: proper_operator_def)
qed

lemma split_loop_next_blank:
  assumes "list_all (proper_operator esc) ops" "esc \<noteq> CHR '' ''"
  shows "split_loop ops esc quote buf (CHR '' '' # s) = split_loop ops esc quote (buf @ '' '') s"
  using assms by (auto simp: no_operator_at_blank is_quote_def)

lemma split_loop_at_operator:
  "operator_at ops (op @ r) = Some op \<Longrightarrow> op \<noteq> [] \<Longrightarrow>
     split_loop ops esc None buf (op @ r) = add_part buf (split_loop ops esc None [] r)"
  by (cases op) simp_all

lemma split_at_operator:
  assumes ops: "list_all (proper_operator backslash) ops" "operator_at ops (op @ b) = Some op" "op \<noteq> []"
  shows "open_quote backslash quote s = Some None \<Longrightarrow>
    split_loop ops backslash quote buf (s @ CHR '' '' # op @ b)
      = split_loop ops backslash quote buf s @ split_loop ops backslash None [] b"
proof (induction "length s" arbitrary: quote buf s rule: less_induct)
  case less
  have blank: "list_all py_space '' ''" by (simp add: py_space_def char_code_def)
  show ?case
  proof (cases s)
    case Nil
    with less.prems have quote: "quote = None" by simp
    have "split_loop ops backslash quote buf (s @ CHR '' '' # op @ b)
        = split_loop ops backslash None (buf @ '' '') (op @ b)"
      unfolding quote Nil append_Nil by (rule split_loop_next_blank[OF ops(1)]) simp
    also have "\<dots> = add_part (buf @ '' '') (split_loop ops backslash None [] b)"
      by (rule split_loop_at_operator[OF ops(2,3)])
    finally show ?thesis
      using Nil quote py_strip_append_blank[OF blank, of buf] by (simp add: add_part_def Let_def)
  next
    case (Cons c cs)
    let ?find = "if quote = None then operator_at ops (c # cs) else None"
    have same: "(if quote = None then operator_at ops (c # (cs @ CHR '' '' # op @ b)) else None) = ?find"
      using operator_at_append[of ops "c # cs" "op @ b"] ops(1) by (simp add: list_all_iff proper_operator_def)
    note eqs = append_Cons split_loop.simps(2) same
    show ?thesis
    proof (cases ?find)
      case (Some p)
      then have q: "quote = None" "operator_at ops (c # cs) = Some p" by (auto split: if_splits)
      obtain r where r: "c # cs = p @ r" and p: "proper_operator backslash p"
        using operator_at_proper[OF q(2) ops(1)] by blast
      then have d: "drop (length p - 1) cs = r" "length p - 1 \<le> length cs" "length r < length s"
        using Cons by (cases p; auto simp: proper_operator_def)+
      have "open_quote backslash None r = Some None"
        using less.prems Cons r q(1) open_quote_operator[of backslash p None r] p by simp
      from less.hyps[OF d(3) this, of "[]"] show ?thesis
        using d(1,2) unfolding Cons eqs Some option.case by (simp add: add_part_def Let_def)
    next
      case None
      note eqs = eqs None option.case
      show ?thesis
      proof (cases "c = backslash")
        case True
        then obtain d ds where cs: "cs = d # ds" using less.prems Cons by (cases cs) auto
        with less.prems Cons True have "open_quote backslash quote ds = Some None" by simp
        from less.hyps[OF _ this, of "buf @ [c, d]"] show ?thesis
          unfolding Cons eqs by (simp add: True cs Cons)
      next
        case False
        then show ?thesis using less.hyps[of cs] less.prems unfolding Cons eqs by (cases "is_quote c") (simp_all add: Cons)
      qed
    qed
  qed
qed

text \<open>Two commands in a list\<close>

abbreviation joined :: "string \<Rightarrow> string \<Rightarrow> string \<Rightarrow> string" where
  "joined s op b \<equiv> s @ CHR '' '' # op @ CHR '' '' # b"

definition list_operator :: "string \<Rightarrow> bool" where
  "list_operator op = (op \<in> {''&&'', ''||'', '';'', ''&''})"

lemma segments_of_list:
  assumes "closed_text s" "list_operator op"
  shows "bash_segment_texts (joined s op b) = bash_segment_texts s @ bash_segment_texts b"
proof -
  let ?ops = "[''&&'', ''||'', '';'', ''&'']"
  have ops: "list_all (proper_operator backslash) ?ops" by (simp add: proper_operator_def is_quote_def)
  have "operator_at ?ops (op @ CHR '' '' # b) = Some op" "op \<noteq> []" using assms(2) by (auto simp: list_operator_def operator_at_def)
  from split_at_operator[OF ops this, of None s "[]"]
  have "split_loop ?ops backslash None [] (joined s op b)
      = split_loop ?ops backslash None [] s @ split_loop ?ops backslash None [] (CHR '' '' # b)"
    using assms(1) by (simp only: closed_text_def)
  also have "split_loop ?ops backslash None [] (CHR '' '' # b) = split_loop ?ops backslash None ('' '' @ []) b"
    using split_loop_next_blank[OF ops, of None "[]" b] by simp
  also have "\<dots> = split_loop ?ops backslash None [] b"
    by (rule split_loop_blank) (simp add: py_space_def char_code_def)
  finally show ?thesis by (simp only: bash_segment_texts_def split_shell_like_def map_append concat_append)
qed

section \<open>Expansions in a compound\<close>

text \<open>What follows the blank does not open a parenthesis.\<close>

definition no_paren :: "string \<Rightarrow> bool" where
  "no_paren r = (take 1 (dropWhile py_space r) \<noteq> ''('')"

lemma expansion_at_append:
  assumes "x \<noteq> []" "no_paren r"
  shows "expansion_at (x @ CHR '' '' # r) = expansion_at x"
proof -
  obtain c cs where x: "x = c # cs" using assms(1) by (cases x) auto
  have "dropWhile py_space (cs @ CHR '' '' # r) = (if list_all py_space cs then dropWhile py_space r
      else dropWhile py_space cs @ CHR '' '' # r)"
    by (auto simp: dropWhile_append list_all_iff py_space_def char_code_def)
  moreover have "list_all py_space cs \<Longrightarrow> dropWhile py_space cs = []" by (simp add: list_all_iff dropWhile_eq_Nil_conv)
  moreover have "\<not> list_all py_space cs \<Longrightarrow> dropWhile py_space cs \<noteq> []" by (simp add: list_all_iff dropWhile_eq_Nil_conv)
  ultimately have 1: "starts_dollar_paren (x @ CHR '' '' # r) = starts_dollar_paren x"
    using assms(2) by (cases "dropWhile py_space r") (auto simp: starts_dollar_paren_def x no_paren_def Let_def)
  have 2: "starts_with p (x @ CHR '' '' # r) = starts_with p x" if "CHR '' '' \<notin> set p" for p
    by (rule starts_with_append_blank[OF that])
  have "\<not> py_isalpha CHR '' ''" by (simp add: py_isalpha_def char_code_def)
  then have 3: "(tl (x @ CHR '' '' # r) \<noteq> [] \<and> (py_isalpha (hd (tl (x @ CHR '' '' # r))) \<or> hd (tl (x @ CHR '' '' # r)) = CHR ''_''))
      = (tl x \<noteq> [] \<and> (py_isalpha (hd (tl x)) \<or> hd (tl x) = CHR ''_''))"
    using x by (cases cs) simp_all
  have 4: "hd (x @ CHR '' '' # r) = hd x" using x by simp
  have 5: "starts_with ''<('' (x @ CHR '' '' # r) = starts_with ''<('' x"
    "starts_with ''>('' (x @ CHR '' '' # r) = starts_with ''>('' x"
    "starts_with ''${'' (x @ CHR '' '' # r) = starts_with ''${'' x"
    "starts_with ''$(('' (x @ CHR '' '' # r) = starts_with ''$(('' x"
    by (rule 2, simp)+
  show ?thesis unfolding expansion_at_def 1 3 4 5 ..
qed

lemma expansion_loop_append:
  assumes "no_paren r"
  shows "open_quote backslash quote s = Some None \<Longrightarrow>
     expansion_loop quote (s @ CHR '' '' # r) = (case expansion_loop quote s of Some e \<Rightarrow> Some e | None \<Rightarrow> expansion_loop None r)"
proof (induction "length s" arbitrary: quote s rule: less_induct)
  case less
  show ?case
  proof (cases s)
    case Nil
    with less.prems show ?thesis by (simp add: is_quote_def expansion_at_def starts_dollar_paren_def)
  next
    case (Cons c cs)
    show ?thesis
    proof (cases "c = backslash")
      case True
      then obtain d ds where cs: "cs = d # ds" using less.prems Cons by (cases cs) auto
      with less.prems Cons True show ?thesis using less.hyps[of ds quote] by simp
    next
      case False
      let ?e = "if quote \<noteq> Some squote then expansion_at (c # cs) else None"
      have e: "(if quote \<noteq> Some squote then expansion_at (c # (cs @ CHR '' '' # r)) else None) = ?e"
        using expansion_at_append[of "c # cs" r] assms by simp
      have IH: "expansion_loop q (cs @ CHR '' '' # r) = (case expansion_loop q cs of Some e \<Rightarrow> Some e | None \<Rightarrow> expansion_loop None r)"
        if "open_quote backslash q cs = Some None" for q using less.hyps[of cs q] that Cons by simp
      have step: "expansion_loop quote (c # t) = (if is_quote c \<and> quote = None then expansion_loop (Some c) t
          else if is_quote c \<and> quote = Some c then expansion_loop None t
          else case (if quote \<noteq> Some squote then expansion_at (c # t) else None) of Some e \<Rightarrow> Some e | None \<Rightarrow> expansion_loop quote t)"
        for t using False by simp
      show ?thesis
      proof (cases "is_quote c \<and> (quote = None \<or> quote = Some c)")
        case True
        then show ?thesis using less.prems False IH unfolding Cons append_Cons step by (auto split: if_splits)
      next
        case nq: False
        then have "open_quote backslash quote cs = Some None" using less.prems False Cons by (auto split: if_splits)
        note IH = IH[OF this]
        have st: "expansion_loop quote (c # t) = (case (if quote \<noteq> Some squote then expansion_at (c # t) else None) of
            Some e \<Rightarrow> Some e | None \<Rightarrow> expansion_loop quote t)" for t
          unfolding step using nq by auto
        show ?thesis unfolding Cons append_Cons st e IH by (cases ?e) (simp_all only: option.case)
      qed
    qed
  qed
qed

lemma expansion_of_list:
  assumes "closed_text s" "list_operator op"
  shows "bash_forbidden_expansion_reason (joined s op b)
    = (case bash_forbidden_expansion_reason s of Some e \<Rightarrow> Some e | None \<Rightarrow> bash_forbidden_expansion_reason b)"
proof -
  have "no_paren (op @ CHR '' '' # b)" using assms(2) by (auto simp: list_operator_def no_paren_def py_space_def char_code_def)
  from expansion_loop_append[OF this, of None s] assms(1)
  have "expansion_loop None (joined s op b)
      = (case expansion_loop None s of Some e \<Rightarrow> Some e | None \<Rightarrow> expansion_loop None (op @ CHR '' '' # b))"
    by (simp add: closed_text_def)
  also have "expansion_loop None (op @ CHR '' '' # b) = expansion_loop None b"
    using assms(2) by (auto simp: list_operator_def is_quote_def expansion_at_def starts_dollar_paren_def)
  finally show ?thesis by (simp only: bash_forbidden_expansion_reason_def)
qed

section \<open>A compound is its parts\<close>

lemma parse_segments_append:
  "parse_segments posix mk (xs @ ys) = (case parse_segments posix mk xs of None \<Rightarrow> None
     | Some ss \<Rightarrow> map_option ((@) ss) (parse_segments posix mk ys))"
  by (induction xs; cases "parse_segments posix mk ys") (auto split: option.splits)

lemma parse_segments_length: "parse_segments posix mk xs = Some ss \<Longrightarrow> length ss = length xs"
  by (induction xs arbitrary: ss) (auto split: option.splits)

lemma parse_bash_nonempty:
  "parse_bash t \<noteq> [] \<longleftrightarrow> bash_segment_texts t \<noteq> [] \<and> parse_segments True bash_command (bash_segment_texts t) \<noteq> None"
  using parse_segments_length[of True bash_command "bash_segment_texts t"]
  by (auto simp: parse_bash_def or_empty_def split: option.splits)

lemma parse_bash_list:
  assumes "closed_text s" "list_operator op" "bash_segment_texts s \<noteq> []" "bash_segment_texts b \<noteq> []"
  shows "parse_bash (joined s op b) = (if parse_bash s = [] \<or> parse_bash b = [] then [] else parse_bash s @ parse_bash b)"
proof -
  have "parse_bash (joined s op b) = or_empty (parse_segments True bash_command (bash_segment_texts s @ bash_segment_texts b))"
    by (simp only: parse_bash_def segments_of_list[OF assms(1,2)])
  then show ?thesis
    using parse_bash_nonempty[of s] parse_bash_nonempty[of b] assms(3,4)
    by (auto simp: parse_segments_append or_empty_def parse_bash_def split: option.splits)
qed

lemma fetch_then_run_mono: "fetch_then_run False xs \<Longrightarrow> fetch_then_run b xs"
  by (induction b xs rule: fetch_then_run.induct) (auto split: if_splits)

lemma fetch_then_run_append: "fetch_then_run b xs \<or> fetch_then_run False ys \<Longrightarrow> fetch_then_run b (xs @ ys)"
proof (induction b xs rule: fetch_then_run.induct)
  case (1 b)
  then show ?case using fetch_then_run_mono by auto
qed (auto split: if_splits)

lemma pipe_of_list:
  assumes "closed_text s" "list_operator op" "remote_install_pipe_reason (joined s op b) Bash = None"
  shows "remote_install_pipe_reason s Bash = None" "remote_install_pipe_reason b Bash = None"
proof -
  let ?exes = "\<lambda>t. map (segment_executable Bash) (bash_segment_texts t)"
  have "?exes (joined s op b) = ?exes s @ ?exes b" by (simp only: segments_of_list[OF assms(1,2)] map_append)
  with assms(3) have "\<not> (CHR ''|'' \<in> set s \<union> set op \<union> set b \<and> fetch_then_run False (?exes s @ ?exes b))"
    by (simp add: remote_install_pipe_reason_def)
  then show "remote_install_pipe_reason s Bash = None" "remote_install_pipe_reason b Bash = None"
    using fetch_then_run_append[of False "?exes s" "?exes b"] by (auto simp: remote_install_pipe_reason_def)
qed

lemma refused_list:
  assumes "closed_text s" "list_operator op" "\<not> text_refused Bash (joined s op b)"
  shows "\<not> text_refused Bash s" "\<not> text_refused Bash b"
  using assms pipe_of_list[OF assms(1,2), of b] expansion_of_list[OF assms(1,2), of b]
  by (auto simp: text_refused_def split: option.splits)

lemma refused_list_converse:
  assumes "closed_text s" "list_operator op" "\<not> text_refused Bash s" "\<not> text_refused Bash b" "CHR ''|'' \<notin> set (s @ op @ b)"
  shows "\<not> text_refused Bash (joined s op b)"
  using assms expansion_of_list[OF assms(1,2), of b] by (auto simp: text_refused_def remote_install_pipe_reason_def list_operator_def)

definition shell_allows :: "shell_env \<Rightarrow> shell_name \<Rightarrow> string \<Rightarrow> string \<Rightarrow> bool" where
  "shell_allows env shell cwd t = (sd_behavior (validate_in env t shell cwd ''default'') = Allow)"

lemma strip_hd_last: "py_strip s = s \<Longrightarrow> s \<noteq> [] \<Longrightarrow> \<not> py_space (hd s) \<and> \<not> py_space (last s)"
proof -
  assume s: "py_strip s = s" "s \<noteq> []"
  let ?d = "dropWhile py_space s"
  have d: "?d \<noteq> []" using s by (metis dropWhile.simps(1) py_strip_def rev.simps(1))
  have "length (py_strip s) \<le> length ?d" unfolding py_strip_def by (metis length_dropWhile_le length_rev)
  moreover have "length ?d \<le> length s" by (rule length_dropWhile_le)
  ultimately have "length ?d = length s" using s(1) by simp
  then have "?d = s" by (metis append_Nil append_eq_append_conv takeWhile_dropWhile_id)
  then have 1: "\<not> py_space (hd s)" using hd_dropWhile[of py_space s] d by simp
  have "rev s = dropWhile py_space (rev s)" using s(1) \<open>?d = s\<close> by (metis py_strip_def rev_rev_ident)
  then have "\<not> py_space (hd (rev s))" using hd_dropWhile[of py_space "rev s"] s(2) by (metis rev_is_Nil_conv)
  with 1 show ?thesis by (simp add: hd_rev)
qed

lemma strip_ends: "s \<noteq> [] \<Longrightarrow> \<not> py_space (hd s) \<Longrightarrow> \<not> py_space (last s) \<Longrightarrow> py_strip s = s"
proof -
  assume s: "s \<noteq> []" "\<not> py_space (hd s)" "\<not> py_space (last s)"
  have "dropWhile py_space s = s" using s(1,2) by (cases s) auto
  moreover have "dropWhile py_space (rev s) = rev s" using s(1,3) by (cases "rev s") (auto simp: hd_rev[symmetric])
  ultimately show ?thesis by (simp add: py_strip_def)
qed

lemma strip_of_list: "py_strip s = s \<Longrightarrow> s \<noteq> [] \<Longrightarrow> py_strip b = b \<Longrightarrow> b \<noteq> [] \<Longrightarrow>
    py_strip (joined s op b) = joined s op b"
  by (rule strip_ends) (use strip_hd_last[of s] strip_hd_last[of b] in auto)

lemma segments_need_text: "bash_segment_texts t \<noteq> [] \<Longrightarrow> t \<noteq> []"
  by (auto simp: bash_segment_texts_def split_shell_like_def add_part_def)

lemma compound_parts:
  assumes "CHR ''%'' \<notin> set (se_home env)"
    and "closed_text s" "list_operator op" "bash_segment_texts s \<noteq> []" "bash_segment_texts b \<noteq> []" "py_strip s = s" "py_strip b = b"
  shows "shell_allows env Bash cwd (joined s op b) \<Longrightarrow> shell_allows env Bash cwd s \<and> shell_allows env Bash cwd b"
    and "CHR ''|'' \<notin> set (s @ op @ b) \<Longrightarrow> shell_allows env Bash cwd s \<Longrightarrow> shell_allows env Bash cwd b \<Longrightarrow>
      shell_allows env Bash cwd (joined s op b)"
proof -
  have ne: "s \<noteq> []" "b \<noteq> []" using assms(4,5) segments_need_text by blast+
  note strip = strip_of_list[OF assms(6) ne(1) assms(7) ne(2), of op]
  note allow = shell_allows_def allow_iff[OF assms(1)] Let_def shell_commands_def shell_name.case
  have cmds: "parse_bash (joined s op b) \<noteq> [] \<longleftrightarrow> parse_bash s \<noteq> [] \<and> parse_bash b \<noteq> []"
    "parse_bash s \<noteq> [] \<Longrightarrow> parse_bash b \<noteq> [] \<Longrightarrow> set (parse_bash (joined s op b)) = set (parse_bash s) \<union> set (parse_bash b)"
    unfolding parse_bash_list[OF assms(2-5)] by auto
  show "shell_allows env Bash cwd (joined s op b) \<Longrightarrow> shell_allows env Bash cwd s \<and> shell_allows env Bash cwd b"
    unfolding allow strip assms(6,7) list_all_iff using cmds ne refused_list[OF assms(2,3), of b] by blast
  show "CHR ''|'' \<notin> set (s @ op @ b) \<Longrightarrow> shell_allows env Bash cwd s \<Longrightarrow> shell_allows env Bash cwd b \<Longrightarrow>
      shell_allows env Bash cwd (joined s op b)"
    unfolding allow strip assms(6,7) list_all_iff
    using cmds ne refused_list_converse[OF assms(2,3), of b] by (simp, blast)
qed

text \<open>C18: In Bash, joining two commands by \<open>&&\<close>, \<open>||\<close>, \<open>;\<close> or \<open>&\<close> with a blank on each side gives no more rights than the
  two have: the compound is allowed by default only if both commands are, and when it has no \<open>|\<close> in it exactly then.  Neither
  command is empty or has white space around it, no quote or escape is open at the end of the first one, and the home
  directory has no percent sign.  (A newline between two commands is no operator to the check, and the compound is read as
  one command.)\<close>

theorem compound_is_its_parts:
  assumes "CHR ''%'' \<notin> set (se_home env)"
    and "closed_text s" "list_operator op" "bash_segment_texts s \<noteq> []" "bash_segment_texts b \<noteq> []" "py_strip s = s" "py_strip b = b"
  shows "(shell_allows env Bash cwd (joined s op b) \<longrightarrow> shell_allows env Bash cwd s \<and> shell_allows env Bash cwd b)
    \<and> (CHR ''|'' \<notin> set (s @ op @ b) \<longrightarrow> shell_allows env Bash cwd s \<longrightarrow> shell_allows env Bash cwd b
      \<longrightarrow> shell_allows env Bash cwd (joined s op b))"
  using compound_parts[OF assms] by blast

end
