(* ===== verification/Shell_Words.thy ===== *)
theory Shell_Words
  imports Shell_Compound
begin

text \<open>
  Commands of plain words: every tokenizer reads them as they are, so the parser and the printer are inverse
  on them, and a recursive deletion of a root is recognised behind the wrappers that are looked through.
\<close>

section \<open>Plain words\<close>

definition plain_char :: "char \<Rightarrow> bool" where
  "plain_char c = (\<not> py_space c \<and> \<not> is_quote c \<and> c \<noteq> CHR 0x00
     \<and> c \<notin> set (backslash # backtick # ''&|;$<>''))"

definition plain_word :: "string \<Rightarrow> bool" where
  "plain_word w = (w \<noteq> [] \<and> list_all plain_char w)"

definition say :: "string list \<Rightarrow> string" where
  "say ws = join_with '' '' ws"

lemma shlex_blank: "shlex_space c \<Longrightarrow> py_space c"
  by (auto simp: shlex_space_def py_space_def char_code_def)

lemma plain_charD:
  assumes "plain_char c"
  shows "\<not> py_space c" "\<not> is_quote c" "c \<noteq> backslash" "\<not> shlex_space c" "c \<noteq> CHR ''&''" "c \<noteq> CHR ''|''" "c \<noteq> CHR '';''"
    "c \<noteq> CHR ''$''" "c \<noteq> backtick" "c \<noteq> CHR ''<''" "c \<noteq> CHR ''>''" "c \<noteq> CHR 0x00"
proof -
  show "\<not> shlex_space c" using assms shlex_blank unfolding plain_char_def by blast
qed (use assms in \<open>simp_all add: plain_char_def\<close>)

text \<open>Every character of a rendered command is plain or the blank between words.\<close>

lemma say_chars: "list_all plain_word ws \<Longrightarrow> c \<in> set (say ws) \<Longrightarrow> plain_char c \<or> c = CHR '' ''"
  unfolding say_def
  by (induction "'' '' :: string" ws rule: join_with.induct) (auto simp: plain_word_def list_all_iff)

lemma say_Cons: "say (w # ws) = (if ws = [] then w else w @ CHR '' '' # say ws)"
  by (cases ws) (simp_all add: say_def)

lemma say_nonempty: "list_all plain_word ws \<Longrightarrow> ws \<noteq> [] \<Longrightarrow> say ws \<noteq> []"
  by (cases ws) (auto simp: say_Cons plain_word_def)

lemma say_strip: "list_all plain_word ws \<Longrightarrow> py_strip (say ws) = say ws"
proof (cases "ws = []")
  case False
  assume p: "list_all plain_word ws"
  have "\<not> py_space (hd (say ws))"
    using p False by (cases ws) (auto simp: say_Cons plain_word_def list_all_iff hd_append plain_charD(1))
  moreover have "\<not> py_space (last (say ws))"
    using p False
  proof (induction ws)
    case (Cons w ws)
    then show ?case using say_nonempty[of ws] by (auto simp: say_Cons plain_word_def list_all_iff plain_charD(1))
  qed simp
  ultimately show ?thesis using strip_ends say_nonempty[OF p False] by blast
qed (simp add: say_def)

section \<open>Every tokenizer reads plain words\<close>

lemma plain_no_operator:
  assumes "plain_char c \<or> c = CHR '' ''" "list_all (\<lambda>op. op \<noteq> [] \<and> hd op \<in> set ''&|;'') ops"
  shows "operator_at ops (c # cs) = None"
proof (cases "operator_at ops (c # cs)")
  case (Some op)
  from operator_at_Some[OF Some] assms(2) have "hd op \<in> set ''&|;''" "starts_with op (c # cs)" "op \<noteq> []"
    by (auto simp: list_all_iff)
  then show ?thesis using assms(1) by (cases op) (auto dest: plain_charD)
qed

lemma split_plain:
  assumes "list_all (\<lambda>op. op \<noteq> [] \<and> hd op \<in> set ''&|;'') ops"
  shows "list_all (\<lambda>c. plain_char c \<or> c = CHR '' '') s \<Longrightarrow> split_loop ops backslash None buf s = add_part (buf @ s) []"
proof (induction s arbitrary: buf)
  case (Cons c s)
  then have c: "plain_char c \<or> c = CHR '' ''" by simp
  then have "c \<noteq> backslash" "\<not> is_quote c" by (auto simp: is_quote_def dest: plain_charD)
  with Cons plain_no_operator[OF c assms] show ?case by simp
qed simp

lemma say_segments: "list_all plain_word ws \<Longrightarrow> ws \<noteq> [] \<Longrightarrow> bash_segment_texts (say ws) = [say ws]"
  using split_plain[of _ "say ws" "[]"] say_chars[of ws] say_strip[of ws] say_nonempty[of ws]
  by (simp add: bash_segment_texts_def split_shell_like_def list_all_iff add_part_def)

lemma shlex_word:
  "list_all plain_char w \<Longrightarrow> shlex_posix InWord token quoted (w @ s) = shlex_posix InWord (token @ w) quoted s"
  by (induction w arbitrary: token) (simp_all add: plain_charD)

lemma shlex_say: "list_all plain_word ws \<Longrightarrow> shlex_posix Between [] False (say ws) = Some ws"
proof (induction ws)
  case (Cons w ws)
  then obtain c cs where w: "w = c # cs" and c: "plain_char c" "list_all plain_char cs"
    by (cases w) (auto simp: plain_word_def)
  have blank: "shlex_space CHR '' ''" by (simp add: shlex_space_def)
  have A: "shlex_posix Between [] False (w @ s) = shlex_posix InWord w False s" for s
    using c shlex_word[of cs "[c]" False s] by (simp add: w plain_charD)
  have "w \<noteq> []" by (simp add: w)
  with Cons blank A[of "[]"] A[of "CHR '' '' # say ws"] show ?case by (simp add: say_Cons)
qed (simp add: say_def)

lemma literal_word: "list_all plain_char w \<Longrightarrow> literal_words None buf (w @ s) = literal_words None (buf @ w) s"
  by (induction w arbitrary: buf) (simp_all add: plain_charD)

lemma literal_say: "list_all plain_word ws \<Longrightarrow> tokenize_literal_bash (say ws) = ws"
  unfolding tokenize_literal_bash_def
proof (induction ws)
  case (Cons w ws)
  have w: "list_all plain_char w" "w \<noteq> []" using Cons.prems by (auto simp: plain_word_def)
  have blank: "shlex_space CHR '' ''" "\<not> is_quote CHR '' ''" by (simp_all add: shlex_space_def is_quote_def)
  with Cons w literal_word[OF w(1), of "[]"] literal_word[OF w(1), of "[]" "[]"] show ?case by (simp add: say_Cons)
qed (simp add: say_def)

lemma lower_low: "lower_char c = d \<Longrightarrow> char_code d < 65 \<Longrightarrow> c = d"
proof (rule ccontr)
  assume d: "lower_char c = d" "char_code d < 65" "c \<noteq> d"
  define n where "n = char_code c"
  have n: "65 \<le> n" "n \<le> 222" "d = char_of (n + 32)"
    using d(1,3) unfolding lower_char_def Let_def n_def by (auto split: if_splits)
  then have "char_code d = n + 32" by (simp add: char_code_def of_char_of)
  with d(2) n(1) show False by simp
qed

lemma lower_angle: "lower_char c = CHR ''<'' \<Longrightarrow> c = CHR ''<''" "lower_char c = CHR ''>'' \<Longrightarrow> c = CHR ''>''"
  by (rule lower_low; simp add: char_code_def)+

lemma plain_no_redirection: "plain_word w \<Longrightarrow> \<not> is_redirection_token w"
proof
  assume w: "plain_word w" and r: "is_redirection_token w"
  have "CHR ''<'' \<notin> set (py_lower w) \<and> CHR ''>'' \<notin> set (py_lower w)"
  proof -
    have "plain_char c" if "c \<in> set w" for c using w that by (simp add: plain_word_def list_all_iff)
    then show ?thesis using lower_angle plain_charD(10,11) unfolding py_lower_def set_map image_iff by metis
  qed
  with r show False by (auto simp: is_redirection_token_def Let_def starts_with_iff)
qed

lemma keep_plain: "list_all plain_word ws \<Longrightarrow> strip_redirections (map plain_token ws) = (map plain_token ws, False)"
proof -
  assume p: "list_all plain_word ws"
  have "strip_redirections_loop False (map plain_token ws) = (map plain_token ws, False)"
    using p by (induction ws) (auto simp: plain_no_redirection plain_token_def)
  then show ?thesis by (simp add: strip_redirections_def)
qed

text \<open>Parsing what was said gives the words back.\<close>

lemma parse_said:
  assumes "list_all plain_word ws" "ws \<noteq> []"
  shows "parse_bash (say ws) = [\<lparr>sc_raw = say ws, sc_argv = map plain_token ws, sc_stripped = strip_wrappers ws,
    sc_redirection = False, sc_literal = strip_wrappers ws\<rparr>]"
  using shlex_say[OF assms(1)] literal_say[OF assms(1)] keep_plain[OF assms(1)]
  by (simp add: parse_bash_def say_segments[OF assms] shlex_split_def or_empty_def bash_command_def Let_def)

section \<open>Wrappers that are looked through\<close>

text \<open>One wrapper with its own words: an assignment; \<open>time\<close> or \<open>nohup\<close>, with \<open>--\<close> or not; \<open>nice\<close> alone, with \<open>-n\<close> and a value,
  or with another word that starts with a dash; \<open>timeout\<close> with a duration.\<close>

definition wrapper_phrase :: "string list \<Rightarrow> bool" where
  "wrapper_phrase ph = (ph \<noteq> [] \<and> \<not> dash_word (hd ph) \<and>
     (if is_env_assignment (hd ph) then tl ph = []
      else (let exe = executable_name (hd ph) in case tl ph of
          [] \<Rightarrow> exe \<in> {''time'', ''nohup'', ''nice''}
        | [d] \<Rightarrow> (exe \<in> {''time'', ''nohup''} \<and> d = ''--'') \<or> (exe = ''nice'' \<and> dash_word d \<and> d \<noteq> ''-n'')
            \<or> (exe = ''timeout'' \<and> \<not> dash_word d \<and> timeout_flag_value_safe d)
        | [d, v] \<Rightarrow> exe = ''nice'' \<and> d = ''-n''
        | _ \<Rightarrow> False)))"

lemma strip_assignment: "is_env_assignment w \<Longrightarrow> strip_wrappers (w # ws) = strip_wrappers ws"
  by (subst (1 2) strip_wrappers.simps) simp

lemma strip_known:
  assumes "\<not> is_env_assignment w"
  shows "executable_name w \<in> {''time'', ''nohup''} \<Longrightarrow>
      strip_wrappers (w # ws) = strip_wrappers (if ws \<noteq> [] \<and> hd ws = ''--'' then tl ws else ws)"
    "executable_name w = ''nice'' \<Longrightarrow> strip_wrappers (w # ws) = strip_wrappers (strip_nice (w # ws))"
    "executable_name w = ''timeout'' \<Longrightarrow> strip_timeout (w # ws) \<noteq> w # ws \<Longrightarrow> strip_wrappers (w # ws) = strip_wrappers (strip_timeout (w # ws))"
  using assms by (subst strip_wrappers.simps, cases ws, auto simp: Let_def)+

lemma dashes: "dash_word ''--''" "dash_word ''-n''"
  by (simp_all add: dash_word_def)

lemma timeout_duration:
  assumes "\<not> dash_word d" "timeout_flag_value_safe d"
  shows "strip_timeout (w # d # ws) = ws"
proof -
  have "\<not> timeout_flag d" "\<not> timeout_long_option d" "\<not> timeout_option d" "\<not> timeout_short_option d" "d \<noteq> end_of_options"
    using assms(1) by (auto simp: dash_word_def timeout_flag_def timeout_long_option_def timeout_option_def timeout_short_option_def
        end_of_options_def starts_with_iff)
  then have "timeout_options (d # ws) = Some (d # ws)" using assms(1) by simp
  then show ?thesis using assms(2) by (simp add: strip_timeout_def)
qed

lemma strip_phrase:
  assumes "wrapper_phrase ph" "ws \<noteq> []" "\<not> dash_word (hd ws)"
  shows "strip_wrappers (ph @ ws) = strip_wrappers ws"
proof -
  obtain w ds where ph: "ph = w # ds" using assms(1) by (cases ph) (auto simp: wrapper_phrase_def)
  obtain v vs where ws: "ws = v # vs" "\<not> dash_word v" using assms(2,3) by (cases ws) auto
  show ?thesis
  proof (cases "is_env_assignment w")
    case True
    then show ?thesis using assms(1) strip_assignment by (simp add: wrapper_phrase_def ph)
  next
    case False
    note known = strip_known[OF False]
    have v: "v \<noteq> ''--''" "v \<noteq> ''-n''" "\<not> starts_with ''-'' v" using ws(2) dashes by (auto simp: dash_word_def)
    have nice: "strip_nice (w # ws) = ws" using v by (simp add: strip_nice_def ws(1))
    have nice_value: "strip_nice (w # ''-n'' # x # ws) = ws" for x by (simp add: strip_nice_def)
    have nice_dash: "strip_nice (w # d # ws) = ws" if "dash_word d" "d \<noteq> ''-n''" for d
      using that by (simp add: strip_nice_def dash_word_def ws(1))
    consider "ds = []" "executable_name w \<in> {''time'', ''nohup''}" | "ds = []" "executable_name w = ''nice''"
      | "ds = [''--'']" "executable_name w \<in> {''time'', ''nohup''}"
      | d where "ds = [d]" "executable_name w = ''nice''" "dash_word d" "d \<noteq> ''-n''"
      | d where "ds = [d]" "executable_name w = ''timeout''" "\<not> dash_word d" "timeout_flag_value_safe d"
      | x where "ds = [''-n'', x]" "executable_name w = ''nice''"
      using assms(1) False by (auto simp: wrapper_phrase_def ph Let_def split: list.splits)
    then show ?thesis
    proof cases
      case 1
      then show ?thesis using known(1)[of ws] v(1) by (simp add: ph ws(1))
    next
      case 2
      then show ?thesis using known(2)[of ws] nice by (simp add: ph)
    next
      case 3
      then show ?thesis using known(1)[of "''--'' # ws"] by (simp add: ph)
    next
      case (4 d)
      then show ?thesis using known(2)[of "d # ws"] nice_dash by (simp add: ph)
    next
      case (5 d)
      then show ?thesis using known(3)[of "d # ws"] timeout_duration[OF 5(3,4), of w ws]
        by (simp add: ph)
    next
      case (6 x)
      then show ?thesis using known(2)[of "''-n'' # x # ws"] nice_value by (simp add: ph)
    qed
  qed
qed

lemma strip_phrases:
  "list_all wrapper_phrase phs \<Longrightarrow> ws \<noteq> [] \<Longrightarrow> \<not> dash_word (hd ws) \<Longrightarrow> strip_wrappers (concat phs @ ws) = strip_wrappers ws"
proof (induction phs)
  case (Cons ph phs)
  have "concat phs @ ws \<noteq> []" "\<not> dash_word (hd (concat phs @ ws))"
    using Cons.prems by (cases phs; auto simp: wrapper_phrase_def)+
  with Cons strip_phrase[of ph "concat phs @ ws"] show ?case by simp
qed simp

section \<open>Deleting a root\<close>

lemma plain_no_expansion:
  "list_all (\<lambda>c. plain_char c \<or> c = CHR '' '') s \<Longrightarrow> bash_forbidden_expansion_reason s = None"
proof -
  have "list_all (\<lambda>c. plain_char c \<or> c = CHR '' '') s \<Longrightarrow> expansion_loop None s = None" for s
  proof (induction s)
    case (Cons c s)
    then have c: "c \<noteq> backslash" "\<not> is_quote c" "c \<noteq> backtick" "c \<noteq> CHR ''$''" "c \<noteq> CHR ''<''" "c \<noteq> CHR ''>''"
      by (auto simp: is_quote_def dest: plain_charD)
    then have "expansion_at (c # s) = None" by (simp add: expansion_at_def starts_dollar_paren_def)
    with c Cons show ?case by simp
  qed simp
  then show "list_all (\<lambda>c. plain_char c \<or> c = CHR '' '') s \<Longrightarrow> bash_forbidden_expansion_reason s = None"
    by (simp add: bash_forbidden_expansion_reason_def)
qed

lemma rm_is_no_wrapper: "strip_wrappers (''rm'' # args) = ''rm'' # args" "executable_name ''rm'' = ''rm''"
proof -
  show e: "executable_name ''rm'' = ''rm''" by code_simp
  have "\<not> is_env_assignment ''rm''" by (simp add: is_env_assignment_def)
  with e show "strip_wrappers (''rm'' # args) = ''rm'' # args" by (subst strip_wrappers.simps) simp
qed

text \<open>C16: A Bash command of plain words (no quotes, escapes, blanks or shell operators in them) that is \<open>rm\<close> with words that ask
  for recursion and force, however these are spread, and among whose words is the root of a file system, is denied in every
  mode, bypass included.  Before \<open>rm\<close> may stand any assignments, \<open>time\<close> or \<open>nohup\<close> (with \<open>--\<close> or not), \<open>nice\<close> (with \<open>-n\<close> and a
  value, or one word that starts with a dash) and \<open>timeout\<close> with a duration.  (Other wrappers, such as \<open>sudo\<close> and \<open>env\<close>, are not
  looked through.)\<close>

theorem root_deletion_denied:
  assumes "list_all wrapper_phrase phs" "list_all plain_word (concat phs @ args)"
    and "has_recursive_force (map py_lower args)" "list_ex is_root_path args"
  shows "sd_behavior (validate_in env (say (concat phs @ ''rm'' # args)) Bash cwd mode) = Deny"
proof -
  let ?ws = "concat phs @ ''rm'' # args" let ?t = "say ?ws"
  have ws: "list_all plain_word ?ws" "?ws \<noteq> []"
    using assms(2) by (auto simp: plain_word_def plain_char_def py_space_def char_code_def is_quote_def)
  have "\<not> dash_word ''rm''" by (simp add: dash_word_def)
  then have st: "strip_wrappers ?ws = ''rm'' # args"
    using strip_phrases[OF assms(1), of "''rm'' # args"] rm_is_no_wrapper by simp
  note parsed = parse_said[OF ws, unfolded st]
  have chars: "list_all (\<lambda>c. plain_char c \<or> c = CHR '' '') ?t" using say_chars[OF ws(1)] by (simp add: list_all_iff)
  then have "CHR 0x00 \<notin> set ?t" "CHR ''|'' \<notin> set ?t" by (auto simp: list_all_iff dest: plain_charD)
  moreover have "an_hard_deny (analyze_bash rec env ?t d)" for rec d
    using \<open>CHR ''|'' \<notin> set ?t\<close> assms(3,4) rm_is_no_wrapper(2)
    by (simp add: analyze_bash_def plain_no_expansion[OF chars] remote_install_pipe_reason_def reason_if_def parsed
      Let_def bash_hard_deny_def sc_executable_def bash_destructive_def finish_analysis_def denied_def)
  ultimately have "an_hard_deny (analyze rec env ?t Bash d)" for rec d by (simp add: analyze_def)
  then show ?thesis
    by (simp add: validate_in_def validate_body_def say_strip[OF ws(1)] say_nonempty[OF ws] mode_behavior_def Let_def)
qed

end
