(* ===== verification/Shell_Examples.thy ===== *)
theory Shell_Examples
  imports Shell_Words
begin

text \<open>Witnesses of the theorems on the shell check, and commands that it takes for read-only although they are
  not.\<close>

definition posix_env :: shell_env where
  "posix_env = \<lparr>se_home = ''/home/u'', se_expanduser = (\<lambda>p. p), se_absolute = starts_with ''/'', se_resolve = Some,
     se_join = (\<lambda>a b. a @ ''/'' @ b), se_within = starts_with\<rparr>"

lemma home_has_no_percent: "CHR ''%'' \<notin> set (se_home posix_env)"
  by (simp add: posix_env_def)

lemma posix_env_home [simp]: "se_home posix_env = ''/home/u''"
  by (simp add: posix_env_def)

lemma nested_validation_ends_witness:
  "sd_behavior (validate_depth 30 posix_env ''cmd /c cmd /c dir x'' Cmd ''/w'' ''default'')
    = sd_behavior (validate_body (\<lambda>u sh d. validate_in posix_env u sh d ''default'') posix_env ''cmd /c cmd /c dir x'' Cmd ''/w'' ''default'')"
proof -
  have "text_weight posix_env ''cmd /c cmd /c dir x'' < 30"
    by (simp add: text_weight_def char_weight_def py_space_def char_code_def)
  from nested_validation_ends[OF home_has_no_percent this] show ?thesis by simp
qed

lemma nested_cmd_allowed: "sd_behavior (validate_in posix_env ''cmd /c cmd /c dir x'' Cmd ''/w'' ''default'') = Allow"
  by code_simp

lemma allowed_by_default_iff_witness:
  "list_all (\<lambda>s. \<not> command_denied posix_env ''/w'' Bash s \<and> command_reads posix_env ''/w'' Bash s)
     (shell_commands Bash ''cat sub/x | wc -l'')"
proof -
  have "sd_behavior (validate_in posix_env ''cat sub/x | wc -l'' Bash ''/w'' ''default'') = Allow" by code_simp
  moreover have "py_strip ''cat sub/x | wc -l'' = ''cat sub/x | wc -l''" by code_simp
  moreover have "cwd_text posix_env ''/w'' = ''/w''" by (simp add: cwd_text_def posix_env_def)
  ultimately show ?thesis
    using allowed_by_default_iff[OF home_has_no_percent, of "''cat sub/x | wc -l''" Bash "''/w''"] by (simp add: Let_def)
qed

lemma compound_is_its_parts_witness:
  "shell_allows posix_env Bash ''/w'' (joined ''git status'' '';'' ''ls sub'')"
proof -
  have "closed_text ''git status''" "list_operator '';''" "bash_segment_texts ''git status'' \<noteq> []" "bash_segment_texts ''ls sub'' \<noteq> []"
    "py_strip ''git status'' = ''git status''" "py_strip ''ls sub'' = ''ls sub''" by code_simp+
  note compound = compound_is_its_parts[OF home_has_no_percent this, of "''/w''"]
  have "shell_allows posix_env Bash ''/w'' ''git status''" "shell_allows posix_env Bash ''/w'' ''ls sub''" by code_simp+
  moreover have "CHR ''|'' \<notin> set (''git status'' @ '';'' @ ''ls sub'')" by simp
  ultimately show ?thesis using compound by blast
qed

definition some_wrappers :: "string list list" where
  "some_wrappers = [[''A=1''], [''nohup''], [''time'', ''--''], [''nice'', ''-n'', ''5''], [''timeout'', ''30s'']]"

lemma root_deletion_denied_witness:
  "sd_behavior (validate_in posix_env (say (concat some_wrappers @ ''rm'' # [''-r'', ''--force'', ''/''])) Bash ''/w'' ''bypassPermissions'') = Deny"
proof (rule root_deletion_denied)
  show "list_all wrapper_phrase some_wrappers" "list_all plain_word (concat some_wrappers @ [''-r'', ''--force'', ''/''])"
    "has_recursive_force (map py_lower [''-r'', ''--force'', ''/''])" "list_ex is_root_path [''-r'', ''--force'', ''/'']"
    by code_simp+
qed

section \<open>Where the check falls short\<close>

text \<open>Two lines are one command to the check: a deletion on the second line is an argument of the first.\<close>

lemma newline_joins_commands:
  "shell_allows posix_env Bash ''/w'' (''ls sub'' @ newline @ ''rm x'')" "\<not> shell_allows posix_env Bash ''/w'' ''rm x''"
  by code_simp+

text \<open>Other wrappers than those are not looked through: with permissions bypassed the deletion of the root passes.\<close>

lemma wrappers_that_hide:
  "list_all (\<lambda>t. sd_behavior (validate_in posix_env t Bash ''/w'' ''bypassPermissions'') = Allow)
     [''sudo rm -rf /'', ''env rm -rf /'', ''nice --adjustment 5 rm -rf /'', ''time -p rm -rf /'']"
  by code_simp

definition provably_read_only :: "shell_name \<Rightarrow> string \<Rightarrow> bool" where
  "provably_read_only shell t = (let d = validate_in posix_env t shell ''/w'' ''default'' in
     sd_behavior d = Allow \<and> sd_read_only d)"

lemma hidden_redirection: "provably_read_only Bash ''echo hi>x | cat''"
  by code_simp

lemma hidden_newline: "provably_read_only Bash (''ls | cat'' @ newline @ ''rm x'')"
  by code_simp

lemma hidden_substitution:
  "provably_read_only Bash (''echo '' @ [squote, backslash, squote] @ '' $(rm x) '' @ [squote, backslash, squote] @ '' | cat'')"
  by code_simp

lemma hidden_git_writes:
  "provably_read_only Bash ''git reflog expire --all''" "provably_read_only Bash ''git remote -v add evil url''"
  by code_simp+

lemma hidden_programs: "provably_read_only Bash ''rg --pre sh x''" "provably_read_only Bash ''npx any --version''"
  by code_simp+

text \<open>Commands that write, taken for read-only.  A redirection without a blank before it is a part of the
  word; a newline is a blank, although the shell starts a new command there; a backslash in single quotes
  hides the end of the quote and with it a command substitution; \<open>git reflog expire\<close> and \<open>git remote -v add\<close>
  are listed by their first word; \<open>rg --pre\<close> and \<open>npx\<close> run a program.\<close>

lemma bash_writes_taken_for_reads:
  "provably_read_only Bash ''echo hi>x | cat''
    \<and> provably_read_only Bash (''ls | cat'' @ newline @ ''rm x'')
    \<and> provably_read_only Bash (''echo '' @ [squote, backslash, squote] @ '' $(rm x) '' @ [squote, backslash, squote] @ '' | cat'')
    \<and> provably_read_only Bash ''git reflog expire --all''
    \<and> provably_read_only Bash ''git remote -v add evil url''
    \<and> provably_read_only Bash ''rg --pre sh x'' \<and> provably_read_only Bash ''npx any --version''"
  by (simp only: hidden_redirection hidden_newline hidden_substitution hidden_git_writes hidden_programs simp_thms)

text \<open>PowerShell: a script block or a parenthesis is an argument like any other, and so is a new line.  cmd.exe:
  the splitter takes the backslash of a path for an escape, so the command after it is not seen.\<close>

lemma hidden_block: "provably_read_only Powershell ''ls | % { rm x }''"
  by code_simp

lemma hidden_method: "provably_read_only Powershell ''gci | % Delete''"
  by code_simp

lemma hidden_parenthesis: "provably_read_only Powershell ''cat (rm x)''"
  by code_simp

lemma hidden_line: "provably_read_only Powershell (''ls'' @ newline @ ''rm x'')"
  by code_simp

lemma hidden_by_backslash: "provably_read_only Cmd (''dir s'' @ [backslash] @ ''& del x'')"
  by code_simp

text \<open>The nested check looks for the switch \<open>-c\<close> alone: joined with another letter the text is not looked at, and
  with permissions bypassed a deletion of the root passes.\<close>

lemma joined_switch_hides_text:
  "sd_behavior (validate_in posix_env (''bash -c '' @ [squote] @ ''rm -rf /'' @ [squote]) Bash ''/w'' ''bypassPermissions'') = Deny"
  "sd_behavior (validate_in posix_env (''bash -lc '' @ [squote] @ ''rm -rf /'' @ [squote]) Bash ''/w'' ''bypassPermissions'') = Allow"
  by code_simp+

end
