(* ===== verification/Streaming_Executor.thy ===== *)
theory Streaming_Executor
  imports Frame_Invariants State_Machine
begin

text \<open>
  The scheduler of streamed tool calls (\<open>intent/streaming_tool_executor.py\<close>).  Tasks of the event loop are
  interleaved: a step is what one task does between two awaits, and any enabled step may be next.  What a
  tool runner yields, whether it raises and when, and when the user interrupts are choices of the
  environment.  \<open>iv_phase\<close> is the point at which the coroutine of an invocation stands.
\<close>

section \<open>Messages\<close>

record tool_call =
  tu_id :: string
  tu_name :: string
  tu_input :: pyval

record assistant_message =
  am_uuid :: string
  am_content :: "pydict list"

record progress_update =
  pu_tool_use_id :: string
  pu_text :: string
  pu_metadata :: pydict

record result_message =
  rm_tool_use_id :: string
  rm_content :: pyval
  rm_is_error :: bool
  rm_summary :: "string option"
  rm_assistant :: "string option"

definition result_native_block :: "result_message \<Rightarrow> pyval" where
  "result_native_block m = PyDict ([(''type'', PyStr ''tool_result''), (''tool_use_id'', PyStr (rm_tool_use_id m)),
     (''content'', rm_content m)] @ (if rm_is_error m then [(''is_error'', PyBool True)] else []))"

datatype tool_output = Progress progress_update | Result result_message

text \<open>What a runner yields; anything that is neither message is ignored.\<close>

datatype runner_output = Yields tool_output | Invalid

text \<open>A tool: its two policies on a call, \<open>None\<close> where the policy raises.\<close>

record tool_definition =
  td_concurrency_safe :: "pyval \<Rightarrow> bool option"
  td_interrupt :: "string option"

section \<open>State\<close>

datatype tool_status = Queued | Executing | Completed | Yielded

text \<open>The coroutine of an invocation: no task yet, task not begun, in the output loop (with \<open>own_error\<close>), in
  the \<open>finally\<close> part, ended.\<close>

datatype run_phase = NoTask | Created | Running bool | Leaving | Ended

record invocation =
  iv_block :: tool_call
  iv_assistant :: assistant_message
  iv_parallel :: bool
  iv_interruptible :: bool
  iv_status :: tool_status
  iv_progress :: "progress_update list"
  iv_results :: "result_message list"
  iv_stop :: bool
  iv_phase :: run_phase

text \<open>\<open>ex_stopped\<close>: one of the external stop events is set.\<close>

record executor =
  ex_definitions :: "string \<rightharpoonup> tool_definition"
  ex_entries :: "invocation list"
  ex_changed :: bool
  ex_discarded :: bool
  ex_failure :: bool
  ex_failure_description :: string
  ex_stopped :: bool

definition new_executor :: "(string \<rightharpoonup> tool_definition) \<Rightarrow> executor" where
  "new_executor defs = \<lparr>ex_definitions = defs, ex_entries = [], ex_changed = False, ex_discarded = False,
     ex_failure = False, ex_failure_description = [], ex_stopped = False\<rparr>"

section \<open>Cancellation\<close>

datatype cancel_reason = SiblingError | UserInterrupted | StreamingFallback

fun cancel_value :: "cancel_reason \<Rightarrow> string" where
  "cancel_value SiblingError = ''sibling_error''"
| "cancel_value UserInterrupted = ''user_interrupted''"
| "cancel_value StreamingFallback = ''streaming_fallback''"

definition make_synthetic_error :: "string \<Rightarrow> cancel_reason \<Rightarrow> string option \<Rightarrow> string \<Rightarrow> result_message" where
  "make_synthetic_error i reason assistant description = \<lparr>rm_tool_use_id = i,
     rm_content = PyStr (synthetic_tool_result_content (cancel_value reason) description), rm_is_error = True,
     rm_summary = Some (synthetic_tool_use_result (cancel_value reason) description), rm_assistant = assistant\<rparr>"

definition stop_reason :: "executor \<Rightarrow> invocation \<Rightarrow> cancel_reason option" where
  "stop_reason s e = (if ex_discarded s then Some StreamingFallback
     else if iv_interruptible e then (if ex_failure s then Some SiblingError
       else if ex_stopped s then Some UserInterrupted else None)
     else None)"

definition cancel_result :: "executor \<Rightarrow> invocation \<Rightarrow> cancel_reason \<Rightarrow> result_message" where
  "cancel_result s e reason = make_synthetic_error (tu_id (iv_block e)) reason (Some (am_uuid (iv_assistant e)))
     (ex_failure_description s)"

text \<open>The horizontal ellipsis, not a character of the model, is written as its three UTF-8 bytes; nothing measures
  the text after it is added.\<close>

definition ELLIPSIS :: string where
  "ELLIPSIS = [CHR 0xE2, CHR 0x80, CHR 0xA6]"

definition describe_invocation :: "invocation \<Rightarrow> string" where
  "describe_invocation e = (let name = tu_name (iv_block e) in
     case tu_input (iv_block e) of
       PyDict d \<Rightarrow> (case filter (\<lambda>v. v \<noteq> []) (map (\<lambda>k. case py_get k d of PyStr v \<Rightarrow> v | _ \<Rightarrow> [])
           [''command'', ''file_path'', ''pattern'', ''url'']) of
           v # _ \<Rightarrow> name @ ''('' @ (if length v > 40 then take 40 v @ ELLIPSIS else v) @ '')''
         | [] \<Rightarrow> name)
     | _ \<Rightarrow> name)"

section \<open>Scheduling\<close>

definition executing :: "invocation \<Rightarrow> bool" where
  "executing e = (iv_status e = Executing)"

definition can_start :: "invocation list \<Rightarrow> invocation \<Rightarrow> bool" where
  "can_start active e = (active = [] \<or> (iv_parallel e \<and> list_all iv_parallel active))"

text \<open>The loop stops at the first queued entry that cannot start.\<close>

fun schedule_loop :: "invocation list \<Rightarrow> invocation list \<Rightarrow> invocation list" where
  "schedule_loop active [] = []"
| "schedule_loop active (e # es) =
     (if iv_status e \<noteq> Queued then e # schedule_loop active es
      else if can_start active e
        then e\<lparr>iv_status := Executing, iv_phase := Created\<rparr> # schedule_loop (active @ [e]) es
      else e # es)"

definition schedule :: "executor \<Rightarrow> executor" where
  "schedule s = (if ex_discarded s then s
     else s\<lparr>ex_entries := schedule_loop (filter executing (ex_entries s)) (ex_entries s)\<rparr>)"

definition notify :: "executor \<Rightarrow> executor" where
  "notify s = s\<lparr>ex_changed := True\<rparr>"

section \<open>Submitting and discarding\<close>

definition unknown_tool_result :: "tool_call \<Rightarrow> assistant_message \<Rightarrow> result_message" where
  "unknown_tool_result b a = (let message = ''Error: No such tool available: '' @ tu_name b in
     \<lparr>rm_tool_use_id = tu_id b, rm_content = PyStr (''<tool_use_error>'' @ message @ ''</tool_use_error>''),
      rm_is_error = True, rm_summary = Some message, rm_assistant = Some (am_uuid a)\<rparr>)"

definition new_invocation :: "executor \<Rightarrow> tool_call \<Rightarrow> assistant_message \<Rightarrow> invocation" where
  "new_invocation s b a = (case ex_definitions s (tu_name b) of
      None \<Rightarrow> \<lparr>iv_block = b, iv_assistant = a, iv_parallel = True, iv_interruptible = False, iv_status = Completed,
        iv_progress = [], iv_results = [unknown_tool_result b a], iv_stop = False, iv_phase = Ended\<rparr>
    | Some d \<Rightarrow> \<lparr>iv_block = b, iv_assistant = a, iv_parallel = (td_concurrency_safe d (tu_input b) = Some True),
        iv_interruptible = (td_interrupt d = Some ''cancel''), iv_status = Queued,
        iv_progress = [], iv_results = [], iv_stop = False, iv_phase = NoTask\<rparr>)"

definition add_tool :: "tool_call \<Rightarrow> assistant_message \<Rightarrow> executor \<Rightarrow> executor" where
  "add_tool b a s = (if ex_discarded s then s
     else notify (schedule (s\<lparr>ex_entries := ex_entries s @ [new_invocation s b a]\<rparr>)))"

definition discard :: "executor \<Rightarrow> executor" where
  "discard s = (if ex_discarded s then s
     else notify (s\<lparr>ex_discarded := True, ex_entries := map (\<lambda>e. e\<lparr>iv_stop := True\<rparr>) (ex_entries s)\<rparr>))"

section \<open>The coroutine of an invocation\<close>

definition update_entry :: "nat \<Rightarrow> (invocation \<Rightarrow> invocation) \<Rightarrow> executor \<Rightarrow> executor" where
  "update_entry i f s = s\<lparr>ex_entries := (ex_entries s)[i := f (ex_entries s ! i)]\<rparr>"

definition add_result :: "result_message \<Rightarrow> invocation \<Rightarrow> invocation" where
  "add_result m e = e\<lparr>iv_results := iv_results e @ [m]\<rparr>"

definition enter_phase :: "run_phase \<Rightarrow> invocation \<Rightarrow> invocation" where
  "enter_phase p e = e\<lparr>iv_phase := p\<rparr>"

text \<open>The end of the \<open>finally\<close> part\<close>

definition complete :: "nat \<Rightarrow> executor \<Rightarrow> executor" where
  "complete i s = notify (schedule (update_entry i (\<lambda>e. e\<lparr>iv_status := Completed, iv_phase := Ended\<rparr>) s))"

text \<open>The first step: a call that is cancelled already does not run.\<close>

definition begin_run :: "nat \<Rightarrow> executor \<Rightarrow> executor" where
  "begin_run i s = (let e = ex_entries s ! i in case stop_reason s e of
      Some r \<Rightarrow> complete i (update_entry i (add_result (cancel_result s e r)) s)
    | None \<Rightarrow> update_entry i (enter_phase (Running False)) s)"

text \<open>One output of the runner, in the loop with \<open>own_error\<close>.\<close>

definition take_output :: "nat \<Rightarrow> bool \<Rightarrow> runner_output \<Rightarrow> executor \<Rightarrow> executor" where
  "take_output i own_error out s = (let e = ex_entries s ! i in
     case (if own_error then None else stop_reason s e) of
       Some r \<Rightarrow> update_entry i (enter_phase Leaving \<circ> add_result (cancel_result s e r)) s
     | None \<Rightarrow> (case out of
         Yields (Progress p) \<Rightarrow> notify (update_entry i (\<lambda>e. e\<lparr>iv_progress := iv_progress e @ [p]\<rparr>) s)
       | Yields (Result m) \<Rightarrow> (let s1 = update_entry i (add_result m) s in
           if rm_is_error m
           then (let s2 = update_entry i (enter_phase (Running True)) s1 in
             if iv_interruptible e then s2\<lparr>ex_failure := True, ex_failure_description := describe_invocation e\<rparr> else s2)
           else s1)
       | Invalid \<Rightarrow> s))"

text \<open>The runner is exhausted.\<close>

definition end_of_outputs :: "nat \<Rightarrow> executor \<Rightarrow> executor" where
  "end_of_outputs i s = (let e = ex_entries s ! i in
     update_entry i (enter_phase Leaving \<circ> (case (if iv_results e = [] then stop_reason s e else None) of
         Some r \<Rightarrow> add_result (cancel_result s e r) | None \<Rightarrow> (\<lambda>e. e))) s)"

definition error_result :: "invocation \<Rightarrow> string \<Rightarrow> result_message" where
  "error_result e message = \<lparr>rm_tool_use_id = tu_id (iv_block e),
     rm_content = PyStr (''<tool_use_error>'' @ message @ ''</tool_use_error>''), rm_is_error = True,
     rm_summary = Some message, rm_assistant = Some (am_uuid (iv_assistant e))\<rparr>"

definition run_raises :: "nat \<Rightarrow> string \<Rightarrow> executor \<Rightarrow> executor" where
  "run_raises i message s = (let e = ex_entries s ! i in
     update_entry i (enter_phase Leaving \<circ> (if iv_results e = [] then add_result (error_result e message) else (\<lambda>e. e))) s)"

text \<open>The task is cancelled: in its loop, where the runner may have raised the error itself, or before it has begun, when no part of the coroutine runs at all, or at
  the await of the \<open>finally\<close> part, when what follows it does not run.\<close>

definition run_cancelled :: "nat \<Rightarrow> executor \<Rightarrow> executor" where
  "run_cancelled i s = (let e = ex_entries s ! i;
     r = (case stop_reason s e of Some r \<Rightarrow> r | None \<Rightarrow> UserInterrupted) in
     if iv_phase e = Created \<or> iv_phase e = Leaving then update_entry i (enter_phase Ended) s
     else update_entry i (enter_phase Leaving \<circ> (if iv_results e = [] then add_result (cancel_result s e r) else (\<lambda>e. e))) s)"

text \<open>\<open>_relay_stop\<close>\<close>

definition relay_stop :: "nat \<Rightarrow> executor \<Rightarrow> executor" where
  "relay_stop i s = (let e = ex_entries s ! i in
     if ex_discarded s \<or> (iv_interruptible e \<and> (ex_failure s \<or> ex_stopped s))
     then update_entry i (\<lambda>e. e\<lparr>iv_stop := True\<rparr>) s else s)"

section \<open>Collecting\<close>

text \<open>The loop of \<open>get_completed_results\<close>: the outputs and the entries after it.\<close>

fun collect_loop :: "invocation list \<Rightarrow> tool_output list \<times> invocation list" where
  "collect_loop [] = ([], [])"
| "collect_loop (e # es) = (let outs = map Progress (iv_progress e); e1 = e\<lparr>iv_progress := []\<rparr> in
     if iv_status e = Completed
     then (outs @ map Result (iv_results e) @ fst (collect_loop es), e1\<lparr>iv_status := Yielded\<rparr> # snd (collect_loop es))
     else if iv_status e = Executing \<and> \<not> iv_parallel e then (outs, e1 # es)
     else (outs @ fst (collect_loop es), e1 # snd (collect_loop es)))"

definition get_completed_results :: "executor \<Rightarrow> tool_output list \<times> executor" where
  "get_completed_results s = (if ex_discarded s then ([], s)
     else (fst (collect_loop (ex_entries s)), s\<lparr>ex_entries := snd (collect_loop (ex_entries s))\<rparr>))"

definition pending_tool_use_ids :: "executor \<Rightarrow> string list" where
  "pending_tool_use_ids s = map (\<lambda>e. tu_id (iv_block e)) (filter (\<lambda>e. iv_status e \<noteq> Yielded) (ex_entries s))"

section \<open>The consumer\<close>

text \<open>Where the generator \<open>get_remaining_results\<close> stands: not asked yet, handing over a batch, waiting for a change,
  finished.\<close>

datatype consumer = Idle | Delivering "tool_output list" | Waiting | Finished

text \<open>\<open>xr_handed\<close> records every batch that was collected, \<open>xr_delivered\<close> what the consumer passed on.\<close>

record exec_run =
  xr_executor :: executor
  xr_consumer :: consumer
  xr_handed :: "tool_output list"
  xr_delivered :: "tool_output list"

definition new_run :: "(string \<rightharpoonup> tool_definition) \<Rightarrow> exec_run" where
  "new_run defs = \<lparr>xr_executor = new_executor defs, xr_consumer = Idle, xr_handed = [], xr_delivered = []\<rparr>"

text \<open>One turn of the loop of the generator\<close>

definition consumer_turn :: "exec_run \<Rightarrow> exec_run" where
  "consumer_turn x = (let s = xr_executor x in
     if ex_discarded s then x\<lparr>xr_consumer := Finished\<rparr>
     else (let (batch, s1) = get_completed_results (schedule (s\<lparr>ex_changed := False\<rparr>)) in
       x\<lparr>xr_executor := s1, xr_consumer := Delivering batch, xr_handed := xr_handed x @ batch\<rparr>))"

text \<open>The generator goes on after a batch or an output of it.\<close>

definition consumer_next :: "tool_output list \<Rightarrow> exec_run \<Rightarrow> exec_run" where
  "consumer_next batch x = (case batch of
      [] \<Rightarrow> x\<lparr>xr_consumer := (if list_all (\<lambda>e. iv_status e = Yielded) (ex_entries (xr_executor x)) then Finished else Waiting)\<rparr>
    | out # rest \<Rightarrow> if ex_discarded (xr_executor x) then x\<lparr>xr_consumer := Finished\<rparr>
        else x\<lparr>xr_consumer := Delivering rest, xr_delivered := xr_delivered x @ [out]\<rparr>)"

section \<open>Steps\<close>

datatype exec_action =
  AddTool tool_call assistant_message
| BeginRun nat
| TakeOutput nat runner_output
| EndOfOutputs nat
| RunRaises nat string
| RunCancelled nat
| Complete nat
| RelayStop nat
| Interrupt
| Discard
| Schedule
| Collect
| Consume

definition entry_phase :: "nat \<Rightarrow> executor \<Rightarrow> run_phase option" where
  "entry_phase i s = (if i < length (ex_entries s) then Some (iv_phase (ex_entries s ! i)) else None)"

text \<open>Only \<open>discard\<close> cancels a task; but a runner may raise the error of a cancellation itself.\<close>

definition may_be_cancelled :: "bool \<Rightarrow> run_phase \<Rightarrow> bool" where
  "may_be_cancelled discarded p = (case p of NoTask \<Rightarrow> False | Ended \<Rightarrow> False | Running own_error \<Rightarrow> True | _ \<Rightarrow> discarded)"

text \<open>A step where it is enabled\<close>

fun perform :: "exec_action \<Rightarrow> exec_run \<Rightarrow> exec_run option" where
  "perform (AddTool b a) x = Some (x\<lparr>xr_executor := add_tool b a (xr_executor x)\<rparr>)"
| "perform (BeginRun i) x = (if entry_phase i (xr_executor x) = Some Created
     then Some (x\<lparr>xr_executor := begin_run i (xr_executor x)\<rparr>) else None)"
| "perform (TakeOutput i out) x = (case entry_phase i (xr_executor x) of
     Some (Running own_error) \<Rightarrow> Some (x\<lparr>xr_executor := take_output i own_error out (xr_executor x)\<rparr>) | _ \<Rightarrow> None)"
| "perform (EndOfOutputs i) x = (case entry_phase i (xr_executor x) of
     Some (Running _) \<Rightarrow> Some (x\<lparr>xr_executor := end_of_outputs i (xr_executor x)\<rparr>) | _ \<Rightarrow> None)"
| "perform (RunRaises i message) x = (case entry_phase i (xr_executor x) of
     Some (Running _) \<Rightarrow> Some (x\<lparr>xr_executor := run_raises i message (xr_executor x)\<rparr>) | _ \<Rightarrow> None)"
| "perform (RunCancelled i) x = (case entry_phase i (xr_executor x) of
     Some p \<Rightarrow> if may_be_cancelled (ex_discarded (xr_executor x)) p
       then Some (x\<lparr>xr_executor := run_cancelled i (xr_executor x)\<rparr>) else None
   | None \<Rightarrow> None)"
| "perform (Complete i) x = (if entry_phase i (xr_executor x) = Some Leaving
     then Some (x\<lparr>xr_executor := complete i (xr_executor x)\<rparr>) else None)"
| "perform (RelayStop i) x = (case entry_phase i (xr_executor x) of
     Some (Running _) \<Rightarrow> Some (x\<lparr>xr_executor := relay_stop i (xr_executor x)\<rparr>) | _ \<Rightarrow> None)"
| "perform Interrupt x = Some (x\<lparr>xr_executor := (xr_executor x)\<lparr>ex_stopped := True\<rparr>\<rparr>)"
| "perform Discard x = Some (x\<lparr>xr_executor := discard (xr_executor x)\<rparr>)"
| "perform Schedule x = Some (x\<lparr>xr_executor := schedule (xr_executor x)\<rparr>)"
| "perform Collect x = (let (batch, s) = get_completed_results (xr_executor x) in
     Some (x\<lparr>xr_executor := s, xr_handed := xr_handed x @ batch\<rparr>))"
| "perform Consume x = (case xr_consumer x of
     Idle \<Rightarrow> Some (consumer_turn x)
   | Delivering batch \<Rightarrow> Some (consumer_next batch x)
   | Waiting \<Rightarrow> if ex_changed (xr_executor x) then Some (consumer_turn x) else None
   | Finished \<Rightarrow> None)"

definition exec_step :: "exec_run \<Rightarrow> exec_run \<Rightarrow> bool" where
  "exec_step x y = (\<exists>act. perform act x = Some y)"

definition reachable_run :: "(string \<rightharpoonup> tool_definition) \<Rightarrow> exec_run \<Rightarrow> bool" where
  "reachable_run defs x = exec_step\<^sup>*\<^sup>* (new_run defs) x"

fun run_actions :: "exec_action list \<Rightarrow> exec_run \<Rightarrow> exec_run option" where
  "run_actions [] x = Some x"
| "run_actions (a # as) x = (case perform a x of None \<Rightarrow> None | Some y \<Rightarrow> run_actions as y)"

section \<open>Failed attempts\<close>

text \<open>\<open>tombstone_partial_assistant_messages\<close>: the assistant messages without pending calls, and the number dropped.\<close>

fun pending_block :: "string set \<Rightarrow> pyval \<Rightarrow> bool" where
  "pending_block ids (PyDict b) = (py_get ''type'' b = PyStr ''tool_use'' \<and> str_or_empty (py_get ''id'' b) \<in> ids)"
| "pending_block ids _ = False"

definition keeps_message :: "string set \<Rightarrow> pydict \<Rightarrow> bool" where
  "keeps_message ids m = (case py_get ''content'' m of
      PyList blocks \<Rightarrow> py_get ''role'' m = PyStr ''assistant'' \<longrightarrow> \<not> list_ex (pending_block ids) blocks
    | _ \<Rightarrow> True)"

definition tombstone_partial_assistant_messages :: "string set \<Rightarrow> pydict list \<Rightarrow> pydict list \<times> nat" where
  "tombstone_partial_assistant_messages ids ms = (if ids = {} then (ms, 0)
     else (let kept = filter (keeps_message ids) ms in (kept, length ms - length kept)))"

end
