(* ===== verification/Streaming_Properties.thy ===== *)
theory Streaming_Properties
  imports Streaming_Executor
begin

text \<open>
  The invariant of the scheduler of streamed tool calls over every interleaving of its tasks, and what it
  gives: serial calls are barriers, a waiting consumer is woken, each result is handed over once, and nothing
  is handed over after a discard.
\<close>

section \<open>Who may run together\<close>

definition run_together :: "invocation \<Rightarrow> invocation \<Rightarrow> bool" where
  "run_together e f = (iv_status f = Executing \<longrightarrow> iv_status e \<noteq> Queued \<and>
     (iv_status e = Executing \<longrightarrow> iv_parallel e \<and> iv_parallel f))"

text \<open>Changes of an entry that leave the order alone: it stays what it is, or it ends.\<close>

definition calm :: "invocation \<Rightarrow> invocation \<Rightarrow> bool" where
  "calm e e' = (iv_parallel e' = iv_parallel e \<and> (iv_status e' = iv_status e \<or> iv_status e' \<in> {Completed, Yielded}))"

lemma calm_refl [simp]: "calm e e"
  by (simp add: calm_def)

lemma calm_together: "calm e e' \<Longrightarrow> calm f f' \<Longrightarrow> run_together e f \<Longrightarrow> run_together e' f'"
  by (auto simp: calm_def run_together_def)

lemma calm_sorted:
  assumes "list_all2 calm es es'" "sorted_wrt run_together es"
  shows "sorted_wrt run_together es'"
  unfolding sorted_wrt_iff_nth_less
proof (intro allI impI)
  fix i j assume *: "i < j" "j < length es'"
  with assms(1) have "calm (es ! i) (es' ! i)" "calm (es ! j) (es' ! j)" "j < length es"
    by (simp_all add: list_all2_conv_all_nth)
  moreover from this * assms(2) have "run_together (es ! i) (es ! j)" by (simp add: sorted_wrt_iff_nth_less)
  ultimately show "run_together (es' ! i) (es' ! j)" by (blast intro: calm_together)
qed

lemma calm_update: "i < length es \<Longrightarrow> calm (es ! i) e' \<Longrightarrow> list_all2 calm es (es[i := e'])"
  by (simp add: list_all2_conv_all_nth nth_list_update)

text \<open>An entry as the schedule leaves it: as it was, or started beside the active ones.\<close>

definition started :: "invocation \<Rightarrow> invocation" where
  "started e = e\<lparr>iv_status := Executing, iv_phase := Created\<rparr>"

lemma started_simps [simp]: "iv_status (started e) = Executing" "iv_phase (started e) = Created"
  "iv_parallel (started e) = iv_parallel e" "iv_progress (started e) = iv_progress e" "iv_results (started e) = iv_results e"
  "iv_block (started e) = iv_block e"
  by (simp_all add: started_def)

definition scheduled :: "invocation list \<Rightarrow> invocation \<Rightarrow> invocation \<Rightarrow> bool" where
  "scheduled active e e' = (e' = e \<or> (iv_status e = Queued \<and> e' = started e \<and> (\<forall>a \<in> set active. iv_parallel a \<and> iv_parallel e)))"

lemma scheduled_mono: "scheduled (active @ [f]) e e' \<Longrightarrow> scheduled active e e'"
  by (auto simp: scheduled_def)

lemma schedule_loop_scheduled: "list_all2 (scheduled active) es (schedule_loop active es)"
proof (induction es arbitrary: active)
  case (Cons e es)
  have same: "list_all2 (scheduled active) es es"
    by (simp add: list_all2_same scheduled_def)
  have *: "list_all2 (scheduled active) es (schedule_loop (active @ [e]) es)"
    using Cons.IH[of "active @ [e]"] by (rule list_all2_mono) (rule scheduled_mono)
  have "can_start active e \<Longrightarrow> iv_status e = Queued \<Longrightarrow> scheduled active e (started e)"
    by (auto simp: scheduled_def can_start_def list_all_iff)
  then show ?case
    using Cons.IH[of active] * same by (simp add: scheduled_def[of active e e] flip: started_def)
qed simp

lemma schedule_loop_elem: "f' \<in> set (schedule_loop active es) \<Longrightarrow> \<exists>f \<in> set es. scheduled active f f'"
  using schedule_loop_scheduled[of active es] unfolding list_all2_conv_all_nth by (metis in_set_conv_nth)

lemma schedule_loop_sorted:
  "sorted_wrt run_together es \<Longrightarrow> filter executing es = [] \<or> set (filter executing es) \<subseteq> set active \<Longrightarrow>
   sorted_wrt run_together (schedule_loop active es)"
proof (induction es arbitrary: active)
  case (Cons e es)
  let ?ok = "\<lambda>active. filter executing es = [] \<or> set (filter executing es) \<subseteq> set active"
  have later: "\<forall>f \<in> set es. run_together e f" and sorted: "sorted_wrt run_together es"
    using Cons.prems(1) by simp_all
  have ok: "?ok active" "?ok (active @ [e])" using Cons.prems(2) by (auto split: if_splits)
  consider (skip) "iv_status e \<noteq> Queued" | (start) "iv_status e = Queued" "can_start active e"
    | (stop) "iv_status e = Queued" "\<not> can_start active e" by blast
  then show ?case
  proof cases
    case skip
    have "run_together e f'" if f': "f' \<in> set (schedule_loop active es)" for f'
    proof -
      obtain f where f: "f \<in> set es" "scheduled active f f'" using schedule_loop_elem[OF f'] by blast
      have "executing e \<Longrightarrow> e \<in> set active" using Cons.prems(2) by simp
      then show ?thesis using f later skip by (auto simp: scheduled_def run_together_def executing_def)
    qed
    then show ?thesis using skip Cons.IH[OF sorted ok(1)] by simp
  next
    case start
    have "run_together (started e) f'" if f': "f' \<in> set (schedule_loop (active @ [e]) es)" for f'
    proof -
      obtain f where f: "f \<in> set es" "scheduled (active @ [e]) f f'" using schedule_loop_elem[OF f'] by blast
      have "iv_status f \<noteq> Executing" using later f(1) start(1) by (auto simp: run_together_def)
      then show ?thesis using f(2) by (auto simp: scheduled_def run_together_def)
    qed
    then show ?thesis using start Cons.IH[OF sorted ok(2)] by (simp add: started_def)
  next
    case stop
    then show ?thesis using Cons.prems by simp
  qed
qed simp

text \<open>After the schedule, a queued entry means a running one.\<close>

lemma schedule_loop_busy:
  "\<exists>e \<in> set (schedule_loop active es). iv_status e = Queued \<Longrightarrow>
   active \<noteq> [] \<or> (\<exists>e \<in> set (schedule_loop active es). iv_status e = Executing)"
  by (induction active es rule: schedule_loop.induct) (auto simp: can_start_def split: if_splits)

lemma schedule_loop_keeps_executing: "e \<in> set es \<Longrightarrow> iv_status e = Executing \<Longrightarrow> e \<in> set (schedule_loop active es)"
  by (induction active es rule: schedule_loop.induct) auto

section \<open>Entries\<close>

definition entry_ok :: "bool \<Rightarrow> invocation \<Rightarrow> bool" where
  "entry_ok discarded e = (case iv_status e of
      Queued \<Rightarrow> iv_phase e = NoTask \<and> iv_progress e = [] \<and> iv_results e = []
    | Executing \<Rightarrow> iv_phase e \<noteq> NoTask \<and> (iv_phase e = Ended \<longrightarrow> discarded)
    | _ \<Rightarrow> iv_phase e = Ended)"

definition entries_ok :: "bool \<Rightarrow> invocation list \<Rightarrow> bool" where
  "entries_ok discarded es = (sorted_wrt run_together es \<and> (\<forall>e \<in> set es. entry_ok discarded e))"

definition busy :: "invocation list \<Rightarrow> bool" where
  "busy es = ((\<exists>e \<in> set es. iv_status e = Queued) \<longrightarrow> (\<exists>e \<in> set es. iv_status e = Executing))"

lemma schedule_loop_ok:
  assumes "entries_ok d es"
  shows "entries_ok d (schedule_loop (filter executing es) es)"
proof -
  have "entry_ok d e'" if e': "e' \<in> set (schedule_loop (filter executing es) es)" for e'
    using schedule_loop_elem[OF e'] assms by (auto simp: entries_ok_def scheduled_def entry_ok_def)
  then show ?thesis using assms schedule_loop_sorted[of es "filter executing es"] by (simp add: entries_ok_def)
qed

lemma schedule_loop_makes_busy: "busy (schedule_loop (filter executing es) es)"
  unfolding busy_def
proof
  assume "\<exists>e \<in> set (schedule_loop (filter executing es) es). iv_status e = Queued"
  from schedule_loop_busy[OF this] show "\<exists>e \<in> set (schedule_loop (filter executing es) es). iv_status e = Executing"
  proof
    assume "filter executing es \<noteq> []"
    then obtain e where "e \<in> set es" "executing e" by (auto simp: filter_empty_conv)
    then show ?thesis using schedule_loop_keeps_executing by (auto simp: executing_def)
  qed simp
qed

text \<open>A working entry that goes on working\<close>

definition works_on :: "bool \<Rightarrow> invocation \<Rightarrow> invocation \<Rightarrow> bool" where
  "works_on d e e' = (iv_status e = Executing \<and> iv_status e' = Executing \<and> iv_parallel e' = iv_parallel e \<and>
     iv_phase e' \<noteq> NoTask \<and> (iv_phase e' = Ended \<longrightarrow> d))"

lemma works_on_ok:
  assumes "entries_ok d es" "i < length es" "works_on d (es ! i) e'"
  shows "entries_ok d (es[i := e'])"
proof -
  have "sorted_wrt run_together (es[i := e'])"
    using assms by (intro calm_sorted[OF calm_update]) (auto simp: entries_ok_def calm_def works_on_def)
  moreover have "entry_ok d e'" using assms(3) by (simp add: works_on_def entry_ok_def)
  ultimately show ?thesis
    using assms(1) set_update_subset_insert[of es i e'] by (auto simp: entries_ok_def)
qed

lemma works_on_busy: "i < length es \<Longrightarrow> works_on d (es ! i) e' \<Longrightarrow> busy (es[i := e'])"
  unfolding busy_def works_on_def by (metis set_update_memI)

lemma completed_ok:
  assumes "entries_ok d es" "i < length es" "iv_status e' = Completed" "iv_phase e' = Ended" "iv_parallel e' = iv_parallel (es ! i)"
  shows "entries_ok d (es[i := e'])"
proof -
  have "sorted_wrt run_together (es[i := e'])"
    using assms by (intro calm_sorted[OF calm_update]) (auto simp: entries_ok_def calm_def)
  moreover have "entry_ok d e'" using assms by (simp add: entry_ok_def)
  ultimately show ?thesis
    using assms(1) set_update_subset_insert[of es i e'] by (auto simp: entries_ok_def)
qed

lemma append_ok:
  assumes "entries_ok d es" "iv_status e \<noteq> Executing" "entry_ok d e"
  shows "entries_ok d (es @ [e])"
  using assms by (auto simp: entries_ok_def sorted_wrt_append run_together_def)

section \<open>Collecting\<close>

definition results_of :: "tool_output list \<Rightarrow> result_message list" where
  "results_of outs = concat (map (\<lambda>out. case out of Result m \<Rightarrow> [m] | _ \<Rightarrow> []) outs)"

lemma results_of_simps [simp]: "results_of [] = []" "results_of (xs @ ys) = results_of xs @ results_of ys"
  "results_of (map Progress ps) = []" "results_of (map Result ms) = ms"
  by (simp_all add: results_of_def comp_def)

definition yielded_results :: "invocation list \<Rightarrow> result_message list" where
  "yielded_results es = concat (map iv_results (filter (\<lambda>e. iv_status e = Yielded) es))"

lemma yielded_results_append [simp]: "yielded_results (es @ fs) = yielded_results es @ yielded_results fs"
  by (simp add: yielded_results_def)

lemma yielded_results_update: "i < length es \<Longrightarrow> iv_status (es ! i) \<noteq> Yielded \<Longrightarrow> iv_status e' \<noteq> Yielded \<Longrightarrow>
  yielded_results (es[i := e']) = yielded_results es"
  by (simp add: upd_conv_take_nth_drop yielded_results_def) (subst (3) id_take_nth_drop[of i es], simp_all)

lemma schedule_yielded: "yielded_results (schedule_loop active es) = yielded_results es"
  by (induction active es rule: schedule_loop.induct) (auto simp: yielded_results_def)

lemma collect_yielded: "mset (yielded_results (snd (collect_loop es))) = mset (results_of (fst (collect_loop es))) + mset (yielded_results es)"
  by (induction es) (auto simp: yielded_results_def Let_def)

text \<open>Nothing to collect\<close>

fun quiet :: "invocation list \<Rightarrow> bool" where
  "quiet [] = True"
| "quiet (e # es) = (iv_progress e = [] \<and> iv_status e \<noteq> Completed \<and> ((iv_status e = Executing \<and> \<not> iv_parallel e) \<or> quiet es))"

lemma collect_quiet: "quiet (snd (collect_loop es))"
  by (induction es) (auto simp: Let_def)

lemma quiet_collect: "quiet es \<Longrightarrow> fst (collect_loop es) = [] \<and> snd (collect_loop es) = es"
  by (induction es) (auto simp: Let_def)

lemma quiet_schedule: "quiet es \<Longrightarrow> quiet (schedule_loop active es)"
  by (induction active es rule: schedule_loop.induct) auto

lemma quiet_update: "quiet es \<Longrightarrow> i < length es \<Longrightarrow> iv_progress e' = iv_progress (es ! i) \<Longrightarrow> iv_status e' = iv_status (es ! i) \<Longrightarrow>
  iv_parallel e' = iv_parallel (es ! i) \<Longrightarrow> quiet (es[i := e'])"
proof (induction es arbitrary: i)
  case (Cons e es)
  then show ?case by (cases i) auto
qed simp

lemma quiet_idle: "quiet es \<Longrightarrow> \<forall>e \<in> set es. iv_status e \<noteq> Executing \<Longrightarrow> e \<in> set es \<Longrightarrow> iv_status e \<in> {Queued, Yielded}"
  by (induction es) (auto, metis tool_status.exhaust)

lemma collect_calm: "list_all2 calm es (snd (collect_loop es))"
  by (induction es) (auto simp: calm_def Let_def list_all2_same)

lemma collect_ok:
  assumes "entries_ok d es"
  shows "entries_ok d (snd (collect_loop es))"
proof -
  have "entry_ok d e'" if "\<forall>e \<in> set es. entry_ok d e" "e' \<in> set (snd (collect_loop es))" for e'
    using that by (induction es) (auto simp: entry_ok_def Let_def split: if_splits tool_status.splits)
  then show ?thesis using assms calm_sorted[OF collect_calm, of es] by (simp add: entries_ok_def)
qed

lemma collect_status: "\<exists>e \<in> set (snd (collect_loop es)). iv_status e = v \<Longrightarrow> v \<in> {Queued, Executing} \<Longrightarrow> \<exists>e \<in> set es. iv_status e = v"
  by (induction es) (auto simp: Let_def split: if_splits)

lemma collect_status': "\<exists>e \<in> set es. iv_status e = Executing \<Longrightarrow> \<exists>e \<in> set (snd (collect_loop es)). iv_status e = Executing"
  by (induction es) (auto simp: Let_def split: if_splits)

lemma collect_busy: "busy es \<Longrightarrow> busy (snd (collect_loop es))"
  unfolding busy_def using collect_status[of es Queued] collect_status'[of es] by blast

section \<open>The invariant\<close>

definition waking :: "exec_run \<Rightarrow> bool" where
  "waking x = (let s = xr_executor x in \<not> ex_changed s \<longrightarrow>
     (case xr_consumer x of Delivering _ \<Rightarrow> quiet (ex_entries s)
      | Waiting \<Rightarrow> quiet (ex_entries s) \<and> (\<exists>e \<in> set (ex_entries s). iv_status e \<noteq> Yielded)
      | _ \<Rightarrow> True))"

definition executor_ok :: "executor \<Rightarrow> bool" where
  "executor_ok s = (entries_ok (ex_discarded s) (ex_entries s) \<and> (ex_discarded s \<longrightarrow> ex_changed s) \<and>
     (\<not> ex_discarded s \<longrightarrow> busy (ex_entries s)))"

definition run_ok :: "exec_run \<Rightarrow> bool" where
  "run_ok x = (executor_ok (xr_executor x) \<and> waking x \<and>
     mset (results_of (xr_handed x)) = mset (yielded_results (ex_entries (xr_executor x))))"

text \<open>A step of the executor: it keeps its own invariant and what was yielded, and either tells the consumer or leaves
  it nothing new.\<close>

definition executor_step :: "executor \<Rightarrow> executor \<Rightarrow> bool" where
  "executor_step s s' = (executor_ok s' \<and> yielded_results (ex_entries s') = yielded_results (ex_entries s) \<and>
     (\<not> ex_changed s' \<longrightarrow> \<not> ex_changed s \<and> (quiet (ex_entries s) \<longrightarrow> quiet (ex_entries s')) \<and>
        ((\<exists>e \<in> set (ex_entries s). iv_status e \<noteq> Yielded) \<longrightarrow> (\<exists>e \<in> set (ex_entries s'). iv_status e \<noteq> Yielded))))"

lemma executor_step_run:
  "run_ok x \<Longrightarrow> executor_step (xr_executor x) s \<Longrightarrow> run_ok (x\<lparr>xr_executor := s\<rparr>)"
  by (auto simp: run_ok_def executor_step_def waking_def Let_def split: consumer.splits)

lemma executor_step_trans: "executor_step s t \<Longrightarrow> executor_step t u \<Longrightarrow> executor_step s u"
  by (auto simp: executor_step_def)

lemma schedule_simps [simp]: "ex_discarded (schedule s) = ex_discarded s" "ex_changed (schedule s) = ex_changed s"
  "ex_failure (schedule s) = ex_failure s" "ex_stopped (schedule s) = ex_stopped s"
  by (simp_all add: schedule_def)

lemma notify_simps [simp]: "ex_discarded (notify s) = ex_discarded s" "ex_changed (notify s)"
  "ex_entries (notify s) = ex_entries s"
  by (simp_all add: notify_def)

lemma update_entry_simps [simp]: "ex_discarded (update_entry i f s) = ex_discarded s" "ex_changed (update_entry i f s) = ex_changed s"
  "ex_entries (update_entry i f s) = (ex_entries s)[i := f (ex_entries s ! i)]"
  by (simp_all add: update_entry_def)

lemma schedule_yielded_results [simp]: "yielded_results (ex_entries (schedule s)) = yielded_results (ex_entries s)"
  by (simp add: schedule_def schedule_yielded)

lemma schedule_entries_ok: "entries_ok d (ex_entries s) \<Longrightarrow> entries_ok d (ex_entries (schedule s))"
  by (simp add: schedule_def schedule_loop_ok)

lemma schedule_busy: "\<not> ex_discarded s \<Longrightarrow> busy (ex_entries (schedule s))"
  by (simp add: schedule_def schedule_loop_makes_busy)

lemma schedule_status: "e \<in> set es \<Longrightarrow> iv_status e \<noteq> Yielded \<Longrightarrow> \<exists>e \<in> set (schedule_loop active es). iv_status e \<noteq> Yielded"
  by (induction active es rule: schedule_loop.induct) auto

lemma schedule_step: "executor_ok s \<Longrightarrow> executor_step s (schedule s)"
  using schedule_entries_ok[of "ex_discarded s" s] schedule_busy[of s]
  by (auto simp: executor_step_def executor_ok_def quiet_schedule schedule_yielded schedule_def intro: schedule_status)

text \<open>A working entry goes on, or tells of its progress, with the flags a result may set.\<close>

lemma working_step:
  assumes ok: "executor_ok s" and i: "i < length (ex_entries s)" and w: "works_on (ex_discarded s) (ex_entries s ! i) e'"
    and s': "ex_entries s' = (ex_entries s)[i := e']" "ex_discarded s' = ex_discarded s"
      "ex_changed s' \<longleftrightarrow> ex_changed s \<or> told" "told \<or> iv_progress e' = iv_progress (ex_entries s ! i)"
  shows "executor_step s s'"
proof -
  from ok have es: "entries_ok (ex_discarded s) (ex_entries s)" by (simp add: executor_ok_def)
  have "executor_ok s'"
    using ok s' works_on_ok[OF es i w] works_on_busy[OF i w] by (auto simp: executor_ok_def)
  moreover have "yielded_results (ex_entries s') = yielded_results (ex_entries s)"
    using w i by (simp add: s' yielded_results_update works_on_def)
  moreover have "quiet (ex_entries s')" if "\<not> ex_changed s'" "quiet (ex_entries s)"
    using quiet_update[OF that(2) i, of e'] that(1) w s' by (auto simp: works_on_def)
  moreover have "e' \<in> set (ex_entries s')" "iv_status e' \<noteq> Yielded"
    using i w by (auto simp: s' works_on_def intro: set_update_memI)
  ultimately show ?thesis using s'(3) by (auto simp: executor_step_def)
qed

lemma complete_step:
  assumes ok: "executor_ok s" and i: "i < length (ex_entries s)" and w: "iv_status (ex_entries s ! i) = Executing"
  shows "executor_step s (complete i s)"
proof -
  let ?s = "update_entry i (\<lambda>e. e\<lparr>iv_status := Completed, iv_phase := Ended\<rparr>) s"
  from ok have es: "entries_ok (ex_discarded s) (ex_entries s)" by (simp add: executor_ok_def)
  have "entries_ok (ex_discarded s) (ex_entries ?s)" using completed_ok[OF es i] by simp
  from schedule_entries_ok[OF this] schedule_busy[of ?s] have "executor_ok (complete i s)"
    by (auto simp: executor_ok_def complete_def)
  then show ?thesis using i w by (simp add: executor_step_def complete_def yielded_results_update)
qed

lemma entry_executing:
  assumes "executor_ok s" "entry_phase i s = Some p" "p \<noteq> NoTask" "p \<noteq> Ended"
  shows "i < length (ex_entries s)" "iv_status (ex_entries s ! i) = Executing" "iv_phase (ex_entries s ! i) = p"
proof -
  show i: "i < length (ex_entries s)" and p: "iv_phase (ex_entries s ! i) = p"
    using assms(2) by (auto simp: entry_phase_def split: if_splits)
  have "entry_ok (ex_discarded s) (ex_entries s ! i)" using assms(1) i by (simp add: executor_ok_def entries_ok_def)
  then show "iv_status (ex_entries s ! i) = Executing"
    using p assms(3,4) by (auto simp: entry_ok_def split: tool_status.splits)
qed

section \<open>Every step keeps the invariant\<close>

lemma add_result_simps [simp]: "iv_status (add_result m e) = iv_status e" "iv_phase (add_result m e) = iv_phase e"
  "iv_parallel (add_result m e) = iv_parallel e" "iv_progress (add_result m e) = iv_progress e"
  "iv_results (add_result m e) = iv_results e @ [m]"
  by (simp_all add: add_result_def)

lemma enter_phase_simps [simp]: "iv_status (enter_phase p e) = iv_status e" "iv_phase (enter_phase p e) = p"
  "iv_parallel (enter_phase p e) = iv_parallel e" "iv_progress (enter_phase p e) = iv_progress e"
  "iv_results (enter_phase p e) = iv_results e"
  by (simp_all add: enter_phase_def)

lemma update_step:
  assumes ok: "executor_ok s" and e: "entry_phase i s = Some p" "p \<noteq> NoTask" "p \<noteq> Ended"
    and f: "iv_status (f (ex_entries s ! i)) = Executing" "iv_parallel (f (ex_entries s ! i)) = iv_parallel (ex_entries s ! i)"
      "iv_phase (f (ex_entries s ! i)) \<noteq> NoTask" "iv_phase (f (ex_entries s ! i)) = Ended \<Longrightarrow> ex_discarded s"
      "iv_progress (f (ex_entries s ! i)) = iv_progress (ex_entries s ! i)"
  shows "executor_step s (update_entry i f s)"
  using entry_executing[OF ok e] f by (intro working_step[OF ok, of i "f (ex_entries s ! i)" _ False]) (auto simp: works_on_def)

lemma begin_run_step:
  assumes ok: "executor_ok s" and e: "entry_phase i s = Some Created"
  shows "executor_step s (begin_run i s)"
proof (cases "stop_reason s (ex_entries s ! i)")
  case None
  then show ?thesis using update_step[OF ok e, of "enter_phase (Running False)"] entry_executing[OF ok e]
    by (simp add: begin_run_def)
next
  case (Some r)
  let ?s = "update_entry i (add_result (cancel_result s (ex_entries s ! i) r)) s"
  note * = entry_executing[OF ok e]
  have "executor_step s ?s" using * by (intro update_step[OF ok e]) auto
  moreover from this have "executor_step ?s (complete i ?s)"
    using * by (intro complete_step) (auto simp: executor_step_def)
  ultimately show ?thesis using Some by (simp add: begin_run_def executor_step_trans)
qed

lemma take_output_step:
  assumes ok: "executor_ok s" and e: "entry_phase i s = Some (Running b)"
  shows "executor_step s (take_output i b out s)"
proof (cases "if b then None else stop_reason s (ex_entries s ! i)")
  case (Some r)
  then show ?thesis
    unfolding take_output_def using entry_executing[OF ok e] by (simp add: Let_def) (rule update_step[OF ok e]; simp)
next
  case None
  note * = entry_executing[OF ok e]
  show ?thesis
  proof (cases out)
    case Invalid
    then show ?thesis using None ok by (simp add: take_output_def executor_step_def)
  next
    case (Yields y)
    show ?thesis
    proof (cases y)
      case (Progress p)
      let ?f = "\<lambda>e. e\<lparr>iv_progress := iv_progress e @ [p]\<rparr>"
      have "executor_step s (notify (update_entry i ?f s))"
        using * by (intro working_step[OF ok, of i "?f (ex_entries s ! i)" _ True]) (simp_all add: works_on_def)
      then show ?thesis using None Yields Progress by (simp add: take_output_def)
    next
      case (Result m)
      have plain: "executor_step s (update_entry i (add_result m) s)"
        using * by (intro update_step[OF ok e]) auto
      have error: "executor_step s s'" if "ex_entries s' = (ex_entries s)[i := enter_phase (Running True) (add_result m (ex_entries s ! i))]"
        "ex_discarded s' = ex_discarded s" "ex_changed s' = ex_changed s" for s'
        using * that by (intro working_step[OF ok, of i "enter_phase (Running True) (add_result m (ex_entries s ! i))" _ False])
          (simp_all add: works_on_def)
      show ?thesis
      proof (cases "rm_is_error m")
        case True
        then show ?thesis using None Yields Result *
          by (auto simp: take_output_def Let_def intro!: error)
      next
        case False
        then show ?thesis using None Yields Result plain by (simp add: take_output_def)
      qed
    qed
  qed
qed

lemma end_of_outputs_step:
  "executor_ok s \<Longrightarrow> entry_phase i s = Some (Running b) \<Longrightarrow> executor_step s (end_of_outputs i s)"
  unfolding end_of_outputs_def Let_def
  by (rule update_step) (auto dest: entry_executing split: option.splits)

lemma run_raises_step:
  "executor_ok s \<Longrightarrow> entry_phase i s = Some (Running b) \<Longrightarrow> executor_step s (run_raises i message s)"
  unfolding run_raises_def Let_def by (rule update_step) (auto dest: entry_executing)

lemma run_cancelled_step:
  assumes "executor_ok s" "entry_phase i s = Some p" "may_be_cancelled (ex_discarded s) p"
  shows "executor_step s (run_cancelled i s)"
proof -
  have p: "p \<noteq> NoTask" "p \<noteq> Ended" using assms(3) by (auto simp: may_be_cancelled_def)
  show ?thesis
    using entry_executing[OF assms(1,2) p] assms(3) unfolding run_cancelled_def Let_def
    by (auto simp: may_be_cancelled_def intro!: update_step[OF assms(1,2) p])
qed

lemma relay_stop_step:
  assumes ok: "executor_ok s" and e: "entry_phase i s = Some (Running b)"
  shows "executor_step s (relay_stop i s)"
proof -
  have "executor_step s s" using ok by (simp add: executor_step_def)
  moreover have "executor_step s (update_entry i (\<lambda>e. e\<lparr>iv_stop := True\<rparr>) s)"
    using entry_executing[OF ok e] by (intro update_step[OF ok e]) auto
  ultimately show ?thesis by (simp add: relay_stop_def Let_def)
qed

lemma new_invocation_ok: "iv_status (new_invocation s b a) \<noteq> Executing" "iv_status (new_invocation s b a) \<noteq> Yielded"
  "entry_ok d (new_invocation s b a)"
  by (auto simp: new_invocation_def entry_ok_def split: option.splits)

lemma add_tool_step:
  assumes ok: "executor_ok s"
  shows "executor_step s (add_tool b a s)"
proof (cases "ex_discarded s")
  case True
  then show ?thesis using ok by (simp add: add_tool_def executor_step_def)
next
  case False
  let ?s = "s\<lparr>ex_entries := ex_entries s @ [new_invocation s b a]\<rparr>"
  have "entries_ok False (ex_entries ?s)"
    using ok False append_ok[of False "ex_entries s" "new_invocation s b a"] new_invocation_ok
    by (simp add: executor_ok_def)
  from schedule_entries_ok[OF this] schedule_busy[of ?s] False
  have "executor_ok (add_tool b a s)" by (simp add: add_tool_def executor_ok_def)
  moreover have "yielded_results [new_invocation s b a] = []"
    using new_invocation_ok(2)[of s b a] by (simp add: yielded_results_def)
  ultimately show ?thesis using False by (simp add: executor_step_def add_tool_def)
qed

lemma discard_step:
  assumes ok: "executor_ok s"
  shows "executor_step s (discard s)"
proof (cases "ex_discarded s")
  case True
  then show ?thesis using ok by (simp add: discard_def executor_step_def)
next
  case False
  let ?es = "map (\<lambda>e. e\<lparr>iv_stop := True\<rparr>) (ex_entries s)"
  have "list_all2 calm (ex_entries s) ?es" by (simp add: list_all2_conv_all_nth calm_def)
  from calm_sorted[OF this] ok have "sorted_wrt run_together ?es" by (simp add: executor_ok_def entries_ok_def)
  moreover have "\<forall>e \<in> set ?es. entry_ok True e"
    using ok False by (auto simp: executor_ok_def entries_ok_def entry_ok_def split: tool_status.splits)
  moreover have "yielded_results ?es = yielded_results (ex_entries s)"
    by (simp add: yielded_results_def filter_map comp_def)
  ultimately show ?thesis using False by (simp add: executor_step_def executor_ok_def discard_def entries_ok_def)
qed

lemma collect_run:
  assumes x: "run_ok x" and s: "get_completed_results (xr_executor x) = (batch, s)"
  shows "run_ok (x\<lparr>xr_executor := s, xr_handed := xr_handed x @ batch\<rparr>)"
proof (cases "ex_discarded (xr_executor x)")
  case True
  then have "s = xr_executor x" "batch = []" using s by (simp_all add: get_completed_results_def)
  then show ?thesis using x by simp
next
  case False
  let ?es = "ex_entries (xr_executor x)"
  have s: "s = (xr_executor x)\<lparr>ex_entries := snd (collect_loop ?es)\<rparr>" "batch = fst (collect_loop ?es)"
    using s False by (simp_all add: get_completed_results_def)
  have "executor_ok s"
    using x False by (simp add: s run_ok_def executor_ok_def collect_ok collect_busy)
  moreover have "waking (x\<lparr>xr_executor := s, xr_handed := xr_handed x @ batch\<rparr>)"
    using x quiet_collect[of ?es] by (auto simp: run_ok_def waking_def Let_def s collect_quiet split: consumer.splits)
  moreover have "mset (results_of (xr_handed x @ batch)) = mset (yielded_results (ex_entries s))"
    using x by (simp add: s run_ok_def collect_yielded)
  ultimately show ?thesis by (simp add: run_ok_def)
qed

lemma consumer_turn_run:
  assumes x: "run_ok x"
  shows "run_ok (consumer_turn x)"
proof (cases "ex_discarded (xr_executor x)")
  case True
  then show ?thesis using x by (simp add: consumer_turn_def run_ok_def waking_def)
next
  case False
  let ?s = "schedule ((xr_executor x)\<lparr>ex_changed := False\<rparr>)"
  have ok: "executor_ok ?s"
    using x False schedule_step[of "(xr_executor x)\<lparr>ex_changed := False\<rparr>"]
    by (simp add: run_ok_def executor_ok_def executor_step_def)
  let ?s' = "?s\<lparr>ex_entries := snd (collect_loop (ex_entries ?s))\<rparr>"
  have "executor_ok ?s'" using ok False by (simp add: executor_ok_def collect_ok collect_busy)
  moreover have "mset (results_of (xr_handed x @ fst (collect_loop (ex_entries ?s)))) = mset (yielded_results (ex_entries ?s'))"
    using x by (simp add: run_ok_def collect_yielded)
  ultimately show ?thesis
    using False by (simp add: consumer_turn_def Let_def get_completed_results_def run_ok_def waking_def collect_quiet)
qed

lemma consumer_next_run: "run_ok x \<Longrightarrow> xr_consumer x = Delivering batch \<Longrightarrow> run_ok (consumer_next batch x)"
  by (cases batch) (auto simp: consumer_next_def run_ok_def waking_def Let_def list_all_iff)

lemma perform_run:
  assumes x: "run_ok x" and y: "perform act x = Some y"
  shows "run_ok y"
proof -
  let ?s = "xr_executor x"
  have ok: "executor_ok ?s" using x by (simp add: run_ok_def)
  note run = executor_step_run[OF x]
  have stop: "executor_step ?s (?s\<lparr>ex_stopped := True\<rparr>)" using ok by (simp add: executor_step_def executor_ok_def)
  show ?thesis
  proof (cases act)
    case Collect
    then show ?thesis using y collect_run[OF x] by (auto split: prod.splits)
  next
    case Consume
    then show ?thesis using y consumer_turn_run[OF x] consumer_next_run[OF x] by (auto split: consumer.splits if_splits)
  next
    case (Complete i)
  then show ?thesis using y run complete_step[OF ok] entry_executing[OF ok] by (auto split: if_splits)
  next
    case (RunCancelled i)
    then show ?thesis using y run_cancelled_step[OF ok] run by (auto split: option.splits if_splits)
  qed (use y in \<open>auto split: option.splits if_splits run_phase.splits
         intro!: run add_tool_step[OF ok] begin_run_step[OF ok] take_output_step[OF ok] end_of_outputs_step[OF ok]
           run_raises_step[OF ok] relay_stop_step[OF ok] discard_step[OF ok] schedule_step[OF ok] stop\<close>)
qed

section \<open>Reachable runs\<close>

interpretation streaming: invariant_machine "\<lambda>x. \<exists>defs. x = new_run defs" exec_step run_ok
proof
  fix x assume "\<exists>defs. x = new_run defs"
  then show "run_ok x"
    by (auto simp: run_ok_def waking_def new_run_def new_executor_def executor_ok_def entries_ok_def busy_def yielded_results_def)
next
  fix x y assume "run_ok x" "exec_step x y"
  then show "run_ok y" by (auto simp: exec_step_def intro: perform_run)
qed

lemma reachable_ok: "reachable_run defs x \<Longrightarrow> run_ok x"
  unfolding reachable_run_def by (rule streaming.reachable_inv) blast

lemma run_actions_steps: "run_actions acts x = Some y \<Longrightarrow> exec_step\<^sup>*\<^sup>* x y"
proof (induction acts arbitrary: x)
  case (Cons a acts)
  then obtain z where "perform a x = Some z" "run_actions acts z = Some y" by (auto split: option.splits)
  then show ?case using Cons.IH by (auto simp: exec_step_def intro: converse_rtranclp_into_rtranclp)
qed simp

lemma run_actions_reachable: "run_actions acts (new_run defs) = Some x \<Longrightarrow> reachable_run defs x"
  by (simp add: reachable_run_def run_actions_steps)

text \<open>C27: While a call runs, no call before it is queued, and every other running call is safe to run beside it.\<close>

theorem serial_calls_are_barriers:
  assumes "reachable_run defs x" "i < j" "j < length (ex_entries (xr_executor x))"
    and "iv_status (ex_entries (xr_executor x) ! j) = Executing"
  shows "iv_status (ex_entries (xr_executor x) ! i) \<in> {Completed, Yielded} \<or>
    (iv_status (ex_entries (xr_executor x) ! i) = Executing \<and>
     iv_parallel (ex_entries (xr_executor x) ! i) \<and> iv_parallel (ex_entries (xr_executor x) ! j))"
proof -
  from reachable_ok[OF assms(1)] have "sorted_wrt run_together (ex_entries (xr_executor x))"
    by (simp add: run_ok_def executor_ok_def entries_ok_def)
  then have "run_together (ex_entries (xr_executor x) ! i) (ex_entries (xr_executor x) ! j)"
    using assms(2,3) by (simp add: sorted_wrt_iff_nth_less)
  then show ?thesis using assms(4) by (cases "iv_status (ex_entries (xr_executor x) ! i)") (auto simp: run_together_def)
qed

text \<open>A task is at work on the call.\<close>

definition at_work :: "invocation \<Rightarrow> bool" where
  "at_work e = (iv_status e = Executing \<and> (case iv_phase e of NoTask \<Rightarrow> False | Ended \<Rightarrow> False | _ \<Rightarrow> True))"

text \<open>A waiting consumer has been told of a change already, or a task is at work that tells it when it ends.\<close>

lemma no_lost_wakeup:
  assumes "reachable_run defs x" "xr_consumer x = Waiting"
  shows "perform Consume x \<noteq> None \<or> (\<exists>e \<in> set (ex_entries (xr_executor x)). at_work e)"
proof (cases "ex_changed (xr_executor x)")
  case True
  then show ?thesis using assms(2) by simp
next
  case False
  let ?es = "ex_entries (xr_executor x)"
  have ok: "executor_ok (xr_executor x)" and quiet: "quiet ?es" and waits: "\<exists>e \<in> set ?es. iv_status e \<noteq> Yielded"
    using reachable_ok[OF assms(1)] assms(2) False by (simp_all add: run_ok_def waking_def Let_def)
  then have es: "entries_ok False ?es" "busy ?es" using False by (auto simp: executor_ok_def)
  have "\<exists>e \<in> set ?es. iv_status e = Executing"
  proof (rule ccontr)
    assume none: "\<not> ?thesis"
    then have "iv_status e \<in> {Queued, Yielded}" if "e \<in> set ?es" for e using quiet_idle[OF quiet] that by blast
    with waits es(2) none show False by (auto simp: busy_def)
  qed
  then obtain e where "e \<in> set ?es" "iv_status e = Executing" by blast
  moreover from this es(1) have "at_work e" by (auto simp: entries_ok_def entry_ok_def at_work_def split: run_phase.splits)
  ultimately show ?thesis by blast
qed

text \<open>C29: The results handed over are those of the yielded calls, each once.\<close>

theorem results_handed_over_once:
  assumes "reachable_run defs x"
  shows "mset (results_of (xr_handed x)) = mset (concat (map iv_results (filter (\<lambda>e. iv_status e = Yielded) (ex_entries (xr_executor x)))))"
  using reachable_ok[OF assms] by (simp add: run_ok_def yielded_results_def)

section \<open>After a discard\<close>

text \<open>A call stays what it is, or ends.\<close>

definition ended_as :: "invocation \<Rightarrow> invocation \<Rightarrow> bool" where
  "ended_as e f = (iv_block f = iv_block e \<and> (iv_status f = iv_status e \<or> iv_status f = Completed))"

definition frozen :: "executor \<Rightarrow> executor \<Rightarrow> bool" where
  "frozen s t = (ex_discarded t \<and> list_all2 ended_as (ex_entries s) (ex_entries t))"

lemma ended_as_refl [simp]: "ended_as e e"
  by (simp add: ended_as_def)

lemma frozen_refl: "ex_discarded s \<Longrightarrow> frozen s s"
  by (simp add: frozen_def list_all2_same)

lemma ended_as_trans: "ended_as e f \<Longrightarrow> ended_as f g \<Longrightarrow> ended_as e g"
  by (auto simp: ended_as_def)

lemma frozen_trans: "frozen s t \<Longrightarrow> frozen t u \<Longrightarrow> frozen s u"
  unfolding frozen_def using list_all2_trans[of ended_as ended_as ended_as] ended_as_trans by metis

lemma frozen_update: "ex_discarded s \<Longrightarrow> ex_discarded t \<Longrightarrow> ex_entries t = (ex_entries s)[i := e'] \<Longrightarrow> ended_as (ex_entries s ! i) e' \<Longrightarrow> frozen s t"
  by (cases "i < length (ex_entries s)") (auto simp: frozen_def list_all2_conv_all_nth nth_list_update)

lemma frozen_complete: "ex_discarded s \<Longrightarrow> frozen s (complete i s)"
  by (rule frozen_update[of _ _ i "(ex_entries s ! i)\<lparr>iv_status := Completed, iv_phase := Ended\<rparr>"])
    (simp_all add: complete_def schedule_def ended_as_def)

lemma ended_as_simps [simp]: "ended_as e (add_result m f) = ended_as e f" "ended_as e (enter_phase p f) = ended_as e f"
  "ended_as e (f\<lparr>iv_progress := ps\<rparr>) = ended_as e f" "ended_as e (f\<lparr>iv_stop := b\<rparr>) = ended_as e f"
  by (simp_all add: ended_as_def add_result_def enter_phase_def)

lemma frozen_begin_run: "ex_discarded s \<Longrightarrow> frozen s (begin_run i s)"
  by (auto simp: begin_run_def stop_reason_def intro!: frozen_trans[OF frozen_update frozen_complete])

lemma frozen_take_output:
  assumes d: "ex_discarded s"
  shows "frozen s (take_output i b out s)"
proof -
  have entry: "frozen s t" if "ex_discarded t" "ex_entries t = (ex_entries s)[i := f (ex_entries s ! i)]" "\<And>e. ended_as e (f e)" for t f
    using frozen_update[OF d that(1,2)] that(3) by blast
  have "frozen s (take_output i False out s)"
    using d by (auto simp: take_output_def stop_reason_def intro!: entry[of _ "enter_phase Leaving \<circ> add_result m" for m])
  moreover have "frozen s (take_output i True (Yields (Progress p)) s)" for p
    using d by (auto simp: take_output_def intro!: entry[of _ "\<lambda>e. e\<lparr>iv_progress := iv_progress e @ [p]\<rparr>"])
  moreover have "frozen s (take_output i True (Yields (Result m)) s)" for m
  proof (cases "rm_is_error m")
    case True
    have "\<exists>t. take_output i True (Yields (Result m)) s = t \<and> ex_discarded t \<and>
        ex_entries t = (ex_entries s)[i := (enter_phase (Running True) \<circ> add_result m) (ex_entries s ! i)]"
      using d True by (cases "i < length (ex_entries s)") (simp_all add: take_output_def Let_def list_update_beyond)
    then show ?thesis using entry[of _ "enter_phase (Running True) \<circ> add_result m"] by auto
  next
    case False
    then show ?thesis using d by (auto simp: take_output_def intro!: entry[of _ "add_result m"])
  qed
  moreover have "frozen s (take_output i True Invalid s)"
    using d by (simp add: take_output_def frozen_refl)
  ultimately show ?thesis by (metis runner_output.exhaust tool_output.exhaust)
qed

lemma frozen_ending: "ex_discarded s \<Longrightarrow> frozen s (end_of_outputs i s)" "ex_discarded s \<Longrightarrow> frozen s (run_raises i message s)"
  "ex_discarded s \<Longrightarrow> frozen s (run_cancelled i s)" "ex_discarded s \<Longrightarrow> frozen s (relay_stop i s)"
  by (auto simp: end_of_outputs_def run_raises_def run_cancelled_def relay_stop_def Let_def
      intro!: frozen_update[of _ _ i] split: option.splits)

definition discarded_as :: "exec_run \<Rightarrow> exec_run \<Rightarrow> bool" where
  "discarded_as x y = (frozen (xr_executor x) (xr_executor y) \<and> xr_handed y = xr_handed x \<and> xr_delivered y = xr_delivered x)"

lemma discarded_perform:
  assumes d: "ex_discarded (xr_executor x)" and y: "perform act x = Some y"
  shows "discarded_as x y"
proof -
  let ?s = "xr_executor x"
  have same: "discarded_as x (x\<lparr>xr_executor := s\<rparr>)" if "frozen ?s s" for s
    using that by (simp add: discarded_as_def)
  have stop: "frozen ?s (?s\<lparr>ex_stopped := True\<rparr>)" using d by (simp add: frozen_def list_all2_same)
  have quiet: "discarded_as x x" using d by (simp add: discarded_as_def frozen_refl)
  show ?thesis
  proof (cases act)
    case Collect
    then show ?thesis using y d frozen_refl[OF d] by (auto simp: get_completed_results_def discarded_as_def)
  next
    case Consume
    then show ?thesis using y d frozen_refl[OF d]
      by (auto simp: consumer_turn_def consumer_next_def discarded_as_def split: consumer.splits list.splits if_splits)
  qed (use y d frozen_refl[OF d] quiet in \<open>auto split: option.splits if_splits run_phase.splits
        simp: add_tool_def discard_def schedule_def
        intro!: same frozen_begin_run frozen_take_output frozen_ending frozen_complete stop\<close>)
qed

lemma discarded_steps: "exec_step\<^sup>*\<^sup>* x y \<Longrightarrow> ex_discarded (xr_executor x) \<Longrightarrow> discarded_as x y"
proof (induction rule: rtranclp_induct)
  case base
  then show ?case by (simp add: discarded_as_def frozen_refl)
next
  case (step y z)
  then have xy: "discarded_as x y" by blast
  then have "discarded_as y z"
    using step.hyps(2) discarded_perform[of y] by (auto simp: exec_step_def discarded_as_def frozen_def)
  with xy show ?case by (auto simp: discarded_as_def intro: frozen_trans)
qed

text \<open>After a discard no call is taken in, none is started, and nothing is handed over or passed on any more.\<close>

lemma discard_is_final:
  assumes "ex_discarded (xr_executor x)" "exec_step\<^sup>*\<^sup>* x y"
  shows "ex_discarded (xr_executor y) \<and> xr_handed y = xr_handed x \<and> xr_delivered y = xr_delivered x \<and>
    list_all2 (\<lambda>e f. iv_block f = iv_block e \<and> (iv_status f = iv_status e \<or> iv_status f = Completed))
      (ex_entries (xr_executor x)) (ex_entries (xr_executor y))"
  using discarded_steps[OF assms(2,1)] by (simp add: discarded_as_def frozen_def flip: ended_as_def)

section \<open>The consumer finishes\<close>

text \<open>What is left to do for a call whose runner ends\<close>

definition work_left :: "invocation \<Rightarrow> nat" where
  "work_left e = (case iv_status e of Queued \<Rightarrow> 4
     | Executing \<Rightarrow> (case iv_phase e of Created \<Rightarrow> 3 | Running _ \<Rightarrow> 2 | Leaving \<Rightarrow> 1 | _ \<Rightarrow> 0) | _ \<Rightarrow> 0)"

definition total_work :: "executor \<Rightarrow> nat" where
  "total_work s = sum_list (map work_left (ex_entries s))"

lemma schedule_loop_work: "sum_list (map work_left (schedule_loop active es)) \<le> sum_list (map work_left es)"
  by (induction active es rule: schedule_loop.induct) (auto simp: work_left_def)

lemma schedule_work: "total_work (schedule s) \<le> total_work s"
  by (simp add: total_work_def schedule_def schedule_loop_work)

lemma work_left_progress [simp]: "work_left (e\<lparr>iv_progress := ps\<rparr>) = work_left e"
  by (cases "iv_status e") (simp_all add: work_left_def)

lemma work_left_done: "iv_status e \<in> {Completed, Yielded} \<Longrightarrow> work_left e = 0"
  by (auto simp: work_left_def)

lemma collect_work: "sum_list (map work_left (snd (collect_loop es))) = sum_list (map work_left es)"
  by (induction es) (auto simp: work_left_done Let_def)

lemma update_work: "i < length es \<Longrightarrow> work_left e' < work_left (es ! i) \<Longrightarrow> sum_list (map work_left (es[i := e'])) < sum_list (map work_left es)"
  by (simp add: upd_conv_take_nth_drop) (subst (3) id_take_nth_drop[of i es], simp_all)

lemma update_entry_work: "i < length (ex_entries s) \<Longrightarrow> work_left (f (ex_entries s ! i)) < work_left (ex_entries s ! i) \<Longrightarrow>
    total_work (update_entry i f s) < total_work s"
  by (simp add: total_work_def update_work)

lemma complete_work:
  assumes "i < length (ex_entries s)" "0 < work_left (ex_entries s ! i)" "ex_entries s' = (ex_entries s)[i := e']"
  shows "total_work (complete i s') < total_work s"
proof -
  have "sum_list (map work_left ((ex_entries s)[i := e'\<lparr>iv_status := Completed, iv_phase := Ended\<rparr>])) < total_work s"
    unfolding total_work_def using assms(1,2) by (intro update_work) (simp_all add: work_left_def)
  with schedule_work[of "update_entry i (\<lambda>e. e\<lparr>iv_status := Completed, iv_phase := Ended\<rparr>) s'"] assms
  show ?thesis by (simp add: complete_def total_work_def notify_def)
qed

text \<open>The steps that end a task, however they do, and those of the consumer\<close>

definition winding :: "exec_action \<Rightarrow> bool" where
  "winding act = (case act of BeginRun i \<Rightarrow> True | EndOfOutputs i \<Rightarrow> True | RunRaises i message \<Rightarrow> True | RunCancelled i \<Rightarrow> True
     | Complete i \<Rightarrow> True | Consume \<Rightarrow> True | _ \<Rightarrow> False)"

definition winds :: "exec_run \<Rightarrow> exec_run \<Rightarrow> bool" where
  "winds x y = (\<exists>act. winding act \<and> perform act x = Some y)"

lemma task_winds:
  assumes x: "run_ok x" "\<not> ex_discarded (xr_executor x)" and act: "winding act" "act \<noteq> Consume" "perform act x = Some y"
  shows "\<exists>s. y = x\<lparr>xr_executor := s\<rparr> \<and> \<not> ex_discarded s \<and> total_work s < total_work (xr_executor x)
    \<and> (\<exists>e \<in> set (ex_entries (xr_executor x)). iv_status e = Executing)"
proof -
  let ?s = "xr_executor x"
  have ok: "executor_ok ?s" using x(1) by (simp add: run_ok_def)
  have entry: "i < length (ex_entries ?s) \<and> iv_status (ex_entries ?s ! i) = Executing \<and> iv_phase (ex_entries ?s ! i) = p \<and>
      (\<exists>e \<in> set (ex_entries ?s). iv_status e = Executing)"
    if "entry_phase i ?s = Some p" "p \<noteq> NoTask" "p \<noteq> Ended" for i p
    using entry_executing[OF ok that] by (metis nth_mem)
  show ?thesis
  proof (cases act)
    case (BeginRun i)
    then have e: "entry_phase i ?s = Some Created" "y = x\<lparr>xr_executor := begin_run i ?s\<rparr>" using act(3) by (auto split: if_splits)
    note * = entry[OF e(1)]
    have "total_work (begin_run i ?s) < total_work ?s \<and> \<not> ex_discarded (begin_run i ?s)"
    proof (cases "stop_reason ?s (ex_entries ?s ! i)")
      case None
      then show ?thesis using * x(2) by (auto simp: begin_run_def work_left_def intro!: update_entry_work)
    next
      case (Some r)
      let ?t = "update_entry i (add_result (cancel_result ?s (ex_entries ?s ! i) r)) ?s"
      have "total_work (complete i ?t) < total_work ?s" using * by (intro complete_work) (auto simp: work_left_def)
      then show ?thesis using Some x(2) by (simp add: begin_run_def complete_def)
    qed
    then show ?thesis using e(2) * by auto
  next
    case (EndOfOutputs i)
    then obtain b where e: "entry_phase i ?s = Some (Running b)" "y = x\<lparr>xr_executor := end_of_outputs i ?s\<rparr>"
      using act(3) by (auto split: option.splits run_phase.splits)
    note * = entry[OF e(1)]
    have "total_work (end_of_outputs i ?s) < total_work ?s"
      unfolding end_of_outputs_def Let_def using * by (intro update_entry_work) (auto simp: work_left_def split: option.split)
    then show ?thesis using e(2) * x(2) by (auto simp: end_of_outputs_def Let_def)
  next
    case (RunRaises i message)
    then obtain b where e: "entry_phase i ?s = Some (Running b)" "y = x\<lparr>xr_executor := run_raises i message ?s\<rparr>"
      using act(3) by (auto split: option.splits run_phase.splits)
    note * = entry[OF e(1)]
    have "total_work (run_raises i message ?s) < total_work ?s"
      unfolding run_raises_def Let_def using * by (intro update_entry_work) (auto simp: work_left_def)
    then show ?thesis using e(2) * x(2) by (auto simp: run_raises_def Let_def)
  next
    case (RunCancelled i)
    then obtain b where e: "entry_phase i ?s = Some (Running b)" "y = x\<lparr>xr_executor := run_cancelled i ?s\<rparr>"
      using act(3) x(2) by (auto simp: may_be_cancelled_def split: option.splits run_phase.splits if_splits)
    note * = entry[OF e(1)]
    have "total_work (run_cancelled i ?s) < total_work ?s"
      unfolding run_cancelled_def Let_def using * by (auto simp: work_left_def intro!: update_entry_work)
    then show ?thesis using e(2) * x(2) by (auto simp: run_cancelled_def Let_def)
  next
    case (Complete i)
    then have e: "entry_phase i ?s = Some Leaving" "y = x\<lparr>xr_executor := complete i ?s\<rparr>" using act(3) by (auto split: if_splits)
    note * = entry[OF e(1)]
    have "total_work (complete i ?s) < total_work ?s"
      using * by (intro complete_work[of i ?s ?s "ex_entries ?s ! i"]) (auto simp: work_left_def)
    then show ?thesis using e(2) * x(2) by (auto simp: complete_def)
  qed (use act in \<open>simp_all add: winding_def\<close>)
qed

text \<open>Where the consumer stands\<close>

definition stage :: "consumer \<Rightarrow> nat" where
  "stage c = (case c of Idle \<Rightarrow> 2 | Delivering batch \<Rightarrow> 1 | _ \<Rightarrow> 0)"

definition batch_left :: "consumer \<Rightarrow> nat" where
  "batch_left c = (case c of Delivering batch \<Rightarrow> length batch | _ \<Rightarrow> 0)"

definition winding_order :: "(exec_run \<times> exec_run) set" where
  "winding_order = measures [\<lambda>x. total_work (xr_executor x), \<lambda>x. of_bool (ex_changed (xr_executor x)), \<lambda>x. stage (xr_consumer x),
     \<lambda>x. batch_left (xr_consumer x)]"

definition all_yielded :: "exec_run \<Rightarrow> bool" where
  "all_yielded x = list_all (\<lambda>e. iv_status e = Yielded) (ex_entries (xr_executor x))"

lemma turn_winds:
  assumes "\<not> ex_discarded (xr_executor x)" "xr_consumer x = Idle \<or> ex_changed (xr_executor x)"
  shows "(consumer_turn x, x) \<in> winding_order \<and> \<not> ex_discarded (xr_executor (consumer_turn x)) \<and> xr_consumer (consumer_turn x) \<noteq> Finished"
proof -
  let ?s = "schedule ((xr_executor x)\<lparr>ex_changed := False\<rparr>)"
  have "total_work ?s \<le> total_work (xr_executor x)"
    using schedule_work[of "(xr_executor x)\<lparr>ex_changed := False\<rparr>"] by (simp add: total_work_def)
  then show ?thesis using assms
    by (auto simp: consumer_turn_def get_completed_results_def Let_def winding_order_def total_work_def collect_work stage_def batch_left_def)
qed

lemma next_winds:
  assumes "\<not> ex_discarded (xr_executor x)" "xr_consumer x = Delivering batch"
  shows "(consumer_next batch x, x) \<in> winding_order \<and> \<not> ex_discarded (xr_executor (consumer_next batch x)) \<and>
    (xr_consumer (consumer_next batch x) = Finished \<longrightarrow> all_yielded (consumer_next batch x))"
  using assms by (cases batch) (auto simp: consumer_next_def winding_order_def stage_def batch_left_def all_yielded_def)

lemma consumer_winds:
  assumes "\<not> ex_discarded (xr_executor x)" "perform Consume x = Some y"
  shows "(y, x) \<in> winding_order \<and> \<not> ex_discarded (xr_executor y) \<and> (xr_consumer y = Finished \<longrightarrow> all_yielded y)"
  using assms turn_winds[of x] next_winds[of x] by (auto split: consumer.splits if_splits)

definition winding_ok :: "exec_run \<Rightarrow> bool" where
  "winding_ok x = (run_ok x \<and> \<not> ex_discarded (xr_executor x) \<and> (xr_consumer x = Finished \<longrightarrow> all_yielded x))"

lemma winds_ok:
  assumes "winding_ok x" "winds x y"
  shows "(y, x) \<in> winding_order \<and> winding_ok y"
proof -
  obtain act where act: "winding act" "perform act x = Some y" using assms(2) by (auto simp: winds_def)
  have x: "run_ok x" "\<not> ex_discarded (xr_executor x)" using assms(1) by (simp_all add: winding_ok_def)
  note y = perform_run[OF x(1) act(2)]
  show ?thesis
  proof (cases "act = Consume")
    case True
    then show ?thesis using consumer_winds[OF x(2)] act(2) y by (simp add: winding_ok_def)
  next
    case False
    from task_winds[OF x act(1) False act(2)] obtain s where s: "y = x\<lparr>xr_executor := s\<rparr>" "\<not> ex_discarded s"
        "total_work s < total_work (xr_executor x)" "\<exists>e \<in> set (ex_entries (xr_executor x)). iv_status e = Executing" by blast
    have "\<not> all_yielded x"
    proof
      assume "all_yielded x"
      then have "\<forall>e \<in> set (ex_entries (xr_executor x)). iv_status e = Yielded" by (simp add: all_yielded_def list_all_iff)
      with s(4) show False by fastforce
    qed
    then show ?thesis using s(1-3) y assms(1) by (simp add: winding_ok_def winding_order_def)
  qed
qed

lemma at_work_winds:
  assumes "e \<in> set (ex_entries (xr_executor x))" "at_work e"
  shows "\<exists>y. winds x y"
proof -
  obtain i where i: "i < length (ex_entries (xr_executor x))" "ex_entries (xr_executor x) ! i = e" using assms(1) by (auto simp: in_set_conv_nth)
  then have p: "entry_phase i (xr_executor x) = Some (iv_phase e)" by (simp add: entry_phase_def)
  have enabled: "\<exists>y. winds x y" if "winding act" "perform act x \<noteq> None" for act using that by (auto simp: winds_def)
  show ?thesis
  proof (cases "iv_phase e")
    case Created
    then show ?thesis using p by (intro enabled[of "BeginRun i"]) (simp_all add: winding_def)
  next
    case Running
    then show ?thesis using p by (intro enabled[of "EndOfOutputs i"]) (simp_all add: winding_def)
  next
    case Leaving
    then show ?thesis using p by (intro enabled[of "Complete i"]) (simp_all add: winding_def)
  qed (use assms(2) in \<open>simp_all add: at_work_def\<close>)
qed

lemma executing_is_at_work:
  "executor_ok s \<Longrightarrow> \<not> ex_discarded s \<Longrightarrow> e \<in> set (ex_entries s) \<Longrightarrow> iv_status e = Executing \<Longrightarrow> at_work e"
  by (auto simp: executor_ok_def entries_ok_def entry_ok_def at_work_def split: run_phase.splits)

text \<open>Where nothing can go on, the consumer has come to its end.\<close>

lemma stuck_is_finished:
  assumes x: "winding_ok x" and stuck: "\<nexists>y. winds x y"
  shows "xr_consumer x = Finished \<and> pending_tool_use_ids (xr_executor x) = []"
proof -
  let ?es = "ex_entries (xr_executor x)"
  have ok: "run_ok x" "\<not> ex_discarded (xr_executor x)" using x by (simp_all add: winding_ok_def)
  have consume: "perform Consume x = None"
  proof (rule ccontr)
    assume "perform Consume x \<noteq> None"
    then obtain y where "perform Consume x = Some y" by blast
    moreover have "winding Consume" by (simp add: winding_def)
    ultimately show False using stuck unfolding winds_def by blast
  qed
  have idle: "\<forall>e \<in> set ?es. iv_status e \<noteq> Executing"
    using executing_is_at_work[of "xr_executor x"] ok at_work_winds stuck by (auto simp: run_ok_def)
  then have unqueued: "\<forall>e \<in> set ?es. iv_status e \<noteq> Queued" using ok by (auto simp: run_ok_def executor_ok_def busy_def)
  have "xr_consumer x = Finished"
  proof (cases "xr_consumer x")
    case Waiting
    then have "quiet ?es" "\<exists>e \<in> set ?es. iv_status e \<noteq> Yielded" using consume ok(1) by (simp_all add: run_ok_def waking_def Let_def split: if_splits)
    then show ?thesis using quiet_idle[of ?es] idle unqueued by blast
  qed (use consume in simp_all)
  then have "all_yielded x" using x by (simp add: winding_ok_def)
  then show ?thesis using \<open>xr_consumer x = Finished\<close> by (auto simp: pending_tool_use_ids_def all_yielded_def list_all_iff filter_empty_conv)
qed

lemma winds_star: "winds\<^sup>*\<^sup>* x y \<Longrightarrow> winding_ok x \<Longrightarrow> winding_ok y"
  by (induction rule: rtranclp_induct) (auto dest: winds_ok)

lemma winding_ends: "winding_ok x \<Longrightarrow> \<nexists>xs. xs 0 = x \<and> (\<forall>n. winds (xs n) (xs (Suc n)))"
proof
  assume x: "winding_ok x" and "\<exists>xs. xs 0 = x \<and> (\<forall>n. winds (xs n) (xs (Suc n)))"
  then obtain xs where xs: "xs 0 = x" "\<And>n. winds (xs n) (xs (Suc n))" by blast
  have "winding_ok (xs n)" for n using winds_ok[OF _ xs(2)] by (induction n) (auto simp: xs(1) x)
  then have "(xs (Suc n), xs n) \<in> winding_order" for n using winds_ok[OF _ xs(2)] by blast
  moreover have "wf winding_order" by (simp add: winding_order_def)
  ultimately show False unfolding wf_iff_no_infinite_down_chain by blast
qed

text \<open>C28: Nothing is discarded and the consumer has not ended.  As long as a call is queued, a task is at work; and from now on
  let no call be added and no runner yield any more: each ends, raises or raises the error of a cancellation, in any order,
  and the consumer takes its turns in between.  Then the run cannot go on for ever, and it comes to a stop only where the
  consumer has ended and every call is yielded.\<close>

theorem ending_runners_lead_consumer_on:
  assumes "reachable_run defs x" "\<not> ex_discarded (xr_executor x)" "xr_consumer x \<noteq> Finished"
  shows "((\<exists>e \<in> set (ex_entries (xr_executor x)). iv_status e = Queued) \<longrightarrow> (\<exists>e \<in> set (ex_entries (xr_executor x)). at_work e)) \<and>
    (\<nexists>xs. xs 0 = x \<and> (\<forall>n. winds (xs n) (xs (Suc n)))) \<and>
    (\<forall>y. winds\<^sup>*\<^sup>* x y \<and> (\<nexists>z. winds y z) \<longrightarrow> xr_consumer y = Finished \<and> pending_tool_use_ids (xr_executor y) = [])"
proof -
  have x: "winding_ok x" using reachable_ok[OF assms(1)] assms(2,3) by (simp add: winding_ok_def)
  then have "executor_ok (xr_executor x)" by (simp add: winding_ok_def run_ok_def)
  moreover from this have "busy (ex_entries (xr_executor x))" using assms(2) by (simp add: executor_ok_def)
  ultimately have "(\<exists>e \<in> set (ex_entries (xr_executor x)). iv_status e = Queued) \<longrightarrow> (\<exists>e \<in> set (ex_entries (xr_executor x)). at_work e)"
    using executing_is_at_work assms(2) unfolding busy_def by blast
  then show ?thesis using winding_ends[OF x] stuck_is_finished[OF winds_star[OF _ x]] by blast
qed

end
