(* ===== verification/Streaming_Examples.thy ===== *)
theory Streaming_Examples
  imports Streaming_Properties
begin

text \<open>
  Runs of the scheduler of streamed tool calls: the theorems applied at concrete runs, and two runs that show a
  call answered twice and a call never answered.
\<close>

definition sample_tools :: "string \<rightharpoonup> tool_definition" where
  "sample_tools name = (if name = ''read'' then Some \<lparr>td_concurrency_safe = (\<lambda>_. Some True), td_interrupt = Some ''block''\<rparr>
     else if name = ''watch'' then Some \<lparr>td_concurrency_safe = (\<lambda>_. Some True), td_interrupt = Some ''cancel''\<rparr>
     else if name = ''run'' then Some \<lparr>td_concurrency_safe = (\<lambda>_. None), td_interrupt = None\<rparr>
     else None)"

definition call_of :: "string \<Rightarrow> string \<Rightarrow> exec_action" where
  "call_of i name = AddTool \<lparr>tu_id = i, tu_name = name, tu_input = PyDict []\<rparr> \<lparr>am_uuid = ''a'', am_content = []\<rparr>"

definition answer_of :: "string \<Rightarrow> bool \<Rightarrow> runner_output" where
  "answer_of i e = Yields (Result \<lparr>rm_tool_use_id = i, rm_content = PyStr ''done'', rm_is_error = e, rm_summary = None, rm_assistant = None\<rparr>)"

definition run_of :: "exec_action list \<Rightarrow> exec_run" where
  "run_of acts = the (run_actions acts (new_run sample_tools))"

lemma run_of_reachable: "run_actions acts (new_run sample_tools) \<noteq> None \<Longrightarrow> reachable_run sample_tools (run_of acts)"
  by (auto simp: run_of_def intro: run_actions_reachable)

section \<open>Witnesses\<close>

text \<open>A read that has ended, a read and a serial call: the serial call waits for both.\<close>

definition two_reads :: "exec_action list" where
  "two_reads = [call_of ''1'' ''read'', call_of ''2'' ''read'', call_of ''3'' ''run'', BeginRun 0,
     TakeOutput 0 (answer_of ''1'' False), EndOfOutputs 0]"

lemma two_reads_runs: "run_actions two_reads (new_run sample_tools) \<noteq> None"
  by code_simp

lemma two_reads_states: "map iv_status (ex_entries (xr_executor (run_of two_reads))) = [Executing, Executing, Queued]"
  by code_simp

lemma two_reads_second: "1 < length (ex_entries (xr_executor (run_of two_reads)))"
  "iv_status (ex_entries (xr_executor (run_of two_reads)) ! 1) = Executing"
  by code_simp+

lemma serial_calls_are_barriers_witness:
  "iv_status (ex_entries (xr_executor (run_of two_reads)) ! 0) \<in> {Completed, Yielded} \<or>
    (iv_status (ex_entries (xr_executor (run_of two_reads)) ! 0) = Executing \<and>
     iv_parallel (ex_entries (xr_executor (run_of two_reads)) ! 0) \<and> iv_parallel (ex_entries (xr_executor (run_of two_reads)) ! 1))"
  by (rule serial_calls_are_barriers[OF run_of_reachable[OF two_reads_runs] zero_less_one two_reads_second])

text \<open>The consumer waits for the two reads.\<close>

definition consumer_waits :: "exec_action list" where
  "consumer_waits = two_reads @ [Consume, Consume]"

lemma consumer_waits_runs: "run_actions consumer_waits (new_run sample_tools) \<noteq> None"
  by code_simp

lemma consumer_waits_state: "xr_consumer (run_of consumer_waits) = Waiting"
  by code_simp

lemma no_lost_wakeup_witness:
  "perform Consume (run_of consumer_waits) \<noteq> None \<or> (\<exists>e \<in> set (ex_entries (xr_executor (run_of consumer_waits))). at_work e)"
  by (rule no_lost_wakeup[OF run_of_reachable[OF consumer_waits_runs] consumer_waits_state])

lemma consumer_waits_open: "\<not> ex_discarded (xr_executor (run_of consumer_waits))"
  by code_simp

lemma queued_while_waiting: "\<exists>e \<in> set (ex_entries (xr_executor (run_of consumer_waits))). iv_status e = Queued"
  by code_simp

lemma ending_runners_lead_consumer_on_witness:
  "(\<exists>e \<in> set (ex_entries (xr_executor (run_of consumer_waits))). at_work e) \<and>
   \<not> (\<exists>xs. xs 0 = run_of consumer_waits \<and> (\<forall>n. winds (xs n) (xs (Suc n))))"
proof -
  have "xr_consumer (run_of consumer_waits) \<noteq> Finished" by (simp add: consumer_waits_state)
  from ending_runners_lead_consumer_on[OF run_of_reachable[OF consumer_waits_runs] consumer_waits_open this] queued_while_waiting
  show ?thesis by blast
qed

text \<open>The two reads and the serial call end, and so does the consumer.\<close>

lemma consumer_ends:
  "let y = the (run_actions [Complete 0, BeginRun 1, RunRaises 1 ''no'', Consume, Consume, Consume, Complete 1, BeginRun 2, RunCancelled 2,
      Consume, Complete 2, Consume, Consume, Consume, Consume, Consume] (run_of consumer_waits)) in
   xr_consumer y = Finished \<and> map rm_is_error (results_of (xr_delivered y)) = [False, True, True]"
  by code_simp

text \<open>The first read completes and is handed over.\<close>

definition first_handed :: "exec_action list" where
  "first_handed = two_reads @ [Complete 0, Consume, Consume]"

lemma first_handed_runs: "run_actions first_handed (new_run sample_tools) \<noteq> None"
  by code_simp

lemma first_handed_results: "map rm_tool_use_id (results_of (xr_handed (run_of first_handed))) = [''1'']"
  by code_simp

lemma results_handed_over_once_witness:
  "mset (results_of (xr_handed (run_of first_handed))) =
     mset (concat (map iv_results (filter (\<lambda>e. iv_status e = Yielded) (ex_entries (xr_executor (run_of first_handed))))))"
  by (rule results_handed_over_once[OF run_of_reachable[OF first_handed_runs]])

text \<open>A discard while a read runs: its last result is not handed over.\<close>

lemma discarded_state: "ex_discarded (xr_executor (run_of (two_reads @ [Discard])))"
  by code_simp

lemma discarded_runs_on: "run_actions [BeginRun 1, call_of ''4'' ''read'', Complete 0, Consume] (run_of (two_reads @ [Discard])) \<noteq> None"
  by code_simp

lemma discard_is_final_witness:
  "\<exists>y. run_actions [BeginRun 1, call_of ''4'' ''read'', Complete 0, Consume] (run_of (two_reads @ [Discard])) = Some y \<and>
     ex_discarded (xr_executor y) \<and> xr_handed y = xr_handed (run_of (two_reads @ [Discard])) \<and>
     xr_delivered y = xr_delivered (run_of (two_reads @ [Discard]))"
proof -
  obtain y where y: "run_actions [BeginRun 1, call_of ''4'' ''read'', Complete 0, Consume] (run_of (two_reads @ [Discard])) = Some y"
    using discarded_runs_on by blast
  from discard_is_final[OF discarded_state run_actions_steps[OF y]] y show ?thesis by blast
qed

section \<open>Calls without exactly one answer\<close>

text \<open>A cancelled call that has given its result already gets a second one for the same id: every other
  place asks whether there are results first.\<close>

definition answered_then_interrupted :: "exec_action list" where
  "answered_then_interrupted = [call_of ''1'' ''watch'', BeginRun 0, TakeOutput 0 (answer_of ''1'' False), Interrupt,
     TakeOutput 0 Invalid, Complete 0, Consume]"

lemma second_answer: "map (\<lambda>m. (rm_tool_use_id m, rm_is_error m)) (results_of (xr_handed (run_of answered_then_interrupted))) =
    [(''1'', False), (''1'', True)]"
  by code_simp

text \<open>A runner that ends without output leaves its call without a result, and the consumer ends all the same.\<close>

definition silent_runner :: "exec_action list" where
  "silent_runner = [call_of ''1'' ''read'', BeginRun 0, EndOfOutputs 0, Complete 0, Consume, Consume]"

lemma no_answer: "xr_consumer (run_of silent_runner) = Finished" "xr_handed (run_of silent_runner) = []"
  "pending_tool_use_ids (xr_executor (run_of silent_runner)) = []"
  by code_simp+

end
