(* ===== verification/Tool_Concurrency.thy ===== *)
theory Tool_Concurrency
  imports Content_Normalization
begin

text \<open>
  Which tool calls may run at the same time, and how a turn of calls is cut into batches
  (\<open>intent/tool_concurrency.py\<close>).  The environment variable, the annotations of a server and the classifier of
  a caller are arguments; \<open>None\<close> stands for the exceptions the code catches.
\<close>

section \<open>Tables\<close>

definition PARALLEL_READ_ONLY_TOOLS :: "string list" where
  "PARALLEL_READ_ONLY_TOOLS = [''web_search'', ''web_read'', ''get_weather'', ''weather'', ''search_tracks'',
     ''toolsearch'', ''tool_search'']"

definition PARALLEL_READ_ONLY_ACTIONS :: "(string \<times> string list) list" where
  "PARALLEL_READ_ONLY_ACTIONS = [
     (''calendar'', [''list'', ''today'', ''tomorrow'', ''week'', ''get'', ''find_free_time'']),
     (''google_calendar'', [''list_events'', ''list_calendars'', ''get_event'', ''find_free_time'']),
     (''gmail'', [''search'', ''read'', ''list_labels'']),
     (''google_drive'', [''search'', ''download'', ''find_folder'', ''get_comments'']),
     (''google_docs'', [''get_text'', ''get_suggestions'']),
     (''google_sheets'', [''get_text'', ''get_range'', ''get_metadata'']),
     (''google_slides'', [''get_text'', ''get_metadata'', ''get_images'', ''get_thumbnail''])]"

definition PARALLEL_EXCLUDED_PREFIXES :: "string list" where
  "PARALLEL_EXCLUDED_PREFIXES = [''browser_'', ''desktop_'', ''computer'', ''payment'', ''signature'']"

definition DEFAULT_MAX_TOOL_USE_CONCURRENCY :: int where
  "DEFAULT_MAX_TOOL_USE_CONCURRENCY = 10"

section \<open>Names with a server\<close>

text \<open>\<open>s.split(sep, 1)\<close> where \<open>sep\<close> occurs\<close>

fun split_once :: "string \<Rightarrow> string \<Rightarrow> (string \<times> string) option" where
  "split_once sep [] = None"
| "split_once sep (c # cs) = (if starts_with sep (c # cs) then Some ([], drop (length sep) (c # cs))
     else map_option (apfst ((#) c)) (split_once sep cs))"

definition both_parts :: "(string \<times> string) option \<Rightarrow> bool" where
  "both_parts p = (case p of Some (server, tool) \<Rightarrow> server \<noteq> [] \<and> tool \<noteq> [] | None \<Rightarrow> False)"

definition is_external_namespaced_tool :: "string \<Rightarrow> bool" where
  "is_external_namespaced_tool tool_name = (let name = py_strip tool_name in
     if name = [] then False
     else if starts_with ''mcp__'' name then both_parts (split_once ''__'' (drop 5 name))
     else if str_contains ''__'' name then both_parts (split_once ''__'' name)
     else both_parts (split_once ''.'' name))"

section \<open>One call\<close>

definition get_max_tool_use_concurrency :: "string option \<Rightarrow> int" where
  "get_max_tool_use_concurrency environ = (let raw = py_strip (opt_str environ) in
     if raw = [] then DEFAULT_MAX_TOOL_USE_CONCURRENCY
     else (case py_int (PyStr raw) of
         Some v \<Rightarrow> if v > 0 then v else DEFAULT_MAX_TOOL_USE_CONCURRENCY
       | None \<Rightarrow> DEFAULT_MAX_TOOL_USE_CONCURRENCY))"

text \<open>The hint of an annotation, where it is a bool\<close>

fun read_only_hint :: "pyval option \<Rightarrow> bool option" where
  "read_only_hint (Some (PyDict d)) = (case py_get ''readOnlyHint'' d of PyBool b \<Rightarrow> Some b | _ \<Rightarrow> None)"
| "read_only_hint _ = None"

definition requested_action :: "pyval \<Rightarrow> string" where
  "requested_action tool_args = (let args = (case tool_args of PyDict d \<Rightarrow> d | _ \<Rightarrow> []) in
     py_lower (py_strip (if py_has ''action'' args then py_str (py_get ''action'' args) else [])))"

definition listed_as_read_only :: "string \<Rightarrow> pyval \<Rightarrow> bool" where
  "listed_as_read_only lower_name tool_args = (lower_name \<in> set PARALLEL_READ_ONLY_TOOLS \<or>
     (let action = requested_action tool_args in
      action \<noteq> [] \<and> (case map_of PARALLEL_READ_ONLY_ACTIONS lower_name of
        None \<Rightarrow> False | Some allowed \<Rightarrow> action \<in> set allowed)))"

definition is_concurrency_safe_tool :: "(string \<Rightarrow> pyval option) option \<Rightarrow> string \<Rightarrow> pyval \<Rightarrow> bool" where
  "is_concurrency_safe_tool annotation_lookup tool_name tool_args =
     (if tool_name = [] then False
      else let lower_name = py_lower tool_name in
        if list_ex (\<lambda>p. starts_with p lower_name) PARALLEL_EXCLUDED_PREFIXES then False
        else if is_external_namespaced_tool tool_name then False
        else (case Option.bind annotation_lookup (\<lambda>lookup. read_only_hint (lookup tool_name)) of
            Some hint \<Rightarrow> hint
          | None \<Rightarrow> listed_as_read_only lower_name tool_args))"

section \<open>Batches\<close>

record 'c tool_call_batch =
  tb_safe :: bool
  tb_calls :: "'c list"

definition classify_call :: "('c \<Rightarrow> bool option) \<Rightarrow> 'c \<Rightarrow> bool" where
  "classify_call is_safe call = (is_safe call = Some True)"

text \<open>The loop with the batches so far, the last one first.\<close>

fun partition_loop :: "('c \<Rightarrow> bool option) \<Rightarrow> 'c tool_call_batch list \<Rightarrow> 'c list \<Rightarrow> 'c tool_call_batch list" where
  "partition_loop is_safe batches [] = rev batches"
| "partition_loop is_safe batches (call # calls) = (let safe = classify_call is_safe call in
     case batches of
       b # bs \<Rightarrow> if safe \<and> tb_safe b
         then partition_loop is_safe (b\<lparr>tb_calls := tb_calls b @ [call]\<rparr> # bs) calls
         else partition_loop is_safe (\<lparr>tb_safe = safe, tb_calls = [call]\<rparr> # b # bs) calls
     | [] \<Rightarrow> partition_loop is_safe [\<lparr>tb_safe = safe, tb_calls = [call]\<rparr>] calls)"

definition partition_tool_calls :: "('c \<Rightarrow> bool option) \<Rightarrow> 'c list \<Rightarrow> 'c tool_call_batch list" where
  "partition_tool_calls is_safe calls = partition_loop is_safe [] calls"

section \<open>What a partition is\<close>

text \<open>A batch is one call that is not safe or a run of safe ones, and no two safe batches are neighbours.\<close>

definition good_batch :: "('c \<Rightarrow> bool option) \<Rightarrow> 'c tool_call_batch \<Rightarrow> bool" where
  "good_batch is_safe b = (if tb_safe b then tb_calls b \<noteq> [] \<and> list_all (classify_call is_safe) (tb_calls b)
     else \<exists>c. tb_calls b = [c] \<and> \<not> classify_call is_safe c)"

definition never_both_safe :: "'c tool_call_batch list \<Rightarrow> bool" where
  "never_both_safe bs = successively (\<lambda>b c. \<not> (tb_safe b \<and> tb_safe c)) bs"

definition is_partition :: "('c \<Rightarrow> bool option) \<Rightarrow> 'c list \<Rightarrow> 'c tool_call_batch list \<Rightarrow> bool" where
  "is_partition is_safe calls bs = (concat (map tb_calls bs) = calls \<and> list_all (good_batch is_safe) bs \<and> never_both_safe bs)"

lemma good_batch_grow: "good_batch is_safe b \<Longrightarrow> tb_safe b \<Longrightarrow> classify_call is_safe c \<Longrightarrow>
    good_batch is_safe (b\<lparr>tb_calls := tb_calls b @ [c]\<rparr>)"
  by (simp add: good_batch_def)

lemma good_batch_new: "good_batch is_safe \<lparr>tb_safe = classify_call is_safe c, tb_calls = [c]\<rparr>"
  by (simp add: good_batch_def)

lemma never_both_safe_replace: "never_both_safe (rev (b # bs)) \<Longrightarrow> tb_safe b' = tb_safe b \<Longrightarrow> never_both_safe (rev (b' # bs))"
  by (auto simp: never_both_safe_def successively_append_iff)

lemma never_both_safe_add: "never_both_safe (rev (b # bs)) \<Longrightarrow> \<not> (tb_safe c \<and> tb_safe b) \<Longrightarrow> never_both_safe (rev (c # b # bs))"
  by (auto simp: never_both_safe_def successively_append_iff)

lemma partition_loop_partitions:
  "list_all (good_batch is_safe) batches \<Longrightarrow> never_both_safe (rev batches) \<Longrightarrow>
   is_partition is_safe (concat (map tb_calls (rev batches)) @ calls) (partition_loop is_safe batches calls)"
proof (induction calls arbitrary: batches)
  case Nil
  then show ?case by (simp add: is_partition_def)
next
  case (Cons call calls)
  let ?safe = "classify_call is_safe call"
  show ?case
  proof (cases batches)
    case Nil
    then show ?thesis using Cons.IH[of "[\<lparr>tb_safe = ?safe, tb_calls = [call]\<rparr>]"] good_batch_new[of is_safe call]
      by (simp add: never_both_safe_def)
  next
    case (Cons b bs)
    note prems = Cons.prems[unfolded Cons]
    show ?thesis
    proof (cases "?safe \<and> tb_safe b")
      case True
      then show ?thesis
        using Cons.IH[of "b\<lparr>tb_calls := tb_calls b @ [call]\<rparr> # bs"] prems good_batch_grow[of is_safe b call]
          never_both_safe_replace[OF prems(2), of "b\<lparr>tb_calls := tb_calls b @ [call]\<rparr>"]
        by (simp add: Cons)
    next
      case False
      then show ?thesis
        using Cons.IH[of "\<lparr>tb_safe = ?safe, tb_calls = [call]\<rparr> # b # bs"] prems good_batch_new[of is_safe call]
          never_both_safe_add[OF prems(2), of "\<lparr>tb_safe = ?safe, tb_calls = [call]\<rparr>"]
        by (auto simp: Cons Let_def)
    qed
  qed
qed

text \<open>There is only one such partition.\<close>

lemma safe_batch_is_prefix:
  assumes "is_partition is_safe calls (b # bs)" "tb_safe b"
  shows "tb_calls b = takeWhile (classify_call is_safe) calls"
proof -
  have calls: "calls = tb_calls b @ concat (map tb_calls bs)" and good: "good_batch is_safe b"
    using assms(1) by (simp_all add: is_partition_def)
  have "takeWhile (classify_call is_safe) (concat (map tb_calls bs)) = []"
  proof (cases bs)
    case (Cons c cs)
    then have "\<not> tb_safe c" "good_batch is_safe c" using assms by (simp_all add: is_partition_def never_both_safe_def)
    then show ?thesis by (auto simp: Cons good_batch_def)
  qed simp
  moreover have "\<forall>c \<in> set (tb_calls b). classify_call is_safe c"
    using good assms(2) by (simp add: good_batch_def list_all_iff)
  ultimately show ?thesis by (simp add: calls takeWhile_append2)
qed

lemma first_batch:
  assumes "is_partition is_safe calls (b # bs)"
  shows "tb_calls b \<noteq> []" "tb_safe b = classify_call is_safe (hd calls)"
    "tb_calls b = (if classify_call is_safe (hd calls) then takeWhile (classify_call is_safe) calls else [hd calls])"
proof -
  have calls: "calls = tb_calls b @ concat (map tb_calls bs)" and good: "good_batch is_safe b"
    using assms by (simp_all add: is_partition_def)
  show ne: "tb_calls b \<noteq> []" using good by (auto simp: good_batch_def split: if_splits)
  then obtain c cs where c: "tb_calls b = c # cs" by (cases "tb_calls b") auto
  then have hd: "hd calls = c" using calls by simp
  show safe: "tb_safe b = classify_call is_safe (hd calls)" using good c hd by (auto simp: good_batch_def split: if_splits)
  show "tb_calls b = (if classify_call is_safe (hd calls) then takeWhile (classify_call is_safe) calls else [hd calls])"
    using safe_batch_is_prefix[OF assms] safe good c hd by (auto simp: good_batch_def)
qed

lemma partition_tail: "is_partition is_safe calls (b # bs) \<Longrightarrow> is_partition is_safe (drop (length (tb_calls b)) calls) bs"
  by (cases bs) (auto simp: is_partition_def never_both_safe_def)

lemma no_calls_no_batches: "is_partition is_safe [] bs \<Longrightarrow> bs = []"
proof (cases bs)
  case (Cons b bs')
  assume p: "is_partition is_safe [] bs"
  then have "tb_calls b = []" unfolding Cons is_partition_def by simp
  with first_batch(1)[OF p[unfolded Cons]] show ?thesis by contradiction
qed simp

lemma partition_unique:
  "is_partition is_safe calls bs \<Longrightarrow> is_partition is_safe calls bs' \<Longrightarrow> bs = (bs' :: 'c tool_call_batch list)"
proof (induction bs arbitrary: calls bs')
  case Nil
  have "calls = []" using Nil.prems(1) by (simp add: is_partition_def)
  with Nil.prems(2) show ?case using no_calls_no_batches by blast
next
  case (Cons b bs)
  show ?case
  proof (cases bs')
    case Nil
    then have "calls = []" using Cons.prems(2) by (simp add: is_partition_def)
    with Cons.prems(1) show ?thesis using no_calls_no_batches by blast
  next
    case (Cons b' cs)
    have eq: "tb_calls b = tb_calls b'" "tb_safe b = tb_safe b'"
      using first_batch(2,3)[OF Cons.prems(1)] first_batch(2,3)[OF Cons.prems(2)[unfolded Cons]] by simp_all
    have rest: "is_partition is_safe (drop (length (tb_calls b)) calls) bs" "is_partition is_safe (drop (length (tb_calls b)) calls) cs"
      using partition_tail[OF Cons.prems(1)] partition_tail[OF Cons.prems(2)[unfolded Cons]] eq(1) by simp_all
    from Cons.IH[OF rest] eq show ?thesis by (simp add: Cons)
  qed
qed

text \<open>C30: The batches are the only way to cut the calls, in order, into single calls that are not safe and runs of
  safe calls as long as possible.\<close>

theorem partition_tool_calls_iff: "partition_tool_calls is_safe calls = bs \<longleftrightarrow>
    concat (map tb_calls bs) = calls \<and> list_all (good_batch is_safe) bs \<and> never_both_safe bs"
proof -
  have *: "is_partition is_safe calls (partition_tool_calls is_safe calls)"
    using partition_loop_partitions[of is_safe "[]" calls] by (simp add: partition_tool_calls_def never_both_safe_def)
  have "partition_tool_calls is_safe calls = bs \<longleftrightarrow> is_partition is_safe calls bs"
    using * partition_unique[OF *] by blast
  then show ?thesis by (simp add: is_partition_def)
qed

text \<open>What a server says about its own tools never makes them run beside others.\<close>

lemma external_tools_run_serially: "is_external_namespaced_tool tool_name \<Longrightarrow> \<not> is_concurrency_safe_tool lookup tool_name args"
  by (simp add: is_concurrency_safe_tool_def Let_def)

end
