(* ===== verification/Circuit_Breaker.thy ===== *)
theory Circuit_Breaker
  imports State_Machine "HOL-Library.Sublist"
begin

text \<open>
  The circuit breaker of the outgoing services (\<open>utils/circuit_breaker.py\<close>).  \<open>time.monotonic()\<close> is the argument
  \<open>now\<close>, in whole milliseconds.  The lock makes every operation one step.  The callback for state changes is the list
  of the changes it is told of; the code swallows its exceptions.
\<close>

section \<open>State\<close>

datatype circuit_state = Circuit_Closed | Circuit_Open | Half_Open

record breaker_config =
  bc_failure_threshold :: int
  bc_recovery_timeout :: int
  bc_success_threshold :: int

record breaker =
  br_config :: breaker_config
  br_state :: circuit_state
  br_consecutive_failures :: nat
  br_half_open_successes :: nat
  br_last_failure_time :: "int option"
  br_last_success_time :: "int option"
  br_total :: nat
  br_successful :: nat
  br_failed :: nat
  br_rejected :: nat
  br_state_changes :: nat
  br_notified :: "(circuit_state \<times> circuit_state) list"

definition new_breaker :: "breaker_config \<Rightarrow> breaker" where
  "new_breaker cfg = \<lparr>br_config = cfg, br_state = Circuit_Closed, br_consecutive_failures = 0, br_half_open_successes = 0,
     br_last_failure_time = None, br_last_success_time = None, br_total = 0, br_successful = 0, br_failed = 0,
     br_rejected = 0, br_state_changes = 0, br_notified = []\<rparr>"

section \<open>Operations\<close>

definition change_state :: "circuit_state \<Rightarrow> breaker \<Rightarrow> breaker" where
  "change_state new b = (if br_state b = new then b
     else b\<lparr>br_state := new, br_state_changes := br_state_changes b + 1, br_notified := br_notified b @ [(br_state b, new)]\<rparr>)"

definition should_attempt_recovery :: "int \<Rightarrow> breaker \<Rightarrow> bool" where
  "should_attempt_recovery now b = (case br_last_failure_time b of
      None \<Rightarrow> True | Some t \<Rightarrow> now - t \<ge> bc_recovery_timeout (br_config b))"

definition allow_request :: "int \<Rightarrow> breaker \<Rightarrow> bool \<times> breaker" where
  "allow_request now b0 = (let b = b0\<lparr>br_total := br_total b0 + 1\<rparr> in case br_state b of
      Circuit_Closed \<Rightarrow> (True, b)
    | Circuit_Open \<Rightarrow> if should_attempt_recovery now b then (True, change_state Half_Open b)
        else (False, b\<lparr>br_rejected := br_rejected b + 1\<rparr>)
    | Half_Open \<Rightarrow> (True, b))"

definition record_breaker_success :: "int \<Rightarrow> breaker \<Rightarrow> breaker" where
  "record_breaker_success now b0 = (let b = b0\<lparr>br_successful := br_successful b0 + 1, br_last_success_time := Some now\<rparr> in
     case br_state b of
       Half_Open \<Rightarrow> (let b1 = b\<lparr>br_half_open_successes := br_half_open_successes b + 1\<rparr> in
         if int (br_half_open_successes b1) \<ge> bc_success_threshold (br_config b1)
         then (change_state Circuit_Closed b1)\<lparr>br_consecutive_failures := 0, br_half_open_successes := 0\<rparr> else b1)
     | Circuit_Closed \<Rightarrow> b\<lparr>br_consecutive_failures := 0\<rparr>
     | Circuit_Open \<Rightarrow> b)"

definition record_breaker_failure :: "int \<Rightarrow> breaker \<Rightarrow> breaker" where
  "record_breaker_failure now b0 = (let b = b0\<lparr>br_failed := br_failed b0 + 1,
       br_consecutive_failures := br_consecutive_failures b0 + 1, br_last_failure_time := Some now\<rparr> in
     case br_state b of
       Half_Open \<Rightarrow> (change_state Circuit_Open b)\<lparr>br_half_open_successes := 0\<rparr>
     | Circuit_Closed \<Rightarrow> if int (br_consecutive_failures b) \<ge> bc_failure_threshold (br_config b)
         then change_state Circuit_Open b else b
     | Circuit_Open \<Rightarrow> b)"

definition reset_breaker :: "breaker \<Rightarrow> breaker" where
  "reset_breaker b = (let b1 = b\<lparr>br_state := Circuit_Closed, br_consecutive_failures := 0, br_half_open_successes := 0\<rparr> in
     if br_state b \<noteq> Circuit_Closed
     then b1\<lparr>br_state_changes := br_state_changes b + 1, br_notified := br_notified b @ [(br_state b, Circuit_Closed)]\<rparr>
     else b1)"

section \<open>The decorator\<close>

text \<open>A function is what it does to the world \<open>'w\<close> and its exception or value.  The breaker is asked at \<open>now\<close> and told
  the outcome at \<open>later\<close>.\<close>

datatype ('e, 'a) call_result = Returned 'a | Raised 'e | CircuitOpenError

definition outcome :: "('e + 'a) \<times> 'w \<Rightarrow> ('e, 'a) call_result \<times> 'w" where
  "outcome r = (case fst r of Inr v \<Rightarrow> Returned v | Inl e \<Rightarrow> Raised e, snd r)"

definition with_circuit_breaker ::
    "('w \<Rightarrow> ('e + 'a) \<times> 'w) option \<Rightarrow> ('w \<Rightarrow> ('e + 'a) \<times> 'w) \<Rightarrow> int \<Rightarrow> int \<Rightarrow> breaker \<Rightarrow> 'w \<Rightarrow> (('e, 'a) call_result \<times> 'w) \<times> breaker" where
  "with_circuit_breaker fallback func now later b w = (let (allowed, b1) = allow_request now b in
     if \<not> allowed then (case fallback of Some f \<Rightarrow> (outcome (f w), b1) | None \<Rightarrow> ((CircuitOpenError, w), b1))
     else (let r = func w in
       (outcome r, case fst r of Inr v \<Rightarrow> record_breaker_success later b1 | Inl e \<Rightarrow> record_breaker_failure later b1)))"

section \<open>Runs\<close>

datatype breaker_call = Ask int | Succeed int | Fail int | Reset

definition call_time :: "breaker_call \<Rightarrow> int option" where
  "call_time c = (case c of Ask t \<Rightarrow> Some t | Succeed t \<Rightarrow> Some t | Fail t \<Rightarrow> Some t | Reset \<Rightarrow> None)"

definition breaker_after :: "breaker_call \<Rightarrow> breaker \<Rightarrow> breaker" where
  "breaker_after c b = (case c of Ask t \<Rightarrow> snd (allow_request t b) | Succeed t \<Rightarrow> record_breaker_success t b
     | Fail t \<Rightarrow> record_breaker_failure t b | Reset \<Rightarrow> reset_breaker b)"

definition reachable_breaker :: "breaker_config \<Rightarrow> breaker \<Rightarrow> bool" where
  "reachable_breaker cfg b = (\<exists>calls. b = fold breaker_after calls (new_breaker cfg))"

section \<open>The invariant\<close>

text \<open>The changes the callback was told of lead from the closed state to the present one, and every change but a reset
  follows the three states around.\<close>

fun state_path :: "circuit_state \<Rightarrow> (circuit_state \<times> circuit_state) list \<Rightarrow> circuit_state \<Rightarrow> bool" where
  "state_path s [] t = (s = t)"
| "state_path s ((a, b) # cs) t = (s = a \<and> a \<noteq> b \<and> (a, b) \<noteq> (Circuit_Closed, Half_Open) \<and> state_path b cs t)"

lemma state_path_append: "state_path s (cs @ [(a, b)]) t \<longleftrightarrow>
    state_path s cs a \<and> a \<noteq> b \<and> (a, b) \<noteq> (Circuit_Closed, Half_Open) \<and> b = t"
  by (induction s cs a rule: state_path.induct) auto

definition breaker_ok :: "breaker \<Rightarrow> bool" where
  "breaker_ok b = (
     (br_state b = Circuit_Closed \<longrightarrow> int (br_consecutive_failures b) < max 1 (bc_failure_threshold (br_config b))) \<and>
     (if br_state b = Half_Open then int (br_half_open_successes b) < max 1 (bc_success_threshold (br_config b))
      else br_half_open_successes b = 0) \<and>
     (br_state b = Circuit_Open \<longrightarrow> br_last_failure_time b \<noteq> None) \<and>
     br_consecutive_failures b \<le> br_failed b \<and> br_rejected b \<le> br_total b \<and>
     br_state_changes b = length (br_notified b) \<and> state_path Circuit_Closed (br_notified b) (br_state b))"

lemmas breaker_defs = allow_request_def record_breaker_success_def record_breaker_failure_def reset_breaker_def change_state_def Let_def

lemma ask_ok: "breaker_ok b \<Longrightarrow> breaker_ok (snd (allow_request now b))"
  by (cases "br_state b") (auto simp: breaker_ok_def breaker_defs state_path_append)

lemma succeed_ok: "breaker_ok b \<Longrightarrow> breaker_ok (record_breaker_success now b)"
  by (cases "br_state b") (auto simp: breaker_ok_def breaker_defs state_path_append)

lemma fail_ok: "breaker_ok b \<Longrightarrow> breaker_ok (record_breaker_failure now b)"
  by (cases "br_state b") (auto simp: breaker_ok_def breaker_defs state_path_append)

lemma reset_ok: "breaker_ok b \<Longrightarrow> breaker_ok (reset_breaker b)"
  by (cases "br_state b") (auto simp: breaker_ok_def breaker_defs state_path_append)

definition breaker_step :: "breaker \<Rightarrow> breaker \<Rightarrow> bool" where
  "breaker_step b b' = (\<exists>c. b' = breaker_after c b)"

interpretation breaking: invariant_machine "\<lambda>b. \<exists>cfg. b = new_breaker cfg" breaker_step breaker_ok
proof
  fix b assume "\<exists>cfg. b = new_breaker cfg"
  then show "breaker_ok b" by (auto simp: breaker_ok_def new_breaker_def)
next
  fix b b' assume "breaker_ok b" "breaker_step b b'"
  then show "breaker_ok b'"
    unfolding breaker_step_def by (elim exE) (rename_tac c, case_tac c, simp_all add: breaker_after_def ask_ok succeed_ok fail_ok reset_ok)
qed

lemma fold_steps: "breaker_step\<^sup>*\<^sup>* b (fold breaker_after calls b)"
proof (induction calls arbitrary: b)
  case (Cons c calls)
  have "breaker_step b (breaker_after c b)" by (auto simp: breaker_step_def)
  with Cons.IH[of "breaker_after c b"] show ?case by (simp add: converse_rtranclp_into_rtranclp)
qed simp

lemma reachable_breaker_inv: "reachable_breaker cfg b \<Longrightarrow> breaker_ok b"
  unfolding reachable_breaker_def using breaking.reachable_inv[OF _ fold_steps] by blast

text \<open>In every reachable state the counters agree with the state: a closed breaker is below its threshold, an open
  one remembers a failure, and the changes told to the callback lead from closed to the present state, never from closed
  to half open.\<close>

lemma reachable_breaker_ok: "reachable_breaker cfg b \<Longrightarrow> breaker_ok b"
  by (rule reachable_breaker_inv)

section \<open>When it opens\<close>

text \<open>The outcomes of requests, \<open>True\<close> a success, at their times.\<close>

definition tell :: "bool \<times> int \<Rightarrow> breaker \<Rightarrow> breaker" where
  "tell o_t b = (if fst o_t then record_breaker_success (snd o_t) b else record_breaker_failure (snd o_t) b)"

definition failing_run :: "nat \<Rightarrow> bool list \<Rightarrow> bool" where
  "failing_run n os = sublist (replicate n False) os"

definition closing_failures :: "bool list \<Rightarrow> nat" where
  "closing_failures os = length (takeWhile Not (rev os))"

lemma closing_failures_snoc: "closing_failures (os @ [ok]) = (if ok then 0 else Suc (closing_failures os))"
  by (simp add: closing_failures_def)

lemma suffix_failures: "suffix (replicate n False) os \<longleftrightarrow> n \<le> closing_failures os"
proof (induction n arbitrary: os)
  case (Suc n)
  show ?case
  proof (cases os rule: rev_cases)
    case (snoc os' ok)
    have "replicate (Suc n) False = replicate n False @ [False]" by (simp add: replicate_append_same)
    then have "suffix (replicate (Suc n) False) (os' @ [ok]) \<longleftrightarrow> \<not> ok \<and> suffix (replicate n False) os'"
      by (simp only: snoc_suffix_snoc) auto
    then show ?thesis using Suc.IH[of os'] by (simp add: snoc closing_failures_snoc)
  qed (simp add: closing_failures_def)
qed simp

lemma sublist_of_snoc: "sublist xs (ys @ [y]) \<longleftrightarrow> sublist xs ys \<or> suffix xs (ys @ [y])"
  using sublist_Cons_right[of "rev xs" y "rev ys"] sublist_rev[of xs "ys @ [y]"] sublist_rev[of xs ys]
  by (auto simp: suffix_to_prefix)

lemma failing_run_snoc: "failing_run n (os @ [ok]) \<longleftrightarrow> failing_run n os \<or> n \<le> closing_failures (os @ [ok])"
  by (simp only: failing_run_def sublist_of_snoc suffix_failures)

text \<open>The number of failures that opens a breaker.\<close>

definition opening_failures :: "breaker_config \<Rightarrow> nat" where
  "opening_failures cfg = nat (max 1 (bc_failure_threshold cfg))"

lemma tell_config [simp]: "br_config (tell o_t b) = br_config b"
  by (auto simp: tell_def breaker_defs split: circuit_state.splits)

lemma tell_open: "br_state b = Circuit_Open \<Longrightarrow> br_state (tell o_t b) = Circuit_Open"
  by (auto simp: tell_def breaker_defs)

lemma tell_closed: "br_state b = Circuit_Closed \<Longrightarrow> br_state (tell (ok, t) b) =
    (if \<not> ok \<and> opening_failures (br_config b) \<le> Suc (br_consecutive_failures b) then Circuit_Open else Circuit_Closed) \<and>
    br_consecutive_failures (tell (ok, t) b) = (if ok then 0 else Suc (br_consecutive_failures b))"
  by (auto simp: tell_def breaker_defs opening_failures_def)

lemma told_states:
  assumes "b = fold tell told (new_breaker cfg)"
  shows "if failing_run (opening_failures cfg) (map fst told) then br_state b = Circuit_Open
    else br_state b = Circuit_Closed \<and> br_consecutive_failures b = closing_failures (map fst told)"
  using assms
proof (induction told arbitrary: b rule: rev_induct)
  case Nil
  then show ?case by (simp add: failing_run_def new_breaker_def closing_failures_def opening_failures_def)
next
  case (snoc o_t told)
  let ?c = "fold tell told (new_breaker cfg)"
  have cfg: "br_config ?c = cfg" by (induction told rule: rev_induct) (simp_all add: new_breaker_def)
  obtain ok t where o_t: "o_t = (ok, t)" by (cases o_t)
  have b: "b = tell (ok, t) ?c" using snoc.prems by (simp add: o_t)
  have pos: "0 < opening_failures cfg" by (simp add: opening_failures_def)
  show ?case
  proof (cases "failing_run (opening_failures cfg) (map fst told)")
    case True
    then show ?thesis using snoc.IH[OF refl] by (simp add: b o_t failing_run_snoc tell_open)
  next
    case False
    then have "br_state ?c = Circuit_Closed" "br_consecutive_failures ?c = closing_failures (map fst told)"
      using snoc.IH[OF refl] by simp_all
    then show ?thesis using tell_closed[of ?c ok t] False pos
      by (simp add: b o_t failing_run_snoc closing_failures_snoc cfg)
  qed
qed

text \<open>C31: Requests that are made while it is closed open the breaker exactly when, somewhere among their outcomes, as many
  failures follow each other as the threshold says.\<close>

theorem opens_on_consecutive_failures:
  "br_state (fold tell told (new_breaker cfg)) = Circuit_Open \<longleftrightarrow>
     sublist (replicate (nat (max 1 (bc_failure_threshold cfg))) False) (map fst told)"
  using told_states[of "fold tell told (new_breaker cfg)" told cfg] by (simp add: failing_run_def opening_failures_def split: if_splits)

section \<open>While it is open\<close>

text \<open>The answers of a run of calls\<close>

fun answers :: "breaker_call list \<Rightarrow> breaker \<Rightarrow> bool list" where
  "answers [] b = []"
| "answers (c # cs) b = (case c of Ask t \<Rightarrow> [fst (allow_request t b)] | _ \<Rightarrow> []) @ answers cs (breaker_after c b)"

definition times_of :: "breaker_call list \<Rightarrow> int list" where
  "times_of cs = List.map_filter call_time cs"

definition late_failure :: "int \<Rightarrow> breaker_call \<Rightarrow> int" where
  "late_failure t0 c = (case c of Fail t \<Rightarrow> t | _ \<Rightarrow> t0)"

lemma open_call:
  assumes "br_state b = Circuit_Open" "br_last_failure_time b = Some t0" "call_time c = Some t" "t < t0 + bc_recovery_timeout (br_config b)"
  shows "br_state (breaker_after c b) = Circuit_Open" "br_config (breaker_after c b) = br_config b"
    "br_last_failure_time (breaker_after c b) = Some (late_failure t0 c)" "c = Ask u \<Longrightarrow> \<not> fst (allow_request u b)"
  using assms by (cases c; simp add: breaker_after_def breaker_defs should_attempt_recovery_def call_time_def late_failure_def)+

lemma call_time_none: "call_time c = None \<longleftrightarrow> c = Reset"
  by (cases c) (simp_all add: call_time_def)

lemma open_rejects_run:
  "br_state b = Circuit_Open \<Longrightarrow> br_last_failure_time b = Some t0 \<Longrightarrow> Reset \<notin> set cs \<Longrightarrow> sorted (t0 # times_of cs) \<Longrightarrow>
   list_all (\<lambda>t. t < t0 + bc_recovery_timeout (br_config b)) (times_of cs) \<Longrightarrow>
   list_all Not (answers cs b) \<and> br_state (fold breaker_after cs b) = Circuit_Open"
proof (induction cs arbitrary: b t0)
  case (Cons c cs)
  from Cons.prems(3) have "call_time c \<noteq> None" by (auto simp: call_time_none)
  then obtain t where t: "call_time c = Some t" by blast
  then have times: "times_of (c # cs) = t # times_of cs" by (simp add: times_of_def map_filter_simps)
  note in_time = Cons.prems(4,5)[unfolded times]
  let ?b = "breaker_after c b"
  have "t < t0 + bc_recovery_timeout (br_config b)" using in_time(2) by simp
  note b' = open_call[OF Cons.prems(1,2) t this]
  have late: "t0 \<le> late_failure t0 c" "late_failure t0 c \<le> t" using in_time(1) t
    by (auto simp: late_failure_def call_time_def split: breaker_call.splits)
  have "sorted (late_failure t0 c # times_of cs)" using in_time(1) late by auto
  moreover have "list_all (\<lambda>s. s < late_failure t0 c + bc_recovery_timeout (br_config ?b)) (times_of cs)"
    using in_time(2) late by (auto simp: list_all_iff b'(2))
  moreover have "Reset \<notin> set cs" using Cons.prems(3) by simp
  ultimately have "list_all Not (answers cs ?b) \<and> br_state (fold breaker_after cs ?b) = Circuit_Open"
    using Cons.IH[OF b'(1,3)] by blast
  moreover have "list_all Not (case c of Ask t \<Rightarrow> [fst (allow_request t b)] | _ \<Rightarrow> [])"
    using b'(4) by (cases c) simp_all
  ultimately show ?case by simp
qed simp

text \<open>An open breaker lets nothing through until the recovery time has passed since its last failure, whatever
  late outcomes are reported meanwhile.\<close>

lemma open_breaker_rejects:
  assumes "br_state b = Circuit_Open" "br_last_failure_time b = Some t0" "Reset \<notin> set calls"
    and "sorted (t0 # times_of calls)" "list_all (\<lambda>t. t < t0 + bc_recovery_timeout (br_config b)) (times_of calls)"
  shows "list_all Not (answers calls b) \<and> br_state (fold breaker_after calls b) = Circuit_Open"
  by (rule open_rejects_run[OF assms])

section \<open>Recovery\<close>

lemma succeed_half_open:
  "br_state b = Half_Open \<Longrightarrow> int (br_half_open_successes b + length ts) = max 1 (bc_success_threshold (br_config b)) \<Longrightarrow>
   0 < length ts \<Longrightarrow>
   let b' = fold record_breaker_success ts b in br_state b' = Circuit_Closed \<and> br_consecutive_failures b' = 0 \<and> br_half_open_successes b' = 0"
proof (induction ts arbitrary: b)
  case (Cons t ts)
  show ?case
  proof (cases ts)
    case Nil
    then show ?thesis using Cons.prems by (auto simp: breaker_defs)
  next
    case (Cons u us)
    let ?b = "record_breaker_success t b"
    have "br_state ?b = Half_Open" "br_half_open_successes ?b = Suc (br_half_open_successes b)" "br_config ?b = br_config b"
      using Cons.prems Cons by (auto simp: breaker_defs)
    then show ?thesis using Cons.IH[of ?b] Cons.prems Cons by simp
  qed
qed simp

text \<open>An open breaker whose recovery time has passed lets the next request through, and after the successes the
  threshold asks for it is closed with its failures forgotten.\<close>

lemma breaker_recovers:
  assumes "reachable_breaker cfg b" "br_state b = Circuit_Open" "br_last_failure_time b = Some t0"
    and "now \<ge> t0 + bc_recovery_timeout (br_config b)" "int (length ts) = max 1 (bc_success_threshold (br_config b))"
  shows "fst (allow_request now b) \<and> br_state (fold record_breaker_success ts (snd (allow_request now b))) = Circuit_Closed \<and>
    br_consecutive_failures (fold record_breaker_success ts (snd (allow_request now b))) = 0"
proof -
  let ?b = "snd (allow_request now b)"
  have ok: "br_half_open_successes b = 0" using reachable_breaker_inv[OF assms(1)] assms(2) by (simp add: breaker_ok_def)
  have "fst (allow_request now b)" "br_state ?b = Half_Open" "br_half_open_successes ?b = 0" "br_config ?b = br_config b"
    using assms(2-4) ok by (simp_all add: breaker_defs should_attempt_recovery_def)
  moreover have "ts \<noteq> []" using assms(5) by auto
  ultimately show ?thesis using succeed_half_open[of ?b ts] assms(5) by (simp add: Let_def)
qed

text \<open>A rejected request runs nothing: without a fallback the world is as it was.\<close>

lemma rejected_call_runs_nothing: "\<not> fst (allow_request now b) \<Longrightarrow>
    with_circuit_breaker None func now later b w = ((CircuitOpenError, w), snd (allow_request now b))"
  by (simp add: with_circuit_breaker_def split_beta)

section \<open>Runs\<close>

text \<open>Two failures open the breaker; it rejects at 20 seconds and recovers after 31.\<close>

definition sample_config :: breaker_config where
  "sample_config = \<lparr>bc_failure_threshold = 2, bc_recovery_timeout = 30000, bc_success_threshold = 1\<rparr>"

definition tripped :: breaker where
  "tripped = fold breaker_after [Ask 0, Fail 1, Ask 2, Fail 5] (new_breaker sample_config)"

lemma tripped_reachable: "reachable_breaker sample_config tripped"
  unfolding reachable_breaker_def tripped_def by blast

lemma tripped_state: "br_state tripped = Circuit_Open" "br_last_failure_time tripped = Some 5"
  "bc_recovery_timeout (br_config tripped) = 30000" "bc_success_threshold (br_config tripped) = 1"
  by code_simp+

lemma reachable_breaker_ok_witness: "breaker_ok tripped"
  by (rule reachable_breaker_ok[OF tripped_reachable])

lemma open_breaker_rejects_witness:
  "list_all Not (answers [Ask 10, Succeed 15000, Ask 20000] tripped) \<and>
    br_state (fold breaker_after [Ask 10, Succeed 15000, Ask 20000] tripped) = Circuit_Open"
  by (rule open_breaker_rejects[OF tripped_state(1,2)])
    (simp_all add: times_of_def map_filter_simps call_time_def tripped_state)

lemma breaker_recovers_witness:
  "fst (allow_request 31000 tripped) \<and> br_state (fold record_breaker_success [31050] (snd (allow_request 31000 tripped))) = Circuit_Closed \<and>
    br_consecutive_failures (fold record_breaker_success [31050] (snd (allow_request 31000 tripped))) = 0"
  by (rule breaker_recovers[OF tripped_reachable tripped_state(1,2)]) (simp_all add: tripped_state)

text \<open>A failure of a request from before the opening, reported late, postpones the recovery: at 31 seconds the
  breaker still rejects.\<close>

lemma late_failure_postpones: "answers [Ask 31000] tripped = [True]" "answers [Fail 29000, Ask 31000] tripped = [False]"
  by code_simp+

text \<open>The half-open state lets every request through, not a limited number.\<close>

lemma half_open_is_unlimited: "br_state b = Half_Open \<Longrightarrow> fst (allow_request now b) \<and> br_state (snd (allow_request now b)) = Half_Open"
  by (simp add: breaker_defs)

end
