(* ===== verification/Key_Pool.thy ===== *)
theory Key_Pool
  imports Shell_Text State_Machine "HOL-Library.Multiset"
begin

text \<open>
  Rotation of API keys with backoff per key (\<open>services/llm/key_pool.py\<close>).  \<open>time.monotonic()\<close> is the argument
  \<open>now\<close>, in whole milliseconds; the environment and the settings are functions.  The pool is the list of its key
  states; \<open>is_available\<close> returns its answer and the state it leaves.
\<close>

section \<open>One key\<close>

definition STANDARD_BACKOFF_STAGES :: "int list" where
  "STANDARD_BACKOFF_STAGES = [60000, 300000, 1500000, 3600000]"

definition BILLING_BACKOFF_INITIAL :: int where
  "BILLING_BACKOFF_INITIAL = 18000000"

definition FAILURE_RESET_WINDOW :: int where
  "FAILURE_RESET_WINDOW = 86400000"

record key_state =
  ks_key :: string
  ks_last_used :: int
  ks_cooldown_until :: int
  ks_failure_count :: nat
  ks_last_failure_time :: int
  ks_billing_error :: bool

definition new_key :: "string \<Rightarrow> key_state" where
  "new_key k = \<lparr>ks_key = k, ks_last_used = 0, ks_cooldown_until = 0, ks_failure_count = 0, ks_last_failure_time = 0,
     ks_billing_error = False\<rparr>"

definition forget_old_failures :: "int \<Rightarrow> key_state \<Rightarrow> key_state" where
  "forget_old_failures now s =
     (if ks_failure_count s > 0 \<and> ks_last_failure_time s > 0 \<and> now - ks_last_failure_time s > FAILURE_RESET_WINDOW
      then s\<lparr>ks_failure_count := 0, ks_cooldown_until := 0, ks_billing_error := False\<rparr> else s)"

definition is_available :: "int \<Rightarrow> key_state \<Rightarrow> bool \<times> key_state" where
  "is_available now s = (let s1 = forget_old_failures now s in (now \<ge> ks_cooldown_until s1, s1))"

definition key_success :: "int \<Rightarrow> key_state \<Rightarrow> key_state" where
  "key_success now s = s\<lparr>ks_last_used := now, ks_failure_count := 0, ks_cooldown_until := 0, ks_billing_error := False\<rparr>"

definition key_failure :: "bool \<Rightarrow> int \<Rightarrow> key_state \<Rightarrow> key_state" where
  "key_failure is_billing now s0 = (let s = s0\<lparr>ks_failure_count := ks_failure_count s0 + 1, ks_last_failure_time := now\<rparr> in
     if is_billing then s\<lparr>ks_billing_error := True, ks_cooldown_until := now + BILLING_BACKOFF_INITIAL\<rparr>
     else (let stage_idx = min (ks_failure_count s - 1) (length STANDARD_BACKOFF_STAGES - 1) in
       s\<lparr>ks_cooldown_until := now + STANDARD_BACKOFF_STAGES ! stage_idx\<rparr>))"

definition key_force_retry :: "key_state \<Rightarrow> key_state" where
  "key_force_retry s = s\<lparr>ks_cooldown_until := 0\<rparr>"

definition mask_key :: "string \<Rightarrow> string" where
  "mask_key key = (if length key \<le> 8 then ''***'' else take 4 key @ ''...'' @ drop (length key - 4) key)"

section \<open>The pool\<close>

type_synonym pool = "key_state list"

definition unique_keys :: "string list \<Rightarrow> string list" where
  "unique_keys keys = rev (remdups (rev (filter (\<lambda>k. k \<noteq> []) (map py_strip keys))))"

text \<open>\<open>ValueError\<close> is its message.\<close>

definition make_pool :: "string list \<Rightarrow> string + pool" where
  "make_pool keys = (if keys = [] then Inl ''KeyPool requires at least one key''
     else if unique_keys keys = [] then Inl ''KeyPool requires at least one non-empty key''
     else Inr (map new_key (unique_keys keys)))"

definition listed_keys :: "string \<Rightarrow> string list" where
  "listed_keys s = filter (\<lambda>k. k \<noteq> []) (map py_strip (split_commas [] s))"

definition from_env :: "(string \<Rightarrow> string option) \<Rightarrow> string \<Rightarrow> string option \<Rightarrow> string option \<Rightarrow> string + pool option" where
  "from_env environ multi_var fallback_var fallback_value =
     (let keys = listed_keys (py_strip (opt_str (environ multi_var)));
          single = (case fallback_var of Some v \<Rightarrow> if v \<noteq> [] then py_strip (opt_str (environ v)) else [] | None \<Rightarrow> []);
          fallback = listed_keys (opt_str fallback_value) in
      if keys \<noteq> [] then map_sum id Some (make_pool keys)
      else if single \<noteq> [] then map_sum id Some (make_pool [single])
      else if fallback \<noteq> [] then map_sum id Some (make_pool fallback)
      else Inr None)"

text \<open>The stable sort by last use of the available keys, and its first element\<close>

definition available_indexes :: "int \<Rightarrow> pool \<Rightarrow> nat list" where
  "available_indexes now p = filter (\<lambda>i. fst (is_available now (p ! i))) [0..<length p]"

definition get_key :: "int \<Rightarrow> pool \<Rightarrow> string option \<times> pool" where
  "get_key now p = (let p1 = map (snd \<circ> is_available now) p in
     case sort_key (\<lambda>i. ks_last_used (p1 ! i)) (available_indexes now p) of
       [] \<Rightarrow> (None, p1)
     | i # _ \<Rightarrow> (Some (ks_key (p1 ! i)), p1[i := (p1 ! i)\<lparr>ks_last_used := now\<rparr>]))"

text \<open>The first state of a key changed; \<open>_find\<close> and the mutation of what it finds\<close>

fun on_key :: "string \<Rightarrow> (key_state \<Rightarrow> key_state) \<Rightarrow> pool \<Rightarrow> pool" where
  "on_key k f [] = []"
| "on_key k f (s # p) = (if ks_key s = k then f s # p else s # on_key k f p)"

definition report_success :: "int \<Rightarrow> string \<Rightarrow> pool \<Rightarrow> pool" where
  "report_success now k p = on_key k (key_success now) p"

definition report_failure :: "int \<Rightarrow> bool \<Rightarrow> string \<Rightarrow> pool \<Rightarrow> pool" where
  "report_failure now is_billing k p = on_key k (key_failure is_billing now) p"

definition force_retry :: "string option \<Rightarrow> pool \<Rightarrow> pool" where
  "force_retry key p = (case key of None \<Rightarrow> map key_force_retry p | Some k \<Rightarrow> on_key k key_force_retry p)"

record key_diagnostics =
  kd_key_prefix :: string
  kd_available :: bool
  kd_failure_count :: nat
  kd_billing_error :: bool
  kd_cooldown_remaining :: int

definition get_diagnostics :: "int \<Rightarrow> pool \<Rightarrow> key_diagnostics list \<times> pool" where
  "get_diagnostics now p = (let p1 = map (snd \<circ> is_available now) p in
     (map (\<lambda>s. \<lparr>kd_key_prefix = mask_key (ks_key s), kd_available = fst (is_available now s), kd_failure_count = ks_failure_count s,
        kd_billing_error = ks_billing_error s, kd_cooldown_remaining = max 0 (ks_cooldown_until s - now)\<rparr>) p1, p1))"

text \<open>The pools by provider, made when first asked for.  The settings give the fallback of a provider.\<close>

definition make_provider_pool :: "(string \<Rightarrow> string option) \<Rightarrow> (string \<Rightarrow> string option) \<Rightarrow> string \<Rightarrow> string + pool option" where
  "make_provider_pool environ settings provider =
     (if provider \<in> {''openai'', ''openai_compatible''}
        then from_env environ ''OPENAI_API_KEYS'' (Some ''OPENAI_API_KEY'') (settings ''openai_api_key'')
      else if provider = ''anthropic''
        then from_env environ ''ANTHROPIC_API_KEYS'' (Some ''ANTHROPIC_API_KEY'') (settings ''anthropic_api_key'')
      else if provider = ''google''
        then from_env environ ''GOOGLE_API_KEYS'' (Some ''GOOGLE_API_KEY'') (settings ''google_api_key'')
      else Inr None)"

definition get_key_pool :: "(string \<Rightarrow> string option) \<Rightarrow> (string \<Rightarrow> string option) \<Rightarrow> string \<Rightarrow> (string \<rightharpoonup> pool)
    \<Rightarrow> string + pool option \<times> (string \<rightharpoonup> pool)" where
  "get_key_pool environ settings provider pools = (case pools provider of
      Some p \<Rightarrow> Inr (Some p, pools)
    | None \<Rightarrow> (case make_provider_pool environ settings provider of
        Inl e \<Rightarrow> Inl e
      | Inr None \<Rightarrow> Inr (None, pools)
      | Inr (Some p) \<Rightarrow> Inr (Some p, pools(provider \<mapsto> p))))"

end
