(* ===== verification/Key_Pool_Properties.thy ===== *)
theory Key_Pool_Properties
  imports Key_Pool
begin

text \<open>
  What the key pool guarantees: keys are never lost, only a key out of its cooldown is handed out and the one used
  longest ago, no cooldown outlasts five hours, and keys that are all available take turns.
\<close>

section \<open>Reachable pools\<close>

inductive reachable_pool :: "string list \<Rightarrow> int \<Rightarrow> pool \<Rightarrow> bool" for keys :: "string list" where
  start: "make_pool keys = Inr p \<Longrightarrow> 0 \<le> t \<Longrightarrow> reachable_pool keys t p"
| later: "reachable_pool keys t p \<Longrightarrow> t \<le> u \<Longrightarrow> reachable_pool keys u p"
| get: "reachable_pool keys t p \<Longrightarrow> reachable_pool keys t (snd (get_key t p))"
| success: "reachable_pool keys t p \<Longrightarrow> reachable_pool keys t (report_success t k p)"
| failure: "reachable_pool keys t p \<Longrightarrow> reachable_pool keys t (report_failure t is_billing k p)"
| retry: "reachable_pool keys t p \<Longrightarrow> reachable_pool keys t (force_retry which p)"
| diagnose: "reachable_pool keys t p \<Longrightarrow> reachable_pool keys t (snd (get_diagnostics t p))"

definition key_ok :: "int \<Rightarrow> key_state \<Rightarrow> bool" where
  "key_ok t s = (0 \<le> ks_last_failure_time s \<and> ks_last_failure_time s \<le> t \<and> 0 \<le> ks_last_used s \<and> ks_last_used s \<le> t \<and>
     (if ks_failure_count s = 0 then ks_cooldown_until s = 0 \<and> \<not> ks_billing_error s
      else ks_cooldown_until s \<le> ks_last_failure_time s + (if ks_billing_error s then BILLING_BACKOFF_INITIAL else 3600000)))"

definition pool_ok :: "string list \<Rightarrow> int \<Rightarrow> pool \<Rightarrow> bool" where
  "pool_ok keys t p = (0 \<le> t \<and> map ks_key p = unique_keys keys \<and> p \<noteq> [] \<and> list_all (key_ok t) p)"

lemma unique_keys_distinct: "distinct (unique_keys keys)"
  by (simp add: unique_keys_def)

lemma forget_key [simp]: "ks_key (forget_old_failures now s) = ks_key s" "ks_last_used (forget_old_failures now s) = ks_last_used s"
  by (simp_all add: forget_old_failures_def)

lemma forget_ok: "key_ok t s \<Longrightarrow> key_ok t (forget_old_failures t s)"
  by (simp add: forget_old_failures_def key_ok_def)

lemma snd_is_available: "snd (is_available now s) = forget_old_failures now s"
  by (simp add: is_available_def Let_def)

lemma fst_is_available: "fst (is_available now s) \<longleftrightarrow> ks_cooldown_until (forget_old_failures now s) \<le> now"
  by (simp add: is_available_def Let_def)

lemma stage_bounds: "STANDARD_BACKOFF_STAGES ! min n (length STANDARD_BACKOFF_STAGES - 1) \<in> {60000, 300000, 1500000, 3600000}"
proof -
  have "min n (length STANDARD_BACKOFF_STAGES - 1) < length STANDARD_BACKOFF_STAGES" by (simp add: STANDARD_BACKOFF_STAGES_def)
  then have "STANDARD_BACKOFF_STAGES ! min n (length STANDARD_BACKOFF_STAGES - 1) \<in> set STANDARD_BACKOFF_STAGES" by (rule nth_mem)
  then show ?thesis by (simp add: STANDARD_BACKOFF_STAGES_def)
qed

lemma failure_ok:
  assumes "key_ok t s" "0 \<le> t"
  shows "key_ok t (key_failure b t s)"
  using assms stage_bounds[of "ks_failure_count s"]
  by (auto simp: key_failure_def key_ok_def BILLING_BACKOFF_INITIAL_def Let_def)

lemma success_ok: "key_ok t s \<Longrightarrow> 0 \<le> t \<Longrightarrow> key_ok t (key_success t s)"
  by (auto simp: key_success_def key_ok_def)

lemma retry_ok: "key_ok t s \<Longrightarrow> key_ok t (key_force_retry s)"
  by (auto simp: key_force_retry_def key_ok_def BILLING_BACKOFF_INITIAL_def split: if_splits)

lemma key_ok_later: "key_ok t s \<Longrightarrow> t \<le> u \<Longrightarrow> key_ok u s"
  by (auto simp: key_ok_def split: if_splits)

lemma on_key_keys: "(\<And>s. ks_key (f s) = ks_key s) \<Longrightarrow> map ks_key (on_key k f p) = map ks_key p"
  by (induction p) auto

lemma on_key_ok: "(\<And>s. key_ok t s \<Longrightarrow> key_ok t (f s)) \<Longrightarrow> list_all (key_ok t) p \<Longrightarrow> list_all (key_ok t) (on_key k f p)"
  by (induction p) auto

lemma on_key_nonempty [simp]: "on_key k f p = [] \<longleftrightarrow> p = []"
  by (cases p) auto

lemma on_key_pool_ok:
  assumes "pool_ok keys t p" "\<And>s. ks_key (f s) = ks_key s" "\<And>s. key_ok t s \<Longrightarrow> key_ok t (f s)"
  shows "pool_ok keys t (on_key k f p)"
  using assms by (auto simp: pool_ok_def on_key_keys intro: on_key_ok)

lemma map_pool_ok:
  assumes "pool_ok keys t p" "\<And>s. ks_key (f s) = ks_key s" "\<And>s. key_ok t s \<Longrightarrow> key_ok t (f s)"
  shows "pool_ok keys t (map f p)"
  using assms by (auto simp: pool_ok_def list_all_iff comp_def)

text \<open>What \<open>get_key\<close> does: it fails when every key cools down, and otherwise takes an available key that was used
  longest ago.\<close>

lemma get_key_cases:
  obtains (none) "get_key now p = (None, map (forget_old_failures now) p)" "\<forall>s \<in> set p. \<not> fst (is_available now s)"
  | (key) i where "i < length p" "fst (is_available now (p ! i))"
      "\<forall>s \<in> set p. fst (is_available now s) \<longrightarrow> ks_last_used (p ! i) \<le> ks_last_used s"
      "get_key now p = (Some (ks_key (p ! i)), (map (forget_old_failures now) p)[i := (forget_old_failures now (p ! i))\<lparr>ks_last_used := now\<rparr>])"
proof -
  let ?p1 = "map (forget_old_failures now) p"
  let ?f = "\<lambda>i. ks_last_used (?p1 ! i)"
  have p1: "map (snd \<circ> is_available now) p = ?p1" by (simp add: snd_is_available)
  have avail: "i \<in> set (available_indexes now p) \<longleftrightarrow> i < length p \<and> fst (is_available now (p ! i))" for i
    by (auto simp: available_indexes_def)
  show ?thesis
  proof (cases "sort_key ?f (available_indexes now p)")
    case Nil
    then have "available_indexes now p = []" by (metis set_empty set_sort)
    then have "\<forall>s \<in> set p. \<not> fst (is_available now s)" using avail by (auto simp: in_set_conv_nth)
    with Nil show ?thesis by (intro none) (simp_all add: get_key_def p1)
  next
    case (Cons i js)
    have i: "i < length p" "fst (is_available now (p ! i))" using avail[of i] Cons by (metis list.set_intros(1) set_sort)+
    have "?f i \<le> ?f j" if "j \<in> set (available_indexes now p)" for j
    proof -
      have "sorted (map ?f (i # js))" using Cons by (metis sorted_sort_key)
      moreover have "j \<in> set (i # js)" using that Cons by (metis set_sort)
      ultimately show ?thesis by auto
    qed
    then have "\<forall>s \<in> set p. fst (is_available now s) \<longrightarrow> ks_last_used (p ! i) \<le> ks_last_used s"
      using avail i(1) by (auto simp: in_set_conv_nth)
    with i Cons show ?thesis by (intro key[of i]) (simp_all add: get_key_def p1)
  qed
qed

lemma get_key_ok:
  assumes "pool_ok keys t p"
  shows "pool_ok keys t (snd (get_key t p))"
proof -
  have p1: "pool_ok keys t (map (forget_old_failures t) p)" using assms by (rule map_pool_ok) (simp_all add: forget_ok)
  show ?thesis
  proof (cases rule: get_key_cases[of t p])
    case none
    then show ?thesis using p1 by simp
  next
    case (key i)
    let ?s = "(forget_old_failures t (p ! i))\<lparr>ks_last_used := t\<rparr>"
    have "key_ok t (forget_old_failures t (p ! i))" "0 \<le> t"
      using assms key(1) forget_ok by (auto simp: pool_ok_def list_all_length)
    then have "key_ok t ?s" by (auto simp: key_ok_def)
    moreover have "map ks_key ((map (forget_old_failures t) p)[i := ?s]) = map ks_key p"
      using key(1) by (auto simp: map_update comp_def intro!: nth_equalityI simp: nth_list_update)
    moreover have "list_all (key_ok t) ((map (forget_old_failures t) p)[i := ?s])"
      using p1 calculation(1) set_update_subset_insert[of "map (forget_old_failures t) p" i ?s]
      by (auto simp: pool_ok_def list_all_iff)
    ultimately show ?thesis using p1 key(4) by (auto simp: pool_ok_def comp_def)
  qed
qed

lemma reachable_pool_inv: "reachable_pool keys t p \<Longrightarrow> pool_ok keys t p"
proof (induction rule: reachable_pool.induct)
  case (start p t)
  then show ?case by (auto simp: make_pool_def pool_ok_def list_all_iff comp_def new_key_def key_ok_def split: if_splits)
next
  case (later t p u)
  then show ?case by (auto simp: pool_ok_def list_all_iff intro: key_ok_later)
next
  case (success t p k)
  have "0 \<le> t" using success.IH by (simp add: pool_ok_def)
  moreover have "ks_key (key_success t s) = ks_key s" for s by (simp add: key_success_def)
  ultimately show ?case using success.IH unfolding report_success_def
    by (intro on_key_pool_ok) (simp_all add: success_ok)
next
  case (failure t p b k)
  have "0 \<le> t" using failure.IH by (simp add: pool_ok_def)
  moreover have "ks_key (key_failure b t s) = ks_key s" for s by (simp add: key_failure_def Let_def)
  ultimately show ?case using failure.IH unfolding report_failure_def
    by (intro on_key_pool_ok) (simp_all add: failure_ok)
next
  case (retry t p which)
  have "ks_key (key_force_retry s) = ks_key s" for s by (simp add: key_force_retry_def)
  with retry.IH show ?case
    by (cases which) (simp_all add: force_retry_def on_key_pool_ok map_pool_ok retry_ok)
next
  case (diagnose t p)
  have "snd (get_diagnostics t p) = map (forget_old_failures t) p"
    by (simp add: get_diagnostics_def snd_is_available)
  with diagnose.IH show ?case using map_pool_ok[of keys t p "forget_old_failures t"] forget_ok by simp
qed (rule get_key_ok)

section \<open>What is handed out\<close>

text \<open>The pool keeps the keys it was given, each once and in their order, and a key handed out is out of its
  cooldown and was used longest ago among those; nothing is handed out only when every key cools down.\<close>

lemma get_key_takes_least_recent:
  assumes "reachable_pool keys t p" "t \<le> now"
  shows "map ks_key p = unique_keys keys \<and> (case fst (get_key now p) of
      None \<Rightarrow> list_all (\<lambda>s. \<not> fst (is_available now s)) p
    | Some k \<Rightarrow> \<exists>s \<in> set p. ks_key s = k \<and> fst (is_available now s) \<and>
        list_all (\<lambda>r. fst (is_available now r) \<longrightarrow> ks_last_used s \<le> ks_last_used r) p)"
proof -
  have "map ks_key p = unique_keys keys" using reachable_pool_inv[OF assms(1)] by (simp add: pool_ok_def)
  then show ?thesis by (cases rule: get_key_cases[of now p]) (auto simp: list_all_iff)
qed

text \<open>No cooldown lasts for ever: five hours after the last event the pool hands out a key.\<close>

lemma pool_recovers:
  assumes "reachable_pool keys t p" "now \<ge> t + BILLING_BACKOFF_INITIAL"
  shows "\<exists>k \<in> set (unique_keys keys). fst (get_key now p) = Some k"
proof -
  have ok: "pool_ok keys t p" by (rule reachable_pool_inv[OF assms(1)])
  then obtain s where s: "s \<in> set p" "key_ok t s" and t: "0 \<le> t" by (auto simp: pool_ok_def list_all_iff) (metis list.set_intros(1) neq_Nil_conv)
  have "ks_cooldown_until s \<le> now" using s(2) t assms(2) by (auto simp: key_ok_def BILLING_BACKOFF_INITIAL_def split: if_splits)
  moreover have "0 \<le> now" using t assms(2) by (simp add: BILLING_BACKOFF_INITIAL_def)
  ultimately have "fst (is_available now s)" by (simp add: fst_is_available forget_old_failures_def)
  then show ?thesis
  proof (cases rule: get_key_cases[of now p])
    case none
    then show ?thesis using s(1) \<open>fst (is_available now s)\<close> by blast
  next
    case (key i)
    have keys: "map ks_key p = unique_keys keys" using ok by (simp add: pool_ok_def)
    have "ks_key (p ! i) \<in> set (map ks_key p)" using key(1) by simp
    then show ?thesis unfolding keys using key(4) by simp
  qed
qed

section \<open>Taking turns\<close>

fun get_keys :: "int list \<Rightarrow> pool \<Rightarrow> string option list" where
  "get_keys [] p = []"
| "get_keys (t # ts) p = fst (get_key t p) # get_keys ts (snd (get_key t p))"

text \<open>A key without failures is available and stays as it is.\<close>

definition clean_key :: "key_state \<Rightarrow> bool" where
  "clean_key s = (ks_failure_count s = 0 \<and> ks_cooldown_until s = 0)"

lemma clean_available: "clean_key s \<Longrightarrow> 0 \<le> now \<Longrightarrow> forget_old_failures now s = s \<and> fst (is_available now s)"
  by (simp add: clean_key_def fst_is_available forget_old_failures_def)

definition unused_since :: "int \<Rightarrow> pool \<Rightarrow> pool" where
  "unused_since c p = filter (\<lambda>s. ks_last_used s < c) p"

lemma unused_update: "i < length p \<Longrightarrow> ks_last_used (p ! i) < c \<Longrightarrow> c \<le> ks_last_used s \<Longrightarrow>
    mset (map ks_key (unused_since c p)) = add_mset (ks_key (p ! i)) (mset (map ks_key (unused_since c (p[i := s]))))"
  by (simp add: unused_since_def upd_conv_take_nth_drop) (subst (1) id_take_nth_drop[of i p], simp_all)

lemma turns:
  "list_all clean_key p \<Longrightarrow> 0 \<le> c \<Longrightarrow> list_all (\<lambda>t. c \<le> t) ts \<Longrightarrow> length ts = length (unused_since c p) \<Longrightarrow>
   mset (get_keys ts p) = image_mset Some (mset (map ks_key (unused_since c p)))"
proof (induction ts arbitrary: p)
  case Nil
  then show ?case by simp
next
  case (Cons t ts)
  have clean: "forget_old_failures t s = s" "fst (is_available t s)" if "s \<in> set p" for s
    using that Cons.prems(1-3) clean_available[of s t] by (auto simp: list_all_iff)
  then have same: "map (forget_old_failures t) p = p" by (simp add: map_idI)
  from Cons.prems(4) have "unused_since c p \<noteq> []" by auto
  then obtain u where u: "u \<in> set p" "ks_last_used u < c"
    by (auto simp: unused_since_def filter_empty_conv)
  show ?case
  proof (cases rule: get_key_cases[of t p])
    case none
    then show ?thesis using u(1) clean(2) by blast
  next
    case (key i)
    let ?s = "(p ! i)\<lparr>ks_last_used := t\<rparr>"
    have i: "ks_last_used (p ! i) < c" using key(3) u clean(2)[OF u(1)] by fastforce
    have get: "get_key t p = (Some (ks_key (p ! i)), p[i := ?s])"
      using key(1,4) clean(1)[of "p ! i"] same by simp
    have left: "mset (map ks_key (unused_since c p)) = add_mset (ks_key (p ! i)) (mset (map ks_key (unused_since c (p[i := ?s]))))"
      using Cons.prems(3) by (intro unused_update[OF key(1) i]) simp
    have "list_all clean_key (p[i := ?s])"
      using Cons.prems(1) key(1) by (auto simp: list_all_length nth_list_update clean_key_def)
    moreover have "length ts = length (unused_since c (p[i := ?s]))"
      using arg_cong[OF left, of size] Cons.prems(4) by simp
    ultimately have "mset (get_keys ts (p[i := ?s])) = image_mset Some (mset (map ks_key (unused_since c (p[i := ?s]))))"
      using Cons.prems(2,3) by (intro Cons.IH) simp_all
    then show ?thesis by (simp only: get_keys.simps get left) simp
  qed
qed

text \<open>C32: Keys without failures take turns: in as many calls as there are keys, later than their last uses, each key is
  handed out once.\<close>

theorem keys_take_turns:
  assumes "reachable_pool keys t p" "list_all (\<lambda>s. ks_failure_count s = 0) p" "length ts = length p"
    and "list_all (\<lambda>u. t < u) ts"
  shows "mset (get_keys ts p) = mset (map Some (unique_keys keys))"
proof -
  have ok: "pool_ok keys t p" by (rule reachable_pool_inv[OF assms(1)])
  then have "unused_since (t + 1) p = p" "list_all clean_key p" "0 \<le> t"
    using assms(2) by (auto simp: unused_since_def pool_ok_def list_all_iff key_ok_def clean_key_def)
  moreover have "list_all (\<lambda>u. t + 1 \<le> u) ts" using assms(4) by (auto simp: list_all_iff)
  ultimately have "mset (get_keys ts p) = image_mset Some (mset (map ks_key p))"
    using turns[of p "t + 1" ts] assms(3) by simp
  moreover have "map ks_key p = unique_keys keys" using ok by (simp add: pool_ok_def)
  ultimately show ?thesis by simp
qed

section \<open>Runs\<close>

definition two_keys :: pool where
  "two_keys = map new_key [''alpha'', ''beta'']"

lemma two_keys_made: "make_pool ['' alpha'', ''beta'', ''alpha''] = Inr two_keys"
  by code_simp

lemma two_keys_unique: "unique_keys ['' alpha'', ''beta'', ''alpha''] = [''alpha'', ''beta'']"
  by code_simp

lemma two_keys_reachable: "reachable_pool ['' alpha'', ''beta'', ''alpha''] 0 two_keys"
  by (rule reachable_pool.start[OF two_keys_made]) simp

lemma get_key_takes_least_recent_witness:
  "map ks_key two_keys = unique_keys ['' alpha'', ''beta'', ''alpha''] \<and> (case fst (get_key 5 two_keys) of
      None \<Rightarrow> list_all (\<lambda>s. \<not> fst (is_available 5 s)) two_keys
    | Some k \<Rightarrow> \<exists>s \<in> set two_keys. ks_key s = k \<and> fst (is_available 5 s) \<and>
        list_all (\<lambda>r. fst (is_available 5 r) \<longrightarrow> ks_last_used s \<le> ks_last_used r) two_keys)"
  by (rule get_key_takes_least_recent[OF two_keys_reachable]) simp

lemma pool_recovers_witness:
  "\<exists>k \<in> set (unique_keys ['' alpha'', ''beta'', ''alpha'']). fst (get_key 20000000 two_keys) = Some k"
  by (rule pool_recovers[OF two_keys_reachable]) (simp add: BILLING_BACKOFF_INITIAL_def)

lemma keys_take_turns_witness: "mset (get_keys [7, 9] two_keys) = mset (map Some [''alpha'', ''beta''])"
  unfolding two_keys_unique[symmetric]
  by (rule keys_take_turns[OF two_keys_reachable]) (simp_all add: two_keys_def new_key_def)

text \<open>A standard failure after a billing error ends the five hours after five minutes, and the key still says that it
  has a billing error.\<close>

lemma standard_failure_shortens_billing:
  "map ks_cooldown_until (report_failure 1000 True ''alpha'' two_keys) = [18001000, 0]"
  "map ks_cooldown_until (report_failure 2000 False ''alpha'' (report_failure 1000 True ''alpha'' two_keys)) = [302000, 0]"
  "map ks_billing_error (report_failure 2000 False ''alpha'' (report_failure 1000 True ''alpha'' two_keys)) = [True, False]"
  by code_simp+

end
