(* ===== verification/Update_Rollout.thy ===== *)
theory Update_Rollout
  imports Content_Normalization Sha256
begin

text \<open>
  Staged rollout of releases (\<open>updates/rollout.py\<close>): the bucket of an install, rollout percentages and the ladder of
  steps.  What \<open>int(float(s))\<close> does with a text is the argument \<open>num\<close>; a percentage is no JSON float here.
\<close>

section \<open>Errors and numbers\<close>

datatype update_error = ValueError string | OverflowError | BadSchemaVersion

text \<open>\<open>x\<close> then \<open>f\<close>, unless \<open>x\<close> raises\<close>

definition and_then :: "'e + 'a \<Rightarrow> ('a \<Rightarrow> 'e + 'b) \<Rightarrow> 'e + 'b" where
  "and_then x f = (case x of Inl e \<Rightarrow> Inl e | Inr v \<Rightarrow> f v)"

lemma and_then_simps [simp]: "and_then (Inl e) f = Inl e" "and_then (Inr v) f = f v"
  by (simp_all add: and_then_def)

lemma and_then_Inr: "and_then x f = Inr r \<longleftrightarrow> (\<exists>v. x = Inr v \<and> f v = Inr r)"
  by (cases x) simp_all

text \<open>\<open>int(float(x))\<close>: no number (\<open>ValueError\<close>, also for nan, or \<open>TypeError\<close>), too large (\<open>OverflowError\<close>), or the
  truncated number.  An int of 2 to the 1024 or so has no float.\<close>

datatype float_reading = NotANumber | TooLarge | Truncated int

definition MAX_FLOAT_INT :: int where
  "MAX_FLOAT_INT = 2 ^ 1024 - 2 ^ 970"

fun int_of_float :: "(string \<Rightarrow> float_reading) \<Rightarrow> pyval \<Rightarrow> float_reading" where
  "int_of_float num (PyInt i) = (if \<bar>i\<bar> \<ge> MAX_FLOAT_INT then TooLarge else Truncated i)"
| "int_of_float num (PyBool b) = Truncated (if b then 1 else 0)"
| "int_of_float num (PyStr s) = num s"
| "int_of_float num _ = NotANumber"

section \<open>Buckets and percentages\<close>

definition COHORT_ALGORITHM :: string where
  "COHORT_ALGORITHM = ''sha256-install-id-release-id-mod100-v1''"

definition DEFAULT_ROLLOUT_STEPS :: "int list" where
  "DEFAULT_ROLLOUT_STEPS = [1, 5, 25, 50, 100]"

definition cohort_bucket :: "string \<Rightarrow> string \<Rightarrow> update_error + int" where
  "cohort_bucket install_id release_id = (let install = py_strip install_id; release = py_strip release_id in
     if install = [] then Inl (ValueError ''install_id is required for rollout cohort hashing'')
     else if release = [] then Inl (ValueError ''release_id is required for rollout cohort hashing'')
     else Inr (int_of_hex (take 8 (sha256_hexdigest (install @ '':'' @ release))) mod 100))"

definition normalize_rollout_percent :: "(string \<Rightarrow> float_reading) \<Rightarrow> pyval \<Rightarrow> update_error + int" where
  "normalize_rollout_percent num v = (case v of
      PyBool b \<Rightarrow> Inr (if b then 100 else 0)
    | _ \<Rightarrow> (case int_of_float num v of
        Truncated pct \<Rightarrow> Inr (max 0 (min 100 pct))
      | NotANumber \<Rightarrow> Inr (max 0 (min 100 100))
      | TooLarge \<Rightarrow> Inl OverflowError))"

section \<open>The ladder\<close>

fun rollout_items :: "pyval \<Rightarrow> pyval list option" where
  "rollout_items (PyStr s) = Some (map (PyStr \<circ> py_strip) (split_commas [] s))"
| "rollout_items (PyList xs) = Some xs"
| "rollout_items (PyDict d) = Some (map (PyStr \<circ> fst) d)"
| "rollout_items _ = None"

definition rollout_step :: "(string \<Rightarrow> float_reading) \<Rightarrow> pyval \<Rightarrow> update_error + int" where
  "rollout_step num item = (case item of
      PyBool _ \<Rightarrow> Inl (ValueError ''rollout steps must be integer percentages'')
    | _ \<Rightarrow> (case int_of_float num item of
        NotANumber \<Rightarrow> Inl (ValueError ''rollout steps must be integer percentages'')
      | TooLarge \<Rightarrow> Inl OverflowError
      | Truncated step \<Rightarrow> if step \<le> 0 \<or> step > 100 then Inl (ValueError ''rollout steps must be between 1 and 100'')
          else Inr step))"

fun rollout_steps_loop :: "(string \<Rightarrow> float_reading) \<Rightarrow> pyval list \<Rightarrow> update_error + int list" where
  "rollout_steps_loop num [] = Inr []"
| "rollout_steps_loop num (item # items) = (if item = PyStr [] then rollout_steps_loop num items
     else and_then (rollout_step num item) (\<lambda>step. map_sum id ((#) step) (rollout_steps_loop num items)))"

definition checked_steps :: "int list \<Rightarrow> update_error + int list" where
  "checked_steps steps =
     (if length steps < 2 then Inl (ValueError ''rollout steps must include at least one cohort and 100'')
      else if last steps \<noteq> 100 then Inl (ValueError ''rollout steps must end at 100'')
      else if list_ex (\<lambda>(left, right). left \<ge> right) (zip steps (tl steps))
        then Inl (ValueError ''rollout steps must be strictly increasing'')
      else Inr steps)"

definition parse_rollout_steps :: "(string \<Rightarrow> float_reading) \<Rightarrow> pyval \<Rightarrow> update_error + int list" where
  "parse_rollout_steps num v = (if v = PyNone \<or> v = PyStr [] then Inr DEFAULT_ROLLOUT_STEPS
     else (case rollout_items v of
         None \<Rightarrow> Inl (ValueError ''rollout steps must be a comma-separated string or iterable'')
       | Some items \<Rightarrow> and_then (rollout_steps_loop num items) checked_steps))"

definition format_rollout_steps :: "int list \<Rightarrow> string" where
  "format_rollout_steps steps = join_with '' -> '' (map int_str steps)"

definition next_rollout_step :: "(string \<Rightarrow> float_reading) \<Rightarrow> pyval \<Rightarrow> int list \<Rightarrow> update_error + int option" where
  "next_rollout_step num current_percent steps =
     and_then (normalize_rollout_percent num current_percent) (\<lambda>current.
     and_then (parse_rollout_steps num (PyList (map PyInt steps))) (\<lambda>parsed.
       if current \<le> 0 then Inr (Some (hd parsed)) else Inr (List.find (\<lambda>step. step > current) parsed)))"

definition is_in_rollout :: "(string \<Rightarrow> float_reading) \<Rightarrow> string \<Rightarrow> string \<Rightarrow> pyval \<Rightarrow> bool \<Rightarrow> update_error + bool" where
  "is_in_rollout num install_id release_id rollout_percent frozen =
     (if frozen then Inr False
      else and_then (normalize_rollout_percent num rollout_percent) (\<lambda>pct.
        if pct \<le> 0 then Inr False
        else if pct \<ge> 100 then Inr True
        else and_then (cohort_bucket install_id release_id) (\<lambda>bucket. Inr (bucket < pct))))"

section \<open>Bounds\<close>

lemma bucket_bounds: "cohort_bucket install release = Inr b \<Longrightarrow> 0 \<le> b \<and> b < 100"
  by (auto simp: cohort_bucket_def Let_def split: if_splits)

lemma percent_bounds: "normalize_rollout_percent num v = Inr p \<Longrightarrow> 0 \<le> p \<and> p \<le> 100"
  by (auto simp: normalize_rollout_percent_def split: pyval.splits float_reading.splits)

lemma percent_of_int: "0 \<le> p \<Longrightarrow> p \<le> 100 \<Longrightarrow> normalize_rollout_percent num (PyInt p) = Inr p"
  by (simp add: normalize_rollout_percent_def MAX_FLOAT_INT_def)

lemma steps_loop_bounds: "rollout_steps_loop num items = Inr steps \<Longrightarrow> \<forall>s \<in> set steps. 0 < s \<and> s \<le> 100"
proof (induction items arbitrary: steps)
  case (Cons item items)
  show ?case
  proof (cases "item = PyStr []")
    case False
    then obtain s rest where s: "rollout_step num item = Inr s" "rollout_steps_loop num items = Inr rest" "steps = s # rest"
      using Cons.prems by (auto simp: and_then_Inr map_sum_def split: sum.splits)
    have "0 < s \<and> s \<le> 100" using s(1) by (auto simp: rollout_step_def split: pyval.splits float_reading.splits if_splits)
    then show ?thesis using Cons.IH[OF s(2)] s(3) by simp
  qed (use Cons in simp)
qed simp

lemma strict_by_neighbours: "\<not> list_ex (\<lambda>(l, r). l \<ge> r) (zip xs (tl xs)) \<Longrightarrow> sorted_wrt (<) (xs :: int list)"
proof (induction xs)
  case (Cons x xs)
  then show ?case
  proof (cases xs)
    case (Cons y ys)
    then have "x < y" "sorted_wrt (<) xs" using Cons.IH Cons.prems by simp_all
    then show ?thesis using Cons by auto
  qed simp
qed simp

lemma checked_steps_ladder:
  "checked_steps steps = Inr ladder \<longleftrightarrow> ladder = steps \<and> length steps \<ge> 2 \<and> last steps = 100 \<and>
    \<not> list_ex (\<lambda>(l, r). l \<ge> r) (zip steps (tl steps))"
  by (auto simp: checked_steps_def)

text \<open>A ladder of steps: strictly increasing percentages that end at 100.\<close>

definition is_ladder :: "int list \<Rightarrow> bool" where
  "is_ladder steps = (length steps \<ge> 2 \<and> last steps = 100 \<and> sorted_wrt (<) steps \<and> list_all (\<lambda>s. 0 < s \<and> s \<le> 100) steps)"

lemma parsed_is_ladder: "parse_rollout_steps num v = Inr steps \<Longrightarrow> is_ladder steps"
  by (auto simp: parse_rollout_steps_def and_then_Inr checked_steps_ladder is_ladder_def list_all_iff DEFAULT_ROLLOUT_STEPS_def
      split: if_splits option.splits dest: steps_loop_bounds strict_by_neighbours)

text \<open>The code reads a ladder back as it is.\<close>

lemma steps_loop_ints: "\<forall>s \<in> set steps. 0 < s \<and> s \<le> 100 \<Longrightarrow> rollout_steps_loop num (map PyInt steps) = Inr steps"
  by (induction steps) (simp_all add: rollout_step_def MAX_FLOAT_INT_def)

lemma neighbours_strict: "sorted_wrt (<) (xs :: int list) \<Longrightarrow> \<not> list_ex (\<lambda>(l, r). l \<ge> r) (zip xs (tl xs))"
  by (induction xs rule: induct_list012) auto

lemma parse_ladder: "is_ladder steps \<Longrightarrow> parse_rollout_steps num (PyList (map PyInt steps)) = Inr steps"
  by (simp add: parse_rollout_steps_def steps_loop_ints is_ladder_def list_all_iff checked_steps_ladder neighbours_strict)

lemma find_next:
  assumes "sorted_wrt (<) steps" "i < length steps"
  shows "List.find (\<lambda>s. s > steps ! i) steps = (if Suc i < length steps then Some (steps ! Suc i) else None :: int option)"
  using assms
proof (induction steps arbitrary: i)
  case (Cons x xs)
  show ?case
  proof (cases i)
    case 0
    then show ?thesis using Cons.prems by (cases xs) auto
  next
    case (Suc n)
    then have n: "n < length xs" using Cons.prems by simp
    then have "x < xs ! n" using Cons.prems(1) by simp
    then show ?thesis using Cons.IH[OF _ n] Cons.prems(1) Suc by simp
  qed
qed simp

lemma climbs_ladder:
  assumes "is_ladder steps"
  shows "next_rollout_step num (PyInt 0) steps = Inr (Some (hd steps))"
    and "i < length steps \<Longrightarrow> next_rollout_step num (PyInt (steps ! i)) steps =
      Inr (if Suc i < length steps then Some (steps ! Suc i) else None)"
proof -
  show "next_rollout_step num (PyInt 0) steps = Inr (Some (hd steps))"
    by (simp add: next_rollout_step_def percent_of_int parse_ladder[OF assms])
  assume i: "i < length steps"
  then have "0 < steps ! i \<and> steps ! i \<le> 100" using assms by (auto simp: is_ladder_def list_all_length)
  then show "next_rollout_step num (PyInt (steps ! i)) steps = Inr (if Suc i < length steps then Some (steps ! Suc i) else None)"
    using assms find_next[OF _ i] by (simp add: next_rollout_step_def percent_of_int parse_ladder[OF assms] is_ladder_def)
qed

text \<open>The steps a release takes: each percentage is the next one after the last, until there is none.\<close>

fun climb :: "(string \<Rightarrow> float_reading) \<Rightarrow> int list \<Rightarrow> nat \<Rightarrow> int \<Rightarrow> int list" where
  "climb num steps 0 current = []"
| "climb num steps (Suc n) current = (case next_rollout_step num (PyInt current) steps of
      Inr (Some step) \<Rightarrow> step # climb num steps n step | _ \<Rightarrow> [])"

lemma climb_from: "is_ladder steps \<Longrightarrow> i < length steps \<Longrightarrow> length steps \<le> n + Suc i \<Longrightarrow> climb num steps n (steps ! i) = drop (Suc i) steps"
proof (induction n arbitrary: i)
  case (Suc n)
  show ?case
  proof (cases "Suc i < length steps")
    case True
    then show ?thesis using climbs_ladder(2)[OF Suc.prems(1,2)] Suc.IH[OF Suc.prems(1) True] Suc.prems(3)
      by (simp add: Cons_nth_drop_Suc)
  next
    case False
    then show ?thesis using climbs_ladder(2)[OF Suc.prems(1,2)] by simp
  qed
qed simp

text \<open>A ladder is climbed step by step: the code starts at its first step, from every step it goes on to the next, and
  from 100 it goes nowhere.\<close>

lemma rollout_climbs_its_ladder:
  assumes "parse_rollout_steps num v = Inr steps" "length steps \<le> fuel"
  shows "climb num steps fuel 0 = steps \<and> sorted_wrt (<) steps \<and> last steps = 100"
proof -
  have ladder: "is_ladder steps" by (rule parsed_is_ladder[OF assms(1)])
  then obtain s rest where steps: "steps = s # rest" by (cases steps) (auto simp: is_ladder_def)
  obtain n where n: "fuel = Suc n" using assms(2) steps by (cases fuel) auto
  have "climb num steps n (steps ! 0) = drop (Suc 0) steps"
    using assms(2) n steps by (intro climb_from[OF ladder]) simp_all
  then show ?thesis using climbs_ladder(1)[OF ladder, of num] ladder n by (simp add: steps is_ladder_def)
qed

text \<open>Raising the percentage of a release leaves no install behind: one that is in the rollout stays in it.\<close>

lemma rollout_only_grows:
  assumes "is_in_rollout num install release p frozen = Inr True"
    and "normalize_rollout_percent num p = Inr x" "normalize_rollout_percent num q = Inr y" "x \<le> y"
  shows "is_in_rollout num install release q frozen = Inr True"
  using assms bucket_bounds[of install release]
  by (auto simp: is_in_rollout_def and_then_Inr split: if_splits)

text \<open>A text that is no number rolls a release out to everybody.\<close>

lemma unreadable_percent_is_everybody: "num s = NotANumber \<Longrightarrow> is_in_rollout num install release (PyStr s) False = Inr True"
  by (simp add: is_in_rollout_def normalize_rollout_percent_def)

end
