(* ===== verification/Update_Policy.thy ===== *)
theory Update_Policy
  imports Viola_Prelude
begin

text \<open>
  Whether an update may be applied without consent (\<open>updates/update_policy.py\<close>): offered by default, forced only
  for a mandatory release with a reason of the closed list.
\<close>

section \<open>Dispositions\<close>

definition MANDATORY_REASON_ALLOWLIST :: "string list" where
  "MANDATORY_REASON_ALLOWLIST = [''payment_vault_vulnerability'', ''cve'', ''auth_bypass'', ''session_leak'',
     ''token_confusion'', ''tier1_boundary_violation'', ''credential_exfiltration'', ''byok_exposure'',
     ''arbitrary_code_execution'', ''installer_integrity_compromise'', ''data_integrity_loss'', ''billing_gate_bypass'',
     ''active_exploit'', ''brick_fix'']"

datatype disposition = NoUpdate | Offered | Forced

record apply_decision =
  ad_disposition :: disposition
  ad_may_auto_apply :: bool
  ad_requires_consent :: bool
  ad_reason :: string
  ad_rejected_reasons :: "string list"

text \<open>\<open>__post_init__\<close>: a decision that contradicts itself is a \<open>ValueError\<close>.\<close>

definition checked_decision :: "apply_decision \<Rightarrow> string + apply_decision" where
  "checked_decision d = (if ad_may_auto_apply d \<and> ad_disposition d \<noteq> Forced
       then Inl ''may_auto_apply is only valid for a FORCED disposition''
     else if ad_may_auto_apply d \<and> ad_requires_consent d
       then Inl ''a FORCED auto-apply cannot also require user consent''
     else if ad_disposition d = Offered \<and> \<not> ad_requires_consent d
       then Inl ''an OFFERED update must require user consent''
     else Inr d)"

section \<open>Reading a manifest\<close>

definition normalise_reason :: "pyval \<Rightarrow> string" where
  "normalise_reason v = map (\<lambda>c. if c = CHR ''-'' \<or> c = CHR '' '' then CHR ''_'' else c) (py_lower (py_strip (str_or_empty v)))"

fun manifest_truthy :: "pyval \<Rightarrow> bool" where
  "manifest_truthy (PyBool b) = b"
| "manifest_truthy (PyInt i) = (i \<noteq> 0)"
| "manifest_truthy (PyStr s) = (py_lower (py_strip s) \<in> set [''1'', ''true'', ''yes'', ''on''])"
| "manifest_truthy _ = False"

fun dict_or_empty :: "pyval \<Rightarrow> pydict" where
  "dict_or_empty (PyDict d) = d"
| "dict_or_empty _ = []"

definition is_mandatory :: "pydict \<Rightarrow> bool" where
  "is_mandatory manifest = (manifest_truthy (py_get ''mandatory'' manifest) \<or>
     manifest_truthy (py_get ''mandatory'' (dict_or_empty (py_get ''candidate'' manifest))))"

text \<open>The reasons of one source\<close>

definition declared_reasons :: "pydict \<Rightarrow> pyval list" where
  "declared_reasons source = (let v = (if py_get ''mandatory_reason'' source = PyNone
       then py_get ''mandatory_reasons'' source else py_get ''mandatory_reason'' source) in
     case v of PyList xs \<Rightarrow> xs | PyNone \<Rightarrow> [] | _ \<Rightarrow> [v])"

definition mandatory_reasons :: "pydict \<Rightarrow> string list" where
  "mandatory_reasons manifest = map normalise_reason (filter (\<lambda>v. py_strip (str_or_empty v) \<noteq> [])
     (declared_reasons manifest @ declared_reasons (dict_or_empty (py_get ''candidate'' manifest))))"

section \<open>The decision\<close>

definition classify_apply :: "pydict \<Rightarrow> string + apply_decision" where
  "classify_apply manifest =
     (if \<not> manifest_truthy (py_get ''available'' manifest)
      then checked_decision \<lparr>ad_disposition = NoUpdate, ad_may_auto_apply = False, ad_requires_consent = False,
        ad_reason = [], ad_rejected_reasons = []\<rparr>
      else if \<not> is_mandatory manifest
      then checked_decision \<lparr>ad_disposition = Offered, ad_may_auto_apply = False, ad_requires_consent = True,
        ad_reason = [], ad_rejected_reasons = []\<rparr>
      else let declared = mandatory_reasons manifest;
             allowed = filter (\<lambda>r. r \<in> set MANDATORY_REASON_ALLOWLIST) declared;
             rejected = filter (\<lambda>r. r \<notin> set MANDATORY_REASON_ALLOWLIST) declared in
        if allowed = []
        then checked_decision \<lparr>ad_disposition = Offered, ad_may_auto_apply = False, ad_requires_consent = True,
          ad_reason = [], ad_rejected_reasons = rejected\<rparr>
        else checked_decision \<lparr>ad_disposition = Forced, ad_may_auto_apply = True, ad_requires_consent = False,
          ad_reason = hd allowed, ad_rejected_reasons = rejected\<rparr>)"

definition may_auto_apply :: "pydict \<Rightarrow> string + bool" where
  "may_auto_apply manifest = map_sum id ad_may_auto_apply (classify_apply manifest)"

text \<open>The decision as a table\<close>

lemma classify_total: "\<exists>d. classify_apply manifest = Inr d"
  by (simp add: classify_apply_def checked_decision_def Let_def)

lemma classify_decides:
  "classify_apply manifest = Inr d \<Longrightarrow>
     ad_disposition d = (if \<not> manifest_truthy (py_get ''available'' manifest) then NoUpdate
       else if is_mandatory manifest \<and> (\<exists>r \<in> set (mandatory_reasons manifest). r \<in> set MANDATORY_REASON_ALLOWLIST) then Forced
       else Offered) \<and>
     (ad_may_auto_apply d \<longleftrightarrow> ad_disposition d = Forced) \<and> (ad_requires_consent d \<longleftrightarrow> ad_disposition d = Offered) \<and>
     (ad_disposition d = Forced \<longrightarrow> ad_reason d \<in> set MANDATORY_REASON_ALLOWLIST)"
proof -
  assume *: "classify_apply manifest = Inr d"
  let ?allowed = "filter (\<lambda>r. r \<in> set MANDATORY_REASON_ALLOWLIST) (mandatory_reasons manifest)"
  have hd: "?allowed \<noteq> [] \<Longrightarrow> hd ?allowed \<in> set MANDATORY_REASON_ALLOWLIST"
    using hd_in_set[of ?allowed] by auto
  have some: "?allowed = [] \<longleftrightarrow> \<not> (\<exists>r \<in> set (mandatory_reasons manifest). r \<in> set MANDATORY_REASON_ALLOWLIST)"
    by (auto simp: filter_empty_conv)
  consider "\<not> manifest_truthy (py_get ''available'' manifest)"
    | "manifest_truthy (py_get ''available'' manifest)" "\<not> is_mandatory manifest"
    | "manifest_truthy (py_get ''available'' manifest)" "is_mandatory manifest" "?allowed = []"
    | "manifest_truthy (py_get ''available'' manifest)" "is_mandatory manifest" "?allowed \<noteq> []" by blast
  then show ?thesis
    by cases (use * some hd in \<open>auto simp: classify_apply_def checked_decision_def Let_def\<close>)
qed

text \<open>An update is applied without consent exactly when it is available, mandatory, and gives a reason of the closed
  list; every other available update asks for consent, and the decision never raises.\<close>

lemma auto_apply_iff:
  "\<exists>d. classify_apply manifest = Inr d \<and>
     (ad_may_auto_apply d \<longleftrightarrow> manifest_truthy (py_get ''available'' manifest) \<and> is_mandatory manifest \<and>
        set (mandatory_reasons manifest) \<inter> set MANDATORY_REASON_ALLOWLIST \<noteq> {}) \<and>
     (ad_requires_consent d \<longleftrightarrow> manifest_truthy (py_get ''available'' manifest) \<and> \<not> ad_may_auto_apply d)"
proof -
  obtain d where d: "classify_apply manifest = Inr d" using classify_total by blast
  show ?thesis using d classify_decides[OF d] by (intro exI[of _ d]) (auto split: if_splits)
qed

end
