(* ===== verification/Update_Manifest.thy ===== *)
theory Update_Manifest
  imports Update_Rollout Update_Policy
begin

text \<open>
  The public release manifest (\<open>updates/manifest.py\<close>): defaults, the effective release of a staged rollout, and the
  projection onto one platform.  What is read from the manifest file is an argument: \<open>None\<close> where there is no file, else
  the JSON value.  \<open>copy.deepcopy\<close> is the identity on values.
\<close>

section \<open>Names\<close>

definition VALID_CHANNELS :: "string list" where
  "VALID_CHANNELS = [''stable'', ''beta'']"

definition DEFAULT_RELEASED :: string where
  "DEFAULT_RELEASED = ''2026-02-25''"

definition VIOLA_VERSION :: string where
  "VIOLA_VERSION = ''1.0.5''"

definition KNOWN_PLATFORM_KEYS :: "string list" where
  "KNOWN_PLATFORM_KEYS = [''windows_x64'', ''macos_arm64'', ''macos_x64'', ''linux_x86_64'']"

definition REFERENCE_PLATFORM_KEY :: string where
  "REFERENCE_PLATFORM_KEY = ''windows_x64''"

definition GENERIC_DOWNLOAD_PAGE_URL :: string where
  "GENERIC_DOWNLOAD_PAGE_URL = ''https://useviola.com/download''"

definition LATEST_EXE_URL :: string where
  "LATEST_EXE_URL = ''https://useviola.com/download/latest.exe''"

definition normalize_channel :: "string option \<Rightarrow> string" where
  "normalize_channel channel = (let normalized = py_lower (py_strip (if opt_truthy channel then opt_str channel else ''stable'')) in
     if normalized \<in> set VALID_CHANNELS then normalized else ''stable'')"

definition normalize_platform_key :: "string option \<Rightarrow> string option" where
  "normalize_platform_key platform = (let normalized = py_lower (py_strip (opt_str platform)) in
     if normalized \<in> set KNOWN_PLATFORM_KEYS then Some normalized else None)"

section \<open>Reading\<close>

definition manifest_string :: "pyval \<Rightarrow> string" where
  "manifest_string v = py_strip (str_or_empty v)"

text \<open>\<open>d.setdefault(k, v)\<close> and \<open>d.pop(k, None)\<close>\<close>

definition set_default :: "string \<Rightarrow> pyval \<Rightarrow> pydict \<Rightarrow> pydict" where
  "set_default k v d = (if py_has k d then d else py_set k v d)"

abbreviation drop_key :: "string \<Rightarrow> pydict \<Rightarrow> pydict" where
  "drop_key k d \<equiv> AList.delete k d"

text \<open>A field at the top level, or else in the nested rollout block, or else a default\<close>

definition rollout_field :: "string \<Rightarrow> string \<Rightarrow> pyval \<Rightarrow> pydict \<Rightarrow> pyval" where
  "rollout_field key nested dflt manifest = (if py_get key manifest \<noteq> PyNone then py_get key manifest
     else let n = py_get nested (dict_or_empty (py_get ''rollout'' manifest)) in if n \<noteq> PyNone then n else dflt)"

definition manifest_rollout_percent :: "(string \<Rightarrow> float_reading) \<Rightarrow> pydict \<Rightarrow> update_error + int" where
  "manifest_rollout_percent num manifest = normalize_rollout_percent num (rollout_field ''rollout_percent'' ''percent'' (PyInt 100) manifest)"

definition manifest_frozen :: "pydict \<Rightarrow> bool" where
  "manifest_frozen manifest = py_truthy (rollout_field ''frozen'' ''frozen'' (PyBool False) manifest)"

definition candidate_block :: "pydict \<Rightarrow> pydict" where
  "candidate_block manifest = (let
     version = manifest_string (py_or (py_get ''candidate_version'' manifest) (py_or (py_get ''version'' manifest) (PyStr VIOLA_VERSION)));
     released = manifest_string (py_or (py_get ''candidate_released'' manifest) (py_or (py_get ''released'' manifest) (PyStr DEFAULT_RELEASED)));
     url = manifest_string (py_or (py_get ''candidate_url'' manifest) (py_or (py_get ''url'' manifest) (PyStr LATEST_EXE_URL))) in
     set_default ''mandatory'' (PyBool False) (set_default ''url'' (PyStr url) (set_default ''released'' (PyStr released)
       (set_default ''version'' (PyStr version) (dict_or_empty (py_get ''candidate'' manifest))))))"

definition with_required_defaults :: "pydict \<Rightarrow> pydict" where
  "with_required_defaults manifest = (let
     m1 = set_default ''url'' (PyStr LATEST_EXE_URL) (set_default ''min_supported'' (PyStr VIOLA_VERSION)
       (set_default ''released'' (PyStr DEFAULT_RELEASED) (set_default ''version'' (PyStr VIOLA_VERSION)
       (set_default ''channel'' (PyStr ''stable'') (set_default ''schema_version'' (PyInt 1) manifest)))));
     m2 = set_default ''previous_stable_version'' (py_get ''version'' m1) m1;
     m3 = set_default ''previous_stable_released'' (py_get ''released'' m2) m2;
     m4 = set_default ''previous_stable_url'' (py_get ''url'' m3) m3 in
     set_default ''frozen'' (PyBool False) (set_default ''rollout_steps'' (PyList (map PyInt DEFAULT_ROLLOUT_STEPS))
       (set_default ''rollout_percent'' (PyInt 100) m4)))"

definition default_manifest :: "string option \<Rightarrow> pydict" where
  "default_manifest channel = (let normalized = normalize_channel channel;
     download_url = (if normalized = ''beta'' then ''https://useviola.com/download/latest-beta.exe'' else LATEST_EXE_URL);
     release_id = VIOLA_VERSION @ ''-'' @ DEFAULT_RELEASED @ ''-'' @ normalized in
   [(''schema_version'', PyInt 1), (''channel'', PyStr normalized), (''version'', PyStr VIOLA_VERSION),
    (''released'', PyStr DEFAULT_RELEASED), (''min_supported'', PyStr VIOLA_VERSION), (''url'', PyStr download_url),
    (''release_id'', PyStr release_id), (''rollout_percent'', PyInt 100), (''rollout_steps'', PyList (map PyInt DEFAULT_ROLLOUT_STEPS)),
    (''frozen'', PyBool False), (''previous_stable_version'', PyStr VIOLA_VERSION), (''previous_stable_released'', PyStr DEFAULT_RELEASED),
    (''previous_stable_url'', PyStr LATEST_EXE_URL),
    (''cohort'', PyDict [(''algorithm'', PyStr COHORT_ALGORITHM), (''key'', PyStr ''install_id''), (''modulo'', PyInt 100)]),
    (''candidate'', PyDict [(''version'', PyStr VIOLA_VERSION), (''released'', PyStr DEFAULT_RELEASED), (''url'', PyStr download_url),
       (''release_id'', PyStr release_id), (''mandatory'', PyBool False)]),
    (''downloads'', PyDict [(''windows_x64'', PyDict [(''url'', PyStr download_url),
       (''filename'', PyStr (''ViolaSetup_'' @ VIOLA_VERSION @ ''_'' @ normalized @ ''.exe''))])]),
    (''native_apply_supported'', PyBool True), (''update_apply_boundary'', PyStr ''native_velopack''), (''ramp'', PyList [])])"

definition load_release_manifest :: "string option \<Rightarrow> pyval option \<Rightarrow> pydict" where
  "load_release_manifest channel file = (case file of
      Some (PyDict loaded) \<Rightarrow> py_set ''channel'' (PyStr (normalize_channel channel)) loaded
    | _ \<Rightarrow> default_manifest (Some (normalize_channel channel)))"

section \<open>Projection onto a platform\<close>

definition project_flat_candidate_url :: "string \<Rightarrow> pydict \<Rightarrow> pydict" where
  "project_flat_candidate_url url public = (if py_has ''candidate_url'' public then py_set ''candidate_url'' (PyStr url) public else public)"

text \<open>The change of the candidate, where there is one\<close>

definition on_candidate :: "(pydict \<Rightarrow> pydict) \<Rightarrow> pydict \<Rightarrow> pydict" where
  "on_candidate f public = (case py_get ''candidate'' public of
      PyDict c \<Rightarrow> py_set ''candidate'' (PyDict (f c)) public | _ \<Rightarrow> public)"

text \<open>Set to a text, or dropped where the text is empty\<close>

definition set_or_drop :: "string \<Rightarrow> string \<Rightarrow> pydict \<Rightarrow> pydict" where
  "set_or_drop k s d = (if s \<noteq> [] then py_set k (PyStr s) d else drop_key k d)"

definition project_missing :: "pydict \<Rightarrow> pydict" where
  "project_missing public = project_flat_candidate_url GENERIC_DOWNLOAD_PAGE_URL
     (on_candidate (\<lambda>c. drop_key ''sha256'' (py_set ''url'' (PyStr GENERIC_DOWNLOAD_PAGE_URL) c))
     (drop_key ''installer_filename'' (drop_key ''installer_sha256'' (drop_key ''sha256''
     (py_set ''platform_artifact_available'' (PyBool False) (py_set ''installer_url'' (PyStr GENERIC_DOWNLOAD_PAGE_URL)
     (py_set ''url'' (PyStr GENERIC_DOWNLOAD_PAGE_URL) public)))))))"

definition project_version :: "string \<Rightarrow> pydict \<Rightarrow> pydict" where
  "project_version entry_version public = (if entry_version = [] then public
     else py_set ''previous_stable_version'' (PyStr entry_version) (py_set ''candidate_version'' (PyStr entry_version)
       (py_set ''version'' (PyStr entry_version) public)))"

definition project_entry :: "pydict \<Rightarrow> pydict \<Rightarrow> pydict" where
  "project_entry entry public = (let url = manifest_string (py_get ''url'' entry); sha = manifest_string (py_get ''sha256'' entry);
     version = manifest_string (py_get ''version'' entry) in
     project_flat_candidate_url url
     (on_candidate (\<lambda>c. set_or_drop ''sha256'' sha (if version \<noteq> [] then py_set ''version'' (PyStr version) (py_set ''url'' (PyStr url) c)
         else py_set ''url'' (PyStr url) c))
     (project_version version
     (set_or_drop ''installer_filename'' (manifest_string (py_get ''filename'' entry))
     (set_or_drop ''installer_sha256'' sha (set_or_drop ''sha256'' sha
     (py_set ''platform_artifact_available'' (PyBool True) (py_set ''installer_url'' (PyStr url) (py_set ''url'' (PyStr url) public)))))))))"

text \<open>The entry of a platform, empty where there is none\<close>

definition download_entry :: "string \<Rightarrow> pydict \<Rightarrow> pydict" where
  "download_entry key manifest = dict_or_empty (py_get key (dict_or_empty (py_get ''downloads'' manifest)))"

definition entry_url :: "string \<Rightarrow> pydict \<Rightarrow> string" where
  "entry_url key manifest = manifest_string (py_get ''url'' (download_entry key manifest))"

definition apply_platform_selection :: "string option \<Rightarrow> pydict \<Rightarrow> pydict" where
  "apply_platform_selection platform public = (case normalize_platform_key platform of
      None \<Rightarrow> public
    | Some key \<Rightarrow> (let public1 = py_set ''platform'' (PyStr key) public in
        if key = REFERENCE_PLATFORM_KEY then public1
        else (let public2 = py_set ''previous_stable_url'' (PyStr GENERIC_DOWNLOAD_PAGE_URL) public1 in
          if entry_url key public = [] then project_missing public2
          else project_entry (download_entry key public) public2)))"

section \<open>The public manifest\<close>

text \<open>\<open>int(...)\<close> raises a \<open>ValueError\<close> or, on a list or dict, a \<open>TypeError\<close>.\<close>

definition manifest_schema :: "pydict \<Rightarrow> update_error + int" where
  "manifest_schema public = (case py_int (py_or (py_get ''schema_version'' public) (PyInt 1)) of
      Some i \<Rightarrow> Inr i | None \<Rightarrow> Inl BadSchemaVersion)"

text \<open>The three fields of a release: version, date and URL\<close>

type_synonym release = "string \<times> string \<times> string"

definition candidate_release :: "pydict \<Rightarrow> pydict \<Rightarrow> release" where
  "candidate_release candidate public = (
     manifest_string (py_or (py_get ''version'' candidate) (py_or (py_get ''candidate_version'' public) (py_get ''version'' public))),
     manifest_string (py_or (py_get ''released'' candidate) (py_or (py_get ''candidate_released'' public) (py_get ''released'' public))),
     manifest_string (py_or (py_get ''url'' candidate) (py_or (py_get ''candidate_url'' public) (py_get ''url'' public))))"

definition previous_release :: "release \<Rightarrow> pydict \<Rightarrow> release" where
  "previous_release cand public = (
     manifest_string (py_or (py_get ''previous_stable_version'' public) (py_or (py_get ''version'' public) (PyStr (fst cand)))),
     manifest_string (py_or (py_get ''previous_stable_released'' public) (py_or (py_get ''released'' public) (PyStr (fst (snd cand))))),
     manifest_string (py_or (py_get ''previous_stable_url'' public) (py_or (py_get ''url'' public) (PyStr (snd (snd cand))))))"

definition cohort_block :: "pydict \<Rightarrow> pydict" where
  "cohort_block public = set_default ''modulo'' (PyInt 100) (set_default ''key'' (PyStr ''install_id'')
     (set_default ''algorithm'' (PyStr COHORT_ALGORITHM) (dict_or_empty (py_get ''cohort'' public))))"

text \<open>\<open>d.update(other)\<close>\<close>

definition update_dict :: "pydict \<Rightarrow> pydict \<Rightarrow> pydict" where
  "update_dict other d = fold (\<lambda>(k, v). py_set k v) other d"

definition public_fields :: "pydict \<Rightarrow> int \<Rightarrow> int \<Rightarrow> int list \<Rightarrow> pydict" where
  "public_fields public schema percent steps = (let
     channel = normalize_channel (Some (if py_has ''channel'' public then py_str (py_get ''channel'' public) else ''stable''));
     candidate = candidate_block public; frozen = manifest_frozen public;
     cand = candidate_release candidate public; prev = previous_release cand public;
     effective = (if channel = ''beta'' \<or> (\<not> frozen \<and> percent \<ge> 100) then cand else prev);
     release_id = manifest_string (py_or (py_get ''release_id'' public) (py_or (py_get ''release_id'' candidate) (PyStr (fst cand))));
     cohort = cohort_block public;
     rollout = update_dict [(''release_id'', PyStr release_id), (''percent'', PyInt percent), (''frozen'', PyBool frozen),
       (''cohort'', PyDict cohort)] (dict_or_empty (py_get ''rollout'' public)) in
     [(''schema_version'', PyInt schema), (''channel'', PyStr channel), (''version'', PyStr (fst effective)),
      (''released'', PyStr (fst (snd effective))),
      (''min_supported'', PyStr (manifest_string (py_or (py_get ''min_supported'' public) (py_or (PyStr (fst prev)) (PyStr VIOLA_VERSION))))),
      (''url'', PyStr (snd (snd effective))), (''release_id'', PyStr release_id), (''rollout_percent'', PyInt percent),
      (''rollout_steps'', PyList (map PyInt steps)), (''frozen'', PyBool frozen),
      (''previous_stable_version'', PyStr (fst prev)), (''previous_stable_released'', PyStr (fst (snd prev))),
      (''candidate_version'', PyStr (fst cand)), (''candidate_released'', PyStr (fst (snd cand))),
      (''candidate'', PyDict candidate), (''cohort'', PyDict cohort), (''rollout'', PyDict rollout)])"

definition build_public_manifest ::
    "(string \<Rightarrow> float_reading) \<Rightarrow> string option \<Rightarrow> pyval option \<Rightarrow> string option \<Rightarrow> update_error + pydict" where
  "build_public_manifest num channel file platform =
     (let public = with_required_defaults (load_release_manifest channel file) in
      and_then (manifest_rollout_percent num public) (\<lambda>percent.
      and_then (parse_rollout_steps num (py_get ''rollout_steps'' public)) (\<lambda>steps.
      and_then (manifest_schema public) (\<lambda>schema.
        Inr (apply_platform_selection platform (update_dict (public_fields public schema percent steps) public))))))"

end
