(* ===== verification/Update_Client.thy ===== *)
theory Update_Client
  imports Update_Manifest "HOL-Library.List_Lexorder"
begin

text \<open>
  The update check of the desktop client (\<open>utils/update_checker.py\<close>): the release an install sees, what is offered to
  its platform, and when an update is available; the cache in front of the network; the reminders.
  Fields that are only passed on (dates, sizes, notes, signing) are left out.  What
  \<open>urllib.parse.urlparse\<close> says of a URL is the argument \<open>urlparse\<close>; the running version, the install id and the user's
  settings are arguments.
\<close>

section \<open>The release an install sees\<close>

text \<open>\<open>str(d.get(k, ""))\<close>: the text \<open>None\<close> where the value is null\<close>

definition get_text :: "string \<Rightarrow> pydict \<Rightarrow> string" where
  "get_text k d = py_strip (if py_has k d then py_str (py_get k d) else [])"

text \<open>\<open>str(a or b).strip()\<close>\<close>

definition text_of :: "pyval \<Rightarrow> string" where
  "text_of v = py_strip (py_str v)"

definition or_text :: "string \<Rightarrow> string \<Rightarrow> string" where
  "or_text a b = (if a \<noteq> [] then a else b)"

definition client_rollout_field :: "string \<Rightarrow> string \<Rightarrow> pyval \<Rightarrow> pydict \<Rightarrow> pyval" where
  "client_rollout_field key nested dflt data = (if py_get key data \<noteq> PyNone then py_get key data
     else let rollout = dict_or_empty (py_get ''rollout'' data) in if py_has nested rollout then py_get nested rollout else dflt)"

definition candidate_of :: "pydict \<Rightarrow> pydict" where
  "candidate_of data = dict_or_empty (py_get ''candidate'' data)"

definition client_candidate :: "pydict \<Rightarrow> string \<times> string" where
  "client_candidate data = (let c = candidate_of data in
     (text_of (py_or (py_get ''version'' c) (py_or (py_get ''candidate_version'' data) (PyStr (get_text ''version'' data)))),
      text_of (py_or (py_get ''url'' c) (py_or (py_get ''candidate_url'' data) (PyStr (get_text ''url'' data))))))"

definition client_previous :: "pydict \<Rightarrow> string \<times> string" where
  "client_previous data = (
     text_of (py_or (py_get ''previous_stable_version'' data) (PyStr (get_text ''version'' data))),
     text_of (py_or (py_get ''previous_stable_url'' data) (PyStr (get_text ''url'' data))))"

definition or_top_level :: "pydict \<Rightarrow> string \<times> string \<Rightarrow> string \<times> string" where
  "or_top_level data release = (or_text (fst release) (get_text ''version'' data), or_text (snd release) (get_text ''url'' data))"

definition effective_manifest_version :: "(string \<Rightarrow> float_reading) \<Rightarrow> pydict \<Rightarrow> string \<Rightarrow> update_error + string \<times> string" where
  "effective_manifest_version num data install_id =
     (let candidate = or_top_level data (client_candidate data); previous = or_top_level data (client_previous data);
          channel = py_lower (text_of (py_or (py_get ''channel'' data) (PyStr ''stable'')));
          release_id = text_of (py_or (py_get ''release_id'' data) (py_or (py_get ''release_id'' (candidate_of data))
            (PyStr (fst (client_candidate data)))));
          frozen = py_truthy (client_rollout_field ''frozen'' ''frozen'' (PyBool False) data) in
      if channel = ''beta'' then Inr candidate
      else and_then (normalize_rollout_percent num (client_rollout_field ''rollout_percent'' ''percent'' (PyInt 100) data)) (\<lambda>percent.
        if release_id = [] \<or> frozen then Inr previous
        else if percent \<ge> 100 then Inr candidate
        else if install_id \<noteq> []
          then and_then (is_in_rollout num install_id release_id (PyInt percent) False) (\<lambda>inside.
            Inr (if inside then candidate else previous))
        else Inr previous))"

section \<open>URLs and versions\<close>

record url_parts =
  up_scheme :: string
  up_hostname :: string
  up_username :: string
  up_password :: string

definition DEFAULT_DOWNLOAD_URL :: string where
  "DEFAULT_DOWNLOAD_URL = ''https://useviola.com/download''"

definition unsafe_url_char :: "char \<Rightarrow> bool" where
  "unsafe_url_char c = (char_code c < 33 \<or> char_code c = 127)"

definition safe_update_download_url :: "(string \<Rightarrow> url_parts option) \<Rightarrow> string \<Rightarrow> string" where
  "safe_update_download_url urlparse s = (let candidate = py_strip s in
     if candidate = [] \<or> list_ex unsafe_url_char candidate then DEFAULT_DOWNLOAD_URL
     else (case urlparse candidate of
         None \<Rightarrow> DEFAULT_DOWNLOAD_URL
       | Some parts \<Rightarrow> if py_lower (up_scheme parts) \<noteq> ''https'' \<or> up_hostname parts = [] then DEFAULT_DOWNLOAD_URL
           else if up_username parts \<noteq> [] \<or> up_password parts \<noteq> [] then DEFAULT_DOWNLOAD_URL
           else candidate))"

text \<open>\<open>s.split(".")\<close>, and the numbers before the first segment that is none\<close>

fun split_dots :: "string \<Rightarrow> string \<Rightarrow> string list" where
  "split_dots current [] = [current]"
| "split_dots current (c # cs) = (if c = CHR ''.'' then current # split_dots [] cs else split_dots (current @ [c]) cs)"

fun leading_ints :: "string list \<Rightarrow> int list" where
  "leading_ints [] = []"
| "leading_ints (s # ss) = (case py_int (PyStr s) of Some i \<Rightarrow> i # leading_ints ss | None \<Rightarrow> [])"

definition parse_version :: "string \<Rightarrow> int list" where
  "parse_version v = leading_ints (split_dots [] (dropWhile (\<lambda>c. c = CHR ''v'') (py_strip v)))"

fun manifest_bool :: "pydict \<Rightarrow> string list \<Rightarrow> bool" where
  "manifest_bool data [] = False"
| "manifest_bool data (k # ks) = (case py_get k data of
      PyBool b \<Rightarrow> b
    | PyStr s \<Rightarrow> if py_lower (py_strip s) \<in> set [''1'', ''true'', ''yes''] then True else manifest_bool data ks
    | _ \<Rightarrow> manifest_bool data ks)"

text \<open>\<open>None\<close> where \<open>int(float(...))\<close> overflows\<close>

definition manifest_int :: "(string \<Rightarrow> float_reading) \<Rightarrow> pydict \<Rightarrow> string \<Rightarrow> int \<Rightarrow> update_error + int" where
  "manifest_int num data key dflt = (case py_get key data of
      PyInt i \<Rightarrow> Inr i
    | PyStr s \<Rightarrow> (case num (py_strip s) of Truncated i \<Rightarrow> Inr i | NotANumber \<Rightarrow> Inr dflt | TooLarge \<Rightarrow> Inl OverflowError)
    | _ \<Rightarrow> Inr dflt)"

section \<open>The offer\<close>

text \<open>What a platform is offered: version, URL, hash, and whether it has an artifact of its own.\<close>

record offer =
  of_version :: string
  of_url :: string
  of_sha256 :: string
  of_artifact :: pydict
  of_missing :: bool

definition platform_offer :: "string \<Rightarrow> pydict \<Rightarrow> string \<times> string \<Rightarrow> offer" where
  "platform_offer key data release =
     (if key = REFERENCE_PLATFORM_KEY
      then \<lparr>of_version = fst release, of_url = snd release, of_sha256 = [], of_artifact = [], of_missing = False\<rparr>
      else let entry = download_entry key data; url = entry_url key data; version = manifest_string (py_get ''version'' entry) in
        if url \<noteq> []
        then \<lparr>of_version = or_text version (fst release), of_url = url, of_sha256 = manifest_string (py_get ''sha256'' entry),
          of_artifact = entry, of_missing = False\<rparr>
        else \<lparr>of_version = fst release, of_url = DEFAULT_DOWNLOAD_URL, of_sha256 = [], of_artifact = [], of_missing = True\<rparr>)"

definition offer_url :: "(string \<Rightarrow> url_parts option) \<Rightarrow> pydict \<Rightarrow> offer \<Rightarrow> string" where
  "offer_url urlparse data off = safe_update_download_url urlparse (if of_url off \<noteq> [] then of_url off
     else text_of (py_or (py_get ''url'' data) (py_or (py_get ''download_url'' data) (py_or (py_get ''installer_url'' data)
       (PyStr DEFAULT_DOWNLOAD_URL)))))"

text \<open>The top-level hash is the one of the reference platform.  It is read twice: with a null \<open>installer_sha256\<close> the first
  reading is the text \<open>None\<close>, which stays where the second is empty.\<close>

definition top_level_sha256 :: "pydict \<Rightarrow> string" where
  "top_level_sha256 data = or_text
     (text_of (py_or (py_get ''sha256'' data) (py_or (py_get ''installer_sha256'' data) (PyStr []))))
     (text_of (py_or (py_get ''sha256'' data) (if py_has ''installer_sha256'' data then py_get ''installer_sha256'' data else PyStr [])))"

definition offer_sha256 :: "string \<Rightarrow> pydict \<Rightarrow> offer \<Rightarrow> string" where
  "offer_sha256 key data off = (if of_missing off then []
     else or_text (of_sha256 off) (if key = REFERENCE_PLATFORM_KEY then top_level_sha256 data else []))"

section \<open>The check\<close>

record update_result =
  ur_available :: bool
  ur_latest_version :: string
  ur_published_version :: string
  ur_min_supported :: string
  ur_max_version :: string
  ur_max_version_issue :: bool
  ur_unsupported :: bool
  ur_required :: bool
  ur_critical :: "bool option"
  ur_url :: string
  ur_sha256 :: string
  ur_artifact :: pydict
  ur_artifact_available :: "bool option"
  ur_mandatory :: bool
  ur_mandatory_reason :: pyval
  ur_reason :: string

text \<open>\<open>max(..., key=_parse_version)\<close>: the first of the newest\<close>

fun newest :: "string \<Rightarrow> string list \<Rightarrow> string" where
  "newest best [] = best"
| "newest best (v # vs) = (if parse_version v > parse_version best then newest v vs else newest best vs)"

fun first_given :: "pyval list \<Rightarrow> pyval" where
  "first_given [] = PyNone"
| "first_given (v # vs) = (if v \<noteq> PyNone then v else first_given vs)"

definition declared_reason :: "pydict \<Rightarrow> pyval" where
  "declared_reason data = first_given [py_get ''mandatory_reason'' data, py_get ''mandatory_reasons'' data,
     py_get ''mandatory_reason'' (candidate_of data), py_get ''mandatory_reasons'' (candidate_of data)]"

definition is_required :: "string \<Rightarrow> pydict \<Rightarrow> bool" where
  "is_required running data = (let min_supported = get_text ''min_supported'' data in
     manifest_bool data [''required''] \<or> (min_supported \<noteq> [] \<and> parse_version running < parse_version min_supported))"

text \<open>The reason why a newer release is not offered, if there is one\<close>

definition held_back :: "string \<Rightarrow> int \<Rightarrow> pydict \<Rightarrow> string \<Rightarrow> string option" where
  "held_back user_min percent data version = (let max_version = get_text ''max_version'' data in
     if manifest_bool data [''frozen''] then Some ''frozen''
     else if percent \<le> 0 then Some ''rollout_paused''
     else if max_version \<noteq> [] \<and> parse_version version > parse_version max_version then Some ''max_version''
     else if user_min \<noteq> [] \<and> parse_version version < parse_version user_min then Some ''below_user_minimum''
     else None)"

definition decide_availability :: "string \<Rightarrow> string \<Rightarrow> int \<Rightarrow> pydict \<Rightarrow> string \<Rightarrow> bool \<times> string" where
  "decide_availability running user_min percent data version = (let required = is_required running data;
     is_newer = parse_version version > parse_version running in
     if version = [] then (False, if get_text ''min_supported'' data = [] then ''no_version'' else [])
     else if is_newer \<and> \<not> required then (case held_back user_min percent data version of
         Some reason \<Rightarrow> (False, reason) | None \<Rightarrow> (True, []))
     else (required, []))"

definition check_manifest :: "(string \<Rightarrow> float_reading) \<Rightarrow> (string \<Rightarrow> url_parts option) \<Rightarrow> string \<Rightarrow> string \<Rightarrow> string \<Rightarrow> string
    \<Rightarrow> pydict \<Rightarrow> update_error + update_result" where
  "check_manifest num urlparse running user_min install_id key data =
     and_then (effective_manifest_version num data install_id) (\<lambda>release.
       let off = platform_offer key data release; version = of_version off; required = is_required running data;
           max_version = get_text ''max_version'' data; min_supported = get_text ''min_supported'' data;
           result = (\<lambda>verdict. \<lparr>ur_available = fst verdict, ur_latest_version = version,
             ur_published_version = newest version [get_text ''version'' data, manifest_string (py_get ''version'' (candidate_of data))],
             ur_min_supported = min_supported, ur_max_version = max_version,
             ur_max_version_issue = (max_version \<noteq> [] \<and> parse_version running > parse_version max_version),
             ur_unsupported = (min_supported \<noteq> [] \<and> parse_version running < parse_version min_supported), ur_required = required,
             ur_critical = (if py_has ''critical'' data \<or> py_has ''force'' data \<or> required
               then Some (manifest_bool data [''critical'', ''force''] \<or> required) else None),
             ur_url = offer_url urlparse data off, ur_sha256 = offer_sha256 key data off, ur_artifact = of_artifact off,
             ur_artifact_available = (if key = REFERENCE_PLATFORM_KEY then None else Some (\<not> of_missing off)),
             ur_mandatory = (manifest_bool data [''mandatory''] \<or> manifest_bool (candidate_of data) [''mandatory'']),
             ur_mandatory_reason = declared_reason data, ur_reason = snd verdict\<rparr>) in
       if version = [] then Inr (result (decide_availability running user_min 100 data version))
       else if manifest_bool data [''frozen''] \<and> parse_version version > parse_version running \<and> \<not> required
         then Inr (result (False, ''frozen''))
       else and_then (manifest_int num data ''rollout_percent'' 100) (\<lambda>percent.
         Inr (result (decide_availability running user_min percent data version))))"

end
