(* ===== verification/Update_Cache.thy ===== *)
theory Update_Cache
  imports Update_Client State_Machine
begin

text \<open>
  The cache in front of the manifest request and the reminders of the update notification
  (\<open>utils/update_checker.py\<close>).  Times are whole milliseconds; \<open>fetch\<close> is what the network answers.  The lock of a URL makes a
  check one step.  The state file is a record; its loading and saving are not modelled.
\<close>

section \<open>The cache\<close>

definition MANIFEST_TTL :: int where
  "MANIFEST_TTL = 15 * 60 * 1000"

definition MANIFEST_FAILURE_COOLDOWN :: int where
  "MANIFEST_FAILURE_COOLDOWN = 60 * 1000"

definition MANIFEST_FAILURE_COOLDOWN_MAX :: int where
  "MANIFEST_FAILURE_COOLDOWN_MAX = 30 * 60 * 1000"

text \<open>\<open>'e\<close> is the exception of a failed request.\<close>

record 'e manifest_cache =
  mc_documents :: "string \<rightharpoonup> int \<times> pydict"
  mc_last_good :: "string \<rightharpoonup> pydict"
  mc_failures :: "string \<rightharpoonup> int \<times> nat \<times> 'e"

definition empty_cache :: "'e manifest_cache" where
  "empty_cache = \<lparr>mc_documents = Map.empty, mc_last_good = Map.empty, mc_failures = Map.empty\<rparr>"

definition fresh_document :: "int \<Rightarrow> string \<Rightarrow> 'e manifest_cache \<Rightarrow> pydict option" where
  "fresh_document now url c = (case mc_documents c url of
      None \<Rightarrow> None
    | Some (fetched_at, document) \<Rightarrow> if now - fetched_at \<ge> MANIFEST_TTL then None else Some document)"

definition last_good_document :: "string \<Rightarrow> 'e manifest_cache \<Rightarrow> pydict option" where
  "last_good_document url c = mc_last_good c url"

definition cooldown_of :: "nat \<Rightarrow> int" where
  "cooldown_of consecutive = min (MANIFEST_FAILURE_COOLDOWN * 2 ^ (consecutive - 1)) MANIFEST_FAILURE_COOLDOWN_MAX"

definition cooldown_error :: "int \<Rightarrow> string \<Rightarrow> 'e manifest_cache \<Rightarrow> 'e option" where
  "cooldown_error now url c = (case mc_failures c url of
      None \<Rightarrow> None
    | Some (failed_at, consecutive, exc) \<Rightarrow> if now - failed_at \<ge> cooldown_of consecutive then None else Some exc)"

definition record_fetched :: "int \<Rightarrow> string \<Rightarrow> pydict \<Rightarrow> 'e manifest_cache \<Rightarrow> 'e manifest_cache" where
  "record_fetched now url document c = c\<lparr>mc_documents := (mc_documents c)(url \<mapsto> (now, document)),
     mc_last_good := (mc_last_good c)(url \<mapsto> document), mc_failures := (mc_failures c)(url := None)\<rparr>"

definition record_fetch_failure :: "int \<Rightarrow> string \<Rightarrow> 'e \<Rightarrow> 'e manifest_cache \<Rightarrow> 'e manifest_cache" where
  "record_fetch_failure now url exc c = (let consecutive = (case mc_failures c url of Some (_, n, _) \<Rightarrow> n + 1 | None \<Rightarrow> 1) in
     c\<lparr>mc_failures := (mc_failures c)(url \<mapsto> (now, consecutive, exc))\<rparr>)"

text \<open>The payload of a plain or wrapped answer\<close>

definition normalise_manifest :: "pyval \<Rightarrow> pydict" where
  "normalise_manifest payload = (case payload of
      PyDict d \<Rightarrow> (case py_get ''data'' d of PyDict inner \<Rightarrow> inner | _ \<Rightarrow> d)
    | _ \<Rightarrow> [])"

text \<open>The document of a check: from the cache, or the remembered failure, or the network.  The flag tells whether the
  network was asked.\<close>

definition fetch_document :: "int \<Rightarrow> bool \<Rightarrow> string \<Rightarrow> 'e + pyval \<Rightarrow> 'e manifest_cache \<Rightarrow> ('e + pydict) \<times> bool \<times> 'e manifest_cache" where
  "fetch_document now force_refresh url fetch c =
     (case (if force_refresh then None else fresh_document now url c) of
        Some d \<Rightarrow> (Inr d, False, c)
      | None \<Rightarrow> (case (if force_refresh then None else cooldown_error now url c) of
          Some exc \<Rightarrow> (Inl exc, False, c)
        | None \<Rightarrow> (case fetch of
            Inl exc \<Rightarrow> (Inl exc, True, record_fetch_failure now url exc c)
          | Inr payload \<Rightarrow> (let d = normalise_manifest payload in (Inr d, True, record_fetched now url d c)))))"

definition cached_velopack_feed_url :: "string \<Rightarrow> 'e manifest_cache \<Rightarrow> string" where
  "cached_velopack_feed_url url c = (case last_good_document url c of
      None \<Rightarrow> ''https://useviola.com/updates/win''
    | Some document \<Rightarrow> (let candidate = manifest_string (py_get ''velopack_feed_url'' document) in
        if candidate = [] \<or> \<not> starts_with ''https://'' (py_lower candidate) then ''https://useviola.com/updates/win'' else candidate))"

section \<open>How often the network is asked\<close>

text \<open>Background checks of one URL, each at its time with the answer the network would give\<close>

fun network_calls :: "string \<Rightarrow> (int \<times> ('e + pyval)) list \<Rightarrow> 'e manifest_cache \<Rightarrow> int list" where
  "network_calls url [] c = []"
| "network_calls url ((now, fetch) # checks) c = (let (_, asked, c') = fetch_document now False url fetch c in
     (if asked then [now] else []) @ network_calls url checks c')"

definition cache_ok :: "int \<Rightarrow> string \<Rightarrow> 'e manifest_cache \<Rightarrow> bool" where
  "cache_ok now url c = ((case mc_failures c url of Some (t, n, _) \<Rightarrow> 0 < n \<and> t \<le> now | None \<Rightarrow> True) \<and>
     (case mc_documents c url of Some (t, _) \<Rightarrow> t \<le> now | None \<Rightarrow> True))"

lemma cooldown_bounds: "0 < n \<Longrightarrow> MANIFEST_FAILURE_COOLDOWN \<le> cooldown_of n \<and> cooldown_of n \<le> MANIFEST_FAILURE_COOLDOWN_MAX"
proof -
  have "(1::int) \<le> 2 ^ (n - 1)" by simp
  then have "MANIFEST_FAILURE_COOLDOWN \<le> MANIFEST_FAILURE_COOLDOWN * 2 ^ (n - 1)"
    by (simp add: MANIFEST_FAILURE_COOLDOWN_def)
  then show ?thesis by (simp add: cooldown_of_def MANIFEST_FAILURE_COOLDOWN_def MANIFEST_FAILURE_COOLDOWN_MAX_def)
qed

text \<open>A check that asked the network at \<open>t\<close> leaves a document or a failure of that time.\<close>

definition asked_at :: "int \<Rightarrow> string \<Rightarrow> 'e manifest_cache \<Rightarrow> bool" where
  "asked_at t url c = ((\<exists>d. mc_documents c url = Some (t, d)) \<or> (\<exists>n e. mc_failures c url = Some (t, n, e) \<and> 0 < n))"

lemma asked_again_later:
  assumes "asked_at t url c" "fetch_document now False url fetch c = (r, True, c')"
  shows "t + MANIFEST_FAILURE_COOLDOWN \<le> now"
proof (rule ccontr)
  assume "\<not> ?thesis"
  then have now: "now - t < MANIFEST_FAILURE_COOLDOWN" "now - t < MANIFEST_TTL"
    by (simp_all add: MANIFEST_FAILURE_COOLDOWN_def MANIFEST_TTL_def)
  from assms(1) consider d where "mc_documents c url = Some (t, d)" | n e where "mc_failures c url = Some (t, n, e)" "0 < n"
    by (auto simp: asked_at_def)
  then show False
  proof cases
    case 1
    then have "fresh_document now url c \<noteq> None" using now(2) by (simp add: fresh_document_def)
    then show False using assms(2) by (auto simp: fetch_document_def)
  next
    case (2 n e)
    then have "cooldown_error now url c = Some e" using now(1) cooldown_bounds[of n] by (simp add: cooldown_error_def)
    then show False using assms(2) by (auto simp: fetch_document_def split: option.splits)
  qed
qed

lemma asked_leaves_time: "fetch_document now False url fetch c = (r, True, c') \<Longrightarrow> asked_at now url c'"
  by (auto simp: fetch_document_def asked_at_def record_fetched_def record_fetch_failure_def Let_def split: option.splits sum.splits)

lemma not_asked_leaves_cache: "fetch_document now False url fetch c = (r, False, c') \<Longrightarrow> c' = c"
  by (auto simp: fetch_document_def Let_def split: option.splits sum.splits)

lemma network_calls_spaced:
  "sorted_wrt (\<lambda>a b. a + MANIFEST_FAILURE_COOLDOWN \<le> b) (network_calls url checks c) \<and>
   (\<forall>t. asked_at t url c \<longrightarrow> (\<forall>u \<in> set (network_calls url checks c). t + MANIFEST_FAILURE_COOLDOWN \<le> u))"
  if "sorted (map fst checks)"
  using that
proof (induction checks arbitrary: c)
  case (Cons check checks)
  obtain now fetch where check: "check = (now, fetch)" by (cases check)
  obtain r asked c' where f: "fetch_document now False url fetch c = (r, asked, c')" by (cases "fetch_document now False url fetch c") auto
  have IH: "sorted_wrt (\<lambda>a b. a + MANIFEST_FAILURE_COOLDOWN \<le> b) (network_calls url checks c')"
    "asked_at t url c' \<Longrightarrow> u \<in> set (network_calls url checks c') \<Longrightarrow> t + MANIFEST_FAILURE_COOLDOWN \<le> u" for t u
    using Cons.IH[of c'] Cons.prems by auto
  show ?case
  proof (cases asked)
    case False
    then have "c' = c" using f not_asked_leaves_cache[of now url fetch c r c'] by simp
    then show ?thesis using IH f False by (auto simp: check)
  next
    case True
    then have "asked_at now url c'" using f asked_leaves_time[of now url fetch c r c'] by simp
    then have later: "\<forall>u \<in> set (network_calls url checks c'). now + MANIFEST_FAILURE_COOLDOWN \<le> u" using IH(2) by blast
    have first: "asked_at t url c \<Longrightarrow> t + MANIFEST_FAILURE_COOLDOWN \<le> now" for t
      using asked_again_later[of t url c now fetch r c'] f True by simp
    have "t + MANIFEST_FAILURE_COOLDOWN \<le> u" if "asked_at t url c" "u \<in> set (network_calls url checks c')" for t u
      using first[OF that(1)] later that(2) by (fastforce simp: MANIFEST_FAILURE_COOLDOWN_def)
    then show ?thesis using IH(1) later first f True by (simp add: check)
  qed
qed simp

text \<open>C35: However many background checks of one URL run (\<open>force_refresh\<close> is false), in the order of time, and whatever the network
  answers, it is asked for a manifest at most once a minute.\<close>

theorem network_asked_rarely:
  assumes "sorted (map fst checks)"
  shows "sorted_wrt (\<lambda>a b. a + MANIFEST_FAILURE_COOLDOWN \<le> b) (network_calls url checks c)"
  using network_calls_spaced[OF assms] by blast

text \<open>After half an hour without an answer the network is asked again.\<close>

lemma asked_after_half_an_hour:
  assumes "cache_ok t url c" "now \<ge> t + MANIFEST_FAILURE_COOLDOWN_MAX"
  shows "fst (snd (fetch_document now False url fetch c))"
proof -
  have "fresh_document now url c = None"
    using assms by (auto simp: cache_ok_def fresh_document_def MANIFEST_TTL_def MANIFEST_FAILURE_COOLDOWN_MAX_def split: option.splits)
  moreover have "cooldown_error now url c = None"
  proof (cases "mc_failures c url")
    case (Some f)
    obtain at n e where f: "f = (at, n, e)" by (cases f)
    have "0 < n" "at \<le> t" using assms(1) Some f by (simp_all add: cache_ok_def)
    then show ?thesis using cooldown_bounds[of n] assms(2) Some f by (simp add: cooldown_error_def)
  qed (simp add: cooldown_error_def)
  ultimately show ?thesis by (auto simp: fetch_document_def Let_def split: sum.splits)
qed

section \<open>Reminders\<close>

definition REMIND_LATER :: int where
  "REMIND_LATER = 24 * 60 * 60 * 1000"

definition ESCALATE_BANNER_AFTER :: int where
  "ESCALATE_BANNER_AFTER = 3 * 24 * 60 * 60 * 1000"

definition REQUIRE_DECISION_AFTER :: int where
  "REQUIRE_DECISION_AFTER = 7 * 24 * 60 * 60 * 1000"

text \<open>The fields of the state file that reminders read; 0 where a time is missing\<close>

record reminder_state =
  rm_available_version :: string
  rm_first_seen_at :: int
  rm_remind_until :: int

datatype escalation = Normal | Nudge | RequireDecision | ForcedUpdate

definition remember_available_version :: "int \<Rightarrow> string \<Rightarrow> reminder_state \<Rightarrow> reminder_state" where
  "remember_available_version now version st = (if rm_available_version st = version \<and> rm_first_seen_at st \<noteq> 0 then st
     else st\<lparr>rm_available_version := version, rm_first_seen_at := now, rm_remind_until := 0\<rparr>)"

definition escalation_of :: "int \<Rightarrow> bool \<Rightarrow> reminder_state \<Rightarrow> escalation" where
  "escalation_of now critical st = (let first_seen = (if rm_first_seen_at st \<noteq> 0 then rm_first_seen_at st else now);
     age = max 0 (now - first_seen) in
     if critical then ForcedUpdate
     else if age \<ge> REQUIRE_DECISION_AFTER then RequireDecision
     else if age \<ge> ESCALATE_BANNER_AFTER then Nudge
     else Normal)"

definition is_reminder_suppressed :: "int \<Rightarrow> escalation \<Rightarrow> reminder_state \<Rightarrow> bool" where
  "is_reminder_suppressed now esc st = (esc \<notin> {RequireDecision, ForcedUpdate} \<and> now < rm_remind_until st)"

definition remind_later :: "int \<Rightarrow> reminder_state \<Rightarrow> reminder_state" where
  "remind_later now st = st\<lparr>rm_remind_until := now + REMIND_LATER\<rparr>"

text \<open>One check with its result: the escalation of the event that is emitted, if one is\<close>

definition notify_of_check :: "int \<Rightarrow> update_result \<Rightarrow> reminder_state \<Rightarrow> escalation option \<times> reminder_state" where
  "notify_of_check now r st = (if ur_latest_version r = [] \<or> \<not> ur_available r then (None, st)
     else (let st1 = remember_available_version now (ur_latest_version r) st;
               esc = escalation_of now (ur_critical r = Some True) st1 in
       (if is_reminder_suppressed now esc st1 then None else Some esc, st1)))"

text \<open>What happens to the reminders: a check that finds the release, or the user who wants to be reminded later\<close>

datatype reminder_event = Found int update_result | Postponed int

definition reminders_after :: "reminder_event \<Rightarrow> reminder_state \<Rightarrow> reminder_state" where
  "reminders_after ev st = (case ev of Found now r \<Rightarrow> snd (notify_of_check now r st) | Postponed now \<Rightarrow> remind_later now st)"

text \<open>An event that finds no release but this one\<close>

definition only_finds :: "string \<Rightarrow> reminder_event \<Rightarrow> bool" where
  "only_finds version ev = (case ev of
      Found now r \<Rightarrow> \<not> ur_available r \<or> ur_latest_version r = [] \<or> ur_latest_version r = version | Postponed now \<Rightarrow> True)"

lemma same_release_keeps_first_seen:
  "rm_available_version st = version \<Longrightarrow> rm_first_seen_at st = t \<Longrightarrow> t \<noteq> 0 \<Longrightarrow>
   list_all (only_finds version) evs \<Longrightarrow>
   rm_available_version (fold reminders_after evs st) = version \<and> rm_first_seen_at (fold reminders_after evs st) = t"
proof (induction evs arbitrary: st)
  case (Cons ev evs)
  have "rm_available_version (reminders_after ev st) = version" "rm_first_seen_at (reminders_after ev st) = t"
    using Cons.prems
    by (cases ev; auto simp: only_finds_def reminders_after_def notify_of_check_def remember_available_version_def remind_later_def Let_def)+
  then show ?case using Cons by simp
qed simp

text \<open>C36: A release cannot be postponed for ever: seven days after it was first found, a check that finds it again emits an
  event that demands a decision or forces the update, however often the user asked to be reminded later, as long as every
  check in between that found an available release found this one.  (Another release that is found in between starts the
  seven days again.)\<close>

theorem postponing_ends:
  assumes "rm_available_version st = ur_latest_version r" "rm_first_seen_at st = t" "t \<noteq> 0"
    and "list_all (only_finds (ur_latest_version r)) evs"
    and "ur_available r" "ur_latest_version r \<noteq> []" "now \<ge> t + REQUIRE_DECISION_AFTER"
  shows "\<exists>esc \<in> {RequireDecision, ForcedUpdate}. fst (notify_of_check now r (fold reminders_after evs st)) = Some esc"
proof -
  let ?st = "fold reminders_after evs st"
  have st: "rm_available_version ?st = ur_latest_version r" "rm_first_seen_at ?st = t"
    using same_release_keeps_first_seen[OF assms(1-4)] by simp_all
  then have "remember_available_version now (ur_latest_version r) ?st = ?st" using assms(3) by (simp add: remember_available_version_def)
  moreover have "escalation_of now (ur_critical r = Some True) ?st \<in> {RequireDecision, ForcedUpdate}"
    using st(2) assms(3,7) by (simp add: escalation_of_def Let_def le_max_iff_disj)
  ultimately show ?thesis using assms(5,6) by (auto simp: notify_of_check_def is_reminder_suppressed_def Let_def)
qed

end
