(* ===== verification/Update_Properties.thy ===== *)
theory Update_Properties
  imports Update_Cache
begin

text \<open>
  What the update path promises end to end: a platform is never handed another platform's artifact, neither by the
  server nor by the client; clients that know nothing of rollouts see what rollout-aware clients outside it see; an update
  is offered exactly under the documented conditions; and nothing that is held back applies itself.
\<close>

section \<open>Dictionaries\<close>

lemma py_get_set_default: "py_get k (set_default k' v d) = (if k = k' \<and> \<not> py_has k' d then v else py_get k d)"
  by (simp add: set_default_def)

lemma py_get_set_or_drop: "py_get k (set_or_drop k' s d) = (if k = k' then if s = [] then PyNone else PyStr s else py_get k d)"
  by (simp add: set_or_drop_def)

lemma py_get_flat: "k \<noteq> ''candidate_url'' \<Longrightarrow> py_get k (project_flat_candidate_url u d) = py_get k d"
  by (simp add: project_flat_candidate_url_def)

lemma py_get_project_version: "py_get k (project_version v d) = (if v \<noteq> [] \<and> k \<in> {''previous_stable_version'', ''candidate_version'', ''version''}
    then PyStr v else py_get k d)"
  by (auto simp: project_version_def)

lemma py_get_on_candidate: "py_get ''candidate'' d = PyDict c \<Longrightarrow>
    py_get k (on_candidate f d) = (if k = ''candidate'' then PyDict (f c) else py_get k d)"
  by (simp add: on_candidate_def)

lemma get_text_PyStr: "py_get k d = PyStr s \<Longrightarrow> get_text k d = py_strip s"
  unfolding get_text_def using py_get_not_has[of k d] by (cases "py_has k d") (simp_all add: py_str_def)

lemma text_of_simps [simp]: "text_of (PyStr s) = py_strip s"
  by (simp_all add: text_of_def py_str_def)

lemma py_or_PyStr: "py_or (PyStr s) v = (if s = [] then v else PyStr s)"
  by (simp add: py_or_def)

lemma manifest_string_strip [simp]: "py_strip (manifest_string v) = manifest_string v"
  by (simp add: manifest_string_def)

lemma text_of_truthy: "py_truthy v \<Longrightarrow> text_of v = manifest_string v"
  by (simp add: text_of_def manifest_string_def str_or_empty_def)

lemma text_of_or: "text_of (py_or v w) = (if py_truthy v then manifest_string v else text_of w)"
  by (simp add: py_or_def text_of_truthy)

section \<open>The projected manifest\<close>

lemma generic_url: "py_strip GENERIC_DOWNLOAD_PAGE_URL = GENERIC_DOWNLOAD_PAGE_URL" "GENERIC_DOWNLOAD_PAGE_URL \<noteq> []"
  "DEFAULT_DOWNLOAD_URL = GENERIC_DOWNLOAD_PAGE_URL"
  by (simp_all add: GENERIC_DOWNLOAD_PAGE_URL_def DEFAULT_DOWNLOAD_URL_def py_strip_def py_space_def char_code_def)

lemma public_candidate: "py_get ''candidate'' (update_dict (public_fields p schema percent steps) q) = PyDict (candidate_block p)"
  by (simp add: update_dict_def public_fields_def Let_def)

lemma public_downloads: "py_get ''downloads'' (update_dict (public_fields p schema percent steps) q) = py_get ''downloads'' q"
  by (simp add: update_dict_def public_fields_def Let_def)

text \<open>What the two projections leave in the fields a client reads\<close>

lemma missing_fields:
  assumes "py_get ''candidate'' p = PyDict c"
  defines "p' \<equiv> project_missing (py_set ''previous_stable_url'' (PyStr GENERIC_DOWNLOAD_PAGE_URL) p)"
  shows "py_get ''url'' p' = PyStr GENERIC_DOWNLOAD_PAGE_URL" "py_get ''previous_stable_url'' p' = PyStr GENERIC_DOWNLOAD_PAGE_URL"
    "py_get ''url'' (candidate_of p') = PyStr GENERIC_DOWNLOAD_PAGE_URL"
    "py_get ''installer_url'' p' = PyStr GENERIC_DOWNLOAD_PAGE_URL" "py_get ''sha256'' p' = PyNone"
  using assms by (simp_all add: project_missing_def py_get_flat py_get_on_candidate[where c = c] candidate_of_def)

lemma entry_fields:
  fixes entry :: pydict
  assumes "py_get ''candidate'' p = PyDict c"
  defines "p' \<equiv> project_entry entry (py_set ''previous_stable_url'' (PyStr GENERIC_DOWNLOAD_PAGE_URL) p)"
  shows "py_get ''url'' p' = PyStr (manifest_string (py_get ''url'' entry))"
    "py_get ''previous_stable_url'' p' = PyStr GENERIC_DOWNLOAD_PAGE_URL"
    "py_get ''url'' (candidate_of p') = PyStr (manifest_string (py_get ''url'' entry))"
    "manifest_string (py_get ''version'' entry) \<noteq> [] \<Longrightarrow>
       py_get ''version'' p' = PyStr (manifest_string (py_get ''version'' entry)) \<and>
       py_get ''previous_stable_version'' p' = PyStr (manifest_string (py_get ''version'' entry)) \<and>
       py_get ''version'' (candidate_of p') = PyStr (manifest_string (py_get ''version'' entry))"
    "py_get ''installer_url'' p' = PyStr (manifest_string (py_get ''url'' entry))"
    "py_get ''sha256'' p' = (if manifest_string (py_get ''sha256'' entry) = [] then PyNone else PyStr (manifest_string (py_get ''sha256'' entry)))"
  using assms
  by (simp_all add: project_entry_def Let_def py_get_flat py_get_on_candidate[where c = c] py_get_project_version
      py_get_set_or_drop candidate_of_def)

text \<open>A client of a manifest sees its candidate or its previous release.\<close>

lemma effective_choice:
  "effective_manifest_version num data install = Inr release \<Longrightarrow>
   release = or_top_level data (client_candidate data) \<or> release = or_top_level data (client_previous data)"
  by (auto simp: effective_manifest_version_def Let_def and_then_Inr split: if_splits)

lemma choice_url:
  assumes "py_get ''url'' (candidate_of data) = PyStr u" "py_get ''previous_stable_url'' data = PyStr v" "u \<noteq> []" "v \<noteq> []"
    "py_strip u = u" "py_strip v = v"
  shows "snd (or_top_level data (client_candidate data)) = u" "snd (or_top_level data (client_previous data)) = v"
  using assms by (simp_all add: or_top_level_def client_candidate_def client_previous_def Let_def text_of_or py_or_PyStr or_text_def
      manifest_string_def str_or_empty_def py_str_def)

lemma choice_version:
  assumes "py_get ''version'' (candidate_of data) = PyStr v" "py_get ''previous_stable_version'' data = PyStr v" "v \<noteq> []" "py_strip v = v"
  shows "fst (or_top_level data (client_candidate data)) = v" "fst (or_top_level data (client_previous data)) = v"
  using assms by (simp_all add: or_top_level_def client_candidate_def client_previous_def Let_def text_of_or py_or_PyStr or_text_def
      manifest_string_def str_or_empty_def py_str_def)

lemma build_projects:
  assumes "build_public_manifest num channel file platform = Inr public" "normalize_platform_key platform = Some key"
    "key \<noteq> REFERENCE_PLATFORM_KEY"
  obtains p c where "py_get ''candidate'' p = PyDict c"
    "public = (if entry_url key p = [] then project_missing (py_set ''previous_stable_url'' (PyStr GENERIC_DOWNLOAD_PAGE_URL) p)
       else project_entry (download_entry key p) (py_set ''previous_stable_url'' (PyStr GENERIC_DOWNLOAD_PAGE_URL) p))"
    "py_get ''downloads'' p = py_get ''downloads'' (load_release_manifest channel file)"
proof -
  let ?m = "with_required_defaults (load_release_manifest channel file)"
  obtain percent steps schema where public: "public = apply_platform_selection platform (update_dict (public_fields ?m schema percent steps) ?m)"
    using assms(1) by (auto simp: build_public_manifest_def Let_def and_then_Inr)
  let ?u = "update_dict (public_fields ?m schema percent steps) ?m"
  let ?p = "py_set ''platform'' (PyStr key) ?u"
  have same: "download_entry key ?p = download_entry key ?u" "entry_url key ?p = entry_url key ?u"
    by (simp_all add: entry_url_def download_entry_def)
  have "py_get ''downloads'' ?m = py_get ''downloads'' (load_release_manifest channel file)"
    by (simp add: with_required_defaults_def Let_def py_get_set_default)
  then have "py_get ''downloads'' ?p = py_get ''downloads'' (load_release_manifest channel file)" by (simp add: public_downloads)
  moreover have "py_get ''candidate'' ?p = PyDict (candidate_block ?m)" by (simp add: public_candidate)
  ultimately show ?thesis using assms(2,3) same
    by (intro that[of ?p "candidate_block ?m"]) (simp_all add: public apply_platform_selection_def Let_def)
qed

text \<open>C33: In the manifest that the server builds for another platform than the reference platform, what every client reads is
  of that platform.  A client that reads the top level finds the URL of the platform's own artifact, its hash or none, and
  its version where the artifact names one; where the platform has no artifact it finds the download page and no hash.  A
  client that follows the rollout is led, whatever its install id and the state of the rollout, to the same artifact or to
  the download page, and sees the artifact's version where it names one.\<close>

theorem platform_gets_its_own_artifact:
  assumes "build_public_manifest num channel file platform = Inr public" "normalize_platform_key platform = Some key"
    "key \<noteq> REFERENCE_PLATFORM_KEY"
  shows "let manifest = load_release_manifest channel file; own = entry_url key manifest;
      own_version = manifest_string (py_get ''version'' (download_entry key manifest));
      own_hash = manifest_string (py_get ''sha256'' (download_entry key manifest));
      lead = (if own = [] then GENERIC_DOWNLOAD_PAGE_URL else own) in
    py_get ''url'' public = PyStr lead \<and> py_get ''installer_url'' public = PyStr lead \<and>
    py_get ''sha256'' public = (if own = [] \<or> own_hash = [] then PyNone else PyStr own_hash) \<and>
    (own \<noteq> [] \<and> own_version \<noteq> [] \<longrightarrow> py_get ''version'' public = PyStr own_version) \<and>
    (\<forall>install version url. effective_manifest_version num public install = Inr (version, url) \<longrightarrow>
      url \<in> {lead, GENERIC_DOWNLOAD_PAGE_URL} \<and> (own \<noteq> [] \<and> own_version \<noteq> [] \<longrightarrow> version = own_version))"
proof -
  obtain p c where p: "py_get ''candidate'' p = PyDict c"
    "public = (if entry_url key p = [] then project_missing (py_set ''previous_stable_url'' (PyStr GENERIC_DOWNLOAD_PAGE_URL) p)
       else project_entry (download_entry key p) (py_set ''previous_stable_url'' (PyStr GENERIC_DOWNLOAD_PAGE_URL) p))"
    "py_get ''downloads'' p = py_get ''downloads'' (load_release_manifest channel file)"
    using build_projects[OF assms] by blast
  have same: "download_entry key (load_release_manifest channel file) = download_entry key p"
    "entry_url key (load_release_manifest channel file) = entry_url key p"
    using p(3) by (simp_all add: download_entry_def entry_url_def)
  show ?thesis
  proof (cases "entry_url key p = []")
    case True
    then have "public = project_missing (py_set ''previous_stable_url'' (PyStr GENERIC_DOWNLOAD_PAGE_URL) p)" using p(2) by simp
    note f = missing_fields[OF p(1), folded this]
    have "url = GENERIC_DOWNLOAD_PAGE_URL" if "effective_manifest_version num public install = Inr (version, url)" for install version url
      using effective_choice[OF that] choice_url[OF f(3,2) generic_url(2,2,1,1)] by (metis snd_conv)
    then show ?thesis using True f(1,4,5) by (simp add: same Let_def)
  next
    case False
    let ?own = "entry_url key p" and ?v = "manifest_string (py_get ''version'' (download_entry key p))"
    have "public = project_entry (download_entry key p) (py_set ''previous_stable_url'' (PyStr GENERIC_DOWNLOAD_PAGE_URL) p)"
      using p(2) False by simp
    note f = entry_fields[OF p(1), of "download_entry key p", folded this entry_url_def]
    have "py_strip ?own = ?own" by (simp add: entry_url_def)
    then have "url \<in> {?own, GENERIC_DOWNLOAD_PAGE_URL}" if "effective_manifest_version num public install = Inr (version, url)" for install version url
      using effective_choice[OF that] choice_url[OF f(3,2) False generic_url(2) _ generic_url(1)] by (metis insertCI snd_conv)
    moreover have "version = ?v" if "?v \<noteq> []" "effective_manifest_version num public install = Inr (version, url)" for install version url
    proof -
      have "py_get ''version'' (candidate_of public) = PyStr ?v" "py_get ''previous_stable_version'' public = PyStr ?v"
        using f(4)[OF that(1)] by blast+
      from effective_choice[OF that(2)] choice_version[OF this that(1)] show ?thesis by (metis fst_conv manifest_string_strip)
    qed
    moreover have "py_get ''version'' public = PyStr ?v" if "?v \<noteq> []" using f(4)[OF that] by blast
    ultimately show ?thesis using False f(1,5,6) by (simp add: same Let_def)
  qed
qed

section \<open>Old and new clients\<close>

lemma build_reference:
  assumes "build_public_manifest num channel file None = Inr public"
  obtains p percent steps schema where "public = update_dict (public_fields p schema percent steps) p"
    "manifest_rollout_percent num p = Inr percent"
proof -
  have "normalize_platform_key None = None"
    by (simp add: normalize_platform_key_def KNOWN_PLATFORM_KEYS_def py_lower_def)
  with assms that show ?thesis
    by (auto simp: build_public_manifest_def apply_platform_selection_def Let_def and_then_Inr)
qed

lemma public_fields_get:
  fixes p :: pydict and schema percent :: int and steps :: "int list"
  defines "u \<equiv> update_dict (public_fields p schema percent steps) p"
  defines "ch \<equiv> normalize_channel (Some (if py_has ''channel'' p then py_str (py_get ''channel'' p) else ''stable''))"
  defines "cand \<equiv> candidate_release (candidate_block p) p"
  defines "prev \<equiv> previous_release cand p"
  defines "eff \<equiv> if ch = ''beta'' \<or> (\<not> manifest_frozen p \<and> percent \<ge> 100) then cand else prev"
  shows "py_get ''channel'' u = PyStr ch" "py_get ''version'' u = PyStr (fst eff)" "py_get ''url'' u = PyStr (snd (snd eff))"
    "py_get ''candidate_version'' u = PyStr (fst cand)" "py_get ''previous_stable_version'' u = PyStr (fst prev)"
    "py_get ''rollout_percent'' u = PyInt percent" "py_get ''frozen'' u = PyBool (manifest_frozen p)"
    "py_get ''previous_stable_url'' u = py_get ''previous_stable_url'' p" "py_get ''candidate_url'' u = py_get ''candidate_url'' p"
    "candidate_of u = candidate_block p"
    "py_get ''release_id'' u = PyStr (manifest_string (py_or (py_get ''release_id'' p) (py_or (py_get ''release_id'' (candidate_block p)) (PyStr (fst cand)))))"
  unfolding u_def ch_def eff_def prev_def cand_def
  by (simp_all add: update_dict_def public_fields_def Let_def candidate_of_def)

lemma channel_cases: "normalize_channel c = ''beta'' \<or> normalize_channel c = ''stable''"
  by (auto simp: normalize_channel_def Let_def VALID_CHANNELS_def)

lemma channel_text: "py_lower (text_of (py_or (PyStr (normalize_channel c)) (PyStr ''stable''))) = normalize_channel c"
  using channel_cases[of c] by (auto simp: py_or_PyStr py_strip_def py_space_def char_code_def py_lower_def lower_char_def)

lemma stripped_releases: "py_strip (fst (candidate_release c p)) = fst (candidate_release c p)"
  "py_strip (fst (previous_release r p)) = fst (previous_release r p)"
  by (simp_all add: candidate_release_def previous_release_def)

text \<open>C34: A client that reads the top-level version only and one that follows the rollout but has no install id see the same
  version, for every channel, percentage and freeze.\<close>

theorem old_clients_see_the_held_back_release:
  assumes build: "build_public_manifest num channel file None = Inr public"
    and client: "effective_manifest_version num public [] = Inr (version, url)"
    and id: "text_of (py_get ''release_id'' public) \<noteq> []"
  shows "py_get ''version'' public = PyStr version"
proof -
  obtain p percent steps schema where public: "public = update_dict (public_fields p schema percent steps) p"
    and percent: "manifest_rollout_percent num p = Inr percent"
    by (rule build_reference[OF build])
  define ch where "ch = normalize_channel (Some (if py_has ''channel'' p then py_str (py_get ''channel'' p) else ''stable''))"
  define cand where "cand = candidate_release (candidate_block p) p"
  define prev where "prev = previous_release cand p"
  define eff where "eff = (if ch = ''beta'' \<or> (\<not> manifest_frozen p \<and> percent \<ge> 100) then cand else prev)"
  note get = public_fields_get[of p schema percent steps, folded public ch_def cand_def, folded prev_def, folded eff_def]
  have strip: "py_strip (fst cand) = fst cand" "py_strip (fst prev) = fst prev"
    unfolding cand_def prev_def by (simp_all add: stripped_releases)
  then have top_text: "get_text ''version'' public = fst eff"
    using get_text_PyStr[OF get(2)] by (simp add: eff_def)
  have cand_version: "fst cand = (if py_truthy (py_get ''version'' (candidate_block p)) then manifest_string (py_get ''version'' (candidate_block p)) else
      manifest_string (py_or (py_get ''candidate_version'' p) (py_get ''version'' p)))"
    by (simp add: cand_def candidate_release_def py_or_def)
  have cand_text: "fst (client_candidate public) = fst cand \<or> (fst cand = [] \<and> fst (client_candidate public) = fst eff)"
    using strip by (auto simp: client_candidate_def Let_def get(4,10) text_of_or top_text py_or_PyStr cand_version eff_def)
  have prev_text: "fst (client_previous public) = (if fst prev = [] then fst eff else fst prev)"
    using strip by (auto simp: client_previous_def get(5) top_text py_or_PyStr eff_def)
  have bounds: "0 \<le> percent" "percent \<le> 100" using percent_bounds percent by (auto simp: manifest_rollout_percent_def)
  then have p100: "normalize_rollout_percent num (client_rollout_field ''rollout_percent'' ''percent'' (PyInt 100) public) = Inr percent"
    by (simp add: client_rollout_field_def get(6) percent_of_int)
  have frozen: "py_truthy (client_rollout_field ''frozen'' ''frozen'' (PyBool False) public) = manifest_frozen p"
    by (simp add: client_rollout_field_def get(7))
  have rid: "text_of (py_or (py_get ''release_id'' public) v) \<noteq> []" for v
    using id by (auto simp: text_of_or get(11) manifest_string_def str_or_empty_def py_str_def py_or_PyStr)
  have "version = fst eff"
  proof -
    have "ch = ''beta'' \<or> ch = ''stable''" unfolding ch_def by (rule channel_cases)
    moreover have "py_lower (text_of (py_or (py_get ''channel'' public) (PyStr ''stable''))) = ch"
      unfolding get(1) unfolding ch_def by (rule channel_text)
    moreover have "eff = cand \<Longrightarrow> fst (or_top_level public (client_candidate public)) = fst eff"
      using cand_text by (auto simp: or_top_level_def or_text_def top_text)
    moreover have "eff = prev \<Longrightarrow> fst (or_top_level public (client_previous public)) = fst eff"
      using prev_text by (auto simp: or_top_level_def or_text_def top_text)
    ultimately show ?thesis
      using client rid unfolding effective_manifest_version_def Let_def
      by (auto simp: p100 frozen eff_def split: if_splits dest: arg_cong[of _ _ fst])
  qed
  then show ?thesis using get(2) by simp
qed

section \<open>The offer of the client\<close>

declare manifest_bool.simps [simp del]

lemma frozen_decision: "manifest_bool data [''frozen''] \<Longrightarrow> parse_version version > parse_version running \<Longrightarrow>
    \<not> is_required running data \<Longrightarrow> version \<noteq> [] \<Longrightarrow> decide_availability running user_min q data version = (False, ''frozen'')"
  by (simp add: decide_availability_def held_back_def Let_def)

lemma check_offer:
  assumes "check_manifest num urlparse running user_min install key data = Inr r"
  obtains release verdict percent where "effective_manifest_version num data install = Inr release"
    "ur_latest_version r = of_version (platform_offer key data release)"
    "ur_url r = offer_url urlparse data (platform_offer key data release)"
    "ur_sha256 r = offer_sha256 key data (platform_offer key data release)"
    "ur_required r = is_required running data"
    "ur_available r = fst (decide_availability running user_min percent data (ur_latest_version r))"
    "ur_latest_version r \<noteq> [] \<longrightarrow> (if manifest_bool data [''frozen''] \<and> parse_version (ur_latest_version r) > parse_version running \<and> \<not> ur_required r
       then True else manifest_int num data ''rollout_percent'' 100 = Inr percent)"
proof -
  obtain release where release: "effective_manifest_version num data install = Inr release"
    using assms by (auto simp: check_manifest_def and_then_Inr)
  let ?off = "platform_offer key data release"
  let ?frozen = "manifest_bool data [''frozen''] \<and> parse_version (of_version ?off) > parse_version running \<and> \<not> is_required running data"
  note r = assms[unfolded check_manifest_def release and_then_simps Let_def]
  consider (none) "of_version ?off = []" | (frozen) "of_version ?off \<noteq> []" "?frozen"
    | (rest) percent where "of_version ?off \<noteq> []" "\<not> ?frozen" "manifest_int num data ''rollout_percent'' 100 = Inr percent"
    using r by (auto simp: and_then_Inr split: if_splits)
  then show ?thesis
  proof cases
    case none
    show ?thesis using r none by (intro that[of release 100]) (auto simp: release)
  next
    case frozen
    then show ?thesis using r frozen_decision[of data running "of_version ?off" user_min 0]
      by (intro that[of release 0]) (auto simp: release)
  next
    case (rest percent)
    then show ?thesis using r by (intro that[of release percent]) (auto simp: release)
  qed
qed

text \<open>Whatever manifest a client of another platform reads, projected or not, it offers that platform's own artifact with
  that artifact's own hash or none, or else the download page without a hash.\<close>

lemma client_offers_its_own_artifact:
  assumes "check_manifest num urlparse running user_min install key data = Inr r" "key \<noteq> REFERENCE_PLATFORM_KEY"
  shows "if entry_url key data = [] then ur_url r = safe_update_download_url urlparse DEFAULT_DOWNLOAD_URL \<and> ur_sha256 r = []
    else ur_url r = safe_update_download_url urlparse (entry_url key data) \<and>
      ur_sha256 r = manifest_string (py_get ''sha256'' (download_entry key data))"
proof -
  obtain release where r: "ur_url r = offer_url urlparse data (platform_offer key data release)"
    "ur_sha256 r = offer_sha256 key data (platform_offer key data release)"
    using check_offer[OF assms(1)] by metis
  have "DEFAULT_DOWNLOAD_URL \<noteq> []" by (simp add: DEFAULT_DOWNLOAD_URL_def)
  then show ?thesis using assms(2)
    by (simp add: r offer_url_def offer_sha256_def platform_offer_def Let_def or_text_def)
qed

section \<open>When an update is available\<close>

text \<open>An update is available exactly when it is required, or when it is newer and nothing holds it back: it is not frozen
  or paused, not above the maximum version and not below the version the user asks for.\<close>

lemma available_iff:
  assumes "check_manifest num urlparse running user_min install key data = Inr r" "manifest_int num data ''rollout_percent'' 100 = Inr percent"
  shows "ur_available r \<longleftrightarrow> ur_latest_version r \<noteq> [] \<and> (ur_required r \<or>
    (parse_version (ur_latest_version r) > parse_version running \<and> \<not> manifest_bool data [''frozen''] \<and> percent > 0 \<and>
     (get_text ''max_version'' data = [] \<or> parse_version (ur_latest_version r) \<le> parse_version (get_text ''max_version'' data)) \<and>
     (user_min = [] \<or> parse_version user_min \<le> parse_version (ur_latest_version r))))"
proof -
  obtain q where r: "ur_required r = is_required running data"
    "ur_available r = fst (decide_availability running user_min q data (ur_latest_version r))"
    "ur_latest_version r \<noteq> [] \<longrightarrow> (if manifest_bool data [''frozen''] \<and> parse_version (ur_latest_version r) > parse_version running \<and> \<not> ur_required r
       then True else manifest_int num data ''rollout_percent'' 100 = Inr q)"
    using check_offer[OF assms(1)] by metis
  show ?thesis using r assms(2)
    by (auto simp: decide_availability_def held_back_def Let_def not_less split: if_splits)
qed

section \<open>What applies itself\<close>

text \<open>The fields of a result that the policy reads\<close>

definition result_fields :: "update_result \<Rightarrow> pydict" where
  "result_fields r = [(''available'', PyBool (ur_available r)), (''mandatory'', PyBool (ur_mandatory r))] @
     (if ur_mandatory_reason r = PyNone then [] else [(''mandatory_reason'', ur_mandatory_reason r)])"

lemma result_fields_get: "py_get ''available'' (result_fields r) = PyBool (ur_available r)"
  "py_get ''mandatory'' (result_fields r) = PyBool (ur_mandatory r)" "py_get ''candidate'' (result_fields r) = PyNone"
  by (simp_all add: result_fields_def)

text \<open>Nothing applies itself on an install that its check does not offer an update to: what is frozen, paused or capped is
  not applied without consent unless it is required, and never without a mandatory flag.\<close>

lemma held_back_is_not_applied:
  assumes "check_manifest num urlparse running user_min install key data = Inr r" "classify_apply (result_fields r) = Inr d"
    "ad_may_auto_apply d"
  shows "ur_latest_version r \<noteq> [] \<and> ur_mandatory r \<and> (ur_required r \<or>
    (parse_version (ur_latest_version r) > parse_version running \<and> \<not> manifest_bool data [''frozen'']))"
proof -
  have forced: "ad_disposition d = Forced" using classify_decides[OF assms(2)] assms(3) by blast
  then have avail: "ur_available r" "ur_mandatory r"
    using classify_decides[OF assms(2)] by (auto simp: result_fields_get is_mandatory_def split: if_splits)
  obtain q where r: "ur_required r = is_required running data"
    "ur_available r = fst (decide_availability running user_min q data (ur_latest_version r))"
    using check_offer[OF assms(1)] by metis
  then show ?thesis using avail by (auto simp: decide_availability_def held_back_def Let_def split: if_splits)
qed

end
