(* ===== verification/Update_Examples.thy ===== *)
theory Update_Examples
  imports Update_Properties
begin

text \<open>
  The theorems on updates at concrete manifests, and manifests that are not read as they are meant.
\<close>

section \<open>A staged release\<close>

definition whole_numbers :: "string \<Rightarrow> float_reading" where
  "whole_numbers s = (case py_int (PyStr s) of Some i \<Rightarrow> Truncated i | None \<Rightarrow> NotANumber)"

definition https_only :: "string \<Rightarrow> url_parts option" where
  "https_only s = (if starts_with ''https://'' s
     then Some \<lparr>up_scheme = ''https'', up_hostname = drop 8 s, up_username = [], up_password = []\<rparr> else None)"

definition mac_entry :: pydict where
  "mac_entry = [(''url'', PyStr ''https://v/mac.zip''), (''version'', PyStr ''1.0.4''), (''sha256'', PyStr ''ab'')]"

definition staged :: pydict where
  "staged = [(''version'', PyStr ''1.0.6''), (''url'', PyStr ''https://v/win.exe''), (''previous_stable_version'', PyStr ''1.0.5''),
     (''previous_stable_url'', PyStr ''https://v/old.exe''), (''rollout_percent'', PyInt 5), (''sha256'', PyStr ''ff''),
     (''downloads'', PyDict [(''macos_x64'', PyDict mac_entry)])]"

definition mac_manifest :: pydict where
  "mac_manifest = projr (build_public_manifest whole_numbers (Some ''stable'') (Some (PyDict staged)) (Some ''macos_x64''))"

definition plain_manifest :: pydict where
  "plain_manifest = projr (build_public_manifest whole_numbers (Some ''stable'') (Some (PyDict staged)) None)"

lemma mac_manifest_built: "build_public_manifest whole_numbers (Some ''stable'') (Some (PyDict staged)) (Some ''macos_x64'') = Inr mac_manifest"
  by code_simp

lemma plain_manifest_built: "build_public_manifest whole_numbers (Some ''stable'') (Some (PyDict staged)) None = Inr plain_manifest"
  by code_simp

lemma mac_effective: "effective_manifest_version whole_numbers mac_manifest [] = Inr (''1.0.4'', GENERIC_DOWNLOAD_PAGE_URL)"
  by code_simp

lemma plain_effective: "effective_manifest_version whole_numbers plain_manifest [] = Inr (''1.0.5'', ''https://v/old.exe'')"
  by code_simp

lemma mac_key: "normalize_platform_key (Some ''macos_x64'') = Some ''macos_x64''" "''macos_x64'' \<noteq> REFERENCE_PLATFORM_KEY"
  by code_simp+

lemma plain_release_id: "text_of (py_get ''release_id'' plain_manifest) \<noteq> []"
  by code_simp

lemma mac_own: "entry_url ''macos_x64'' (load_release_manifest (Some ''stable'') (Some (PyDict staged))) = ''https://v/mac.zip''"
  "manifest_string (py_get ''version'' (download_entry ''macos_x64'' (load_release_manifest (Some ''stable'') (Some (PyDict staged))))) = ''1.0.4''"
  by code_simp+

lemma platform_gets_its_own_artifact_witness:
  "py_get ''url'' mac_manifest = PyStr ''https://v/mac.zip'' \<and> py_get ''version'' mac_manifest = PyStr ''1.0.4'' \<and>
   (\<exists>version url. effective_manifest_version whole_numbers mac_manifest [] = Inr (version, url) \<and>
     url \<in> {''https://v/mac.zip'', GENERIC_DOWNLOAD_PAGE_URL} \<and> version = ''1.0.4'')"
proof -
  note p = platform_gets_its_own_artifact[OF mac_manifest_built mac_key, unfolded Let_def mac_own]
  have "py_get ''url'' mac_manifest = PyStr ''https://v/mac.zip''" "py_get ''version'' mac_manifest = PyStr ''1.0.4''"
    using p by simp_all
  moreover have "\<forall>install version url. effective_manifest_version whole_numbers mac_manifest install = Inr (version, url) \<longrightarrow>
      url \<in> {''https://v/mac.zip'', GENERIC_DOWNLOAD_PAGE_URL} \<and> version = ''1.0.4''"
    using p by simp
  ultimately show ?thesis using mac_effective by blast
qed

lemma old_clients_see_the_held_back_release_witness: "py_get ''version'' plain_manifest = PyStr ''1.0.5''"
  by (rule old_clients_see_the_held_back_release[OF plain_manifest_built plain_effective plain_release_id])

section \<open>Checks\<close>

definition check_sample :: "string \<Rightarrow> pydict \<Rightarrow> update_result" where
  "check_sample key data = projr (check_manifest whole_numbers https_only ''1.0.3'' [] [] key data)"

lemma mac_checked: "check_manifest whole_numbers https_only ''1.0.3'' [] [] ''macos_x64'' staged = Inr (check_sample ''macos_x64'' staged)"
  by code_simp

lemma staged_url: "entry_url ''macos_x64'' staged = ''https://v/mac.zip''"
  "manifest_string (py_get ''sha256'' (download_entry ''macos_x64'' staged)) = ''ab''"
  by code_simp+

lemma client_offers_its_own_artifact_witness:
  "ur_url (check_sample ''macos_x64'' staged) = safe_update_download_url https_only ''https://v/mac.zip'' \<and>
    ur_sha256 (check_sample ''macos_x64'' staged) = ''ab''"
  using client_offers_its_own_artifact[OF mac_checked mac_key(2)] by (simp add: staged_url)

lemma staged_percent: "manifest_int whole_numbers staged ''rollout_percent'' 100 = Inr 5"
  by code_simp

lemma staged_latest: "ur_latest_version (check_sample ''macos_x64'' staged) = ''1.0.4''"
  by code_simp

lemma available_iff_witness:
  "ur_available (check_sample ''macos_x64'' staged) \<longleftrightarrow> ''1.0.4'' \<noteq> [] \<and> (ur_required (check_sample ''macos_x64'' staged) \<or>
    (parse_version ''1.0.4'' > parse_version ''1.0.3'' \<and> \<not> manifest_bool staged [''frozen''] \<and> (5::int) > 0 \<and>
     (get_text ''max_version'' staged = [] \<or> parse_version ''1.0.4'' \<le> parse_version (get_text ''max_version'' staged)) \<and>
     (([]::string) = [] \<or> parse_version [] \<le> parse_version ''1.0.4'')))"
  using available_iff[OF mac_checked staged_percent] unfolding staged_latest .

definition mandatory_fix :: pydict where
  "mandatory_fix = [(''version'', PyStr ''1.0.6''), (''url'', PyStr ''https://v/win.exe''), (''mandatory'', PyBool True),
     (''mandatory_reason'', PyStr ''Active exploit'')]"

lemma fix_checked: "check_manifest whole_numbers https_only ''1.0.3'' [] [] ''windows_x64'' mandatory_fix = Inr (check_sample ''windows_x64'' mandatory_fix)"
  by code_simp

lemma fix_forced: "classify_apply (result_fields (check_sample ''windows_x64'' mandatory_fix)) =
    Inr \<lparr>ad_disposition = Forced, ad_may_auto_apply = True, ad_requires_consent = False, ad_reason = ''active_exploit'', ad_rejected_reasons = []\<rparr>"
  by code_simp

lemma held_back_is_not_applied_witness:
  "ur_latest_version (check_sample ''windows_x64'' mandatory_fix) \<noteq> [] \<and> ur_mandatory (check_sample ''windows_x64'' mandatory_fix) \<and>
    (ur_required (check_sample ''windows_x64'' mandatory_fix) \<or>
     (parse_version (ur_latest_version (check_sample ''windows_x64'' mandatory_fix)) > parse_version ''1.0.3'' \<and>
      \<not> manifest_bool mandatory_fix [''frozen'']))"
  by (rule held_back_is_not_applied[OF fix_checked fix_forced]) simp

section \<open>Rollout, cache and reminders\<close>

lemma steps_read: "parse_rollout_steps whole_numbers (PyStr ''5, 50,100'') = Inr [5, 50, 100]"
  by code_simp

lemma rollout_climbs_its_ladder_witness:
  "climb whole_numbers [5, 50, 100] 4 0 = [5, 50, 100] \<and> sorted_wrt (<) [5, 50, 100 :: int] \<and> last [5, 50, 100 :: int] = 100"
  by (rule rollout_climbs_its_ladder[OF steps_read]) simp

lemma percents_read: "normalize_rollout_percent whole_numbers (PyStr ''100'') = Inr 100"
  "normalize_rollout_percent whole_numbers (PyBool True) = Inr 100"
  by code_simp+

lemma in_whole_rollout: "is_in_rollout whole_numbers ''install'' ''release'' (PyStr ''100'') False = Inr True"
  by (simp add: is_in_rollout_def percents_read)

lemma rollout_only_grows_witness: "is_in_rollout whole_numbers ''install'' ''release'' (PyBool True) False = Inr True"
  by (rule rollout_only_grows[OF in_whole_rollout percents_read]) simp

lemma network_asked_rarely_witness:
  "sorted_wrt (\<lambda>a b. a + MANIFEST_FAILURE_COOLDOWN \<le> b)
     (network_calls ''u'' [(0, Inl ''down''), (5000, Inl ''down''), (61000, Inl ''down'')] (empty_cache :: string manifest_cache))"
  by (rule network_asked_rarely) simp

definition found_first :: reminder_state where
  "found_first = \<lparr>rm_available_version = ''1.0.4'', rm_first_seen_at = 1, rm_remind_until = 0\<rparr>"

lemma sample_available: "ur_available (check_sample ''macos_x64'' staged)" "ur_latest_version (check_sample ''macos_x64'' staged) \<noteq> []"
  "rm_available_version found_first = ur_latest_version (check_sample ''macos_x64'' staged)"
  by code_simp+

lemma postponing_ends_witness:
  "\<exists>esc \<in> {RequireDecision, ForcedUpdate}. fst (notify_of_check 700000000 (check_sample ''macos_x64'' staged)
     (fold reminders_after [Postponed 5, Postponed 690000000] found_first)) = Some esc"
  by (rule postponing_ends[OF sample_available(3) _ _ _ sample_available(1,2), of 1])
    (simp_all add: found_first_def REQUIRE_DECISION_AFTER_def only_finds_def)

text \<open>Another release in between starts the seven days again: this one is found on the first day and on the ninth, another one
  on the fourth; it is postponed on the ninth day, and the check an hour later is silent.\<close>

definition day :: int where
  "day = 86400000"

lemma release_between_restarts_clock:
  "let this = check_sample ''macos_x64'' staged; other = this\<lparr>ur_latest_version := ''1.0.5''\<rparr>;
       nothing = \<lparr>rm_available_version = [], rm_first_seen_at = 0, rm_remind_until = 0\<rparr>;
       st = fold reminders_after [Found (1 * day) this, Found (4 * day) other, Found (9 * day) this, Postponed (9 * day)] nothing in
   fst (notify_of_check (9 * day + 3600000) this st) = None \<and> 9 * day - 1 * day > REQUIRE_DECISION_AFTER"
  by code_simp

section \<open>Manifests that are misread\<close>

text \<open>A maximum version of null is the text \<open>None\<close>, which has no numbers and is below every version: the running version has
  a known issue, and nothing newer is offered.\<close>

definition null_maximum :: pydict where
  "null_maximum = [(''version'', PyStr ''1.0.6''), (''url'', PyStr ''https://v/win.exe''), (''max_version'', PyNone)]"

lemma null_maximum_blocks:
  "(let r = check_sample ''windows_x64'' null_maximum in (ur_available r, ur_reason r, ur_max_version_issue r)) =
     (False, ''max_version'', True)"
  by code_simp

text \<open>A segment that is no number ends the version, so a release candidate or hotfix is older than what it follows.\<close>

lemma suffixed_version_is_older: "parse_version ''1.0.6-rc1'' = [1, 0]" "parse_version ''1.0.6-rc1'' < parse_version ''1.0.5''"
  by code_simp+

text \<open>A null \<open>installer_sha256\<close> becomes the hash \<open>None\<close>.\<close>

lemma null_hash_is_text:
  "ur_sha256 (check_sample ''windows_x64'' [(''version'', PyStr ''1.0.6''), (''installer_sha256'', PyNone)]) = ''None''"
  by code_simp

text \<open>The client knows a mandatory flag as a bool or a text only and hands on the first reason it finds: the policy alone would
  force these two releases, through the client they are offered.\<close>

definition numeric_flag :: pydict where
  "numeric_flag = [(''version'', PyStr ''1.0.6''), (''available'', PyBool True), (''mandatory'', PyInt 1), (''mandatory_reason'', PyStr ''cve'')]"

definition two_reasons :: pydict where
  "two_reasons = [(''version'', PyStr ''1.0.6''), (''available'', PyBool True), (''mandatory'', PyBool True),
     (''mandatory_reason'', PyStr ''routine''), (''candidate'', PyDict [(''mandatory_reason'', PyStr ''cve'')])]"

lemma policy_alone_forces: "may_auto_apply numeric_flag = Inr True" "may_auto_apply two_reasons = Inr True"
  by code_simp+

lemma client_loses_flag: "may_auto_apply (result_fields (check_sample ''windows_x64'' numeric_flag)) = Inr False"
  by code_simp

lemma client_loses_reason: "may_auto_apply (result_fields (check_sample ''windows_x64'' two_reasons)) = Inr False"
  by code_simp

text \<open>The text of an infinite percentage raises an error that is not caught.\<close>

lemma infinite_percent_raises: "num s = TooLarge \<Longrightarrow> normalize_rollout_percent num (PyStr s) = Inl OverflowError"
  by (simp add: normalize_rollout_percent_def)

end
