(* ===== verification/Anthropic_Cache.thy ===== *)
theory Anthropic_Cache
  imports Frame_Rendering
begin

text \<open>
  Prompt-cache annotations of Anthropic requests (\<open>services/llm/anthropic_cache.py\<close>) and the rendering with a cache
  policy.  The code works on a deep copy of the rendered bundle, whose messages are separate objects; here every step
  returns the changed messages.  The only error is the lookup of an unhashable block type in a set.
\<close>

section \<open>The policy\<close>

record cache_policy =
  cp_enabled :: bool
  cp_static_prompt :: bool
  cp_compact_summary :: bool
  cp_long_lived_meta :: bool
  cp_tool_schemas :: bool
  cp_ttl :: "string option"
  cp_scope :: "string option"
  cp_cache_edits :: "pydict list"
  cp_pinned_cache_edits :: "(int \<times> pydict) list"
  cp_skip_cache_write :: bool

definition default_cache_policy :: cache_policy where
  "default_cache_policy = \<lparr>cp_enabled = True, cp_static_prompt = True, cp_compact_summary = True, cp_long_lived_meta = True,
     cp_tool_schemas = True, cp_ttl = None, cp_scope = None, cp_cache_edits = [], cp_pinned_cache_edits = [],
     cp_skip_cache_write = False\<rparr>"

datatype cache_error = UnhashableType

definition cache_control :: "cache_policy \<Rightarrow> pydict" where
  "cache_control policy = (''type'', PyStr ''ephemeral'') #
     (case cp_ttl policy of None \<Rightarrow> [] | Some t \<Rightarrow> [(''ttl'', PyStr t)]) @
     (case cp_scope policy of None \<Rightarrow> [] | Some s \<Rightarrow> [(''scope'', PyStr s)])"

section \<open>Content\<close>

definition content_array :: "pydict \<Rightarrow> pyval list" where
  "content_array m = (case py_get ''content'' m of
      PyStr s \<Rightarrow> [PyDict [(''type'', PyStr ''text''), (''text'', PyStr s)]]
    | PyList bs \<Rightarrow> bs
    | _ \<Rightarrow> [])"

text \<open>The message with an array as its content; the blocks are then changed in place.\<close>

definition with_content :: "pyval list \<Rightarrow> pydict \<Rightarrow> pydict" where
  "with_content bs m = py_set ''content'' (PyList bs) m"

fun has_cache_control :: "pyval \<Rightarrow> bool" where
  "has_cache_control (PyDict b) = py_has ''cache_control'' b"
| "has_cache_control _ = False"

fun without_cache_control :: "pyval \<Rightarrow> pyval" where
  "without_cache_control (PyDict b) = PyDict (AList.delete ''cache_control'' b)"
| "without_cache_control v = v"

definition strip_message_cache_controls :: "pydict \<Rightarrow> pydict" where
  "strip_message_cache_controls m = (case py_get ''content'' m of
      PyList bs \<Rightarrow> if list_ex has_cache_control bs then with_content (map without_cache_control bs) m else m
    | _ \<Rightarrow> m)"

section \<open>The breakpoint\<close>

fun unhashable_type :: "pyval \<Rightarrow> bool" where
  "unhashable_type (PyList xs) = True"
| "unhashable_type (PyDict d) = True"
| "unhashable_type _ = False"

text \<open>The loop from the last block down; it is given the blocks in reverse order, each with its index.\<close>

fun cacheable_loop :: "(nat \<times> pyval) list \<Rightarrow> cache_error + nat option" where
  "cacheable_loop [] = Inr None"
| "cacheable_loop ((i, PyDict b) # bs) =
     (if unhashable_type (py_get ''type'' b) then Inl UnhashableType
      else if py_get ''type'' b \<in> {PyStr ''thinking'', PyStr ''redacted_thinking''} then cacheable_loop bs
      else Inr (Some i))"
| "cacheable_loop ((i, v) # bs) = cacheable_loop bs"

definition last_cacheable_block_index :: "pyval list \<Rightarrow> cache_error + nat option" where
  "last_cacheable_block_index bs = cacheable_loop (rev (zip [0..<length bs] bs))"

fun cache_block_text :: "pyval \<Rightarrow> string list" where
  "cache_block_text (PyDict b) = (case py_get ''text'' b of PyStr s \<Rightarrow> [s] | _ \<Rightarrow> [])"
| "cache_block_text _ = []"

definition cache_message_text :: "pydict \<Rightarrow> string" where
  "cache_message_text m = (case py_get ''content'' m of
      PyStr s \<Rightarrow> s
    | PyList bs \<Rightarrow> join_with newline (concat (map cache_block_text bs))
    | _ \<Rightarrow> [])"

definition message_allowed_by_policy :: "cache_policy \<Rightarrow> pydict \<Rightarrow> bool" where
  "message_allowed_by_policy policy m = (let t = py_lstrip (cache_message_text m) in
     if \<not> cp_long_lived_meta policy \<and> starts_with ''<system-reminder>'' t then False
     else if \<not> cp_compact_summary policy \<and>
       list_ex (\<lambda>marker. str_contains marker t) [''compact_summary'', ''<compact-summary'', ''<session-memory-compact'']
     then False
     else True)"

text \<open>\<open>range(preferred, -1, -1)\<close>: the indices of the messages, without the last one where nothing is to be written\<close>

definition cache_marker_index :: "cache_policy \<Rightarrow> pydict list \<Rightarrow> nat option" where
  "cache_marker_index policy ms =
     List.find (\<lambda>i. message_allowed_by_policy policy (ms ! i))
       (rev [0..<(if cp_skip_cache_write policy then length ms - 1 else length ms)])"

definition mark_block :: "cache_policy \<Rightarrow> pyval \<Rightarrow> pyval" where
  "mark_block policy v = (case v of
      PyDict b \<Rightarrow> PyDict (py_set ''cache_control'' (PyDict (cache_control policy)) b) | _ \<Rightarrow> v)"

definition add_message_breakpoint :: "cache_policy \<Rightarrow> pydict list \<Rightarrow> cache_error + pydict list" where
  "add_message_breakpoint policy ms = (case cache_marker_index policy ms of
      None \<Rightarrow> Inr ms
    | Some i \<Rightarrow> (let bs = content_array (ms ! i) in case last_cacheable_block_index bs of
          Inl e \<Rightarrow> Inl e
        | Inr None \<Rightarrow> Inr (ms[i := with_content bs (ms ! i)])
        | Inr (Some j) \<Rightarrow> Inr (ms[i := with_content (bs[j := mark_block policy (bs ! j)]) (ms ! i)])))"

section \<open>Cache edits\<close>

text \<open>The references that a well-formed edits block deletes; none where the block is not one\<close>

fun deleted_reference :: "pyval \<Rightarrow> string list" where
  "deleted_reference (PyDict e) = (case py_get ''cache_reference'' e of
      PyStr r \<Rightarrow> if py_strip r = [] then []
        else if py_has ''type'' e \<and> py_get ''type'' e \<noteq> PyStr ''delete'' then []
        else [py_strip r]
    | _ \<Rightarrow> [])"
| "deleted_reference _ = []"

definition normalized_references :: "pydict \<Rightarrow> string list" where
  "normalized_references b = (if py_get ''type'' b \<noteq> PyStr ''cache_edits'' then []
     else (case py_get ''edits'' b of PyList es \<Rightarrow> concat (map deleted_reference es) | _ \<Rightarrow> []))"

fun fresh_references :: "string set \<Rightarrow> string list \<Rightarrow> string list" where
  "fresh_references seen [] = []"
| "fresh_references seen (r # rs) =
     (if r \<in> seen then fresh_references seen rs else r # fresh_references (insert r seen) rs)"

definition cache_edits_block :: "string list \<Rightarrow> pyval" where
  "cache_edits_block rs = PyDict [(''type'', PyStr ''cache_edits''),
     (''edits'', PyList (map (\<lambda>r. PyDict [(''type'', PyStr ''delete''), (''cache_reference'', PyStr r)]) rs))]"

text \<open>The block with the references not seen before, if any, and the references seen then\<close>

definition dedupe_cache_edits_block :: "pydict \<Rightarrow> string set \<Rightarrow> string list \<times> string set" where
  "dedupe_cache_edits_block b seen = (let rs = fresh_references seen (normalized_references b) in (rs, seen \<union> set rs))"

fun is_tool_result_block :: "pyval \<Rightarrow> bool" where
  "is_tool_result_block (PyDict b) = (py_get ''type'' b = PyStr ''tool_result'')"
| "is_tool_result_block _ = False"

text \<open>\<open>content.insert(k, block)\<close>\<close>

definition insert_at :: "nat \<Rightarrow> 'a \<Rightarrow> 'a list \<Rightarrow> 'a list" where
  "insert_at k x xs = take k xs @ x # drop k xs"

definition insert_block_after_tool_results :: "pyval \<Rightarrow> pyval list \<Rightarrow> pyval list" where
  "insert_block_after_tool_results block content =
     (case List.find (\<lambda>i. is_tool_result_block (content ! i)) (rev [0..<length content]) of
        Some i \<Rightarrow> (let content' = insert_at (i + 1) block content in
          if i + 1 = length content' - 1
          then content' @ [PyDict [(''type'', PyStr ''text''), (''text'', PyStr ''.'')]] else content')
      | None \<Rightarrow> insert_at (length content - 1) block content)"

definition insert_edits :: "string list \<Rightarrow> pydict \<Rightarrow> pydict" where
  "insert_edits rs m = with_content (insert_block_after_tool_results (cache_edits_block rs) (content_array m)) m"

definition is_user_message :: "pydict \<Rightarrow> bool" where
  "is_user_message m = (py_get ''role'' m = PyStr ''user'')"

fun insert_pinned :: "(int \<times> pydict) list \<Rightarrow> pydict list \<times> string set \<Rightarrow> pydict list \<times> string set" where
  "insert_pinned [] (ms, seen) = (ms, seen)"
| "insert_pinned ((k, b) # edits) (ms, seen) =
     (if k < 0 \<or> k \<ge> int (length ms) \<or> \<not> is_user_message (ms ! nat k) then insert_pinned edits (ms, seen)
      else (let (rs, seen') = dedupe_cache_edits_block b seen in
        if rs = [] then insert_pinned edits (ms, seen')
        else insert_pinned edits (ms[nat k := insert_edits rs (ms ! nat k)], seen')))"

definition last_user_index :: "pydict list \<Rightarrow> nat option" where
  "last_user_index ms = List.find (\<lambda>i. is_user_message (ms ! i)) (rev [0..<length ms])"

fun insert_new :: "pydict list \<Rightarrow> pydict list \<times> string set \<Rightarrow> pydict list \<times> string set" where
  "insert_new [] (ms, seen) = (ms, seen)"
| "insert_new (b # edits) (ms, seen) = (let (rs, seen') = dedupe_cache_edits_block b seen in
     if rs = [] then insert_new edits (ms, seen')
     else insert_new edits (case last_user_index ms of None \<Rightarrow> ms | Some i \<Rightarrow> ms[i := insert_edits rs (ms ! i)], seen'))"

definition insert_cache_edits :: "cache_policy \<Rightarrow> pydict list \<Rightarrow> pydict list" where
  "insert_cache_edits policy ms =
     fst (insert_new (cp_cache_edits policy) (insert_pinned (cp_pinned_cache_edits policy) (ms, {})))"

section \<open>Cache references\<close>

fun content_has_cache_control :: "pyval \<Rightarrow> bool" where
  "content_has_cache_control (PyList bs) = list_ex has_cache_control bs"
| "content_has_cache_control _ = False"

definition last_cache_control_message_index :: "pydict list \<Rightarrow> nat option" where
  "last_cache_control_message_index ms =
     List.find (\<lambda>i. content_has_cache_control (py_get ''content'' (ms ! i))) (rev [0..<length ms])"

fun referenced_block :: "pyval \<Rightarrow> pyval" where
  "referenced_block (PyDict b) = (if py_get ''type'' b = PyStr ''tool_result''
     then (case py_get ''tool_use_id'' b of
         PyStr i \<Rightarrow> if py_strip i \<noteq> [] then PyDict (py_set ''cache_reference'' (PyStr i) b) else PyDict b
       | _ \<Rightarrow> PyDict b)
     else PyDict b)"
| "referenced_block v = v"

definition add_references :: "pydict \<Rightarrow> pydict" where
  "add_references m = (case py_get ''content'' m of
      PyList bs \<Rightarrow> if is_user_message m \<and> map referenced_block bs \<noteq> bs then with_content (map referenced_block bs) m else m
    | _ \<Rightarrow> m)"

definition add_cache_references_to_prefix_tool_results :: "pydict list \<Rightarrow> pydict list" where
  "add_cache_references_to_prefix_tool_results ms = (case last_cache_control_message_index ms of
      None \<Rightarrow> ms | Some n \<Rightarrow> map add_references (take n ms) @ drop n ms)"

section \<open>The request\<close>

definition annotate_messages :: "cache_policy \<Rightarrow> pydict list \<Rightarrow> cache_error + pydict list" where
  "annotate_messages policy ms = map_sum id (add_cache_references_to_prefix_tool_results \<circ> insert_cache_edits policy)
     (add_message_breakpoint policy (map strip_message_cache_controls ms))"

definition annotate_system_blocks :: "cache_policy \<Rightarrow> pydict \<Rightarrow> pydict" where
  "annotate_system_blocks policy bundle = (if \<not> cp_static_prompt policy then bundle
     else (case py_get ''system'' bundle of
         PyList (first # rest) \<Rightarrow> py_set ''system'' (PyList (mark_block policy first # rest)) bundle
       | _ \<Rightarrow> bundle))"

definition annotate_tools :: "cache_policy \<Rightarrow> pydict \<Rightarrow> pydict" where
  "annotate_tools policy bundle = (if \<not> cp_tool_schemas policy then bundle
     else (case py_get ''tools'' bundle of
         PyList tools \<Rightarrow> if tools = [] then bundle
           else py_set ''tools'' (PyList (butlast tools @ [mark_block policy (last tools)])) bundle
       | _ \<Rightarrow> bundle))"

fun dict_messages :: "pyval list \<Rightarrow> pydict list option" where
  "dict_messages [] = Some []"
| "dict_messages (PyDict m # vs) = map_option ((#) m) (dict_messages vs)"
| "dict_messages (v # vs) = None"

definition apply_anthropic_cache_controls :: "pydict \<Rightarrow> cache_policy \<Rightarrow> cache_error + pydict" where
  "apply_anthropic_cache_controls bundle policy =
     (if \<not> cp_enabled policy then Inr bundle
      else map_sum id (annotate_tools policy \<circ> annotate_system_blocks policy)
        (case py_get ''messages'' bundle of
           PyList vs \<Rightarrow> (case dict_messages vs of
               Some ms \<Rightarrow> map_sum id (\<lambda>ms'. py_set ''messages'' (PyList (map PyDict ms')) bundle) (annotate_messages policy ms)
             | None \<Rightarrow> Inr bundle)
         | _ \<Rightarrow> Inr bundle))"

text \<open>\<open>render_for_anthropic\<close> with a cache policy\<close>

datatype cached_error = CachedRender render_error | CacheError cache_error

definition rendered_bundle :: "pydict list \<times> pydict list \<Rightarrow> pydict" where
  "rendered_bundle r = [(''system'', PyList (map PyDict (fst r))), (''messages'', PyList (map PyDict (snd r)))]"

definition render_for_anthropic_cached :: "norm_env \<Rightarrow> cache_policy option \<Rightarrow> prompt_bundle \<Rightarrow> cached_error + pydict" where
  "render_for_anthropic_cached env cache_policy b = (case render_for_anthropic env b of
      Inl e \<Rightarrow> Inl (CachedRender e)
    | Inr r \<Rightarrow> (case cache_policy of
        None \<Rightarrow> Inr (rendered_bundle r)
      | Some policy \<Rightarrow> map_sum CacheError id (apply_anthropic_cache_controls (rendered_bundle r) policy)))"

section \<open>Requests without streaming\<close>

definition MAX_NON_STREAMING_TOKENS :: int where
  "MAX_NON_STREAMING_TOKENS = 64000"

text \<open>\<open>isinstance(v, int)\<close>, which a bool is too\<close>

fun int_instance :: "pyval \<Rightarrow> int option" where
  "int_instance (PyInt i) = Some i"
| "int_instance (PyBool b) = Some (if b then 1 else 0)"
| "int_instance _ = None"

definition clamp_max_tokens :: "pydict \<Rightarrow> pydict" where
  "clamp_max_tokens body = (case int_instance (py_get ''max_tokens'' body) of
      Some n \<Rightarrow> if n > MAX_NON_STREAMING_TOKENS then py_set ''max_tokens'' (PyInt MAX_NON_STREAMING_TOKENS) body else body
    | None \<Rightarrow> body)"

definition clamp_thinking :: "pydict \<Rightarrow> pydict" where
  "clamp_thinking body = (case (py_get ''thinking'' body, int_instance (py_get ''max_tokens'' body)) of
      (PyDict thinking, Some n) \<Rightarrow> (case int_instance (py_get ''budget_tokens'' thinking) of
          Some budget \<Rightarrow> if budget \<ge> n
            then py_set ''thinking'' (PyDict (py_set ''budget_tokens'' (PyInt (max 1 (n - 1))) thinking)) body else body
        | None \<Rightarrow> body)
    | _ \<Rightarrow> body)"

definition adjust_params_for_non_streaming :: "pydict \<Rightarrow> pydict" where
  "adjust_params_for_non_streaming body = clamp_thinking (clamp_max_tokens (AList.delete ''stream'' body))"

section \<open>Counting\<close>

text \<open>What a loop over a value goes through; \<open>None\<close> where it raises a \<open>TypeError\<close>.  Only list items can be dicts.\<close>

fun loop_items :: "pyval \<Rightarrow> pyval list option" where
  "loop_items (PyList xs) = Some xs"
| "loop_items (PyStr s) = Some (map (\<lambda>c. PyStr [c]) s)"
| "loop_items (PyDict d) = Some (map (PyStr \<circ> fst) d)"
| "loop_items v = (if py_truthy v then None else Some [])"

fun message_breakpoints :: "pyval \<Rightarrow> nat" where
  "message_breakpoints (PyDict m) = (case py_get ''content'' m of PyList bs \<Rightarrow> length (filter has_cache_control bs) | _ \<Rightarrow> 0)"
| "message_breakpoints _ = 0"

definition count_cache_breakpoints :: "pydict \<Rightarrow> nat option" where
  "count_cache_breakpoints body =
     (case (loop_items (py_get ''system'' body), loop_items (py_get ''tools'' body), loop_items (py_get ''messages'' body)) of
        (Some system, Some tools, Some messages) \<Rightarrow>
          Some (length (filter has_cache_control (system @ tools)) + sum_list (map message_breakpoints messages))
      | _ \<Rightarrow> None)"

end
