(* ===== verification/Cache_Properties.thy ===== *)
theory Cache_Properties
  imports Anthropic_Cache "HOL-Library.Multiset" Rendering_Examples
begin

text \<open>
  What the cache annotations promise: the one breakpoint of the policy among the messages, calls and answers left where they are, every
  reference deleted once, and a request that can be sent without streaming; and the same for a rendered conversation.
\<close>

section \<open>Blocks and content\<close>

text \<open>What the validator reads of a block is not changed.\<close>

definition same_block :: "pyval \<Rightarrow> pyval \<Rightarrow> bool" where
  "same_block v w = (is_block ''tool_use'' w = is_block ''tool_use'' v \<and> block_field ''id'' w = block_field ''id'' v \<and>
     is_block ''tool_result'' w = is_block ''tool_result'' v \<and> block_field ''tool_use_id'' w = block_field ''tool_use_id'' v)"

lemma same_block_refl [simp]: "same_block v v"
  by (simp add: same_block_def)

lemma annotated_blocks_same [simp]:
  "same_block v (without_cache_control v)" "same_block v (mark_block policy v)" "same_block v (referenced_block v)"
proof -
  show "same_block v (without_cache_control v)" by (cases v) (simp_all add: same_block_def)
  show "same_block v (mark_block policy v)" by (cases v) (simp_all add: same_block_def mark_block_def)
  show "same_block v (referenced_block v)" by (cases v) (auto simp: same_block_def split: pyval.split)
qed

definition call_ids :: "pyval list \<Rightarrow> string list" where
  "call_ids bs = map (block_field ''id'') (filter (is_block ''tool_use'') bs)"

definition answer_ids :: "pyval list \<Rightarrow> string list" where
  "answer_ids bs = map (block_field ''tool_use_id'') (filter (is_block ''tool_result'') bs)"

lemma ids_simps [simp]:
  "call_ids [] = []" "call_ids (v # bs) = (if is_block ''tool_use'' v then [block_field ''id'' v] else []) @ call_ids bs"
  "call_ids (bs @ cs) = call_ids bs @ call_ids cs"
  "answer_ids [] = []"
  "answer_ids (v # bs) = (if is_block ''tool_result'' v then [block_field ''tool_use_id'' v] else []) @ answer_ids bs"
  "answer_ids (bs @ cs) = answer_ids bs @ answer_ids cs"
  by (simp_all add: call_ids_def answer_ids_def)

lemma same_blocks_ids: "list_all2 same_block bs cs \<Longrightarrow> call_ids cs = call_ids bs \<and> answer_ids cs = answer_ids bs"
  by (induction rule: list_all2_induct) (auto simp: same_block_def)

lemma ids_map: "(\<And>v. same_block v (f v)) \<Longrightarrow> call_ids (map f bs) = call_ids bs \<and> answer_ids (map f bs) = answer_ids bs"
  by (rule same_blocks_ids) (simp add: list_all2_conv_all_nth)

lemma ids_mark: "call_ids (bs[j := mark_block policy (bs ! j)]) = call_ids bs \<and>
    answer_ids (bs[j := mark_block policy (bs ! j)]) = answer_ids bs"
  by (rule same_blocks_ids, cases "j < length bs") (auto simp: list_all2_conv_all_nth nth_list_update)

lemma ids_insert_at: "\<not> is_block ''tool_use'' v \<Longrightarrow> \<not> is_block ''tool_result'' v \<Longrightarrow>
    call_ids (insert_at k v bs) = call_ids bs \<and> answer_ids (insert_at k v bs) = answer_ids bs"
  unfolding insert_at_def by simp (metis append_take_drop_id ids_simps(3,6))

lemma ids_insert_edits:
  "call_ids (insert_block_after_tool_results (cache_edits_block rs) bs) = call_ids bs"
  "answer_ids (insert_block_after_tool_results (cache_edits_block rs) bs) = answer_ids bs"
  using ids_insert_at[of "cache_edits_block rs"]
  by (simp_all add: insert_block_after_tool_results_def cache_edits_block_def Let_def split: option.split)

section \<open>Messages\<close>

text \<open>The role and the ids that the validator reads of a message\<close>

definition wire_part :: "pydict \<Rightarrow> string option \<times> string list \<times> string list" where
  "wire_part m = (stripped_role m, block_ids_of ''tool_use'' ''id'' (py_get ''content'' m),
     block_ids_of ''tool_result'' ''tool_use_id'' (py_get ''content'' m))"

lemma block_ids_content:
  "block_ids_of ''tool_use'' ''id'' (py_get ''content'' m) = call_ids (content_array m)"
  "block_ids_of ''tool_result'' ''tool_use_id'' (py_get ''content'' m) = answer_ids (content_array m)"
  by (simp_all add: block_ids_of_def content_array_def call_ids_def answer_ids_def split: pyval.split)

lemma content_of_with [simp]: "content_array (with_content bs m) = bs" "py_get ''content'' (with_content bs m) = PyList bs"
  by (simp_all add: content_array_def with_content_def)

lemma with_content_part: "call_ids bs = call_ids (content_array m) \<Longrightarrow> answer_ids bs = answer_ids (content_array m) \<Longrightarrow>
    wire_part (with_content bs m) = wire_part m"
  unfolding wire_part_def block_ids_content content_of_with(1)
  by (simp add: with_content_def stripped_role_def stripped_field_def)

lemma list_content: "py_get ''content'' m = PyList bs \<Longrightarrow> content_array m = bs"
  by (simp add: content_array_def)

lemma strip_part: "wire_part (strip_message_cache_controls m) = wire_part m"
  unfolding strip_message_cache_controls_def
  by (auto simp: list_content ids_map intro!: with_content_part split: pyval.split)

lemma references_part: "wire_part (add_references m) = wire_part m"
  unfolding add_references_def
  by (auto simp: list_content ids_map intro!: with_content_part split: pyval.split)

lemma edits_part: "wire_part (insert_edits rs m) = wire_part m"
  by (simp add: insert_edits_def ids_insert_edits with_content_part)

lemma update_part: "wire_part m = wire_part (ms ! i) \<Longrightarrow> map wire_part (ms[i := m]) = map wire_part ms"
  by (cases "i < length ms") (auto simp: map_update intro: nth_equalityI simp: nth_list_update)

lemma breakpoint_part: "add_message_breakpoint policy ms = Inr ms' \<Longrightarrow> map wire_part ms' = map wire_part ms"
  by (auto simp: add_message_breakpoint_def Let_def ids_mark intro!: update_part with_content_part
      split: option.splits sum.splits)

lemma pinned_part: "map wire_part (fst (insert_pinned edits (ms, seen))) = map wire_part ms"
proof (induction edits arbitrary: ms seen)
  case (Cons e edits)
  then show ?case by (cases e) (simp add: edits_part update_part split: prod.split)
qed simp

lemma new_part: "map wire_part (fst (insert_new edits (ms, seen))) = map wire_part ms"
  by (induction edits arbitrary: ms seen) (simp_all add: edits_part update_part split: prod.split option.split)

lemma edits_inserted_part: "map wire_part (insert_cache_edits policy ms) = map wire_part ms"
proof -
  have "fst (insert_new edits ps) = fst (insert_new edits (fst ps, snd ps))" for edits ps by simp
  then show ?thesis by (metis insert_cache_edits_def new_part pinned_part)
qed

lemma references_map:
  assumes "\<And>m. f (add_references m) = f m"
  shows "map f (add_cache_references_to_prefix_tool_results ms) = map f ms"
proof -
  have "map f (map add_references (take n ms) @ drop n ms) = map f (take n ms) @ map f (drop n ms)" for n
    by (simp add: assms comp_def)
  then have "map f (map add_references (take n ms) @ drop n ms) = map f ms" for n
    by (simp flip: map_append)
  then show ?thesis by (simp add: add_cache_references_to_prefix_tool_results_def split: option.split)
qed

lemma annotated_part: "annotate_messages policy ms = Inr ms' \<Longrightarrow> map wire_part ms' = map wire_part ms"
proof -
  assume "annotate_messages policy ms = Inr ms'"
  then obtain ms1 where ms1: "add_message_breakpoint policy (map strip_message_cache_controls ms) = Inr ms1"
    "ms' = add_cache_references_to_prefix_tool_results (insert_cache_edits policy ms1)"
    by (auto simp: annotate_messages_def map_sum_def split: sum.splits)
  show ?thesis using breakpoint_part[OF ms1(1)] by (simp add: ms1(2) references_map references_part edits_inserted_part strip_part comp_def)
qed

section \<open>The validator accepts what it accepted\<close>

text \<open>The checks that read no more than the wire part\<close>

definition same_wire :: "wire_entry \<Rightarrow> wire_entry \<Rightarrow> bool" where
  "same_wire e f = (we_role f = we_role e \<and> we_index f = we_index e \<and> entry_use_ids ''anthropic'' f = entry_use_ids ''anthropic'' e \<and>
     entry_result_ids ''anthropic'' f = entry_result_ids ''anthropic'' e)"

lemma same_wire_entries: "map wire_part ns = map wire_part ms \<Longrightarrow> list_all2 same_wire (anthropic_entries ms) (anthropic_entries ns)"
proof -
  assume *: "map wire_part ns = map wire_part ms"
  then have len: "length ns = length ms" by (metis length_map)
  have "wire_part (ns ! i) = wire_part (ms ! i)" if "i < length ms" for i using * that len by (metis nth_map)
  then show ?thesis
    by (auto simp: list_all2_conv_all_nth anthropic_entries_def numbered_def len same_wire_def anthropic_entry_def
        entry_use_ids_def entry_result_ids_def wire_part_def)
qed

lemma same_wire_entries_check: "list_all2 same_wire es fs \<Longrightarrow> check_entries ''anthropic'' s fs = check_entries ''anthropic'' s es"
  by (induction arbitrary: s rule: list_all2_induct) (auto simp: same_wire_def split: sum.split)

lemma same_wire_alternation:
  "list_all2 same_wire es fs \<Longrightarrow> rel_option same_wire p q \<Longrightarrow>
     validate_role_alternation ''anthropic'' q fs = validate_role_alternation ''anthropic'' p es"
proof (induction arbitrary: p q rule: list_all2_induct)
  case (Cons e es f fs)
  then show ?case by (cases p; cases q) (auto simp: same_wire_def split: option.split)
qed simp

lemma annotated_checks:
  assumes "annotate_messages policy ms = Inr ms'"
  shows "validate_tool_pairs ''anthropic'' (anthropic_entries ms') = validate_tool_pairs ''anthropic'' (anthropic_entries ms)"
    and "validate_role_alternation ''anthropic'' None (anthropic_entries ms') = validate_role_alternation ''anthropic'' None (anthropic_entries ms)"
proof -
  note same = same_wire_entries[OF annotated_part[OF assms]]
  show "validate_tool_pairs ''anthropic'' (anthropic_entries ms') = validate_tool_pairs ''anthropic'' (anthropic_entries ms)"
    by (simp add: validate_tool_pairs_def same_wire_entries_check[OF same])
  show "validate_role_alternation ''anthropic'' None (anthropic_entries ms') = validate_role_alternation ''anthropic'' None (anthropic_entries ms)"
    by (rule same_wire_alternation[OF same]) simp
qed

section \<open>One breakpoint\<close>

abbreviation breakpoints :: "pyval list \<Rightarrow> nat" where
  "breakpoints bs \<equiv> length (filter has_cache_control bs)"

definition cacheable :: "pyval \<Rightarrow> bool" where
  "cacheable v = (case v of PyDict b \<Rightarrow> py_get ''type'' b \<notin> {PyStr ''thinking'', PyStr ''redacted_thinking''} | _ \<Rightarrow> False)"

lemma cacheable_loop_Some: "cacheable_loop ps = Inr (Some i) \<Longrightarrow> \<exists>v. (i, v) \<in> set ps \<and> cacheable v"
  by (induction ps rule: cacheable_loop.induct) (auto simp: cacheable_def split: if_splits)

lemma cacheable_loop_None: "cacheable_loop ps = Inr None \<Longrightarrow> (i, v) \<in> set ps \<Longrightarrow> \<not> cacheable v"
  by (induction ps rule: cacheable_loop.induct) (auto simp: cacheable_def split: if_splits)

lemma last_cacheable:
  "last_cacheable_block_index bs = Inr (Some j) \<Longrightarrow> j < length bs \<and> cacheable (bs ! j)"
  "last_cacheable_block_index bs = Inr None \<Longrightarrow> \<not> list_ex cacheable bs"
proof -
  assume "last_cacheable_block_index bs = Inr (Some j)"
  then obtain v where "(j, v) \<in> set (zip [0..<length bs] bs)" "cacheable v"
    using cacheable_loop_Some by (fastforce simp: last_cacheable_block_index_def)
  then show "j < length bs \<and> cacheable (bs ! j)" by (auto simp: in_set_zip)
next
  assume none: "last_cacheable_block_index bs = Inr None"
  have "\<not> cacheable (bs ! i)" if "i < length bs" for i
    using cacheable_loop_None[of "rev (zip [0..<length bs] bs)" i "bs ! i"] none that
    by (force simp: last_cacheable_block_index_def in_set_zip)
  then show "\<not> list_ex cacheable bs" by (auto simp: list_ex_length)
qed

lemma breakpoints_of_message: "message_breakpoints (PyDict m) = breakpoints (content_array m)"
  by (simp add: content_array_def split: pyval.split)

lemma marked: "cacheable v \<Longrightarrow> has_cache_control (mark_block policy v)"
  by (cases v) (simp_all add: cacheable_def mark_block_def)

lemma breakpoints_update: "breakpoints bs = 0 \<Longrightarrow> j < length bs \<Longrightarrow> has_cache_control v \<Longrightarrow> breakpoints (bs[j := v]) = 1"
  by (induction bs arbitrary: j) (auto split: nat.split if_splits)

lemma without_not_has [simp]: "\<not> has_cache_control (without_cache_control v)"
  by (cases v) simp_all

lemma without_id: "\<not> has_cache_control v \<Longrightarrow> without_cache_control v = v"
  by (cases v) (auto simp: py_has_def intro!: delete_id simp: map_of_eq_None_iff)

lemma strip_content: "content_array (strip_message_cache_controls m) = map without_cache_control (content_array m)"
  unfolding strip_message_cache_controls_def
  by (auto simp: content_array_def with_content_def list_ex_iff without_id intro!: map_idI[symmetric] split: pyval.split)

lemma strip_breakpoints: "breakpoints (content_array (strip_message_cache_controls m)) = 0"
  by (simp add: strip_content filter_map comp_def)

lemma edits_breakpoints: "breakpoints (insert_block_after_tool_results (cache_edits_block rs) bs) = breakpoints bs"
proof -
  have "breakpoints (insert_at k (cache_edits_block rs) bs) = breakpoints bs" for k
    using arg_cong[OF append_take_drop_id[of k bs], of breakpoints]
    by (simp add: insert_at_def cache_edits_block_def del: append_take_drop_id)
  then show ?thesis by (simp add: insert_block_after_tool_results_def Let_def split: option.split)
qed

lemma referenced_has [simp]: "has_cache_control (referenced_block v) = has_cache_control v"
  by (cases v) (simp_all split: pyval.split)

lemma references_breakpoints: "breakpoints (content_array (add_references m)) = breakpoints (content_array m)"
  unfolding add_references_def by (auto simp: list_content filter_map comp_def split: pyval.split)

definition all_breakpoints :: "pydict list \<Rightarrow> nat list" where
  "all_breakpoints ms = map (breakpoints \<circ> content_array) ms"

lemma insert_edits_all: "all_breakpoints (ms[i := insert_edits rs (ms ! i)]) = all_breakpoints ms"
  by (cases "i < length ms") (auto simp: all_breakpoints_def insert_edits_def edits_breakpoints nth_list_update intro!: nth_equalityI)

lemma pinned_all: "all_breakpoints (fst (insert_pinned edits (ms, seen))) = all_breakpoints ms"
proof (induction edits arbitrary: ms seen)
  case (Cons e edits)
  then show ?case by (cases e) (simp add: insert_edits_all split: prod.split)
qed simp

lemma new_all: "all_breakpoints (fst (insert_new edits (ms, seen))) = all_breakpoints ms"
  by (induction edits arbitrary: ms seen) (simp_all add: insert_edits_all split: prod.split option.split)

lemma inserted_all: "all_breakpoints (insert_cache_edits policy ms) = all_breakpoints ms"
  unfolding insert_cache_edits_def by (metis new_all pinned_all prod.collapse)

lemma references_all: "all_breakpoints (add_cache_references_to_prefix_tool_results ms) = all_breakpoints ms"
  by (simp add: all_breakpoints_def references_breakpoints references_map)

lemma strip_cache_message_text: "cache_message_text (strip_message_cache_controls m) = cache_message_text m"
proof -
  have "cache_block_text (without_cache_control v) = cache_block_text v" for v by (cases v) simp_all
  then show ?thesis
    by (auto simp: strip_message_cache_controls_def cache_message_text_def with_content_def comp_def split: pyval.split)
qed

lemma strip_marker_index: "cache_marker_index policy (map strip_message_cache_controls ms) = cache_marker_index policy ms"
proof -
  have *: "List.find (\<lambda>i. message_allowed_by_policy policy (map strip_message_cache_controls ms ! i)) is =
      List.find (\<lambda>i. message_allowed_by_policy policy (ms ! i)) is" if "\<forall>i \<in> set is. i < length ms" for "is"
    using that by (induction "is") (simp_all add: message_allowed_by_policy_def strip_cache_message_text)
  show ?thesis unfolding cache_marker_index_def length_map by (rule *) auto
qed

lemma strip_cacheable: "list_ex cacheable (content_array (strip_message_cache_controls m)) = list_ex cacheable (content_array m)"
proof -
  have "cacheable (without_cache_control v) = cacheable v" for v by (cases v) (simp_all add: cacheable_def)
  then show ?thesis by (simp add: strip_content list_ex_iff)
qed

lemma marker_in_range: "cache_marker_index policy ms = Some i \<Longrightarrow> i < length ms"
  by (auto simp: cache_marker_index_def find_Some_iff rev_nth split: if_splits)

lemma breakpoint_sum:
  assumes "add_message_breakpoint policy ms = Inr ms'" "\<forall>m \<in> set ms. breakpoints (content_array m) = 0"
  shows "sum_list (all_breakpoints ms') = (case cache_marker_index policy ms of
      None \<Rightarrow> 0 | Some i \<Rightarrow> if list_ex cacheable (content_array (ms ! i)) then 1 else 0)"
proof -
  have zero: "sum_list (all_breakpoints ms) = 0" using assms(2) by (auto simp: all_breakpoints_def)
  have upd: "sum_list (all_breakpoints (ms[i := m])) = breakpoints (content_array m)" if "i < length ms" for i m
    using that assms(2) by (simp add: all_breakpoints_def map_update sum_list_update zero[unfolded all_breakpoints_def])
  show ?thesis
  proof (cases "cache_marker_index policy ms")
    case None
    then show ?thesis using assms(1) zero by (simp add: add_message_breakpoint_def)
  next
    case (Some i)
    have i: "i < length ms" by (rule marker_in_range[OF Some])
    then have none: "breakpoints (content_array (ms ! i)) = 0" using assms(2) by simp
    obtain found where found: "last_cacheable_block_index (content_array (ms ! i)) = Inr found"
      using assms(1) Some by (auto simp: add_message_breakpoint_def Let_def split: sum.splits)
    show ?thesis
    proof (cases found)
      case None
      then have ms': "ms' = ms[i := with_content (content_array (ms ! i)) (ms ! i)]"
        using assms(1) Some found by (simp add: add_message_breakpoint_def Let_def)
      have "\<not> list_ex cacheable (content_array (ms ! i))" using last_cacheable(2) found None by blast
      then show ?thesis using \<open>cache_marker_index policy ms = Some i\<close> none unfolding ms' upd[OF i] by simp
    next
      case (Some j)
      have j: "j < length (content_array (ms ! i))" "cacheable (content_array (ms ! i) ! j)"
        using last_cacheable(1) found Some by blast+
      from j have "list_ex cacheable (content_array (ms ! i))" by (auto simp: list_ex_length)
      moreover have ms': "ms' = ms[i := with_content ((content_array (ms ! i))[j := mark_block policy (content_array (ms ! i) ! j)]) (ms ! i)]"
        using assms(1) \<open>cache_marker_index policy ms = Some i\<close> found Some by (simp add: add_message_breakpoint_def Let_def)
      ultimately show ?thesis using \<open>cache_marker_index policy ms = Some i\<close> breakpoints_update[OF none j(1) marked[OF j(2)]]
        unfolding ms' upd[OF i] by simp
    qed
  qed
qed

text \<open>The messages of an annotated request carry one breakpoint, or none: none exactly when no message may be marked, or
  when the last message that may be has no block that can be.  Breakpoints the messages had are gone.\<close>

lemma one_breakpoint:
  assumes "annotate_messages policy ms = Inr ms'"
  shows "sum_list (map (\<lambda>m. message_breakpoints (PyDict m)) ms') = (case cache_marker_index policy ms of
      None \<Rightarrow> 0 | Some i \<Rightarrow> if list_ex cacheable (content_array (ms ! i)) then 1 else 0)"
proof -
  obtain ms1 where ms1: "add_message_breakpoint policy (map strip_message_cache_controls ms) = Inr ms1"
    "ms' = add_cache_references_to_prefix_tool_results (insert_cache_edits policy ms1)"
    using assms by (auto simp: annotate_messages_def map_sum_def split: sum.splits)
  have "map (\<lambda>m. message_breakpoints (PyDict m)) ms' = all_breakpoints ms'"
    by (simp add: all_breakpoints_def breakpoints_of_message del: message_breakpoints.simps)
  also have "all_breakpoints ms' = all_breakpoints ms1" by (simp add: ms1(2) references_all inserted_all)
  finally have "sum_list (map (\<lambda>m. message_breakpoints (PyDict m)) ms') = sum_list (all_breakpoints ms1)" by simp
  also have "\<dots> = (case cache_marker_index policy ms of
      None \<Rightarrow> 0 | Some i \<Rightarrow> if list_ex cacheable (content_array (ms ! i)) then 1 else 0)"
  proof -
    have "\<forall>m \<in> set (map strip_message_cache_controls ms). breakpoints (content_array m) = 0" by (simp only: set_map strip_breakpoints ball_simps) simp
    note sum = breakpoint_sum[OF ms1(1) this]
    show ?thesis unfolding sum strip_marker_index using marker_in_range[of policy ms] by (simp add: strip_cacheable split: option.split)
  qed
  finally show ?thesis .
qed

section \<open>Rendering with a cache policy\<close>

lemma first_error_None: "first_error checks = None \<longleftrightarrow> list_all (\<lambda>c. c = None) checks"
  by (auto simp: first_error_def find_None_iff find_Some_iff list_all_iff split: option.splits) (metis nth_mem option.distinct(1))

lemma rendered_is_valid:
  "render_for_anthropic env b = Inr r \<Longrightarrow> validate_tool_pairs ''anthropic'' (anthropic_entries (snd r)) = None \<and>
     validate_role_alternation ''anthropic'' None (anthropic_entries (snd r)) = None"
  by (auto simp: render_for_anthropic_def Let_def validate_canonical_chain_def first_error_None
      split: sum.splits option.splits)

lemma dict_messages_map: "dict_messages (map PyDict ms) = Some ms"
  by (induction ms) simp_all

lemma annotations_keep_messages: "py_get ''messages'' (annotate_tools policy (annotate_system_blocks policy d)) = py_get ''messages'' d"
  by (simp add: annotate_tools_def annotate_system_blocks_def split: pyval.split list.split)

lemma cached_rendering:
  assumes "render_for_anthropic_cached env (Some policy) b = Inr r" "cp_enabled policy"
  obtains sys ms ms' where "render_for_anthropic env b = Inr (sys, ms)" "annotate_messages policy ms = Inr ms'"
    "py_get ''messages'' r = PyList (map PyDict ms')"
proof -
  obtain sys ms where ms: "render_for_anthropic env b = Inr (sys, ms)"
    using assms(1) by (cases "render_for_anthropic env b") (auto simp: render_for_anthropic_cached_def)
  then have app: "apply_anthropic_cache_controls (rendered_bundle (sys, ms)) policy = Inr r"
    using assms(1) by (auto simp: render_for_anthropic_cached_def map_sum_def split: sum.splits)
  then obtain ms' where ms': "annotate_messages policy ms = Inr ms'"
    using assms(2) by (cases "annotate_messages policy ms")
      (auto simp: apply_anthropic_cache_controls_def rendered_bundle_def dict_messages_map)
  have "py_get ''messages'' r = PyList (map PyDict ms')"
    using app assms(2) ms' by (auto simp: apply_anthropic_cache_controls_def rendered_bundle_def dict_messages_map annotations_keep_messages)
  with ms ms' show thesis by (rule that)
qed

text \<open>C2: When a request is rendered with an enabled cache policy and this succeeds, its messages pass the tool-pair and the
  alternation check also after the annotation, which comes after those checks in the code.  The messages carry exactly one
  breakpoint when the message that the policy marks (the last one that it lets carry the mark) has a block that is not
  thinking, and none otherwise; breakpoints that the messages had are gone.  (The marks on the system prompt and the tools are
  separate and not counted.)\<close>

theorem cached_rendering_stays_valid:
  assumes "render_for_anthropic env b = Inr (sys, ms)" "render_for_anthropic_cached env (Some policy) b = Inr r" "cp_enabled policy"
  shows "\<exists>ms'. py_get ''messages'' r = PyList (map PyDict ms') \<and>
    validate_tool_pairs ''anthropic'' (anthropic_entries ms') = None \<and>
    validate_role_alternation ''anthropic'' None (anthropic_entries ms') = None \<and>
    sum_list (map (\<lambda>m. message_breakpoints (PyDict m)) ms') = (case cache_marker_index policy ms of
      None \<Rightarrow> 0 | Some i \<Rightarrow> if list_ex cacheable (content_array (ms ! i)) then 1 else 0)"
proof -
  obtain sys1 ms1 ms' where r: "render_for_anthropic env b = Inr (sys1, ms1)" "annotate_messages policy ms1 = Inr ms'"
    "py_get ''messages'' r = PyList (map PyDict ms')"
    by (rule cached_rendering[OF assms(2,3)])
  then have ms': "annotate_messages policy ms = Inr ms'" "py_get ''messages'' r = PyList (map PyDict ms')" using assms(1) by simp_all
  then show ?thesis using one_breakpoint[OF ms'(1)] rendered_is_valid[OF assms(1)] annotated_checks[OF ms'(1)] by auto
qed

section \<open>Cache edits\<close>

definition block_references :: "pyval \<Rightarrow> string list" where
  "block_references v = (case v of PyDict b \<Rightarrow> normalized_references b | _ \<Rightarrow> [])"

definition edit_references :: "pydict list \<Rightarrow> string list" where
  "edit_references ms = concat (map (\<lambda>m. concat (map block_references (content_array m))) ms)"

definition plain_reference :: "string \<Rightarrow> bool" where
  "plain_reference r = (r \<noteq> [] \<and> py_strip r = r)"

lemma normalized_plain: "list_all plain_reference (normalized_references b)"
proof -
  have "list_all plain_reference (deleted_reference e)" for e
    by (cases e) (auto simp: plain_reference_def split: pyval.split)
  then show ?thesis by (auto simp: normalized_references_def list_all_iff split: pyval.split)
qed

lemma fresh_in: "set (fresh_references seen rs) \<union> seen = set rs \<union> seen"
  by (induction seen rs rule: fresh_references.induct) auto

lemma fresh_out: "set (fresh_references seen rs) \<subseteq> set rs - seen"
  by (induction seen rs rule: fresh_references.induct) auto

lemma fresh_distinct: "distinct (fresh_references seen rs)"
proof (induction seen rs rule: fresh_references.induct)
  case (2 seen r rs)
  then show ?case using fresh_out[of "insert r seen" rs] by auto
qed simp

lemma edits_block_references: "list_all plain_reference rs \<Longrightarrow> block_references (cache_edits_block rs) = rs"
  by (induction rs) (auto simp: block_references_def cache_edits_block_def normalized_references_def plain_reference_def)

lemma mset_insert_at: "mset (concat (map f (insert_at k x xs))) = mset (f x) + mset (concat (map f xs))"
proof -
  have "mset (concat (map f xs)) = mset (concat (map f (take k xs))) + mset (concat (map f (drop k xs)))"
    by (metis append_take_drop_id concat_append map_append mset_append)
  then show ?thesis by (simp add: insert_at_def)
qed

lemma insert_edits_references:
  "list_all plain_reference rs \<Longrightarrow> mset (concat (map block_references (content_array (insert_edits rs m)))) =
     mset rs + mset (concat (map block_references (content_array m)))"
proof -
  assume rs: "list_all plain_reference rs"
  have dot: "block_references (PyDict [(''type'', PyStr ''text''), (''text'', PyStr t)]) = []" for t
    by (simp add: block_references_def normalized_references_def)
  show ?thesis
    by (simp add: insert_edits_def insert_block_after_tool_results_def Let_def mset_insert_at edits_block_references[OF rs] dot
        split: option.split)
qed

lemma references_at:
  "i < length ms \<Longrightarrow> list_all plain_reference rs \<Longrightarrow>
     mset (edit_references (ms[i := insert_edits rs (ms ! i)])) = mset (edit_references ms @ rs)"
proof (induction ms arbitrary: i)
  case (Cons m ms)
  then show ?case by (cases i) (simp_all add: edit_references_def insert_edits_references ac_simps)
qed simp

text \<open>The references deleted so far are those in the messages, each once.\<close>

definition deleted_once :: "string set \<Rightarrow> pydict list \<Rightarrow> bool" where
  "deleted_once seen ms = (distinct (edit_references ms) \<and> set (edit_references ms) = seen)"

lemma insert_once:
  assumes "deleted_once seen ms" "i < length ms" "dedupe_cache_edits_block b seen = (rs, seen')"
  shows "deleted_once seen' (ms[i := insert_edits rs (ms ! i)])"
proof -
  have rs: "rs = fresh_references seen (normalized_references b)" and seen': "seen' = seen \<union> set rs"
    using assms(3) by (auto simp: dedupe_cache_edits_block_def Let_def)
  have "list_all plain_reference rs"
    using fresh_out[of seen "normalized_references b"] normalized_plain[of b] by (auto simp: rs list_all_iff)
  note m = references_at[OF assms(2) this]
  have "distinct (edit_references ms @ rs)" using assms(1) fresh_out[of seen] fresh_distinct[of seen] by (auto simp: rs deleted_once_def)
  then show ?thesis using assms(1) mset_eq_imp_distinct_iff[OF m] mset_eq_setD[OF m]
    by (auto simp: deleted_once_def seen')
qed

lemma dedupe_none: "dedupe_cache_edits_block b seen = ([], seen') \<Longrightarrow> seen' = seen"
  by (auto simp: dedupe_cache_edits_block_def Let_def)

lemma dedupe_covers: "dedupe_cache_edits_block b seen = (rs, seen') \<Longrightarrow> seen' = seen \<union> set (normalized_references b)"
  using fresh_in[of seen "normalized_references b"] by (auto simp: dedupe_cache_edits_block_def Let_def)

lemma insert_edits_user: "is_user_message (insert_edits rs m) = is_user_message m"
  by (simp add: is_user_message_def insert_edits_def with_content_def)

lemma insert_edits_users: "map is_user_message (ms[i := insert_edits rs (ms ! i)]) = map is_user_message ms"
  by (cases "i < length ms") (auto simp: insert_edits_user nth_list_update intro!: nth_equalityI split: if_splits)

lemma no_user: "last_user_index ms = None \<longleftrightarrow> True \<notin> set (map is_user_message ms)"
  by (auto simp: last_user_index_def find_None_iff in_set_conv_nth) (metis nth_mem)

lemma last_user_range: "last_user_index ms = Some i \<Longrightarrow> i < length ms"
  by (auto simp: last_user_index_def find_Some_iff rev_nth)

lemma pinned_once:
  "deleted_once seen ms \<Longrightarrow> insert_pinned edits (ms, seen) = (ms', seen') \<Longrightarrow>
     deleted_once seen' ms' \<and> map is_user_message ms' = map is_user_message ms"
proof (induction edits arbitrary: ms seen)
  case (Cons e edits)
  obtain k b where e: "e = (k, b)" by (cases e)
  obtain rs s where d: "dedupe_cache_edits_block b seen = (rs, s)" by fastforce
  show ?case
  proof (cases "k < 0 \<or> k \<ge> int (length ms) \<or> \<not> is_user_message (ms ! nat k)")
    case True
    then show ?thesis using Cons by (auto simp: e)
  next
    case False
    show ?thesis
    proof (cases "rs = []")
      case True
      then show ?thesis using Cons False d dedupe_none[of b seen s] by (auto simp: e)
    next
      case rs: False
      have "deleted_once s (ms[nat k := insert_edits rs (ms ! nat k)])"
        using insert_once[OF Cons.prems(1) _ d, of "nat k"] False by auto
      from Cons.IH[OF this] show ?thesis using Cons.prems(2) False rs d by (simp add: e insert_edits_users)
    qed
  qed
qed auto

lemma new_once:
  "deleted_once seen ms \<Longrightarrow> True \<in> set (map is_user_message ms) \<Longrightarrow> insert_new edits (ms, seen) = (ms', seen') \<Longrightarrow>
     deleted_once seen' ms' \<and> seen' = seen \<union> \<Union> (set (map (set \<circ> normalized_references) edits))"
proof (induction edits arbitrary: ms seen)
  case (Cons b edits)
  obtain rs s where d: "dedupe_cache_edits_block b seen = (rs, s)" by fastforce
  obtain i where i: "last_user_index ms = Some i" using Cons.prems(2) no_user[of ms] by (cases "last_user_index ms") auto
  show ?case
  proof (cases "rs = []")
    case True
    then show ?thesis using Cons.IH[of seen ms] Cons.prems d dedupe_none[of b seen s] dedupe_covers[OF d] by auto
  next
    case False
    have "deleted_once s (ms[i := insert_edits rs (ms ! i)])" by (rule insert_once[OF Cons.prems(1) last_user_range[OF i] d])
    from Cons.IH[OF this] show ?thesis using Cons.prems(2,3) False d i dedupe_covers[OF d] by (auto simp: insert_edits_users)
  qed
qed simp


text \<open>The other steps change neither edits nor roles.\<close>

lemma same_references [simp]:
  "block_references (without_cache_control v) = block_references v"
  "block_references (mark_block policy v) = block_references v"
  "block_references (referenced_block v) = block_references v"
proof -
  show "block_references (without_cache_control v) = block_references v"
    by (cases v) (simp_all add: block_references_def normalized_references_def)
  show "block_references (mark_block policy v) = block_references v"
    by (cases v) (simp_all add: block_references_def normalized_references_def mark_block_def)
  show "block_references (referenced_block v) = block_references v"
    by (cases v) (simp_all add: block_references_def normalized_references_def split: pyval.split)
qed

lemma map_update_same: "f m = f (ms ! i) \<Longrightarrow> map f (ms[i := m]) = map f ms"
  by (cases "i < length ms") (auto simp: nth_list_update intro!: nth_equalityI)

definition message_references :: "pydict \<Rightarrow> string list" where
  "message_references m = concat (map block_references (content_array m))"

lemma edit_references_map: "edit_references ms = concat (map message_references ms)"
  by (simp add: edit_references_def message_references_def[abs_def])

lemma strip_references: "message_references (strip_message_cache_controls m) = message_references m"
  by (simp add: message_references_def strip_content comp_def)

lemma added_references: "message_references (add_references m) = message_references m"
  unfolding add_references_def message_references_def by (auto simp: list_content comp_def split: pyval.split)

lemma breakpoint_references:
  "add_message_breakpoint policy ms = Inr ms' \<Longrightarrow> map message_references ms' = map message_references ms"
  by (auto simp: add_message_breakpoint_def Let_def message_references_def map_update_same intro!: map_update_same
      split: option.splits sum.splits)

lemma with_content_user [simp]: "is_user_message (with_content bs m) = is_user_message m"
  by (simp add: is_user_message_def with_content_def)

lemma strip_user [simp]: "is_user_message (strip_message_cache_controls m) = is_user_message m"
  by (simp add: strip_message_cache_controls_def split: pyval.split)

lemma breakpoint_users:
  "add_message_breakpoint policy ms = Inr ms' \<Longrightarrow> map is_user_message ms' = map is_user_message ms"
  by (auto simp: add_message_breakpoint_def Let_def intro!: map_update_same split: option.splits sum.splits)

text \<open>Every reference that the new cache edits ask to delete is deleted in the request, and no reference twice, as long
  as there is a user message to carry the edits.\<close>

lemma references_deleted_once:
  assumes "annotate_messages policy ms = Inr ms'" "edit_references ms = []" "\<exists>m \<in> set ms. is_user_message m"
  shows "distinct (edit_references ms') \<and>
    (\<Union> (set (map (set \<circ> normalized_references) (cp_cache_edits policy)))) \<subseteq> set (edit_references ms')"
proof -
  obtain ms1 where ms1: "add_message_breakpoint policy (map strip_message_cache_controls ms) = Inr ms1"
    "ms' = add_cache_references_to_prefix_tool_results (insert_cache_edits policy ms1)"
    using assms(1) by (auto simp: annotate_messages_def map_sum_def split: sum.splits)
  have "edit_references ms1 = []"
    using assms(2) unfolding edit_references_map breakpoint_references[OF ms1(1)] by (simp add: strip_references comp_def)
  then have once: "deleted_once {} ms1" by (simp add: deleted_once_def)
  have user: "True \<in> set (map is_user_message ms1)" unfolding breakpoint_users[OF ms1(1)] using assms(3) by auto
  obtain ms2 s2 where p: "insert_pinned (cp_pinned_cache_edits policy) (ms1, {}) = (ms2, s2)" by fastforce
  obtain ms3 s3 where n: "insert_new (cp_cache_edits policy) (ms2, s2) = (ms3, s3)" by fastforce
  note p2 = pinned_once[OF once p]
  then have "deleted_once s3 ms3 \<and> s3 = s2 \<union> \<Union> (set (map (set \<circ> normalized_references) (cp_cache_edits policy)))"
    using new_once[OF _ _ n] user by auto
  moreover have "edit_references ms' = edit_references ms3"
    by (simp add: ms1(2) insert_cache_edits_def p n edit_references_map references_map added_references)
  ultimately show ?thesis by (auto simp: deleted_once_def)
qed

section \<open>Requests without streaming\<close>

text \<open>A request that is repeated without streaming asks for no more tokens than such a request may, and leaves room for
  thinking; only a limit of one token leaves none.\<close>

lemma non_streaming_request_fits:
  assumes "int_instance (py_get ''max_tokens'' (adjust_params_for_non_streaming body)) = Some n"
  shows "n \<le> MAX_NON_STREAMING_TOKENS \<and> \<not> py_has ''stream'' (adjust_params_for_non_streaming body)"
    and "py_get ''thinking'' (adjust_params_for_non_streaming body) = PyDict t \<Longrightarrow> int_instance (py_get ''budget_tokens'' t) = Some k \<Longrightarrow>
      n \<ge> 2 \<Longrightarrow> k < n"
  using assms
  by (auto simp: adjust_params_for_non_streaming_def clamp_thinking_def clamp_max_tokens_def MAX_NON_STREAMING_TOKENS_def
      split: option.splits pyval.splits if_splits)

lemma one_token_leaves_no_room:
  "clamp_thinking [(''max_tokens'', PyInt 1), (''thinking'', PyDict [(''budget_tokens'', PyInt 5)])] =
     [(''max_tokens'', PyInt 1), (''thinking'', PyDict [(''budget_tokens'', PyInt 1)])]"
  by code_simp

definition sample_policy :: cache_policy where
  "sample_policy = default_cache_policy\<lparr>cp_ttl := Some ''1h'',
     cp_cache_edits := [[(''type'', PyStr ''cache_edits''),
       (''edits'', PyList [PyDict [(''cache_reference'', PyStr ''a'')], PyDict [(''cache_reference'', PyStr '' a '')]])]]\<rparr>"

definition cached_turn :: pydict where
  "cached_turn = projr (render_for_anthropic_cached inert_env (Some sample_policy) (bundle_of interrupted_turn))"

lemma cached_turn_rendered: "render_for_anthropic_cached inert_env (Some sample_policy) (bundle_of interrupted_turn) = Inr cached_turn"
  by code_simp

definition plain_turn :: "pydict list \<times> pydict list" where
  "plain_turn = projr (render_for_anthropic inert_env (bundle_of interrupted_turn))"

lemma plain_turn_rendered: "render_for_anthropic inert_env (bundle_of interrupted_turn) = Inr (fst plain_turn, snd plain_turn)"
  by code_simp

lemma plain_turn_marker: "(case cache_marker_index sample_policy (snd plain_turn) of
    None \<Rightarrow> 0 | Some i \<Rightarrow> if list_ex cacheable (content_array (snd plain_turn ! i)) then 1 else 0) = (1 :: nat)"
  by code_simp

lemma cached_rendering_stays_valid_witness:
  "\<exists>ms. py_get ''messages'' cached_turn = PyList (map PyDict ms) \<and>
    validate_tool_pairs ''anthropic'' (anthropic_entries ms) = None \<and>
    validate_role_alternation ''anthropic'' None (anthropic_entries ms) = None \<and>
    sum_list (map (\<lambda>m. message_breakpoints (PyDict m)) ms) = 1"
  using cached_rendering_stays_valid[OF plain_turn_rendered cached_turn_rendered]
  by (simp only: plain_turn_marker) (simp add: sample_policy_def default_cache_policy_def)

definition two_messages :: "pydict list" where
  "two_messages = [[(''role'', PyStr ''user''), (''content'', PyStr ''hi'')],
     [(''role'', PyStr ''assistant''), (''content'', PyList [PyDict [(''type'', PyStr ''thinking'')]])]]"

definition annotated_messages :: "pydict list" where
  "annotated_messages = projr (annotate_messages sample_policy two_messages)"

lemma two_messages_annotated: "annotate_messages sample_policy two_messages = Inr annotated_messages"
  by code_simp

lemma two_messages_plain: "edit_references two_messages = []" "\<exists>m \<in> set two_messages. is_user_message m"
  by code_simp+

lemma references_deleted_once_witness:
  "distinct (edit_references annotated_messages) \<and>
    (\<Union> (set (map (set \<circ> normalized_references) (cp_cache_edits sample_policy)))) \<subseteq> set (edit_references annotated_messages)"
  by (rule references_deleted_once[OF two_messages_annotated two_messages_plain])

text \<open>The message that would carry the breakpoint is chosen before its blocks are looked at: where it has only thinking, no
  message carries one.\<close>

lemma thinking_loses_breakpoint:
  "sum_list (map (\<lambda>m. message_breakpoints (PyDict m)) annotated_messages) = 0"
  by code_simp

end
