(* ===== verification/Toll_Fraud.thy ===== *)
theory Toll_Fraud
  imports Viola_Prelude
begin

text \<open>
  High-cost destinations of outgoing calls (\<open>intent/tools/toll_fraud_prefixes.py\<close>): the table of prefixes, and the
  category of a number by its longest prefix in the table.
\<close>

section \<open>The table\<close>

definition TOLL_FRAUD_PREFIXES :: "(string \<times> string) list" where
  "TOLL_FRAUD_PREFIXES = [
     (''+870'', ''satellite_inmarsat''), (''+871'', ''satellite_inmarsat''), (''+872'', ''satellite_inmarsat''),
     (''+873'', ''satellite_inmarsat''), (''+874'', ''satellite_inmarsat''), (''+875'', ''satellite_maritime_mobile''),
     (''+876'', ''satellite_maritime_mobile''), (''+877'', ''satellite_maritime_mobile''),
     (''+878'', ''universal_personal_telecom''), (''+881'', ''satellite_global_mobile''),
     (''+882'', ''international_networks''), (''+883'', ''international_networks''), (''+888'', ''telecom_disaster_relief''),
     (''+979'', ''international_premium_rate''), (''+1900'', ''us_premium_audiotext''), (''+1976'', ''us_premium_audiotext''),
     (''+449'', ''uk_premium_rate''), (''+4470'', ''uk_personal_numbering''), (''+44871'', ''uk_revenue_share''),
     (''+44872'', ''uk_revenue_share''), (''+44873'', ''uk_revenue_share''), (''+33089'', ''fr_premium_rate''),
     (''+33081'', ''fr_special_rate''), (''+49900'', ''de_premium_rate''), (''+49137'', ''de_mass_traffic''),
     (''+35315'', ''ie_premium_rate''), (''+3535'', ''ie_premium_rate''), (''+61190'', ''au_premium_rate''),
     (''+34803'', ''es_premium_rate''), (''+34806'', ''es_premium_rate''), (''+34807'', ''es_premium_rate''),
     (''+34905'', ''es_premium_rate''), (''+39144'', ''it_premium_rate''), (''+39166'', ''it_premium_rate''),
     (''+39899'', ''it_premium_rate''), (''+39709'', ''it_premium_rate''), (''+31900'', ''nl_premium_rate''),
     (''+31906'', ''nl_premium_rate''), (''+31909'', ''nl_premium_rate''), (''+239'', ''high_cost_sao_tome''),
     (''+247'', ''high_cost_ascension''), (''+248'', ''high_cost_seychelles''), (''+252'', ''high_cost_somalia''),
     (''+267'', ''high_cost_botswana_share''), (''+371'', ''high_cost_latvia_share''), (''+375'', ''high_cost_belarus_share''),
     (''+509'', ''high_cost_haiti_share''), (''+675'', ''high_cost_png''), (''+676'', ''high_cost_tonga''),
     (''+677'', ''high_cost_solomon''), (''+678'', ''high_cost_vanuatu''), (''+679'', ''high_cost_fiji_share''),
     (''+685'', ''high_cost_samoa''), (''+688'', ''high_cost_tuvalu''), (''+690'', ''high_cost_tokelau''),
     (''+767'', ''high_cost_dominica_share'')]"

text \<open>\<open>sorted(..., key=len, reverse=True)\<close> keeps the order of prefixes of the same length.\<close>

definition PREFIXES_SORTED :: "string list" where
  "PREFIXES_SORTED = sort_key (\<lambda>p. - int (length p)) (map fst TOLL_FRAUD_PREFIXES)"

section \<open>Numbers\<close>

text \<open>\<open>str.isdigit\<close> on one character, superscript digits included\<close>

definition is_phone_digit :: "char \<Rightarrow> bool" where
  "is_phone_digit c = (let n = char_code c in (48 \<le> n \<and> n \<le> 57) \<or> n = 178 \<or> n = 179 \<or> n = 185)"

fun normalize_loop :: "string \<Rightarrow> string \<Rightarrow> string" where
  "normalize_loop cleaned [] = cleaned"
| "normalize_loop cleaned (c # cs) =
     normalize_loop (if is_phone_digit c \<or> (c = CHR ''+'' \<and> cleaned = []) then cleaned @ [c] else cleaned) cs"

definition normalize_e164_digits :: "string option \<Rightarrow> string" where
  "normalize_e164_digits number = normalize_loop [] (opt_str number)"

definition match_toll_fraud_prefix :: "string option \<Rightarrow> string option" where
  "match_toll_fraud_prefix number = (let normalized = normalize_e164_digits number in
     if \<not> starts_with ''+'' normalized then None
     else (case List.find (\<lambda>p. starts_with p normalized) PREFIXES_SORTED of
         None \<Rightarrow> None | Some p \<Rightarrow> map_of TOLL_FRAUD_PREFIXES p))"

definition is_toll_fraud_number :: "string option \<Rightarrow> bool" where
  "is_toll_fraud_number number = (match_toll_fraud_prefix number \<noteq> None)"

section \<open>The longest prefix decides\<close>

lemma find_longest:
  assumes "sorted (map f xs)" "List.find P xs = Some x" "y \<in> set xs" "P y"
  shows "f x \<le> (f y :: int)"
  using assms
proof (induction xs)
  case (Cons z xs)
  then show ?case by (cases "P z") auto
qed simp

lemma same_length_prefix: "starts_with p s \<Longrightarrow> starts_with q s \<Longrightarrow> length p = length q \<Longrightarrow> p = q"
  by (auto simp: starts_with_iff)

lemma table_prefixes: "p \<in> set PREFIXES_SORTED \<longleftrightarrow> (\<exists>c. map_of TOLL_FRAUD_PREFIXES p = Some c)"
  using map_of_eq_None_iff[of TOLL_FRAUD_PREFIXES p] by (auto simp: PREFIXES_SORTED_def)

lemma table_plus: "p \<in> set PREFIXES_SORTED \<Longrightarrow> starts_with ''+'' p"
proof -
  have "list_all (starts_with ''+'') (map fst TOLL_FRAUD_PREFIXES)" by code_simp
  then show "p \<in> set PREFIXES_SORTED \<Longrightarrow> starts_with ''+'' p" by (simp only: list_all_iff PREFIXES_SORTED_def set_sort)
qed

text \<open>A number has the category of the longest prefix of the table that it starts with, whatever stands between its
  digits, and none where it starts with none.\<close>

lemma match_is_longest_prefix:
  "match_toll_fraud_prefix number = Some c \<longleftrightarrow> (\<exists>p. map_of TOLL_FRAUD_PREFIXES p = Some c \<and>
     starts_with p (normalize_e164_digits number) \<and>
     (\<forall>q. q \<in> fst ` set TOLL_FRAUD_PREFIXES \<and> starts_with q (normalize_e164_digits number) \<longrightarrow> length q \<le> length p))"
    (is "?match \<longleftrightarrow> ?longest")
proof -
  let ?s = "normalize_e164_digits number"
  have keys: "set PREFIXES_SORTED = fst ` set TOLL_FRAUD_PREFIXES" by (simp add: PREFIXES_SORTED_def)
  have found: "starts_with ''+'' ?s" if "p \<in> set PREFIXES_SORTED" "starts_with p ?s" for p
    using table_plus[OF that(1)] that(2) by (auto simp: starts_with_iff)
  show ?thesis
  proof
    assume ?match
    then obtain p where p: "List.find (\<lambda>p. starts_with p ?s) PREFIXES_SORTED = Some p" "map_of TOLL_FRAUD_PREFIXES p = Some c"
      by (auto simp: match_toll_fraud_prefix_def Let_def split: if_splits option.splits)
    have "starts_with p ?s" using p(1) by (auto simp: find_Some_iff)
    moreover have "length q \<le> length p" if "q \<in> fst ` set TOLL_FRAUD_PREFIXES" "starts_with q ?s" for q
      using find_longest[OF _ p(1), of "\<lambda>p. - int (length p)" q] that keys by (simp add: PREFIXES_SORTED_def)
    ultimately show ?longest using p(2) by blast
  next
    assume ?longest
    then obtain p where p: "map_of TOLL_FRAUD_PREFIXES p = Some c" "starts_with p ?s"
      "\<And>q. q \<in> set PREFIXES_SORTED \<Longrightarrow> starts_with q ?s \<Longrightarrow> length q \<le> length p" unfolding keys by blast
    have in_table: "p \<in> set PREFIXES_SORTED" using table_prefixes p(1) by blast
    obtain q where q: "List.find (\<lambda>p. starts_with p ?s) PREFIXES_SORTED = Some q"
      using in_table p(2) by (cases "List.find (\<lambda>p. starts_with p ?s) PREFIXES_SORTED") (auto simp: find_None_iff)
    then have qs: "q \<in> set PREFIXES_SORTED" "starts_with q ?s" by (auto simp: find_Some_iff)
    have "length p \<le> length q"
      using find_longest[OF _ q, of "\<lambda>p. - int (length p)" p] in_table p(2) by (simp add: PREFIXES_SORTED_def)
    then have "q = p" using p(3)[OF qs] same_length_prefix[OF qs(2) p(2)] by simp
    then show ?match using q p(1) found[OF in_table p(2)] by (simp add: match_toll_fraud_prefix_def Let_def)
  qed
qed

text \<open>Separators do not matter.\<close>

lemma normalize_loop_plus: "cleaned \<noteq> [] \<Longrightarrow> normalize_loop cleaned s = cleaned @ filter is_phone_digit s"
  by (induction s arbitrary: cleaned) auto

lemma separators_ignored:
  "normalize_e164_digits (Some (CHR ''+'' # s)) = CHR ''+'' # filter is_phone_digit s"
  by (simp add: normalize_e164_digits_def normalize_loop_plus)

text \<open>Three rows that do not mean what their category says: an international number has no national leading zero, so the
  French premium ranges are missed; Dominica is reached as +1767; and numbers of Dublin start like the Irish row.\<close>

lemma missed_and_wrong_rows:
  "match_toll_fraud_prefix (Some ''+33 899 12 34 56'') = None"
  "match_toll_fraud_prefix (Some ''+1 767 555 0100'') = None"
  "match_toll_fraud_prefix (Some ''+353 1 534 0100'') = Some ''ie_premium_rate''"
  by code_simp+

text \<open>A number with the international prefix 00 instead of the plus sign is not looked at.\<close>

lemma double_zero_is_not_looked_at: "match_toll_fraud_prefix (Some ''00 881 612 345'') = None"
  by code_simp

end
