(* ===== verification/Phone_Safety.thy ===== *)
theory Phone_Safety
  imports Toll_Fraud
begin

text \<open>
  Which numbers may be called: the numbers the call tool refuses (\<open>intent/tools/phone_call.py\<close>: emergency numbers,
  costly destinations and short codes) and the validation before dialing (\<open>telephony/number_validation.py\<close>).  The library
  \<open>phonenumbers\<close> is a parameter: a record of the functions that are called, over its own type of numbers.
\<close>

section \<open>Refused numbers\<close>

definition EMERGENCY_NUMBERS :: "string list" where
  "EMERGENCY_NUMBERS = [''911'', ''988'', ''112'', ''999'', ''000'', ''110'', ''119'', ''122'', ''+1911'', ''+1988'',
     ''+44999'', ''+61000'', ''+49110'', ''+81119'']"

text \<open>An optional character at the start of a pattern; no pattern goes on with that character.\<close>

fun skip_optional :: "char \<Rightarrow> string \<Rightarrow> string" where
  "skip_optional c [] = []"
| "skip_optional c (d # ds) = (if d = c then ds else d # ds)"

definition EMERGENCY_PATTERNS :: "(string \<Rightarrow> bool) list" where
  "EMERGENCY_PATTERNS = [
     (\<lambda>s. skip_optional (CHR ''1'') (skip_optional (CHR ''+'') s) = ''911''),
     (\<lambda>s. skip_optional (CHR ''1'') (skip_optional (CHR ''+'') s) = ''988''),
     (\<lambda>s. skip_optional (CHR ''+'') s = ''44999''), (\<lambda>s. skip_optional (CHR ''+'') s = ''61000''),
     (\<lambda>s. skip_optional (CHR ''+'') s = ''49110''), (\<lambda>s. skip_optional (CHR ''+'') s = ''33112''),
     (\<lambda>s. s = ''112'')]"

definition BLOCKED_SHORT_CODES :: "string list" where
  "BLOCKED_SHORT_CODES = [''411'', ''611'', ''711'', ''511'', ''311'', ''211'']"

definition lstrip_char :: "char \<Rightarrow> string \<Rightarrow> string" where
  "lstrip_char c s = dropWhile (\<lambda>d. d = c) s"

text \<open>\<open>re.sub(r"[\s\-\(\)]", "", number)\<close>\<close>

definition clean_number :: "string \<Rightarrow> string" where
  "clean_number number = filter (\<lambda>c. \<not> py_space c \<and> c \<notin> {CHR ''-'', CHR ''('', CHR '')''}) number"

definition emergency_reason :: "string \<Rightarrow> string" where
  "emergency_reason cleaned_digits = (if lstrip_char (CHR ''1'') cleaned_digits = ''988''
     then ''crisis_lifeline_redirect'' else ''emergency_number_blocked'')"

definition is_blocked_number :: "string \<Rightarrow> string option" where
  "is_blocked_number number = (let cleaned = clean_number number; cleaned_digits = lstrip_char (CHR ''+'') cleaned in
     if list_ex (\<lambda>p. p cleaned) EMERGENCY_PATTERNS then Some (emergency_reason cleaned_digits)
     else if cleaned_digits \<in> set (map (lstrip_char (CHR ''+'')) EMERGENCY_NUMBERS) then Some (emergency_reason cleaned_digits)
     else if match_toll_fraud_prefix (Some cleaned) \<noteq> None then Some ''premium_rate_blocked''
     else if cleaned \<in> set BLOCKED_SHORT_CODES then Some ''short_code_blocked''
     else None)"

definition CRISIS_LIFELINE_ADVICE :: string where
  "CRISIS_LIFELINE_ADVICE = ''Do not place this call. Encourage the user to dial or text 988 directly. '' @
     ''Offer to stay present, talk through what is going on, help reach a friend or family member, '' @
     ''or guide a calming exercise.''"

definition EMERGENCY_NUMBER_ADVICE :: string where
  "EMERGENCY_NUMBER_ADVICE = ''Do not place this call. Encourage the user to dial emergency services directly. '' @
     ''For immediate danger in the US, tell them to dial 911. Offer to stay present, '' @
     ''help reach a friend or family member, or talk through immediate next steps.''"

definition blocked_number_payload :: "string \<Rightarrow> pydict" where
  "blocked_number_payload reason = [(''blocked'', PyBool True), (''reason'', PyStr reason), (''advice_for_assistant'', PyStr
     (if reason = ''crisis_lifeline_redirect'' then CRISIS_LIFELINE_ADVICE
      else if reason = ''emergency_number_blocked'' then EMERGENCY_NUMBER_ADVICE
      else ''Do not place this call. Explain briefly that this number cannot be called for safety reasons.''))]"

definition blocked_call_payload_for_number :: "string \<Rightarrow> pydict option" where
  "blocked_call_payload_for_number number = map_option blocked_number_payload (is_blocked_number number)"

section \<open>Validation\<close>

datatype number_kind = PremiumRate | TollFree | OtherKind string

text \<open>The functions of the library \<open>phonenumbers\<close>; \<open>None\<close> is a number that does not parse, or no region.\<close>

record 'n phone_library =
  pl_parse :: "string \<Rightarrow> 'n option"
  pl_possible :: "'n \<Rightarrow> bool"
  pl_valid :: "'n \<Rightarrow> bool"
  pl_e164 :: "'n \<Rightarrow> string"
  pl_region :: "'n \<Rightarrow> string option"
  pl_kind :: "'n \<Rightarrow> number_kind"

text \<open>The rate is in millionths of a dollar per minute.  The name of the kind of a number is left to the kind.\<close>

record number_validation =
  nv_allowed :: bool
  nv_reason :: string
  nv_rate :: nat
  nv_e164 :: string
  nv_region :: string
  nv_kind :: "number_kind option"

definition validate_phone_number :: "'n phone_library \<Rightarrow> string option \<Rightarrow> number_validation" where
  "validate_phone_number lib phone_number = (case pl_parse lib (py_strip (opt_str phone_number)) of
      None \<Rightarrow> \<lparr>nv_allowed = False, nv_reason = ''Invalid number. Viola currently supports US domestic calls only.'',
        nv_rate = 0, nv_e164 = [], nv_region = [], nv_kind = None\<rparr>
    | Some n \<Rightarrow> if \<not> pl_possible lib n
        then \<lparr>nv_allowed = False, nv_reason = ''Invalid number. Viola currently supports US domestic calls only.'',
          nv_rate = 0, nv_e164 = [], nv_region = [], nv_kind = None\<rparr>
        else (let normalized = pl_e164 lib n; region = opt_str (pl_region lib n);
            result = (\<lambda>allowed reason rate. \<lparr>nv_allowed = allowed, nv_reason = reason, nv_rate = rate, nv_e164 = normalized,
              nv_region = region, nv_kind = Some (pl_kind lib n)\<rparr>) in
          if match_toll_fraud_prefix (Some normalized) \<noteq> None \<or> pl_kind lib n = PremiumRate
          then result False ''Cannot call premium-rate numbers. These charge $1-40/min.'' 0
          else if region \<noteq> [] \<and> region \<noteq> ''US''
          then result False (''Cannot call international or Caribbean numbers ('' @ region @ ''). These may charge international rates.'') 0
          else if \<not> pl_valid lib n then result False ''Invalid number. Viola currently supports US domestic calls only.'' 0
          else if pl_kind lib n = TollFree then result True ''Toll-free number.'' 15000
          else result True ''US domestic.'' 7000))"

definition normalize_us_e164 :: "'n phone_library \<Rightarrow> string option \<Rightarrow> string \<Rightarrow> string + string" where
  "normalize_us_e164 lib phone_number field_name = (let v = validate_phone_number lib phone_number in
     if nv_e164 v = [] then Inl (field_name @ '' must be a valid US phone number.'')
     else if \<not> nv_allowed v then Inl (nv_reason v)
     else Inr (nv_e164 v))"

definition is_toll_free_number :: "'n phone_library \<Rightarrow> string option \<Rightarrow> bool" where
  "is_toll_free_number lib phone_number = (case pl_parse lib (py_strip (opt_str phone_number)) of
      None \<Rightarrow> False | Some n \<Rightarrow> pl_valid lib n \<and> pl_kind lib n = TollFree)"

section \<open>Emergency numbers\<close>

text \<open>The digits of the numbers that are never called\<close>

definition emergency_digits :: "string list" where
  "emergency_digits = [''911'', ''1911'', ''988'', ''1988'', ''112'', ''999'', ''000'', ''110'', ''119'', ''122'',
     ''44999'', ''61000'', ''49110'', ''81119'', ''33112'']"

lemma skip_one: "c \<noteq> d \<Longrightarrow> skip_optional c s = d # ds \<longleftrightarrow> s = d # ds \<or> s = c # d # ds"
  by (cases s) auto

lemma listed_digits: "map (lstrip_char (CHR ''+'')) EMERGENCY_NUMBERS =
    [''911'', ''988'', ''112'', ''999'', ''000'', ''110'', ''119'', ''122'', ''1911'', ''1988'', ''44999'', ''61000'', ''49110'', ''81119'']"
  by code_simp

lemma skip_plus_digits: "skip_optional (CHR ''+'') s = d # ds \<Longrightarrow> d \<noteq> CHR ''+'' \<Longrightarrow> lstrip_char (CHR ''+'') s = d # ds"
  by (auto simp: skip_one lstrip_char_def)

lemma patterns_digits: "list_ex (\<lambda>p. p s) EMERGENCY_PATTERNS \<Longrightarrow>
    lstrip_char (CHR ''+'') s \<in> set [''911'', ''1911'', ''988'', ''1988'', ''44999'', ''61000'', ''49110'', ''33112'', ''112'']"
  by (auto simp: EMERGENCY_PATTERNS_def skip_one lstrip_char_def)

text \<open>The French number is in a pattern only, which allows one plus.\<close>

lemma french_pattern: "lstrip_char (CHR ''+'') s = ''33112'' \<Longrightarrow>
    list_ex (\<lambda>p. p s) EMERGENCY_PATTERNS \<longleftrightarrow> \<not> starts_with ''++'' s"
proof -
  assume s: "lstrip_char (CHR ''+'') s = ''33112''"
  have plus: "skip_optional (CHR ''+'') s = ''33112'' \<longleftrightarrow> \<not> starts_with ''++'' s"
    using s by (cases s rule: remdups_adj.cases) (auto simp: lstrip_char_def split: if_splits)
  show ?thesis
  proof
    assume "list_ex (\<lambda>p. p s) EMERGENCY_PATTERNS"
    then show "\<not> starts_with ''++'' s" using s by (auto simp: EMERGENCY_PATTERNS_def skip_one lstrip_char_def)
  next
    assume "\<not> starts_with ''++'' s"
    then show "list_ex (\<lambda>p. p s) EMERGENCY_PATTERNS" using plus by (simp add: EMERGENCY_PATTERNS_def)
  qed
qed

lemma reasons_differ: "emergency_reason ds \<in> {''crisis_lifeline_redirect'', ''emergency_number_blocked''}"
  by (simp add: emergency_reason_def)

text \<open>C37: White space, hyphens and parentheses are taken out of a number, and then the pluses at its start; when what is left is
  988 or 1988 it is refused as the crisis line, and when it is another one of the known emergency numbers it is refused as an
  emergency number.  No other number gets either reason: one written with other separators, such as 9.1.1, is not recognised,
  and neither is the French number after more than one plus.\<close>

theorem emergency_numbers_refused:
  "(is_blocked_number number = Some ''crisis_lifeline_redirect'' \<longleftrightarrow>
      lstrip_char (CHR ''+'') (clean_number number) \<in> {''988'', ''1988''}) \<and>
   (is_blocked_number number = Some ''emergency_number_blocked'' \<longleftrightarrow>
      lstrip_char (CHR ''+'') (clean_number number) \<in> set emergency_digits - {''988'', ''1988''} \<and>
      \<not> (lstrip_char (CHR ''+'') (clean_number number) = ''33112'' \<and> starts_with ''++'' (clean_number number)))"
proof -
  let ?d = "lstrip_char (CHR ''+'') (clean_number number)"
  let ?hit = "list_ex (\<lambda>p. p (clean_number number)) EMERGENCY_PATTERNS \<or> ?d \<in> set (map (lstrip_char (CHR ''+'')) EMERGENCY_NUMBERS)"
  let ?twice = "?d = ''33112'' \<and> starts_with ''++'' (clean_number number)"
  have hit: "?hit \<longleftrightarrow> ?d \<in> set emergency_digits \<and> \<not> ?twice"
  proof (cases "?d = ''33112''")
    case True
    then have "?d \<notin> set (map (lstrip_char (CHR ''+'')) EMERGENCY_NUMBERS)" unfolding listed_digits by simp
    then show ?thesis using french_pattern[OF True] True by (simp add: emergency_digits_def)
  next
    case False
    then show ?thesis using patterns_digits[of "clean_number number"] unfolding listed_digits emergency_digits_def by auto
  qed
  have reason: "emergency_reason ds = ''crisis_lifeline_redirect'' \<longleftrightarrow> ds \<in> {''988'', ''1988''}" if "ds \<in> set emergency_digits" for ds
    using that by (auto simp: emergency_digits_def emergency_reason_def lstrip_char_def)
  have blocked: "is_blocked_number number = (if ?hit then Some (emergency_reason ?d)
      else if match_toll_fraud_prefix (Some (clean_number number)) \<noteq> None then Some ''premium_rate_blocked''
      else if clean_number number \<in> set BLOCKED_SHORT_CODES then Some ''short_code_blocked'' else None)"
    by (auto simp: is_blocked_number_def Let_def)
  show ?thesis
  proof (cases ?hit)
    case True
    then show ?thesis using hit reason[of ?d] reasons_differ[of ?d] unfolding blocked by auto
  next
    case False
    then have "\<not> (?d \<in> set emergency_digits \<and> \<not> ?twice)" using hit by simp
    moreover from this have "?d \<notin> {''988'', ''1988''}" by (auto simp: emergency_digits_def)
    ultimately show ?thesis using False unfolding blocked by auto
  qed
qed

lemma emergency_numbers_refused_witness:
  "is_blocked_number ''+1 (988)'' = Some ''crisis_lifeline_redirect''"
  using emergency_numbers_refused[of "''+1 (988)''"] by (simp add: clean_number_def lstrip_char_def py_space_def char_code_def Let_def)

text \<open>Other separators than those are not taken out, and the number passes.\<close>

lemma dots_hide_emergency: "is_blocked_number ''9.1.1'' = None" "is_blocked_number ''9/1/1'' = None"
  "is_blocked_number ''++33112'' = None"
  by code_simp+

section \<open>What is dialed\<close>

text \<open>A number is let through exactly when the library takes it for a possible and valid number outside the costly
  prefixes, of no premium kind and of no other region than the United States, and then its normal form is what is
  dialed.\<close>

lemma dialed_numbers_are_domestic:
  "normalize_us_e164 lib phone_number field_name = Inr number \<longleftrightarrow>
    (\<exists>n. pl_parse lib (py_strip (opt_str phone_number)) = Some n \<and> number = pl_e164 lib n \<and> number \<noteq> [] \<and>
       pl_possible lib n \<and> pl_valid lib n \<and> \<not> is_toll_fraud_number (Some number) \<and> pl_kind lib n \<noteq> PremiumRate \<and>
       opt_str (pl_region lib n) \<in> {[], ''US''})"
  by (auto simp: normalize_us_e164_def validate_phone_number_def is_toll_fraud_number_def Let_def split: option.split if_splits)

end
