(* ===== verification/Message_Dedup.thy ===== *)
theory Message_Dedup
  imports Sha256
begin

text \<open>
  Deduplication of incoming messages (\<open>messaging/dedup.py\<close>).  Times are whole milliseconds.  The clock is read up to
  twice in a check; both readings are the argument \<open>now\<close>.  Message fields are texts of characters below 256.
\<close>

section \<open>The cache\<close>

definition CLEANUP_INTERVAL :: nat where
  "CLEANUP_INTERVAL = 100"

definition DEFAULT_TTL :: int where
  "DEFAULT_TTL = 60000"

record dedup_cache =
  dc_ttl :: int
  dc_entries :: "(string \<times> int) list"
  dc_check_count :: nat

definition new_dedup_cache :: "int \<Rightarrow> dedup_cache" where
  "new_dedup_cache ttl = \<lparr>dc_ttl = ttl, dc_entries = [], dc_check_count = 0\<rparr>"

record message_fields =
  mf_channel :: string
  mf_chat :: string
  mf_id :: "string option"
  mf_sender :: string
  mf_content :: string
  mf_timestamp :: int

definition exact_key :: "string \<Rightarrow> string \<Rightarrow> string \<Rightarrow> string" where
  "exact_key channel_type chat_id message_id = channel_type @ ''|'' @ chat_id @ ''|'' @ message_id"

text \<open>\<open>int(timestamp / 2.0)\<close> cuts towards zero.\<close>

definition ts_bucket :: "int \<Rightarrow> int" where
  "ts_bucket timestamp = sgn timestamp * (\<bar>timestamp\<bar> div 2000)"

definition fingerprint_text :: "message_fields \<Rightarrow> string" where
  "fingerprint_text m = mf_channel m @ ''|'' @ mf_chat m @ ''|'' @ mf_sender m @ ''|'' @ mf_content m @ ''|'' @ int_str (ts_bucket (mf_timestamp m))"

definition fingerprint_key :: "message_fields \<Rightarrow> string" where
  "fingerprint_key m = ''fp|'' @ take 16 (sha256_hexdigest (fingerprint_text m))"

definition dedup_key :: "message_fields \<Rightarrow> string" where
  "dedup_key m = (case mf_id m of
      Some i \<Rightarrow> if i \<noteq> [] then exact_key (mf_channel m) (mf_chat m) i else fingerprint_key m
    | None \<Rightarrow> fingerprint_key m)"

definition cleanup :: "int \<Rightarrow> dedup_cache \<Rightarrow> nat \<times> dedup_cache" where
  "cleanup now c = (let kept = filter (\<lambda>(k, expiry). \<not> now \<ge> expiry) (dc_entries c) in
     (length (dc_entries c) - length kept, c\<lparr>dc_entries := kept\<rparr>))"

definition is_duplicate :: "int \<Rightarrow> message_fields \<Rightarrow> dedup_cache \<Rightarrow> bool \<times> dedup_cache" where
  "is_duplicate now m c0 = (let c1 = c0\<lparr>dc_check_count := dc_check_count c0 + 1\<rparr>;
       c2 = (if dc_check_count c1 mod CLEANUP_INTERVAL = 0 then snd (cleanup now c1) else c1);
       key = dedup_key m in
     case map_of (dc_entries c2) key of
       Some expiry \<Rightarrow> if now < expiry then (True, c2)
         else (False, c2\<lparr>dc_entries := AList.update key (now + dc_ttl c2) (dc_entries c2)\<rparr>)
     | None \<Rightarrow> (False, c2\<lparr>dc_entries := AList.update key (now + dc_ttl c2) (dc_entries c2)\<rparr>))"

definition cache_size :: "dedup_cache \<Rightarrow> nat" where
  "cache_size c = length (dc_entries c)"

definition clear_cache :: "dedup_cache \<Rightarrow> dedup_cache" where
  "clear_cache c = c\<lparr>dc_entries := [], dc_check_count := 0\<rparr>"

fun checks :: "(int \<times> message_fields) list \<Rightarrow> dedup_cache \<Rightarrow> bool list" where
  "checks [] c = []"
| "checks ((now, m) # ms) c = fst (is_duplicate now m c) # checks ms (snd (is_duplicate now m c))"

section \<open>What a duplicate is\<close>

text \<open>The specification remembers, for every key, when a message with it was last let through, for ever.\<close>

fun duplicates :: "int \<Rightarrow> (string \<Rightarrow> int option) \<Rightarrow> (int \<times> message_fields) list \<Rightarrow> bool list" where
  "duplicates ttl passed [] = []"
| "duplicates ttl passed ((now, m) # ms) = (let dup = (case passed (dedup_key m) of Some t \<Rightarrow> now < t + ttl | None \<Rightarrow> False) in
     dup # duplicates ttl (if dup then passed else passed(dedup_key m \<mapsto> now)) ms)"

text \<open>The cache holds what the specification remembers, or it has expired.\<close>

fun agree :: "int \<Rightarrow> int \<Rightarrow> int option \<Rightarrow> int option \<Rightarrow> bool" where
  "agree ttl t (Some expiry) p = (p = Some (expiry - ttl))"
| "agree ttl t None (Some s) = (s + ttl \<le> t)"
| "agree ttl t None None = True"

definition remembers :: "int \<Rightarrow> dedup_cache \<Rightarrow> (string \<Rightarrow> int option) \<Rightarrow> bool" where
  "remembers t c passed = (distinct (map fst (dc_entries c)) \<and>
     (\<forall>k. agree (dc_ttl c) t (map_of (dc_entries c) k) (passed k)))"

lemma agree_later: "agree ttl t e p \<Longrightarrow> t \<le> u \<Longrightarrow> agree ttl u e p"
  by (cases "(ttl, t, e, p)" rule: agree.cases) auto

lemma agree_cleanup: "agree ttl now e p \<Longrightarrow>
    agree ttl now (case e of Some x \<Rightarrow> if \<not> now \<ge> x then Some x else None | None \<Rightarrow> None) p"
  by (cases "(ttl, now, e, p)" rule: agree.cases) auto

lemma map_of_kept: "distinct (map fst xs) \<Longrightarrow>
    map_of (filter (\<lambda>(k, v). P v) xs) k = (case map_of xs k of Some v \<Rightarrow> if P v then Some v else None | None \<Rightarrow> None)"
proof (induction xs)
  case (Cons x xs)
  obtain k' v where x: "x = (k', v)" by (cases x)
  have "k \<notin> set (map fst xs) \<Longrightarrow> map_of (filter (\<lambda>(k, v). P v) xs) k = None"
    by (auto simp: map_of_eq_None_iff)
  then show ?case using Cons by (auto simp: x map_of_eq_None_iff)
qed simp

lemma distinct_kept: "distinct (map fst xs) \<Longrightarrow> distinct (map fst (filter P xs))"
  by (induction xs) auto

lemma remembers_later: "remembers t c passed \<Longrightarrow> t \<le> u \<Longrightarrow> remembers u c passed"
  unfolding remembers_def using agree_later by blast

lemma remembers_cleanup: "remembers now c passed \<Longrightarrow> remembers now (snd (cleanup now c)) passed"
  by (simp add: remembers_def cleanup_def Let_def map_of_kept distinct_kept agree_cleanup)

lemma remembers_pass: "remembers now c passed \<Longrightarrow>
    remembers now (c\<lparr>dc_entries := AList.update k (now + dc_ttl c) (dc_entries c)\<rparr>) (passed(k \<mapsto> now))"
  by (simp add: remembers_def distinct_update update_conv')

lemma agree_duplicate: "agree ttl now e p \<Longrightarrow>
    (case e of Some expiry \<Rightarrow> now < expiry | None \<Rightarrow> False) = (case p of Some t \<Rightarrow> now < t + ttl | None \<Rightarrow> False)"
  by (cases "(ttl, now, e, p)" rule: agree.cases) auto

lemma checked_cache:
  assumes "remembers t c passed" "t \<le> now"
  shows "let dup = (case passed (dedup_key m) of Some t \<Rightarrow> now < t + dc_ttl c | None \<Rightarrow> False) in
    fst (is_duplicate now m c) = dup \<and> dc_ttl (snd (is_duplicate now m c)) = dc_ttl c \<and>
    remembers now (snd (is_duplicate now m c)) (if dup then passed else passed(dedup_key m \<mapsto> now))"
proof -
  define c1 where "c1 = c\<lparr>dc_check_count := dc_check_count c + 1\<rparr>"
  define c2 where "c2 = (if dc_check_count c1 mod CLEANUP_INTERVAL = 0 then snd (cleanup now c1) else c1)"
  have "remembers now c1 passed" using remembers_later[OF assms] by (simp add: c1_def remembers_def)
  then have "remembers now c2 passed" using remembers_cleanup[of now c1 passed] by (simp only: c2_def split: if_split) simp
  moreover have "dc_ttl c2 = dc_ttl c" by (simp add: c2_def c1_def cleanup_def Let_def)
  ultimately have c2: "remembers now c2 passed" "dc_ttl c2 = dc_ttl c" by simp_all
  have dup: "(case map_of (dc_entries c2) (dedup_key m) of Some expiry \<Rightarrow> now < expiry | None \<Rightarrow> False) =
      (case passed (dedup_key m) of Some t \<Rightarrow> now < t + dc_ttl c | None \<Rightarrow> False)"
    using c2 by (intro agree_duplicate) (simp add: remembers_def)
  have checked: "is_duplicate now m c = (if (case map_of (dc_entries c2) (dedup_key m) of Some expiry \<Rightarrow> now < expiry | None \<Rightarrow> False)
      then (True, c2) else (False, c2\<lparr>dc_entries := AList.update (dedup_key m) (now + dc_ttl c2) (dc_entries c2)\<rparr>))"
    unfolding is_duplicate_def Let_def c1_def[symmetric] c2_def[symmetric] by (simp split: option.split)
  show ?thesis unfolding checked dup Let_def using c2 remembers_pass[OF c2(1)] by simp
qed

text \<open>C38: However often the cache is cleaned up, a message is called a duplicate exactly when one with its key was let
  through less than the lifetime of an entry before.\<close>

theorem duplicates_within_lifetime:
  assumes "sorted (map fst ms)" "list_all (\<lambda>(now, m). 0 \<le> now) ms"
  shows "checks ms (new_dedup_cache ttl) = duplicates ttl Map.empty ms"
proof -
  have "checks ms c = duplicates (dc_ttl c) passed ms" if "remembers t c passed" "list_all (\<lambda>(now, m). t \<le> now) ms" "sorted (map fst ms)"
    for t c passed
    using that
  proof (induction ms arbitrary: t c passed)
    case (Cons x ms)
    obtain now m where x: "x = (now, m)" by (cases x)
    note step = checked_cache[OF Cons.prems(1), of now m, unfolded Let_def]
    have "t \<le> now" "list_all (\<lambda>(u, m). now \<le> u) ms" using Cons.prems(2,3) by (auto simp: x list_all_iff)
    then show ?case using Cons.IH[of now "snd (is_duplicate now m c)"] step Cons.prems(3) by (simp add: x Let_def)
  qed simp
  moreover have "remembers 0 (new_dedup_cache ttl) Map.empty" by (simp add: remembers_def new_dedup_cache_def)
  ultimately show ?thesis using assms by (fastforce simp: new_dedup_cache_def)
qed

section \<open>Keys\<close>

text \<open>The parts of a key are joined by a character that they may contain, so that messages of different chats share a key.\<close>

lemma keys_collide: "exact_key ''discord'' ''a|b'' ''c'' = exact_key ''discord'' ''a'' ''b|c''"
  by (simp add: exact_key_def)

definition one_message :: "string \<Rightarrow> string \<Rightarrow> message_fields" where
  "one_message chat i = \<lparr>mf_channel = ''email'', mf_chat = chat, mf_id = Some i, mf_sender = [], mf_content = [], mf_timestamp = 0\<rparr>"

lemma other_chat_is_dropped: "checks [(0, one_message ''a|b'' ''c''), (5, one_message ''a'' ''b|c'')] (new_dedup_cache 60000) = [False, True]"
  by code_simp

lemma duplicates_within_lifetime_witness:
  "checks [(0, one_message ''a'' ''1''), (5, one_message ''a'' ''1''), (60000, one_message ''a'' ''1'')] (new_dedup_cache 60000) =
     duplicates 60000 Map.empty [(0, one_message ''a'' ''1''), (5, one_message ''a'' ''1''), (60000, one_message ''a'' ''1'')]"
  by (rule duplicates_within_lifetime) simp_all

end
