(* ===== verification/Model_Fallback.thy ===== *)
theory Model_Fallback
  imports State_Machine Viola_Prelude
begin

text \<open>
  Fallback from a failing model to the next one of a chain (\<open>services/llm/model_fallback.py\<close>).  \<open>time.monotonic()\<close> is
  the argument \<open>now\<close>, in whole milliseconds.  What the settings say is an argument: the chain of the user, and the model
  that the configured source resolves to.  The report that is written when a fallback starts is left out.
\<close>

section \<open>The chain\<close>

definition MAX_CONSECUTIVE_FAILURES :: nat where
  "MAX_CONSECUTIVE_FAILURES = 3"

definition RETRY_INTERVAL :: int where
  "RETRY_INTERVAL = 300000"

definition RETRY_REQUEST_INTERVAL :: nat where
  "RETRY_REQUEST_INTERVAL = 10"

definition MODEL_ACCESS_STATUS_CODES :: "int list" where
  "MODEL_ACCESS_STATUS_CODES = [403, 404]"

definition PRIMARY_MODEL :: string where
  "PRIMARY_MODEL = ''gpt-5.4-mini''"

definition FALLBACK_PROVIDER :: string where
  "FALLBACK_PROVIDER = ''anthropic''"

definition DEFAULT_FALLBACK_CHAIN :: "string list" where
  "DEFAULT_FALLBACK_CHAIN = [''gpt-5.4-mini'', ''claude-haiku-4-5-20251001'', ''gemini-2.0-flash'']"

record chain_entry =
  ce_model :: string
  ce_provider :: "string option"

definition infer_model_provider :: "string \<Rightarrow> string option" where
  "infer_model_provider model = (let lower = py_lower model in
     if starts_with ''gpt-'' lower \<or> starts_with ''o1-'' lower \<or> starts_with ''o3-'' lower then Some ''openai''
     else if starts_with ''claude'' lower then Some ''anthropic''
     else if starts_with ''gemini'' lower then Some ''google''
     else if starts_with ''llama'' lower \<or> starts_with ''mistral'' lower \<or> starts_with ''phi'' lower then Some ''ollama''
     else None)"

text \<open>\<open>raw.split(":", 1)\<close> where there is a colon\<close>

definition before_colon :: "string \<Rightarrow> string" where
  "before_colon s = takeWhile (\<lambda>c. c \<noteq> CHR '':'') s"

definition after_colon :: "string \<Rightarrow> string" where
  "after_colon s = tl (dropWhile (\<lambda>c. c \<noteq> CHR '':'') s)"

definition parse_chain_entry :: "string \<Rightarrow> chain_entry" where
  "parse_chain_entry raw0 = (let raw = py_strip raw0 in
     if CHR '':'' \<in> set raw \<and> \<not> starts_with ''ollama:'' raw \<and>
        before_colon raw \<in> set [''openai'', ''anthropic'', ''google'', ''ollama'', ''openai_compatible'']
     then \<lparr>ce_model = after_colon raw, ce_provider = Some (before_colon raw)\<rparr>
     else \<lparr>ce_model = raw, ce_provider = infer_model_provider raw\<rparr>)"

text \<open>An error is its text and its status code, if it has one.\<close>

record model_error =
  me_text :: string
  me_status :: "int option"

definition is_model_not_found :: "model_error \<Rightarrow> bool" where
  "is_model_not_found e = (let error_str = py_lower (me_text e) in
     str_contains ''model_not_found'' error_str \<or>
     (\<exists>s \<in> set MODEL_ACCESS_STATUS_CODES. me_status e = Some s) \<and>
       list_ex (\<lambda>kw. str_contains kw error_str) [''model'', ''not found'', ''does not exist'', ''not available'', ''access''])"

text \<open>The setting \<open>llm_fallback_chain\<close> (\<open>None\<close> where it cannot be read) and the configured primary model\<close>

definition load_fallback_chain :: "pyval option \<Rightarrow> string \<Rightarrow> chain_entry list" where
  "load_fallback_chain setting primary_model = (let
     configured = (case setting of Some (PyList raw) \<Rightarrow> map py_str (filter py_truthy raw) | _ \<Rightarrow> []);
     chain_raw = (if configured = [] then primary_model # tl DEFAULT_FALLBACK_CHAIN else configured) in
     map parse_chain_entry chain_raw)"

section \<open>The tracker\<close>

record fallback_tracker =
  ft_failures :: nat
  ft_active :: bool
  ft_last_retry :: int
  ft_activations :: nat
  ft_requests :: nat
  ft_index :: nat
  ft_chain :: "chain_entry list"

definition new_tracker :: "chain_entry list \<Rightarrow> chain_entry list \<Rightarrow> fallback_tracker" where
  "new_tracker chain loaded = \<lparr>ft_failures = 0, ft_active = False, ft_last_retry = 0, ft_activations = 0, ft_requests = 0,
     ft_index = 0, ft_chain = (if chain = [] then loaded else chain)\<rparr>"

definition current_model :: "fallback_tracker \<Rightarrow> string" where
  "current_model t = (if ft_chain t = [] then PRIMARY_MODEL else ce_model (ft_chain t ! min (ft_index t) (length (ft_chain t) - 1)))"

definition current_provider :: "fallback_tracker \<Rightarrow> string option" where
  "current_provider t = (if \<not> ft_active t then None
     else if ft_chain t = [] then Some FALLBACK_PROVIDER
     else ce_provider (ft_chain t ! min (ft_index t) (length (ft_chain t) - 1)))"

definition model_succeeded :: "fallback_tracker \<Rightarrow> fallback_tracker" where
  "model_succeeded t = (let t1 = (if ft_active t then t\<lparr>ft_active := False, ft_index := 0\<rparr> else t) in
     t1\<lparr>ft_failures := 0, ft_requests := 0\<rparr>)"

definition model_failed :: "int \<Rightarrow> model_error \<Rightarrow> fallback_tracker \<Rightarrow> bool \<times> fallback_tracker" where
  "model_failed now e t0 = (let t = t0\<lparr>ft_failures := ft_failures t0 + 1\<rparr> in
     if is_model_not_found e \<or> ft_failures t \<ge> MAX_CONSECUTIVE_FAILURES
     then (if ft_index t + 1 < length (ft_chain t)
       then (True, t\<lparr>ft_index := ft_index t + 1, ft_active := True, ft_activations := ft_activations t + 1,
         ft_last_retry := now, ft_requests := 0, ft_failures := 0\<rparr>)
       else if \<not> ft_active t
       then (True, t\<lparr>ft_active := True, ft_activations := ft_activations t + 1, ft_last_retry := now, ft_requests := 0\<rparr>)
       else (False, t))
     else (False, t))"

definition force_active :: "int \<Rightarrow> fallback_tracker \<Rightarrow> fallback_tracker" where
  "force_active now t = (let t1 = (if ft_index t = 0 \<and> length (ft_chain t) > 1 then t\<lparr>ft_index := 1\<rparr> else t) in
     t1\<lparr>ft_active := True, ft_activations := ft_activations t1 + 1, ft_last_retry := now, ft_requests := 0, ft_failures := 0\<rparr>)"

definition should_retry_primary :: "int \<Rightarrow> fallback_tracker \<Rightarrow> bool \<times> fallback_tracker" where
  "should_retry_primary now t0 = (if \<not> ft_active t0 then (False, t0)
     else (let t = t0\<lparr>ft_requests := ft_requests t0 + 1\<rparr> in
       if now - ft_last_retry t \<ge> RETRY_INTERVAL then (True, t\<lparr>ft_last_retry := now, ft_requests := 0\<rparr>)
       else if ft_requests t \<ge> RETRY_REQUEST_INTERVAL then (True, t\<lparr>ft_last_retry := now, ft_requests := 0\<rparr>)
       else (False, t)))"

definition reload_chain :: "chain_entry list \<Rightarrow> fallback_tracker \<Rightarrow> fallback_tracker" where
  "reload_chain loaded t = (let t1 = t\<lparr>ft_chain := loaded\<rparr> in
     if ft_index t1 \<ge> length loaded then t1\<lparr>ft_index := length loaded - 1\<rparr> else t1)"

definition get_chain_info :: "fallback_tracker \<Rightarrow> (nat \<times> chain_entry \<times> bool) list" where
  "get_chain_info t = map (\<lambda>(i, e). (i, e, i = ft_index t)) (zip [0..<length (ft_chain t)] (ft_chain t))"

section \<open>Runs\<close>

datatype model_event = Succeeded | Failed int model_error | Forced int | Asked int | Reloaded "chain_entry list"

definition after_event :: "model_event \<Rightarrow> fallback_tracker \<Rightarrow> fallback_tracker" where
  "after_event ev t = (case ev of Succeeded \<Rightarrow> model_succeeded t | Failed now e \<Rightarrow> snd (model_failed now e t)
     | Forced now \<Rightarrow> force_active now t | Asked now \<Rightarrow> snd (should_retry_primary now t) | Reloaded chain \<Rightarrow> reload_chain chain t)"

text \<open>A loaded chain is never empty.\<close>

lemma loaded_chain: "load_fallback_chain setting primary_model \<noteq> []"
  by (simp add: load_fallback_chain_def Let_def)

definition fallback_step :: "fallback_tracker \<Rightarrow> fallback_tracker \<Rightarrow> bool" where
  "fallback_step t t' = (\<exists>ev. (\<forall>chain. ev = Reloaded chain \<longrightarrow> chain \<noteq> []) \<and> t' = after_event ev t)"

definition tracker_ok :: "fallback_tracker \<Rightarrow> bool" where
  "tracker_ok t = (ft_index t < length (ft_chain t) \<and> ft_requests t < RETRY_REQUEST_INTERVAL \<and>
     (\<not> ft_active t \<longrightarrow> ft_index t = 0 \<and> ft_failures t < MAX_CONSECUTIVE_FAILURES))"

lemmas fallback_defs = after_event_def model_succeeded_def model_failed_def force_active_def should_retry_primary_def
  reload_chain_def MAX_CONSECUTIVE_FAILURES_def RETRY_REQUEST_INTERVAL_def Let_def

interpretation fallback: invariant_machine "\<lambda>t. \<exists>chain. chain \<noteq> [] \<and> t = new_tracker [] chain" fallback_step tracker_ok
proof
  fix t assume "\<exists>chain. chain \<noteq> [] \<and> t = new_tracker [] chain"
  then show "tracker_ok t" by (auto simp: tracker_ok_def new_tracker_def RETRY_REQUEST_INTERVAL_def MAX_CONSECUTIVE_FAILURES_def)
next
  fix t t' assume "tracker_ok t" "fallback_step t t'"
  then show "tracker_ok t'"
    unfolding fallback_step_def by (elim exE conjE) (rename_tac ev, case_tac ev, auto simp: tracker_ok_def fallback_defs split: if_splits)
qed

text \<open>In every reachable state the model in use is one of the chain, and it is the first one unless a fallback is
  active.\<close>

lemma reachable_tracker_uses_chain:
  assumes "chain \<noteq> []" "fallback_step\<^sup>*\<^sup>* (new_tracker [] chain) t"
  shows "current_model t \<in> ce_model ` set (ft_chain t) \<and>
    (\<not> ft_active t \<longrightarrow> current_model t = ce_model (hd (ft_chain t)) \<and> current_provider t = None)"
proof -
  have ok: "tracker_ok t" using fallback.reachable_inv[OF _ assms(2)] assms(1) by blast
  then have "ft_chain t \<noteq> []" by (auto simp: tracker_ok_def)
  then show ?thesis using ok by (auto simp: tracker_ok_def current_model_def current_provider_def hd_conv_nth min_absorb1)
qed

section \<open>How the chain is walked\<close>

text \<open>A failure that does not tell of a missing model, or a question whether to try the first model again\<close>

definition ordinary :: "model_event \<Rightarrow> bool" where
  "ordinary ev = (case ev of Failed now e \<Rightarrow> \<not> is_model_not_found e | Asked now \<Rightarrow> True | _ \<Rightarrow> False)"

definition failure :: "model_event \<Rightarrow> bool" where
  "failure ev = (case ev of Failed now e \<Rightarrow> True | _ \<Rightarrow> False)"

definition failures :: "model_event list \<Rightarrow> nat" where
  "failures evs = length (filter failure evs)"

lemma failures_simps [simp]:
  "failures [] = 0" "failures (Failed now e # evs) = Suc (failures evs)" "failures (Asked now # evs) = failures evs"
  by (simp_all add: failures_def failure_def)

lemma asked_is_idle: "ft_index (snd (should_retry_primary now t)) = ft_index t" "ft_chain (snd (should_retry_primary now t)) = ft_chain t"
    "ft_failures (snd (should_retry_primary now t)) = ft_failures t" "ft_active (snd (should_retry_primary now t)) = ft_active t"
  by (simp_all add: should_retry_primary_def Let_def)

lemma end_of_chain:
  "list_all ordinary evs \<Longrightarrow> ft_index t + 1 = length (ft_chain t) \<Longrightarrow> ft_active t \<Longrightarrow>
   let t' = fold after_event evs t in ft_index t' = ft_index t \<and> ft_chain t' = ft_chain t \<and> ft_active t'"
proof (induction evs arbitrary: t)
  case (Cons ev evs)
  have "ft_index (after_event ev t) = ft_index t \<and> ft_chain (after_event ev t) = ft_chain t \<and> ft_active (after_event ev t)"
    using Cons.prems by (cases ev) (auto simp: ordinary_def after_event_def model_failed_def asked_is_idle Let_def)
  then show ?case using Cons by (simp add: Let_def)
qed (simp add: Let_def)

lemma walk_from:
  "list_all ordinary evs \<Longrightarrow> ft_index t < length (ft_chain t) \<Longrightarrow> ft_failures t < 3 \<Longrightarrow>
   let t' = fold after_event evs t in
     ft_index t' = min (ft_index t + (ft_failures t + failures evs) div 3) (length (ft_chain t) - 1) \<and>
     ft_chain t' = ft_chain t \<and> (ft_active t' \<longleftrightarrow> ft_active t \<or> 3 \<le> ft_failures t + failures evs)"
proof (induction evs arbitrary: t)
  case (Cons ev evs)
  consider (asked) now where "ev = Asked now" | (failed) now e where "ev = Failed now e" "\<not> is_model_not_found e"
    using Cons.prems(1) by (cases ev) (auto simp: ordinary_def)
  then show ?case
  proof cases
    case asked
    then have t: "ft_index (after_event ev t) = ft_index t" "ft_chain (after_event ev t) = ft_chain t"
        "ft_failures (after_event ev t) = ft_failures t" "ft_active (after_event ev t) = ft_active t"
      by (simp_all add: after_event_def asked_is_idle)
    show ?thesis using Cons.IH[of "after_event ev t"] Cons.prems by (simp add: t asked[symmetric] Let_def) (simp add: asked)
  next
    case failed
    then have t: "after_event ev t = snd (model_failed now e t)" by (simp add: after_event_def)
    consider "ft_failures t + 1 < 3" | "ft_failures t = 2" "ft_index t + 1 < length (ft_chain t)"
        | "ft_failures t = 2" "ft_index t + 1 = length (ft_chain t)"
      using Cons.prems(2,3) by linarith
    then show ?thesis
    proof cases
      case 1
      then have "after_event ev t = t\<lparr>ft_failures := ft_failures t + 1\<rparr>"
        using failed(2) by (simp add: t model_failed_def MAX_CONSECUTIVE_FAILURES_def)
      then show ?thesis using Cons.IH[of "after_event ev t"] Cons.prems 1 failed by (simp add: Let_def)
    next
      case 2
      then have "ft_index (after_event ev t) = ft_index t + 1" "ft_failures (after_event ev t) = 0"
          "ft_chain (after_event ev t) = ft_chain t" "ft_active (after_event ev t)"
        using failed(2) by (simp_all add: t model_failed_def MAX_CONSECUTIVE_FAILURES_def)
      then show ?thesis using Cons.IH[of "after_event ev t"] Cons.prems 2 failed by (simp add: Let_def)
    next
      case 3
      then have "ft_index (after_event ev t) = ft_index t" "ft_chain (after_event ev t) = ft_chain t" "ft_active (after_event ev t)"
        using failed(2) by (auto simp: t model_failed_def MAX_CONSECUTIVE_FAILURES_def Let_def)
      then show ?thesis using end_of_chain[of evs "after_event ev t"] Cons.prems 3 failed by (simp add: Let_def)
    qed
  qed
qed (simp add: Let_def)

text \<open>C39: From a new tracker, every third failure in a row moves on to the next model of the chain, up to the last one, where it
  stays, and the fallback is active from the third failure on; asking whether to try the first model again changes nothing of
  it.  A success leads back to the first model.  The failures are none that tell of a missing model.\<close>

theorem failures_walk_chain:
  assumes "chain \<noteq> []" "list_all ordinary evs"
  shows "current_model (fold after_event evs (new_tracker [] chain)) = ce_model (chain ! min (failures evs div 3) (length chain - 1)) \<and>
    (ft_active (fold after_event evs (new_tracker [] chain)) \<longleftrightarrow> 3 \<le> failures evs) \<and>
    current_model (after_event Succeeded (fold after_event evs (new_tracker [] chain))) = ce_model (hd chain)"
proof -
  let ?t = "fold after_event evs (new_tracker [] chain)"
  have t: "ft_index ?t = min (failures evs div 3) (length chain - 1)" "ft_chain ?t = chain" "ft_active ?t \<longleftrightarrow> 3 \<le> failures evs"
    using walk_from[OF assms(2), of "new_tracker [] chain"] assms(1) by (simp_all add: Let_def new_tracker_def)
  moreover have "ft_active ?t \<or> ft_index ?t = 0" using t by auto
  ultimately show ?thesis using assms(1)
    by (auto simp: current_model_def after_event_def model_succeeded_def Let_def hd_conv_nth min_absorb1)
qed

text \<open>A missing model is left at once.\<close>

lemma missing_model_is_left:
  "is_model_not_found e \<Longrightarrow> ft_index t + 1 < length (ft_chain t) \<Longrightarrow>
    current_model (snd (model_failed now e t)) = ce_model (ft_chain t ! (ft_index t + 1))"
  by (cases "ft_chain t") (simp_all add: model_failed_def current_model_def min_absorb1)

section \<open>At concrete chains\<close>

definition three_models :: "chain_entry list" where
  "three_models = load_fallback_chain None ''gpt-5.4''"

definition timeout :: model_event where
  "timeout = Failed 1000 \<lparr>me_text = ''timeout'', me_status = None\<rparr>"

lemma three_models_loaded: "three_models \<noteq> []"
  by (simp add: three_models_def loaded_chain)

definition asked_and_failed :: "model_event list" where
  "asked_and_failed = concat (replicate 7 [Asked 1000, timeout])"

lemma failures_walk_chain_witness:
  "current_model (fold after_event asked_and_failed (new_tracker [] three_models)) = ''gemini-2.0-flash'' \<and>
    current_model (after_event Succeeded (fold after_event asked_and_failed (new_tracker [] three_models))) = ''gpt-5.4''"
proof -
  have "list_all ordinary asked_and_failed" "failures asked_and_failed = 7" by code_simp+
  moreover have "length three_models = 3" "ce_model (three_models ! 2) = ''gemini-2.0-flash''" "ce_model (hd three_models) = ''gpt-5.4''"
    by code_simp+
  ultimately show ?thesis using failures_walk_chain[OF three_models_loaded, of asked_and_failed] by simp
qed

definition second_model :: fallback_tracker where
  "second_model = snd (model_failed 5 \<lparr>me_text = ''model_not_found'', me_status = None\<rparr> (new_tracker [] three_models))"

lemma second_model_reached: "fallback_step\<^sup>*\<^sup>* (new_tracker [] three_models) second_model"
proof (rule r_into_rtranclp)
  have "second_model = after_event (Failed 5 \<lparr>me_text = ''model_not_found'', me_status = None\<rparr>) (new_tracker [] three_models)"
    by (simp add: second_model_def after_event_def)
  then show "fallback_step (new_tracker [] three_models) second_model"
    unfolding fallback_step_def by blast
qed

lemma second_model_active: "ft_active second_model" "current_model second_model = ''claude-haiku-4-5-20251001''"
  by code_simp+

lemma reachable_tracker_uses_chain_witness: "current_model second_model \<in> ce_model ` set (ft_chain second_model)"
  using reachable_tracker_uses_chain[OF three_models_loaded second_model_reached] by blast

text \<open>Every tenth request on a fallback is meant to try the first model again.  Ten requests on a fallback that works do; ten
  that fail may not, since moving on to the next model starts the count again.\<close>

fun retries :: "model_event list \<Rightarrow> fallback_tracker \<Rightarrow> bool list" where
  "retries [] t = []"
| "retries (ev # evs) t = (case ev of Asked now \<Rightarrow> [fst (should_retry_primary now t)] | _ \<Rightarrow> []) @ retries evs (after_event ev t)"

lemma failing_requests_do_not_retry:
  "retries (concat (replicate 10 [Asked 1000, timeout])) second_model = replicate 10 False"
  "retries (replicate 10 (Asked 1000)) second_model = replicate 9 False @ [True]"
  by code_simp+

text \<open>The documented form \<open>ollama:llama3\<close> is not read as a provider and a model, and no provider is inferred for it; and an
  invalid key, which the code says it does not mean, is taken for a missing model.\<close>

lemma ollama_entry_has_no_provider:
  "parse_chain_entry ''ollama:llama3'' = \<lparr>ce_model = ''ollama:llama3'', ce_provider = None\<rparr>"
  "parse_chain_entry ''openai:gpt-5.4'' = \<lparr>ce_model = ''gpt-5.4'', ce_provider = Some ''openai''\<rparr>"
  by code_simp+

lemma invalid_key_skips_model:
  "is_model_not_found \<lparr>me_text = ''Access denied: invalid API key'', me_status = Some 403\<rparr>"
  by code_simp

end
