(* ===== verification/Spec2Isabelle.thy ===== *)
theory Spec2Isabelle
  imports Native_Examples Conversation_Examples Conversation_Plan Rendering_Examples Recovery_Examples Permission_Examples Playback_Properties Queue_Examples Storage_Examples Shell_Examples
    Streaming_Examples Tool_Concurrency Circuit_Breaker Key_Pool_Properties Update_Examples Cache_Properties
    Phone_Safety Message_Dedup Model_Fallback
begin

text \<open>
  Verification library for the core logic of the Viola voice assistant.  Paths are under \<open>src/SOURCE\<close>; each theory
  names its module in its opening text, and a definition has the name of the function it models unless that name clashes.

  \<^bold>\<open>The program.\<close>  A conversation is a list of typed frames.  Before a request to a model the frames are repaired,
  compacted, rendered for the provider, validated and, for one provider, annotated for its prompt cache.  The answer asks for
  tool calls; a policy decides whether a call may run, shell commands are analysed first, and the calls of a streamed
  answer are scheduled while it still arrives.  Results go back into the conversation, the large ones as files.  Around this
  core are the services that requests run on (key pool, circuit breaker, model fallback), the music queue with its playback
  machine, the channels (message deduplication, phone calls) and the update path.

  \<^bold>\<open>Values.\<close>  \<open>Viola_Prelude\<close> has Python values (\<open>pyval\<close>; a dict is an association list in insertion order), the
  string methods, \<open>repr\<close> and JSON output.  Strings are character lists with code points below 256.  Floats
  occur only where the log keeps times as seconds: \<open>restore_ms\<close> rounds as doubles do.  Other times are whole milliseconds or
  seconds, rates whole units.  Every \<open>raise\<close> is a value of an error type in a sum or option.
  \<open>Glob\<close> (\<open>fnmatch\<close>), \<open>Sha256\<close> (\<open>hashlib\<close>) and the first part of \<open>Shell_Text\<close> (\<open>shlex\<close>, \<open>str\<close>) are the parts of
  the standard library that the modules use.

  \<^bold>\<open>Interfaces.\<close>
  \<^item> \<open>State_Machine\<close>: the locale \<open>invariant_machine\<close> (an invariant of the start states that every step keeps holds in
    every state of a run), interpreted for the permission policy, the playback machine, the queue log, the queue engine,
    the streaming executor, the circuit breaker, the model fallback, the conversation (its token account, its breaker of
    compaction) and the plan (its status, its deadlines); and \<open>once_guard\<close> (a guard answers
    whether the key of a call was seen before), interpreted for the completion guard and the skip guard of the queue history.
  \<^item> \<open>Tool_Pairing\<close>: the contract of tool calls and results (\<open>well_paired\<close>, \<open>causal\<close>) and the locales
    \<open>transcript_repair\<close> and \<open>stable_transcript_repair\<close>, interpreted for the repair of frames and of provider messages.
  \<^item> \<open>Alternation\<close>: the locales \<open>role_alternation\<close> and \<open>greedy_alternation\<close> of a pass that merges neighbours of the same
    role, interpreted for frames and for provider messages.

  \<^bold>\<open>Conversation\<close> (\<open>services/conversation\<close>)
  \<^item> \<open>Context_Frames\<close>: \<open>context_frames.py\<close>, the frame record, its blocks, constructors and the prompt bundle.
  \<^item> \<open>Lineage\<close>: \<open>lineage.py\<close>, parent links, the walk from the newest leaf, the report; linking frames and walking them is a
    round trip.
  \<^item> \<open>Secret_Scan\<close>, \<open>Content_Normalization\<close>: \<open>content_normalization.py\<close>.  The rules that recognise secrets are in other
    packages and are a parameter (\<open>norm_env\<close>).
  \<^item> \<open>Frame_Invariants\<close>, \<open>Frame_Repair\<close>, \<open>Native_Invariants\<close>, \<open>Native_Repair\<close>: \<open>message_invariants.py\<close>, tool pairing over
    frames and over provider messages: what is returned is well paired (for provider messages of the shapes of
    \<open>native_ok\<close>).  \<open>Native_Examples\<close> has witnesses and what the repair misses.
  \<^item> \<open>Chain_Validator\<close>: \<open>chain_validator.py\<close>; its pair check accepts exactly the well-paired chains.
  \<^item> \<open>Frame_Rendering\<close>, \<open>Rendering_Properties\<close>, \<open>Rendering_Examples\<close>: \<open>frame_rendering.py\<close> and \<open>canonical_chain.py\<close>; the
    errors a rendering can end in.
  \<^item> \<open>Anthropic_Cache\<close>, \<open>Cache_Properties\<close>: \<open>services/llm/anthropic_cache.py\<close>; the annotated request still passes the
    checks that ran before, its messages carry the one breakpoint that the policy asks for unless the message to be marked is
    thinking only, and every reference is deleted once.
  \<^item> \<open>Interruption\<close>, \<open>Transcript_Repair\<close>, \<open>Recovery_Properties\<close>, \<open>Recovery_Examples\<close>: \<open>repair.py\<close>; how a saved transcript
    stopped, and that a resumed one has no open call at its end and, unless a frame repeats an id, no call answered twice.
  \<^item> \<open>Typed_Compaction\<close>, \<open>Compaction_Properties\<close>, \<open>Compaction_Examples\<close>: \<open>typed_compaction.py\<close>; compaction keeps calls and
    results together, and its expansion loop computes a least closed set.
  \<^item> \<open>Tool_Result_Storage\<close>, \<open>Storage_Properties\<close>, \<open>Storage_Examples\<close>: \<open>tool_result_storage.py\<close>; decisions of the budget are
    stable, fit the limit and are rebuilt from the written records.
  \<^item> \<open>Json\<close>: reading JSON, as \<open>json.loads\<close> does it, with what \<open>json.dumps\<close> writes read back.  \<open>Frame_Storage\<close>,
    \<open>Frame_Storage_Properties\<close>, \<open>Frame_Storage_Examples\<close>: the log of \<open>state_manager.py\<close>, a list of rows; a frame that is
    \<open>storable\<close> is read back, and so is a session whose frames were replaced by such frames.
  \<^item> \<open>ConversationStateManager\<close> of \<open>state_manager.py\<close>: \<open>Conversation_State\<close> (its record, appending, the chain of frames, the
    projection), \<open>Conversation_Window\<close> (what one command sends: it fits the window, has the newest exchange and only moves
    on), \<open>Conversation_Compaction\<close> (\<open>compact\<close> as the step before and the step after the answer of the summarizer),
    \<open>Conversation_Sessions\<close> (with \<open>session_identity.py\<close>: branching, resuming, recovery, restoring at the start) and
    \<open>Conversation_Plan\<close> (steps that expire).  \<open>Conversation_Properties\<close>: the token account is exact, a tripped breaker stays
    open, what is appended is in the log, a branch copies the transcript, a recovery rewrites its session;
    \<open>Conversation_Examples\<close>: where code and comments part.

  \<^bold>\<open>Tools\<close> (\<open>intent\<close>)
  \<^item> \<open>Permission_Policy\<close>, \<open>Permission_Properties\<close>, \<open>Permission_Examples\<close>: \<open>permissions/policy.py\<close>; the documented order of
    authorities holds as long as no hook overrules a stricter one, deny rules only restrict, and a classifier cannot deny
    for ever.
  \<^item> \<open>Shell_Text\<close>, \<open>Shell_Rules\<close>, \<open>Shell_Safety\<close>: \<open>permissions/shell_safety.py\<close> for bash, PowerShell and cmd.
    \<open>Shell_Depth\<close> shows that nested shells end, \<open>Shell_Properties\<close> characterises what is allowed by default,
    \<open>Shell_Compound\<close> and \<open>Shell_Words\<close> go through the parser, \<open>Shell_Examples\<close> has commands taken for harmless that are not.
  \<^item> \<open>Tool_Concurrency\<close>: \<open>tool_concurrency.py\<close>, which calls may run together.  \<open>Streaming_Executor\<close>,
    \<open>Streaming_Properties\<close>, \<open>Streaming_Examples\<close>: \<open>streaming_tool_executor.py\<close>; a task of the event loop runs up to its next
    await point in one action, and the properties hold over every interleaving of the actions; when the runners end, every
    run leads the consumer to its end.
  \<^item> \<open>Toll_Fraud\<close>, \<open>Phone_Safety\<close>: \<open>tools/toll_fraud_prefixes.py\<close>, the blocked numbers of \<open>tools/phone_call.py\<close> and
    \<open>telephony/number_validation.py\<close>.  The library \<open>phonenumbers\<close> is a parameter, a record of its functions.

  \<^bold>\<open>Services\<close>
  \<^item> \<open>Circuit_Breaker\<close> (\<open>utils/circuit_breaker.py\<close>), \<open>Key_Pool\<close> and \<open>Key_Pool_Properties\<close> (\<open>services/llm/key_pool.py\<close>),
    \<open>Model_Fallback\<close> (\<open>services/llm/model_fallback.py\<close>), \<open>Message_Dedup\<close> (\<open>messaging/dedup.py\<close>).
  \<^item> \<open>Update_Rollout\<close>, \<open>Update_Policy\<close>, \<open>Update_Manifest\<close> (\<open>updates\<close>), \<open>Update_Client\<close> and \<open>Update_Cache\<close>
    (\<open>utils/update_checker.py\<close>), \<open>Update_Properties\<close>, \<open>Update_Examples\<close>: the manifest a server builds against what a
    client makes of it.

  \<^bold>\<open>Music\<close>
  \<^item> \<open>Playback_Machine\<close>, \<open>Playback_Properties\<close>: \<open>audio_core/state_machine.py\<close>; a refinement of the documented diagram.
  \<^item> \<open>Playlist_Cursor\<close>, \<open>Queue_Engine\<close>, \<open>Queue_Properties\<close>, \<open>Queue_Examples\<close>: \<open>music/queue/playlist_cursor.py\<close>,
    \<open>music/runtime/queue_engine.py\<close> and \<open>restore_saved_order\<close> of \<open>music/shuffle_control.py\<close>; every track is
    accounted for, and playing moves along a list.
  \<^item> \<open>Queue_History\<close>, \<open>Queue_History_Properties\<close>: \<open>diagnostics/queue_history.py\<close>.

  \<^bold>\<open>Parameters.\<close>  Fresh uuids, the clock (\<open>now\<close>), the token counter, the cipher of the log, the summary of a compaction, the classifier of tool calls, the shuffle of the
  standard library, the answers of runners, hooks and the network, the environment and the settings, the reading of a text
  as a float, the parsing of a URL, and the file system (\<open>pe_root\<close>, \<open>pe_io_error\<close>, \<open>shell_env\<close>, POSIX paths) are arguments.
  Where a property assumes something of them, its witness uses a concrete function.

  \<^bold>\<open>Loops and fuel.\<close>  \<open>walk_up\<close> (ids not yet seen), \<open>expand_loop\<close> (frames not yet selected), \<open>parse_glob\<close> and
  \<open>strip_wrappers\<close> (length of the input) end by measures.  \<open>validate_in\<close> runs with the weight of the text as its depth;
  \<open>nested_validation_ends\<close> shows that the depth is never used up, because the text of a nested shell weighs less.  \<open>climb\<close>
  takes one step of a rollout per unit, and as many units as the ladder has steps reach its end.  The JSON reader runs
  with twice the length of the text as its fuel, and \<open>fuel_is_enough\<close> shows that more makes no difference.
  \<open>trim_history\<close> ends because it drops a message at each step, \<open>missing_bits\<close> and \<open>excess_bits\<close> because a quotient
  doubles or halves.

  \<^bold>\<open>Locks and logs.\<close>  A method that holds a lock is one step.  Log output is left out everywhere.

  \<^bold>\<open>Not modelled.\<close>  Of \<open>state_manager.py\<close> the calls of the summarizer and of the extraction of facts, the lifecycle hooks of
  sessions and the schema of the table;
  \<open>agent_loop.py\<close> and \<open>agent_executor.py\<close> (orchestration in asynchronous code around the modules above); provider clients,
  tool servers, telephony calls and the cloud side of phone calls (network code and third-party state); audio capture and wake
  words, the desktop interface and multi-room devices; \<open>apply_shuffle\<close>, which finds its engine by attribute; the snapshot
  of the queue history; the scheduler thread, the state file and the notification of the update check; the report file of
  the model fallback.  They are input and output around third-party libraries, with no behaviour of their own that could be
  stated without a model of those.
\<close>

end
